(* ===== verification/Phoenix_Prelude.thy ===== *)
theory Phoenix_Prelude
  imports Main "HOL-Library.Word"
begin

text \<open>
  Shared vocabulary of the development.

  \<^item> \<open>'e + 'a\<close> is Rust's \<open>Result\<close> (\<open>Inl\<close> the error); \<open>res_bind\<close> is the
    question-mark operator.
  \<^item> \<open>('s, 'e, 'a) op\<close> is a fallible method on a state: it returns the result and the
    state it leaves behind, also when it fails (Rust does not roll back). \<open>op_bind\<close> is
    the question-mark operator on such methods.
  \<^item> \<open>hoare P m Q E\<close> is total-correctness style reasoning about an operation: from a
    state with \<open>P\<close>, a success satisfies \<open>Q\<close> and a failure satisfies \<open>E\<close>. The rules
    are collected in \<open>hoare_rules\<close>.
  \<^item> The integer operations \<open>w_checked_add\<close>, \<open>w_checked_mul\<close>, \<open>w_checked_sub\<close>,
    \<open>w_saturating_sub\<close> and \<open>w_saturating_add\<close> are those of Rust's unsigned integers, at
    any width.
  \<^item> \<open>systime\<close> and \<open>duration\<close> are \<open>SystemTime\<close> and \<open>Duration\<close> in nanoseconds.
\<close>

section \<open>Collections of facts\<close>

named_theorems hoare_rules \<open>introduction rules of the operation calculus\<close>
named_theorems keeps_rules \<open>introduction rules for operations that keep an invariant\<close>
named_theorems word_facts \<open>facts about checked and saturating word arithmetic\<close>

section \<open>Results\<close>

fun res_bind :: "'e + 'a \<Rightarrow> ('a \<Rightarrow> 'e + 'b) \<Rightarrow> 'e + 'b" where
  "res_bind (Inl e) f = Inl e"
| "res_bind (Inr x) f = f x"

definition ok_or :: "'e \<Rightarrow> 'a option \<Rightarrow> 'e + 'a" where
  "ok_or e x = (case x of None \<Rightarrow> Inl e | Some v \<Rightarrow> Inr v)"

lemma res_bind_Inr_iff:
  "res_bind r f = Inr y \<longleftrightarrow> (\<exists>x. r = Inr x \<and> f x = Inr y)"
  by (cases r) auto

lemma res_bind_Inl_iff:
  "res_bind r f = Inl e \<longleftrightarrow> r = Inl e \<or> (\<exists>x. r = Inr x \<and> f x = Inl e)"
  by (cases r) auto

lemma map_sum_Inr_iff: "map_sum f g r = Inr y \<longleftrightarrow> (\<exists>x. r = Inr x \<and> y = g x)"
  by (cases r) auto

lemma ok_or_simps [simp]:
  "ok_or e None = Inl e" "ok_or e (Some x) = Inr x"
  by (simp_all add: ok_or_def)

lemma ok_or_Inr_iff [simp]: "ok_or e x = Inr y \<longleftrightarrow> x = Some y"
  by (cases x) auto

lemma ok_or_Inl_iff [simp]: "ok_or e x = Inl e' \<longleftrightarrow> x = None \<and> e' = e"
  by (cases x) auto

section \<open>Fallible operations on a state\<close>

type_synonym ('s, 'e, 'a) op = "'s \<Rightarrow> ('e + 'a) \<times> 's"

definition op_return :: "'a \<Rightarrow> ('s, 'e, 'a) op" where
  "op_return x = (\<lambda>s. (Inr x, s))"

definition op_throw :: "'e \<Rightarrow> ('s, 'e, 'a) op" where
  "op_throw e = (\<lambda>s. (Inl e, s))"

definition op_lift :: "'e + 'a \<Rightarrow> ('s, 'e, 'a) op" where
  "op_lift r = (\<lambda>s. (r, s))"

definition op_bind :: "('s, 'e, 'a) op \<Rightarrow> ('a \<Rightarrow> ('s, 'e, 'b) op) \<Rightarrow> ('s, 'e, 'b) op" where
  "op_bind m f = (\<lambda>s. case m s of (Inl e, s') \<Rightarrow> (Inl e, s') | (Inr x, s') \<Rightarrow> f x s')"

definition op_match :: "('s, 'e, 'a) op \<Rightarrow> ('e \<Rightarrow> ('s, 'f, 'b) op) \<Rightarrow> ('a \<Rightarrow> ('s, 'f, 'b) op) \<Rightarrow>
    ('s, 'f, 'b) op" where
  "op_match m h f = (\<lambda>s. case m s of (Inl e, s') \<Rightarrow> h e s' | (Inr x, s') \<Rightarrow> f x s')"

lemma op_apply [simp]:
  "op_return x s = (Inr x, s)" "op_throw e s = (Inl e, s)" "op_lift r s = (r, s)"
  by (simp_all add: op_return_def op_throw_def op_lift_def)

lemma op_bind_apply:
  "op_bind m f s = (case m s of (Inl e, s') \<Rightarrow> (Inl e, s') | (Inr x, s') \<Rightarrow> f x s')"
  by (simp add: op_bind_def)

lemma op_match_apply:
  "op_match m h f s = (case m s of (Inl e, s') \<Rightarrow> h e s' | (Inr x, s') \<Rightarrow> f x s')"
  by (simp add: op_match_def)

text \<open>The two components of a pair of states, as Rust's two shared objects.\<close>

definition on_fst :: "('s, 'e, 'a) op \<Rightarrow> ('s \<times> 'w, 'e, 'a) op" where
  "on_fst m = (\<lambda>(s, w). case m s of (r, s') \<Rightarrow> (r, (s', w)))"

definition on_snd :: "('w, 'e, 'a) op \<Rightarrow> ('s \<times> 'w, 'e, 'a) op" where
  "on_snd m = (\<lambda>(s, w). case m w of (r, w') \<Rightarrow> (r, (s, w')))"

lemma on_fst_apply [simp]: "on_fst m (s, w) = (case m s of (r, s') \<Rightarrow> (r, (s', w)))"
  by (simp add: on_fst_def)

lemma on_snd_apply [simp]: "on_snd m (s, w) = (case m w of (r, w') \<Rightarrow> (r, (s, w')))"
  by (simp add: on_snd_def)

section \<open>The operation calculus\<close>

definition hoare :: "('s \<Rightarrow> bool) \<Rightarrow> ('s, 'e, 'a) op \<Rightarrow> ('a \<Rightarrow> 's \<Rightarrow> bool) \<Rightarrow> ('e \<Rightarrow> 's \<Rightarrow> bool) \<Rightarrow> bool" where
  "hoare P m Q E \<longleftrightarrow>
     (\<forall>s. P s \<longrightarrow> (\<forall>x s'. m s = (Inr x, s') \<longrightarrow> Q x s') \<and> (\<forall>e s'. m s = (Inl e, s') \<longrightarrow> E e s'))"

lemma hoareI:
  assumes "\<And>s x s'. P s \<Longrightarrow> m s = (Inr x, s') \<Longrightarrow> Q x s'"
    and "\<And>s e s'. P s \<Longrightarrow> m s = (Inl e, s') \<Longrightarrow> E e s'"
  shows "hoare P m Q E"
  unfolding hoare_def using assms by blast

lemma hoareD_Inr: "hoare P m Q E \<Longrightarrow> P s \<Longrightarrow> m s = (Inr x, s') \<Longrightarrow> Q x s'"
  unfolding hoare_def by blast

lemma hoareD_Inl: "hoare P m Q E \<Longrightarrow> P s \<Longrightarrow> m s = (Inl e, s') \<Longrightarrow> E e s'"
  unfolding hoare_def by blast

lemma hoare_conseq:
  assumes "hoare P' m Q' E'"
    and "\<And>s. P s \<Longrightarrow> P' s"
    and "\<And>x s. Q' x s \<Longrightarrow> Q x s"
    and "\<And>e s. E' e s \<Longrightarrow> E e s"
  shows "hoare P m Q E"
  using assms unfolding hoare_def by blast

lemma hoare_return [hoare_rules]: "(\<And>s. P s \<Longrightarrow> Q x s) \<Longrightarrow> hoare P (op_return x) Q E"
  by (auto intro!: hoareI)

lemma hoare_throw [hoare_rules]: "(\<And>s. P s \<Longrightarrow> E e s) \<Longrightarrow> hoare P (op_throw e) Q E"
  by (auto intro!: hoareI)

lemma hoare_lift [hoare_rules]:
  assumes "\<And>x s. r = Inr x \<Longrightarrow> P s \<Longrightarrow> Q x s" and "\<And>e s. r = Inl e \<Longrightarrow> P s \<Longrightarrow> E e s"
  shows "hoare P (op_lift r) Q E"
  using assms by (auto intro!: hoareI)

lemma hoare_bind:
  assumes "hoare P m R E" and "\<And>x. hoare (R x) (f x) Q E"
  shows "hoare P (op_bind m f) Q E"
proof (rule hoareI)
  fix s x s' assume "P s" and "op_bind m f s = (Inr x, s')"
  then obtain y t where "m s = (Inr y, t)" and "f y t = (Inr x, s')"
    by (auto simp: op_bind_apply split: prod.splits sum.splits)
  then show "Q x s'" using assms \<open>P s\<close> by (blast dest: hoareD_Inr)
next
  fix s e s' assume "P s" and "op_bind m f s = (Inl e, s')"
  then consider "m s = (Inl e, s')" | y t where "m s = (Inr y, t)" and "f y t = (Inl e, s')"
    by (auto simp: op_bind_apply split: prod.splits sum.splits)
  then show "E e s'" using assms \<open>P s\<close> by cases (blast dest: hoareD_Inr hoareD_Inl)+
qed

lemma hoare_match:
  assumes "hoare P m R F" and "\<And>x. hoare (R x) (f x) Q E" and "\<And>e. hoare (F e) (h e) Q E"
  shows "hoare P (op_match m h f) Q E"
proof (rule hoareI)
  fix s x s' assume "P s" and "op_match m h f s = (Inr x, s')"
  then consider e t where "m s = (Inl e, t)" and "h e t = (Inr x, s')"
    | y t where "m s = (Inr y, t)" and "f y t = (Inr x, s')"
    by (auto simp: op_match_apply split: prod.splits sum.splits)
  then show "Q x s'" using assms \<open>P s\<close> by cases (blast dest: hoareD_Inr hoareD_Inl)+
next
  fix s e s' assume "P s" and "op_match m h f s = (Inl e, s')"
  then consider d t where "m s = (Inl d, t)" and "h d t = (Inl e, s')"
    | y t where "m s = (Inr y, t)" and "f y t = (Inl e, s')"
    by (auto simp: op_match_apply split: prod.splits sum.splits)
  then show "E e s'" using assms \<open>P s\<close> by cases (blast dest: hoareD_Inr hoareD_Inl)+
qed

lemma hoare_if [hoare_rules]:
  assumes "b \<Longrightarrow> hoare P m Q E" and "\<not> b \<Longrightarrow> hoare P n Q E"
  shows "hoare P (if b then m else n) Q E"
  using assms by simp

lemma hoare_case_option [hoare_rules]:
  assumes "x = None \<Longrightarrow> hoare P m Q E" and "\<And>y. x = Some y \<Longrightarrow> hoare P (f y) Q E"
  shows "hoare P (case x of None \<Rightarrow> m | Some y \<Rightarrow> f y) Q E"
  using assms by (cases x) auto

lemma hoare_on_fst:
  assumes "\<And>w. hoare (\<lambda>s. P (s, w)) m (\<lambda>x s. Q x (s, w)) (\<lambda>e s. E e (s, w))"
  shows "hoare P (on_fst m) Q E"
  by (rule hoareI; clarsimp split: prod.splits; insert assms; blast dest: hoareD_Inr hoareD_Inl)

lemma hoare_on_snd:
  assumes "\<And>s. hoare (\<lambda>w. P (s, w)) m (\<lambda>x w. Q x (s, w)) (\<lambda>e w. E e (s, w))"
  shows "hoare P (on_snd m) Q E"
  by (rule hoareI; clarsimp split: prod.splits; insert assms; blast dest: hoareD_Inr hoareD_Inl)

text \<open>An operation that keeps an invariant whatever it returns.\<close>

definition keeps :: "('s \<Rightarrow> bool) \<Rightarrow> ('s, 'e, 'a) op \<Rightarrow> bool" where
  "keeps I m \<longleftrightarrow> hoare I m (\<lambda>_. I) (\<lambda>_. I)"

lemma keepsI: "(\<And>s. I s \<Longrightarrow> I (snd (m s))) \<Longrightarrow> keeps I m"
  unfolding keeps_def by (rule hoareI) (metis snd_conv)+

lemma keepsD:
  assumes "keeps I m" and "I s"
  shows "I (snd (m s))"
proof (cases "m s")
  case (Pair r t)
  then show ?thesis
    using assms unfolding keeps_def by (cases r) (auto dest: hoareD_Inr hoareD_Inl)
qed

lemma keeps_return [keeps_rules]: "keeps I (op_return x)"
  by (rule keepsI) simp

lemma keeps_throw [keeps_rules]: "keeps I (op_throw e)"
  by (rule keepsI) simp

lemma keeps_lift [keeps_rules]: "keeps I (op_lift r)"
  by (rule keepsI) simp

lemma keeps_bind [keeps_rules]: "keeps I m \<Longrightarrow> (\<And>x. keeps I (f x)) \<Longrightarrow> keeps I (op_bind m f)"
  unfolding keeps_def by (rule hoare_bind)

lemma keeps_match [keeps_rules]:
  "keeps I m \<Longrightarrow> (\<And>x. keeps I (f x)) \<Longrightarrow> (\<And>e. keeps I (h e)) \<Longrightarrow> keeps I (op_match m h f)"
  unfolding keeps_def by (rule hoare_match)

lemma keeps_if [keeps_rules]: "(b \<Longrightarrow> keeps I m) \<Longrightarrow> (\<not> b \<Longrightarrow> keeps I n) \<Longrightarrow> keeps I (if b then m else n)"
  by simp

lemma keeps_case_option [keeps_rules]:
  "(x = None \<Longrightarrow> keeps I m) \<Longrightarrow> (\<And>y. x = Some y \<Longrightarrow> keeps I (f y)) \<Longrightarrow>
    keeps I (case x of None \<Rightarrow> m | Some y \<Rightarrow> f y)"
  by (cases x) auto

lemma keeps_on_snd [keeps_rules]: "keeps (\<lambda>(s, w). J s) (on_snd m)"
  by (rule keepsI) (auto split: prod.splits)

section \<open>Unsigned machine integers\<close>

type_synonym u8 = "8 word"
type_synonym u16 = "16 word"
type_synonym u32 = "32 word"
type_synonym u64 = "64 word"

definition w_checked_add :: "'a::len word \<Rightarrow> 'a word \<Rightarrow> 'a word option" where
  "w_checked_add a b = (if unat a + unat b < 2 ^ LENGTH('a) then Some (a + b) else None)"

definition w_checked_mul :: "'a::len word \<Rightarrow> 'a word \<Rightarrow> 'a word option" where
  "w_checked_mul a b = (if unat a * unat b < 2 ^ LENGTH('a) then Some (a * b) else None)"

definition w_checked_sub :: "'a::len word \<Rightarrow> 'a word \<Rightarrow> 'a word option" where
  "w_checked_sub a b = (if b \<le> a then Some (a - b) else None)"

definition w_saturating_sub :: "'a::len word \<Rightarrow> 'a word \<Rightarrow> 'a word" where
  "w_saturating_sub a b = (if b \<le> a then a - b else 0)"

definition w_saturating_add :: "'a::len word \<Rightarrow> 'a word \<Rightarrow> 'a word" where
  "w_saturating_add a b = (if unat a + unat b < 2 ^ LENGTH('a) then a + b else - 1)"

definition w_saturating_mul :: "'a::len word \<Rightarrow> 'a word \<Rightarrow> 'a word" where
  "w_saturating_mul a b = (if unat a * unat b < 2 ^ LENGTH('a) then a * b else - 1)"

lemma w_checked_add_Some [word_facts]:
  fixes a b c :: "'a::len word"
  shows "w_checked_add a b = Some c \<longleftrightarrow> unat a + unat b < 2 ^ LENGTH('a) \<and> unat c = unat a + unat b"
  by (auto simp: w_checked_add_def unat_word_ariths word_unat_eq_iff)

lemma w_checked_add_None [word_facts]:
  fixes a b :: "'a::len word"
  shows "w_checked_add a b = None \<longleftrightarrow> 2 ^ LENGTH('a) \<le> unat a + unat b"
  by (auto simp: w_checked_add_def)

lemma w_checked_mul_Some [word_facts]:
  fixes a b c :: "'a::len word"
  shows "w_checked_mul a b = Some c \<longleftrightarrow> unat a * unat b < 2 ^ LENGTH('a) \<and> unat c = unat a * unat b"
  by (auto simp: w_checked_mul_def unat_word_ariths word_unat_eq_iff)

lemma w_checked_mul_None [word_facts]:
  fixes a b :: "'a::len word"
  shows "w_checked_mul a b = None \<longleftrightarrow> 2 ^ LENGTH('a) \<le> unat a * unat b"
  by (auto simp: w_checked_mul_def)

lemma w_checked_sub_Some [word_facts]:
  fixes a b c :: "'a::len word"
  shows "w_checked_sub a b = Some c \<longleftrightarrow> unat b \<le> unat a \<and> unat c = unat a - unat b"
  by (auto simp: w_checked_sub_def word_le_nat_alt unat_sub word_unat_eq_iff)

lemma unat_saturating_sub [word_facts]: "unat (w_saturating_sub a b) = unat a - unat b"
  by (auto simp: w_saturating_sub_def word_le_nat_alt unat_sub)

lemma unat_saturating_add [word_facts]:
  fixes a b :: "'a::len word"
  shows "unat (w_saturating_add a b) = min (unat a + unat b) (2 ^ LENGTH('a) - 1)"
  by (auto simp: w_saturating_add_def unat_word_ariths unsigned_minus_1_eq_mask mask_eq_exp_minus_1)

text \<open>
  A sum over a list of unsigned values, as \<open>Iterator::sum\<close> computes it (wrapping, the
  behaviour without overflow checks), equals the sum of the values when that fits.
\<close>

lemma unat_sum_list:
  fixes xs :: "'a::len word list"
  assumes "sum_list (map unat xs) < 2 ^ LENGTH('a)"
  shows "unat (sum_list xs) = sum_list (map unat xs)"
  using assms by (induction xs) (auto simp: unat_word_ariths)

section \<open>Opaque values\<close>

text \<open>
  \<open>serde_json::Value\<close>, a type of a library the sources only pass through: nothing about
  its values is assumed.
\<close>

typedecl json

section \<open>Time\<close>

text \<open>
  \<open>SystemTime\<close> holds a signed 64-bit second and a nanosecond, \<open>Duration\<close> an unsigned
  64-bit second and a nanosecond; both are kept here as a count of nanoseconds, and the
  sum of the two is refused (Rust panics) where it leaves the range of \<open>SystemTime\<close>.
\<close>

type_synonym systime = int
type_synonym duration = nat

definition nanos_per_sec :: nat where
  "nanos_per_sec = 1000000000"

definition duration_from_secs :: "nat \<Rightarrow> duration" where
  "duration_from_secs n = n * nanos_per_sec"

definition duration_max :: duration where
  "duration_max = 2 ^ 64 * nanos_per_sec - 1"

definition systime_min :: systime where
  "systime_min = - (2 ^ 63) * int nanos_per_sec"

definition systime_sup :: systime where
  "systime_sup = 2 ^ 63 * int nanos_per_sec"

definition systime_add :: "systime \<Rightarrow> duration \<Rightarrow> systime option" where
  "systime_add t d = (if t + int d < systime_sup then Some (t + int d) else None)"

definition duration_since :: "systime \<Rightarrow> systime \<Rightarrow> duration + duration" where
  "duration_since t earlier = (if earlier \<le> t then Inr (nat (t - earlier)) else Inl (nat (earlier - t)))"

definition unix_epoch :: systime where
  "unix_epoch = 0"

end
