(* ===== verification/Rust_Text.thy ===== *)
theory Rust_Text
  imports Phoenix_Prelude "HOL-Library.Char_ord" "HOL-Library.List_Lexorder"
    "HOL-Library.Product_Lexorder"
begin

text \<open>
  Rust's \<open>str\<close> as the sources use it. A string is the list of its UTF-8 bytes
  (\<open>char\<close> has eight bits), so \<open>length\<close> is \<open>str::len\<close> and the lexicographic order on
  character lists is Rust's order on strings. The theory has the parsing and printing
  functions of the standard library that the modelled code calls and the facts about
  them that the components share, above all that printing a number and reading it back
  returns it.
\<close>

section \<open>Whitespace\<close>

text \<open>
  \<open>ws_len s\<close> is the number of bytes of the Unicode \<open>White_Space\<close> character at the
  front of \<open>s\<close>, or 0: U+0009 to U+000D, U+0020, U+0085, U+00A0, U+1680, U+2000 to
  U+200A, U+2028, U+2029, U+202F, U+205F and U+3000, the characters \<open>str::trim\<close> and
  \<open>str::split_whitespace\<close> act on.
\<close>

definition is_ascii_ws :: "char \<Rightarrow> bool" where
  "is_ascii_ws c \<longleftrightarrow> (of_char c :: nat) \<in> {9, 10, 11, 12, 13, 32}"

definition ws_len :: "string \<Rightarrow> nat" where
  "ws_len s =
     (case s of
        [] \<Rightarrow> 0
      | a # s1 \<Rightarrow>
          if is_ascii_ws a then 1
          else (case s1 of
                  [] \<Rightarrow> 0
                | b # s2 \<Rightarrow>
                    if a = CHR 0xC2 \<and> b \<in> {CHR 0x85, CHR 0xA0} then 2
                    else (case s2 of
                            [] \<Rightarrow> 0
                          | c # _ \<Rightarrow>
                              if a = CHR 0xE1 \<and> b = CHR 0x9A \<and> c = CHR 0x80 then 3
                              else if a = CHR 0xE2 \<and> b = CHR 0x80 \<and>
                                (128 \<le> (of_char c :: nat) \<and> (of_char c :: nat) \<le> 138
                                  \<or> c \<in> {CHR 0xA8, CHR 0xA9, CHR 0xAF}) then 3
                              else if a = CHR 0xE2 \<and> b = CHR 0x81 \<and> c = CHR 0x9F then 3
                              else if a = CHR 0xE3 \<and> b = CHR 0x80 \<and> c = CHR 0x80 then 3
                              else 0)))"

function trim_start :: "string \<Rightarrow> string" where
  "trim_start s = (if ws_len s = 0 \<or> s = [] then s else trim_start (drop (ws_len s) s))"
  by pat_completeness auto
termination
  by (relation "measure length") auto

declare trim_start.simps [simp del]

text \<open>\<open>s.trim().is_empty()\<close>: nothing but white space.\<close>

definition trim_is_empty :: "string \<Rightarrow> bool" where
  "trim_is_empty s \<longleftrightarrow> trim_start s = []"

lemma ws_len_Nil [simp]: "ws_len [] = 0"
  by (simp add: ws_len_def)

lemma trim_is_empty_Nil [simp]: "trim_is_empty []"
  by (simp add: trim_is_empty_def trim_start.simps)

lemma trim_is_empty_nonws: "ws_len s = 0 \<Longrightarrow> trim_is_empty s \<longleftrightarrow> s = []"
  by (simp add: trim_is_empty_def trim_start.simps)

text \<open>
  \<open>split_whitespace\<close>: the maximal runs without white space. \<open>acc\<close> is the current run,
  reversed.
\<close>

function split_ws_from :: "string \<Rightarrow> string \<Rightarrow> string list" where
  "split_ws_from acc s =
     (case s of
        [] \<Rightarrow> (if acc = [] then [] else [rev acc])
      | c # t \<Rightarrow>
          if ws_len s = 0 then split_ws_from (c # acc) t
          else (if acc = [] then [] else [rev acc]) @ split_ws_from [] (drop (ws_len s) s))"
  by pat_completeness auto
termination
  by (relation "measure (\<lambda>(acc, s). length s)") (auto simp: less_Suc_eq)

declare split_ws_from.simps [simp del]

definition split_whitespace :: "string \<Rightarrow> string list" where
  "split_whitespace s = split_ws_from [] s"

section \<open>Splitting at a character\<close>

fun split_once :: "char \<Rightarrow> string \<Rightarrow> (string \<times> string) option" where
  "split_once d [] = None"
| "split_once d (c # s) =
     (if c = d then Some ([], s)
      else map_option (\<lambda>(a, b). (c # a, b)) (split_once d s))"

lemma split_once_None_iff: "split_once d s = None \<longleftrightarrow> d \<notin> set s"
  by (induction s) auto

lemma split_once_Some_iff:
  "split_once d s = Some (a, b) \<longleftrightarrow> s = a @ d # b \<and> d \<notin> set a"
proof (induction s arbitrary: a)
  case Nil
  then show ?case by simp
next
  case (Cons c s)
  then show ?case by (cases a) auto
qed

lemma split_once_append [simp]: "d \<notin> set a \<Longrightarrow> split_once d (a @ d # b) = Some (a, b)"
  by (simp add: split_once_Some_iff)

fun split_on :: "'a \<Rightarrow> 'a list \<Rightarrow> 'a list list" where
  "split_on d [] = [[]]"
| "split_on d (c # s) =
     (if c = d then [] # split_on d s
      else (case split_on d s of [] \<Rightarrow> [[c]] | w # ws \<Rightarrow> (c # w) # ws))"

lemma split_on_not_Nil [simp]: "split_on d s \<noteq> []"
  by (cases s) (auto split: list.splits)

lemma split_on_no_sep: "d \<notin> set s \<Longrightarrow> split_on d s = [s]"
  by (induction s) auto

lemma split_on_append: "d \<notin> set a \<Longrightarrow> split_on d (a @ d # s) = a # split_on d s"
  by (induction a) auto

lemma split_on_parts: "p \<in> set (split_on d s) \<Longrightarrow> d \<notin> set p \<and> set p \<subseteq> set s"
  by (induction d s arbitrary: p rule: split_on.induct) (fastforce split: list.splits if_splits)+

section \<open>Decimal numbers\<close>

definition is_ascii_digit :: "char \<Rightarrow> bool" where
  "is_ascii_digit c \<longleftrightarrow> 48 \<le> (of_char c :: nat) \<and> (of_char c :: nat) \<le> 57"

definition digit_val :: "char \<Rightarrow> nat" where
  "digit_val c = of_char c - 48"

definition digit_char :: "nat \<Rightarrow> char" where
  "digit_char n = char_of (n + 48)"

lemma of_char_digit_char [simp]: "n < 10 \<Longrightarrow> (of_char (digit_char n) :: nat) = n + 48"
  by (simp add: digit_char_def)

lemma digit_val_digit_char [simp]: "n < 10 \<Longrightarrow> digit_val (digit_char n) = n"
  by (simp add: digit_val_def)

lemma is_ascii_digit_digit_char [simp]: "n < 10 \<Longrightarrow> is_ascii_digit (digit_char n)"
  by (simp add: is_ascii_digit_def)

lemma digit_val_le: "is_ascii_digit c \<Longrightarrow> digit_val c \<le> 9"
  by (auto simp: is_ascii_digit_def digit_val_def)

definition digits_value :: "string \<Rightarrow> nat" where
  "digits_value s = foldl (\<lambda>acc c. acc * 10 + digit_val c) 0 s"

lemma digits_value_Nil [simp]: "digits_value [] = 0"
  by (simp add: digits_value_def)

lemma digits_value_snoc [simp]: "digits_value (s @ [c]) = digits_value s * 10 + digit_val c"
  by (simp add: digits_value_def)

text \<open>
  \<open>text.parse::<uN>()\<close> on a text already known to be ASCII digits: the value, or \<open>None\<close>
  when it does not fit.
\<close>

definition parse_digits :: "string \<Rightarrow> 'a::len word option" where
  "parse_digits s = (if digits_value s < 2 ^ LENGTH('a) then Some (of_nat (digits_value s)) else None)"

lemma parse_digits_Some_iff:
  fixes v :: "'a::len word"
  shows "parse_digits s = Some v \<longleftrightarrow> unat v = digits_value s"
proof
  assume "parse_digits s = Some v"
  then show "unat v = digits_value s"
    by (auto simp: parse_digits_def unat_of_nat split: if_splits)
next
  assume "unat v = digits_value s"
  then have "digits_value s = unat v" by simp
  moreover have "unat v < 2 ^ LENGTH('a)" by (rule unsigned_less)
  ultimately show "parse_digits s = Some v"
    by (simp add: parse_digits_def)
qed

lemma parse_digits_None_iff:
  "(parse_digits s :: 'a::len word option) = None \<longleftrightarrow> 2 ^ LENGTH('a) \<le> digits_value s"
  by (auto simp: parse_digits_def)

text \<open>\<open>text.parse::<uN>()\<close>: decimal digits, possibly after a plus sign.\<close>

definition parse_unsigned :: "string \<Rightarrow> 'a::len word option" where
  "parse_unsigned s =
     (let digits = (if s \<noteq> [] \<and> hd s = CHR ''+'' then tl s else s)
      in if digits = [] \<or> \<not> list_all is_ascii_digit digits then None else parse_digits digits)"

text \<open>The decimal text of a natural number (\<open>Display\<close> of the unsigned integers).\<close>

fun nat_to_string :: "nat \<Rightarrow> string" where
  "nat_to_string n = (if n < 10 then [digit_char n] else nat_to_string (n div 10) @ [digit_char (n mod 10)])"

declare nat_to_string.simps [simp del]

lemma nat_to_string_small [simp]: "n < 10 \<Longrightarrow> nat_to_string n = [digit_char n]"
  by (simp add: nat_to_string.simps)

lemma nat_to_string_big: "10 \<le> n \<Longrightarrow> nat_to_string n = nat_to_string (n div 10) @ [digit_char (n mod 10)]"
  by (simp add: nat_to_string.simps [of n])

lemma nat_to_string_not_Nil [simp]: "nat_to_string n \<noteq> []"
  by (simp add: nat_to_string.simps [of n])

lemma digits_value_nat_to_string [simp]: "digits_value (nat_to_string n) = n"
proof (induction n rule: nat_to_string.induct)
  case (1 n)
  show ?case
  proof (cases "n < 10")
    case True
    then show ?thesis by (simp add: digits_value_def)
  next
    case False
    with 1 show ?thesis by (simp add: nat_to_string_big)
  qed
qed

lemma nat_to_string_digits: "list_all is_ascii_digit (nat_to_string n)"
proof (induction n rule: nat_to_string.induct)
  case (1 n)
  then show ?case by (cases "n < 10") (auto simp: nat_to_string_big)
qed

lemma list_all_digits_notin: "list_all is_ascii_digit s \<Longrightarrow> \<not> is_ascii_digit d \<Longrightarrow> d \<notin> set s"
  by (induction s) auto

text \<open>The two-digit format \<open>{:02}\<close>.\<close>

definition pad2 :: "nat \<Rightarrow> string" where
  "pad2 n = (if n < 10 then digit_char 0 # nat_to_string n else nat_to_string n)"

lemma pad2_two_digits:
  assumes "n < 100"
  shows "pad2 n = [digit_char (n div 10), digit_char (n mod 10)]"
  using assms by (cases "n < 10") (auto simp: pad2_def nat_to_string_big)

lemma digits_value_pad2 [simp]: "digits_value (pad2 n) = n"
proof (cases "n < 10")
  case True
  then show ?thesis by (simp add: pad2_def digits_value_def)
next
  case False
  then show ?thesis by (simp add: pad2_def)
qed

section \<open>UTF-8\<close>

text \<open>\<open>str::from_utf8\<close>: which byte sequences are valid UTF-8 (Unicode, table 3-7).\<close>

definition byte_in :: "nat \<Rightarrow> nat \<Rightarrow> char \<Rightarrow> bool" where
  "byte_in lo hi c \<longleftrightarrow> lo \<le> (of_char c :: nat) \<and> (of_char c :: nat) \<le> hi"

fun utf8_valid :: "string \<Rightarrow> bool" where
  "utf8_valid [] = True"
| "utf8_valid (a # s) =
     (if byte_in 0 127 a then utf8_valid s
      else (case s of
              [] \<Rightarrow> False
            | b # s2 \<Rightarrow>
                if byte_in 194 223 a then byte_in 128 191 b \<and> utf8_valid s2
                else (case s2 of
                        [] \<Rightarrow> False
                      | c # s3 \<Rightarrow>
                          if byte_in 224 239 a then
                            (if of_char a = (224 :: nat) then byte_in 160 191 b
                             else if of_char a = (237 :: nat) then byte_in 128 159 b
                             else byte_in 128 191 b)
                            \<and> byte_in 128 191 c \<and> utf8_valid s3
                          else (case s3 of
                                  [] \<Rightarrow> False
                                | d # s4 \<Rightarrow>
                                    byte_in 240 244 a \<and>
                                    (if of_char a = (240 :: nat) then byte_in 144 191 b
                                     else if of_char a = (244 :: nat) then byte_in 128 143 b
                                     else byte_in 128 191 b)
                                    \<and> byte_in 128 191 c \<and> byte_in 128 191 d \<and> utf8_valid s4))))"

text \<open>
  \<open>String::from_utf8_lossy\<close>: valid text is kept; each maximal invalid piece becomes the
  replacement character U+FFFD. \<open>utf8_head s\<close> is the length of the character or of the
  invalid piece at the front, and whether it is valid.
\<close>

definition utf8_second :: "char \<Rightarrow> char \<Rightarrow> bool" where
  "utf8_second a b =
     (if of_char a = (224 :: nat) then byte_in 160 191 b
      else if of_char a = (237 :: nat) then byte_in 128 159 b
      else if of_char a = (240 :: nat) then byte_in 144 191 b
      else if of_char a = (244 :: nat) then byte_in 128 143 b
      else byte_in 128 191 b)"

definition utf8_width :: "char \<Rightarrow> nat" where
  "utf8_width a =
     (if byte_in 0 127 a then 1 else if byte_in 194 223 a then 2
      else if byte_in 224 239 a then 3 else if byte_in 240 244 a then 4 else 0)"

fun utf8_tail :: "nat \<Rightarrow> nat \<Rightarrow> string \<Rightarrow> nat \<times> bool" where
  "utf8_tail 0 k s = (k, True)"
| "utf8_tail (Suc n) k [] = (k, False)"
| "utf8_tail (Suc n) k (c # s) = (if byte_in 128 191 c then utf8_tail n (Suc k) s else (k, False))"

definition utf8_head :: "string \<Rightarrow> nat \<times> bool" where
  "utf8_head s =
     (case s of
        [] \<Rightarrow> (0, True)
      | a # s1 \<Rightarrow>
          if utf8_width a = 0 then (1, False)
          else if utf8_width a = 1 then (1, True)
          else (case s1 of
                  [] \<Rightarrow> (1, False)
                | b # s2 \<Rightarrow> if utf8_second a b then utf8_tail (utf8_width a - 2) 2 s2 else (1, False)))"

lemma utf8_tail_ge: "k \<le> fst (utf8_tail n k s)"
  by (induction n k s rule: utf8_tail.induct) auto

lemma utf8_head_pos: "(n, ok) = utf8_head s \<Longrightarrow> s \<noteq> [] \<Longrightarrow> 0 < n"
  using utf8_tail_ge [of 2]
  by (cases s) (auto simp: utf8_head_def split: list.splits if_splits, metis fst_conv le_zero_eq neq0_conv zero_neq_numeral)

function utf8_lossy :: "string \<Rightarrow> string" where
  "utf8_lossy s =
     (if s = [] then []
      else (case utf8_head s of (n, ok) \<Rightarrow>
        (if ok then take n s else [CHR 0xEF, CHR 0xBF, CHR 0xBD]) @ utf8_lossy (drop n s)))"
  by pat_completeness auto
termination
  by (relation "measure length") (auto dest!: utf8_head_pos split: prod.splits)

declare utf8_lossy.simps [simp del]

definition bytes :: "nat list \<Rightarrow> string" where
  "bytes ns = map char_of ns"

text \<open>
  The \<open>Debug\<close> text of a string: quoted, with the ASCII escapes of \<open>escape_debug\<close>. Bytes
  beyond ASCII stay as they are (Rust also escapes the unprintable ones, which no
  modelled comparison depends on).
\<close>

definition escape_debug :: "char \<Rightarrow> string" where
  "escape_debug c =
     (if c = CHR 0x22 then [CHR 0x5C, CHR 0x22]
      else if c = CHR 0x5C then [CHR 0x5C, CHR 0x5C]
      else if c = CHR 0x09 then [CHR 0x5C, CHR ''t'']
      else if c = CHR 0x0A then [CHR 0x5C, CHR ''n'']
      else if c = CHR 0x0D then [CHR 0x5C, CHR ''r'']
      else if c = CHR 0x00 then [CHR 0x5C, CHR ''0'']
      else [c])"

definition str_debug :: "string \<Rightarrow> string" where
  "str_debug s = [CHR 0x22] @ concat (map escape_debug s) @ [CHR 0x22]"

section \<open>Replacing and counting\<close>

text \<open>\<open>str::replace\<close> for a pattern that is not empty: occurrences from left to right, not overlapping.\<close>

function str_replace :: "string \<Rightarrow> string \<Rightarrow> string \<Rightarrow> string" where
  "str_replace pat to s =
     (if s = [] \<or> pat = [] then s
      else if take (length pat) s = pat then to @ str_replace pat to (drop (length pat) s)
      else hd s # str_replace pat to (tl s))"
  by pat_completeness auto
termination
  by (relation "measure (\<lambda>(_, _, s). length s)") (auto simp: neq_Nil_conv)

declare str_replace.simps [simp del]

lemma str_replace_Nil [simp]: "str_replace pat to [] = []"
  by (simp add: str_replace.simps)

lemma str_replace_match: "pat \<noteq> [] \<Longrightarrow> str_replace pat to (pat @ s) = to @ str_replace pat to s"
  by (subst str_replace.simps) simp

lemma str_replace_skip:
  "pat \<noteq> [] \<Longrightarrow> take (length pat) (c # s) \<noteq> pat \<Longrightarrow> str_replace pat to (c # s) = c # str_replace pat to s"
  by (subst str_replace.simps) simp

text \<open>\<open>str::chars().count()\<close> on UTF-8: the bytes that do not continue a character.\<close>

definition chars_count :: "string \<Rightarrow> nat" where
  "chars_count s = length (filter (\<lambda>c. \<not> byte_in 128 191 c) s)"

end
