(* ===== verification/Rust_Collections.thy ===== *)
theory Rust_Collections
  imports Rust_Text "HOL-Library.Multiset"
begin

text \<open>
  The standard collections the modelled code keeps its state in.

  \<^item> A \<open>BTreeMap\<close> is the list of its entries in key order (\<open>bt_wf\<close>), so its iteration
    order is the order of the list; \<open>map_of\<close> looks a key up and \<open>bt_insert\<close> is both
    \<open>insert\<close> and a write through \<open>get_mut\<close>.
  \<^item> A \<open>HashMap\<close> is a finite partial function. Rust leaves its iteration order open, so
    code that iterates takes the order as a parameter \<open>ord\<close>, and \<open>enumerates ord\<close> says
    that \<open>ord\<close> lists every key of the map exactly once.
  \<^item> \<open>sort_by_key\<close> and \<open>sort_by\<close> are stable, as \<open>sort_key\<close> of HOL is.
\<close>

section \<open>Ordered maps\<close>

type_synonym ('k, 'v) btree = "('k \<times> 'v) list"

definition bt_wf :: "('k::linorder, 'v) btree \<Rightarrow> bool" where
  "bt_wf m \<longleftrightarrow> sorted_wrt (<) (map fst m)"

fun bt_insert :: "'k::linorder \<Rightarrow> 'v \<Rightarrow> ('k, 'v) btree \<Rightarrow> ('k, 'v) btree" where
  "bt_insert k v [] = [(k, v)]"
| "bt_insert k v ((a, b) # m) =
     (if k < a then (k, v) # (a, b) # m
      else if k = a then (k, v) # m
      else (a, b) # bt_insert k v m)"

lemma bt_wf_Nil [simp]: "bt_wf []"
  by (simp add: bt_wf_def)

lemma bt_wf_distinct: "bt_wf m \<Longrightarrow> distinct (map fst m)"
  by (simp add: bt_wf_def strict_sorted_iff)

lemma map_of_bt_insert [simp]: "map_of (bt_insert k v m) = (map_of m)(k \<mapsto> v)"
  by (induction k v m rule: bt_insert.induct) auto

lemma keys_bt_insert: "fst ` set (bt_insert k v m) = insert k (fst ` set m)"
  by (induction k v m rule: bt_insert.induct) auto

lemma bt_wf_insert [simp, intro]: "bt_wf m \<Longrightarrow> bt_wf (bt_insert k v m)"
proof (induction k v m rule: bt_insert.induct)
  case (1 k v)
  then show ?case by (simp add: bt_wf_def)
next
  case (2 k v a b m)
  then have "bt_wf m" by (simp add: bt_wf_def)
  have "\<forall>x \<in> fst ` set m. a < x" using 2(2) by (auto simp: bt_wf_def)
  then show ?case
    using 2 keys_bt_insert [of k v m] by (fastforce simp: bt_wf_def)
qed

lemma map_of_entry: "bt_wf m \<Longrightarrow> map_of m k = Some v \<longleftrightarrow> (k, v) \<in> set m"
  by (simp add: bt_wf_distinct)

lemma bt_values: "bt_wf m \<Longrightarrow> set (map snd m) = ran (map_of m)"
  by (simp add: ran_distinct [OF bt_wf_distinct])

lemma finite_dom_btree [simp]: "finite (dom (map_of m))"
  by (rule finite_dom_map_of)

section \<open>Hash maps\<close>

definition enumerates :: "(('k \<rightharpoonup> 'v) \<Rightarrow> 'k list) \<Rightarrow> bool" where
  "enumerates ord \<longleftrightarrow> (\<forall>m. finite (dom m) \<longrightarrow> set (ord m) = dom m \<and> distinct (ord m))"

lemma enumerates_set: "enumerates ord \<Longrightarrow> finite (dom m) \<Longrightarrow> set (ord m) = dom m"
  by (simp add: enumerates_def)

lemma enumerates_distinct: "enumerates ord \<Longrightarrow> finite (dom m) \<Longrightarrow> distinct (ord m)"
  by (simp add: enumerates_def)

text \<open>An order that exists: the sorted keys.\<close>

definition sorted_order :: "('k::linorder \<rightharpoonup> 'v) \<Rightarrow> 'k list" where
  "sorted_order m = sorted_list_of_set (dom m)"

lemma enumerates_sorted_order: "enumerates sorted_order"
  by (simp add: enumerates_def sorted_order_def)

section \<open>Lists\<close>

lemma sum_list_map_filter_le:
  fixes f :: "'a \<Rightarrow> nat"
  shows "sum_list (map f (filter P xs)) \<le> sum_list (map f xs)"
  by (induction xs) auto

lemma distinct_map_sort_key [simp]: "distinct (map f (sort_key k xs)) \<longleftrightarrow> distinct (map f xs)"
  by (rule mset_eq_imp_distinct_iff) simp

lemma sorted_map_lex_fst:
  assumes "sorted (map (\<lambda>x. (f x, g x)) xs)"
  shows "sorted (map f xs)"
  using assms by (induction xs) (auto simp: less_eq_prod_def)

lemma sum_list_distinct_map:
  fixes f :: "'a \<Rightarrow> nat"
  assumes "distinct xs"
  shows "sum_list (map f xs) = sum f (set xs)"
  using assms by (rule sum_list_distinct_conv_sum_set)

end
