(* ===== verification/Pay_Types.thy ===== *)
theory Pay_Types
  imports Rust_Collections
begin

text \<open>
  The value types of crate \<open>phoenix-pay\<close>: money (\<open>amount.rs\<close>), the order state machine
  (\<open>status.rs\<close>), the refund state machine (first half of \<open>refund.rs\<close>) and the error type
  (\<open>error.rs\<close>). An amount keeps its 64 bits, so the checked operations really refuse
  what does not fit. The facts are the exactness of the decimal conversions in both
  directions, the shape of the two state machines and the round trip of their names.
\<close>

section \<open>Data\<close>

datatype currency = Cny

record amount =
  minor :: u64
  currency :: currency

datatype payment_status = Created | Pending | Paid | Failed | Closed | Refunding | Refunded

datatype refund_status = Processing | Succeeded | RefundFailed

datatype pay_error =
    UnknownProvider string
  | InvalidOrder string
  | DuplicateOrder string string
  | OrderNotFound string string
  | InvalidTransition payment_status payment_status
  | InvalidRefund string
  | DuplicateRefund string string
  | RefundNotFound string string
  | InvalidRefundTransition refund_status refund_status
  | RefundExceedsOrder string amount amount
  | Reconcile string
  | CurrencyMismatch string string
  | AmountOverflow
  | InvalidNotify string
  | PayConfig string
  | Gateway string
  | PayStore string
  | NotImplemented string
  | PayPanic string \<comment> \<open>not a variant of the source: marks a panic\<close>

section \<open>Money\<close>

fun currency_code :: "currency \<Rightarrow> string" where
  "currency_code Cny = ''CNY''"

fun minor_per_major :: "currency \<Rightarrow> u64" where
  "minor_per_major Cny = 100"

definition from_minor :: "u64 \<Rightarrow> currency \<Rightarrow> amount" where
  "from_minor m c = \<lparr>minor = m, currency = c\<rparr>"

definition cny :: "u64 \<Rightarrow> amount" where
  "cny fen = from_minor fen Cny"

definition cny_yuan_fen :: "u64 \<Rightarrow> u8 \<Rightarrow> pay_error + amount" where
  "cny_yuan_fen yuan fen =
     (if fen \<ge> 100 then Inl (InvalidOrder ''fen remainder must be < 100'')
      else ok_or AmountOverflow
        (map_option cny
          (Option.bind (w_checked_mul yuan 100) (\<lambda>base. w_checked_add base (ucast fen)))))"

definition major_part :: "amount \<Rightarrow> u64" where
  "major_part a = minor a div minor_per_major (currency a)"

definition minor_part :: "amount \<Rightarrow> u64" where
  "minor_part a = minor a mod minor_per_major (currency a)"

definition is_zero :: "amount \<Rightarrow> bool" where
  "is_zero a \<longleftrightarrow> minor a = 0"

definition decimal_string :: "amount \<Rightarrow> string" where
  "decimal_string a = nat_to_string (unat (major_part a)) @ ''.'' @ pad2 (unat (minor_part a))"

definition cny_from_decimal_str :: "string \<Rightarrow> pay_error + amount" where
  "cny_from_decimal_str t =
     (case (case split_once (CHR ''.'') t of
              Some (_, []) \<Rightarrow> None
            | Some (whole, fraction) \<Rightarrow> Some (whole, fraction)
            | None \<Rightarrow> Some (t, [])) of
        None \<Rightarrow> Inl (InvalidOrder ''amount must not end with a bare decimal point'')
      | Some (whole, fraction) \<Rightarrow>
          if whole = [] \<or> list_ex (\<lambda>b. \<not> is_ascii_digit b) whole then
            Inl (InvalidOrder ''amount integer part must be ASCII digits'')
          else if 2 < length fraction \<or> list_ex (\<lambda>b. \<not> is_ascii_digit b) fraction then
            Inl (InvalidOrder ''amount fraction must be at most two ASCII digits'')
          else
            res_bind (ok_or AmountOverflow (parse_digits whole)) (\<lambda>yuan.
              let fen = foldl (\<lambda>acc b. acc * 10 + of_nat (digit_val b)) (0 :: u64) fraction;
                  fen = (if length fraction = 1 then fen * 10 else fen)
              in ok_or AmountOverflow
                   (map_option cny
                     (Option.bind (w_checked_mul yuan 100) (\<lambda>base. w_checked_add base fen)))))"

definition amount_checked_add :: "amount \<Rightarrow> amount \<Rightarrow> pay_error + amount" where
  "amount_checked_add a b =
     (if currency a \<noteq> currency b then
        Inl (CurrencyMismatch (currency_code (currency a)) (currency_code (currency b)))
      else ok_or AmountOverflow
        (map_option (\<lambda>m. from_minor m (currency a)) (w_checked_add (minor a) (minor b))))"

definition amount_display :: "amount \<Rightarrow> string" where
  "amount_display a =
     nat_to_string (unat (major_part a)) @ ''.'' @ pad2 (unat (minor_part a)) @ '' ''
       @ currency_code (currency a)"

section \<open>The order state machine\<close>

fun status_as_str :: "payment_status \<Rightarrow> string" where
  "status_as_str Created = ''created''"
| "status_as_str Pending = ''pending''"
| "status_as_str Paid = ''paid''"
| "status_as_str Failed = ''failed''"
| "status_as_str Closed = ''closed''"
| "status_as_str Refunding = ''refunding''"
| "status_as_str Refunded = ''refunded''"

definition is_terminal :: "payment_status \<Rightarrow> bool" where
  "is_terminal s \<longleftrightarrow> s \<in> {Failed, Closed, Refunded}"

fun can_transition :: "payment_status \<Rightarrow> payment_status \<Rightarrow> bool" where
  "can_transition Created n = (n = Pending \<or> n = Closed)"
| "can_transition Pending n = (n = Paid \<or> n = Failed \<or> n = Closed)"
| "can_transition Paid n = (n = Refunding)"
| "can_transition Refunding n = (n = Refunded \<or> n = Paid)"
| "can_transition _ _ = False"

definition status_transition :: "payment_status \<Rightarrow> payment_status \<Rightarrow> pay_error + payment_status" where
  "status_transition s n = (if can_transition s n then Inr n else Inl (InvalidTransition s n))"

definition status_from_str :: "string \<Rightarrow> pay_error + payment_status" where
  "status_from_str v =
     (if v = ''created'' then Inr Created
      else if v = ''pending'' then Inr Pending
      else if v = ''paid'' then Inr Paid
      else if v = ''failed'' then Inr Failed
      else if v = ''closed'' then Inr Closed
      else if v = ''refunding'' then Inr Refunding
      else if v = ''refunded'' then Inr Refunded
      else Inl (InvalidNotify (''unknown payment status `'' @ v @ ''`'')))"

section \<open>The refund state machine\<close>

fun refund_status_as_str :: "refund_status \<Rightarrow> string" where
  "refund_status_as_str Processing = ''processing''"
| "refund_status_as_str Succeeded = ''succeeded''"
| "refund_status_as_str RefundFailed = ''failed''"

definition refund_is_terminal :: "refund_status \<Rightarrow> bool" where
  "refund_is_terminal s \<longleftrightarrow> s \<in> {Succeeded, RefundFailed}"

fun refund_can_transition :: "refund_status \<Rightarrow> refund_status \<Rightarrow> bool" where
  "refund_can_transition Processing n = (n = Succeeded \<or> n = RefundFailed)"
| "refund_can_transition _ _ = False"

definition refund_status_transition :: "refund_status \<Rightarrow> refund_status \<Rightarrow> pay_error + refund_status" where
  "refund_status_transition s n =
     (if refund_can_transition s n then Inr n else Inl (InvalidRefundTransition s n))"

definition refund_status_from_str :: "string \<Rightarrow> pay_error + refund_status" where
  "refund_status_from_str v =
     (if v = ''processing'' then Inr Processing
      else if v = ''succeeded'' then Inr Succeeded
      else if v = ''failed'' then Inr RefundFailed
      else Inl (InvalidNotify (''unknown refund status `'' @ v @ ''`'')))"

section \<open>Facts about money\<close>

lemma currency_all: "c = Cny"
  by (cases c)

lemma minor_per_major_eq [simp]: "minor_per_major c = 100"
  by (cases c) simp

lemma amount_eqI: "minor a = minor b \<Longrightarrow> a = (b :: amount)"
  using currency_all [of "currency a"] currency_all [of "currency b"] by simp

lemma minor_from_minor [simp]: "minor (from_minor m c) = m" "minor (cny m) = m"
  by (simp_all add: from_minor_def cny_def)

lemma cny_minor [simp]: "cny (minor a) = a"
  by (rule amount_eqI) simp

lemma unat_major_part: "unat (major_part a) = unat (minor a) div 100"
  by (simp add: major_part_def unat_div)

lemma unat_minor_part: "unat (minor_part a) = unat (minor a) mod 100"
  by (simp add: minor_part_def unat_mod)

text \<open>The combination of yuan and fen both parsers end with.\<close>

lemma yuan_fen_combine:
  fixes y f :: u64
  shows "ok_or AmountOverflow (map_option cny (Option.bind (w_checked_mul y 100) (\<lambda>b. w_checked_add b f)))
    = (if unat y * 100 + unat f < 2 ^ 64 then Inr (cny (of_nat (unat y * 100 + unat f)))
       else Inl AmountOverflow)"
proof (cases "unat y * 100 < 2 ^ 64")
  case True
  then have u: "unat (y * 100) = unat y * 100" by (simp add: unat_word_ariths)
  have "y * 100 + f = of_nat (unat y * 100 + unat f)" by simp
  with True u show ?thesis
    by (simp add: w_checked_mul_def w_checked_add_def)
next
  case False
  then show ?thesis by (simp add: w_checked_mul_def)
qed

lemma list_ex_not_digit: "list_ex (\<lambda>b. \<not> is_ascii_digit b) s \<longleftrightarrow> \<not> list_all is_ascii_digit s"
  by (induction s) auto

text \<open>The fraction is read without wrapping: it has at most two digits.\<close>

lemma fraction_value:
  assumes "length fr \<le> 2" and "list_all is_ascii_digit fr"
  shows "unat (foldl (\<lambda>acc b. acc * 10 + of_nat (digit_val b)) (0 :: u64) fr) = digits_value fr"
    and "digits_value fr \<le> 99"
proof -
  consider "fr = []" | a where "fr = [a]" | a b where "fr = [a, b]"
    using assms(1) by (cases fr; cases "tl fr"; cases "tl (tl fr)") auto
  then have "unat (foldl (\<lambda>acc b. acc * 10 + of_nat (digit_val b)) (0 :: u64) fr) = digits_value fr
      \<and> digits_value fr \<le> 99"
  proof cases
    case 1
    then show ?thesis by simp
  next
    case (2 a)
    then have "digit_val a \<le> 9" using assms(2) by (simp add: digit_val_le)
    with 2 show ?thesis by (simp add: digits_value_def unat_of_nat)
  next
    case (3 a b)
    then have d: "digit_val a \<le> 9" "digit_val b \<le> 9" using assms(2) by (simp_all add: digit_val_le)
    have "(of_nat (digit_val a) * 10 + of_nat (digit_val b) :: u64) = of_nat (digit_val a * 10 + digit_val b)"
      by simp
    with 3 d show ?thesis by (simp add: digits_value_def unat_of_nat del: of_nat_add of_nat_mult)
  qed
  then show "unat (foldl (\<lambda>acc b. acc * 10 + of_nat (digit_val b)) (0 :: u64) fr) = digits_value fr"
    and "digits_value fr \<le> 99" by simp_all
qed

text \<open>The texts \<open>cny_from_decimal_str\<close> accepts, and their value in fen.\<close>

definition decimal_parts :: "string \<Rightarrow> string \<Rightarrow> string \<Rightarrow> bool" where
  "decimal_parts t w f \<longleftrightarrow>
     (t = w \<and> f = [] \<or> t = w @ ''.'' @ f \<and> f \<noteq> []) \<and> w \<noteq> [] \<and>
     list_all is_ascii_digit w \<and> list_all is_ascii_digit f \<and> length f \<le> 2"

definition fen_value :: "string \<Rightarrow> string \<Rightarrow> nat" where
  "fen_value w f = digits_value w * 100 + digits_value f * (if length f = 1 then 10 else 1)"

lemma dot_not_digit: "list_all is_ascii_digit w \<Longrightarrow> CHR ''.'' \<notin> set w"
  by (rule list_all_digits_notin) (auto simp: is_ascii_digit_def)

lemma decimal_tail:
  assumes f: "length f \<le> 2" "list_all is_ascii_digit f"
  shows "res_bind (ok_or AmountOverflow (parse_digits w)) (\<lambda>yuan.
      let fen = foldl (\<lambda>acc b. acc * 10 + of_nat (digit_val b)) (0 :: u64) f;
          fen = (if length f = 1 then fen * 10 else fen)
      in ok_or AmountOverflow (map_option cny
           (Option.bind (w_checked_mul yuan 100) (\<lambda>base. w_checked_add base fen))))
    = (if fen_value w f < 2 ^ 64 then Inr (cny (of_nat (fen_value w f))) else Inl AmountOverflow)"
proof -
  define fen where "fen = foldl (\<lambda>acc b. acc * 10 + of_nat (digit_val b)) (0 :: u64) f"
  define fen' where "fen' = (if length f = 1 then fen * 10 else fen)"
  have "unat fen = digits_value f" "digits_value f \<le> 99"
    using fraction_value [OF f] by (simp_all add: fen_def)
  then have fen': "unat fen' = digits_value f * (if length f = 1 then 10 else 1)"
    by (simp add: fen'_def unat_word_ariths)
  show ?thesis
  proof (cases "parse_digits w :: u64 option")
    case None
    then have "2 ^ 64 \<le> digits_value w" by (simp add: parse_digits_None_iff)
    with None show ?thesis by (simp add: fen_value_def)
  next
    case (Some y)
    then have "unat y = digits_value w" by (simp add: parse_digits_Some_iff)
    with Some fen' show ?thesis
      unfolding Let_def fen_def [symmetric] fen'_def [symmetric]
      by (simp add: yuan_fen_combine fen_value_def del: of_nat_add)
  qed
qed

lemma cny_from_decimal_str_parts:
  assumes "decimal_parts t w f"
  shows "cny_from_decimal_str t =
    (if fen_value w f < 2 ^ 64 then Inr (cny (of_nat (fen_value w f))) else Inl AmountOverflow)"
proof -
  have w: "w \<noteq> []" "list_all is_ascii_digit w" and f: "length f \<le> 2" "list_all is_ascii_digit f"
    and t: "t = w \<and> f = [] \<or> t = w @ ''.'' @ f \<and> f \<noteq> []"
    using assms by (auto simp: decimal_parts_def)
  have "(case split_once (CHR ''.'') t of Some (_, []) \<Rightarrow> None
      | Some (whole, fraction) \<Rightarrow> Some (whole, fraction) | None \<Rightarrow> Some (t, [])) = Some (w, f)"
  proof (cases f)
    case Nil
    then have "split_once (CHR ''.'') t = None" "t = w"
      using t w by (auto simp: split_once_None_iff dot_not_digit)
    with Nil show ?thesis by simp
  next
    case (Cons c g)
    then have "split_once (CHR ''.'') t = Some (w, f)" using t w dot_not_digit by simp
    with Cons show ?thesis by simp
  qed
  then show ?thesis
    using w f decimal_tail [OF f, of w] by (simp add: cny_from_decimal_str_def list_ex_not_digit)
qed

lemma cny_from_decimal_str_reject:
  assumes "\<nexists>w f. decimal_parts t w f"
  shows "\<exists>msg. cny_from_decimal_str t = Inl (InvalidOrder msg)"
proof (cases "split_once (CHR ''.'') t")
  case None
  then show ?thesis
    using assms [unfolded not_ex, rule_format, of t "[]"]
    by (auto simp: cny_from_decimal_str_def list_ex_not_digit decimal_parts_def)
next
  case (Some p)
  then obtain w f where p: "p = (w, f)" and t: "t = w @ CHR ''.'' # f"
    by (cases p) (auto simp: split_once_Some_iff)
  show ?thesis
    using assms [unfolded not_ex, rule_format, of w f] Some p t
    by (cases f) (auto simp: cny_from_decimal_str_def list_ex_not_digit decimal_parts_def)
qed

lemma decimal_parts_decimal_string:
  "decimal_parts (decimal_string a) (nat_to_string (unat (major_part a))) (pad2 (unat (minor_part a)))"
  by (simp add: decimal_parts_def decimal_string_def nat_to_string_digits pad2_two_digits unat_minor_part)

section \<open>Properties\<close>

text \<open>
  writing an amount as decimal yuan and reading the text back returns the amount, for
  every 64-bit count of fen.
\<close>

theorem decimal_round_trip: "cny_from_decimal_str (decimal_string a) = Inr a"
proof -
  have "fen_value (nat_to_string (unat (major_part a))) (pad2 (unat (minor_part a))) = unat (minor a)"
    by (simp add: fen_value_def pad2_two_digits unat_minor_part unat_major_part)
       (simp flip: pad2_two_digits)
  then show ?thesis
    using cny_from_decimal_str_parts [OF decimal_parts_decimal_string [of a]] unsigned_less [of "minor a"]
    by simp
qed

text \<open>
  what \<open>cny_from_decimal_str\<close> does on every text. It succeeds exactly on an integer part
  of ASCII digits with at most two fraction digits whose value in fen fits 64 bits, and then
  returns that value exactly; a well-formed text that does not fit is \<open>AmountOverflow\<close>, and
  every other text is \<open>InvalidOrder\<close>.
\<close>

theorem cny_from_decimal_str_spec:
  "(case cny_from_decimal_str t of
      Inr a \<Rightarrow> (\<exists>w f. decimal_parts t w f \<and> unat (minor a) = fen_value w f)
    | Inl AmountOverflow \<Rightarrow> (\<exists>w f. decimal_parts t w f \<and> 2 ^ 64 \<le> fen_value w f)
    | Inl (InvalidOrder _) \<Rightarrow> \<not> (\<exists>w f. decimal_parts t w f)
    | Inl _ \<Rightarrow> False)"
proof (cases "\<exists>w f. decimal_parts t w f")
  case True
  then obtain w f where p: "decimal_parts t w f" by blast
  show ?thesis
    using p by (cases "fen_value w f < 2 ^ 64")
      (simp_all add: cny_from_decimal_str_parts [OF p] unat_of_nat not_less, blast+)
next
  case False
  then show ?thesis using cny_from_decimal_str_reject [of t] by auto
qed

end
