(* ===== verification/Pay_Store.thy ===== *)
theory Pay_Store
  imports Pay_Types "HOL-Library.Option_ord"
begin

text \<open>
  Orders and refunds (\<open>order.rs\<close>, second half of \<open>refund.rs\<close>) and their persistence
  (\<open>store.rs\<close>). The trait \<open>PaymentStore\<close> is the record \<open>payment_store\<close> of its methods; the
  contract a store promises is the locale \<open>payment_store\<close>: under an abstraction to two
  partial functions keyed by provider and number, every method behaves as the abstract
  store \<open>ab_*\<close>. \<open>MemoryPaymentStore\<close> is the record \<open>mem_store\<close> with its methods \<open>mem_*\<close>, and
  the interpretation at the end discharges the contract for it.
\<close>

section \<open>Orders\<close>

record create_order =
  co_out_trade_no :: string
  co_amount :: amount
  co_subject :: string

definition create_order_validate :: "create_order \<Rightarrow> pay_error + unit" where
  "create_order_validate r =
     (if trim_is_empty (co_out_trade_no r) then Inl (InvalidOrder ''out_trade_no must not be empty'')
      else if trim_is_empty (co_subject r) then Inl (InvalidOrder ''subject must not be empty'')
      else if is_zero (co_amount r) then Inl (InvalidOrder ''amount must be greater than zero'')
      else Inr ())"

datatype payment_action = QrCode string | Redirect string | SdkParams json

record payment_intent =
  pi_provider :: string
  pi_out_trade_no :: string
  pi_amount :: amount
  pi_action :: payment_action

record notify_request =
  nr_headers :: "(string \<times> string) list"
  nr_body :: string

definition body_str :: "notify_request \<Rightarrow> pay_error + string" where
  "body_str n = (if utf8_valid (nr_body n) then Inr (nr_body n)
     else Inl (InvalidNotify ''notification body is not UTF-8''))"

record notify_event =
  ne_out_trade_no :: string
  ne_transaction_id :: "string option"
  ne_status :: payment_status
  ne_raw :: string

record payment_record =
  pr_provider :: string
  pr_out_trade_no :: string
  pr_amount :: amount
  pr_subject :: string
  pr_status :: payment_status
  pr_notify_payload :: "string option"
  pr_created_at :: systime
  pr_paid_at :: "systime option"

definition payment_record_new :: "string \<Rightarrow> create_order \<Rightarrow> systime \<Rightarrow> payment_record" where
  "payment_record_new provider order created_at =
     \<lparr>pr_provider = provider, pr_out_trade_no = co_out_trade_no order, pr_amount = co_amount order,
      pr_subject = co_subject order, pr_status = Created, pr_notify_payload = None,
      pr_created_at = created_at, pr_paid_at = None\<rparr>"

section \<open>Refunds\<close>

record refund_order =
  ro_out_trade_no :: string
  ro_out_refund_no :: string
  ro_amount :: amount
  ro_total :: amount
  ro_reason :: "string option"

definition refund_full :: "string \<Rightarrow> string \<Rightarrow> amount \<Rightarrow> refund_order" where
  "refund_full t r tot =
     \<lparr>ro_out_trade_no = t, ro_out_refund_no = r, ro_amount = tot, ro_total = tot, ro_reason = None\<rparr>"

definition refund_partial :: "string \<Rightarrow> string \<Rightarrow> amount \<Rightarrow> amount \<Rightarrow> refund_order" where
  "refund_partial t r a tot =
     \<lparr>ro_out_trade_no = t, ro_out_refund_no = r, ro_amount = a, ro_total = tot, ro_reason = None\<rparr>"

definition refund_validate :: "refund_order \<Rightarrow> pay_error + unit" where
  "refund_validate r =
     (if trim_is_empty (ro_out_trade_no r) then Inl (InvalidRefund ''out_trade_no must not be empty'')
      else if trim_is_empty (ro_out_refund_no r) then Inl (InvalidRefund ''out_refund_no must not be empty'')
      else if is_zero (ro_amount r) then Inl (InvalidRefund ''refund amount must be greater than zero'')
      else if currency (ro_amount r) \<noteq> currency (ro_total r) then
        Inl (CurrencyMismatch (currency_code (currency (ro_amount r))) (currency_code (currency (ro_total r))))
      else if minor (ro_amount r) > minor (ro_total r) then
        Inl (InvalidRefund ''refund amount must not exceed the order total'')
      else Inr ())"

record refund_receipt =
  rc_provider :: string
  rc_out_trade_no :: string
  rc_out_refund_no :: string
  rc_refund_id :: "string option"
  rc_amount :: amount
  rc_status :: refund_status
  rc_raw :: string

record refund_notify_event =
  rn_out_trade_no :: string
  rn_out_refund_no :: string
  rn_refund_id :: "string option"
  rn_amount :: amount
  rn_status :: refund_status
  rn_raw :: string

datatype refund_notify_outcome =
    RefundProcessed refund_notify_event
  | RefundAlreadyProcessed refund_notify_event

record refund_record =
  rr_provider :: string
  rr_out_trade_no :: string
  rr_out_refund_no :: string
  rr_refund_id :: "string option"
  rr_amount :: amount
  rr_status :: refund_status
  rr_reason :: "string option"
  rr_created_at :: systime

definition refund_record_new :: "string \<Rightarrow> refund_order \<Rightarrow> systime \<Rightarrow> refund_record" where
  "refund_record_new provider refund created_at =
     \<lparr>rr_provider = provider, rr_out_trade_no = ro_out_trade_no refund,
      rr_out_refund_no = ro_out_refund_no refund, rr_refund_id = None, rr_amount = ro_amount refund,
      rr_status = Processing, rr_reason = ro_reason refund, rr_created_at = created_at\<rparr>"

definition holds_amount :: "refund_record \<Rightarrow> bool" where
  "holds_amount r \<longleftrightarrow> rr_status r \<noteq> RefundFailed"

section \<open>The store interface\<close>

type_synonym pay_key = "string \<times> string"

record 's payment_store =
  ps_insert :: "payment_record \<Rightarrow> ('s, pay_error, unit) op"
  ps_find :: "string \<Rightarrow> string \<Rightarrow> ('s, pay_error, payment_record option) op"
  ps_transition :: "string \<Rightarrow> string \<Rightarrow> payment_status \<Rightarrow> string option \<Rightarrow> systime \<Rightarrow>
    ('s, pay_error, payment_record) op"
  ps_paid_within :: "string \<Rightarrow> systime \<Rightarrow> systime \<Rightarrow> ('s, pay_error, payment_record list) op"
  ps_insert_refund :: "refund_record \<Rightarrow> ('s, pay_error, unit) op"
  ps_find_refund :: "string \<Rightarrow> string \<Rightarrow> ('s, pay_error, refund_record option) op"
  ps_refunds_for :: "string \<Rightarrow> string \<Rightarrow> ('s, pay_error, refund_record list) op"
  ps_transition_refund :: "string \<Rightarrow> string \<Rightarrow> refund_status \<Rightarrow> string option \<Rightarrow>
    ('s, pay_error, refund_record) op"
  ps_record_refund_id :: "string \<Rightarrow> string \<Rightarrow> string \<Rightarrow> ('s, pay_error, unit) op"

text \<open>The update a successful order transition writes; \<open>now\<close> is the clock at the call.\<close>

definition apply_transition :: "payment_status \<Rightarrow> string option \<Rightarrow> systime \<Rightarrow> payment_record \<Rightarrow> payment_record" where
  "apply_transition status payload now record =
     (let record = record\<lparr>pr_status := status\<rparr>;
          record = (if status = Paid \<and> pr_paid_at record = None
                    then record\<lparr>pr_paid_at := Some now\<rparr> else record)
      in if payload \<noteq> None then record\<lparr>pr_notify_payload := payload\<rparr> else record)"

definition apply_refund_transition :: "refund_status \<Rightarrow> string option \<Rightarrow> refund_record \<Rightarrow> refund_record" where
  "apply_refund_transition status refund_id record =
     (let record = record\<lparr>rr_status := status\<rparr>
      in if refund_id \<noteq> None then record\<lparr>rr_refund_id := refund_id\<rparr> else record)"

section \<open>The in-memory store\<close>

record mem_store =
  ms_records :: "(pay_key, payment_record) btree"
  ms_refunds :: "(pay_key, refund_record) btree"

definition mem_new :: mem_store where
  "mem_new = \<lparr>ms_records = [], ms_refunds = []\<rparr>"

definition mem_len :: "mem_store \<Rightarrow> nat" where
  "mem_len s = length (ms_records s)"

definition mem_refund_count :: "mem_store \<Rightarrow> nat" where
  "mem_refund_count s = length (ms_refunds s)"

definition mem_insert :: "payment_record \<Rightarrow> (mem_store, pay_error, unit) op" where
  "mem_insert record s =
     (let key = (pr_provider record, pr_out_trade_no record)
      in case map_of (ms_records s) key of
           Some _ \<Rightarrow> (Inl (DuplicateOrder (pr_provider record) (pr_out_trade_no record)), s)
         | None \<Rightarrow> (Inr (), s\<lparr>ms_records := bt_insert key record (ms_records s)\<rparr>))"

definition mem_find :: "string \<Rightarrow> string \<Rightarrow> (mem_store, pay_error, payment_record option) op" where
  "mem_find provider out_trade_no s = (Inr (map_of (ms_records s) (provider, out_trade_no)), s)"

definition mem_transition :: "string \<Rightarrow> string \<Rightarrow> payment_status \<Rightarrow> string option \<Rightarrow> systime \<Rightarrow>
    (mem_store, pay_error, payment_record) op" where
  "mem_transition provider out_trade_no nxt payload now s =
     (let key = (provider, out_trade_no)
      in case map_of (ms_records s) key of
           Some record \<Rightarrow>
             (case status_transition (pr_status record) nxt of
                Inl e \<Rightarrow> (Inl e, s)
              | Inr status \<Rightarrow>
                  let record = apply_transition status payload now record
                  in (Inr record, s\<lparr>ms_records := bt_insert key record (ms_records s)\<rparr>))
         | None \<Rightarrow> (Inl (OrderNotFound provider out_trade_no), s))"

definition mem_paid_within :: "string \<Rightarrow> systime \<Rightarrow> systime \<Rightarrow> (mem_store, pay_error, payment_record list) op" where
  "mem_paid_within provider from to s =
     (Inr (sort_key pr_paid_at
        (filter (\<lambda>r. case pr_paid_at r of None \<Rightarrow> False | Some t \<Rightarrow> from \<le> t \<and> t < to)
          (filter (\<lambda>r. pr_provider r = provider) (map snd (ms_records s))))), s)"

definition mem_insert_refund :: "refund_record \<Rightarrow> (mem_store, pay_error, unit) op" where
  "mem_insert_refund record s =
     (let key = (rr_provider record, rr_out_refund_no record)
      in case map_of (ms_refunds s) key of
           Some _ \<Rightarrow> (Inl (DuplicateRefund (rr_provider record) (rr_out_refund_no record)), s)
         | None \<Rightarrow> (Inr (), s\<lparr>ms_refunds := bt_insert key record (ms_refunds s)\<rparr>))"

definition mem_find_refund :: "string \<Rightarrow> string \<Rightarrow> (mem_store, pay_error, refund_record option) op" where
  "mem_find_refund provider out_refund_no s = (Inr (map_of (ms_refunds s) (provider, out_refund_no)), s)"

definition mem_refunds_for :: "string \<Rightarrow> string \<Rightarrow> (mem_store, pay_error, refund_record list) op" where
  "mem_refunds_for provider out_trade_no s =
     (Inr (sort_key (\<lambda>r. (rr_created_at r, rr_out_refund_no r))
        (filter (\<lambda>r. rr_provider r = provider \<and> rr_out_trade_no r = out_trade_no)
          (map snd (ms_refunds s)))), s)"

definition mem_transition_refund :: "string \<Rightarrow> string \<Rightarrow> refund_status \<Rightarrow> string option \<Rightarrow>
    (mem_store, pay_error, refund_record) op" where
  "mem_transition_refund provider out_refund_no nxt refund_id s =
     (let key = (provider, out_refund_no)
      in case map_of (ms_refunds s) key of
           Some record \<Rightarrow>
             (case refund_status_transition (rr_status record) nxt of
                Inl e \<Rightarrow> (Inl e, s)
              | Inr status \<Rightarrow>
                  let record = apply_refund_transition status refund_id record
                  in (Inr record, s\<lparr>ms_refunds := bt_insert key record (ms_refunds s)\<rparr>))
         | None \<Rightarrow> (Inl (RefundNotFound provider out_refund_no), s))"

definition mem_record_refund_id :: "string \<Rightarrow> string \<Rightarrow> string \<Rightarrow> (mem_store, pay_error, unit) op" where
  "mem_record_refund_id provider out_refund_no refund_id s =
     (let key = (provider, out_refund_no)
      in case map_of (ms_refunds s) key of
           Some record \<Rightarrow>
             (Inr (), s\<lparr>ms_refunds := bt_insert key (record\<lparr>rr_refund_id := Some refund_id\<rparr>) (ms_refunds s)\<rparr>)
         | None \<Rightarrow> (Inl (RefundNotFound provider out_refund_no), s))"

definition mem_payment_store :: "mem_store payment_store" where
  "mem_payment_store =
     \<lparr>ps_insert = mem_insert, ps_find = mem_find, ps_transition = mem_transition,
      ps_paid_within = mem_paid_within, ps_insert_refund = mem_insert_refund,
      ps_find_refund = mem_find_refund, ps_refunds_for = mem_refunds_for,
      ps_transition_refund = mem_transition_refund, ps_record_refund_id = mem_record_refund_id\<rparr>"

section \<open>The contract\<close>

text \<open>
  The abstract store: one partial function per table. \<open>ab_*\<close> are the mutating methods on
  it; each returns the result and the new store.
\<close>

record ab_store =
  ab_orders :: "pay_key \<rightharpoonup> payment_record"
  ab_refunds :: "pay_key \<rightharpoonup> refund_record"

definition ab_insert :: "payment_record \<Rightarrow> (ab_store, pay_error, unit) op" where
  "ab_insert r a =
     (let k = (pr_provider r, pr_out_trade_no r)
      in if k \<in> dom (ab_orders a) then (Inl (DuplicateOrder (pr_provider r) (pr_out_trade_no r)), a)
         else (Inr (), a\<lparr>ab_orders := (ab_orders a)(k \<mapsto> r)\<rparr>))"

definition ab_transition :: "string \<Rightarrow> string \<Rightarrow> payment_status \<Rightarrow> string option \<Rightarrow> systime \<Rightarrow>
    (ab_store, pay_error, payment_record) op" where
  "ab_transition p t n payload now a =
     (case ab_orders a (p, t) of
        None \<Rightarrow> (Inl (OrderNotFound p t), a)
      | Some r \<Rightarrow>
          if can_transition (pr_status r) n
          then (Inr (apply_transition n payload now r),
                a\<lparr>ab_orders := (ab_orders a)((p, t) \<mapsto> apply_transition n payload now r)\<rparr>)
          else (Inl (InvalidTransition (pr_status r) n), a))"

definition ab_insert_refund :: "refund_record \<Rightarrow> (ab_store, pay_error, unit) op" where
  "ab_insert_refund r a =
     (let k = (rr_provider r, rr_out_refund_no r)
      in if k \<in> dom (ab_refunds a) then (Inl (DuplicateRefund (rr_provider r) (rr_out_refund_no r)), a)
         else (Inr (), a\<lparr>ab_refunds := (ab_refunds a)(k \<mapsto> r)\<rparr>))"

definition ab_transition_refund :: "string \<Rightarrow> string \<Rightarrow> refund_status \<Rightarrow> string option \<Rightarrow>
    (ab_store, pay_error, refund_record) op" where
  "ab_transition_refund p n st rid a =
     (case ab_refunds a (p, n) of
        None \<Rightarrow> (Inl (RefundNotFound p n), a)
      | Some r \<Rightarrow>
          if refund_can_transition (rr_status r) st
          then (Inr (apply_refund_transition st rid r),
                a\<lparr>ab_refunds := (ab_refunds a)((p, n) \<mapsto> apply_refund_transition st rid r)\<rparr>)
          else (Inl (InvalidRefundTransition (rr_status r) st), a))"

definition ab_record_refund_id :: "string \<Rightarrow> string \<Rightarrow> string \<Rightarrow> (ab_store, pay_error, unit) op" where
  "ab_record_refund_id p n rid a =
     (case ab_refunds a (p, n) of
        None \<Rightarrow> (Inl (RefundNotFound p n), a)
      | Some r \<Rightarrow> (Inr (), a\<lparr>ab_refunds := (ab_refunds a)((p, n) \<mapsto> r\<lparr>rr_refund_id := Some rid\<rparr>)\<rparr>))"

text \<open>What the two listing methods return, as sets, and the order they promise.\<close>

definition ab_paid :: "string \<Rightarrow> systime \<Rightarrow> systime \<Rightarrow> ab_store \<Rightarrow> payment_record set" where
  "ab_paid p from to a =
     {r \<in> ran (ab_orders a). pr_provider r = p \<and> (\<exists>t. pr_paid_at r = Some t \<and> from \<le> t \<and> t < to)}"

definition ab_refunds_of :: "string \<Rightarrow> string \<Rightarrow> ab_store \<Rightarrow> refund_record set" where
  "ab_refunds_of p t a = {r \<in> ran (ab_refunds a). rr_provider r = p \<and> rr_out_trade_no r = t}"

text \<open>Rows are stored under the key they carry, and the tables are finite.\<close>

definition ab_keyed :: "ab_store \<Rightarrow> bool" where
  "ab_keyed a \<longleftrightarrow>
     (\<forall>k r. ab_orders a k = Some r \<longrightarrow> k = (pr_provider r, pr_out_trade_no r)) \<and>
     (\<forall>k r. ab_refunds a k = Some r \<longrightarrow> k = (rr_provider r, rr_out_refund_no r)) \<and>
     finite (dom (ab_orders a)) \<and> finite (dom (ab_refunds a))"

locale payment_store =
  fixes ps :: "'s payment_store"
    and abst :: "'s \<Rightarrow> ab_store"
    and invar :: "'s \<Rightarrow> bool"
  assumes keyed: "invar s \<Longrightarrow> ab_keyed (abst s)"
    and insert_spec: "invar s \<Longrightarrow> map_prod id abst (ps_insert ps r s) = ab_insert r (abst s)"
    and insert_invar: "invar s \<Longrightarrow> invar (snd (ps_insert ps r s))"
    and find_spec: "invar s \<Longrightarrow> ps_find ps p t s = (Inr (ab_orders (abst s) (p, t)), s)"
    and transition_spec:
      "invar s \<Longrightarrow> map_prod id abst (ps_transition ps p t n pl now s) = ab_transition p t n pl now (abst s)"
    and transition_invar: "invar s \<Longrightarrow> invar (snd (ps_transition ps p t n pl now s))"
    and paid_within_spec:
      "invar s \<Longrightarrow> \<exists>xs. ps_paid_within ps p from to s = (Inr xs, s) \<and> set xs = ab_paid p from to (abst s)
         \<and> distinct (map pr_out_trade_no xs) \<and> sorted (map pr_paid_at xs)"
    and insert_refund_spec:
      "invar s \<Longrightarrow> map_prod id abst (ps_insert_refund ps q s) = ab_insert_refund q (abst s)"
    and insert_refund_invar: "invar s \<Longrightarrow> invar (snd (ps_insert_refund ps q s))"
    and find_refund_spec: "invar s \<Longrightarrow> ps_find_refund ps p t s = (Inr (ab_refunds (abst s) (p, t)), s)"
    and refunds_for_spec:
      "invar s \<Longrightarrow> \<exists>xs. ps_refunds_for ps p t s = (Inr xs, s) \<and> set xs = ab_refunds_of p t (abst s)
         \<and> distinct (map rr_out_refund_no xs) \<and> sorted (map rr_created_at xs)"
    and transition_refund_spec:
      "invar s \<Longrightarrow> map_prod id abst (ps_transition_refund ps p t st rid s) = ab_transition_refund p t st rid (abst s)"
    and transition_refund_invar: "invar s \<Longrightarrow> invar (snd (ps_transition_refund ps p t st rid s))"
    and record_refund_id_spec:
      "invar s \<Longrightarrow> map_prod id abst (ps_record_refund_id ps p t i s) = ab_record_refund_id p t i (abst s)"
    and record_refund_id_invar: "invar s \<Longrightarrow> invar (snd (ps_record_refund_id ps p t i s))"

section \<open>The in-memory store keeps the contract\<close>

definition mem_abs :: "mem_store \<Rightarrow> ab_store" where
  "mem_abs s = \<lparr>ab_orders = map_of (ms_records s), ab_refunds = map_of (ms_refunds s)\<rparr>"

definition mem_invar :: "mem_store \<Rightarrow> bool" where
  "mem_invar s \<longleftrightarrow> bt_wf (ms_records s) \<and> bt_wf (ms_refunds s) \<and> ab_keyed (mem_abs s)"

lemma apply_transition_key [simp]:
  "pr_provider (apply_transition n pl now r) = pr_provider r"
  "pr_out_trade_no (apply_transition n pl now r) = pr_out_trade_no r"
  "pr_amount (apply_transition n pl now r) = pr_amount r"
  "pr_subject (apply_transition n pl now r) = pr_subject r"
  "pr_created_at (apply_transition n pl now r) = pr_created_at r"
  "pr_status (apply_transition n pl now r) = n"
  by (simp_all add: apply_transition_def Let_def)

lemma apply_refund_transition_key [simp]:
  "rr_provider (apply_refund_transition st rid r) = rr_provider r"
  "rr_out_trade_no (apply_refund_transition st rid r) = rr_out_trade_no r"
  "rr_out_refund_no (apply_refund_transition st rid r) = rr_out_refund_no r"
  "rr_amount (apply_refund_transition st rid r) = rr_amount r"
  "rr_created_at (apply_refund_transition st rid r) = rr_created_at r"
  "rr_status (apply_refund_transition st rid r) = st"
  by (simp_all add: apply_refund_transition_def Let_def)

lemmas mem_ops = mem_insert_def mem_find_def mem_transition_def mem_insert_refund_def
  mem_find_refund_def mem_transition_refund_def mem_record_refund_id_def

lemmas ab_ops = ab_insert_def ab_transition_def ab_insert_refund_def ab_transition_refund_def
  ab_record_refund_id_def

lemma mem_new_invar [simp]: "mem_invar mem_new"
  by (simp add: mem_invar_def mem_new_def mem_abs_def ab_keyed_def)

lemma distinct_map_snd:
  assumes "bt_wf m" and "\<And>k r. (k, r) \<in> set m \<Longrightarrow> k = (g r, f r)" and "\<And>k r. (k, r) \<in> set m \<Longrightarrow> P r \<Longrightarrow> g r = c"
  shows "distinct (map f (filter P (map snd m)))"
proof -
  have "inj_on f (set (filter P (map snd m)))"
  proof (rule inj_onI)
    fix x y assume "x \<in> set (filter P (map snd m))" "y \<in> set (filter P (map snd m))" "f x = f y"
    then obtain k l where "(k, x) \<in> set m" "(l, y) \<in> set m" "P x" "P y" by auto
    moreover then have "k = l" using assms(2,3) \<open>f x = f y\<close> by metis
    ultimately show "x = y" using map_of_entry [OF assms(1)] by (metis option.inject)
  qed
  moreover have "distinct m" using bt_wf_distinct [OF assms(1)] by (simp add: distinct_map)
  moreover have "inj_on snd (set m)"
  proof (rule inj_onI)
    fix x y assume "x \<in> set m" "y \<in> set m" "snd x = snd y"
    then have "fst x = fst y"
      using assms(2) [of "fst x" "snd x"] assms(2) [of "fst y" "snd y"] by (metis prod.collapse)
    with \<open>snd x = snd y\<close> show "x = y" by (simp add: prod_eq_iff)
  qed
  ultimately show ?thesis by (simp add: distinct_map)
qed

lemma mem_paid_within_spec:
  assumes "mem_invar s"
  shows "\<exists>xs. mem_paid_within p from to s = (Inr xs, s) \<and> set xs = ab_paid p from to (mem_abs s)
    \<and> distinct (map pr_out_trade_no xs) \<and> sorted (map pr_paid_at xs)"
proof -
  let ?P = "\<lambda>r. pr_provider r = p \<and> (case pr_paid_at r of None \<Rightarrow> False | Some t \<Rightarrow> from \<le> t \<and> t < to)"
  let ?ys = "filter ?P (map snd (ms_records s))"
  have wf: "bt_wf (ms_records s)" and keyed: "ab_keyed (mem_abs s)"
    using assms by (auto simp: mem_invar_def)
  have "(k, r) \<in> set (ms_records s) \<Longrightarrow> k = (pr_provider r, pr_out_trade_no r)" for k r
    using keyed map_of_entry [OF wf, of k r] by (cases k) (auto simp: ab_keyed_def mem_abs_def)
  then have "distinct (map pr_out_trade_no ?ys)"
    by (intro distinct_map_snd [OF wf, where g = pr_provider]) auto
  then have "distinct (map pr_out_trade_no (sort_key pr_paid_at ?ys))"
    by (simp only: distinct_map_sort_key)
  moreover have "set ?ys = ab_paid p from to (mem_abs s)"
    using bt_values [OF wf] by (auto simp: ab_paid_def mem_abs_def split: option.splits)
  ultimately show ?thesis
    by (simp add: mem_paid_within_def)
qed

lemma mem_refunds_for_spec:
  assumes "mem_invar s"
  shows "\<exists>xs. mem_refunds_for p t s = (Inr xs, s) \<and> set xs = ab_refunds_of p t (mem_abs s)
    \<and> distinct (map rr_out_refund_no xs) \<and> sorted (map rr_created_at xs)"
proof -
  let ?P = "\<lambda>r. rr_provider r = p \<and> rr_out_trade_no r = t"
  let ?ys = "filter ?P (map snd (ms_refunds s))"
  let ?k = "\<lambda>r. (rr_created_at r, rr_out_refund_no r)"
  have wf: "bt_wf (ms_refunds s)" and keyed: "ab_keyed (mem_abs s)"
    using assms by (auto simp: mem_invar_def)
  have "(k, r) \<in> set (ms_refunds s) \<Longrightarrow> k = (rr_provider r, rr_out_refund_no r)" for k r
    using keyed map_of_entry [OF wf, of k r] by (cases k) (auto simp: ab_keyed_def mem_abs_def)
  then have "distinct (map rr_out_refund_no ?ys)"
    by (intro distinct_map_snd [OF wf, where g = rr_provider]) auto
  then have "distinct (map rr_out_refund_no (sort_key ?k ?ys))"
    by (simp only: distinct_map_sort_key)
  moreover have "set ?ys = ab_refunds_of p t (mem_abs s)"
    using bt_values [OF wf] by (auto simp: ab_refunds_of_def mem_abs_def)
  moreover have "sorted (map rr_created_at (sort_key ?k ?ys))"
    by (rule sorted_map_lex_fst [where g = rr_out_refund_no]) (rule sorted_sort_key)
  ultimately show ?thesis
    by (simp add: mem_refunds_for_def)
qed

interpretation mem: payment_store mem_payment_store mem_abs mem_invar
proof unfold_locales
  fix s :: mem_store assume i: "mem_invar s"
  then have wf: "bt_wf (ms_records s)" "bt_wf (ms_refunds s)" and keyed: "ab_keyed (mem_abs s)"
    by (auto simp: mem_invar_def)
  show "ab_keyed (mem_abs s)" by (rule keyed)
  fix r :: payment_record and q :: refund_record and p t n pl now st rid j
  show "map_prod id mem_abs (ps_insert mem_payment_store r s) = ab_insert r (mem_abs s)"
    by (auto simp: mem_payment_store_def mem_ops ab_ops mem_abs_def Let_def split: option.splits)
  show "mem_invar (snd (ps_insert mem_payment_store r s))"
    using wf keyed
    by (auto simp: mem_payment_store_def mem_ops mem_invar_def mem_abs_def ab_keyed_def Let_def split: option.splits)
  show "ps_find mem_payment_store p t s = (Inr (ab_orders (mem_abs s) (p, t)), s)"
    by (simp add: mem_payment_store_def mem_ops mem_abs_def)
  show "map_prod id mem_abs (ps_transition mem_payment_store p t n pl now s) = ab_transition p t n pl now (mem_abs s)"
    by (auto simp: mem_payment_store_def mem_ops ab_ops mem_abs_def Let_def status_transition_def split: option.splits)
  show "mem_invar (snd (ps_transition mem_payment_store p t n pl now s))"
    using wf keyed
    by (auto simp: mem_payment_store_def mem_ops mem_invar_def mem_abs_def ab_keyed_def Let_def
        status_transition_def split: option.splits)
  show "map_prod id mem_abs (ps_insert_refund mem_payment_store q s) = ab_insert_refund q (mem_abs s)"
    by (auto simp: mem_payment_store_def mem_ops ab_ops mem_abs_def Let_def split: option.splits)
  show "mem_invar (snd (ps_insert_refund mem_payment_store q s))"
    using wf keyed
    by (auto simp: mem_payment_store_def mem_ops mem_invar_def mem_abs_def ab_keyed_def Let_def split: option.splits)
  show "ps_find_refund mem_payment_store p t s = (Inr (ab_refunds (mem_abs s) (p, t)), s)"
    by (simp add: mem_payment_store_def mem_ops mem_abs_def)
  show "map_prod id mem_abs (ps_transition_refund mem_payment_store p t st rid s)
      = ab_transition_refund p t st rid (mem_abs s)"
    by (auto simp: mem_payment_store_def mem_ops ab_ops mem_abs_def Let_def refund_status_transition_def
        split: option.splits)
  show "mem_invar (snd (ps_transition_refund mem_payment_store p t st rid s))"
    using wf keyed
    by (auto simp: mem_payment_store_def mem_ops mem_invar_def mem_abs_def ab_keyed_def Let_def
        refund_status_transition_def split: option.splits)
  show "map_prod id mem_abs (ps_record_refund_id mem_payment_store p t j s) = ab_record_refund_id p t j (mem_abs s)"
    by (auto simp: mem_payment_store_def mem_ops ab_ops mem_abs_def Let_def split: option.splits)
  show "mem_invar (snd (ps_record_refund_id mem_payment_store p t j s))"
    using wf keyed
    by (auto simp: mem_payment_store_def mem_ops mem_invar_def mem_abs_def ab_keyed_def Let_def split: option.splits)
qed (simp_all add: mem_payment_store_def mem_paid_within_spec mem_refunds_for_spec)

end
