(* ===== verification/Pay_Reconcile.thy ===== *)
theory Pay_Reconcile
  imports Pay_Store
begin

text \<open>
  Daily reconciliation (\<open>reconcile.rs\<close>): the bill, the comparison of a bill with the local
  orders, and the CSV reader for the bills of the two gateways. \<open>reconcile\<close> is pure in the
  source and a function here, with its loops as recursions over the same accumulators.
  The facts say which discrepancies a comparison reports: all of them and nothing else.
\<close>

section \<open>Bills\<close>

record bill_entry =
  be_out_trade_no :: string
  be_transaction_id :: "string option"
  be_amount :: amount
  be_refunded :: amount
  be_status :: payment_status

record bill =
  bl_provider :: string
  bl_date :: string
  bl_entries :: "bill_entry list"

definition bill_currency :: "bill \<Rightarrow> currency" where
  "bill_currency b = (case bl_entries b of [] \<Rightarrow> Cny | e # _ \<Rightarrow> currency (be_amount e))"

fun net_total_from :: "amount \<Rightarrow> bill_entry list \<Rightarrow> pay_error + amount" where
  "net_total_from acc [] = Inr acc"
| "net_total_from acc (e # es) =
     (if be_status e \<noteq> Paid then net_total_from acc es
      else res_bind (amount_checked_add acc (be_amount e)) (\<lambda>acc.
             res_bind (ok_or AmountOverflow (w_checked_sub (minor acc) (minor (be_refunded e)))) (\<lambda>net.
               net_total_from (from_minor net (currency acc)) es)))"

definition net_total :: "bill \<Rightarrow> pay_error + amount" where
  "net_total b = net_total_from (from_minor 0 (bill_currency b)) (bl_entries b)"

datatype discrepancy =
    MissingLocally string amount
  | MissingRemotely string amount
  | AmountMismatch string amount amount
  | StatusMismatch string payment_status payment_status

fun discrepancy_out_trade_no :: "discrepancy \<Rightarrow> string" where
  "discrepancy_out_trade_no (MissingLocally t _) = t"
| "discrepancy_out_trade_no (MissingRemotely t _) = t"
| "discrepancy_out_trade_no (AmountMismatch t _ _) = t"
| "discrepancy_out_trade_no (StatusMismatch t _ _) = t"

text \<open>The derived \<open>Debug\<close> texts that break ties when the discrepancies are sorted.\<close>

fun currency_debug :: "currency \<Rightarrow> string" where
  "currency_debug Cny = ''Cny''"

definition amount_debug :: "amount \<Rightarrow> string" where
  "amount_debug a = ''Amount { minor: '' @ nat_to_string (unat (minor a)) @ '', currency: ''
     @ currency_debug (currency a) @ '' }''"

fun status_debug :: "payment_status \<Rightarrow> string" where
  "status_debug Created = ''Created''"
| "status_debug Pending = ''Pending''"
| "status_debug Paid = ''Paid''"
| "status_debug Failed = ''Failed''"
| "status_debug Closed = ''Closed''"
| "status_debug Refunding = ''Refunding''"
| "status_debug Refunded = ''Refunded''"

fun discrepancy_debug :: "discrepancy \<Rightarrow> string" where
  "discrepancy_debug (MissingLocally t a) =
     ''MissingLocally { out_trade_no: '' @ str_debug t @ '', amount: '' @ amount_debug a @ '' }''"
| "discrepancy_debug (MissingRemotely t a) =
     ''MissingRemotely { out_trade_no: '' @ str_debug t @ '', amount: '' @ amount_debug a @ '' }''"
| "discrepancy_debug (AmountMismatch t l r) =
     ''AmountMismatch { out_trade_no: '' @ str_debug t @ '', local: '' @ amount_debug l
       @ '', remote: '' @ amount_debug r @ '' }''"
| "discrepancy_debug (StatusMismatch t l r) =
     ''StatusMismatch { out_trade_no: '' @ str_debug t @ '', local: '' @ status_debug l
       @ '', remote: '' @ status_debug r @ '' }''"

record reconciliation =
  rec_provider :: string
  rec_date :: string
  rec_matched :: nat
  rec_discrepancies :: "discrepancy list"

definition is_balanced :: "reconciliation \<Rightarrow> bool" where
  "is_balanced r \<longleftrightarrow> rec_discrepancies r = []"

section \<open>Comparing a bill with the local orders\<close>

definition status_agrees :: "payment_status \<Rightarrow> payment_status \<Rightarrow> bool" where
  "status_agrees l r \<longleftrightarrow> l = r \<or> (l = Refunding \<or> l = Refunded) \<and> (r = Paid \<or> r = Refunded)"

definition local_by_number :: "bill \<Rightarrow> payment_record list \<Rightarrow> (string, payment_record) btree" where
  "local_by_number b recs =
     foldl (\<lambda>m r. if pr_provider r = bl_provider b then bt_insert (pr_out_trade_no r) r m else m) [] recs"

text \<open>The loop over the lines of the bill; \<open>matched\<close>, \<open>discs\<close> and \<open>seen\<close> are its variables.\<close>

fun reconcile_entries :: "(string, payment_record) btree \<Rightarrow> bill_entry list \<Rightarrow>
    nat \<Rightarrow> discrepancy list \<Rightarrow> string set \<Rightarrow> nat \<times> discrepancy list \<times> string set" where
  "reconcile_entries lk [] matched discs seen = (matched, discs, seen)"
| "reconcile_entries lk (e # es) matched discs seen =
     (let seen = insert (be_out_trade_no e) seen
      in case map_of lk (be_out_trade_no e) of
           None \<Rightarrow>
             if be_status e = Paid
             then reconcile_entries lk es matched
                    (discs @ [MissingLocally (be_out_trade_no e) (be_amount e)]) seen
             else reconcile_entries lk es matched discs seen
         | Some r \<Rightarrow>
             let d1 = (if pr_amount r \<noteq> be_amount e
                       then [AmountMismatch (be_out_trade_no e) (pr_amount r) (be_amount e)] else []);
                 d2 = (if \<not> status_agrees (pr_status r) (be_status e)
                       then [StatusMismatch (be_out_trade_no e) (pr_status r) (be_status e)] else []);
                 agreed = (pr_amount r = be_amount e \<and> status_agrees (pr_status r) (be_status e))
             in reconcile_entries lk es (if agreed then matched + 1 else matched) (discs @ d1 @ d2) seen)"

text \<open>The loop over the local orders the bill did not mention.\<close>

definition missing_remotely :: "(string, payment_record) btree \<Rightarrow> string set \<Rightarrow> discrepancy list" where
  "missing_remotely lk seen =
     map (\<lambda>(t, r). MissingRemotely t (pr_amount r)) (filter (\<lambda>(t, r). t \<notin> seen) lk)"

definition reconcile :: "bill \<Rightarrow> payment_record list \<Rightarrow> reconciliation" where
  "reconcile b recs =
     (let lk = local_by_number b recs;
          (matched, discs, seen) = reconcile_entries lk (bl_entries b) 0 [] {};
          discs = discs @ missing_remotely lk seen
      in \<lparr>rec_provider = bl_provider b, rec_date = bl_date b, rec_matched = matched,
          rec_discrepancies = sort_key (\<lambda>d. (discrepancy_out_trade_no d, discrepancy_debug d)) discs\<rparr>)"

section \<open>Reading a bill\<close>

datatype header_alias = Alias (alias_utf8: string) (alias_gbk: string)

definition alias_matches :: "header_alias \<Rightarrow> string \<Rightarrow> bool" where
  "alias_matches a cell \<longleftrightarrow> cell = alias_utf8 a \<or> alias_gbk a \<noteq> [] \<and> cell = alias_gbk a"

definition ascii :: "string \<Rightarrow> header_alias" where
  "ascii u = Alias u []"

definition HEADER_ALIASES :: "(string \<times> header_alias list) list" where
  "HEADER_ALIASES =
    [(''out_trade_no'',
       [ascii ''out_trade_no'',
        Alias (bytes [0xE5, 0x95, 0x86, 0xE6, 0x88, 0xB7, 0xE8, 0xAE, 0xA2, 0xE5, 0x8D, 0x95, 0xE5, 0x8F, 0xB7])
         (bytes [0xC9, 0xCC, 0xBB, 0xA7, 0xB6, 0xA9, 0xB5, 0xA5, 0xBA, 0xC5]),
        Alias (bytes [0xE5, 0x95, 0x86, 0xE5, 0xAE, 0xB6, 0xE8, 0xAE, 0xA2, 0xE5, 0x8D, 0x95, 0xE5, 0x8F, 0xB7])
         (bytes [0xC9, 0xCC, 0xBC, 0xD2, 0xB6, 0xA9, 0xB5, 0xA5, 0xBA, 0xC5]),
        Alias (bytes [0xE5, 0x95, 0x86, 0xE6, 0x88, 0xB7, 0xE5, 0x8D, 0x95, 0xE5, 0x8F, 0xB7])
         (bytes [0xC9, 0xCC, 0xBB, 0xA7, 0xB5, 0xA5, 0xBA, 0xC5])]),
     (''transaction_id'',
       [ascii ''transaction_id'',
        Alias (bytes [0xE5, 0xBE, 0xAE, 0xE4, 0xBF, 0xA1, 0xE8, 0xAE, 0xA2, 0xE5, 0x8D, 0x95, 0xE5, 0x8F, 0xB7])
         (bytes [0xCE, 0xA2, 0xD0, 0xC5, 0xB6, 0xA9, 0xB5, 0xA5, 0xBA, 0xC5]),
        Alias (bytes [0xE6, 0x94, 0xAF, 0xE4, 0xBB, 0x98, 0xE5, 0xAE, 0x9D, 0xE4, 0xBA, 0xA4, 0xE6, 0x98, 0x93, 0xE5, 0x8F, 0xB7])
         (bytes [0xD6, 0xA7, 0xB8, 0xB6, 0xB1, 0xA6, 0xBD, 0xBB, 0xD2, 0xD7, 0xBA, 0xC5]),
        Alias (bytes [0xE4, 0xBA, 0xA4, 0xE6, 0x98, 0x93, 0xE5, 0x8F, 0xB7])
         (bytes [0xBD, 0xBB, 0xD2, 0xD7, 0xBA, 0xC5])]),
     (''amount'',
       [ascii ''amount'',
        Alias (bytes [0xE8, 0xAE, 0xA2, 0xE5, 0x8D, 0x95, 0xE9, 0x87, 0x91, 0xE9, 0xA2, 0x9D])
         (bytes [0xB6, 0xA9, 0xB5, 0xA5, 0xBD, 0xF0, 0xB6, 0xEE]),
        Alias (bytes [0xE8, 0xAE, 0xA2, 0xE5, 0x8D, 0x95, 0xE9, 0x87, 0x91, 0xE9, 0xA2, 0x9D, 0xEF, 0xBC, 0x88, 0xE5, 0x85, 0x83, 0xEF, 0xBC, 0x89])
         (bytes [0xB6, 0xA9, 0xB5, 0xA5, 0xBD, 0xF0, 0xB6, 0xEE, 0xA3, 0xA8, 0xD4, 0xAA, 0xA3, 0xA9]),
        Alias (bytes [0xE6, 0x80, 0xBB, 0xE9, 0x87, 0x91, 0xE9, 0xA2, 0x9D])
         (bytes [0xD7, 0xDC, 0xBD, 0xF0, 0xB6, 0xEE]),
        Alias (bytes [0xE5, 0xBA, 0x94, 0xE7, 0xBB, 0x93, 0xE8, 0xAE, 0xA2, 0xE5, 0x8D, 0x95, 0xE9, 0x87, 0x91, 0xE9, 0xA2, 0x9D])
         (bytes [0xD3, 0xA6, 0xBD, 0xE1, 0xB6, 0xA9, 0xB5, 0xA5, 0xBD, 0xF0, 0xB6, 0xEE])]),
     (''refunded'',
       [ascii ''refunded'',
        Alias (bytes [0xE9, 0x80, 0x80, 0xE6, 0xAC, 0xBE, 0xE9, 0x87, 0x91, 0xE9, 0xA2, 0x9D])
         (bytes [0xCD, 0xCB, 0xBF, 0xEE, 0xBD, 0xF0, 0xB6, 0xEE]),
        Alias (bytes [0xE5, 0x95, 0x86, 0xE6, 0x88, 0xB7, 0xE9, 0x80, 0x80, 0xE6, 0xAC, 0xBE, 0xE9, 0x87, 0x91, 0xE9, 0xA2, 0x9D])
         (bytes [0xC9, 0xCC, 0xBB, 0xA7, 0xCD, 0xCB, 0xBF, 0xEE, 0xBD, 0xF0, 0xB6, 0xEE]),
        Alias (bytes [0xE9, 0x80, 0x80, 0xE6, 0xAC, 0xBE, 0xE9, 0x87, 0x91, 0xE9, 0xA2, 0x9D, 0xEF, 0xBC, 0x88, 0xE5, 0x85, 0x83, 0xEF, 0xBC, 0x89])
         (bytes [0xCD, 0xCB, 0xBF, 0xEE, 0xBD, 0xF0, 0xB6, 0xEE, 0xA3, 0xA8, 0xD4, 0xAA, 0xA3, 0xA9])]),
     (''status'',
       [ascii ''status'',
        Alias (bytes [0xE4, 0xBA, 0xA4, 0xE6, 0x98, 0x93, 0xE7, 0x8A, 0xB6, 0xE6, 0x80, 0x81])
         (bytes [0xBD, 0xBB, 0xD2, 0xD7, 0xD7, 0xB4, 0xCC, 0xAC]),
        Alias (bytes [0xE4, 0xB8, 0x9A, 0xE5, 0x8A, 0xA1, 0xE7, 0xB1, 0xBB, 0xE5, 0x9E, 0x8B])
         (bytes [0xD2, 0xB5, 0xCE, 0xF1, 0xC0, 0xE0, 0xD0, 0xCD])])]"

definition BILL_STATUSES :: "(header_alias list \<times> payment_status) list" where
  "BILL_STATUSES =
    [([ascii ''SUCCESS'',
        ascii ''TRADE_SUCCESS'',
        ascii ''TRADE_FINISHED'',
        Alias (bytes [0xE6, 0x94, 0xAF, 0xE4, 0xBB, 0x98])
         (bytes [0xD6, 0xA7, 0xB8, 0xB6]),
        Alias (bytes [0xE4, 0xBA, 0xA4, 0xE6, 0x98, 0x93])
         (bytes [0xBD, 0xBB, 0xD2, 0xD7])],
       Paid),
     ([ascii ''REFUND'',
        Alias (bytes [0xE9, 0x80, 0x80, 0xE6, 0xAC, 0xBE])
         (bytes [0xCD, 0xCB, 0xBF, 0xEE])],
       Refunded),
     ([ascii ''CLOSED'',
        ascii ''REVOKED'',
        ascii ''TRADE_CLOSED'',
        Alias (bytes [0xE5, 0x85, 0xB3, 0xE9, 0x97, 0xAD])
         (bytes [0xB9, 0xD8, 0xB1, 0xD5])],
       Closed),
     ([ascii ''PAYERROR''],
       Failed)]"

definition byte_is_ascii_whitespace :: "char \<Rightarrow> bool" where
  "byte_is_ascii_whitespace c \<longleftrightarrow> (of_char c :: nat) \<in> {9, 10, 12, 13, 32}"

definition trim_ascii :: "string \<Rightarrow> string" where
  "trim_ascii line = rev (dropWhile byte_is_ascii_whitespace (rev (dropWhile byte_is_ascii_whitespace line)))"

definition clean_cell :: "string \<Rightarrow> string" where
  "clean_cell cell =
     trim_ascii
       (rev (dropWhile (\<lambda>c. c = CHR 0x22)
         (rev (dropWhile (\<lambda>c. c = CHR 0x60 \<or> c = CHR 0x22) (trim_ascii cell)))))"

definition split_cells :: "string \<Rightarrow> string list" where
  "split_cells line = map clean_cell (split_on (CHR '','') line)"

definition cell_text :: "string \<Rightarrow> string" where
  "cell_text cell = utf8_lossy cell"

definition parse_bill_status :: "string \<Rightarrow> pay_error + payment_status" where
  "parse_bill_status cell =
     (case find (\<lambda>(aliases, st). list_ex (\<lambda>a. alias_matches a cell) aliases) BILL_STATUSES of
        Some (_, st) \<Rightarrow> Inr st
      | None \<Rightarrow>
          (case status_from_str (cell_text cell) of
             Inr st \<Rightarrow> Inr st
           | Inl _ \<Rightarrow> Inl (Reconcile (''unknown bill status `'' @ cell_text cell @ ''`''))))"

fun position :: "('a \<Rightarrow> bool) \<Rightarrow> 'a list \<Rightarrow> nat option" where
  "position P [] = None"
| "position P (x # xs) = (if P x then Some 0 else map_option Suc (position P xs))"

definition column_index :: "string list \<Rightarrow> string \<Rightarrow> pay_error + nat" where
  "column_index columns name =
     (let aliases = (case map_of HEADER_ALIASES name of None \<Rightarrow> [] | Some as \<Rightarrow> as)
      in ok_or (Reconcile (''bill has no `'' @ name @ ''` column''))
           (position (\<lambda>column. list_ex (\<lambda>a. alias_matches a column) aliases) columns))"

definition res_ok :: "'e + 'a \<Rightarrow> 'a option" where
  "res_ok r = (case r of Inl _ \<Rightarrow> None | Inr x \<Rightarrow> Some x)"

definition nth_opt :: "'a list \<Rightarrow> nat \<Rightarrow> 'a option" where
  "nth_opt xs i = (if i < length xs then Some (xs ! i) else None)"

record bill_columns =
  bc_out_trade_no :: nat
  bc_transaction_id :: "nat option"
  bc_amount :: nat
  bc_refunded :: "nat option"
  bc_status :: "nat option"

definition bill_cell :: "string list \<Rightarrow> nat \<Rightarrow> nat \<Rightarrow> pay_error + string" where
  "bill_cell cells row i =
     ok_or (Reconcile (''bill row '' @ nat_to_string (row + 1) @ '' is missing a column'')) (nth_opt cells i)"

definition parse_bill_entry :: "bill_columns \<Rightarrow> string list \<Rightarrow> nat \<Rightarrow> string \<Rightarrow> pay_error + bill_entry" where
  "parse_bill_entry bc cells row number =
     res_bind (bill_cell cells row (bc_amount bc)) (\<lambda>amount_cell.
     res_bind (cny_from_decimal_str (cell_text amount_cell)) (\<lambda>amt.
     res_bind (case Option.bind (bc_refunded bc) (nth_opt cells) of
                 Some v \<Rightarrow> if v \<noteq> [] then cny_from_decimal_str (cell_text v) else Inr (cny 0)
               | None \<Rightarrow> Inr (cny 0)) (\<lambda>refunded.
     res_bind (case bc_status bc of
                 Some i \<Rightarrow> res_bind (bill_cell cells row i) parse_bill_status
               | None \<Rightarrow> Inr Paid) (\<lambda>st.
       Inr \<lparr>be_out_trade_no = cell_text number,
            be_transaction_id =
              (case Option.bind (bc_transaction_id bc) (nth_opt cells) of
                 Some v \<Rightarrow> if v \<noteq> [] then Some (cell_text v) else None
               | None \<Rightarrow> None),
            be_amount = amt, be_refunded = refunded, be_status = st\<rparr>))))"

fun parse_bill_rows :: "bill_columns \<Rightarrow> nat \<Rightarrow> string list \<Rightarrow> pay_error + bill_entry list" where
  "parse_bill_rows bc row [] = Inr []"
| "parse_bill_rows bc row (line # lines) =
     (let cells = split_cells line
      in res_bind (bill_cell cells row (bc_out_trade_no bc)) (\<lambda>number.
           if number = [] then Inr []
           else res_bind (parse_bill_entry bc cells row number) (\<lambda>e.
                  res_bind (parse_bill_rows bc (row + 1) lines) (\<lambda>es. Inr (e # es)))))"

definition bill_lines :: "string \<Rightarrow> string list" where
  "bill_lines csv =
     filter (\<lambda>line. line \<noteq> [] \<and> (case line of c # _ \<Rightarrow> c \<noteq> CHR 0x23 | [] \<Rightarrow> True))
       (map trim_ascii (split_on (CHR 0x0A) csv))"

definition parse_bill_csv_bytes :: "string \<Rightarrow> string \<Rightarrow> string \<Rightarrow> pay_error + bill" where
  "parse_bill_csv_bytes provider date csv =
     (case bill_lines csv of
        [] \<Rightarrow> Inl (Reconcile ''bill has no header row'')
      | header # lines \<Rightarrow>
          let columns = split_cells header
          in res_bind (column_index columns ''out_trade_no'') (\<lambda>out_trade_no.
             res_bind (column_index columns ''amount'') (\<lambda>amount_col.
               let bc = \<lparr>bc_out_trade_no = out_trade_no,
                         bc_transaction_id = res_ok (column_index columns ''transaction_id''),
                         bc_amount = amount_col,
                         bc_refunded = res_ok (column_index columns ''refunded''),
                         bc_status = res_ok (column_index columns ''status'')\<rparr>
               in res_bind (parse_bill_rows bc 0 lines) (\<lambda>entries.
                    Inr \<lparr>bl_provider = provider, bl_date = date, bl_entries = entries\<rparr>))))"

definition parse_bill_csv :: "string \<Rightarrow> string \<Rightarrow> string \<Rightarrow> pay_error + bill" where
  "parse_bill_csv provider date csv = parse_bill_csv_bytes provider date csv"

section \<open>What a comparison reports\<close>

text \<open>
  The local order a line is compared with: the last record of the list that has the
  bill's provider and the line's number.
\<close>

definition local_order :: "bill \<Rightarrow> payment_record list \<Rightarrow> string \<rightharpoonup> payment_record" where
  "local_order b recs t = find (\<lambda>r. pr_provider r = bl_provider b \<and> pr_out_trade_no r = t) (rev recs)"

text \<open>The discrepancies one line of the bill gives rise to, and whether it is matched.\<close>

fun line_discrepancies :: "payment_record option \<Rightarrow> bill_entry \<Rightarrow> discrepancy list" where
  "line_discrepancies None e =
     (if be_status e = Paid then [MissingLocally (be_out_trade_no e) (be_amount e)] else [])"
| "line_discrepancies (Some r) e =
     (if pr_amount r \<noteq> be_amount e then [AmountMismatch (be_out_trade_no e) (pr_amount r) (be_amount e)] else [])
     @ (if \<not> status_agrees (pr_status r) (be_status e)
        then [StatusMismatch (be_out_trade_no e) (pr_status r) (be_status e)] else [])"

fun line_matched :: "payment_record option \<Rightarrow> bill_entry \<Rightarrow> bool" where
  "line_matched None e = False"
| "line_matched (Some r) e = (pr_amount r = be_amount e \<and> status_agrees (pr_status r) (be_status e))"

lemma local_by_number_wf: "bt_wf (local_by_number b recs)"
proof -
  have "bt_wf m \<Longrightarrow> bt_wf (foldl (\<lambda>m r. if pr_provider r = bl_provider b
      then bt_insert (pr_out_trade_no r) r m else m) m recs)" for m
    by (induction recs arbitrary: m) auto
  then show ?thesis by (simp add: local_by_number_def)
qed

lemma map_of_local_by_number: "map_of (local_by_number b recs) = local_order b recs"
proof
  fix t
  show "map_of (local_by_number b recs) t = local_order b recs t"
    by (induction recs rule: rev_induct) (auto simp: local_by_number_def local_order_def)
qed

lemma local_order_number: "local_order b recs t = Some r \<Longrightarrow> pr_out_trade_no r = t"
  by (auto simp: local_order_def find_Some_iff)

lemma local_order_dom:
  "dom (local_order b recs) = pr_out_trade_no ` {r \<in> set recs. pr_provider r = bl_provider b}"
proof -
  have "local_order b recs t = None \<longleftrightarrow>
      (\<forall>r \<in> set recs. pr_provider r = bl_provider b \<longrightarrow> pr_out_trade_no r \<noteq> t)" for t
    by (auto simp: local_order_def find_None_iff)
  then show ?thesis by (force simp: dom_def)
qed

lemma reconcile_entries_eq:
  "reconcile_entries lk es m ds seen =
     (m + length (filter (\<lambda>e. line_matched (map_of lk (be_out_trade_no e)) e) es),
      ds @ concat (map (\<lambda>e. line_discrepancies (map_of lk (be_out_trade_no e)) e) es),
      seen \<union> set (map be_out_trade_no es))"
proof (induction es arbitrary: m ds seen)
  case Nil
  then show ?case by simp
next
  case (Cons e es)
  show ?case
    by (cases "map_of lk (be_out_trade_no e)") (auto simp: Cons.IH Let_def)
qed

lemma set_missing_remotely:
  assumes "bt_wf lk"
  shows "set (missing_remotely lk seen) =
    {MissingRemotely t (pr_amount r) | t r. map_of lk t = Some r \<and> t \<notin> seen}"
  using map_of_entry [OF assms] by (fastforce simp: missing_remotely_def)

lemma reconcile_matched:
  "rec_matched (reconcile b recs) =
     length (filter (\<lambda>e. line_matched (local_order b recs (be_out_trade_no e)) e) (bl_entries b))"
  by (simp add: reconcile_def Let_def reconcile_entries_eq map_of_local_by_number)

lemma set_reconcile_discrepancies:
  "set (rec_discrepancies (reconcile b recs)) =
     {d. \<exists>e \<in> set (bl_entries b). d \<in> set (line_discrepancies (local_order b recs (be_out_trade_no e)) e)}
     \<union> {MissingRemotely t (pr_amount r) | t r.
          local_order b recs t = Some r \<and> t \<notin> be_out_trade_no ` set (bl_entries b)}"
  by (auto simp: reconcile_def Let_def reconcile_entries_eq set_missing_remotely [OF local_by_number_wf]
      map_of_local_by_number)

lemma line_discrepancies_Nil_iff:
  "line_discrepancies x e = [] \<longleftrightarrow>
     (case x of None \<Rightarrow> be_status e \<noteq> Paid
      | Some r \<Rightarrow> pr_amount r = be_amount e \<and> status_agrees (pr_status r) (be_status e))"
  by (cases x) auto

section \<open>Properties\<close>

text \<open>
  a day is balanced exactly when every line the provider settled as paid has a local
  order, every line with a local order agrees with it on the amount and on the status, and
  every local order of the provider is on the bill. Nothing else is reported and nothing
  of this is missed.
\<close>

theorem reconcile_balanced_iff:
  "is_balanced (reconcile b recs) \<longleftrightarrow>
     list_all (\<lambda>e. case local_order b recs (be_out_trade_no e) of
                   None \<Rightarrow> be_status e \<noteq> Paid
                 | Some r \<Rightarrow> pr_amount r = be_amount e \<and> status_agrees (pr_status r) (be_status e))
       (bl_entries b)
     \<and> list_all (\<lambda>r. list_ex (\<lambda>e. be_out_trade_no e = pr_out_trade_no r) (bl_entries b))
          (filter (\<lambda>r. pr_provider r = bl_provider b) recs)"
proof -
  have "is_balanced (reconcile b recs) \<longleftrightarrow> set (rec_discrepancies (reconcile b recs)) = {}"
    by (simp add: is_balanced_def)
  also have "\<dots> \<longleftrightarrow>
      (\<forall>e \<in> set (bl_entries b). line_discrepancies (local_order b recs (be_out_trade_no e)) e = [])
      \<and> (\<forall>t r. local_order b recs t = Some r \<longrightarrow> t \<in> be_out_trade_no ` set (bl_entries b))"
    unfolding set_reconcile_discrepancies set_empty [symmetric]
    by (auto simp del: set_empty) (meson last_in_set)
  also have "(\<forall>t r. local_order b recs t = Some r \<longrightarrow> t \<in> be_out_trade_no ` set (bl_entries b)) \<longleftrightarrow>
      (\<forall>r \<in> set recs. pr_provider r = bl_provider b \<longrightarrow> pr_out_trade_no r \<in> be_out_trade_no ` set (bl_entries b))"
    using local_order_dom [of b recs] by (fastforce simp: dom_def set_eq_iff)
  also have "(\<forall>e \<in> set (bl_entries b). line_discrepancies (local_order b recs (be_out_trade_no e)) e = []) \<longleftrightarrow>
      list_all (\<lambda>e. case local_order b recs (be_out_trade_no e) of
                   None \<Rightarrow> be_status e \<noteq> Paid
                 | Some r \<Rightarrow> pr_amount r = be_amount e \<and> status_agrees (pr_status r) (be_status e))
       (bl_entries b)"
    by (simp add: list_all_iff line_discrepancies_Nil_iff)
  finally show ?thesis
    by (auto simp: list_all_iff list_ex_iff image_iff eq_commute)
qed

end
