(* ===== verification/Pay_Manager.thy ===== *)
theory Pay_Manager
  imports Pay_Reconcile
begin

text \<open>
  The facade \<open>PayManager\<close> (\<open>manager.rs\<close>) over a store and a set of providers. The trait
  \<open>PaymentProvider\<close> is the record \<open>provider\<close> of its methods, each an operation on a
  provider-side world \<open>'w\<close> about which nothing is assumed: the properties hold whatever a
  gateway answers. A manager method is an operation on the pair of the store's state and
  that world; \<open>now\<close> arguments are the clock readings the method makes.

  The client lemmas are proved once in the locale \<open>payment_store\<close>, for every store that
  keeps the contract, and reach \<open>MemoryPaymentStore\<close> through its interpretation.
\<close>

section \<open>Providers\<close>

record 'w provider =
  pv_key :: string
  pv_create :: "create_order \<Rightarrow> ('w, pay_error, payment_intent) op"
  pv_verify_notify :: "notify_request \<Rightarrow> ('w, pay_error, notify_event) op"
  pv_query :: "string \<Rightarrow> ('w, pay_error, payment_status) op"
  pv_close :: "string \<Rightarrow> ('w, pay_error, unit) op"
  pv_refund :: "refund_order \<Rightarrow> ('w, pay_error, refund_receipt) op"
  pv_verify_refund_notify :: "notify_request \<Rightarrow> ('w, pay_error, refund_notify_event) op"
  pv_query_refund :: "string \<Rightarrow> string \<Rightarrow> ('w, pay_error, refund_receipt) op"
  pv_download_bill :: "string \<Rightarrow> ('w, pay_error, bill) op"

text \<open>The methods a provider inherits from the trait when it does not define them.\<close>

definition pv_close_default :: "string \<Rightarrow> ('w, pay_error, unit) op" where
  "pv_close_default out_trade_no = op_throw (NotImplemented ''close not supported by this provider'')"

definition pv_refund_default :: "refund_order \<Rightarrow> ('w, pay_error, refund_receipt) op" where
  "pv_refund_default refund = op_throw (NotImplemented ''refund not supported by this provider'')"

definition pv_verify_refund_notify_default :: "notify_request \<Rightarrow> ('w, pay_error, refund_notify_event) op" where
  "pv_verify_refund_notify_default n =
     op_throw (NotImplemented ''refund notifications not supported by this provider'')"

definition pv_query_refund_default :: "string \<Rightarrow> string \<Rightarrow> ('w, pay_error, refund_receipt) op" where
  "pv_query_refund_default t r = op_throw (NotImplemented ''refund query not supported by this provider'')"

definition pv_download_bill_default :: "string \<Rightarrow> ('w, pay_error, bill) op" where
  "pv_download_bill_default date = op_throw (NotImplemented ''bill download not supported by this provider'')"

section \<open>The manager\<close>

datatype notify_outcome = Processed notify_event | AlreadyProcessed notify_event

record ('s, 'w) pay_manager =
  pm_providers :: "(string, 'w provider) btree"
  pm_store :: "'s payment_store"

definition pm_builder :: "'s payment_store \<Rightarrow> ('s, 'w) pay_manager" where
  "pm_builder st = \<lparr>pm_providers = [], pm_store = st\<rparr>"

definition pm_with_provider :: "'w provider \<Rightarrow> ('s, 'w) pay_manager \<Rightarrow> ('s, 'w) pay_manager" where
  "pm_with_provider p m = m\<lparr>pm_providers := bt_insert (pv_key p) p (pm_providers m)\<rparr>"

definition pm_with_store :: "'s payment_store \<Rightarrow> ('s, 'w) pay_manager \<Rightarrow> ('s, 'w) pay_manager" where
  "pm_with_store st m = m\<lparr>pm_store := st\<rparr>"

definition pm_provider_keys :: "('s, 'w) pay_manager \<Rightarrow> string list" where
  "pm_provider_keys m = map fst (pm_providers m)"

definition pm_provider :: "('s, 'w) pay_manager \<Rightarrow> string \<Rightarrow> pay_error + 'w provider" where
  "pm_provider m key = ok_or (UnknownProvider key) (map_of (pm_providers m) key)"

definition pm_create :: "('s, 'w) pay_manager \<Rightarrow> string \<Rightarrow> create_order \<Rightarrow> systime \<Rightarrow> systime \<Rightarrow>
    ('s \<times> 'w, pay_error, payment_intent) op" where
  "pm_create m provider_key order now now' =
     op_bind (op_lift (pm_provider m provider_key)) (\<lambda>p.
     op_bind (op_lift (create_order_validate order)) (\<lambda>_.
     op_bind (on_fst (ps_insert (pm_store m) (payment_record_new (pv_key p) order now))) (\<lambda>_.
     op_match (on_snd (pv_create p order))
       (\<lambda>e. op_match (on_fst (ps_transition (pm_store m) (pv_key p) (co_out_trade_no order) Closed None now'))
              (\<lambda>_. op_throw e) (\<lambda>_. op_throw e))
       (\<lambda>intent.
          op_bind (on_fst (ps_transition (pm_store m) (pv_key p) (co_out_trade_no order) Pending None now')) (\<lambda>_.
          op_return intent)))))"

definition pm_handle_notify :: "('s, 'w) pay_manager \<Rightarrow> string \<Rightarrow> notify_request \<Rightarrow> systime \<Rightarrow>
    ('s \<times> 'w, pay_error, notify_outcome) op" where
  "pm_handle_notify m provider_key notify now =
     op_bind (op_lift (pm_provider m provider_key)) (\<lambda>p.
     op_bind (on_snd (pv_verify_notify p notify)) (\<lambda>event.
     op_bind (on_fst (ps_find (pm_store m) (pv_key p) (ne_out_trade_no event))) (\<lambda>found.
     op_bind (op_lift (ok_or (OrderNotFound (pv_key p) (ne_out_trade_no event)) found)) (\<lambda>record.
     if pr_status record = ne_status event then op_return (AlreadyProcessed event)
     else
       op_bind (on_fst (ps_transition (pm_store m) (pv_key p) (ne_out_trade_no event) (ne_status event)
                 (Some (ne_raw event)) now)) (\<lambda>_.
       op_return (Processed event))))))"

definition pm_query :: "('s, 'w) pay_manager \<Rightarrow> string \<Rightarrow> string \<Rightarrow> ('s \<times> 'w, pay_error, payment_status) op" where
  "pm_query m provider_key out_trade_no =
     op_bind (op_lift (pm_provider m provider_key)) (\<lambda>p. on_snd (pv_query p out_trade_no))"

definition pm_close :: "('s, 'w) pay_manager \<Rightarrow> string \<Rightarrow> string \<Rightarrow> systime \<Rightarrow> ('s \<times> 'w, pay_error, unit) op" where
  "pm_close m provider_key out_trade_no now =
     op_bind (op_lift (pm_provider m provider_key)) (\<lambda>p.
     op_bind (on_snd (pv_close p out_trade_no)) (\<lambda>_.
     op_bind (on_fst (ps_transition (pm_store m) (pv_key p) out_trade_no Closed None now)) (\<lambda>_.
     op_return ())))"

definition pm_find_order :: "('s, 'w) pay_manager \<Rightarrow> string \<Rightarrow> string \<Rightarrow>
    ('s \<times> 'w, pay_error, payment_record option) op" where
  "pm_find_order m provider_key out_trade_no = on_fst (ps_find (pm_store m) provider_key out_trade_no)"

definition pm_refunds_for :: "('s, 'w) pay_manager \<Rightarrow> string \<Rightarrow> string \<Rightarrow>
    ('s \<times> 'w, pay_error, refund_record list) op" where
  "pm_refunds_for m provider_key out_trade_no = on_fst (ps_refunds_for (pm_store m) provider_key out_trade_no)"

text \<open>The refundable rest of an order; the sum is the wrapping 64-bit sum of the source.\<close>

definition refundable_of :: "payment_record \<Rightarrow> refund_record list \<Rightarrow> amount" where
  "refundable_of record refunds =
     (let held = sum_list (map (\<lambda>r. minor (rr_amount r)) (filter holds_amount refunds))
      in from_minor (w_saturating_sub (minor (pr_amount record)) held) (currency (pr_amount record)))"

definition pm_refundable :: "('s, 'w) pay_manager \<Rightarrow> string \<Rightarrow> payment_record \<Rightarrow>
    ('s \<times> 'w, pay_error, amount) op" where
  "pm_refundable m provider_key record =
     op_bind (on_fst (ps_refunds_for (pm_store m) provider_key (pr_out_trade_no record))) (\<lambda>refunds.
     op_return (refundable_of record refunds))"

text \<open>The status an order should have, given its refunds.\<close>

definition refund_target :: "payment_record \<Rightarrow> refund_record list \<Rightarrow> payment_status" where
  "refund_target record refunds =
     (let succeeded = sum_list (map (\<lambda>r. minor (rr_amount r)) (filter (\<lambda>r. rr_status r = Succeeded) refunds));
          outstanding = list_ex (\<lambda>r. rr_status r = Processing) refunds
      in if succeeded \<ge> minor (pr_amount record) then Refunded
         else if succeeded > 0 \<or> outstanding then Refunding
         else Paid)"

definition pm_sync_order_refund_status :: "('s, 'w) pay_manager \<Rightarrow> string \<Rightarrow> string \<Rightarrow> systime \<Rightarrow>
    ('s \<times> 'w, pay_error, unit) op" where
  "pm_sync_order_refund_status m provider_key out_trade_no now =
     op_bind (on_fst (ps_find (pm_store m) provider_key out_trade_no)) (\<lambda>found.
     op_bind (op_lift (ok_or (OrderNotFound provider_key out_trade_no) found)) (\<lambda>record.
     op_bind (on_fst (ps_refunds_for (pm_store m) provider_key out_trade_no)) (\<lambda>refunds.
     let target = refund_target record refunds
     in if target = pr_status record then op_return ()
        else
          op_bind
            (if pr_status record = Paid \<and> target = Refunded
             then op_bind (on_fst (ps_transition (pm_store m) provider_key out_trade_no Refunding None now))
                    (\<lambda>_. op_return ())
             else op_return ()) (\<lambda>_.
          op_bind (on_fst (ps_transition (pm_store m) provider_key out_trade_no target None now)) (\<lambda>_.
          op_return ())))))"

text \<open>
  \<open>refund\<close> up to the decision to go ahead: \<open>Some receipt\<close> is the early return for a known
  refund number, \<open>None\<close> lets the refund proceed.
\<close>

definition pm_refund_check :: "('s, 'w) pay_manager \<Rightarrow> 'w provider \<Rightarrow> refund_order \<Rightarrow>
    ('s \<times> 'w, pay_error, refund_receipt option) op" where
  "pm_refund_check m p refund =
     op_bind (op_lift (refund_validate refund)) (\<lambda>_.
     op_bind (on_fst (ps_find_refund (pm_store m) (pv_key p) (ro_out_refund_no refund))) (\<lambda>known.
     case known of
       Some existing \<Rightarrow>
         if rr_out_trade_no existing \<noteq> ro_out_trade_no refund
         then op_throw (InvalidRefund ''out_refund_no is already used by a different order'')
         else op_return (Some
           \<lparr>rc_provider = pv_key p, rc_out_trade_no = rr_out_trade_no existing,
            rc_out_refund_no = rr_out_refund_no existing, rc_refund_id = rr_refund_id existing,
            rc_amount = rr_amount existing, rc_status = rr_status existing, rc_raw = []\<rparr>)
     | None \<Rightarrow>
         op_bind (on_fst (ps_find (pm_store m) (pv_key p) (ro_out_trade_no refund))) (\<lambda>found.
         op_bind (op_lift (ok_or (OrderNotFound (pv_key p) (ro_out_trade_no refund)) found)) (\<lambda>record.
         if \<not> (pr_status record = Paid \<or> pr_status record = Refunding)
         then op_throw (InvalidRefund ''only a paid order can be refunded'')
         else if pr_amount record \<noteq> ro_total refund
         then op_throw (InvalidRefund ''refund total does not match the stored order amount'')
         else
           op_bind (pm_refundable m (pv_key p) record) (\<lambda>refundable.
           if minor (ro_amount refund) > minor refundable
           then op_throw (RefundExceedsOrder (ro_out_trade_no refund) (ro_amount refund) refundable)
           else op_return None)))))"

text \<open>The rest of \<open>refund\<close>: reserve the amount, call the provider, record the outcome.\<close>

definition pm_refund_execute :: "('s, 'w) pay_manager \<Rightarrow> 'w provider \<Rightarrow> refund_order \<Rightarrow> systime \<Rightarrow> systime \<Rightarrow>
    ('s \<times> 'w, pay_error, refund_receipt) op" where
  "pm_refund_execute m p refund now now' =
     op_bind (on_fst (ps_insert_refund (pm_store m) (refund_record_new (pv_key p) refund now))) (\<lambda>_.
     op_match (on_snd (pv_refund p refund))
       (\<lambda>e. op_match (on_fst (ps_transition_refund (pm_store m) (pv_key p) (ro_out_refund_no refund) RefundFailed None))
              (\<lambda>_. op_throw e) (\<lambda>_. op_throw e))
       (\<lambda>receipt.
          op_bind
            (if rc_status receipt \<noteq> Processing
             then op_bind (on_fst (ps_transition_refund (pm_store m) (pv_key p) (ro_out_refund_no refund)
                            (rc_status receipt) (rc_refund_id receipt))) (\<lambda>_. op_return ())
             else (case rc_refund_id receipt of
                     Some refund_id \<Rightarrow>
                       on_fst (ps_record_refund_id (pm_store m) (pv_key p) (ro_out_refund_no refund) refund_id)
                   | None \<Rightarrow> op_return ())) (\<lambda>_.
          op_bind (pm_sync_order_refund_status m (pv_key p) (ro_out_trade_no refund) now') (\<lambda>_.
          op_return receipt))))"

definition pm_refund :: "('s, 'w) pay_manager \<Rightarrow> string \<Rightarrow> refund_order \<Rightarrow> systime \<Rightarrow> systime \<Rightarrow>
    ('s \<times> 'w, pay_error, refund_receipt) op" where
  "pm_refund m provider_key refund now now' =
     op_bind (op_lift (pm_provider m provider_key)) (\<lambda>p.
     op_bind (pm_refund_check m p refund) (\<lambda>early.
     case early of
       Some receipt \<Rightarrow> op_return receipt
     | None \<Rightarrow> pm_refund_execute m p refund now now'))"

definition pm_sync_refund :: "('s, 'w) pay_manager \<Rightarrow> string \<Rightarrow> string \<Rightarrow> systime \<Rightarrow>
    ('s \<times> 'w, pay_error, refund_record) op" where
  "pm_sync_refund m provider_key out_refund_no now =
     op_bind (op_lift (pm_provider m provider_key)) (\<lambda>p.
     op_bind (on_fst (ps_find_refund (pm_store m) (pv_key p) out_refund_no)) (\<lambda>found.
     op_bind (op_lift (ok_or (RefundNotFound (pv_key p) out_refund_no) found)) (\<lambda>stored.
     if refund_is_terminal (rr_status stored) then op_return stored
     else
       op_bind (on_snd (pv_query_refund p (rr_out_trade_no stored) out_refund_no)) (\<lambda>receipt.
       if rc_status receipt = Processing then op_return stored
       else
         op_bind (on_fst (ps_transition_refund (pm_store m) (pv_key p) out_refund_no (rc_status receipt)
                   (rc_refund_id receipt))) (\<lambda>updated.
         op_bind (pm_sync_order_refund_status m (pv_key p) (rr_out_trade_no stored) now) (\<lambda>_.
         op_return updated))))))"

definition pm_handle_refund_notify :: "('s, 'w) pay_manager \<Rightarrow> string \<Rightarrow> notify_request \<Rightarrow> systime \<Rightarrow>
    ('s \<times> 'w, pay_error, refund_notify_outcome) op" where
  "pm_handle_refund_notify m provider_key notify now =
     op_bind (op_lift (pm_provider m provider_key)) (\<lambda>p.
     op_bind (on_snd (pv_verify_refund_notify p notify)) (\<lambda>event.
     op_bind (on_fst (ps_find_refund (pm_store m) (pv_key p) (rn_out_refund_no event))) (\<lambda>found.
     op_bind (op_lift (ok_or (RefundNotFound (pv_key p) (rn_out_refund_no event)) found)) (\<lambda>stored.
     if rr_amount stored \<noteq> rn_amount event
     then op_throw (RefundExceedsOrder (rr_out_trade_no stored) (rn_amount event) (rr_amount stored))
     else if rr_status stored = rn_status event then op_return (RefundAlreadyProcessed event)
     else if rn_status event = Processing then op_return (RefundAlreadyProcessed event)
     else
       op_bind (on_fst (ps_transition_refund (pm_store m) (pv_key p) (rn_out_refund_no event)
                 (rn_status event) (rn_refund_id event))) (\<lambda>_.
       op_bind (pm_sync_order_refund_status m (pv_key p) (rr_out_trade_no stored) now) (\<lambda>_.
       op_return (RefundProcessed event)))))))"

definition pm_reconcile_bill :: "('s, 'w) pay_manager \<Rightarrow> bill \<Rightarrow> systime \<Rightarrow>
    ('s \<times> 'w, pay_error, reconciliation) op" where
  "pm_reconcile_bill m b day_start =
     (case systime_add day_start (duration_from_secs 86400) of
        None \<Rightarrow> op_throw (PayPanic ''overflow when adding duration to instant'')
      | Some day_end \<Rightarrow>
          op_bind (on_fst (ps_paid_within (pm_store m) (bl_provider b) day_start day_end)) (\<lambda>recs.
          op_return (reconcile b recs)))"

definition pm_reconcile_day :: "('s, 'w) pay_manager \<Rightarrow> string \<Rightarrow> string \<Rightarrow> systime \<Rightarrow>
    ('s \<times> 'w, pay_error, reconciliation) op" where
  "pm_reconcile_day m provider_key date day_start =
     op_bind (op_lift (pm_provider m provider_key)) (\<lambda>p.
     op_bind (on_snd (pv_download_bill p date)) (\<lambda>b.
     pm_reconcile_bill m b day_start))"

end
