(* ===== verification/Pay_Safety.thy ===== *)
theory Pay_Safety
  imports Pay_Manager
begin

text \<open>
  Safety of the payment manager: what every method keeps true of the stored tables, for
  every store with the contract and whatever the provider answers.

  \<^item> \<open>held p t a\<close> is the money reserved by the refunds of one order that have not failed;
    \<open>refund_safe\<close> says it never exceeds the order, and that no refund lacks its order.
  \<^item> \<open>ab_closed J\<close> says that the five abstract updates a manager makes keep \<open>J\<close>; a refund is
    only inserted where \<open>has_room\<close> holds, and the identifier of a refund only written while it
    is being processed. \<open>manager_call_keeps\<close> lifts such a \<open>J\<close> to every
    manager method, and \<open>pm_run_keeps\<close> to every sequence of calls.
\<close>

section \<open>Reserved money\<close>

definition held_part :: "string \<Rightarrow> string \<Rightarrow> refund_record \<Rightarrow> nat" where
  "held_part p t r =
     (if rr_provider r = p \<and> rr_out_trade_no r = t \<and> holds_amount r then unat (minor (rr_amount r)) else 0)"

definition held :: "string \<Rightarrow> string \<Rightarrow> ab_store \<Rightarrow> nat" where
  "held p t a = (\<Sum>k \<in> dom (ab_refunds a). held_part p t (the (ab_refunds a k)))"

definition refund_safe :: "ab_store \<Rightarrow> bool" where
  "refund_safe a \<longleftrightarrow>
     ab_keyed a \<and>
     (\<forall>k r. ab_refunds a k = Some r \<longrightarrow> (rr_provider r, rr_out_trade_no r) \<in> dom (ab_orders a)) \<and>
     (\<forall>p t ord. ab_orders a (p, t) = Some ord \<longrightarrow> held p t a \<le> unat (minor (pr_amount ord)))"

definition has_room :: "refund_record \<Rightarrow> ab_store \<Rightarrow> bool" where
  "has_room r a \<longleftrightarrow>
     (\<exists>ord. ab_orders a (rr_provider r, rr_out_trade_no r) = Some ord
        \<and> (pr_status ord = Paid \<or> pr_status ord = Refunding)
        \<and> held (rr_provider r) (rr_out_trade_no r) a + unat (minor (rr_amount r)) \<le> unat (minor (pr_amount ord)))"

definition ab_closed :: "(ab_store \<Rightarrow> bool) \<Rightarrow> bool" where
  "ab_closed J \<longleftrightarrow>
     (\<forall>a r. J a \<longrightarrow> pr_status r = Created \<and> pr_paid_at r = None \<longrightarrow> J (snd (ab_insert r a))) \<and>
     (\<forall>a p t n pl now. J a \<longrightarrow> J (snd (ab_transition p t n pl now a))) \<and>
     (\<forall>a r. J a \<longrightarrow> has_room r a \<longrightarrow> J (snd (ab_insert_refund r a))) \<and>
     (\<forall>a p n st rid. J a \<longrightarrow> J (snd (ab_transition_refund p n st rid a))) \<and>
     (\<forall>a p n rid r. J a \<longrightarrow> ab_refunds a (p, n) = Some r \<and> rr_status r = Processing \<longrightarrow>
        J (snd (ab_record_refund_id p n rid a)))"

lemma held_update:
  assumes "finite (dom (ab_refunds a))"
  shows "held p t (a\<lparr>ab_refunds := (ab_refunds a)(k \<mapsto> r)\<rparr>)
       + (case ab_refunds a k of None \<Rightarrow> 0 | Some q \<Rightarrow> held_part p t q)
     = held p t a + held_part p t r"
proof -
  let ?m = "ab_refunds a" and ?f = "\<lambda>m k. held_part p t (the (m k))"
  have rest: "(\<Sum>l \<in> dom ?m - {k}. ?f (?m(k \<mapsto> r)) l) = (\<Sum>l \<in> dom ?m - {k}. ?f ?m l)"
    by (rule sum.cong) auto
  have new: "held p t (a\<lparr>ab_refunds := ?m(k \<mapsto> r)\<rparr>) = held_part p t r + (\<Sum>l \<in> dom ?m - {k}. ?f ?m l)"
    using rest assms by (simp add: held_def sum.insert_remove)
  have old: "held p t a = (case ?m k of None \<Rightarrow> 0 | Some q \<Rightarrow> held_part p t q) + (\<Sum>l \<in> dom ?m - {k}. ?f ?m l)"
  proof (cases "?m k")
    case None
    then have "dom ?m - {k} = dom ?m" by auto
    with None show ?thesis by (simp add: held_def)
  next
    case (Some q)
    then have "k \<in> dom ?m" by blast
    then have "held p t a = ?f ?m k + (\<Sum>l \<in> dom ?m - {k}. ?f ?m l)"
      unfolding held_def using assms by (intro sum.remove)
    with Some show ?thesis by simp
  qed
  show ?thesis using new old by simp
qed

lemma held_orders [simp]: "held p t (a\<lparr>ab_orders := m\<rparr>) = held p t a"
  by (simp add: held_def)

lemma refund_safe_keyed: "refund_safe a \<Longrightarrow> ab_keyed a"
  by (simp add: refund_safe_def)

lemma keyed_insert: "ab_keyed a \<Longrightarrow> ab_keyed (snd (ab_insert r a))"
  by (auto simp: ab_insert_def ab_keyed_def Let_def)

lemma keyed_transition: "ab_keyed a \<Longrightarrow> ab_keyed (snd (ab_transition p t n pl now a))"
  by (auto simp: ab_transition_def ab_keyed_def split: option.splits)

lemma keyed_insert_refund: "ab_keyed a \<Longrightarrow> ab_keyed (snd (ab_insert_refund r a))"
  by (auto simp: ab_insert_refund_def ab_keyed_def Let_def)

lemma keyed_transition_refund: "ab_keyed a \<Longrightarrow> ab_keyed (snd (ab_transition_refund p n st rid a))"
  by (auto simp: ab_transition_refund_def ab_keyed_def split: option.splits)

lemma keyed_record_refund_id: "ab_keyed a \<Longrightarrow> ab_keyed (snd (ab_record_refund_id p n rid a))"
  by (auto simp: ab_record_refund_id_def ab_keyed_def split: option.splits)

lemma held_no_refunds:
  assumes "\<And>k r. ab_refunds a k = Some r \<Longrightarrow> (rr_provider r, rr_out_trade_no r) \<noteq> (p, t)"
  shows "held p t a = 0"
  unfolding held_def
proof (rule sum.neutral, rule ballI)
  fix k assume "k \<in> dom (ab_refunds a)"
  then obtain r where "ab_refunds a k = Some r" by blast
  with assms [OF this] show "held_part p t (the (ab_refunds a k)) = 0" by (auto simp: held_part_def)
qed

lemma safe_insert: "refund_safe a \<Longrightarrow> refund_safe (snd (ab_insert r a))"
proof -
  assume safe: "refund_safe a"
  have new: "held (pr_provider r) (pr_out_trade_no r) a = 0"
    if "(pr_provider r, pr_out_trade_no r) \<notin> dom (ab_orders a)"
    using safe that by (intro held_no_refunds) (metis refund_safe_def)
  show ?thesis
    using safe keyed_insert [of a r] new
    by (auto simp: refund_safe_def ab_insert_def Let_def split: if_splits)
qed

lemma safe_transition: "refund_safe a \<Longrightarrow> refund_safe (snd (ab_transition p t n pl now a))"
  using keyed_transition [of a p t n pl now]
  by (auto simp: refund_safe_def ab_transition_def split: option.splits if_splits)

lemma holds_amount_settle:
  "refund_can_transition (rr_status r) st \<Longrightarrow> held_part p t (apply_refund_transition st rid r) \<le> held_part p t r"
  by (cases "rr_status r") (auto simp: held_part_def holds_amount_def)

lemma safe_transition_refund:
  assumes safe: "refund_safe a"
  shows "refund_safe (snd (ab_transition_refund p n st rid a))"
proof (cases "ab_refunds a (p, n)")
  case None
  then show ?thesis using safe by (simp add: ab_transition_refund_def)
next
  case (Some r)
  have fin: "finite (dom (ab_refunds a))" using safe by (simp add: refund_safe_def ab_keyed_def)
  show ?thesis
  proof (cases "refund_can_transition (rr_status r) st")
    case True
    have le: "held p' t' (a\<lparr>ab_refunds := (ab_refunds a)((p, n) \<mapsto> apply_refund_transition st rid r)\<rparr>) \<le> held p' t' a"
      for p' t'
      using held_update [OF fin, of p' t' "(p, n)" "apply_refund_transition st rid r"]
        holds_amount_settle [OF True, of p' t' rid] Some by simp
    show ?thesis
      using safe keyed_transition_refund [of a p n st rid] Some True le
      by (fastforce simp: refund_safe_def ab_transition_refund_def intro: order_trans)
  next
    case False
    then show ?thesis using safe Some by (simp add: ab_transition_refund_def)
  qed
qed

lemma held_part_refund_id: "held_part p t (r\<lparr>rr_refund_id := x\<rparr>) = held_part p t r"
  by (cases r) (simp add: held_part_def holds_amount_def)

lemma safe_record_refund_id:
  assumes safe: "refund_safe a"
  shows "refund_safe (snd (ab_record_refund_id p n rid a))"
proof (cases "ab_refunds a (p, n)")
  case None
  then show ?thesis using safe by (simp add: ab_record_refund_id_def)
next
  case (Some r)
  have fin: "finite (dom (ab_refunds a))" using safe by (simp add: refund_safe_def ab_keyed_def)
  have eq: "held p' t' (a\<lparr>ab_refunds := (ab_refunds a)((p, n) \<mapsto> r\<lparr>rr_refund_id := Some rid\<rparr>)\<rparr>) = held p' t' a"
    for p' t'
    using held_update [OF fin, of p' t' "(p, n)" "r\<lparr>rr_refund_id := Some rid\<rparr>"] Some
    by (simp add: held_part_refund_id)
  show ?thesis
    using safe keyed_record_refund_id [of a p n rid] Some eq
    by (fastforce simp: refund_safe_def ab_record_refund_id_def)
qed

lemma safe_insert_refund:
  assumes safe: "refund_safe a" and room: "has_room r a"
  shows "refund_safe (snd (ab_insert_refund r a))"
proof (cases "(rr_provider r, rr_out_refund_no r) \<in> dom (ab_refunds a)")
  case True
  then show ?thesis using safe by (simp add: ab_insert_refund_def)
next
  case False
  let ?k = "(rr_provider r, rr_out_refund_no r)"
  let ?b = "a\<lparr>ab_refunds := (ab_refunds a)(?k \<mapsto> r)\<rparr>"
  have fin: "finite (dom (ab_refunds a))" using safe by (simp add: refund_safe_def ab_keyed_def)
  have upd: "held p t ?b = held p t a + held_part p t r" for p t
    using held_update [OF fin, of p t ?k r] False by (simp add: domIff)
  have "held p t ?b \<le> unat (minor (pr_amount ord))" if "ab_orders a (p, t) = Some ord" for p t ord
    using that safe room upd [of p t] by (auto simp: refund_safe_def has_room_def held_part_def)
  moreover have "(rr_provider r, rr_out_trade_no r) \<in> dom (ab_orders a)"
    using room by (auto simp: has_room_def)
  ultimately show ?thesis
    using safe keyed_insert_refund [of a r] False
    by (auto simp: refund_safe_def ab_insert_refund_def)
qed

lemma refund_safe_closed: "ab_closed refund_safe"
  unfolding ab_closed_def
  using safe_insert safe_transition safe_insert_refund safe_transition_refund safe_record_refund_id
  by blast

section \<open>What the refund listing adds up to\<close>

lemma sum_over_ran:
  assumes "\<And>k r. m k = Some r \<Longrightarrow> k = key r"
  shows "(\<Sum>k \<in> dom m. f (the (m k))) = (\<Sum>r \<in> ran m. f r)"
proof -
  have "inj_on (\<lambda>k. the (m k)) (dom m)"
    by (rule inj_onI) (metis assms domIff option.exhaust_sel)
  moreover have "(\<lambda>k. the (m k)) ` dom m = ran m"
    by (force simp: ran_def)
  ultimately show ?thesis by (metis (no_types, lifting) sum.reindex_cong)
qed

lemma sum_list_filter_if:
  fixes f :: "'a \<Rightarrow> nat"
  shows "sum_list (map f (filter P xs)) = sum_list (map (\<lambda>x. if P x then f x else 0) xs)"
  by (induction xs) auto

lemma held_list:
  assumes keyed: "ab_keyed a" and xs: "set xs = ab_refunds_of p t a" "distinct xs"
  shows "sum_list (map (\<lambda>r. unat (minor (rr_amount r))) (filter holds_amount xs)) = held p t a"
proof -
  have fin: "finite (ran (ab_refunds a))"
    using keyed by (auto simp: ab_keyed_def intro: finite_ran)
  have "held p t a = (\<Sum>r \<in> ran (ab_refunds a). held_part p t r)"
    unfolding held_def using keyed
    by (intro sum_over_ran [where key = "\<lambda>r. (rr_provider r, rr_out_refund_no r)"]) (auto simp: ab_keyed_def)
  also have "\<dots> = (\<Sum>r \<in> ab_refunds_of p t a. held_part p t r)"
    using fin by (intro sum.mono_neutral_right) (auto simp: ab_refunds_of_def held_part_def)
  also have "\<dots> = (\<Sum>r \<in> set xs. if holds_amount r then unat (minor (rr_amount r)) else 0)"
    unfolding xs(1) by (rule sum.cong) (auto simp: ab_refunds_of_def held_part_def)
  also have "\<dots> = sum_list (map (\<lambda>r. unat (minor (rr_amount r))) (filter holds_amount xs))"
    by (simp only: sum_list_distinct_map [OF xs(2), symmetric] sum_list_filter_if)
  finally show ?thesis by simp
qed

lemma refundable_of_room:
  assumes safe: "refund_safe a" and ord: "ab_orders a (p, t) = Some ord"
    and xs: "set xs = ab_refunds_of p t a" "distinct xs"
  shows "unat (minor (refundable_of ord xs)) + held p t a = unat (minor (pr_amount ord))"
proof -
  let ?ys = "map (\<lambda>r. minor (rr_amount r)) (filter holds_amount xs)"
  have h: "sum_list (map unat ?ys) = held p t a"
    using held_list [OF refund_safe_keyed [OF safe] xs] by (simp add: comp_def)
  have le: "held p t a \<le> unat (minor (pr_amount ord))"
    using safe ord by (simp add: refund_safe_def)
  also have "unat (minor (pr_amount ord)) < 2 ^ LENGTH(64)"
    by (rule unsigned_less)
  finally have "sum_list (map unat ?ys) < 2 ^ LENGTH(64)"
    using h by simp
  then have "unat (sum_list ?ys) = held p t a"
    using h unat_sum_list by metis
  then show ?thesis
    using le by (simp add: refundable_of_def from_minor_def unat_saturating_sub Let_def)
qed

section \<open>Every manager method keeps a closed invariant\<close>

definition mgr_inv :: "('s \<Rightarrow> ab_store) \<Rightarrow> ('s \<Rightarrow> bool) \<Rightarrow> (ab_store \<Rightarrow> bool) \<Rightarrow> 's \<times> 'w \<Rightarrow> bool" where
  "mgr_inv abst invar K = (\<lambda>(s, w). invar s \<and> K (abst s))"

lemma keeps_mgr_provider [keeps_rules]: "keeps (mgr_inv abst invar K) (on_snd m)"
  unfolding mgr_inv_def by (rule keeps_on_snd)

lemma keeps_after:
  assumes "m z = (x, z')" and "I z'" and "\<And>y. keeps I (f y)"
  shows "I (snd (op_bind m f z))"
  using assms keepsD by (cases x) (fastforce simp: op_bind_apply)+

context payment_store
begin

lemma keeps_store:
  assumes "\<And>s. invar s \<Longrightarrow> map_prod id abst (m s) = ab (abst s)"
    and "\<And>s. invar s \<Longrightarrow> invar (snd (m s))"
    and "\<And>a. K a \<Longrightarrow> K (snd (ab a))"
  shows "keeps (mgr_inv abst invar K) (on_fst m)"
proof (rule keepsI, clarify)
  fix s w assume "mgr_inv abst invar K (s, w)"
  then have i: "invar s" and k: "K (abst s)" by (auto simp: mgr_inv_def)
  have "abst (snd (m s)) = snd (ab (abst s))"
    using assms(1) [OF i] by (metis snd_map_prod)
  then show "mgr_inv abst invar K (snd (on_fst m (s, w)))"
    using assms(2) [OF i] assms(3) [OF k] by (auto simp: mgr_inv_def split: prod.splits)
qed

lemma keeps_reads [keeps_rules]:
  "keeps (mgr_inv abst invar K) (on_fst (ps_find ps p t))"
  "keeps (mgr_inv abst invar K) (on_fst (ps_find_refund ps p t))"
  "keeps (mgr_inv abst invar K) (on_fst (ps_refunds_for ps p t))"
  "keeps (mgr_inv abst invar K) (on_fst (ps_paid_within ps p from to))"
     apply (rule keepsI; clarsimp simp: mgr_inv_def find_spec)
    apply (rule keepsI; clarsimp simp: mgr_inv_def find_refund_spec)
   apply (rule keepsI; clarsimp simp: mgr_inv_def; metis refunds_for_spec case_prod_conv snd_conv)
  apply (rule keepsI; clarsimp simp: mgr_inv_def; metis paid_within_spec case_prod_conv snd_conv)
  done

lemma keeps_updates:
  assumes "ab_closed K"
  shows keeps_insert: "pr_status r = Created \<Longrightarrow> pr_paid_at r = None \<Longrightarrow>
      keeps (mgr_inv abst invar K) (on_fst (ps_insert ps r))"
    and keeps_transition: "keeps (mgr_inv abst invar K) (on_fst (ps_transition ps p t n pl now))"
    and keeps_transition_refund: "keeps (mgr_inv abst invar K) (on_fst (ps_transition_refund ps p t st rid))"
proof -
  show "keeps (mgr_inv abst invar K) (on_fst (ps_insert ps r))" if "pr_status r = Created" "pr_paid_at r = None"
    by (rule keeps_store [where ab = "ab_insert r"]) (use assms that insert_spec insert_invar in \<open>auto simp: ab_closed_def\<close>)
  show "keeps (mgr_inv abst invar K) (on_fst (ps_transition ps p t n pl now))"
    by (rule keeps_store [where ab = "ab_transition p t n pl now"])
      (use assms transition_spec transition_invar in \<open>auto simp: ab_closed_def\<close>)
  show "keeps (mgr_inv abst invar K) (on_fst (ps_transition_refund ps p t st rid))"
    by (rule keeps_store [where ab = "ab_transition_refund p t st rid"])
      (use assms transition_refund_spec transition_refund_invar in \<open>auto simp: ab_closed_def\<close>)
qed

lemma record_refund_id_keeps:
  assumes "ab_closed K" and "mgr_inv abst invar K (s, w)"
    and "ab_refunds (abst s) (p, t) = Some r" and "rr_status r = Processing"
  shows "mgr_inv abst invar K (snd (on_fst (ps_record_refund_id ps p t i) (s, w)))"
proof -
  have i: "invar s" and k: "K (abst s)" using assms(2) by (auto simp: mgr_inv_def)
  have "abst (snd (ps_record_refund_id ps p t i s)) = snd (ab_record_refund_id p t i (abst s))"
    using record_refund_id_spec [OF i, of p t i] by (metis snd_map_prod)
  then show ?thesis
    using assms(1,3,4) k record_refund_id_invar [OF i, of p t i] by (auto simp: mgr_inv_def ab_closed_def split: prod.splits)
qed

text \<open>The checks of \<open>refund\<close> write nothing, and let it go ahead only where there is room.\<close>

lemma check_outcome:
  assumes st: "pm_store m = ps" and inv: "invar s" and safe: "refund_safe (abst s)"
  shows "\<exists>r. pm_refund_check m p refund (s, w) = (r, (s, w))
     \<and> (r = Inr None \<longrightarrow> has_room (refund_record_new (pv_key p) refund now) (abst s))"
proof -
  obtain xs where xs: "ps_refunds_for ps (pv_key p) (ro_out_trade_no refund) s = (Inr xs, s)"
    "set xs = ab_refunds_of (pv_key p) (ro_out_trade_no refund) (abst s)" "distinct xs"
    using refunds_for_spec [OF inv, of "pv_key p" "ro_out_trade_no refund"] by (auto simp: distinct_map)
  have no: "pr_out_trade_no r = t" if "ab_orders (abst s) (q, t) = Some r" for r q t
    using keyed [OF inv] that by (auto simp: ab_keyed_def)
  show ?thesis
    using refundable_of_room [OF safe _ xs(2,3)] no xs(1) st inv
    by (auto simp: pm_refund_check_def pm_refundable_def op_bind_apply find_spec find_refund_spec
        has_room_def refund_record_new_def word_le_nat_alt linorder_not_less
        split: sum.splits option.splits if_splits)
qed

lemma keeps_sync_order:
  assumes "ab_closed K" and "pm_store m = ps"
  shows "keeps (mgr_inv abst invar K) (pm_sync_order_refund_status m p t now)"
  unfolding pm_sync_order_refund_status_def assms(2) Let_def
  by (intro keeps_rules keeps_reads keeps_transition [OF assms(1)])

text \<open>After its refund was inserted, \<open>refund\<close> records an identifier only on a row in process.\<close>

lemma execute_tail_keeps:
  assumes closed: "ab_closed K" and st: "pm_store m = ps" and inv: "mgr_inv abst invar K (s, w)"
    and row: "ab_refunds (abst s) (pv_key p, ro_out_refund_no refund) = Some r" "rr_status r = Processing"
  shows "mgr_inv abst invar K (snd (op_match (on_snd (pv_refund p refund))
       (\<lambda>e. op_match (on_fst (ps_transition_refund ps (pv_key p) (ro_out_refund_no refund) RefundFailed None))
              (\<lambda>_. op_throw e) (\<lambda>_. op_throw e))
       (\<lambda>receipt.
          op_bind
            (if rc_status receipt \<noteq> Processing
             then op_bind (on_fst (ps_transition_refund ps (pv_key p) (ro_out_refund_no refund)
                            (rc_status receipt) (rc_refund_id receipt))) (\<lambda>_. op_return ())
             else (case rc_refund_id receipt of
                     Some refund_id \<Rightarrow>
                       on_fst (ps_record_refund_id ps (pv_key p) (ro_out_refund_no refund) refund_id)
                   | None \<Rightarrow> op_return ())) (\<lambda>_.
          op_bind (pm_sync_order_refund_status m (pv_key p) (ro_out_trade_no refund) now') (\<lambda>_.
          op_return receipt))) (s, w)))"
proof -
  obtain answer w1 where answer: "on_snd (pv_refund p refund) (s, w) = (answer, (s, w1))"
    by (cases "pv_refund p refund w") simp
  have at: "mgr_inv abst invar K (s, w1)" using inv by (simp add: mgr_inv_def)
  note tail = keeps_rules keeps_transition_refund [OF closed] keeps_sync_order [OF closed st]
  show ?thesis
  proof (cases answer)
    case (Inl e)
    have "keeps (mgr_inv abst invar K) (op_match (on_fst (ps_transition_refund ps (pv_key p) (ro_out_refund_no refund) RefundFailed None))
        (\<lambda>_. op_throw e) (\<lambda>_. op_throw e))" by (intro tail)
    then show ?thesis using Inl at answer keepsD by (fastforce simp: op_match_def)
  next
    case (Inr receipt)
    have sync: "keeps (mgr_inv abst invar K) (op_bind (pm_sync_order_refund_status m (pv_key p) (ro_out_trade_no refund) now') (\<lambda>_. op_return receipt))"
      by (intro tail)
    have "mgr_inv abst invar K (snd ((if rc_status receipt \<noteq> Processing
             then op_bind (on_fst (ps_transition_refund ps (pv_key p) (ro_out_refund_no refund)
                            (rc_status receipt) (rc_refund_id receipt))) (\<lambda>_. op_return ())
             else (case rc_refund_id receipt of
                     Some refund_id \<Rightarrow>
                       on_fst (ps_record_refund_id ps (pv_key p) (ro_out_refund_no refund) refund_id)
                   | None \<Rightarrow> op_return ())) (s, w1)))" (is "mgr_inv abst invar K (snd (?settle (s, w1)))")
    proof (cases "rc_status receipt = Processing \<and> rc_refund_id receipt \<noteq> None")
      case True
      then show ?thesis using record_refund_id_keeps [OF closed at row] by auto
    next
      case False
      moreover have "keeps (mgr_inv abst invar K) (Pair (Inr ()))" by (rule keepsI) simp
      ultimately have "keeps (mgr_inv abst invar K) ?settle" by (auto intro!: tail)
      then show ?thesis using at by (rule keepsD)
    qed
    then show ?thesis
      using Inr answer keeps_after [OF _ _ sync, where m = ?settle and z = "(s, w1)"] by (cases "?settle (s, w1)") (simp add: op_match_def)
  qed
qed

lemma keeps_refund:
  fixes m :: "('s, 'w) pay_manager"
  assumes closed: "ab_closed K" and st: "pm_store m = ps" and safe: "\<And>a. K a \<Longrightarrow> refund_safe a"
  shows "keeps (mgr_inv abst invar K) (pm_refund m k refund now now')"
proof (rule keepsI, clarify)
  fix s and w :: 'w assume "mgr_inv abst invar K (s, w)"
  then have inv: "invar s" and K: "K (abst s)" by (auto simp: mgr_inv_def)
  have same: "mgr_inv abst invar K (s, w)" using inv K by (simp add: mgr_inv_def)
  have ins: "mgr_inv abst invar K (snd (pm_refund_execute m p refund now now' (s, w)))"
    if "has_room (refund_record_new (pv_key p) refund now) (abst s)" for p
  proof -
    let ?r = "refund_record_new (pv_key p) refund now"
    obtain x s1 where x: "ps_insert_refund ps ?r s = (x, s1)" by fastforce
    have "abst s1 = snd (ab_insert_refund ?r (abst s))"
      using insert_refund_spec [OF inv, of ?r] x by (metis snd_conv snd_map_prod)
    then have kept: "mgr_inv abst invar K (s1, w)"
      using closed K that insert_refund_invar [OF inv, of ?r] x by (auto simp: mgr_inv_def ab_closed_def)
    show ?thesis
    proof (cases x)
      case (Inl e)
      then show ?thesis using x kept by (simp add: pm_refund_execute_def st op_bind_apply)
    next
      case (Inr u)
      then have "ab_refunds (abst s1) (pv_key p, ro_out_refund_no refund) = Some ?r"
        using insert_refund_spec [OF inv, of ?r] x
        by (auto simp: ab_insert_refund_def refund_record_new_def Let_def prod_eq_iff split: if_splits)
      then show ?thesis
        unfolding pm_refund_execute_def st
        using execute_tail_keeps [OF closed st kept, of p refund ?r now'] Inr x
        by (simp add: op_bind_apply refund_record_new_def)
    qed
  qed
  show "mgr_inv abst invar K (snd (pm_refund m k refund now now' (s, w)))"
  proof (cases "pm_provider m k")
    case (Inl e)
    then show ?thesis using same by (simp add: pm_refund_def op_bind_apply)
  next
    case (Inr p)
    obtain r where r: "pm_refund_check m p refund (s, w) = (r, (s, w))"
      "r = Inr None \<longrightarrow> has_room (refund_record_new (pv_key p) refund now) (abst s)"
      using check_outcome [OF st inv safe [OF K]] by blast
    then show ?thesis
      using Inr same ins [of p] by (auto simp: pm_refund_def op_bind_apply split: sum.splits option.splits)
  qed
qed

lemma keeps_methods:
  assumes closed: "ab_closed K" and st: "pm_store m = ps"
  shows keeps_create: "keeps (mgr_inv abst invar K) (pm_create m k order now now')"
    and keeps_notify: "keeps (mgr_inv abst invar K) (pm_handle_notify m k n now)"
    and keeps_query: "keeps (mgr_inv abst invar K) (pm_query m k t)"
    and keeps_close: "keeps (mgr_inv abst invar K) (pm_close m k t now)"
    and keeps_find_order: "keeps (mgr_inv abst invar K) (pm_find_order m k t)"
    and keeps_refunds_for: "keeps (mgr_inv abst invar K) (pm_refunds_for m k t)"
    and keeps_sync_refund: "keeps (mgr_inv abst invar K) (pm_sync_refund m k t now)"
    and keeps_refund_notify: "keeps (mgr_inv abst invar K) (pm_handle_refund_notify m k n now)"
    and keeps_reconcile_day: "keeps (mgr_inv abst invar K) (pm_reconcile_day m k d day_start)"
    and keeps_reconcile_bill: "keeps (mgr_inv abst invar K) (pm_reconcile_bill m b day_start)"
          unfolding pm_create_def pm_handle_notify_def pm_query_def pm_close_def pm_find_order_def pm_refunds_for_def
            pm_sync_refund_def pm_handle_refund_notify_def pm_reconcile_day_def pm_reconcile_bill_def st
  by (intro keeps_rules keeps_reads keeps_sync_order [OF closed st] keeps_insert [OF closed]
      keeps_transition [OF closed] keeps_transition_refund [OF closed];
      simp add: payment_record_new_def)+

end

end
