(* ===== verification/Pay_Calls.thy ===== *)
theory Pay_Calls
  imports Pay_Safety
begin

text \<open>
  Whole histories of a payment manager. A \<open>pay_call\<close> is one call of a method of
  \<open>PayManager\<close> with its arguments and the clock readings it makes; \<open>pm_run\<close> performs a list
  of calls, one after the other, whatever each of them returns. Every closed invariant of
  the store holds after every history; the properties of \<open>MemoryPaymentStore\<close> follow
  through its interpretation of the store contract.
\<close>

section \<open>Histories\<close>

datatype pay_call =
    CallCreate string create_order systime systime
  | CallHandleNotify string notify_request systime
  | CallQuery string string
  | CallClose string string systime
  | CallFindOrder string string
  | CallRefundsFor string string
  | CallRefund string refund_order systime systime
  | CallSyncRefund string string systime
  | CallHandleRefundNotify string notify_request systime
  | CallReconcileDay string string systime
  | CallReconcileBill bill systime

fun pm_call :: "('s, 'w) pay_manager \<Rightarrow> pay_call \<Rightarrow> 's \<times> 'w \<Rightarrow> 's \<times> 'w" where
  "pm_call m (CallCreate k ord now now') z = snd (pm_create m k ord now now' z)"
| "pm_call m (CallHandleNotify k n now) z = snd (pm_handle_notify m k n now z)"
| "pm_call m (CallQuery k t) z = snd (pm_query m k t z)"
| "pm_call m (CallClose k t now) z = snd (pm_close m k t now z)"
| "pm_call m (CallFindOrder k t) z = snd (pm_find_order m k t z)"
| "pm_call m (CallRefundsFor k t) z = snd (pm_refunds_for m k t z)"
| "pm_call m (CallRefund k r now now') z = snd (pm_refund m k r now now' z)"
| "pm_call m (CallSyncRefund k r now) z = snd (pm_sync_refund m k r now z)"
| "pm_call m (CallHandleRefundNotify k n now) z = snd (pm_handle_refund_notify m k n now z)"
| "pm_call m (CallReconcileDay k d day_start) z = snd (pm_reconcile_day m k d day_start z)"
| "pm_call m (CallReconcileBill b day_start) z = snd (pm_reconcile_bill m b day_start z)"

definition pm_run :: "('s, 'w) pay_manager \<Rightarrow> pay_call list \<Rightarrow> 's \<times> 'w \<Rightarrow> 's \<times> 'w" where
  "pm_run m cs z = foldl (\<lambda>z c. pm_call m c z) z cs"

context payment_store
begin

lemma call_keeps:
  assumes "ab_closed K" and "pm_store m = ps" and "\<And>a. K a \<Longrightarrow> refund_safe a" and "mgr_inv abst invar K z"
  shows "mgr_inv abst invar K (pm_call m c z)"
  by (cases c)
    (simp_all add: keepsD [where I = "mgr_inv abst invar K"] assms(4) keeps_refund [OF assms(1-3)] keeps_methods [OF assms(1,2)])

lemma run_keeps:
  assumes "ab_closed K" and "pm_store m = ps" and "\<And>a. K a \<Longrightarrow> refund_safe a" and "mgr_inv abst invar K z"
  shows "mgr_inv abst invar K (pm_run m cs z)"
  using assms(4) unfolding pm_run_def
  by (induction cs arbitrary: z) (simp_all add: call_keeps [OF assms(1-3)])

end

section \<open>No order is refunded beyond its amount\<close>

definition mem_held :: "string \<Rightarrow> string \<Rightarrow> mem_store \<Rightarrow> nat" where
  "mem_held p t s =
     sum_list (map (\<lambda>r. unat (minor (rr_amount r)))
       (filter holds_amount (filter (\<lambda>r. rr_provider r = p \<and> rr_out_trade_no r = t) (map snd (ms_refunds s)))))"

definition mem_refund_safe :: "mem_store \<Rightarrow> bool" where
  "mem_refund_safe s \<longleftrightarrow>
     list_all (\<lambda>((p, t), ord). mem_held p t s \<le> unat (minor (pr_amount ord))) (ms_records s)"

lemma mem_rows:
  assumes "mem_invar s"
  shows "set (filter (\<lambda>r. rr_provider r = p \<and> rr_out_trade_no r = t) (map snd (ms_refunds s)))
      = ab_refunds_of p t (mem_abs s)"
    and "distinct (filter (\<lambda>r. rr_provider r = p \<and> rr_out_trade_no r = t) (map snd (ms_refunds s)))"
proof -
  let ?ys = "filter (\<lambda>r. rr_provider r = p \<and> rr_out_trade_no r = t) (map snd (ms_refunds s))"
  obtain zs where zs: "mem_refunds_for p t s = (Inr zs, s)" "set zs = ab_refunds_of p t (mem_abs s)" "distinct zs"
    using mem_refunds_for_spec [OF assms, of p t] by (auto simp: distinct_map)
  then have "mset zs = mset ?ys" by (auto simp: mem_refunds_for_def)
  then show "set ?ys = ab_refunds_of p t (mem_abs s)" and "distinct ?ys"
    using zs(2,3) by (metis mset_eq_setD, metis mset_eq_imp_distinct_iff)
qed

lemma mem_held_abs:
  assumes "mem_invar s"
  shows "mem_held p t s = held p t (mem_abs s)"
  unfolding mem_held_def using assms
  by (intro held_list mem_rows) (auto simp: mem_invar_def)

lemma mem_refund_safe_abs:
  assumes "mem_invar s" and "refund_safe (mem_abs s)"
  shows "mem_refund_safe s"
  using assms mem_held_abs [OF assms(1)] map_of_entry [of "ms_records s"]
  by (fastforce simp: mem_refund_safe_def list_all_iff refund_safe_def mem_abs_def mem_invar_def)

lemma refund_safe_new [simp]: "refund_safe (mem_abs mem_new)"
  by (simp add: refund_safe_def mem_abs_def mem_new_def ab_keyed_def)

text \<open>
  C1: Whatever sequence of calls a manager over a fresh \<open>MemoryPaymentStore\<close> receives and
  whatever its providers answer, for every stored order the refunds that have not failed
  add up to at most the amount of the order. The 64-bit sum in \<open>refundable\<close> wraps in the
  model; that it never does so is part of what is proved.
\<close>
theorem refunds_never_exceed_order:
  "mem_refund_safe (fst (pm_run (pm_with_store mem_payment_store m) cs (mem_new, w)))"
proof -
  let ?m = "pm_with_store mem_payment_store m"
  have "mgr_inv mem_abs mem_invar refund_safe (pm_run ?m cs (mem_new, w))"
    by (rule mem.run_keeps [OF refund_safe_closed]) (simp_all add: pm_with_store_def mgr_inv_def)
  then show ?thesis
    by (auto simp: mgr_inv_def split: prod.splits intro: mem_refund_safe_abs)
qed

section \<open>The life of an order and of a refund\<close>

definition order_evolves :: "payment_record \<Rightarrow> payment_record \<Rightarrow> bool" where
  "order_evolves r r' \<longleftrightarrow>
     pr_provider r' = pr_provider r \<and> pr_out_trade_no r' = pr_out_trade_no r \<and>
     pr_amount r' = pr_amount r \<and> pr_subject r' = pr_subject r \<and> pr_created_at r' = pr_created_at r \<and>
     can_transition\<^sup>*\<^sup>* (pr_status r) (pr_status r') \<and>
     (pr_paid_at r \<noteq> None \<longrightarrow> pr_paid_at r' = pr_paid_at r) \<and>
     (is_terminal (pr_status r) \<longrightarrow> r' = r)"

definition refund_evolves :: "refund_record \<Rightarrow> refund_record \<Rightarrow> bool" where
  "refund_evolves q q' \<longleftrightarrow>
     rr_provider q' = rr_provider q \<and> rr_out_trade_no q' = rr_out_trade_no q \<and>
     rr_out_refund_no q' = rr_out_refund_no q \<and> rr_amount q' = rr_amount q \<and>
     rr_reason q' = rr_reason q \<and> rr_created_at q' = rr_created_at q \<and>
     (rr_status q' = rr_status q \<or> refund_can_transition (rr_status q) (rr_status q')) \<and>
     (refund_is_terminal (rr_status q) \<longrightarrow> q' = q)"

definition evolves :: "('r \<Rightarrow> 'r \<Rightarrow> bool) \<Rightarrow> ('k \<rightharpoonup> 'r) \<Rightarrow> ('k \<rightharpoonup> 'r) \<Rightarrow> bool" where
  "evolves R m m' \<longleftrightarrow> (\<forall>k r. m k = Some r \<longrightarrow> (\<exists>r'. m' k = Some r' \<and> R r r'))"

lemma order_evolves_refl [simp]: "order_evolves r r"
  by (simp add: order_evolves_def)

lemma refund_evolves_refl [simp]: "refund_evolves q q"
  by (simp add: refund_evolves_def)

lemma terminal_no_transition: "is_terminal s \<Longrightarrow> \<not> can_transition s n"
  by (cases s) (auto simp: is_terminal_def)

lemma order_evolves_step:
  assumes "order_evolves r r'" and "can_transition (pr_status r') n"
  shows "order_evolves r (apply_transition n pl now r')"
proof -
  have "can_transition\<^sup>*\<^sup>* (pr_status r) n"
    using assms by (auto simp: order_evolves_def intro: rtranclp.rtrancl_into_rtrancl)
  moreover have "\<not> is_terminal (pr_status r)"
    using assms terminal_no_transition by (auto simp: order_evolves_def)
  ultimately show ?thesis
    using assms by (auto simp: order_evolves_def apply_transition_def Let_def)
qed

lemma apply_refund_transition_reason [simp]: "rr_reason (apply_refund_transition st rid q) = rr_reason q"
  by (simp add: apply_refund_transition_def Let_def)

lemma refund_evolves_step:
  assumes "refund_evolves q q'" and "refund_can_transition (rr_status q') st"
  shows "refund_evolves q (apply_refund_transition st rid q')"
  using assms by (cases "rr_status q"; cases "rr_status q'") (auto simp: refund_evolves_def refund_is_terminal_def)

lemma refund_evolves_id: "refund_evolves q q' \<Longrightarrow> rr_status q' = Processing \<Longrightarrow> refund_evolves q (q'\<lparr>rr_refund_id := x\<rparr>)"
  by (cases "rr_status q") (auto simp: refund_evolves_def refund_is_terminal_def)

lemma evolves_upd:
  assumes "evolves R m0 m" and "\<And>r. m0 k = Some r \<Longrightarrow> R r v"
  shows "evolves R m0 (m(k \<mapsto> v))"
  using assms by (auto simp: evolves_def)

lemma evolves_at: "evolves R m0 m \<Longrightarrow> m k = Some r' \<Longrightarrow> m0 k = Some r \<Longrightarrow> R r r'"
  by (fastforce simp: evolves_def)

lemma evolves_fresh: "evolves R m0 m \<Longrightarrow> k \<notin> dom m \<Longrightarrow> m0 k = None"
  by (cases "m0 k") (fastforce simp: evolves_def)+

definition history :: "ab_store \<Rightarrow> ab_store \<Rightarrow> bool" where
  "history a0 a \<longleftrightarrow> refund_safe a \<and> evolves order_evolves (ab_orders a0) (ab_orders a)
     \<and> evolves refund_evolves (ab_refunds a0) (ab_refunds a)"

lemma history_closed: "ab_closed (history a0)"
  unfolding ab_closed_def
proof (intro conjI allI impI)
  fix a r assume h: "history a0 a"
  then show "history a0 (snd (ab_insert r a))"
    using safe_insert [of a r]
    by (auto simp: history_def ab_insert_def Let_def intro!: evolves_upd dest: evolves_fresh)
next
  fix a p t n pl now assume h: "history a0 a"
  then show "history a0 (snd (ab_transition p t n pl now a))"
    using safe_transition [of a p t n pl now]
    by (auto simp: history_def ab_transition_def split: option.splits
        intro!: evolves_upd order_evolves_step dest: evolves_at)
next
  fix a r assume h: "history a0 a" and room: "has_room r a"
  then show "history a0 (snd (ab_insert_refund r a))"
    using safe_insert_refund [of a r]
    by (auto simp: history_def ab_insert_refund_def Let_def intro!: evolves_upd dest: evolves_fresh)
next
  fix a p n st rid assume h: "history a0 a"
  then show "history a0 (snd (ab_transition_refund p n st rid a))"
    using safe_transition_refund [of a p n st rid]
    by (auto simp: history_def ab_transition_refund_def split: option.splits
        intro!: evolves_upd refund_evolves_step dest: evolves_at)
next
  fix a p n rid r assume h: "history a0 a" and "ab_refunds a (p, n) = Some r \<and> rr_status r = Processing"
  then show "history a0 (snd (ab_record_refund_id p n rid a))"
    using safe_record_refund_id [of a p n rid]
    by (auto simp: history_def ab_record_refund_id_def split: option.splits
        intro!: evolves_upd refund_evolves_id dest: evolves_at)
qed

lemma mem_run_history:
  assumes "pm_store m = mem_payment_store" and "mem_invar s" and "refund_safe (mem_abs s)"
  shows "mem_invar (fst (pm_run m cs (s, w)))" and "history (mem_abs s) (mem_abs (fst (pm_run m cs (s, w))))"
proof -
  have "mgr_inv mem_abs mem_invar (history (mem_abs s)) (pm_run m cs (s, w))"
    using assms by (intro mem.run_keeps [OF history_closed]) (auto simp: mgr_inv_def history_def evolves_def)
  then show "mem_invar (fst (pm_run m cs (s, w)))" and "history (mem_abs s) (mem_abs (fst (pm_run m cs (s, w))))"
    by (auto simp: mgr_inv_def split: prod.splits)
qed

text \<open>How every row of one table looks later, read off the two tables.\<close>

definition rows_evolve :: "('r \<Rightarrow> 'r \<Rightarrow> bool) \<Rightarrow> ('k, 'r) btree \<Rightarrow> ('k, 'r) btree \<Rightarrow> bool" where
  "rows_evolve R m m' \<longleftrightarrow>
     list_all (\<lambda>(k, r). case map_of m' k of None \<Rightarrow> False | Some r' \<Rightarrow> R r r') m"

lemma rows_evolve_map: "bt_wf m \<Longrightarrow> evolves R (map_of m) (map_of m') \<Longrightarrow> rows_evolve R m m'"
  using map_of_entry [of m] by (fastforce simp: rows_evolve_def evolves_def list_all_iff split: option.splits)

text \<open>
  C2: Between any two points of a history of the manager no order and no refund
  disappears. An order keeps its provider, number, amount, subject and creation time; its
  status moves only along the edges of \<open>PaymentStatus::can_transition\<close>; once stamped,
  \<open>paid_at\<close> never changes; and an order in a terminal status is never modified again. A
  refund keeps its numbers, amount, reason and creation time, its status moves only from
  \<open>Processing\<close> to \<open>Succeeded\<close> or \<open>Failed\<close>, and a settled refund is never modified again, its
  identifier at the provider included.
\<close>
theorem orders_follow_life_cycle:
  "let mm = pm_with_store mem_payment_store m;
       s = fst (pm_run mm cs (mem_new, w));
       s' = fst (pm_run mm ds (pm_run mm cs (mem_new, w)))
   in rows_evolve order_evolves (ms_records s) (ms_records s')
      \<and> rows_evolve refund_evolves (ms_refunds s) (ms_refunds s')"
proof -
  let ?mm = "pm_with_store mem_payment_store m"
  have st: "pm_store ?mm = mem_payment_store" by (simp add: pm_with_store_def)
  obtain s v where sv: "pm_run ?mm cs (mem_new, w) = (s, v)" by fastforce
  have i: "mem_invar s" and r: "refund_safe (mem_abs s)"
    using mem_run_history [OF st mem_new_invar refund_safe_new, of cs w] sv by (auto simp: history_def)
  have "history (mem_abs s) (mem_abs (fst (pm_run ?mm ds (s, v))))"
    by (rule mem_run_history(2) [OF st i r])
  then show ?thesis
    using i sv by (auto simp: Let_def history_def mem_abs_def mem_invar_def intro!: rows_evolve_map)
qed

end
