(* ===== verification/Pay_Mock.thy ===== *)
theory Pay_Mock
  imports Pay_Calls
begin

text \<open>
  The in-process provider \<open>MockProvider\<close> (\<open>provider.rs\<close>). Its two shared hash maps are the
  record \<open>mock_state\<close>. Reading and writing JSON is \<open>serde_json\<close>, a library: the record
  \<open>mock_json\<close> holds the four conversions the provider uses, and \<open>json_reads_paid\<close> and
  \<open>json_reads_refund\<close> state that a body written by the provider reads back as the values it
  was written from. Where
  the source iterates over the map of orders, \<open>ord\<close> is the order of that iteration.
  Arithmetic on \<open>u64\<close> wraps, as in a build without overflow checks.
\<close>

record mock_notify_body =
  mb_out_trade_no :: string
  mb_status :: payment_status
  mb_transaction_id :: "string option"

record mock_refund_notify_body =
  mrb_out_trade_no :: string
  mrb_out_refund_no :: string
  mrb_refund_id :: "string option"
  mrb_amount :: u64
  mrb_status :: refund_status

record mock_json =
  js_read_notify :: "string \<Rightarrow> string + mock_notify_body"
  js_read_refund_notify :: "string \<Rightarrow> string + mock_refund_notify_body"
  js_paid_body :: "string \<Rightarrow> string \<Rightarrow> string \<Rightarrow> string"
  js_refund_body :: "string \<Rightarrow> string \<Rightarrow> string \<Rightarrow> u64 \<Rightarrow> string \<Rightarrow> string"

record mock_order =
  mo_status :: payment_status
  mo_amount :: amount
  mo_refunds :: "(string \<times> amount \<times> refund_status) list"

record mock_state =
  mk_orders :: "string \<rightharpoonup> mock_order"
  mk_slow_refunds :: "string \<rightharpoonup> bool"

definition mock_KEY :: string where
  "mock_KEY = ''mock''"

definition mock_new :: mock_state where
  "mock_new = \<lparr>mk_orders = (\<lambda>_. None), mk_slow_refunds = (\<lambda>_. None)\<rparr>"

definition mock_paid_notify_body :: "mock_json \<Rightarrow> string \<Rightarrow> string" where
  "mock_paid_notify_body js out_trade_no = js_paid_body js out_trade_no ''paid'' (''MOCK-'' @ out_trade_no)"

definition mock_refund_body :: "mock_json \<Rightarrow> string \<Rightarrow> string \<Rightarrow> amount \<Rightarrow> refund_status \<Rightarrow> string" where
  "mock_refund_body js out_trade_no out_refund_no amt status =
     js_refund_body js out_trade_no out_refund_no (''MOCK-REFUND-'' @ out_refund_no) (minor amt)
       (refund_status_as_str status)"

definition mock_mark_paid :: "mock_json \<Rightarrow> string \<Rightarrow> (mock_state, pay_error, string) op" where
  "mock_mark_paid js out_trade_no w =
     (case mk_orders w out_trade_no of
        Some order \<Rightarrow>
          (Inr (mock_paid_notify_body js out_trade_no),
           w\<lparr>mk_orders := (mk_orders w)(out_trade_no \<mapsto> order\<lparr>mo_status := Paid\<rparr>)\<rparr>)
      | None \<Rightarrow> (Inl (OrderNotFound mock_KEY out_trade_no), w))"

definition mock_defer_refund :: "string \<Rightarrow> mock_state \<Rightarrow> mock_state" where
  "mock_defer_refund out_refund_no w =
     w\<lparr>mk_slow_refunds := (mk_slow_refunds w)(out_refund_no \<mapsto> True)\<rparr>"

definition mock_is_deferred :: "mock_state \<Rightarrow> string \<Rightarrow> bool" where
  "mock_is_deferred w out_refund_no \<longleftrightarrow> mk_slow_refunds w out_refund_no \<noteq> None"

text \<open>The first refund with the number, set to \<open>status\<close>; \<open>None\<close> when there is none.\<close>

fun settle_first :: "string \<Rightarrow> refund_status \<Rightarrow> (string \<times> amount \<times> refund_status) list \<Rightarrow>
    (string \<times> amount \<times> refund_status) list option" where
  "settle_first n st [] = None"
| "settle_first n st ((k, a, s) # rs) =
     (if k = n then Some ((k, a, st) # rs) else map_option ((#) (k, a, s)) (settle_first n st rs))"

fun settle_in :: "string \<Rightarrow> refund_status \<Rightarrow> string list \<Rightarrow> (mock_state, pay_error, unit) op" where
  "settle_in n st [] w = (Inl (RefundNotFound mock_KEY n), w)"
| "settle_in n st (t # ts) w =
     (case mk_orders w t of
        None \<Rightarrow> settle_in n st ts w
      | Some order \<Rightarrow>
          (case settle_first n st (mo_refunds order) of
             Some rs \<Rightarrow> (Inr (), w\<lparr>mk_orders := (mk_orders w)(t \<mapsto> order\<lparr>mo_refunds := rs\<rparr>)\<rparr>)
           | None \<Rightarrow> settle_in n st ts w))"

definition mock_settle_refund :: "((string \<rightharpoonup> mock_order) \<Rightarrow> string list) \<Rightarrow> string \<Rightarrow> refund_status \<Rightarrow>
    (mock_state, pay_error, unit) op" where
  "mock_settle_refund ord out_refund_no status w =
     settle_in out_refund_no status (ord (mk_orders w)) w"

definition mock_create :: "create_order \<Rightarrow> (mock_state, pay_error, payment_intent) op" where
  "mock_create order w =
     (case create_order_validate order of
        Inl e \<Rightarrow> (Inl e, w)
      | Inr _ \<Rightarrow>
          (Inr \<lparr>pi_provider = mock_KEY, pi_out_trade_no = co_out_trade_no order, pi_amount = co_amount order,
                pi_action = QrCode (''mockpay://qr/'' @ co_out_trade_no order @ ''?amount=''
                  @ nat_to_string (unat (minor (co_amount order))))\<rparr>,
           w\<lparr>mk_orders := (mk_orders w)(co_out_trade_no order \<mapsto>
               \<lparr>mo_status = Pending, mo_amount = co_amount order, mo_refunds = []\<rparr>)\<rparr>))"

definition mock_verify_notify :: "mock_json \<Rightarrow> notify_request \<Rightarrow> (mock_state, pay_error, notify_event) op" where
  "mock_verify_notify js notify =
     op_lift (res_bind (body_str notify) (\<lambda>raw.
       case js_read_notify js raw of
         Inl msg \<Rightarrow> Inl (InvalidNotify msg)
       | Inr parsed \<Rightarrow> Inr \<lparr>ne_out_trade_no = mb_out_trade_no parsed, ne_transaction_id = mb_transaction_id parsed,
                            ne_status = mb_status parsed, ne_raw = raw\<rparr>))"

definition mock_query :: "string \<Rightarrow> (mock_state, pay_error, payment_status) op" where
  "mock_query out_trade_no w =
     (ok_or (OrderNotFound mock_KEY out_trade_no) (map_option mo_status (mk_orders w out_trade_no)), w)"

definition mock_close :: "string \<Rightarrow> (mock_state, pay_error, unit) op" where
  "mock_close out_trade_no w =
     (case mk_orders w out_trade_no of
        Some order \<Rightarrow> (Inr (), w\<lparr>mk_orders := (mk_orders w)(out_trade_no \<mapsto> order\<lparr>mo_status := Closed\<rparr>)\<rparr>)
      | None \<Rightarrow> (Inl (OrderNotFound mock_KEY out_trade_no), w))"

definition mock_receipt :: "refund_order \<Rightarrow> amount \<Rightarrow> refund_status \<Rightarrow> refund_receipt" where
  "mock_receipt refund amt status =
     \<lparr>rc_provider = mock_KEY, rc_out_trade_no = ro_out_trade_no refund,
      rc_out_refund_no = ro_out_refund_no refund,
      rc_refund_id = Some (''MOCK-REFUND-'' @ ro_out_refund_no refund),
      rc_amount = amt, rc_status = status, rc_raw = []\<rparr>"

definition mock_refund :: "refund_order \<Rightarrow> (mock_state, pay_error, refund_receipt) op" where
  "mock_refund refund w =
     (let deferred = mock_is_deferred w (ro_out_refund_no refund)
      in case refund_validate refund of
           Inl e \<Rightarrow> (Inl e, w)
         | Inr _ \<Rightarrow>
             (case mk_orders w (ro_out_trade_no refund) of
                None \<Rightarrow> (Inl (OrderNotFound mock_KEY (ro_out_trade_no refund)), w)
              | Some order \<Rightarrow>
                  if mo_status order \<noteq> Paid
                  then (Inl (InvalidRefund ''only a paid order can be refunded''), w)
                  else (case find (\<lambda>(number, _, _). number = ro_out_refund_no refund) (mo_refunds order) of
                          Some (_, amt, status) \<Rightarrow> (Inr (mock_receipt refund amt status), w)
                        | None \<Rightarrow>
                            let already = sum_list (map (\<lambda>(_, amt, _). minor amt)
                                  (filter (\<lambda>(_, _, status). status \<noteq> RefundFailed) (mo_refunds order)))
                            in if already + minor (ro_amount refund) > minor (mo_amount order)
                               then (Inl (RefundExceedsOrder (ro_out_trade_no refund) (ro_amount refund)
                                       (from_minor (minor (mo_amount order) - already) (currency (mo_amount order)))), w)
                               else
                                 let status = (if deferred then Processing else Succeeded)
                                 in (Inr (mock_receipt refund (ro_amount refund) status),
                                     w\<lparr>mk_orders := (mk_orders w)(ro_out_trade_no refund \<mapsto>
                                        order\<lparr>mo_refunds := mo_refunds order
                                          @ [(ro_out_refund_no refund, ro_amount refund, status)]\<rparr>)\<rparr>))))"

definition mock_verify_refund_notify :: "mock_json \<Rightarrow> notify_request \<Rightarrow>
    (mock_state, pay_error, refund_notify_event) op" where
  "mock_verify_refund_notify js notify =
     op_lift (res_bind (body_str notify) (\<lambda>raw.
       case js_read_refund_notify js raw of
         Inl msg \<Rightarrow> Inl (InvalidNotify msg)
       | Inr parsed \<Rightarrow>
           Inr \<lparr>rn_out_trade_no = mrb_out_trade_no parsed, rn_out_refund_no = mrb_out_refund_no parsed,
                rn_refund_id = mrb_refund_id parsed, rn_amount = cny (mrb_amount parsed),
                rn_status = mrb_status parsed, rn_raw = raw\<rparr>))"

definition mock_query_refund :: "string \<Rightarrow> string \<Rightarrow> (mock_state, pay_error, refund_receipt) op" where
  "mock_query_refund out_trade_no out_refund_no w =
     (ok_or (RefundNotFound mock_KEY out_refund_no)
        (map_option (\<lambda>(number, amt, status).
             \<lparr>rc_provider = mock_KEY, rc_out_trade_no = out_trade_no, rc_out_refund_no = number,
              rc_refund_id = Some (''MOCK-REFUND-'' @ out_refund_no), rc_amount = amt, rc_status = status,
              rc_raw = []\<rparr>)
           (Option.bind (mk_orders w out_trade_no)
              (\<lambda>order. find (\<lambda>(number, _, _). number = out_refund_no) (mo_refunds order)))), w)"

definition mock_bill_entry :: "string \<Rightarrow> mock_order \<Rightarrow> bill_entry" where
  "mock_bill_entry out_trade_no order =
     \<lparr>be_out_trade_no = out_trade_no, be_transaction_id = Some (''MOCK-'' @ out_trade_no),
      be_amount = mo_amount order,
      be_refunded = from_minor (sum_list (map (\<lambda>(_, amt, _). minor amt)
          (filter (\<lambda>(_, _, status). status = Succeeded) (mo_refunds order)))) (currency (mo_amount order)),
      be_status = mo_status order\<rparr>"

definition mock_download_bill :: "((string \<rightharpoonup> mock_order) \<Rightarrow> string list) \<Rightarrow> string \<Rightarrow>
    (mock_state, pay_error, bill) op" where
  "mock_download_bill ord date w =
     (Inr \<lparr>bl_provider = mock_KEY, bl_date = date,
           bl_entries = sort_key be_out_trade_no
             (List.map_filter (\<lambda>t. map_option (mock_bill_entry t) (mk_orders w t)) (ord (mk_orders w)))\<rparr>, w)"

definition mock_provider :: "mock_json \<Rightarrow> ((string \<rightharpoonup> mock_order) \<Rightarrow> string list) \<Rightarrow> mock_state provider" where
  "mock_provider js ord =
     \<lparr>pv_key = mock_KEY, pv_create = mock_create, pv_verify_notify = mock_verify_notify js,
      pv_query = mock_query, pv_close = mock_close, pv_refund = mock_refund,
      pv_verify_refund_notify = mock_verify_refund_notify js, pv_query_refund = mock_query_refund,
      pv_download_bill = mock_download_bill ord\<rparr>"

text \<open>
  What the provider relies on of \<open>serde_json\<close>: the body it wrote for a paid order, or for a
  settled refund, is text and reads back as the fields it was written from.
\<close>

definition json_reads_paid :: "mock_json \<Rightarrow> string \<Rightarrow> bool" where
  "json_reads_paid js t \<longleftrightarrow>
     utf8_valid (mock_paid_notify_body js t) \<and>
     js_read_notify js (mock_paid_notify_body js t)
       = Inr \<lparr>mb_out_trade_no = t, mb_status = Paid, mb_transaction_id = Some (''MOCK-'' @ t)\<rparr>"

definition json_reads_refund :: "mock_json \<Rightarrow> string \<Rightarrow> string \<Rightarrow> amount \<Rightarrow> refund_status \<Rightarrow> bool" where
  "json_reads_refund js t n amt st \<longleftrightarrow>
     utf8_valid (mock_refund_body js t n amt st) \<and>
     js_read_refund_notify js (mock_refund_body js t n amt st)
       = Inr \<lparr>mrb_out_trade_no = t, mrb_out_refund_no = n, mrb_refund_id = Some (''MOCK-REFUND-'' @ n),
              mrb_amount = minor amt, mrb_status = st\<rparr>"

end
