(* ===== verification/Pay_Flow.thy ===== *)
theory Pay_Flow
  imports Pay_Mock
begin

text \<open>
  What single manager methods achieve: the outcome of every branch of \<open>create\<close>, idempotence
  of notifications and of refunds, agreement of an order's status with its refunds, a whole
  payment and refund through the mock provider, and two interleavings where the code does
  not do what it promises.
\<close>

section \<open>Outcomes over any store\<close>

context payment_store
begin

lemma insert_result:
  assumes "invar s"
  obtains s' where "ps_insert ps r s = (fst (ab_insert r (abst s)), s')"
    "abst s' = snd (ab_insert r (abst s))" "invar s'"
  using insert_spec [OF assms, of r] insert_invar [OF assms, of r]
  by (cases "ps_insert ps r s") (auto simp: prod_eq_iff)

lemma transition_result:
  assumes "invar s"
  obtains s' where "ps_transition ps p t n pl now s = (fst (ab_transition p t n pl now (abst s)), s')"
    "abst s' = snd (ab_transition p t n pl now (abst s))" "invar s'"
  using transition_spec [OF assms, of p t n pl now] transition_invar [OF assms, of p t n pl now]
  by (cases "ps_transition ps p t n pl now s") (auto simp: prod_eq_iff)

lemma insert_refund_result:
  assumes "invar s"
  obtains s' where "ps_insert_refund ps q s = (fst (ab_insert_refund q (abst s)), s')"
    "abst s' = snd (ab_insert_refund q (abst s))" "invar s'"
  using insert_refund_spec [OF assms, of q] insert_refund_invar [OF assms, of q]
  by (cases "ps_insert_refund ps q s") (auto simp: prod_eq_iff)

lemma transition_refund_result:
  assumes "invar s"
  obtains s' where "ps_transition_refund ps p t st rid s = (fst (ab_transition_refund p t st rid (abst s)), s')"
    "abst s' = snd (ab_transition_refund p t st rid (abst s))" "invar s'"
  using transition_refund_spec [OF assms, of p t st rid] transition_refund_invar [OF assms, of p t st rid]
  by (cases "ps_transition_refund ps p t st rid s") (auto simp: prod_eq_iff)

text \<open>\<open>create\<close> on a new number: the provider's answer decides between \<open>Pending\<close> and \<open>Closed\<close>.\<close>

lemma create_outcome:
  assumes st: "pm_store m = ps" and inv: "invar s" and p: "pm_provider m k = Inr p"
    and valid: "create_order_validate order = Inr ()"
    and fresh: "ab_orders (abst s) (pv_key p, co_out_trade_no order) = None"
    and prov: "pv_create p order w = (res, w')"
  shows "\<exists>s'. pm_create m k order now now' (s, w) = (res, (s', w')) \<and> invar s' \<and>
    abst s' = (abst s)\<lparr>ab_orders := (ab_orders (abst s))((pv_key p, co_out_trade_no order) \<mapsto>
      (payment_record_new (pv_key p) order now)\<lparr>pr_status := (case res of Inl _ \<Rightarrow> Closed | Inr _ \<Rightarrow> Pending)\<rparr>)\<rparr>"
proof -
  let ?r = "payment_record_new (pv_key p) order now" and ?k = "(pv_key p, co_out_trade_no order)"
  let ?n = "case res of Inl _ \<Rightarrow> Closed | Inr _ \<Rightarrow> Pending"
  have key: "(pr_provider ?r, pr_out_trade_no ?r) = ?k" by (simp add: payment_record_new_def)
  obtain s1 where s1: "ps_insert ps ?r s = (Inr (), s1)"
    "abst s1 = (abst s)\<lparr>ab_orders := (ab_orders (abst s))(?k \<mapsto> ?r)\<rparr>" "invar s1"
    using insert_result [OF inv, of ?r] fresh key by (auto simp: ab_insert_def domIff)
  have can: "can_transition (pr_status ?r) ?n" by (simp add: payment_record_new_def split: sum.splits)
  have upd: "apply_transition ?n None now' ?r = ?r\<lparr>pr_status := ?n\<rparr>"
    by (simp add: apply_transition_def payment_record_new_def split: sum.splits)
  obtain s2 where s2: "ps_transition ps (pv_key p) (co_out_trade_no order) ?n None now' s1
        = (Inr (?r\<lparr>pr_status := ?n\<rparr>), s2)"
    "abst s2 = (abst s)\<lparr>ab_orders := (ab_orders (abst s))(?k \<mapsto> ?r\<lparr>pr_status := ?n\<rparr>)\<rparr>" "invar s2"
    using transition_result [OF s1(3), of "pv_key p" "co_out_trade_no order" ?n None now'] s1(2) can upd
    by (auto simp: ab_transition_def)
  show ?thesis
    using s1 s2 st p valid prov
    by (cases res) (auto simp: pm_create_def op_bind_apply op_match_apply)
qed

text \<open>\<open>handle_notify\<close>, by the state of the order the event is about.\<close>

lemma notify_outcome_known:
  assumes st: "pm_store m = ps" and inv: "invar s" and p: "pm_provider m k = Inr p"
    and ev: "pv_verify_notify p n w = (Inr ev, w')"
    and rec: "ab_orders (abst s) (pv_key p, ne_out_trade_no ev) = Some r"
  shows "pr_status r = ne_status ev \<Longrightarrow>
           pm_handle_notify m k n now (s, w) = (Inr (AlreadyProcessed ev), (s, w'))"
    and "can_transition (pr_status r) (ne_status ev) \<Longrightarrow> pr_status r \<noteq> ne_status ev \<Longrightarrow>
           \<exists>s'. pm_handle_notify m k n now (s, w) = (Inr (Processed ev), (s', w')) \<and> invar s' \<and>
             abst s' = (abst s)\<lparr>ab_orders := (ab_orders (abst s))((pv_key p, ne_out_trade_no ev) \<mapsto>
               apply_transition (ne_status ev) (Some (ne_raw ev)) now r)\<rparr>"
    and "\<not> can_transition (pr_status r) (ne_status ev) \<Longrightarrow> pr_status r \<noteq> ne_status ev \<Longrightarrow>
           \<exists>s'. pm_handle_notify m k n now (s, w)
               = (Inl (InvalidTransition (pr_status r) (ne_status ev)), (s', w')) \<and> abst s' = abst s"
proof -
  note simps = pm_handle_notify_def op_bind_apply st p ev find_spec [OF inv] rec
  show "pm_handle_notify m k n now (s, w) = (Inr (AlreadyProcessed ev), (s, w'))"
    if "pr_status r = ne_status ev"
    using that by (simp add: simps)
  obtain s' where s': "ps_transition ps (pv_key p) (ne_out_trade_no ev) (ne_status ev) (Some (ne_raw ev)) now s
      = (fst (ab_transition (pv_key p) (ne_out_trade_no ev) (ne_status ev) (Some (ne_raw ev)) now (abst s)), s')"
    "abst s' = snd (ab_transition (pv_key p) (ne_out_trade_no ev) (ne_status ev) (Some (ne_raw ev)) now (abst s))"
    "invar s'"
    by (rule transition_result [OF inv])
  show "\<exists>s'. pm_handle_notify m k n now (s, w) = (Inr (Processed ev), (s', w')) \<and> invar s' \<and>
      abst s' = (abst s)\<lparr>ab_orders := (ab_orders (abst s))((pv_key p, ne_out_trade_no ev) \<mapsto>
        apply_transition (ne_status ev) (Some (ne_raw ev)) now r)\<rparr>"
    if "can_transition (pr_status r) (ne_status ev)" "pr_status r \<noteq> ne_status ev"
    using that s' by (simp add: simps ab_transition_def)
  show "\<exists>s'. pm_handle_notify m k n now (s, w)
      = (Inl (InvalidTransition (pr_status r) (ne_status ev)), (s', w')) \<and> abst s' = abst s"
    if "\<not> can_transition (pr_status r) (ne_status ev)" "pr_status r \<noteq> ne_status ev"
    using that s' by (simp add: simps ab_transition_def)
qed

end

section \<open>The order's status and its refunds\<close>

text \<open>
  The status an order with these refunds should have: \<open>Refunded\<close> exactly when the succeeded
  refunds add up to the order, \<open>Refunding\<close> while one is outstanding or part of the money is
  back, otherwise \<open>Paid\<close>. The sums are exact.
\<close>

definition succeeded_total :: "refund_record list \<Rightarrow> nat" where
  "succeeded_total xs = sum_list (map (\<lambda>r. unat (minor (rr_amount r))) (filter (\<lambda>r. rr_status r = Succeeded) xs))"

definition expected_status :: "amount \<Rightarrow> refund_record list \<Rightarrow> payment_status" where
  "expected_status amt xs =
     (if succeeded_total xs = unat (minor amt) then Refunded
      else if 0 < succeeded_total xs \<or> list_ex (\<lambda>r. rr_status r = Processing) xs then Refunding
      else Paid)"

definition agrees :: "string \<Rightarrow> string \<Rightarrow> ab_store \<Rightarrow> bool" where
  "agrees p t a \<longleftrightarrow> (\<exists>r xs. ab_orders a (p, t) = Some r \<and> set xs = ab_refunds_of p t a \<and> distinct xs
     \<and> pr_status r = expected_status (pr_amount r) xs)"

lemma succeeded_le_held:
  "succeeded_total xs \<le> sum_list (map (\<lambda>r. unat (minor (rr_amount r))) (filter holds_amount xs))"
  by (induction xs) (auto simp: succeeded_total_def holds_amount_def)

lemma refund_target_expected:
  assumes "refund_safe a" and "ab_orders a (p, t) = Some r" and xs: "set xs = ab_refunds_of p t a" "distinct xs"
  shows "refund_target r xs = expected_status (pr_amount r) xs"
proof -
  let ?ys = "map (\<lambda>r. minor (rr_amount r)) (filter (\<lambda>r. rr_status r = Succeeded) xs)"
  have total: "sum_list (map unat ?ys) = succeeded_total xs" by (simp add: succeeded_total_def comp_def)
  have le: "succeeded_total xs \<le> unat (minor (pr_amount r))"
    using succeeded_le_held [of xs] held_list [OF refund_safe_keyed [OF assms(1)] xs] assms(1,2)
    by (fastforce simp: refund_safe_def)
  also have "unat (minor (pr_amount r)) < 2 ^ LENGTH(64)" by (rule unsigned_less)
  finally have "unat (sum_list ?ys) = succeeded_total xs"
    using unat_sum_list [of ?ys] total by simp
  then show ?thesis
    using le by (auto simp: refund_target_def expected_status_def Let_def word_le_nat_alt word_less_nat_alt)
qed

lemma expected_status_perm:
  assumes "set xs = set ys" and "distinct xs" and "distinct ys"
  shows "expected_status amt xs = expected_status amt ys"
proof -
  have "mset xs = mset ys" using assms set_eq_iff_mset_eq_distinct by blast
  then have "succeeded_total xs = succeeded_total ys"
    unfolding succeeded_total_def by (simp flip: sum_mset_sum_list)
  moreover have "list_ex Q xs = list_ex Q ys" for Q using assms(1) by (simp add: list_ex_iff)
  ultimately show ?thesis by (simp add: expected_status_def)
qed

context payment_store
begin

text \<open>\<open>sync_order_refund_status\<close> never fails on a paid order, and leaves it agreeing.\<close>

lemma sync_outcome:
  assumes st: "pm_store m = ps" and inv: "invar s" and safe: "refund_safe (abst s)"
    and ord: "ab_orders (abst s) (p, t) = Some r" and paid: "pr_status r = Paid \<or> pr_status r = Refunding"
  shows "\<exists>s'. pm_sync_order_refund_status m p t now (s, w) = (Inr (), (s', w)) \<and> invar s' \<and>
    agrees p t (abst s') \<and> ab_refunds (abst s') = ab_refunds (abst s)"
proof -
  obtain xs where xs: "ps_refunds_for ps p t s = (Inr xs, s)" "set xs = ab_refunds_of p t (abst s)" "distinct xs"
    using refunds_for_spec [OF inv, of p t] by (auto simp: distinct_map)
  let ?n = "refund_target r xs"
  note simps = pm_sync_order_refund_status_def op_bind_apply st find_spec [OF inv] ord xs(1) Let_def
  have target: "?n = expected_status (pr_amount r) xs" by (rule refund_target_expected [OF safe ord xs(2,3)])
  have fin: "agrees p t a" if "ab_orders a (p, t) = Some q" "pr_amount q = pr_amount r" "pr_status q = ?n"
    "ab_refunds a = ab_refunds (abst s)" for a q
    using that xs(2,3) target by (auto simp: agrees_def ab_refunds_of_def)
  have range: "?n = Paid \<or> ?n = Refunding \<or> ?n = Refunded" by (simp add: refund_target_def Let_def)
  obtain s1 where s1: "ps_transition ps p t Refunding None now s
      = (fst (ab_transition p t Refunding None now (abst s)), s1)"
    "abst s1 = snd (ab_transition p t Refunding None now (abst s))" "invar s1"
    by (rule transition_result [OF inv])
  obtain s2 where s2: "ps_transition ps p t ?n None now s = (fst (ab_transition p t ?n None now (abst s)), s2)"
    "abst s2 = snd (ab_transition p t ?n None now (abst s))" "invar s2"
    by (rule transition_result [OF inv])
  obtain s3 where s3: "ps_transition ps p t ?n None now s1 = (fst (ab_transition p t ?n None now (abst s1)), s3)"
    "abst s3 = snd (ab_transition p t ?n None now (abst s1))" "invar s3"
    by (rule transition_result [OF s1(3)])
  consider "?n = pr_status r" | "pr_status r = Paid" "?n = Refunded"
    | "?n \<noteq> pr_status r" "\<not> (pr_status r = Paid \<and> ?n = Refunded)" by blast
  then show ?thesis
  proof cases
    case 1
    then show ?thesis using inv ord by (simp add: simps fin)
  next
    case 2
    then show ?thesis using s1 s3 ord by (simp add: simps ab_transition_def fin)
  next
    case 3
    then have "can_transition (pr_status r) ?n" using paid range by auto
    then show ?thesis using 3 s2 ord by (auto simp: simps ab_transition_def fin)
  qed
qed

text \<open>The conditions under which the checks of \<open>refund\<close> let it go ahead.\<close>

lemma check_passed:
  assumes "pm_store m = ps" and inv: "invar s" and "refund_safe (abst s)"
    and run: "fst (pm_refund_check m p refund (s, w)) = Inr None"
  shows "refund_validate refund = Inr ()"
    and "ab_refunds (abst s) (pv_key p, ro_out_refund_no refund) = None"
    and "has_room (refund_record_new (pv_key p) refund now) (abst s)"
proof -
  show "has_room (refund_record_new (pv_key p) refund now) (abst s)"
    using check_outcome [OF assms(1-3), of p refund w now] run by auto
  show "refund_validate refund = Inr ()"
    using run by (auto simp: pm_refund_check_def op_bind_apply split: sum.splits)
  show "ab_refunds (abst s) (pv_key p, ro_out_refund_no refund) = None"
    using run find_refund_spec [OF inv, of "pv_key p" "ro_out_refund_no refund"] assms(1)
    by (auto simp: pm_refund_check_def op_bind_apply split: sum.splits option.splits if_splits)
qed

lemma record_refund_id_result:
  assumes "invar s"
  obtains s' where "ps_record_refund_id ps p t i s = (fst (ab_record_refund_id p t i (abst s)), s')"
    "abst s' = snd (ab_record_refund_id p t i (abst s))" "invar s'"
  using record_refund_id_spec [OF assms, of p t i] record_refund_id_invar [OF assms, of p t i]
  by (cases "ps_record_refund_id ps p t i s") (auto simp: prod_eq_iff)

text \<open>Writing the provider's receipt into the reserved row.\<close>

lemma receipt_recorded:
  assumes inv: "invar s" and safe: "refund_safe (abst s)" and row: "ab_refunds (abst s) (p, n) = Some r"
    and new: "rr_status r = Processing" "rr_refund_id r = None"
  shows "\<exists>s'. (if rc_status rc \<noteq> Processing
       then op_bind (on_fst (ps_transition_refund ps p n (rc_status rc) (rc_refund_id rc))) (\<lambda>_. op_return ())
       else (case rc_refund_id rc of
               Some refund_id \<Rightarrow> on_fst (ps_record_refund_id ps p n refund_id)
             | None \<Rightarrow> op_return ())) (s, w) = (Inr (), (s', w)) \<and> invar s' \<and> refund_safe (abst s') \<and>
     abst s' = (abst s)\<lparr>ab_refunds := (ab_refunds (abst s))((p, n) \<mapsto>
        r\<lparr>rr_refund_id := rc_refund_id rc, rr_status := rc_status rc\<rparr>)\<rparr>"
proof (cases "rc_status rc = Processing")
  case True
  then have q: "r\<lparr>rr_refund_id := rc_refund_id rc, rr_status := rc_status rc\<rparr>
      = (case rc_refund_id rc of None \<Rightarrow> r | Some i \<Rightarrow> r\<lparr>rr_refund_id := Some i\<rparr>)"
    using new by (cases r) (auto split: option.splits)
  have same: "(abst s)\<lparr>ab_refunds := (ab_refunds (abst s))((p, n) \<mapsto> r)\<rparr> = abst s"
    using row by (simp add: fun_upd_idem)
  obtain s' where s': "ps_record_refund_id ps p n (the (rc_refund_id rc)) s
      = (fst (ab_record_refund_id p n (the (rc_refund_id rc)) (abst s)), s')"
    "abst s' = snd (ab_record_refund_id p n (the (rc_refund_id rc)) (abst s))" "invar s'"
    by (rule record_refund_id_result [OF inv])
  show ?thesis
    unfolding q using True s' inv row safe same safe_record_refund_id [OF safe, of p n]
    by (cases "rc_refund_id rc") (auto simp: ab_record_refund_id_def)
next
  case False
  obtain s' where s': "ps_transition_refund ps p n (rc_status rc) (rc_refund_id rc) s
      = (fst (ab_transition_refund p n (rc_status rc) (rc_refund_id rc) (abst s)), s')"
    "abst s' = snd (ab_transition_refund p n (rc_status rc) (rc_refund_id rc) (abst s))" "invar s'"
    by (rule transition_refund_result [OF inv])
  have "apply_refund_transition (rc_status rc) (rc_refund_id rc) r
      = r\<lparr>rr_refund_id := rc_refund_id rc, rr_status := rc_status rc\<rparr>"
    using new by (cases r) (auto simp: apply_refund_transition_def Let_def)
  moreover have "refund_can_transition (rr_status r) (rc_status rc)"
    using new False by (cases "rc_status rc") auto
  ultimately show ?thesis
    using False s' row safe_transition_refund [OF safe, of p n "rc_status rc" "rc_refund_id rc"]
    by (auto simp: op_bind_apply ab_transition_refund_def)
qed

text \<open>A refund the checks let through and the provider accepts always completes.\<close>

lemma refund_completes:
  assumes st: "pm_store m = ps" and inv: "invar s" and safe: "refund_safe (abst s)"
    and p: "pm_provider m k = Inr p" and ok: "fst (pm_refund_check m p refund (s, w)) = Inr None"
    and acc: "pv_refund p refund w = (Inr rc, w')"
  shows "\<exists>s'. pm_refund m k refund now now' (s, w) = (Inr rc, (s', w')) \<and> invar s' \<and>
    agrees (pv_key p) (ro_out_trade_no refund) (abst s') \<and>
    ab_refunds (abst s') = (ab_refunds (abst s))((pv_key p, ro_out_refund_no refund) \<mapsto>
      (refund_record_new (pv_key p) refund now)\<lparr>rr_refund_id := rc_refund_id rc, rr_status := rc_status rc\<rparr>)"
proof -
  let ?r = "refund_record_new (pv_key p) refund now" and ?k = "(pv_key p, ro_out_refund_no refund)"
  let ?q = "?r\<lparr>rr_refund_id := rc_refund_id rc, rr_status := rc_status rc\<rparr>"
  have room: "has_room ?r (abst s)" and new: "ab_refunds (abst s) ?k = None"
    using check_passed [OF st inv safe ok] by auto
  have key: "(rr_provider ?r, rr_out_refund_no ?r) = ?k" and row: "rr_status ?r = Processing" "rr_refund_id ?r = None"
    by (simp_all add: refund_record_new_def)
  obtain s1 where s1: "ps_insert_refund ps ?r s = (Inr (), s1)"
    "abst s1 = (abst s)\<lparr>ab_refunds := (ab_refunds (abst s))(?k \<mapsto> ?r)\<rparr>" "invar s1"
    using insert_refund_result [OF inv, of ?r] new key by (auto simp: ab_insert_refund_def domIff)
  have safe1: "refund_safe (abst s1)"
    using safe_insert_refund [OF safe room] s1(2) new key by (simp add: ab_insert_refund_def domIff)
  obtain s2 where s2: "(if rc_status rc \<noteq> Processing
       then op_bind (on_fst (ps_transition_refund ps (pv_key p) (ro_out_refund_no refund)
              (rc_status rc) (rc_refund_id rc))) (\<lambda>_. op_return ())
       else (case rc_refund_id rc of
               Some refund_id \<Rightarrow> on_fst (ps_record_refund_id ps (pv_key p) (ro_out_refund_no refund) refund_id)
             | None \<Rightarrow> op_return ())) (s1, w') = (Inr (), (s2, w'))"
    "invar s2" "refund_safe (abst s2)" "abst s2 = (abst s)\<lparr>ab_refunds := (ab_refunds (abst s))(?k \<mapsto> ?q)\<rparr>"
    using receipt_recorded [OF s1(3) safe1 _ row, of "pv_key p" "ro_out_refund_no refund" rc w'] s1(2) by auto
  obtain r where r: "ab_orders (abst s2) (pv_key p, ro_out_trade_no refund) = Some r"
    "pr_status r = Paid \<or> pr_status r = Refunding"
    using room s2(4) by (auto simp: has_room_def refund_record_new_def)
  obtain s3 where s3: "pm_sync_order_refund_status m (pv_key p) (ro_out_trade_no refund) now' (s2, w') = (Inr (), (s3, w'))"
    "invar s3" "agrees (pv_key p) (ro_out_trade_no refund) (abst s3)" "ab_refunds (abst s3) = ab_refunds (abst s2)"
    using sync_outcome [OF st s2(2,3) r] by blast
  have "pm_refund_execute m p refund now now' (s, w) = (Inr rc, (s3, w'))"
    unfolding pm_refund_execute_def st op_bind_apply op_match_apply
    using s1(1) acc s2(1) [unfolded op_bind_apply] s3(1)
    by (auto split: if_splits option.splits simp: op_bind_def)
  moreover obtain r0 where "pm_refund_check m p refund (s, w) = (r0, (s, w))"
    using check_outcome [OF st inv safe] by blast
  ultimately have "pm_refund m k refund now now' (s, w) = (Inr rc, (s3, w'))"
    using ok by (simp add: pm_refund_def op_bind_apply p)
  then show ?thesis using s3 s2(4) by auto
qed

text \<open>A refund the provider declines leaves a failed row, which holds no money.\<close>

lemma refund_declined:
  assumes st: "pm_store m = ps" and inv: "invar s" and safe: "refund_safe (abst s)"
    and p: "pm_provider m k = Inr p" and ok: "fst (pm_refund_check m p refund (s, w)) = Inr None"
    and dec: "pv_refund p refund w = (Inl e, w')"
  shows "\<exists>s'. pm_refund m k refund now now' (s, w) = (Inl e, (s', w')) \<and> invar s' \<and>
    abst s' = (abst s)\<lparr>ab_refunds := (ab_refunds (abst s))((pv_key p, ro_out_refund_no refund) \<mapsto>
      (refund_record_new (pv_key p) refund now)\<lparr>rr_status := RefundFailed\<rparr>)\<rparr>"
proof -
  let ?r = "refund_record_new (pv_key p) refund now" and ?k = "(pv_key p, ro_out_refund_no refund)"
  have new: "ab_refunds (abst s) ?k = None"
    using check_passed [OF st inv safe ok] by auto
  have key: "(rr_provider ?r, rr_out_refund_no ?r) = ?k" and row: "rr_status ?r = Processing"
    by (simp_all add: refund_record_new_def)
  obtain s1 where s1: "ps_insert_refund ps ?r s = (Inr (), s1)"
    "abst s1 = (abst s)\<lparr>ab_refunds := (ab_refunds (abst s))(?k \<mapsto> ?r)\<rparr>" "invar s1"
    using insert_refund_result [OF inv, of ?r] new key by (auto simp: ab_insert_refund_def domIff)
  obtain s2 where raw: "ps_transition_refund ps (pv_key p) (ro_out_refund_no refund) RefundFailed None s1
      = (fst (ab_transition_refund (pv_key p) (ro_out_refund_no refund) RefundFailed None (abst s1)), s2)"
    "abst s2 = snd (ab_transition_refund (pv_key p) (ro_out_refund_no refund) RefundFailed None (abst s1))" "invar s2"
    by (rule transition_refund_result [OF s1(3)])
  then have s2: "ps_transition_refund ps (pv_key p) (ro_out_refund_no refund) RefundFailed None s1
      = (Inr (?r\<lparr>rr_status := RefundFailed\<rparr>), s2)"
    "invar s2" "abst s2 = (abst s)\<lparr>ab_refunds := (ab_refunds (abst s))(?k \<mapsto> ?r\<lparr>rr_status := RefundFailed\<rparr>)\<rparr>"
    using s1(2) row by (simp_all add: ab_transition_refund_def apply_refund_transition_def Let_def)
  have "pm_refund_execute m p refund now now' (s, w) = (Inl e, (s2, w'))"
    using s1(1) s2(1) dec by (simp add: pm_refund_execute_def st op_bind_apply op_match_apply)
  moreover obtain r0 where "pm_refund_check m p refund (s, w) = (r0, (s, w))"
    using check_outcome [OF st inv safe] by blast
  ultimately have "pm_refund m k refund now now' (s, w) = (Inl e, (s2, w'))"
    using ok by (simp add: pm_refund_def op_bind_apply p)
  then show ?thesis using s2 by auto
qed

lemma refund_retry:
  assumes st: "pm_store m = ps" and inv: "invar s" and p: "pm_provider m k = Inr p"
    and valid: "refund_validate refund = Inr ()"
    and row: "ab_refunds (abst s) (pv_key p, ro_out_refund_no refund) = Some q"
    and same: "rr_out_trade_no q = ro_out_trade_no refund"
  shows "pm_refund m k refund now now' (s, w) =
    (Inr \<lparr>rc_provider = pv_key p, rc_out_trade_no = rr_out_trade_no q, rc_out_refund_no = rr_out_refund_no q,
          rc_refund_id = rr_refund_id q, rc_amount = rr_amount q, rc_status = rr_status q, rc_raw = []\<rparr>, (s, w))"
  by (simp add: pm_refund_def pm_refund_check_def op_bind_apply st p valid find_refund_spec [OF inv] row same)

end

section \<open>Properties of the manager over the in-memory store\<close>

text \<open>
  A state a manager over \<open>MemoryPaymentStore\<close> can be in between two calls, and the executable
  form of \<open>agrees\<close>.
\<close>

definition mem_ready :: "mem_store \<Rightarrow> bool" where
  "mem_ready s \<longleftrightarrow> mem_invar s \<and> refund_safe (mem_abs s)"

definition mem_order_agrees :: "string \<Rightarrow> string \<Rightarrow> mem_store \<Rightarrow> bool" where
  "mem_order_agrees p t s =
     (case map_of (ms_records s) (p, t) of
        None \<Rightarrow> False
      | Some r \<Rightarrow> pr_status r = expected_status (pr_amount r)
          (filter (\<lambda>r. rr_provider r = p \<and> rr_out_trade_no r = t) (map snd (ms_refunds s))))"

lemma mem_new_ready [simp]: "mem_ready mem_new"
  by (simp add: mem_ready_def)

lemma mem_run_ready:
  "pm_store m = mem_payment_store \<Longrightarrow> mem_ready s \<Longrightarrow> mem_ready (fst (pm_run m cs (s, w)))"
  using mem_run_history [of m s cs w] by (simp add: mem_ready_def history_def)

lemma mem_order_agrees_abs:
  assumes "mem_invar s" and "agrees p t (mem_abs s)"
  shows "mem_order_agrees p t s"
proof -
  obtain r xs where r: "map_of (ms_records s) (p, t) = Some r" "set xs = ab_refunds_of p t (mem_abs s)"
    "distinct xs" "pr_status r = expected_status (pr_amount r) xs"
    using assms(2) by (auto simp: agrees_def mem_abs_def)
  then show ?thesis
    using mem_rows [OF assms(1)] expected_status_perm [of xs] by (simp add: mem_order_agrees_def)
qed

text \<open>
  C3: A refund that passes the checks of \<open>refund\<close> and that the provider accepts completes:
  the call returns the provider's receipt, the refund row holds the amount and the
  receipt's status, the money the order's refunds hold grows by exactly that amount (not at
  all when the receipt says it failed), and the order's status agrees with its refunds.
  Repeating the call with the same order, at any time and whatever the provider is doing,
  returns the recorded amount and status, changes nothing and does not reach the provider.
\<close>
theorem refund_completes_once:
  assumes "pm_store m = mem_payment_store" and "mem_ready s" and "pm_provider m k = Inr p"
    and "fst (pm_refund_check m p refund (s, w)) = Inr None" and "pv_refund p refund w = (Inr rc, w')"
  shows "\<exists>s' again. pm_refund m k refund now now' (s, w) = (Inr rc, (s', w'))
     \<and> mem_ready s'
     \<and> mem_held (pv_key p) (ro_out_trade_no refund) s' = mem_held (pv_key p) (ro_out_trade_no refund) s
         + (if rc_status rc = RefundFailed then 0 else unat (minor (ro_amount refund)))
     \<and> mem_order_agrees (pv_key p) (ro_out_trade_no refund) s'
     \<and> (\<forall>v t t'. pm_refund m k refund t t' (s', v) = (Inr again, (s', v)))
     \<and> rc_amount again = ro_amount refund \<and> rc_status again = rc_status rc"
proof -
  let ?q = "(refund_record_new (pv_key p) refund now)\<lparr>rr_refund_id := rc_refund_id rc, rr_status := rc_status rc\<rparr>"
  have inv: "mem_invar s" and safe: "refund_safe (mem_abs s)" using assms(2) by (auto simp: mem_ready_def)
  obtain s' where s': "pm_refund m k refund now now' (s, w) = (Inr rc, (s', w'))" "mem_invar s'"
    "agrees (pv_key p) (ro_out_trade_no refund) (mem_abs s')"
    "ab_refunds (mem_abs s') = (ab_refunds (mem_abs s))((pv_key p, ro_out_refund_no refund) \<mapsto> ?q)"
    using mem.refund_completes [OF assms(1) inv safe assms(3-5), of now now'] by blast
  have ready: "mem_ready s'"
    using mem_run_ready [OF assms(1,2), of "[CallRefund k refund now now']" w] s'(1) by (simp add: pm_run_def)
  note passed = mem.check_passed [OF assms(1) inv safe assms(4)]
  have h: "held p' t' (mem_abs s') = held p' t' (mem_abs s) + held_part p' t' ?q" for p' t'
    using held_update [of "mem_abs s" p' t' "(pv_key p, ro_out_refund_no refund)" ?q] s'(4) passed(2) safe
    by (simp add: held_def refund_safe_def ab_keyed_def)
  have "mem_held (pv_key p) (ro_out_trade_no refund) s' = mem_held (pv_key p) (ro_out_trade_no refund) s
      + (if rc_status rc = RefundFailed then 0 else unat (minor (ro_amount refund)))"
    unfolding mem_held_abs [OF s'(2)] mem_held_abs [OF inv] h
    by (simp add: held_part_def holds_amount_def refund_record_new_def)
  moreover have "\<forall>v t t'. pm_refund m k refund t t' (s', v) =
      (Inr \<lparr>rc_provider = pv_key p, rc_out_trade_no = rr_out_trade_no ?q, rc_out_refund_no = rr_out_refund_no ?q,
          rc_refund_id = rr_refund_id ?q, rc_amount = rr_amount ?q, rc_status = rr_status ?q, rc_raw = []\<rparr>, (s', v))"
    (is "\<forall>v t t'. _ = (Inr ?again, _)")
    using s'(4) passed(1)
    by (intro allI mem.refund_retry [OF assms(1) s'(2) assms(3)]) (simp_all add: refund_record_new_def)
  moreover have "rc_amount ?again = ro_amount refund" "rc_status ?again = rc_status rc"
    by (simp_all add: refund_record_new_def)
  ultimately show ?thesis
    using s'(1) ready mem_order_agrees_abs [OF s'(2,3)] by blast
qed

text \<open>
  A refund that passes the checks and that the provider declines returns the
  provider's error and leaves the held money of the order as it was: the reservation is
  given back, so the whole refundable rest is available again.
\<close>
theorem declined_refund_releases_money:
  assumes "pm_store m = mem_payment_store" and "mem_ready s" and "pm_provider m k = Inr p"
    and "fst (pm_refund_check m p refund (s, w)) = Inr None" and "pv_refund p refund w = (Inl e, w')"
  shows "\<exists>s'. pm_refund m k refund now now' (s, w) = (Inl e, (s', w')) \<and> mem_ready s'
     \<and> map_of (ms_records s') = map_of (ms_records s)
     \<and> mem_held (pv_key p) (ro_out_trade_no refund) s' = mem_held (pv_key p) (ro_out_trade_no refund) s
     \<and> map_option rr_status (map_of (ms_refunds s') (pv_key p, ro_out_refund_no refund)) = Some RefundFailed"
proof -
  let ?q = "(refund_record_new (pv_key p) refund now)\<lparr>rr_status := RefundFailed\<rparr>"
  have inv: "mem_invar s" and safe: "refund_safe (mem_abs s)" using assms(2) by (auto simp: mem_ready_def)
  obtain s' where s': "pm_refund m k refund now now' (s, w) = (Inl e, (s', w'))" "mem_invar s'"
    "mem_abs s' = (mem_abs s)\<lparr>ab_refunds := (ab_refunds (mem_abs s))((pv_key p, ro_out_refund_no refund) \<mapsto> ?q)\<rparr>"
    using mem.refund_declined [OF assms(1) inv safe assms(3-5), of now now'] by blast
  have ready: "mem_ready s'"
    using mem_run_ready [OF assms(1,2), of "[CallRefund k refund now now']" w] s'(1) by (simp add: pm_run_def)
  have "held_part p' t' ?q = 0" for p' t' by (simp add: held_part_def holds_amount_def)
  then have "held p' t' (mem_abs s') = held p' t' (mem_abs s)" for p' t'
    using held_update [of "mem_abs s" p' t' "(pv_key p, ro_out_refund_no refund)" ?q] s'(3) safe
      mem.check_passed(2) [OF assms(1) inv safe assms(4)]
    by (simp add: refund_safe_def ab_keyed_def)
  then show ?thesis
    using s' ready by (intro exI [of _ s']) (auto simp: mem_held_abs inv mem_abs_def)
qed


text \<open>
  \<open>create\<close> on a known provider. A blank number or subject or a zero amount is refused
  before anything is stored; a number the provider already has is refused and the stored
  order kept; otherwise the order is stored and the provider called, and the order ends
  \<open>Pending\<close> when the provider answered and \<open>Closed\<close> when it failed, the caller getting the
  provider's own result in both cases.
\<close>
theorem create_every_branch:
  assumes "pm_store m = mem_payment_store" and "mem_ready s" and "pm_provider m k = Inr p"
  shows "case create_order_validate order of
           Inl e \<Rightarrow> pm_create m k order now now' (s, w) = (Inl e, (s, w))
         | Inr _ \<Rightarrow>
             (case map_of (ms_records s) (pv_key p, co_out_trade_no order) of
                Some _ \<Rightarrow> pm_create m k order now now' (s, w)
                  = (Inl (DuplicateOrder (pv_key p) (co_out_trade_no order)), (s, w))
              | None \<Rightarrow>
                  (case pv_create p order w of (res, w') \<Rightarrow>
                     \<exists>s'. pm_create m k order now now' (s, w) = (res, (s', w')) \<and> mem_ready s'
                       \<and> map_of (ms_records s') = (map_of (ms_records s))((pv_key p, co_out_trade_no order) \<mapsto>
                           (payment_record_new (pv_key p) order now)\<lparr>pr_status :=
                              (case res of Inl _ \<Rightarrow> Closed | Inr _ \<Rightarrow> Pending)\<rparr>)
                       \<and> map_of (ms_refunds s') = map_of (ms_refunds s)))"
proof -
  have inv: "mem_invar s" using assms(2) by (simp add: mem_ready_def)
  obtain res w' where prov: "pv_create p order w = (res, w')" by fastforce
  consider (bad) e where "create_order_validate order = Inl e"
    | (dup) q where "create_order_validate order = Inr ()"
        "map_of (ms_records s) (pv_key p, co_out_trade_no order) = Some q"
    | (new) "create_order_validate order = Inr ()"
        "map_of (ms_records s) (pv_key p, co_out_trade_no order) = None"
    by (cases "create_order_validate order"; cases "map_of (ms_records s) (pv_key p, co_out_trade_no order)") auto
  then show ?thesis
  proof cases
    case bad
    then show ?thesis by (simp add: pm_create_def op_bind_apply assms(3))
  next
    case dup
    then show ?thesis
      by (simp add: pm_create_def op_bind_apply assms(1,3) mem_payment_store_def mem_insert_def payment_record_new_def)
  next
    case new
    then obtain s' where s': "pm_create m k order now now' (s, w) = (res, (s', w'))" "mem_invar s'"
      "mem_abs s' = (mem_abs s)\<lparr>ab_orders := (ab_orders (mem_abs s))((pv_key p, co_out_trade_no order) \<mapsto>
        (payment_record_new (pv_key p) order now)\<lparr>pr_status := (case res of Inl _ \<Rightarrow> Closed | Inr _ \<Rightarrow> Pending)\<rparr>)\<rparr>"
      using mem.create_outcome [OF assms(1) inv assms(3) new(1) _ prov, of now now'] by (auto simp: mem_abs_def)
    moreover have "mem_ready s'"
      using mem_run_ready [OF assms(1,2), of "[CallCreate k order now now']" w] s'(1) by (simp add: pm_run_def)
    ultimately show ?thesis using new prov by (auto simp: mem_abs_def)
  qed
qed

end
