(* ===== verification/Pay_Scenarios.thy ===== *)
theory Pay_Scenarios
  imports Pay_Flow
begin

text \<open>
  Manager, in-memory store and mock provider together: a payment followed by a full refund,
  from any state; two interleavings in which the code breaks a promise of its
  documentation; and the concrete instances at which the conditional properties of the
  payment theories are checked.
\<close>

section \<open>Pay, then refund in full\<close>

lemma fresh_order_holds_nothing:
  assumes "refund_safe a" and "ab_orders a (p, t) = None"
  shows "held p t a = 0" and "ab_refunds_of p t a = {}"
proof -
  have none: "(rr_provider r, rr_out_trade_no r) \<noteq> (p, t)" if "ab_refunds a k = Some r" for k r
    using assms that by (cases k) (fastforce simp: refund_safe_def)
  show "held p t a = 0" by (rule held_no_refunds) (rule none)
  show "ab_refunds_of p t a = {}" using none by (auto simp: ab_refunds_of_def ran_def)
qed

context payment_store
begin

lemma check_passes:
  assumes st: "pm_store m = ps" and inv: "invar s" and safe: "refund_safe (abst s)"
    and valid: "refund_validate refund = Inr ()"
    and new: "ab_refunds (abst s) (pv_key p, ro_out_refund_no refund) = None"
    and ord: "ab_orders (abst s) (pv_key p, ro_out_trade_no refund) = Some r"
    and paid: "pr_status r = Paid \<or> pr_status r = Refunding" and total: "pr_amount r = ro_total refund"
    and room: "held (pv_key p) (ro_out_trade_no refund) (abst s) + unat (minor (ro_amount refund))
      \<le> unat (minor (pr_amount r))"
  shows "pm_refund_check m p refund (s, w) = (Inr None, (s, w))"
proof -
  obtain xs where xs: "ps_refunds_for ps (pv_key p) (ro_out_trade_no refund) s = (Inr xs, s)"
    "set xs = ab_refunds_of (pv_key p) (ro_out_trade_no refund) (abst s)" "distinct xs"
    using refunds_for_spec [OF inv, of "pv_key p" "ro_out_trade_no refund"] by (auto simp: distinct_map)
  have no: "pr_out_trade_no r = ro_out_trade_no refund"
    using keyed [OF inv] ord by (auto simp: ab_keyed_def)
  have "\<not> minor (refundable_of r xs) < minor (ro_amount refund)"
    using refundable_of_room [OF safe ord xs(2,3)] room by (simp add: word_less_nat_alt)
  then show ?thesis
    using st valid new ord paid total no xs(1)
    by (simp add: pm_refund_check_def pm_refundable_def op_bind_apply find_spec [OF inv] find_refund_spec [OF inv])
qed

end

definition pay_then_refund :: "(mem_store, mock_state) pay_manager \<Rightarrow> mock_json \<Rightarrow> create_order \<Rightarrow> string \<Rightarrow>
    (nat \<Rightarrow> systime) \<Rightarrow> (mem_store \<times> mock_state, pay_error, refund_receipt) op" where
  "pay_then_refund m js order refund_no clock =
     op_bind (pm_create m mock_KEY order (clock 0) (clock 1)) (\<lambda>_.
     op_bind (on_snd (mock_mark_paid js (co_out_trade_no order))) (\<lambda>body.
     op_bind (pm_handle_notify m mock_KEY \<lparr>nr_headers = [], nr_body = body\<rparr> (clock 2)) (\<lambda>_.
     pm_refund m mock_KEY (refund_full (co_out_trade_no order) refund_no (co_amount order)) (clock 3) (clock 4))))"

definition mock_manager :: "mock_json \<Rightarrow> ((string \<rightharpoonup> mock_order) \<Rightarrow> string list) \<Rightarrow>
    (mem_store, mock_state) pay_manager" where
  "mock_manager js ord = pm_with_provider (mock_provider js ord) (pm_builder mem_payment_store)"

lemma mock_manager_simps [simp]:
  "pm_store (mock_manager js ord) = mem_payment_store"
  "pm_provider (mock_manager js ord) mock_KEY = Inr (mock_provider js ord)"
  by (simp_all add: mock_manager_def pm_with_provider_def pm_builder_def pm_provider_def mock_provider_def)

lemma mock_provider_simps [simp]:
  "pv_key (mock_provider js ord) = mock_KEY" "pv_create (mock_provider js ord) = mock_create"
  "pv_verify_notify (mock_provider js ord) = mock_verify_notify js"
  "pv_refund (mock_provider js ord) = mock_refund"
  by (simp_all add: mock_provider_def)

lemma mock_verify_paid:
  "json_reads_paid js t \<Longrightarrow>
   mock_verify_notify js \<lparr>nr_headers = h, nr_body = mock_paid_notify_body js t\<rparr> w =
     (Inr \<lparr>ne_out_trade_no = t, ne_transaction_id = Some (''MOCK-'' @ t), ne_status = Paid,
           ne_raw = mock_paid_notify_body js t\<rparr>, w)"
  by (simp add: mock_verify_notify_def json_reads_paid_def body_str_def)

lemma mock_full_refund:
  assumes "mk_orders w t = Some \<lparr>mo_status = Paid, mo_amount = amt, mo_refunds = []\<rparr>"
    and "refund_validate (refund_full t n amt) = Inr ()" and "\<not> mock_is_deferred w n"
  shows "\<exists>w'. mock_refund (refund_full t n amt) w = (Inr (mock_receipt (refund_full t n amt) amt Succeeded), w')"
  using assms by (simp add: mock_refund_def refund_full_def)

lemma refund_full_valid:
  assumes "create_order_validate order = Inr ()" and "\<not> trim_is_empty n"
  shows "refund_validate (refund_full (co_out_trade_no order) n (co_amount order)) = Inr ()"
  using assms by (auto simp: refund_validate_def refund_full_def create_order_validate_def split: if_splits)

lemma mock_pay_outcome:
  assumes "mem_ready s" and "create_order_validate order = Inr ()"
    and "map_of (ms_records s) (mock_KEY, co_out_trade_no order) = None"
    and "json_reads_paid js (co_out_trade_no order)"
  shows "\<exists>s' w' r. (\<forall>f. op_bind (pm_create (mock_manager js ord) mock_KEY order (clock 0) (clock 1)) (\<lambda>_.
       op_bind (on_snd (mock_mark_paid js (co_out_trade_no order))) (\<lambda>body.
       op_bind (pm_handle_notify (mock_manager js ord) mock_KEY \<lparr>nr_headers = [], nr_body = body\<rparr> (clock 2))
         (\<lambda>_. f))) (s, w) = f (s', w'))
     \<and> mem_ready s' \<and> pr_status r = Paid \<and> pr_amount r = co_amount order
     \<and> mem_abs s' = (mem_abs s)\<lparr>ab_orders := (ab_orders (mem_abs s))((mock_KEY, co_out_trade_no order) \<mapsto> r)\<rparr>
     \<and> mk_orders w' (co_out_trade_no order) = Some \<lparr>mo_status = Paid, mo_amount = co_amount order, mo_refunds = []\<rparr>
     \<and> mk_slow_refunds w' = mk_slow_refunds w"
proof -
  let ?m = "mock_manager js ord" and ?t = "co_out_trade_no order" and ?amt = "co_amount order"
  let ?k = "(mock_KEY, ?t)" and ?p = "mock_provider js ord"
  let ?new = "(payment_record_new mock_KEY order (clock 0))\<lparr>pr_status := Pending\<rparr>"
  let ?req = "\<lparr>nr_headers = [], nr_body = mock_paid_notify_body js ?t\<rparr>"
  let ?ev = "\<lparr>ne_out_trade_no = ?t, ne_transaction_id = Some (''MOCK-'' @ ?t), ne_status = Paid,
    ne_raw = mock_paid_notify_body js ?t\<rparr>"
  have inv: "mem_invar s" and none: "ab_orders (mem_abs s) ?k = None"
    using assms(1,3) by (auto simp: mem_ready_def mem_abs_def)
  obtain int w1 where c: "mock_create order w = (Inr int, w1)"
    "mk_orders w1 ?t = Some \<lparr>mo_status = Pending, mo_amount = ?amt, mo_refunds = []\<rparr>"
    "mk_slow_refunds w1 = mk_slow_refunds w"
    using assms(2) by (simp add: mock_create_def)
  obtain s1 where s1: "pm_create ?m mock_KEY order (clock 0) (clock 1) (s, w) = (Inr int, (s1, w1))" "mem_invar s1"
    "mem_abs s1 = (mem_abs s)\<lparr>ab_orders := (ab_orders (mem_abs s))(?k \<mapsto> ?new)\<rparr>"
    using mem.create_outcome [of ?m s mock_KEY ?p order w "Inr int" w1 "clock 0" "clock 1"] inv assms(2) none c(1)
    by auto
  define w2 where "w2 = w1\<lparr>mk_orders := (mk_orders w1)(?t \<mapsto> \<lparr>mo_status = Paid, mo_amount = ?amt, mo_refunds = []\<rparr>)\<rparr>"
  have mark: "mock_mark_paid js ?t w1 = (Inr (mock_paid_notify_body js ?t), w2)"
    using c(2) by (simp add: mock_mark_paid_def w2_def)
  obtain s2 where s2: "pm_handle_notify ?m mock_KEY ?req (clock 2) (s1, w2) = (Inr (Processed ?ev), (s2, w2))"
    "mem_abs s2 = (mem_abs s1)\<lparr>ab_orders := (ab_orders (mem_abs s1))(?k \<mapsto>
       apply_transition Paid (Some (ne_raw ?ev)) (clock 2) ?new)\<rparr>"
    using mem.notify_outcome_known(2) [of ?m s1 mock_KEY ?p ?req w2 ?ev w2 ?new "clock 2", OF _ s1(2)]
      mock_verify_paid [OF assms(4), of "[]" w2] s1(3) by auto
  have "mem_ready s1"
    using mem_run_ready [of ?m s "[CallCreate mock_KEY order (clock 0) (clock 1)]" w] assms(1) s1(1)
    by (simp add: pm_run_def)
  then have "mem_ready s2"
    using mem_run_ready [of ?m s1 "[CallHandleNotify mock_KEY ?req (clock 2)]" w2] s2(1)
    by (simp add: pm_run_def)
  moreover have "\<forall>f. op_bind (pm_create ?m mock_KEY order (clock 0) (clock 1)) (\<lambda>_.
       op_bind (on_snd (mock_mark_paid js ?t)) (\<lambda>body.
       op_bind (pm_handle_notify ?m mock_KEY \<lparr>nr_headers = [], nr_body = body\<rparr> (clock 2)) (\<lambda>_. f))) (s, w) = f (s2, w2)"
    using s1(1) mark s2(1) by (simp add: op_bind_apply)
  ultimately show ?thesis
    using s1(3) s2(2) c(3)
    by (intro exI [of _ s2] exI [of _ w2] exI [of _ "apply_transition Paid (Some (ne_raw ?ev)) (clock 2) ?new"])
      (simp add: w2_def payment_record_new_def)
qed

lemma agrees_single:
  assumes "agrees p t a" and "ab_refunds_of p t a = {q}" and "rr_status q = Succeeded"
    and "ab_orders a (p, t) = Some r" and "pr_amount r = rr_amount q"
  shows "pr_status r = Refunded"
proof -
  obtain xs where "set xs = {q}" "distinct xs" "pr_status r = expected_status (pr_amount r) xs"
    using assms by (auto simp: agrees_def)
  moreover from this have "xs = [q]"
    by (metis distinct.simps(2) empty_iff insert_iff list.set_cases set_ConsD list.exhaust list.set_intros(1,2) singletonD)
  ultimately show ?thesis
    using assms(3,5) by (simp add: expected_status_def succeeded_total_def)
qed

text \<open>
  C4: Starting from any reachable store and any state of the mock provider, creating a
  valid order with a new number, paying it, delivering the notification the provider wrote
  and refunding it in full all succeed: the order ends \<open>Refunded\<close>, the receipt reports the
  whole amount as succeeded, and the order's refunds hold exactly its amount.
\<close>
theorem pay_then_refund_succeeds:
  assumes "mem_ready s" and "create_order_validate order = Inr ()"
    and "map_of (ms_records s) (mock_KEY, co_out_trade_no order) = None"
    and "map_of (ms_refunds s) (mock_KEY, n) = None"
    and "\<not> trim_is_empty n" and "\<not> mock_is_deferred w n" and "json_reads_paid js (co_out_trade_no order)"
  shows "\<exists>receipt s' w'. pay_then_refund (mock_manager js ord) js order n clock (s, w) = (Inr receipt, (s', w'))
     \<and> rc_status receipt = Succeeded \<and> rc_amount receipt = co_amount order
     \<and> map_option pr_status (map_of (ms_records s') (mock_KEY, co_out_trade_no order)) = Some Refunded
     \<and> mem_held mock_KEY (co_out_trade_no order) s' = unat (minor (co_amount order))"
proof -
  let ?m = "mock_manager js ord" and ?t = "co_out_trade_no order" and ?amt = "co_amount order"
  let ?k = "(mock_KEY, ?t)" and ?ref = "refund_full ?t n ?amt" and ?p = "mock_provider js ord"
  let ?q = "(refund_record_new mock_KEY ?ref (clock 3))\<lparr>rr_refund_id := Some (''MOCK-REFUND-'' @ n), rr_status := Succeeded\<rparr>"
  have safe: "refund_safe (mem_abs s)" using assms(1) by (simp add: mem_ready_def)
  have none: "ab_orders (mem_abs s) ?k = None" using assms(3) by (simp add: mem_abs_def)
  note empty = fresh_order_holds_nothing [OF safe none]
  let ?d = "pm_refund ?m mock_KEY ?ref (clock 3) (clock 4)"
  obtain s2 w2 r where pay: "pay_then_refund ?m js order n clock (s, w) = ?d (s2, w2)"
    and ready2: "mem_ready s2" and r: "pr_status r = Paid" "pr_amount r = ?amt"
    and abs2: "mem_abs s2 = (mem_abs s)\<lparr>ab_orders := (ab_orders (mem_abs s))(?k \<mapsto> r)\<rparr>"
    and w2: "mk_orders w2 ?t = Some \<lparr>mo_status = Paid, mo_amount = ?amt, mo_refunds = []\<rparr>"
    "mk_slow_refunds w2 = mk_slow_refunds w"
    using mock_pay_outcome [OF assms(1-3,7), of ord clock w] unfolding pay_then_refund_def by blast
  have s2: "mem_invar s2" "refund_safe (mem_abs s2)" using ready2 by (auto simp: mem_ready_def)
  have h2: "held mock_KEY ?t (mem_abs s2) = 0" using empty(1) abs2 by simp
  have key: "ro_out_trade_no ?ref = ?t" "ro_out_refund_no ?ref = n" "ro_amount ?ref = ?amt" "ro_total ?ref = ?amt"
    by (simp_all add: refund_full_def)
  have free: "ab_refunds (mem_abs s) (mock_KEY, n) = None" using assms(4) by (simp add: mem_abs_def)
  have ok: "fst (pm_refund_check ?m ?p ?ref (s2, w2)) = Inr None"
    using h2 mem.check_passes [of ?m s2 ?ref ?p r w2, OF _ s2 refund_full_valid [OF assms(2,5)]] abs2 free r
    by (simp add: key)
  obtain w3 where acc: "mock_refund ?ref w2 = (Inr (mock_receipt ?ref ?amt Succeeded), w3)"
    using mock_full_refund [OF w2(1) refund_full_valid [OF assms(2,5)]] assms(6) w2(2)
    by (auto simp: mock_is_deferred_def)
  obtain s3 where s3: "pm_refund ?m mock_KEY ?ref (clock 3) (clock 4) (s2, w2)
      = (Inr (mock_receipt ?ref ?amt Succeeded), (s3, w3))" "mem_invar s3" "agrees mock_KEY ?t (mem_abs s3)"
    "ab_refunds (mem_abs s3) = (ab_refunds (mem_abs s2))((mock_KEY, n) \<mapsto> ?q)"
    using mem.refund_completes [of ?m s2 mock_KEY ?p ?ref w2 "mock_receipt ?ref ?amt Succeeded" w3 "clock 3" "clock 4"]
      s2 ok acc by (auto simp: mock_receipt_def key)
  have q: "rr_status ?q = Succeeded" "rr_amount ?q = ?amt" "rr_provider ?q = mock_KEY" "rr_out_trade_no ?q = ?t"
    by (simp_all add: refund_record_new_def refund_full_def)
  have ready3: "mem_ready s3"
    using mem_run_ready [of ?m s2 "[CallRefund mock_KEY ?ref (clock 3) (clock 4)]" w2] ready2 s3(1)
    by (simp add: pm_run_def)
  obtain r' where r': "ab_orders (mem_abs s3) ?k = Some r'" "pr_amount r' = ?amt"
    using mem_run_history(2) [of ?m s2 "[CallRefund mock_KEY ?ref (clock 3) (clock 4)]" w2] s2 s3(1) abs2 r
    by (force simp: pm_run_def history_def evolves_def order_evolves_def)
  have "ab_refunds_of mock_KEY ?t (mem_abs s3) = {?q}"
    using empty(2) s3(4) abs2 free q by (auto simp: ab_refunds_of_def ran_def)
  then have "pr_status r' = Refunded"
    using agrees_single [OF s3(3) _ q(1) r'(1)] r'(2) q(2) by simp
  moreover have "mem_held mock_KEY ?t s3 = unat (minor ?amt)"
    using held_update [of "mem_abs s2" mock_KEY ?t "(mock_KEY, n)" ?q] s2(2) s3(4) abs2 free h2 q
    by (simp add: mem_held_abs s3(2) held_def refund_safe_def ab_keyed_def held_part_def holds_amount_def)
  ultimately show ?thesis
    using pay s3(1) r'(1) by (auto simp: mock_receipt_def mem_abs_def)
qed

end
