(* ===== verification/Pay_Witness.thy ===== *)
theory Pay_Witness
  imports Pay_Scenarios
begin

text \<open>
  Concrete orders, stores and providers, at which the conditional properties of the payment
  theories are applied; and two interleavings in which the manager breaks a promise: a
  replayed payment notification, and two refunds that check before either reserves.
\<close>

section \<open>A shop with one order\<close>

definition demo_json :: mock_json where
  "demo_json =
     \<lparr>js_read_notify = (\<lambda>raw. if raw = ''P'' then
          Inr \<lparr>mb_out_trade_no = ''A'', mb_status = Paid, mb_transaction_id = Some ''MOCK-A''\<rparr> else Inl ''bad''),
      js_read_refund_notify = (\<lambda>_. Inl ''bad''),
      js_paid_body = (\<lambda>_ _ _. ''P''), js_refund_body = (\<lambda>_ _ _ _ _. ''R'')\<rparr>"

definition demo_order :: create_order where
  "demo_order = \<lparr>co_out_trade_no = ''A'', co_amount = cny 100, co_subject = ''tea''\<rparr>"

definition demo_manager :: "(mem_store, mock_state) pay_manager" where
  "demo_manager = mock_manager demo_json sorted_order"

definition demo_record :: "payment_status \<Rightarrow> payment_record" where
  "demo_record st = \<lparr>pr_provider = mock_KEY, pr_out_trade_no = ''A'', pr_amount = cny 100, pr_subject = ''tea'',
     pr_status = st, pr_notify_payload = None, pr_created_at = 0, pr_paid_at = Some 1\<rparr>"

definition demo_refund_row :: refund_record where
  "demo_refund_row = \<lparr>rr_provider = mock_KEY, rr_out_trade_no = ''A'', rr_out_refund_no = ''R1'',
     rr_refund_id = None, rr_amount = cny 30, rr_status = Succeeded, rr_reason = None, rr_created_at = 2\<rparr>"

definition demo_paid :: mem_store where
  "demo_paid = \<lparr>ms_records = [((mock_KEY, ''A''), demo_record Paid)], ms_refunds = []\<rparr>"

definition demo_refunding :: mem_store where
  "demo_refunding = \<lparr>ms_records = [((mock_KEY, ''A''), demo_record Refunding)],
     ms_refunds = [((mock_KEY, ''R1''), demo_refund_row)]\<rparr>"

definition demo_world :: "payment_status \<Rightarrow> mock_state" where
  "demo_world st = \<lparr>mk_orders = (\<lambda>_. None)(''A'' \<mapsto> \<lparr>mo_status = st, mo_amount = cny 100, mo_refunds = []\<rparr>),
     mk_slow_refunds = (\<lambda>_. None)\<rparr>"

definition demo_request :: notify_request where
  "demo_request = \<lparr>nr_headers = [], nr_body = ''P''\<rparr>"

definition demo_event :: notify_event where
  "demo_event = \<lparr>ne_out_trade_no = ''A'', ne_transaction_id = Some ''MOCK-A'', ne_status = Paid, ne_raw = ''P''\<rparr>"

lemma demo_paid_ready: "mem_ready demo_paid"
  by (auto simp: mem_ready_def mem_invar_def bt_wf_def demo_paid_def refund_safe_def ab_keyed_def mem_abs_def
      held_def demo_record_def split: if_splits)

lemma demo_refunding_ready: "mem_ready demo_refunding"
  by (auto simp: mem_ready_def mem_invar_def bt_wf_def demo_refunding_def refund_safe_def ab_keyed_def mem_abs_def
      held_def held_part_def demo_record_def demo_refund_row_def cny_def split: if_splits)

lemma demo_manager_simps [simp]:
  "pm_store demo_manager = mem_payment_store"
  "pm_provider demo_manager mock_KEY = Inr (mock_provider demo_json sorted_order)"
  by (simp_all add: demo_manager_def)

lemma demo_body_text: "byte_in 0 127 (CHR ''P'')"
  by code_simp

lemma demo_event_verified: "mock_verify_notify demo_json demo_request v = (Inr demo_event, v)"
  by (simp add: mock_verify_notify_def demo_json_def demo_request_def demo_event_def body_str_def demo_body_text)

lemma demo_validates:
  "refund_validate (refund_full ''A'' ''R1'' (cny 100)) = Inr ()"
  "refund_validate (refund_full ''A'' ''R2'' (cny 100)) = Inr ()"
  "create_order_validate demo_order = Inr ()"
  "trim_is_empty ''R1'' = False"
  by code_simp+

lemma demo_check:
  assumes "pm_store m = mem_payment_store" and "pv_key p = mock_KEY" and "n = ''R1'' \<or> n = ''R2''"
  shows "pm_refund_check m p (refund_full ''A'' n (cny 100)) (demo_paid, w) = (Inr None, (demo_paid, w))"
  using demo_paid_ready assms demo_validates(1,2)
  by (intro mem.check_passes [where r = "demo_record Paid"])
    (auto simp: mem_ready_def mem_abs_def demo_paid_def demo_record_def refund_full_def held_def)

section \<open>Witnesses\<close>

lemma refund_completes_once_witness:
  "\<exists>s'. pm_refund demo_manager mock_KEY (refund_full ''A'' ''R1'' (cny 100)) 5 6 (demo_paid, demo_world Paid)
       = (Inr (mock_receipt (refund_full ''A'' ''R1'' (cny 100)) (cny 100) Succeeded),
          (s', snd (mock_refund (refund_full ''A'' ''R1'' (cny 100)) (demo_world Paid))))
     \<and> mem_held mock_KEY ''A'' s' = mem_held mock_KEY ''A'' demo_paid + 100
     \<and> mem_order_agrees mock_KEY ''A'' s'"
proof -
  let ?ref = "refund_full ''A'' ''R1'' (cny 100)"
  have "mock_refund ?ref (demo_world Paid)
      = (Inr (mock_receipt ?ref (cny 100) Succeeded), snd (mock_refund ?ref (demo_world Paid)))"
    using mock_full_refund [of "demo_world Paid" "''A''" "cny 100" "''R1''"] demo_validates(1)
    by (auto simp: demo_world_def mock_is_deferred_def)
  then have acc: "pv_refund (mock_provider demo_json sorted_order) ?ref (demo_world Paid)
      = (Inr (mock_receipt ?ref (cny 100) Succeeded), snd (mock_refund ?ref (demo_world Paid)))"
    by simp
  have "fst (pm_refund_check demo_manager (mock_provider demo_json sorted_order) ?ref (demo_paid, demo_world Paid)) = Inr None"
    by (simp add: demo_check)
  from refund_completes_once [OF demo_manager_simps(1) demo_paid_ready demo_manager_simps(2) this acc, of 5 6]
  show ?thesis by (auto simp: refund_full_def mock_receipt_def cny_def)
qed

lemma declined_refund_releases_money_witness:
  "\<exists>s'. pm_refund demo_manager mock_KEY (refund_full ''A'' ''R1'' (cny 100)) 5 6 (demo_paid, demo_world Closed)
       = (Inl (InvalidRefund ''only a paid order can be refunded''), (s', demo_world Closed))
     \<and> mem_held mock_KEY ''A'' s' = mem_held mock_KEY ''A'' demo_paid"
proof -
  let ?ref = "refund_full ''A'' ''R1'' (cny 100)"
  have dec: "pv_refund (mock_provider demo_json sorted_order) ?ref (demo_world Closed)
      = (Inl (InvalidRefund ''only a paid order can be refunded''), demo_world Closed)"
    using demo_validates(1) by (simp add: mock_refund_def refund_full_def demo_world_def)
  have "fst (pm_refund_check demo_manager (mock_provider demo_json sorted_order) ?ref (demo_paid, demo_world Closed)) = Inr None"
    by (simp add: demo_check)
  from declined_refund_releases_money [OF demo_manager_simps(1) demo_paid_ready demo_manager_simps(2) this dec, of 5 6]
  show ?thesis by (auto simp: refund_full_def)
qed


lemma create_every_branch_witness:
  "pm_create demo_manager mock_KEY demo_order 5 6 (demo_paid, demo_world Paid)
     = (Inl (DuplicateOrder mock_KEY ''A''), (demo_paid, demo_world Paid))"
  using create_every_branch [OF demo_manager_simps(1) demo_paid_ready demo_manager_simps(2),
      of demo_order 5 6 "demo_world Paid"] demo_validates(3)
  by (simp add: demo_order_def demo_paid_def)

lemma pay_then_refund_succeeds_witness:
  "\<exists>receipt s' w'. pay_then_refund demo_manager demo_json demo_order ''R1'' (\<lambda>i. int i) (mem_new, mock_new)
       = (Inr receipt, (s', w')) \<and> rc_status receipt = Succeeded
     \<and> mem_held mock_KEY ''A'' s' = 100"
proof -
  have "json_reads_paid demo_json ''A''"
    by (simp add: json_reads_paid_def demo_json_def mock_paid_notify_body_def demo_body_text)
  then have "\<exists>receipt s' w'. pay_then_refund (mock_manager demo_json sorted_order) demo_json demo_order ''R1'' (\<lambda>i. int i)
        (mem_new, mock_new) = (Inr receipt, (s', w'))
     \<and> rc_status receipt = Succeeded \<and> rc_amount receipt = co_amount demo_order
     \<and> map_option pr_status (map_of (ms_records s') (mock_KEY, co_out_trade_no demo_order)) = Some Refunded
     \<and> mem_held mock_KEY (co_out_trade_no demo_order) s' = unat (minor (co_amount demo_order))"
    by (intro pay_then_refund_succeeds mem_new_ready demo_validates(3))
      (simp_all add: demo_order_def mem_new_def demo_validates(4) mock_is_deferred_def mock_new_def)
  then show ?thesis by (auto simp: demo_manager_def demo_order_def cny_def from_minor_def)
qed

section \<open>Two promises the code does not keep\<close>

text \<open>
  A payment notification delivered again while the order is being refunded is not
  reported as \<open>AlreadyProcessed\<close>: the call takes the edge from \<open>Refunding\<close> back to \<open>Paid\<close>,
  and an order whose status agreed with its refunds no longer does.
\<close>
theorem replayed_payment_undoes_refunding:
  assumes "pm_store m = mem_payment_store" and "mem_ready s" and "pm_provider m k = Inr p"
    and "pv_verify_notify p n w = (Inr ev, w')" and "ne_status ev = Paid"
    and "map_of (ms_records s) (pv_key p, ne_out_trade_no ev) = Some r" and "pr_status r = Refunding"
    and "mem_order_agrees (pv_key p) (ne_out_trade_no ev) s"
  shows "\<exists>s'. pm_handle_notify m k n now (s, w) = (Inr (Processed ev), (s', w'))
     \<and> map_option pr_status (map_of (ms_records s') (pv_key p, ne_out_trade_no ev)) = Some Paid
     \<and> \<not> mem_order_agrees (pv_key p) (ne_out_trade_no ev) s'"
proof -
  let ?k = "(pv_key p, ne_out_trade_no ev)"
  have inv: "mem_invar s" using assms(2) by (simp add: mem_ready_def)
  have rec: "ab_orders (mem_abs s) ?k = Some r" using assms(6) by (simp add: mem_abs_def)
  obtain s' where s': "pm_handle_notify m k n now (s, w) = (Inr (Processed ev), (s', w'))" "mem_invar s'"
    "mem_abs s' = (mem_abs s)\<lparr>ab_orders := (ab_orders (mem_abs s))(?k \<mapsto>
      apply_transition (ne_status ev) (Some (ne_raw ev)) now r)\<rparr>"
    using mem.notify_outcome_known(2) [OF assms(1) inv assms(3,4) rec] assms(5,7) by auto
  let ?row = "\<lambda>s. filter (\<lambda>r. rr_provider r = pv_key p \<and> rr_out_trade_no r = ne_out_trade_no ev) (map snd (ms_refunds s))"
  have "ab_refunds_of (pv_key p) (ne_out_trade_no ev) (mem_abs s')
      = ab_refunds_of (pv_key p) (ne_out_trade_no ev) (mem_abs s)"
    using s'(3) by (simp add: ab_refunds_of_def)
  then have "expected_status amt (?row s') = expected_status amt (?row s)" for amt
    using mem_rows [OF inv, of "pv_key p" "ne_out_trade_no ev"] mem_rows [OF s'(2), of "pv_key p" "ne_out_trade_no ev"]
    by (intro expected_status_perm) auto
  moreover have "map_of (ms_records s') ?k = Some (apply_transition Paid (Some (ne_raw ev)) now r)"
    using s'(3) assms(5) by (simp add: mem_abs_def)
  ultimately show ?thesis
    using s'(1) assms(6,7,8) by (auto simp: mem_order_agrees_def)
qed

lemma replayed_payment_undoes_refunding_witness:
  "\<exists>s'. pm_handle_notify demo_manager mock_KEY demo_request 9 (demo_refunding, demo_world Paid)
       = (Inr (Processed demo_event), (s', demo_world Paid))
     \<and> \<not> mem_order_agrees mock_KEY ''A'' s'"
proof -
  have "mem_order_agrees mock_KEY ''A'' demo_refunding"
    by (simp add: mem_order_agrees_def demo_refunding_def demo_record_def demo_refund_row_def expected_status_def
        succeeded_total_def cny_def from_minor_def)
  then show ?thesis
    using replayed_payment_undoes_refunding [OF demo_manager_simps(1) demo_refunding_ready demo_manager_simps(2),
        of demo_request "demo_world Paid" demo_event "demo_world Paid" "demo_record Refunding" 9]
    by (auto simp: demo_event_verified demo_event_def demo_refunding_def demo_record_def)
qed

text \<open>
  A provider that accepts every refund and settles it later, as a gateway with bank refunds
  does.
\<close>

definition accepting_provider :: "unit provider" where
  "accepting_provider =
     \<lparr>pv_key = mock_KEY, pv_create = (\<lambda>_. op_throw (NotImplemented ''create'')),
      pv_verify_notify = (\<lambda>_. op_throw (NotImplemented ''notify'')),
      pv_query = (\<lambda>_. op_return Paid), pv_close = pv_close_default,
      pv_refund = (\<lambda>r. op_return \<lparr>rc_provider = mock_KEY, rc_out_trade_no = ro_out_trade_no r,
        rc_out_refund_no = ro_out_refund_no r, rc_refund_id = None, rc_amount = ro_amount r,
        rc_status = Processing, rc_raw = []\<rparr>),
      pv_verify_refund_notify = pv_verify_refund_notify_default, pv_query_refund = pv_query_refund_default,
      pv_download_bill = pv_download_bill_default\<rparr>"

text \<open>
  The checks of \<open>refund\<close> and the reservation are separate store calls, so two calls for
  the same order with different refund numbers may both check before either reserves. Then
  both are let through, and the order's refunds hold twice the order's amount: on an order
  over 100 two full refunds are both accepted.
\<close>
theorem concurrent_refunds_over_reserve:
  "let m = pm_with_provider accepting_provider (pm_builder mem_payment_store);
       a = refund_full ''A'' ''R1'' (cny 100);
       b = refund_full ''A'' ''R2'' (cny 100);
       (check_a, z1) = pm_refund_check m accepting_provider a (demo_paid, ());
       (check_b, z2) = pm_refund_check m accepting_provider b z1;
       (res_a, z3) = pm_refund_execute m accepting_provider a 5 6 z2;
       (res_b, z4) = pm_refund_execute m accepting_provider b 7 8 z3
   in check_a = Inr None \<and> check_b = Inr None
      \<and> map_sum id rc_status res_a = Inr Processing \<and> map_sum id rc_status res_b = Inr Processing
      \<and> mem_held mock_KEY ''A'' (fst z4) = 200 \<and> \<not> mem_refund_safe (fst z4)"
  by code_simp

end
