(* ===== verification/Queue_Types.thy ===== *)
theory Queue_Types
  imports Rust_Collections
begin

text \<open>
  Jobs and the queue interface of \<open>phoenix-queue\<close> (\<open>job.rs\<close>, \<open>error.rs\<close>, \<open>backend.rs\<close>,
  \<open>queue.rs\<close>). A payload is a \<open>serde_json::Value\<close> the queue only carries around: it is the
  type variable \<open>'p\<close>. A job id is the 128-bit value of its UUID; ids and clock readings are
  arguments. The trait \<open>QueueBackend\<close> is the record of its methods, and the locale
  \<open>queue_backend\<close> states what a backend promises in terms of the jobs that are in flight.
\<close>

section \<open>Jobs and errors\<close>

type_synonym job_id = "128 word"

record 'p job_envelope =
  je_id :: job_id
  je_name :: string
  je_payload :: 'p
  je_attempts :: u32
  je_max_attempts :: u32
  je_idempotency_key :: "string option"
  je_available_at :: systime
  je_created_at :: systime

definition envelope_new :: "job_id \<Rightarrow> systime \<Rightarrow> string \<Rightarrow> 'p \<Rightarrow> u32 \<Rightarrow> string option \<Rightarrow> 'p job_envelope" where
  "envelope_new i now name payload max_attempts key =
     \<lparr>je_id = i, je_name = name, je_payload = payload, je_attempts = 0,
      je_max_attempts = max max_attempts 1, je_idempotency_key = key,
      je_available_at = now, je_created_at = now\<rparr>"

text \<open>\<open>None\<close> is the panic of \<open>SystemTime + Duration\<close> on overflow.\<close>

definition with_delay :: "duration \<Rightarrow> 'p job_envelope \<Rightarrow> 'p job_envelope option" where
  "with_delay delay job =
     map_option (\<lambda>t. job\<lparr>je_available_at := t\<rparr>) (systime_add (je_created_at job) delay)"

definition can_retry :: "'p job_envelope \<Rightarrow> bool" where
  "can_retry job \<longleftrightarrow> je_attempts job < je_max_attempts job"

definition delay_until_available :: "'p job_envelope \<Rightarrow> systime \<Rightarrow> duration option" where
  "delay_until_available job now =
     (case duration_since (je_available_at job) now of Inr d \<Rightarrow> Some d | Inl _ \<Rightarrow> None)"

text \<open>Times travel between processes in whole seconds since the epoch.\<close>

definition serialize_time :: "systime \<Rightarrow> unit + u64" where
  "serialize_time t =
     (case duration_since t unix_epoch of
        Inr d \<Rightarrow> Inr (of_nat (d div nanos_per_sec))
      | Inl _ \<Rightarrow> Inl ())"

definition deserialize_time :: "u64 \<Rightarrow> systime option" where
  "deserialize_time secs = systime_add unix_epoch (duration_from_secs (unat secs))"

datatype queue_error =
    JobNotFound job_id
  | InvalidState job_id
  | Serialize string
  | Backend string
  | QueuePanic string

datatype job_error = Retryable string | Permanent string

fun is_retryable :: "job_error \<Rightarrow> bool" where
  "is_retryable (Retryable _) = True"
| "is_retryable (Permanent _) = False"

datatype push_result = JobCreated job_id | JobExisting job_id

fun push_job_id :: "push_result \<Rightarrow> job_id" where
  "push_job_id (JobCreated i) = i"
| "push_job_id (JobExisting i) = i"

fun is_created :: "push_result \<Rightarrow> bool" where
  "is_created (JobCreated _) = True"
| "is_created (JobExisting _) = False"

section \<open>Backends\<close>

record ('p, 's) queue_backend =
  qb_push :: "'p job_envelope \<Rightarrow> ('s, queue_error, push_result) op"
  qb_reserve :: "systime \<Rightarrow> ('s, queue_error, 'p job_envelope option) op"
  qb_ack :: "job_id \<Rightarrow> ('s, queue_error, unit) op"
  qb_fail :: "job_id \<Rightarrow> systime \<Rightarrow> ('s, queue_error, unit) op"
  qb_dead_letter :: "job_id \<Rightarrow> ('s, queue_error, unit) op"
  qb_reclaim_expired :: "systime \<Rightarrow> ('s, queue_error, nat) op"
  qb_purge_expired_idempotency :: "('s, queue_error, nat) op"

definition reclaim_expired_default :: "systime \<Rightarrow> ('s, queue_error, nat) op" where
  "reclaim_expired_default now = op_return 0"

definition purge_expired_idempotency_default :: "('s, queue_error, nat) op" where
  "purge_expired_idempotency_default = op_return 0"

section \<open>The facade\<close>

definition DEFAULT_MAX_ATTEMPTS :: u32 where
  "DEFAULT_MAX_ATTEMPTS = 3"

record push_options =
  po_max_attempts :: "u32 option"
  po_idempotency_key :: "string option"
  po_delay :: "duration option"

definition push_options_new :: push_options where
  "push_options_new = \<lparr>po_max_attempts = None, po_idempotency_key = None, po_delay = None\<rparr>"

record ('p, 's) queue =
  q_backend :: "('p, 's) queue_backend"
  q_default_max_attempts :: u32

definition queue_new :: "('p, 's) queue_backend \<Rightarrow> ('p, 's) queue" where
  "queue_new b = \<lparr>q_backend = b, q_default_max_attempts = DEFAULT_MAX_ATTEMPTS\<rparr>"

definition with_default_max_attempts :: "u32 \<Rightarrow> ('p, 's) queue \<Rightarrow> ('p, 's) queue" where
  "with_default_max_attempts n q = q\<lparr>q_default_max_attempts := max n 1\<rparr>"

text \<open>\<open>payload\<close> is the outcome of \<open>serde_json::to_value\<close>, \<open>i\<close> the new id and \<open>now\<close> the clock.\<close>

definition push_json :: "('p, 's) queue \<Rightarrow> job_id \<Rightarrow> systime \<Rightarrow> string \<Rightarrow> string + 'p \<Rightarrow> push_options \<Rightarrow>
    ('s, queue_error, push_result) op" where
  "push_json q i now name payload options =
     (case payload of
        Inl msg \<Rightarrow> op_throw (Serialize msg)
      | Inr v \<Rightarrow>
          let max_attempts = (case po_max_attempts options of None \<Rightarrow> q_default_max_attempts q | Some n \<Rightarrow> n);
              job = envelope_new i now name v max_attempts (po_idempotency_key options)
          in case po_delay options of
               None \<Rightarrow> qb_push (q_backend q) job
             | Some delay \<Rightarrow>
                 (case with_delay delay job of
                    None \<Rightarrow> op_throw (QueuePanic ''overflow when adding duration to instant'')
                  | Some job \<Rightarrow> qb_push (q_backend q) job))"

definition dispatch :: "('p, 's) queue \<Rightarrow> job_id \<Rightarrow> systime \<Rightarrow> string \<Rightarrow> string + 'p \<Rightarrow>
    ('s, queue_error, push_result) op" where
  "dispatch q i now name payload = push_json q i now name payload push_options_new"

definition dispatch_in :: "('p, 's) queue \<Rightarrow> job_id \<Rightarrow> systime \<Rightarrow> string \<Rightarrow> string + 'p \<Rightarrow> duration \<Rightarrow>
    ('s, queue_error, push_result) op" where
  "dispatch_in q i now name payload delay =
     push_json q i now name payload (push_options_new\<lparr>po_delay := Some delay\<rparr>)"

definition dispatch_once :: "('p, 's) queue \<Rightarrow> job_id \<Rightarrow> systime \<Rightarrow> string \<Rightarrow> string + 'p \<Rightarrow> string \<Rightarrow>
    ('s, queue_error, push_result) op" where
  "dispatch_once q i now name payload key =
     push_json q i now name payload (push_options_new\<lparr>po_idempotency_key := Some key\<rparr>)"

section \<open>What a backend promises\<close>

text \<open>
  A job in flight is queued or reserved; a reservation may have a deadline. \<open>ab_reclaim\<close>
  returns the expired reservations, \<open>ab_runnable\<close> says that a job may be handed out.
\<close>

datatype job_state = Queued | Reserved | Dead

record 'p stored_job =
  sj_envelope :: "'p job_envelope"
  sj_state :: job_state
  sj_reserved_until :: "systime option"

definition job_expired :: "systime \<Rightarrow> 'p stored_job \<Rightarrow> bool" where
  "job_expired now st \<longleftrightarrow> sj_state st = Reserved \<and>
     (case sj_reserved_until st of None \<Rightarrow> False | Some deadline \<Rightarrow> deadline \<le> now)"

definition requeued :: "'p stored_job \<Rightarrow> 'p stored_job" where
  "requeued st = st\<lparr>sj_state := Queued, sj_reserved_until := None\<rparr>"

definition ab_reclaim :: "systime \<Rightarrow> (job_id \<rightharpoonup> 'p stored_job) \<Rightarrow> job_id \<rightharpoonup> 'p stored_job" where
  "ab_reclaim now live = (\<lambda>i. map_option (\<lambda>st. if job_expired now st then requeued st else st) (live i))"

definition job_runnable :: "systime \<Rightarrow> 'p stored_job \<Rightarrow> bool" where
  "job_runnable now st \<longleftrightarrow> sj_state st = Queued \<and> je_available_at (sj_envelope st) \<le> now"

definition ab_runnable :: "systime \<Rightarrow> (job_id \<rightharpoonup> 'p stored_job) \<Rightarrow> job_id set" where
  "ab_runnable now live = {i. \<exists>st. ab_reclaim now live i = Some st \<and> job_runnable now st}"

text \<open>The job a reservation hands out, and the record it leaves.\<close>

definition attempted :: "'p job_envelope \<Rightarrow> 'p job_envelope" where
  "attempted e = e\<lparr>je_attempts := w_saturating_add (je_attempts e) 1\<rparr>"

definition reserved_job :: "systime option \<Rightarrow> 'p stored_job \<Rightarrow> 'p stored_job" where
  "reserved_job until st = \<lparr>sj_envelope = attempted (sj_envelope st), sj_state = Reserved, sj_reserved_until = until\<rparr>"

locale queue_backend =
  fixes qb :: "('p, 's) queue_backend"
    and live :: "'s \<Rightarrow> job_id \<rightharpoonup> 'p stored_job"
    and dead :: "'s \<Rightarrow> 'p job_envelope list"
    and tmo :: "'s \<Rightarrow> duration option"
    and fresh :: "job_id \<Rightarrow> 's \<Rightarrow> bool"
    and invar :: "'s \<Rightarrow> bool"
  assumes in_flight: "invar s \<Longrightarrow> live s i = Some st \<Longrightarrow> je_id (sj_envelope st) = i \<and> sj_state st \<noteq> Dead"
    and one_per_key:
      "invar s \<Longrightarrow> live s i = Some st \<Longrightarrow> live s j = Some st' \<Longrightarrow>
         je_idempotency_key (sj_envelope st) = Some k \<Longrightarrow> je_idempotency_key (sj_envelope st') = Some k \<Longrightarrow> i = j"
    and push_known:
      "invar s \<Longrightarrow> live s i = Some st \<Longrightarrow> je_idempotency_key (sj_envelope st) = Some k \<Longrightarrow>
         je_idempotency_key job = Some k \<Longrightarrow> qb_push qb job s = (Inr (JobExisting i), s)"
    and push_new:
      "invar s \<Longrightarrow> fresh (je_id job) s \<Longrightarrow>
         (\<And>i st. live s i = Some st \<Longrightarrow>
            je_idempotency_key job = None \<or> je_idempotency_key (sj_envelope st) \<noteq> je_idempotency_key job) \<Longrightarrow>
         \<exists>s'. qb_push qb job s = (Inr (JobCreated (je_id job)), s') \<and> invar s' \<and> tmo s' = tmo s \<and> dead s' = dead s \<and>
           live s' = (live s)(je_id job \<mapsto> \<lparr>sj_envelope = job, sj_state = Queued, sj_reserved_until = None\<rparr>)"
    and reserve_none:
      "invar s \<Longrightarrow> ab_runnable now (live s) = {} \<Longrightarrow>
         \<exists>s'. qb_reserve qb now s = (Inr None, s') \<and> invar s' \<and> tmo s' = tmo s \<and> dead s' = dead s \<and>
           live s' = ab_reclaim now (live s)"
    and reserve_some:
      "invar s \<Longrightarrow> ab_runnable now (live s) \<noteq> {} \<Longrightarrow>
         (case tmo s of None \<Rightarrow> until = None | Some d \<Rightarrow> systime_add now d \<noteq> None \<and> until = systime_add now d) \<Longrightarrow>
         \<exists>s' i st. i \<in> ab_runnable now (live s) \<and> ab_reclaim now (live s) i = Some st \<and>
           qb_reserve qb now s = (Inr (Some (attempted (sj_envelope st))), s') \<and> invar s' \<and> tmo s' = tmo s \<and>
           dead s' = dead s \<and> live s' = (ab_reclaim now (live s))(i \<mapsto> reserved_job until st)"
    and ack_reserved:
      "invar s \<Longrightarrow> live s i = Some st \<Longrightarrow> sj_state st = Reserved \<Longrightarrow>
         \<exists>s'. qb_ack qb i s = (Inr (), s') \<and> invar s' \<and> tmo s' = tmo s \<and> dead s' = dead s \<and>
           live s' = (live s)(i := None)"
    and fail_reserved:
      "invar s \<Longrightarrow> live s i = Some st \<Longrightarrow> sj_state st = Reserved \<Longrightarrow>
         \<exists>s'. qb_fail qb i t s = (Inr (), s') \<and> invar s' \<and> tmo s' = tmo s \<and> dead s' = dead s \<and>
           live s' = (live s)(i \<mapsto> requeued (st\<lparr>sj_envelope := (sj_envelope st)\<lparr>je_available_at := t\<rparr>\<rparr>))"
    and dead_letter_reserved:
      "invar s \<Longrightarrow> live s i = Some st \<Longrightarrow> sj_state st = Reserved \<Longrightarrow>
         \<exists>s'. qb_dead_letter qb i s = (Inr (), s') \<and> invar s' \<and> tmo s' = tmo s \<and>
           dead s' = dead s @ [sj_envelope st] \<and> live s' = (live s)(i := None)"
    and reclaim_expired_spec:
      "invar s \<Longrightarrow> \<exists>s' n. qb_reclaim_expired qb now s = (Inr n, s') \<and> invar s' \<and> tmo s' = tmo s \<and> dead s' = dead s \<and>
         live s' = ab_reclaim now (live s)"

end
