(* ===== verification/Queue_Memory.thy ===== *)
theory Queue_Memory
  imports Queue_Types
begin

text \<open>
  \<open>MemoryQueue\<close> (\<open>memory.rs\<close>): a table of jobs, a ready queue of ids, the idempotency keys in
  use and the dead letters, behind one mutex. A panic while the mutex is held poisons it,
  and every later method panics; both are values here. \<open>ord\<close> is the order in which the hash
  map of jobs is iterated. The end of the theory discharges the contract \<open>queue_backend\<close>.
\<close>

section \<open>State and operations\<close>

record 'p mem_queue =
  mq_jobs :: "job_id \<rightharpoonup> 'p stored_job"
  mq_ready :: "job_id list"
  mq_idempotency :: "string \<rightharpoonup> job_id"
  mq_dead_letters :: "'p job_envelope list"
  mq_visibility_timeout :: "duration option"
  mq_poisoned :: bool

type_synonym 'p job_order = "(job_id \<rightharpoonup> 'p stored_job) \<Rightarrow> job_id list"

definition mq_new :: "'p mem_queue" where
  "mq_new = \<lparr>mq_jobs = (\<lambda>_. None), mq_ready = [], mq_idempotency = (\<lambda>_. None), mq_dead_letters = [],
     mq_visibility_timeout = None, mq_poisoned = False\<rparr>"

definition with_visibility_timeout :: "duration \<Rightarrow> 'p mem_queue \<Rightarrow> 'p mem_queue" where
  "with_visibility_timeout t q = q\<lparr>mq_visibility_timeout := Some t\<rparr>"

text \<open>\<open>lock().expect(...)\<close>, then the body.\<close>

definition mq_locked :: "('p mem_queue, queue_error, 'a) op \<Rightarrow> ('p mem_queue, queue_error, 'a) op" where
  "mq_locked body q = (if mq_poisoned q then (Inl (QueuePanic ''memory queue poisoned''), q) else body q)"

definition mq_dead_letter_list :: "('p mem_queue, queue_error, 'p job_envelope list) op" where
  "mq_dead_letter_list = mq_locked (\<lambda>q. (Inr (mq_dead_letters q), q))"

definition in_flight_state :: "job_state \<Rightarrow> bool" where
  "in_flight_state s \<longleftrightarrow> s = Queued \<or> s = Reserved"

definition mq_len :: "'p job_order \<Rightarrow> ('p mem_queue, queue_error, nat) op" where
  "mq_len ord = mq_locked (\<lambda>q.
     (Inr (length (filter (\<lambda>i. case mq_jobs q i of None \<Rightarrow> False | Some st \<Rightarrow> in_flight_state (sj_state st))
        (ord (mq_jobs q)))), q))"

definition mq_is_empty :: "'p job_order \<Rightarrow> ('p mem_queue, queue_error, bool) op" where
  "mq_is_empty ord = op_bind (mq_len ord) (\<lambda>n. op_return (n = 0))"

definition mq_enqueue :: "'p job_envelope \<Rightarrow> 'p mem_queue \<Rightarrow> 'p mem_queue" where
  "mq_enqueue job q =
     q\<lparr>mq_ready := mq_ready q @ [je_id job],
       mq_jobs := (mq_jobs q)(je_id job \<mapsto> \<lparr>sj_envelope = job, sj_state = Queued, sj_reserved_until = None\<rparr>)\<rparr>"

definition mq_push :: "'p job_envelope \<Rightarrow> ('p mem_queue, queue_error, push_result) op" where
  "mq_push job = mq_locked (\<lambda>q.
     case je_idempotency_key job of
       None \<Rightarrow> (Inr (JobCreated (je_id job)), mq_enqueue job q)
     | Some key \<Rightarrow>
         (case mq_idempotency q key of
            Some existing_id \<Rightarrow>
              (case mq_jobs q existing_id of
                 Some stored \<Rightarrow>
                   if in_flight_state (sj_state stored) then (Inr (JobExisting existing_id), q)
                   else (Inr (JobCreated (je_id job)),
                         mq_enqueue job (q\<lparr>mq_idempotency := (mq_idempotency q)(key \<mapsto> je_id job)\<rparr>))
               | None \<Rightarrow> (Inr (JobCreated (je_id job)),
                          mq_enqueue job (q\<lparr>mq_idempotency := (mq_idempotency q)(key \<mapsto> je_id job)\<rparr>)))
          | None \<Rightarrow> (Inr (JobCreated (je_id job)),
                     mq_enqueue job (q\<lparr>mq_idempotency := (mq_idempotency q)(key \<mapsto> je_id job)\<rparr>))))"

text \<open>The loop of \<open>reclaim_expired_locked\<close> over the ids it collected.\<close>

definition reclaim_one :: "job_id \<Rightarrow> 'p mem_queue \<Rightarrow> 'p mem_queue" where
  "reclaim_one i q =
     (case mq_jobs q i of
        None \<Rightarrow> q
      | Some st \<Rightarrow> q\<lparr>mq_jobs := (mq_jobs q)(i \<mapsto> requeued st), mq_ready := mq_ready q @ [i]\<rparr>)"

definition reclaim_expired_locked :: "'p job_order \<Rightarrow> systime \<Rightarrow> 'p mem_queue \<Rightarrow> nat \<times> 'p mem_queue" where
  "reclaim_expired_locked ord now q =
     (let expired = filter (\<lambda>i. case mq_jobs q i of None \<Rightarrow> False | Some st \<Rightarrow> job_expired now st) (ord (mq_jobs q))
      in (length expired, fold reclaim_one expired q))"

text \<open>The loop of \<open>reserve\<close>: at most \<open>n\<close> ids are popped from the front of the ready queue.\<close>

fun reserve_scan :: "nat \<Rightarrow> systime \<Rightarrow> ('p mem_queue, queue_error, 'p job_envelope option) op" where
  "reserve_scan 0 now q = (Inr None, q)"
| "reserve_scan (Suc n) now q =
     (case mq_ready q of
        [] \<Rightarrow> (Inr None, q)
      | i # rest \<Rightarrow>
          (case mq_jobs q i of
             None \<Rightarrow> reserve_scan n now (q\<lparr>mq_ready := rest\<rparr>)
           | Some stored \<Rightarrow>
               if sj_state stored \<noteq> Queued then reserve_scan n now (q\<lparr>mq_ready := rest\<rparr>)
               else if je_available_at (sj_envelope stored) > now
               then reserve_scan n now (q\<lparr>mq_ready := rest @ [i]\<rparr>)
               else
                 (case (case mq_visibility_timeout q of
                          None \<Rightarrow> Some None
                        | Some t \<Rightarrow> map_option Some (systime_add now t)) of
                    None \<Rightarrow>
                      (Inl (QueuePanic ''overflow when adding duration to instant''),
                       q\<lparr>mq_ready := rest, mq_jobs := (mq_jobs q)(i \<mapsto> stored\<lparr>sj_state := Reserved\<rparr>),
                         mq_poisoned := True\<rparr>)
                  | Some until \<Rightarrow>
                      (Inr (Some (attempted (sj_envelope stored))),
                       q\<lparr>mq_ready := rest, mq_jobs := (mq_jobs q)(i \<mapsto> reserved_job until stored)\<rparr>))))"

definition mq_reserve :: "'p job_order \<Rightarrow> systime \<Rightarrow> ('p mem_queue, queue_error, 'p job_envelope option) op" where
  "mq_reserve ord now = mq_locked (\<lambda>q.
     let q = snd (reclaim_expired_locked ord now q) in reserve_scan (length (mq_ready q)) now q)"

definition release_key :: "'p stored_job \<Rightarrow> job_id \<Rightarrow> 'p mem_queue \<Rightarrow> 'p mem_queue" where
  "release_key stored i q =
     (case je_idempotency_key (sj_envelope stored) of
        None \<Rightarrow> q
      | Some key \<Rightarrow>
          if mq_idempotency q key = Some i then q\<lparr>mq_idempotency := (mq_idempotency q)(key := None)\<rparr> else q)"

definition mq_ack :: "job_id \<Rightarrow> ('p mem_queue, queue_error, unit) op" where
  "mq_ack i = mq_locked (\<lambda>q.
     case mq_jobs q i of
       None \<Rightarrow> (Inl (JobNotFound i), q)
     | Some stored \<Rightarrow>
         let q = q\<lparr>mq_jobs := (mq_jobs q)(i := None)\<rparr>
         in if sj_state stored \<noteq> Reserved then (Inl (InvalidState i), q)
            else (Inr (), release_key stored i q))"

definition mq_fail :: "job_id \<Rightarrow> systime \<Rightarrow> ('p mem_queue, queue_error, unit) op" where
  "mq_fail i available_at = mq_locked (\<lambda>q.
     case mq_jobs q i of
       None \<Rightarrow> (Inl (JobNotFound i), q)
     | Some stored \<Rightarrow>
         if sj_state stored \<noteq> Reserved then (Inl (InvalidState i), q)
         else (Inr (),
               q\<lparr>mq_ready := mq_ready q @ [i],
                 mq_jobs := (mq_jobs q)(i \<mapsto>
                    requeued (stored\<lparr>sj_envelope := (sj_envelope stored)\<lparr>je_available_at := available_at\<rparr>\<rparr>))\<rparr>))"

definition mq_dead_letter :: "job_id \<Rightarrow> ('p mem_queue, queue_error, unit) op" where
  "mq_dead_letter i = mq_locked (\<lambda>q.
     case mq_jobs q i of
       None \<Rightarrow> (Inl (JobNotFound i), q)
     | Some stored \<Rightarrow>
         let q = q\<lparr>mq_jobs := (mq_jobs q)(i := None)\<rparr>
         in if sj_state stored \<noteq> Reserved then (Inl (InvalidState i), q)
            else let q = release_key stored i q
                 in (Inr (), q\<lparr>mq_dead_letters := mq_dead_letters q @ [sj_envelope stored]\<rparr>))"

definition mq_reclaim_expired :: "'p job_order \<Rightarrow> systime \<Rightarrow> ('p mem_queue, queue_error, nat) op" where
  "mq_reclaim_expired ord now = mq_locked (\<lambda>q. case reclaim_expired_locked ord now q of (n, q) \<Rightarrow> (Inr n, q))"

definition mq_purge_expired_idempotency :: "('p mem_queue, queue_error, nat) op" where
  "mq_purge_expired_idempotency = op_return 0"

definition memory_queue :: "'p job_order \<Rightarrow> ('p, 'p mem_queue) queue_backend" where
  "memory_queue ord =
     \<lparr>qb_push = mq_push, qb_reserve = mq_reserve ord, qb_ack = mq_ack, qb_fail = mq_fail,
      qb_dead_letter = mq_dead_letter, qb_reclaim_expired = mq_reclaim_expired ord,
      qb_purge_expired_idempotency = mq_purge_expired_idempotency\<rparr>"

section \<open>Well-formed queues\<close>

text \<open>
  Every queued job is in the ready queue, every key in use belongs to exactly the job in
  flight that carries it, and the table holds no dead job.
\<close>

definition job_ok :: "'p mem_queue \<Rightarrow> job_id \<Rightarrow> 'p stored_job \<Rightarrow> bool" where
  "job_ok q i st \<longleftrightarrow>
     je_id (sj_envelope st) = i \<and> in_flight_state (sj_state st) \<and>
     (sj_state st = Queued \<longrightarrow> i \<in> set (mq_ready q)) \<and>
     (\<forall>k. je_idempotency_key (sj_envelope st) = Some k \<longrightarrow> mq_idempotency q k = Some i)"

definition mq_wf :: "'p mem_queue \<Rightarrow> bool" where
  "mq_wf q \<longleftrightarrow> \<not> mq_poisoned q \<and> finite (dom (mq_jobs q)) \<and>
     (\<forall>i st. mq_jobs q i = Some st \<longrightarrow> job_ok q i st) \<and>
     (\<forall>k i st. mq_idempotency q k = Some i \<longrightarrow> mq_jobs q i = Some st \<longrightarrow>
        je_idempotency_key (sj_envelope st) = Some k)"

definition mq_fresh :: "job_id \<Rightarrow> 'p mem_queue \<Rightarrow> bool" where
  "mq_fresh i q \<longleftrightarrow> i \<notin> dom (mq_jobs q) \<and> i \<notin> ran (mq_idempotency q)"

lemma mq_locked_wf [simp]: "mq_wf q \<Longrightarrow> mq_locked body q = body q"
  by (simp add: mq_locked_def mq_wf_def)

lemma mq_wf_job:
  assumes "mq_wf q" and "mq_jobs q i = Some st"
  shows "je_id (sj_envelope st) = i" and "in_flight_state (sj_state st)"
    and "sj_state st = Queued \<Longrightarrow> i \<in> set (mq_ready q)"
    and "je_idempotency_key (sj_envelope st) = Some k \<Longrightarrow> mq_idempotency q k = Some i"
proof -
  have "job_ok q i st" using assms unfolding mq_wf_def by blast
  then show "je_id (sj_envelope st) = i" and "in_flight_state (sj_state st)"
    and "sj_state st = Queued \<Longrightarrow> i \<in> set (mq_ready q)"
    and "je_idempotency_key (sj_envelope st) = Some k \<Longrightarrow> mq_idempotency q k = Some i"
    by (simp_all add: job_ok_def)
qed

lemma mq_wf_key:
  "mq_wf q \<Longrightarrow> mq_idempotency q k = Some i \<Longrightarrow> mq_jobs q i = Some st \<Longrightarrow> je_idempotency_key (sj_envelope st) = Some k"
  unfolding mq_wf_def by blast

lemma mq_wf_ok: "mq_wf q \<Longrightarrow> mq_jobs q i = Some st \<Longrightarrow> job_ok q i st"
  unfolding mq_wf_def by blast

lemma mq_wfI:
  assumes "\<not> mq_poisoned q" and "finite (dom (mq_jobs q))" and "\<And>i st. mq_jobs q i = Some st \<Longrightarrow> job_ok q i st"
    and "\<And>k i st. mq_idempotency q k = Some i \<Longrightarrow> mq_jobs q i = Some st \<Longrightarrow> je_idempotency_key (sj_envelope st) = Some k"
  shows "mq_wf q"
  unfolding mq_wf_def using assms by blast

lemma mq_wf_plain: "mq_wf q \<Longrightarrow> \<not> mq_poisoned q" "mq_wf q \<Longrightarrow> finite (dom (mq_jobs q))"
  unfolding mq_wf_def by blast+

lemma mq_new_wf: "mq_wf mq_new" and "mq_wf (with_visibility_timeout t mq_new)"
  by (simp_all add: mq_wf_def mq_new_def with_visibility_timeout_def)

lemma mq_push_known:
  assumes wf: "mq_wf q" and "mq_jobs q i = Some st" and "je_idempotency_key (sj_envelope st) = Some k"
    and "je_idempotency_key job = Some k"
  shows "mq_push job q = (Inr (JobExisting i), q)"
  using mq_wf_job [OF wf assms(2)] assms by (simp add: mq_push_def)

lemma mq_enqueue_wf:
  assumes wf: "mq_wf q" and "mq_fresh (je_id job) q"
    and key: "case je_idempotency_key job of None \<Rightarrow> idem = mq_idempotency q
      | Some k \<Rightarrow> idem = (mq_idempotency q)(k \<mapsto> je_id job)"
    and other: "\<And>i st k. mq_jobs q i = Some st \<Longrightarrow> je_idempotency_key job = Some k \<Longrightarrow>
      je_idempotency_key (sj_envelope st) \<noteq> Some k"
  shows "mq_wf (mq_enqueue job (q\<lparr>mq_idempotency := idem\<rparr>))"
proof (rule mq_wfI)
  let ?q = "mq_enqueue job (q\<lparr>mq_idempotency := idem\<rparr>)"
  have new: "mq_jobs q (je_id job) = None" and unused: "\<And>k. mq_idempotency q k \<noteq> Some (je_id job)"
    using assms(2) by (auto simp: mq_fresh_def ran_def)
  show "\<not> mq_poisoned ?q" "finite (dom (mq_jobs ?q))" using mq_wf_plain [OF wf] by (simp_all add: mq_enqueue_def)
  fix i st assume job: "mq_jobs ?q i = Some st"
  show "job_ok ?q i st"
  proof (cases "i = je_id job")
    case True
    then show ?thesis using job key by (auto simp: mq_enqueue_def job_ok_def in_flight_state_def split: option.splits)
  next
    case False
    then have old: "mq_jobs q i = Some st" using job by (simp add: mq_enqueue_def)
    have "idem k = Some i" if "je_idempotency_key (sj_envelope st) = Some k" for k
      using mq_wf_job(4) [OF wf old that] other [OF old] that key by (auto split: option.splits)
    then show ?thesis using mq_wf_ok [OF wf old] by (auto simp: mq_enqueue_def job_ok_def)
  qed
  fix k assume "mq_idempotency ?q k = Some i"
  then show "je_idempotency_key (sj_envelope st) = Some k"
    using job key unused mq_wf_key [OF wf, of k i st]
    by (auto simp: mq_enqueue_def split: option.splits if_splits)
qed

lemma mq_push_new:
  assumes wf: "mq_wf q" and "mq_fresh (je_id job) q"
    and other: "\<And>i st. mq_jobs q i = Some st \<Longrightarrow>
      je_idempotency_key job = None \<or> je_idempotency_key (sj_envelope st) \<noteq> je_idempotency_key job"
  shows "\<exists>idem. mq_push job q = (Inr (JobCreated (je_id job)), mq_enqueue job (q\<lparr>mq_idempotency := idem\<rparr>))
     \<and> mq_wf (mq_enqueue job (q\<lparr>mq_idempotency := idem\<rparr>))"
proof (cases "je_idempotency_key job")
  case None
  then show ?thesis
    using mq_enqueue_wf [OF wf assms(2), of "mq_idempotency q"] other wf
    by (intro exI [of _ "mq_idempotency q"]) (simp add: mq_push_def)
next
  case (Some k)
  have "mq_jobs q i = None" if "mq_idempotency q k = Some i" for i
    using mq_wf_key [OF wf that] other Some by (cases "mq_jobs q i") auto
  then have "mq_push job q = (Inr (JobCreated (je_id job)),
      mq_enqueue job (q\<lparr>mq_idempotency := (mq_idempotency q)(k \<mapsto> je_id job)\<rparr>))"
    using wf Some by (auto simp: mq_push_def split: option.splits)
  moreover have "mq_wf (mq_enqueue job (q\<lparr>mq_idempotency := (mq_idempotency q)(k \<mapsto> je_id job)\<rparr>))"
    using mq_enqueue_wf [OF wf assms(2)] other Some by auto
  ultimately show ?thesis by blast
qed

section \<open>Reclaiming and reserving\<close>

lemma fold_reclaim_other:
  "mq_jobs (fold reclaim_one xs q) i = (if i \<in> set xs then map_option requeued (mq_jobs q i) else mq_jobs q i)"
  if "distinct xs"
  using that by (induction xs arbitrary: q) (auto simp: reclaim_one_def split: option.splits)

lemma fold_reclaim_fields [simp]:
  "mq_idempotency (fold reclaim_one xs q) = mq_idempotency q"
  "mq_dead_letters (fold reclaim_one xs q) = mq_dead_letters q"
  "mq_visibility_timeout (fold reclaim_one xs q) = mq_visibility_timeout q"
  "mq_poisoned (fold reclaim_one xs q) = mq_poisoned q"
  by (induction xs arbitrary: q) (auto simp: reclaim_one_def split: option.splits)

lemma fold_reclaim_ready:
  "mq_ready (fold reclaim_one xs q) = mq_ready q @ filter (\<lambda>i. i \<in> dom (mq_jobs q)) xs" if "distinct xs"
  using that
proof (induction xs arbitrary: q)
  case (Cons x xs)
  have "dom (mq_jobs (reclaim_one x q)) = dom (mq_jobs q)"
    by (auto simp: reclaim_one_def split: option.splits)
  then show ?case using Cons by (auto simp: reclaim_one_def split: option.splits)
qed simp

lemma reclaim_locked:
  assumes ord: "enumerates ord" and wf: "mq_wf q"
    and run: "snd (reclaim_expired_locked ord now q) = q'"
  shows "mq_jobs q' = ab_reclaim now (mq_jobs q)" and "mq_wf q'"
    and "mq_dead_letters q' = mq_dead_letters q" and "mq_visibility_timeout q' = mq_visibility_timeout q"
    and "mq_idempotency q' = mq_idempotency q"
    and "\<exists>xs. mq_ready q' = mq_ready q @ xs \<and> set xs = {i. \<exists>st. mq_jobs q i = Some st \<and> job_expired now st} \<and> distinct xs"
proof -
  let ?E = "\<lambda>i. case mq_jobs q i of None \<Rightarrow> False | Some st \<Rightarrow> job_expired now st"
  let ?xs = "filter ?E (ord (mq_jobs q))"
  have fin: "finite (dom (mq_jobs q))" using wf by (simp add: mq_wf_def)
  have d: "distinct ?xs" using enumerates_distinct [OF ord fin] by simp
  have xs: "set ?xs = {i. \<exists>st. mq_jobs q i = Some st \<and> job_expired now st}"
    using enumerates_set [OF ord fin] by (auto split: option.splits)
  have q': "q' = fold reclaim_one ?xs q" by (simp add: run [symmetric] reclaim_expired_locked_def Let_def)
  have ready: "mq_ready q' = mq_ready q @ ?xs"
  proof -
    have "filter (\<lambda>i. i \<in> dom (mq_jobs q)) ?xs = ?xs" by (rule filter_True) (use xs in auto)
    then show ?thesis using fold_reclaim_ready [OF d, of q] q' by simp
  qed
  show jobs: "mq_jobs q' = ab_reclaim now (mq_jobs q)"
  proof
    fix i
    have "mq_jobs q' i = (if i \<in> {i. \<exists>st. mq_jobs q i = Some st \<and> job_expired now st}
        then map_option requeued (mq_jobs q i) else mq_jobs q i)"
      using fold_reclaim_other [OF d, of q i] by (simp only: q' xs)
    then show "mq_jobs q' i = ab_reclaim now (mq_jobs q) i"
      by (cases "mq_jobs q i") (auto simp: ab_reclaim_def)
  qed
  show fields: "mq_dead_letters q' = mq_dead_letters q" "mq_visibility_timeout q' = mq_visibility_timeout q"
    "mq_idempotency q' = mq_idempotency q"
    by (simp_all add: q')
  show "\<exists>xs. mq_ready q' = mq_ready q @ xs \<and> set xs = {i. \<exists>st. mq_jobs q i = Some st \<and> job_expired now st} \<and> distinct xs"
    using ready xs d by blast
  show "mq_wf q'"
  proof (rule mq_wfI)
    have "dom (mq_jobs q') = dom (mq_jobs q)" by (auto simp: jobs ab_reclaim_def)
    then show "\<not> mq_poisoned q'" "finite (dom (mq_jobs q'))" using mq_wf_plain [OF wf] by (simp_all add: q')
    fix i st' assume "mq_jobs q' i = Some st'"
    then obtain st where st: "mq_jobs q i = Some st" "st' = (if job_expired now st then requeued st else st)"
      by (auto simp: jobs ab_reclaim_def)
    have "i \<in> set ?xs" if "job_expired now st" using st(1) that xs by blast
    then show "job_ok q' i st'"
      using mq_wf_ok [OF wf st(1)] st(2)
      by (auto simp: job_ok_def requeued_def in_flight_state_def ready fields(3))
    fix k assume "mq_idempotency q' k = Some i"
    then show "je_idempotency_key (sj_envelope st') = Some k"
      using mq_wf_key [OF wf _ st(1), of k] st(2) by (simp add: fields(3) requeued_def)
  qed
qed

text \<open>
  What one scan of the ready queue does: it hands out the first runnable id, and jobs that
  are not handed out keep their place in flight.
\<close>

definition scan_hit :: "systime \<Rightarrow> 'p mem_queue \<Rightarrow> job_id \<Rightarrow> bool" where
  "scan_hit now q i = (case mq_jobs q i of None \<Rightarrow> False | Some st \<Rightarrow> job_runnable now st)"

lemma reserve_scan_skip:
  assumes "n \<le> length (mq_ready q)" and "list_all (\<lambda>i. \<not> scan_hit now q i) (take n (mq_ready q))"
  shows "reserve_scan (n + m) now q = reserve_scan m now (q\<lparr>mq_ready := drop n (mq_ready q)
     @ filter (\<lambda>i. case mq_jobs q i of None \<Rightarrow> False | Some st \<Rightarrow> sj_state st = Queued) (take n (mq_ready q))\<rparr>)"
  using assms
proof (induction n arbitrary: q)
  case (Suc n)
  then obtain i rest where r: "mq_ready q = i # rest" by (cases "mq_ready q") auto
  have miss: "\<not> scan_hit now q i" using Suc.prems(2) r by simp
  have tail: "list_all (\<lambda>i. \<not> scan_hit now q i) (take n rest)" using Suc.prems(2) r by simp
  let ?drop = "q\<lparr>mq_ready := rest\<rparr>" and ?rot = "q\<lparr>mq_ready := rest @ [i]\<rparr>"
  have same: "scan_hit now (q\<lparr>mq_ready := xs\<rparr>) = scan_hit now q" for xs by (rule ext) (simp add: scan_hit_def)
  have len: "n \<le> length rest" using Suc.prems(1) r by simp
  show ?case
  proof (cases "case mq_jobs q i of None \<Rightarrow> False | Some st \<Rightarrow> sj_state st = Queued")
    case True
    then have "reserve_scan (Suc n + m) now q = reserve_scan (n + m) now ?rot"
      using miss r by (auto simp: scan_hit_def job_runnable_def not_le split: option.splits)
    then show ?thesis using Suc.IH [of ?rot] True r len tail same by (simp add: take_append)
  next
    case False
    then have "reserve_scan (Suc n + m) now q = reserve_scan (n + m) now ?drop"
      using r by (auto split: option.splits)
    then show ?thesis using Suc.IH [of ?drop] False r len tail same by simp
  qed
qed simp

definition still_queued :: "'p mem_queue \<Rightarrow> job_id list \<Rightarrow> job_id list" where
  "still_queued q xs = filter (\<lambda>i. case mq_jobs q i of None \<Rightarrow> False | Some st \<Rightarrow> sj_state st = Queued) xs"

lemma reserve_scan_none:
  assumes "list_all (\<lambda>i. \<not> scan_hit now q i) (mq_ready q)"
  shows "reserve_scan (length (mq_ready q)) now q = (Inr None, q\<lparr>mq_ready := still_queued q (mq_ready q)\<rparr>)"
  using reserve_scan_skip [of "length (mq_ready q)" q now 0] assms by (simp add: still_queued_def)

lemma reserve_scan_some:
  assumes "mq_ready q = xs @ i # ys" and "list_all (\<lambda>i. \<not> scan_hit now q i) xs"
    and "mq_jobs q i = Some st" and "job_runnable now st"
    and "case mq_visibility_timeout q of None \<Rightarrow> until = None
      | Some d \<Rightarrow> systime_add now d \<noteq> None \<and> until = systime_add now d"
  shows "reserve_scan (length (mq_ready q)) now q = (Inr (Some (attempted (sj_envelope st))),
     q\<lparr>mq_ready := ys @ still_queued q xs, mq_jobs := (mq_jobs q)(i \<mapsto> reserved_job until st)\<rparr>)"
proof -
  let ?q = "q\<lparr>mq_ready := i # ys @ still_queued q xs\<rparr>"
  have "reserve_scan (length xs + Suc (length ys)) now q = reserve_scan (Suc (length ys)) now ?q"
    using reserve_scan_skip [of "length xs" q now "Suc (length ys)"] assms(1,2) by (simp add: still_queued_def)
  also have "\<dots> = (Inr (Some (attempted (sj_envelope st))),
     q\<lparr>mq_ready := ys @ still_queued q xs, mq_jobs := (mq_jobs q)(i \<mapsto> reserved_job until st)\<rparr>)"
    using assms(3-5) by (auto simp: job_runnable_def split: option.splits)
  finally show ?thesis using assms(1) by simp
qed

lemma ready_first_hit:
  assumes wf: "mq_wf q" and "mq_jobs q i = Some st" and "job_runnable now st"
  shows "\<exists>xs j ys. mq_ready q = xs @ j # ys \<and> scan_hit now q j \<and> list_all (\<lambda>i. \<not> scan_hit now q i) xs"
proof -
  have "i \<in> set (mq_ready q)" using mq_wf_job(3) [OF wf assms(2)] assms(3) by (simp add: job_runnable_def)
  moreover have "scan_hit now q i" using assms(2,3) by (simp add: scan_hit_def)
  ultimately have "\<exists>i \<in> set (mq_ready q). scan_hit now q i" by blast
  then show ?thesis using split_list_first_propE [of "mq_ready q" "scan_hit now q"] by (metis list_all_iff)
qed

lemma mq_wf_requeue:
  assumes wf: "mq_wf q" and "\<And>i st. mq_jobs q i = Some st \<Longrightarrow> sj_state st = Queued \<Longrightarrow> i \<in> set r"
  shows "mq_wf (q\<lparr>mq_ready := r\<rparr>)"
proof (rule mq_wfI)
  fix i st assume "mq_jobs (q\<lparr>mq_ready := r\<rparr>) i = Some st"
  then show "job_ok (q\<lparr>mq_ready := r\<rparr>) i st"
    using mq_wf_ok [OF wf, of i st] assms(2) by (auto simp: job_ok_def)
qed (use mq_wf_plain [OF wf] mq_wf_key [OF wf] in auto)

lemma mq_wf_update:
  assumes wf: "mq_wf q" and "mq_jobs q i = Some st" and "je_id (sj_envelope st') = i" and "in_flight_state (sj_state st')"
    and "je_idempotency_key (sj_envelope st') = je_idempotency_key (sj_envelope st)"
    and "sj_state st' = Queued \<Longrightarrow> i \<in> set r"
    and "\<And>j st. j \<noteq> i \<Longrightarrow> mq_jobs q j = Some st \<Longrightarrow> sj_state st = Queued \<Longrightarrow> j \<in> set r"
  shows "mq_wf (q\<lparr>mq_ready := r, mq_jobs := (mq_jobs q)(i \<mapsto> st')\<rparr>)"
proof (rule mq_wfI)
  let ?q = "q\<lparr>mq_ready := r, mq_jobs := (mq_jobs q)(i \<mapsto> st')\<rparr>"
  fix j st'' assume j: "mq_jobs ?q j = Some st''"
  show "job_ok ?q j st''"
    using j mq_wf_ok [OF wf, of j st''] mq_wf_ok [OF wf assms(2)] assms(3-7)
    by (cases "j = i") (auto simp: job_ok_def)
  fix k assume "mq_idempotency ?q k = Some j"
  then show "je_idempotency_key (sj_envelope st'') = Some k"
    using j mq_wf_key [OF wf, of k j] assms(2,5) by (auto split: if_splits)
qed (use mq_wf_plain [OF wf] in auto)

lemma mq_wf_remove:
  assumes wf: "mq_wf q" and "mq_jobs q i = Some st"
  shows "mq_wf (release_key st i (q\<lparr>mq_jobs := (mq_jobs q)(i := None)\<rparr>))"
proof (rule mq_wfI)
  let ?q = "release_key st i (q\<lparr>mq_jobs := (mq_jobs q)(i := None)\<rparr>)"
  have jobs: "mq_jobs ?q = (mq_jobs q)(i := None)" "mq_ready ?q = mq_ready q" "mq_poisoned ?q = mq_poisoned q"
    by (auto simp: release_key_def split: option.splits)
  have idem: "mq_idempotency ?q k = Some j \<longleftrightarrow> mq_idempotency q k = Some j \<and> je_idempotency_key (sj_envelope st) \<noteq> Some k"
    if "j \<noteq> i" for j k
    using that mq_wf_job(4) [OF wf assms(2)] by (auto simp: release_key_def split: option.splits if_splits)
  fix j st' assume j: "mq_jobs ?q j = Some st'"
  then have ne: "j \<noteq> i" and old: "mq_jobs q j = Some st'" by (auto simp: jobs split: if_splits)
  have "je_idempotency_key (sj_envelope st) \<noteq> Some k" if "je_idempotency_key (sj_envelope st') = Some k" for k
    using mq_wf_job(4) [OF wf old that] mq_wf_job(4) [OF wf assms(2), of k] ne by auto
  then show "job_ok ?q j st'" using mq_wf_ok [OF wf old] idem [OF ne] by (auto simp: job_ok_def jobs)
  fix k assume "mq_idempotency ?q k = Some j"
  then show "je_idempotency_key (sj_envelope st') = Some k" using idem [OF ne] mq_wf_key [OF wf _ old] by blast
qed (use mq_wf_plain [OF wf] in \<open>auto simp: release_key_def split: option.splits\<close>)

section \<open>The contract\<close>

lemma mq_reserve_none:
  assumes ord: "enumerates ord" and wf: "mq_wf q" and none: "ab_runnable now (mq_jobs q) = {}"
  shows "\<exists>q'. mq_reserve ord now q = (Inr None, q') \<and> mq_wf q' \<and> mq_visibility_timeout q' = mq_visibility_timeout q
    \<and> mq_dead_letters q' = mq_dead_letters q \<and> mq_jobs q' = ab_reclaim now (mq_jobs q)"
proof -
  obtain n q1 where q1: "reclaim_expired_locked ord now q = (n, q1)" by fastforce
  note r = reclaim_locked [OF ord wf, of now q1, unfolded q1, simplified]
  have miss: "list_all (\<lambda>i. \<not> scan_hit now q1 i) (mq_ready q1)"
    using none by (auto simp: list_all_iff scan_hit_def ab_runnable_def r(1) split: option.splits)
  have "mq_wf (q1\<lparr>mq_ready := still_queued q1 (mq_ready q1)\<rparr>)"
    by (rule mq_wf_requeue [OF r(2)]) (use mq_wf_job(3) [OF r(2)] in \<open>auto simp: still_queued_def\<close>)
  then show ?thesis
    using reserve_scan_none [OF miss] r q1 wf by (simp add: mq_reserve_def)
qed

lemma mq_reserve_some:
  assumes ord: "enumerates ord" and wf: "mq_wf q" and some: "ab_runnable now (mq_jobs q) \<noteq> {}"
    and until: "case mq_visibility_timeout q of None \<Rightarrow> until = None
      | Some d \<Rightarrow> systime_add now d \<noteq> None \<and> until = systime_add now d"
  shows "\<exists>q' i st. i \<in> ab_runnable now (mq_jobs q) \<and> ab_reclaim now (mq_jobs q) i = Some st
    \<and> mq_reserve ord now q = (Inr (Some (attempted (sj_envelope st))), q') \<and> mq_wf q'
    \<and> mq_visibility_timeout q' = mq_visibility_timeout q \<and> mq_dead_letters q' = mq_dead_letters q
    \<and> mq_jobs q' = (ab_reclaim now (mq_jobs q))(i \<mapsto> reserved_job until st)"
proof -
  obtain n q1 where q1: "reclaim_expired_locked ord now q = (n, q1)" by fastforce
  note r = reclaim_locked [OF ord wf, of now q1, unfolded q1, simplified]
  obtain i0 st0 where "mq_jobs q1 i0 = Some st0" "job_runnable now st0"
    using some by (auto simp: ab_runnable_def r(1))
  then obtain xs i ys where split: "mq_ready q1 = xs @ i # ys" "scan_hit now q1 i"
    "list_all (\<lambda>i. \<not> scan_hit now q1 i) xs"
    using ready_first_hit [OF r(2)] by blast
  then obtain st where st: "mq_jobs q1 i = Some st" "job_runnable now st"
    by (auto simp: scan_hit_def split: option.splits)
  have run: "mq_reserve ord now q = (Inr (Some (attempted (sj_envelope st))),
      q1\<lparr>mq_ready := ys @ still_queued q1 xs, mq_jobs := (mq_jobs q1)(i \<mapsto> reserved_job until st)\<rparr>)"
    using reserve_scan_some [OF split(1,3) st, of until] until r(4) q1 wf by (simp add: mq_reserve_def)
  have "mq_wf (q1\<lparr>mq_ready := ys @ still_queued q1 xs, mq_jobs := (mq_jobs q1)(i \<mapsto> reserved_job until st)\<rparr>)"
  proof (rule mq_wf_update [OF r(2) st(1)])
    fix j st' assume "j \<noteq> i" "mq_jobs q1 j = Some st'" "sj_state st' = Queued"
    then show "j \<in> set (ys @ still_queued q1 xs)"
      using mq_wf_job(3) [OF r(2), of j st'] split(1) by (auto simp: still_queued_def)
  qed (use mq_wf_job(1) [OF r(2) st(1)] in \<open>auto simp: reserved_job_def attempted_def in_flight_state_def\<close>)
  then show ?thesis
    using run st r by (intro exI [of _ i] exI [of _ st] exI) (auto simp: ab_runnable_def)
qed

lemma release_key_fields [simp]:
  "mq_jobs (release_key st i q) = mq_jobs q" "mq_dead_letters (release_key st i q) = mq_dead_letters q"
  "mq_visibility_timeout (release_key st i q) = mq_visibility_timeout q"
  "mq_ready (release_key st i q) = mq_ready q"
  by (auto simp: release_key_def split: option.splits)

lemma mq_wf_dead_letters [simp]: "mq_wf (q\<lparr>mq_dead_letters := xs\<rparr>) = mq_wf q"
  by (simp add: mq_wf_def job_ok_def)

lemma memory_queue_backend:
  assumes enumerates: "enumerates ord"
  shows "queue_backend (memory_queue ord) mq_jobs mq_dead_letters mq_visibility_timeout mq_fresh mq_wf"
proof unfold_locales
  fix q :: "'a mem_queue" assume wf: "mq_wf q"
  fix i j st st' k job now until
  show "mq_jobs q i = Some st \<Longrightarrow> je_id (sj_envelope st) = i \<and> sj_state st \<noteq> Dead"
    using mq_wf_job [OF wf, of i st] by (auto simp: in_flight_state_def)
  show "mq_jobs q i = Some st \<Longrightarrow> mq_jobs q j = Some st' \<Longrightarrow> je_idempotency_key (sj_envelope st) = Some k \<Longrightarrow>
      je_idempotency_key (sj_envelope st') = Some k \<Longrightarrow> i = j"
    using mq_wf_job(4) [OF wf, of i st k] mq_wf_job(4) [OF wf, of j st' k] by simp
  show "mq_jobs q i = Some st \<Longrightarrow> je_idempotency_key (sj_envelope st) = Some k \<Longrightarrow> je_idempotency_key job = Some k \<Longrightarrow>
      qb_push (memory_queue ord) job q = (Inr (JobExisting i), q)"
    using mq_push_known [OF wf] by (simp add: memory_queue_def)
  show "mq_fresh (je_id job) q \<Longrightarrow>
      (\<And>i st. mq_jobs q i = Some st \<Longrightarrow>
         je_idempotency_key job = None \<or> je_idempotency_key (sj_envelope st) \<noteq> je_idempotency_key job) \<Longrightarrow>
      \<exists>q'. qb_push (memory_queue ord) job q = (Inr (JobCreated (je_id job)), q') \<and> mq_wf q' \<and>
        mq_visibility_timeout q' = mq_visibility_timeout q \<and> mq_dead_letters q' = mq_dead_letters q \<and>
        mq_jobs q' = (mq_jobs q)(je_id job \<mapsto> \<lparr>sj_envelope = job, sj_state = Queued, sj_reserved_until = None\<rparr>)"
    using mq_push_new [OF wf, of job] by (fastforce simp: memory_queue_def mq_enqueue_def)
  show "ab_runnable now (mq_jobs q) = {} \<Longrightarrow>
      \<exists>q'. qb_reserve (memory_queue ord) now q = (Inr None, q') \<and> mq_wf q' \<and>
        mq_visibility_timeout q' = mq_visibility_timeout q \<and> mq_dead_letters q' = mq_dead_letters q \<and>
        mq_jobs q' = ab_reclaim now (mq_jobs q)"
    using mq_reserve_none [OF enumerates wf] by (simp add: memory_queue_def)
  show "ab_runnable now (mq_jobs q) \<noteq> {} \<Longrightarrow>
      (case mq_visibility_timeout q of None \<Rightarrow> until = None | Some d \<Rightarrow> systime_add now d \<noteq> None \<and> until = systime_add now d) \<Longrightarrow>
      \<exists>q' i st. i \<in> ab_runnable now (mq_jobs q) \<and> ab_reclaim now (mq_jobs q) i = Some st \<and>
        qb_reserve (memory_queue ord) now q = (Inr (Some (attempted (sj_envelope st))), q') \<and> mq_wf q' \<and>
        mq_visibility_timeout q' = mq_visibility_timeout q \<and> mq_dead_letters q' = mq_dead_letters q \<and>
        mq_jobs q' = (ab_reclaim now (mq_jobs q))(i \<mapsto> reserved_job until st)"
    using mq_reserve_some [OF enumerates wf] by (simp add: memory_queue_def)
  show "\<exists>q'. qb_ack (memory_queue ord) i q = (Inr (), q') \<and> mq_wf q' \<and>
      mq_visibility_timeout q' = mq_visibility_timeout q \<and> mq_dead_letters q' = mq_dead_letters q \<and>
      mq_jobs q' = (mq_jobs q)(i := None)" if "mq_jobs q i = Some st" "sj_state st = Reserved"
    using mq_wf_remove [OF wf that(1)] that wf by (simp add: memory_queue_def mq_ack_def)
  show "\<exists>q'. qb_dead_letter (memory_queue ord) i q = (Inr (), q') \<and> mq_wf q' \<and>
      mq_visibility_timeout q' = mq_visibility_timeout q \<and> mq_dead_letters q' = mq_dead_letters q @ [sj_envelope st] \<and>
      mq_jobs q' = (mq_jobs q)(i := None)" if "mq_jobs q i = Some st" "sj_state st = Reserved"
    using mq_wf_remove [OF wf that(1)] that wf by (simp add: memory_queue_def mq_dead_letter_def Let_def)
  show "\<exists>q'. qb_fail (memory_queue ord) i t q = (Inr (), q') \<and> mq_wf q' \<and>
      mq_visibility_timeout q' = mq_visibility_timeout q \<and> mq_dead_letters q' = mq_dead_letters q \<and>
      mq_jobs q' = (mq_jobs q)(i \<mapsto> requeued (st\<lparr>sj_envelope := (sj_envelope st)\<lparr>je_available_at := t\<rparr>\<rparr>))"
    if st: "mq_jobs q i = Some st" "sj_state st = Reserved" for t
  proof -
    let ?st = "requeued (st\<lparr>sj_envelope := (sj_envelope st)\<lparr>je_available_at := t\<rparr>\<rparr>)"
    have "mq_wf (q\<lparr>mq_ready := mq_ready q @ [i], mq_jobs := (mq_jobs q)(i \<mapsto> ?st)\<rparr>)"
      by (rule mq_wf_update [OF wf st(1)])
        (use mq_wf_job [OF wf st(1)] mq_wf_job(3) [OF wf] in \<open>auto simp: requeued_def in_flight_state_def\<close>)
    then show ?thesis using st wf by (simp add: memory_queue_def mq_fail_def)
  qed
  show "\<exists>q' n. qb_reclaim_expired (memory_queue ord) now q = (Inr n, q') \<and> mq_wf q' \<and>
      mq_visibility_timeout q' = mq_visibility_timeout q \<and> mq_dead_letters q' = mq_dead_letters q \<and>
      mq_jobs q' = ab_reclaim now (mq_jobs q)"
    using reclaim_locked [OF enumerates wf, of now "snd (reclaim_expired_locked ord now q)"] wf
    by (cases "reclaim_expired_locked ord now q") (simp add: memory_queue_def mq_reclaim_expired_def)
qed

text \<open>Whatever the iteration order of the hash map.\<close>

locale hash_order =
  fixes ord :: "'p job_order"
  assumes enumerates: "enumerates ord"

sublocale hash_order \<subseteq> queue_backend "memory_queue ord" mq_jobs mq_dead_letters mq_visibility_timeout mq_fresh mq_wf
  by (rule memory_queue_backend [OF enumerates])

interpretation mq: hash_order sorted_order
  by unfold_locales (rule enumerates_sorted_order)

end
