(* ===== verification/Queue_Worker.thy ===== *)
theory Queue_Worker
  imports Queue_Memory
begin

text \<open>
  The worker loop (\<open>worker.rs\<close>): reserve, handle, then ack, fail or dead-letter. One pass of
  the loop is \<open>worker_pass\<close>; what the pass reads from its surroundings (the shutdown token,
  the clock, whether the sleep was interrupted) is a \<open>worker_tick\<close>, and \<open>worker_run\<close> runs the
  passes for a list of ticks. The log lists the outcomes \<open>record_completed\<close>, \<open>record_failed\<close>
  and \<open>record_retried\<close> report, with the job they are about. The lemmas about the loop are
  proved for every backend with the contract.
\<close>

section \<open>Configuration and backoff\<close>

record worker_config =
  wc_poll_interval :: duration
  wc_base_backoff :: duration

definition worker_config_default :: worker_config where
  "worker_config_default = \<lparr>wc_poll_interval = 200 * 1000000, wc_base_backoff = duration_from_secs 1\<rparr>"

definition should_dead_letter :: "job_error \<Rightarrow> u32 \<Rightarrow> u32 \<Rightarrow> bool" where
  "should_dead_letter error attempts max_attempts \<longleftrightarrow> \<not> is_retryable error \<or> attempts \<ge> max_attempts"

definition duration_saturating_mul :: "duration \<Rightarrow> u32 \<Rightarrow> duration" where
  "duration_saturating_mul d m = min (d * unat m) duration_max"

definition backoff_delay :: "duration \<Rightarrow> u32 \<Rightarrow> duration" where
  "backoff_delay base attempts =
     (let attempts = max attempts 1;
          shift = min (w_saturating_sub attempts 1) 16;
          multiplier = push_bit (unat shift) (1 :: u32);
          capped = duration_saturating_mul base multiplier;
          m = duration_from_secs 3600
      in if capped > m then m else capped)"

section \<open>The loop\<close>

datatype job_outcome = Completed | JobFailed | Retried

record worker_tick =
  wt_cancelled :: bool
  wt_reserve_now :: systime
  wt_fail_now :: systime
  wt_sleep_cancelled :: bool

type_synonym ('p, 'h) job_handler = "'p job_envelope \<Rightarrow> ('h, job_error, unit) op"
type_synonym ('s, 'h) worker_state = "'s \<times> 'h \<times> (job_id \<times> job_outcome) list"

text \<open>\<open>None\<close>: the loop goes on; \<open>Some r\<close>: \<open>run\<close> returned \<open>r\<close>.\<close>

definition worker_settle :: "('s, queue_error, unit) op \<Rightarrow> job_id \<Rightarrow> job_outcome \<Rightarrow> ('s, 'h) worker_state \<Rightarrow>
    (queue_error + unit) option \<times> ('s, 'h) worker_state" where
  "worker_settle m i outcome = (\<lambda>(s, w, log).
     case m s of
       (Inl e, s) \<Rightarrow> (Some (Inl e), (s, w, log))
     | (Inr _, s) \<Rightarrow> (None, (s, w, log @ [(i, outcome)])))"

definition worker_pass :: "('p, 's) queue_backend \<Rightarrow> ('p, 'h) job_handler \<Rightarrow> worker_config \<Rightarrow> worker_tick \<Rightarrow>
    ('s, 'h) worker_state \<Rightarrow> (queue_error + unit) option \<times> ('s, 'h) worker_state" where
  "worker_pass qb handler config tk = (\<lambda>(s, w, log).
     if wt_cancelled tk then (Some (Inr ()), (s, w, log))
     else
       (case qb_reserve qb (wt_reserve_now tk) s of
          (Inl e, s) \<Rightarrow> (Some (Inl e), (s, w, log))
        | (Inr None, s) \<Rightarrow> (if wt_sleep_cancelled tk then Some (Inr ()) else None, (s, w, log))
        | (Inr (Some job), s) \<Rightarrow>
            (case handler job w of
               (Inr _, w) \<Rightarrow> worker_settle (qb_ack qb (je_id job)) (je_id job) Completed (s, w, log)
             | (Inl error, w) \<Rightarrow>
                 if should_dead_letter error (je_attempts job) (je_max_attempts job)
                 then worker_settle (qb_dead_letter qb (je_id job)) (je_id job) JobFailed (s, w, log)
                 else
                   (case systime_add (wt_fail_now tk) (backoff_delay (wc_base_backoff config) (je_attempts job)) of
                      None \<Rightarrow> (Some (Inl (QueuePanic ''overflow when adding duration to instant'')), (s, w, log))
                    | Some available_at \<Rightarrow>
                        worker_settle (qb_fail qb (je_id job) available_at) (je_id job) Retried (s, w, log)))))"

fun worker_run :: "('p, 's) queue_backend \<Rightarrow> ('p, 'h) job_handler \<Rightarrow> worker_config \<Rightarrow> worker_tick list \<Rightarrow>
    ('s, 'h) worker_state \<Rightarrow> (queue_error + unit) option \<times> ('s, 'h) worker_state" where
  "worker_run qb handler config [] z = (None, z)"
| "worker_run qb handler config (tk # tks) z =
     (case worker_pass qb handler config tk z of
        (Some r, z) \<Rightarrow> (Some r, z)
      | (None, z) \<Rightarrow> worker_run qb handler config tks z)"

section \<open>Backoff\<close>

lemma backoff_multiplier: "unat (push_bit (unat (min a (16 :: u32))) (1 :: u32)) = 2 ^ unat (min a 16)"
proof -
  have "unat (min a (16 :: u32)) \<le> 16" by (simp add: min_def word_le_nat_alt)
  then have "(2 :: nat) ^ unat (min a (16 :: u32)) \<le> 2 ^ 16" by (intro power_increasing) auto
  then have "take_bit 32 ((2 :: nat) ^ unat (min a (16 :: u32))) = 2 ^ unat (min a 16)"
    by (intro take_bit_nat_eq_self) simp
  moreover have "push_bit n (1 :: u32) = word_of_nat (2 ^ n)" for n by (simp add: push_bit_eq_mult)
  ultimately show ?thesis by (simp only: unsigned_of_nat) simp
qed

lemma unat_max_one: "unat (max a (1 :: u32)) = max (unat a) 1"
  by (simp add: max_def word_le_nat_alt)

text \<open>
  The delay before retry number \<open>attempts\<close> is the base delay doubled for every earlier
  attempt, at most sixteen times, and never more than one hour; no 32-bit or duration
  overflow gets in the way of that, whatever the base and the attempt count.
\<close>
theorem backoff_delay_exact:
  "backoff_delay base attempts = min (base * 2 ^ min (unat attempts - 1) 16) (3600 * nanos_per_sec)"
proof -
  have shift: "unat (min (w_saturating_sub (max attempts 1) 1) (16 :: u32)) = min (unat attempts - 1) 16"
    by (auto simp: min_def max_def word_le_nat_alt unat_saturating_sub)
  have big: "3600 * nanos_per_sec \<le> duration_max" by (simp add: duration_max_def nanos_per_sec_def)
  show ?thesis
    unfolding backoff_delay_def Let_def duration_saturating_mul_def backoff_multiplier shift
    using big by (auto simp: duration_from_secs_def min_def)
qed

section \<open>Accounting\<close>

text \<open>
  What became of every job that was in flight when the loop started: \<open>runs i log\<close> counts how
  often a handler saw job \<open>i\<close>.
\<close>

definition runs :: "job_id \<Rightarrow> (job_id \<times> job_outcome) list \<Rightarrow> nat" where
  "runs i log = length (filter (\<lambda>(j, _). j = i) log)"

definition idle :: "(job_id \<rightharpoonup> 'p stored_job) \<Rightarrow> bool" where
  "idle live \<longleftrightarrow> (\<forall>i st. live i = Some st \<longrightarrow> sj_state st = Queued \<and> can_retry (sj_envelope st))"

definition same_job :: "'p job_envelope \<Rightarrow> 'p job_envelope \<Rightarrow> bool" where
  "same_job e e' \<longleftrightarrow> je_id e' = je_id e \<and> je_name e' = je_name e \<and> je_payload e' = je_payload e \<and>
     je_max_attempts e' = je_max_attempts e \<and> je_idempotency_key e' = je_idempotency_key e"

definition job_accounted :: "(job_id \<rightharpoonup> 'p stored_job) \<Rightarrow> 'p job_envelope list \<Rightarrow> (job_id \<times> job_outcome) list \<Rightarrow>
    job_id \<Rightarrow> 'p job_envelope \<Rightarrow> bool" where
  "job_accounted live dead log i e0 \<longleftrightarrow>
     unat (je_attempts e0) + runs i log \<le> unat (je_max_attempts e0) \<and>
     (case live i of
        Some st \<Rightarrow> same_job e0 (sj_envelope st) \<and> unat (je_attempts (sj_envelope st)) = unat (je_attempts e0) + runs i log
      | None \<Rightarrow> (i, Completed) \<in> set log \<or> (i, JobFailed) \<in> set log \<and> list_ex (same_job e0) dead)"

definition accounts :: "(job_id \<rightharpoonup> 'p stored_job) \<Rightarrow> (job_id \<rightharpoonup> 'p stored_job) \<Rightarrow> 'p job_envelope list \<Rightarrow>
    (job_id \<times> job_outcome) list \<Rightarrow> bool" where
  "accounts live0 live dead log \<longleftrightarrow>
     idle live \<and> dom live \<subseteq> dom live0 \<and>
     (\<forall>i st0. live0 i = Some st0 \<longrightarrow> job_accounted live dead log i (sj_envelope st0))"

lemma runs_snoc [simp]: "runs i (log @ [(j, r)]) = (if i = j then Suc (runs i log) else runs i log)"
  by (auto simp: runs_def)

lemma same_job_trans: "same_job e e' \<Longrightarrow> same_job e' e'' \<Longrightarrow> same_job e e''"
  by (simp add: same_job_def)

lemma idle_job: "idle live \<Longrightarrow> live i = Some st \<Longrightarrow> sj_state st = Queued" "idle live \<Longrightarrow> live i = Some st \<Longrightarrow> can_retry (sj_envelope st)"
  unfolding idle_def by blast+

lemma idle_reclaim:
  assumes "idle live"
  shows "ab_reclaim now live = live"
proof
  fix i
  show "ab_reclaim now live i = live i"
    using idle_job(1) [OF assms, of i] by (cases "live i") (auto simp: ab_reclaim_def job_expired_def)
qed

lemma unat_attempted:
  assumes "can_retry e"
  shows "unat (je_attempts (attempted e)) = Suc (unat (je_attempts e))"
    and "Suc (unat (je_attempts e)) \<le> unat (je_max_attempts e)"
proof -
  have le: "Suc (unat (je_attempts e)) \<le> unat (je_max_attempts e)"
    using assms by (simp add: can_retry_def word_less_nat_alt)
  also have "unat (je_max_attempts e) < 2 ^ LENGTH(32)" by (rule unsigned_less)
  finally show "unat (je_attempts (attempted e)) = Suc (unat (je_attempts e))"
    by (simp add: attempted_def unat_saturating_add)
  show "Suc (unat (je_attempts e)) \<le> unat (je_max_attempts e)" by (rule le)
qed

text \<open>The three ways a pass may end for the job it reserved.\<close>

lemma accounts_live:
  assumes "accounts live0 live dead log" and "live i = Some st"
  obtains st0 where "live0 i = Some st0" "same_job (sj_envelope st0) (sj_envelope st)"
    "unat (je_attempts (sj_envelope st)) = unat (je_attempts (sj_envelope st0)) + runs i log"
    "unat (je_attempts (sj_envelope st0)) + Suc (runs i log) \<le> unat (je_max_attempts (sj_envelope st0))"
proof -
  obtain st0 where st0: "live0 i = Some st0" using assms unfolding accounts_def by blast
  then have "job_accounted live dead log i (sj_envelope st0)" using assms(1) unfolding accounts_def by blast
  moreover have "can_retry (sj_envelope st)" using assms idle_job(2) unfolding accounts_def by blast
  ultimately show ?thesis
    using that [OF st0] assms(2) unat_attempted(2) [of "sj_envelope st"]
    by (simp add: job_accounted_def same_job_def)
qed

lemma accountsI:
  assumes "accounts live0 live dead log" and "idle live'" and "dom live' \<subseteq> dom live0"
    and "live0 i = Some st0" and "job_accounted live' dead' log' i (sj_envelope st0)"
    and "\<And>j. j \<noteq> i \<Longrightarrow> live' j = live j \<and> runs j log' = runs j log"
    and "set log \<subseteq> set log'" and "set dead \<subseteq> set dead'"
  shows "accounts live0 live' dead' log'"
  unfolding accounts_def
proof (intro conjI allI impI)
  fix j st1 assume j: "live0 j = Some st1"
  show "job_accounted live' dead' log' j (sj_envelope st1)"
  proof (cases "j = i")
    case True
    then show ?thesis using assms(4,5) j by simp
  next
    case False
    have "job_accounted live dead log j (sj_envelope st1)" using assms(1) j unfolding accounts_def by blast
    then show ?thesis using assms(6) [OF False] assms(7,8)
      by (auto simp: job_accounted_def list_ex_iff split: option.splits)
  qed
qed (use assms(2,3) in auto)

lemma accounts_removed:
  assumes acc: "accounts live0 live dead log" and st: "live i = Some st" and dead: "set dead \<subseteq> set dead'"
    and out: "outcome = Completed \<or> outcome = JobFailed \<and> list_ex (same_job (sj_envelope st)) dead'"
  shows "accounts live0 (live(i := None)) dead' (log @ [(i, outcome)])"
proof -
  obtain st0 where st0: "live0 i = Some st0" "same_job (sj_envelope st0) (sj_envelope st)"
    "unat (je_attempts (sj_envelope st0)) + Suc (runs i log) \<le> unat (je_max_attempts (sj_envelope st0))"
    by (rule accounts_live [OF acc st])
  have "job_accounted (live(i := None)) dead' (log @ [(i, outcome)]) i (sj_envelope st0)"
    using st0(2,3) out same_job_trans by (fastforce simp: job_accounted_def list_ex_iff)
  moreover have "idle (live(i := None))" "dom (live(i := None)) \<subseteq> dom live0"
    using acc by (auto simp: accounts_def idle_def)
  ultimately show ?thesis using st0(1) dead by (intro accountsI [OF acc, where i = i]) auto
qed

lemma accounts_retried:
  assumes acc: "accounts live0 live dead log" and st: "live i = Some st"
    and again: "can_retry (attempted (sj_envelope st))"
    and st': "st' = requeued (st\<lparr>sj_envelope := (attempted (sj_envelope st))\<lparr>je_available_at := t\<rparr>\<rparr>)"
  shows "accounts live0 (live(i \<mapsto> st')) dead (log @ [(i, Retried)])"
proof -
  obtain st0 where st0: "live0 i = Some st0" "same_job (sj_envelope st0) (sj_envelope st)"
    "unat (je_attempts (sj_envelope st)) = unat (je_attempts (sj_envelope st0)) + runs i log"
    "unat (je_attempts (sj_envelope st0)) + Suc (runs i log) \<le> unat (je_max_attempts (sj_envelope st0))"
    by (rule accounts_live [OF acc st])
  have "can_retry (sj_envelope st)" using acc st idle_job(2) unfolding accounts_def by blast
  then have "job_accounted (live(i \<mapsto> st')) dead (log @ [(i, Retried)]) i (sj_envelope st0)"
    using st0 unat_attempted(1) [of "sj_envelope st"] by (simp add: job_accounted_def st' requeued_def same_job_def attempted_def)
  moreover have "idle (live(i \<mapsto> st'))"
    using acc again by (auto simp: accounts_def idle_def st' requeued_def can_retry_def)
  moreover have "dom (live(i \<mapsto> st')) \<subseteq> dom live0" using acc st0(1) by (auto simp: accounts_def)
  ultimately show ?thesis using st0(1) by (intro accountsI [OF acc, where i = i]) auto
qed

text \<open>The clock readings of a tick leave room for the visibility timeout and for the backoff.\<close>

definition tick_ok :: "duration option \<Rightarrow> worker_tick \<Rightarrow> bool" where
  "tick_ok timeout tk \<longleftrightarrow>
     (case timeout of None \<Rightarrow> True | Some d \<Rightarrow> wt_reserve_now tk + int d < systime_sup) \<and>
     wt_fail_now tk + int (3600 * nanos_per_sec) < systime_sup"

lemma tick_ok_fail:
  assumes "tick_ok timeout tk"
  obtains t where "systime_add (wt_fail_now tk) (backoff_delay base attempts) = Some t"
proof -
  have "backoff_delay base attempts \<le> 3600 * nanos_per_sec"
    by (simp add: backoff_delay_def Let_def duration_from_secs_def)
  then show ?thesis using that assms by (simp add: tick_ok_def systime_add_def)
qed

definition reserved_until :: "duration option \<Rightarrow> systime \<Rightarrow> systime option" where
  "reserved_until timeout now = (case timeout of None \<Rightarrow> None | Some d \<Rightarrow> systime_add now d)"

lemma requeued_reserved:
  "requeued ((reserved_job u st)\<lparr>sj_envelope := e\<rparr>) = requeued (st\<lparr>sj_envelope := e\<rparr>)"
  by (cases st) (simp add: requeued_def reserved_job_def)

context queue_backend
begin

lemma pass_accounts:
  assumes inv: "invar s" and tk: "tick_ok (tmo s) tk" and acc: "accounts live0 (live s) (dead s) log"
  shows "\<exists>r s' w' log'. worker_pass qb handler config tk (s, w, log) = (r, (s', w', log'))
     \<and> (r = None \<or> r = Some (Inr ())) \<and> invar s' \<and> tmo s' = tmo s \<and> accounts live0 (live s') (dead s') log'"
proof (cases "wt_cancelled tk")
  case True
  then show ?thesis using inv acc by (simp add: worker_pass_def)
next
  case running: False
  let ?now = "wt_reserve_now tk"
  have idle: "idle (live s)" using acc by (simp add: accounts_def)
  note same = idle_reclaim [OF idle]
  show ?thesis
  proof (cases "ab_runnable ?now (live s) = {}")
    case True
    then obtain s' where "qb_reserve qb ?now s = (Inr None, s')" "invar s'" "tmo s' = tmo s" "dead s' = dead s"
      "live s' = live s"
      using reserve_none [OF inv, of ?now] same by auto
    then show ?thesis using running acc by (simp add: worker_pass_def)
  next
    case False
    let ?until = "reserved_until (tmo s) ?now"
    have until: "case tmo s of None \<Rightarrow> ?until = None | Some d \<Rightarrow> systime_add ?now d \<noteq> None \<and> ?until = systime_add ?now d"
      using tk by (auto simp: reserved_until_def tick_ok_def systime_add_def split: option.splits)
    obtain s1 i st where s1: "live s i = Some st" "qb_reserve qb ?now s = (Inr (Some (attempted (sj_envelope st))), s1)"
      "invar s1" "tmo s1 = tmo s" "dead s1 = dead s" "live s1 = (live s)(i \<mapsto> reserved_job ?until st)"
      using reserve_some [OF inv False until] same by metis
    let ?job = "attempted (sj_envelope st)"
    have id: "je_id ?job = i" using in_flight [OF inv s1(1)] by (simp add: attempted_def)
    have res: "live s1 i = Some (reserved_job ?until st)" "sj_state (reserved_job ?until st) = Reserved"
      "sj_envelope (reserved_job ?until st) = ?job"
      by (simp_all add: s1(6) reserved_job_def)
    have gone: "(live s1)(i := None) = (live s)(i := None)" by (simp add: s1(6))
    obtain hr w1 where h: "handler ?job w = (hr, w1)" by fastforce
    note pass = worker_pass_def worker_settle_def running s1(2) h id
    consider (ok) "hr = Inr ()" | (dl) e where "hr = Inl e" "should_dead_letter e (je_attempts ?job) (je_max_attempts ?job)"
      | (retry) e where "hr = Inl e" "\<not> should_dead_letter e (je_attempts ?job) (je_max_attempts ?job)"
      by (cases hr) auto
    then show ?thesis
    proof cases
      case ok
      obtain s2 where s2: "qb_ack qb i s1 = (Inr (), s2)" "invar s2" "tmo s2 = tmo s1" "dead s2 = dead s1"
        "live s2 = (live s1)(i := None)" using ack_reserved [OF s1(3) res(1,2)] by blast
      have "accounts live0 (live s2) (dead s2) (log @ [(i, Completed)])"
        using accounts_removed [OF acc s1(1)] by (simp add: s2 gone s1(5))
      then show ?thesis using ok s2 s1(4) by (simp add: pass)
    next
      case dl
      obtain s2 where s2: "qb_dead_letter qb i s1 = (Inr (), s2)" "invar s2" "tmo s2 = tmo s1"
        "dead s2 = dead s1 @ [?job]" "live s2 = (live s1)(i := None)"
        using dead_letter_reserved [OF s1(3) res(1,2)] res(3) by auto
      have "accounts live0 (live s2) (dead s2) (log @ [(i, JobFailed)])"
        using accounts_removed [OF acc s1(1), of "dead s2" JobFailed]
        by (auto simp: s2 gone s1(5) same_job_def attempted_def)
      then show ?thesis using dl s2 s1(4) by (simp add: pass)
    next
      case retry
      obtain t where t: "systime_add (wt_fail_now tk) (backoff_delay (wc_base_backoff config) (je_attempts ?job)) = Some t"
        by (rule tick_ok_fail [OF tk])
      let ?st = "requeued (st\<lparr>sj_envelope := ?job\<lparr>je_available_at := t\<rparr>\<rparr>)"
      obtain s2 where s2: "qb_fail qb i t s1 = (Inr (), s2)" "invar s2" "tmo s2 = tmo s1" "dead s2 = dead s1"
        "live s2 = (live s)(i \<mapsto> ?st)"
        using fail_reserved [OF s1(3) res(1,2), of t]
        by (auto simp: s1(6) requeued_reserved res(3))
      have "can_retry ?job" using retry(2) by (auto simp: should_dead_letter_def can_retry_def)
      then have "accounts live0 (live s2) (dead s2) (log @ [(i, Retried)])"
        using accounts_retried [OF acc s1(1) _ refl] by (simp add: s2 s1(5))
      then show ?thesis using retry s2 s1(4) t by (simp add: pass)
    qed
  qed
qed

lemma run_accounts:
  assumes "invar s" and "list_all (tick_ok (tmo s)) tks" and "accounts live0 (live s) (dead s) log"
  shows "\<exists>r s' w' log'. worker_run qb handler config tks (s, w, log) = (r, (s', w', log'))
     \<and> (r = None \<or> r = Some (Inr ())) \<and> invar s' \<and> accounts live0 (live s') (dead s') log'"
  using assms
proof (induction tks arbitrary: s w log)
  case (Cons tk tks)
  obtain r s' w' log' where p: "worker_pass qb handler config tk (s, w, log) = (r, (s', w', log'))"
    "r = None \<or> r = Some (Inr ())" "invar s'" "tmo s' = tmo s" "accounts live0 (live s') (dead s') log'"
    using pass_accounts [OF Cons.prems(1) _ Cons.prems(3), of tk handler config w] Cons.prems(2) by auto
  then show ?case using Cons.IH [OF p(3) _ p(5), of w'] Cons.prems(2) by auto
qed simp

end

section \<open>The worker on the in-memory queue\<close>

lemma accounts_start:
  assumes "idle live"
  shows "accounts live live dead []"
proof -
  have "job_accounted live dead [] i (sj_envelope st)" if "live i = Some st" for i st
    using that idle_job(2) [OF assms that] unat_attempted(2) [of "sj_envelope st"]
    by (simp add: job_accounted_def runs_def same_job_def)
  then show ?thesis using assms unfolding accounts_def by blast
qed

text \<open>
  C8: One worker on a \<open>MemoryQueue\<close> accounts for every job. Let no job be reserved when it starts,
  and the clock stay below the end of its range. Whatever the handler does and however
  long the loop runs, the loop never stops with an error; every job in flight at the start
  is still queued with its name, payload and key, or was completed, or was dead-lettered
  and is in the dead letters; a handler saw it at most as often as \<open>max_attempts\<close> allows, and
  its attempt count is exactly the number of times a handler saw it.
\<close>
theorem worker_accounts_for_every_job:
  assumes "enumerates ord" and "mq_wf q" and "idle (mq_jobs q)"
    and "list_all (tick_ok (mq_visibility_timeout q)) tks"
  shows "case worker_run (memory_queue ord) handler config tks (q, w, []) of
     (r, (q', w', log)) \<Rightarrow> (r = None \<or> r = Some (Inr ())) \<and> mq_wf q'
        \<and> accounts (mq_jobs q) (mq_jobs q') (mq_dead_letters q') log"
  using queue_backend.run_accounts [OF memory_queue_backend [OF assms(1)] assms(2,4) accounts_start [OF assms(3)],
      of handler config w] by auto

end
