(* ===== verification/Queue_Props.thy ===== *)
theory Queue_Props
  imports Queue_Worker
begin

text \<open>
  Properties of \<open>MemoryQueue\<close> over whole histories of calls, the exact outcome of \<open>push\<close> and
  \<open>reserve\<close>, and what a late \<open>ack\<close> does.
\<close>

section \<open>Histories\<close>

datatype 'p queue_call =
    CallPush "'p job_envelope"
  | CallReserve systime
  | CallAck job_id
  | CallFail job_id systime
  | CallDeadLetter job_id
  | CallReclaim systime

fun mq_call :: "'p job_order \<Rightarrow> 'p queue_call \<Rightarrow> 'p mem_queue \<Rightarrow> 'p mem_queue" where
  "mq_call ord (CallPush job) q = snd (mq_push job q)"
| "mq_call ord (CallReserve now) q = snd (mq_reserve ord now q)"
| "mq_call ord (CallAck i) q = snd (mq_ack i q)"
| "mq_call ord (CallFail i t) q = snd (mq_fail i t q)"
| "mq_call ord (CallDeadLetter i) q = snd (mq_dead_letter i q)"
| "mq_call ord (CallReclaim now) q = snd (mq_reclaim_expired ord now q)"

text \<open>A pushed job has a new id, and the visibility timeout fits behind the clock.\<close>

fun call_ok :: "'p queue_call \<Rightarrow> 'p mem_queue \<Rightarrow> bool" where
  "call_ok (CallPush job) q = mq_fresh (je_id job) q"
| "call_ok (CallReserve now) q =
     (case mq_visibility_timeout q of None \<Rightarrow> True | Some d \<Rightarrow> now + int d < systime_sup)"
| "call_ok _ q = True"

fun mq_history :: "'p job_order \<Rightarrow> 'p queue_call list \<Rightarrow> 'p mem_queue \<Rightarrow> 'p mem_queue option" where
  "mq_history ord [] q = Some q"
| "mq_history ord (c # cs) q = (if call_ok c q then mq_history ord cs (mq_call ord c q) else None)"

lemma mq_wf_drop:
  assumes wf: "mq_wf q"
  shows "mq_wf (q\<lparr>mq_jobs := (mq_jobs q)(i := None)\<rparr>)"
proof (rule mq_wfI)
  fix j st assume j: "mq_jobs (q\<lparr>mq_jobs := (mq_jobs q)(i := None)\<rparr>) j = Some st"
  then have old: "mq_jobs q j = Some st" by (auto split: if_splits)
  show "job_ok (q\<lparr>mq_jobs := (mq_jobs q)(i := None)\<rparr>) j st"
    using mq_wf_ok [OF wf old] by (simp add: job_ok_def)
  fix k assume "mq_idempotency (q\<lparr>mq_jobs := (mq_jobs q)(i := None)\<rparr>) k = Some j"
  then show "je_idempotency_key (sj_envelope st) = Some k" using mq_wf_key [OF wf _ old] by simp
qed (use mq_wf_plain [OF wf] in auto)

lemma mq_push_wf:
  assumes wf: "mq_wf q" and "mq_fresh (je_id job) q"
  shows "mq_wf (snd (mq_push job q))"
proof (cases "\<exists>i st k. mq_jobs q i = Some st \<and> je_idempotency_key (sj_envelope st) = Some k
    \<and> je_idempotency_key job = Some k")
  case True
  then show ?thesis using mq_push_known [OF wf] wf by fastforce
next
  case False
  then show ?thesis using mq_push_new [OF assms] by (metis option.exhaust snd_conv)
qed

lemma mq_call_wf:
  assumes ord: "enumerates ord" and wf: "mq_wf q" and ok: "call_ok c q"
  shows "mq_wf (mq_call ord c q)"
proof (cases c)
  case (CallPush job)
  then show ?thesis using mq_push_wf [OF wf] ok by simp
next
  case (CallReserve now)
  let ?u = "reserved_until (mq_visibility_timeout q) now"
  have "case mq_visibility_timeout q of None \<Rightarrow> ?u = None | Some d \<Rightarrow> systime_add now d \<noteq> None \<and> ?u = systime_add now d"
    using ok CallReserve by (auto simp: reserved_until_def systime_add_def split: option.splits)
  then show ?thesis
    using mq_reserve_none [OF ord wf, of now] mq_reserve_some [OF ord wf, of now ?u] CallReserve
    by (cases "ab_runnable now (mq_jobs q) = {}") auto
next
  case (CallAck i)
  then show ?thesis using wf mq_wf_drop [OF wf, of i] mq_wf_remove [OF wf, of i]
    by (auto simp: mq_ack_def Let_def split: option.splits)
next
  case (CallFail i t)
  have "mq_wf (q\<lparr>mq_ready := mq_ready q @ [i], mq_jobs := (mq_jobs q)(i \<mapsto>
      requeued (st\<lparr>sj_envelope := (sj_envelope st)\<lparr>je_available_at := t\<rparr>\<rparr>))\<rparr>)" if "mq_jobs q i = Some st" for st
    by (rule mq_wf_update [OF wf that])
      (use mq_wf_job [OF wf that] mq_wf_job(3) [OF wf] in \<open>auto simp: requeued_def in_flight_state_def\<close>)
  then show ?thesis using wf CallFail by (auto simp: mq_fail_def split: option.splits)
next
  case (CallDeadLetter i)
  then show ?thesis using wf mq_wf_drop [OF wf, of i] mq_wf_remove [OF wf, of i]
    by (auto simp: mq_dead_letter_def Let_def split: option.splits)
next
  case (CallReclaim now)
  then show ?thesis
    using wf reclaim_locked(2) [OF ord wf, of now "snd (reclaim_expired_locked ord now q)"]
    by (cases "reclaim_expired_locked ord now q") (simp add: mq_reclaim_expired_def)
qed

lemma mq_history_wf:
  "enumerates ord \<Longrightarrow> mq_wf q \<Longrightarrow> mq_history ord cs q = Some q' \<Longrightarrow> mq_wf q'"
proof (induction cs arbitrary: q)
  case (Cons c cs)
  then have "call_ok c q" and "mq_history ord cs (mq_call ord c q) = Some q'" by (auto split: if_splits)
  then show ?case using Cons mq_call_wf [OF Cons.prems(1,2)] by blast
qed simp

text \<open>
  Through every history of calls on a \<open>MemoryQueue\<close>, late and repeated calls included,
  the queue stays usable: it is never poisoned, every queued job is in the ready queue, so
  no job is stranded, and at most one job in flight carries a given idempotency key.
\<close>
theorem memory_queue_stays_consistent:
  assumes "enumerates ord" and "mq_history ord cs (mq_new\<lparr>mq_visibility_timeout := timeout\<rparr>) = Some q"
  shows "\<not> mq_poisoned q
     \<and> (\<forall>i st. mq_jobs q i = Some st \<longrightarrow> sj_state st = Queued \<longrightarrow> i \<in> set (mq_ready q))
     \<and> (\<forall>i j st st' k. mq_jobs q i = Some st \<longrightarrow> mq_jobs q j = Some st' \<longrightarrow>
          je_idempotency_key (sj_envelope st) = Some k \<longrightarrow> je_idempotency_key (sj_envelope st') = Some k \<longrightarrow> i = j)"
proof -
  have "mq_wf (mq_new\<lparr>mq_visibility_timeout := timeout\<rparr>)" by (simp add: mq_wf_def mq_new_def)
  then have wf: "mq_wf q" using mq_history_wf assms by blast
  show ?thesis
  proof (intro conjI allI impI)
    show "\<not> mq_poisoned q" by (rule mq_wf_plain [OF wf])
    fix i st assume i: "mq_jobs q i = Some st"
    show "sj_state st = Queued \<Longrightarrow> i \<in> set (mq_ready q)" by (rule mq_wf_job(3) [OF wf i])
    fix j st' k assume "mq_jobs q j = Some st'" "je_idempotency_key (sj_envelope st) = Some k"
      "je_idempotency_key (sj_envelope st') = Some k"
    then show "i = j" using mq_wf_job(4) [OF wf i] mq_wf_job(4) [OF wf] by fastforce
  qed
qed

section \<open>Pushing\<close>

text \<open>
  A push with a key some job in flight carries returns that job's id and changes
  nothing, so the payload is not replaced. Any other push of a job with a new id creates
  it, queued and in the ready queue; pushing again under its key then returns it.
\<close>
theorem push_once_per_key:
  assumes "mq_wf q" and "mq_fresh (je_id job) q"
  shows "(\<forall>i st k. mq_jobs q i = Some st \<longrightarrow> je_idempotency_key (sj_envelope st) = Some k \<longrightarrow>
            je_idempotency_key job = Some k \<longrightarrow> mq_push job q = (Inr (JobExisting i), q))
     \<and> ((\<forall>i st. mq_jobs q i = Some st \<longrightarrow>
            je_idempotency_key job = None \<or> je_idempotency_key (sj_envelope st) \<noteq> je_idempotency_key job) \<longrightarrow>
         (\<exists>q'. mq_push job q = (Inr (JobCreated (je_id job)), q') \<and> mq_wf q'
            \<and> mq_jobs q' = (mq_jobs q)(je_id job \<mapsto> \<lparr>sj_envelope = job, sj_state = Queued, sj_reserved_until = None\<rparr>)
            \<and> mq_ready q' = mq_ready q @ [je_id job]
            \<and> (\<forall>again. je_idempotency_key again = je_idempotency_key job \<longrightarrow> je_idempotency_key job \<noteq> None \<longrightarrow>
                 mq_push again q' = (Inr (JobExisting (je_id job)), q'))))"
proof (intro conjI allI impI)
  fix i st k assume "mq_jobs q i = Some st" "je_idempotency_key (sj_envelope st) = Some k" "je_idempotency_key job = Some k"
  then show "mq_push job q = (Inr (JobExisting i), q)" by (rule mq_push_known [OF assms(1)])
next
  assume other: "\<forall>i st. mq_jobs q i = Some st \<longrightarrow>
    je_idempotency_key job = None \<or> je_idempotency_key (sj_envelope st) \<noteq> je_idempotency_key job"
  let ?st = "\<lparr>sj_envelope = job, sj_state = Queued, sj_reserved_until = None\<rparr>"
  obtain idem where push: "mq_push job q = (Inr (JobCreated (je_id job)), mq_enqueue job (q\<lparr>mq_idempotency := idem\<rparr>))"
    and wf: "mq_wf (mq_enqueue job (q\<lparr>mq_idempotency := idem\<rparr>))"
    using mq_push_new [OF assms] other by metis
  have here: "mq_jobs (mq_enqueue job (q\<lparr>mq_idempotency := idem\<rparr>)) (je_id job) = Some ?st" by (simp add: mq_enqueue_def)
  have "mq_push again (mq_enqueue job (q\<lparr>mq_idempotency := idem\<rparr>))
      = (Inr (JobExisting (je_id job)), mq_enqueue job (q\<lparr>mq_idempotency := idem\<rparr>))"
    if "je_idempotency_key again = je_idempotency_key job" "je_idempotency_key job \<noteq> None" for again
    using mq_push_known [OF wf here] that by auto
  then show "\<exists>q'. mq_push job q = (Inr (JobCreated (je_id job)), q') \<and> mq_wf q'
      \<and> mq_jobs q' = (mq_jobs q)(je_id job \<mapsto> ?st) \<and> mq_ready q' = mq_ready q @ [je_id job]
      \<and> (\<forall>again. je_idempotency_key again = je_idempotency_key job \<longrightarrow> je_idempotency_key job \<noteq> None \<longrightarrow>
           mq_push again q' = (Inr (JobExisting (je_id job)), q'))"
    using push wf by (intro exI conjI) (auto simp: mq_enqueue_def)
qed

section \<open>Reserving\<close>

lemma find_first:
  "find P xs = Some x \<Longrightarrow> \<exists>us vs. xs = us @ x # vs \<and> P x \<and> list_all (\<lambda>y. \<not> P y) us"
proof (induction xs)
  case (Cons a xs)
  show ?case
  proof (cases "P a")
    case True
    then have "a # xs = [] @ x # xs \<and> P x \<and> list_all (\<lambda>y. \<not> P y) []" using Cons.prems by simp
    then show ?thesis by blast
  next
    case False
    then obtain us vs where "xs = us @ x # vs" "P x" "list_all (\<lambda>y. \<not> P y) us" using Cons by auto
    then have "a # xs = (a # us) @ x # vs \<and> P x \<and> list_all (\<lambda>y. \<not> P y) (a # us)" using False by simp
    then show ?thesis by blast
  qed
qed simp

text \<open>
  \<open>reserve\<close> hands out a job whenever one may run: a queued job that is due, or a due job
  whose reservation has expired, so a crashed worker's job is delivered again. It takes the
  first such job in the order of the ready queue (expired ones behind the rest), counts the
  attempt, sets the new deadline, and keeps every other job in flight as it was; only when
  no job may run does it return nothing.
\<close>
theorem reserve_delivers_first_runnable:
  assumes "enumerates ord" and "mq_wf q"
    and "case mq_visibility_timeout q of None \<Rightarrow> until = None
      | Some d \<Rightarrow> systime_add now d \<noteq> None \<and> until = systime_add now d"
  shows "let q1 = snd (reclaim_expired_locked ord now q) in
     mq_jobs q1 = ab_reclaim now (mq_jobs q)
     \<and> (\<exists>xs. mq_ready q1 = mq_ready q @ xs \<and> set xs = {i. \<exists>st. mq_jobs q i = Some st \<and> job_expired now st})
     \<and> (case find (scan_hit now q1) (mq_ready q1) of
          None \<Rightarrow> ab_runnable now (mq_jobs q) = {} \<and> fst (mq_reserve ord now q) = Inr None
            \<and> mq_jobs (snd (mq_reserve ord now q)) = mq_jobs q1
        | Some i \<Rightarrow> fst (mq_reserve ord now q) = Inr (map_option (attempted \<circ> sj_envelope) (mq_jobs q1 i))
            \<and> mq_jobs (snd (mq_reserve ord now q)) = (mq_jobs q1)(i := map_option (reserved_job until) (mq_jobs q1 i)))
     \<and> mq_wf (snd (mq_reserve ord now q))"
proof -
  define q1 where "q1 = snd (reclaim_expired_locked ord now q)"
  note r = reclaim_locked [OF assms(1,2) q1_def [symmetric]]
  have run: "mq_reserve ord now q = reserve_scan (length (mq_ready q1)) now q1"
    using assms(2) by (simp add: mq_reserve_def q1_def Let_def)
  have until: "case mq_visibility_timeout q1 of None \<Rightarrow> until = None
      | Some d \<Rightarrow> systime_add now d \<noteq> None \<and> until = systime_add now d"
    using assms(3) r(4) by simp
  have "call_ok (CallReserve now) q"
    using assms(3) by (auto simp: systime_add_def split: option.splits if_splits)
  then have wf: "mq_wf (snd (mq_reserve ord now q))"
    using mq_call_wf [OF assms(1,2), of "CallReserve now"] by simp
  have outcome: "case find (scan_hit now q1) (mq_ready q1) of
      None \<Rightarrow> ab_runnable now (mq_jobs q) = {} \<and> fst (mq_reserve ord now q) = Inr None
        \<and> mq_jobs (snd (mq_reserve ord now q)) = mq_jobs q1
    | Some i \<Rightarrow> fst (mq_reserve ord now q) = Inr (map_option (attempted \<circ> sj_envelope) (mq_jobs q1 i))
        \<and> mq_jobs (snd (mq_reserve ord now q)) = (mq_jobs q1)(i := map_option (reserved_job until) (mq_jobs q1 i))"
  proof (cases "find (scan_hit now q1) (mq_ready q1)")
    case None
    then have miss: "list_all (\<lambda>i. \<not> scan_hit now q1 i) (mq_ready q1)" by (simp add: find_None_iff list_all_iff)
    have "\<not> job_runnable now st" if "mq_jobs q1 i = Some st" for i st
      using ready_first_hit [OF r(2) that, of now] miss by (auto simp: list_all_iff)
    then have "ab_runnable now (mq_jobs q) = {}"
      unfolding ab_runnable_def r(1) [symmetric] by blast
    then show ?thesis using None reserve_scan_none [OF miss] run by simp
  next
    case (Some i)
    then obtain us vs where split: "mq_ready q1 = us @ i # vs" "list_all (\<lambda>i. \<not> scan_hit now q1 i) us" "scan_hit now q1 i"
      using find_first [of "scan_hit now q1" "mq_ready q1" i] by blast
    then obtain st where st: "mq_jobs q1 i = Some st" "job_runnable now st"
      by (auto simp: scan_hit_def split: option.splits)
    then show ?thesis using Some reserve_scan_some [OF split(1,2) st until] run by simp
  qed
  show ?thesis unfolding q1_def [symmetric] Let_def using r(1,6) outcome wf by blast
qed

section \<open>Late answers\<close>

text \<open>
  An \<open>ack\<close> or \<open>dead_letter\<close> that arrives after the reservation expired and the job was
  put back finds the job queued. The call fails with \<open>InvalidState\<close>, yet the job is gone: it
  is no longer in flight, was not completed and is not among the dead letters, so it is
  never delivered again.
\<close>
theorem late_answer_loses_job:
  assumes "mq_wf q" and "mq_jobs q i = Some st" and "sj_state st = Queued"
  shows "fst (mq_ack i q) = Inl (InvalidState i) \<and> mq_jobs (snd (mq_ack i q)) i = None
     \<and> fst (mq_dead_letter i q) = Inl (InvalidState i) \<and> mq_jobs (snd (mq_dead_letter i q)) i = None
     \<and> mq_dead_letters (snd (mq_dead_letter i q)) = mq_dead_letters q
     \<and> fst (mq_fail i t q) = Inl (InvalidState i) \<and> snd (mq_fail i t q) = q"
  using assms by (simp add: mq_ack_def mq_dead_letter_def mq_fail_def Let_def)

section \<open>Times on the wire\<close>

text \<open>
  A time between the epoch and the end of the clock survives serialization up to its
  fraction of a second: it reads back as the start of its second, so never later and less
  than a second earlier.
\<close>
theorem time_round_trip:
  assumes "0 \<le> t" and "t < systime_sup"
  shows "\<exists>secs. serialize_time t = Inr secs
     \<and> deserialize_time secs = Some (t div int nanos_per_sec * int nanos_per_sec)"
proof -
  let ?n = "nat t div nanos_per_sec"
  have "nat t < 2 ^ 63 * nanos_per_sec" using assms by (simp add: systime_sup_def nanos_per_sec_def)
  then have "?n < 2 ^ 63" by (simp add: less_mult_imp_div_less)
  then have n: "unat (of_nat ?n :: u64) = ?n" by (simp add: unsigned_of_nat take_bit_nat_eq_self)
  have eq: "int ?n = t div int nanos_per_sec" using assms(1) by (simp add: zdiv_int)
  have "0 < int nanos_per_sec" by (simp add: nanos_per_sec_def)
  then have "t div int nanos_per_sec * int nanos_per_sec \<le> t"
    using div_mult_mod_eq [of t "int nanos_per_sec"] pos_mod_sign [of "int nanos_per_sec" t] by linarith
  then have fits: "t div int nanos_per_sec * int nanos_per_sec < systime_sup" using assms(2) by linarith
  have "serialize_time t = Inr (of_nat ?n)"
    using assms(1) by (simp add: serialize_time_def duration_since_def unix_epoch_def)
  moreover have "deserialize_time (of_nat ?n) = Some (t div int nanos_per_sec * int nanos_per_sec)"
    using fits by (simp add: deserialize_time_def systime_add_def unix_epoch_def duration_from_secs_def n eq)
  ultimately show ?thesis by blast
qed

section \<open>Instances\<close>

definition demo_job :: "unit job_envelope" where
  "demo_job = envelope_new 7 0 ''mail'' () 3 (Some ''k'')"

definition demo_queue :: "unit mem_queue" where
  "demo_queue = snd (mq_push demo_job mq_new)"

definition demo_tick :: worker_tick where
  "demo_tick = \<lparr>wt_cancelled = False, wt_reserve_now = 5, wt_fail_now = 6, wt_sleep_cancelled = False\<rparr>"

lemma demo_fresh: "mq_fresh (je_id demo_job) mq_new"
  by (simp add: mq_fresh_def mq_new_def)

lemma demo_queue_wf: "mq_wf demo_queue"
  unfolding demo_queue_def by (rule mq_push_wf [OF mq_new_wf(1) demo_fresh])

lemma demo_queue_jobs:
  "mq_jobs demo_queue = [7 \<mapsto> \<lparr>sj_envelope = demo_job, sj_state = Queued, sj_reserved_until = None\<rparr>]"
  "mq_visibility_timeout demo_queue = None"
  by (simp_all add: demo_queue_def mq_push_def mq_enqueue_def mq_new_def mq_locked_def demo_job_def envelope_new_def)

lemma worker_accounts_for_every_job_witness:
  "case worker_run (memory_queue sorted_order) (\<lambda>_ w. (Inl (Retryable ''busy''), w)) worker_config_default
      [demo_tick] (demo_queue, (), []) of
     (r, (q', w', log)) \<Rightarrow> (r = None \<or> r = Some (Inr ())) \<and> mq_wf q'
        \<and> accounts (mq_jobs demo_queue) (mq_jobs q') (mq_dead_letters q') log"
proof (rule worker_accounts_for_every_job [OF enumerates_sorted_order demo_queue_wf])
  show "idle (mq_jobs demo_queue)"
    by (auto simp: idle_def demo_queue_jobs demo_job_def envelope_new_def can_retry_def split: if_splits)
  show "list_all (tick_ok (mq_visibility_timeout demo_queue)) [demo_tick]"
    by (simp add: demo_queue_jobs tick_ok_def demo_tick_def systime_sup_def nanos_per_sec_def)
qed

lemma memory_queue_stays_consistent_witness:
  "\<not> mq_poisoned demo_queue"
proof -
  have new: "mq_new\<lparr>mq_visibility_timeout := None\<rparr> = mq_new" by (simp add: mq_new_def)
  have "mq_history sorted_order [CallPush demo_job] (mq_new\<lparr>mq_visibility_timeout := None\<rparr>) = Some demo_queue"
    using demo_fresh by (simp add: new demo_queue_def)
  from memory_queue_stays_consistent [OF enumerates_sorted_order this] show ?thesis by blast
qed

lemma push_once_per_key_witness:
  "\<exists>q'. mq_push demo_job mq_new = (Inr (JobCreated 7), q') \<and> mq_ready q' = [7]"
  using push_once_per_key [OF mq_new_wf(1) demo_fresh]
  by (auto simp: mq_new_def demo_job_def envelope_new_def)

lemma reserve_delivers_first_runnable_witness:
  "mq_wf (snd (mq_reserve sorted_order 5 demo_queue))"
  using reserve_delivers_first_runnable [OF enumerates_sorted_order demo_queue_wf, of None 5]
  by (simp add: demo_queue_jobs Let_def)

lemma late_answer_loses_job_witness:
  "fst (mq_ack 7 demo_queue) = Inl (InvalidState 7) \<and> mq_jobs (snd (mq_ack 7 demo_queue)) 7 = None"
  using late_answer_loses_job [OF demo_queue_wf, of 7] by (simp add: demo_queue_jobs)

lemma time_round_trip_witness:
  "\<exists>secs. serialize_time 1500000000 = Inr secs \<and> deserialize_time secs = Some 1000000000"
  using time_round_trip [of 1500000000] by (simp add: systime_sup_def nanos_per_sec_def)

end
