(* ===== verification/Sched_Civil.thy ===== *)
theory Sched_Civil
  imports Rust_Collections "HOL-Library.Signed_Division"
begin

text \<open>
  Calendar arithmetic of \<open>phoenix-schedule\<close> (\<open>civil.rs\<close>). Rust's \<open>i64\<close> is \<open>int\<close> with the
  truncating division \<open>sdiv\<close> and the remainder \<open>smod\<close>; the conversions to the narrower types
  saturate as in the source. \<open>days_from_civil\<close>, \<open>days_in_month\<close> and \<open>is_leap_year\<close>, which the
  crate keeps for its tests, are the specification of \<open>civil_from_days\<close>.
\<close>

section \<open>Definitions\<close>

definition SECS_PER_MINUTE :: int where
  "SECS_PER_MINUTE = 60"

definition SECS_PER_DAY :: int where
  "SECS_PER_DAY = 86400"

definition is_leap_year :: "int \<Rightarrow> bool" where
  "is_leap_year year \<longleftrightarrow> year smod 4 = 0 \<and> (year smod 100 \<noteq> 0 \<or> year smod 400 = 0)"

definition days_in_month :: "int \<Rightarrow> int \<Rightarrow> int" where
  "days_in_month year month =
     (if month \<in> {1, 3, 5, 7, 8, 10, 12} then 31
      else if month \<in> {4, 6, 9, 11} then 30
      else if month = 2 then (if is_leap_year year then 29 else 28)
      else 0)"

definition days_from_civil :: "int \<Rightarrow> int \<Rightarrow> int \<Rightarrow> int" where
  "days_from_civil year month day =
     (let year = year - (if month \<le> 2 then 1 else 0);
          era = (if year \<ge> 0 then year else year - 399) sdiv 400;
          year_of_era = year - era * 400;
          month_prime = (month + 9) smod 12;
          day_of_year = (153 * month_prime + 2) sdiv 5 + day - 1;
          day_of_era = year_of_era * 365 + year_of_era sdiv 4 - year_of_era sdiv 100 + day_of_year
      in era * 146097 + day_of_era - 719468)"

definition i32_clamp :: "int \<Rightarrow> int" where
  "i32_clamp n = (if - (2 ^ 31) \<le> n \<and> n < 2 ^ 31 then n else if n > 0 then 2 ^ 31 - 1 else - (2 ^ 31))"

definition u8_or :: "int \<Rightarrow> int \<Rightarrow> int" where
  "u8_or d n = (if 0 \<le> n \<and> n < 256 then n else d)"

definition civil_from_days :: "int \<Rightarrow> int \<times> int \<times> int" where
  "civil_from_days days =
     (let days = days + 719468;
          era = (if days \<ge> 0 then days else days - 146096) sdiv 146097;
          day_of_era = days - era * 146097;
          year_of_era = (day_of_era - day_of_era sdiv 1460 + day_of_era sdiv 36524 - day_of_era sdiv 146096) sdiv 365;
          year = year_of_era + era * 400;
          day_of_year = day_of_era - (365 * year_of_era + year_of_era sdiv 4 - year_of_era sdiv 100);
          month_prime = (5 * day_of_year + 2) sdiv 153;
          day = day_of_year - (153 * month_prime + 2) sdiv 5 + 1;
          month = (if month_prime < 10 then month_prime + 3 else month_prime - 9);
          year = year + (if month \<le> 2 then 1 else 0)
      in (i32_clamp year, u8_or 1 month, u8_or 1 day))"

definition weekday_from_days :: "int \<Rightarrow> int" where
  "weekday_from_days days = u8_or 0 ((days + 4) mod 7)"

definition unix_from_civil :: "int \<Rightarrow> int \<Rightarrow> int \<Rightarrow> int \<Rightarrow> int \<Rightarrow> int" where
  "unix_from_civil year month day hour minute =
     days_from_civil year month day * SECS_PER_DAY + hour * 3600 + minute * SECS_PER_MINUTE"

section \<open>Division\<close>

lemma sdiv_nonneg: "0 \<le> (a :: int) \<Longrightarrow> 0 < b \<Longrightarrow> a sdiv b = a div b"
  by (cases "a = 0") (simp_all add: signed_divide_int_def)

lemma smod_nonneg: "0 \<le> (a :: int) \<Longrightarrow> 0 < b \<Longrightarrow> a smod b = a mod b"
  by (simp add: signed_modulo_int_def sgn_if abs_if)

text \<open>The idiom for rounding a quotient down.\<close>

lemma floor_idiom:
  assumes "0 < (b :: int)" and k: "k = b - 1"
  shows "(if a \<ge> 0 then a else a - k) sdiv b = a div b"
proof (cases "a \<ge> 0")
  case True
  then show ?thesis using assms(1) by (simp add: sdiv_nonneg)
next
  case False
  have "(a - (b - 1)) sdiv b = - ((- (a - (b - 1))) div b)"
    using False assms(1) by (simp add: signed_divide_int_def sgn_if abs_if)
  also have "(- (a - (b - 1))) div b = - (a div b)"
  proof (rule int_div_pos_eq [of _ _ _ "b - 1 - a mod b"])
    show "- (a - (b - 1)) = b * - (a div b) + (b - 1 - a mod b)"
      using div_mult_mod_eq [of a b] by (simp add: algebra_simps)
    show "0 \<le> b - 1 - a mod b" "b - 1 - a mod b < b"
      using pos_mod_bound [OF assms(1), of a] pos_mod_sign [OF assms(1), of a] by linarith+
  qed
  finally show ?thesis using False by (simp add: k)
qed

section \<open>Years of an era\<close>

text \<open>
  A day of an era is day \<open>doy\<close> of year \<open>100 c + 4 q + s\<close>, where only the last year of a block
  of four has a day 365, and of the blocks that end a century only the last one.
\<close>

definition era_day :: "int \<Rightarrow> int \<Rightarrow> int \<Rightarrow> int \<Rightarrow> int \<Rightarrow> bool" where
  "era_day doe c q s doy \<longleftrightarrow>
     doe = 36524 * c + 1461 * q + 365 * s + doy \<and> 0 \<le> c \<and> c \<le> 3 \<and> 0 \<le> q \<and> q \<le> 24 \<and> 0 \<le> s \<and> s \<le> 3 \<and>
     0 \<le> doy \<and> doy \<le> 365 \<and> (doy = 365 \<longrightarrow> s = 3 \<and> (q < 24 \<or> c = 3))"

lemma era_day_exists:
  assumes "0 \<le> doe" and "doe < 146097"
  shows "\<exists>c q s doy. era_day doe c q s doy"
proof -
  define c where "c = min 3 (doe div 36524)"
  define r where "r = doe - 36524 * c"
  have c: "0 \<le> c" "c \<le> 3" "0 \<le> r" "r \<le> 36524" "r = 36524 \<longrightarrow> c = 3"
    using assms unfolding c_def r_def by (auto simp: min_def)
  define q where "q = min 24 (r div 1461)"
  define r2 where "r2 = r - 1461 * q"
  have q: "0 \<le> q" "q \<le> 24" "0 \<le> r2" "r2 \<le> 1460" "r2 = 1460 \<longrightarrow> q < 24 \<or> c = 3"
    using c unfolding q_def r2_def by (auto simp: min_def)
  define s where "s = min 3 (r2 div 365)"
  define doy where "doy = r2 - 365 * s"
  have s: "0 \<le> s" "s \<le> 3" "0 \<le> doy" "doy \<le> 365" "doy = 365 \<longrightarrow> s = 3 \<and> r2 = 1460"
    using q unfolding s_def doy_def by (auto simp: min_def)
  have "doe = 36524 * c + r" "r = 1461 * q + r2" "r2 = 365 * s + doy"
    by (simp_all add: r_def r2_def doy_def)
  then have "doe = 36524 * c + 1461 * q + 365 * s + doy" by linarith
  then have "era_day doe c q s doy" using c q s unfolding era_day_def by blast
  then show ?thesis by blast
qed

lemma era_year_of_day:
  assumes "era_day doe c q s doy"
  shows "(doe - doe div 1460 + doe div 36524 - doe div 146096) div 365 = 100 * c + 4 * q + s"
proof -
  note d = assms [unfolded era_day_def]
  define e1 where "e1 = (if 24 * c + q + 365 * s + doy \<ge> 1460 then 1 else (0 :: int))"
  define e2 where "e2 = (if 1461 * q + 365 * s + doy \<ge> 36524 then 1 else (0 :: int))"
  define e3 where "e3 = (if doe = 146096 then 1 else (0 :: int))"
  have d1: "doe div 1460 = 25 * c + q + e1"
    using d by (intro int_div_pos_eq [of _ _ _ "24 * c + q + 365 * s + doy - 1460 * e1"]) (auto simp: e1_def)
  have d2: "doe div 36524 = c + e2"
    using d by (intro int_div_pos_eq [of _ _ _ "1461 * q + 365 * s + doy - 36524 * e2"]) (auto simp: e2_def)
  have d3: "doe div 146096 = e3"
    using d by (intro int_div_pos_eq [of _ _ _ "doe - 146096 * e3"]) (auto simp: e3_def)
  show ?thesis
    unfolding d1 d2 d3 using d
    by (intro int_div_pos_eq [of _ _ _ "doy - e1 + e2 - e3"]) (auto simp: e1_def e2_def e3_def)
qed

lemma year_start:
  fixes c q s :: int
  assumes "0 \<le> q" "q \<le> 24" "0 \<le> s" "s \<le> 3"
  shows "(100 * c + 4 * q + s) div 4 = 25 * c + q" and "(100 * c + 4 * q + s) div 100 = c"
  using assms by (auto intro!: int_div_pos_eq [of _ _ _ s] int_div_pos_eq [of _ _ _ "4 * q + s"])

section \<open>Days and dates\<close>

lemma smod_0_iff: "(a :: int) smod b = 0 \<longleftrightarrow> b dvd a"
  by (auto simp: signed_modulo_int_def sgn_0_0 simp flip: dvd_eq_mod_eq_0)

text \<open>The date of a day, from its place in the era.\<close>

lemma era_day_pos:
  assumes "era_day doe c q s doy"
  shows "0 \<le> doe" "0 \<le> 100 * c + 4 * q + s" "100 * c + 4 * q + s < 400"
    "0 \<le> doe - doe div 1460 + doe div 36524 - doe div 146096"
proof -
  show "0 \<le> doe" "0 \<le> 100 * c + 4 * q + s" "100 * c + 4 * q + s < 400" using assms by (auto simp: era_day_def)
  then have "0 \<le> (doe - doe div 1460 + doe div 36524 - doe div 146096) div 365"
    unfolding era_year_of_day [OF assms] by simp
  then show "0 \<le> doe - doe div 1460 + doe div 36524 - doe div 146096"
    using pos_imp_zdiv_nonneg_iff [of 365] by simp
qed

lemma era_day_of_year:
  assumes "era_day doe c q s doy"
  shows "doe - (365 * (100 * c + 4 * q + s) + (100 * c + 4 * q + s) div 4 - (100 * c + 4 * q + s) div 100) = doy"
proof -
  have r: "0 \<le> q" "q \<le> 24" "0 \<le> s" "s \<le> 3" using assms by (simp_all add: era_day_def)
  show ?thesis unfolding year_start [OF r] using assms by (simp add: era_day_def)
qed

lemma civil_from_era:
  assumes d: "era_day doe c q s doy" and days: "days + 719468 = e * 146097 + doe" "doe < 146097"
    and mp: "mp = (5 * doy + 2) div 153"
  shows "civil_from_days days =
    (let month = (if mp < 10 then mp + 3 else mp - 9)
     in (i32_clamp (400 * e + 100 * c + 4 * q + s + (if month \<le> 2 then 1 else 0)),
         u8_or 1 month, u8_or 1 (doy - (153 * mp + 2) div 5 + 1)))"
proof -
  note pos = era_day_pos [OF d]
  have "(days + 719468) div 146097 = e"
    using days pos(1) by (intro int_div_pos_eq [of _ _ _ doe]) auto
  then have era: "(if days + 719468 \<ge> 0 then days + 719468 else days + 719468 - 146096) sdiv 146097 = e"
    using floor_idiom [of 146097 146096 "days + 719468"] by simp
  have doe: "days + 719468 - e * 146097 = doe" using days(1) by simp
  have yoe: "(doe - doe sdiv 1460 + doe sdiv 36524 - doe sdiv 146096) sdiv 365 = 100 * c + 4 * q + s"
    using era_year_of_day [OF d] pos(1,4) by (simp add: sdiv_nonneg)
  have doy: "doe - (365 * (100 * c + 4 * q + s) + (100 * c + 4 * q + s) sdiv 4 - (100 * c + 4 * q + s) sdiv 100) = doy"
    using era_day_of_year [OF d] pos(2) by (simp add: sdiv_nonneg)
  have doy_pos: "0 \<le> doy" using d by (simp add: era_day_def)
  have mps: "(5 * doy + 2) sdiv 153 = mp" using doy_pos mp by (simp add: sdiv_nonneg)
  have "0 \<le> mp" using mp doy_pos by simp
  then have mds: "(153 * mp + 2) sdiv 5 = (153 * mp + 2) div 5" by (simp add: sdiv_nonneg)
  show ?thesis
    unfolding civil_from_days_def Let_def era doe yoe doy mps mds by (simp add: algebra_simps)
qed

lemma month_table:
  fixes doy :: int
  assumes "0 \<le> doy" "doy \<le> 365" and mp: "mp = (5 * doy + 2) div 153"
  shows "0 \<le> mp" "mp \<le> 11" "1 \<le> doy - (153 * mp + 2) div 5 + 1"
    and "doy - (153 * mp + 2) div 5 + 1 \<le> (if mp = 11 then 29 else if mp \<in> {1, 3, 6, 8} then 30 else 31)"
    and "mp = 11 \<Longrightarrow> doy - (153 * mp + 2) div 5 + 1 = 29 \<Longrightarrow> doy = 365"
proof -
  have b: "153 * mp \<le> 5 * doy + 2" "5 * doy + 2 < 153 * mp + 153"
    using mp by simp_all
  show r: "0 \<le> mp" "mp \<le> 11" using b assms(1,2) by linarith+
  then have "mp \<in> {0, 1, 2, 3, 4, 5, 6, 7, 8, 9, 10, 11}" by (simp, presburger)
  then show "1 \<le> doy - (153 * mp + 2) div 5 + 1"
    and "doy - (153 * mp + 2) div 5 + 1 \<le> (if mp = 11 then 29 else if mp \<in> {1, 3, 6, 8} then 30 else 31)"
    and "mp = 11 \<Longrightarrow> doy - (153 * mp + 2) div 5 + 1 = 29 \<Longrightarrow> doy = 365"
    using b assms(2) by auto
qed

lemma leap_day:
  assumes "era_day doe c q s 365"
  shows "is_leap_year (400 * e + 100 * c + 4 * q + s + 1)"
proof -
  have s: "s = 3" "q < 24 \<or> c = 3" and r: "0 \<le> q" "q \<le> 24" using assms by (auto simp: era_day_def)
  let ?y = "400 * e + 100 * c + 4 * q + s + 1"
  have y4: "?y = 4 * (100 * e + 25 * c + q + 1)" and y100: "?y = 4 * (q + 1) + (4 * e + c) * 100"
    using s(1) by simp_all
  have four: "4 dvd ?y" unfolding y4 by (rule dvd_triv_left)
  have "\<not> 100 dvd ?y" if "q < 24"
  proof -
    have "?y mod 100 = (4 * (q + 1)) mod 100" unfolding y100 by (rule mod_mult_self1)
    also have "\<dots> = 4 * (q + 1)" using r that by (intro mod_pos_pos_trivial) auto
    finally show ?thesis using r by (simp add: dvd_eq_mod_eq_0)
  qed
  moreover have "400 dvd ?y" if "\<not> q < 24"
  proof -
    have "?y = 400 * (e + 1)" using s r that by simp
    then show ?thesis by (metis dvd_triv_left)
  qed
  ultimately show ?thesis using four unfolding is_leap_year_def smod_0_iff by blast
qed

lemma days_from_era:
  assumes d: "era_day doe c q s doy" and mp: "0 \<le> mp" "mp \<le> 11"
    and month: "month = (if mp < 10 then mp + 3 else mp - 9)"
    and day: "day = doy - (153 * mp + 2) div 5 + 1"
  shows "days_from_civil (400 * e + 100 * c + 4 * q + s + (if month \<le> 2 then 1 else 0)) month day
    = e * 146097 + doe - 719468"
proof -
  note pos = era_day_pos [OF d]
  let ?yoe = "100 * c + 4 * q + s"
  have y: "400 * e + 100 * c + 4 * q + s + (if month \<le> 2 then 1 else 0) - (if month \<le> 2 then 1 else 0)
      = 400 * e + ?yoe" by simp
  have "(400 * e + ?yoe) div 400 = e" using pos(2,3) by (intro int_div_pos_eq [of _ _ _ ?yoe]) auto
  then have era: "(if 400 * e + ?yoe \<ge> 0 then 400 * e + ?yoe else 400 * e + ?yoe - 399) sdiv 400 = e"
    using floor_idiom [of 400 399 "400 * e + ?yoe"] by simp
  have yoe: "400 * e + ?yoe - e * 400 = ?yoe" by simp
  have "(month + 9) mod 12 = mp"
    using mp month by (cases "mp < 10") (simp_all add: mod_pos_pos_trivial mod_add_self2)
  then have mps: "(month + 9) smod 12 = mp" using month mp by (simp add: smod_nonneg)
  have mds: "(153 * mp + 2) sdiv 5 = (153 * mp + 2) div 5" using mp by (simp add: sdiv_nonneg)
  have doe: "?yoe * 365 + ?yoe sdiv 4 - ?yoe sdiv 100 + doy = doe"
    using era_day_of_year [OF d] pos(2) by (simp add: sdiv_nonneg)
  show ?thesis
    unfolding days_from_civil_def Let_def y era yoe mps mds day using doe by (simp add: algebra_simps)
qed

lemma era_of_days: "\<exists>e doe. days + 719468 = e * 146097 + doe \<and> 0 \<le> doe \<and> doe < (146097 :: int)"
  by (rule exI [of _ "(days + 719468) div 146097"], rule exI [of _ "(days + 719468) mod 146097"]) simp

lemma i32_clamp_id: "- (2 ^ 31) \<le> n \<Longrightarrow> n < 2 ^ 31 \<Longrightarrow> i32_clamp n = n"
  by (simp add: i32_clamp_def)

text \<open>
  \<open>civil_from_days\<close> is exact. For every day within half a trillion days of the epoch it
  returns a real calendar date, with a month from 1 to 12 and a day that exists in that
  month of that year, leap days included, and \<open>days_from_civil\<close> takes the date back to the
  same day; so different days get different dates.
\<close>
theorem civil_round_trip:
  assumes "\<bar>days\<bar> \<le> 2 ^ 39"
  shows "case civil_from_days days of (year, month, day) \<Rightarrow>
     1 \<le> month \<and> month \<le> 12 \<and> 1 \<le> day \<and> day \<le> days_in_month year month
     \<and> days_from_civil year month day = days"
proof -
  obtain e doe where e: "days + 719468 = e * 146097 + doe" "0 \<le> doe" "doe < 146097"
    using era_of_days by blast
  obtain c q s doy where d: "era_day doe c q s doy" using era_day_exists [OF e(2,3)] by blast
  define mp where "mp = (5 * doy + 2) div 153"
  define month where "month = (if mp < 10 then mp + 3 else mp - 9)"
  define day where "day = doy - (153 * mp + 2) div 5 + 1"
  define year where "year = 400 * e + 100 * c + 4 * q + s + (if month \<le> 2 then 1 else 0)"
  have doy: "0 \<le> doy" "doy \<le> 365" using d by (simp_all add: era_day_def)
  note table = month_table [OF doy mp_def, folded day_def]
  have m: "1 \<le> month" "month \<le> 12" using table(1,2) by (auto simp: month_def)
  have d31: "day \<le> 31" using table(4) by (auto split: if_splits)
  have "- 549755813888 \<le> days" "days \<le> 549755813888" using assms by simp_all
  then have e_bound: "- 4000000 \<le> e" "e \<le> 4000000" using e by linarith+
  then have "- (2 ^ 31) \<le> year" "year < 2 ^ 31"
    using era_day_pos(2,3) [OF d] by (auto simp: year_def)
  then have civil: "civil_from_days days = (year, month, day)"
    using civil_from_era [OF d e(1,3) mp_def] m table(3) d31
    by (simp add: Let_def u8_or_def i32_clamp_id flip: month_def day_def year_def)
  have again: "days_from_civil year month day = days"
    using days_from_era [OF d table(1,2) month_def day_def, of e] e(1) by (simp add: year_def)
  have leap: "is_leap_year year" if "mp = 11" "day = 29"
    using leap_day [of doe c q s e] table(5) that d by (simp add: year_def month_def)
  have "day \<le> days_in_month year month"
  proof (cases "mp = 11")
    case True
    then show ?thesis using table(4) leap by (fastforce simp: month_def days_in_month_def)
  next
    case False
    have "mp \<in> {0, 1, 2, 3, 4, 5, 6, 7, 8, 9, 10}" using table(1,2) False by (simp, presburger)
    then show ?thesis using table(4) by (auto simp: month_def days_in_month_def)
  qed
  then show ?thesis using civil m table(3) again by simp
qed

lemma civil_round_trip_witness:
  "civil_from_days 11016 = (2000, 2, 29) \<and> days_from_civil 2000 2 29 = 11016"
proof -
  have "civil_from_days 11016 = (2000, 2, 29)" by code_simp
  then show ?thesis using civil_round_trip [of 11016] by simp
qed

end
