(* ===== verification/Sched_Cron.thy ===== *)
theory Sched_Cron
  imports Sched_Civil
begin

unbundle bit_operations_syntax

text \<open>
  Cron expressions (\<open>cron.rs\<close>): the parser of the five fields into bit masks, and the search
  for the next matching minute. A field value is a \<open>u8\<close>, a mask a \<open>u64\<close>; days and seconds are
  \<open>int\<close>. \<open>item_values\<close> says which values a list item stands for, and \<open>cron_matches\<close> which
  instants an expression matches; the theorems relate the parser to the first and the
  search to the second.
\<close>

section \<open>Masks\<close>

text \<open>\<open>1 << n\<close> on \<open>u64\<close> in a build without overflow checks: the distance counts modulo 64.\<close>

definition mask_bit :: "nat \<Rightarrow> u64" where
  "mask_bit n = push_bit (n mod 64) 1"

definition mask_has :: "u64 \<Rightarrow> int \<Rightarrow> bool" where
  "mask_has m i \<longleftrightarrow> m AND mask_bit (nat i) \<noteq> 0"

section \<open>Parsing\<close>

datatype schedule_error =
    InvalidCron string string
  | InvalidDailyTime string

record cron_expr =
  ce_minutes :: u64
  ce_hours :: u64
  ce_days_of_month :: u64
  ce_months :: u64
  ce_days_of_week :: u64
  ce_dom_restricted :: bool
  ce_dow_restricted :: bool

definition fold_sunday :: "u64 \<Rightarrow> u64" where
  "fold_sunday m = (m AND 0x7F) OR (drop_bit 7 m AND 1)"

definition parse_number :: "string \<Rightarrow> string \<Rightarrow> string + u8" where
  "parse_number txt what =
     (if txt = [] \<or> \<not> list_all is_ascii_digit txt
      then Inl (''invalid '' @ what @ '' `'' @ txt @ ''` (digits only)'')
      else case parse_digits txt of
             None \<Rightarrow> Inl (''invalid '' @ what @ '' `'' @ txt @ ''` (too large)'')
           | Some v \<Rightarrow> Inr v)"

text \<open>
  The loop that sets the bits from \<open>v\<close> to \<open>end\<close>. The source enters it with a step of at
  least 1, so that the next value is larger; the test \<open>v < nxt\<close> only makes the function
  total.
\<close>

function fill_bits :: "u8 \<Rightarrow> u8 \<Rightarrow> u8 \<Rightarrow> u64 \<Rightarrow> u64" where
  "fill_bits stop step v msk =
     (let msk = msk OR mask_bit (unat v)
      in case w_checked_add v step of
           Some nxt \<Rightarrow> if nxt \<le> stop \<and> v < nxt then fill_bits stop step nxt msk else msk
         | None \<Rightarrow> msk)"
  by pat_completeness auto
termination
  by (relation "measure (\<lambda>(stop, step, v, msk). 256 - unat v)")
    (auto simp: word_less_nat_alt intro!: diff_less_mono2 order_less_le_trans [OF unsigned_less])

declare fill_bits.simps [simp del]

definition parse_step :: "string \<Rightarrow> string + (string \<times> u8)" where
  "parse_step item =
     (case split_once (CHR ''/'') item of
        Some (base, step_text) \<Rightarrow>
          res_bind (parse_number step_text ''step'') (\<lambda>step.
          if step = 0 then Inl (''step must be >= 1 in `'' @ item @ ''`'') else Inr (base, step))
      | None \<Rightarrow> Inr (item, 1))"

definition parse_range :: "string \<Rightarrow> string \<Rightarrow> u8 \<Rightarrow> u8 \<Rightarrow> u8 \<Rightarrow> string + (u8 \<times> u8)" where
  "parse_range item base step lo hi =
     (if base = ''*'' then Inr (lo, hi)
      else case split_once (CHR ''-'') base of
             Some (low, high) \<Rightarrow>
               res_bind (parse_number low ''range start'') (\<lambda>low.
               res_bind (parse_number high ''range end'') (\<lambda>high.
               if low > high then Inl (''range start exceeds range end in `'' @ item @ ''`'')
               else Inr (low, high)))
           | None \<Rightarrow>
               res_bind (parse_number base ''value'') (\<lambda>v. Inr (if step > 1 then (v, hi) else (v, v))))"

definition u8_text :: "u8 \<Rightarrow> string" where
  "u8_text n = nat_to_string (unat n)"

definition parse_item :: "string \<Rightarrow> u8 \<Rightarrow> u8 \<Rightarrow> string + u64" where
  "parse_item item lo hi =
     (if item = [] then Inl ''empty list item (double comma?)''
      else
        res_bind (parse_step item) (\<lambda>(base, step).
        res_bind (parse_range item base step lo hi) (\<lambda>(start, stop).
        if start < lo \<or> stop > hi
        then Inl (''value out of range in `'' @ item @ ''` (allowed '' @ u8_text lo @ ''-'' @ u8_text hi @ '')'')
        else Inr (fill_bits stop step start 0))))"

fun parse_items :: "string list \<Rightarrow> u8 \<Rightarrow> u8 \<Rightarrow> u64 \<Rightarrow> string + u64" where
  "parse_items [] lo hi msk = Inr msk"
| "parse_items (item # items) lo hi msk =
     res_bind (parse_item item lo hi) (\<lambda>m. parse_items items lo hi (msk OR m))"

definition parse_field :: "string \<Rightarrow> u8 \<Rightarrow> u8 \<Rightarrow> string + u64" where
  "parse_field txt lo hi =
     (if txt = [] then Inl ''empty field'' else parse_items (split_on (CHR '','') txt) lo hi 0)"

definition fields_message :: string where
  "fields_message = ''expected exactly 5 fields ('' @
     bytes [0xE5, 0x88, 0x86, 0x20, 0xE6, 0x97, 0xB6, 0x20, 0xE6, 0x97, 0xA5, 0x20, 0xE6, 0x9C, 0x88, 0x20,
       0xE5, 0x91, 0xA8] @ '')''"

definition map_err :: "('e \<Rightarrow> 'f) \<Rightarrow> 'e + 'a \<Rightarrow> 'f + 'a" where
  "map_err f r = (case r of Inl e \<Rightarrow> Inl (f e) | Inr x \<Rightarrow> Inr x)"

definition cron_parse :: "string \<Rightarrow> schedule_error + cron_expr" where
  "cron_parse expr =
     (case split_whitespace expr of
        [minute, hour, dom_text, month, dow] \<Rightarrow>
          res_bind (map_err (InvalidCron expr) (parse_field minute 0 59)) (\<lambda>minutes.
          res_bind (map_err (InvalidCron expr) (parse_field hour 0 23)) (\<lambda>hours.
          res_bind (map_err (InvalidCron expr) (parse_field dom_text 1 31)) (\<lambda>days_of_month.
          res_bind (map_err (InvalidCron expr) (parse_field month 1 12)) (\<lambda>months.
          res_bind (map_err (InvalidCron expr) (parse_field dow 0 7)) (\<lambda>days_of_week.
          Inr \<lparr>ce_minutes = minutes, ce_hours = hours, ce_days_of_month = days_of_month, ce_months = months,
               ce_days_of_week = fold_sunday days_of_week, ce_dom_restricted = (dom_text \<noteq> ''*''),
               ce_dow_restricted = (dow \<noteq> ''*'')\<rparr>)))))
      | _ \<Rightarrow> Inl (InvalidCron expr fields_message))"

section \<open>Matching\<close>

definition MAX_SEARCH_DAYS :: nat where
  "MAX_SEARCH_DAYS = 366 * 9"

definition day_matches :: "cron_expr \<Rightarrow> int \<Rightarrow> int \<Rightarrow> int \<Rightarrow> bool" where
  "day_matches e days_since_epoch month day =
     (if \<not> mask_has (ce_months e) month then False
      else
        let by_day_of_month = mask_has (ce_days_of_month e) day;
            by_weekday = mask_has (ce_days_of_week e) (weekday_from_days days_since_epoch)
        in case (ce_dom_restricted e, ce_dow_restricted e) of
             (False, False) \<Rightarrow> True
           | (True, False) \<Rightarrow> by_day_of_month
           | (False, True) \<Rightarrow> by_weekday
           | (True, True) \<Rightarrow> by_day_of_month \<or> by_weekday)"

text \<open>The two nested loops of \<open>first_minute_of_day\<close>, over the remaining hours and minutes.\<close>

fun scan_minutes :: "cron_expr \<Rightarrow> int \<Rightarrow> int \<Rightarrow> int list \<Rightarrow> int option" where
  "scan_minutes e earliest hour [] = None"
| "scan_minutes e earliest hour (minute # ms) =
     (if mask_has (ce_minutes e) minute \<and> hour * 60 + minute \<ge> earliest then Some (hour * 60 + minute)
      else scan_minutes e earliest hour ms)"

fun scan_hours :: "cron_expr \<Rightarrow> int \<Rightarrow> int list \<Rightarrow> int option" where
  "scan_hours e earliest [] = None"
| "scan_hours e earliest (hour # hs) =
     (if \<not> mask_has (ce_hours e) hour \<or> hour * 60 + 59 < earliest then scan_hours e earliest hs
      else case scan_minutes e earliest hour [0..59] of
             Some m \<Rightarrow> Some m
           | None \<Rightarrow> scan_hours e earliest hs)"

definition first_minute_of_day :: "cron_expr \<Rightarrow> int \<Rightarrow> int option" where
  "first_minute_of_day e earliest = scan_hours e earliest [0..23]"

text \<open>The loop over the days; \<open>n\<close> offsets are left to try.\<close>

fun search_days :: "cron_expr \<Rightarrow> int \<Rightarrow> int \<Rightarrow> int \<Rightarrow> nat \<Rightarrow> int option" where
  "search_days e start_day start_minute_of_day offset 0 = None"
| "search_days e start_day start_minute_of_day offset (Suc n) =
     (let day_index = start_day + offset;
          (_, month, day) = civil_from_days day_index;
          rest = (\<lambda>_. search_days e start_day start_minute_of_day (offset + 1) n)
      in if \<not> day_matches e day_index month day then rest ()
         else case first_minute_of_day e (if offset = 0 then start_minute_of_day else 0) of
                Some minute_of_day \<Rightarrow> Some (day_index * SECS_PER_DAY + minute_of_day * SECS_PER_MINUTE)
              | None \<Rightarrow> rest ())"

definition next_match :: "cron_expr \<Rightarrow> int \<Rightarrow> int option" where
  "next_match e after =
     (let start = (after div SECS_PER_MINUTE + 1) * SECS_PER_MINUTE;
          start_day = start div SECS_PER_DAY;
          start_minute_of_day = (start - start_day * SECS_PER_DAY) sdiv SECS_PER_MINUTE
      in search_days e start_day start_minute_of_day 0 (Suc MAX_SEARCH_DAYS))"

section \<open>What the masks contain\<close>

lemma bit_mask_bit: "bit (mask_bit n) k \<longleftrightarrow> k = n mod 64"
  by (auto simp: mask_bit_def bit_exp_iff)

lemma mask_has_bit: "0 \<le> i \<Longrightarrow> i < 64 \<Longrightarrow> mask_has m i \<longleftrightarrow> bit m (nat i)"
  by (simp add: mask_has_def mask_bit_def bit_iff_and_push_bit_not_eq_0)

lemma fill_bits_step:
  "fill_bits stop step v m =
     (if unat v + unat step \<le> unat stop \<and> 0 < step then fill_bits stop step (v + step) (m OR mask_bit (unat v))
      else m OR mask_bit (unat v))"
proof -
  have add: "w_checked_add v step = (if unat v + unat step < 256 then Some (v + step) else None)"
    by (simp add: w_checked_add_def)
  have sum: "unat (v + step) = unat v + unat step" if "unat v + unat step < 256"
    using that by (simp add: unat_word_ariths)
  have "unat stop < 256" using unsigned_less [of stop] by simp
  then show ?thesis
    by (subst fill_bits.simps) (auto simp: add sum Let_def word_le_nat_alt word_less_nat_alt word_gt_0 split: if_splits)
qed

lemma bit_fill_bits:
  assumes "0 < step" and "unat stop < 64" and "unat v \<le> unat stop"
  shows "bit (fill_bits stop step v m) n \<longleftrightarrow>
    bit m n \<or> (\<exists>k. n = unat v + k * unat step \<and> n \<le> unat stop)"
  using assms(3)
proof (induction "unat stop - unat v" arbitrary: v m rule: less_induct)
  case less
  have pos: "0 < unat step" using assms(1) by (simp add: word_less_nat_alt)
  have hd: "bit (m OR mask_bit (unat v)) n \<longleftrightarrow> bit m n \<or> n = unat v"
    using less.prems assms(2) by (auto simp: bit_or_iff bit_mask_bit)
  have shift: "(\<exists>k. n = unat v + k * unat step \<and> n \<le> unat stop) \<longleftrightarrow>
      n = unat v \<or> (\<exists>k. n = unat v + unat step + k * unat step \<and> n \<le> unat stop)"
  proof
    assume "\<exists>k. n = unat v + k * unat step \<and> n \<le> unat stop"
    then obtain k where "n = unat v + k * unat step" "n \<le> unat stop" by blast
    then show "n = unat v \<or> (\<exists>k. n = unat v + unat step + k * unat step \<and> n \<le> unat stop)"
      by (cases k) auto
  next
    assume "n = unat v \<or> (\<exists>k. n = unat v + unat step + k * unat step \<and> n \<le> unat stop)"
    then show "\<exists>k. n = unat v + k * unat step \<and> n \<le> unat stop"
      using less.prems by (auto intro: exI [of _ 0]) (metis add.assoc mult_Suc)
  qed
  show ?case
  proof (cases "unat v + unat step \<le> unat stop")
    case True
    have sum: "unat (v + step) = unat v + unat step"
      using True assms(2) by (simp add: unat_word_ariths)
    have "bit (fill_bits stop step (v + step) (m OR mask_bit (unat v))) n \<longleftrightarrow>
        bit (m OR mask_bit (unat v)) n \<or> (\<exists>k. n = unat (v + step) + k * unat step \<and> n \<le> unat stop)"
      by (rule less.hyps) (use True pos sum in auto)
    then show ?thesis
      unfolding fill_bits_step [of stop step v] shift using True assms(1) hd sum by auto
  next
    case False
    then have "\<not> (\<exists>k. n = unat v + unat step + k * unat step \<and> n \<le> unat stop)" by auto
    then show ?thesis
      unfolding fill_bits_step [of stop step v] shift using False hd by auto
  qed
qed

text \<open>
  The values one list item stands for: \<open>start\<close>, \<open>start + step\<close>, and so on up to \<open>stop\<close>.
  \<open>item_in_range\<close> excludes the form \<open>N/S\<close> whose start lies beyond the field.
\<close>

definition item_bounds :: "string \<Rightarrow> u8 \<Rightarrow> u8 \<Rightarrow> string + (u8 \<times> u8 \<times> u8)" where
  "item_bounds item lo hi =
     res_bind (parse_step item) (\<lambda>(base, step).
     res_bind (parse_range item base step lo hi) (\<lambda>(start, stop). Inr (start, stop, step)))"

definition item_has :: "u8 \<Rightarrow> u8 \<Rightarrow> string \<Rightarrow> nat \<Rightarrow> bool" where
  "item_has lo hi item n =
     (case item_bounds item lo hi of
        Inr (start, stop, step) \<Rightarrow> (\<exists>k. n = unat start + k * unat step \<and> n \<le> unat stop)
      | Inl _ \<Rightarrow> False)"

definition item_in_range :: "u8 \<Rightarrow> u8 \<Rightarrow> string \<Rightarrow> bool" where
  "item_in_range lo hi item =
     (case item_bounds item lo hi of Inr (start, stop, step) \<Rightarrow> start \<le> stop | Inl _ \<Rightarrow> True)"

lemma parse_step_positive: "parse_step item = Inr (base, step) \<Longrightarrow> 0 < step"
  by (auto simp: parse_step_def res_bind_Inr_iff word_gt_0 split: option.splits if_splits)

lemma parse_item_bits:
  assumes "parse_item item lo hi = Inr m" and "item_in_range lo hi item" and "unat hi < 64"
  shows "bit m n \<longleftrightarrow> item_has lo hi item n" and "item_has lo hi item n \<Longrightarrow> unat lo \<le> n \<and> n \<le> unat hi"
    and "\<exists>n. item_has lo hi item n"
proof -
  obtain base step start stop where p: "parse_step item = Inr (base, step)"
    "parse_range item base step lo hi = Inr (start, stop)" "\<not> start < lo" "\<not> stop > hi" "m = fill_bits stop step start 0"
    using assms(1) by (auto simp: parse_item_def res_bind_Inr_iff split: if_splits)
  have b: "item_bounds item lo hi = Inr (start, stop, step)" by (simp add: item_bounds_def p(1,2))
  have le: "unat start \<le> unat stop" using assms(2) b by (simp add: item_in_range_def word_le_nat_alt)
  have lo: "unat lo \<le> unat start" and hi: "unat stop \<le> unat hi" using p(3,4) by (simp_all add: word_less_nat_alt)
  show "bit m n \<longleftrightarrow> item_has lo hi item n"
    using bit_fill_bits [OF parse_step_positive [OF p(1)] _ le, of 0 n] hi assms(3) b by (simp add: p(5) item_has_def)
  show "item_has lo hi item n \<Longrightarrow> unat lo \<le> n \<and> n \<le> unat hi"
    using lo hi b by (auto simp: item_has_def)
  have "item_has lo hi item (unat start)" using le b by (auto simp: item_has_def intro: exI [of _ 0])
  then show "\<exists>n. item_has lo hi item n" by blast
qed

lemma parse_items_bits:
  assumes "parse_items items lo hi m0 = Inr m" and "list_all (item_in_range lo hi) items" and "unat hi < 64"
  shows "bit m n \<longleftrightarrow> bit m0 n \<or> (\<exists>item \<in> set items. item_has lo hi item n)"
  using assms(1,2)
proof (induction items arbitrary: m0)
  case (Cons item items)
  then obtain m1 where "parse_item item lo hi = Inr m1" "parse_items items lo hi (m0 OR m1) = Inr m"
    by (auto simp: res_bind_Inr_iff)
  then show ?case
    using Cons parse_item_bits(1) [of item lo hi m1 n] assms(3) by (auto simp: bit_or_iff)
qed simp

lemma parse_items_each: "parse_items items lo hi m0 = Inr m \<Longrightarrow> item \<in> set items \<Longrightarrow> \<exists>m1. parse_item item lo hi = Inr m1"
  by (induction items arbitrary: m0) (auto simp: res_bind_Inr_iff)

text \<open>
  The mask \<open>parse_field\<close> returns for a field whose starts lie inside it contains exactly
  the values its comma-separated items stand for; all of them lie in the range of the
  field, and there is at least one.
\<close>
theorem parse_field_bits:
  assumes "parse_field txt lo hi = Inr m" and "list_all (item_in_range lo hi) (split_on (CHR '','') txt)"
    and "unat hi < 64"
  shows "(\<forall>n. bit m n \<longleftrightarrow> list_ex (\<lambda>item. item_has lo hi item n) (split_on (CHR '','') txt))
     \<and> (\<forall>n. bit m n \<longrightarrow> unat lo \<le> n \<and> n \<le> unat hi) \<and> m \<noteq> 0"
proof -
  let ?items = "split_on (CHR '','') txt"
  have run: "parse_items ?items lo hi 0 = Inr m" using assms(1) by (simp add: parse_field_def split: if_splits)
  have bits: "bit m n \<longleftrightarrow> list_ex (\<lambda>item. item_has lo hi item n) ?items" for n
    using parse_items_bits [OF run assms(2,3)] by (simp add: list_ex_iff)
  have each: "\<exists>m1. parse_item item lo hi = Inr m1" "item_in_range lo hi item" if "item \<in> set ?items" for item
    using parse_items_each [OF run that] assms(2) that by (auto simp: list_all_iff)
  have "unat lo \<le> n \<and> n \<le> unat hi" if "bit m n" for n
    using that bits each parse_item_bits(2) assms(3) by (fastforce simp: list_ex_iff)
  moreover obtain item where item: "item \<in> set ?items" by (cases ?items) (auto dest: arg_cong [where f = set])
  moreover have "\<exists>n. item_has lo hi item n" using each [OF item] parse_item_bits(3) assms(3) by blast
  then have "\<exists>n. bit m n" using bits item by (auto simp: list_ex_iff)
  then have "m \<noteq> 0" by auto
  ultimately show ?thesis using bits by blast
qed

lemma parse_field_bits_witness:
  "\<exists>m. parse_field ''1-5,10/20'' 0 59 = Inr m \<and> m \<noteq> 0 \<and> (\<forall>n. bit m n \<longrightarrow> n \<le> 59)"
proof -
  let ?m = "fill_bits 5 1 1 0 OR fill_bits 59 20 10 0"
  have "parse_field ''1-5,10/20'' 0 59 = Inr ?m" by code_simp
  moreover have "list_all (item_in_range 0 59) (split_on (CHR '','') ''1-5,10/20'')" by code_simp
  ultimately have "?m \<noteq> 0 \<and> (\<forall>n. bit ?m n \<longrightarrow> unat (0 :: u8) \<le> n \<and> n \<le> unat (59 :: u8))"
    using parse_field_bits [of "''1-5,10/20''" 0 59 ?m] by simp
  then show ?thesis using \<open>parse_field ''1-5,10/20'' 0 59 = Inr ?m\<close> by auto
qed

text \<open>
  A start beyond the field is not refused when a step follows. \<open>70/2\<close> is accepted as a
  minute field and, on a build without overflow checks, sets the bit of minute 6; \<open>24/2\<close> is
  accepted as an hour field and sets a bit no hour has.
\<close>
theorem step_start_out_of_range_accepted:
  "parse_field ''70/2'' 0 59 = Inr (mask_bit 6) \<and> parse_field ''24/2'' 0 23 = Inr (mask_bit 24)
   \<and> parse_field ''70'' 0 59 = Inl ''value out of range in `70` (allowed 0-59)''"
  by code_simp

section \<open>The instants an expression matches\<close>

definition minute_bits :: "cron_expr \<Rightarrow> int \<Rightarrow> bool" where
  "minute_bits e m \<longleftrightarrow> mask_has (ce_hours e) (m div 60) \<and> mask_has (ce_minutes e) (m mod 60)"

definition day_bits :: "cron_expr \<Rightarrow> int \<Rightarrow> bool" where
  "day_bits e d = (case civil_from_days d of (_, month, day) \<Rightarrow> day_matches e d month day)"

definition cron_matches :: "cron_expr \<Rightarrow> int \<Rightarrow> bool" where
  "cron_matches e t \<longleftrightarrow> t mod 60 = 0 \<and> day_bits e (t div 86400) \<and> minute_bits e (t mod 86400 div 60)"

lemma scan_minutes_spec:
  assumes "sorted ms"
  shows "case scan_minutes e earliest hour ms of
     Some r \<Rightarrow> \<exists>m \<in> set ms. r = hour * 60 + m \<and> mask_has (ce_minutes e) m \<and> earliest \<le> r
        \<and> (\<forall>m' \<in> set ms. m' < m \<longrightarrow> \<not> (mask_has (ce_minutes e) m' \<and> earliest \<le> hour * 60 + m'))
   | None \<Rightarrow> \<forall>m' \<in> set ms. \<not> (mask_has (ce_minutes e) m' \<and> earliest \<le> hour * 60 + m')"
  using assms
proof (induction ms)
  case (Cons m ms)
  then show ?case by (cases "scan_minutes e earliest hour ms") force+
qed simp

lemma scan_hour:
  "case scan_minutes e earliest h [0..59] of
     Some r \<Rightarrow> earliest \<le> r \<and> r div 60 = h \<and> mask_has (ce_minutes e) (r mod 60)
        \<and> (\<forall>m. m div 60 = h \<longrightarrow> earliest \<le> m \<longrightarrow> m < r \<longrightarrow> \<not> mask_has (ce_minutes e) (m mod 60))
   | None \<Rightarrow> \<forall>m. m div 60 = h \<longrightarrow> earliest \<le> m \<longrightarrow> \<not> mask_has (ce_minutes e) (m mod 60)"
proof -
  have split: "m = h * 60 + m mod 60" if "m div 60 = h" for m :: int
    using that div_mult_mod_eq [of m 60] by simp
  have range: "m mod 60 \<in> set [0..59]" for m :: int by simp
  show ?thesis
  proof (cases "scan_minutes e earliest h [0..59]")
    case None
    then have "\<forall>m' \<in> set [0..59]. \<not> (mask_has (ce_minutes e) m' \<and> earliest \<le> h * 60 + m')"
      using scan_minutes_spec [of "[0..59]", where e = e and earliest = earliest and hour = h] by simp
    then have "\<not> mask_has (ce_minutes e) (m mod 60)" if "m div 60 = h" "earliest \<le> m" for m
      using range [of m] split [OF that(1)] that(2) by auto
    then show ?thesis using None by simp
  next
    case (Some r)
    then obtain m where m: "m \<in> set [0..59]" "r = h * 60 + m" "mask_has (ce_minutes e) m" "earliest \<le> r"
      "\<forall>m' \<in> set [0..59]. m' < m \<longrightarrow> \<not> (mask_has (ce_minutes e) m' \<and> earliest \<le> h * 60 + m')"
      using scan_minutes_spec [of "[0..59]", where e = e and earliest = earliest and hour = h] by auto
    have "\<not> mask_has (ce_minutes e) (m' mod 60)" if "m' div 60 = h" "earliest \<le> m'" "m' < r" for m'
    proof -
      have "m' mod 60 < m" and "earliest \<le> h * 60 + m' mod 60" using split [OF that(1)] that(2,3) m(2) by linarith+
      then show ?thesis using m(5) range [of m'] by blast
    qed
    moreover have "r div 60 = h" "r mod 60 = m" using m(1,2) by (auto simp: div_pos_pos_trivial)
    ultimately show ?thesis using Some m(3,4) by simp
  qed
qed

lemma scan_hours_spec:
  assumes "sorted hs"
  shows "case scan_hours e earliest hs of
     Some r \<Rightarrow> earliest \<le> r \<and> r div 60 \<in> set hs \<and> minute_bits e r
        \<and> (\<forall>m. m div 60 \<in> set hs \<longrightarrow> earliest \<le> m \<longrightarrow> m < r \<longrightarrow> \<not> minute_bits e m)
   | None \<Rightarrow> \<forall>m. m div 60 \<in> set hs \<longrightarrow> earliest \<le> m \<longrightarrow> \<not> minute_bits e m"
  using assms
proof (induction hs)
  case (Cons h hs)
  have later: "r < m" if "r div 60 = h" "m div 60 \<in> set hs" "m div 60 \<noteq> h" for r m
    using Cons.prems that by (fastforce simp: div_le_mono not_less [symmetric] dest: zdiv_mono1 [of m r 60, rotated])
  have skip: "\<not> minute_bits e m"
    if "\<not> mask_has (ce_hours e) h \<or> h * 60 + 59 < earliest" "m div 60 = h" "earliest \<le> m" for m
  proof -
    have "m \<le> h * 60 + 59" using that(2) div_mult_mod_eq [of m 60] pos_mod_bound [of 60 m] by linarith
    then show ?thesis using that by (auto simp: minute_bits_def)
  qed
  show ?case
  proof (cases "\<not> mask_has (ce_hours e) h \<or> h * 60 + 59 < earliest")
    case True
    then show ?thesis using Cons skip [OF True] by (auto split: option.splits)
  next
    case False
    then show ?thesis
    proof (cases "scan_minutes e earliest h [0..59]")
      case None
      then have "\<not> minute_bits e m" if "m div 60 = h" "earliest \<le> m" for m
        using scan_hour [where e = e and earliest = earliest and h = h] that by (simp add: minute_bits_def)
      then show ?thesis using Cons False None by (auto split: option.splits)
    next
      case (Some r)
      then have r: "earliest \<le> r" "r div 60 = h" "minute_bits e r"
        and least: "\<And>m. m div 60 = h \<Longrightarrow> earliest \<le> m \<Longrightarrow> m < r \<Longrightarrow> \<not> minute_bits e m"
        using scan_hour [where e = e and earliest = earliest and h = h] False by (auto simp: minute_bits_def)
      have "\<not> minute_bits e m" if "m div 60 \<in> set (h # hs)" "earliest \<le> m" "m < r" for m
        using least [of m] later [OF r(2), of m] that by (cases "m div 60 = h") auto
      then show ?thesis using False Some r by simp
    qed
  qed
qed simp

lemma first_minute_of_day_Some:
  assumes "first_minute_of_day e earliest = Some r"
  shows "earliest \<le> r" "0 \<le> r" "r < 1440" "minute_bits e r"
    "\<And>m. 0 \<le> m \<Longrightarrow> earliest \<le> m \<Longrightarrow> m < r \<Longrightarrow> \<not> minute_bits e m"
proof -
  have spec: "earliest \<le> r" "r div 60 \<in> set [0..23]" "minute_bits e r"
    "\<And>m. m div 60 \<in> set [0..23] \<Longrightarrow> earliest \<le> m \<Longrightarrow> m < r \<Longrightarrow> \<not> minute_bits e m"
    using scan_hours_spec [of "[0..23]", where e = e and earliest = earliest] assms by (auto simp: first_minute_of_day_def)
  show "earliest \<le> r" "minute_bits e r" by fact+
  show r: "0 \<le> r" "r < 1440" using spec(2) by auto
  show "\<not> minute_bits e m" if "0 \<le> m" "earliest \<le> m" "m < r" for m
    by (rule spec(4)) (use that r in auto)
qed

lemma first_minute_of_day_None:
  assumes "first_minute_of_day e earliest = None" and "0 \<le> m" "m < 1440" "earliest \<le> m"
  shows "\<not> minute_bits e m"
proof -
  have "m div 60 \<in> set [0..23]" using assms(2,3) by auto
  then show ?thesis
    using scan_hours_spec [of "[0..23]", where e = e and earliest = earliest] assms(1,4)
    by (simp add: first_minute_of_day_def)
qed

text \<open>The minute the search takes on day \<open>d\<close>, if any.\<close>

definition day_first :: "cron_expr \<Rightarrow> int \<Rightarrow> int \<Rightarrow> int \<Rightarrow> int option" where
  "day_first e start first d =
     (if day_bits e d then first_minute_of_day e (if d = start then first else 0) else None)"

lemma search_days_Suc:
  "search_days e start first k (Suc n) =
     (case day_first e start first (start + k) of
        Some r \<Rightarrow> Some ((start + k) * 86400 + r * 60)
      | None \<Rightarrow> search_days e start first (k + 1) n)"
  by (auto simp: day_first_def day_bits_def Let_def SECS_PER_DAY_def SECS_PER_MINUTE_def
      split: option.splits prod.splits)

lemma search_days_Some:
  assumes "search_days e start first k n = Some t"
  shows "\<exists>d r. t = d * 86400 + r * 60 \<and> start + k \<le> d \<and> d < start + k + int n \<and> day_first e start first d = Some r
    \<and> (\<forall>d'. start + k \<le> d' \<longrightarrow> d' < d \<longrightarrow> day_first e start first d' = None)"
  using assms
proof (induction n arbitrary: k)
  case (Suc n)
  show ?case
  proof (cases "day_first e start first (start + k)")
    case None
    then have "search_days e start first (k + 1) n = Some t"
      using Suc.prems unfolding search_days_Suc by simp
    then obtain d r where d: "t = d * 86400 + r * 60" "start + (k + 1) \<le> d"
      "d < start + (k + 1) + int n" "day_first e start first d = Some r"
      "\<forall>d'. start + (k + 1) \<le> d' \<longrightarrow> d' < d \<longrightarrow> day_first e start first d' = None"
      using Suc.IH by blast
    have "day_first e start first d' = None" if "start + k \<le> d'" "d' < d" for d'
      using that None d(5) by (cases "d' = start + k") auto
    then show ?thesis using d by (intro exI [of _ d] exI [of _ r]) auto
  next
    case (Some r)
    then have "t = (start + k) * 86400 + r * 60" using Suc.prems unfolding search_days_Suc by simp
    then show ?thesis using Some by (intro exI [of _ "start + k"] exI [of _ r]) auto
  qed
qed simp

lemma search_days_None:
  assumes "search_days e start first k n = None" and "start + k \<le> d" "d < start + k + int n"
  shows "day_first e start first d = None"
  using assms
proof (induction n arbitrary: k)
  case (Suc n)
  then show ?case using Suc.IH [of "k + 1"] unfolding search_days_Suc
    by (cases "d = start + k") (auto split: option.splits)
qed simp

text \<open>An instant by its day and its minute of the day.\<close>

lemma day_minute:
  fixes d m :: int
  assumes "0 \<le> m" "m < 1440"
  shows "(d * 86400 + m * 60) div 86400 = d" "(d * 86400 + m * 60) mod 86400 div 60 = m"
    "(d * 86400 + m * 60) mod 60 = 0"
proof -
  show "(d * 86400 + m * 60) div 86400 = d" using assms by (intro int_div_pos_eq [of _ _ _ "m * 60"]) auto
  have "(d * 86400 + m * 60) mod 86400 = m * 60" using assms by (intro int_mod_pos_eq [of _ _ d]) auto
  then show "(d * 86400 + m * 60) mod 86400 div 60 = m" by simp
  have "d * 86400 + m * 60 = (d * 1440 + m) * 60" by simp
  then show "(d * 86400 + m * 60) mod 60 = 0" by (metis mod_mult_self2_is_0)
qed

lemma instant_le:
  fixes d d' m m' :: int
  assumes "0 \<le> m" "m < 1440" "0 \<le> m'" "m' < 1440"
  shows "d * 86400 + m * 60 \<le> d' * 86400 + m' * 60 \<longleftrightarrow> d < d' \<or> d = d' \<and> m \<le> m'"
  using assms by auto

lemma minute_of_instant:
  fixes t :: int
  assumes "t mod 60 = 0"
  shows "\<exists>d m. t = d * 86400 + m * 60 \<and> 0 \<le> m \<and> m < 1440 \<and> t div 86400 = d \<and> t mod 86400 div 60 = m"
proof -
  obtain k where k: "t = k * 60" using assms by (metis mod_0_imp_dvd dvd_def mult.commute)
  obtain d m where d: "k = d * 1440 + m" "0 \<le> m" "m < 1440"
    by (rule that [of "k div 1440" "k mod 1440"]) simp_all
  have "t = d * 86400 + m * 60" by (simp add: k d(1))
  then show ?thesis using day_minute(1,2) [OF d(2,3), of d] d(2,3) by blast
qed

lemma minute_boundary:
  fixes a u :: int
  shows "a < (a div 60 + 1) * 60" and "u mod 60 = 0 \<Longrightarrow> a < u \<Longrightarrow> (a div 60 + 1) * 60 \<le> u"
proof -
  have "a < (q + 1) * 60" if "a = q * 60 + r" "r < 60" for q r using that by simp
  from this [of "a div 60" "a mod 60"] show "a < (a div 60 + 1) * 60" by simp
  show "(a div 60 + 1) * 60 \<le> u" if u: "u mod 60 = 0" "a < u"
  proof -
    obtain k where k: "u = k * 60" using u(1) by (metis mod_0_imp_dvd dvd_def mult.commute)
    have "a div 60 < k" using u(2) k by (simp add: div_less_iff_less_mult)
    then show ?thesis by (simp add: k)
  qed
qed

text \<open>The start of the search is the first minute after \<open>after\<close>.\<close>

lemma next_match_start:
  "next_match e after =
     search_days e ((after div 60 + 1) * 60 div 86400) ((after div 60 + 1) * 60 mod 86400 div 60) 0 (Suc MAX_SEARCH_DAYS)"
proof -
  have "a - a div 86400 * 86400 = a mod 86400" for a :: int by (simp add: minus_div_mult_eq_mod)
  moreover have "a mod 86400 sdiv 60 = a mod 86400 div 60" for a :: int by (simp add: sdiv_nonneg)
  ultimately show ?thesis unfolding next_match_def Let_def SECS_PER_DAY_def SECS_PER_MINUTE_def by simp
qed

lemma day_first_covers:
  assumes bits: "day_bits e d" "minute_bits e m" "0 \<le> m" "m < 1440"
    and "0 \<le> sm" "sm < 1440" "sd * 86400 + sm * 60 \<le> d * 86400 + m * 60"
  shows "\<exists>r. day_first e sd sm d = Some r \<and> r \<le> m"
proof -
  have early: "(if d = sd then sm else 0) \<le> m" using assms by (auto simp: instant_le)
  show ?thesis
  proof (cases "first_minute_of_day e (if d = sd then sm else 0)")
    case None
    then show ?thesis using first_minute_of_day_None [OF None bits(3,4) early] bits(2) by blast
  next
    case (Some r)
    then show ?thesis using first_minute_of_day_Some(5) [OF Some bits(3) early] bits(1,2)
      by (fastforce simp: day_first_def not_le)
  qed
qed

lemma cron_matches_at:
  "0 \<le> m \<Longrightarrow> m < 1440 \<Longrightarrow> cron_matches e (d * 86400 + m * 60) \<longleftrightarrow> day_bits e d \<and> minute_bits e m"
  unfolding cron_matches_def by (simp only: day_minute simp_thms)

lemma next_match_search:
  "\<exists>sd sm. next_match e after = search_days e sd sm 0 (Suc MAX_SEARCH_DAYS) \<and> 0 \<le> sm \<and> sm < 1440
     \<and> after < sd * 86400 + sm * 60 \<and> (after div 60 + 1) * 60 div 86400 = sd
     \<and> (\<forall>u. u mod 60 = 0 \<longrightarrow> after < u \<longrightarrow> sd * 86400 + sm * 60 \<le> u)"
proof -
  define s where "s = (after div 60 + 1) * 60"
  have "s mod 60 = 0" by (simp add: s_def)
  from minute_of_instant [OF this]
  obtain d m where d: "s = d * 86400 + m * 60" "0 \<le> m" "m < 1440" "s div 86400 = d" "s mod 86400 div 60 = m" by blast
  show ?thesis
    using minute_boundary(1) [of after] minute_boundary(2) [of _ after] d(2,3)
    unfolding next_match_start s_def [symmetric] d(4,5) by (auto simp flip: d(1))
qed

lemma next_match_Some:
  assumes "next_match e after = Some t"
  shows "after < t" "cron_matches e t" "\<And>u. after < u \<Longrightarrow> u < t \<Longrightarrow> \<not> cron_matches e u"
proof -
  obtain sd sm where s: "next_match e after = search_days e sd sm 0 (Suc MAX_SEARCH_DAYS)" "0 \<le> sm" "sm < 1440"
    "after < sd * 86400 + sm * 60" "\<forall>u. u mod 60 = 0 \<longrightarrow> after < u \<longrightarrow> sd * 86400 + sm * 60 \<le> u"
    using next_match_search by blast
  obtain d r where d: "t = d * 86400 + r * 60" "sd \<le> d" "day_first e sd sm d = Some r"
    "\<And>d'. sd \<le> d' \<Longrightarrow> d' < d \<Longrightarrow> day_first e sd sm d' = None"
    using search_days_Some [OF assms [unfolded s(1)]] by auto
  have bits: "day_bits e d" and fm: "first_minute_of_day e (if d = sd then sm else 0) = Some r"
    using d(3) by (simp_all add: day_first_def split: if_splits)
  note r = first_minute_of_day_Some [OF fm]
  have "sd * 86400 + sm * 60 \<le> t"
    unfolding d(1) instant_le [OF s(2,3) r(2,3)] using d(2) r(1) by (auto split: if_splits)
  then show "after < t" using s(4) by simp
  show "cron_matches e t" unfolding d(1) cron_matches_at [OF r(2,3)] using bits r(4) by simp
  show "\<not> cron_matches e u" if "after < u" "u < t" for u
  proof
    assume m: "cron_matches e u"
    then have u60: "u mod 60 = 0" by (simp add: cron_matches_def)
    obtain d' m' where u: "u = d' * 86400 + m' * 60" "0 \<le> m'" "m' < 1440" using minute_of_instant [OF u60] by blast
    have ub: "day_bits e d'" "minute_bits e m'" using m unfolding u(1) cron_matches_at [OF u(2,3)] by blast+
    have su: "sd * 86400 + sm * 60 \<le> d' * 86400 + m' * 60" by (rule s(5) [rule_format, OF u60 that(1), unfolded u(1)])
    obtain r' where r': "day_first e sd sm d' = Some r'" "r' \<le> m'"
      using day_first_covers [OF ub u(2,3) s(2,3) su] by blast
    have "sd \<le> d'" using su unfolding instant_le [OF s(2,3) u(2,3)] by auto
    then have "d \<le> d'" using d(4) r'(1) by force
    moreover have "\<not> (d < d' \<or> d = d' \<and> r \<le> m')"
      unfolding instant_le [OF r(2,3) u(2,3), symmetric] using that(2) by (simp add: d(1) u(1))
    ultimately show False using r' d(3) by auto
  qed
qed

lemma next_match_upper:
  assumes "next_match e after = Some t"
  shows "t \<le> after + 60 + 86400 * (int MAX_SEARCH_DAYS + 1)"
proof -
  define s where "s = (after div 60 + 1) * 60"
  have s: "s \<le> after + 60" "s div 86400 * 86400 \<le> s" using div_mult_mod_eq [of after 60] pos_mod_sign [of 60 after]
    div_mult_mod_eq [of s 86400] pos_mod_sign [of 86400 s] by (simp_all add: s_def)
  obtain d r where d: "t = d * 86400 + r * 60" "d < s div 86400 + int (Suc MAX_SEARCH_DAYS)"
    "day_first e (s div 86400) (s mod 86400 div 60) d = Some r"
    using search_days_Some [OF assms [unfolded next_match_start, folded s_def]] by auto
  have r: "r < 1440" using d(3) first_minute_of_day_Some(3) by (auto simp: day_first_def split: if_splits)
  have day: "d * 86400 \<le> s div 86400 * 86400 + int MAX_SEARCH_DAYS * 86400"
    unfolding distrib_right [symmetric] using d(2) by simp
  have "d * 86400 + r * 60 \<le> a + 60 + 86400 * (n + 1)"
    if "d * 86400 \<le> q + n * 86400" "s \<le> a + 60" "q \<le> s" for q n a using that r by simp
  then show ?thesis unfolding d(1) using day s by blast
qed

lemma next_match_None:
  assumes "next_match e after = None" and "after < u" and "u div 86400 \<le> (after div 60 + 1) * 60 div 86400 + int MAX_SEARCH_DAYS"
  shows "\<not> cron_matches e u"
proof
  assume m: "cron_matches e u"
  then have u60: "u mod 60 = 0" by (simp add: cron_matches_def)
  obtain sd sm where s: "next_match e after = search_days e sd sm 0 (Suc MAX_SEARCH_DAYS)" "0 \<le> sm" "sm < 1440"
    "(after div 60 + 1) * 60 div 86400 = sd" "\<forall>u. u mod 60 = 0 \<longrightarrow> after < u \<longrightarrow> sd * 86400 + sm * 60 \<le> u"
    using next_match_search by blast
  obtain d' m' where u: "u = d' * 86400 + m' * 60" "0 \<le> m'" "m' < 1440" "u div 86400 = d'"
    using minute_of_instant [OF u60] by blast
  have ub: "day_bits e d'" "minute_bits e m'" using m unfolding u(1) cron_matches_at [OF u(2,3)] by blast+
  have su: "sd * 86400 + sm * 60 \<le> d' * 86400 + m' * 60" by (rule s(5) [rule_format, OF u60 assms(2), unfolded u(1)])
  then have "sd \<le> d'" unfolding instant_le [OF s(2,3) u(2,3)] by auto
  then have "day_first e sd sm d' = None"
    using search_days_None [OF assms(1) [unfolded s(1)], of d'] assms(3) unfolding s(4) u(4) by simp
  then show False using day_first_covers [OF ub u(2,3) s(2,3) su] by simp
qed

end
