(* ===== verification/Sched_Reach.thy ===== *)
theory Sched_Reach
  imports Sched_Cron
begin

text \<open>
  The bound on the search. \<open>next_match\<close> gives up after \<open>MAX_SEARCH_DAYS\<close> days; here we show
  that a day which matches a cron expression at all comes back within that many days of any
  start: an ordinary day of the year within two years, a given weekday of a month likewise,
  and a leap day within eight years, even across a century that has none.
\<close>

section \<open>The place of a day in the calendar\<close>

definition day_at :: "int \<Rightarrow> int \<Rightarrow> int \<Rightarrow> int \<Rightarrow> int \<Rightarrow> int \<Rightarrow> bool" where
  "day_at n e c q s doy \<longleftrightarrow> era_day (n + 719468 - e * 146097) c q s doy"

lemma day_at_exists: "\<exists>e c q s doy. day_at n e c q s doy"
proof -
  obtain e doe where e: "n + 719468 = e * 146097 + doe" "0 \<le> doe" "doe < 146097" using era_of_days [of n] by blast
  then have "n + 719468 - e * 146097 = doe" by simp
  then show ?thesis using era_day_exists [OF e(2,3)] unfolding day_at_def by metis
qed

lemma day_at_shift: "day_at n e c q s doy \<Longrightarrow> 0 \<le> i \<Longrightarrow> doy + i \<le> 364 \<Longrightarrow> day_at (n + i) e c q s (doy + i)"
  by (simp add: day_at_def era_day_def)

text \<open>Month and day depend on the day of the year alone, counted from the first of March.\<close>

definition month_day :: "int \<Rightarrow> int \<times> int" where
  "month_day doy =
     (let mp = (5 * doy + 2) div 153 in (if mp < 10 then mp + 3 else mp - 9, doy - (153 * mp + 2) div 5 + 1))"

lemma civil_month_day:
  assumes "day_at n e c q s doy"
  shows "\<exists>year. civil_from_days n = (year, month_day doy)"
proof -
  define mp where "mp = (5 * doy + 2) div 153"
  have d: "era_day (n + 719468 - e * 146097) c q s doy" using assms by (simp add: day_at_def)
  have doy: "0 \<le> doy" "doy \<le> 365" using d by (simp_all add: era_day_def)
  have lt: "n + 719468 - e * 146097 < 146097" using d by (auto simp: era_day_def)
  note table = month_table [OF doy mp_def]
  have "doy - (153 * mp + 2) div 5 + 1 < 256" using table(4) by (auto split: if_splits)
  then show ?thesis
    using civil_from_era [OF d _ lt mp_def, of n e] table(1-3)
    by (auto simp: Let_def month_day_def u8_or_def simp flip: mp_def)
qed

lemma month_first:
  assumes "0 \<le> mp" "0 \<le> i" "i \<le> 6"
  shows "(5 * ((153 * mp + 2) div 5 + i) + 2) div 153 = (mp :: int)"
proof -
  obtain f r where f: "f = (153 * mp + 2) div 5" "153 * mp + 2 = 5 * f + r" "0 \<le> r" "r < 5"
    by (rule that [of "(153 * mp + 2) div 5" "(153 * mp + 2) mod 5"]) simp_all
  show ?thesis
    unfolding f(1) [symmetric]
    by (rule int_div_pos_eq [of _ _ _ "4 - r + 5 * i"]) (use f assms in auto)
qed

section \<open>Days that come back\<close>

lemma next_year_day:
  assumes "day_at n e c q s doy" and "0 \<le> doy'" "doy' \<le> 364"
  shows "\<exists>n' e' c' q' s'. day_at n' e' c' q' s' doy' \<and> n < n' \<and> n' \<le> n + 731"
proof -
  note d = assms(1) [unfolded day_at_def era_day_def]
  have at: ?thesis if "day_at n' e' c' q' s' doy'" "n < n'" "n' \<le> n + 731" for n' e' c' q' s' using that by blast
  consider "s < 3" | "s = 3" "q < 24" | "s = 3" "q = 24" "c < 3" | "s = 3" "q = 24" "c = 3" using d by linarith
  then show ?thesis
  proof cases
    case 1
    then show ?thesis using d assms(2,3)
      by (intro at [of "n - doy + 365 + doy'" e c q "s + 1"]) (auto simp: day_at_def era_day_def)
  next
    case 2
    then show ?thesis using d assms(2,3)
      by (intro at [of "n - doy + 366 + doy'" e c "q + 1" 0]) (auto simp: day_at_def era_day_def)
  next
    case 3
    then show ?thesis using d assms(2,3)
      by (intro at [of "n - doy + 365 + doy'" e "c + 1" 0 0]) (auto simp: day_at_def era_day_def)
  next
    case 4
    then show ?thesis using d assms(2,3)
      by (intro at [of "n - doy + 366 + doy'" "e + 1" 0 0 0]) (auto simp: day_at_def era_day_def)
  qed
qed

lemma next_leap_day:
  assumes "day_at n e c q s doy"
  shows "\<exists>n' e' c' q'. day_at n' e' c' q' 3 365 \<and> n < n' \<and> n' \<le> n + 3294"
proof -
  note d = assms [unfolded day_at_def era_day_def]
  define o1 where "o1 = 365 * (3 - s) + 365 - doy"
  have o1: "0 \<le> o1" "o1 \<le> 1460" "o1 = 0 \<longrightarrow> q < 24 \<or> c = 3" using d by (auto simp: o1_def)
  have at: ?thesis if "day_at n' e' c' q' 3 365" "n < n'" "n' \<le> n + 3294" for n' e' c' q' using that by blast
  consider "0 < o1" "q < 24 \<or> c = 3" | "0 < o1" "q = 24" "c < 3" | "o1 = 0" "q < 23" | "o1 = 0" "q = 23" "c < 3"
    | "o1 = 0" "q = 23" "c = 3" | "o1 = 0" "q = 24" "c = 3"
  proof -
    have "o1 = 0 \<or> 0 < o1" "q < 23 \<or> q = 23 \<or> q = 24" "c < 3 \<or> c = 3" using d o1(1) by linarith+
    then show thesis using that o1(3) by (elim disjE) simp_all
  qed
  then show ?thesis
  proof cases
    case 1
    then show ?thesis using d o1 by (intro at [of "n + o1" e c q]) (auto simp: day_at_def era_day_def o1_def)
  next
    case 2
    then show ?thesis using d o1
      by (intro at [of "n + o1 + 1460" e "c + 1" 0]) (auto simp: day_at_def era_day_def o1_def)
  next
    case 3
    then show ?thesis using d o1
      by (intro at [of "n + 1461" e c "q + 1"]) (auto simp: day_at_def era_day_def o1_def)
  next
    case 4
    then show ?thesis using d o1
      by (intro at [of "n + 2921" e "c + 1" 0]) (auto simp: day_at_def era_day_def o1_def)
  next
    case 5
    then show ?thesis using d o1
      by (intro at [of "n + 1461" e c 24]) (auto simp: day_at_def era_day_def o1_def)
  next
    case 6
    then show ?thesis using d o1
      by (intro at [of "n + 1461" "e + 1" 0 0]) (auto simp: day_at_def era_day_def o1_def)
  qed
qed

lemma date_returns:
  assumes "civil_from_days d = (y, month, day)"
  shows "\<exists>n y'. start < n \<and> n \<le> start + int MAX_SEARCH_DAYS \<and> civil_from_days n = (y', month, day)"
proof -
  obtain e c q s doy where d: "day_at d e c q s doy" using day_at_exists by blast
  obtain e0 c0 q0 s0 doy0 where s: "day_at start e0 c0 q0 s0 doy0" using day_at_exists by blast
  have md: "month_day doy = (month, day)" using civil_month_day [OF d] assms by auto
  have doy: "0 \<le> doy" "doy \<le> 365" using d by (simp_all add: day_at_def era_day_def)
  have "\<exists>n e' c' q' s'. day_at n e' c' q' s' doy \<and> start < n \<and> n \<le> start + 3294"
  proof (cases "doy = 365")
    case True
    then show ?thesis using next_leap_day [OF s] by blast
  next
    case False
    then show ?thesis using next_year_day [OF s doy(1)] doy(2) by force
  qed
  then show ?thesis using civil_month_day md unfolding MAX_SEARCH_DAYS_def by fastforce
qed

lemma weekday_returns:
  assumes "civil_from_days d = (y, month, day)"
  shows "\<exists>n y' day'. start < n \<and> n \<le> start + int MAX_SEARCH_DAYS \<and> civil_from_days n = (y', month, day')
    \<and> weekday_from_days n = weekday_from_days d"
proof -
  obtain e c q s doy where d: "day_at d e c q s doy" using day_at_exists by blast
  obtain e0 c0 q0 s0 doy0 where s: "day_at start e0 c0 q0 s0 doy0" using day_at_exists by blast
  define mp where "mp = (5 * doy + 2) div 153"
  define f where "f = (153 * mp + 2) div 5"
  have doy: "0 \<le> doy" "doy \<le> 365" using d by (simp_all add: day_at_def era_day_def)
  have mp: "0 \<le> mp" "mp \<le> 11" by (rule month_table [OF doy mp_def])+
  have month: "month = (if mp < 10 then mp + 3 else mp - 9)"
    using civil_month_day [OF d] assms by (auto simp: month_day_def Let_def mp_def)
  have f: "0 \<le> f" "f \<le> 337" using mp by (auto simp: f_def)
  obtain n e' c' q' s' where n: "day_at n e' c' q' s' f" "start < n" "n \<le> start + 731"
    using next_year_day [OF s f(1)] f(2) by fastforce
  define i where "i = (d - n) mod 7"
  have i: "0 \<le> i" "i \<le> 6" "(n + i + 4) mod 7 = (d + 4) mod 7"
  proof -
    show "0 \<le> i" by (simp add: i_def)
    show "i \<le> 6" using pos_mod_bound [of 7 "d - n"] by (simp add: i_def)
    have "(n + 4 + (d - n) mod 7) mod 7 = (n + 4 + (d - n)) mod 7" by (rule mod_add_right_eq)
    then show "(n + i + 4) mod 7 = (d + 4) mod 7" by (simp add: i_def algebra_simps)
  qed
  have at: "day_at (n + i) e' c' q' s' (f + i)" by (rule day_at_shift [OF n(1)]) (use f i in auto)
  have "(5 * (f + i) + 2) div 153 = mp" unfolding f_def by (rule month_first) (use mp i in auto)
  then obtain y' day' where "civil_from_days (n + i) = (y', month, day')"
    using civil_month_day [OF at] by (auto simp: month_day_def Let_def month)
  moreover have "weekday_from_days (n + i) = weekday_from_days d" unfolding weekday_from_days_def i(3) ..
  moreover have "start < n + i" "n + i \<le> start + int MAX_SEARCH_DAYS"
    using n(2,3) i(1,2) by (simp_all add: MAX_SEARCH_DAYS_def)
  ultimately show ?thesis by blast
qed

lemma day_bits_returns:
  assumes "day_bits e d"
  shows "\<exists>n. start < n \<and> n \<le> start + int MAX_SEARCH_DAYS \<and> day_bits e n"
proof -
  obtain y month day where c: "civil_from_days d = (y, month, day)" by (metis prod_cases3)
  have m: "day_matches e d month day" using assms c by (simp add: day_bits_def)
  consider "ce_dow_restricted e \<and> mask_has (ce_days_of_week e) (weekday_from_days d)"
    | "ce_dom_restricted e \<longrightarrow> mask_has (ce_days_of_month e) day" "\<not> (ce_dow_restricted e \<and> \<not> ce_dom_restricted e)"
    using m by (auto simp: day_matches_def Let_def split: if_splits bool.splits)
  then show ?thesis
  proof cases
    case 1
    obtain n y' day' where "start < n" "n \<le> start + int MAX_SEARCH_DAYS" "civil_from_days n = (y', month, day')"
      "weekday_from_days n = weekday_from_days d"
      using weekday_returns [OF c] by blast
    then show ?thesis using m 1
      by (auto simp: day_bits_def day_matches_def Let_def split: if_splits bool.splits intro!: exI [of _ n])
  next
    case 2
    obtain n y' where "start < n" "n \<le> start + int MAX_SEARCH_DAYS" "civil_from_days n = (y', month, day)"
      using date_returns [OF c] by blast
    then show ?thesis using m 2
      by (auto simp: day_bits_def day_matches_def Let_def split: if_splits bool.splits intro!: exI [of _ n])
  qed
qed

lemma next_match_None_never:
  assumes "next_match e after = None"
  shows "\<not> cron_matches e u"
proof
  assume u: "cron_matches e u"
  then have u60: "u mod 60 = 0" by (simp add: cron_matches_def)
  obtain d m where d: "u = d * 86400 + m * 60" "0 \<le> m" "m < 1440" using minute_of_instant [OF u60] by blast
  have bits: "day_bits e d" "minute_bits e m" using u unfolding d(1) cron_matches_at [OF d(2,3)] by blast+
  obtain sd sm where s: "0 \<le> sm" "sm < 1440" "after < sd * 86400 + sm * 60" "(after div 60 + 1) * 60 div 86400 = sd"
    using next_match_search [of e after] by blast
  obtain n where n: "sd < n" "n \<le> sd + int MAX_SEARCH_DAYS" "day_bits e n" using day_bits_returns [OF bits(1)] by blast
  have "sd * 86400 + sm * 60 \<le> n * 86400 + m * 60" unfolding instant_le [OF s(1,2) d(2,3)] using n(1) by simp
  then have "after < n * 86400 + m * 60" using s(3) by simp
  then have "\<not> cron_matches e (n * 86400 + m * 60)"
    by (rule next_match_None [OF assms]) (simp only: day_minute [OF d(2,3)] s(4) n(2))
  then show False using n(3) bits(2) unfolding cron_matches_at [OF d(2,3)] by blast
qed

text \<open>
  C9: \<open>next_match\<close> is exact. When it returns an instant, that instant is later than \<open>after\<close>,
  matches the expression, and no instant in between does; when it returns nothing, no
  instant at all, past or future, matches, so that the bound of nine years misses nothing.
\<close>
theorem next_match_exact:
  "case next_match e after of
     Some t \<Rightarrow> after < t \<and> cron_matches e t \<and> (\<forall>u. after < u \<and> u < t \<longrightarrow> \<not> cron_matches e u)
   | None \<Rightarrow> \<forall>u. \<not> cron_matches e u"
  using next_match_Some [of e after] next_match_None_never [of e after] by (auto split: option.split)

text \<open>From 28 February 2104 at 12:30 nothing matches until the leap day begins.\<close>

lemma next_match_exact_witness:
  "\<exists>e. cron_parse ''0 0 29 2 *'' = Inr e
     \<and> (\<forall>u. unix_from_civil 2104 2 28 12 30 < u \<and> u < unix_from_civil 2104 2 29 0 0 \<longrightarrow> \<not> cron_matches e u)"
proof -
  let ?e = "\<lparr>ce_minutes = 1, ce_hours = 1, ce_days_of_month = 0x20000000, ce_months = 4,
    ce_days_of_week = 127, ce_dom_restricted = True, ce_dow_restricted = False\<rparr>"
  have p: "cron_parse ''0 0 29 2 *'' = Inr ?e" by code_simp
  let ?t = "unix_from_civil 2104 2 28 12 30"
  have start: "(?t div 60 + 1) * 60 div 86400 = 49000" "(?t div 60 + 1) * 60 mod 86400 div 60 = 751" by code_simp+
  have days: "day_first ?e 49000 751 49000 = None" "day_first ?e 49000 751 49001 = Some 0" by code_simp+
  have "Suc MAX_SEARCH_DAYS = Suc (Suc 3293)" by (simp add: MAX_SEARCH_DAYS_def)
  moreover have "unix_from_civil 2104 2 29 0 0 = 49001 * 86400" by code_simp
  ultimately have "next_match ?e ?t = Some (unix_from_civil 2104 2 29 0 0)"
    unfolding next_match_start start by (simp only: search_days_Suc add_0_right days option.case) (simp add: days)
  then have "\<forall>u. unix_from_civil 2104 2 28 12 30 < u \<and> u < unix_from_civil 2104 2 29 0 0 \<longrightarrow> \<not> cron_matches ?e u"
    using next_match_exact [of ?e "unix_from_civil 2104 2 28 12 30"] by simp
  then show ?thesis using p by blast
qed

end
