(* ===== verification/Sched_Spec.thy ===== *)
theory Sched_Spec
  imports Sched_Reach
begin

text \<open>
  Schedule specs and the computation of the next run (\<open>spec.rs\<close>). Seconds are \<open>int\<close>; the one
  product the source saturates, \<open>i64::saturating_mul\<close>, is clamped here too, and the other sums
  stay within \<open>i64\<close> for every time a clock can show (\<open>next_run_unix_range\<close>).
\<close>

section \<open>Definitions\<close>

datatype spec =
    Every u64
  | DailyAt u8 u8
  | Cron cron_expr

definition every_seconds :: "u64 \<Rightarrow> spec" where
  "every_seconds seconds = Every (if seconds = 0 then 1 else seconds)"

definition every_minutes :: "u64 \<Rightarrow> spec" where
  "every_minutes minutes = every_seconds (w_saturating_mul minutes 60)"

definition every_hours :: "u64 \<Rightarrow> spec" where
  "every_hours hours = every_seconds (w_saturating_mul hours 3600)"

text \<open>The closure \<open>parse\<close> of \<open>try_daily_at\<close>.\<close>

definition parse_two_digits :: "string \<Rightarrow> u8 option" where
  "parse_two_digits txt =
     (if txt = [] \<or> length txt > 2 \<or> \<not> list_all is_ascii_digit txt then None else parse_digits txt)"

definition try_daily_at :: "string \<Rightarrow> schedule_error + spec" where
  "try_daily_at time =
     res_bind (ok_or (InvalidDailyTime time) (split_once (CHR '':'') time)) (\<lambda>(hour_text, minute_text).
     res_bind (ok_or (InvalidDailyTime time) (parse_two_digits hour_text)) (\<lambda>hour.
     res_bind (ok_or (InvalidDailyTime time) (parse_two_digits minute_text)) (\<lambda>minute.
     if hour > 23 \<or> minute > 59 then Inl (InvalidDailyTime time) else Inr (DailyAt hour minute))))"

text \<open>The \<open>Display\<close> of an error, the message the two panicking constructors stop with.\<close>

fun schedule_error_text :: "schedule_error \<Rightarrow> string" where
  "schedule_error_text (InvalidCron expr reason) = ''invalid cron expression `'' @ expr @ ''`: '' @ reason"
| "schedule_error_text (InvalidDailyTime v) =
     ''invalid daily time `'' @ v @ ''`: expected `HH:MM` between 00:00 and 23:59''"

definition daily_at :: "string \<Rightarrow> string + spec" where
  "daily_at time = map_err schedule_error_text (try_daily_at time)"

definition try_cron :: "string \<Rightarrow> schedule_error + spec" where
  "try_cron expr = res_bind (cron_parse expr) (\<lambda>e. Inr (Cron e))"

definition cron :: "string \<Rightarrow> string + spec" where
  "cron expr = map_err schedule_error_text (try_cron expr)"

definition i64_max :: int where
  "i64_max = 2 ^ 63 - 1"

definition i64_min :: int where
  "i64_min = - (2 ^ 63)"

definition i64_saturating_mul :: "int \<Rightarrow> int \<Rightarrow> int" where
  "i64_saturating_mul a b = max i64_min (min i64_max (a * b))"

text \<open>\<open>i64::try_from(n).unwrap_or(i64::MAX)\<close> for an unsigned 64-bit number.\<close>

definition i64_or_max :: "nat \<Rightarrow> int" where
  "i64_or_max n = (if int n \<le> i64_max then int n else i64_max)"

definition next_run_unix :: "int \<Rightarrow> spec \<Rightarrow> int \<Rightarrow> int option" where
  "next_run_unix after spec utc_offset_secs =
     (case spec of
        Every interval_secs \<Rightarrow>
          (let interval = max (i64_or_max (unat interval_secs)) 1
           in Some (i64_saturating_mul (after div interval + 1) interval))
      | DailyAt hour minute \<Rightarrow>
          (let local_t = after + utc_offset_secs;
               day = local_t div SECS_PER_DAY;
               target = int (unat hour) * 3600 + int (unat minute) * SECS_PER_MINUTE;
               today = day * SECS_PER_DAY + target;
               local_next = (if today > local_t then today else today + SECS_PER_DAY)
           in Some (local_next - utc_offset_secs))
      | Cron expr \<Rightarrow>
          (let local_t = after + utc_offset_secs
           in map_option (\<lambda>t. t - utc_offset_secs) (next_match expr local_t)))"

definition unix_secs :: "systime \<Rightarrow> int" where
  "unix_secs time =
     (case duration_since time unix_epoch of
        Inr d \<Rightarrow> i64_or_max (d div nanos_per_sec)
      | Inl d \<Rightarrow> - i64_or_max (d div nanos_per_sec))"

text \<open>No second of an \<open>i64\<close> leaves the range of \<open>SystemTime\<close>, so neither branch can panic.\<close>

definition system_time_from_unix :: "int \<Rightarrow> systime" where
  "system_time_from_unix secs =
     (if secs \<ge> 0 then unix_epoch + int (duration_from_secs (nat \<bar>secs\<bar>))
      else unix_epoch - int (duration_from_secs (nat \<bar>secs\<bar>)))"

definition next_run_with_offset :: "systime \<Rightarrow> spec \<Rightarrow> int \<Rightarrow> systime option" where
  "next_run_with_offset after spec utc_offset_secs =
     map_option system_time_from_unix (next_run_unix (unix_secs after) spec utc_offset_secs)"

definition next_run :: "systime \<Rightarrow> spec \<Rightarrow> systime option" where
  "next_run after spec = next_run_with_offset after spec 0"

section \<open>When a spec fires\<close>

definition spec_interval :: "u64 \<Rightarrow> int" where
  "spec_interval n = max (i64_or_max (unat n)) 1"

fun spec_fires :: "spec \<Rightarrow> int \<Rightarrow> int \<Rightarrow> bool" where
  "spec_fires (Every n) off t \<longleftrightarrow> t mod spec_interval n = 0"
| "spec_fires (DailyAt h m) off t \<longleftrightarrow> (t + off) mod 86400 = int (unat h) * 3600 + int (unat m) * 60"
| "spec_fires (Cron e) off t \<longleftrightarrow> cron_matches e (t + off)"

text \<open>
  What the constructors guarantee, and the instants from which the next multiple of an
  interval still is an \<open>i64\<close>.
\<close>

fun spec_ok :: "spec \<Rightarrow> int \<Rightarrow> bool" where
  "spec_ok (Every n) t \<longleftrightarrow> i64_min \<le> t \<and> t + spec_interval n \<le> i64_max"
| "spec_ok (DailyAt h m) t \<longleftrightarrow> h \<le> 23 \<and> m \<le> 59"
| "spec_ok (Cron e) t \<longleftrightarrow> True"

text \<open>The first multiple of \<open>n\<close> after \<open>a\<close>, and the first instant of a daily pattern.\<close>

lemma next_multiple:
  fixes a n :: int
  assumes "0 < n"
  shows "a < (a div n + 1) * n" "(a div n + 1) * n \<le> a + n" "((a div n + 1) * n) mod n = 0"
    "\<And>u. a < u \<Longrightarrow> u < (a div n + 1) * n \<Longrightarrow> u mod n \<noteq> 0"
proof -
  have a: "a = a div n * n + a mod n" "0 \<le> a mod n" "a mod n < n" using assms by simp_all
  show "a < (a div n + 1) * n" "(a div n + 1) * n \<le> a + n"
    unfolding distrib_right mult_1 using a by linarith+
  show "((a div n + 1) * n) mod n = 0" by simp
  show "u mod n \<noteq> 0" if "a < u" "u < (a div n + 1) * n" for u
  proof
    assume "u mod n = 0"
    then obtain k where k: "u = k * n" by (metis mod_0_imp_dvd dvd_def mult.commute)
    then have "k < a div n + 1" using that(2) assms by simp
    then have "k * n \<le> a div n * n" using assms by (simp add: mult_right_mono)
    then show False using that(1) a k by linarith
  qed
qed

lemma next_daily:
  fixes l :: int
  assumes "0 \<le> tgt" "tgt < 86400"
    and nxt: "nxt = (if l div 86400 * 86400 + tgt > l then l div 86400 * 86400 + tgt else l div 86400 * 86400 + tgt + 86400)"
  shows "l < nxt" "nxt \<le> l + 86400" "nxt mod 86400 = tgt" "\<And>u. l < u \<Longrightarrow> u < nxt \<Longrightarrow> u mod 86400 \<noteq> tgt"
proof -
  obtain q r where q: "l = q * 86400 + r" "0 \<le> r" "r < 86400" "l div 86400 = q"
    by (rule that [of "l div 86400" "l mod 86400"]) simp_all
  have nxt': "nxt = (if tgt > r then q * 86400 + tgt else (q + 1) * 86400 + tgt)"
    unfolding nxt q(4) using q(1) by simp
  show "l < nxt" "nxt \<le> l + 86400" unfolding nxt' q(1) using q(2,3) assms(1,2) by auto
  have "(k * 86400 + tgt) mod 86400 = tgt" for k using assms(1,2) by (intro int_mod_pos_eq [of _ _ k]) auto
  then show "nxt mod 86400 = tgt" unfolding nxt' by presburger
  show "u mod 86400 \<noteq> tgt" if u: "l < u" "u < nxt" for u
  proof
    assume "u mod 86400 = tgt"
    then obtain k where k: "u = k * 86400 + tgt" by (metis div_mult_mod_eq)
    have "q \<le> k" using u(1) q(2) assms(2) unfolding k q(1) by linarith
    then have "q < k \<or> q = k \<and> r < tgt" using u(1) unfolding k q(1) by auto
    moreover have "if tgt > r then k < q else k < q + 1" using u(2) unfolding k nxt' by (simp split: if_splits)
    ultimately show False by (auto split: if_splits)
  qed
qed

lemma spec_interval_pos: "0 < spec_interval n"
  by (simp add: spec_interval_def)

lemma next_run_unix_Every:
  assumes "spec_ok (Every n) after"
  shows "next_run_unix after (Every n) off = Some ((after div spec_interval n + 1) * spec_interval n)"
proof -
  note m = next_multiple [OF spec_interval_pos [of n], of after]
  have "i64_min \<le> (after div spec_interval n + 1) * spec_interval n"
    "(after div spec_interval n + 1) * spec_interval n \<le> i64_max" using assms m(1,2) by auto
  then show ?thesis
    by (simp add: next_run_unix_def i64_saturating_mul_def Let_def flip: spec_interval_def)
qed

lemma daily_target:
  assumes "spec_ok (DailyAt h m) t"
  shows "0 \<le> int (unat h) * 3600 + int (unat m) * 60" "int (unat h) * 3600 + int (unat m) * 60 < 86400"
proof -
  have "unat h \<le> 23" "unat m \<le> 59" using assms by (simp_all add: word_le_nat_alt)
  then show "0 \<le> int (unat h) * 3600 + int (unat m) * 60" "int (unat h) * 3600 + int (unat m) * 60 < 86400"
    by linarith+
qed

lemma next_run_unix_exact:
  assumes "spec_ok spec after"
  shows "case next_run_unix after spec off of
     Some t \<Rightarrow> after < t \<and> spec_fires spec off t \<and> (\<forall>u. after < u \<and> u < t \<longrightarrow> \<not> spec_fires spec off u)
   | None \<Rightarrow> \<forall>u. \<not> spec_fires spec off u"
proof (cases spec)
  case (Every n)
  then show ?thesis
    using next_multiple [OF spec_interval_pos [of n], of after] next_run_unix_Every [of n after off] assms by auto
next
  case (DailyAt h m)
  define nxt where "nxt = (let l = after + off; tgt = int (unat h) * 3600 + int (unat m) * 60 in
    if l div 86400 * 86400 + tgt > l then l div 86400 * 86400 + tgt else l div 86400 * 86400 + tgt + 86400)"
  have run: "next_run_unix after (DailyAt h m) off = Some (nxt - off)"
    by (simp add: next_run_unix_def nxt_def Let_def SECS_PER_DAY_def SECS_PER_MINUTE_def)
  note d = next_daily [OF daily_target nxt_def [unfolded Let_def], OF assms [unfolded DailyAt] assms [unfolded DailyAt]]
  have "\<not> spec_fires spec off u" if "after < u" "u < nxt - off" for u
    using d(4) [of "u + off"] that by (simp add: DailyAt)
  then show ?thesis using d(1,3) run by (simp add: DailyAt)
next
  case (Cron e)
  show ?thesis
  proof (cases "next_match e (after + off)")
    case None
    then show ?thesis using next_match_None_never [OF None] by (simp add: Cron next_run_unix_def)
  next
    case (Some t)
    note m = next_match_Some [OF Some]
    have "\<not> spec_fires spec off u" if "after < u" "u < t - off" for u
      using m(3) [of "u + off"] that by (simp add: Cron)
    then show ?thesis using m(1,2) Some by (simp add: Cron next_run_unix_def)
  qed
qed

section \<open>The next run of a clock time\<close>

definition fires_at :: "spec \<Rightarrow> int \<Rightarrow> systime \<Rightarrow> bool" where
  "fires_at spec off t \<longleftrightarrow> t mod int nanos_per_sec = 0 \<and> spec_fires spec off (t div int nanos_per_sec)"

lemma nanos_pos: "0 < int nanos_per_sec"
  by (simp add: nanos_per_sec_def)

lemma secs_less: "a div int nanos_per_sec < v \<longleftrightarrow> a < v * int nanos_per_sec"
proof
  assume "a div int nanos_per_sec < v"
  then have "(a div int nanos_per_sec + 1) * int nanos_per_sec \<le> v * int nanos_per_sec"
    by (intro mult_right_mono) auto
  then show "a < v * int nanos_per_sec" using next_multiple(1) [OF nanos_pos, of a] by linarith
next
  assume "a < v * int nanos_per_sec"
  moreover have "a div int nanos_per_sec * int nanos_per_sec \<le> a"
    using next_multiple(2) [OF nanos_pos, of a] by (simp add: distrib_right)
  ultimately have "a div int nanos_per_sec * int nanos_per_sec < v * int nanos_per_sec" by linarith
  then show "a div int nanos_per_sec < v" using nanos_pos by simp
qed

lemma system_time_from_unix_eq: "system_time_from_unix secs = secs * int nanos_per_sec"
  by (simp add: system_time_from_unix_def unix_epoch_def duration_from_secs_def)

lemma unix_secs_eq:
  assumes "0 \<le> t" and "t < systime_sup"
  shows "unix_secs t = t div int nanos_per_sec"
proof -
  have "t < 2 ^ 63 * int nanos_per_sec" using assms(2) by (simp add: systime_sup_def)
  then have "t div int nanos_per_sec < 2 ^ 63" unfolding secs_less .
  then show ?thesis
    using assms(1) by (simp add: unix_secs_def duration_since_def unix_epoch_def i64_or_max_def i64_max_def zdiv_int)
qed

lemma fires_at_seconds:
  assumes "fires_at spec off u" and "a < u"
  shows "\<exists>v. u = v * int nanos_per_sec \<and> spec_fires spec off v \<and> a div int nanos_per_sec < v"
proof -
  obtain v where v: "u = v * int nanos_per_sec" "spec_fires spec off v"
    using assms(1) nanos_pos unfolding fires_at_def by (metis div_mult_mod_eq add_0_right)
  then show ?thesis using assms(2) unfolding secs_less by blast
qed

text \<open>
  \<open>next_run\<close> returns the first instant strictly after \<open>after\<close> at which the spec fires, for
  every clock time from the epoch on: the multiples of an interval, the wall-clock time of
  a daily spec and the minutes of a cron expression, the latter two at a fixed offset from
  UTC. It returns nothing only when the spec never fires.
\<close>
theorem next_run_first:
  assumes "0 \<le> after" and "after < systime_sup" and "spec_ok spec (after div int nanos_per_sec)"
  shows "case next_run_with_offset after spec off of
     Some t \<Rightarrow> after < t \<and> fires_at spec off t \<and> (\<forall>u. after < u \<and> u < t \<longrightarrow> \<not> fires_at spec off u)
   | None \<Rightarrow> \<forall>u. \<not> fires_at spec off u"
proof -
  let ?s = "after div int nanos_per_sec"
  have run: "next_run_with_offset after spec off = map_option (\<lambda>t. t * int nanos_per_sec) (next_run_unix ?s spec off)"
    by (simp add: next_run_with_offset_def unix_secs_eq [OF assms(1,2)] system_time_from_unix_eq [abs_def])
  note exact = next_run_unix_exact [OF assms(3), of off]
  show ?thesis
  proof (cases "next_run_unix ?s spec off")
    case None
    then show ?thesis using exact run by (simp add: fires_at_def)
  next
    case (Some t)
    then have t: "?s < t" "spec_fires spec off t" "\<forall>u. ?s < u \<and> u < t \<longrightarrow> \<not> spec_fires spec off u"
      using exact by simp_all
    have "after < t * int nanos_per_sec" using t(1) unfolding secs_less .
    moreover have "\<not> fires_at spec off u" if u: "after < u" "u < t * int nanos_per_sec" for u
    proof
      assume "fires_at spec off u"
      then obtain v where "u = v * int nanos_per_sec" "spec_fires spec off v" "?s < v"
        using fires_at_seconds [OF _ u(1)] by blast
      then show False using t(3) u(2) nanos_pos by simp
    qed
    ultimately show ?thesis using t(2) nanos_pos by (simp add: run Some fires_at_def)
  qed
qed

lemma next_run_first_witness:
  "next_run_with_offset 100 (Every 7) 0 = Some 7000000000
   \<and> \<not> fires_at (Every 7) 0 6999999999"
proof -
  have sup: "(100 :: int) < systime_sup" by (simp add: systime_sup_def nanos_per_sec_def)
  have ok: "spec_ok (Every 7) (100 div int nanos_per_sec)"
    by (simp add: nanos_per_sec_def spec_interval_def i64_or_max_def i64_max_def i64_min_def)
  have "next_run_with_offset 100 (Every 7) 0 = Some 7000000000"
    using next_run_unix_Every [OF ok, of 0] sup
    by (simp add: next_run_with_offset_def unix_secs_eq system_time_from_unix_eq nanos_per_sec_def
        spec_interval_def i64_or_max_def i64_max_def)
  then show ?thesis using next_run_first [OF _ sup ok, of 0] by simp
qed

text \<open>
  The arithmetic of \<open>next_run\<close> never leaves the signed 64-bit range: from any second in
  the middle half of it, and with any offset an \<open>i32\<close> can hold, the next run of a spec a
  constructor can build is again a signed 64-bit number, later than \<open>after\<close>.
\<close>
theorem next_run_unix_range:
  assumes "\<bar>after\<bar> \<le> 2 ^ 62" and "\<bar>off\<bar> \<le> 2 ^ 31" and "\<And>n. spec \<noteq> Every n \<Longrightarrow> spec_ok spec after"
    and "next_run_unix after spec off = Some t"
  shows "after < t \<and> t \<le> i64_max"
proof (cases spec)
  case (Every n)
  note m = next_multiple [OF spec_interval_pos [of n], of after]
  have "t = max i64_min (min i64_max ((after div spec_interval n + 1) * spec_interval n))"
    using assms(4) by (simp add: Every next_run_unix_def i64_saturating_mul_def Let_def flip: spec_interval_def)
  moreover have "after < i64_max" using assms(1) by (simp add: i64_max_def)
  moreover have "i64_min \<le> i64_max" by (simp add: i64_min_def i64_max_def)
  ultimately show ?thesis using m(1) by auto
next
  case (DailyAt h m)
  have ok: "spec_ok (DailyAt h m) after" using assms(3) DailyAt by auto
  define nxt where "nxt = t + off"
  have "nxt = (let l = after + off; tgt = int (unat h) * 3600 + int (unat m) * 60 in
    if l div 86400 * 86400 + tgt > l then l div 86400 * 86400 + tgt else l div 86400 * 86400 + tgt + 86400)"
    using assms(4) by (auto simp: DailyAt nxt_def next_run_unix_def Let_def SECS_PER_DAY_def SECS_PER_MINUTE_def)
  note d = next_daily(1,2) [OF daily_target [OF ok] this [unfolded Let_def]]
  then show ?thesis using assms(1) by (simp add: nxt_def i64_max_def)
next
  case (Cron e)
  then obtain u where u: "next_match e (after + off) = Some u" "t = u - off"
    using assms(4) by (auto simp: next_run_unix_def)
  then show ?thesis
    using next_match_Some(1) [OF u(1)] next_match_upper [OF u(1)] assms(1)
    by (simp add: i64_max_def MAX_SEARCH_DAYS_def)
qed

lemma next_run_unix_range_witness:
  "next_run_unix (2 ^ 62) (DailyAt 3 0) 28800 = Some 4611686018427428400 \<and> (4611686018427428400 :: int) \<le> i64_max"
proof -
  have run: "next_run_unix (2 ^ 62) (DailyAt 3 0) 28800 = Some 4611686018427428400" by code_simp
  have "spec_ok (DailyAt 3 0) (2 ^ 62)" by code_simp
  then show ?thesis using next_run_unix_range [of "2 ^ 62" 28800 "DailyAt 3 0" 4611686018427428400] run by simp
qed

section \<open>Reading a time of day\<close>

lemma pad2_digits: "n < 100 \<Longrightarrow> list_all is_ascii_digit (pad2 n)"
  by (simp add: pad2_two_digits div_less_iff_less_mult)

lemma parse_two_digits_pad2:
  assumes "unat (v :: u8) < 100"
  shows "parse_two_digits (pad2 (unat v)) = Some v"
proof -
  have "list_all is_ascii_digit (pad2 (unat v))" "length (pad2 (unat v)) = 2" "pad2 (unat v) \<noteq> []"
    using assms by (simp_all add: pad2_digits) (simp_all add: pad2_two_digits)
  then show ?thesis by (simp add: parse_two_digits_def parse_digits_Some_iff)
qed

text \<open>
  Reading a time of day. \<open>try_daily_at\<close> reads every \<open>HH:MM\<close> from 00:00 to 23:59 as that hour and
  minute; whatever it accepts is such a time; and it refuses every other text with
  \<open>InvalidDailyTime\<close> carrying the text, which is the panic message of \<open>daily_at\<close>.
\<close>
theorem daily_at_reads_times:
  "(\<forall>h m :: u8. h \<le> 23 \<and> m \<le> 59 \<longrightarrow>
      try_daily_at (pad2 (unat h) @ '':'' @ pad2 (unat m)) = Inr (DailyAt h m))
   \<and> (case try_daily_at txt of
        Inr spec \<Rightarrow> \<exists>h m. spec = DailyAt h m \<and> h \<le> 23 \<and> m \<le> 59 \<and> daily_at txt = Inr spec
      | Inl e \<Rightarrow> e = InvalidDailyTime txt \<and> daily_at txt = Inl (schedule_error_text e))"
proof -
  have "try_daily_at (pad2 (unat h) @ '':'' @ pad2 (unat m)) = Inr (DailyAt h m)" if "h \<le> 23" "m \<le> 59" for h m :: u8
  proof -
    have lt: "unat h < 100" "unat m < 100" using that by (simp_all add: word_le_nat_alt)
    have "CHR '':'' \<notin> set (pad2 (unat h))"
      by (intro list_all_digits_notin pad2_digits lt) (simp add: is_ascii_digit_def)
    then have "split_once (CHR '':'') (pad2 (unat h) @ '':'' @ pad2 (unat m)) = Some (pad2 (unat h), pad2 (unat m))"
      by simp
    then show ?thesis
      using that by (simp add: try_daily_at_def parse_two_digits_pad2 lt not_less ok_or_def)
  qed
  moreover have "case try_daily_at txt of
      Inr spec \<Rightarrow> \<exists>h m. spec = DailyAt h m \<and> h \<le> 23 \<and> m \<le> 59 | Inl e \<Rightarrow> e = InvalidDailyTime txt"
    by (auto simp: try_daily_at_def ok_or_def not_less split: sum.splits option.splits if_splits)
  ultimately show ?thesis by (auto simp: daily_at_def map_err_def split: sum.splits)
qed

lemma daily_at_reads_times_witness: "try_daily_at ''07:45'' = Inr (DailyAt 7 45)"
proof -
  have "''07:45'' = pad2 (unat (7 :: u8)) @ '':'' @ pad2 (unat (45 :: u8))" by code_simp
  moreover have "(7 :: u8) \<le> 23" "(45 :: u8) \<le> 59" by code_simp+
  ultimately show ?thesis using daily_at_reads_times [of "[]", THEN conjunct1, rule_format, of 7 45] by metis
qed

end
