(* ===== verification/Sched_Run.thy ===== *)
theory Sched_Run
  imports Sched_Spec
begin

text \<open>
  The scheduler (\<open>schedule.rs\<close>, \<open>lock.rs\<close>). A schedule is a record of its jobs, its offset and
  its overlap lock; the lock is a record of the two operations of the trait, over any type of
  lock state, and the locale \<open>overlap_lock\<close> states what the trait promises. A job that was
  spawned is a task; tasks run concurrently, and \<open>task_step\<close> is one step of one of them:
  the lock is asked, the body of the job goes on, or it ends or panics and its guard is dropped.
  What a body does is not modelled: it may end in any way and at any time, or never.
\<close>

section \<open>The overlap lock\<close>

record 'l schedule_lock =
  try_acquire :: "string \<Rightarrow> duration \<Rightarrow> 'l \<Rightarrow> bool \<times> 'l"
  guard_drop :: "string \<Rightarrow> 'l \<Rightarrow> 'l"

type_synonym held_names = "string list"

definition in_process_acquire :: "string \<Rightarrow> duration \<Rightarrow> held_names \<Rightarrow> bool \<times> held_names" where
  "in_process_acquire name ttl names = (if name \<in> set names then (False, names) else (True, name # names))"

definition in_process_release :: "string \<Rightarrow> held_names \<Rightarrow> held_names" where
  "in_process_release name names = removeAll name names"

definition in_process_lock :: "held_names schedule_lock" where
  "in_process_lock = \<lparr>try_acquire = in_process_acquire, guard_drop = in_process_release\<rparr>"

section \<open>Schedules\<close>

record job =
  job_name :: string
  job_spec :: spec

record 'l schedule =
  sc_jobs :: "job list"
  sc_utc_offset_secs :: int
  sc_lock :: "'l schedule_lock"
  sc_lock_ttl :: duration

definition DEFAULT_LOCK_TTL :: duration where
  "DEFAULT_LOCK_TTL = duration_from_secs 3600"

definition schedule_new :: "held_names schedule" where
  "schedule_new = \<lparr>sc_jobs = [], sc_utc_offset_secs = 0, sc_lock = in_process_lock, sc_lock_ttl = DEFAULT_LOCK_TTL\<rparr>"

definition with_lock :: "'m schedule_lock \<Rightarrow> 'l schedule \<Rightarrow> 'm schedule" where
  "with_lock lock sc = \<lparr>sc_jobs = sc_jobs sc, sc_utc_offset_secs = sc_utc_offset_secs sc,
     sc_lock = lock, sc_lock_ttl = sc_lock_ttl sc\<rparr>"

definition lock_ttl :: "duration \<Rightarrow> 'l schedule \<Rightarrow> 'l schedule" where
  "lock_ttl ttl sc = sc\<lparr>sc_lock_ttl := ttl\<rparr>"

definition utc_offset_secs :: "int \<Rightarrow> 'l schedule \<Rightarrow> 'l schedule" where
  "utc_offset_secs secs sc = sc\<lparr>sc_utc_offset_secs := secs\<rparr>"

definition utc_offset_hours :: "int \<Rightarrow> 'l schedule \<Rightarrow> 'l schedule" where
  "utc_offset_hours hours sc = utc_offset_secs (hours * 3600) sc"

definition add_job :: "string \<Rightarrow> spec \<Rightarrow> 'l schedule \<Rightarrow> 'l schedule" where
  "add_job name spec sc = sc\<lparr>sc_jobs := sc_jobs sc @ [\<lparr>job_name = name, job_spec = spec\<rparr>]\<rparr>"

definition schedule_len :: "'l schedule \<Rightarrow> nat" where
  "schedule_len sc = length (sc_jobs sc)"

definition schedule_is_empty :: "'l schedule \<Rightarrow> bool" where
  "schedule_is_empty sc \<longleftrightarrow> sc_jobs sc = []"

definition next_runs :: "'l schedule \<Rightarrow> systime \<Rightarrow> (string \<times> systime option) list" where
  "next_runs sc after =
     map (\<lambda>job. (job_name job, next_run_with_offset after (job_spec job) (sc_utc_offset_secs sc))) (sc_jobs sc)"

definition next_run_of :: "'l schedule \<Rightarrow> string \<Rightarrow> systime \<Rightarrow> systime option" where
  "next_run_of sc name after =
     (case find (\<lambda>job. job_name job = name) (sc_jobs sc) of
        None \<Rightarrow> None
      | Some job \<Rightarrow>
          map_option system_time_from_unix (next_run_unix (unix_secs after) (job_spec job) (sc_utc_offset_secs sc)))"

section \<open>Tasks\<close>

datatype job_run = Completed | Failed | Skipped

text \<open>\<open>Joined None\<close> is a task whose body panicked: its handle resolves to an error.\<close>

datatype task_phase = Spawned | Running | Joined "job_run option"

type_synonym task = "string \<times> task_phase"

inductive task_step :: "'l schedule_lock \<Rightarrow> duration \<Rightarrow> 'l \<times> task list \<Rightarrow> 'l \<times> task list \<Rightarrow> bool"
  for lock :: "'l schedule_lock" and ttl :: duration where
  skip: "i < length ts \<Longrightarrow> ts ! i = (n, Spawned) \<Longrightarrow> try_acquire lock n ttl l = (False, l') \<Longrightarrow>
     task_step lock ttl (l, ts) (l', ts[i := (n, Joined (Some Skipped))])"
| start: "i < length ts \<Longrightarrow> ts ! i = (n, Spawned) \<Longrightarrow> try_acquire lock n ttl l = (True, l') \<Longrightarrow>
     task_step lock ttl (l, ts) (l', ts[i := (n, Running)])"
| work: "i < length ts \<Longrightarrow> ts ! i = (n, Running) \<Longrightarrow> task_step lock ttl (l, ts) (l, ts)"
| finish: "i < length ts \<Longrightarrow> ts ! i = (n, Running) \<Longrightarrow> r \<noteq> Some Skipped \<Longrightarrow>
     task_step lock ttl (l, ts) (guard_drop lock n l, ts[i := (n, Joined r)])"

section \<open>One round\<close>

record run_summary =
  rs_due :: nat
  rs_completed :: nat
  rs_failed :: nat
  rs_skipped :: nat

definition job_due :: "int \<Rightarrow> int \<Rightarrow> job \<Rightarrow> bool" where
  "job_due now off job =
     (let window_start = now div 60 * 60;
          window_end = window_start + 60
      in case next_run_unix (window_start - 1) (job_spec job) off of
           None \<Rightarrow> False
         | Some nxt \<Rightarrow> nxt < window_end)"

definition due_jobs :: "'l schedule \<Rightarrow> systime \<Rightarrow> job list" where
  "due_jobs sc now = filter (job_due (unix_secs now) (sc_utc_offset_secs sc)) (sc_jobs sc)"

definition spawn_job :: "job \<Rightarrow> task" where
  "spawn_job job = (job_name job, Spawned)"

fun count_run :: "task_phase \<Rightarrow> run_summary \<Rightarrow> run_summary" where
  "count_run (Joined (Some Completed)) s = s\<lparr>rs_completed := rs_completed s + 1\<rparr>"
| "count_run (Joined (Some Skipped)) s = s\<lparr>rs_skipped := rs_skipped s + 1\<rparr>"
| "count_run (Joined _) s = s\<lparr>rs_failed := rs_failed s + 1\<rparr>"
| "count_run _ s = s"

definition is_joined :: "task \<Rightarrow> bool" where
  "is_joined t = (case snd t of Joined _ \<Rightarrow> True | _ \<Rightarrow> False)"

definition summary_of :: "nat \<Rightarrow> task list \<Rightarrow> run_summary" where
  "summary_of due ts =
     fold count_run (map snd ts) \<lparr>rs_due = due, rs_completed = 0, rs_failed = 0, rs_skipped = 0\<rparr>"

text \<open>
  \<open>run_due\<close> spawns the due jobs, waits until every task has ended and counts them; the tasks
  of other rounds \<open>others\<close> may go on at the same time.
\<close>

inductive run_due :: "'l schedule \<Rightarrow> systime \<Rightarrow> 'l \<times> task list \<Rightarrow> run_summary \<Rightarrow> 'l \<times> task list \<Rightarrow> bool" where
  "mine = map spawn_job (due_jobs sc now) \<Longrightarrow>
   (task_step (sc_lock sc) (sc_lock_ttl sc))\<^sup>*\<^sup>* (l, others @ mine) (l', others' @ mine') \<Longrightarrow>
   length mine' = length mine \<Longrightarrow> list_all is_joined mine' \<Longrightarrow>
   run_due sc now (l, others) (summary_of (length mine) mine') (l', others')"

section \<open>The resident loop\<close>

definition start_deadlines :: "'l schedule \<Rightarrow> int \<Rightarrow> int option list" where
  "start_deadlines sc now = map (\<lambda>job. next_run_unix now (job_spec job) (sc_utc_offset_secs sc)) (sc_jobs sc)"

text \<open>One pass over jobs and deadlines: the jobs to spawn, and the new deadlines.\<close>

fun fire_due :: "int \<Rightarrow> int \<Rightarrow> job list \<Rightarrow> int option list \<Rightarrow> job list \<times> int option list" where
  "fire_due off now (job # jobs) (deadline # deadlines) =
     (case fire_due off now jobs deadlines of (fired, ds) \<Rightarrow>
        (case deadline of
           None \<Rightarrow> (fired, None # ds)
         | Some due_at \<Rightarrow>
             if due_at > now then (fired, Some due_at # ds)
             else (job # fired, next_run_unix now (job_spec job) off # ds)))"
| "fire_due off now _ deadlines = ([], deadlines)"

definition sleep_secs :: "int option list \<Rightarrow> int \<Rightarrow> int" where
  "sleep_secs deadlines now =
     (case map (\<lambda>d. max (d - now) 0) (concat (map (\<lambda>d. case d of None \<Rightarrow> [] | Some x \<Rightarrow> [x]) deadlines)) of
        [] \<Rightarrow> 60
      | d # ds \<Rightarrow> min (fold min ds d) 60)"

definition sleep_for :: "int option list \<Rightarrow> int \<Rightarrow> duration" where
  "sleep_for deadlines now = max (duration_from_secs (nat \<bar>sleep_secs deadlines now\<bar>)) 250000000"

text \<open>
  The loop, over the clock readings of its passes until shutdown: the jobs each pass
  spawns, and the last deadlines.
\<close>

fun work_passes :: "'l schedule \<Rightarrow> int list \<Rightarrow> int option list \<Rightarrow> job list list \<times> int option list" where
  "work_passes sc [] deadlines = ([], deadlines)"
| "work_passes sc (now # nows) deadlines =
     (case fire_due (sc_utc_offset_secs sc) now (sc_jobs sc) deadlines of (fired, deadlines) \<Rightarrow>
        (case work_passes sc nows deadlines of (later, deadlines) \<Rightarrow> (fired # later, deadlines)))"

definition work :: "'l schedule \<Rightarrow> int \<Rightarrow> int list \<Rightarrow> job list list" where
  "work sc now nows = fst (work_passes sc nows (start_deadlines sc now))"

end
