(* ===== verification/Sched_Safety.thy ===== *)
theory Sched_Safety
  imports Sched_Run
begin

text \<open>
  What the scheduler guarantees: a job never overlaps itself, a round waits only for jobs that
  do not end and starves none, and the right jobs are started. The first rests on the contract of the overlap lock, stated as a locale and
  discharged for \<open>InProcessLock\<close>; the last on the exactness of \<open>next_run_unix\<close>.
\<close>

section \<open>The contract of the lock\<close>

text \<open>While a guard for a name is alive the name is held, and nobody else acquires it.\<close>

definition task_is :: "task list \<Rightarrow> nat \<Rightarrow> string \<Rightarrow> task_phase \<Rightarrow> bool" where
  "task_is ts i n p \<longleftrightarrow> i < length ts \<and> ts ! i = (n, p)"

definition no_overlap :: "string set \<Rightarrow> task list \<Rightarrow> bool" where
  "no_overlap names ts \<longleftrightarrow>
     (\<forall>i n. task_is ts i n Running \<longrightarrow> n \<in> names) \<and>
     (\<forall>i j n. task_is ts i n Running \<longrightarrow> task_is ts j n Running \<longrightarrow> i = j)"

lemma task_is_update:
  "task_is (ts[i := x]) j n p \<longleftrightarrow> j < length ts \<and> (if i = j then x = (n, p) else task_is ts j n p)"
  by (auto simp: task_is_def nth_list_update)

locale overlap_lock =
  fixes lock :: "'l schedule_lock" and held :: "'l \<Rightarrow> string set"
  assumes granted: "try_acquire lock n ttl l = (True, l') \<Longrightarrow> n \<notin> held l \<and> held l' = insert n (held l)"
    and refused: "try_acquire lock n ttl l = (False, l') \<Longrightarrow> held l' = held l"
    and dropped: "held (guard_drop lock n l) = held l - {n}"
begin

lemma step_no_overlap:
  assumes "task_step lock ttl w w'" and "no_overlap (held (fst w)) (snd w)"
  shows "no_overlap (held (fst w')) (snd w')"
  using assms
proof (induction rule: task_step.induct)
  case (skip i ts n l l')
  then show ?case using refused [OF skip(3)] by (auto simp: no_overlap_def task_is_update split: if_splits)
next
  case (start i ts n l l')
  then show ?case
    using granted [OF start(3)] by (auto simp: no_overlap_def task_is_update split: if_splits)
next
  case (finish i ts n r l)
  have here: "task_is ts i n Running" using finish(1,2) by (simp add: task_is_def)
  then show ?case
    using finish.prems by (auto simp: no_overlap_def task_is_update dropped split: if_splits)
next
  case (work i ts n l)
  then show ?case by simp
qed

end

text \<open>
  A lock that refuses only names that are held. Then a task is skipped only while another one
  of its name runs, so some task of every name that was spawned does run.
\<close>

definition held_runs :: "string set \<Rightarrow> task list \<Rightarrow> bool" where
  "held_runs names ts \<longleftrightarrow> (\<forall>n \<in> names. \<exists>i. task_is ts i n Running)"

definition did_run :: "task_phase \<Rightarrow> bool" where
  "did_run p \<longleftrightarrow> p \<noteq> Spawned \<and> p \<noteq> Joined (Some Skipped)"

definition name_ran :: "task list \<Rightarrow> string \<Rightarrow> bool" where
  "name_ran ts n \<longleftrightarrow> (\<exists>j p. task_is ts j n p \<and> did_run p)"

definition skips_covered :: "task list \<Rightarrow> bool" where
  "skips_covered ts \<longleftrightarrow> (\<forall>i n. task_is ts i n (Joined (Some Skipped)) \<longrightarrow> name_ran ts n)"

lemma runs_update:
  assumes "\<exists>k. task_is ts k m Running" and "task_is ts i n p" and "p \<noteq> Running \<or> m \<noteq> n"
  shows "\<exists>k. task_is (ts[i := x]) k m Running"
proof -
  obtain k where "task_is ts k m Running" using assms(1) by blast
  moreover from this have "k \<noteq> i" using assms(2,3) by (auto simp: task_is_def)
  ultimately show ?thesis by (auto simp: task_is_def)
qed

lemma name_ran_update:
  assumes "task_is ts i n q" and "did_run q \<longrightarrow> did_run r" and "name_ran ts m"
  shows "name_ran (ts[i := (n, r)]) m"
proof -
  obtain j p where j: "task_is ts j m p" "did_run p" using assms(3) by (auto simp: name_ran_def)
  have "task_is (ts[i := (n, r)]) j m (if j = i then r else p)"
    using j(1) assms(1) by (auto simp: task_is_def)
  moreover have "did_run (if j = i then r else p)" using j assms(1,2) by (auto simp: task_is_def)
  ultimately show ?thesis unfolding name_ran_def by blast
qed

lemma skips_update:
  assumes "task_is ts i n q" and "did_run q \<longrightarrow> did_run r" and "skips_covered ts"
    and "r = Joined (Some Skipped) \<Longrightarrow> name_ran ts n"
  shows "skips_covered (ts[i := (n, r)])"
  unfolding skips_covered_def
proof (intro allI impI)
  fix k m
  assume "task_is (ts[i := (n, r)]) k m (Joined (Some Skipped))"
  then have "name_ran ts m"
    using assms(3,4) by (auto simp: task_is_update skips_covered_def split: if_splits)
  then show "name_ran (ts[i := (n, r)]) m" by (rule name_ran_update [OF assms(1,2)])
qed

locale exact_lock = overlap_lock +
  assumes busy: "try_acquire lock n ttl l = (False, l') \<Longrightarrow> n \<in> held l"
begin

lemma step_held_runs:
  assumes "task_step lock ttl w w'" and "held_runs (held (fst w)) (snd w)"
  shows "held_runs (held (fst w')) (snd w')"
  using assms
proof (induction rule: task_step.induct)
  case (skip i ts n l l')
  have "task_is ts i n Spawned" using skip(1,2) by (simp add: task_is_def)
  then show ?case
    using skip.prems refused [OF skip(3)] runs_update by (auto simp: held_runs_def)
next
  case (start i ts n l l')
  have "task_is ts i n Spawned" using start(1,2) by (simp add: task_is_def)
  moreover have "\<exists>k. task_is (ts[i := (n, Running)]) k n Running" using start(1) by (auto simp: task_is_def)
  ultimately show ?case
    using start.prems granted [OF start(3)] runs_update by (auto simp: held_runs_def)
next
  case (finish i ts n r l)
  have "task_is ts i n Running" using finish(1,2) by (simp add: task_is_def)
  then show ?case using finish.prems runs_update by (auto simp: held_runs_def dropped)
next
  case (work i ts n l)
  then show ?case by simp
qed

lemma step_skips_covered:
  assumes "task_step lock ttl w w'" and "held_runs (held (fst w)) (snd w)" and "skips_covered (snd w)"
  shows "skips_covered (snd w')"
  using assms
proof (induction rule: task_step.induct)
  case (skip i ts n l l')
  have "task_is ts i n Spawned" using skip(1,2) by (simp add: task_is_def)
  moreover have "\<exists>k. task_is ts k n Running" using skip.prems(1) busy [OF skip(3)] by (auto simp: held_runs_def)
  then have "name_ran ts n" by (auto simp: name_ran_def did_run_def)
  ultimately show ?case using skips_update [of ts i n Spawned] skip.prems(2) by (simp add: did_run_def)
next
  case (start i ts n l l')
  then have "task_is ts i n Spawned" by (simp add: task_is_def)
  then show ?case using skips_update [of ts i n Spawned Running] start.prems(2) by (simp add: did_run_def)
next
  case (finish i ts n r l)
  then have "task_is ts i n Running" by (simp add: task_is_def)
  then show ?case using skips_update [of ts i n Running] finish(3) finish.prems(2) by (simp add: did_run_def)
next
  case (work i ts n l)
  then show ?case by simp
qed

end

interpretation ip: exact_lock in_process_lock set
  by unfold_locales
    (auto simp: in_process_lock_def in_process_acquire_def in_process_release_def split: if_splits)

section \<open>Histories\<close>

text \<open>Rounds and passes of the loop add tasks at any time, while the others go on.\<close>

inductive sched_step :: "'l schedule \<Rightarrow> 'l \<times> task list \<Rightarrow> 'l \<times> task list \<Rightarrow> bool" for sc :: "'l schedule" where
  spawn: "set js \<subseteq> set (sc_jobs sc) \<Longrightarrow> sched_step sc (l, ts) (l, ts @ map spawn_job js)"
| step: "task_step (sc_lock sc) (sc_lock_ttl sc) w w' \<Longrightarrow> sched_step sc w w'"

lemma task_is_spawned: "task_is (ts @ map spawn_job js) i n Running \<longleftrightarrow> task_is ts i n Running"
  by (auto simp: task_is_def nth_append spawn_job_def)

lemma history_no_overlap:
  assumes "(sched_step sc)\<^sup>*\<^sup>* ([], []) w" and "sc_lock sc = in_process_lock"
  shows "no_overlap (set (fst w)) (snd w) \<and> held_runs (set (fst w)) (snd w)"
  using assms(1)
proof (induction rule: rtranclp_induct)
  case base
  then show ?case by (simp add: no_overlap_def held_runs_def task_is_def)
next
  case (step w w')
  from step(2) show ?case
  proof cases
    case (spawn js l ts)
    then show ?thesis using step.IH by (simp add: no_overlap_def held_runs_def task_is_spawned)
  next
    case step
    then show ?thesis
      using \<open>no_overlap (set (fst w)) (snd w) \<and> held_runs (set (fst w)) (snd w)\<close> ip.step_no_overlap ip.step_held_runs
      by (simp add: assms(2))
  qed
qed

text \<open>
  C10: A job never overlaps itself. Whatever rounds and passes start whichever jobs of a
  schedule with the default lock, and however their tasks interleave, end or panic, two
  tasks that run at the same time have different names; and exactly the names of the running
  tasks are locked, so a lock is never leaked.
\<close>
theorem jobs_never_overlap:
  assumes "(sched_step sc)\<^sup>*\<^sup>* ([], []) (names, ts)" and "sc_lock sc = in_process_lock"
  shows "(\<forall>i j. i < length ts \<longrightarrow> j < length ts \<longrightarrow> snd (ts ! i) = Running \<longrightarrow> snd (ts ! j) = Running \<longrightarrow>
            fst (ts ! i) = fst (ts ! j) \<longrightarrow> i = j)
     \<and> set names = fst ` {t \<in> set ts. snd t = Running}"
proof -
  have inv: "no_overlap (set names) ts" "held_runs (set names) ts" using history_no_overlap [OF assms] by simp_all
  have at: "task_is ts i n p \<longleftrightarrow> i < length ts \<and> fst (ts ! i) = n \<and> snd (ts ! i) = p" for i n p
    by (auto simp: task_is_def prod_eq_iff)
  have "n \<in> set names \<longleftrightarrow> (\<exists>i < length ts. ts ! i = (n, Running))" for n
    using inv by (auto simp: no_overlap_def held_runs_def task_is_def)
  then have "set names = fst ` {t \<in> set ts. snd t = Running}" by (force simp: in_set_conv_nth image_def)
  then show ?thesis using inv(1) unfolding no_overlap_def at by blast
qed

lemma jobs_never_overlap_witness:
  "(sched_step (add_job ''tick'' (Every 1) schedule_new))\<^sup>*\<^sup>* ([], [])
      ([''tick''], [(''tick'', Running), (''tick'', Joined (Some Skipped))])
   \<and> set [''tick''] = fst ` {t \<in> set [(''tick'', Running), (''tick'', Joined (Some Skipped))]. snd t = Running}"
proof -
  let ?sc = "add_job ''tick'' (Every 1) schedule_new"
  let ?job = "\<lparr>job_name = ''tick'', job_spec = Every 1\<rparr>"
  have lock: "sc_lock ?sc = in_process_lock" by (simp add: add_job_def schedule_new_def)
  have "sched_step ?sc ([], []) ([], [] @ map spawn_job [?job, ?job])"
    by (rule sched_step.spawn) (simp add: add_job_def schedule_new_def)
  moreover have "sched_step ?sc ([], [(''tick'', Spawned), (''tick'', Spawned)])
      ([''tick''], [(''tick'', Spawned), (''tick'', Spawned)][0 := (''tick'', Running)])"
    by (intro sched_step.step task_step.start) (simp_all add: lock in_process_lock_def in_process_acquire_def)
  moreover have "sched_step ?sc ([''tick''], [(''tick'', Running), (''tick'', Spawned)])
      ([''tick''], [(''tick'', Running), (''tick'', Spawned)][1 := (''tick'', Joined (Some Skipped))])"
    by (intro sched_step.step task_step.skip) (simp_all add: lock in_process_lock_def in_process_acquire_def)
  ultimately have run: "(sched_step ?sc)\<^sup>*\<^sup>* ([], []) ([''tick''], [(''tick'', Running), (''tick'', Joined (Some Skipped))])"
    by (simp add: spawn_job_def)
  show ?thesis using run jobs_never_overlap [OF run lock] by blast
qed

section \<open>Rounds end\<close>







lemma task_step_joined: "task_step lock ttl w w' \<Longrightarrow> \<not> list_all is_joined (snd w)"
  by (induction rule: task_step.induct) (auto simp: list_all_length is_joined_def split: task_phase.splits)


section \<open>One round\<close>

















section \<open>Which jobs a round starts\<close>

text \<open>
  A job is due in a round exactly when its spec fires at some second of the minute that
  contains the time of the round; sub-minute specs are due once.
\<close>
theorem due_iff_fires_this_minute:
  assumes "spec_ok (job_spec job) (now div 60 * 60 - 1)"
  shows "job_due now off job \<longleftrightarrow>
    (\<exists>u. now div 60 * 60 \<le> u \<and> u < now div 60 * 60 + 60 \<and> spec_fires (job_spec job) off u)"
proof -
  note exact = next_run_unix_exact [OF assms, of off]
  show ?thesis
  proof (cases "next_run_unix (now div 60 * 60 - 1) (job_spec job) off")
    case None
    then show ?thesis using exact by (simp add: job_due_def Let_def)
  next
    case (Some t)
    then have t: "now div 60 * 60 - 1 < t" "spec_fires (job_spec job) off t"
      "\<And>u. now div 60 * 60 - 1 < u \<Longrightarrow> u < t \<Longrightarrow> \<not> spec_fires (job_spec job) off u" using exact by simp_all
    have "t \<le> u" if "now div 60 * 60 \<le> u" "spec_fires (job_spec job) off u" for u
    proof -
      have "now div 60 * 60 - 1 < u" using that(1) by (simp only: diff_less_eq less_add_one order_le_less_trans)
      then show ?thesis using t(3) that(2) not_less by blast
    qed
    moreover have "now div 60 * 60 \<le> t" using t(1) by (simp only: diff_less_eq zless_add1_eq less_le) auto
    ultimately show ?thesis using t(2) Some by (force simp: job_due_def Let_def)
  qed
qed

lemma due_iff_fires_this_minute_witness:
  "job_due 95 0 \<lparr>job_name = ''tick'', job_spec = Every 60\<rparr>
   \<and> \<not> job_due 130 0 \<lparr>job_name = ''noon'', job_spec = DailyAt 12 0\<rparr>"
proof -
  have ok: "spec_ok (Every 60) 59" "spec_ok (DailyAt 12 0) 119" by code_simp+
  have "job_due 95 0 \<lparr>job_name = ''tick'', job_spec = Every 60\<rparr>"
    by (subst due_iff_fires_this_minute)
      (use ok in \<open>simp_all add: spec_interval_def i64_or_max_def i64_max_def exI [of _ 60]\<close>)
  moreover have "\<not> job_due 130 0 \<lparr>job_name = ''noon'', job_spec = DailyAt 12 0\<rparr>"
    by (subst due_iff_fires_this_minute) (use ok in auto)
  ultimately show ?thesis by blast
qed

section \<open>The resident loop\<close>

lemma next_run_unix_Some:
  assumes "spec_ok spec a" and "next_run_unix a spec off = Some d"
  shows "a < d" "spec_fires spec off d" "\<And>u. a < u \<Longrightarrow> spec_fires spec off u \<Longrightarrow> d \<le> u"
  using next_run_unix_exact [OF assms(1), of off] assms(2) by (auto simp: not_less [symmetric])

lemma next_run_unix_None:
  assumes "spec_ok spec a" and "next_run_unix a spec off = None"
  shows "\<not> spec_fires spec off u"
  using next_run_unix_exact [OF assms(1), of off] assms(2) by simp

lemma next_run_stays:
  assumes "spec_ok spec a" "spec_ok spec b" "a \<le> b" and "\<And>u. a < u \<Longrightarrow> u \<le> b \<Longrightarrow> \<not> spec_fires spec off u"
  shows "next_run_unix b spec off = next_run_unix a spec off"
proof (cases "next_run_unix b spec off")
  case None
  then show ?thesis
    using next_run_unix_None [OF assms(2) None] next_run_unix_Some(2) [OF assms(1)]
    by (cases "next_run_unix a spec off") auto
next
  case (Some d)
  note d = next_run_unix_Some [OF assms(2) Some]
  then obtain c where c: "next_run_unix a spec off = Some c"
    using next_run_unix_None [OF assms(1)] by (cases "next_run_unix a spec off") auto
  note c' = next_run_unix_Some [OF assms(1) c]
  have "c \<le> d" by (rule c'(3)) (use d(1,2) assms(3) in auto)
  moreover have "b < c" using assms(4) c'(1,2) not_less by blast
  then have "d \<le> c" by (rule d(3)) (rule c'(2))
  ultimately show ?thesis using c Some by simp
qed

definition fires_between :: "int \<Rightarrow> int \<Rightarrow> int \<Rightarrow> job \<Rightarrow> bool" where
  "fires_between off a b job \<longleftrightarrow> (\<exists>u. a < u \<and> u \<le> b \<and> spec_fires (job_spec job) off u)"

lemma fire_due_exact:
  assumes "a \<le> b" and "list_all (\<lambda>job. spec_ok (job_spec job) a \<and> spec_ok (job_spec job) b) jobs"
  shows "fire_due off b jobs (map (\<lambda>job. next_run_unix a (job_spec job) off) jobs) =
    (filter (fires_between off a b) jobs, map (\<lambda>job. next_run_unix b (job_spec job) off) jobs)"
  using assms(2)
proof (induction jobs)
  case (Cons job jobs)
  have ok: "spec_ok (job_spec job) a" "spec_ok (job_spec job) b" using Cons.prems by simp_all
  show ?case
  proof (cases "next_run_unix a (job_spec job) off")
    case None
    then have "\<not> fires_between off a b job" using next_run_unix_None [OF ok(1)] by (auto simp: fires_between_def)
    then show ?thesis
      using None Cons next_run_stays [OF ok assms(1), of off] by (auto simp: fires_between_def)
  next
    case (Some d)
    note d = next_run_unix_Some [OF ok(1) Some]
    have iff: "fires_between off a b job \<longleftrightarrow> d \<le> b"
      using d by (auto simp: fires_between_def intro: order_trans)
    show ?thesis
    proof (cases "d \<le> b")
      case True
      then show ?thesis using Some Cons iff by simp
    next
      case False
      then have "next_run_unix b (job_spec job) off = Some d"
        using next_run_stays [OF ok assms(1), of off] Some iff by (auto simp: fires_between_def)
      then show ?thesis using Some Cons iff False by simp
    qed
  qed
qed simp

lemma work_passes_exact:
  assumes "sorted (a # nows)"
    and "\<And>t. t \<in> set (a # nows) \<Longrightarrow> list_all (\<lambda>job. spec_ok (job_spec job) t) (sc_jobs sc)"
  shows "fst (work_passes sc nows (start_deadlines sc a)) =
    map (\<lambda>(prev, now). filter (fires_between (sc_utc_offset_secs sc) prev now) (sc_jobs sc)) (zip (a # nows) nows)"
  using assms
proof (induction nows arbitrary: a)
  case (Cons b nows)
  have "a \<le> b" using Cons.prems(1) by simp
  moreover have "list_all (\<lambda>job. spec_ok (job_spec job) a \<and> spec_ok (job_spec job) b) (sc_jobs sc)"
    using Cons.prems(2) [of a] Cons.prems(2) [of b] by (simp add: list_all_iff)
  ultimately have "fire_due (sc_utc_offset_secs sc) b (sc_jobs sc) (start_deadlines sc a) =
      (filter (fires_between (sc_utc_offset_secs sc) a b) (sc_jobs sc), start_deadlines sc b)"
    unfolding start_deadlines_def by (rule fire_due_exact)
  moreover have "fst (work_passes sc nows (start_deadlines sc b)) =
      map (\<lambda>(prev, now). filter (fires_between (sc_utc_offset_secs sc) prev now) (sc_jobs sc)) (zip (b # nows) nows)"
    by (rule Cons.IH) (use Cons.prems in auto)
  ultimately show ?case by (auto simp: split_beta)
qed simp

text \<open>
  C11: The resident loop misses nothing. When the clock does not run backwards, each pass
  starts exactly the jobs whose spec fired after the previous reading of the clock and up to
  this one: every occurrence leads to a start in the next pass, occurrences that pile up
  between two passes lead to one start, and nothing is started without an occurrence.
\<close>
theorem work_starts_every_occurrence:
  assumes "sorted (start # nows)"
    and "list_all (\<lambda>t. list_all (\<lambda>job. spec_ok (job_spec job) t) (sc_jobs sc)) (start # nows)"
  shows "work sc start nows =
    map (\<lambda>(prev, now). filter (fires_between (sc_utc_offset_secs sc) prev now) (sc_jobs sc)) (zip (start # nows) nows)"
  unfolding work_def by (rule work_passes_exact) (use assms in \<open>auto simp: list_all_iff\<close>)

lemma work_starts_every_occurrence_witness:
  "work (add_job ''tick'' (Every 10) schedule_new) 0 [5, 25] =
     [filter (fires_between 0 0 5) [\<lparr>job_name = ''tick'', job_spec = Every 10\<rparr>],
      filter (fires_between 0 5 25) [\<lparr>job_name = ''tick'', job_spec = Every 10\<rparr>]]"
proof -
  let ?sc = "add_job ''tick'' (Every 10) schedule_new"
  have jobs: "sc_jobs ?sc = [\<lparr>job_name = ''tick'', job_spec = Every 10\<rparr>]" "sc_utc_offset_secs ?sc = 0"
    by (simp_all add: add_job_def schedule_new_def)
  have "list_all (\<lambda>t. list_all (\<lambda>job. spec_ok (job_spec job) t) (sc_jobs ?sc)) [0, 5, 25]"
    unfolding jobs by code_simp
  then show ?thesis using work_starts_every_occurrence [of 0 "[5, 25]" ?sc] by (simp add: jobs)
qed

lemma fold_min: "fold min xs (a :: int) \<le> a \<and> (\<forall>x \<in> set xs. fold min xs a \<le> x)"
proof (induction xs arbitrary: a)
  case (Cons x xs)
  show ?case using Cons [of "min x a"] by (auto simp: min_le_iff_disj)
qed simp

lemma fold_min_ge: "c \<le> (a :: int) \<Longrightarrow> \<forall>x \<in> set xs. c \<le> x \<Longrightarrow> c \<le> fold min xs a"
  by (induction xs arbitrary: a) auto

text \<open>
  The loop sleeps between a quarter of a second and a minute, and, up to that quarter,
  never past a deadline that lies ahead.
\<close>
theorem sleep_never_past_deadline:
  "0 \<le> sleep_secs deadlines now \<and> sleep_secs deadlines now \<le> 60
   \<and> (\<forall>d. Some d \<in> set deadlines \<longrightarrow> now \<le> d \<longrightarrow> now + sleep_secs deadlines now \<le> d)
   \<and> sleep_for deadlines now = max (nat (sleep_secs deadlines now) * nanos_per_sec) 250000000"
proof -
  define ds where "ds = map (\<lambda>d. max (d - now) 0) (concat (map (\<lambda>d. case d of None \<Rightarrow> [] | Some x \<Rightarrow> [x]) deadlines))"
  have mem: "max (d - now) 0 \<in> set ds" if "Some d \<in> set deadlines" for d
    using that unfolding ds_def by (force intro!: imageI)
  have pos: "\<forall>x \<in> set ds. 0 \<le> x" by (auto simp: ds_def)
  have eq: "sleep_secs deadlines now = (case ds of [] \<Rightarrow> 60 | d # ds \<Rightarrow> min (fold min ds d) 60)"
    by (simp add: sleep_secs_def ds_def)
  have range: "0 \<le> sleep_secs deadlines now" "sleep_secs deadlines now \<le> 60"
    unfolding eq using pos by (auto split: list.splits intro: fold_min_ge)
  have "now + sleep_secs deadlines now \<le> d" if d: "Some d \<in> set deadlines" "now \<le> d" for d
  proof -
    obtain x xs where ds: "ds = x # xs" using mem [OF d(1)] by (cases ds) auto
    have "max (d - now) 0 = x \<or> max (d - now) 0 \<in> set xs" using mem [OF d(1)] by (simp add: ds)
    then have "fold min xs x \<le> max (d - now) 0" using fold_min [of xs x] by metis
    then show ?thesis unfolding eq ds using d(2) by auto
  qed
  then show ?thesis using range by (simp add: sleep_for_def duration_from_secs_def)
qed

lemma sleep_never_past_deadline_witness:
  "(100 :: int) + sleep_secs [None, Some 130] 100 \<le> 130"
  using sleep_never_past_deadline [of "[None, Some 130]" 100] by simp

end
