(* ===== verification/Hub.thy ===== *)
theory Hub
  imports Rust_Collections
begin

text \<open>
  The broadcast hub of \<open>phoenix-http\<close> (\<open>hub.rs\<close>). The state behind the mutex is the record
  \<open>hub\<close>: the registered connections with the channels they joined, the channels with their
  members, and the bounded outbound queue of every connection, which outlives its entry
  because the receiving half belongs to the socket. The queues are channels of the
  asynchronous runtime, a parameter \<open>tx\<close> of the operations. Every method takes the lock once, so it
  is one function on the state. The order in which a \<open>HashSet\<close> or \<open>HashMap\<close> is walked is a
  parameter of each call. What a broadcaster was asked to publish is kept in \<open>hub_published\<close>.
\<close>

section \<open>Data\<close>

type_synonym connection_id = u64
type_synonym hub_ident = u64

record close_frame =
  cf_code :: u16
  cf_reason :: string

datatype message =
    MText string
  | MBinary string
  | MPing string
  | MPong string
  | MClose "close_frame option"

datatype slow_consumer = Disconnect | DropMessage

record hub_config =
  hc_capacity :: nat
  hc_slow_consumer :: slow_consumer

definition hub_config_default :: hub_config where
  "hub_config_default = \<lparr>hc_capacity = 64, hc_slow_consumer = Disconnect\<rparr>"

record connection_meta =
  cm_key :: "string option"
  cm_state :: "string option"

record presence_member =
  pm_connection :: connection_id
  pm_key :: string
  pm_state :: "string option"

datatype presence_event_kind = Join | Leave

record presence_event =
  pe_channel :: string
  pe_kind :: presence_event_kind
  pe_member :: presence_member

datatype outgoing = OutMessage message | OutPresence presence_event

datatype peer_target = ToChannel string | ToKey string

record peer_frame =
  pf_origin :: hub_ident
  pf_target :: peer_target
  pf_message :: message

datatype join_error = Unauthorized | ConnectionClosed

datatype send_error = UnknownConnection | Backpressure | Closed

record connection_entry =
  en_meta :: connection_meta
  en_joined :: "string set"

text \<open>
  The bounded channels of the runtime, over any type of channel states: opening one, sending
  without waiting, receiving without waiting, and dropping the receiver.
\<close>

datatype send_outcome = SendOk | SendFull | SendClosed

record 'q mpsc =
  ch_new :: "nat \<Rightarrow> 'q"
  ch_try_send :: "outgoing \<Rightarrow> 'q \<Rightarrow> send_outcome \<times> 'q"
  ch_try_recv :: "'q \<Rightarrow> outgoing option \<times> 'q"
  ch_drop_receiver :: "'q \<Rightarrow> 'q"

record 'q hub =
  hub_id :: hub_ident
  hub_next_connection :: connection_id
  hub_config :: hub_config
  hub_authorizer :: "string \<Rightarrow> connection_id \<Rightarrow> connection_meta \<Rightarrow> bool"
  hub_published :: "peer_frame list"
  hub_connections :: "connection_id \<rightharpoonup> connection_entry"
  hub_channels :: "string \<rightharpoonup> connection_id set"
  hub_mail :: "connection_id \<rightharpoonup> 'q"

record hash_order =
  ho_members :: "connection_id set \<Rightarrow> connection_id list"
  ho_joined :: "string set \<Rightarrow> string list"
  ho_connections :: "(connection_id \<rightharpoonup> connection_entry) \<Rightarrow> connection_id list"

text \<open>\<open>HubBuilder::build\<close>; the fresh identifier is an argument.\<close>

definition hub_build :: "hub_ident \<Rightarrow> hub_config \<Rightarrow> (string \<Rightarrow> connection_id \<Rightarrow> connection_meta \<Rightarrow> bool) \<Rightarrow> 'q hub" where
  "hub_build ident config authorizer =
     \<lparr>hub_id = ident, hub_next_connection = 1, hub_config = config, hub_authorizer = authorizer,
      hub_published = [], hub_connections = Map.empty, hub_channels = Map.empty, hub_mail = Map.empty\<rparr>"

definition builder_capacity :: "nat \<Rightarrow> hub_config \<Rightarrow> hub_config" where
  "builder_capacity capacity config = config\<lparr>hc_capacity := max capacity 1\<rparr>"

definition allow_all :: "string \<Rightarrow> connection_id \<Rightarrow> connection_meta \<Rightarrow> bool" where
  "allow_all channel cid meta = True"

section \<open>Queues\<close>

definition try_send :: "'q mpsc \<Rightarrow> connection_id \<Rightarrow> outgoing \<Rightarrow> 'q hub \<Rightarrow> send_outcome \<times> 'q hub" where
  "try_send tx cid item h =
     (case hub_mail h cid of
        None \<Rightarrow> (SendClosed, h)
      | Some q \<Rightarrow> (case ch_try_send tx item q of (r, q') \<Rightarrow> (r, h\<lparr>hub_mail := (hub_mail h)(cid \<mapsto> q')\<rparr>)))"

definition outbound_try_recv :: "'q mpsc \<Rightarrow> connection_id \<Rightarrow> 'q hub \<Rightarrow> outgoing option \<times> 'q hub" where
  "outbound_try_recv tx cid h =
     (case hub_mail h cid of
        None \<Rightarrow> (None, h)
      | Some q \<Rightarrow> (case ch_try_recv tx q of (r, q') \<Rightarrow> (r, h\<lparr>hub_mail := (hub_mail h)(cid \<mapsto> q')\<rparr>)))"

definition outbound_drop :: "'q mpsc \<Rightarrow> connection_id \<Rightarrow> 'q hub \<Rightarrow> 'q hub" where
  "outbound_drop tx cid h =
     (case hub_mail h cid of
        None \<Rightarrow> h
      | Some q \<Rightarrow> h\<lparr>hub_mail := (hub_mail h)(cid \<mapsto> ch_drop_receiver tx q)\<rparr>)"

section \<open>Membership\<close>

definition make_presence :: "connection_id \<Rightarrow> connection_meta \<Rightarrow> presence_member" where
  "make_presence cid meta =
     \<lparr>pm_connection = cid,
      pm_key = (case cm_key meta of Some k \<Rightarrow> k | None \<Rightarrow> ''conn:'' @ nat_to_string (unat cid)),
      pm_state = cm_state meta\<rparr>"

text \<open>Best-effort delivery of an event to the listed connections that are still registered.\<close>

definition notify_one :: "'q mpsc \<Rightarrow> outgoing \<Rightarrow> connection_id \<Rightarrow> 'q hub \<Rightarrow> 'q hub" where
  "notify_one tx event cid h = (if hub_connections h cid = None then h else snd (try_send tx cid event h))"

definition notify_all :: "'q mpsc \<Rightarrow> outgoing \<Rightarrow> connection_id list \<Rightarrow> 'q hub \<Rightarrow> 'q hub" where
  "notify_all tx event ids h = fold (notify_one tx event) ids h"

definition hub_connect :: "'q mpsc \<Rightarrow> connection_meta \<Rightarrow> 'q hub \<Rightarrow> connection_id \<times> 'q hub" where
  "hub_connect tx meta h =
     (let cid = hub_next_connection h
      in (cid, h\<lparr>hub_next_connection := cid + 1,
               hub_mail := (hub_mail h)(cid \<mapsto> ch_new tx (max (hc_capacity (hub_config h)) 1)),
               hub_connections := (hub_connections h)(cid \<mapsto> \<lparr>en_meta = meta, en_joined = {}\<rparr>)\<rparr>))"

definition hub_join :: "'q mpsc \<Rightarrow> hash_order \<Rightarrow> connection_id \<Rightarrow> string \<Rightarrow> 'q hub \<Rightarrow> (join_error + unit) \<times> 'q hub" where
  "hub_join tx ho cid channel h =
     (case hub_connections h cid of
        None \<Rightarrow> (Inl ConnectionClosed, h)
      | Some entry \<Rightarrow>
          if \<not> hub_authorizer h channel cid (en_meta entry) then (Inl Unauthorized, h)
          else if channel \<in> en_joined entry then (Inr (), h)
          else
            (let members = insert cid (case hub_channels h channel of None \<Rightarrow> {} | Some ms \<Rightarrow> ms);
                 h1 = h\<lparr>hub_connections := (hub_connections h)(cid \<mapsto> entry\<lparr>en_joined := insert channel (en_joined entry)\<rparr>),
                        hub_channels := (hub_channels h)(channel \<mapsto> members)\<rparr>;
                 others = filter (\<lambda>m. m \<noteq> cid) (ho_members ho members);
                 event = OutPresence \<lparr>pe_channel = channel, pe_kind = Join, pe_member = make_presence cid (en_meta entry)\<rparr>
             in (Inr (), notify_all tx event others h1)))"

definition hub_leave :: "'q mpsc \<Rightarrow> hash_order \<Rightarrow> connection_id \<Rightarrow> string \<Rightarrow> 'q hub \<Rightarrow> 'q hub" where
  "hub_leave tx ho cid channel h =
     (let h1 = (case hub_connections h cid of
                  None \<Rightarrow> h
                | Some entry \<Rightarrow> h\<lparr>hub_connections := (hub_connections h)(cid \<mapsto> entry\<lparr>en_joined := en_joined entry - {channel}\<rparr>)\<rparr>);
          meta = map_option en_meta (hub_connections h1 cid)
      in case hub_channels h1 channel of
           None \<Rightarrow> h1
         | Some members \<Rightarrow>
             if cid \<notin> members then h1
             else
               (let rest = members - {cid};
                    h2 = h1\<lparr>hub_channels := (hub_channels h1)(channel \<mapsto> rest)\<rparr>;
                    h3 = (case meta of
                            None \<Rightarrow> h2
                          | Some meta \<Rightarrow>
                              notify_all tx (OutPresence \<lparr>pe_channel = channel, pe_kind = Leave, pe_member = make_presence cid meta\<rparr>)
                                (ho_members ho rest) h2)
                in if rest = {} then h3\<lparr>hub_channels := (hub_channels h3)(channel := None)\<rparr> else h3))"

text \<open>One round of the loop of \<open>evict\<close> over the channels the removed connection had joined.\<close>

definition evict_channel :: "'q mpsc \<Rightarrow> hash_order \<Rightarrow> connection_id \<Rightarrow> presence_member \<Rightarrow> string \<Rightarrow> 'q hub \<Rightarrow> 'q hub" where
  "evict_channel tx ho cid member channel h =
     (case hub_channels h channel of
        None \<Rightarrow> h
      | Some members \<Rightarrow>
          if cid \<notin> members then h
          else
            (let rest = members - {cid};
                 h1 = h\<lparr>hub_channels := (hub_channels h)(channel \<mapsto> rest)\<rparr>;
                 h2 = notify_all tx (OutPresence \<lparr>pe_channel = channel, pe_kind = Leave, pe_member = member\<rparr>) (ho_members ho rest) h1
             in if rest = {} then h2\<lparr>hub_channels := (hub_channels h2)(channel := None)\<rparr> else h2))"

definition evict :: "'q mpsc \<Rightarrow> hash_order \<Rightarrow> connection_id \<Rightarrow> 'q hub \<Rightarrow> 'q hub" where
  "evict tx ho cid h =
     (case hub_connections h cid of
        None \<Rightarrow> h
      | Some entry \<Rightarrow>
          fold (evict_channel tx ho cid (make_presence cid (en_meta entry))) (ho_joined ho (en_joined entry))
            (h\<lparr>hub_connections := (hub_connections h)(cid := None)\<rparr>))"

definition hub_disconnect :: "'q mpsc \<Rightarrow> hash_order \<Rightarrow> connection_id \<Rightarrow> 'q hub \<Rightarrow> 'q hub" where
  "hub_disconnect tx ho cid h = evict tx ho cid h"

section \<open>Messages\<close>

definition hub_send_to :: "'q mpsc \<Rightarrow> hash_order \<Rightarrow> connection_id \<Rightarrow> message \<Rightarrow> 'q hub \<Rightarrow> (send_error + unit) \<times> 'q hub" where
  "hub_send_to tx ho cid msg h =
     (if hub_connections h cid = None then (Inl UnknownConnection, h)
      else case try_send tx cid (OutMessage msg) h of
             (SendOk, h1) \<Rightarrow> (Inr (), h1)
           | (SendFull, h1) \<Rightarrow>
               (Inl Backpressure, if hc_slow_consumer (hub_config h) = Disconnect then evict tx ho cid h1 else h1)
           | (SendClosed, h1) \<Rightarrow> (Inl Closed, evict tx ho cid h1))"

text \<open>
  The loop over the receivers of \<open>broadcast_local\<close> and \<open>send_to_key_local\<close>: how many were
  reached, whom to evict, and the state.
\<close>

fun deliver_each :: "'q mpsc \<Rightarrow> message \<Rightarrow> connection_id list \<Rightarrow> 'q hub \<Rightarrow> nat \<times> connection_id list \<times> 'q hub" where
  "deliver_each tx msg [] h = (0, [], h)"
| "deliver_each tx msg (cid # ids) h =
     (if hub_connections h cid = None then deliver_each tx msg ids h
      else case try_send tx cid (OutMessage msg) h of (outcome, h1) \<Rightarrow>
        (case deliver_each tx msg ids h1 of (delivered, to_evict, h2) \<Rightarrow>
           (case outcome of
              SendOk \<Rightarrow> (delivered + 1, to_evict, h2)
            | SendFull \<Rightarrow>
                (delivered, if hc_slow_consumer (hub_config h) = Disconnect then cid # to_evict else to_evict, h2)
            | SendClosed \<Rightarrow> (delivered, cid # to_evict, h2))))"

definition broadcast_local :: "'q mpsc \<Rightarrow> hash_order \<Rightarrow> string \<Rightarrow> message \<Rightarrow> 'q hub \<Rightarrow> 'q hub" where
  "broadcast_local tx ho channel msg h =
     (case hub_channels h channel of
        None \<Rightarrow> h
      | Some members \<Rightarrow>
          (case deliver_each tx msg (ho_members ho members) h of (_, to_evict, h1) \<Rightarrow> fold (evict tx ho) to_evict h1))"

definition send_to_key_local :: "'q mpsc \<Rightarrow> hash_order \<Rightarrow> string \<Rightarrow> message \<Rightarrow> 'q hub \<Rightarrow> nat \<times> 'q hub" where
  "send_to_key_local tx ho key msg h =
     (let has_key = (\<lambda>cid. case hub_connections h cid of None \<Rightarrow> False | Some entry \<Rightarrow> cm_key (en_meta entry) = Some key);
          targets = filter has_key (ho_connections ho (hub_connections h))
      in case deliver_each tx msg targets h of
           (delivered, to_evict, h1) \<Rightarrow> (delivered, fold (evict tx ho) to_evict h1))"

definition publish :: "peer_frame \<Rightarrow> 'q hub \<Rightarrow> 'q hub" where
  "publish frame h = h\<lparr>hub_published := hub_published h @ [frame]\<rparr>"

definition hub_broadcast :: "'q mpsc \<Rightarrow> hash_order \<Rightarrow> string \<Rightarrow> message \<Rightarrow> 'q hub \<Rightarrow> 'q hub" where
  "hub_broadcast tx ho channel msg h =
     publish \<lparr>pf_origin = hub_id h, pf_target = ToChannel channel, pf_message = msg\<rparr> (broadcast_local tx ho channel msg h)"

definition hub_send_to_key :: "'q mpsc \<Rightarrow> hash_order \<Rightarrow> string \<Rightarrow> message \<Rightarrow> 'q hub \<Rightarrow> nat \<times> 'q hub" where
  "hub_send_to_key tx ho key msg h =
     (case send_to_key_local tx ho key msg h of (delivered, h1) \<Rightarrow>
        (delivered, publish \<lparr>pf_origin = hub_id h, pf_target = ToKey key, pf_message = msg\<rparr> h1))"

definition deliver_from_peer :: "'q mpsc \<Rightarrow> hash_order \<Rightarrow> peer_frame \<Rightarrow> 'q hub \<Rightarrow> 'q hub" where
  "deliver_from_peer tx ho frame h =
     (if pf_origin frame = hub_id h then h
      else case pf_target frame of
             ToChannel channel \<Rightarrow> broadcast_local tx ho channel (pf_message frame) h
           | ToKey key \<Rightarrow> snd (send_to_key_local tx ho key (pf_message frame) h))"

section \<open>Queries\<close>

definition hub_presence :: "hash_order \<Rightarrow> string \<Rightarrow> 'q hub \<Rightarrow> presence_member list" where
  "hub_presence ho channel h =
     (case hub_channels h channel of
        None \<Rightarrow> []
      | Some members \<Rightarrow>
          concat (map (\<lambda>cid. case hub_connections h cid of None \<Rightarrow> [] | Some entry \<Rightarrow> [make_presence cid (en_meta entry)])
            (ho_members ho members)))"

definition hub_member_count :: "string \<Rightarrow> 'q hub \<Rightarrow> nat" where
  "hub_member_count channel h = (case hub_channels h channel of None \<Rightarrow> 0 | Some members \<Rightarrow> card members)"

definition connection_channels :: "connection_id \<Rightarrow> 'q hub \<Rightarrow> string list" where
  "connection_channels cid h =
     (case hub_connections h cid of None \<Rightarrow> [] | Some entry \<Rightarrow> sorted_list_of_set (en_joined entry))"

end
