(* ===== verification/Hub_Props.thy ===== *)
theory Hub_Props
  imports Hub
begin

text \<open>
  The invariant of the hub and what its operations do. The channels are determined by the
  connections (\<open>chans_of\<close>), so the abstract state of the hub is its membership relation; the
  queues of bystanders only ever receive presence events (\<open>presence_only\<close>).
\<close>

section \<open>Bounded queues\<close>

text \<open>
  The documented behaviour of the channels: a queue of items, its capacity, and whether the
  receiver is still there. A send fails with \<open>SendClosed\<close> when it is not, and otherwise with
  \<open>SendFull\<close> when the queue is at its capacity.
\<close>

record mailbox =
  mb_items :: "outgoing list"
  mb_capacity :: nat
  mb_open :: bool

definition mailbox_send :: "outgoing \<Rightarrow> mailbox \<Rightarrow> send_outcome \<times> mailbox" where
  "mailbox_send item mb =
     (if \<not> mb_open mb then (SendClosed, mb)
      else if length (mb_items mb) \<ge> mb_capacity mb then (SendFull, mb)
      else (SendOk, mb\<lparr>mb_items := mb_items mb @ [item]\<rparr>))"

definition mailbox_recv :: "mailbox \<Rightarrow> outgoing option \<times> mailbox" where
  "mailbox_recv mb = (case mb_items mb of [] \<Rightarrow> (None, mb) | item # items \<Rightarrow> (Some item, mb\<lparr>mb_items := items\<rparr>))"

definition mailbox_drop :: "mailbox \<Rightarrow> mailbox" where
  "mailbox_drop mb = mb\<lparr>mb_items := [], mb_open := False\<rparr>"

definition bounded_mpsc :: "mailbox mpsc" where
  "bounded_mpsc = \<lparr>ch_new = (\<lambda>n. \<lparr>mb_items = [], mb_capacity = n, mb_open = True\<rparr>), ch_try_send = mailbox_send,
     ch_try_recv = mailbox_recv, ch_drop_receiver = mailbox_drop\<rparr>"

lemma bounded_mpsc_simps [simp]:
  "ch_new bounded_mpsc n = \<lparr>mb_items = [], mb_capacity = n, mb_open = True\<rparr>"
  "ch_try_send bounded_mpsc = mailbox_send" "ch_try_recv bounded_mpsc = mailbox_recv"
  "ch_drop_receiver bounded_mpsc = mailbox_drop"
  by (simp_all add: bounded_mpsc_def)

section \<open>The invariant\<close>

definition joined_in :: "(connection_id \<rightharpoonup> connection_entry) \<Rightarrow> string \<Rightarrow> connection_id set" where
  "joined_in conns ch = {c. \<exists>e. conns c = Some e \<and> ch \<in> en_joined e}"

definition chan_of :: "connection_id set \<Rightarrow> connection_id set option" where
  "chan_of ms = (if ms = {} then None else Some ms)"

definition chans_of :: "(connection_id \<rightharpoonup> connection_entry) \<Rightarrow> string \<rightharpoonup> connection_id set" where
  "chans_of conns = (\<lambda>ch. chan_of (joined_in conns ch))"

definition order_ok :: "hash_order \<Rightarrow> bool" where
  "order_ok ho \<longleftrightarrow>
     (\<forall>S. finite S \<longrightarrow> distinct (ho_members ho S) \<and> set (ho_members ho S) = S) \<and>
     (\<forall>S. finite S \<longrightarrow> distinct (ho_joined ho S) \<and> set (ho_joined ho S) = S) \<and>
     enumerates (ho_connections ho)"

definition conns_ok :: "mailbox hub \<Rightarrow> bool" where
  "conns_ok h \<longleftrightarrow> finite (dom (hub_connections h)) \<and>
     (\<forall>c e. hub_connections h c = Some e \<longrightarrow>
        finite (en_joined e) \<and> hub_mail h c \<noteq> None \<and> unat c < unat (hub_next_connection h) \<and>
        (\<forall>ch \<in> en_joined e. hub_authorizer h ch c (en_meta e)))"

definition mail_ok :: "mailbox hub \<Rightarrow> bool" where
  "mail_ok h \<longleftrightarrow>
     (\<forall>c mb. hub_mail h c = Some mb \<longrightarrow>
        mb_capacity mb = max (hc_capacity (hub_config h)) 1 \<and> length (mb_items mb) \<le> mb_capacity mb)"

definition hub_wf :: "mailbox hub \<Rightarrow> bool" where
  "hub_wf h \<longleftrightarrow> hub_channels h = chans_of (hub_connections h) \<and> conns_ok h \<and> mail_ok h"

text \<open>Everything but the queues.\<close>

definition same_but_mail :: "mailbox hub \<Rightarrow> mailbox hub \<Rightarrow> bool" where
  "same_but_mail h h' \<longleftrightarrow> h' = h\<lparr>hub_mail := hub_mail h'\<rparr>"

fun is_presence :: "outgoing \<Rightarrow> bool" where
  "is_presence (OutPresence _) = True"
| "is_presence (OutMessage _) = False"

text \<open>A queue that only received presence events, and no more than fit.\<close>

definition mb_presence :: "mailbox \<Rightarrow> mailbox \<Rightarrow> bool" where
  "mb_presence mb mb' \<longleftrightarrow>
     (\<exists>evs. list_all is_presence evs \<and> mb' = mb\<lparr>mb_items := mb_items mb @ evs\<rparr> \<and>
        (evs = [] \<or> length (mb_items mb @ evs) \<le> mb_capacity mb))"

definition presence_only :: "(connection_id \<rightharpoonup> mailbox) \<Rightarrow> (connection_id \<rightharpoonup> mailbox) \<Rightarrow> bool" where
  "presence_only m m' \<longleftrightarrow> (\<forall>c. rel_option mb_presence (m c) (m' c))"

lemma mb_presence_refl [simp, intro]: "mb_presence mb mb"
  unfolding mb_presence_def by (auto intro!: exI [of _ "[]"])

lemma mb_presence_trans: "mb_presence a b \<Longrightarrow> mb_presence b c \<Longrightarrow> mb_presence a c"
  unfolding mb_presence_def
proof (elim exE conjE)
  fix e1 e2
  assume "list_all is_presence e1" "b = a\<lparr>mb_items := mb_items a @ e1\<rparr>"
    "e1 = [] \<or> length (mb_items a @ e1) \<le> mb_capacity a" "list_all is_presence e2"
    "c = b\<lparr>mb_items := mb_items b @ e2\<rparr>" "e2 = [] \<or> length (mb_items b @ e2) \<le> mb_capacity b"
  then show "\<exists>evs. list_all is_presence evs \<and> c = a\<lparr>mb_items := mb_items a @ evs\<rparr> \<and>
      (evs = [] \<or> length (mb_items a @ evs) \<le> mb_capacity a)"
    by (intro exI [of _ "e1 @ e2"]) auto
qed

lemma presence_only_refl [simp, intro]: "presence_only m m"
  by (simp add: presence_only_def option.rel_refl)

lemma presence_only_trans: "presence_only a b \<Longrightarrow> presence_only b c \<Longrightarrow> presence_only a c"
  unfolding presence_only_def
proof
  fix i
  assume "\<forall>i. rel_option mb_presence (a i) (b i)" and "\<forall>i. rel_option mb_presence (b i) (c i)"
  then have "rel_option mb_presence (a i) (b i)" "rel_option mb_presence (b i) (c i)" by blast+
  then show "rel_option mb_presence (a i) (c i)"
    by (cases "a i"; cases "b i"; cases "c i") (auto intro: mb_presence_trans)
qed

lemma presence_only_dom: "presence_only m m' \<Longrightarrow> m' c = None \<longleftrightarrow> m c = None"
  unfolding presence_only_def by (metis option.rel_distinct(1,2) not_None_eq)

section \<open>Notifications\<close>

lemma try_send_fields: "same_but_mail h (snd (try_send bounded_mpsc c item h))"
  by (simp add: same_but_mail_def try_send_def split: option.splits prod.splits)

lemma mailbox_send_presence: "mb_presence mb (snd (mailbox_send (OutPresence ev) mb))"
proof (cases "mb_open mb \<and> length (mb_items mb) < mb_capacity mb")
  case True
  then show ?thesis by (auto simp: mailbox_send_def mb_presence_def intro!: exI [of _ "[OutPresence ev]"])
next
  case False
  then have "snd (mailbox_send (OutPresence ev) mb) = mb" by (auto simp: mailbox_send_def)
  then show ?thesis by simp
qed

lemma try_send_presence: "presence_only (hub_mail h) (hub_mail (snd (try_send bounded_mpsc c (OutPresence ev) h)))"
proof (cases "hub_mail h c")
  case (Some mb)
  then show ?thesis
    using mailbox_send_presence [of mb ev]
    by (auto simp: presence_only_def try_send_def option.rel_refl split: prod.splits)
qed (simp add: try_send_def)

lemma same_but_mail_refl [simp, intro]: "same_but_mail h h"
  by (simp add: same_but_mail_def)

lemma same_but_mail_trans: "same_but_mail a b \<Longrightarrow> same_but_mail b c \<Longrightarrow> same_but_mail a c"
  unfolding same_but_mail_def by (metis (no_types) hub.unfold_congs(8) hub.update_convs(8) hub.surjective)

lemma same_but_mail_fields:
  assumes "same_but_mail h h'"
  shows "hub_id h' = hub_id h" "hub_next_connection h' = hub_next_connection h" "hub_config h' = hub_config h"
    "hub_authorizer h' = hub_authorizer h" "hub_published h' = hub_published h"
    "hub_connections h' = hub_connections h" "hub_channels h' = hub_channels h"
  using assms unfolding same_but_mail_def by (metis hub.select_convs hub.surjective hub.update_convs(8))+

text \<open>What a step may do to bystanders: only the queues change, and only by presence events.\<close>

definition quiet :: "mailbox hub \<Rightarrow> mailbox hub \<Rightarrow> bool" where
  "quiet h h' \<longleftrightarrow> same_but_mail h h' \<and> presence_only (hub_mail h) (hub_mail h')"

lemma quiet_refl [simp, intro]: "quiet h h"
  by (simp add: quiet_def)

lemma quiet_trans: "quiet a b \<Longrightarrow> quiet b c \<Longrightarrow> quiet a c"
  unfolding quiet_def using same_but_mail_trans presence_only_trans by blast

lemma quiet_notify_one: "quiet h (notify_one bounded_mpsc (OutPresence ev) c h)"
  by (simp add: notify_one_def quiet_def try_send_fields try_send_presence)

lemma quiet_notify_all: "quiet h (notify_all bounded_mpsc (OutPresence ev) cs h)"
  unfolding notify_all_def
proof (induction cs arbitrary: h)
  case (Cons c cs)
  show ?case by simp (rule quiet_trans [OF quiet_notify_one Cons])
qed simp

lemmas quiet_fields = same_but_mail_fields [OF conjunct1 [OF quiet_def [THEN iffD1]]]

section \<open>Eviction\<close>

text \<open>Removing one connection from the members of a channel.\<close>

definition chan_without :: "connection_id \<Rightarrow> connection_id set option \<Rightarrow> connection_id set option" where
  "chan_without c chan = (case chan of None \<Rightarrow> None | Some ms \<Rightarrow> if c \<in> ms then chan_of (ms - {c}) else Some ms)"

lemma evict_channel_spec:
  "\<exists>m. evict_channel bounded_mpsc ho c member ch h =
     h\<lparr>hub_channels := (hub_channels h)(ch := chan_without c (hub_channels h ch)), hub_mail := m\<rparr> \<and> presence_only (hub_mail h) m"
proof (cases "\<exists>ms. hub_channels h ch = Some ms \<and> c \<in> ms")
  case False
  then have "chan_without c (hub_channels h ch) = hub_channels h ch" "evict_channel bounded_mpsc ho c member ch h = h"
    by (auto simp: chan_without_def evict_channel_def split: option.splits)
  then show ?thesis by (intro exI [of _ "hub_mail h"]) (simp add: fun_upd_idem)
next
  case True
  then obtain ms where ms: "hub_channels h ch = Some ms" "c \<in> ms" by blast
  define h1 where "h1 = h\<lparr>hub_channels := (hub_channels h)(ch \<mapsto> ms - {c})\<rparr>"
  define h2 where "h2 = notify_all bounded_mpsc (OutPresence \<lparr>pe_channel = ch, pe_kind = Leave, pe_member = member\<rparr>) (ho_members ho (ms - {c})) h1"
  have q: "quiet h1 h2" unfolding h2_def by (rule quiet_notify_all)
  have h2: "h2 = h1\<lparr>hub_mail := hub_mail h2\<rparr>" using q by (simp add: quiet_def same_but_mail_def)
  have "presence_only (hub_mail h) (hub_mail h2)" using q by (simp add: quiet_def h1_def)
  moreover have "evict_channel bounded_mpsc ho c member ch h =
      (if ms - {c} = {} then h2\<lparr>hub_channels := (hub_channels h2)(ch := None)\<rparr> else h2)"
    using ms by (simp add: evict_channel_def Let_def h1_def h2_def)
  moreover have "(if ms - {c} = {} then h2\<lparr>hub_channels := (hub_channels h2)(ch := None)\<rparr> else h2) =
      h\<lparr>hub_channels := (hub_channels h)(ch := chan_without c (hub_channels h ch)), hub_mail := hub_mail h2\<rparr>"
    using ms by (subst (1 2 3) h2) (simp add: chan_without_def chan_of_def h1_def)
  ultimately show ?thesis by metis
qed

lemma fold_evict_channel:
  assumes "distinct chs"
  shows "\<exists>m. fold (evict_channel bounded_mpsc ho c member) chs h =
     h\<lparr>hub_channels := (\<lambda>ch. if ch \<in> set chs then chan_without c (hub_channels h ch) else hub_channels h ch), hub_mail := m\<rparr>
     \<and> presence_only (hub_mail h) m"
  using assms
proof (induction chs arbitrary: h)
  case Nil
  then show ?case by (intro exI [of _ "hub_mail h"]) simp
next
  case (Cons ch chs)
  have tl: "distinct chs" using Cons.prems by simp
  obtain m where m: "evict_channel bounded_mpsc ho c member ch h =
      h\<lparr>hub_channels := (hub_channels h)(ch := chan_without c (hub_channels h ch)), hub_mail := m\<rparr>"
    "presence_only (hub_mail h) m" using evict_channel_spec by blast
  let ?h = "h\<lparr>hub_channels := (hub_channels h)(ch := chan_without c (hub_channels h ch)), hub_mail := m\<rparr>"
  obtain m' where m': "fold (evict_channel bounded_mpsc ho c member) chs ?h =
      ?h\<lparr>hub_channels := (\<lambda>x. if x \<in> set chs then chan_without c (hub_channels ?h x) else hub_channels ?h x), hub_mail := m'\<rparr>"
    "presence_only (hub_mail ?h) m'" using Cons.IH [OF tl, of ?h] by blast
  have chans: "(\<lambda>x. if x \<in> set chs then chan_without c (hub_channels ?h x) else hub_channels ?h x) =
      (\<lambda>x. if x \<in> set (ch # chs) then chan_without c (hub_channels h x) else hub_channels h x)"
    using Cons.prems by (intro ext) auto
  have "presence_only (hub_mail h) m'" using presence_only_trans [OF m(2)] m'(2) by simp
  moreover have "fold (evict_channel bounded_mpsc ho c member) (ch # chs) h =
      h\<lparr>hub_channels := (\<lambda>x. if x \<in> set (ch # chs) then chan_without c (hub_channels h x) else hub_channels h x), hub_mail := m'\<rparr>"
    using m(1) m'(1) unfolding chans by simp
  ultimately show ?case by blast
qed

lemma joined_in_remove: "joined_in (conns(c := None)) ch = joined_in conns ch - {c}"
  by (auto simp: joined_in_def)

lemma chan_without_chans_of:
  assumes "conns c = Some e"
  shows "(if ch \<in> en_joined e then chan_without c (chans_of conns ch) else chans_of conns ch) = chans_of (conns(c := None)) ch"
proof (cases "ch \<in> en_joined e")
  case True
  then have "c \<in> joined_in conns ch" using assms by (auto simp: joined_in_def)
  then show ?thesis using True by (auto simp: chans_of_def chan_of_def chan_without_def joined_in_remove)
next
  case False
  then have "c \<notin> joined_in conns ch" using assms by (auto simp: joined_in_def)
  then show ?thesis using False by (simp add: chans_of_def joined_in_remove)
qed

lemma evict_spec:
  assumes "order_ok ho" and "conns_ok h" and "hub_channels h = chans_of (hub_connections h)"
  shows "\<exists>m. evict bounded_mpsc ho c h = h\<lparr>hub_connections := (hub_connections h)(c := None),
      hub_channels := chans_of ((hub_connections h)(c := None)), hub_mail := m\<rparr> \<and> presence_only (hub_mail h) m"
proof (cases "hub_connections h c")
  case None
  then have "(hub_connections h)(c := None) = hub_connections h" by auto
  then show ?thesis using None assms(3) by (intro exI [of _ "hub_mail h"]) (simp add: evict_def)
next
  case (Some e)
  have fin: "finite (en_joined e)" using assms(2) Some by (simp add: conns_ok_def)
  then have ord: "distinct (ho_joined ho (en_joined e))" "set (ho_joined ho (en_joined e)) = en_joined e"
    using assms(1) by (simp_all add: order_ok_def)
  let ?h = "h\<lparr>hub_connections := (hub_connections h)(c := None)\<rparr>"
  have chans: "(\<lambda>ch. if ch \<in> en_joined e then chan_without c (hub_channels ?h ch) else hub_channels ?h ch) =
      chans_of ((hub_connections h)(c := None))"
    unfolding chan_without_chans_of [of "hub_connections h" c e, OF Some, symmetric] by (intro ext) (simp add: assms(3))
  obtain m where "fold (evict_channel bounded_mpsc ho c (make_presence c (en_meta e))) (ho_joined ho (en_joined e)) ?h =
      ?h\<lparr>hub_channels := (\<lambda>ch. if ch \<in> en_joined e then chan_without c (hub_channels ?h ch) else hub_channels ?h ch), hub_mail := m\<rparr>"
    "presence_only (hub_mail ?h) m" using fold_evict_channel [OF ord(1), of ho c _ ?h] unfolding ord(2) by blast
  then show ?thesis unfolding chans using Some by (intro exI [of _ m]) (simp add: evict_def)
qed

lemma mail_okD: "mail_ok h \<Longrightarrow> hub_mail h c = Some mb \<Longrightarrow>
    mb_capacity mb = max (hc_capacity (hub_config h)) 1 \<and> length (mb_items mb) \<le> mb_capacity mb"
  unfolding mail_ok_def by blast

lemma mail_ok_presence:
  assumes "mail_ok h" and "presence_only (hub_mail h) (hub_mail h')" and "hub_config h' = hub_config h"
  shows "mail_ok h'"
  unfolding mail_ok_def assms(3)
proof (intro allI impI)
  fix c mb'
  assume "hub_mail h' c = Some mb'"
  moreover have "rel_option mb_presence (hub_mail h c) (hub_mail h' c)" using assms(2) by (simp add: presence_only_def)
  ultimately obtain mb where mb: "hub_mail h c = Some mb" "mb_presence mb mb'" by (auto simp: option_rel_Some2)
  show "mb_capacity mb' = max (hc_capacity (hub_config h)) 1 \<and> length (mb_items mb') \<le> mb_capacity mb'"
    using mail_okD [OF assms(1) mb(1)] mb(2) by (auto simp: mb_presence_def)
qed

lemma conns_ok_restrict:
  assumes "conns_ok h" and "\<And>c. hub_mail h c \<noteq> None \<Longrightarrow> m c \<noteq> None"
  shows "conns_ok (h\<lparr>hub_connections := hub_connections h |` S, hub_channels := chs, hub_mail := m\<rparr>)"
  using assms unfolding conns_ok_def
  by (auto simp: restrict_map_def split: if_splits intro: finite_subset [of _ "dom (hub_connections h)"])

lemma fold_evict:
  assumes "order_ok ho" and "hub_wf h"
  shows "\<exists>m. fold (evict bounded_mpsc ho) cs h = h\<lparr>hub_connections := hub_connections h |` (- set cs),
      hub_channels := chans_of (hub_connections h |` (- set cs)), hub_mail := m\<rparr> \<and> presence_only (hub_mail h) m
      \<and> hub_wf (fold (evict bounded_mpsc ho) cs h)"
  using assms(2)
proof (induction cs arbitrary: h)
  case Nil
  then show ?case by (intro exI [of _ "hub_mail h"]) (simp add: hub_wf_def)
next
  case (Cons c cs)
  obtain m where m: "evict bounded_mpsc ho c h = h\<lparr>hub_connections := (hub_connections h)(c := None),
      hub_channels := chans_of ((hub_connections h)(c := None)), hub_mail := m\<rparr>" "presence_only (hub_mail h) m"
    using evict_spec [OF assms(1)] Cons.prems unfolding hub_wf_def by blast
  let ?h = "h\<lparr>hub_connections := (hub_connections h)(c := None), hub_channels := chans_of ((hub_connections h)(c := None)), hub_mail := m\<rparr>"
  have upd: "(hub_connections h)(c := None) = hub_connections h |` (- {c})" by (auto simp: restrict_map_def)
  have "conns_ok ?h"
    unfolding upd by (rule conns_ok_restrict) (use Cons.prems presence_only_dom [OF m(2)] in \<open>simp_all add: hub_wf_def\<close>)
  moreover have "mail_ok ?h" using mail_ok_presence [of h ?h] m(2) Cons.prems by (simp add: hub_wf_def)
  ultimately have wf: "hub_wf ?h" by (simp add: hub_wf_def)
  obtain m' where m': "fold (evict bounded_mpsc ho) cs ?h = ?h\<lparr>hub_connections := hub_connections ?h |` (- set cs),
      hub_channels := chans_of (hub_connections ?h |` (- set cs)), hub_mail := m'\<rparr>" "presence_only (hub_mail ?h) m'"
      "hub_wf (fold (evict bounded_mpsc ho) cs ?h)"
    using Cons.IH [OF wf] by blast
  have conns: "hub_connections ?h |` (- set cs) = hub_connections h |` (- set (c # cs))"
    by (auto simp: restrict_map_def)
  have "presence_only (hub_mail h) m'" using presence_only_trans [OF m(2)] m'(2) by simp
  moreover have "fold (evict bounded_mpsc ho) (c # cs) h = h\<lparr>hub_connections := hub_connections h |` (- set (c # cs)),
      hub_channels := chans_of (hub_connections h |` (- set (c # cs))), hub_mail := m'\<rparr>"
    using m(1) m'(1) unfolding conns by simp
  moreover have "hub_wf (fold (evict bounded_mpsc ho) (c # cs) h)" using m'(3) m(1) by simp
  ultimately show ?case by blast
qed

section \<open>Delivery\<close>

definition accepts :: "mailbox \<Rightarrow> bool" where
  "accepts mb \<longleftrightarrow> mb_open mb \<and> length (mb_items mb) < mb_capacity mb"

text \<open>Whom the policy evicts when a message does not fit.\<close>

definition drops :: "mailbox hub \<Rightarrow> connection_id \<Rightarrow> bool" where
  "drops h c \<longleftrightarrow> hub_connections h c \<noteq> None \<and>
     (case hub_mail h c of
        None \<Rightarrow> True
      | Some mb \<Rightarrow> \<not> mb_open mb \<or> \<not> accepts mb \<and> hc_slow_consumer (hub_config h) = Disconnect)"

definition receives :: "mailbox hub \<Rightarrow> connection_id \<Rightarrow> bool" where
  "receives h c \<longleftrightarrow> hub_connections h c \<noteq> None \<and> (case hub_mail h c of None \<Rightarrow> False | Some mb \<Rightarrow> accepts mb)"

definition put :: "message \<Rightarrow> mailbox \<Rightarrow> mailbox" where
  "put msg mb = mb\<lparr>mb_items := mb_items mb @ [OutMessage msg]\<rparr>"

lemma try_send_message:
  "try_send bounded_mpsc c (OutMessage msg) h =
     (case hub_mail h c of
        None \<Rightarrow> (SendClosed, h)
      | Some mb \<Rightarrow>
          if \<not> mb_open mb then (SendClosed, h)
          else if \<not> accepts mb then (SendFull, h)
          else (SendOk, h\<lparr>hub_mail := (hub_mail h)(c \<mapsto> put msg mb)\<rparr>))"
  by (auto simp: try_send_def mailbox_send_def accepts_def put_def fun_upd_idem not_less split: option.splits)

lemma deliver_each_spec:
  assumes "distinct cs"
  shows "deliver_each bounded_mpsc msg cs h =
    (length (filter (receives h) cs), filter (drops h) cs,
     h\<lparr>hub_mail := (\<lambda>c. if c \<in> set cs \<and> receives h c then map_option (put msg) (hub_mail h c) else hub_mail h c)\<rparr>)"
  using assms
proof (induction cs arbitrary: h)
  case (Cons c cs)
  show ?case
  proof (cases "receives h c")
    case True
    then obtain mb e where mb: "hub_connections h c = Some e" "hub_mail h c = Some mb" "accepts mb" "mb_open mb"
      by (auto simp: receives_def accepts_def split: option.splits)
    let ?h = "h\<lparr>hub_mail := (hub_mail h)(c \<mapsto> put msg mb)\<rparr>"
    have same: "receives ?h x = receives h x" "drops ?h x = drops h x" if "x \<in> set cs" for x
      using that Cons.prems by (auto simp: receives_def drops_def split: option.splits)
    have "\<not> drops h c" using mb by (simp add: drops_def)
    moreover have "filter (receives ?h) cs = filter (receives h) cs" "filter (drops ?h) cs = filter (drops h) cs"
      using same by (auto intro: filter_cong)
    moreover have "(\<lambda>x. if x \<in> set cs \<and> receives ?h x then map_option (put msg) (hub_mail ?h x) else hub_mail ?h x) =
        (\<lambda>x. if x \<in> set (c # cs) \<and> receives h x then map_option (put msg) (hub_mail h x) else hub_mail h x)"
      using Cons.prems True mb(2) same by (intro ext) auto
    ultimately show ?thesis
      using Cons.IH [of ?h] Cons.prems mb True by (simp add: try_send_message)
  next
    case False
    have mail: "(\<lambda>x. if x \<in> set (c # cs) \<and> receives h x then map_option (put msg) (hub_mail h x) else hub_mail h x) =
        (\<lambda>x. if x \<in> set cs \<and> receives h x then map_option (put msg) (hub_mail h x) else hub_mail h x)"
      using False by (intro ext) auto
    show ?thesis
      unfolding mail using False Cons.IH [of h] Cons.prems
      by (auto simp: try_send_message drops_def receives_def accepts_def split: option.splits)
  qed
qed simp

text \<open>What is fixed when a hub is built.\<close>

definition same_setup :: "mailbox hub \<Rightarrow> mailbox hub \<Rightarrow> bool" where
  "same_setup h h' \<longleftrightarrow> hub_id h' = hub_id h \<and> hub_config h' = hub_config h \<and> hub_authorizer h' = hub_authorizer h"

text \<open>
  The effect of a message sent to the connections \<open>R\<close>: each of them with room gets it at the end
  of its queue, exactly once; those that cannot take it are evicted if their receiver is gone
  or the policy says so; all others keep their queue up to presence events.
\<close>

definition delivers :: "message \<Rightarrow> connection_id set \<Rightarrow> mailbox hub \<Rightarrow> mailbox hub \<Rightarrow> bool" where
  "delivers msg R h h' \<longleftrightarrow>
     hub_connections h' = hub_connections h |` (- {c \<in> R. drops h c}) \<and>
     (\<forall>c mb. hub_mail h c = Some mb \<longrightarrow>
        (\<exists>mb'. hub_mail h' c = Some mb' \<and> mb_presence (if c \<in> R \<and> receives h c then put msg mb else mb) mb'))"

lemma receives_put_ok: "receives h c \<Longrightarrow> hub_mail h c = Some mb \<Longrightarrow> accepts mb"
  by (simp add: receives_def)

lemma wf_put:
  assumes "hub_wf h"
  shows "hub_wf (h\<lparr>hub_mail := (\<lambda>c. if c \<in> S \<and> receives h c then map_option (put msg) (hub_mail h c) else hub_mail h c)\<rparr>)"
proof -
  have "mail_ok (h\<lparr>hub_mail := (\<lambda>c. if c \<in> S \<and> receives h c then map_option (put msg) (hub_mail h c) else hub_mail h c)\<rparr>)"
    unfolding mail_ok_def
  proof (intro allI impI)
    fix c mb'
    assume a: "hub_mail (h\<lparr>hub_mail := (\<lambda>c. if c \<in> S \<and> receives h c then map_option (put msg) (hub_mail h c) else hub_mail h c)\<rparr>) c = Some mb'"
    then obtain mb where mb: "hub_mail h c = Some mb" "mb' = (if c \<in> S \<and> receives h c then put msg mb else mb)"
      by (auto split: if_splits)
    then show "mb_capacity mb' = max (hc_capacity (hub_config (h\<lparr>hub_mail := (\<lambda>c. if c \<in> S \<and> receives h c then map_option (put msg) (hub_mail h c) else hub_mail h c)\<rparr>))) 1
        \<and> length (mb_items mb') \<le> mb_capacity mb'"
      using mail_okD [of h c mb] assms receives_put_ok [of h c mb] by (auto simp: hub_wf_def put_def accepts_def)
  qed
  then show ?thesis using assms by (auto simp: hub_wf_def conns_ok_def)
qed

lemma deliver_and_evict:
  assumes "order_ok ho" and "hub_wf h" and "distinct cs" and "deliver_each bounded_mpsc msg cs h = (n, ev, h1)"
  shows "n = card {c \<in> set cs. receives h c} \<and> hub_wf (fold (evict bounded_mpsc ho) ev h1) \<and> delivers msg (set cs) h (fold (evict bounded_mpsc ho) ev h1)
    \<and> same_setup h (fold (evict bounded_mpsc ho) ev h1) \<and> hub_published (fold (evict bounded_mpsc ho) ev h1) = hub_published h
    \<and> hub_next_connection (fold (evict bounded_mpsc ho) ev h1) = hub_next_connection h"
proof -
  define m1 where "m1 = (\<lambda>c. if c \<in> set cs \<and> receives h c then map_option (put msg) (hub_mail h c) else hub_mail h c)"
  have d: "n = length (filter (receives h) cs)" "ev = filter (drops h) cs" "h1 = h\<lparr>hub_mail := m1\<rparr>"
    using deliver_each_spec [OF assms(3), of msg h] assms(4) by (simp_all add: m1_def)
  have n: "n = card {c \<in> set cs. receives h c}"
    unfolding d(1) using assms(3) by (metis distinct_card distinct_filter set_filter)
  have "hub_wf h1" unfolding d(3) m1_def by (rule wf_put [OF assms(2)])
  from fold_evict [OF assms(1) this, of ev]
  obtain m where m: "fold (evict bounded_mpsc ho) ev h1 = h1\<lparr>hub_connections := hub_connections h1 |` (- set ev),
      hub_channels := chans_of (hub_connections h1 |` (- set ev)), hub_mail := m\<rparr>"
    "presence_only (hub_mail h1) m" "hub_wf (fold (evict bounded_mpsc ho) ev h1)" by blast
  have "\<exists>mb'. m c = Some mb' \<and> mb_presence (if c \<in> set cs \<and> receives h c then put msg mb else mb) mb'"
    if "hub_mail h c = Some mb" for c mb
  proof -
    have "rel_option mb_presence (m1 c) (m c)" using m(2) by (simp add: presence_only_def d(3))
    then show ?thesis using that by (auto simp: m1_def option_rel_Some1 split: if_splits)
  qed
  then have "delivers msg (set cs) h (fold (evict bounded_mpsc ho) ev h1)"
    unfolding delivers_def m(1) by (simp add: d(2,3))
  then show ?thesis using n m(1,3) by (simp add: same_setup_def d(3))
qed

lemma order_members: "order_ok ho \<Longrightarrow> finite S \<Longrightarrow> distinct (ho_members ho S) \<and> set (ho_members ho S) = S"
  by (simp add: order_ok_def)

lemma finite_joined_in: "conns_ok h \<Longrightarrow> finite (joined_in (hub_connections h) ch)"
  by (rule finite_subset [of _ "dom (hub_connections h)"]) (auto simp: joined_in_def conns_ok_def)

lemma delivers_nobody: "delivers msg {} h h"
  by (auto simp: delivers_def restrict_map_def)

lemma broadcast_local_spec:
  assumes "order_ok ho" and "hub_wf h"
  shows "hub_wf (broadcast_local bounded_mpsc ho ch msg h) \<and> delivers msg (joined_in (hub_connections h) ch) h (broadcast_local bounded_mpsc ho ch msg h)
    \<and> same_setup h (broadcast_local bounded_mpsc ho ch msg h) \<and> hub_published (broadcast_local bounded_mpsc ho ch msg h) = hub_published h
    \<and> hub_next_connection (broadcast_local bounded_mpsc ho ch msg h) = hub_next_connection h"
proof -
  let ?ms = "joined_in (hub_connections h) ch"
  have chans: "hub_channels h ch = chan_of ?ms" using assms(2) by (simp add: hub_wf_def chans_of_def)
  show ?thesis
  proof (cases "?ms = {}")
    case True
    then have "broadcast_local bounded_mpsc ho ch msg h = h" by (simp add: broadcast_local_def chans chan_of_def)
    then show ?thesis using True assms(2) by (simp add: delivers_nobody same_setup_def)
  next
    case False
    have ord: "distinct (ho_members ho ?ms)" "set (ho_members ho ?ms) = ?ms"
      using order_members [OF assms(1) finite_joined_in] assms(2) by (simp_all add: hub_wf_def)
    obtain n ev h1 where d: "deliver_each bounded_mpsc msg (ho_members ho ?ms) h = (n, ev, h1)" by (metis prod_cases3)
    have "broadcast_local bounded_mpsc ho ch msg h = fold (evict bounded_mpsc ho) ev h1" using False by (simp add: broadcast_local_def chans chan_of_def d)
    then show ?thesis using deliver_and_evict [OF assms ord(1) d] ord(2) by simp
  qed
qed

definition key_holders :: "mailbox hub \<Rightarrow> string \<Rightarrow> connection_id set" where
  "key_holders h key = {c. \<exists>e. hub_connections h c = Some e \<and> cm_key (en_meta e) = Some key}"

lemma send_to_key_local_spec:
  assumes "order_ok ho" and "hub_wf h" and "send_to_key_local bounded_mpsc ho key msg h = (n, h')"
  shows "n = card {c \<in> key_holders h key. receives h c} \<and> hub_wf h' \<and> delivers msg (key_holders h key) h h'
    \<and> same_setup h h' \<and> hub_published h' = hub_published h \<and> hub_next_connection h' = hub_next_connection h"
proof -
  define has_key where "has_key = (\<lambda>c. case hub_connections h c of None \<Rightarrow> False | Some entry \<Rightarrow> cm_key (en_meta entry) = Some key)"
  define cs where "cs = filter has_key (ho_connections ho (hub_connections h))"
  have en: "enumerates (ho_connections ho)" "finite (dom (hub_connections h))"
    using assms(1,2) by (simp_all add: order_ok_def hub_wf_def conns_ok_def)
  have cs: "distinct cs" "set cs = key_holders h key"
    using enumerates_distinct [OF en] enumerates_set [OF en]
    by (auto simp: cs_def has_key_def key_holders_def split: option.splits)
  obtain n' ev h1 where d: "deliver_each bounded_mpsc msg cs h = (n', ev, h1)" by (metis prod_cases3)
  have "n = n'" "h' = fold (evict bounded_mpsc ho) ev h1"
    using assms(3) d unfolding send_to_key_local_def Let_def cs_def has_key_def by auto
  then show ?thesis using deliver_and_evict [OF assms(1,2) cs(1) d] cs(2) by simp
qed

end
