(* ===== verification/Hub_History.thy ===== *)
theory Hub_History
  imports Hub_Props
begin

text \<open>
  Membership and histories of the hub: joining, leaving and disconnecting as operations on the
  membership relation, and the invariant through every sequence of calls, the sockets'
  reads and closings included.
\<close>

section \<open>Membership\<close>

definition membership :: "'q hub \<Rightarrow> (connection_id \<times> string) set" where
  "membership h = {(c, ch). c \<in> joined_in (hub_connections h) ch}"

lemma membership_iff: "(c, ch) \<in> membership h \<longleftrightarrow> (\<exists>e. hub_connections h c = Some e \<and> ch \<in> en_joined e)"
  by (simp add: membership_def joined_in_def)

lemma joined_in_upd:
  assumes "conns c = Some e"
  shows "joined_in (conns(c \<mapsto> e\<lparr>en_joined := J\<rparr>)) ch =
    (if ch \<in> J then insert c (joined_in conns ch) else joined_in conns ch - {c})"
  using assms by (auto simp: joined_in_def)

text \<open>An entry may change the channels it joined, within those the authorizer allows.\<close>

lemma conns_ok_upd:
  assumes "conns_ok h" and "hub_connections h c = Some e" and "finite J"
    and "\<forall>ch \<in> J. hub_authorizer h ch c (en_meta e)"
    and "hub_connections h' = (hub_connections h)(c \<mapsto> e\<lparr>en_joined := J\<rparr>)"
    and "presence_only (hub_mail h) (hub_mail h')" and "hub_next_connection h' = hub_next_connection h"
    and "hub_authorizer h' = hub_authorizer h"
  shows "conns_ok h'"
  unfolding conns_ok_def assms(5,7,8)
proof (intro conjI allI impI)
  show "finite (dom ((hub_connections h)(c \<mapsto> e\<lparr>en_joined := J\<rparr>)))" using assms(1) by (simp add: conns_ok_def)
  fix c' e'
  assume "((hub_connections h)(c \<mapsto> e\<lparr>en_joined := J\<rparr>)) c' = Some e'"
  moreover have "hub_mail h' x \<noteq> None \<longleftrightarrow> hub_mail h x \<noteq> None" for x using presence_only_dom [OF assms(6)] by simp
  ultimately show "finite (en_joined e')" "hub_mail h' c' \<noteq> None" "unat c' < unat (hub_next_connection h)"
    "\<forall>ch \<in> en_joined e'. hub_authorizer h ch c' (en_meta e')"
    using assms(1-4) by (auto simp: conns_ok_def split: if_splits)
qed

lemma join_spec:
  assumes "order_ok ho" and "hub_wf h"
  shows "case hub_join bounded_mpsc ho c ch h of (r, h') \<Rightarrow>
     hub_wf h' \<and> same_setup h h' \<and> presence_only (hub_mail h) (hub_mail h') \<and> hub_next_connection h' = hub_next_connection h
     \<and> (case hub_connections h c of
          None \<Rightarrow> r = Inl ConnectionClosed \<and> h' = h
        | Some e \<Rightarrow>
            if hub_authorizer h ch c (en_meta e)
            then r = Inr () \<and> membership h' = insert (c, ch) (membership h)
            else r = Inl Unauthorized \<and> h' = h)"
proof (cases "\<exists>e. hub_connections h c = Some e \<and> hub_authorizer h ch c (en_meta e) \<and> ch \<notin> en_joined e")
  case False
  then show ?thesis
    using assms(2) by (auto simp: hub_join_def same_setup_def membership_iff split: option.splits)
next
  case True
  then obtain e where e: "hub_connections h c = Some e" "hub_authorizer h ch c (en_meta e)" "ch \<notin> en_joined e" by blast
  let ?ms = "joined_in (hub_connections h) ch"
  have chan: "(case hub_channels h ch of None \<Rightarrow> {} | Some ms \<Rightarrow> ms) = ?ms"
    using assms(2) by (simp add: hub_wf_def chans_of_def chan_of_def)
  define h1 where "h1 = h\<lparr>hub_connections := (hub_connections h)(c \<mapsto> e\<lparr>en_joined := insert ch (en_joined e)\<rparr>),
      hub_channels := (hub_channels h)(ch \<mapsto> insert c ?ms)\<rparr>"
  obtain ev ids where join: "hub_join bounded_mpsc ho c ch h = (Inr (), notify_all bounded_mpsc (OutPresence ev) ids h1)"
    using e by (simp add: hub_join_def Let_def chan h1_def)
  define h2 where "h2 = notify_all bounded_mpsc (OutPresence ev) ids h1"
  have q: "quiet h1 h2" unfolding h2_def by (rule quiet_notify_all)
  note f = quiet_fields [OF q]
  have mail: "presence_only (hub_mail h) (hub_mail h2)" using q by (simp add: quiet_def h1_def)
  have conns: "hub_connections h2 = (hub_connections h)(c \<mapsto> e\<lparr>en_joined := insert ch (en_joined e)\<rparr>)"
    using f by (simp add: h1_def)
  have joined: "joined_in (hub_connections h2) x = (if x = ch then insert c ?ms else joined_in (hub_connections h) x)" for x
    unfolding conns joined_in_upd [of "hub_connections h" c e, OF e(1)] using e(1,3) by (auto simp: joined_in_def)
  have "hub_channels h = chans_of (hub_connections h)" "hub_channels h2 = (hub_channels h)(ch \<mapsto> insert c ?ms)"
    using assms(2) f(7) by (simp_all add: hub_wf_def h1_def)
  then have "hub_channels h2 = chans_of (hub_connections h2)"
    by (intro ext) (simp add: chans_of_def joined chan_of_def)
  moreover have "conns_ok h2"
    by (rule conns_ok_upd [OF _ e(1) _ _ conns mail])
      (use assms(2) e f in \<open>auto simp: hub_wf_def conns_ok_def h1_def\<close>)
  moreover have "mail_ok h2" using mail_ok_presence [OF _ mail] f assms(2) by (simp add: hub_wf_def h1_def)
  ultimately have "hub_wf h2" by (simp add: hub_wf_def)
  moreover have "membership h2 = insert (c, ch) (membership h)" by (auto simp: membership_def joined)
  moreover have "same_setup h h2" "hub_next_connection h2 = hub_next_connection h"
    using f by (simp_all add: h1_def same_setup_def)
  ultimately show ?thesis unfolding join h2_def [symmetric] using e mail by simp
qed

lemma leave_spec:
  assumes "order_ok ho" and "hub_wf h"
  shows "hub_wf (hub_leave bounded_mpsc ho c ch h) \<and> same_setup h (hub_leave bounded_mpsc ho c ch h)
    \<and> presence_only (hub_mail h) (hub_mail (hub_leave bounded_mpsc ho c ch h))
    \<and> hub_next_connection (hub_leave bounded_mpsc ho c ch h) = hub_next_connection h
    \<and> membership (hub_leave bounded_mpsc ho c ch h) = membership h - {(c, ch)}"
proof (cases "c \<in> joined_in (hub_connections h) ch")
  case False
  let ?h1 = "case hub_connections h c of None \<Rightarrow> h
    | Some entry \<Rightarrow> h\<lparr>hub_connections := (hub_connections h)(c \<mapsto> entry\<lparr>en_joined := en_joined entry - {ch}\<rparr>)\<rparr>"
  have "e\<lparr>en_joined := en_joined e - {ch}\<rparr> = e" if "hub_connections h c = Some e" for e
    using False that by (simp add: joined_in_def)
  then have same: "?h1 = h" by (auto simp: fun_upd_idem split: option.splits)
  have "hub_leave bounded_mpsc ho c ch h = h"
    using False assms(2) unfolding hub_leave_def same Let_def
    by (auto simp: hub_wf_def chans_of_def chan_of_def split: option.splits if_splits)
  then show ?thesis using False assms(2) by (auto simp: same_setup_def membership_def)
next
  case True
  then obtain e where e: "hub_connections h c = Some e" "ch \<in> en_joined e" by (auto simp: joined_in_def)
  let ?ms = "joined_in (hub_connections h) ch"
  have chan: "hub_channels h ch = Some ?ms" using assms(2) True by (auto simp: hub_wf_def chans_of_def chan_of_def)
  define h2 where "h2 = h\<lparr>hub_connections := (hub_connections h)(c \<mapsto> e\<lparr>en_joined := en_joined e - {ch}\<rparr>),
      hub_channels := (hub_channels h)(ch \<mapsto> ?ms - {c})\<rparr>"
  define ev where "ev = \<lparr>pe_channel = ch, pe_kind = Leave, pe_member = make_presence c (en_meta e)\<rparr>"
  define ids where "ids = ho_members ho (?ms - {c})"
  have leave: "hub_leave bounded_mpsc ho c ch h = (if ?ms - {c} = {} then (notify_all bounded_mpsc (OutPresence ev) ids h2)
      \<lparr>hub_channels := (hub_channels (notify_all bounded_mpsc (OutPresence ev) ids h2))(ch := None)\<rparr> else notify_all bounded_mpsc (OutPresence ev) ids h2)"
    using e chan True by (simp add: hub_leave_def Let_def h2_def ev_def ids_def)
  define h3 where "h3 = notify_all bounded_mpsc (OutPresence ev) ids h2"
  have q: "quiet h2 h3" unfolding h3_def by (rule quiet_notify_all)
  note f = quiet_fields [OF q]
  define h4 where "h4 = hub_leave bounded_mpsc ho c ch h"
  have h4: "h4 = h3\<lparr>hub_channels := (hub_channels h)(ch := chan_of (?ms - {c}))\<rparr>"
    using f(7) unfolding h4_def leave h3_def [symmetric]
    by (cases "?ms - {c} = {}") (simp_all add: h2_def chan_of_def)
  have mail: "presence_only (hub_mail h) (hub_mail h4)" using q by (simp add: quiet_def h2_def h4)
  have conns: "hub_connections h4 = (hub_connections h)(c \<mapsto> e\<lparr>en_joined := en_joined e - {ch}\<rparr>)"
    using f by (simp add: h2_def h4)
  have joined: "joined_in (hub_connections h4) x = (if x = ch then ?ms - {c} else joined_in (hub_connections h) x)" for x
    unfolding conns joined_in_upd [of "hub_connections h" c e, OF e(1)] using e by (auto simp: joined_in_def)
  have "hub_channels h4 = chans_of (hub_connections h4)"
    using assms(2) by (intro ext) (simp add: h4 hub_wf_def chans_of_def joined [unfolded h4, simplified])
  moreover have "conns_ok h4"
    by (rule conns_ok_upd [OF _ e(1) _ _ conns mail])
      (use assms(2) e f in \<open>auto simp: hub_wf_def conns_ok_def h2_def h4\<close>)
  moreover have "mail_ok h4" using mail_ok_presence [OF _ mail] f assms(2) by (simp add: hub_wf_def h2_def h4)
  ultimately have "hub_wf h4" by (simp add: hub_wf_def)
  moreover have "membership h4 = membership h - {(c, ch)}" by (auto simp: membership_def joined)
  ultimately show ?thesis using f mail by (simp add: same_setup_def h2_def h4 flip: h4_def)
qed

lemma disconnect_spec:
  assumes "order_ok ho" and "hub_wf h"
  shows "hub_wf (evict bounded_mpsc ho c h) \<and> same_setup h (evict bounded_mpsc ho c h) \<and> presence_only (hub_mail h) (hub_mail (evict bounded_mpsc ho c h))
    \<and> hub_next_connection (evict bounded_mpsc ho c h) = hub_next_connection h \<and> hub_connections (evict bounded_mpsc ho c h) c = None
    \<and> membership (evict bounded_mpsc ho c h) = membership h - {c} \<times> UNIV"
proof -
  obtain m where m: "fold (evict bounded_mpsc ho) [c] h = h\<lparr>hub_connections := hub_connections h |` (- set [c]),
      hub_channels := chans_of (hub_connections h |` (- set [c])), hub_mail := m\<rparr>" "presence_only (hub_mail h) m"
    "hub_wf (fold (evict bounded_mpsc ho) [c] h)" using fold_evict [OF assms] by blast
  then show ?thesis by (auto simp: same_setup_def membership_iff restrict_map_def split: if_splits)
qed

lemma send_to_spec:
  assumes "order_ok ho" and "hub_wf h"
  shows "case hub_send_to bounded_mpsc ho c msg h of (r, h') \<Rightarrow>
     hub_wf h' \<and> same_setup h h' \<and> hub_published h' = hub_published h \<and> hub_next_connection h' = hub_next_connection h
     \<and> delivers msg {c} h h'
     \<and> r = (if hub_connections h c = None then Inl UnknownConnection
            else if receives h c then Inr ()
            else if (\<forall>mb. hub_mail h c = Some mb \<longrightarrow> \<not> mb_open mb) then Inl Closed else Inl Backpressure)"
proof (cases "hub_connections h c")
  case None
  then have "delivers msg {c} h h" by (auto simp: delivers_def drops_def receives_def restrict_map_def)
  then show ?thesis using None assms(2) by (simp add: hub_send_to_def same_setup_def)
next
  case (Some e)
  obtain n ev h1 where d: "deliver_each bounded_mpsc msg [c] h = (n, ev, h1)" by (metis prod_cases3)
  have spec: "deliver_each bounded_mpsc msg [c] h = (length (filter (receives h) [c]), filter (drops h) [c],
     h\<lparr>hub_mail := (\<lambda>x. if x \<in> set [c] \<and> receives h x then map_option (put msg) (hub_mail h x) else hub_mail h x)\<rparr>)"
    by (rule deliver_each_spec) simp
  have send: "snd (hub_send_to bounded_mpsc ho c msg h) = fold (evict bounded_mpsc ho) ev h1"
  proof -
    have "snd (hub_send_to bounded_mpsc ho c msg h) =
        (case try_send bounded_mpsc c (OutMessage msg) h of (outcome, h1) \<Rightarrow> if drops h c then evict bounded_mpsc ho c h1 else h1)"
      using Some by (auto simp: hub_send_to_def try_send_message drops_def accepts_def split: option.splits)
    moreover have "try_send bounded_mpsc c (OutMessage msg) h = (fst (try_send bounded_mpsc c (OutMessage msg) h), h1)"
      using d Some by (auto simp: try_send_message split: option.splits prod.splits if_splits)
    moreover have "ev = (if drops h c then [c] else [])" using d spec by simp
    ultimately show ?thesis by (cases "try_send bounded_mpsc c (OutMessage msg) h") auto
  qed
  have "fst (hub_send_to bounded_mpsc ho c msg h) = (if receives h c then Inr ()
      else if (\<forall>mb. hub_mail h c = Some mb \<longrightarrow> \<not> mb_open mb) then Inl Closed else Inl Backpressure)"
    using Some by (auto simp: hub_send_to_def try_send_message receives_def accepts_def split: option.splits)
  then show ?thesis
    using deliver_and_evict [OF assms _ d] send Some by (cases "hub_send_to bounded_mpsc ho c msg h") simp
qed

section \<open>Histories\<close>

datatype hub_op =
    CallConnect connection_meta
  | CallJoin connection_id string
  | CallLeave connection_id string
  | CallDisconnect connection_id
  | CallSendTo connection_id message
  | CallBroadcast string message
  | CallSendToKey string message
  | CallPeer peer_frame
  | CallRecv connection_id
  | CallDropReceiver connection_id

fun run_call :: "'q mpsc \<Rightarrow> hash_order \<times> hub_op \<Rightarrow> 'q hub \<Rightarrow> 'q hub" where
  "run_call tx (ho, CallConnect meta) h = snd (hub_connect tx meta h)"
| "run_call tx (ho, CallJoin c ch) h = snd (hub_join tx ho c ch h)"
| "run_call tx (ho, CallLeave c ch) h = hub_leave tx ho c ch h"
| "run_call tx (ho, CallDisconnect c) h = hub_disconnect tx ho c h"
| "run_call tx (ho, CallSendTo c msg) h = snd (hub_send_to tx ho c msg h)"
| "run_call tx (ho, CallBroadcast ch msg) h = hub_broadcast tx ho ch msg h"
| "run_call tx (ho, CallSendToKey key msg) h = snd (hub_send_to_key tx ho key msg h)"
| "run_call tx (ho, CallPeer frame) h = deliver_from_peer tx ho frame h"
| "run_call tx (ho, CallRecv c) h = snd (outbound_try_recv tx c h)"
| "run_call tx (ho, CallDropReceiver c) h = outbound_drop tx c h"

lemma publish_fields [simp]:
  "hub_wf (publish frame h) = hub_wf h" "same_setup g (publish frame h) = same_setup g h"
  "hub_next_connection (publish frame h) = hub_next_connection h" "delivers msg R g (publish frame h) = delivers msg R g h"
  "hub_connections (publish frame h) = hub_connections h"
  "hub_published (publish frame h) = hub_published h @ [frame]" "membership (publish frame h) = membership h"
  by (simp_all add: publish_def hub_wf_def conns_ok_def mail_ok_def same_setup_def delivers_def membership_def)

lemma mail_ok_upd:
  assumes "mail_ok h" and "hub_mail h' = (hub_mail h)(c \<mapsto> mb')" and "hub_config h' = hub_config h"
    and "mb_capacity mb' = max (hc_capacity (hub_config h)) 1" and "length (mb_items mb') \<le> mb_capacity mb'"
  shows "mail_ok h'"
  unfolding mail_ok_def
proof (intro allI impI)
  fix x mb
  assume "hub_mail h' x = Some mb"
  then show "mb_capacity mb = max (hc_capacity (hub_config h')) 1 \<and> length (mb_items mb) \<le> mb_capacity mb"
    using mail_okD [OF assms(1), of x mb] assms(2-5) by (cases "x = c") auto
qed

lemma connect_spec:
  assumes "hub_wf h" and "unat (hub_next_connection h) + 1 < 2 ^ 64"
  shows "hub_wf (snd (hub_connect bounded_mpsc meta h)) \<and> same_setup h (snd (hub_connect bounded_mpsc meta h))
    \<and> unat (hub_next_connection (snd (hub_connect bounded_mpsc meta h))) = unat (hub_next_connection h) + 1"
proof -
  let ?c = "hub_next_connection h" and ?h = "snd (hub_connect bounded_mpsc meta h)"
  have none: "hub_connections h ?c = None" 
    using assms(1) by (cases "hub_connections h (hub_next_connection h)") (auto simp: hub_wf_def conns_ok_def)
  have nxt: "unat (?c + 1) = unat ?c + 1" using assms(2) by (simp add: unat_word_ariths)
  have "joined_in (hub_connections ?h) ch = joined_in (hub_connections h) ch" for ch
    using none by (auto simp: hub_connect_def joined_in_def Let_def)
  then have "hub_channels ?h = chans_of (hub_connections ?h)"
    using assms(1) by (simp add: chans_of_def hub_wf_def) (simp add: hub_connect_def Let_def)
  moreover have "conns_ok ?h"
    using assms(1) nxt by (auto simp: hub_connect_def Let_def hub_wf_def conns_ok_def less_Suc_eq)
  moreover have "mail_ok ?h"
    by (rule mail_ok_upd [of h _ ?c "\<lparr>mb_items = [], mb_capacity = max (hc_capacity (hub_config h)) 1, mb_open = True\<rparr>"]) (use assms(1) in \<open>simp_all add: hub_connect_def Let_def hub_wf_def\<close>)
  ultimately show ?thesis using nxt by (simp add: hub_wf_def) (simp add: hub_connect_def Let_def same_setup_def)
qed

lemma recv_wf:
  assumes "hub_wf h"
  shows "hub_wf (snd (outbound_try_recv bounded_mpsc c h))" "hub_wf (outbound_drop bounded_mpsc c h)"
proof -
  have upd: "hub_wf (h\<lparr>hub_mail := (hub_mail h)(c \<mapsto> mb')\<rparr>)"
    if mb: "hub_mail h c = Some mb" "mb_capacity mb' = mb_capacity mb" "length (mb_items mb') \<le> length (mb_items mb)" for mb mb'
  proof -
    have "mail_ok (h\<lparr>hub_mail := (hub_mail h)(c \<mapsto> mb')\<rparr>)"
      by (rule mail_ok_upd [of h _ c mb']) (use assms mail_okD [of h c mb] mb in \<open>auto simp: hub_wf_def\<close>)
    then show ?thesis using assms by (auto simp: hub_wf_def conns_ok_def)
  qed
  show "hub_wf (snd (outbound_try_recv bounded_mpsc c h))"
    using assms by (auto simp: outbound_try_recv_def mailbox_recv_def split: option.splits list.splits intro!: upd)
  show "hub_wf (outbound_drop bounded_mpsc c h)"
    using assms by (auto simp: outbound_drop_def mailbox_drop_def split: option.splits intro!: upd)
qed

lemma recv_fields:
  "same_setup h (snd (outbound_try_recv bounded_mpsc c h)) \<and> hub_next_connection (snd (outbound_try_recv bounded_mpsc c h)) = hub_next_connection h"
  "same_setup h (outbound_drop bounded_mpsc c h) \<and> hub_next_connection (outbound_drop bounded_mpsc c h) = hub_next_connection h"
  by (simp_all add: same_setup_def outbound_try_recv_def outbound_drop_def split: option.splits prod.splits)

lemma hub_call_wf:
  assumes "order_ok (fst call)" and "hub_wf h" and "unat (hub_next_connection h) + 1 < 2 ^ 64"
  shows "hub_wf (run_call bounded_mpsc call h) \<and> same_setup h (run_call bounded_mpsc call h)
    \<and> unat (hub_next_connection (run_call bounded_mpsc call h)) \<le> unat (hub_next_connection h) + 1"
proof -
  obtain ho op where call: "call = (ho, op)" by fastforce
  have ho: "order_ok ho" using assms(1) call by simp
  show ?thesis
  proof (cases op)
    case (CallConnect meta)
    then show ?thesis using connect_spec [OF assms(2,3)] by (simp add: call)
  next
    case (CallJoin c ch)
    then show ?thesis using join_spec [OF ho assms(2), where c = c and ch = ch] by (simp add: call split_beta)
  next
    case (CallLeave c ch)
    then show ?thesis using leave_spec [OF ho assms(2)] by (simp add: call)
  next
    case (CallDisconnect c)
    then show ?thesis using disconnect_spec [OF ho assms(2)] by (simp add: call hub_disconnect_def)
  next
    case (CallSendTo c msg)
    then show ?thesis using send_to_spec [OF ho assms(2), where c = c and msg = msg] by (simp add: call split_beta)
  next
    case (CallBroadcast ch msg)
    then show ?thesis using broadcast_local_spec [OF ho assms(2)] by (simp add: call hub_broadcast_def)
  next
    case (CallSendToKey key msg)
    obtain n h' where k: "send_to_key_local bounded_mpsc ho key msg h = (n, h')" by fastforce
    then show ?thesis using send_to_key_local_spec [OF ho assms(2) k] CallSendToKey by (simp add: call hub_send_to_key_def)
  next
    case (CallPeer frame)
    show ?thesis
    proof (cases "pf_target frame")
      case (ToChannel ch)
      then show ?thesis using broadcast_local_spec [OF ho assms(2)] CallPeer assms(2)
        by (simp add: call deliver_from_peer_def same_setup_def)
    next
      case (ToKey key)
      obtain n h' where k: "send_to_key_local bounded_mpsc ho key (pf_message frame) h = (n, h')" by fastforce
      then show ?thesis using send_to_key_local_spec [OF ho assms(2) k] ToKey CallPeer assms(2)
        by (simp add: call deliver_from_peer_def same_setup_def)
    qed
  next
    case (CallRecv c)
    then show ?thesis using recv_wf [OF assms(2)] recv_fields by (simp add: call)
  next
    case (CallDropReceiver c)
    then show ?thesis using recv_wf [OF assms(2)] recv_fields by (simp add: call)
  qed
qed

lemma hub_run_wf:
  assumes "list_all (\<lambda>call. order_ok (fst call)) calls" and "hub_wf h"
    and "unat (hub_next_connection h) + length calls < 2 ^ 64"
  shows "hub_wf (fold (run_call bounded_mpsc) calls h) \<and> same_setup h (fold (run_call bounded_mpsc) calls h)"
  using assms
proof (induction calls arbitrary: h)
  case (Cons call calls)
  have s: "hub_wf (run_call bounded_mpsc call h) \<and> same_setup h (run_call bounded_mpsc call h)
      \<and> unat (hub_next_connection (run_call bounded_mpsc call h)) \<le> unat (hub_next_connection h) + 1"
    by (rule hub_call_wf) (use Cons.prems in auto)
  have "hub_wf (fold (run_call bounded_mpsc) calls (run_call bounded_mpsc call h)) \<and> same_setup (run_call bounded_mpsc call h) (fold (run_call bounded_mpsc) calls (run_call bounded_mpsc call h))"
    by (rule Cons.IH) (use Cons.prems s in auto)
  then show ?case using s by (simp add: same_setup_def)
qed (simp add: same_setup_def)

lemma hub_build_wf: "hub_wf (hub_build ident config auth)"
  by (auto simp: hub_wf_def hub_build_def chans_of_def chan_of_def joined_in_def conns_ok_def mail_ok_def)

lemma mailboxes_stay_consistent:
  assumes "list_all (\<lambda>call. order_ok (fst call)) calls" and "length calls + 1 < 2 ^ 64"
    and "h = fold (run_call bounded_mpsc) calls (hub_build ident config auth)"
  shows "(\<forall>ch ms. hub_channels h ch = Some ms \<longrightarrow>
            ms \<noteq> {} \<and> (\<forall>c. c \<in> ms \<longleftrightarrow> (\<exists>e. hub_connections h c = Some e \<and> ch \<in> en_joined e)))
     \<and> (\<forall>c e ch. hub_connections h c = Some e \<longrightarrow> ch \<in> en_joined e \<longrightarrow>
            (\<exists>ms. hub_channels h ch = Some ms \<and> c \<in> ms) \<and> auth ch c (en_meta e))
     \<and> (\<forall>c mb. hub_mail h c = Some mb \<longrightarrow> length (mb_items mb) \<le> max (hc_capacity config) 1)"
proof -
  have run: "hub_wf h \<and> same_setup (hub_build ident config auth) h"
    unfolding assms(3) by (rule hub_run_wf [OF assms(1) hub_build_wf]) (use assms(2) in \<open>simp add: hub_build_def\<close>)
  then have wf: "hub_channels h = chans_of (hub_connections h)" "conns_ok h" "mail_ok h"
    and conf: "hub_config h = config" "hub_authorizer h = auth"
    by (simp_all add: hub_wf_def same_setup_def hub_build_def)
  have joined: "c \<in> joined_in (hub_connections h) ch \<longleftrightarrow> (\<exists>e. hub_connections h c = Some e \<and> ch \<in> en_joined e)" for c ch
    by (simp add: joined_in_def)
  have chan: "hub_channels h ch = Some ms \<longleftrightarrow> ms = joined_in (hub_connections h) ch \<and> ms \<noteq> {}" for ch ms
    unfolding wf(1) chans_of_def chan_of_def by auto
  show ?thesis
  proof (intro conjI allI impI)
    fix ch ms
    assume "hub_channels h ch = Some ms"
    then show "ms \<noteq> {}" "c \<in> ms \<longleftrightarrow> (\<exists>e. hub_connections h c = Some e \<and> ch \<in> en_joined e)" for c
      unfolding chan joined [symmetric] by auto
  next
    fix c e ch
    assume e: "hub_connections h c = Some e" "ch \<in> en_joined e"
    then have "c \<in> joined_in (hub_connections h) ch" unfolding joined by blast
    then show "\<exists>ms. hub_channels h ch = Some ms \<and> c \<in> ms" unfolding chan by blast
    show "auth ch c (en_meta e)" using wf(2) e conf(2) by (auto simp: conns_ok_def)
  next
    fix c mb
    assume "hub_mail h c = Some mb"
    then show "length (mb_items mb) \<le> max (hc_capacity config) 1" using mail_okD [OF wf(3)] conf(1) by fastforce
  qed
qed

lemma mailboxes_refine_membership:
  assumes "order_ok ho" and "hub_wf h"
  shows "(case hub_join bounded_mpsc ho c ch h of (r, h') \<Rightarrow>
        (case hub_connections h c of
           None \<Rightarrow> r = Inl ConnectionClosed \<and> h' = h
         | Some e \<Rightarrow> if hub_authorizer h ch c (en_meta e) then r = Inr () \<and> membership h' = insert (c, ch) (membership h)
                     else r = Inl Unauthorized \<and> h' = h)
        \<and> presence_only (hub_mail h) (hub_mail h'))
     \<and> membership (hub_leave bounded_mpsc ho c ch h) = membership h - {(c, ch)}
     \<and> membership (hub_disconnect bounded_mpsc ho c h) = membership h - {c} \<times> UNIV
     \<and> distinct (map pm_connection (hub_presence ho ch h))
     \<and> set (map pm_connection (hub_presence ho ch h)) = {c. (c, ch) \<in> membership h}
     \<and> hub_member_count ch h = card {c. (c, ch) \<in> membership h}"
proof -
  let ?ms = "joined_in (hub_connections h) ch"
  have chan: "hub_channels h ch = chan_of ?ms" and fin: "finite ?ms"
    using assms(2) finite_joined_in by (simp_all add: hub_wf_def chans_of_def)
  note ord = order_members [OF assms(1) fin]
  have registered: "hub_connections h x \<noteq> None" if "x \<in> ?ms" for x using that by (auto simp: joined_in_def)
  have presence: "map pm_connection (hub_presence ho ch h) = (if ?ms = {} then [] else ho_members ho ?ms)"
  proof -
    have "map pm_connection (concat (map (\<lambda>cid. case hub_connections h cid of None \<Rightarrow> [] | Some entry \<Rightarrow> [make_presence cid (en_meta entry)]) xs)) = xs"
      if "set xs \<subseteq> ?ms" for xs using that registered by (induction xs) (auto simp: make_presence_def split: option.splits)
    then show ?thesis using ord by (simp add: hub_presence_def chan chan_of_def)
  qed
  have "distinct (map pm_connection (hub_presence ho ch h))" "set (map pm_connection (hub_presence ho ch h)) = ?ms"
    unfolding presence using ord by auto
  moreover have "hub_member_count ch h = card ?ms" by (simp add: hub_member_count_def chan chan_of_def)
  moreover have "{c. (c, ch) \<in> membership h} = ?ms" by (simp add: membership_def)
  ultimately show ?thesis
    using join_spec [OF assms, where c = c and ch = ch] leave_spec [OF assms, where c = c and ch = ch] disconnect_spec [OF assms, where c = c]
    by (simp add: hub_disconnect_def split_beta)
qed

lemma mailboxes_broadcast:
  assumes "order_ok ho" and "hub_wf g" and "hub_wf h" and "hub_id h \<noteq> hub_id g"
  shows "delivers msg {c. (c, ch) \<in> membership g} g (hub_broadcast bounded_mpsc ho ch msg g)
     \<and> (\<exists>frame. hub_published (hub_broadcast bounded_mpsc ho ch msg g) = hub_published g @ [frame]
          \<and> deliver_from_peer bounded_mpsc ho frame (hub_broadcast bounded_mpsc ho ch msg g) = hub_broadcast bounded_mpsc ho ch msg g
          \<and> delivers msg {c. (c, ch) \<in> membership h} h (deliver_from_peer bounded_mpsc ho frame h)
          \<and> hub_published (deliver_from_peer bounded_mpsc ho frame h) = hub_published h)"
proof -
  let ?frame = "\<lparr>pf_origin = hub_id g, pf_target = ToChannel ch, pf_message = msg\<rparr>"
  note lg = broadcast_local_spec [OF assms(1,2), of ch msg] and lh = broadcast_local_spec [OF assms(1,3), of ch msg]
  have m: "{c. (c, ch) \<in> membership x} = joined_in (hub_connections x) ch" for x by (simp add: membership_def)
  have "hub_id (hub_broadcast bounded_mpsc ho ch msg g) = hub_id g"
    using lg by (simp add: hub_broadcast_def publish_def same_setup_def)
  then have "deliver_from_peer bounded_mpsc ho ?frame (hub_broadcast bounded_mpsc ho ch msg g) = hub_broadcast bounded_mpsc ho ch msg g"
    by (simp add: deliver_from_peer_def)
  moreover have "deliver_from_peer bounded_mpsc ho ?frame h = broadcast_local bounded_mpsc ho ch msg h"
    using assms(4) by (simp add: deliver_from_peer_def)
  ultimately show ?thesis
    unfolding m using lg lh by (auto simp: hub_broadcast_def intro!: exI [of _ ?frame])
qed

lemma mailboxes_directed:
  assumes "order_ok ho" and "hub_wf h"
  shows "(case hub_send_to bounded_mpsc ho c msg h of (r, h') \<Rightarrow>
        delivers msg {c} h h'
        \<and> r = (if hub_connections h c = None then Inl UnknownConnection
               else if receives h c then Inr ()
               else if (\<forall>mb. hub_mail h c = Some mb \<longrightarrow> \<not> mb_open mb) then Inl Closed else Inl Backpressure))
     \<and> (case hub_send_to_key bounded_mpsc ho key msg h of (n, h') \<Rightarrow>
        delivers msg (key_holders h key) h h' \<and> n = card {c \<in> key_holders h key. receives h c})"
proof -
  obtain n h' where k: "send_to_key_local bounded_mpsc ho key msg h = (n, h')" by fastforce
  show ?thesis
    using send_to_spec [OF assms, where c = c and msg = msg] send_to_key_local_spec [OF assms k] k
    by (simp add: hub_send_to_key_def split_beta)
qed

end
