(* ===== verification/Hub_Channel.thy ===== *)
theory Hub_Channel
  imports Hub_History
begin

text \<open>
  The hub over the channels of the runtime. What the hub relies on is the locale
  \<open>mpsc_channel\<close>: seen through \<open>view\<close>, a channel is a bounded queue with a receiver that may be
  gone. Every operation of the hub then commutes with \<open>view_hub\<close>, so what was shown over the
  mailboxes holds of the hub on any such channel.
\<close>

section \<open>The contract of the channels\<close>

definition view_hub :: "('q \<Rightarrow> mailbox) \<Rightarrow> 'q hub \<Rightarrow> mailbox hub" where
  "view_hub view h =
     \<lparr>hub_id = hub_id h, hub_next_connection = hub_next_connection h, hub_config = hub_config h,
      hub_authorizer = hub_authorizer h, hub_published = hub_published h, hub_connections = hub_connections h,
      hub_channels = hub_channels h, hub_mail = (\<lambda>c. map_option view (hub_mail h c))\<rparr>"

lemma view_hub_sel [simp]:
  "hub_id (view_hub view h) = hub_id h" "hub_next_connection (view_hub view h) = hub_next_connection h"
  "hub_config (view_hub view h) = hub_config h" "hub_authorizer (view_hub view h) = hub_authorizer h"
  "hub_published (view_hub view h) = hub_published h" "hub_connections (view_hub view h) = hub_connections h"
  "hub_channels (view_hub view h) = hub_channels h" "hub_mail (view_hub view h) c = map_option view (hub_mail h c)"
  by (simp_all add: view_hub_def)

lemma view_hub_upd [simp]:
  "view_hub view (h\<lparr>hub_connections := conns\<rparr>) = (view_hub view h)\<lparr>hub_connections := conns\<rparr>"
  "view_hub view (h\<lparr>hub_channels := chans\<rparr>) = (view_hub view h)\<lparr>hub_channels := chans\<rparr>"
  "view_hub view (h\<lparr>hub_published := frames\<rparr>) = (view_hub view h)\<lparr>hub_published := frames\<rparr>"
  "view_hub view (h\<lparr>hub_next_connection := n\<rparr>) = (view_hub view h)\<lparr>hub_next_connection := n\<rparr>"
  "view_hub view (h\<lparr>hub_mail := (hub_mail h)(c \<mapsto> q)\<rparr>) = (view_hub view h)\<lparr>hub_mail := (hub_mail (view_hub view h))(c \<mapsto> view q)\<rparr>"
  by (auto simp: view_hub_def)

lemma view_hub_queries [simp]:
  "membership (view_hub view h) = membership h" "hub_presence ho ch (view_hub view h) = hub_presence ho ch h"
  "hub_member_count ch (view_hub view h) = hub_member_count ch h"
  by (simp_all add: membership_def hub_presence_def hub_member_count_def split: option.split)

lemma view_hub_mail_all:
  "(\<forall>mb. hub_mail (view_hub view h) c = Some mb \<longrightarrow> P mb) \<longleftrightarrow> (\<forall>q. hub_mail h c = Some q \<longrightarrow> P (view q))"
  by auto

lemma notify_all_channels: "hub_channels (notify_all tx ev ids h) = hub_channels h"
  unfolding notify_all_def
  by (induction ids arbitrary: h) (simp_all add: notify_one_def try_send_def split: option.split prod.split)

lemma view_hub_build: "view_hub view (hub_build ident config auth) = hub_build ident config auth"
  by (simp add: view_hub_def hub_build_def)

locale mpsc_channel =
  fixes tx :: "'q mpsc" and view :: "'q \<Rightarrow> mailbox"
  assumes view_new: "n > 0 \<Longrightarrow> view (ch_new tx n) = \<lparr>mb_items = [], mb_capacity = n, mb_open = True\<rparr>"
    and view_send: "map_prod id view (ch_try_send tx item q) = mailbox_send item (view q)"
    and view_recv: "map_prod id view (ch_try_recv tx q) = mailbox_recv (view q)"
    and view_drop: "view (ch_drop_receiver tx q) = mailbox_drop (view q)"
begin

abbreviation abs_hub :: "'q hub \<Rightarrow> mailbox hub" where
  "abs_hub \<equiv> view_hub view"

lemma abs_try_send: "map_prod id abs_hub (try_send tx c item h) = try_send bounded_mpsc c item (abs_hub h)"
proof (cases "hub_mail h c")
  case (Some q)
  show ?thesis using view_send [of item q] Some by (cases "ch_try_send tx item q") (simp add: try_send_def flip: view_send)
qed (simp add: try_send_def)

lemma abs_try_send_snd: "abs_hub (snd (try_send tx c item h)) = snd (try_send bounded_mpsc c item (abs_hub h))"
  by (simp flip: abs_try_send)

lemma abs_recv: "map_prod id abs_hub (outbound_try_recv tx c h) = outbound_try_recv bounded_mpsc c (abs_hub h)"
proof (cases "hub_mail h c")
  case (Some q)
  show ?thesis using view_recv [of q] Some by (cases "ch_try_recv tx q") (simp add: outbound_try_recv_def flip: view_recv)
qed (simp add: outbound_try_recv_def)

lemma abs_drop: "abs_hub (outbound_drop tx c h) = outbound_drop bounded_mpsc c (abs_hub h)"
  by (simp add: outbound_drop_def view_drop split: option.split)

lemma abs_notify_all: "abs_hub (notify_all tx ev ids h) = notify_all bounded_mpsc ev ids (abs_hub h)"
  unfolding notify_all_def
  by (induction ids arbitrary: h) (simp_all add: notify_one_def abs_try_send_snd)

lemma abs_connect: "map_prod id abs_hub (hub_connect tx meta h) = hub_connect bounded_mpsc meta (abs_hub h)"
  by (simp add: hub_connect_def Let_def view_new) (simp add: view_hub_def view_new fun_eq_iff)

lemma abs_join: "map_prod id abs_hub (hub_join tx ho c ch h) = hub_join bounded_mpsc ho c ch (abs_hub h)"
  by (simp add: hub_join_def Let_def abs_notify_all split: option.split)

lemma abs_leave: "abs_hub (hub_leave tx ho c ch h) = hub_leave bounded_mpsc ho c ch (abs_hub h)"
  unfolding hub_leave_def Let_def
  by (cases "hub_connections h c"; cases "hub_channels h ch") (simp_all add: abs_notify_all notify_all_channels)

lemma abs_evict_channel:
  "abs_hub (evict_channel tx ho c member ch h) = evict_channel bounded_mpsc ho c member ch (abs_hub h)"
  unfolding evict_channel_def Let_def by (cases "hub_channels h ch") (simp_all add: abs_notify_all notify_all_channels)

lemma abs_evict: "abs_hub (evict tx ho c h) = evict bounded_mpsc ho c (abs_hub h)"
proof -
  have "abs_hub (fold (evict_channel tx ho c member) chs g) = fold (evict_channel bounded_mpsc ho c member) chs (abs_hub g)" for member chs g
    by (induction chs arbitrary: g) (simp_all add: abs_evict_channel)
  then show ?thesis by (simp add: evict_def split: option.split)
qed

lemma abs_fold_evict: "abs_hub (fold (evict tx ho) cs h) = fold (evict bounded_mpsc ho) cs (abs_hub h)"
  by (induction cs arbitrary: h) (simp_all add: abs_evict)

lemma abs_send_to: "map_prod id abs_hub (hub_send_to tx ho c msg h) = hub_send_to bounded_mpsc ho c msg (abs_hub h)"
  by (cases "try_send tx c (OutMessage msg) h"; cases "fst (try_send tx c (OutMessage msg) h)")
    (simp_all add: hub_send_to_def abs_evict flip: abs_try_send)

lemma abs_deliver_each:
  "map_prod id (map_prod id abs_hub) (deliver_each tx msg ids h) = deliver_each bounded_mpsc msg ids (abs_hub h)"
proof (induction ids arbitrary: h)
  case (Cons c ids)
  obtain r h1 where s: "try_send tx c (OutMessage msg) h = (r, h1)" by fastforce
  obtain n es h2 where d: "deliver_each tx msg ids h1 = (n, es, h2)" by (metis prod_cases3)
  have "try_send bounded_mpsc c (OutMessage msg) (abs_hub h) = (r, abs_hub h1)" by (simp add: s flip: abs_try_send)
  moreover have "deliver_each bounded_mpsc msg ids (abs_hub h1) = (n, es, abs_hub h2)" by (simp add: d flip: Cons.IH)
  ultimately show ?case using s d Cons.IH [of h] by (cases r) simp_all
qed simp

lemma abs_broadcast_local: "abs_hub (broadcast_local tx ho ch msg h) = broadcast_local bounded_mpsc ho ch msg (abs_hub h)"
  by (simp add: broadcast_local_def abs_fold_evict split_beta flip: abs_deliver_each split: option.split)

lemma abs_send_to_key_local:
  "map_prod id abs_hub (send_to_key_local tx ho key msg h) = send_to_key_local bounded_mpsc ho key msg (abs_hub h)"
  by (simp add: send_to_key_local_def Let_def abs_fold_evict split_beta flip: abs_deliver_each)

lemma abs_publish: "abs_hub (publish frame h) = publish frame (abs_hub h)"
  by (simp add: publish_def)

lemma abs_broadcast: "abs_hub (hub_broadcast tx ho ch msg h) = hub_broadcast bounded_mpsc ho ch msg (abs_hub h)"
  by (simp add: hub_broadcast_def abs_publish abs_broadcast_local)

lemma abs_send_to_key: "map_prod id abs_hub (hub_send_to_key tx ho key msg h) = hub_send_to_key bounded_mpsc ho key msg (abs_hub h)"
  by (simp add: hub_send_to_key_def split_beta abs_publish flip: abs_send_to_key_local)

lemma abs_peer: "abs_hub (deliver_from_peer tx ho frame h) = deliver_from_peer bounded_mpsc ho frame (abs_hub h)"
  by (simp add: deliver_from_peer_def abs_broadcast_local flip: abs_send_to_key_local split: peer_target.split)

lemma abs_call: "abs_hub (run_call tx call h) = run_call bounded_mpsc call (abs_hub h)"
proof -
  obtain ho op where "call = (ho, op)" by fastforce
  then show ?thesis
    by (cases op) (simp_all add: hub_disconnect_def abs_leave abs_evict abs_broadcast abs_peer abs_drop
        flip: abs_connect abs_join abs_send_to abs_send_to_key abs_recv)
qed

lemma abs_calls: "abs_hub (fold (run_call tx) calls h) = fold (run_call bounded_mpsc) calls (abs_hub h)"
  by (induction calls arbitrary: h) (simp_all add: abs_call)

end

interpretation mb: mpsc_channel bounded_mpsc "\<lambda>q. q"
  by unfold_locales (simp_all add: prod.map_id0 flip: id_def)

section \<open>The hub on any channel\<close>

text \<open>
  C13: Through every history of calls on a hub, with fewer than \<open>2 ^ 64\<close> of them, whatever the
  iteration orders of its hash tables: the members of a channel are exactly the registered
  connections that list it among the channels they joined; no channel is kept without a
  member; every member was allowed into its channel by the authorizer; and no outbound queue
  ever holds more than the configured capacity.
\<close>
theorem hub_stays_consistent:
  assumes "mpsc_channel tx view" and "list_all (\<lambda>call. order_ok (fst call)) calls" and "length calls + 1 < 2 ^ 64"
    and "h = fold (run_call tx) calls (hub_build ident config auth)"
  shows "(\<forall>ch ms. hub_channels h ch = Some ms \<longrightarrow>
            ms \<noteq> {} \<and> (\<forall>c. c \<in> ms \<longleftrightarrow> (\<exists>e. hub_connections h c = Some e \<and> ch \<in> en_joined e)))
     \<and> (\<forall>c e ch. hub_connections h c = Some e \<longrightarrow> ch \<in> en_joined e \<longrightarrow>
            (\<exists>ms. hub_channels h ch = Some ms \<and> c \<in> ms) \<and> auth ch c (en_meta e))
     \<and> (\<forall>c q. hub_mail h c = Some q \<longrightarrow> length (mb_items (view q)) \<le> max (hc_capacity config) 1)"
proof -
  have "view_hub view h = fold (run_call bounded_mpsc) calls (hub_build ident config auth)"
    unfolding assms(4) mpsc_channel.abs_calls [OF assms(1)] view_hub_build by (rule refl)
  from mailboxes_stay_consistent [OF assms(2,3) this] show ?thesis unfolding view_hub_mail_all by (simp only: view_hub_sel)
qed

text \<open>
  The hub implements a membership relation between connections and channels. \<open>join\<close> adds a
  pair exactly when the connection is registered and the authorizer allows it, and is
  refused with the right error otherwise; \<open>leave\<close> removes the pair, \<open>disconnect\<close> every pair of
  the connection; \<open>presence\<close> lists the members of a channel, each once, and \<open>member_count\<close>
  counts them. Joining touches no queue but by presence events.
\<close>
theorem hub_refines_membership:
  assumes "mpsc_channel tx view" and "order_ok ho" and "hub_wf (view_hub view h)"
  shows "(case hub_join tx ho c ch h of (r, h') \<Rightarrow>
        (case hub_connections h c of
           None \<Rightarrow> r = Inl ConnectionClosed \<and> h' = h
         | Some e \<Rightarrow> if hub_authorizer h ch c (en_meta e) then r = Inr () \<and> membership h' = insert (c, ch) (membership h)
                     else r = Inl Unauthorized \<and> h' = h)
        \<and> presence_only (hub_mail (view_hub view h)) (hub_mail (view_hub view h')))
     \<and> membership (hub_leave tx ho c ch h) = membership h - {(c, ch)}
     \<and> membership (hub_disconnect tx ho c h) = membership h - {c} \<times> UNIV
     \<and> distinct (map pm_connection (hub_presence ho ch h))
     \<and> set (map pm_connection (hub_presence ho ch h)) = {c. (c, ch) \<in> membership h}
     \<and> hub_member_count ch h = card {c. (c, ch) \<in> membership h}"
proof -
  note abs = mpsc_channel.abs_join [OF assms(1)] mpsc_channel.abs_leave [OF assms(1)] mpsc_channel.abs_evict [OF assms(1)]
  have same: "hub_connections h c = None \<or> (\<exists>e. hub_connections h c = Some e \<and> \<not> hub_authorizer h ch c (en_meta e)) \<Longrightarrow>
      snd (hub_join tx ho c ch h) = h" by (auto simp: hub_join_def)
  have "membership (hub_leave tx ho c ch h) = membership (hub_leave bounded_mpsc ho c ch (view_hub view h))"
    "membership (hub_disconnect tx ho c h) = membership (hub_disconnect bounded_mpsc ho c (view_hub view h))"
    by (simp_all add: hub_disconnect_def flip: abs)
  then show ?thesis
    using mailboxes_refine_membership [OF assms(2,3), where c = c and ch = ch] same
    by (auto simp: split_beta simp flip: abs split: option.splits)
qed

text \<open>
  A broadcast reaches every member once. On the publishing hub every member of the channel
  whose queue has room finds the message at the end of it, and only they do; a member that
  cannot take it is evicted exactly when its receiver is gone or the policy is \<open>Disconnect\<close>;
  one frame is published. A peer with another identifier that receives the frame delivers it
  to its own members in the same way and publishes nothing; the hub itself ignores the frame,
  so no message is delivered twice or sent round in a loop.
\<close>
theorem broadcast_reaches_members_once:
  assumes "mpsc_channel tx view" and "order_ok ho" and "hub_wf (view_hub view g)" and "hub_wf (view_hub view h)"
    and "hub_id h \<noteq> hub_id g"
  shows "delivers msg {c. (c, ch) \<in> membership g} (view_hub view g) (view_hub view (hub_broadcast tx ho ch msg g))
     \<and> (\<exists>frame. hub_published (hub_broadcast tx ho ch msg g) = hub_published g @ [frame]
          \<and> deliver_from_peer tx ho frame (hub_broadcast tx ho ch msg g) = hub_broadcast tx ho ch msg g
          \<and> delivers msg {c. (c, ch) \<in> membership h} (view_hub view h) (view_hub view (deliver_from_peer tx ho frame h))
          \<and> hub_published (deliver_from_peer tx ho frame h) = hub_published h)"
proof -
  let ?g = "view_hub view g" and ?h = "view_hub view h"
  note abs = mpsc_channel.abs_broadcast [OF assms(1)] mpsc_channel.abs_peer [OF assms(1)]
  obtain frame where frame: "hub_published (hub_broadcast bounded_mpsc ho ch msg ?g) = hub_published ?g @ [frame]"
    "deliver_from_peer bounded_mpsc ho frame (hub_broadcast bounded_mpsc ho ch msg ?g) = hub_broadcast bounded_mpsc ho ch msg ?g"
    "delivers msg {c. (c, ch) \<in> membership ?h} ?h (deliver_from_peer bounded_mpsc ho frame ?h)"
    "hub_published (deliver_from_peer bounded_mpsc ho frame ?h) = hub_published ?h"
    and local: "delivers msg {c. (c, ch) \<in> membership ?g} ?g (hub_broadcast bounded_mpsc ho ch msg ?g)"
    using mailboxes_broadcast [OF assms(2-4), of msg ch] assms(5) by auto
  have pub: "hub_published (hub_broadcast tx ho ch msg g) = hub_published g @ [frame]"
    using frame(1) unfolding abs(1) [symmetric] by simp
  have "pf_origin frame = hub_id g" using frame(1) broadcast_local_spec [OF assms(2,3), of ch msg]
    by (auto simp: hub_broadcast_def publish_def)
  moreover have "hub_id (view_hub view (hub_broadcast tx ho ch msg g)) = hub_id g"
    unfolding abs(1) using broadcast_local_spec [OF assms(2,3), of ch msg]
    by (simp add: hub_broadcast_def publish_def same_setup_def)
  ultimately have "deliver_from_peer tx ho frame (hub_broadcast tx ho ch msg g) = hub_broadcast tx ho ch msg g"
    by (simp add: deliver_from_peer_def)
  then show ?thesis using pub frame(3,4) local unfolding abs [symmetric] by auto
qed

text \<open>
  A directed send on every branch. An unknown connection is reported; one with room gets
  the message and nobody else does; a full queue is reported as backpressure and costs the
  connection its place under \<open>Disconnect\<close> only; a dropped receiver is reported as closed and
  the connection is removed. A send by identity key delivers to the holders of the key and
  returns how many of them were reached.
\<close>
theorem directed_sends:
  assumes "mpsc_channel tx view" and "order_ok ho" and "hub_wf (view_hub view h)"
  shows "(case hub_send_to tx ho c msg h of (r, h') \<Rightarrow>
        delivers msg {c} (view_hub view h) (view_hub view h')
        \<and> r = (if hub_connections h c = None then Inl UnknownConnection
               else if receives (view_hub view h) c then Inr ()
               else if (\<forall>q. hub_mail h c = Some q \<longrightarrow> \<not> mb_open (view q)) then Inl Closed else Inl Backpressure))
     \<and> (case hub_send_to_key tx ho key msg h of (n, h') \<Rightarrow>
        delivers msg (key_holders (view_hub view h) key) (view_hub view h) (view_hub view h')
        \<and> n = card {c \<in> key_holders (view_hub view h) key. receives (view_hub view h) c})"
  using mailboxes_directed [OF assms(2,3), where c = c and msg = msg and key = key, unfolded view_hub_mail_all]
  by (simp add: split_beta flip: mpsc_channel.abs_send_to [OF assms(1)] mpsc_channel.abs_send_to_key [OF assms(1)])

section \<open>Examples\<close>

text \<open>A hub with one connection in one channel; its tables are walked in key order.\<close>

definition demo_walk :: hash_order where
  "demo_walk = \<lparr>ho_members = sorted_list_of_set, ho_joined = sorted_list_of_set, ho_connections = sorted_order\<rparr>"

definition demo_calls :: "(hash_order \<times> hub_op) list" where
  "demo_calls = [(demo_walk, CallConnect \<lparr>cm_key = Some ''ann'', cm_state = None\<rparr>), (demo_walk, CallJoin 1 ''room'')]"

definition demo_hub :: "hub_ident \<Rightarrow> mailbox hub" where
  "demo_hub ident = fold (run_call bounded_mpsc) demo_calls (hub_build ident hub_config_default allow_all)"

lemma demo_walk_ok: "order_ok demo_walk" "list_all (\<lambda>call. order_ok (fst call)) demo_calls" "length demo_calls + 1 < 2 ^ 64"
proof -
  show ok: "order_ok demo_walk" by (simp add: order_ok_def demo_walk_def enumerates_sorted_order)
  then show "list_all (\<lambda>call. order_ok (fst call)) demo_calls" by (simp add: demo_calls_def)
  show "length demo_calls + 1 < 2 ^ 64" by (simp add: demo_calls_def)
qed

lemma demo_hub_wf: "hub_wf (demo_hub ident)" "hub_id (demo_hub ident) = ident"
  using hub_run_wf [OF demo_walk_ok(2) hub_build_wf, of ident hub_config_default allow_all]
  by (simp_all add: demo_hub_def demo_calls_def hub_build_def same_setup_def)

lemma demo_hub_connections:
  "hub_connections (demo_hub ident) = [1 \<mapsto> \<lparr>en_meta = \<lparr>cm_key = Some ''ann'', cm_state = None\<rparr>, en_joined = {''room''}\<rparr>]"
  by (simp add: demo_hub_def demo_calls_def hub_build_def hub_connect_def hub_join_def allow_all_def
      demo_walk_def notify_all_def Let_def)

lemma demo_hub_room: "{c. (c, ''room'') \<in> membership (demo_hub ident)} = {1}"
  by (auto simp: membership_iff demo_hub_connections split: if_splits)

lemma view_same: "view_hub (\<lambda>q. q) h = h"
  by (simp add: view_hub_def option.map_ident)

lemma hub_stays_consistent_witness: "\<exists>ms. hub_channels (demo_hub 7) ''room'' = Some ms \<and> 1 \<in> ms"
  using hub_stays_consistent [OF mb.mpsc_channel_axioms demo_walk_ok(2,3) demo_hub_def [of 7]] by (simp add: demo_hub_connections)

lemma hub_refines_membership_witness:
  "membership (hub_leave bounded_mpsc demo_walk 1 ''room'' (demo_hub 7)) = {} \<and> hub_member_count ''room'' (demo_hub 7) = 1"
proof -
  have "membership (demo_hub 7) = {(1, ''room'')}" by (auto simp: membership_iff demo_hub_connections split: if_splits)
  then show ?thesis
    using hub_refines_membership [OF mb.mpsc_channel_axioms demo_walk_ok(1), unfolded view_same, OF demo_hub_wf(1) [of 7],
        where c = 1 and ch = "''room''"] by simp
qed

lemma broadcast_reaches_members_once_witness:
  "delivers (MText ''hi'') {1} (demo_hub 7) (hub_broadcast bounded_mpsc demo_walk ''room'' (MText ''hi'') (demo_hub 7))"
  using broadcast_reaches_members_once [OF mb.mpsc_channel_axioms demo_walk_ok(1), unfolded view_same, OF demo_hub_wf(1) [of 7] demo_hub_wf(1) [of 8],
      of "MText ''hi''" "''room''"]
  by (simp add: demo_hub_wf(2) demo_hub_room)

lemma directed_sends_witness: "fst (hub_send_to bounded_mpsc demo_walk 2 (MText ''hi'') (demo_hub 7)) = Inl UnknownConnection"
  using directed_sends [OF mb.mpsc_channel_axioms demo_walk_ok(1), unfolded view_same, OF demo_hub_wf(1) [of 7],
      where c = 2 and msg = "MText ''hi''" and key = "''ann''"]
  by (simp add: demo_hub_connections split_beta)

section \<open>Identifiers of hubs\<close>

text \<open>
  The identifiers of hubs (\<open>next_hub_id\<close> and \<open>splitmix64\<close> in \<open>hub.rs\<close>). The seed of the process is
  mixed once from the clock and the process number; every hub mixes it with the next value of
  a counter. The mixing function is a bijection on 64-bit words.
\<close>

unbundle bit_operations_syntax

definition splitmix64 :: "u64 \<Rightarrow> u64" where
  "splitmix64 x =
     (let v = x + 0x9E3779B97F4A7C15;
          z1 = (v XOR drop_bit 30 v) * 0xBF58476D1CE4E5B9;
          z2 = (z1 XOR drop_bit 27 z1) * 0x94D049BB133111EB
      in z2 XOR drop_bit 31 z2)"

text \<open>The clock reads nanoseconds since the epoch, or nothing when it is set before it.\<close>

definition hub_seed :: "nat option \<Rightarrow> u32 \<Rightarrow> u64" where
  "hub_seed nanos pid =
     splitmix64 ((case nanos of None \<Rightarrow> 0 | Some n \<Rightarrow> word_of_nat n) XOR push_bit 32 (ucast pid))"

text \<open>The counter of the process starts at one; taking an identifier moves it on, around \<open>2 ^ 64\<close>.\<close>

definition next_hub_id :: "u64 \<Rightarrow> u64 \<Rightarrow> hub_ident \<times> u64" where
  "next_hub_id seed counter = (splitmix64 (seed XOR counter), counter + 1)"

fun take_hub_ids :: "u64 \<Rightarrow> nat \<Rightarrow> u64 \<Rightarrow> hub_ident list" where
  "take_hub_ids seed 0 counter = []"
| "take_hub_ids seed (Suc n) counter = (case next_hub_id seed counter of (ident, counter') \<Rightarrow> ident # take_hub_ids seed n counter')"

subsection \<open>Mixing is a bijection\<close>

lemma xor_shift_bits:
  fixes x y :: u64
  assumes "0 < k" and "x XOR drop_bit k x = y XOR drop_bit k y" and "64 - n = d"
  shows "bit x n = bit y n"
  using assms(3)
proof (induction d arbitrary: n rule: less_induct)
  case (less d)
  show ?case
  proof (cases "n < 64")
    case True
    have "bit (x XOR drop_bit k x) n = bit (y XOR drop_bit k y) n" using assms(2) by simp
    moreover have "bit x (k + n) = bit y (k + n)" using less.IH [of "64 - (k + n)" "k + n"] less.prems assms(1) True by simp
    ultimately show ?thesis by (auto simp: bit_xor_iff bit_drop_bit_eq)
  qed (simp add: bit_word.rep_eq)
qed

lemma xor_shift_inj: "0 < k \<Longrightarrow> (x :: u64) XOR drop_bit k x = y XOR drop_bit k y \<longleftrightarrow> x = y"
  using xor_shift_bits [of k x y] by (auto intro!: bit_word_eqI)

lemma mult_unit_inj:
  fixes a b :: u64
  assumes "a * b = 1"
  shows "x * a = y * a \<longleftrightarrow> x = y"
proof
  assume "x * a = y * a"
  then have "x * (a * b) = y * (a * b)" by (simp add: mult.assoc [symmetric])
  then show "x = y" by (simp add: assms)
qed simp

lemma xor_left_inj: "(s :: u64) XOR a = s XOR b \<longleftrightarrow> a = b"
proof
  assume "s XOR a = s XOR b"
  then have "(s XOR s) XOR a = (s XOR s) XOR b" by (simp only: xor.assoc)
  then show "a = b" by simp
qed simp

lemma splitmix64_inj: "splitmix64 x = splitmix64 y \<longleftrightarrow> x = y"
proof -
  have units: "(0xBF58476D1CE4E5B9 :: u64) * 0x96de1b173f119089 = 1" "(0x94D049BB133111EB :: u64) * 0x319642b2d24d8ec3 = 1" by simp_all
  show ?thesis
    by (simp add: splitmix64_def Let_def xor_shift_inj mult_unit_inj [OF units(1)] mult_unit_inj [OF units(2)])
qed

lemma take_hub_ids_map: "take_hub_ids seed n counter = map (\<lambda>i. splitmix64 (seed XOR (counter + of_nat i))) [0..<n]"
proof (induction n arbitrary: counter)
  case (Suc n)
  have "[0..<Suc n] = 0 # map Suc [0..<n]" using upt_conv_Cons [of 0 "Suc n"] map_Suc_upt [of 0 n] by simp
  moreover have "counter + 1 + of_nat i = counter + of_nat (Suc i)" for i by (simp add: add.assoc)
  ultimately show ?case using Suc.IH [of "counter + 1"] by (simp only: take_hub_ids.simps next_hub_id_def prod.case list.map map_map comp_def) simp
qed simp

text \<open>
  No two hubs of one process get the same identifier, whatever the seed and wherever the
  counter stands, until \<open>2 ^ 64\<close> of them have been built: so the filter that drops a frame by
  its origin never drops the frame of another hub of the process.
\<close>
theorem hub_ids_distinct:
  assumes "n \<le> 2 ^ 64"
  shows "distinct (take_hub_ids (hub_seed nanos pid) n counter)"
proof -
  have "inj_on (\<lambda>i. splitmix64 (s XOR (counter + of_nat i))) {0..<n}" for s :: u64
  proof (rule inj_onI)
    fix i j
    assume "i \<in> {0..<n}" "j \<in> {0..<n}" "splitmix64 (s XOR (counter + of_nat i)) = splitmix64 (s XOR (counter + of_nat j))"
    moreover from this have "(of_nat i :: u64) = of_nat j" by (simp add: splitmix64_inj xor_left_inj)
    ultimately show "i = j" using assms by (simp add: word_of_nat_eq_iff take_bit_nat_eq_self)
  qed
  then show ?thesis unfolding take_hub_ids_map by (simp add: distinct_map)
qed

lemma hub_ids_distinct_witness: "distinct (take_hub_ids (hub_seed (Some 1700000000000000000) 42) 3 1)"
  by (rule hub_ids_distinct) simp

end
