(* ===== verification/Http_Core.thy ===== *)
theory Http_Core
  imports Rust_Collections
begin

text \<open>
  Requests, responses, handlers and middleware of \<open>phoenix-http\<close> (\<open>lib.rs\<close>), as far as the
  router and the security middleware use them. A handler runs on a state \<open>'w\<close>, everything it can read and change, and
  returns a response or panics (\<open>None\<close>). What the modelled code never looks at, the version, the
  body and the other extensions of a request and the stream of a streamed response, is of an
  arbitrary type \<open>'x\<close>; a parsed authority is of an arbitrary type \<open>'a\<close>. A method is its text,
  and a header map gives the values of each name in their order. The extensions of a request
  that the modelled code reads are fields of its record.
\<close>

section \<open>Text\<close>

text \<open>\<open>str::trim\<close>: \<open>ws_end s\<close> is the number of bytes of the white space character at the end of \<open>s\<close>, or 0.\<close>

definition ws_end :: "string \<Rightarrow> nat" where
  "ws_end s =
     (if ws_len (drop (length s - 1) s) = 1 then 1
      else if ws_len (drop (length s - 2) s) = 2 then 2
      else if ws_len (drop (length s - 3) s) = 3 then 3
      else 0)"

function trim_end :: "string \<Rightarrow> string" where
  "trim_end s = (if ws_end s = 0 \<or> s = [] then s else trim_end (take (length s - ws_end s) s))"
  by pat_completeness auto
termination
  by (relation "measure length") auto

declare trim_end.simps [simp del]

definition str_trim :: "string \<Rightarrow> string" where
  "str_trim s = trim_end (trim_start s)"

text \<open>\<open>str::trim_matches\<close> with one ASCII character, and \<open>str::to_ascii_lowercase\<close>.\<close>

definition trim_matches :: "char \<Rightarrow> string \<Rightarrow> string" where
  "trim_matches c s = rev (dropWhile (\<lambda>x. x = c) (rev (dropWhile (\<lambda>x. x = c) s)))"

definition ascii_lower :: "char \<Rightarrow> char" where
  "ascii_lower c = (if byte_in 65 90 c then char_of ((of_char c :: nat) + 32) else c)"

definition to_ascii_lowercase :: "string \<Rightarrow> string" where
  "to_ascii_lowercase s = map ascii_lower s"

definition is_ascii_alphabetic :: "char \<Rightarrow> bool" where
  "is_ascii_alphabetic c \<longleftrightarrow> byte_in 65 90 c \<or> byte_in 97 122 c"

definition is_ascii_hexdigit :: "char \<Rightarrow> bool" where
  "is_ascii_hexdigit c \<longleftrightarrow> byte_in 48 57 c \<or> byte_in 65 70 c \<or> byte_in 97 102 c"

fun join_with :: "string \<Rightarrow> string list \<Rightarrow> string" where
  "join_with sep [] = []"
| "join_with sep [s] = s"
| "join_with sep (s # t # ss) = s @ sep @ join_with sep (t # ss)"

text \<open>\<open>Iterator::max_by_key\<close>: the last of the greatest elements.\<close>

fun max_by_key :: "('b \<Rightarrow> 'k::linorder) \<Rightarrow> 'b list \<Rightarrow> 'b option" where
  "max_by_key key [] = None"
| "max_by_key key (x # xs) = Some (fold (\<lambda>y best. if key best > key y then best else y) xs x)"

section \<open>Headers\<close>

type_synonym headers = "string \<Rightarrow> string list"

definition header_get :: "string \<Rightarrow> headers \<Rightarrow> string option" where
  "header_get name h = (case h name of [] \<Rightarrow> None | v # _ \<Rightarrow> Some v)"

definition header_insert :: "string \<Rightarrow> string \<Rightarrow> headers \<Rightarrow> headers" where
  "header_insert name v h = h(name := [v])"

definition header_append :: "string \<Rightarrow> string \<Rightarrow> headers \<Rightarrow> headers" where
  "header_append name v h = h(name := h name @ [v])"

definition header_remove :: "string \<Rightarrow> headers \<Rightarrow> headers" where
  "header_remove name h = h(name := [])"

section \<open>Requests\<close>

datatype ip_addr = V4 u32 | V6 "128 word"

datatype transport_scheme = Http | Https

datatype request_body_mode = Buffered | Streaming

record app_context =
  ac_name :: string
  ac_path_prefix :: string
  ac_host :: "string option"

record ('a, 'x) request =
  rq_method :: string
  rq_path :: string
  rq_path_and_query :: "string option"
  rq_authority :: "'a option"
  rq_headers :: headers
  rq_params :: "(string \<times> string) list"
  rq_route_name :: "string option"
  rq_application :: "app_context option"
  rq_manifest :: "(string \<rightharpoonup> string) option"
  rq_request_id :: "string option"
  rq_peer :: "ip_addr option"
  rq_connection :: "transport_scheme option"
  rq_client_ip :: "ip_addr option"
  rq_scheme :: "transport_scheme option"
  rq_nonce :: "string option"
  rq_has_session :: bool
  rq_rest :: 'x

definition request_param :: "string \<Rightarrow> ('a, 'x) request \<Rightarrow> string option" where
  "request_param name r = map_option snd (find (\<lambda>(key, _). key = name) (rq_params r))"

definition set_route :: "string option \<Rightarrow> (string \<times> string) list \<Rightarrow> ('a, 'x) request \<Rightarrow> ('a, 'x) request" where
  "set_route name params r = r\<lparr>rq_route_name := name, rq_params := params\<rparr>"

section \<open>Responses\<close>

datatype response_body_outcome = Complete | StreamError | DeliveryCancelled | Shutdown | Aborted

record response_body_summary =
  bs_outcome :: response_body_outcome
  bs_bytes_yielded :: u64

datatype 'x response_body = BufferedBody string | StreamBody 'x

record ('x, 'w) response =
  rp_status :: u16
  rp_headers :: headers
  rp_body :: "'x response_body option"
  rp_observers :: "(response_body_summary \<Rightarrow> 'w \<Rightarrow> 'w) list"

definition response_new :: "u16 \<Rightarrow> string \<Rightarrow> ('x, 'w) response" where
  "response_new status body =
     \<lparr>rp_status = status, rp_headers = (\<lambda>_. []), rp_body = Some (BufferedBody body), rp_observers = []\<rparr>"

definition response_stream :: "'x \<Rightarrow> ('x, 'w) response" where
  "response_stream s = \<lparr>rp_status = 200, rp_headers = (\<lambda>_. []), rp_body = Some (StreamBody s), rp_observers = []\<rparr>"

definition insert_header :: "string \<Rightarrow> string \<Rightarrow> ('x, 'w) response \<Rightarrow> ('x, 'w) response" where
  "insert_header name v r = r\<lparr>rp_headers := header_insert name v (rp_headers r)\<rparr>"

definition response_text :: "string \<Rightarrow> ('x, 'w) response" where
  "response_text body = insert_header ''content-type'' ''text/plain; charset=utf-8'' (response_new 200 body)"

definition with_status :: "u16 \<Rightarrow> ('x, 'w) response \<Rightarrow> ('x, 'w) response" where
  "with_status status r = r\<lparr>rp_status := status\<rparr>"

text \<open>\<open>(status, text).into_response()\<close>\<close>

definition status_text :: "u16 \<Rightarrow> string \<Rightarrow> ('x, 'w) response" where
  "status_text status body = with_status status (response_text body)"

definition notify_body_observers ::
    "(response_body_summary \<Rightarrow> 'w \<Rightarrow> 'w) list \<Rightarrow> response_body_summary \<Rightarrow> 'w \<Rightarrow> 'w" where
  "notify_body_observers observers summary w = fold (\<lambda>observer. observer summary) observers w"

definition into_head :: "('x, 'w) response \<Rightarrow> 'w \<Rightarrow> ('x, 'w) response option \<times> 'w" where
  "into_head r w =
     (case rp_body r of
        None \<Rightarrow> (None, w)
      | Some (BufferedBody body) \<Rightarrow>
          (let r1 = (if rp_headers r ''content-length'' = [] \<and> \<not> (100 \<le> rp_status r \<and> rp_status r < 200) \<and> rp_status r \<noteq> 204
                     then insert_header ''content-length'' (nat_to_string (length body)) r else r)
           in (Some (r1\<lparr>rp_body := Some (BufferedBody [])\<rparr>), w))
      | Some (StreamBody s) \<Rightarrow>
          (Some (r\<lparr>rp_observers := [], rp_body := Some (BufferedBody [])\<rparr>),
           notify_body_observers (rp_observers r) \<lparr>bs_outcome = Complete, bs_bytes_yielded = 0\<rparr> w))"

section \<open>Handlers and middleware\<close>

type_synonym ('a, 'x, 'w) handler = "('a, 'x) request \<Rightarrow> 'w \<Rightarrow> ('x, 'w) response option \<times> 'w"
type_synonym ('a, 'x, 'w) middleware = "('a, 'x) request \<Rightarrow> ('a, 'x, 'w) handler \<Rightarrow> 'w \<Rightarrow> ('x, 'w) response option \<times> 'w"

definition middleware_handler :: "('a, 'x, 'w) middleware \<Rightarrow> ('a, 'x, 'w) handler \<Rightarrow> ('a, 'x, 'w) handler" where
  "middleware_handler middleware next_handler = (\<lambda>request. middleware request next_handler)"

definition apply_middleware :: "('a, 'x, 'w) handler \<Rightarrow> ('a, 'x, 'w) middleware list \<Rightarrow> ('a, 'x, 'w) handler" where
  "apply_middleware handler middleware = fold (\<lambda>current next_handler. middleware_handler current next_handler) (rev middleware) handler"

section \<open>Facts\<close>

lemma apply_middleware_simps [simp]:
  "apply_middleware h [] = h" "apply_middleware h (m # ms) = (\<lambda>request. m request (apply_middleware h ms))"
  by (simp_all add: apply_middleware_def middleware_handler_def)

lemma apply_middleware_append: "apply_middleware h (ms @ ns) = apply_middleware (apply_middleware h ns) ms"
  by (induction ms) simp_all

lemma max_by_key_fold:
  "fold (\<lambda>y best. if key best > key y then best else y) xs x \<in> insert x (set xs)
   \<and> (\<forall>y \<in> insert x (set xs). key y \<le> (key (fold (\<lambda>y best. if key best > key y then best else y) xs x) :: 'k::linorder))"
proof (induction xs arbitrary: x)
  case (Cons y xs)
  let ?f = "fold (\<lambda>y best. if key best > key y then best else y) xs"
  have x: "key x \<le> key (?f x)" and y: "key y \<le> key (?f y)" using Cons.IH by simp_all
  show ?case
  proof (cases "key x > key y")
    case True
    then have "key y \<le> key (?f x)" using x by simp
    then show ?thesis using True Cons.IH [of x] by auto
  next
    case False
    then have "key x \<le> key (?f y)" using y by simp
    then show ?thesis using False Cons.IH [of y] by auto
  qed
qed simp

lemma max_by_key_Some: "max_by_key key xs = Some m \<Longrightarrow> m \<in> set xs \<and> (\<forall>y \<in> set xs. key y \<le> key m)"
  using max_by_key_fold [of key "tl xs" "hd xs"] by (cases xs) auto

lemma max_by_key_None: "max_by_key key xs = None \<longleftrightarrow> xs = []"
  by (cases xs) auto

end
