(* ===== verification/Route.thy ===== *)
theory Route
  imports Http_Core
begin

text \<open>
  The router of \<open>phoenix-routing\<close> (\<open>lib.rs\<close>): collecting route declarations, building the
  immutable router, dispatching a request, choosing between mounted applications, and
  generating the URL of a named route. The path tree, percent encoding of a set of bytes, the parsing of
  authorities and the conversions of header values belong to other packages and are the fields of
  the record \<open>route_env\<close>.
\<close>

section \<open>Other packages\<close>

record ('t, 'a) route_env =
  env_tree_new :: 't
  env_tree_insert :: "string \<Rightarrow> nat \<Rightarrow> 't \<Rightarrow> string + 't"
  env_tree_at :: "'t \<Rightarrow> string \<Rightarrow> (nat \<times> (string \<times> string) list) option"
  env_non_alphanumeric :: "char \<Rightarrow> bool"
  env_percent_encode :: "(char \<Rightarrow> bool) \<Rightarrow> string \<Rightarrow> string"
  env_percent_decode :: "string \<Rightarrow> string"
  env_parse_authority :: "string \<Rightarrow> 'a option"
  env_authority_host :: "'a \<Rightarrow> string"
  env_authority_port :: "'a \<Rightarrow> u16 option"
  env_authority_text :: "'a \<Rightarrow> string"
  env_header_value :: "string \<Rightarrow> bool"
  env_header_text :: "string \<Rightarrow> string option"

section \<open>Paths\<close>

definition normalize_path :: "string \<Rightarrow> string" where
  "normalize_path path =
     (let trimmed = str_trim path
      in if trimmed = [] \<or> trimmed = ''/'' then ''/'' else ''/'' @ trim_matches (CHR ''/'') trimmed)"

definition normalize_prefix :: "string \<Rightarrow> string" where
  "normalize_prefix prefix = (let p = normalize_path prefix in if p = ''/'' then [] else p)"

definition join_paths :: "string \<Rightarrow> string \<Rightarrow> string" where
  "join_paths prefix path =
     (if prefix = [] then normalize_path path else if path = ''/'' then prefix else prefix @ normalize_path path)"

definition display_prefix :: "string \<Rightarrow> string" where
  "display_prefix prefix = (if prefix = [] then ''/'' else prefix)"

definition prefix_matches :: "string \<Rightarrow> string \<Rightarrow> bool" where
  "prefix_matches prefix path \<longleftrightarrow>
     prefix = [] \<or> path = prefix \<or>
     (take (length prefix) path = prefix \<and> (case drop (length prefix) path of [] \<Rightarrow> False | c # _ \<Rightarrow> c = CHR ''/''))"

definition valid_application_name :: "string \<Rightarrow> bool" where
  "valid_application_name name =
     (case name of
        [] \<Rightarrow> False
      | c # cs \<Rightarrow> is_ascii_alphabetic c \<and>
          list_all (\<lambda>c. is_ascii_alphabetic c \<or> is_ascii_digit c \<or> c \<in> {CHR ''-'', CHR ''_''}) cs)"

section \<open>Declarations\<close>

datatype route_build_error =
    NoRouteToConfigure string
  | DuplicateName string
  | InvalidPattern string string string

record ('a, 'x, 'w) route_definition =
  rd_method :: string
  rd_path :: string
  rd_name :: "string option"
  rd_handler :: "('a, 'x, 'w) handler"
  rd_body_mode :: request_body_mode
  rd_middleware :: "('a, 'x, 'w) middleware list"

record ('a, 'x, 'w) routes =
  rs_definitions :: "('a, 'x, 'w) route_definition list"
  rs_global_middleware :: "('a, 'x, 'w) middleware list"
  rs_error :: "route_build_error option"

record ('a, 'x, 'w) route_group =
  rg_prefix :: string
  rg_name_prefix :: string
  rg_middleware :: "('a, 'x, 'w) middleware list"

definition routes_new :: "('a, 'x, 'w) routes" where
  "routes_new = \<lparr>rs_definitions = [], rs_global_middleware = [], rs_error = None\<rparr>"

text \<open>A handler comes with its body mode (\<open>Handler::request_body_mode\<close>).\<close>

definition routes_route :: "string \<Rightarrow> string \<Rightarrow> ('a, 'x, 'w) handler \<times> request_body_mode \<Rightarrow> ('a, 'x, 'w) routes \<Rightarrow> ('a, 'x, 'w) routes" where
  "routes_route method path handler rs =
     rs\<lparr>rs_definitions := rs_definitions rs @
       [\<lparr>rd_method = method, rd_path = normalize_path path, rd_name = None, rd_handler = fst handler,
         rd_body_mode = snd handler, rd_middleware = []\<rparr>]\<rparr>"

definition routes_get :: "string \<Rightarrow> ('a, 'x, 'w) handler \<times> request_body_mode \<Rightarrow> ('a, 'x, 'w) routes \<Rightarrow> ('a, 'x, 'w) routes" where
  "routes_get path handler rs = routes_route ''GET'' path handler rs"

definition routes_post :: "string \<Rightarrow> ('a, 'x, 'w) handler \<times> request_body_mode \<Rightarrow> ('a, 'x, 'w) routes \<Rightarrow> ('a, 'x, 'w) routes" where
  "routes_post path handler rs = routes_route ''POST'' path handler rs"

definition routes_put :: "string \<Rightarrow> ('a, 'x, 'w) handler \<times> request_body_mode \<Rightarrow> ('a, 'x, 'w) routes \<Rightarrow> ('a, 'x, 'w) routes" where
  "routes_put path handler rs = routes_route ''PUT'' path handler rs"

definition routes_patch :: "string \<Rightarrow> ('a, 'x, 'w) handler \<times> request_body_mode \<Rightarrow> ('a, 'x, 'w) routes \<Rightarrow> ('a, 'x, 'w) routes" where
  "routes_patch path handler rs = routes_route ''PATCH'' path handler rs"

definition routes_delete :: "string \<Rightarrow> ('a, 'x, 'w) handler \<times> request_body_mode \<Rightarrow> ('a, 'x, 'w) routes \<Rightarrow> ('a, 'x, 'w) routes" where
  "routes_delete path handler rs = routes_route ''DELETE'' path handler rs"

text \<open>What configures the most recent route, or records an error when there is none.\<close>

definition configure_last :: "string \<Rightarrow> (('a, 'x, 'w) route_definition \<Rightarrow> ('a, 'x, 'w) route_definition) \<Rightarrow> ('a, 'x, 'w) routes \<Rightarrow> ('a, 'x, 'w) routes" where
  "configure_last what f rs =
     (if rs_definitions rs = [] then rs\<lparr>rs_error := Some (NoRouteToConfigure what)\<rparr>
      else rs\<lparr>rs_definitions := butlast (rs_definitions rs) @ [f (last (rs_definitions rs))]\<rparr>)"

definition routes_name :: "string \<Rightarrow> ('a, 'x, 'w) routes \<Rightarrow> ('a, 'x, 'w) routes" where
  "routes_name name rs = configure_last ''name'' (\<lambda>route. route\<lparr>rd_name := Some name\<rparr>) rs"

definition routes_action :: "('a, 'x, 'w) routes \<Rightarrow> ('a, 'x, 'w) routes" where
  "routes_action rs = configure_last ''action'' (\<lambda>route. route) rs"

definition routes_middleware :: "('a, 'x, 'w) middleware \<Rightarrow> ('a, 'x, 'w) routes \<Rightarrow> ('a, 'x, 'w) routes" where
  "routes_middleware m rs = configure_last ''middleware'' (\<lambda>route. route\<lparr>rd_middleware := rd_middleware route @ [m]\<rparr>) rs"

definition routes_with_middleware :: "('a, 'x, 'w) middleware \<Rightarrow> ('a, 'x, 'w) routes \<Rightarrow> ('a, 'x, 'w) routes" where
  "routes_with_middleware m rs = rs\<lparr>rs_global_middleware := rs_global_middleware rs @ [m]\<rparr>"

definition routes_len :: "('a, 'x, 'w) routes \<Rightarrow> nat" where
  "routes_len rs = length (rs_definitions rs)"

definition routes_merge :: "('a, 'x, 'w) routes \<Rightarrow> ('a, 'x, 'w) routes \<Rightarrow> ('a, 'x, 'w) routes" where
  "routes_merge rs other =
     rs\<lparr>rs_error := (case rs_error rs of None \<Rightarrow> rs_error other | Some e \<Rightarrow> Some e),
        rs_definitions := rs_definitions rs @
          map (\<lambda>d. d\<lparr>rd_middleware := rs_global_middleware other @ rd_middleware d\<rparr>) (rs_definitions other)\<rparr>"

definition route_group_new :: "('a, 'x, 'w) route_group" where
  "route_group_new = \<lparr>rg_prefix = [], rg_name_prefix = [], rg_middleware = []\<rparr>"

definition group_prefix :: "string \<Rightarrow> ('a, 'x, 'w) route_group \<Rightarrow> ('a, 'x, 'w) route_group" where
  "group_prefix prefix g = g\<lparr>rg_prefix := normalize_prefix prefix\<rparr>"

definition group_name :: "string \<Rightarrow> ('a, 'x, 'w) route_group \<Rightarrow> ('a, 'x, 'w) route_group" where
  "group_name prefix g = g\<lparr>rg_name_prefix := prefix\<rparr>"

definition group_middleware :: "('a, 'x, 'w) middleware \<Rightarrow> ('a, 'x, 'w) route_group \<Rightarrow> ('a, 'x, 'w) route_group" where
  "group_middleware m g = g\<lparr>rg_middleware := rg_middleware g @ [m]\<rparr>"

definition routes_group :: "('a, 'x, 'w) route_group \<Rightarrow> (('a, 'x, 'w) routes \<Rightarrow> ('a, 'x, 'w) routes) \<Rightarrow> ('a, 'x, 'w) routes \<Rightarrow> ('a, 'x, 'w) routes" where
  "routes_group g configure rs =
     (let child = configure routes_new
      in rs\<lparr>rs_error := (case rs_error rs of None \<Rightarrow> rs_error child | Some e \<Rightarrow> Some e),
            rs_definitions := rs_definitions rs @
              map (\<lambda>route. route\<lparr>rd_path := join_paths (rg_prefix g) (rd_path route),
                     rd_name := map_option (\<lambda>name. rg_name_prefix g @ name) (rd_name route),
                     rd_middleware := rg_middleware g @ rs_global_middleware child @ rd_middleware route\<rparr>)
                (rs_definitions child)\<rparr>)"

definition routes_scoped :: "('a, 'x, 'w) route_group \<Rightarrow> ('a, 'x, 'w) routes \<Rightarrow> ('a, 'x, 'w) routes" where
  "routes_scoped g rs =
     (let globals = rs_global_middleware rs;
          scoped = routes_group g (\<lambda>_. rs\<lparr>rs_global_middleware := []\<rparr>) routes_new
      in scoped\<lparr>rs_global_middleware := globals\<rparr>)"

section \<open>The compiled router\<close>

record ('a, 'x, 'w) compiled_route =
  cr_name :: "string option"
  cr_body_mode :: request_body_mode
  cr_handler :: "('a, 'x, 'w) handler"

record ('t, 'a, 'x, 'w) router_inner =
  ri_method_routers :: "string \<rightharpoonup> 't"
  ri_routes :: "('a, 'x, 'w) compiled_route list"

datatype ('t, 'a, 'x, 'w) router =
    Router (rt_handler: "('a, 'x, 'w) handler") (rt_named_routes: "string \<rightharpoonup> string")
      (rt_body_modes: "('t, 'a, 'x, 'w) body_mode_router")
and ('t, 'a, 'x, 'w) body_mode_router =
    Single "('t, 'a, 'x, 'w) router_inner"
  | Multi "('t, 'a, 'x, 'w) router_mount list"
and ('t, 'a, 'x, 'w) router_mount =
    RouterMount (mt_context: app_context) (mt_match_prefix: string) (mt_authority: "'a option")
      (mt_router: "('t, 'a, 'x, 'w) router")

section \<open>Dispatch\<close>

fun percent_escapes_ok :: "string \<Rightarrow> bool" where
  "percent_escapes_ok [] = True"
| "percent_escapes_ok (c # s) =
     (if c = CHR ''%'' then (case s of a # b # s' \<Rightarrow> is_ascii_hexdigit a \<and> is_ascii_hexdigit b \<and> percent_escapes_ok s' | _ \<Rightarrow> False)
      else percent_escapes_ok s)"

text \<open>\<open>None\<close> is the error \<open>InvalidPathParameter\<close>.\<close>

definition decode_path_parameter :: "('t, 'a) route_env \<Rightarrow> string \<Rightarrow> string option" where
  "decode_path_parameter env v =
     (if \<not> percent_escapes_ok v then None
      else let decoded = env_percent_decode env v in if utf8_valid decoded then Some decoded else None)"

fun decode_params :: "('t, 'a) route_env \<Rightarrow> (string \<times> string) list \<Rightarrow> (string \<times> string) list option" where
  "decode_params env [] = Some []"
| "decode_params env ((key, v) # params) =
     (case decode_path_parameter env v of
        None \<Rightarrow> None
      | Some v' \<Rightarrow> map_option (\<lambda>rest. (key, v') # rest) (decode_params env params))"

definition has_match :: "('t, 'a) route_env \<Rightarrow> ('t, 'a, 'x, 'w) router_inner \<Rightarrow> string \<Rightarrow> string \<Rightarrow> bool" where
  "has_match env inner method path =
     (case ri_method_routers inner method of None \<Rightarrow> False | Some tree \<Rightarrow> env_tree_at env tree path \<noteq> None)"

datatype match_result = NoMatch | BadParameter | Matched nat "(string \<times> string) list"

definition find_match :: "('t, 'a) route_env \<Rightarrow> ('t, 'a, 'x, 'w) router_inner \<Rightarrow> string \<Rightarrow> string \<Rightarrow> match_result" where
  "find_match env inner method path =
     (case ri_method_routers inner method of
        None \<Rightarrow> NoMatch
      | Some tree \<Rightarrow>
          (case env_tree_at env tree path of
             None \<Rightarrow> NoMatch
           | Some (index, params) \<Rightarrow>
               (case decode_params env params of None \<Rightarrow> BadParameter | Some params' \<Rightarrow> Matched index params')))"

text \<open>The order in which the hash map of method routers is walked is the argument \<open>ord\<close>.\<close>

definition allowed_methods :: "('t, 'a) route_env \<Rightarrow> ((string \<rightharpoonup> 't) \<Rightarrow> string list) \<Rightarrow> ('t, 'a, 'x, 'w) router_inner \<Rightarrow> string \<Rightarrow> string list" where
  "allowed_methods env ord inner path =
     (let methods = filter (\<lambda>m. has_match env inner m path) (ord (ri_method_routers inner));
          methods = (if ''GET'' \<in> set methods \<and> ''HEAD'' \<notin> set methods then methods @ [''HEAD''] else methods)
      in sort methods)"

definition response_with_allow :: "('t, 'a) route_env \<Rightarrow> u16 \<Rightarrow> string list \<Rightarrow> ('x, 'w) response" where
  "response_with_allow env status methods =
     (let allow = join_with '', '' methods;
          response = response_new status []
      in if env_header_value env allow then insert_header ''allow'' allow response else response)"

definition lookup_method :: "('t, 'a) route_env \<Rightarrow> ('t, 'a, 'x, 'w) router_inner \<Rightarrow> string \<Rightarrow> string \<Rightarrow> string" where
  "lookup_method env inner method path =
     (if method = ''HEAD'' \<and> \<not> has_match env inner ''HEAD'' path then ''GET'' else method)"

text \<open>Indexing past the compiled routes panics.\<close>

definition inner_body_mode :: "('t, 'a) route_env \<Rightarrow> ('t, 'a, 'x, 'w) router_inner \<Rightarrow> string \<Rightarrow> string \<Rightarrow> request_body_mode option" where
  "inner_body_mode env inner method path =
     (case ri_method_routers inner (lookup_method env inner method path) of
        None \<Rightarrow> Some Buffered
      | Some tree \<Rightarrow>
          (case env_tree_at env tree path of
             None \<Rightarrow> Some Buffered
           | Some (index, _) \<Rightarrow>
               if index < length (ri_routes inner) then Some (cr_body_mode (ri_routes inner ! index)) else None))"

definition route_dispatch :: "('t, 'a) route_env \<Rightarrow> ((string \<rightharpoonup> 't) \<Rightarrow> string list) \<Rightarrow> ('t, 'a, 'x, 'w) router_inner \<Rightarrow> ('a, 'x, 'w) handler" where
  "route_dispatch env ord inner request w =
     (case find_match env inner (lookup_method env inner (rq_method request) (rq_path request)) (rq_path request) of
        Matched index params \<Rightarrow>
          if index < length (ri_routes inner) then
            (let route = ri_routes inner ! index
             in case cr_handler route (set_route (cr_name route) params request) w of
                  (None, w) \<Rightarrow> (None, w)
                | (Some response, w) \<Rightarrow> if rq_method request = ''HEAD'' then into_head response w else (Some response, w))
          else (None, w)
      | BadParameter \<Rightarrow> (Some (status_text 400 ''Invalid path parameter encoding''), w)
      | NoMatch \<Rightarrow>
          (let allowed = allowed_methods env ord inner (rq_path request)
           in if rq_method request = ''OPTIONS'' \<and> allowed \<noteq> [] then (Some (response_with_allow env 204 allowed), w)
              else if allowed \<noteq> [] then (Some (response_with_allow env 405 allowed), w)
              else (Some (status_text 404 ''Not Found''), w)))"

definition panic_boundary :: "('a, 'x, 'w) handler \<Rightarrow> ('a, 'x, 'w) handler" where
  "panic_boundary next_handler request w =
     (case next_handler request w of
        (None, w) \<Rightarrow> (Some (status_text 500 ''Internal Server Error''), w)
      | (Some response, w) \<Rightarrow> (Some response, w))"

section \<open>Building\<close>

definition compile_route :: "('a, 'x, 'w) route_definition \<Rightarrow> ('a, 'x, 'w) compiled_route" where
  "compile_route d =
     \<lparr>cr_name = rd_name d, cr_body_mode = rd_body_mode d, cr_handler = apply_middleware (rd_handler d) (rd_middleware d)\<rparr>"

text \<open>The loop of \<open>Routes::build\<close> over the definitions.\<close>

fun build_loop :: "('t, 'a) route_env \<Rightarrow> ('a, 'x, 'w) route_definition list \<Rightarrow> (string \<rightharpoonup> 't) \<Rightarrow> (string \<rightharpoonup> string) \<Rightarrow>
    ('a, 'x, 'w) compiled_route list \<Rightarrow> route_build_error + ((string \<rightharpoonup> 't) \<times> (string \<rightharpoonup> string) \<times> ('a, 'x, 'w) compiled_route list)" where
  "build_loop env [] routers named compiled = Inr (routers, named, compiled)"
| "build_loop env (d # ds) routers named compiled =
     (let tree = (case routers (rd_method d) of None \<Rightarrow> env_tree_new env | Some tree \<Rightarrow> tree)
      in case env_tree_insert env (rd_path d) (length compiled) tree of
           Inl reason \<Rightarrow> Inl (InvalidPattern (rd_method d) (rd_path d) reason)
         | Inr tree' \<Rightarrow>
             (case rd_name d of
                None \<Rightarrow> build_loop env ds (routers(rd_method d \<mapsto> tree')) named (compiled @ [compile_route d])
              | Some name \<Rightarrow>
                  if named name \<noteq> None then Inl (DuplicateName name)
                  else build_loop env ds (routers(rd_method d \<mapsto> tree')) (named(name \<mapsto> rd_path d)) (compiled @ [compile_route d])))"

definition routes_build :: "('t, 'a) route_env \<Rightarrow> ((string \<rightharpoonup> 't) \<Rightarrow> string list) \<Rightarrow> ('a, 'x, 'w) routes \<Rightarrow>
    route_build_error + ('t, 'a, 'x, 'w) router" where
  "routes_build env ord rs =
     (case rs_error rs of
        Some error \<Rightarrow> Inl error
      | None \<Rightarrow>
          (case build_loop env (rs_definitions rs) Map.empty Map.empty [] of
             Inl error \<Rightarrow> Inl error
           | Inr (routers, named, compiled) \<Rightarrow>
               (let inner = \<lparr>ri_method_routers = routers, ri_routes = compiled\<rparr>;
                    handler = apply_middleware (panic_boundary (route_dispatch env ord inner)) (rs_global_middleware rs)
                in Inr (Router (panic_boundary handler) named (Single inner)))))"

section \<open>Mounted applications\<close>

datatype multi_router_error =
    Empty
  | InvalidApplicationName string
  | InvalidHost string
  | DuplicateApplication string
  | DuplicateSelector "string option" string
  | DuplicateRouteName string

definition router_mount_new :: "('t, 'a) route_env \<Rightarrow> string \<Rightarrow> string \<Rightarrow> string option \<Rightarrow> ('t, 'a, 'x, 'w) router \<Rightarrow>
    multi_router_error + ('t, 'a, 'x, 'w) router_mount" where
  "router_mount_new env name path_prefix host router =
     (if \<not> valid_application_name name then Inl (InvalidApplicationName name)
      else
        (let match_prefix = normalize_prefix path_prefix;
             mount = (\<lambda>authority display_host.
               RouterMount \<lparr>ac_name = name, ac_path_prefix = display_prefix match_prefix, ac_host = display_host\<rparr>
                 match_prefix authority router)
         in case host of
              None \<Rightarrow> Inr (mount None None)
            | Some host \<Rightarrow>
                (let normalized = to_ascii_lowercase (str_trim host)
                 in case env_parse_authority env normalized of
                      None \<Rightarrow> Inl (InvalidHost host)
                    | Some authority \<Rightarrow> Inr (mount (Some authority) (Some normalized)))))"

definition authority_matches :: "('t, 'a) route_env \<Rightarrow> 'a \<Rightarrow> 'a \<Rightarrow> bool" where
  "authority_matches env configured actual \<longleftrightarrow>
     to_ascii_lowercase (env_authority_host env configured) = to_ascii_lowercase (env_authority_host env actual) \<and>
     (case env_authority_port env configured of None \<Rightarrow> True | Some port \<Rightarrow> env_authority_port env actual = Some port)"

definition request_authority :: "('t, 'a) route_env \<Rightarrow> ('a, 'x) request \<Rightarrow> 'a option" where
  "request_authority env request =
     (case rq_authority request of
        Some authority \<Rightarrow> Some authority
      | None \<Rightarrow> Option.bind (Option.bind (header_get ''host'' (rq_headers request)) (env_header_text env))
          (\<lambda>v. env_parse_authority env (to_ascii_lowercase v)))"

definition mount_accepts :: "('t, 'a) route_env \<Rightarrow> ('a, 'x) request \<Rightarrow> ('t, 'a, 'x, 'w) router_mount \<Rightarrow> bool" where
  "mount_accepts env request mount \<longleftrightarrow>
     prefix_matches (mt_match_prefix mount) (rq_path request) \<and>
     (case mt_authority mount of
        None \<Rightarrow> True
      | Some configured \<Rightarrow>
          (case request_authority env request of None \<Rightarrow> False | Some actual \<Rightarrow> authority_matches env configured actual))"

definition mount_key :: "('t, 'a) route_env \<Rightarrow> ('t, 'a, 'x, 'w) router_mount \<Rightarrow> nat \<times> nat \<times> nat" where
  "mount_key env mount =
     (if mt_authority mount \<noteq> None then 1 else 0,
      if Option.bind (mt_authority mount) (env_authority_port env) \<noteq> None then 1 else 0,
      length (mt_match_prefix mount))"

definition select_mount :: "('t, 'a) route_env \<Rightarrow> ('t, 'a, 'x, 'w) router_mount list \<Rightarrow> ('a, 'x) request \<Rightarrow> ('t, 'a, 'x, 'w) router_mount option" where
  "select_mount env mounts request = max_by_key (mount_key env) (filter (mount_accepts env request) mounts)"

definition multi_dispatch :: "('t, 'a) route_env \<Rightarrow> ('t, 'a, 'x, 'w) router_mount list \<Rightarrow> ('a, 'x, 'w) handler" where
  "multi_dispatch env mounts request w =
     (case select_mount env mounts request of
        None \<Rightarrow> (Some (status_text 404 ''Application Not Found''), w)
      | Some mount \<Rightarrow> rt_handler (mt_router mount) (request\<lparr>rq_application := Some (mt_context mount)\<rparr>) w)"

fun merge_names :: "(string \<rightharpoonup> string) \<Rightarrow> string list \<Rightarrow> (string \<rightharpoonup> string) \<Rightarrow> multi_router_error + (string \<rightharpoonup> string)" where
  "merge_names added [] named = Inr named"
| "merge_names added (name # names) named =
     (if named name \<noteq> None then Inl (DuplicateRouteName name) else merge_names added names (named(name := added name)))"

text \<open>The loop of \<open>Router::multi\<close>; \<open>nord\<close> is the order in which the names of a router are walked.\<close>

fun multi_loop :: "('t, 'a) route_env \<Rightarrow> ((string \<rightharpoonup> string) \<Rightarrow> string list) \<Rightarrow> ('t, 'a, 'x, 'w) router_mount list \<Rightarrow> string set \<Rightarrow>
    (string option \<times> string) set \<Rightarrow> (string \<rightharpoonup> string) \<Rightarrow> multi_router_error + (string \<rightharpoonup> string)" where
  "multi_loop env nord [] names selectors named = Inr named"
| "multi_loop env nord (mount # mounts) names selectors named =
     (let name = ac_name (mt_context mount);
          selector = (map_option (env_authority_text env) (mt_authority mount), mt_match_prefix mount);
          added = rt_named_routes (mt_router mount)
      in if name \<in> names then Inl (DuplicateApplication name)
         else if selector \<in> selectors then Inl (DuplicateSelector (fst selector) (display_prefix (snd selector)))
         else case merge_names added (nord added) named of
                Inl error \<Rightarrow> Inl error
              | Inr named' \<Rightarrow> multi_loop env nord mounts (insert name names) (insert selector selectors) named')"

definition router_multi :: "('t, 'a) route_env \<Rightarrow> ((string \<rightharpoonup> string) \<Rightarrow> string list) \<Rightarrow> ('t, 'a, 'x, 'w) router_mount list \<Rightarrow>
    multi_router_error + ('t, 'a, 'x, 'w) router" where
  "router_multi env nord mounts =
     (if mounts = [] then Inl Empty
      else case multi_loop env nord mounts {} {} Map.empty of
             Inl error \<Rightarrow> Inl error
           | Inr named \<Rightarrow> Inr (Router (panic_boundary (multi_dispatch env mounts)) named (Multi mounts)))"

section \<open>Requests and URLs\<close>

definition router_handle :: "('t, 'a, 'x, 'w) router \<Rightarrow> ('a, 'x, 'w) handler" where
  "router_handle router request w = rt_handler router (request\<lparr>rq_manifest := Some (rt_named_routes router)\<rparr>) w"

lemma select_mount_in: "select_mount env mounts request = Some mount \<Longrightarrow> mount \<in> set mounts"
  using max_by_key_Some by (fastforce simp: select_mount_def)

lemma select_mount_smaller:
  assumes "rt_body_modes router = Multi mounts" and "select_mount env mounts request = Some mount"
  shows "size (mt_router mount) < size router"
proof -
  have "size mount \<le> size_list size mounts" by (rule size_list_estimation' [OF select_mount_in [OF assms(2)]]) simp
  moreover have "size (mt_router mount) < size mount" by (cases mount) simp
  ultimately show ?thesis using assms(1) by (cases router) simp
qed

text \<open>Mounted routers may be composed again; the recursion follows the nesting.\<close>

function router_body_mode :: "('t, 'a) route_env \<Rightarrow> ('t, 'a, 'x, 'w) router \<Rightarrow> ('a, 'x) request \<Rightarrow> request_body_mode option" where
  "router_body_mode env router request =
     (case rt_body_modes router of
        Single inner \<Rightarrow> inner_body_mode env inner (rq_method request) (rq_path request)
      | Multi mounts \<Rightarrow>
          (case select_mount env mounts request of
             None \<Rightarrow> Some Buffered
           | Some mount \<Rightarrow> router_body_mode env (mt_router mount) request))"
  by pat_completeness auto
termination
  by (relation "measure (\<lambda>(env, router, request). size router)") (simp_all add: select_mount_smaller)

declare router_body_mode.simps [simp del]

datatype url_generation_error =
    UnknownRoute string
  | MissingParameter string string

definition segment_parameter :: "string \<Rightarrow> string option" where
  "segment_parameter segment =
     (case segment of
        [] \<Rightarrow> None
      | c # s \<Rightarrow> if c = CHR ''{'' \<and> s \<noteq> [] \<and> last s = CHR ''}'' then Some (butlast s) else None)"

text \<open>The bytes that are encoded in a segment: a set of the package less four bytes.\<close>

definition PATH_SEGMENT_ENCODE_SET :: "('t, 'a) route_env \<Rightarrow> char \<Rightarrow> bool" where
  "PATH_SEGMENT_ENCODE_SET env c \<longleftrightarrow>
     env_non_alphanumeric env c \<and> c \<noteq> CHR ''-'' \<and> c \<noteq> CHR ''.'' \<and> c \<noteq> CHR ''_'' \<and> c \<noteq> CHR ''~''"

fun url_segments :: "('t, 'a) route_env \<Rightarrow> string \<Rightarrow> (string \<rightharpoonup> string) \<Rightarrow> string list \<Rightarrow> string \<Rightarrow> url_generation_error + string" where
  "url_segments env name params [] output = Inr output"
| "url_segments env name params (segment # segments) output =
     (if segment = [] then url_segments env name params segments output
      else case segment_parameter segment of
             Some parameter \<Rightarrow>
               (case params parameter of
                  None \<Rightarrow> Inl (MissingParameter name parameter)
                | Some v \<Rightarrow> url_segments env name params segments (output @ ''/'' @ env_percent_encode env (PATH_SEGMENT_ENCODE_SET env) v))
           | None \<Rightarrow> url_segments env name params segments (output @ ''/'' @ segment))"

definition router_url :: "('t, 'a) route_env \<Rightarrow> ('t, 'a, 'x, 'w) router \<Rightarrow> string \<Rightarrow> (string \<times> string) list \<Rightarrow> url_generation_error + string" where
  "router_url env router name params =
     (case rt_named_routes router name of
        None \<Rightarrow> Inl (UnknownRoute name)
      | Some pattern \<Rightarrow>
          (case url_segments env name (map_of (rev params)) (split_on (CHR ''/'') pattern) [] of
             Inl error \<Rightarrow> Inl error
           | Inr output \<Rightarrow> Inr (if output = [] then ''/'' else output)))"

end
