(* ===== verification/Route_Props.thy ===== *)
theory Route_Props
  imports Route
begin

text \<open>
  What the built router does, in terms of the declarations it was built from: \<open>answer\<close> is the
  reference definition of dispatch, straight from the list of declarations, and the built
  router agrees with it. The choice between mounted applications and the URLs of named
  routes follow. What is assumed of the path tree, of percent encoding and of authorities is
  \<open>tree_ok\<close>, \<open>percent_ok\<close> and \<open>authorities_canonical\<close>.
\<close>

section \<open>Dispatch from the declarations\<close>

text \<open>The path tree only ever answers with a value that was inserted; \<open>entries\<close> are the pairs inserted.\<close>

definition tree_ok :: "('t, 'a) route_env \<Rightarrow> ('t \<Rightarrow> (string \<times> nat) list) \<Rightarrow> bool" where
  "tree_ok env entries \<longleftrightarrow>
     entries (env_tree_new env) = [] \<and>
     (\<forall>p n t t'. env_tree_insert env p n t = Inr t' \<longrightarrow> entries t' = entries t @ [(p, n)]) \<and>
     (\<forall>t path n ps. env_tree_at env t path = Some (n, ps) \<longrightarrow> n \<in> snd ` set (entries t))"

fun insert_all :: "('t, 'a) route_env \<Rightarrow> (string \<times> nat) list \<Rightarrow> 't \<Rightarrow> 't option" where
  "insert_all env [] t = Some t"
| "insert_all env ((p, n) # ps) t = (case env_tree_insert env p n t of Inl _ \<Rightarrow> None | Inr t' \<Rightarrow> insert_all env ps t')"

definition declared :: "('a, 'x, 'w) route_definition list \<Rightarrow> string \<Rightarrow> (string \<times> nat) list" where
  "declared defs m = map (\<lambda>i. (rd_path (defs ! i), i)) (filter (\<lambda>i. rd_method (defs ! i) = m) [0..<length defs])"

definition declared_tree :: "('t, 'a) route_env \<Rightarrow> ('a, 'x, 'w) route_definition list \<Rightarrow> string \<Rightarrow> 't option" where
  "declared_tree env defs m = (if declared defs m = [] then None else insert_all env (declared defs m) (env_tree_new env))"

definition route_at :: "('t, 'a) route_env \<Rightarrow> ('a, 'x, 'w) route_definition list \<Rightarrow> string \<Rightarrow> string \<Rightarrow> (nat \<times> (string \<times> string) list) option" where
  "route_at env defs m path = Option.bind (declared_tree env defs m) (\<lambda>t. env_tree_at env t path)"

definition effective_method :: "('t, 'a) route_env \<Rightarrow> ('a, 'x, 'w) route_definition list \<Rightarrow> ('a, 'x) request \<Rightarrow> string" where
  "effective_method env defs request =
     (if rq_method request = ''HEAD'' \<and> route_at env defs ''HEAD'' (rq_path request) = None then ''GET'' else rq_method request)"

definition allowed_set :: "('t, 'a) route_env \<Rightarrow> ('a, 'x, 'w) route_definition list \<Rightarrow> string \<Rightarrow> string set" where
  "allowed_set env defs path =
     (let S = {m. route_at env defs m path \<noteq> None} in if ''GET'' \<in> S then insert ''HEAD'' S else S)"

definition answer :: "('t, 'a) route_env \<Rightarrow> ('a, 'x, 'w) route_definition list \<Rightarrow> ('a, 'x, 'w) handler" where
  "answer env defs request w =
     (case route_at env defs (effective_method env defs request) (rq_path request) of
        Some (i, raw) \<Rightarrow>
          (case decode_params env raw of
             None \<Rightarrow> (Some (status_text 400 ''Invalid path parameter encoding''), w)
           | Some params \<Rightarrow>
               (case apply_middleware (rd_handler (defs ! i)) (rd_middleware (defs ! i)) (set_route (rd_name (defs ! i)) params request) w of
                  (None, w) \<Rightarrow> (None, w)
                | (Some response, w) \<Rightarrow> if rq_method request = ''HEAD'' then into_head response w else (Some response, w)))
      | None \<Rightarrow>
          (let allowed = allowed_set env defs (rq_path request)
           in (Some (if allowed = {} then status_text 404 ''Not Found''
                     else response_with_allow env (if rq_method request = ''OPTIONS'' then 204 else 405) (sorted_list_of_set allowed)), w)))"

definition declared_names :: "('a, 'x, 'w) route_definition list \<Rightarrow> (string \<times> string) list" where
  "declared_names defs = List.map_filter (\<lambda>d. map_option (\<lambda>name. (name, rd_path d)) (rd_name d)) defs"

section \<open>Building\<close>

lemma insert_all_append: "insert_all env (xs @ ys) t = Option.bind (insert_all env xs t) (insert_all env ys)"
  by (induction env xs t rule: insert_all.induct) (auto split: sum.splits)

lemma declared_snoc: "declared (defs @ [d]) m = declared defs m @ (if rd_method d = m then [(rd_path d, length defs)] else [])"
proof -
  have "filter (\<lambda>i. rd_method ((defs @ [d]) ! i) = m) [0..<length defs] = filter (\<lambda>i. rd_method (defs ! i) = m) [0..<length defs]"
    by (rule filter_cong) (auto simp: nth_append)
  moreover have "map (\<lambda>i. (rd_path ((defs @ [d]) ! i), i)) (filter P [0..<length defs]) = map (\<lambda>i. (rd_path (defs ! i), i)) (filter P [0..<length defs])" for P
    by (rule map_cong) (auto simp: nth_append)
  ultimately show ?thesis by (simp add: declared_def nth_append)
qed

lemma declared_tree_snoc:
  assumes "env_tree_insert env (rd_path d) (length defs) (case declared_tree env defs (rd_method d) of None \<Rightarrow> env_tree_new env | Some t \<Rightarrow> t) = Inr t'"
    and "\<forall>m. declared defs m \<noteq> [] \<longrightarrow> declared_tree env defs m \<noteq> None"
  shows "declared_tree env (defs @ [d]) = (declared_tree env defs)(rd_method d \<mapsto> t')"
proof (rule ext)
  fix m
  show "declared_tree env (defs @ [d]) m = ((declared_tree env defs)(rd_method d \<mapsto> t')) m"
  proof (cases "rd_method d = m")
    case True
    define t where "t = (case declared_tree env defs m of None \<Rightarrow> env_tree_new env | Some t \<Rightarrow> t)"
    have "insert_all env (declared defs m) (env_tree_new env) = Some t"
      using assms(2) by (cases "declared defs m = []") (auto simp: declared_tree_def t_def)
    moreover have "env_tree_insert env (rd_path d) (length defs) t = Inr t'" using assms(1) True by (simp add: t_def)
    ultimately show ?thesis using True unfolding declared_tree_def declared_snoc by (simp add: insert_all_append)
  next
    case False
    then show ?thesis by (simp add: declared_tree_def declared_snoc)
  qed
qed

definition built :: "('t, 'a) route_env \<Rightarrow> ('a, 'x, 'w) route_definition list \<Rightarrow> (string \<rightharpoonup> 't) \<Rightarrow> (string \<rightharpoonup> string) \<Rightarrow> ('a, 'x, 'w) compiled_route list \<Rightarrow> bool" where
  "built env defs routers named compiled \<longleftrightarrow>
     routers = declared_tree env defs \<and> (\<forall>m. declared defs m \<noteq> [] \<longrightarrow> declared_tree env defs m \<noteq> None)
     \<and> named = map_of (declared_names defs) \<and> distinct (map fst (declared_names defs)) \<and> compiled = map compile_route defs"

lemma built_snoc:
  assumes b: "built env defs routers named compiled"
    and ins: "env_tree_insert env (rd_path d) (length compiled) (case routers (rd_method d) of None \<Rightarrow> env_tree_new env | Some t \<Rightarrow> t) = Inr t'"
    and fresh: "\<forall>name. rd_name d = Some name \<longrightarrow> named name = None"
  shows "built env (defs @ [d]) (routers(rd_method d \<mapsto> t')) (case rd_name d of None \<Rightarrow> named | Some name \<Rightarrow> named(name \<mapsto> rd_path d))
    (compiled @ [compile_route d])"
proof -
  have tree: "declared_tree env (defs @ [d]) = (declared_tree env defs)(rd_method d \<mapsto> t')"
    by (rule declared_tree_snoc) (use b ins in \<open>simp_all add: built_def\<close>)
  have names: "declared_names (defs @ [d]) = declared_names defs @ (case rd_name d of None \<Rightarrow> [] | Some name \<Rightarrow> [(name, rd_path d)])"
    by (simp add: declared_names_def map_filter_simps List.map_filter_def split: option.split)
  have "\<forall>m. declared (defs @ [d]) m \<noteq> [] \<longrightarrow> declared_tree env (defs @ [d]) m \<noteq> None"
    using b unfolding tree by (auto simp: built_def declared_snoc split: if_splits)
  moreover have "map_of (declared_names (defs @ [d])) = (case rd_name d of None \<Rightarrow> named | Some name \<Rightarrow> named(name \<mapsto> rd_path d))
      \<and> distinct (map fst (declared_names (defs @ [d])))"
  proof (cases "rd_name d")
    case (Some name)
    then have "name \<notin> fst ` set (declared_names defs)" using b fresh by (auto simp: built_def map_of_eq_None_iff)
    then have "map_of (declared_names defs @ [(name, rd_path d)]) = (map_of (declared_names defs))(name \<mapsto> rd_path d)"
      using map_add_comm [of "[name \<mapsto> rd_path d]" "map_of (declared_names defs)"] by (simp add: dom_map_of_conv_image_fst)
    then show ?thesis using Some b \<open>name \<notin> _\<close> by (simp add: names built_def)
  qed (use b in \<open>simp add: names built_def\<close>)
  ultimately show ?thesis using b tree by (simp add: built_def)
qed

lemma build_loop_built:
  "built env pre routers named compiled \<Longrightarrow> build_loop env ds routers named compiled = Inr (routers', named', compiled')
    \<Longrightarrow> built env (pre @ ds) routers' named' compiled'"
proof (induction ds arbitrary: pre routers named compiled)
  case (Cons d ds)
  obtain t' where ins: "env_tree_insert env (rd_path d) (length compiled) (case routers (rd_method d) of None \<Rightarrow> env_tree_new env | Some t \<Rightarrow> t) = Inr t'"
    using Cons.prems(2) by (auto simp: Let_def split: sum.splits)
  have "\<forall>name. rd_name d = Some name \<longrightarrow> named name = None"
    using Cons.prems(2) ins by (auto simp: Let_def split: if_splits)
  note step = built_snoc [OF Cons.prems(1) ins this]
  have "build_loop env ds (routers(rd_method d \<mapsto> t')) (case rd_name d of None \<Rightarrow> named | Some name \<Rightarrow> named(name \<mapsto> rd_path d))
      (compiled @ [compile_route d]) = Inr (routers', named', compiled')"
    using Cons.prems(2) ins by (cases "rd_name d") (simp_all add: Let_def split: if_splits)
  from Cons.IH [OF step this] show ?case by simp
qed simp

lemma built_tree_entries:
  "tree_ok env entries \<Longrightarrow> insert_all env ps t = Some t' \<Longrightarrow> entries t' = entries t @ ps"
proof (induction env ps t rule: insert_all.induct)
  case (2 env p n ps t)
  then obtain t1 where t1: "env_tree_insert env p n t = Inr t1" by (auto split: sum.splits)
  then have "entries t' = entries t1 @ ps" using 2 by simp
  moreover have "entries t1 = entries t @ [(p, n)]" using 2(2) t1 by (simp add: tree_ok_def)
  ultimately show ?case by simp
qed simp

lemma route_at_declared:
  assumes "tree_ok env entries" and "route_at env defs m path = Some (i, ps)"
  shows "i < length defs \<and> rd_method (defs ! i) = m"
proof -
  obtain t where t: "insert_all env (declared defs m) (env_tree_new env) = Some t" and hit: "env_tree_at env t path = Some (i, ps)"
    using assms(2) by (auto simp: route_at_def declared_tree_def bind_eq_Some_conv split: if_splits)
  have "entries t = declared defs m" using built_tree_entries [OF assms(1) t] assms(1) by (simp add: tree_ok_def)
  moreover have "i \<in> snd ` set (entries t)" using assms(1) hit unfolding tree_ok_def by blast
  ultimately show ?thesis by (auto simp: declared_def)
qed

lemma route_at_methods: "{m. route_at env defs m path \<noteq> None} \<subseteq> rd_method ` set defs"
  by (auto simp: route_at_def declared_tree_def declared_def bind_eq_Some_conv filter_empty_conv split: if_splits)

section \<open>The built router\<close>

definition inner_of :: "('t, 'a) route_env \<Rightarrow> ('a, 'x, 'w) route_definition list \<Rightarrow> ('t, 'a, 'x, 'w) router_inner" where
  "inner_of env defs = \<lparr>ri_method_routers = declared_tree env defs, ri_routes = map compile_route defs\<rparr>"

lemma inner_of_match:
  "has_match env (inner_of env defs) m path \<longleftrightarrow> route_at env defs m path \<noteq> None"
  "lookup_method env (inner_of env defs) (rq_method request) (rq_path request) = effective_method env defs request"
  "find_match env (inner_of env defs) m path =
     (case route_at env defs m path of
        None \<Rightarrow> NoMatch
      | Some (i, raw) \<Rightarrow> (case decode_params env raw of None \<Rightarrow> BadParameter | Some params \<Rightarrow> Matched i params))"
  by (auto simp: has_match_def lookup_method_def effective_method_def find_match_def inner_of_def route_at_def split: option.split)

lemma inner_of_allowed:
  assumes "enumerates ord"
  shows "allowed_methods env ord (inner_of env defs) path = sorted_list_of_set (allowed_set env defs path)"
    and "finite (allowed_set env defs path)"
proof -
  have sub: "{m. declared_tree env defs m \<noteq> None} \<subseteq> rd_method ` set defs"
    by (auto simp: declared_tree_def declared_def filter_empty_conv split: if_splits)
  have fin: "finite (dom (declared_tree env defs))" using finite_subset [OF sub] by (simp add: dom_def)
  let ?ms = "filter (\<lambda>m. has_match env (inner_of env defs) m path) (ord (declared_tree env defs))"
  let ?all = "if ''GET'' \<in> set ?ms \<and> ''HEAD'' \<notin> set ?ms then ?ms @ [''HEAD''] else ?ms"
  have set: "set ?ms = {m. route_at env defs m path \<noteq> None}" and dist: "distinct ?ms"
    using enumerates_set [OF assms fin] enumerates_distinct [OF assms fin]
    by (auto simp: inner_of_match route_at_def bind_eq_Some_conv)
  have all: "set ?all = allowed_set env defs path" "distinct ?all"
    using dist unfolding allowed_set_def set [symmetric] Let_def by auto
  show "finite (allowed_set env defs path)" unfolding all(1) [symmetric] by simp
  have ri: "ri_method_routers (inner_of env defs) = declared_tree env defs" by (simp add: inner_of_def)
  have "allowed_methods env ord (inner_of env defs) path = sort ?all"
    unfolding allowed_methods_def Let_def ri by (rule refl)
  also have "\<dots> = sorted_list_of_set (set ?all)"
    using sorted_list_of_set_sort_remdups [of ?all] distinct_remdups_id [OF all(2)] by (simp only:)
  finally show "allowed_methods env ord (inner_of env defs) path = sorted_list_of_set (allowed_set env defs path)"
    unfolding all(1) .
qed

lemma route_dispatch_answer:
  assumes "tree_ok env entries" and "enumerates ord"
  shows "route_dispatch env ord (inner_of env defs) = answer env defs"
proof (intro ext)
  fix request w
  let ?find = "route_at env defs (effective_method env defs request) (rq_path request)"
  note allowed = inner_of_allowed [OF assms(2), of env defs "rq_path request"]
  have empty: "sorted_list_of_set (allowed_set env defs (rq_path request)) = [] \<longleftrightarrow> allowed_set env defs (rq_path request) = {}"
    using allowed(2) by simp
  show "route_dispatch env ord (inner_of env defs) request w = answer env defs request w"
  proof (cases ?find)
    case None
    then show ?thesis
      unfolding route_dispatch_def answer_def inner_of_match Let_def allowed(1) empty by simp
  next
    case (Some ip)
    obtain i raw where ip: "ip = (i, raw)" by fastforce
    have "i < length defs" using route_at_declared [OF assms(1)] Some ip by blast
    then have route: "i < length (ri_routes (inner_of env defs))" "ri_routes (inner_of env defs) ! i = compile_route (defs ! i)"
      by (simp_all add: inner_of_def)
    show ?thesis
      unfolding route_dispatch_def answer_def inner_of_match using Some ip route
      by (cases "decode_params env raw") (simp_all add: Let_def compile_route_def)
  qed
qed

lemma panic_boundary_answers: "fst (panic_boundary h q v) \<noteq> None"
  by (simp add: panic_boundary_def split: prod.split option.split)

lemma routes_build_Inr:
  assumes "routes_build env ord rs = Inr router"
  shows "router = Router (panic_boundary (apply_middleware (panic_boundary (route_dispatch env ord (inner_of env (rs_definitions rs)))) (rs_global_middleware rs)))
      (map_of (declared_names (rs_definitions rs))) (Single (inner_of env (rs_definitions rs)))"
    and "distinct (map fst (declared_names (rs_definitions rs)))" and "rs_error rs = None"
proof -
  obtain routers named compiled where loop: "build_loop env (rs_definitions rs) Map.empty Map.empty [] = Inr (routers, named, compiled)"
    and rs: "rs_error rs = None"
    using assms by (auto simp: routes_build_def split: option.splits sum.splits)
  have "built env [] Map.empty Map.empty []"
    by (simp add: built_def declared_tree_def declared_def declared_names_def map_filter_simps fun_eq_iff)
  from build_loop_built [OF this loop] have b: "built env (rs_definitions rs) routers named compiled" by simp
  then show "router = Router (panic_boundary (apply_middleware (panic_boundary (route_dispatch env ord (inner_of env (rs_definitions rs)))) (rs_global_middleware rs)))
      (map_of (declared_names (rs_definitions rs))) (Single (inner_of env (rs_definitions rs)))"
    using assms loop rs by (simp add: routes_build_def built_def inner_of_def Let_def)
  show "distinct (map fst (declared_names (rs_definitions rs)))" using b by (simp add: built_def)
  show "rs_error rs = None" by (rule rs)
qed

text \<open>
  C14: A router that was built answers every request the way its declarations say. Inside the
  panic boundaries and the global middleware, a request goes to a declared route of its
  method, or of \<open>GET\<close> for a \<open>HEAD\<close> request without a route of its own, with the name and the
  decoded parameters set, through the middleware of that route, and loses its body for
  \<open>HEAD\<close>; a badly encoded parameter is answered by 400; another method on a known path by 405,
  or 204 for \<open>OPTIONS\<close>, with exactly the methods the path has in order; anything else by 404.
  The index of a match never leaves the table, so there is always a response. The body mode the server asks for beforehand is that of the
  route that will run, and the name table holds exactly the declared names, each once.
\<close>
theorem router_answers_declarations:
  assumes "tree_ok env entries" and "enumerates ord" and "routes_build env ord rs = Inr router"
  shows "router_handle router request w =
      panic_boundary (apply_middleware (panic_boundary (answer env (rs_definitions rs))) (rs_global_middleware rs))
        (request\<lparr>rq_manifest := Some (map_of (declared_names (rs_definitions rs)))\<rparr>) w
     \<and> fst (router_handle router request w) \<noteq> None
     \<and> (\<forall>m path i ps. route_at env (rs_definitions rs) m path = Some (i, ps) \<longrightarrow>
          i < length (rs_definitions rs) \<and> rd_method (rs_definitions rs ! i) = m)
     \<and> router_body_mode env router request =
         Some (case route_at env (rs_definitions rs) (effective_method env (rs_definitions rs) request) (rq_path request) of
                 None \<Rightarrow> Buffered
               | Some (i, _) \<Rightarrow> rd_body_mode (rs_definitions rs ! i))
     \<and> rt_named_routes router = map_of (declared_names (rs_definitions rs))
     \<and> distinct (map fst (declared_names (rs_definitions rs)))"
proof -
  let ?defs = "rs_definitions rs"
  note r = routes_build_Inr [OF assms(3)]
  have index: "\<forall>m path i ps. route_at env ?defs m path = Some (i, ps) \<longrightarrow> i < length ?defs \<and> rd_method (?defs ! i) = m"
    using route_at_declared [OF assms(1)] by blast
  have mode: "router_body_mode env router request = inner_body_mode env (inner_of env ?defs) (rq_method request) (rq_path request)"
    unfolding r(1) by (simp add: router_body_mode.simps)
  have "inner_body_mode env (inner_of env ?defs) (rq_method request) (rq_path request) =
      Some (case route_at env ?defs (effective_method env ?defs request) (rq_path request) of
              None \<Rightarrow> Buffered | Some (i, _) \<Rightarrow> rd_body_mode (?defs ! i))"
    unfolding inner_body_mode_def inner_of_match
    using index [rule_format, of "effective_method env ?defs request" "rq_path request"]
    by (auto simp: inner_of_def route_at_def compile_route_def split: option.splits)
  then show ?thesis
    using index panic_boundary_answers mode r(2) unfolding r(1) route_dispatch_answer [OF assms(1,2)] by (simp add: router_handle_def)
qed

section \<open>Mounted applications\<close>

definition selector :: "('t, 'a) route_env \<Rightarrow> ('t, 'a, 'x, 'w) router_mount \<Rightarrow> string option \<times> string" where
  "selector env mount = (map_option (env_authority_text env) (mt_authority mount), mt_match_prefix mount)"

text \<open>Authorities of the same host and port are written in the same way.\<close>

definition authorities_canonical :: "('t, 'a) route_env \<Rightarrow> 'a set \<Rightarrow> bool" where
  "authorities_canonical env As \<longleftrightarrow>
     (\<forall>a \<in> As. \<forall>b \<in> As. to_ascii_lowercase (env_authority_host env a) = to_ascii_lowercase (env_authority_host env b) \<longrightarrow>
        env_authority_port env a = env_authority_port env b \<longrightarrow> env_authority_text env a = env_authority_text env b)"

lemma multi_loop_distinct:
  "multi_loop env nord mounts names selectors named = Inr named' \<Longrightarrow>
     distinct (map (selector env) mounts) \<and> selector env ` set mounts \<inter> selectors = {}"
proof (induction mounts arbitrary: names selectors named)
  case (Cons mount mounts)
  from Cons.prems obtain named1 where
    "multi_loop env nord mounts (insert (ac_name (mt_context mount)) names) (insert (selector env mount) selectors) named1 = Inr named'"
    and new: "selector env mount \<notin> selectors"
    by (auto simp: Let_def selector_def split: if_splits sum.splits)
  from Cons.IH [OF this(1)] show ?case using new by auto
qed simp

lemma prefix_matches_take: "prefix_matches prefix path \<Longrightarrow> take (length prefix) path = prefix"
  by (auto simp: prefix_matches_def)

text \<open>Two mounts that accept the same request with the same priority have the same selector.\<close>

lemma same_key_selector:
  assumes "authorities_canonical env As" and "mount_accepts env request m" and "mount_accepts env request m'"
    and "set_option (mt_authority m) \<subseteq> As" and "set_option (mt_authority m') \<subseteq> As" and "mount_key env m = mount_key env m'"
  shows "selector env m = selector env m'"
proof -
  have "length (mt_match_prefix m) = length (mt_match_prefix m')" using assms(6) by (simp add: mount_key_def)
  then have prefix: "mt_match_prefix m = mt_match_prefix m'"
    using assms(2,3) prefix_matches_take by (metis mount_accepts_def)
  show ?thesis
  proof (cases "mt_authority m")
    case None
    then have "mt_authority m' = None" using assms(6) by (auto simp: mount_key_def split: if_splits)
    then show ?thesis using None prefix by (simp add: selector_def)
  next
    case (Some a)
    then obtain b where b: "mt_authority m' = Some b" using assms(6) by (auto simp: mount_key_def split: if_splits)
    have "a \<in> As" "b \<in> As" using assms(4,5) Some b by simp_all
    obtain actual where act: "authority_matches env a actual" "authority_matches env b actual"
      using assms(2,3) Some b by (auto simp: mount_accepts_def split: option.splits)
    have "env_authority_port env a = None \<longleftrightarrow> env_authority_port env b = None"
      using assms(6) Some b by (auto simp: mount_key_def split: if_splits)
    then have "env_authority_port env a = env_authority_port env b" using act
      by (cases "env_authority_port env a"; cases "env_authority_port env b") (simp_all add: authority_matches_def)
    moreover have "to_ascii_lowercase (env_authority_host env a) = to_ascii_lowercase (env_authority_host env b)"
      using act by (simp add: authority_matches_def)
    ultimately have "env_authority_text env a = env_authority_text env b"
      using assms(1) \<open>a \<in> As\<close> \<open>b \<in> As\<close> unfolding authorities_canonical_def by blast
    then show ?thesis using Some b prefix by (simp add: selector_def)
  qed
qed

text \<open>
  Between the applications of a composed router the request decides, not their order. The
  mount that is chosen accepts the request and has a strictly higher priority than every
  other mount that accepts it: a bound host before none, a port before none, then the
  longer path prefix; and there is a chosen mount whenever one accepts. Any other list of
  the same mounts chooses the same one. Assumed is that two authorities in use of the same
  host and port are written in the same way.
\<close>
theorem multi_selects_most_specific:
  assumes "router_multi env nord mounts = Inr router"
    and "authorities_canonical env (\<Union>m \<in> set mounts. set_option (mt_authority m))"
  shows "(\<forall>m. select_mount env mounts request = Some m \<longleftrightarrow>
            m \<in> set mounts \<and> mount_accepts env request m \<and>
            (\<forall>m' \<in> set mounts. mount_accepts env request m' \<longrightarrow> m' = m \<or> mount_key env m' < mount_key env m))
     \<and> (select_mount env mounts request = None \<longleftrightarrow> (\<forall>m \<in> set mounts. \<not> mount_accepts env request m))
     \<and> (\<forall>mounts'. set mounts' = set mounts \<longrightarrow> select_mount env mounts' request = select_mount env mounts request)"
proof -
  have dist: "distinct (map (selector env) mounts)"
    using assms(1) multi_loop_distinct [of env nord mounts "{}" "{}" Map.empty] by (auto simp: router_multi_def split: if_splits sum.splits)
  have unique: "m = m'" if "m \<in> set mounts" "m' \<in> set mounts" "mount_accepts env request m" "mount_accepts env request m'"
      "mount_key env m = mount_key env m'" for m m'
  proof -
    have "selector env m = selector env m'" by (rule same_key_selector [OF assms(2)]) (use that in auto)
    then show ?thesis using dist that(1,2) by (auto simp: distinct_map dest: inj_onD)
  qed
  have none: "select_mount env ms request = None \<longleftrightarrow> (\<forall>m \<in> set ms. \<not> mount_accepts env request m)" for ms
    by (simp add: select_mount_def max_by_key_None filter_empty_conv)
  have best: "select_mount env ms request = Some m \<longleftrightarrow> m \<in> set mounts \<and> mount_accepts env request m \<and>
      (\<forall>m' \<in> set mounts. mount_accepts env request m' \<longrightarrow> m' = m \<or> mount_key env m' < mount_key env m)"
    if same: "set ms = set mounts" for ms m
  proof
    assume "select_mount env ms request = Some m"
    from max_by_key_Some [OF this [unfolded select_mount_def]] same
    show "m \<in> set mounts \<and> mount_accepts env request m \<and>
        (\<forall>m' \<in> set mounts. mount_accepts env request m' \<longrightarrow> m' = m \<or> mount_key env m' < mount_key env m)"
      using unique by (auto simp: order.order_iff_strict)
  next
    assume m: "m \<in> set mounts \<and> mount_accepts env request m \<and>
        (\<forall>m' \<in> set mounts. mount_accepts env request m' \<longrightarrow> m' = m \<or> mount_key env m' < mount_key env m)"
    then obtain m' where m': "select_mount env ms request = Some m'" using none [of ms] same by fastforce
    from max_by_key_Some [OF this [unfolded select_mount_def]] same m
    have "m' \<in> set mounts" "mount_accepts env request m'" "mount_key env m \<le> mount_key env m'" by auto
    then have "m' = m" using m by (meson leD)
    then show "select_mount env ms request = Some m" using m' by simp
  qed
  have "select_mount env ms request = select_mount env mounts request" if "set ms = set mounts" for ms
  proof -
    have "select_mount env ms request = Some m \<longleftrightarrow> select_mount env mounts request = Some m" for m
      using best [OF that, of m] best [OF refl, of m] by (simp only:)
    then show ?thesis by (metis option.exhaust)
  qed
  then show ?thesis using best [OF refl] none by blast
qed

section \<open>Percent encoding\<close>

text \<open>What the package documents: the bytes of a set and those beyond ASCII are written as a percent sign and two
  upper case digits, and each such triple is read back.\<close>

definition hex_digit :: "nat \<Rightarrow> char" where
  "hex_digit n = (if n < 10 then char_of (48 + n) else char_of (55 + n))"

definition hex_value :: "char \<Rightarrow> nat" where
  "hex_value c = (if byte_in 48 57 c then of_char c - 48 else if byte_in 65 70 c then of_char c - 55 else of_char c - 87)"

definition non_alphanumeric :: "char \<Rightarrow> bool" where
  "non_alphanumeric c \<longleftrightarrow> byte_in 0 127 c \<and> \<not> is_ascii_alphabetic c \<and> \<not> is_ascii_digit c"

definition pct_encode :: "(char \<Rightarrow> bool) \<Rightarrow> string \<Rightarrow> string" where
  "pct_encode S s =
     concat (map (\<lambda>c. if S c \<or> byte_in 128 255 c then [CHR ''%'', hex_digit (of_char c div 16), hex_digit (of_char c mod 16)] else [c]) s)"

fun pct_decode :: "string \<Rightarrow> string" where
  "pct_decode [] = []"
| "pct_decode (c # s) =
     (case s of
        a # b # s' \<Rightarrow>
          if c = CHR ''%'' \<and> is_ascii_hexdigit a \<and> is_ascii_hexdigit b
          then char_of (16 * hex_value a + hex_value b) # pct_decode s' else c # pct_decode s
      | _ \<Rightarrow> c # pct_decode s)"

lemma hex_digit_of_char: "n < 16 \<Longrightarrow> of_char (hex_digit n) = (if n < 10 then 48 + n else 55 + n)"
  by (simp add: hex_digit_def)

lemma hex_digit_facts:
  assumes "n < 16"
  shows "is_ascii_hexdigit (hex_digit n)" "hex_value (hex_digit n) = n" "CHR ''/'' \<noteq> hex_digit n"
proof -
  show "is_ascii_hexdigit (hex_digit n)" "hex_value (hex_digit n) = n"
    using assms by (auto simp: is_ascii_hexdigit_def hex_value_def byte_in_def hex_digit_of_char)
  have "(of_char (hex_digit n) :: nat) \<noteq> of_char (CHR ''/'')" using assms by (simp add: hex_digit_of_char)
  then show "CHR ''/'' \<noteq> hex_digit n" by metis
qed

lemma byte_halves: "(of_char c :: nat) div 16 < 16" "(of_char c :: nat) mod 16 < 16" "16 * ((of_char c :: nat) div 16) + of_char c mod 16 = of_char c"
proof -
  have "(of_char c :: nat) < 256" by simp
  then show "(of_char c :: nat) div 16 < 16" by linarith
qed simp_all

lemma pct_encode_Cons:
  "pct_encode S (c # s) =
     (if S c \<or> byte_in 128 255 c then [CHR ''%'', hex_digit (of_char c div 16), hex_digit (of_char c mod 16)] else [c]) @ pct_encode S s"
  by (simp add: pct_encode_def)

lemma pct_decode_plain: "c \<noteq> CHR ''%'' \<Longrightarrow> pct_decode (c # s) = c # pct_decode s"
  by (simp split: list.split)

text \<open>A set with the percent sign in it can be decoded; one with the slash too leaves no separator.\<close>

lemma pct_round_trip:
  assumes "S (CHR ''%'')"
  shows "pct_decode (pct_encode S s) = s"
proof (induction s)
  case (Cons c s)
  show ?case
  proof (cases "S c \<or> byte_in 128 255 c")
    case True
    then show ?thesis using Cons.IH hex_digit_facts [OF byte_halves(1)] hex_digit_facts [OF byte_halves(2)] byte_halves(3) [of c]
      by (simp add: pct_encode_Cons)
  next
    case False
    then have "c \<noteq> CHR ''%''" using assms by metis
    then show ?thesis using Cons.IH False pct_decode_plain by (simp add: pct_encode_Cons del: pct_decode.simps(2))
  qed
qed (simp add: pct_encode_def)

lemma pct_escapes:
  assumes "S (CHR ''%'')" and "S (CHR ''/'')"
  shows "percent_escapes_ok (pct_encode S s) \<and> CHR ''/'' \<notin> set (pct_encode S s)"
proof (induction s)
  case (Cons c s)
  show ?case
  proof (cases "S c \<or> byte_in 128 255 c")
    case True
    then show ?thesis using Cons.IH hex_digit_facts [OF byte_halves(1)] hex_digit_facts [OF byte_halves(2)]
      by (auto simp: pct_encode_Cons)
  next
    case False
    then have "c \<noteq> CHR ''%''" "c \<noteq> CHR ''/''" using assms by metis+
    then show ?thesis using Cons.IH False by (auto simp: pct_encode_Cons)
  qed
qed (simp add: pct_encode_def)

section \<open>URLs of named routes\<close>

definition percent_ok :: "('t, 'a) route_env \<Rightarrow> bool" where
  "percent_ok env \<longleftrightarrow>
     env_non_alphanumeric env = non_alphanumeric \<and> env_percent_encode env = pct_encode \<and> env_percent_decode env = pct_decode"

lemma encode_set_reserved:
  assumes "percent_ok env"
  shows "PATH_SEGMENT_ENCODE_SET env (CHR ''%'')" and "PATH_SEGMENT_ENCODE_SET env (CHR ''/'')"
  using assms by (simp_all add: percent_ok_def PATH_SEGMENT_ENCODE_SET_def non_alphanumeric_def is_ascii_alphabetic_def is_ascii_digit_def byte_in_def)

definition pattern_segments :: "string \<Rightarrow> string list" where
  "pattern_segments pattern = filter (\<lambda>s. s \<noteq> []) (split_on (CHR ''/'') pattern)"

text \<open>A segment of the URL stands for a segment of the pattern.\<close>

definition segment_fits :: "('t, 'a) route_env \<Rightarrow> (string \<rightharpoonup> string) \<Rightarrow> string \<Rightarrow> string \<Rightarrow> bool" where
  "segment_fits env params pat seg =
     (CHR ''/'' \<notin> set seg \<and>
      (case segment_parameter pat of
         None \<Rightarrow> seg = pat
       | Some key \<Rightarrow> (\<exists>v. params key = Some v \<and> decode_path_parameter env seg = Some v)))"

lemma split_on_no_sep_parts: "s \<in> set (split_on d xs) \<Longrightarrow> d \<notin> set s"
  by (induction xs arbitrary: s) (auto split: if_splits list.splits)

lemma list_all2_partner: "list_all2 P xs ys \<Longrightarrow> x \<in> set xs \<Longrightarrow> \<exists>y. P x y"
  by (induction rule: list_all2_induct) auto

lemma segment_fits_encoded:
  assumes "percent_ok env" and "utf8_valid v" and "segment_parameter pat = Some key" and "params key = Some v"
  shows "segment_fits env params pat (env_percent_encode env (PATH_SEGMENT_ENCODE_SET env) v)"
  using assms encode_set_reserved [OF assms(1)] pct_round_trip [of "PATH_SEGMENT_ENCODE_SET env"] pct_escapes [of "PATH_SEGMENT_ENCODE_SET env"]
  by (simp add: segment_fits_def decode_path_parameter_def percent_ok_def Let_def)

lemma url_segments_Inr:
  assumes "percent_ok env" and "\<forall>key v. params key = Some v \<longrightarrow> utf8_valid v" and "\<forall>pat \<in> set pats. CHR ''/'' \<notin> set pat"
    and "url_segments env name params pats acc = Inr url"
  shows "\<exists>segs. url = acc @ concat (map (\<lambda>seg. ''/'' @ seg) segs) \<and> list_all2 (segment_fits env params) (filter (\<lambda>s. s \<noteq> []) pats) segs"
  using assms(3,4)
proof (induction pats arbitrary: acc)
  case (Cons pat pats)
  show ?case
  proof (cases "pat = []")
    case True
    then show ?thesis using Cons by simp
  next
    case False
    obtain seg where seg: "url_segments env name params pats (acc @ ''/'' @ seg) = Inr url" "segment_fits env params pat seg"
    proof (cases "segment_parameter pat")
      case None
      then show thesis using that [of pat] Cons.prems False by (simp add: segment_fits_def)
    next
      case (Some key)
      then obtain v where v: "params key = Some v" using Cons.prems False by (auto split: option.splits)
      then show thesis
        using that [of "env_percent_encode env (PATH_SEGMENT_ENCODE_SET env) v"] segment_fits_encoded [where params = params, OF assms(1) _ Some v] assms(2) Cons.prems False Some by simp
    qed
    obtain segs where "url = (acc @ ''/'' @ seg) @ concat (map (\<lambda>seg. ''/'' @ seg) segs)"
      "list_all2 (segment_fits env params) (filter (\<lambda>s. s \<noteq> []) pats) segs" using Cons.IH [OF _ seg(1)] Cons.prems by auto
    then show ?thesis using seg(2) False by (intro exI [of _ "seg # segs"]) simp
  qed
qed simp

lemma url_segments_Inl:
  "url_segments env name params pats acc = Inl e \<Longrightarrow>
     \<exists>pat \<in> set pats. \<exists>key. segment_parameter pat = Some key \<and> params key = None \<and> e = MissingParameter name key"
proof (induction env name params pats acc rule: url_segments.induct)
  case (2 env name params pat pats acc)
  then show ?case by (cases "pat = []"; cases "segment_parameter pat") (auto split: option.splits)
qed simp

text \<open>
  C15: The URL of a named route leads back to it. An unknown name is an error, and so is a
  parameter of the pattern that is not given, with its name; otherwise there is a URL. It has
  one segment for each segment of the pattern, a literal one unchanged and a parameter one
  that the router decodes to the given value, whatever characters the value has; no value
  adds a separator. Of the package the documented encoding and decoding are assumed, for any
  set of bytes; that the set of the router suffices is part of what is shown.
\<close>
theorem url_round_trip:
  assumes "percent_ok env" and "list_all (\<lambda>(key, v). utf8_valid v) params"
  shows "case rt_named_routes router name of
      None \<Rightarrow> router_url env router name params = Inl (UnknownRoute name)
    | Some pattern \<Rightarrow>
        (if \<exists>pat \<in> set (pattern_segments pattern). \<exists>key. segment_parameter pat = Some key \<and> key \<notin> fst ` set params
         then \<exists>pat \<in> set (pattern_segments pattern). \<exists>key. segment_parameter pat = Some key \<and> key \<notin> fst ` set params
                \<and> router_url env router name params = Inl (MissingParameter name key)
         else \<exists>segs. router_url env router name params =
                   Inr (if segs = [] then ''/'' else concat (map (\<lambda>seg. ''/'' @ seg) segs))
                \<and> list_all2 (segment_fits env (map_of (rev params))) (pattern_segments pattern) segs)"
proof (cases "rt_named_routes router name")
  case (Some pattern)
  let ?pats = "split_on (CHR ''/'') pattern" and ?params = "map_of (rev params)"
  have nosep: "\<forall>pat \<in> set ?pats. CHR ''/'' \<notin> set pat" by (auto dest: split_on_no_sep_parts)
  have key: "?params k = None \<longleftrightarrow> k \<notin> fst ` set params" for k by (simp add: map_of_eq_None_iff)
  have valid: "\<forall>k v. ?params k = Some v \<longrightarrow> utf8_valid v" using assms(2) by (auto simp: list_all_iff dest!: map_of_SomeD)
  have empty: "segment_parameter [] = None" by (simp add: segment_parameter_def)
  show ?thesis
  proof (cases "url_segments env name ?params ?pats []")
    case (Inl e)
    then obtain pat k where pat: "pat \<in> set ?pats" "segment_parameter pat = Some k" "?params k = None" "e = MissingParameter name k"
      using url_segments_Inl by blast
    then have "pat \<in> set (pattern_segments pattern)" using empty by (auto simp: pattern_segments_def)
    moreover have "router_url env router name params = Inl (MissingParameter name k)" using Some Inl pat(4) by (simp add: router_url_def)
    ultimately show ?thesis using Some pat(2,3) key by auto
  next
    case (Inr url)
    obtain segs where segs: "url = concat (map (\<lambda>seg. ''/'' @ seg) segs)" "list_all2 (segment_fits env ?params) (pattern_segments pattern) segs"
      using url_segments_Inr [OF assms(1) valid nosep Inr] by (auto simp: pattern_segments_def)
    have url: "url = [] \<longleftrightarrow> segs = []" unfolding segs(1) by (cases segs) simp_all
    have given: "\<not> (\<exists>pat \<in> set (pattern_segments pattern). \<exists>k. segment_parameter pat = Some k \<and> k \<notin> fst ` set params)"
      using list_all2_partner [OF segs(2)] unfolding key [symmetric] by (fastforce simp: segment_fits_def)
    have "router_url env router name params = Inr (if url = [] then ''/'' else url)"
      using Some Inr by (simp add: router_url_def)
    then have "\<exists>segs. router_url env router name params = Inr (if segs = [] then ''/'' else concat (map (\<lambda>seg. ''/'' @ seg) segs))
        \<and> list_all2 (segment_fits env ?params) (pattern_segments pattern) segs"
      using segs(2) unfolding url unfolding segs(1) by (intro exI conjI)
    then show ?thesis using Some given by (simp only: option.case if_False)
  qed
qed (simp add: router_url_def)

end
