(* ===== verification/Route_Witness.thy ===== *)
theory Route_Witness
  imports Route_Props
begin

text \<open>
  An instance of the other packages the router relies on, on which the assumptions of the
  routing properties hold: a path tree for literal paths, the reference percent encoding, and
  authorities of a host and an optional port.
\<close>

section \<open>Literal paths\<close>

definition list_insert :: "string \<Rightarrow> nat \<Rightarrow> (string \<times> nat) list \<Rightarrow> string + (string \<times> nat) list" where
  "list_insert p n t = (if p \<in> fst ` set t then Inl ''conflict'' else Inr (t @ [(p, n)]))"

definition list_at :: "(string \<times> nat) list \<Rightarrow> string \<Rightarrow> (nat \<times> (string \<times> string) list) option" where
  "list_at t path = map_option (\<lambda>n. (n, [])) (map_of t path)"

section \<open>The instance\<close>

definition plain_authority :: "string \<Rightarrow> (string \<times> u16 option) option" where
  "plain_authority s =
     (case split_once (CHR '':'') s of
        None \<Rightarrow> if s = [] then None else Some (s, None)
      | Some (host, port) \<Rightarrow> map_option (\<lambda>n. (host, Some n)) (parse_digits port))"

definition plain_env :: "((string \<times> nat) list, string \<times> u16 option) route_env" where
  "plain_env =
     \<lparr>env_tree_new = [], env_tree_insert = list_insert, env_tree_at = list_at, env_non_alphanumeric = non_alphanumeric, env_percent_encode = pct_encode,
      env_percent_decode = pct_decode, env_parse_authority = plain_authority, env_authority_host = fst, env_authority_port = snd,
      env_authority_text = (\<lambda>(host, port). host @ (case port of None \<Rightarrow> [] | Some n \<Rightarrow> '':'' @ nat_to_string (unat n))),
      env_header_value = (\<lambda>_. True), env_header_text = Some\<rparr>"

lemma plain_tree_ok: "tree_ok plain_env (\<lambda>t. t)"
proof -
  have "n \<in> snd ` set t" if "list_at t path = Some (n, ps)" for t path n ps
    using that map_of_SomeD [of t path n] by (force simp: list_at_def)
  then show ?thesis by (auto simp: tree_ok_def plain_env_def list_insert_def split: if_splits)
qed

lemma plain_percent_ok: "percent_ok plain_env"
  by (simp add: percent_ok_def plain_env_def)

definition page :: "string \<Rightarrow> (string \<times> u16 option, unit, unit) handler" where
  "page body request w = (Some (response_text body), w)"

definition demo_routes :: "(string \<times> u16 option, unit, unit) routes" where
  "demo_routes =
     \<lparr>rs_definitions =
        [\<lparr>rd_method = ''GET'', rd_path = ''/'', rd_name = Some ''home'', rd_handler = page ''home'', rd_body_mode = Buffered, rd_middleware = []\<rparr>,
         \<lparr>rd_method = ''GET'', rd_path = ''/users/{id}'', rd_name = Some ''users.show'', rd_handler = page ''user'', rd_body_mode = Buffered, rd_middleware = []\<rparr>],
      rs_global_middleware = [], rs_error = None\<rparr>"

definition web_request :: "string \<Rightarrow> string \<Rightarrow> (string \<times> u16 option, unit) request" where
  "web_request method path =
     \<lparr>rq_method = method, rq_path = path, rq_path_and_query = Some path, rq_authority = None, rq_headers = (\<lambda>_. []), rq_params = [], rq_route_name = None,
      rq_application = None, rq_manifest = None, rq_request_id = None, rq_peer = None,
      rq_connection = None, rq_client_ip = None, rq_scheme = None, rq_nonce = None, rq_has_session = False, rq_rest = ()\<rparr>"

definition demo_inner :: "((string \<times> nat) list, string \<times> u16 option, unit, unit) router_inner" where
  "demo_inner = inner_of plain_env (rs_definitions demo_routes)"

definition demo_router :: "((string \<times> nat) list, string \<times> u16 option, unit, unit) router" where
  "demo_router = (case routes_build plain_env sorted_order demo_routes of Inr router \<Rightarrow> router | Inl _ \<Rightarrow> undefined)"

lemma demo_build: "routes_build plain_env sorted_order demo_routes = Inr demo_router"
proof -
  have "\<exists>router. routes_build plain_env sorted_order demo_routes = Inr router"
    by (simp add: routes_build_def demo_routes_def plain_env_def list_insert_def Let_def)
  then show ?thesis by (auto simp: demo_router_def)
qed

lemma demo_names: "rt_named_routes demo_router = [''home'' \<mapsto> ''/'', ''users.show'' \<mapsto> ''/users/{id}'']"
  unfolding routes_build_Inr(1) [OF demo_build] by (auto simp: demo_routes_def declared_names_def List.map_filter_def)

text \<open>A \<open>HEAD\<close> request for the home page is answered by its route, without the body.\<close>

lemma router_answers_declarations_witness:
  "map_option rp_body (fst (router_handle demo_router (web_request ''HEAD'' ''/'') ())) = Some (Some (BufferedBody []))"
proof -
  note eq = router_answers_declarations [OF plain_tree_ok enumerates_sorted_order demo_build, of "web_request ''HEAD'' ''/''" "()"]
  have "route_at plain_env (rs_definitions demo_routes) ''HEAD'' ''/'' = None"
    "route_at plain_env (rs_definitions demo_routes) ''GET'' ''/'' = Some (0, [])"
    by (simp_all add: route_at_def declared_tree_def declared_def demo_routes_def plain_env_def list_insert_def list_at_def upt_rec)
  then show ?thesis using eq
    by (simp add: demo_routes_def panic_boundary_def answer_def effective_method_def web_request_def page_def into_head_def
        response_text_def response_new_def insert_header_def header_insert_def Let_def)
qed

definition demo_mount :: "string \<Rightarrow> string \<Rightarrow> ((string \<times> nat) list, string \<times> u16 option, unit, unit) router_mount" where
  "demo_mount name prefix =
     RouterMount \<lparr>ac_name = name, ac_path_prefix = display_prefix prefix, ac_host = None\<rparr> prefix None
       (Router (page name) Map.empty (Single demo_inner))"

lemma demo_multi:
  "\<exists>router. router_multi plain_env sorted_order [demo_mount ''site'' [], demo_mount ''admin'' ''/admin''] = Inr router"
  by (simp add: router_multi_def demo_mount_def Let_def sorted_order_def)

lemma multi_selects_most_specific_witness:
  "select_mount plain_env [demo_mount ''site'' [], demo_mount ''admin'' ''/admin''] (web_request ''GET'' ''/admin/users'')
     = Some (demo_mount ''admin'' ''/admin'')" (is "select_mount _ ?mounts ?request = Some ?admin")
proof -
  obtain router where multi: "router_multi plain_env sorted_order ?mounts = Inr router" using demo_multi by blast
  have canonical: "authorities_canonical plain_env (\<Union>m \<in> set ?mounts. set_option (mt_authority m))"
    by (simp add: authorities_canonical_def demo_mount_def)
  have "mount_accepts plain_env ?request ?admin"
    by (simp add: mount_accepts_def demo_mount_def web_request_def prefix_matches_def)
  moreover have "mount_key plain_env (demo_mount ''site'' []) < mount_key plain_env ?admin"
    by (simp add: mount_key_def demo_mount_def)
  ultimately show ?thesis
    using multi_selects_most_specific [OF multi canonical, THEN conjunct1, THEN spec, of ?request ?admin] by auto
qed

text \<open>A value with a slash and a percent sign stays one segment.\<close>

lemma url_round_trip_witness:
  "\<exists>seg. router_url plain_env demo_router ''users.show'' [(''id'', ''a/b%'')] = Inr (''/users/'' @ seg) \<and> decode_path_parameter plain_env seg = Some ''a/b%''"
proof -
  have valid: "list_all (\<lambda>(key, v). utf8_valid v) [(''id'', ''a/b%'')]" by (simp add: byte_in_def)
  have "pattern_segments ''/users/{id}'' = [''users'', ''{id}'']" by (simp add: pattern_segments_def)
  moreover have "segment_parameter ''users'' = None" "segment_parameter ''{id}'' = Some ''id''" by (simp_all add: segment_parameter_def)
  ultimately show ?thesis
    using url_round_trip [OF plain_percent_ok valid, of demo_router "''users.show''"]
    by (auto simp: demo_names list_all2_Cons1 segment_fits_def)
qed

end
