(* ===== verification/Auth.thy ===== *)
theory Auth
  imports Http_Core
begin

text \<open>
  Roles and authorization (\<open>phoenix-auth\<close>, \<open>lib.rs\<close>): role declarations, the role graph with its
  inheritance resolved once, and the engine that combines role grants with attribute
  policies. A permission is its validated text. The order in which hash tables are walked is
  an argument: \<open>kord\<close> for the declarations, \<open>pord\<close> for the parents of a role. The attributes of a
  principal are JSON values, the type \<open>'v\<close>; a resource is of type \<open>'r\<close>.
\<close>

section \<open>Data\<close>

datatype rbac_error =
    InvalidRole string
  | InvalidPermission string
  | DuplicateRole string
  | UnknownRole string
  | InheritanceCycle string

record role =
  role_name :: string
  role_permissions :: "string set"
  role_parents :: "string set"

record 'v principal =
  pr_subject :: string
  pr_roles :: "string set"
  pr_permissions :: "string set"
  pr_denied :: "string set"
  pr_attributes :: "string \<rightharpoonup> 'v"

definition valid_name :: "string \<Rightarrow> bool" where
  "valid_name s \<longleftrightarrow> s \<noteq> [] \<and>
     list_all (\<lambda>c. is_ascii_alphabetic c \<or> is_ascii_digit c \<or> c \<in> {CHR ''.'', CHR '':'', CHR ''_'', CHR ''-''}) s"

definition permission_new :: "string \<Rightarrow> rbac_error + string" where
  "permission_new s = (if valid_name s then Inr s else Inl (InvalidPermission s))"

definition role_new :: "string \<Rightarrow> rbac_error + role" where
  "role_new name =
     (if valid_name name then Inr \<lparr>role_name = name, role_permissions = {}, role_parents = {}\<rparr> else Inl (InvalidRole name))"

definition role_allow :: "string \<Rightarrow> role \<Rightarrow> rbac_error + role" where
  "role_allow permission role =
     res_bind (permission_new permission) (\<lambda>p. Inr (role\<lparr>role_permissions := insert p (role_permissions role)\<rparr>))"

definition role_inherits :: "string \<Rightarrow> role \<Rightarrow> rbac_error + role" where
  "role_inherits parent role =
     (if valid_name parent then Inr (role\<lparr>role_parents := insert parent (role_parents role)\<rparr>) else Inl (InvalidRole parent))"

definition principal_new :: "string \<Rightarrow> 'v principal" where
  "principal_new subject =
     \<lparr>pr_subject = subject, pr_roles = {}, pr_permissions = {}, pr_denied = {}, pr_attributes = Map.empty\<rparr>"

definition principal_role :: "string \<Rightarrow> 'v principal \<Rightarrow> 'v principal" where
  "principal_role role p = p\<lparr>pr_roles := insert role (pr_roles p)\<rparr>"

definition principal_allow :: "string \<Rightarrow> 'v principal \<Rightarrow> rbac_error + 'v principal" where
  "principal_allow permission p =
     res_bind (permission_new permission) (\<lambda>q. Inr (p\<lparr>pr_permissions := insert q (pr_permissions p)\<rparr>))"

definition principal_deny :: "string \<Rightarrow> 'v principal \<Rightarrow> rbac_error + 'v principal" where
  "principal_deny permission p =
     res_bind (permission_new permission) (\<lambda>q. Inr (p\<lparr>pr_denied := insert q (pr_denied p)\<rparr>))"

definition principal_attribute :: "string \<Rightarrow> 'v \<Rightarrow> 'v principal \<Rightarrow> 'v principal" where
  "principal_attribute name v p = p\<lparr>pr_attributes := (pr_attributes p)(name \<mapsto> v)\<rparr>"

section \<open>The role graph\<close>

type_synonym declarations = "(string \<times> role) list"
type_synonym expanded_roles = "string \<rightharpoonup> string set"

text \<open>The first loop of \<open>Rbac::build\<close>: the table of declarations, as the list of its entries.\<close>

fun collect_roles :: "role list \<Rightarrow> declarations \<Rightarrow> rbac_error + declarations" where
  "collect_roles [] decls = Inr decls"
| "collect_roles (role # roles) decls =
     (if role_name role \<in> fst ` set decls then Inl (DuplicateRole (role_name role))
      else collect_roles roles ((role_name role, role) # decls))"

text \<open>
  \<open>resolve_role\<close> with its loop over the parents. A role leaves \<open>visiting\<close> again when it is
  resolved, and an error ends the build, so the set is passed down by value.
\<close>

function (sequential) resolve_role :: "(string set \<Rightarrow> string list) \<Rightarrow> declarations \<Rightarrow> string \<Rightarrow> expanded_roles \<Rightarrow> string set \<Rightarrow>
    rbac_error + (string set \<times> expanded_roles)"
  and resolve_parents :: "(string set \<Rightarrow> string list) \<Rightarrow> declarations \<Rightarrow> string list \<Rightarrow> string set \<Rightarrow> expanded_roles \<Rightarrow> string set \<Rightarrow>
    rbac_error + (string set \<times> expanded_roles)" where
  "resolve_role pord decls name expanded visiting =
     (case expanded name of
        Some permissions \<Rightarrow> Inr (permissions, expanded)
      | None \<Rightarrow>
          if name \<in> visiting then Inl (InheritanceCycle name)
          else (case map_of decls name of
                  None \<Rightarrow> Inl (UnknownRole name)
                | Some role \<Rightarrow>
                    (case resolve_parents pord decls (pord (role_parents role)) (role_permissions role) expanded (insert name visiting) of
                       Inl e \<Rightarrow> Inl e
                     | Inr (permissions, expanded) \<Rightarrow> Inr (permissions, expanded(name \<mapsto> permissions)))))"
| "resolve_parents pord decls [] permissions expanded visiting = Inr (permissions, expanded)"
| "resolve_parents pord decls (parent # parents) permissions expanded visiting =
     (if map_of decls parent = None then Inl (UnknownRole parent)
      else (case resolve_role pord decls parent expanded visiting of
              Inl e \<Rightarrow> Inl e
            | Inr (inherited, expanded) \<Rightarrow> resolve_parents pord decls parents (permissions \<union> inherited) expanded visiting))"
  by pat_completeness auto
termination
proof (relation "measures [\<lambda>x. case x of Inl (_, decls, _, _, visiting) \<Rightarrow> card (dom (map_of decls) - visiting)
      | Inr (_, decls, _, _, _, visiting) \<Rightarrow> card (dom (map_of decls) - visiting),
    \<lambda>x. case x of Inl _ \<Rightarrow> 0 | Inr (_, _, parents, _, _, _) \<Rightarrow> Suc (length parents)]", goal_cases)
  case (2 pord decls name expanded visiting role)
  then have "name \<in> dom (map_of decls) - visiting" by auto
  then have "card (dom (map_of decls) - insert name visiting) < card (dom (map_of decls) - visiting)"
    by (intro psubset_card_mono) (auto simp: finite_dom_map_of)
  then show ?case by simp
qed simp_all

fun resolve_all :: "(string set \<Rightarrow> string list) \<Rightarrow> declarations \<Rightarrow> string list \<Rightarrow> expanded_roles \<Rightarrow> rbac_error + expanded_roles" where
  "resolve_all pord decls [] expanded = Inr expanded"
| "resolve_all pord decls (name # names) expanded =
     (case resolve_role pord decls name expanded {} of
        Inl e \<Rightarrow> Inl e
      | Inr (_, expanded) \<Rightarrow> resolve_all pord decls names expanded)"

definition rbac_build :: "((string \<rightharpoonup> role) \<Rightarrow> string list) \<Rightarrow> (string set \<Rightarrow> string list) \<Rightarrow> role list \<Rightarrow> rbac_error + expanded_roles" where
  "rbac_build kord pord roles =
     res_bind (collect_roles roles []) (\<lambda>decls. resolve_all pord decls (kord (map_of decls)) Map.empty)"

section \<open>Decisions\<close>

datatype authorization_decision = Allow | Deny | Abstain

datatype audit_reason = ExplicitDeny | Allowed | NoApplicableRule

record audit_event =
  ae_subject :: string
  ae_permission :: string
  ae_decision :: authorization_decision
  ae_reason :: audit_reason

datatype authorization_error = Denied

text \<open>A policy reads the principal, the permission and the resource.\<close>

type_synonym ('v, 'r) abac_policy = "'v principal \<Rightarrow> string \<Rightarrow> 'r \<Rightarrow> authorization_decision"

record ('v, 'r) authorization_engine =
  eng_rbac :: expanded_roles
  eng_policies :: "('v, 'r) abac_policy list"

definition rbac_evaluate :: "expanded_roles \<Rightarrow> 'v principal \<Rightarrow> string \<Rightarrow> authorization_decision" where
  "rbac_evaluate expanded p permission =
     (if permission \<in> pr_denied p then Deny
      else if permission \<in> pr_permissions p \<or>
        (\<exists>role \<in> pr_roles p. case expanded role of None \<Rightarrow> False | Some permissions \<Rightarrow> permission \<in> permissions)
      then Allow else Abstain)"

definition engine_new :: "expanded_roles \<Rightarrow> ('v, 'r) authorization_engine" where
  "engine_new rbac = \<lparr>eng_rbac = rbac, eng_policies = []\<rparr>"

definition engine_policy :: "('v, 'r) abac_policy \<Rightarrow> ('v, 'r) authorization_engine \<Rightarrow> ('v, 'r) authorization_engine" where
  "engine_policy policy e = e\<lparr>eng_policies := eng_policies e @ [policy]\<rparr>"

definition record_decision :: "'v principal \<Rightarrow> string \<Rightarrow> authorization_decision \<Rightarrow> audit_reason \<Rightarrow> audit_event list \<Rightarrow> audit_event list" where
  "record_decision p permission decision reason log =
     log @ [\<lparr>ae_subject = pr_subject p, ae_permission = permission, ae_decision = decision, ae_reason = reason\<rparr>]"

text \<open>The loop over the policies: \<open>None\<close> when one denies, otherwise whether anything allows.\<close>

fun run_policies :: "('v, 'r) abac_policy list \<Rightarrow> 'v principal \<Rightarrow> string \<Rightarrow> 'r \<Rightarrow> bool \<Rightarrow> bool option" where
  "run_policies [] p permission resource allowed = Some allowed"
| "run_policies (policy # policies) p permission resource allowed =
     (case policy p permission resource of
        Deny \<Rightarrow> None
      | Allow \<Rightarrow> run_policies policies p permission resource True
      | Abstain \<Rightarrow> run_policies policies p permission resource allowed)"

text \<open>What the audit was given is the log.\<close>

definition authorize :: "('v, 'r) authorization_engine \<Rightarrow> 'v principal \<Rightarrow> string \<Rightarrow> 'r \<Rightarrow> audit_event list \<Rightarrow>
    (authorization_error + unit) \<times> audit_event list" where
  "authorize e p permission resource log =
     (let decision = rbac_evaluate (eng_rbac e) p permission
      in if decision = Deny then (Inl Denied, record_decision p permission Deny ExplicitDeny log)
         else case run_policies (eng_policies e) p permission resource (decision = Allow) of
                None \<Rightarrow> (Inl Denied, record_decision p permission Deny ExplicitDeny log)
              | Some True \<Rightarrow> (Inr (), record_decision p permission Allow Allowed log)
              | Some False \<Rightarrow> (Inl Denied, record_decision p permission Deny NoApplicableRule log))"

definition unauthorized :: "('x, 'w) response" where
  "unauthorized = insert_header ''www-authenticate'' ''Bearer'' (status_text 401 ''Unauthorized'')"

text \<open>
  The middleware \<open>RequirePermission\<close>. The principal is read from the extensions of the request
  by \<open>current\<close>; the audit log is a part of the state, read by \<open>log\<close> and written by \<open>put_log\<close>.
\<close>

definition require_permission :: "(('a, 'x) request \<Rightarrow> 'v principal option) \<Rightarrow> ('w \<Rightarrow> audit_event list) \<Rightarrow> (audit_event list \<Rightarrow> 'w \<Rightarrow> 'w) \<Rightarrow>
    ('v, unit) authorization_engine \<Rightarrow> string \<Rightarrow> ('a, 'x, 'w) middleware" where
  "require_permission current log put_log e permission request next_handler w =
     (case current request of
        None \<Rightarrow> (Some unauthorized, w)
      | Some p \<Rightarrow>
          (case authorize e p permission () (log w) of
             (Inl _, entries) \<Rightarrow> (Some (status_text 403 ''Forbidden''), put_log entries w)
           | (Inr _, entries) \<Rightarrow> next_handler request (put_log entries w)))"

end
