(* ===== verification/Auth_Props.thy ===== *)
theory Auth_Props
  imports Auth
begin

text \<open>
  The role graph and the engine are right: \<open>build\<close> accepts exactly the declarations that form an
  acyclic graph over declared roles, and gives each role the permissions of everything it
  inherits; the engine lets a request through exactly when something grants it and nothing
  denies it, and audits every decision once.
\<close>

declare resolve_role.simps [simp del]

section \<open>Inheritance\<close>

definition inherits :: "declarations \<Rightarrow> (string \<times> string) set" where
  "inherits decls = {(n, p). \<exists>role. map_of decls n = Some role \<and> p \<in> role_parents role}"

definition granted :: "declarations \<Rightarrow> string \<Rightarrow> string set" where
  "granted decls n = {q. \<exists>m role. (n, m) \<in> (inherits decls)\<^sup>* \<and> map_of decls m = Some role \<and> q \<in> role_permissions role}"

definition set_order_ok :: "(string set \<Rightarrow> string list) \<Rightarrow> bool" where
  "set_order_ok pord \<longleftrightarrow> (\<forall>S. finite S \<longrightarrow> set (pord S) = S)"

definition parents_finite :: "declarations \<Rightarrow> bool" where
  "parents_finite decls \<longleftrightarrow> (\<forall>n role. map_of decls n = Some role \<longrightarrow> finite (role_parents role))"

lemma granted_unfold:
  assumes "map_of decls n = Some role"
  shows "granted decls n = role_permissions role \<union> (\<Union>p \<in> role_parents role. granted decls p)"
proof -
  have step: "(n, p) \<in> inherits decls \<longleftrightarrow> p \<in> role_parents role" for p using assms by (simp add: inherits_def)
  have star: "(n, m) \<in> (inherits decls)\<^sup>* \<longleftrightarrow> m = n \<or> (\<exists>p \<in> role_parents role. (p, m) \<in> (inherits decls)\<^sup>*)" for m
    using step by (metis converse_rtranclE converse_rtrancl_into_rtrancl rtrancl.rtrancl_refl)
  show ?thesis unfolding granted_def star using assms by auto
qed

text \<open>The roles resolved so far: closed under parents, free of cycles, with what they are granted.\<close>

definition expanded_ok :: "declarations \<Rightarrow> expanded_roles \<Rightarrow> bool" where
  "expanded_ok decls ex \<longleftrightarrow>
     (\<forall>n ps. ex n = Some ps \<longrightarrow> map_of decls n \<noteq> None \<and> ps = granted decls n
        \<and> (\<forall>p. (n, p) \<in> inherits decls \<longrightarrow> p \<in> dom ex) \<and> (n, n) \<notin> (inherits decls)\<^sup>+)"

fun justified :: "declarations \<Rightarrow> rbac_error \<Rightarrow> bool" where
  "justified decls (UnknownRole n) \<longleftrightarrow> map_of decls n = None \<and> (\<exists>m. (m, n) \<in> inherits decls)"
| "justified decls (InheritanceCycle n) \<longleftrightarrow> (n, n) \<in> (inherits decls)\<^sup>+"
| "justified decls _ \<longleftrightarrow> False"

lemma expanded_closed:
  assumes "expanded_ok decls ex" and "(n, m) \<in> (inherits decls)\<^sup>*" and "n \<in> dom ex"
  shows "m \<in> dom ex"
  using assms(2,3)
proof (induction rule: rtrancl_induct)
  case (step y z)
  then show ?case using assms(1) unfolding expanded_ok_def by blast
qed

lemma expanded_ok_insert:
  assumes "expanded_ok decls ex" and "map_of decls n = Some role" and "n \<notin> dom ex" and "role_parents role \<subseteq> dom ex"
  shows "expanded_ok decls (ex(n \<mapsto> granted decls n))"
proof -
  have parents: "(n, p) \<in> inherits decls \<Longrightarrow> p \<in> dom ex" for p using assms(2,4) by (auto simp: inherits_def)
  have "(n, n) \<notin> (inherits decls)\<^sup>+"
    using parents expanded_closed [OF assms(1)] assms(3) by (meson tranclD)
  then show ?thesis using assms(1,2) parents unfolding expanded_ok_def by (auto split: if_splits)
qed

definition resolves :: "declarations \<Rightarrow> expanded_roles \<Rightarrow> string set \<Rightarrow> rbac_error + (string set \<times> expanded_roles) \<Rightarrow>
    (string set \<Rightarrow> expanded_roles \<Rightarrow> bool) \<Rightarrow> bool" where
  "resolves decls ex V result Q \<longleftrightarrow>
     (case result of
        Inl e \<Rightarrow> justified decls e
      | Inr (ps, ex') \<Rightarrow> expanded_ok decls ex' \<and> ex \<subseteq>\<^sub>m ex' \<and> V \<inter> dom ex' = {} \<and> Q ps ex')"

lemma resolves_Inr: "resolves decls ex V (Inr (ps, ex')) Q \<longleftrightarrow> expanded_ok decls ex' \<and> ex \<subseteq>\<^sub>m ex' \<and> V \<inter> dom ex' = {} \<and> Q ps ex'"
  and resolves_Inl: "resolves decls ex V (Inl e) Q \<longleftrightarrow> justified decls e"
  by (simp_all add: resolves_def)

lemma resolve_correct:
  "set_order_ok pord \<Longrightarrow> parents_finite decls \<Longrightarrow> expanded_ok decls ex \<Longrightarrow> map_of decls n \<noteq> None \<Longrightarrow>
     \<forall>v \<in> V. (v, n) \<in> (inherits decls)\<^sup>+ \<Longrightarrow> V \<inter> dom ex = {} \<Longrightarrow>
     resolves decls ex V (resolve_role pord decls n ex V) (\<lambda>ps ex'. ex' n = Some ps)"
  "set_order_ok pord \<Longrightarrow> parents_finite decls \<Longrightarrow> expanded_ok decls ex \<Longrightarrow>
     \<forall>p \<in> set parents. (\<exists>m. (m, p) \<in> inherits decls) \<and> (\<forall>v \<in> V. (v, p) \<in> (inherits decls)\<^sup>+) \<Longrightarrow> V \<inter> dom ex = {} \<Longrightarrow>
     resolves decls ex V (resolve_parents pord decls parents qs ex V)
       (\<lambda>ps ex'. set parents \<subseteq> dom ex' \<and> ps = qs \<union> (\<Union>p \<in> set parents. granted decls p))"
proof (induction pord decls n ex V and pord decls parents qs ex V rule: resolve_role_resolve_parents.induct)
  case (1 pord decls n ex V)
  show ?case
  proof (cases "ex n \<noteq> None \<or> n \<in> V")
    case True
    then show ?thesis using 1(4,6,7)
      by (auto simp: resolve_role.simps [of pord decls n] resolves_def split: option.splits)
  next
    case False
    then obtain role where role: "map_of decls n = Some role" using 1(5) by auto
    then have parents: "set (pord (role_parents role)) = role_parents role" and inh: "p \<in> role_parents role \<longleftrightarrow> (n, p) \<in> inherits decls" for p
      using 1(2,3) by (simp_all add: set_order_ok_def parents_finite_def inherits_def)
    have reach: "\<forall>p \<in> set (pord (role_parents role)). (\<exists>m. (m, p) \<in> inherits decls) \<and> (\<forall>v \<in> insert n V. (v, p) \<in> (inherits decls)\<^sup>+)"
      unfolding parents
    proof
      fix p
      assume "p \<in> role_parents role"
      then have "(n, p) \<in> inherits decls" by (simp only: inh)
      then show "(\<exists>m. (m, p) \<in> inherits decls) \<and> (\<forall>v \<in> insert n V. (v, p) \<in> (inherits decls)\<^sup>+)"
        using 1(6) by (blast intro: trancl_into_trancl)
    qed
    have ih: "resolves decls ex (insert n V) (resolve_parents pord decls (pord (role_parents role)) (role_permissions role) ex (insert n V))
        (\<lambda>ps ex'. set (pord (role_parents role)) \<subseteq> dom ex' \<and> ps = role_permissions role \<union> (\<Union>p \<in> set (pord (role_parents role)). granted decls p))"
      by (rule 1(1)) (use 1(2-4,7) False role reach in auto)
    show ?thesis
    proof (cases "resolve_parents pord decls (pord (role_parents role)) (role_permissions role) ex (insert n V)")
      case (Inl e)
      then show ?thesis using ih False role by (simp add: resolve_role.simps [of pord decls n] resolves_Inl)
    next
      case (Inr r)
      obtain ps ex' where r: "r = (ps, ex')" by fastforce
      have ex': "expanded_ok decls ex'" "ex \<subseteq>\<^sub>m ex'" "insert n V \<inter> dom ex' = {}" "role_parents role \<subseteq> dom ex'" "ps = granted decls n"
        using ih unfolding Inr r resolves_Inr parents granted_unfold [OF role] by auto
      have "expanded_ok decls (ex'(n \<mapsto> ps))"
        unfolding ex'(5) by (rule expanded_ok_insert [OF ex'(1) role _ ex'(4)]) (use ex'(3) in auto)
      moreover have "ex \<subseteq>\<^sub>m ex'(n \<mapsto> ps)" using ex'(2) False by (auto simp: map_le_def)
      ultimately show ?thesis
        using Inr r False role ex'(3) by (auto simp: resolve_role.simps [of pord decls n] resolves_Inr)
    qed
  qed
next
  case (2 pord decls qs ex V)
  then show ?case by (simp add: resolves_Inr)
next
  case (3 pord decls p parents qs ex V)
  show ?case
  proof (cases "map_of decls p = None")
    case True
    then show ?thesis using 3(6) by (auto simp: resolves_Inl)
  next
    case False
    have ih1: "resolves decls ex V (resolve_role pord decls p ex V) (\<lambda>ps ex'. ex' p = Some ps)"
      by (rule 3(1)) (use 3(3-7) False in auto)
    show ?thesis
    proof (cases "resolve_role pord decls p ex V")
      case (Inl e)
      then show ?thesis using ih1 False by (auto simp: resolves_Inl)
    next
      case (Inr r)
      obtain ps ex1 where r: "r = (ps, ex1)" by fastforce
      have ex1: "expanded_ok decls ex1" "ex \<subseteq>\<^sub>m ex1" "V \<inter> dom ex1 = {}" "ex1 p = Some ps"
        using ih1 unfolding Inr r resolves_Inr by auto
      then have ps: "ps = granted decls p" by (simp add: expanded_ok_def)
      have ih2: "resolves decls ex1 V (resolve_parents pord decls parents (qs \<union> ps) ex1 V)
          (\<lambda>qs' ex'. set parents \<subseteq> dom ex' \<and> qs' = qs \<union> ps \<union> (\<Union>p \<in> set parents. granted decls p))"
        by (rule 3(2) [OF False Inr]) (use 3(3,4,6) r ex1 in auto)
      have "p \<in> dom ex'" if "ex1 \<subseteq>\<^sub>m ex'" for ex' using ex1(4) that by (auto simp: map_le_def dom_def)
      then show ?thesis
        using ih2 False Inr r ps map_le_trans [OF ex1(2)]
        by (cases "resolve_parents pord decls parents (qs \<union> ps) ex1 V") (auto simp: resolves_def)
    qed
  qed
qed

lemma resolve_all_correct:
  assumes "set_order_ok pord" and "parents_finite decls" and "expanded_ok decls ex" and "set names \<subseteq> dom (map_of decls)"
  shows "case resolve_all pord decls names ex of
      Inl e \<Rightarrow> justified decls e
    | Inr ex' \<Rightarrow> expanded_ok decls ex' \<and> dom ex \<union> set names \<subseteq> dom ex'"
  using assms(3,4)
proof (induction names arbitrary: ex)
  case (Cons n names)
  have r: "resolves decls ex {} (resolve_role pord decls n ex {}) (\<lambda>ps ex'. ex' n = Some ps)"
    by (rule resolve_correct(1)) (use assms(1,2) Cons.prems in auto)
  show ?case
  proof (cases "resolve_role pord decls n ex {}")
    case (Inl e)
    then show ?thesis using r by (simp add: resolves_Inl)
  next
    case (Inr x)
    obtain ps ex1 where x: "x = (ps, ex1)" by fastforce
    have ex1: "expanded_ok decls ex1" "ex \<subseteq>\<^sub>m ex1" "ex1 n = Some ps" using r unfolding Inr x resolves_Inr by auto
    have "dom ex \<subseteq> dom ex1" using ex1(2) by (rule map_le_implies_dom_le)
    moreover have "n \<in> dom ex1" using ex1(3) by blast
    ultimately show ?thesis using Cons.IH [OF ex1(1)] Cons.prems(2) Inr x
      by (cases "resolve_all pord decls names ex1") (simp_all, blast)
  qed
qed simp

section \<open>Building\<close>

definition role_table :: "role list \<Rightarrow> declarations" where
  "role_table roles = rev (map (\<lambda>role. (role_name role, role)) roles)"

lemma collect_roles_spec:
  "distinct (map fst acc) \<Longrightarrow>
   collect_roles roles acc =
     (if distinct (map role_name roles @ map fst acc) then Inr (role_table roles @ acc)
      else collect_roles roles acc)
   \<and> (\<not> distinct (map role_name roles @ map fst acc) \<longrightarrow> (\<exists>n. collect_roles roles acc = Inl (DuplicateRole n)))"
proof (induction roles arbitrary: acc)
  case (Cons role roles)
  show ?case
  proof (cases "role_name role \<in> fst ` set acc")
    case False
    then have acc: "distinct (map fst ((role_name role, role) # acc))" using Cons.prems by simp
    have "distinct (map role_name (role # roles) @ map fst acc) \<longleftrightarrow> distinct (map role_name roles @ map fst ((role_name role, role) # acc))"
      by auto
    then show ?thesis using Cons.IH [OF acc] False by (auto simp: role_table_def split: if_splits)
  qed auto
qed (simp add: role_table_def)

lemma collect_roles_Inl:
  "collect_roles roles acc = Inl e \<Longrightarrow>
   \<exists>earlier role later. roles = earlier @ role # later \<and> e = DuplicateRole (role_name role)
     \<and> role_name role \<in> fst ` set acc \<union> role_name ` set earlier
     \<and> (distinct (map fst acc) \<longrightarrow> distinct (map role_name earlier @ map fst acc))"
proof (induction roles arbitrary: acc)
  case (Cons role roles)
  show ?case
  proof (cases "role_name role \<in> fst ` set acc")
    case True
    then show ?thesis using Cons.prems by (intro exI [of _ "[]"] exI [of _ role] exI [of _ roles]) auto
  next
    case False
    then obtain earlier r later where "roles = earlier @ r # later" "e = DuplicateRole (role_name r)"
        "role_name r \<in> insert (role_name role) (fst ` set acc) \<union> role_name ` set earlier"
        "distinct (map fst acc) \<longrightarrow> distinct (map role_name earlier @ role_name role # map fst acc)"
      using Cons.IH [of "(role_name role, role) # acc"] Cons.prems by auto
    then show ?thesis by (intro exI [of _ "role # earlier"] exI [of _ r] exI [of _ later]) auto
  qed
qed simp

text \<open>The first name that is declared again.\<close>

definition declared_again :: "role list \<Rightarrow> string \<Rightarrow> bool" where
  "declared_again roles n \<longleftrightarrow>
     (\<exists>earlier role later. roles = earlier @ role # later \<and> role_name role = n
        \<and> n \<in> role_name ` set earlier \<and> distinct (map role_name earlier))"

lemma expanded_ok_empty: "expanded_ok decls Map.empty"
  by (simp add: expanded_ok_def)

lemma role_table_entry:
  assumes "distinct (map role_name roles)"
  shows "map_of (role_table roles) n = Some role \<longleftrightarrow> role \<in> set roles \<and> role_name role = n"
    and "dom (map_of (role_table roles)) = role_name ` set roles"
proof -
  have "distinct (map fst (role_table roles))" using assms by (simp add: role_table_def comp_def flip: rev_map)
  then show "map_of (role_table roles) n = Some role \<longleftrightarrow> role \<in> set roles \<and> role_name role = n"
    by (auto simp: map_of_eq_Some_iff) (auto simp: role_table_def)
  show "dom (map_of (role_table roles)) = role_name ` set roles"
    by (simp add: role_table_def dom_map_of_conv_image_fst image_comp comp_def)
qed

lemma rbac_build_run:
  assumes "enumerates kord" and "set_order_ok pord" and "list_all (\<lambda>role. finite (role_parents role)) roles"
    and "distinct (map role_name roles)"
  shows "case rbac_build kord pord roles of
      Inl e \<Rightarrow> justified (role_table roles) e
    | Inr ex \<Rightarrow> expanded_ok (role_table roles) ex \<and> dom ex = role_name ` set roles"
proof -
  let ?t = "role_table roles"
  note entry = role_table_entry [OF assms(4)]
  have fin: "parents_finite ?t" using assms(3) by (simp add: parents_finite_def entry list_all_iff)
  have keys: "set (kord (map_of ?t)) = dom (map_of ?t)" by (rule enumerates_set [OF assms(1)]) simp
  have build: "rbac_build kord pord roles = resolve_all pord ?t (kord (map_of ?t)) Map.empty"
    using collect_roles_spec [of "[]" roles] assms(4) by (simp add: rbac_build_def)
  show ?thesis
  proof (cases "resolve_all pord ?t (kord (map_of ?t)) Map.empty")
    case (Inl e)
    then show ?thesis using resolve_all_correct [OF assms(2) fin expanded_ok_empty, of "kord (map_of ?t)"] by (simp add: build keys)
  next
    case (Inr ex)
    then have ok: "expanded_ok ?t ex" and "dom (map_of ?t) \<subseteq> dom ex"
      using resolve_all_correct [OF assms(2) fin expanded_ok_empty, of "kord (map_of ?t)"] by (simp_all add: keys)
    moreover have "dom ex \<subseteq> dom (map_of ?t)" using ok unfolding expanded_ok_def by blast
    ultimately show ?thesis using Inr by (simp add: build entry(2))
  qed
qed

lemma rbac_build_Inr:
  assumes "enumerates kord" and "set_order_ok pord" and "list_all (\<lambda>role. finite (role_parents role)) roles"
    and "rbac_build kord pord roles = Inr ex"
  shows "distinct (map role_name roles)" and "expanded_ok (role_table roles) ex"
    and "ex n = (if n \<in> role_name ` set roles then Some (granted (role_table roles) n) else None)"
proof -
  show dist: "distinct (map role_name roles)"
    using collect_roles_spec [of "[]" roles] assms(4) by (auto simp: rbac_build_def)
  show ok: "expanded_ok (role_table roles) ex" using rbac_build_run [OF assms(1-3) dist] assms(4) by simp
  have "dom ex = role_name ` set roles" using rbac_build_run [OF assms(1-3) dist] assms(4) by simp
  then show "ex n = (if n \<in> role_name ` set roles then Some (granted (role_table roles) n) else None)"
    using ok unfolding expanded_ok_def by (metis domD domIff)
qed

text \<open>
  C16: \<open>Rbac::build\<close> accepts exactly the declarations with distinct names, declared parents and no
  inheritance cycle, and then gives every declared role the permissions of all the roles it
  inherits, through any number of steps, and nothing else. Every error names a fault: a
  reported duplicate is the first name that is declared again, a reported unknown role is a parent nobody declares, and a
  role reported for a cycle does inherit from itself. It always ends.
\<close>
theorem rbac_build_exact:
  assumes "enumerates kord" and "set_order_ok pord" and "list_all (\<lambda>role. finite (role_parents role)) roles"
  shows "case rbac_build kord pord roles of
      Inr ex \<Rightarrow>
        distinct (map role_name roles) \<and> (\<Union>role \<in> set roles. role_parents role) \<subseteq> role_name ` set roles
        \<and> acyclic (inherits (role_table roles))
        \<and> (\<forall>n. ex n = (if n \<in> role_name ` set roles then Some (granted (role_table roles) n) else None))
    | Inl (DuplicateRole n) \<Rightarrow> declared_again roles n
    | Inl e \<Rightarrow> distinct (map role_name roles) \<and> justified (role_table roles) e"
proof (cases "rbac_build kord pord roles")
  case (Inl e)
  show ?thesis
  proof (cases "distinct (map role_name roles)")
    case True
    then have "justified (role_table roles) e" using rbac_build_run [OF assms] Inl by simp
    then show ?thesis using Inl True by (cases e) simp_all
  next
    case False
    then obtain n where n: "collect_roles roles [] = Inl (DuplicateRole n)" using collect_roles_spec [of "[]" roles] by auto
    then have "declared_again roles n" using collect_roles_Inl [OF n] unfolding declared_again_def by auto
    then show ?thesis using n by (simp add: rbac_build_def)
  qed
next
  case (Inr ex)
  let ?t = "role_table roles"
  note ex = rbac_build_Inr [OF assms Inr]
  note entry = role_table_entry [OF ex(1)]
  have known: "n \<in> dom ex" if "n \<in> dom (map_of ?t)" for n using that ex(3) [of n] by (auto simp: entry(2) split: if_splits)
  have "p \<in> role_name ` set roles" if role: "role \<in> set roles" "p \<in> role_parents role" for p role
  proof -
    have "(role_name role, p) \<in> inherits ?t" using role by (auto simp: inherits_def entry(1))
    moreover obtain ps where "ex (role_name role) = Some ps" using ex(3) [of "role_name role"] role(1) by simp
    ultimately have "p \<in> dom ex" using ex(2) unfolding expanded_ok_def by blast
    then show ?thesis using ex(3) [of p] by (auto split: if_splits)
  qed
  then have "(\<Union>role \<in> set roles. role_parents role) \<subseteq> role_name ` set roles" by blast
  moreover have "(n, n) \<notin> (inherits ?t)\<^sup>+" for n
  proof
    assume cyc: "(n, n) \<in> (inherits ?t)\<^sup>+"
    then obtain m where "(n, m) \<in> inherits ?t" by (meson tranclD)
    then obtain ps where "ex n = Some ps" using known [of n] by (auto simp: inherits_def)
    then show False using ex(2) cyc by (simp add: expanded_ok_def)
  qed
  ultimately show ?thesis using Inr ex(1,3) by (simp add: acyclic_def)
qed

section \<open>Decisions\<close>

lemma run_policies_spec:
  "run_policies policies p permission resource allowed =
     (if \<exists>policy \<in> set policies. policy p permission resource = Deny then None
      else Some (allowed \<or> (\<exists>policy \<in> set policies. policy p permission resource = Allow)))"
  by (induction policies arbitrary: allowed) (auto split: authorization_decision.splits)

definition denies :: "('v, 'r) abac_policy list \<Rightarrow> 'v principal \<Rightarrow> string \<Rightarrow> 'r \<Rightarrow> bool" where
  "denies policies p permission resource \<longleftrightarrow>
     permission \<in> pr_denied p \<or> (\<exists>policy \<in> set policies. policy p permission resource = Deny)"

text \<open>What the roles of the principal grant, through any number of inheritance steps.\<close>

definition role_grants :: "role list \<Rightarrow> 'v principal \<Rightarrow> string \<Rightarrow> bool" where
  "role_grants roles p permission \<longleftrightarrow>
     (\<exists>name \<in> pr_roles p \<inter> role_name ` set roles. permission \<in> granted (role_table roles) name)"

definition grants :: "role list \<Rightarrow> ('v, 'r) abac_policy list \<Rightarrow> 'v principal \<Rightarrow> string \<Rightarrow> 'r \<Rightarrow> bool" where
  "grants roles policies p permission resource \<longleftrightarrow>
     permission \<in> pr_permissions p \<or> role_grants roles p permission
     \<or> (\<exists>policy \<in> set policies. policy p permission resource = Allow)"

lemma engine_fields:
  "eng_rbac (fold engine_policy ps e) = eng_rbac e" "eng_policies (fold engine_policy ps e) = eng_policies e @ ps"
  by (induction ps arbitrary: e) (simp_all add: engine_policy_def)

text \<open>
  C17: An engine over a built role graph decides by deny-overrides with default deny: it lets a
  principal through exactly when nothing denies the permission, neither a denial of the
  principal nor a policy, and something grants it, the principal itself, a role it has or
  one that role inherits, or a policy. Every decision is audited once, with its reason.
\<close>
theorem authorize_deny_overrides:
  assumes "enumerates kord" and "set_order_ok pord" and "list_all (\<lambda>role. finite (role_parents role)) roles"
    and "rbac_build kord pord roles = Inr rbac"
  shows "authorize (fold engine_policy policies (engine_new rbac)) p permission resource log =
      (let denied = denies policies p permission resource; allowed = \<not> denied \<and> grants roles policies p permission resource
       in (if allowed then Inr () else Inl Denied,
           log @ [\<lparr>ae_subject = pr_subject p, ae_permission = permission, ae_decision = (if allowed then Allow else Deny),
                   ae_reason = (if denied then ExplicitDeny else if allowed then Allowed else NoApplicableRule)\<rparr>]))"
proof -
  have "(case rbac name of None \<Rightarrow> False | Some permissions \<Rightarrow> permission \<in> permissions)
      \<longleftrightarrow> name \<in> role_name ` set roles \<and> permission \<in> granted (role_table roles) name" for name
    using rbac_build_Inr(3) [OF assms, of name] by simp
  then have rbac: "rbac_evaluate rbac p permission = (if permission \<in> pr_denied p then Deny
      else if permission \<in> pr_permissions p \<or> role_grants roles p permission then Allow else Abstain)"
    unfolding rbac_evaluate_def role_grants_def by simp blast
  show ?thesis
    unfolding authorize_def Let_def run_policies_spec engine_fields engine_new_def rbac denies_def grants_def
    by (simp add: record_decision_def rbac)
qed

text \<open>The middleware runs the rest of the chain only for a principal the engine lets through.\<close>

lemma require_permission_guards:
  "require_permission current log put_log e permission request next_handler w =
     (case current request of
        None \<Rightarrow> (Some unauthorized, w)
      | Some p \<Rightarrow>
          (let (decision, entries) = authorize e p permission () (log w)
           in if decision = Inr () then next_handler request (put_log entries w)
              else (Some (status_text 403 ''Forbidden''), put_log entries w)))"
  by (auto simp: require_permission_def split: option.split sum.split prod.split)

section \<open>Examples\<close>

definition sorted_set :: "string set \<Rightarrow> string list" where
  "sorted_set S = sorted_list_of_set S"

lemma sorted_set_ok: "set_order_ok sorted_set"
  by (simp add: set_order_ok_def sorted_set_def)

definition demo_roles :: "role list" where
  "demo_roles =
     [\<lparr>role_name = ''editor'', role_permissions = {''posts.update''}, role_parents = {''viewer''}\<rparr>,
      \<lparr>role_name = ''viewer'', role_permissions = {''posts.view''}, role_parents = {}\<rparr>]"

lemma demo_roles_table:
  "map_of (role_table demo_roles) = [''editor'' \<mapsto> demo_roles ! 0, ''viewer'' \<mapsto> demo_roles ! 1]"
  by (auto simp: role_table_def demo_roles_def)

lemma demo_roles_keys: "sorted_order [''editor'' \<mapsto> a, ''viewer'' \<mapsto> b] = [''editor'', ''viewer'']"
proof -
  have "dom [''editor'' \<mapsto> a, ''viewer'' \<mapsto> b] = {''editor'', ''viewer''}" by auto
  moreover have "(''editor'' :: string) < ''viewer''" by code_simp
  ultimately show ?thesis by (simp add: sorted_order_def)
qed

lemma demo_roles_ok: "list_all (\<lambda>role. finite (role_parents role)) demo_roles"
  by (simp add: demo_roles_def)

lemma demo_roles_build: "\<exists>ex. rbac_build sorted_order sorted_set demo_roles = Inr ex"
proof -
  have "collect_roles demo_roles [] = Inr (role_table demo_roles)" by (simp add: demo_roles_def role_table_def)
  moreover have "role_parents (demo_roles ! 0) = {''viewer''}" "role_parents (demo_roles ! Suc 0) = {}" by (simp_all add: demo_roles_def)
  ultimately show ?thesis
    by (simp add: rbac_build_def demo_roles_table demo_roles_keys resolve_role.simps sorted_set_def)
qed

lemma rbac_build_exact_witness:
  "\<exists>ex. rbac_build sorted_order sorted_set demo_roles = Inr ex \<and> ex ''editor'' = Some (granted (role_table demo_roles) ''editor'')
     \<and> ''posts.view'' \<in> granted (role_table demo_roles) ''editor''"
proof -
  obtain ex where ex: "rbac_build sorted_order sorted_set demo_roles = Inr ex" using demo_roles_build by blast
  have editor: "map_of (role_table demo_roles) ''editor'' = Some (demo_roles ! 0)"
    and viewer: "map_of (role_table demo_roles) ''viewer'' = Some (demo_roles ! 1)" by (simp_all add: demo_roles_table)
  have "''posts.view'' \<in> granted (role_table demo_roles) ''editor''"
    unfolding granted_unfold [OF editor] by (simp add: demo_roles_def granted_unfold [OF viewer [unfolded demo_roles_def]])
  then show ?thesis
    using rbac_build_exact [OF enumerates_sorted_order sorted_set_ok demo_roles_ok] ex by (simp add: demo_roles_def)
qed

definition demo_principal :: "unit principal" where
  "demo_principal = \<lparr>pr_subject = ''ann'', pr_roles = {''editor''}, pr_permissions = {}, pr_denied = {''posts.view''}, pr_attributes = Map.empty\<rparr>"

lemma authorize_deny_overrides_witness:
  "\<exists>ex. rbac_build sorted_order sorted_set demo_roles = Inr ex
     \<and> fst (authorize (fold engine_policy [] (engine_new ex)) demo_principal ''posts.view'' () []) = Inl Denied"
proof -
  obtain ex where ex: "rbac_build sorted_order sorted_set demo_roles = Inr ex" using demo_roles_build by blast
  have "denies ([] :: (unit, unit) abac_policy list) demo_principal ''posts.view'' ()" by (simp add: denies_def demo_principal_def)
  then show ?thesis
    using authorize_deny_overrides [OF enumerates_sorted_order sorted_set_ok demo_roles_ok ex,
        where policies = "[] :: (unit, unit) abac_policy list" and p = demo_principal and permission = "''posts.view''" and resource = "()" and log = "[]"] ex
    by (simp add: Let_def)
qed

text \<open>
  Which error \<open>build\<close> reports depends on the order in which the hash table of declarations is
  walked: two roles with undeclared parents are reported one or the other.
\<close>

definition orphan_roles :: "role list" where
  "orphan_roles =
     [\<lparr>role_name = ''a'', role_permissions = {}, role_parents = {''x''}\<rparr>, \<lparr>role_name = ''b'', role_permissions = {}, role_parents = {''y''}\<rparr>]"

lemma build_error_depends_on_order:
  "\<exists>kord kord'. enumerates kord \<and> enumerates kord'
     \<and> rbac_build kord sorted_set orphan_roles = Inl (UnknownRole ''x'') \<and> rbac_build kord' sorted_set orphan_roles = Inl (UnknownRole ''y'')"
proof (intro exI conjI)
  let ?t = "map_of (role_table orphan_roles)"
  have keys: "dom ?t = {''a'', ''b''}" by (auto simp: role_table_def orphan_roles_def)
  have sorted: "sorted_order ?t = [''a'', ''b'']" unfolding sorted_order_def keys by simp
  have collect: "collect_roles orphan_roles [] = Inr (role_table orphan_roles)" by (simp add: orphan_roles_def role_table_def)
  have lookup: "?t ''a'' = Some (orphan_roles ! 0)" "?t ''b'' = Some (orphan_roles ! 1)" "?t ''x'' = None" "?t ''y'' = None"
    by (simp_all add: role_table_def orphan_roles_def)
  have parents: "role_parents (orphan_roles ! 0) = {''x''}" "role_parents (orphan_roles ! 1) = {''y''}" by (simp_all add: orphan_roles_def)
  show "enumerates (sorted_order :: (string \<rightharpoonup> role) \<Rightarrow> string list)" by (rule enumerates_sorted_order)
  show "enumerates ((\<lambda>m. rev (sorted_order m)) :: (string \<rightharpoonup> role) \<Rightarrow> string list)"
    using enumerates_sorted_order unfolding enumerates_def by simp
  show "rbac_build sorted_order sorted_set orphan_roles = Inl (UnknownRole ''x'')"
    by (simp only: rbac_build_def collect res_bind.simps sorted) (simp add: resolve_role.simps lookup parents [simplified] sorted_set_def)
  show "rbac_build (\<lambda>m. rev (sorted_order m)) sorted_set orphan_roles = Inl (UnknownRole ''y'')"
    by (simp only: rbac_build_def collect res_bind.simps sorted) (simp add: resolve_role.simps lookup parents [simplified] sorted_set_def)
qed

end
