(* ===== verification/Rate_Limit.thy ===== *)
theory Rate_Limit
  imports Http_Core
begin

text \<open>
  The fixed-window rate limiter of \<open>phoenix-security\<close> (\<open>lib.rs\<close>): the in-memory backend, one table
  of windows behind a mutex, and the middleware over any backend. The clock reading of a call
  is an argument.
\<close>

section \<open>The backend\<close>

record rate_limit_config =
  rl_requests :: u64
  rl_window :: duration

record rate_window =
  rw_started_at :: u64
  rw_count :: u64

record rate_limit_decision =
  rd_allowed :: bool
  rd_remaining :: u64
  rd_retry_after :: duration

definition rate_limit_config_default :: rate_limit_config where
  "rate_limit_config_default = \<lparr>rl_requests = 60, rl_window = duration_from_secs 60\<rparr>"

definition as_secs :: "duration \<Rightarrow> u64" where
  "as_secs d = word_of_nat (d div nanos_per_sec)"

text \<open>\<open>retain\<close>, then the entry of the key, restarted when its window is over, and counted up.\<close>

definition memory_hit :: "string \<Rightarrow> u64 \<Rightarrow> duration \<Rightarrow> u64 \<Rightarrow> (string \<rightharpoonup> rate_window) \<Rightarrow> rate_limit_decision \<times> (string \<rightharpoonup> rate_window)" where
  "memory_hit key limit window now windows =
     (let live = (\<lambda>entry. w_saturating_sub now (rw_started_at entry) < as_secs window);
          windows = (\<lambda>k. case windows k of None \<Rightarrow> None | Some entry \<Rightarrow> if live entry then Some entry else None);
          entry = (case windows key of None \<Rightarrow> \<lparr>rw_started_at = now, rw_count = 0\<rparr> | Some entry \<Rightarrow> entry);
          entry = (if w_saturating_sub now (rw_started_at entry) \<ge> as_secs window then \<lparr>rw_started_at = now, rw_count = 0\<rparr> else entry);
          entry = entry\<lparr>rw_count := w_saturating_add (rw_count entry) 1\<rparr>;
          elapsed = w_saturating_sub now (rw_started_at entry)
      in (\<lparr>rd_allowed = (rw_count entry \<le> limit), rd_remaining = w_saturating_sub limit (rw_count entry),
           rd_retry_after = duration_from_secs (unat (max (w_saturating_sub (as_secs window) elapsed) 1))\<rparr>,
          windows(key \<mapsto> entry)))"

section \<open>The middleware\<close>

datatype rate_limit_failure_mode = FailClosed | FailOpen

definition rate_limited_response :: "(string \<Rightarrow> bool) \<Rightarrow> duration \<Rightarrow> ('x, 'w) response" where
  "rate_limited_response header_value retry_after =
     (let response = status_text 429 ''Too Many Requests'';
          v = nat_to_string (max (unat (as_secs retry_after)) 1)
      in if header_value v then insert_header ''retry-after'' v response else response)"

text \<open>The backend works on the state; \<open>key\<close> reads the key of a request, \<open>now\<close> the clock.\<close>

definition rate_limit :: "(string \<Rightarrow> bool) \<Rightarrow> (string \<Rightarrow> u64 \<Rightarrow> duration \<Rightarrow> u64 \<Rightarrow> 'w \<Rightarrow> (string + rate_limit_decision) \<times> 'w) \<Rightarrow>
    (('a, 'x) request \<Rightarrow> string) \<Rightarrow> rate_limit_config \<Rightarrow> rate_limit_failure_mode \<Rightarrow> u64 \<Rightarrow> ('a, 'x, 'w) middleware" where
  "rate_limit header_value hit key config failure_mode now request next_handler w =
     (case hit (key request) (rl_requests config) (rl_window config) now w of
        (Inr decision, w) \<Rightarrow>
          if \<not> rd_allowed decision then (Some (rate_limited_response header_value (rd_retry_after decision)), w)
          else next_handler request w
      | (Inl _, w) \<Rightarrow>
          if failure_mode = FailOpen then next_handler request w
          else (Some (status_text 503 ''Rate limit unavailable''), w))"

section \<open>Fixed windows\<close>

text \<open>
  The reference: the window of one key, its start and the number of hits in it, from the
  times of the hits on that key alone.
\<close>

fun window_after :: "nat \<Rightarrow> nat list \<Rightarrow> (nat \<times> nat) option \<Rightarrow> (nat \<times> nat) option" where
  "window_after W [] current = current"
| "window_after W (t # ts) current =
     (case current of
        None \<Rightarrow> window_after W ts (Some (t, 1))
      | Some (start, n) \<Rightarrow> if t - start < W then window_after W ts (Some (start, n + 1)) else window_after W ts (Some (t, 1)))"

fun run_hits :: "u64 \<Rightarrow> duration \<Rightarrow> (string \<times> u64) list \<Rightarrow> (string \<rightharpoonup> rate_window) \<Rightarrow> rate_limit_decision list \<times> (string \<rightharpoonup> rate_window)" where
  "run_hits limit window [] windows = ([], windows)"
| "run_hits limit window ((key, now) # hits) windows =
     (case memory_hit key limit window now windows of (decision, windows) \<Rightarrow>
        (case run_hits limit window hits windows of (decisions, windows) \<Rightarrow> (decision # decisions, windows)))"

definition times_of :: "string \<Rightarrow> (string \<times> u64) list \<Rightarrow> nat list" where
  "times_of key hits = map (\<lambda>hit. unat (snd hit)) (filter (\<lambda>hit. fst hit = key) hits)"

lemma window_after_snoc: "window_after W (ts @ [t]) current = window_after W [t] (window_after W ts current)"
  by (induction W ts current rule: window_after.induct) (auto split: option.splits)

lemma times_of_snoc: "times_of k (h @ [(key, now)]) = times_of k h @ (if k = key then [unat now] else [])"
  by (simp add: times_of_def)

text \<open>
  The table after the hits \<open>h\<close>, the last of them at \<open>T\<close>: an entry is the window of its key, and
  a key without an entry has no window that is still open.
\<close>

definition table_ok :: "nat \<Rightarrow> nat \<Rightarrow> (string \<times> u64) list \<Rightarrow> (string \<rightharpoonup> rate_window) \<Rightarrow> bool" where
  "table_ok W T h windows \<longleftrightarrow>
     (\<forall>k. case window_after W (times_of k h) None of
            None \<Rightarrow> windows k = None
          | Some (s, c) \<Rightarrow> c \<le> length h \<and>
              (case windows k of None \<Rightarrow> W \<le> T - s | Some e \<Rightarrow> unat (rw_started_at e) = s \<and> unat (rw_count e) = c))"

lemma table_ok_empty: "table_ok W T [] Map.empty"
  by (simp add: table_ok_def times_of_def)

definition live_part :: "nat \<Rightarrow> u64 \<Rightarrow> (string \<rightharpoonup> rate_window) \<Rightarrow> string \<rightharpoonup> rate_window" where
  "live_part W now windows = (\<lambda>k. Option.bind (windows k) (\<lambda>e. if unat now - unat (rw_started_at e) < W then Some e else None))"

lemma memory_hit_eq:
  "memory_hit key limit window now windows =
     (let W = unat (as_secs window);
          e = (case live_part W now windows key of None \<Rightarrow> \<lparr>rw_started_at = now, rw_count = 1\<rparr>
               | Some e \<Rightarrow> e\<lparr>rw_count := w_saturating_add (rw_count e) 1\<rparr>)
      in (\<lparr>rd_allowed = (rw_count e \<le> limit), rd_remaining = w_saturating_sub limit (rw_count e),
           rd_retry_after = duration_from_secs (unat (max (w_saturating_sub (as_secs window) (w_saturating_sub now (rw_started_at e))) 1))\<rparr>,
          (live_part W now windows)(key \<mapsto> e)))"
proof -
  have live: "(\<lambda>k. case windows k of None \<Rightarrow> None | Some e \<Rightarrow> if w_saturating_sub now (rw_started_at e) < as_secs window then Some e else None)
      = live_part (unat (as_secs window)) now windows"
    by (auto simp: live_part_def fun_eq_iff word_less_nat_alt unat_saturating_sub split: option.split)
  have one: "w_saturating_add 0 1 = (1 :: u64)" by (simp add: w_saturating_add_def)
  have fresh: "live_part (unat (as_secs window)) now windows key = Some e \<Longrightarrow> \<not> as_secs window \<le> w_saturating_sub now (rw_started_at e)" for e
    by (auto simp: live_part_def bind_eq_Some_conv word_le_nat_alt unat_saturating_sub split: if_splits)
  show ?thesis
    unfolding memory_hit_def Let_def live live [THEN fun_cong] using fresh one by (cases "live_part (unat (as_secs window)) now windows key") (auto simp: one)
qed

lemma window_count_le: "window_after W (times_of k h) None = Some (s, c) \<Longrightarrow> table_ok W T h windows \<Longrightarrow> c \<le> length h"
  unfolding table_ok_def by (metis (no_types, lifting) case_prod_conv option.simps(5))

text \<open>One hit keeps the table, and decides by the window of its own key.\<close>

lemma memory_hit_step:
  assumes ok: "table_ok W T h windows" and W: "W = unat (as_secs window)" and time: "T \<le> unat now" and len: "length h + 1 < 2 ^ 64"
    and hit: "memory_hit key limit window now windows = (d, windows')"
  shows "table_ok W (unat now) (h @ [(key, now)]) windows'
    \<and> (\<exists>s c. window_after W (times_of key (h @ [(key, now)])) None = Some (s, c)
         \<and> rd_allowed d = (c \<le> unat limit) \<and> unat (rd_remaining d) = unat limit - c)"
proof -
  define e where "e = (case live_part W now windows key of None \<Rightarrow> \<lparr>rw_started_at = now, rw_count = 1\<rparr>
      | Some e \<Rightarrow> e\<lparr>rw_count := w_saturating_add (rw_count e) 1\<rparr>)"
  have d: "rd_allowed d = (rw_count e \<le> limit)" "rd_remaining d = w_saturating_sub limit (rw_count e)"
    and windows': "windows' = (live_part W now windows)(key \<mapsto> e)"
    using hit unfolding memory_hit_eq Let_def W [symmetric] e_def [symmetric] by auto
  have entry: "case window_after W (times_of k h) None of
      None \<Rightarrow> windows k = None
    | Some (s, c) \<Rightarrow> c \<le> length h \<and> (case windows k of None \<Rightarrow> W \<le> T - s | Some e \<Rightarrow> unat (rw_started_at e) = s \<and> unat (rw_count e) = c)" for k
    using ok unfolding table_ok_def by blast
  have own: "window_after W (times_of key (h @ [(key, now)])) None = Some (unat (rw_started_at e), unat (rw_count e)) \<and> unat (rw_count e) \<le> length h + 1"
  proof (cases "window_after W (times_of key h) None")
    case None
    then show ?thesis using entry [of key] by (simp add: times_of_snoc window_after_snoc e_def live_part_def)
  next
    case (Some sc)
    obtain s c where sc: "sc = (s, c)" by fastforce
    show ?thesis
    proof (cases "unat now - s < W")
      case True
      then obtain x where x: "windows key = Some x" "unat (rw_started_at x) = s" "unat (rw_count x) = c" "c \<le> length h"
        using entry [of key] Some sc time by (auto split: option.splits)
      have "unat (w_saturating_add (rw_count x) 1) = c + 1" using x(3,4) len by (simp add: unat_saturating_add)
      then show ?thesis using Some sc True x by (simp add: times_of_snoc window_after_snoc e_def live_part_def)
    next
      case False
      then have "live_part W now windows key = None"
        using entry [of key] Some sc by (auto simp: live_part_def split: option.splits)
      then show ?thesis using Some sc False by (simp add: times_of_snoc window_after_snoc e_def)
    qed
  qed
  have "table_ok W (unat now) (h @ [(key, now)]) windows'"
    unfolding table_ok_def
  proof
    fix k
    show "case window_after W (times_of k (h @ [(key, now)])) None of
        None \<Rightarrow> windows' k = None
      | Some (s, c) \<Rightarrow> c \<le> length (h @ [(key, now)]) \<and>
          (case windows' k of None \<Rightarrow> W \<le> unat now - s | Some e \<Rightarrow> unat (rw_started_at e) = s \<and> unat (rw_count e) = c)"
    proof (cases "k = key")
      case True
      then show ?thesis using own by (simp add: windows')
    next
      case False
      then show ?thesis using entry [of k] time
        by (auto simp: windows' times_of_snoc live_part_def bind_eq_Some_conv split: option.splits if_splits)
    qed
  qed
  then show ?thesis using own d by (auto simp: word_le_nat_alt unat_saturating_sub)
qed

lemma run_hits_step:
  assumes "table_ok W T h windows" and "W = unat (as_secs window)" and "length h + length hits < 2 ^ 64"
    and "sorted (T # map (\<lambda>hit. unat (snd hit)) hits)" and "i < length hits"
  shows "\<exists>s c. window_after W (times_of (fst (hits ! i)) (h @ take (Suc i) hits)) None = Some (s, c)
     \<and> rd_allowed (fst (run_hits limit window hits windows) ! i) = (c \<le> unat limit)
     \<and> unat (rd_remaining (fst (run_hits limit window hits windows) ! i)) = unat limit - c"
  using assms(1,3-5)
proof (induction hits arbitrary: h windows T i)
  case (Cons hit hits)
  obtain key now where hit: "hit = (key, now)" by fastforce
  obtain d windows' where d: "memory_hit key limit window now windows = (d, windows')" by fastforce
  have step: "table_ok W (unat now) (h @ [(key, now)]) windows'
    \<and> (\<exists>s c. window_after W (times_of key (h @ [(key, now)])) None = Some (s, c)
         \<and> rd_allowed d = (c \<le> unat limit) \<and> unat (rd_remaining d) = unat limit - c)"
    by (rule memory_hit_step [OF Cons.prems(1) assms(2) _ _ d]) (use Cons.prems hit in auto)
  have run: "fst (run_hits limit window (hit # hits) windows) = d # fst (run_hits limit window hits windows')"
    using d hit by (simp split: prod.split)
  show ?case
  proof (cases i)
    case 0
    then show ?thesis using step run hit by simp
  next
    case (Suc j)
    have "\<exists>s c. window_after W (times_of (fst (hits ! j)) ((h @ [(key, now)]) @ take (Suc j) hits)) None = Some (s, c)
       \<and> rd_allowed (fst (run_hits limit window hits windows') ! j) = (c \<le> unat limit)
       \<and> unat (rd_remaining (fst (run_hits limit window hits windows') ! j)) = unat limit - c"
      by (rule Cons.IH [OF step [THEN conjunct1]]) (use Cons.prems hit Suc in auto)
    then show ?thesis using Suc run hit by simp
  qed
qed simp

text \<open>
  C18: The in-memory backend keeps an independent fixed window for every key. Along any
  sequence of hits with one limit and one window, in order of time, whatever keys are mixed and although every hit prunes
  the whole table, a hit is allowed exactly when it is among the first \<open>limit\<close> of the window of
  its own key, where a window starts at the first hit and again at the first hit that is
  \<open>window\<close> seconds or more later; what remains is reported exactly.
\<close>
theorem rate_limit_fixed_window:
  assumes "sorted (map (\<lambda>hit. unat (snd hit)) hits)" and "length hits < 2 ^ 64" and "i < length hits"
  shows "\<exists>s c. window_after (unat (as_secs window)) (times_of (fst (hits ! i)) (take (Suc i) hits)) None = Some (s, c)
     \<and> rd_allowed (fst (run_hits limit window hits Map.empty) ! i) = (c \<le> unat limit)
     \<and> unat (rd_remaining (fst (run_hits limit window hits Map.empty) ! i)) = unat limit - c"
  using run_hits_step [OF table_ok_empty [of _ 0] refl _ _ assms(3), where limit = limit and window = window] assms(1,2) by simp

lemma rate_limit_fixed_window_witness:
  "\<exists>c. window_after (unat (as_secs (duration_from_secs 60))) [100, 110] None = Some (100, c)
     \<and> rd_allowed (fst (run_hits 1 (duration_from_secs 60) [(''a'', 100), (''b'', 105), (''a'', 110)] Map.empty) ! 2) = (c \<le> 1)"
proof -
  have secs: "unat (as_secs (duration_from_secs 60)) = 60" by (simp add: as_secs_def duration_from_secs_def nanos_per_sec_def)
  show ?thesis
    using rate_limit_fixed_window [of "[(''a'', 100), (''b'', 105), (''a'', 110)]" 2 "duration_from_secs 60" 1]
    by (simp add: secs times_of_def)
qed

text \<open>
  Limiters that share the backend with different windows disturb each other: the hit of a
  limiter with a window of one second forgets the count of a key with a window of a minute,
  which then starts again within its minute.
\<close>

lemma short_window_forgets_others:
  "\<exists>w1 w2. snd (memory_hit ''login'' 1 (duration_from_secs 60) 100 Map.empty) = w1
     \<and> snd (memory_hit ''api'' 10 (duration_from_secs 1) 101 w1) = w2
     \<and> rd_allowed (fst (memory_hit ''login'' 1 (duration_from_secs 60) 102 w2))
     \<and> \<not> rd_allowed (fst (memory_hit ''login'' 1 (duration_from_secs 60) 102 w1))"
proof -
  have "unat (as_secs (duration_from_secs 60)) = 60" "unat (as_secs (duration_from_secs 1)) = 1"
    by (simp_all add: as_secs_def duration_from_secs_def nanos_per_sec_def)
  then show ?thesis by (simp add: memory_hit_eq Let_def live_part_def w_saturating_add_def) (simp add: word_le_nat_alt)
qed

end
