(* ===== verification/Web_Guard.thy ===== *)
theory Web_Guard
  imports Http_Core
begin

text \<open>
  Middleware of \<open>phoenix-security\<close> (\<open>lib.rs\<close>) that decides about a request before a handler sees
  it: request identifiers, trusted proxies, the redirect to HTTPS, allowed hosts and
  cross-origin requests. The conversions of header values, methods, header names, addresses
  and authorities are the fields of the record \<open>web_env\<close>; random tokens are arguments.
\<close>

section \<open>Other packages\<close>

record 'a web_env =
  we_header_value :: "string \<Rightarrow> bool"
  we_header_text :: "string \<Rightarrow> string option"
  we_parse_ip :: "string \<Rightarrow> ip_addr option"
  we_parse_method :: "string \<Rightarrow> string option"
  we_parse_header_name :: "string \<Rightarrow> string option"
  we_parse_authority :: "string \<Rightarrow> 'a option"
  we_authority_text :: "'a \<Rightarrow> string"
  we_authority_host :: "'a \<Rightarrow> string"

definition header_text :: "'a web_env \<Rightarrow> string \<Rightarrow> headers \<Rightarrow> string option" where
  "header_text env name h = Option.bind (header_get name h) (we_header_text env)"

definition eq_ignore_ascii_case :: "string \<Rightarrow> string \<Rightarrow> bool" where
  "eq_ignore_ascii_case a b \<longleftrightarrow> to_ascii_lowercase a = to_ascii_lowercase b"

text \<open>\<open>next.run(request).await\<close> followed by a change of the response; a panic passes through.\<close>

definition then_response :: "(('x, 'w) response \<Rightarrow> ('x, 'w) response) \<Rightarrow> ('x, 'w) response option \<times> 'w \<Rightarrow> ('x, 'w) response option \<times> 'w" where
  "then_response f result = map_prod (map_option f) id result"

definition insert_checked :: "'a web_env \<Rightarrow> string \<Rightarrow> string \<Rightarrow> ('x, 'w) response \<Rightarrow> ('x, 'w) response" where
  "insert_checked env name v r = (if we_header_value env v then insert_header name v r else r)"

section \<open>Request identifiers\<close>

definition request_id :: "'a web_env \<Rightarrow> string \<Rightarrow> ('a, 'x, 'w) middleware" where
  "request_id env token request next_handler w =
     then_response (insert_checked env ''x-request-id'' token) (next_handler (request\<lparr>rq_request_id := Some token\<rparr>) w)"

section \<open>Trusted proxies\<close>

definition effective_scheme :: "('a, 'x) request \<Rightarrow> transport_scheme" where
  "effective_scheme request =
     (case rq_scheme request of
        Some scheme \<Rightarrow> scheme
      | None \<Rightarrow> (case rq_connection request of None \<Rightarrow> Http | Some scheme \<Rightarrow> scheme))"

definition forwarded_scheme :: "'a web_env \<Rightarrow> headers \<Rightarrow> transport_scheme option" where
  "forwarded_scheme env h =
     Option.bind (header_text env ''x-forwarded-proto'' h) (\<lambda>v.
       let v = str_trim (last (split_on (CHR '','') v))
       in if eq_ignore_ascii_case v ''https'' then Some Https
          else if eq_ignore_ascii_case v ''http'' then Some Http
          else None)"

text \<open>The loop over the hops, from the nearest on.\<close>

fun walk_hops :: "ip_addr set \<Rightarrow> ip_addr \<Rightarrow> ip_addr list \<Rightarrow> ip_addr" where
  "walk_hops trusted client [] = client"
| "walk_hops trusted client (hop # hops) = (if client \<notin> trusted then client else walk_hops trusted hop hops)"

definition hop_addresses :: "'a web_env \<Rightarrow> string \<Rightarrow> ip_addr list" where
  "hop_addresses env v = List.map_filter (\<lambda>part. we_parse_ip env (str_trim part)) (rev (split_on (CHR '','') v))"

definition forwarded_client :: "'a web_env \<Rightarrow> headers \<Rightarrow> ip_addr \<Rightarrow> ip_addr set \<Rightarrow> ip_addr" where
  "forwarded_client env h peer trusted =
     (case header_text env ''x-forwarded-for'' h of
        None \<Rightarrow> peer
      | Some v \<Rightarrow> walk_hops trusted peer (hop_addresses env v))"

definition trusted_proxies :: "'a web_env \<Rightarrow> ip_addr set \<Rightarrow> ('a, 'x, 'w) middleware" where
  "trusted_proxies env trusted request next_handler w =
     (let direct_scheme = effective_scheme request;
          (scheme, request) =
            (case rq_peer request of
               None \<Rightarrow> (direct_scheme, request)
             | Some peer \<Rightarrow>
                 if peer \<in> trusted
                 then (case forwarded_scheme env (rq_headers request) of None \<Rightarrow> direct_scheme | Some s \<Rightarrow> s,
                       request\<lparr>rq_client_ip := Some (forwarded_client env (rq_headers request) peer trusted)\<rparr>)
                 else (direct_scheme, request\<lparr>rq_client_ip := Some peer\<rparr>))
      in next_handler (request\<lparr>rq_scheme := Some scheme\<rparr>) w)"

section \<open>Redirect to HTTPS\<close>

datatype https_redirect_error = HttpsRedirectError

record 'a https_redirect =
  hr_authority :: 'a
  hr_status :: u16

definition https_redirect_new :: "'a web_env \<Rightarrow> string \<Rightarrow> https_redirect_error + 'a https_redirect" where
  "https_redirect_new env authority =
     (case we_parse_authority env authority of
        None \<Rightarrow> Inl HttpsRedirectError
      | Some authority \<Rightarrow> Inr \<lparr>hr_authority = authority, hr_status = 308\<rparr>)"

definition https_redirect_temporary :: "'a https_redirect \<Rightarrow> 'a https_redirect" where
  "https_redirect_temporary r = r\<lparr>hr_status := 307\<rparr>"

definition https_redirect_handle :: "'a web_env \<Rightarrow> 'a https_redirect \<Rightarrow> ('a, 'x, 'w) middleware" where
  "https_redirect_handle env redirect request next_handler w =
     (if effective_scheme request = Https then next_handler request w
      else
        (let path_and_query = (case rq_path_and_query request of None \<Rightarrow> ''/'' | Some p \<Rightarrow> p);
             location = ''https://'' @ we_authority_text env (hr_authority redirect) @ path_and_query
         in if we_header_value env location
            then (Some (insert_header ''location'' location (response_new (hr_status redirect) [])), w)
            else (Some (status_text 500 ''Invalid HTTPS redirect''), w)))"

section \<open>Allowed hosts\<close>

definition normalize_authority :: "'a web_env \<Rightarrow> 'a \<Rightarrow> string option" where
  "normalize_authority env authority =
     (if CHR ''@'' \<in> set (we_authority_text env authority) then None
      else
        (let host = to_ascii_lowercase (rev (dropWhile (\<lambda>c. c = CHR ''.'') (rev (we_authority_host env authority))))
         in if host = [] then None else Some host))"

definition normalize_host :: "'a web_env \<Rightarrow> string \<Rightarrow> string option" where
  "normalize_host env host = Option.bind (we_parse_authority env host) (normalize_authority env)"

definition host_allowlist_new :: "'a web_env \<Rightarrow> string list \<Rightarrow> string set" where
  "host_allowlist_new env hosts = set (List.map_filter (normalize_host env) hosts)"

definition request_host :: "'a web_env \<Rightarrow> ('a, 'x) request \<Rightarrow> string option" where
  "request_host env request =
     (case (case header_get ''host'' (rq_headers request) of
              None \<Rightarrow> Some None
            | Some v \<Rightarrow> map_option Some (Option.bind (we_header_text env v) (normalize_host env))) of
        None \<Rightarrow> None
      | Some header_host \<Rightarrow>
          (case (case rq_authority request of
                   None \<Rightarrow> Some None
                 | Some authority \<Rightarrow> map_option Some (normalize_authority env authority)) of
             None \<Rightarrow> None
           | Some uri_host \<Rightarrow>
               (case (header_host, uri_host) of
                  (Some header, Some uri) \<Rightarrow> if header = uri then Some header else None
                | (None, None) \<Rightarrow> None
                | (Some host, None) \<Rightarrow> Some host
                | (None, Some host) \<Rightarrow> Some host)))"

definition host_allowlist :: "'a web_env \<Rightarrow> string set \<Rightarrow> ('a, 'x, 'w) middleware" where
  "host_allowlist env allowed request next_handler w =
     (case request_host env request of
        Some host \<Rightarrow> if host \<in> allowed then next_handler request w else (Some (status_text 400 ''Invalid Host''), w)
      | None \<Rightarrow> (Some (status_text 400 ''Invalid Host''), w))"

section \<open>Cross-origin requests\<close>

record cors_config =
  cc_allowed_origins :: "string set"
  cc_allowed_methods :: "string set"
  cc_allowed_headers :: "string set"
  cc_allow_credentials :: bool
  cc_max_age_secs :: u64

definition cors_config_default :: cors_config where
  "cors_config_default =
     \<lparr>cc_allowed_origins = {}, cc_allowed_methods = {''GET'', ''HEAD'', ''POST''}, cc_allowed_headers = {''content-type''},
      cc_allow_credentials = False, cc_max_age_secs = 600\<rparr>"

definition valid_preflight :: "'a web_env \<Rightarrow> headers \<Rightarrow> cors_config \<Rightarrow> bool" where
  "valid_preflight env h config \<longleftrightarrow>
     (case Option.bind (header_text env ''access-control-request-method'' h) (we_parse_method env) of
        None \<Rightarrow> False
      | Some method \<Rightarrow> method \<in> cc_allowed_methods config) \<and>
     (case header_text env ''access-control-request-headers'' h of
        None \<Rightarrow> True
      | Some names \<Rightarrow>
          list_all (\<lambda>name. case we_parse_header_name env (str_trim name) of
                             None \<Rightarrow> False
                           | Some name \<Rightarrow> name \<in> cc_allowed_headers config)
            (split_on (CHR '','') names))"

text \<open>The names are distinct, so sorting them in place is sorting the set.\<close>

definition join_header :: "string set \<Rightarrow> string" where
  "join_header values = join_with '', '' (sorted_list_of_set values)"

definition apply_cors_headers :: "'a web_env \<Rightarrow> string \<Rightarrow> cors_config \<Rightarrow> bool \<Rightarrow> ('x, 'w) response \<Rightarrow> ('x, 'w) response" where
  "apply_cors_headers env origin config preflight r =
     (let r = insert_checked env ''access-control-allow-origin'' origin r;
          r = r\<lparr>rp_headers := header_append ''vary'' ''Origin'' (rp_headers r)\<rparr>;
          r = (if cc_allow_credentials config then insert_header ''access-control-allow-credentials'' ''true'' r else r)
      in if preflight
         then insert_checked env ''access-control-max-age'' (nat_to_string (unat (cc_max_age_secs config)))
                (insert_checked env ''access-control-allow-headers'' (join_header (cc_allowed_headers config))
                  (insert_checked env ''access-control-allow-methods'' (join_header (cc_allowed_methods config)) r))
         else r)"

definition cors :: "'a web_env \<Rightarrow> cors_config \<Rightarrow> ('a, 'x, 'w) middleware" where
  "cors env config request next_handler w =
     (case header_text env ''origin'' (rq_headers request) of
        None \<Rightarrow> next_handler request w
      | Some origin \<Rightarrow>
          if origin \<notin> cc_allowed_origins config then (Some (status_text 403 ''Origin not allowed''), w)
          else
            (let preflight = (rq_method request = ''OPTIONS'' \<and> rq_headers request ''access-control-request-method'' \<noteq> [])
             in if \<not> preflight \<and> rq_method request \<notin> cc_allowed_methods config
                then (Some (status_text 403 ''Cross-origin method not allowed''), w)
                else if preflight \<and> \<not> valid_preflight env (rq_headers request) config
                then (Some (status_text 403 ''CORS preflight rejected''), w)
                else then_response (apply_cors_headers env origin config preflight)
                       (if preflight then (Some (response_new 204 []), w) else next_handler request w)))"

end
