(* ===== verification/Web_Csp.thy ===== *)
theory Web_Csp
  imports Web_Guard
begin

text \<open>
  Browser security headers of \<open>phoenix-security\<close> (\<open>lib.rs\<close>): the static policy, the policy with a
  nonce per request, and the redaction of headers for diagnostics. A parsed URI comes from
  another package and is an argument, as are the random bytes of a token.
\<close>

section \<open>Tokens and nonces\<close>

definition hex_char :: "nat \<Rightarrow> char" where
  "hex_char n = ''0123456789abcdef'' ! n"

definition random_token :: "u8 list \<Rightarrow> string" where
  "random_token random = concat (map (\<lambda>byte. [hex_char (unat (drop_bit 4 byte)), hex_char (unat (and byte 0x0f))]) random)"

datatype invalid_csp_nonce = InvalidCspNonce

definition csp_nonce_new :: "string \<Rightarrow> invalid_csp_nonce + string" where
  "csp_nonce_new v =
     (if \<not> (16 \<le> length v \<and> length v \<le> 128)
         \<or> \<not> list_all (\<lambda>b. is_ascii_alphabetic b \<or> is_ascii_digit b \<or> b \<in> set ''+/_-='') v
      then Inl InvalidCspNonce else Inr v)"

section \<open>Policies\<close>

datatype csp_policy_error = InvalidPolicy | InvalidDevelopmentOrigin

record security_policy =
  sp_content_security_policy :: string
  sp_hsts_secs :: "u64 option"
  sp_hsts_include_subdomains :: bool

definition quoted :: "string \<Rightarrow> string" where
  "quoted s = CHR 0x27 # s @ [CHR 0x27]"

definition security_policy_default :: security_policy where
  "security_policy_default =
     \<lparr>sp_content_security_policy = ''default-src '' @ quoted ''self'' @ ''; base-uri '' @ quoted ''self'' @
        ''; frame-ancestors '' @ quoted ''none'' @ ''; object-src '' @ quoted ''none'',
      sp_hsts_secs = Some 31536000, sp_hsts_include_subdomains = True\<rparr>"

text \<open>\<open>str::split_ascii_whitespace\<close> and \<open>u8::is_ascii_control\<close>\<close>

definition ascii_space :: "char \<Rightarrow> bool" where
  "ascii_space c \<longleftrightarrow> (of_char c :: nat) \<in> {9, 10, 12, 13, 32}"

fun ascii_words :: "string \<Rightarrow> string \<Rightarrow> string list" where
  "ascii_words word [] = (if word = [] then [] else [rev word])"
| "ascii_words word (c # cs) =
     (if ascii_space c then (if word = [] then ascii_words [] cs else rev word # ascii_words [] cs)
      else ascii_words (c # word) cs)"

definition split_ascii_whitespace :: "string \<Rightarrow> string list" where
  "split_ascii_whitespace s = ascii_words [] s"

definition is_ascii_control :: "char \<Rightarrow> bool" where
  "is_ascii_control c \<longleftrightarrow> (of_char c :: nat) < 32 \<or> (of_char c :: nat) = 127"

definition starts_with :: "string \<Rightarrow> string \<Rightarrow> bool" where
  "starts_with s p \<longleftrightarrow> take (length p) s = p"

record csp_state =
  cs_directives :: "string list"
  cs_names :: "string set"
  cs_has_script :: bool
  cs_has_style :: bool
  cs_default_sources :: "string list option"

definition directive_name_ok :: "string \<Rightarrow> bool" where
  "directive_name_ok name \<longleftrightarrow> list_all (\<lambda>b. byte_in 97 122 b \<or> is_ascii_digit b \<or> b = CHR ''-'') name"

definition unsafe_source :: "string \<Rightarrow> bool" where
  "unsafe_source v \<longleftrightarrow>
     (let normalized = to_ascii_lowercase v
      in normalized = quoted ''unsafe-inline'' \<or> starts_with normalized (CHR 0x27 # ''nonce-'') \<or> list_ex is_ascii_control v)"

definition is_none_source :: "string \<Rightarrow> bool" where
  "is_none_source v \<longleftrightarrow> eq_ignore_ascii_case v (quoted ''none'')"

definition with_nonce_source :: "string \<Rightarrow> string list \<Rightarrow> string list" where
  "with_nonce_source nonce_source values = filter (\<lambda>v. \<not> is_none_source v) values @ [nonce_source]"

definition directive_text :: "string \<Rightarrow> string list \<Rightarrow> string" where
  "directive_text name values = name @ (if values = [] then [] else '' '') @ join_with '' '' values"

text \<open>One turn of the loop over the directives.\<close>

definition csp_directive :: "string \<Rightarrow> string \<Rightarrow> csp_state \<Rightarrow> csp_policy_error + csp_state" where
  "csp_directive nonce_source raw st =
     (let raw = str_trim raw
      in if raw = [] then Inr st
         else (case split_ascii_whitespace raw of
                 [] \<Rightarrow> Inl InvalidPolicy
               | name # values \<Rightarrow>
                   if \<not> directive_name_ok name \<or> name \<in> cs_names st then Inl InvalidPolicy
                   else if list_ex unsafe_source values then Inl InvalidPolicy
                   else
                     (let st = st\<lparr>cs_names := insert name (cs_names st)\<rparr>;
                          (st, values) =
                            (if name = ''default-src'' then (st\<lparr>cs_default_sources := Some values\<rparr>, values)
                             else if name \<in> {''script-src'', ''script-src-elem''}
                             then (st\<lparr>cs_has_script := (cs_has_script st \<or> name = ''script-src'')\<rparr>, with_nonce_source nonce_source values)
                             else if name \<in> {''style-src'', ''style-src-elem''}
                             then (st\<lparr>cs_has_style := (cs_has_style st \<or> name = ''style-src'')\<rparr>, with_nonce_source nonce_source values)
                             else (st, values))
                      in Inr (st\<lparr>cs_directives := cs_directives st @ [directive_text name values]\<rparr>))))"

fun csp_loop :: "string \<Rightarrow> string list \<Rightarrow> csp_state \<Rightarrow> csp_policy_error + csp_state" where
  "csp_loop nonce_source [] st = Inr st"
| "csp_loop nonce_source (raw # raws) st =
     (case csp_directive nonce_source raw st of Inl e \<Rightarrow> Inl e | Inr st \<Rightarrow> csp_loop nonce_source raws st)"

definition inherited_nonce_directive :: "string \<Rightarrow> string list option \<Rightarrow> string \<Rightarrow> string" where
  "inherited_nonce_directive name default_sources nonce_source =
     name @ '' '' @ join_with '' '' (with_nonce_source nonce_source
       (case default_sources of None \<Rightarrow> [quoted ''self''] | Some sources \<Rightarrow> sources))"

definition render_nonced_policy :: "string \<Rightarrow> string \<Rightarrow> csp_policy_error + string" where
  "render_nonced_policy base nonce =
     (if base = [] \<or> list_ex is_ascii_control base then Inl InvalidPolicy
      else
        (let nonce_source = quoted (''nonce-'' @ nonce)
         in case csp_loop nonce_source (split_on (CHR '';'') base)
                \<lparr>cs_directives = [], cs_names = {}, cs_has_script = False, cs_has_style = False, cs_default_sources = None\<rparr> of
              Inl e \<Rightarrow> Inl e
            | Inr st \<Rightarrow>
                (let directives = cs_directives st @
                       (if cs_has_script st then [] else [inherited_nonce_directive ''script-src'' (cs_default_sources st) nonce_source]) @
                       (if cs_has_style st then [] else [inherited_nonce_directive ''style-src'' (cs_default_sources st) nonce_source])
                 in Inr (join_with ''; '' directives))))"

definition nonce_policy_new :: "security_policy \<Rightarrow> csp_policy_error + security_policy" where
  "nonce_policy_new policy =
     (case render_nonced_policy (sp_content_security_policy policy) ''0123456789abcdef'' of
        Inl e \<Rightarrow> Inl e
      | Inr _ \<Rightarrow> Inr policy)"

record 'a uri =
  uri_scheme :: "string option"
  uri_authority :: "'a option"
  uri_path :: string
  uri_query :: "string option"

definition nonce_policy_development :: "'a web_env \<Rightarrow> (string \<Rightarrow> 'a uri option) \<Rightarrow> string \<Rightarrow> csp_policy_error + security_policy" where
  "nonce_policy_development env parse_uri vite_origin =
     (case parse_uri vite_origin of
        None \<Rightarrow> Inl InvalidDevelopmentOrigin
      | Some uri \<Rightarrow>
          (case (uri_scheme uri, uri_authority uri) of
             (Some scheme, Some authority) \<Rightarrow>
               if scheme \<notin> {''http'', ''https''} \<or> CHR ''@'' \<in> set (we_authority_text env authority)
                  \<or> uri_path uri \<noteq> ''/'' \<or> uri_query uri \<noteq> None
               then Inl InvalidDevelopmentOrigin
               else
                 (let text = we_authority_text env authority;
                      origin = scheme @ ''://'' @ text;
                      socket_origin = (if scheme = ''https'' then ''wss'' else ''ws'') @ ''://'' @ text;
                      self = quoted ''self'';
                      none = quoted ''none''
                  in nonce_policy_new
                       \<lparr>sp_content_security_policy =
                          ''default-src '' @ self @ ''; script-src '' @ self @ '' '' @ origin @ ''; style-src '' @ self @ '' '' @ origin @
                          ''; connect-src '' @ self @ '' '' @ origin @ '' '' @ socket_origin @ ''; img-src '' @ self @ '' data: blob: '' @ origin @
                          ''; font-src '' @ self @ '' data: '' @ origin @ ''; base-uri '' @ self @ ''; frame-ancestors '' @ none @
                          ''; object-src '' @ none,
                        sp_hsts_secs = None, sp_hsts_include_subdomains = False\<rparr>)
           | _ \<Rightarrow> Inl InvalidDevelopmentOrigin))"

section \<open>Headers\<close>

definition insert_default :: "'a web_env \<Rightarrow> string \<Rightarrow> string \<Rightarrow> ('x, 'w) response \<Rightarrow> ('x, 'w) response" where
  "insert_default env name v r = (if rp_headers r name = [] then insert_checked env name v r else r)"

definition insert_hsts :: "'a web_env \<Rightarrow> bool \<Rightarrow> security_policy \<Rightarrow> ('x, 'w) response \<Rightarrow> ('x, 'w) response" where
  "insert_hsts env secure policy r =
     (case sp_hsts_secs policy of
        Some max_age \<Rightarrow>
          if secure
          then insert_default env ''strict-transport-security''
                 (''max-age='' @ nat_to_string (unat max_age) @ (if sp_hsts_include_subdomains policy then ''; includeSubDomains'' else [])) r
          else r
      | None \<Rightarrow> r)"

definition insert_browser_defaults :: "'a web_env \<Rightarrow> ('x, 'w) response \<Rightarrow> ('x, 'w) response" where
  "insert_browser_defaults env r =
     insert_default env ''permissions-policy'' ''camera=(), microphone=(), geolocation=()''
       (insert_default env ''referrer-policy'' ''strict-origin-when-cross-origin''
         (insert_default env ''x-frame-options'' ''DENY''
           (insert_default env ''x-content-type-options'' ''nosniff'' r)))"

definition apply_browser_headers :: "'a web_env \<Rightarrow> bool \<Rightarrow> security_policy \<Rightarrow> ('x, 'w) response \<Rightarrow> ('x, 'w) response" where
  "apply_browser_headers env secure policy r = insert_hsts env secure policy (insert_browser_defaults env r)"

definition run_with_panic_boundary :: "('a, 'x) request \<Rightarrow> ('a, 'x, 'w) handler \<Rightarrow> 'w \<Rightarrow> ('x, 'w) response \<times> 'w" where
  "run_with_panic_boundary request next_handler w =
     (case next_handler request w of
        (None, w) \<Rightarrow> (status_text 500 ''Internal Server Error'', w)
      | (Some r, w) \<Rightarrow> (r, w))"

definition security_policy_handle :: "'a web_env \<Rightarrow> security_policy \<Rightarrow> ('a, 'x, 'w) middleware" where
  "security_policy_handle env policy request next_handler w =
     (case run_with_panic_boundary request next_handler w of
        (r, w) \<Rightarrow>
          (Some (insert_hsts env (effective_scheme request = Https) policy
            (insert_default env ''content-security-policy'' (sp_content_security_policy policy) (insert_browser_defaults env r))), w))"

definition csp_failure_response :: "'a web_env \<Rightarrow> bool \<Rightarrow> security_policy \<Rightarrow> string option \<Rightarrow> ('x, 'w) response" where
  "csp_failure_response env secure policy csp =
     (let r = status_text 500 ''Security policy conflict'';
          r = (case csp of None \<Rightarrow> r | Some csp \<Rightarrow> insert_header ''content-security-policy'' csp r)
      in apply_browser_headers env secure policy (insert_header ''cache-control'' ''private, no-store'' r))"

definition response_is_html :: "'a web_env \<Rightarrow> ('x, 'w) response \<Rightarrow> bool" where
  "response_is_html env r =
     (case header_text env ''content-type'' (rp_headers r) of
        None \<Rightarrow> False
      | Some v \<Rightarrow> to_ascii_lowercase (str_trim (hd (split_on (CHR '';'') v))) \<in> {''text/html'', ''application/xhtml+xml''})"

text \<open>A nonce that does not validate is a panic of the middleware itself.\<close>

definition nonce_policy_handle :: "'a web_env \<Rightarrow> u8 list \<Rightarrow> security_policy \<Rightarrow> ('a, 'x, 'w) middleware" where
  "nonce_policy_handle env random policy request next_handler w =
     (case (case rq_nonce request of Some nonce \<Rightarrow> Inr nonce | None \<Rightarrow> csp_nonce_new (random_token random)) of
        Inl _ \<Rightarrow> (None, w)
      | Inr nonce \<Rightarrow>
          (let request = request\<lparr>rq_nonce := Some nonce\<rparr>;
               secure = (effective_scheme request = Https)
           in case run_with_panic_boundary request next_handler w of
                (r, w) \<Rightarrow>
                  (Some (case render_nonced_policy (sp_content_security_policy policy) nonce of
                     Inl _ \<Rightarrow> csp_failure_response env secure policy None
                   | Inr csp \<Rightarrow>
                       if \<not> we_header_value env csp then csp_failure_response env secure policy None
                       else if (case header_get ''content-security-policy'' (rp_headers r) of None \<Rightarrow> False | Some existing \<Rightarrow> existing \<noteq> csp)
                       then csp_failure_response env secure policy (Some csp)
                       else
                         (let r = apply_browser_headers env secure policy (insert_header ''content-security-policy'' csp r)
                          in if response_is_html env r
                             then (let r = insert_header ''cache-control'' ''private, no-store'' r
                                   in r\<lparr>rp_headers := header_remove ''last-modified'' (header_remove ''etag'' (rp_headers r))\<rparr>)
                             else r)), w)))"

section \<open>Redaction\<close>

definition sensitive_headers :: "string set" where
  "sensitive_headers = {''authorization'', ''cookie'', ''set-cookie'', ''proxy-authorization'', ''x-api-key'', ''x-csrf-token''}"

text \<open>The values of a name are collected in their order, so the last one stays.\<close>

definition redact_headers :: "'a web_env \<Rightarrow> headers \<Rightarrow> string \<rightharpoonup> string" where
  "redact_headers env h name =
     (if h name = [] then None
      else if name \<in> sensitive_headers then Some ''[REDACTED]''
      else (case we_header_text env (last (h name)) of None \<Rightarrow> Some ''[BINARY]'' | Some v \<Rightarrow> Some v))"

end
