(* ===== verification/Web_Csp_Props.thy ===== *)
theory Web_Csp_Props
  imports Web_Csp
begin

text \<open>
  The policy with a nonce, as a browser reads it: which directives it has, which sources they
  allow, and which base policies are refused.
\<close>

section \<open>Words\<close>

lemma ascii_words_word: "list_all (\<lambda>c. \<not> ascii_space c) w \<Longrightarrow> ascii_words acc (w @ s) = ascii_words (rev w @ acc) s"
  by (induction w arbitrary: acc) auto

lemma ascii_words_not_Nil: "w \<in> set (ascii_words acc s) \<Longrightarrow> w \<noteq> []"
  by (induction acc s rule: ascii_words.induct) (auto split: if_splits)

lemma ascii_words_set: "w \<in> set (ascii_words acc s) \<Longrightarrow> set w \<subseteq> set acc \<union> set s"
  by (induction acc s rule: ascii_words.induct) (fastforce split: if_splits)+

lemma ascii_words_no_space:
  "w \<in> set (ascii_words acc s) \<Longrightarrow> list_all (\<lambda>c. \<not> ascii_space c) acc \<Longrightarrow> list_all (\<lambda>c. \<not> ascii_space c) w"
proof (induction acc s rule: ascii_words.induct)
  case (2 acc c cs)
  then show ?case by (cases "ascii_space c"; cases "acc = []") auto
qed (simp split: if_splits)

definition is_word :: "string \<Rightarrow> bool" where
  "is_word w \<longleftrightarrow> w \<noteq> [] \<and> list_all (\<lambda>c. \<not> ascii_space c) w"

lemma split_words: "w \<in> set (split_ascii_whitespace s) \<Longrightarrow> is_word w \<and> set w \<subseteq> set s"
  using ascii_words_not_Nil [of w "[]" s] ascii_words_set [of w "[]" s] ascii_words_no_space [of w "[]" s]
  by (simp add: split_ascii_whitespace_def is_word_def)

lemma ascii_space_blank [simp]: "ascii_space (CHR '' '')"
  by (simp add: ascii_space_def)

lemma split_join: "\<forall>w \<in> set ws. is_word w \<Longrightarrow> split_ascii_whitespace (join_with '' '' ws) = ws"
proof (induction "'' ''" ws rule: join_with.induct)
  case (2 s)
  then show ?case using ascii_words_word [of s "[]" "[]"] by (simp add: is_word_def split_ascii_whitespace_def)
next
  case (3 s t ss)
  then have "is_word s" by simp
  then show ?case using ascii_words_word [of s "[]" "CHR '' '' # join_with '' '' (t # ss)"] 3
    by (simp add: is_word_def split_ascii_whitespace_def)
qed (simp add: split_ascii_whitespace_def)

lemma split_blank [simp]: "split_ascii_whitespace (CHR '' '' # s) = split_ascii_whitespace s"
  by (simp add: split_ascii_whitespace_def)

lemma trim_start_set: "set (trim_start s) \<subseteq> set s"
proof (induction s rule: trim_start.induct)
  case (1 s)
  then show ?case using set_drop_subset [of "ws_len s" s] by (subst trim_start.simps) auto
qed

lemma trim_end_set: "set (trim_end s) \<subseteq> set s"
proof (induction s rule: trim_end.induct)
  case (1 s)
  then show ?case using set_take_subset [of "length s - ws_end s" s] by (subst trim_end.simps) auto
qed

lemma str_trim_set: "set (str_trim s) \<subseteq> set s"
  using trim_end_set [of "trim_start s"] trim_start_set [of s] by (auto simp: str_trim_def)

lemma join_set: "set (join_with sep ws) \<subseteq> set sep \<union> (\<Union>w \<in> set ws. set w)"
  by (induction sep ws rule: join_with.induct) auto

section \<open>Reading a policy\<close>

text \<open>A browser splits a policy at the semicolons and each directive at its white space.\<close>

definition csp_read :: "string \<Rightarrow> string list list" where
  "csp_read policy = map split_ascii_whitespace (split_on (CHR '';'') policy)"

lemma csp_read_join:
  "ds \<noteq> [] \<Longrightarrow> \<forall>d \<in> set ds. \<forall>w \<in> set d. is_word w \<and> CHR '';'' \<notin> set w \<Longrightarrow>
   csp_read (join_with ''; '' (map (join_with '' '') ds)) = ds"
proof (induction ds rule: induct_list012)
  case (2 d)
  then have "CHR '';'' \<notin> set (join_with '' '' d)" using join_set [of "'' ''" d] by auto
  with 2 show ?case by (simp add: csp_read_def split_on_no_sep split_join)
next
  case (3 d e ds)
  then have "CHR '';'' \<notin> set (join_with '' '' d)" using join_set [of "'' ''" d] by auto
  moreover have "split_on (CHR '';'') (CHR '' '' # s) = (CHR '' '' # hd (split_on (CHR '';'') s)) # tl (split_on (CHR '';'') s)" for s
    by (cases "split_on (CHR '';'') s") auto
  then have "map split_ascii_whitespace (split_on (CHR '';'') (CHR '' '' # s)) = csp_read s" for s
    by (cases "split_on (CHR '';'') s") (auto simp: csp_read_def)
  ultimately show ?case using 3 by (simp add: csp_read_def split_on_append split_join)
qed simp

section \<open>The loop\<close>

definition base_directives :: "string list \<Rightarrow> string list list" where
  "base_directives raws = map split_ascii_whitespace (filter (\<lambda>r. r \<noteq> []) (map str_trim raws))"

definition nonced :: "string \<Rightarrow> string list \<Rightarrow> string list" where
  "nonced nonce_source d =
     hd d # (if hd d \<in> {''script-src'', ''script-src-elem'', ''style-src'', ''style-src-elem''}
             then with_nonce_source nonce_source (tl d) else tl d)"

definition sound_directives :: "string set \<Rightarrow> string list list \<Rightarrow> bool" where
  "sound_directives names ds \<longleftrightarrow>
     (\<forall>d \<in> set ds. d \<noteq> [] \<and> directive_name_ok (hd d) \<and> \<not> list_ex unsafe_source (tl d)) \<and>
     distinct (map hd ds) \<and> hd ` set ds \<inter> names = {}"

definition default_after :: "string list list \<Rightarrow> string list option \<Rightarrow> string list option" where
  "default_after ds old = fold (\<lambda>d old. if hd d = ''default-src'' then Some (tl d) else old) ds old"

lemma directive_text_join: "directive_text name vs = join_with '' '' (name # vs)"
  by (cases vs) (simp_all add: directive_text_def)

lemma inherited_join:
  "inherited_nonce_directive name ds ns =
     join_with '' '' (name # with_nonce_source ns (case ds of None \<Rightarrow> [quoted ''self''] | Some sources \<Rightarrow> sources))"
proof -
  have "join_with '' '' (name # vs) = name @ '' '' @ join_with '' '' vs" if "vs \<noteq> []" for vs
    using that by (cases vs) simp_all
  then show ?thesis by (simp add: inherited_nonce_directive_def with_nonce_source_def)
qed

lemma five_cases:
  obtains "x = a" | "x = b" | "x = c" | "x = d" | "x = e" | "x \<notin> {a, b, c, d, e}"
  by blast

lemma csp_directive_step:
  assumes "str_trim raw \<noteq> []"
  shows "csp_directive ns raw st =
    (let d = split_ascii_whitespace (str_trim raw)
     in if sound_directives (cs_names st) [d]
        then Inr (st\<lparr>cs_directives := cs_directives st @ [join_with '' '' (nonced ns d)], cs_names := insert (hd d) (cs_names st),
               cs_has_script := (cs_has_script st \<or> hd d = ''script-src''), cs_has_style := (cs_has_style st \<or> hd d = ''style-src''),
               cs_default_sources := default_after [d] (cs_default_sources st)\<rparr>)
        else Inl InvalidPolicy)"
proof (cases "split_ascii_whitespace (str_trim raw)")
  case (Cons name vs)
  have sound: "sound_directives (cs_names st) [name # vs] \<longleftrightarrow>
      directive_name_ok name \<and> name \<notin> cs_names st \<and> \<not> list_ex unsafe_source vs"
    by (auto simp: sound_directives_def)
  show ?thesis
    unfolding csp_directive_def Cons Let_def sound
    using assms
    by (cases rule: five_cases [where x = name and a = "''default-src''" and b = "''script-src''" and c = "''script-src-elem''"
        and d = "''style-src''" and e = "''style-src-elem''"])
      (simp_all add: nonced_def default_after_def directive_text_join)
qed (use assms in \<open>simp add: csp_directive_def sound_directives_def\<close>)

lemma csp_loop_exact:
  "csp_loop ns raws st =
    (let ds = base_directives raws
     in if sound_directives (cs_names st) ds
        then Inr (st\<lparr>cs_directives := cs_directives st @ map (join_with '' '' \<circ> nonced ns) ds, cs_names := cs_names st \<union> hd ` set ds,
               cs_has_script := (cs_has_script st \<or> ''script-src'' \<in> hd ` set ds),
               cs_has_style := (cs_has_style st \<or> ''style-src'' \<in> hd ` set ds),
               cs_default_sources := default_after ds (cs_default_sources st)\<rparr>)
        else Inl InvalidPolicy)"
proof (induction raws arbitrary: st)
  case Nil
  then show ?case by (simp add: base_directives_def sound_directives_def default_after_def)
next
  case (Cons raw raws)
  show ?case
  proof (cases "str_trim raw = []")
    case True
    then show ?thesis using Cons.IH [of st] by (simp add: csp_directive_def base_directives_def)
  next
    case False
    let ?d = "split_ascii_whitespace (str_trim raw)"
    have ds: "base_directives (raw # raws) = ?d # base_directives raws" using False by (simp add: base_directives_def)
    have split: "sound_directives (cs_names st) (?d # base_directives raws) \<longleftrightarrow>
        sound_directives (cs_names st) [?d] \<and> sound_directives (insert (hd ?d) (cs_names st)) (base_directives raws)"
      by (auto simp: sound_directives_def)
    show ?thesis
      unfolding csp_loop.simps csp_directive_step [OF False] Let_def ds split
      by (simp add: Cons.IH default_after_def eq_commute disj_assoc Let_def)
  qed
qed

section \<open>The rendered policy\<close>

definition inherited_directives :: "string \<Rightarrow> string list list \<Rightarrow> string list list" where
  "inherited_directives ns ds =
     (let sources = with_nonce_source ns (case default_after ds None of None \<Rightarrow> [quoted ''self''] | Some vs \<Rightarrow> vs)
      in map (\<lambda>name. name # sources) (filter (\<lambda>name. name \<notin> hd ` set ds) [''script-src'', ''style-src'']))"

definition nonced_directives :: "string \<Rightarrow> string list list \<Rightarrow> string list list" where
  "nonced_directives ns ds = map (nonced ns) ds @ inherited_directives ns ds"

definition base_accepted :: "string \<Rightarrow> bool" where
  "base_accepted base \<longleftrightarrow>
     base \<noteq> [] \<and> \<not> list_ex is_ascii_control base \<and> sound_directives {} (base_directives (split_on (CHR '';'') base))"

lemma render_exact:
  "render_nonced_policy base nonce =
     (if base_accepted base
      then Inr (join_with ''; '' (map (join_with '' '')
        (nonced_directives (quoted (''nonce-'' @ nonce)) (base_directives (split_on (CHR '';'') base)))))
      else Inl InvalidPolicy)"
  by (simp add: render_nonced_policy_def csp_loop_exact base_accepted_def nonced_directives_def inherited_directives_def
      inherited_join Let_def comp_def)

lemma base_directives_words:
  "d \<in> set (base_directives (split_on sep base)) \<Longrightarrow> w \<in> set d \<Longrightarrow> is_word w \<and> sep \<notin> set w"
  using split_words str_trim_set split_on_parts by (fastforce simp: base_directives_def)

lemma with_nonce_source_set: "set (with_nonce_source ns vs) = insert ns {v \<in> set vs. \<not> is_none_source v}"
  by (auto simp: with_nonce_source_def)

lemma default_after_in: "default_after ds None = Some vs \<Longrightarrow> \<exists>d \<in> set ds. hd d = ''default-src'' \<and> vs = tl d"
proof -
  have "default_after ds old = Some vs \<Longrightarrow> old = Some vs \<or> (\<exists>d \<in> set ds. hd d = ''default-src'' \<and> vs = tl d)" for old
    by (induction ds arbitrary: old) (fastforce simp: default_after_def split: if_splits)+
  from this [of None] show "default_after ds None = Some vs \<Longrightarrow> \<exists>d \<in> set ds. hd d = ''default-src'' \<and> vs = tl d" by simp
qed

text \<open>Every source of the result is the nonce, a source of the base, or \<open>'self'\<close>.\<close>

lemma nonced_sources:
  assumes "d \<in> set (nonced_directives ns ds)" and "v \<in> set (tl d)"
  shows "v = ns \<or> v = quoted ''self'' \<or> (\<exists>e \<in> set ds. v \<in> set (tl e))"
  using assms
  by (auto simp: nonced_directives_def nonced_def inherited_directives_def with_nonce_source_set Let_def
      split: if_splits option.splits dest: default_after_in)

lemma nonced_names:
  assumes "distinct (map hd ds)"
  shows "distinct (map hd (nonced_directives ns ds))"
proof -
  have "map hd (nonced_directives ns ds) = map hd ds @ filter (\<lambda>name. name \<notin> hd ` set ds) [''script-src'', ''style-src'']"
    by (simp add: nonced_directives_def inherited_directives_def nonced_def comp_def Let_def)
  with assms show ?thesis by auto
qed

lemma nonced_has:
  assumes "name = ''script-src'' \<or> name = ''style-src''" and "\<forall>d \<in> set ds. d \<noteq> []"
  shows "\<exists>vs. name # with_nonce_source ns vs \<in> set (nonced_directives ns ds)"
proof (cases "name \<in> hd ` set ds")
  case True
  then obtain d where "d \<in> set ds" "hd d = name" by auto
  then have "name # with_nonce_source ns (tl d) \<in> set (map (nonced ns) ds)"
    using assms(1) by (force simp: nonced_def)
  then show ?thesis by (auto simp: nonced_directives_def)
next
  case False
  then show ?thesis using assms(1) by (auto simp: nonced_directives_def inherited_directives_def Let_def)
qed

lemma nonce_word:
  assumes "csp_nonce_new nonce = Inr nonce"
  shows "is_word (quoted (''nonce-'' @ nonce)) \<and> CHR '';'' \<notin> set (quoted (''nonce-'' @ nonce))"
proof -
  have "\<not> ascii_space c \<and> c \<noteq> CHR '';''" if "is_ascii_alphabetic c \<or> is_ascii_digit c \<or> c \<in> set ''+/_-=''" for c
    using that by (auto simp: ascii_space_def is_ascii_alphabetic_def is_ascii_digit_def byte_in_def)
  then show ?thesis using assms
    by (auto simp: csp_nonce_new_def is_word_def quoted_def ascii_space_def list_all_iff split: if_splits)
qed

lemma nonced_words:
  assumes "csp_nonce_new nonce = Inr nonce" and "\<forall>d \<in> set ds. d \<noteq> []" and "\<forall>d \<in> set ds. \<forall>w \<in> set d. is_word w \<and> CHR '';'' \<notin> set w"
    and d: "d \<in> set (nonced_directives (quoted (''nonce-'' @ nonce)) ds)" and "w \<in> set d"
  shows "is_word w \<and> CHR '';'' \<notin> set w"
proof -
  have names: "hd d \<in> hd ` set ds \<union> {''script-src'', ''style-src''}" and "d \<noteq> []"
    using d by (auto simp: nonced_directives_def nonced_def inherited_directives_def Let_def split: if_splits)
  have const: "is_word v \<and> CHR '';'' \<notin> set v" if "v \<in> {''script-src'', ''style-src'', quoted ''self''}" for v
    using that by (auto simp: is_word_def ascii_space_def quoted_def)
  consider "w = hd d" | "w \<in> set (tl d)" using \<open>w \<in> set d\<close> \<open>d \<noteq> []\<close> by (cases d) auto
  then show ?thesis
  proof cases
    case 1
    from names consider e where "e \<in> set ds" "hd d = hd e" | "hd d \<in> {''script-src'', ''style-src''}" by blast
    then show ?thesis
    proof cases
      case (1 e)
      then show ?thesis using \<open>w = hd d\<close> assms(2,3) hd_in_set [of e] by metis
    next
      case 2
      then show ?thesis using const [of w] \<open>w = hd d\<close> by blast
    qed
  next
    case 2
    then show ?thesis using nonced_sources [OF d 2] nonce_word [OF assms(1)] const [of w] assms(2,3)
      by (metis insertI1 insertI2 list.set_sel(2))
  qed
qed

lemma random_token_chars:
  "length (random_token bs) = 2 * length bs" "c \<in> set (random_token bs) \<Longrightarrow> c \<in> set ''0123456789abcdef''"
proof -
  show "length (random_token bs) = 2 * length bs" by (induction bs) (simp_all add: random_token_def)
  have "unat (drop_bit 4 b) < 16" "unat (and b 0x0f) < 16" for b :: u8
  proof -
    have "unat (drop_bit 4 b) = unat b div 16" by (simp add: drop_bit_eq_div unat_div)
    moreover have "unat b < 256" using unsigned_less [of b, where 'a = nat] by simp
    ultimately show "unat (drop_bit 4 b) < 16" by linarith
    have "and b 0x0f \<le> 0x0f" by (rule word_and_le1)
    then show "unat (and b 0x0f) < 16" by (simp add: word_le_nat_alt)
  qed
  moreover have "hex_char n \<in> set ''0123456789abcdef''" if "n < 16" for n
    unfolding hex_char_def by (rule nth_mem) (use that in simp)
  ultimately have "hex_char (unat (drop_bit 4 b)) \<in> set ''0123456789abcdef''" "hex_char (unat (and b 0x0f)) \<in> set ''0123456789abcdef''" for b :: u8
    by blast+
  then show "c \<in> set (random_token bs) \<Longrightarrow> c \<in> set ''0123456789abcdef''"
    unfolding random_token_def by auto
qed

lemma random_token_nonce: "length bs = 16 \<Longrightarrow> csp_nonce_new (random_token bs) = Inr (random_token bs)"
proof -
  have "list_all (\<lambda>c. is_ascii_alphabetic c \<or> is_ascii_digit c) ''0123456789abcdef''" by code_simp
  then have "list_all (\<lambda>c. is_ascii_alphabetic c \<or> is_ascii_digit c) (random_token bs)"
    using random_token_chars(2) [of _ bs] unfolding list_all_iff by blast
  then have "list_all (\<lambda>b. is_ascii_alphabetic b \<or> is_ascii_digit b \<or> b \<in> set ''+/_-='') (random_token bs)"
    unfolding list_all_iff by blast
  then show "length bs = 16 \<Longrightarrow> csp_nonce_new (random_token bs) = Inr (random_token bs)"
    by (simp only: csp_nonce_new_def random_token_chars(1)) simp
qed

text \<open>
Rendering a policy with a valid nonce. The base is refused exactly when it is empty, has a
control character, or has a directive with a bad or repeated name or an unsafe source.
Otherwise the browser reads, in order, the directives of the base, with the nonce in place of
\<open>'none'\<close> in the script and style directives, followed by a script and a style directive
inherited from the default if the base had none. No name is repeated; scripts and styles are
allowed by the nonce and not forbidden by \<open>'none'\<close>; no source allows inline code, and the only
nonce in the policy is the one given.
\<close>

theorem nonced_policy_exact:
  fixes base nonce :: string
  assumes "csp_nonce_new nonce = Inr nonce"
  defines "ns \<equiv> quoted (''nonce-'' @ nonce)" and "ds \<equiv> base_directives (split_on (CHR '';'') base)"
  shows "case render_nonced_policy base nonce of
      Inl e \<Rightarrow> e = InvalidPolicy \<and> (base = [] \<or> list_ex is_ascii_control base \<or> \<not> sound_directives {} ds)
    | Inr policy \<Rightarrow>
        csp_read policy = map (nonced ns) ds @ inherited_directives ns ds
        \<and> distinct (map hd (csp_read policy))
        \<and> (\<forall>name \<in> {''script-src'', ''style-src''}. \<exists>sources. name # sources \<in> set (csp_read policy)
             \<and> ns \<in> set sources \<and> (\<forall>v \<in> set sources. v \<noteq> ns \<longrightarrow> \<not> is_none_source v))
        \<and> (\<forall>d \<in> set (csp_read policy). \<forall>v \<in> set (tl d). v \<noteq> ns \<longrightarrow> \<not> unsafe_source v)"
proof (cases "base_accepted base")
  case False
  then show ?thesis by (auto simp: render_exact base_accepted_def ds_def)
next
  case True
  then have sound: "sound_directives {} ds" by (simp add: base_accepted_def ds_def)
  then have ne: "\<forall>d \<in> set ds. d \<noteq> []" by (simp add: sound_directives_def)
  have words: "\<forall>d \<in> set ds. \<forall>w \<in> set d. is_word w \<and> CHR '';'' \<notin> set w"
    using base_directives_words by (auto simp: ds_def)
  have read: "csp_read (join_with ''; '' (map (join_with '' '') (nonced_directives ns ds))) = nonced_directives ns ds"
  proof (rule csp_read_join)
    show "nonced_directives ns ds \<noteq> []" using nonced_has [of "''script-src''" ds ns] ne by auto
    show "\<forall>d \<in> set (nonced_directives ns ds). \<forall>w \<in> set d. is_word w \<and> CHR '';'' \<notin> set w"
      using nonced_words [OF assms(1) ne words] by (auto simp: ns_def)
  qed
  have has: "\<exists>sources. name # sources \<in> set (nonced_directives ns ds) \<and> ns \<in> set sources \<and> (\<forall>v \<in> set sources. v \<noteq> ns \<longrightarrow> \<not> is_none_source v)"
    if "name \<in> {''script-src'', ''style-src''}" for name
    using nonced_has [of name ds ns] that ne with_nonce_source_set [of ns] by (metis (no_types, lifting) insert_iff mem_Collect_eq singletonD)
  have "\<not> unsafe_source (quoted ''self'')" by code_simp
  then have safe: "\<not> unsafe_source v" if "d \<in> set (nonced_directives ns ds)" "v \<in> set (tl d)" "v \<noteq> ns" for d v
    using nonced_sources [OF that(1,2)] that(3) sound by (auto simp: sound_directives_def list_ex_iff)
  have dist: "distinct (map hd (nonced_directives ns ds))"
    using sound by (intro nonced_names) (simp add: sound_directives_def)
  show ?thesis
    unfolding render_exact ns_def [symmetric] ds_def [symmetric] if_P [OF True] sum.case read
    using has safe dist by (intro conjI ballI) (auto simp: nonced_directives_def)
qed

theorem nonced_policy_exact_witness:
  "case render_nonced_policy (''default-src '' @ quoted ''none'') ''0123456789abcdef'' of
     Inl _ \<Rightarrow> False
   | Inr policy \<Rightarrow> csp_read policy
       = [[''default-src'', quoted ''none''], [''script-src'', quoted ''nonce-0123456789abcdef''], [''style-src'', quoted ''nonce-0123456789abcdef'']]"
proof -
  have nonce: "csp_nonce_new ''0123456789abcdef'' = Inr ''0123456789abcdef''" by code_simp
  have accepted: "case render_nonced_policy (''default-src '' @ quoted ''none'') ''0123456789abcdef'' of Inl _ \<Rightarrow> False | Inr _ \<Rightarrow> True"
    by code_simp
  have reads: "map (nonced (quoted (''nonce-'' @ ''0123456789abcdef''))) (base_directives (split_on (CHR '';'') (''default-src '' @ quoted ''none'')))
      @ inherited_directives (quoted (''nonce-'' @ ''0123456789abcdef'')) (base_directives (split_on (CHR '';'') (''default-src '' @ quoted ''none'')))
    = [[''default-src'', quoted ''none''], [''script-src'', quoted ''nonce-0123456789abcdef''], [''style-src'', quoted ''nonce-0123456789abcdef'']]"
    by code_simp
  show ?thesis
    using nonced_policy_exact [OF nonce, of "''default-src '' @ quoted ''none''"] accepted reads
    by (simp split: sum.splits)
qed

end
