(* ===== verification/Web_Session.thy ===== *)
theory Web_Session
  imports Http_Core
begin

text \<open>
  Server-side sessions (\<open>phoenix-security\<close>, \<open>lib.rs\<close>) and signing in (\<open>phoenix-auth\<close>, \<open>identity.rs\<close>). A
  local session is its identifier in a shared table of records; a distributed one carries
  its values until it is committed. Clock readings (\<open>now\<close>, in nanoseconds of the monotonic
  clock) and random tokens are arguments. Values are JSON values, of which only strings and
  numbers are told apart, a number by its text.
\<close>

section \<open>Sessions\<close>

datatype 'j json_value = JString string | JNumber string | JOther 'j

type_synonym 'j session_values = "string \<rightharpoonup> 'j json_value"

record 'j session_record =
  sr_values :: "'j session_values"
  sr_expires_at :: nat

record 'j session_store =
  st_records :: "string \<rightharpoonup> 'j session_record"
  st_ttl :: duration

record 'j distributed_session =
  ds_id :: string
  ds_original_id :: "string option"
  ds_version :: "u64 option"
  ds_values :: "'j session_values"
  ds_dirty :: bool
  ds_rotated :: bool
  ds_destroyed :: bool

datatype 'j session = LocalSession string bool | DistributedSession "'j distributed_session"

text \<open>A handle together with the table it shares.\<close>

type_synonym 'j session_state = "'j session \<times> 'j session_store"

definition session_store_memory :: "duration \<Rightarrow> 'j session_store" where
  "session_store_memory ttl = \<lparr>st_records = Map.empty, st_ttl = ttl\<rparr>"

definition session_store_open :: "nat \<Rightarrow> string \<Rightarrow> string option \<Rightarrow> 'j session_store \<Rightarrow> 'j session_state \<times> bool" where
  "session_store_open now token sid st =
     (let records = (\<lambda>i. case st_records st i of None \<Rightarrow> None | Some r \<Rightarrow> if sr_expires_at r > now then Some r else None);
          existing = (case sid of None \<Rightarrow> None | Some i \<Rightarrow> if records i \<noteq> None then Some i else None);
          i = (case existing of None \<Rightarrow> token | Some i \<Rightarrow> i);
          r = (case records i of
                 None \<Rightarrow> \<lparr>sr_values = Map.empty, sr_expires_at = now + st_ttl st\<rparr>
               | Some r \<Rightarrow> r\<lparr>sr_expires_at := now + st_ttl st\<rparr>)
      in ((LocalSession i False, st\<lparr>st_records := records(i \<mapsto> r)\<rparr>), existing = None))"

record 'j session_snapshot =
  sn_values :: "'j session_values"
  sn_version :: u64
  sn_expires_at :: u64

definition session_distributed :: "string \<Rightarrow> 'j session_snapshot option \<Rightarrow> 'j session" where
  "session_distributed sid snapshot =
     (let (original_id, version, values) =
            (case snapshot of
               None \<Rightarrow> (None, None, Map.empty)
             | Some snapshot \<Rightarrow> (Some sid, Some (sn_version snapshot), sn_values snapshot))
      in DistributedSession \<lparr>ds_id = sid, ds_original_id = original_id, ds_version = version, ds_values = values,
           ds_dirty = False, ds_rotated = False, ds_destroyed = False\<rparr>)"

fun session_id :: "'j session_state \<Rightarrow> string" where
  "session_id (LocalSession i _, _) = i"
| "session_id (DistributedSession d, _) = ds_id d"

fun session_get :: "string \<Rightarrow> 'j session_state \<Rightarrow> 'j json_value option" where
  "session_get key (LocalSession i _, st) = Option.bind (st_records st i) (\<lambda>r. sr_values r key)"
| "session_get key (DistributedSession d, _) = (if ds_destroyed d then None else ds_values d key)"

definition session_csrf_token :: "'j session_state \<Rightarrow> string option" where
  "session_csrf_token s = (case session_get ''_csrf'' s of Some (JString v) \<Rightarrow> Some v | _ \<Rightarrow> None)"

definition with_local_record_mut :: "string \<Rightarrow> ('j session_record \<Rightarrow> 'j session_record) \<Rightarrow> 'j session_store \<Rightarrow> 'j session_store" where
  "with_local_record_mut i operation st =
     (case st_records st i of None \<Rightarrow> st | Some r \<Rightarrow> st\<lparr>st_records := (st_records st)(i \<mapsto> operation r)\<rparr>)"

fun session_put :: "string \<Rightarrow> 'j json_value \<Rightarrow> 'j session_state \<Rightarrow> 'j session_state" where
  "session_put key v (LocalSession i destroyed, st) =
     (LocalSession i destroyed, with_local_record_mut i (\<lambda>r. r\<lparr>sr_values := (sr_values r)(key \<mapsto> v)\<rparr>) st)"
| "session_put key v (DistributedSession d, st) =
     (DistributedSession (if ds_destroyed d then d else d\<lparr>ds_values := (ds_values d)(key \<mapsto> v), ds_dirty := True\<rparr>), st)"

fun session_remove :: "string \<Rightarrow> 'j session_state \<Rightarrow> 'j session_state" where
  "session_remove key (LocalSession i destroyed, st) =
     (LocalSession i destroyed, with_local_record_mut i (\<lambda>r. r\<lparr>sr_values := (sr_values r)(key := None)\<rparr>) st)"
| "session_remove key (DistributedSession d, st) =
     (DistributedSession (if \<not> ds_destroyed d \<and> ds_values d key \<noteq> None
        then d\<lparr>ds_values := (ds_values d)(key := None), ds_dirty := True\<rparr> else d), st)"

fun session_rotate :: "bool \<Rightarrow> nat \<Rightarrow> string \<Rightarrow> 'j session_state \<Rightarrow> 'j session_state" where
  "session_rotate clear now token (LocalSession i destroyed, st) =
     (if destroyed then (LocalSession i destroyed, st)
      else
        (let r = (case st_records st i of None \<Rightarrow> \<lparr>sr_values = Map.empty, sr_expires_at = now + st_ttl st\<rparr> | Some r \<Rightarrow> r);
             r = (if clear then r\<lparr>sr_values := Map.empty\<rparr> else r);
             r = r\<lparr>sr_expires_at := now + st_ttl st\<rparr>
         in (LocalSession token destroyed, st\<lparr>st_records := ((st_records st)(i := None))(token \<mapsto> r)\<rparr>)))"
| "session_rotate clear now token (DistributedSession d, st) =
     (if ds_destroyed d then (DistributedSession d, st)
      else
        (let d = (if clear then d\<lparr>ds_values := Map.empty, ds_dirty := True\<rparr> else d)
         in (DistributedSession (d\<lparr>ds_id := token, ds_rotated := (ds_version d \<noteq> None)\<rparr>), st)))"

definition session_regenerate :: "nat \<Rightarrow> string \<Rightarrow> 'j session_state \<Rightarrow> 'j session_state" where
  "session_regenerate now token s = session_rotate False now token s"

definition session_invalidate :: "nat \<Rightarrow> string \<Rightarrow> 'j session_state \<Rightarrow> 'j session_state" where
  "session_invalidate now token s = session_rotate True now token s"

fun session_destroy :: "'j session_state \<Rightarrow> 'j session_state" where
  "session_destroy (LocalSession i _, st) = (LocalSession i True, st\<lparr>st_records := (st_records st)(i := None)\<rparr>)"
| "session_destroy (DistributedSession d, st) =
     (DistributedSession (d\<lparr>ds_values := Map.empty, ds_destroyed := True, ds_dirty := False, ds_rotated := False\<rparr>), st)"

fun is_destroyed :: "'j session_state \<Rightarrow> bool" where
  "is_destroyed (LocalSession _ destroyed, _) = destroyed"
| "is_destroyed (DistributedSession d, _) = ds_destroyed d"

text \<open>What a request commits is the state of its session.\<close>

fun distributed_commit :: "'j session \<Rightarrow> 'j distributed_session option" where
  "distributed_commit (LocalSession _ _) = None"
| "distributed_commit (DistributedSession d) = Some d"

fun replace_distributed_id :: "string \<Rightarrow> 'j session \<Rightarrow> 'j session" where
  "replace_distributed_id i (LocalSession j destroyed) = LocalSession j destroyed"
| "replace_distributed_id i (DistributedSession d) = DistributedSession (d\<lparr>ds_id := i\<rparr>)"

section \<open>Identity\<close>

definition AUTH_SESSION_KEY :: string where
  "AUTH_SESSION_KEY = ''auth.user_id''"

definition session_identity :: "'j session_state \<Rightarrow> string option" where
  "session_identity s =
     (case session_get AUTH_SESSION_KEY s of Some (JString v) \<Rightarrow> Some v | Some (JNumber v) \<Rightarrow> Some v | _ \<Rightarrow> None)"

definition session_set_identity :: "string \<Rightarrow> 'j session_state \<Rightarrow> 'j session_state" where
  "session_set_identity subject s = session_put AUTH_SESSION_KEY (JString subject) s"

definition session_clear_identity :: "'j session_state \<Rightarrow> 'j session_state" where
  "session_clear_identity s = session_remove AUTH_SESSION_KEY s"

text \<open>The trait \<open>AuthSession\<close>, over any type of sessions.\<close>

record 's auth_session =
  as_identity :: "'s \<Rightarrow> string option"
  as_set_identity :: "string \<Rightarrow> 's \<Rightarrow> 's"
  as_clear_identity :: "'s \<Rightarrow> 's"
  as_rotate :: "nat \<Rightarrow> string \<Rightarrow> 's \<Rightarrow> 's"

definition web_session :: "'j session_state auth_session" where
  "web_session = \<lparr>as_identity = session_identity, as_set_identity = session_set_identity,
     as_clear_identity = session_clear_identity, as_rotate = session_regenerate\<rparr>"

section \<open>Signing in\<close>

record auth_user =
  au_id :: string
  au_identifier :: string
  au_name :: string
  au_password_hash :: string
  au_roles :: "string list"

datatype auth_error = ProviderError string | PasswordError string

definition auth_user_new :: "string \<Rightarrow> string \<Rightarrow> string \<Rightarrow> auth_user" where
  "auth_user_new i identifier password_hash =
     \<lparr>au_id = i, au_identifier = identifier, au_name = identifier, au_password_hash = password_hash, au_roles = []\<rparr>"

text \<open>The trait \<open>UserProvider\<close>, on the state \<open>'w\<close> of its backing store.\<close>

record 'w user_provider =
  up_find_by_identifier :: "string \<Rightarrow> ('w, auth_error, auth_user option) op"
  up_find_by_id :: "string \<Rightarrow> ('w, auth_error, auth_user option) op"

text \<open>\<open>Password::verify\<close> is the argument \<open>verify\<close>; an error of it counts as a mismatch.\<close>

definition verify_password :: "(string \<Rightarrow> string \<Rightarrow> bool option) \<Rightarrow> string \<Rightarrow> string \<Rightarrow> bool" where
  "verify_password verify password hash = (case verify password hash of None \<Rightarrow> False | Some matches \<Rightarrow> matches)"

definition guard_login :: "'s auth_session \<Rightarrow> nat \<Rightarrow> string \<Rightarrow> auth_user \<Rightarrow> 's \<Rightarrow> 's" where
  "guard_login ses now token user s = as_set_identity ses (au_id user) (as_rotate ses now token s)"

definition guard_logout :: "'s auth_session \<Rightarrow> nat \<Rightarrow> string \<Rightarrow> 's \<Rightarrow> 's" where
  "guard_logout ses now token s = as_rotate ses now token (as_clear_identity ses s)"

definition guard_id :: "'s auth_session \<Rightarrow> 's \<Rightarrow> string option" where
  "guard_id ses s = as_identity ses s"

definition guard_attempt :: "'s auth_session \<Rightarrow> 'w user_provider \<Rightarrow> (string \<Rightarrow> string \<Rightarrow> bool option) \<Rightarrow> nat \<Rightarrow> string \<Rightarrow> string \<Rightarrow> string \<Rightarrow>
    ('s \<times> 'w, auth_error, auth_user option) op" where
  "guard_attempt ses provider verify now token identifier password =
     op_bind (on_snd (up_find_by_identifier provider identifier)) (\<lambda>found.
       case found of
         None \<Rightarrow> op_return None
       | Some user \<Rightarrow>
           if verify_password verify password (au_password_hash user)
           then (\<lambda>(s, w). (Inr (Some user), (guard_login ses now token user s, w)))
           else op_return None)"

definition guard_user :: "'s auth_session \<Rightarrow> 'w user_provider \<Rightarrow> ('s \<times> 'w, auth_error, auth_user option) op" where
  "guard_user ses provider = (\<lambda>(s, w).
     case as_identity ses s of
       None \<Rightarrow> (Inr None, (s, w))
     | Some i \<Rightarrow> on_snd (up_find_by_id provider i) (s, w))"

end
