(* ===== verification/Session_Backend.thy ===== *)
theory Session_Backend
  imports Web_Session Web_Guard
begin

text \<open>
  Sessions shared by several application instances (\<open>phoenix-security\<close>, \<open>session_backend.rs\<close> and
  \<open>lib.rs\<close>): the backend interface and its in-memory implementation, the commit of a session at
  the end of a request, the session middleware with its cookies, and the CSRF middleware.

  A backend works on a state \<open>'b\<close>. The session of a request is a shared cell: it is part of the
  state a handler runs on, next to the in-process table, the state of the backend and the rest
  of the world; the request says whether it carries a session. Clock readings in seconds and
  the random tokens are arguments; \<open>tokens n\<close> is the token drawn when \<open>n\<close> attempts are left.
\<close>

section \<open>Backends\<close>

datatype session_write = Saved u64 | WriteConflict | WriteMissing | WriteCollision

record ('b, 'j) session_backend =
  sb_load :: "string \<Rightarrow> u64 \<Rightarrow> u64 \<Rightarrow> ('b, string, 'j session_snapshot option) op"
  sb_create :: "string \<Rightarrow> 'j session_values \<Rightarrow> u64 \<Rightarrow> ('b, string, session_write) op"
  sb_save :: "string \<Rightarrow> u64 \<Rightarrow> 'j session_values \<Rightarrow> u64 \<Rightarrow> ('b, string, session_write) op"
  sb_rotate :: "string \<Rightarrow> string \<Rightarrow> u64 \<Rightarrow> 'j session_values \<Rightarrow> u64 \<Rightarrow> ('b, string, session_write) op"
  sb_delete :: "string \<Rightarrow> u64 \<Rightarrow> ('b, string, session_write) op"

type_synonym 'j memory_sessions = "string \<rightharpoonup> 'j session_snapshot"

definition memory_load :: "string \<Rightarrow> u64 \<Rightarrow> u64 \<Rightarrow> ('j memory_sessions, string, 'j session_snapshot option) op" where
  "memory_load i now refresh_expires_at m =
     (let m = (\<lambda>i. case m i of None \<Rightarrow> None | Some r \<Rightarrow> if sn_expires_at r > now then Some r else None)
      in case m i of
           None \<Rightarrow> (Inr None, m)
         | Some r \<Rightarrow>
             (let r = r\<lparr>sn_expires_at := max (sn_expires_at r) refresh_expires_at\<rparr>
              in (Inr (Some r), m(i \<mapsto> r))))"

definition memory_create :: "string \<Rightarrow> 'j session_values \<Rightarrow> u64 \<Rightarrow> ('j memory_sessions, string, session_write) op" where
  "memory_create i values expires_at m =
     (if m i \<noteq> None then (Inr WriteCollision, m)
      else (Inr (Saved 1), m(i \<mapsto> \<lparr>sn_values = values, sn_version = 1, sn_expires_at = expires_at\<rparr>)))"

definition memory_save :: "string \<Rightarrow> u64 \<Rightarrow> 'j session_values \<Rightarrow> u64 \<Rightarrow> ('j memory_sessions, string, session_write) op" where
  "memory_save i expected_version values expires_at m =
     (case m i of
        None \<Rightarrow> (Inr WriteMissing, m)
      | Some r \<Rightarrow>
          if sn_version r \<noteq> expected_version then (Inr WriteConflict, m)
          else
            (let version = w_saturating_add (sn_version r) 1
             in (Inr (Saved version), m(i \<mapsto> \<lparr>sn_values = values, sn_version = version, sn_expires_at = expires_at\<rparr>))))"

definition memory_rotate :: "string \<Rightarrow> string \<Rightarrow> u64 \<Rightarrow> 'j session_values \<Rightarrow> u64 \<Rightarrow> ('j memory_sessions, string, session_write) op" where
  "memory_rotate old_id new_id expected_version values expires_at m =
     (if m new_id \<noteq> None then (Inr WriteCollision, m)
      else (case m old_id of
              None \<Rightarrow> (Inr WriteMissing, m)
            | Some old \<Rightarrow>
                if sn_version old \<noteq> expected_version then (Inr WriteConflict, m)
                else
                  (let version = w_saturating_add (sn_version old) 1
                   in (Inr (Saved version),
                       (m(old_id := None))(new_id \<mapsto> \<lparr>sn_values = values, sn_version = version, sn_expires_at = expires_at\<rparr>)))))"

definition memory_delete :: "string \<Rightarrow> u64 \<Rightarrow> ('j memory_sessions, string, session_write) op" where
  "memory_delete i expected_version m =
     (case m i of
        None \<Rightarrow> (Inr WriteMissing, m)
      | Some r \<Rightarrow>
          if sn_version r \<noteq> expected_version then (Inr WriteConflict, m)
          else (Inr (Saved (w_saturating_add expected_version 1)), m(i := None)))"

definition memory_backend :: "('j memory_sessions, 'j) session_backend" where
  "memory_backend = \<lparr>sb_load = memory_load, sb_create = memory_create, sb_save = memory_save, sb_rotate = memory_rotate, sb_delete = memory_delete\<rparr>"

section \<open>Commit\<close>

datatype session_commit_result = CommitPersisted | CommitConflict | CommitStoreError

definition classify_session_write :: "string + session_write \<Rightarrow> session_commit_result" where
  "classify_session_write result =
     (case result of
        Inr (Saved _) \<Rightarrow> CommitPersisted
      | Inr WriteConflict \<Rightarrow> CommitConflict
      | Inr WriteMissing \<Rightarrow> CommitConflict
      | Inr WriteCollision \<Rightarrow> CommitStoreError
      | Inl _ \<Rightarrow> CommitStoreError)"

definition SESSION_ID_BYTES :: nat where
  "SESSION_ID_BYTES = 32"

definition SESSION_ID_ATTEMPTS :: nat where
  "SESSION_ID_ATTEMPTS = 4"

text \<open>The loop shared by creation and rotation: \<open>write i\<close> tries the identifier \<open>i\<close>.\<close>

fun write_attempts :: "(string \<Rightarrow> ('b, string, session_write) op) \<Rightarrow> (nat \<Rightarrow> string) \<Rightarrow> nat \<Rightarrow> string \<Rightarrow> 'j session \<Rightarrow> 'b \<Rightarrow>
    session_commit_result \<times> 'j session \<times> 'b" where
  "write_attempts write tokens 0 i session b = (CommitStoreError, session, b)"
| "write_attempts write tokens (Suc n) i session b =
     (case write i b of
        (Inr (Saved _), b) \<Rightarrow> (CommitPersisted, session, b)
      | (Inr WriteCollision, b) \<Rightarrow> write_attempts write tokens n (tokens n) (replace_distributed_id (tokens n) session) b
      | (Inr WriteConflict, b) \<Rightarrow> (CommitConflict, session, b)
      | (Inr WriteMissing, b) \<Rightarrow> (CommitConflict, session, b)
      | (Inl _, b) \<Rightarrow> (CommitStoreError, session, b))"

definition create_distributed_session :: "('b, 'j) session_backend \<Rightarrow> (nat \<Rightarrow> string) \<Rightarrow> 'j session \<Rightarrow> 'j distributed_session \<Rightarrow> u64 \<Rightarrow> 'b \<Rightarrow>
    session_commit_result \<times> 'j session \<times> 'b" where
  "create_distributed_session sb tokens session commit expires_at b =
     write_attempts (\<lambda>i. sb_create sb i (ds_values commit) expires_at) tokens SESSION_ID_ATTEMPTS (ds_id commit) session b"

definition rotate_distributed_session :: "('b, 'j) session_backend \<Rightarrow> (nat \<Rightarrow> string) \<Rightarrow> 'j session \<Rightarrow> string \<Rightarrow> u64 \<Rightarrow> 'j distributed_session \<Rightarrow> u64 \<Rightarrow> 'b \<Rightarrow>
    session_commit_result \<times> 'j session \<times> 'b" where
  "rotate_distributed_session sb tokens session original_id version commit expires_at b =
     write_attempts (\<lambda>i. sb_rotate sb original_id i version (ds_values commit) expires_at) tokens SESSION_ID_ATTEMPTS (ds_id commit) session b"

definition delete_distributed_session :: "('b, 'j) session_backend \<Rightarrow> 'j distributed_session \<Rightarrow> 'b \<Rightarrow> session_commit_result \<times> 'b" where
  "delete_distributed_session sb commit b =
     (case (ds_original_id commit, ds_version commit) of
        (Some i, Some version) \<Rightarrow> (case sb_delete sb i version b of (r, b) \<Rightarrow> (classify_session_write r, b))
      | _ \<Rightarrow> (CommitPersisted, b))"

definition commit_distributed_session :: "('b, 'j) session_backend \<Rightarrow> (nat \<Rightarrow> string) \<Rightarrow> u64 \<Rightarrow> u64 \<Rightarrow> 'j session \<Rightarrow> 'b \<Rightarrow>
    session_commit_result \<times> 'j session \<times> 'b" where
  "commit_distributed_session sb tokens now ttl_secs session b =
     (case distributed_commit session of
        None \<Rightarrow> (CommitStoreError, session, b)
      | Some commit \<Rightarrow>
          if ds_destroyed commit then (case delete_distributed_session sb commit b of (r, b) \<Rightarrow> (r, session, b))
          else
            (let expires_at = w_saturating_add now ttl_secs
             in case ds_version commit of
                  None \<Rightarrow> create_distributed_session sb tokens session commit expires_at b
                | Some version \<Rightarrow>
                    (case ds_original_id commit of
                       None \<Rightarrow> (CommitStoreError, session, b)
                     | Some original_id \<Rightarrow>
                         if ds_rotated commit then rotate_distributed_session sb tokens session original_id version commit expires_at b
                         else if \<not> ds_dirty commit then (CommitPersisted, session, b)
                         else (case sb_save sb (ds_id commit) version (ds_values commit) expires_at b of
                                 (r, b) \<Rightarrow> (classify_session_write r, session, b)))))"

section \<open>Cookies\<close>

datatype same_site = Strict | Lax | SameSiteNone

fun same_site_str :: "same_site \<Rightarrow> string" where
  "same_site_str Strict = ''Strict''"
| "same_site_str Lax = ''Lax''"
| "same_site_str SameSiteNone = ''None''"

record session_config =
  sc_cookie_name :: string
  sc_path :: string
  sc_domain :: "string option"
  sc_secure :: bool
  sc_http_only :: bool
  sc_same_site :: same_site
  sc_max_age_secs :: u64

definition session_config_default :: session_config where
  "session_config_default =
     \<lparr>sc_cookie_name = ''phoenix_session'', sc_path = ''/'', sc_domain = None, sc_secure = True, sc_http_only = True,
      sc_same_site = Lax, sc_max_age_secs = 7200\<rparr>"

definition cookie_attributes :: "session_config \<Rightarrow> string" where
  "cookie_attributes config =
     (case sc_domain config of None \<Rightarrow> [] | Some domain \<Rightarrow> ''; Domain='' @ domain) @
     (if sc_secure config \<or> sc_same_site config = SameSiteNone then ''; Secure'' else []) @
     (if sc_http_only config then ''; HttpOnly'' else [])"

definition session_cookie :: "string \<Rightarrow> session_config \<Rightarrow> string" where
  "session_cookie sid config =
     sc_cookie_name config @ ''='' @ sid @ ''; Path='' @ sc_path config @ ''; Max-Age='' @
     nat_to_string (unat (sc_max_age_secs config)) @ ''; SameSite='' @ same_site_str (sc_same_site config) @ cookie_attributes config"

definition expired_session_cookie :: "session_config \<Rightarrow> string" where
  "expired_session_cookie config =
     sc_cookie_name config @ ''=; Path='' @ sc_path config @ ''; Max-Age=0; SameSite='' @ same_site_str (sc_same_site config) @
     cookie_attributes config"

definition append_session_cookie :: "'a web_env \<Rightarrow> 'j session_state \<Rightarrow> session_config \<Rightarrow> ('x, 'w) response \<Rightarrow> ('x, 'w) response" where
  "append_session_cookie env s config response =
     (let cookie = (if is_destroyed s then expired_session_cookie config else session_cookie (session_id s) config)
      in if we_header_value env cookie then response\<lparr>rp_headers := header_append ''set-cookie'' cookie (rp_headers response)\<rparr>
         else status_text 500 ''Session cookie configuration is invalid'')"

definition cookie_value :: "'a web_env \<Rightarrow> headers \<Rightarrow> string \<Rightarrow> string option" where
  "cookie_value env h name =
     map_option snd (find (\<lambda>(key, _). key = name)
       (List.map_filter (\<lambda>cookie. split_once (CHR ''='') (str_trim cookie))
         (concat (map (split_on (CHR '';'')) (List.map_filter (we_header_text env) (h ''cookie''))))))"

definition valid_session_id :: "string \<Rightarrow> bool" where
  "valid_session_id i \<longleftrightarrow> length i = SESSION_ID_BYTES * 2 \<and> list_all is_ascii_hexdigit i"

section \<open>The session middleware\<close>

record ('j, 'b, 'w) web_world =
  ww_session :: "'j session"
  ww_store :: "'j session_store"
  ww_backend :: 'b
  ww_rest :: 'w

text \<open>
  Running the rest of the chain with a session in the request: the outcome, the session as
  the handlers left it, and the world with the session of the caller back in place.
\<close>

definition run_with_session :: "'j session \<Rightarrow> ('a, 'x) request \<Rightarrow> ('a, 'x, ('j, 'b, 'w) web_world) handler \<Rightarrow> ('j, 'b, 'w) web_world \<Rightarrow>
    ('x, ('j, 'b, 'w) web_world) response option \<times> 'j session \<times> ('j, 'b, 'w) web_world" where
  "run_with_session session request next_handler w =
     (case next_handler (request\<lparr>rq_has_session := True\<rparr>) (w\<lparr>ww_session := session\<rparr>) of
        (r, w') \<Rightarrow> (r, ww_session w', w'\<lparr>ww_session := ww_session w\<rparr>))"

definition session_middleware_local :: "'a web_env \<Rightarrow> session_config \<Rightarrow> nat \<Rightarrow> string \<Rightarrow> ('a, 'x, ('j, 'b, 'w) web_world) middleware" where
  "session_middleware_local env config now token request next_handler w =
     (case session_store_open now token (cookie_value env (rq_headers request) (sc_cookie_name config)) (ww_store w) of
        ((session, store), _) \<Rightarrow>
          (case run_with_session session request next_handler (w\<lparr>ww_store := store\<rparr>) of
             (None, session, w) \<Rightarrow> (None, w)
           | (Some r, session, w) \<Rightarrow> (Some (append_session_cookie env (session, ww_store w) config r), w)))"

definition session_unavailable_response :: "('x, 'w) response" where
  "session_unavailable_response = status_text 503 ''Session unavailable''"

definition handle_distributed_session :: "'a web_env \<Rightarrow> ('b, 'j) session_backend \<Rightarrow> session_config \<Rightarrow> u64 \<Rightarrow> u64 \<Rightarrow> string \<Rightarrow> (nat \<Rightarrow> string) \<Rightarrow>
    ('a, 'x, ('j, 'b, 'w) web_world) middleware" where
  "handle_distributed_session env sb config now commit_now token tokens request next_handler w =
     (let supplied_id = (case cookie_value env (rq_headers request) (sc_cookie_name config) of
                           None \<Rightarrow> None
                         | Some i \<Rightarrow> if valid_session_id i then Some i else None);
          expires_at = w_saturating_add now (sc_max_age_secs config);
          (loaded, b) = (case supplied_id of
                           None \<Rightarrow> (Inr (token, None), ww_backend w)
                         | Some i \<Rightarrow>
                             (case sb_load sb i now expires_at (ww_backend w) of
                                (Inl e, b) \<Rightarrow> (Inl e, b)
                              | (Inr None, b) \<Rightarrow> (Inr (token, None), b)
                              | (Inr (Some snapshot), b) \<Rightarrow> (Inr (i, Some snapshot), b)));
          w = w\<lparr>ww_backend := b\<rparr>
      in case loaded of
           Inl _ \<Rightarrow> (Some session_unavailable_response, w)
         | Inr (i, snapshot) \<Rightarrow>
             (case run_with_session (session_distributed i snapshot) request next_handler w of
                (None, _, w) \<Rightarrow> (None, w)
              | (Some r, session, w) \<Rightarrow>
                  (case commit_distributed_session sb tokens commit_now (sc_max_age_secs config) session (ww_backend w) of
                     (result, session, b) \<Rightarrow>
                       (Some (case result of
                          CommitPersisted \<Rightarrow> append_session_cookie env (session, ww_store w) config r
                        | CommitConflict \<Rightarrow> status_text 409 ''Session conflict''
                        | CommitStoreError \<Rightarrow> session_unavailable_response), w\<lparr>ww_backend := b\<rparr>))))"

section \<open>CSRF\<close>

definition is_safe_method :: "string \<Rightarrow> bool" where
  "is_safe_method method \<longleftrightarrow> method \<in> {''GET'', ''HEAD'', ''OPTIONS''}"

definition constant_time_eq :: "string \<Rightarrow> string \<Rightarrow> bool" where
  "constant_time_eq left right \<longleftrightarrow>
     length left = length right \<and>
     fold (\<lambda>(l, r) difference. or difference (xor l r)) (zip (map of_char left) (map of_char right)) (0 :: u8) = 0"

definition csrf :: "'a web_env \<Rightarrow> string \<Rightarrow> ('a, 'x, ('j, 'b, 'w) web_world) middleware" where
  "csrf env fresh request next_handler w =
     (if \<not> rq_has_session request then (Some (status_text 500 ''Session middleware is required''), w)
      else
        (let (token, w) =
               (case session_csrf_token (ww_session w, ww_store w) of
                  Some token \<Rightarrow> (token, w)
                | None \<Rightarrow>
                    (case session_put ''_csrf'' (JString fresh) (ww_session w, ww_store w) of
                       (session, store) \<Rightarrow> (fresh, w\<lparr>ww_session := session, ww_store := store\<rparr>)))
         in if \<not> is_safe_method (rq_method request) \<and>
               (case header_text env ''x-csrf-token'' (rq_headers request) of
                  None \<Rightarrow> True
                | Some supplied \<Rightarrow> \<not> constant_time_eq supplied token)
            then (Some (status_text 403 ''CSRF token mismatch''), w)
            else then_response (insert_checked env ''x-csrf-token'' token) (next_handler request w)))"

end
