(* ===== verification/Web_Session_Props.thy ===== *)
theory Web_Session_Props
  imports Web_Session
begin

text \<open>
  Signing in and out. The locale states what \<open>AuthGuard\<close> needs of the trait \<open>AuthSession\<close>;
  it is interpreted on the sessions of \<open>phoenix-security\<close>. The properties cover every branch
  of an attempt to sign in, and the defence against planted session identifiers.
\<close>

section \<open>The contract of \<open>AuthSession\<close>\<close>

text \<open>
  \<open>alive\<close> holds until a session is destroyed, \<open>backed\<close> when there is a record that can hold an
  identity, and \<open>public_id\<close> is the identifier the browser presents.
\<close>

locale auth_session_laws =
  fixes ses :: "'s auth_session" and alive :: "'s \<Rightarrow> bool" and backed :: "'s \<Rightarrow> bool" and public_id :: "'s \<Rightarrow> string"
  assumes identity_set: "backed s \<Longrightarrow> as_identity ses (as_set_identity ses u s) = Some u"
    and public_id_set: "public_id (as_set_identity ses u s) = public_id s"
    and identity_clear: "as_identity ses (as_clear_identity ses s) = None"
    and alive_clear: "alive (as_clear_identity ses s) = alive s"
    and identity_rotate: "as_identity ses (as_rotate ses now token s) = as_identity ses s"
    and backed_rotate: "alive s \<Longrightarrow> backed (as_rotate ses now token s)"
    and public_id_rotate: "alive s \<Longrightarrow> public_id (as_rotate ses now token s) = token"
begin

lemma login:
  assumes "alive s"
  shows "guard_id ses (guard_login ses now token user s) = Some (au_id user)"
    and "public_id (guard_login ses now token user s) = token"
  using assms by (simp_all add: guard_id_def guard_login_def identity_set backed_rotate public_id_set public_id_rotate)

lemma logout:
  shows "guard_id ses (guard_logout ses now token s) = None"
    and "alive s \<Longrightarrow> public_id (guard_logout ses now token s) = token"
  by (simp_all add: guard_id_def guard_logout_def identity_rotate identity_clear public_id_rotate alive_clear)

lemma user_after_login:
  "alive s \<Longrightarrow> guard_user ses provider (guard_login ses now token user s, w)
     = on_snd (up_find_by_id provider (au_id user)) (guard_login ses now token user s, w)"
  using login(1) [of s now token user] by (simp add: guard_user_def guard_id_def)

end

section \<open>Sessions keep the contract\<close>

text \<open>A local session is backed by its record in the table; a distributed one by itself.\<close>

fun session_backed :: "'j session_state \<Rightarrow> bool" where
  "session_backed (LocalSession i _, st) \<longleftrightarrow> st_records st i \<noteq> None"
| "session_backed (DistributedSession d, _) \<longleftrightarrow> \<not> ds_destroyed d"

lemma session_cases:
  fixes s :: "'j session_state"
  obtains (local) i destroyed st where "s = (LocalSession i destroyed, st)"
  | (distributed) d st where "s = (DistributedSession d, st)"
  by (cases s rule: is_destroyed.cases)

lemma get_put [simp]: "session_backed s \<Longrightarrow> session_get key (session_put key' v s) = (if key = key' then Some v else session_get key s)"
  by (cases s rule: session_cases) (auto simp: with_local_record_mut_def split: option.splits)

lemma get_remove [simp]: "session_get key (session_remove key' s) = (if key = key' then None else session_get key s)"
  by (cases s rule: session_cases) (auto simp: with_local_record_mut_def split: option.splits)

lemma get_rotate [simp]: "session_get key (session_rotate False now token s) = session_get key s"
  by (cases s rule: session_cases) (auto simp: Let_def split: option.splits)

lemma get_rotate_clear [simp]: "\<not> is_destroyed s \<Longrightarrow> session_get key (session_rotate True now token s) = None"
  by (cases s rule: session_cases) (auto simp: Let_def split: option.splits)

lemma get_destroy [simp]: "session_get key (session_destroy s) = None"
  by (cases s rule: session_cases) auto

lemma put_destroyed [simp]: "session_put key v (session_destroy s) = session_destroy s"
  by (cases s rule: session_cases) (auto simp: with_local_record_mut_def)

lemma rotate_destroyed [simp]: "is_destroyed s \<Longrightarrow> session_rotate clear now token s = s"
  by (cases s rule: session_cases) auto

lemma session_shape [simp]:
  "session_id (session_put key v s) = session_id s" "session_id (session_remove key s) = session_id s"
  "is_destroyed (session_put key v s) = is_destroyed s" "is_destroyed (session_remove key s) = is_destroyed s"
  "is_destroyed (session_rotate clear now token s) = is_destroyed s" "is_destroyed (session_destroy s)"
  by (cases s rule: session_cases; auto simp: Let_def)+

lemma rotate_backed [simp]: "\<not> is_destroyed s \<Longrightarrow> session_backed (session_rotate clear now token s)"
  by (cases s rule: session_cases) (auto simp: Let_def)

lemma rotate_id [simp]: "\<not> is_destroyed s \<Longrightarrow> session_id (session_rotate clear now token s) = token"
  by (cases s rule: session_cases) (auto simp: Let_def)

interpretation ws: auth_session_laws "web_session :: 'j session_state auth_session" "\<lambda>s. \<not> is_destroyed s" session_backed session_id
  by unfold_locales
    (simp_all add: web_session_def session_identity_def session_set_identity_def session_clear_identity_def
      session_regenerate_def)

section \<open>What changes in the table\<close>

lemma store_put:
  "i \<noteq> session_id s \<Longrightarrow> st_records (snd (session_put key v s)) i = st_records (snd s) i"
  "st_ttl (snd (session_put key v s)) = st_ttl (snd s)"
  by (cases s rule: session_cases; auto simp: with_local_record_mut_def split: option.splits)+

lemma store_rotate_other:
  "i \<noteq> session_id s \<Longrightarrow> i \<noteq> token \<Longrightarrow> st_records (snd (session_rotate clear now token s)) i = st_records (snd s) i"
  "st_ttl (snd (session_rotate clear now token s)) = st_ttl (snd s)"
  by (cases s rule: session_cases; auto simp: Let_def)+

fun is_local :: "'j session_state \<Rightarrow> bool" where
  "is_local (LocalSession _ _, _) \<longleftrightarrow> True"
| "is_local (DistributedSession _, _) \<longleftrightarrow> False"

lemma store_rotate_old:
  "is_local s \<Longrightarrow> \<not> is_destroyed s \<Longrightarrow> token \<noteq> session_id s \<Longrightarrow> st_records (snd (session_rotate clear now token s)) (session_id s) = None"
  by (cases s rule: session_cases) (auto simp: Let_def)

lemma store_rotate_new:
  "is_local s \<Longrightarrow> \<not> is_destroyed s \<Longrightarrow>
   \<exists>r. st_records (snd (session_rotate clear now token s)) token = Some r \<and> sr_expires_at r = now + st_ttl (snd s)"
  by (cases s rule: session_cases) (auto simp: Let_def)

lemma store_put_expiry:
  "is_local s \<Longrightarrow> map_option sr_expires_at (st_records (snd (session_put key v s)) (session_id s))
     = map_option sr_expires_at (st_records (snd s) (session_id s))"
  by (cases s rule: session_cases) (auto simp: with_local_record_mut_def split: option.splits)

lemma is_local_step [simp]:
  "is_local (session_put key v s) = is_local s" "is_local (session_rotate clear now token s) = is_local s"
  by (cases s rule: session_cases; auto simp: Let_def)+

lemma login_web: "guard_login web_session now token user s
    = session_put AUTH_SESSION_KEY (JString (au_id user)) (session_rotate False now token s)"
  by (simp add: guard_login_def web_session_def session_set_identity_def session_regenerate_def)

lemma login_store:
  fixes s :: "'j session_state" and now :: nat and user :: auth_user
  assumes "is_local s" and "\<not> is_destroyed s" and "token \<noteq> session_id s"
  defines "t \<equiv> guard_login web_session now token user s"
  shows "st_records (snd t) (session_id s) = None"
    and "i \<noteq> session_id s \<Longrightarrow> i \<noteq> token \<Longrightarrow> st_records (snd t) i = st_records (snd s) i"
    and "\<exists>r. st_records (snd t) token = Some r \<and> sr_expires_at r = now + st_ttl (snd s)"
    and "st_ttl (snd t) = st_ttl (snd s)"
  using assms store_rotate_new [of s False now token]
    store_put_expiry [of "session_rotate False now token s" AUTH_SESSION_KEY "JString (au_id user)"]
  by (auto simp: t_def login_web store_put store_rotate_other store_rotate_old)

text \<open>Opening a session by its identifier, with a new identifier at hand that no session has.\<close>

lemma open_get:
  "st_records st token = None \<Longrightarrow> session_get key (fst (session_store_open now token (Some i) st))
     = (case st_records st i of Some r \<Rightarrow> if now < sr_expires_at r then sr_values r key else None | None \<Rightarrow> None)"
  by (auto simp: session_store_open_def Let_def split: option.splits)

lemma login_destroyed: "guard_login web_session now token user (session_destroy s) = session_destroy s"
  by (simp add: login_web)

lemma attempt_cases:
  "guard_attempt ses provider verify now token identifier password (s, w) =
     (case up_find_by_identifier provider identifier w of
        (Inl e, w') \<Rightarrow> (Inl e, (s, w'))
      | (Inr None, w') \<Rightarrow> (Inr None, (s, w'))
      | (Inr (Some user), w') \<Rightarrow>
          if verify password (au_password_hash user) = Some True then (Inr (Some user), (guard_login ses now token user s, w'))
          else (Inr None, (s, w')))"
  by (auto simp: guard_attempt_def op_bind_apply verify_password_def split: prod.splits sum.splits option.splits)

section \<open>Properties\<close>

text \<open>
On a session that has not been destroyed, an attempt to sign in does one of three things:
when the provider fails, its error is returned; when it does not know the identifier, or the
password does not verify (an error of the verification included), the answer is nothing, and in
these cases the session is as before; when the password verifies, the user is returned, the
session has the new identifier, carries the identity of that user and otherwise its old values,
the guard loads that user from then on, and a later logout leaves no identity and another
identifier.
\<close>

theorem sign_in_every_branch:
  fixes s :: "'j session_state"
  assumes "\<not> is_destroyed s"
  shows "case up_find_by_identifier provider ident w of
           (Inl e, w') \<Rightarrow> guard_attempt web_session provider verify now token ident password (s, w) = (Inl e, (s, w'))
         | (Inr None, w') \<Rightarrow> guard_attempt web_session provider verify now token ident password (s, w) = (Inr None, (s, w'))
         | (Inr (Some user), w') \<Rightarrow>
             if verify password (au_password_hash user) = Some True
             then \<exists>t. guard_attempt web_session provider verify now token ident password (s, w) = (Inr (Some user), (t, w'))
               \<and> session_id t = token
               \<and> guard_id web_session t = Some (au_id user)
               \<and> (\<forall>key. key \<noteq> AUTH_SESSION_KEY \<longrightarrow> session_get key t = session_get key s)
               \<and> (\<forall>v. guard_user web_session provider (t, v) = on_snd (up_find_by_id provider (au_id user)) (t, v))
               \<and> (\<forall>now' token'. guard_id web_session (guard_logout web_session now' token' t) = None
                    \<and> session_id (guard_logout web_session now' token' t) = token')
             else guard_attempt web_session provider verify now token ident password (s, w) = (Inr None, (s, w'))"
proof -
  have alive: "\<not> is_destroyed (guard_login web_session now token user s)" for user
    using assms by (simp add: login_web)
  have kept: "session_get key (guard_login web_session now token user s) = session_get key s" if "key \<noteq> AUTH_SESSION_KEY" for key user
    using assms that by (simp add: login_web)
  have out: "guard_id web_session (guard_logout web_session now' token' (guard_login web_session now token user s)) = None"
    "session_id (guard_logout web_session now' token' (guard_login web_session now token user s)) = token'" for now' token' user
    using ws.logout alive by blast+
  show ?thesis
    using ws.login [OF assms] ws.user_after_login [OF assms, of provider] out kept
    unfolding attempt_cases by (simp del: on_snd_apply split: prod.split sum.split option.split)
qed

definition sample_provider :: "unit user_provider" where
  "sample_provider = \<lparr>up_find_by_identifier = (\<lambda>i. op_return (if i = ''ann'' then Some (auth_user_new ''7'' ''ann'' ''h'') else None)),
     up_find_by_id = (\<lambda>i. op_return (if i = ''7'' then Some (auth_user_new ''7'' ''ann'' ''h'') else None))\<rparr>"

definition sample_session :: "unit session_state" where
  "sample_session = fst (session_store_open 0 ''planted'' None (session_store_memory 60))"

theorem sign_in_every_branch_witness:
  "\<exists>t. guard_attempt web_session sample_provider (\<lambda>p h. Some (p = ''pw'')) 5 ''new'' ''ann'' ''pw'' (sample_session, ())
       = (Inr (Some (auth_user_new ''7'' ''ann'' ''h'')), (t, ()))
     \<and> session_id t = ''new'' \<and> guard_id web_session t = Some ''7''"
  using sign_in_every_branch [where s = sample_session and provider = sample_provider and ident = "''ann''" and w = "()"
      and verify = "\<lambda>p h. Some (p = ''pw'')" and password = "''pw''" and now = 5 and token = "''new''"]
  by (auto simp: sample_provider_def sample_session_def session_store_open_def Let_def auth_user_new_def)

text \<open>
Signing in defends a local session against a planted identifier. Afterwards the old
identifier opens an empty session, the new one opens a session with the identity of the user
until it expires, and every other session opens with the values it had.
\<close>

theorem planted_session_id_is_worthless:
  fixes s :: "'j session_state" and now :: nat and user :: auth_user
  assumes "is_local s" and "\<not> is_destroyed s" and "token \<noteq> session_id s"
    and "st_records (snd s) fresh = None" and "fresh \<notin> {token, session_id s}"
  defines "t \<equiv> snd (guard_login web_session now token user s)"
  shows "session_get key (fst (session_store_open now' fresh (Some (session_id s)) t)) = None
    \<and> (now' < now + st_ttl (snd s) \<longrightarrow> session_identity (fst (session_store_open now' fresh (Some token) t)) = Some (au_id user))
    \<and> (i \<notin> {token, session_id s} \<longrightarrow>
         session_get key (fst (session_store_open now' fresh (Some i) t)) = session_get key (fst (session_store_open now' fresh (Some i) (snd s))))"
proof (intro conjI impI)
  note store = login_store [OF assms(1-3), where now = now and user = user, folded t_def]
  have none: "st_records t fresh = None" using assms(4,5) store(2) by simp
  show "session_get key (fst (session_store_open now' fresh (Some (session_id s)) t)) = None"
    using store(1) none by (simp add: open_get)
  assume "i \<notin> {token, session_id s}"
  then show "session_get key (fst (session_store_open now' fresh (Some i) t)) = session_get key (fst (session_store_open now' fresh (Some i) (snd s)))"
    using store(2) [of i] none assms(4) by (simp add: open_get)
next
  note store = login_store [OF assms(1-3), where now = now and user = user, folded t_def]
  assume now': "now' < now + st_ttl (snd s)"
  obtain r where r: "st_records t token = Some r" "sr_expires_at r = now + st_ttl (snd s)" using store(3) by blast
  have "session_get AUTH_SESSION_KEY (guard_login web_session now token user s) = Some (JString (au_id user))"
    using assms(2) by (simp add: login_web)
  moreover have "guard_login web_session now token user s = (LocalSession token False, t)"
    using assms(1,2) by (cases s rule: session_cases) (auto simp: t_def login_web Let_def)
  ultimately have "sr_values r AUTH_SESSION_KEY = Some (JString (au_id user))" using r(1) by simp
  then show "session_identity (fst (session_store_open now' fresh (Some token) t)) = Some (au_id user)"
    using r now' store(2) assms(4,5) by (simp add: session_identity_def open_get)
qed

theorem planted_session_id_is_worthless_witness:
  "session_get ''k'' (fst (session_store_open 9 ''fresh'' (Some ''planted'')
       (snd (guard_login web_session 5 ''new'' (auth_user_new ''7'' ''ann'' ''h'') sample_session)))) = None
   \<and> session_identity (fst (session_store_open 9 ''fresh'' (Some ''new'')
       (snd (guard_login web_session 5 ''new'' (auth_user_new ''7'' ''ann'' ''h'') sample_session)))) = Some ''7''"
  using planted_session_id_is_worthless [where s = sample_session and token = "''new''" and fresh = "''fresh''"
      and now' = 9 and now = 5 and user = "auth_user_new ''7'' ''ann'' ''h''"]
  by (simp add: sample_session_def session_store_open_def session_store_memory_def Let_def auth_user_new_def)

end
