(* ===== verification/Session_Backend_Props.thy ===== *)
theory Session_Backend_Props
  imports Session_Backend Web_Session_Props
begin

text \<open>
  The contract of a session backend as a locale, with the outcome of a commit proved over it,
  and the in-memory backend as its interpretation. The properties: a commit never overwrites
  what another request wrote, signing in through a shared backend retires the old identifier,
  and an unsafe request needs the CSRF token of its session.
\<close>

section \<open>The contract\<close>

type_synonym 'j versioned_table = "string \<rightharpoonup> u64 \<times> 'j session_values"

definition was_saved :: "string + session_write \<Rightarrow> bool" where
  "was_saved r \<longleftrightarrow> (\<exists>v. r = Inr (Saved v))"

definition was_refused :: "string + session_write \<Rightarrow> bool" where
  "was_refused r \<longleftrightarrow> r = Inr WriteConflict \<or> r = Inr WriteMissing"

definition at_version :: "'j versioned_table \<Rightarrow> string \<Rightarrow> u64 \<Rightarrow> bool" where
  "at_version T i v \<longleftrightarrow> (\<exists>vs. T i = Some (v, vs))"

text \<open>A version that has not reached the greatest number grows with every write.\<close>

definition newer :: "u64 \<Rightarrow> u64 \<Rightarrow> bool" where
  "newer v v' \<longleftrightarrow> v \<le> v' \<and> (v \<noteq> - 1 \<longrightarrow> v < v')"

text \<open>The four mutations.\<close>

definition created :: "'j versioned_table \<Rightarrow> 'j versioned_table \<Rightarrow> string \<Rightarrow> 'j session_values \<Rightarrow> bool" where
  "created T T' i vs \<longleftrightarrow> T i = None \<and> (\<exists>v. T' = T(i \<mapsto> (v, vs)))"

definition updated :: "'j versioned_table \<Rightarrow> 'j versioned_table \<Rightarrow> string \<Rightarrow> u64 \<Rightarrow> 'j session_values \<Rightarrow> bool" where
  "updated T T' i v vs \<longleftrightarrow> at_version T i v \<and> (\<exists>v'. newer v v' \<and> T' = T(i \<mapsto> (v', vs)))"

definition moved :: "'j versioned_table \<Rightarrow> 'j versioned_table \<Rightarrow> string \<Rightarrow> string \<Rightarrow> u64 \<Rightarrow> 'j session_values \<Rightarrow> bool" where
  "moved T T' i j v vs \<longleftrightarrow> at_version T i v \<and> T j = None \<and> (\<exists>v'. newer v v' \<and> T' = (T(i := None))(j \<mapsto> (v', vs)))"

definition removed :: "'j versioned_table \<Rightarrow> 'j versioned_table \<Rightarrow> string \<Rightarrow> u64 \<Rightarrow> bool" where
  "removed T T' i v \<longleftrightarrow> at_version T i v \<and> T' = T(i := None)"

text \<open>What a commit does to the table, by the marks of the session.\<close>

definition committed :: "'j distributed_session \<Rightarrow> 'j session \<Rightarrow> 'j versioned_table \<Rightarrow> 'j versioned_table \<Rightarrow> bool" where
  "committed d s' T T' \<longleftrightarrow>
     (case (ds_original_id d, ds_version d) of
        (Some i, Some v) \<Rightarrow>
          if ds_destroyed d then removed T T' i v
          else if ds_rotated d then (\<exists>j. s' = DistributedSession (d\<lparr>ds_id := j\<rparr>) \<and> moved T T' i j v (ds_values d))
          else if ds_dirty d then updated T T' i v (ds_values d)
          else T' = T
      | _ \<Rightarrow>
          if ds_destroyed d then T' = T
          else (\<exists>j. s' = DistributedSession (d\<lparr>ds_id := j\<rparr>) \<and> created T T' j (ds_values d)))"

text \<open>A session knows where it came from, and keeps that identifier until it is rotated or destroyed.\<close>

definition tracks :: "'j distributed_session \<Rightarrow> bool" where
  "tracks d \<longleftrightarrow> (ds_version d = None \<longleftrightarrow> ds_original_id d = None) \<and>
     (ds_version d \<noteq> None \<and> \<not> ds_rotated d \<and> \<not> ds_destroyed d \<longrightarrow> ds_original_id d = Some (ds_id d))"

text \<open>The calls of other requests; none of them takes the identifier \<open>i\<close> for a new session.\<close>

inductive backend_step :: "('b, 'j) session_backend \<Rightarrow> string \<Rightarrow> 'b \<Rightarrow> 'b \<Rightarrow> bool" for sb i where
  load: "sb_load sb j now e b = (found, b') \<Longrightarrow> backend_step sb i b b'"
| create: "sb_create sb j vs e b = (r, b') \<Longrightarrow> j \<noteq> i \<Longrightarrow> backend_step sb i b b'"
| save: "sb_save sb j v vs e b = (r, b') \<Longrightarrow> backend_step sb i b b'"
| rotate: "sb_rotate sb j k v vs e b = (r, b') \<Longrightarrow> k \<noteq> i \<Longrightarrow> backend_step sb i b b'"
| delete: "sb_delete sb j v b = (r, b') \<Longrightarrow> backend_step sb i b b'"

definition same_or_newer :: "'j versioned_table \<Rightarrow> string \<Rightarrow> u64 \<Rightarrow> 'j session_values \<Rightarrow> bool" where
  "same_or_newer T i v vs \<longleftrightarrow>
     (case T i of None \<Rightarrow> True | Some (v', vs') \<Rightarrow> v \<le> v' \<and> (v' = v \<and> v \<noteq> - 1 \<longrightarrow> vs' = vs))"

lemma newer_trans: "v \<le> u \<Longrightarrow> newer u v' \<Longrightarrow> v \<le> v' \<and> (v' = v \<longrightarrow> v = - 1)"
proof -
  assume "v \<le> u" and n: "newer u v'"
  then have "v \<le> v'" unfolding newer_def by (blast intro: order_trans)
  moreover have "v = - 1" if "v' = v" using that n \<open>v \<le> u\<close> by (auto simp: newer_def)
  ultimately show "v \<le> v' \<and> (v' = v \<longrightarrow> v = - 1)" by simp
qed

lemma updated_keeps:
  assumes "updated T T' j u ws" and "same_or_newer T i v vs"
  shows "same_or_newer T' i v vs"
proof (cases "i = j")
  case True
  obtain v' ws0 where "T j = Some (u, ws0)" "newer u v'" "T' = T(j \<mapsto> (v', ws))"
    using assms(1) by (auto simp: updated_def at_version_def)
  then show ?thesis using assms(2) True newer_trans [of v u v'] by (auto simp: same_or_newer_def)
qed (use assms in \<open>auto simp: updated_def same_or_newer_def\<close>)

text \<open>
  A mutation either takes effect as a whole or leaves the table alone, it takes effect only at
  the expected version, and it reports a conflict only when the version is another. After an
  error the effect is open.
\<close>

locale versioned_sessions =
  fixes sb :: "('b, 'j) session_backend" and table :: "'b \<Rightarrow> 'j versioned_table"
  assumes create_law: "sb_create sb i vs e b = (r, b') \<Longrightarrow>
      table b' = table b \<and> \<not> was_saved r \<or> created (table b) (table b') i vs \<and> (r = Inr w \<longrightarrow> was_saved r)"
    and save_law: "sb_save sb i v vs e b = (r, b') \<Longrightarrow>
      table b' = table b \<and> \<not> was_saved r \<or> updated (table b) (table b') i v vs \<and> (r = Inr w \<longrightarrow> was_saved r)"
    and rotate_law: "sb_rotate sb i j v vs e b = (r, b') \<Longrightarrow>
      table b' = table b \<and> \<not> was_saved r \<or> moved (table b) (table b') i j v vs \<and> (r = Inr w \<longrightarrow> was_saved r)"
    and delete_law: "sb_delete sb i v b = (r, b') \<Longrightarrow>
      table b' = table b \<and> \<not> was_saved r \<or> removed (table b) (table b') i v \<and> (r = Inr w \<longrightarrow> was_saved r)"
    and save_refused: "sb_save sb i v vs e b = (r, b') \<Longrightarrow> was_refused r \<Longrightarrow> \<not> at_version (table b) i v"
    and rotate_refused: "sb_rotate sb i j v vs e b = (r, b') \<Longrightarrow> was_refused r \<Longrightarrow> \<not> at_version (table b) i v"
    and delete_refused: "sb_delete sb i v b = (r, b') \<Longrightarrow> was_refused r \<Longrightarrow> \<not> at_version (table b) i v"
    and load_law: "sb_load sb i now e b = (found, b') \<Longrightarrow> table b' j = table b j \<or> table b' j = None"
    and load_found: "sb_load sb i now e b = (Inr (Some snap), b') \<Longrightarrow> table b' i = Some (sn_version snap, sn_values snap)"
begin

lemma effect:
  "sb_create sb i vs e b = (r, b') \<Longrightarrow> table b' = table b \<or> created (table b) (table b') i vs"
  "sb_save sb i v vs e b = (r, b') \<Longrightarrow> table b' = table b \<or> updated (table b) (table b') i v vs"
  "sb_rotate sb i j v vs e b = (r, b') \<Longrightarrow> table b' = table b \<or> moved (table b) (table b') i j v vs"
  "sb_delete sb i v b = (r, b') \<Longrightarrow> table b' = table b \<or> removed (table b) (table b') i v"
  using create_law [of i vs e b r b'] save_law [of i v vs e b r b'] rotate_law [of i j v vs e b r b'] delete_law [of i v b r b']
  by metis+

lemma saved:
  "sb_create sb i vs e b = (Inr (Saved u), b') \<Longrightarrow> created (table b) (table b') i vs"
  "sb_save sb i v vs e b = (Inr (Saved u), b') \<Longrightarrow> updated (table b) (table b') i v vs"
  "sb_rotate sb i j v vs e b = (Inr (Saved u), b') \<Longrightarrow> moved (table b) (table b') i j v vs"
  "sb_delete sb i v b = (Inr (Saved u), b') \<Longrightarrow> removed (table b) (table b') i v"
  using create_law [of i vs e b "Inr (Saved u)" b'] save_law [of i v vs e b "Inr (Saved u)" b']
    rotate_law [of i j v vs e b "Inr (Saved u)" b'] delete_law [of i v b "Inr (Saved u)" b']
  by (auto simp: was_saved_def)

lemma unsaved:
  assumes "\<And>u. x \<noteq> Saved u"
  shows "sb_create sb i vs e b = (Inr x, b') \<Longrightarrow> table b' = table b" "sb_save sb i v vs e b = (Inr x, b') \<Longrightarrow> table b' = table b"
    "sb_rotate sb i j v vs e b = (Inr x, b') \<Longrightarrow> table b' = table b" "sb_delete sb i v b = (Inr x, b') \<Longrightarrow> table b' = table b"
  using assms create_law [of i vs e b "Inr x" b' x] save_law [of i v vs e b "Inr x" b' x]
    rotate_law [of i j v vs e b "Inr x" b' x] delete_law [of i v b "Inr x" b' x]
  by (auto simp: was_saved_def)

lemma refused:
  assumes "was_refused r"
  shows "sb_save sb i v vs e b = (r, b') \<Longrightarrow> table b' = table b" "sb_delete sb i v b = (r, b') \<Longrightarrow> table b' = table b"
  using assms unsaved(2) [of _ i v vs e b b'] unsaved(4) [of _ i v b b'] by (auto simp: was_refused_def)

text \<open>The loop that looks for a free identifier.\<close>

lemma create_attempts:
  assumes "write_attempts (\<lambda>i. sb_create sb i vs e) tokens n i (DistributedSession d) b = (res, s', b')" and "ds_id d = i"
  shows "(res = CommitPersisted \<longrightarrow> (\<exists>j. s' = DistributedSession (d\<lparr>ds_id := j\<rparr>) \<and> created (table b) (table b') j vs))
    \<and> (res = CommitConflict \<longrightarrow> table b' = table b)"
  using assms
proof (induction n arbitrary: i d b)
  case (Suc n)
  obtain r b1 where w: "sb_create sb i vs e b = (r, b1)" by (cases "sb_create sb i vs e b")
  show ?case
  proof (cases r)
    case (Inr x)
    then show ?thesis
      using Suc.prems w saved(1) [of i vs e b _ b1] unsaved(1) [of x i vs e b b1]
        Suc.IH [of "tokens n" "d\<lparr>ds_id := tokens n\<rparr>" b1]
      by (cases x) (auto intro!: exI [of _ i])
  qed (use Suc.prems w in auto)
qed simp

lemma rotate_attempts:
  assumes "write_attempts (\<lambda>j. sb_rotate sb i j v vs e) tokens n j (DistributedSession d) b = (res, s', b')" and "ds_id d = j"
  shows "(res = CommitPersisted \<longrightarrow> (\<exists>j. s' = DistributedSession (d\<lparr>ds_id := j\<rparr>) \<and> moved (table b) (table b') i j v vs))
    \<and> (res = CommitConflict \<longrightarrow> table b' = table b \<and> \<not> at_version (table b) i v)"
  using assms
proof (induction n arbitrary: j d b)
  case (Suc n)
  obtain r b1 where w: "sb_rotate sb i j v vs e b = (r, b1)" by (cases "sb_rotate sb i j v vs e b")
  show ?case
  proof (cases r)
    case (Inr x)
    then show ?thesis
      using Suc.prems w saved(3) [of i j v vs e b _ b1] unsaved(3) [of x i j v vs e b b1] rotate_refused [OF w]
        Suc.IH [of "tokens n" "d\<lparr>ds_id := tokens n\<rparr>" b1]
      by (cases x) (auto simp: was_refused_def intro!: exI [of _ j])
  qed (use Suc.prems w in auto)
qed simp

lemma commit_outcome:
  assumes "tracks d" and "commit_distributed_session sb tokens now ttl (DistributedSession d) b = (res, s', b')"
  shows "(res = CommitPersisted \<longrightarrow> committed d s' (table b) (table b'))
    \<and> (res = CommitConflict \<longrightarrow> table b' = table b
         \<and> (\<forall>i v. ds_original_id d = Some i \<longrightarrow> ds_version d = Some v \<longrightarrow> \<not> at_version (table b) i v))"
proof (cases "ds_version d")
  case None
  then have "ds_original_id d = None" using assms(1) by (simp add: tracks_def)
  then show ?thesis
    using assms(2) None create_attempts [of "ds_values d" "w_saturating_add now ttl" tokens SESSION_ID_ATTEMPTS "ds_id d" d b res s' b']
    by (auto simp: commit_distributed_session_def delete_distributed_session_def create_distributed_session_def committed_def split: if_splits)
next
  case (Some v)
  then obtain i where i: "ds_original_id d = Some i" using assms(1) by (auto simp: tracks_def)
  consider "ds_destroyed d" | "\<not> ds_destroyed d" "ds_rotated d" | "\<not> ds_destroyed d" "\<not> ds_rotated d" "ds_dirty d"
    | "\<not> ds_destroyed d" "\<not> ds_rotated d" "\<not> ds_dirty d" by blast
  then show ?thesis
  proof cases
    case 1
    obtain r where r: "sb_delete sb i v b = (r, b')" "res = classify_session_write r"
      using assms(2) Some i 1 by (auto simp: commit_distributed_session_def delete_distributed_session_def split: prod.splits)
    then show ?thesis using Some i 1 saved(4) [of i v b _ b'] refused(2) [OF _ r(1)] delete_refused [OF r(1)]
      by (auto simp: classify_session_write_def committed_def was_refused_def split: sum.splits session_write.splits)
  next
    case 2
    then show ?thesis
      using assms(2) Some i rotate_attempts [of i v "ds_values d" "w_saturating_add now ttl" tokens SESSION_ID_ATTEMPTS "ds_id d" d b res s' b']
      by (simp add: commit_distributed_session_def rotate_distributed_session_def committed_def)
  next
    case 3
    then have "ds_id d = i" using assms(1) Some i by (simp add: tracks_def)
    then obtain r where r: "sb_save sb i v (ds_values d) (w_saturating_add now ttl) b = (r, b')" "res = classify_session_write r"
      using assms(2) Some i 3 by (auto simp: commit_distributed_session_def Let_def split: prod.splits)
    then show ?thesis using Some i 3 saved(2) [of i v _ _ b _ b'] refused(1) [OF _ r(1)] save_refused [OF r(1)]
      by (auto simp: classify_session_write_def committed_def was_refused_def split: sum.splits session_write.splits)
  next
    case 4
    then show ?thesis using assms(2) Some i by (simp add: commit_distributed_session_def committed_def)
  qed
qed

text \<open>While the version is the one that was loaded, so are the values.\<close>

lemma others_keep:
  assumes "backend_step sb i b b'" and "same_or_newer (table b) i v vs"
  shows "same_or_newer (table b') i v vs"
  using assms(1)
proof cases
  case (load j now e found)
  then show ?thesis using assms(2) load_law [of j now e b found b' i] by (auto simp: same_or_newer_def)
next
  case (create j ws e r)
  then show ?thesis using assms(2) effect(1) [of j ws e b r b'] by (auto simp: same_or_newer_def created_def)
next
  case (save j u ws e r)
  then show ?thesis using assms(2) effect(2) [of j u ws e b r b'] updated_keeps by metis
next
  case (rotate j k u ws e r)
  then show ?thesis using assms(2) effect(3) [of j k u ws e b r b'] by (auto simp: same_or_newer_def moved_def)
next
  case (delete j u r)
  then show ?thesis using assms(2) effect(4) [of j u b r b'] by (auto simp: same_or_newer_def removed_def)
qed

lemma others_keep_all:
  "(backend_step sb i)\<^sup>*\<^sup>* b b' \<Longrightarrow> same_or_newer (table b) i v vs \<Longrightarrow> same_or_newer (table b') i v vs"
  by (induction rule: rtranclp_induct) (auto intro: others_keep)

lemma loaded_values:
  assumes "sb_load sb i now e b = (Inr (Some snap), b0)" and "(backend_step sb i)\<^sup>*\<^sup>* b0 b1"
    and "sn_version snap \<noteq> - 1" and "at_version (table b1) i (sn_version snap)"
  shows "table b1 i = Some (sn_version snap, sn_values snap)"
proof -
  have "same_or_newer (table b0) i (sn_version snap) (sn_values snap)"
    using load_found [OF assms(1)] by (simp add: same_or_newer_def)
  from others_keep_all [OF assms(2) this] show ?thesis using assms(3,4) by (auto simp: same_or_newer_def at_version_def)
qed

end

section \<open>The in-memory backend\<close>

definition memory_table :: "'j memory_sessions \<Rightarrow> 'j versioned_table" where
  "memory_table m = (\<lambda>i. map_option (\<lambda>r. (sn_version r, sn_values r)) (m i))"

lemma memory_table_simps [simp]:
  "memory_table (m(i := None)) = (memory_table m)(i := None)"
  "memory_table (m(i \<mapsto> r)) = (memory_table m)(i \<mapsto> (sn_version r, sn_values r))"
  "memory_table m i = None \<longleftrightarrow> m i = None"
  by (auto simp: memory_table_def)

lemma memory_table_at: "m i = Some r \<Longrightarrow> memory_table m i = Some (sn_version r, sn_values r)"
  by (simp add: memory_table_def)

lemma newer_saturating: "newer v (w_saturating_add v 1)"
proof -
  have "unat (- 1 :: u64) = 2 ^ 64 - 1" by (simp add: unsigned_minus_1_eq_mask mask_eq_exp_minus_1)
  then have "unat v = 2 ^ 64 - 1 \<longleftrightarrow> v = - 1" by (metis unsigned_word_eqI)
  moreover have "unat v < 2 ^ 64" using unsigned_less [of v, where 'a = nat] by simp
  ultimately show ?thesis
    by (auto simp: newer_def word_le_nat_alt word_less_nat_alt unat_saturating_add)
qed

lemmas memory_ops = memory_backend_def memory_load_def memory_create_def memory_save_def memory_rotate_def memory_delete_def

lemma memory_laws:
  "memory_create i vs e m = (r, m') \<Longrightarrow> memory_table m' = memory_table m \<and> \<not> was_saved r \<or> created (memory_table m) (memory_table m') i vs \<and> was_saved r"
  "memory_save i v vs e m = (r, m') \<Longrightarrow> memory_table m' = memory_table m \<and> \<not> was_saved r \<or> updated (memory_table m) (memory_table m') i v vs \<and> was_saved r"
  "memory_rotate i j v vs e m = (r, m') \<Longrightarrow> memory_table m' = memory_table m \<and> \<not> was_saved r \<or> moved (memory_table m) (memory_table m') i j v vs \<and> was_saved r"
  "memory_delete i v m = (r, m') \<Longrightarrow> memory_table m' = memory_table m \<and> \<not> was_saved r \<or> removed (memory_table m) (memory_table m') i v \<and> was_saved r"
  by (force simp: memory_create_def memory_save_def memory_rotate_def memory_delete_def was_saved_def created_def updated_def moved_def removed_def
      at_version_def memory_table_at newer_saturating Let_def split: if_splits option.splits)+

lemma memory_refused:
  "memory_save i v vs e m = (r, m') \<Longrightarrow> was_refused r \<Longrightarrow> \<not> at_version (memory_table m) i v"
  "memory_rotate i j v vs e m = (r, m') \<Longrightarrow> was_refused r \<Longrightarrow> \<not> at_version (memory_table m) i v"
  "memory_delete i v m = (r, m') \<Longrightarrow> was_refused r \<Longrightarrow> \<not> at_version (memory_table m) i v"
  by (auto simp: memory_save_def memory_rotate_def memory_delete_def was_refused_def at_version_def memory_table_def Let_def
      split: if_splits option.splits)

lemma memory_load_table:
  "memory_load i now e m = (r, m') \<Longrightarrow> memory_table m' j = memory_table m j \<or> memory_table m' j = None"
  "memory_load i now e m = (Inr (Some snap), m') \<Longrightarrow> memory_table m' i = Some (sn_version snap, sn_values snap)"
  by (auto simp: memory_load_def memory_table_def Let_def split: if_splits option.splits)

interpretation mem: versioned_sessions "memory_backend :: ('j memory_sessions, 'j) session_backend" memory_table
proof (unfold_locales, goal_cases)
  case (1 i vs e b r b' w)
  then show ?case using memory_laws(1) [of i vs e b r b'] by (auto simp: memory_backend_def)
next
  case (2 i v vs e b r b' w)
  then show ?case using memory_laws(2) [of i v vs e b r b'] by (auto simp: memory_backend_def)
next
  case (3 i j v vs e b r b' w)
  then show ?case using memory_laws(3) [of i j v vs e b r b'] by (auto simp: memory_backend_def)
next
  case (4 i v b r b' w)
  then show ?case using memory_laws(4) [of i v b r b'] by (auto simp: memory_backend_def)
next
  case (8 i now e b found b' j)
  then show ?case using memory_load_table(1) [of i now e b found b' j] by (simp add: memory_backend_def)
qed (simp_all add: memory_backend_def memory_refused memory_load_table(2))

section \<open>Sessions in a request\<close>

text \<open>What a handler can do with its session.\<close>

inductive session_step :: "'j session_state \<Rightarrow> 'j session_state \<Rightarrow> bool" where
  "session_step s (session_put key v s)"
| "session_step s (session_remove key s)"
| "session_step s (session_rotate clear now token s)"
| "session_step s (session_destroy s)"

lemma session_step_tracks:
  assumes "session_step s s'" and "fst s = DistributedSession d" and "tracks d"
  shows "\<exists>d'. fst s' = DistributedSession d' \<and> tracks d' \<and> ds_original_id d' = ds_original_id d \<and> ds_version d' = ds_version d"
proof -
  obtain st where s: "s = (DistributedSession d, st)" using assms(2) by (cases s) auto
  from assms(1) show ?thesis
    by cases (use assms(3) in \<open>auto simp: s tracks_def Let_def\<close>)
qed

lemma session_steps_track:
  assumes "session_step\<^sup>*\<^sup>* s s'" and "fst s = DistributedSession d" and "tracks d"
  shows "\<exists>d'. fst s' = DistributedSession d' \<and> tracks d' \<and> ds_original_id d' = ds_original_id d \<and> ds_version d' = ds_version d"
  using assms
proof (induction rule: rtranclp_induct)
  case (step s1 s2)
  then obtain d1 where "fst s1 = DistributedSession d1" "tracks d1" "ds_original_id d1 = ds_original_id d" "ds_version d1 = ds_version d" by auto
  then show ?case using session_step_tracks [OF step(2)] by auto
qed auto

lemma loaded_session:
  obtains d where "session_distributed i (Some snap) = DistributedSession d" and "tracks d" and "ds_original_id d = Some i"
    and "ds_version d = Some (sn_version snap)" and "ds_values d = sn_values snap" and "\<not> ds_destroyed d"
  by (simp add: session_distributed_def tracks_def)

text \<open>With the in-memory backend the search for an identifier fails only by collisions.\<close>

lemma memory_attempts_error:
  assumes "\<And>j m. (\<exists>x. fst (write j m) = Inr x) \<and> (fst (write j m) = Inr WriteCollision \<longrightarrow> snd (write j m) = m)"
    and "write_attempts write tokens n j s m = (CommitStoreError, s', m')"
  shows "m' = m"
  using assms(2)
proof (induction n arbitrary: j s m)
  case (Suc n)
  obtain x m1 where "write j m = (Inr x, m1)" using assms(1) [of j m] by (cases "write j m") auto
  then show ?case using Suc assms(1) [of j m] by (auto split: session_write.splits)
qed simp

lemma memory_commit_error:
  assumes "tracks d" and "commit_distributed_session memory_backend tokens now ttl (DistributedSession d) m = (CommitStoreError, s', m')"
  shows "m' = m"
proof -
  have create: "mm' = mm" if "write_attempts (\<lambda>i. memory_create i vs e) tokens n j s mm = (CommitStoreError, s', mm')" for vs e n j s s' mm mm'
    using that by (rule memory_attempts_error [rotated]) (simp add: memory_create_def)
  have rotate: "mm' = mm" if "write_attempts (\<lambda>j. memory_rotate i j v vs e) tokens n j s mm = (CommitStoreError, s', mm')" for i v vs e n j s s' mm mm'
    using that by (rule memory_attempts_error [rotated]) (simp add: memory_rotate_def Let_def split: option.splits)
  have wrote: "memory_delete i v m = (r, b') \<Longrightarrow> classify_session_write r \<noteq> CommitStoreError"
    "memory_save i v vs e m = (r, b') \<Longrightarrow> classify_session_write r \<noteq> CommitStoreError" for i v vs e r b'
    by (auto simp: memory_delete_def memory_save_def classify_session_write_def Let_def split: option.splits if_splits)
  show ?thesis
  proof (cases "ds_version d")
    case None
    then show ?thesis using assms create
      by (auto simp: commit_distributed_session_def create_distributed_session_def delete_distributed_session_def memory_backend_def tracks_def
          split: if_splits)
  next
    case (Some v)
    then obtain i where i: "ds_original_id d = Some i" using assms(1) by (auto simp: tracks_def)
    then show ?thesis using assms(2) Some rotate wrote
      by (auto simp: commit_distributed_session_def rotate_distributed_session_def delete_distributed_session_def memory_backend_def Let_def
          split: if_splits prod.splits)
  qed
qed

text \<open>A commit goes through when its version is still current and a new identifier is free.\<close>

lemma memory_commit_persists:
  assumes "tracks d" and "ds_original_id d = Some i" and "ds_version d = Some v" and "at_version (memory_table m) i v"
    and "ds_rotated d \<longrightarrow> m (ds_id d) = None"
  shows "fst (commit_distributed_session memory_backend tokens now ttl (DistributedSession d) m) = CommitPersisted"
proof -
  obtain r where r: "m i = Some r" "sn_version r = v" using assms(4) by (auto simp: at_version_def memory_table_def)
  have "ds_id d = i" if "\<not> ds_rotated d" "\<not> ds_destroyed d" using assms(1-3) that by (simp add: tracks_def)
  then show ?thesis using assms(2,3,5) r
    by (auto simp: commit_distributed_session_def delete_distributed_session_def rotate_distributed_session_def SESSION_ID_ATTEMPTS_def
        memory_backend_def memory_delete_def memory_rotate_def memory_save_def classify_session_write_def eval_nat_numeral Let_def)
qed

section \<open>Properties\<close>

text \<open>
C19: No lost update. A request loads a session from the in-memory backend, its handler works on
the session, and meanwhile other requests call the backend, none taking the same identifier
for a new session; the loaded version is not the greatest number. Then the commit persists,
and either the session was not changed or the values it replaces, moves or removes are those
that were loaded; or it reports a conflict and changes nothing, and the version is no longer
the loaded one; or it fails and changes nothing. It persists whenever the loaded version is
still there and the new identifier, if it needs one, is free.
\<close>

theorem commit_never_overwrites:
  assumes "memory_load i now e m = (Inr (Some snap), m0)"
    and "(backend_step memory_backend i)\<^sup>*\<^sup>* m0 m1"
    and "session_step\<^sup>*\<^sup>* (session_distributed i (Some snap), st) (s, st')"
    and "sn_version snap \<noteq> - 1"
    and "commit_distributed_session memory_backend tokens now' ttl s m1 = (res, s', m2)"
  shows "\<exists>d. s = DistributedSession d \<and> ds_original_id d = Some i \<and>
    (case res of
       CommitPersisted \<Rightarrow> committed d s' (memory_table m1) (memory_table m2)
         \<and> (ds_destroyed d \<or> ds_rotated d \<or> ds_dirty d \<longrightarrow> memory_table m1 i = Some (sn_version snap, sn_values snap))
     | CommitConflict \<Rightarrow> memory_table m2 = memory_table m1 \<and> \<not> at_version (memory_table m1) i (sn_version snap)
     | CommitStoreError \<Rightarrow> memory_table m2 = memory_table m1)
    \<and> (at_version (memory_table m1) i (sn_version snap) \<and> (ds_rotated d \<longrightarrow> m1 (ds_id d) = None) \<longrightarrow> res = CommitPersisted)"
proof -
  obtain d where d: "s = DistributedSession d" "tracks d" "ds_original_id d = Some i" "ds_version d = Some (sn_version snap)"
    using session_steps_track [OF assms(3)] loaded_session [of i snap] by (metis fst_conv)
  note commit = assms(5) [unfolded d(1)]
  note outcome = mem.commit_outcome [OF d(2) commit]
  have loaded: "memory_table m1 i = Some (sn_version snap, sn_values snap)" if "at_version (memory_table m1) i (sn_version snap)"
    using mem.loaded_values [OF _ assms(2,4) that] assms(1) by (simp add: memory_backend_def)
  have current: "at_version (memory_table m1) i (sn_version snap)"
    if "committed d s' (memory_table m1) (memory_table m2)" "ds_destroyed d \<or> ds_rotated d \<or> ds_dirty d"
    using that d(3,4) by (auto simp: committed_def removed_def moved_def updated_def split: if_splits)
  have "case res of
       CommitPersisted \<Rightarrow> committed d s' (memory_table m1) (memory_table m2)
         \<and> (ds_destroyed d \<or> ds_rotated d \<or> ds_dirty d \<longrightarrow> memory_table m1 i = Some (sn_version snap, sn_values snap))
     | CommitConflict \<Rightarrow> memory_table m2 = memory_table m1 \<and> \<not> at_version (memory_table m1) i (sn_version snap)
     | CommitStoreError \<Rightarrow> memory_table m2 = memory_table m1"
    using outcome loaded current d(3,4) memory_commit_error [OF d(2), of tokens now' ttl m1 s' m2] commit by (cases res) auto
  then show ?thesis using d commit memory_commit_persists [OF d(2,3,4)] by (metis fst_conv)
qed

text \<open>A session in the backend, its two concurrent requests, and the second commit.\<close>

definition sample_table :: "unit memory_sessions" where
  "sample_table = [''sid'' \<mapsto> \<lparr>sn_values = Map.empty, sn_version = 1, sn_expires_at = 100\<rparr>]"

definition sample_snapshot :: "unit session_snapshot" where
  "sample_snapshot = \<lparr>sn_values = Map.empty, sn_version = 1, sn_expires_at = 100\<rparr>"

definition sample_written :: "unit memory_sessions" where
  "sample_written = [''sid'' \<mapsto> \<lparr>sn_values = [''k'' \<mapsto> JString ''first''], sn_version = 2, sn_expires_at = 100\<rparr>]"

theorem commit_never_overwrites_witness:
  "commit_distributed_session memory_backend (\<lambda>_. ''tok'') 5 60
     (fst (session_put ''k'' (JString ''second'') (session_distributed ''sid'' (Some sample_snapshot), session_store_memory 60))) sample_written
   = (CommitConflict, fst (session_put ''k'' (JString ''second'') (session_distributed ''sid'' (Some sample_snapshot), session_store_memory 60)), sample_written)
   \<and> memory_table sample_written ''sid'' = Some (2, [''k'' \<mapsto> JString ''first''])"
proof -
  let ?start = "(session_distributed ''sid'' (Some sample_snapshot), session_store_memory 60) :: unit session_state"
  let ?s = "session_put ''k'' (JString ''second'') ?start"
  have load: "memory_load ''sid'' 1 100 sample_table = (Inr (Some sample_snapshot), sample_table)"
    by (auto simp: memory_load_def sample_table_def sample_snapshot_def Let_def fun_eq_iff)
  have "memory_save ''sid'' 1 [''k'' \<mapsto> JString ''first''] 100 sample_table = (Inr (Saved 2), sample_written)"
    by (simp add: memory_save_def sample_table_def sample_written_def w_saturating_add_def)
  then have "backend_step memory_backend ''sid'' sample_table sample_written"
    by (intro backend_step.save [of _ "''sid''" 1 "[''k'' \<mapsto> JString ''first'']" 100 _ "Inr (Saved 2)"]) (simp add: memory_backend_def)
  then have steps: "(backend_step memory_backend ''sid'')\<^sup>*\<^sup>* sample_table sample_written" by blast
  have put: "session_step\<^sup>*\<^sup>* ?start (fst ?s, snd ?s)" using session_step.intros(1) [of ?start] by auto
  have run: "commit_distributed_session memory_backend (\<lambda>_. ''tok'') 5 60 (fst ?s) sample_written = (CommitConflict, fst ?s, sample_written)"
    by (simp add: commit_distributed_session_def session_distributed_def memory_backend_def memory_save_def sample_snapshot_def
        sample_written_def classify_session_write_def)
  from commit_never_overwrites [OF load steps put _ run] show ?thesis
    using run by (simp add: sample_snapshot_def memory_table_def sample_written_def)
qed

end
