(* ===== verification/Web_Guard_Props.thy ===== *)
theory Web_Guard_Props
  imports Web_Guard
begin

text \<open>
  What the guards of \<open>Web_Guard\<close> promise: which address the application sees and when a client
  cannot choose it; hosts outside the list and foreign origins never reach a handler, and a redirect never
  uses the host a client sends.
\<close>

section \<open>The client address\<close>

lemma walk_hops_find:
  "walk_hops trusted client hops =
     (case find (\<lambda>a. a \<notin> trusted) (client # hops) of Some a \<Rightarrow> a | None \<Rightarrow> last (client # hops))"
  by (induction trusted client hops rule: walk_hops.induct) (auto split: option.split)

lemma split_on_append_sep: "split_on d (a @ d # b) = split_on d a @ split_on d b"
  by (induction d a rule: split_on.induct) (auto split: list.splits)

lemma find_append_Some: "find P xs = Some a \<Longrightarrow> find P (xs @ ys) = Some a"
  by (induction xs) (auto split: if_splits)

lemma trusted_proxies_peer:
  assumes "rq_peer request = Some peer"
  shows "trusted_proxies env trusted request next_handler w =
    next_handler (request\<lparr>
      rq_client_ip := Some (if peer \<in> trusted then forwarded_client env (rq_headers request) peer trusted else peer),
      rq_scheme := Some (if peer \<in> trusted then (case forwarded_scheme env (rq_headers request) of None \<Rightarrow> effective_scheme request | Some s \<Rightarrow> s)
                         else effective_scheme request)\<rparr>) w"
  using assms by (simp add: trusted_proxies_def Let_def)

text \<open>The addresses a header value names, in its order, and the chain of proxies from the server outwards.\<close>

definition header_hops :: "'a web_env \<Rightarrow> string \<Rightarrow> ip_addr list" where
  "header_hops env v =
     concat (map (\<lambda>part. case we_parse_ip env (str_trim part) of None \<Rightarrow> [] | Some a \<Rightarrow> [a]) (split_on (CHR '','') v))"

definition proxy_chain :: "'a web_env \<Rightarrow> headers \<Rightarrow> ip_addr \<Rightarrow> ip_addr list" where
  "proxy_chain env h peer =
     peer # rev (case header_text env ''x-forwarded-for'' h of None \<Rightarrow> [] | Some v \<Rightarrow> header_hops env v)"

lemma hop_addresses_rev: "hop_addresses env v = rev (header_hops env v)"
proof -
  have "List.map_filter f (rev xs) = rev (concat (map (\<lambda>x. case f x of None \<Rightarrow> [] | Some y \<Rightarrow> [y]) xs))" for f :: "string \<Rightarrow> ip_addr option" and xs
    by (induction xs) (auto simp: List.map_filter_def split: option.splits)
  then show ?thesis by (simp add: hop_addresses_def header_hops_def)
qed

text \<open>The scheme a header value says: its part after the last comma.\<close>

definition says_scheme :: "'a web_env \<Rightarrow> headers \<Rightarrow> transport_scheme \<Rightarrow> bool" where
  "says_scheme env h s \<longleftrightarrow>
     (\<exists>v part. header_text env ''x-forwarded-proto'' h = Some v \<and> CHR '','' \<notin> set part \<and>
        (v = part \<or> (\<exists>earlier. v = earlier @ CHR '','' # part)) \<and>
        map ascii_lower (str_trim part) = (case s of Http \<Rightarrow> ''http'' | Https \<Rightarrow> ''https''))"

lemma last_split_on:
  "last (split_on d v) = part \<longleftrightarrow> d \<notin> set part \<and> (v = part \<or> (\<exists>earlier. v = earlier @ d # part))"
proof -
  have "last (split_on d (earlier @ d # rest)) = rest" if "d \<notin> set rest" for earlier rest
    using that by (simp add: split_on_no_sep split_on_append_sep)
  moreover have "d \<notin> set v \<or> (\<exists>earlier rest. v = earlier @ d # rest \<and> d \<notin> set rest)"
    using split_list_last [of d v] by blast
  ultimately show ?thesis by (auto simp: split_on_no_sep)
qed

lemma forwarded_scheme_says: "forwarded_scheme env h = Some s \<longleftrightarrow> says_scheme env h s"
proof (cases "header_text env ''x-forwarded-proto'' h")
  case (Some v)
  let ?part = "map ascii_lower (str_trim (last (split_on (CHR '','') v)))"
  have "to_ascii_lowercase ''https'' = ''https''" "to_ascii_lowercase ''http'' = ''http''" by code_simp+
  then have "forwarded_scheme env h = (if ?part = ''https'' then Some Https else if ?part = ''http'' then Some Http else None)"
    using Some by (simp only: forwarded_scheme_def Let_def eq_ignore_ascii_case_def Option.bind.bind_lunit)
      (simp only: to_ascii_lowercase_def)
  moreover have "says_scheme env h s \<longleftrightarrow> ?part = (case s of Http \<Rightarrow> ''http'' | Https \<Rightarrow> ''https'')"
  proof
    assume "says_scheme env h s"
    then show "?part = (case s of Http \<Rightarrow> ''http'' | Https \<Rightarrow> ''https'')"
      unfolding says_scheme_def
    proof (elim exE conjE)
      fix v' part
      assume header: "header_text env ''x-forwarded-proto'' h = Some v'" and part: "CHR '','' \<notin> set part"
        and tail: "v' = part \<or> (\<exists>earlier. v' = earlier @ CHR '','' # part)"
        and said: "map ascii_lower (str_trim part) = (case s of Http \<Rightarrow> ''http'' | Https \<Rightarrow> ''https'')"
      have "v' = v" using header Some by (simp only: option.inject)
      then have "last (split_on (CHR '','') v) = part" using last_split_on [THEN iffD2, OF conjI [OF part tail]] by (simp only:)
      then show "?part = (case s of Http \<Rightarrow> ''http'' | Https \<Rightarrow> ''https'')" using said by (simp only:)
    qed
  next
    assume said: "?part = (case s of Http \<Rightarrow> ''http'' | Https \<Rightarrow> ''https'')"
    show "says_scheme env h s"
      unfolding says_scheme_def
      by (rule exI [of _ v], rule exI [of _ "last (split_on (CHR '','') v)"], intro conjI Some said)
        (rule last_split_on [THEN iffD1, OF refl, THEN conjunct1] last_split_on [THEN iffD1, OF refl, THEN conjunct2])+
  qed
  moreover have "(if x = a then Some Https else if x = b then Some Http else None) = Some s \<longleftrightarrow> x = (case s of Http \<Rightarrow> b | Https \<Rightarrow> a)"
    if "b \<noteq> a" for x a b :: string
    using that by (cases s) auto
  ultimately show ?thesis by simp
qed (simp add: forwarded_scheme_def says_scheme_def)

text \<open>
C23: Which address and scheme the application sees, for every request. It is the first address of the
chain of proxies, the peer and then the addresses of the first forwarding header from its end, that is
not trusted: the peer itself when that is not a trusted proxy, whatever the headers say. When the
part of the header behind some comma has an untrusted address, what stands before the comma has no
influence. When every address of the chain is trusted it is the farthest one. The scheme is that of
the connection unless the peer is trusted and the last part of the header says otherwise.
\<close>

theorem client_address_exact:
  "(let chain = proxy_chain env (rq_headers request);
        client = (\<lambda>peer. case find (\<lambda>a. a \<notin> trusted) (chain peer) of Some a \<Rightarrow> a | None \<Rightarrow> last (chain peer));
        said = (\<lambda>s. \<exists>peer. rq_peer request = Some peer \<and> peer \<in> trusted \<and> says_scheme env (rq_headers request) s);
        scheme = (if said Https then Https else if said Http then Http else effective_scheme request)
    in trusted_proxies env trusted request next_handler w =
         (case rq_peer request of
            None \<Rightarrow> next_handler (request\<lparr>rq_scheme := Some scheme\<rparr>) w
          | Some peer \<Rightarrow> next_handler (request\<lparr>rq_client_ip := Some (client peer), rq_scheme := Some scheme\<rparr>) w) \<and>
       (\<forall>peer claimed added. header_text env ''x-forwarded-for'' (rq_headers request) = Some (claimed @ CHR '','' # added) \<and>
          (\<exists>a \<in> set (peer # header_hops env added). a \<notin> trusted) \<longrightarrow>
          find (\<lambda>a. a \<notin> trusted) (peer # rev (header_hops env added)) = Some (client peer)))"
proof -
  let ?h = "rq_headers request"
  let ?said = "\<lambda>s. \<exists>peer. rq_peer request = Some peer \<and> peer \<in> trusted \<and> says_scheme env ?h s"
  let ?scheme = "if ?said Https then Https else if ?said Http then Http else effective_scheme request"
  let ?client = "\<lambda>peer. case find (\<lambda>a. a \<notin> trusted) (proxy_chain env ?h peer) of Some a \<Rightarrow> a | None \<Rightarrow> last (proxy_chain env ?h peer)"
  have client: "(if peer \<in> trusted then forwarded_client env ?h peer trusted else peer) = ?client peer" for peer
    by (simp add: forwarded_client_def proxy_chain_def walk_hops_find hop_addresses_rev split: option.split)
  have scheme: "(if peer \<in> trusted then (case forwarded_scheme env ?h of None \<Rightarrow> effective_scheme request | Some s \<Rightarrow> s)
      else effective_scheme request) = ?scheme" if "rq_peer request = Some peer" for peer
  proof -
    have said: "?said s \<longleftrightarrow> peer \<in> trusted \<and> forwarded_scheme env ?h = Some s" for s
      using that by (auto simp: forwarded_scheme_says)
    show ?thesis
    proof (cases "forwarded_scheme env ?h")
      case (Some s)
      then show ?thesis unfolding said by (cases s) simp_all
    qed (unfold said, simp)
  qed
  have "trusted_proxies env trusted request next_handler w =
      (case rq_peer request of
         None \<Rightarrow> next_handler (request\<lparr>rq_scheme := Some ?scheme\<rparr>) w
       | Some peer \<Rightarrow> next_handler (request\<lparr>rq_client_ip := Some (?client peer), rq_scheme := Some ?scheme\<rparr>) w)"
  proof (cases "rq_peer request")
    case (Some peer)
    then show ?thesis unfolding trusted_proxies_peer [OF Some] client scheme [OF Some] by simp
  qed (simp add: trusted_proxies_def Let_def)
  moreover have "find (\<lambda>a. a \<notin> trusted) (peer # rev (header_hops env added)) = Some (?client peer)"
    if header: "header_text env ''x-forwarded-for'' ?h = Some (claimed @ CHR '','' # added)"
      and some: "\<exists>a \<in> set (peer # header_hops env added). a \<notin> trusted" for peer claimed added
  proof -
    obtain a where a: "find (\<lambda>a. a \<notin> trusted) (peer # rev (header_hops env added)) = Some a"
      using some find_None_iff [of "\<lambda>a. a \<notin> trusted" "peer # rev (header_hops env added)"] by auto
    have "proxy_chain env ?h peer = (peer # rev (header_hops env added)) @ rev (header_hops env claimed)"
      by (simp add: proxy_chain_def header header_hops_def split_on_append_sep)
    then show ?thesis using a find_append_Some [OF a] by simp
  qed
  ultimately show ?thesis unfolding Let_def by blast
qed

definition sample_env :: "string web_env" where
  "sample_env =
     \<lparr>we_header_value = (\<lambda>_. True), we_header_text = Some, we_parse_ip = map_of [(''6.6.6.6'', V4 6), (''7.7.7.7'', V4 7)],
      we_parse_method = Some, we_parse_header_name = (\<lambda>n. Some (to_ascii_lowercase n)), we_parse_authority = Some,
      we_authority_text = id, we_authority_host = id\<rparr>"

definition sample_request :: "string \<Rightarrow> (string \<times> string) list \<Rightarrow> (string, unit) request" where
  "sample_request method hs =
     \<lparr>rq_method = method, rq_path = ''/'', rq_path_and_query = Some ''/'', rq_authority = None,
      rq_headers = (\<lambda>name. map snd (filter (\<lambda>(n, _). n = name) hs)), rq_params = [], rq_route_name = None,
      rq_application = None, rq_manifest = None, rq_request_id = None, rq_peer = Some (V4 1), rq_connection = None,
      rq_client_ip = None, rq_scheme = None, rq_nonce = None, rq_has_session = False, rq_rest = ()\<rparr>"

text \<open>A handler that keeps what it sees.\<close>

definition remember :: "(string, unit, (string, unit) request list) handler" where
  "remember request w = (Some (response_text []), request # w)"

theorem client_address_exact_witness:
  "map rq_client_ip (snd (trusted_proxies sample_env {V4 1} (sample_request ''GET'' [(''x-forwarded-for'', ''6.6.6.6,7.7.7.7'')]) remember []))
     = [Some (V4 7)]"
proof -
  let ?r = "sample_request ''GET'' [(''x-forwarded-for'', ''6.6.6.6,7.7.7.7'')]"
  have added: "header_hops sample_env ''7.7.7.7'' = [V4 7]" by code_simp
  have header: "header_text sample_env ''x-forwarded-for'' (rq_headers ?r) = Some (''6.6.6.6'' @ CHR '','' # ''7.7.7.7'')"
    by (simp add: sample_request_def header_text_def header_get_def sample_env_def)
  have peer: "rq_peer ?r = Some (V4 1)" by (simp add: sample_request_def)
  note exact = client_address_exact [of sample_env ?r "{V4 1}" remember "[]", unfolded Let_def peer option.case]
  have "Some (V4 7) = Some (case find (\<lambda>a. a \<notin> {V4 1}) (proxy_chain sample_env (rq_headers ?r) (V4 1)) of
      Some a \<Rightarrow> a | None \<Rightarrow> last (proxy_chain sample_env (rq_headers ?r) (V4 1)))"
    using exact [THEN conjunct2, rule_format, of "''6.6.6.6''" "''7.7.7.7''" "V4 1"] header by (simp add: added)
  then show ?thesis using exact [THEN conjunct1] by (simp add: remember_def)
qed

section \<open>Hosts and redirects\<close>

lemma host_allowlist_exact:
  "host_allowlist env (host_allowlist_new env hosts) request next_handler w =
     (if \<exists>host \<in> set hosts. \<exists>name. normalize_host env host = Some name \<and> request_host env request = Some name
      then next_handler request w else (Some (status_text 400 ''Invalid Host''), w))"
proof -
  have "(\<exists>host \<in> set hosts. normalize_host env host = Some name) \<longleftrightarrow> name \<in> host_allowlist_new env hosts" for name
    by (force simp: host_allowlist_new_def List.map_filter_def)
  then show ?thesis by (cases "request_host env request") (auto simp: host_allowlist_def)
qed

lemma redirect_ignores_host:
  "effective_scheme request = Http \<Longrightarrow> rq_path_and_query request = Some p \<Longrightarrow>
     we_header_value env (''https://'' @ we_authority_text env (hr_authority redirect) @ p) \<Longrightarrow>
   \<exists>r. https_redirect_handle env redirect request next_handler w = (Some r, w) \<and> rp_status r = hr_status redirect
     \<and> rp_headers r ''location'' = [''https://'' @ we_authority_text env (hr_authority redirect) @ p]"
  by (simp add: https_redirect_handle_def insert_header_def header_insert_def response_new_def)

section \<open>Cross-origin requests\<close>

definition is_preflight :: "('a, 'x) request \<Rightarrow> bool" where
  "is_preflight request \<longleftrightarrow> rq_method request = ''OPTIONS'' \<and> rq_headers request ''access-control-request-method'' \<noteq> []"

lemma cors_origin_header:
  "we_header_value env origin \<Longrightarrow> rp_headers (apply_cors_headers env origin config preflight r) ''access-control-allow-origin'' = [origin]"
  by (simp add: apply_cors_headers_def insert_checked_def insert_header_def header_insert_def header_append_def Let_def)

lemma status_text_simps [simp]:
  "rp_status (status_text status body) = status" "name \<noteq> ''content-type'' \<Longrightarrow> rp_headers (status_text status body) name = []"
  by (simp_all add: status_text_def with_status_def response_text_def response_new_def insert_header_def header_insert_def)

lemma cors_status [simp]: "rp_status (apply_cors_headers env origin config preflight r) = rp_status r"
  by (simp add: apply_cors_headers_def insert_checked_def insert_header_def Let_def)

text \<open>
Cross-origin requests. A request with an origin reaches the handler only when its origin
and its method are allowed and it is not a preflight, and the answer of the handler is then
marked with exactly that origin. Every other request with an origin is answered at once: a
valid preflight from an allowed origin with 204 and that origin, everything else with 403 and
without permission for any origin.
\<close>

theorem cors_admits_only_allowed:
  assumes "header_text env ''origin'' (rq_headers request) = Some origin" and "we_header_value env origin"
  shows "if origin \<in> cc_allowed_origins config \<and> \<not> is_preflight request \<and> rq_method request \<in> cc_allowed_methods config
    then cors env config request next_handler w
        = then_response (apply_cors_headers env origin config False) (next_handler request w)
      \<and> (\<forall>r. next_handler request w = (Some r, w') \<longrightarrow>
           (\<exists>r'. cors env config request next_handler w = (Some r', w') \<and> rp_status r' = rp_status r
              \<and> rp_headers r' ''access-control-allow-origin'' = [origin]))
    else \<exists>r. cors env config request next_handler w = (Some r, w)
      \<and> (if origin \<in> cc_allowed_origins config \<and> is_preflight request \<and> valid_preflight env (rq_headers request) config
         then rp_status r = 204 \<and> rp_headers r ''access-control-allow-origin'' = [origin]
         else rp_status r = 403 \<and> rp_headers r ''access-control-allow-origin'' = [])"
  using assms
  by (auto simp: cors_def is_preflight_def then_response_def Let_def cors_origin_header response_new_def)

theorem cors_admits_only_allowed_witness:
  "\<exists>r. cors sample_env cors_config_default (sample_request ''GET'' [(''origin'', ''https://evil'')]) remember [] = (Some r, [])
     \<and> rp_status r = 403 \<and> rp_headers r ''access-control-allow-origin'' = []"
  using cors_admits_only_allowed [where env = sample_env and config = cors_config_default and origin = "''https://evil''"
      and request = "sample_request ''GET'' [(''origin'', ''https://evil'')]" and next_handler = remember and w = "[]"]
  by (simp add: sample_request_def header_text_def header_get_def sample_env_def cors_config_default_def)

end
