(* ===== verification/Session_Sign_In.thy ===== *)
theory Session_Sign_In
  imports Session_Backend_Props Web_Guard_Props
begin

text \<open>
  The guard, the session and the backend together: signing in through a shared backend; and
  the CSRF middleware, with its comparison in constant time.
\<close>

section \<open>Signing in through a shared backend\<close>

lemma memory_rotate_attempts:
  assumes "write_attempts (\<lambda>j. memory_rotate i j v vs e) tokens n j (DistributedSession d) m = (CommitPersisted, s', m')" and "ds_id d = j"
  shows "\<exists>k v'. s' = DistributedSession (d\<lparr>ds_id := k\<rparr>) \<and> m k = None \<and> m i \<noteq> None
    \<and> m' = (m(i := None))(k \<mapsto> \<lparr>sn_values = vs, sn_version = v', sn_expires_at = e\<rparr>)"
  using assms
proof (induction n arbitrary: j d)
  case (Suc n)
  show ?case
  proof (cases "m j")
    case None
    then have "s' = DistributedSession (d\<lparr>ds_id := j\<rparr>)" "m i \<noteq> None"
      "m' = (m(i := None))(j \<mapsto> \<lparr>sn_values = vs, sn_version = w_saturating_add v 1, sn_expires_at = e\<rparr>)"
      using Suc.prems by (auto simp: memory_rotate_def Let_def split: option.splits if_splits)
    then show ?thesis using None by blast
  next
    case (Some r)
    then have "memory_rotate i j v vs e m = (Inr WriteCollision, m)" by (simp add: memory_rotate_def)
    then have "write_attempts (\<lambda>j. memory_rotate i j v vs e) tokens n (tokens n) (DistributedSession (d\<lparr>ds_id := tokens n\<rparr>)) m = (CommitPersisted, s', m')"
      using Suc.prems(1) by simp
    from Suc.IH [OF this] show ?thesis by simp
  qed
qed simp

lemma login_distributed:
  "\<exists>d. guard_login web_session now token user (session_distributed i (Some snap), st) = (DistributedSession d, st) \<and> \<not> ds_destroyed d \<and> ds_rotated d
     \<and> ds_original_id d = Some i \<and> ds_version d = Some (sn_version snap)
     \<and> ds_values d = (sn_values snap)(AUTH_SESSION_KEY \<mapsto> JString (au_id user))"
  by (simp add: login_web session_distributed_def Let_def)

lemma attempt_success:
  "guard_attempt web_session provider verify now token ident password (s, w) = (Inr (Some user), (t, w')) \<Longrightarrow>
     t = guard_login web_session now token user s"
  by (auto simp: attempt_cases split: prod.splits sum.splits option.splits if_splits)

lemma memory_load_missing: "m i = None \<Longrightarrow> fst (memory_load i now e m) = Inr None"
  by (simp add: memory_load_def)

lemma memory_load_live:
  "m i = Some r \<Longrightarrow> now < sn_expires_at r \<Longrightarrow>
     \<exists>r'. fst (memory_load i now e m) = Inr (Some r') \<and> sn_values r' = sn_values r"
  by (simp add: memory_load_def Let_def)

text \<open>
Signing in through the in-memory backend. When an attempt to sign in succeeds on a session
loaded from the backend and the request commits, the identifier has changed; from then on the
old identifier finds nothing, the new one finds a session with the identity of the user and
otherwise the values it had, until it expires, and every other session is as before.
\<close>

theorem shared_sign_in_retires_old_id:
  assumes "guard_attempt web_session provider verify now token ident password ((session_distributed i (Some snap), st), w)
      = (Inr (Some user), ((s, st'), w'))"
    and "commit_distributed_session memory_backend tokens now' ttl s m = (CommitPersisted, s', m')"
    and "now'' < w_saturating_add now' ttl"
  shows "session_id (s', st') \<noteq> i
    \<and> fst (memory_load i now'' e m') = Inr None
    \<and> (\<exists>snap'. fst (memory_load (session_id (s', st')) now'' e m') = Inr (Some snap')
         \<and> session_identity (session_distributed (session_id (s', st')) (Some snap'), st') = Some (au_id user)
         \<and> (\<forall>key. key \<noteq> AUTH_SESSION_KEY \<longrightarrow> session_get key (session_distributed (session_id (s', st')) (Some snap'), st') = sn_values snap key))
    \<and> (\<forall>k. k \<notin> {i, session_id (s', st')} \<longrightarrow> m' k = m k)"
proof -
  obtain d where d: "s = DistributedSession d" "\<not> ds_destroyed d" "ds_rotated d" "ds_original_id d = Some i"
    "ds_version d = Some (sn_version snap)" "ds_values d = (sn_values snap)(AUTH_SESSION_KEY \<mapsto> JString (au_id user))"
    using login_distributed [of now token user i snap st] attempt_success [OF assms(1)] by auto
  let ?e = "w_saturating_add now' ttl"
  have "write_attempts (\<lambda>j. memory_rotate i j (sn_version snap) (ds_values d) ?e) tokens SESSION_ID_ATTEMPTS (ds_id d) (DistributedSession d) m
      = (CommitPersisted, s', m')"
    using assms(2) d(1-5) by (simp add: commit_distributed_session_def rotate_distributed_session_def memory_backend_def)
  from memory_rotate_attempts [OF this refl] obtain k v' where k: "s' = DistributedSession (d\<lparr>ds_id := k\<rparr>)" "m k = None" "m i \<noteq> None"
    "m' = (m(i := None))(k \<mapsto> \<lparr>sn_values = ds_values d, sn_version = v', sn_expires_at = ?e\<rparr>)"
    by blast
  then have id: "session_id (s', st') = k" and "k \<noteq> i" by auto
  obtain snap' where "fst (memory_load k now'' e m') = Inr (Some snap')" "sn_values snap' = ds_values d"
    using memory_load_live [of m' k _ now'' e] k(4) assms(3) by fastforce
  then show ?thesis
    using id \<open>k \<noteq> i\<close> k(4) memory_load_missing [of m' i] d(6)
    by (auto simp: session_identity_def session_distributed_def Let_def)
qed

definition sample_users :: "unit user_provider" where
  "sample_users = \<lparr>up_find_by_identifier = (\<lambda>_. op_return (Some (auth_user_new ''7'' ''ann'' ''h''))), up_find_by_id = (\<lambda>_. op_return None)\<rparr>"

theorem shared_sign_in_retires_old_id_witness:
  "\<exists>s s' m'. commit_distributed_session memory_backend (\<lambda>_. ''tok'') 5 60 s sample_table = (CommitPersisted, s', m')
     \<and> session_id (s', session_store_memory 60) \<noteq> ''sid'' \<and> fst (memory_load ''sid'' 6 100 m') = Inr None"
proof -
  let ?st = "session_store_memory 60 :: unit session_store"
  let ?user = "auth_user_new ''7'' ''ann'' ''h''"
  obtain s where s: "guard_login web_session 5 ''new'' ?user (session_distributed ''sid'' (Some sample_snapshot), ?st) = (s, ?st)"
    "fst (commit_distributed_session memory_backend (\<lambda>_. ''tok'') 5 60 s sample_table) = CommitPersisted"
    by (simp add: login_web session_distributed_def commit_distributed_session_def rotate_distributed_session_def SESSION_ID_ATTEMPTS_def eval_nat_numeral
        memory_backend_def memory_rotate_def sample_table_def sample_snapshot_def Let_def)
  obtain s' m' where c: "commit_distributed_session memory_backend (\<lambda>_. ''tok'') 5 60 s sample_table = (CommitPersisted, s', m')"
    using s(2) by (metis prod.collapse)
  have a: "guard_attempt web_session sample_users (\<lambda>_ _. Some True) 5 ''new'' ''ann'' ''pw'' ((session_distributed ''sid'' (Some sample_snapshot), ?st), ())
      = (Inr (Some ?user), ((s, ?st), ()))"
    using s(1) by (simp add: attempt_cases sample_users_def)
  have "(6 :: u64) < w_saturating_add 5 60" by (simp add: w_saturating_add_def)
  from shared_sign_in_retires_old_id [OF a c this] c show ?thesis by blast
qed

section \<open>CSRF\<close>

lemma of_char_u8 [simp]: "(of_char a :: u8) = of_char b \<longleftrightarrow> a = b"
proof
  assume "(of_char a :: u8) = of_char b"
  then have "(of_nat (of_char a) :: u8) = of_nat (of_char b)" by (simp only: of_nat_of_char)
  then have "(of_char a :: nat) mod 256 = of_char b mod 256" by (simp add: word_of_nat_eq_iff take_bit_eq_mod)
  then show "a = b" by simp
qed simp

lemma constant_time_fold:
  "fold (\<lambda>(l, r) difference. or difference (xor l r)) ps d = 0 \<longleftrightarrow> d = 0 \<and> (\<forall>(l, r) \<in> set ps. l = (r :: u8))"
proof (induction ps arbitrary: d)
  case (Cons p ps)
  have "or d (xor l r) = 0 \<longleftrightarrow> d = 0 \<and> l = r" for l r :: u8
    by (auto simp: bit_eq_iff bit_or_iff bit_xor_iff)
  then show ?case by (cases p) (simp add: Cons.IH)
qed simp

lemma constant_time_eq_iff: "constant_time_eq l r \<longleftrightarrow> l = r"
proof -
  have "(\<forall>(x, y) \<in> set (zip (map of_char l) (map of_char r)). x = (y :: u8)) \<longleftrightarrow> l = r" if "length l = length r"
    using that by (induction l r rule: list_induct2) auto
  then show ?thesis by (auto simp: constant_time_eq_def constant_time_fold)
qed

text \<open>
CSRF. On a request with a session, the token is that of the session, or a fresh one that
is stored in it. The handler runs exactly when the method is safe or the request carries that
token, and its answer is marked with the token; every other request is answered with 403 and
changes nothing but the stored token. The comparison in constant time is equality.
\<close>

theorem unsafe_requests_need_csrf_token:
  assumes "rq_has_session request"
  shows "\<exists>token t.
      (case session_csrf_token (ww_session w, ww_store w) of
         Some stored \<Rightarrow> token = stored \<and> t = w
       | None \<Rightarrow> token = fresh \<and> ww_backend t = ww_backend w \<and> ww_rest t = ww_rest w
           \<and> (session_backed (ww_session w, ww_store w) \<longrightarrow> session_csrf_token (ww_session t, ww_store t) = Some fresh))
    \<and> (\<forall>next_handler. csrf env fresh request next_handler w =
         (if is_safe_method (rq_method request) \<or> header_text env ''x-csrf-token'' (rq_headers request) = Some token
          then then_response (insert_checked env ''x-csrf-token'' token) (next_handler request t)
          else (Some (status_text 403 ''CSRF token mismatch''), t)))"
proof (cases "session_csrf_token (ww_session w, ww_store w)")
  case None
  obtain ses store where put: "session_put ''_csrf'' (JString fresh) (ww_session w, ww_store w) = (ses, store)" by force
  have "session_csrf_token (ses, store) = Some fresh" if "session_backed (ww_session w, ww_store w)"
    using get_put [OF that, of "''_csrf''" "''_csrf''" "JString fresh"] put by (simp add: session_csrf_token_def)
  with None put assms show ?thesis
    by (intro exI [of _ fresh] exI [of _ "w\<lparr>ww_session := ses, ww_store := store\<rparr>"])
      (auto simp: csrf_def constant_time_eq_iff split: option.splits)
next
  case (Some stored)
  with assms show ?thesis
    by (intro exI [of _ stored] exI [of _ w]) (auto simp: csrf_def constant_time_eq_iff split: option.splits)
qed

definition sample_world :: "(unit, unit, nat) web_world" where
  "sample_world = \<lparr>ww_session = LocalSession ''sid'' False,
     ww_store = \<lparr>st_records = [''sid'' \<mapsto> \<lparr>sr_values = [''_csrf'' \<mapsto> JString ''secret''], sr_expires_at = 9\<rparr>], st_ttl = 9\<rparr>,
     ww_backend = (), ww_rest = 0\<rparr>"

theorem unsafe_requests_need_csrf_token_witness:
  "csrf sample_env ''fresh'' ((sample_request ''POST'' [(''x-csrf-token'', ''guess'')])\<lparr>rq_has_session := True\<rparr>)
     (\<lambda>_ w. (None, w\<lparr>ww_rest := 1\<rparr>)) sample_world
   = (Some (status_text 403 ''CSRF token mismatch''), sample_world)"
proof -
  let ?r = "(sample_request ''POST'' [(''x-csrf-token'', ''guess'')])\<lparr>rq_has_session := True\<rparr>"
  have token: "session_csrf_token (ww_session sample_world, ww_store sample_world) = Some ''secret''"
    by (simp add: session_csrf_token_def sample_world_def)
  have header: "header_text sample_env ''x-csrf-token'' (rq_headers ?r) = Some ''guess''"
    by (simp add: header_text_def header_get_def sample_request_def sample_env_def)
  have unsafe: "\<not> is_safe_method (rq_method ?r)" by (simp add: is_safe_method_def sample_request_def)
  have "rq_has_session ?r" by simp
  from unsafe_requests_need_csrf_token [OF this, where w = sample_world and env = sample_env and fresh = "''fresh''"]
  show ?thesis using token header unsafe by auto
qed

end
