(* ===== verification/Jwt.thy ===== *)
theory Jwt
  imports Rate_Limit Web_Guard
begin

text \<open>
  Signed access tokens (\<open>phoenix-crypto\<close>, \<open>jwt.rs\<close>): keys, policies, issuing and verifying, and the
  middleware that requires a bearer token. Encoding, decoding and signatures belong to another
  package and are the record \<open>jwt_lib\<close>; custom claims are values \<open>'j\<close>, which that record
  serializes, when it can, to an object with known keys or to another JSON value. The clock, in seconds, and the random identifier of a token are
  arguments.
\<close>

section \<open>Claims, keys and policies\<close>

record 'j jwt_claims =
  jc_sub :: string
  jc_jti :: string
  jc_sid :: "string option"
  jc_exp :: u64
  jc_iat :: u64
  jc_nbf :: u64
  jc_iss :: "string option"
  jc_aud :: "string option"
  jc_custom :: 'j

datatype 'e jwt_error =
    InvalidKeyId | WeakKey | InvalidTtl | InvalidClaimPolicy | InvalidSubject | InvalidTokenId | InvalidSessionId
  | MissingKeyId | UnknownKey | InvalidAlgorithm | CustomClaimsMustBeObject | ReservedClaim | CustomClaims 'e | TokenProcessing 'e | InvalidClock

record jwt_key =
  jk_id :: string
  jk_secret :: string

definition MIN_SECRET_BYTES :: nat where
  "MIN_SECRET_BYTES = 32"

definition jwt_key_new :: "string \<Rightarrow> string \<Rightarrow> 'e jwt_error + jwt_key" where
  "jwt_key_new i secret =
     (if trim_is_empty i then Inl InvalidKeyId
      else if length secret < MIN_SECRET_BYTES then Inl WeakKey
      else Inr \<lparr>jk_id = i, jk_secret = secret\<rparr>)"

record jwt_config =
  jf_ttl :: duration
  jf_leeway :: duration
  jf_issuer :: "string option"
  jf_audience :: "string option"

definition jwt_config_new :: "duration \<Rightarrow> jwt_config" where
  "jwt_config_new ttl = \<lparr>jf_ttl = ttl, jf_leeway = duration_from_secs 30, jf_issuer = None, jf_audience = None\<rparr>"

definition jwt_leeway :: "duration \<Rightarrow> jwt_config \<Rightarrow> jwt_config" where
  "jwt_leeway leeway config = config\<lparr>jf_leeway := leeway\<rparr>"

definition jwt_issuer :: "string \<Rightarrow> jwt_config \<Rightarrow> jwt_config" where
  "jwt_issuer issuer config = config\<lparr>jf_issuer := Some issuer\<rparr>"

definition jwt_audience :: "string \<Rightarrow> jwt_config \<Rightarrow> jwt_config" where
  "jwt_audience audience config = config\<lparr>jf_audience := Some audience\<rparr>"

definition jwt_config_default :: jwt_config where
  "jwt_config_default = jwt_config_new (duration_from_secs 900)"

definition validate_config :: "jwt_config \<Rightarrow> 'e jwt_error + unit" where
  "validate_config config =
     (if jf_ttl config = 0 then Inl InvalidTtl
      else if (case jf_issuer config of None \<Rightarrow> False | Some v \<Rightarrow> trim_is_empty v)
        \<or> (case jf_audience config of None \<Rightarrow> False | Some v \<Rightarrow> trim_is_empty v)
      then Inl InvalidClaimPolicy
      else Inr ())"

section \<open>The token package\<close>

datatype jwt_algorithm = HS256 | OtherAlgorithm

record jwt_validation =
  jv_leeway :: u64
  jv_validate_nbf :: bool
  jv_issuer :: "string option"
  jv_audience :: "string option"
  jv_required :: "string list"

record ('e, 'j) jwt_lib =
  jl_encode :: "string \<Rightarrow> 'j jwt_claims \<Rightarrow> string \<Rightarrow> 'e + string"
  jl_decode_header :: "string \<Rightarrow> 'e + (jwt_algorithm \<times> string option)"
  jl_decode :: "string \<Rightarrow> string \<Rightarrow> jwt_validation \<Rightarrow> u64 \<Rightarrow> 'e + 'j jwt_claims"
  jl_object_keys :: "'j \<Rightarrow> 'e + string list option"

section \<open>Issuing and verifying\<close>

record jwt_manager =
  jm_active_key_id :: string
  jm_keys :: "string \<rightharpoonup> jwt_key"
  jm_config :: jwt_config

definition jwt_manager_new :: "jwt_key \<Rightarrow> jwt_config \<Rightarrow> 'e jwt_error + jwt_manager" where
  "jwt_manager_new active config =
     (case validate_config config of
        Inl e \<Rightarrow> Inl e
      | Inr _ \<Rightarrow> Inr \<lparr>jm_active_key_id = jk_id active, jm_keys = [jk_id active \<mapsto> active], jm_config = config\<rparr>)"

definition with_verification_key :: "jwt_key \<Rightarrow> jwt_manager \<Rightarrow> jwt_manager" where
  "with_verification_key key m = m\<lparr>jm_keys := (jm_keys m)(jk_id key \<mapsto> key)\<rparr>"

definition reserved_claims :: "string list" where
  "reserved_claims = [''sub'', ''jti'', ''sid'', ''exp'', ''iat'', ''nbf'', ''iss'', ''aud'']"

definition validate_custom_claims :: "('e, 'j) jwt_lib \<Rightarrow> 'j \<Rightarrow> 'e jwt_error + unit" where
  "validate_custom_claims lib custom =
     (case jl_object_keys lib custom of
        Inl e \<Rightarrow> Inl (CustomClaims e)
      | Inr None \<Rightarrow> Inl CustomClaimsMustBeObject
      | Inr (Some keys) \<Rightarrow> if list_ex (\<lambda>key. key \<in> set reserved_claims) keys then Inl ReservedClaim else Inr ())"

definition blank_option :: "string option \<Rightarrow> bool" where
  "blank_option v = (case v of None \<Rightarrow> False | Some v \<Rightarrow> trim_is_empty v)"

definition issue_at_in_family :: "('e, 'j) jwt_lib \<Rightarrow> jwt_manager \<Rightarrow> string \<Rightarrow> string \<Rightarrow> 'j \<Rightarrow> u64 \<Rightarrow> string option \<Rightarrow>
    'e jwt_error + (string \<times> 'j jwt_claims)" where
  "issue_at_in_family lib m jti subject custom now sid =
     (if trim_is_empty subject then Inl InvalidSubject
      else if blank_option sid then Inl InvalidSessionId
      else (case validate_custom_claims lib custom of
              Inl e \<Rightarrow> Inl e
            | Inr _ \<Rightarrow>
                (case jm_keys m (jm_active_key_id m) of
                   None \<Rightarrow> Inl UnknownKey
                 | Some key \<Rightarrow>
                     (let claims = \<lparr>jc_sub = subject, jc_jti = jti, jc_sid = sid,
                            jc_exp = w_saturating_add now (as_secs (jf_ttl (jm_config m))), jc_iat = now, jc_nbf = now,
                            jc_iss = jf_issuer (jm_config m), jc_aud = jf_audience (jm_config m), jc_custom = custom\<rparr>
                      in case jl_encode lib (jk_id key) claims (jk_secret key) of
                           Inl e \<Rightarrow> Inl (TokenProcessing e)
                         | Inr token \<Rightarrow> Inr (token, claims)))))"

definition jwt_issue_at :: "('e, 'j) jwt_lib \<Rightarrow> jwt_manager \<Rightarrow> string \<Rightarrow> string \<Rightarrow> 'j \<Rightarrow> u64 \<Rightarrow> 'e jwt_error + string" where
  "jwt_issue_at lib m jti subject custom now = map_sum id fst (issue_at_in_family lib m jti subject custom now None)"

text \<open>\<open>None\<close> is a clock before the epoch.\<close>

definition unix_timestamp :: "u64 option \<Rightarrow> 'e jwt_error + u64" where
  "unix_timestamp clock = (case clock of None \<Rightarrow> Inl InvalidClock | Some now \<Rightarrow> Inr now)"

definition jwt_issue :: "('e, 'j) jwt_lib \<Rightarrow> jwt_manager \<Rightarrow> string \<Rightarrow> string \<Rightarrow> 'j \<Rightarrow> u64 option \<Rightarrow> 'e jwt_error + string" where
  "jwt_issue lib m jti subject custom clock =
     (case unix_timestamp clock of Inl e \<Rightarrow> Inl e | Inr now \<Rightarrow> jwt_issue_at lib m jti subject custom now)"

definition jwt_validation_of :: "jwt_config \<Rightarrow> jwt_validation" where
  "jwt_validation_of config =
     \<lparr>jv_leeway = as_secs (jf_leeway config), jv_validate_nbf = True, jv_issuer = jf_issuer config, jv_audience = jf_audience config,
      jv_required = [''exp'', ''iat'', ''nbf'', ''sub'', ''jti''] @ (if jf_issuer config = None then [] else [''iss'']) @
        (if jf_audience config = None then [] else [''aud''])\<rparr>"

definition jwt_verify :: "('e, 'j) jwt_lib \<Rightarrow> jwt_manager \<Rightarrow> u64 \<Rightarrow> string \<Rightarrow> 'e jwt_error + 'j jwt_claims" where
  "jwt_verify lib m now token =
     (case jl_decode_header lib token of
        Inl e \<Rightarrow> Inl (TokenProcessing e)
      | Inr (alg, kid) \<Rightarrow>
          if alg \<noteq> HS256 then Inl InvalidAlgorithm
          else (case kid of
                  None \<Rightarrow> Inl MissingKeyId
                | Some key_id \<Rightarrow>
                    (case jm_keys m key_id of
                       None \<Rightarrow> Inl UnknownKey
                     | Some key \<Rightarrow>
                         (case jl_decode lib token (jk_secret key) (jwt_validation_of (jm_config m)) now of
                            Inl e \<Rightarrow> Inl (TokenProcessing e)
                          | Inr claims \<Rightarrow>
                              if trim_is_empty (jc_sub claims) then Inl InvalidSubject
                              else if trim_is_empty (jc_jti claims) then Inl InvalidTokenId
                              else if blank_option (jc_sid claims) then Inl InvalidSessionId
                              else Inr claims))))"

section \<open>Bearer tokens\<close>

text \<open>\<open>char::is_whitespace\<close> on some character of a text.\<close>

fun has_whitespace :: "string \<Rightarrow> bool" where
  "has_whitespace [] \<longleftrightarrow> False"
| "has_whitespace (c # s) \<longleftrightarrow> ws_len (c # s) \<noteq> 0 \<or> has_whitespace s"

definition bearer_token :: "string \<Rightarrow> string option" where
  "bearer_token v =
     (case split_once (CHR '' '') v of
        None \<Rightarrow> None
      | Some (scheme, token) \<Rightarrow>
          if eq_ignore_ascii_case scheme ''bearer'' \<and> token \<noteq> [] \<and> \<not> has_whitespace token then Some token else None)"

definition jwt_rejection :: "('x, 'w) response" where
  "jwt_rejection = insert_header ''www-authenticate'' ''Bearer'' (status_text 401 ''Unauthorized'')"

text \<open>The verified claims go into the extensions of the request through \<open>with_claims\<close>.\<close>

definition jwt_auth :: "'a web_env \<Rightarrow> ('e, 'j) jwt_lib \<Rightarrow> jwt_manager \<Rightarrow> u64 \<Rightarrow> ('j jwt_claims \<Rightarrow> ('a, 'x) request \<Rightarrow> ('a, 'x) request) \<Rightarrow>
    ('a, 'x, 'w) middleware" where
  "jwt_auth env lib m now with_claims request next_handler w =
     (case Option.bind (header_text env ''authorization'' (rq_headers request)) bearer_token of
        None \<Rightarrow> (Some jwt_rejection, w)
      | Some token \<Rightarrow>
          (case jwt_verify lib m now token of
             Inl _ \<Rightarrow> (Some jwt_rejection, w)
           | Inr claims \<Rightarrow> next_handler (with_claims claims request) w))"

end
