(* ===== verification/Token.thy ===== *)
theory Token
  imports Jwt "HOL-Library.Finite_Map"
begin

text \<open>
  Rotating refresh tokens and the revocation of access tokens (\<open>phoenix-crypto\<close>, \<open>token.rs\<close>). The
  functions on \<open>TokenState\<close> are those both stores share; the in-memory store applies them to its
  state, the file store to a copy that replaces the state once it is on disk. \<open>TokenService\<close> works
  over any store. Writing the file, the hash of a token and the base64 codec are arguments, as
  are the clock and the random tokens.
\<close>

section \<open>State\<close>

record 'j refresh_record =
  rf_token_hash :: string
  rf_family_id :: string
  rf_subject :: string
  rf_custom :: 'j
  rf_expires_at :: u64
  rf_used_at :: "u64 option"
  rf_revoked :: bool

datatype 'j rotation_outcome = Rotated "'j refresh_record" | Reused | InvalidRotation

datatype token_store_error = StoreIo string | StoreSerialization string | StoreInvalidPath | DuplicateToken

record 'j token_state =
  tk_refresh :: "(string, 'j refresh_record) fmap"
  tk_revoked_families :: "string \<rightharpoonup> u64"
  tk_revoked_access :: "string \<rightharpoonup> u64"

definition token_state_default :: "'j token_state" where
  "token_state_default = \<lparr>tk_refresh = fmempty, tk_revoked_families = Map.empty, tk_revoked_access = Map.empty\<rparr>"

definition insert_refresh :: "'j refresh_record \<Rightarrow> ('j token_state, token_store_error, unit) op" where
  "insert_refresh record st =
     (if fmlookup (tk_refresh st) (rf_token_hash record) \<noteq> None then (Inl DuplicateToken, st)
      else (Inr (), st\<lparr>tk_refresh := fmupd (rf_token_hash record) record (tk_refresh st)\<rparr>))"

definition find_refresh :: "string \<Rightarrow> u64 \<Rightarrow> 'j token_state \<Rightarrow> 'j refresh_record option" where
  "find_refresh token_hash now st =
     (case fmlookup (tk_refresh st) token_hash of
        None \<Rightarrow> None
      | Some record \<Rightarrow> if rf_expires_at record > now \<and> \<not> rf_revoked record then Some record else None)"

definition later :: "(string \<rightharpoonup> u64) \<Rightarrow> string \<Rightarrow> u64 \<Rightarrow> bool" where
  "later m key now = (case m key of None \<Rightarrow> False | Some expires_at \<Rightarrow> expires_at > now)"

definition revoke_family :: "string \<Rightarrow> u64 \<Rightarrow> 'j token_state \<Rightarrow> 'j token_state" where
  "revoke_family family_id expires_at st =
     st\<lparr>tk_revoked_families := (tk_revoked_families st)(family_id \<mapsto>
          (case tk_revoked_families st family_id of None \<Rightarrow> expires_at | Some existing \<Rightarrow> max existing expires_at)),
        tk_refresh := fmmap (\<lambda>r. if rf_family_id r = family_id then r\<lparr>rf_revoked := True\<rparr> else r) (tk_refresh st)\<rparr>"

text \<open>The latest expiry in a family; \<open>fallback\<close> when it has no record.\<close>

definition family_expiry :: "string \<Rightarrow> u64 \<Rightarrow> 'j token_state \<Rightarrow> u64" where
  "family_expiry family_id fallback st =
     (let expiries = rf_expires_at |`| ffilter (\<lambda>r. rf_family_id r = family_id) (fmran (tk_refresh st))
      in if expiries = {||} then fallback else fMax expiries)"

definition rotate_refresh :: "string \<Rightarrow> string \<Rightarrow> u64 \<Rightarrow> u64 \<Rightarrow> 'j token_state \<Rightarrow> 'j rotation_outcome \<times> 'j token_state" where
  "rotate_refresh token_hash replacement_hash replacement_expires_at now st =
     (case fmlookup (tk_refresh st) token_hash of
        None \<Rightarrow> (InvalidRotation, st)
      | Some existing \<Rightarrow>
          if rf_expires_at existing \<le> now \<or> rf_revoked existing \<or> later (tk_revoked_families st) (rf_family_id existing) now
          then (InvalidRotation, st)
          else if rf_used_at existing \<noteq> None
          then (Reused, revoke_family (rf_family_id existing) (family_expiry (rf_family_id existing) (rf_expires_at existing) st) st)
          else
            (let replacement = existing\<lparr>rf_token_hash := replacement_hash, rf_expires_at := replacement_expires_at,
                   rf_used_at := None, rf_revoked := False\<rparr>
             in (Rotated replacement,
                 st\<lparr>tk_refresh := fmupd replacement_hash replacement
                      (fmupd token_hash (existing\<lparr>rf_used_at := Some now\<rparr>) (tk_refresh st))\<rparr>)))"

definition purge_map :: "u64 \<Rightarrow> (string \<rightharpoonup> u64) \<Rightarrow> string \<rightharpoonup> u64" where
  "purge_map now m = (\<lambda>key. case m key of None \<Rightarrow> None | Some expires_at \<Rightarrow> if expires_at > now then Some expires_at else None)"

definition purge_expired :: "u64 \<Rightarrow> 'j token_state \<Rightarrow> 'j token_state" where
  "purge_expired now st =
     st\<lparr>tk_refresh := fmfilter (\<lambda>h. case fmlookup (tk_refresh st) h of None \<Rightarrow> False | Some r \<Rightarrow> rf_expires_at r > now) (tk_refresh st),
        tk_revoked_families := purge_map now (tk_revoked_families st),
        tk_revoked_access := purge_map now (tk_revoked_access st)\<rparr>"

definition state_revoke_access :: "string \<Rightarrow> u64 \<Rightarrow> 'j token_state \<Rightarrow> 'j token_state" where
  "state_revoke_access token_id expires_at st = st\<lparr>tk_revoked_access := (tk_revoked_access st)(token_id \<mapsto> expires_at)\<rparr>"

section \<open>Stores\<close>

record ('b, 'j) token_store =
  ts_insert_refresh :: "'j refresh_record \<Rightarrow> ('b, token_store_error, unit) op"
  ts_find_refresh :: "string \<Rightarrow> u64 \<Rightarrow> ('b, token_store_error, 'j refresh_record option) op"
  ts_rotate_refresh :: "string \<Rightarrow> string \<Rightarrow> u64 \<Rightarrow> u64 \<Rightarrow> ('b, token_store_error, 'j rotation_outcome) op"
  ts_revoke_family :: "string \<Rightarrow> u64 \<Rightarrow> ('b, token_store_error, unit) op"
  ts_is_family_revoked :: "string \<Rightarrow> u64 \<Rightarrow> ('b, token_store_error, bool) op"
  ts_revoke_access :: "string \<Rightarrow> u64 \<Rightarrow> ('b, token_store_error, unit) op"
  ts_is_access_revoked :: "string \<Rightarrow> u64 \<Rightarrow> ('b, token_store_error, bool) op"
  ts_purge_expired :: "u64 \<Rightarrow> ('b, token_store_error, unit) op"

definition memory_token_store :: "('j token_state, 'j) token_store" where
  "memory_token_store =
     \<lparr>ts_insert_refresh = insert_refresh,
      ts_find_refresh = (\<lambda>token_hash now st. (Inr (find_refresh token_hash now st), st)),
      ts_rotate_refresh = (\<lambda>token_hash replacement_hash expires_at now st.
        case rotate_refresh token_hash replacement_hash expires_at now st of (r, st) \<Rightarrow> (Inr r, st)),
      ts_revoke_family = (\<lambda>family_id expires_at st. (Inr (), revoke_family family_id expires_at st)),
      ts_is_family_revoked = (\<lambda>family_id now st. (Inr (later (tk_revoked_families st) family_id now), st)),
      ts_revoke_access = (\<lambda>token_id expires_at st. (Inr (), state_revoke_access token_id expires_at st)),
      ts_is_access_revoked = (\<lambda>token_id now st. (Inr (later (tk_revoked_access st) token_id now), st)),
      ts_purge_expired = (\<lambda>now st. (Inr (), purge_expired now st))\<rparr>"

text \<open>
  The file store: its state is what it holds in memory and what is on disk, and \<open>persist\<close>
  writes a candidate, or fails and leaves the disk as it is.
\<close>

definition file_mutate :: "('j token_state \<Rightarrow> 'd \<Rightarrow> (token_store_error + unit) \<times> 'd) \<Rightarrow> ('j token_state, token_store_error, 'r) op \<Rightarrow>
    ('j token_state \<times> 'd, token_store_error, 'r) op" where
  "file_mutate persist operation = (\<lambda>(st, disk).
     case operation st of
       (Inl e, _) \<Rightarrow> (Inl e, (st, disk))
     | (Inr r, candidate) \<Rightarrow>
         (case persist candidate disk of
            (Inl e, disk) \<Rightarrow> (Inl e, (st, disk))
          | (Inr _, disk) \<Rightarrow> (Inr r, (candidate, disk))))"

definition file_token_store :: "('j token_state \<Rightarrow> 'd \<Rightarrow> (token_store_error + unit) \<times> 'd) \<Rightarrow> ('j token_state \<times> 'd, 'j) token_store" where
  "file_token_store persist =
     \<lparr>ts_insert_refresh = (\<lambda>record. file_mutate persist (insert_refresh record)),
      ts_find_refresh = (\<lambda>token_hash now. on_fst (\<lambda>st. (Inr (find_refresh token_hash now st), st))),
      ts_rotate_refresh = (\<lambda>token_hash replacement_hash expires_at now. file_mutate persist (\<lambda>st.
        case rotate_refresh token_hash replacement_hash expires_at now st of (r, st) \<Rightarrow> (Inr r, st))),
      ts_revoke_family = (\<lambda>family_id expires_at. file_mutate persist (\<lambda>st. (Inr (), revoke_family family_id expires_at st))),
      ts_is_family_revoked = (\<lambda>family_id now. on_fst (\<lambda>st. (Inr (later (tk_revoked_families st) family_id now), st))),
      ts_revoke_access = (\<lambda>token_id expires_at. file_mutate persist (\<lambda>st. (Inr (), state_revoke_access token_id expires_at st))),
      ts_is_access_revoked = (\<lambda>token_id now. on_fst (\<lambda>st. (Inr (later (tk_revoked_access st) token_id now), st))),
      ts_purge_expired = (\<lambda>now. file_mutate persist (\<lambda>st. (Inr (), purge_expired now st)))\<rparr>"

section \<open>The service\<close>

datatype 'e token_error =
    JwtFailure "'e jwt_error" | StoreFailure token_store_error | ClaimsFailure 'e | InvalidRefreshTtl | RefreshTtlShorterThanAccess
  | InvalidRefresh | RefreshReuse | InvalidAccess | AccessRevoked | FamilyRevoked

record token_pair =
  tp_access_token :: string
  tp_refresh_token :: string
  tp_access_expires_at :: u64
  tp_refresh_expires_at :: u64

record ('b, 'j) token_service =
  sv_jwt :: jwt_manager
  sv_store :: "('b, 'j) token_store"
  sv_refresh_ttl :: duration

definition token_service_new :: "jwt_manager \<Rightarrow> ('b, 'j) token_store \<Rightarrow> duration \<Rightarrow> 'e token_error + ('b, 'j) token_service" where
  "token_service_new jwt store refresh_ttl =
     (if refresh_ttl = 0 then Inl InvalidRefreshTtl
      else if refresh_ttl < jf_ttl (jm_config jwt) then Inl RefreshTtlShorterThanAccess
      else Inr \<lparr>sv_jwt = jwt, sv_store = store, sv_refresh_ttl = refresh_ttl\<rparr>)"

text \<open>\<open>?\<close> on an error of the token package or of the store, and the clock.\<close>

definition store_call :: "('b, token_store_error, 'r) op \<Rightarrow> ('b, 'e token_error, 'r) op" where
  "store_call m = (\<lambda>b. case m b of (r, b) \<Rightarrow> (map_sum StoreFailure id r, b))"

definition jwt_call :: "'e jwt_error + 'r \<Rightarrow> ('b, 'e token_error, 'r) op" where
  "jwt_call r = op_lift (map_sum JwtFailure id r)"

text \<open>\<open>serialized\<close> is the result of serializing the custom claims.\<close>

definition token_issue :: "('e, 'j) jwt_lib \<Rightarrow> (string \<Rightarrow> string) \<Rightarrow> ('b, 'j) token_service \<Rightarrow> u64 option \<Rightarrow> string \<Rightarrow> string \<Rightarrow> string \<Rightarrow> string \<Rightarrow> 'e + 'j \<Rightarrow>
    ('b, 'e token_error, token_pair) op" where
  "token_issue lib hash_refresh sv clock family_id refresh_token jti subject serialized =
     op_bind (jwt_call (unix_timestamp clock)) (\<lambda>now.
     op_bind (op_lift (map_sum ClaimsFailure id serialized)) (\<lambda>custom.
     let refresh_expires_at = w_saturating_add now (as_secs (sv_refresh_ttl sv))
     in op_bind (jwt_call (issue_at_in_family lib (sv_jwt sv) jti subject custom now (Some family_id))) (\<lambda>(access_token, claims).
        op_bind (store_call (ts_insert_refresh (sv_store sv)
            \<lparr>rf_token_hash = hash_refresh refresh_token, rf_family_id = family_id, rf_subject = subject, rf_custom = custom,
             rf_expires_at = refresh_expires_at, rf_used_at = None, rf_revoked = False\<rparr>)) (\<lambda>_.
        op_return \<lparr>tp_access_token = access_token, tp_refresh_token = refresh_token, tp_access_expires_at = jc_exp claims,
          tp_refresh_expires_at = refresh_expires_at\<rparr>))))"

definition MAX_REFRESH_TOKEN_LENGTH :: nat where
  "MAX_REFRESH_TOKEN_LENGTH = 512"

definition REFRESH_TOKEN_BYTES :: nat where
  "REFRESH_TOKEN_BYTES = 32"

definition validate_refresh :: "(string \<Rightarrow> string option) \<Rightarrow> string \<Rightarrow> 'e token_error + unit" where
  "validate_refresh base64_decode token =
     (if length token > MAX_REFRESH_TOKEN_LENGTH then Inl InvalidRefresh
      else (case base64_decode token of
              None \<Rightarrow> Inl InvalidRefresh
            | Some decoded \<Rightarrow> if length decoded \<noteq> REFRESH_TOKEN_BYTES then Inl InvalidRefresh else Inr ()))"

definition token_refresh :: "('e, 'j) jwt_lib \<Rightarrow> (string \<Rightarrow> string option) \<Rightarrow> (string \<Rightarrow> string) \<Rightarrow> ('b, 'j) token_service \<Rightarrow> u64 option \<Rightarrow> string \<Rightarrow> string \<Rightarrow> string \<Rightarrow>
    ('b, 'e token_error, token_pair) op" where
  "token_refresh lib base64_decode hash_refresh sv clock replacement jti refresh_token =
     op_bind (op_lift (validate_refresh base64_decode refresh_token)) (\<lambda>_.
     op_bind (jwt_call (unix_timestamp clock)) (\<lambda>now.
     op_bind (store_call (ts_find_refresh (sv_store sv) (hash_refresh refresh_token) now)) (\<lambda>found.
     case found of
       None \<Rightarrow> op_throw InvalidRefresh
     | Some snapshot \<Rightarrow>
         (let refresh_expires_at = w_saturating_add now (as_secs (sv_refresh_ttl sv))
          in op_bind (jwt_call (issue_at_in_family lib (sv_jwt sv) jti (rf_subject snapshot) (rf_custom snapshot) now (Some (rf_family_id snapshot))))
               (\<lambda>(access_token, claims).
             op_bind (store_call (ts_rotate_refresh (sv_store sv) (hash_refresh refresh_token) (hash_refresh replacement) refresh_expires_at now)) (\<lambda>rotation.
             case rotation of
               Rotated _ \<Rightarrow> op_return \<lparr>tp_access_token = access_token, tp_refresh_token = replacement, tp_access_expires_at = jc_exp claims,
                 tp_refresh_expires_at = refresh_expires_at\<rparr>
             | Reused \<Rightarrow> op_throw RefreshReuse
             | InvalidRotation \<Rightarrow> op_throw InvalidRefresh))))))"

definition verify_access :: "('e, 'j) jwt_lib \<Rightarrow> ('b, 'j) token_service \<Rightarrow> u64 \<Rightarrow> u64 option \<Rightarrow> string \<Rightarrow> ('b, 'e token_error, 'j jwt_claims) op" where
  "verify_access lib sv jwt_now clock token =
     op_bind (jwt_call (jwt_verify lib (sv_jwt sv) jwt_now token)) (\<lambda>claims.
     op_bind (jwt_call (unix_timestamp clock)) (\<lambda>now.
     op_bind (store_call (ts_is_access_revoked (sv_store sv) (jc_jti claims) now)) (\<lambda>revoked.
     if revoked then op_throw AccessRevoked
     else (case jc_sid claims of
             None \<Rightarrow> op_return claims
           | Some family_id \<Rightarrow>
               op_bind (store_call (ts_is_family_revoked (sv_store sv) family_id now)) (\<lambda>revoked.
               if revoked then op_throw FamilyRevoked else op_return claims)))))"

definition token_revoke_access :: "('e, 'j) jwt_lib \<Rightarrow> ('b, 'j) token_service \<Rightarrow> u64 \<Rightarrow> string \<Rightarrow> ('b, 'e token_error, unit) op" where
  "token_revoke_access lib sv jwt_now token =
     op_bind (jwt_call (jwt_verify lib (sv_jwt sv) jwt_now token)) (\<lambda>claims.
     store_call (ts_revoke_access (sv_store sv) (jc_jti claims) (jc_exp claims)))"

definition token_revoke_family :: "('b, 'j) token_service \<Rightarrow> u64 option \<Rightarrow> string \<Rightarrow> ('b, 'e token_error, unit) op" where
  "token_revoke_family sv clock family_id =
     op_bind (jwt_call (unix_timestamp clock)) (\<lambda>now.
     store_call (ts_revoke_family (sv_store sv) family_id (w_saturating_add now (as_secs (sv_refresh_ttl sv)))))"

definition token_purge_expired :: "('b, 'j) token_service \<Rightarrow> u64 option \<Rightarrow> ('b, 'e token_error, unit) op" where
  "token_purge_expired sv clock =
     op_bind (jwt_call (unix_timestamp clock)) (\<lambda>now. store_call (ts_purge_expired (sv_store sv) now))"

text \<open>The middleware that also asks the store; the state of the store is the world it runs in.\<close>

definition stateful_jwt_auth :: "'a web_env \<Rightarrow> ('e, 'j) jwt_lib \<Rightarrow> ('w, 'j) token_service \<Rightarrow> u64 \<Rightarrow> u64 option \<Rightarrow>
    ('j jwt_claims \<Rightarrow> ('a, 'x) request \<Rightarrow> ('a, 'x) request) \<Rightarrow> ('a, 'x, 'w) middleware" where
  "stateful_jwt_auth env lib sv jwt_now clock with_claims request next_handler w =
     (case Option.bind (header_text env ''authorization'' (rq_headers request)) bearer_token of
        None \<Rightarrow> (Some jwt_rejection, w)
      | Some token \<Rightarrow>
          (case verify_access lib sv jwt_now clock token w of
             (Inl _, w) \<Rightarrow> (Some jwt_rejection, w)
           | (Inr claims, w) \<Rightarrow> next_handler (with_claims claims request) w))"

end
