(* ===== verification/Token_Props.thy ===== *)
theory Token_Props
  imports Token
begin

text \<open>
  What rotation and revocation guarantee. The contract of a token store is a locale: every
  operation acts as it does on the in-memory state, or fails and leaves that state alone. It is
  proved of both stores, and the lemmas over it speak of arbitrary sequences of store calls, so of
  every interleaving of concurrent requests.
\<close>

section \<open>Sequences of store calls\<close>

datatype 'j token_call =
    CallInsert "'j refresh_record" | CallFind string u64 | CallRotate string string u64 u64
  | CallRevokeFamily string u64 | CallIsFamilyRevoked string u64
  | CallRevokeAccess string u64 | CallIsAccessRevoked string u64 | CallPurge u64

text \<open>The hashes a call may store, the families it may open, the clock of a purge.\<close>

fun new_hashes :: "'j token_call \<Rightarrow> string list" where
  "new_hashes (CallInsert record) = [rf_token_hash record]"
| "new_hashes (CallRotate h h' e now) = [h']"
| "new_hashes _ = []"

fun opens_family :: "string \<Rightarrow> 'j token_call \<Rightarrow> bool" where
  "opens_family f (CallInsert record) \<longleftrightarrow> rf_family_id record = f"
| "opens_family f _ \<longleftrightarrow> False"

fun purges_by :: "u64 \<Rightarrow> 'j token_call \<Rightarrow> bool" where
  "purges_by t (CallPurge now) \<longleftrightarrow> now \<le> t"
| "purges_by t _ \<longleftrightarrow> True"

text \<open>The rotations a call makes: the presented hash and the replacement.\<close>

fun call_step :: "('b, 'j) token_store \<Rightarrow> 'j token_call \<Rightarrow> 'b \<Rightarrow> (string \<times> 'j refresh_record) list \<times> 'b" where
  "call_step store (CallInsert record) b = ([], snd (ts_insert_refresh store record b))"
| "call_step store (CallFind h now) b = ([], snd (ts_find_refresh store h now b))"
| "call_step store (CallRotate h h' e now) b =
     (case ts_rotate_refresh store h h' e now b of
        (Inr (Rotated r), b) \<Rightarrow> ([(h, r)], b)
      | (_, b) \<Rightarrow> ([], b))"
| "call_step store (CallRevokeFamily f e) b = ([], snd (ts_revoke_family store f e b))"
| "call_step store (CallIsFamilyRevoked f now) b = ([], snd (ts_is_family_revoked store f now b))"
| "call_step store (CallRevokeAccess j e) b = ([], snd (ts_revoke_access store j e b))"
| "call_step store (CallIsAccessRevoked j now) b = ([], snd (ts_is_access_revoked store j now b))"
| "call_step store (CallPurge now) b = ([], snd (ts_purge_expired store now b))"

fun call_run :: "('b, 'j) token_store \<Rightarrow> 'j token_call list \<Rightarrow> 'b \<Rightarrow> (string \<times> 'j refresh_record) list \<times> 'b" where
  "call_run store [] b = ([], b)"
| "call_run store (c # cs) b = (case call_step store c b of (rs, b) \<Rightarrow> (case call_run store cs b of (rs', b) \<Rightarrow> (rs @ rs', b)))"

section \<open>The in-memory state\<close>

lemmas memory_ops = memory_token_store_def insert_refresh_def rotate_refresh_def revoke_family_def purge_expired_def state_revoke_access_def

text \<open>A token that is used, or gone, stays so unless its hash is stored again.\<close>

definition spent :: "string \<Rightarrow> 'j token_state \<Rightarrow> bool" where
  "spent h st \<longleftrightarrow> (case fmlookup (tk_refresh st) h of None \<Rightarrow> True | Some r \<Rightarrow> rf_used_at r \<noteq> None)"

lemma revoked_field: "r\<lparr>rf_revoked := True\<rparr> = r' \<Longrightarrow> rf_revoked r'"
  by auto

lemma spent_step:
  assumes "spent h st" and "h \<notin> set (new_hashes c)" and "call_step memory_token_store c st = (rs, st')"
  shows "spent h st' \<and> h \<notin> fst ` set rs"
  using assms
  by (cases c) (auto simp: memory_ops spent_def Let_def later_def split: option.splits if_splits prod.splits)

lemma rotated_is_spent:
  assumes "(h, r) \<in> set rs" and "call_step memory_token_store c st = (rs, st')" and "h \<notin> set (new_hashes c)"
  shows "spent h st'"
  using assms
  by (cases c) (auto simp: memory_ops spent_def Let_def later_def split: option.splits if_splits prod.splits)

lemma absent_step:
  assumes "fmlookup (tk_refresh st) h = None" and "call_step memory_token_store c st = (rs, st')"
  shows "h \<notin> fst ` set rs \<and> (h \<notin> set (new_hashes c) \<longrightarrow> fmlookup (tk_refresh st') h = None)"
  using assms
  by (cases c) (auto simp: memory_ops Let_def split: option.splits if_splits prod.splits)

text \<open>A family whose records are all revoked.\<close>

definition dead_family :: "string \<Rightarrow> 'j token_state \<Rightarrow> bool" where
  "dead_family f st \<longleftrightarrow> (\<forall>h r. fmlookup (tk_refresh st) h = Some r \<longrightarrow> rf_family_id r = f \<longrightarrow> rf_revoked r)"

lemma dead_family_step:
  assumes "dead_family f st" and "\<not> opens_family f c" and "call_step memory_token_store c st = (rs, st')"
  shows "dead_family f st' \<and> (\<forall>(h, r) \<in> set rs. rf_family_id r \<noteq> f)"
  using assms
  by (cases c) (auto simp: memory_ops dead_family_def Let_def later_def dest: revoked_field split: option.splits if_splits prod.splits)

lemma family_revoked_step:
  assumes "later (tk_revoked_families st) f t" and "purges_by t c" and "call_step memory_token_store c st = (rs, st')"
  shows "later (tk_revoked_families st') f t"
  using assms
  by (cases c) (auto simp: memory_ops later_def purge_map_def Let_def max_def split: option.splits if_splits prod.splits)

lemma reused_kills:
  assumes "rotate_refresh h h' e now st = (Reused, st')" and "fmlookup (tk_refresh st) h = Some existing"
  shows "dead_family (rf_family_id existing) st'"
  using assms by (auto simp: rotate_refresh_def revoke_family_def dead_family_def Let_def dest: revoked_field split: if_splits)

lemma family_expiry_ge:
  assumes "fmlookup (tk_refresh st) k = Some r" and "rf_family_id r = f"
  shows "rf_expires_at r \<le> family_expiry f fallback st"
proof -
  have "r |\<in>| fmran (tk_refresh st)" using assms(1) by (rule fmranI)
  then show ?thesis using assms(2)
    by (auto simp: family_expiry_def Let_def intro!: fMax_ge)
qed

lemma reused_revokes:
  assumes r: "rotate_refresh h h' e now st = (Reused, st')" and x: "fmlookup (tk_refresh st) h = Some existing"
    and k: "fmlookup (tk_refresh st) k = Some r" "rf_family_id r = rf_family_id existing" and t: "t < rf_expires_at r"
  shows "later (tk_revoked_families st') (rf_family_id existing) t"
proof -
  have "t < family_expiry (rf_family_id existing) (rf_expires_at existing) st"
    using family_expiry_ge [OF k] t by (rule less_le_trans [rotated])
  then show ?thesis using r x
    by (auto simp: rotate_refresh_def revoke_family_def later_def max_def Let_def split: if_splits option.splits)
qed

section \<open>The contract of a token store\<close>

text \<open>
  An operation that acts on the state behind \<open>view\<close> as \<open>f\<close> does, or fails and leaves that state
  alone.
\<close>

definition acts_as :: "('b \<Rightarrow> 's) \<Rightarrow> ('b, 'e, 'r) op \<Rightarrow> ('s, 'e, 'r) op \<Rightarrow> bool" where
  "acts_as view m f \<longleftrightarrow> (\<forall>b r b'. m b = (r, b') \<longrightarrow> f (view b) = (r, view b') \<or> (\<exists>e. r = Inl e) \<and> view b' = view b)"

lemma acts_as_cases:
  assumes "acts_as view m f"
  shows "f (view b) = (fst (m b), view (snd (m b))) \<or> (\<exists>e. fst (m b) = Inl e) \<and> view (snd (m b)) = view b"
  using assms [unfolded acts_as_def, rule_format, of b "fst (m b)" "snd (m b)"] by simp

locale token_store_contract =
  fixes store :: "('b, 'j) token_store" and view :: "'b \<Rightarrow> 'j token_state"
  assumes insert_law: "acts_as view (ts_insert_refresh store record) (ts_insert_refresh memory_token_store record)"
    and find_law: "acts_as view (ts_find_refresh store h now) (ts_find_refresh memory_token_store h now)"
    and rotate_law: "acts_as view (ts_rotate_refresh store h h' e now) (ts_rotate_refresh memory_token_store h h' e now)"
    and revoke_family_law: "acts_as view (ts_revoke_family store f e) (ts_revoke_family memory_token_store f e)"
    and is_family_revoked_law: "acts_as view (ts_is_family_revoked store f now) (ts_is_family_revoked memory_token_store f now)"
    and revoke_access_law: "acts_as view (ts_revoke_access store j e) (ts_revoke_access memory_token_store j e)"
    and is_access_revoked_law: "acts_as view (ts_is_access_revoked store j now) (ts_is_access_revoked memory_token_store j now)"
    and purge_law: "acts_as view (ts_purge_expired store now) (ts_purge_expired memory_token_store now)"
begin

lemma step_refines:
  assumes "call_step store c b = (rs, b')"
  shows "call_step memory_token_store c (view b) = (rs, view b') \<or> rs = [] \<and> view b' = view b"
proof (cases c)
  case (CallRotate h h' e now)
  show ?thesis using acts_as_cases [OF rotate_law [of h h' e now], of b] assms CallRotate
    by (auto split: prod.splits sum.splits rotation_outcome.splits)
next
  case (CallInsert r)
  then show ?thesis using acts_as_cases [OF insert_law [of r], of b] assms by auto
next
  case (CallFind h now)
  then show ?thesis using acts_as_cases [OF find_law [of h now], of b] assms by auto
next
  case (CallRevokeFamily f e)
  then show ?thesis using acts_as_cases [OF revoke_family_law [of f e], of b] assms by auto
next
  case (CallIsFamilyRevoked f now)
  then show ?thesis using acts_as_cases [OF is_family_revoked_law [of f now], of b] assms by auto
next
  case (CallRevokeAccess j e)
  then show ?thesis using acts_as_cases [OF revoke_access_law [of j e], of b] assms by auto
next
  case (CallIsAccessRevoked j now)
  then show ?thesis using acts_as_cases [OF is_access_revoked_law [of j now], of b] assms by auto
next
  case (CallPurge now)
  then show ?thesis using acts_as_cases [OF purge_law [of now], of b] assms by auto
qed

text \<open>What every call of the in-memory store keeps, every sequence of calls of this one keeps.\<close>

lemma run_keeps:
  assumes "call_run store cs b = (rs, b')" and "P (view b)" and "\<And>c. c \<in> set cs \<Longrightarrow> ok c"
    and "\<And>c st rs st'. P st \<Longrightarrow> ok c \<Longrightarrow> call_step memory_token_store c st = (rs, st') \<Longrightarrow> P st' \<and> (\<forall>x \<in> set rs. Q x)"
  shows "P (view b') \<and> (\<forall>x \<in> set rs. Q x)"
  using assms(1-3)
proof (induction cs arbitrary: b rs)
  case (Cons c cs)
  obtain rs1 b1 rs2 where c: "call_step store c b = (rs1, b1)" and cs: "call_run store cs b1 = (rs2, b')" and rs: "rs = rs1 @ rs2"
    using Cons.prems(1) by (auto split: prod.splits)
  have "P (view b1) \<and> (\<forall>x \<in> set rs1. Q x)"
    using step_refines [OF c] assms(4) [of "view b" c rs1 "view b1"] Cons.prems(2,3) by auto
  then show ?case using Cons.IH [OF cs] Cons.prems(3) rs by auto
qed simp

lemma spent_run:
  assumes "call_run store cs b = (rs, b')" and "spent h (view b)" and "h \<notin> set (concat (map new_hashes cs))"
  shows "h \<notin> fst ` set rs"
proof -
  have "spent h (view b') \<and> (\<forall>x \<in> set rs. fst x \<noteq> h)"
  proof (rule run_keeps [where P = "spent h", OF assms(1,2), of "\<lambda>c. h \<notin> set (new_hashes c)"])
    show "h \<notin> set (new_hashes c)" if "c \<in> set cs" for c using assms(3) that by auto
    show "spent h st' \<and> (\<forall>x \<in> set rs. fst x \<noteq> h)"
      if "spent h st" "h \<notin> set (new_hashes c)" "call_step memory_token_store c st = (rs, st')" for c st rs st'
      using spent_step [OF that] by auto
  qed
  then show ?thesis by auto
qed

lemma rotates_once:
  assumes "call_run store cs b = (rs, b')" and "distinct (concat (map new_hashes cs))"
    and "\<And>h. h \<in> set (concat (map new_hashes cs)) \<Longrightarrow> fmlookup (tk_refresh (view b)) h = None"
  shows "distinct (map fst rs)"
  using assms
proof (induction cs arbitrary: b rs)
  case (Cons c cs)
  obtain rs1 b1 rs2 where c: "call_step store c b = (rs1, b1)" and cs: "call_run store cs b1 = (rs2, b')" and rs: "rs = rs1 @ rs2"
    using Cons.prems(1) by (auto split: prod.splits)
  have one: "length rs1 \<le> 1" using c by (cases c) (auto split: prod.splits sum.splits rotation_outcome.splits)
  have fresh: "fmlookup (tk_refresh (view b1)) h = None" if "h \<in> set (concat (map new_hashes cs))" for h
    using step_refines [OF c] absent_step [of "view b" h c rs1 "view b1"] Cons.prems(2) Cons.prems(3) [of h] that by auto
  have "h \<notin> fst ` set rs2" if h: "h \<in> fst ` set rs1" for h
  proof -
    have m: "call_step memory_token_store c (view b) = (rs1, view b1)" using step_refines [OF c] h by auto
    have p: "fmlookup (tk_refresh (view b)) h \<noteq> None" using absent_step [OF _ m, of h] h by blast
    then have "h \<notin> set (concat (map new_hashes (c # cs)))" by (rule contrapos_nn) (rule Cons.prems(3))
    then have "h \<notin> set (new_hashes c)" and later: "h \<notin> set (concat (map new_hashes cs))" by auto
    moreover obtain r where "(h, r) \<in> set rs1" using h by auto
    ultimately show ?thesis using spent_run [OF cs _ later] rotated_is_spent [OF _ m] by blast
  qed
  moreover have "distinct (map fst rs2)" using Cons.IH [OF cs _ fresh] Cons.prems(2) by simp
  moreover have "distinct (map fst rs1)" using one by (cases rs1) auto
  ultimately show ?case using rs by auto
qed simp

lemma reuse_ends_family:
  assumes reuse: "ts_rotate_refresh store h h' e now b = (Inr Reused, b1)" and x: "fmlookup (tk_refresh (view b)) h = Some existing"
    and run: "call_run store cs b1 = (rs, b2)" and new: "\<And>c. c \<in> set cs \<Longrightarrow> \<not> opens_family (rf_family_id existing) c"
  shows "\<forall>(k, r) \<in> set rs. rf_family_id r \<noteq> rf_family_id existing"
    and "(\<And>c. c \<in> set cs \<Longrightarrow> purges_by t c) \<Longrightarrow> fmlookup (tk_refresh (view b)) k = Some r \<Longrightarrow> rf_family_id r = rf_family_id existing \<Longrightarrow>
      t < rf_expires_at r \<Longrightarrow> later (tk_revoked_families (view b2)) (rf_family_id existing) t"
proof -
  have m: "rotate_refresh h h' e now (view b) = (Reused, view b1)"
    using acts_as_cases [OF rotate_law [of h h' e now], of b] reuse by (auto simp: memory_token_store_def split: prod.splits)
  show "\<forall>(k, r) \<in> set rs. rf_family_id r \<noteq> rf_family_id existing"
    by (rule conjunct2 [OF run_keeps [where P = "dead_family (rf_family_id existing)" and
          ok = "\<lambda>c. \<not> opens_family (rf_family_id existing) c", OF run reused_kills [OF m x] new]]) (assumption, erule (2) dead_family_step)
  show "later (tk_revoked_families (view b2)) (rf_family_id existing) t"
    if "\<And>c. c \<in> set cs \<Longrightarrow> purges_by t c" "fmlookup (tk_refresh (view b)) k = Some r" "rf_family_id r = rf_family_id existing" "t < rf_expires_at r"
    by (rule conjunct1 [OF run_keeps [OF run, of "\<lambda>st. later (tk_revoked_families st) (rf_family_id existing) t" "purges_by t" "\<lambda>_. True"]])
      (use reused_revokes [OF m x that(2-4)] that(1) family_revoked_step in auto)
qed

end

interpretation mem_tokens: token_store_contract memory_token_store "\<lambda>st. st"
  by unfold_locales (simp_all add: acts_as_def)

text \<open>The file store keeps its state when the file cannot be written.\<close>

lemma acts_as_file_mutate: "acts_as fst (file_mutate persist f) f"
  by (auto simp: acts_as_def file_mutate_def split: prod.splits sum.splits)

lemma acts_as_on_fst: "acts_as fst (on_fst f) f"
  by (auto simp: acts_as_def split: prod.splits)

interpretation file_tokens: token_store_contract "file_token_store persist" fst
  for persist :: "'j token_state \<Rightarrow> 'd \<Rightarrow> (token_store_error + unit) \<times> 'd"
  by unfold_locales (simp_all add: file_token_store_def memory_token_store_def acts_as_file_mutate acts_as_on_fst)

section \<open>Properties\<close>

text \<open>C30: a refresh token rotates at most once. Take any sequence of calls to the file store, in
  any interleaving and with the file failing to be written at any of them, in which no hash is
  stored twice; the hashes whose rotation succeeded are distinct.\<close>

theorem refresh_token_rotates_once:
  assumes "distinct (concat (map new_hashes calls))"
  shows "distinct (map fst (fst (call_run (file_token_store persist) calls (token_state_default, disk))))"
  by (rule file_tokens.rotates_once [OF prod.collapse [symmetric] assms]) (simp add: token_state_default_def)

definition demo_refresh :: "string \<Rightarrow> string \<Rightarrow> unit refresh_record" where
  "demo_refresh h f = \<lparr>rf_token_hash = h, rf_family_id = f, rf_subject = ''user-1'', rf_custom = (), rf_expires_at = 1000,
     rf_used_at = None, rf_revoked = False\<rparr>"

text \<open>A disk that counts its writes and fails the third.\<close>

definition flaky_persist :: "unit token_state \<Rightarrow> nat \<Rightarrow> (token_store_error + unit) \<times> nat" where
  "flaky_persist st n = (if n = 2 then Inl (StoreIo ''full'') else Inr (), n + 1)"

definition demo_calls :: "unit token_call list" where
  "demo_calls = [CallInsert (demo_refresh ''h1'' ''f1''), CallInsert (demo_refresh ''h2'' ''f2''), CallRotate ''h1'' ''h3'' 1010 10,
     CallRotate ''h1'' ''h4'' 1011 11, CallRotate ''h2'' ''h5'' 1012 12, CallRotate ''h1'' ''h6'' 1013 13]"

lemma demo_calls_rotate:
  "map fst (fst (call_run (file_token_store flaky_persist) demo_calls (token_state_default, 0))) = [''h1'', ''h2'']"
  by (simp add: demo_calls_def file_token_store_def file_mutate_def flaky_persist_def memory_ops demo_refresh_def token_state_default_def
      later_def Let_def)

theorem refresh_token_rotates_once_witness:
  "distinct [''h1'', ''h2''] \<and> map fst (fst (call_run (file_token_store flaky_persist) demo_calls (token_state_default, 0))) = [''h1'', ''h2'']"
  using refresh_token_rotates_once [of demo_calls flaky_persist 0] demo_calls_rotate by (simp add: demo_calls_def demo_refresh_def)

text \<open>A used token that is neither expired nor revoked is answered with \<open>Reused\<close> whenever the file is written.\<close>

lemma used_token_reported:
  assumes "ts_rotate_refresh (file_token_store persist) h h' e now b = (Inr outcome, b1)"
    and "fmlookup (tk_refresh (fst b)) h = Some existing" and "rf_used_at existing \<noteq> None"
    and "now < rf_expires_at existing" and "\<not> rf_revoked existing" and "\<not> later (tk_revoked_families (fst b)) (rf_family_id existing) now"
  shows "outcome = Reused"
  using assms by (cases b) (auto simp: file_token_store_def file_mutate_def rotate_refresh_def dest: leD split: prod.splits sum.splits if_splits)

text \<open>C31: presenting a used refresh token ends its family for good. Let a refresh token that was used before, is not
  expired and not revoked, of a family that is not revoked, be presented for rotation, and let the store
  write its file. Then the answer is \<open>Reused\<close>; no sequence of calls that opens no family under the
  same identifier rotates a token of that family again; and every access token of the family is
  refused while a refresh token the family had then would still be valid, however often expired
  records are purged before. A used token that is past its own expiry, or a file that cannot be
  written, ends nothing.\<close>

theorem reuse_ends_the_family:
  assumes "ts_rotate_refresh (file_token_store persist) h h' e now b = (Inr outcome, b1)"
    and "fmlookup (tk_refresh (fst b)) h = Some existing" and "rf_used_at existing \<noteq> None"
    and "now < rf_expires_at existing" and "\<not> rf_revoked existing" and "\<not> later (tk_revoked_families (fst b)) (rf_family_id existing) now"
    and "call_run (file_token_store persist) calls b1 = (rotations, b2)"
    and "\<forall>c \<in> set calls. \<not> opens_family (rf_family_id existing) c \<and> purges_by t c"
    and "fmlookup (tk_refresh (fst b)) k = Some r" and "rf_family_id r = rf_family_id existing" and "t < rf_expires_at r"
    and "sv_store sv = file_token_store persist" and "jwt_verify lib (sv_jwt sv) jwt_now token = Inr claims"
    and "jc_sid claims = Some (rf_family_id existing)"
  shows "outcome = Reused \<and> (\<forall>(k, r) \<in> set rotations. rf_family_id r \<noteq> rf_family_id existing) \<and>
    fst (verify_access lib sv jwt_now (Some t) token b2) \<in> {Inl AccessRevoked, Inl FamilyRevoked}"
proof -
  have outcome: "outcome = Reused" by (rule used_token_reported [OF assms(1-6)])
  note reused = assms(1) [unfolded outcome]
  have "later (tk_revoked_families (fst b2)) (rf_family_id existing) t"
    using file_tokens.reuse_ends_family(2) [OF reused assms(2,7), of t k r] assms(8-11) by blast
  moreover have "\<forall>(k, r) \<in> set rotations. rf_family_id r \<noteq> rf_family_id existing"
    using file_tokens.reuse_ends_family(1) [OF reused assms(2,7)] assms(8) by blast
  ultimately show ?thesis using assms(12-14) outcome
    by (cases b2) (simp add: verify_access_def jwt_call_def unix_timestamp_def store_call_def op_bind_apply file_token_store_def op_apply)
qed

text \<open>A package that knows one token, of the family \<open>f1\<close>, and honours the leeway.\<close>

definition demo_claims :: "unit jwt_claims" where
  "demo_claims = \<lparr>jc_sub = ''user-1'', jc_jti = ''j1'', jc_sid = Some ''f1'', jc_exp = 310, jc_iat = 10, jc_nbf = 10, jc_iss = None,
     jc_aud = None, jc_custom = ()\<rparr>"

definition demo_jwt_lib :: "(string, unit) jwt_lib" where
  "demo_jwt_lib = \<lparr>jl_encode = (\<lambda>kid claims secret. Inr ''tok''), jl_decode_header = (\<lambda>token. Inr (HS256, Some ''active'')),
     jl_decode = (\<lambda>token secret v now. if now \<le> jc_exp demo_claims + jv_leeway v then Inr demo_claims else Inl ''ExpiredSignature''),
     jl_object_keys = (\<lambda>_. Inr (Some []))\<rparr>"

definition demo_manager :: jwt_manager where
  "demo_manager = \<lparr>jm_active_key_id = ''active'', jm_keys = [''active'' \<mapsto> \<lparr>jk_id = ''active'', jk_secret = replicate 32 CHR ''k''\<rparr>],
     jm_config = jwt_config_new (duration_from_secs 300)\<rparr>"

definition demo_token_service :: "('b, unit) token_store \<Rightarrow> ('b, unit) token_service" where
  "demo_token_service store = \<lparr>sv_jwt = demo_manager, sv_store = store, sv_refresh_ttl = duration_from_secs 990\<rparr>"

definition demo_used :: "unit token_state \<times> nat" where
  "demo_used = snd (call_run (file_token_store flaky_persist) (take 5 demo_calls) (token_state_default, 0))"

lemma demo_used_eval:
  "demo_used =
     (\<lparr>tk_refresh = fmupd ''h5'' ((demo_refresh ''h5'' ''f2'')\<lparr>rf_expires_at := 1012\<rparr>) (fmupd ''h2'' ((demo_refresh ''h2'' ''f2'')\<lparr>rf_used_at := Some 12\<rparr>)
        (fmupd ''h4'' ((demo_refresh ''h4'' ''f1'')\<lparr>rf_expires_at := 1011\<rparr>) (fmupd ''h1'' ((demo_refresh ''h1'' ''f1'')\<lparr>rf_used_at := Some 11\<rparr>)
        (fmupd ''h2'' (demo_refresh ''h2'' ''f2'') (fmupd ''h1'' (demo_refresh ''h1'' ''f1'') fmempty))))),
       tk_revoked_families = Map.empty, tk_revoked_access = Map.empty\<rparr>, 5)"
  by (simp add: demo_used_def demo_calls_def file_token_store_def file_mutate_def flaky_persist_def memory_ops demo_refresh_def
      token_state_default_def later_def Let_def)

lemma demo_texts: "\<not> trim_is_empty ''f1''" "\<not> trim_is_empty ''j1''" "\<not> trim_is_empty ''user-1''"
  by code_simp+

lemma demo_verify: "jwt_verify demo_jwt_lib demo_manager 320 ''tok'' = Inr demo_claims" "jwt_verify demo_jwt_lib demo_manager 20 ''tok'' = Inr demo_claims"
  by (simp_all add: jwt_verify_def demo_jwt_lib_def demo_manager_def jwt_validation_of_def jwt_config_new_def as_secs_def duration_from_secs_def
      demo_claims_def blank_option_def demo_texts nanos_per_sec_def)

theorem reuse_ends_the_family_witness:
  "\<exists>rotations b2. call_run (file_token_store flaky_persist) [CallRotate ''h4'' ''h7'' 1200 200, CallPurge 300]
      (snd (ts_rotate_refresh (file_token_store flaky_persist) ''h1'' ''h6'' 1013 13 demo_used)) = (rotations, b2) \<and>
    fst (verify_access demo_jwt_lib (demo_token_service (file_token_store flaky_persist)) 320 (Some 320) ''tok'' b2)
      \<in> {Inl AccessRevoked, Inl FamilyRevoked}"
proof -
  define b1 where "b1 = snd (ts_rotate_refresh (file_token_store flaky_persist) ''h1'' ''h6'' 1013 13 demo_used)"
  obtain rotations b2 where run: "call_run (file_token_store flaky_persist) [CallRotate ''h4'' ''h7'' 1200 200, CallPurge 300] b1 = (rotations, b2)"
    by (rule prod.exhaust)
  have reuse: "ts_rotate_refresh (file_token_store flaky_persist) ''h1'' ''h6'' 1013 13 demo_used = (Inr Reused, b1)"
    by (simp add: b1_def file_token_store_def file_mutate_def flaky_persist_def demo_used_eval memory_ops later_def demo_refresh_def)
  let ?sv = "demo_token_service (file_token_store flaky_persist)"
  have sv: "sv_store ?sv = file_token_store flaky_persist" "sv_jwt ?sv = demo_manager" by (simp_all add: demo_token_service_def)
  have used: "fmlookup (tk_refresh (fst demo_used)) ''h1'' = Some ((demo_refresh ''h1'' ''f1'')\<lparr>rf_used_at := Some 11\<rparr>)"
    and live: "fmlookup (tk_refresh (fst demo_used)) ''h4'' = Some ((demo_refresh ''h4'' ''f1'')\<lparr>rf_expires_at := 1011\<rparr>)"
    by (simp_all add: demo_used_eval)
  have fresh: "\<not> later (tk_revoked_families (fst demo_used)) f n" for f n by (simp add: demo_used_eval later_def)
  have "fst (verify_access demo_jwt_lib ?sv 320 (Some 320) ''tok'' b2) \<in> {Inl AccessRevoked, Inl FamilyRevoked}"
    by (rule conjunct2 [OF conjunct2 [OF reuse_ends_the_family [OF reuse used _ _ _ fresh run _ live _ _ sv(1) demo_verify(1) [folded sv(2)]]]])
      (simp_all add: demo_refresh_def demo_claims_def)
  then show ?thesis using run [unfolded b1_def] by blast
qed

text \<open>Revoking an access token lasts until its expiry and no longer. The verification of
  signed tokens accepts a token past its expiry, within the leeway of the policy, and there the
  revoked token is accepted again.\<close>

theorem revoked_access_returns_in_leeway:
  assumes "sv_store sv = memory_token_store" and "jwt_verify lib (sv_jwt sv) t token = Inr claims"
    and "jwt_verify lib (sv_jwt sv) now token = Inr claims"
    and "\<forall>f. jc_sid claims = Some f \<longrightarrow> \<not> later (tk_revoked_families st) f now"
  shows "fst (verify_access lib sv now (Some now) token (snd (token_revoke_access lib sv t token st))) =
    (if now < jc_exp claims then Inl AccessRevoked else Inr claims)"
  using assms
  by (auto simp: verify_access_def token_revoke_access_def jwt_call_def unix_timestamp_def store_call_def op_bind_apply memory_token_store_def
      state_revoke_access_def later_def split: option.splits)

theorem revoked_access_returns_in_leeway_witness:
  "fst (verify_access demo_jwt_lib (demo_token_service memory_token_store) 320 (Some 320) ''tok''
      (snd (token_revoke_access demo_jwt_lib (demo_token_service memory_token_store) 20 ''tok'' token_state_default))) = Inr demo_claims"
  using revoked_access_returns_in_leeway [of "demo_token_service memory_token_store" demo_jwt_lib 20 "''tok''" demo_claims 320 token_state_default]
    demo_verify by (simp add: demo_token_service_def demo_claims_def token_state_default_def later_def)

end
