(* ===== verification/Sse.thy ===== *)
theory Sse
  imports Web_Guard
begin

text \<open>
  Server-sent events (\<open>phoenix-http\<close>, \<open>sse.rs\<close>): events and their fields, the encoding on the wire,
  the response stream with its keepalives, and the reconnection cursor. The stream is polled: what
  the source of events answers to a poll and the clock of the timer are arguments. JSON
  serialization is an argument.
\<close>

section \<open>Events\<close>

record sse_event =
  se_event :: "string option"
  se_id :: "string option"
  se_data :: string
  se_retry :: "duration option"
  se_comment :: "string option"

datatype invalid_sse_field = InvalidSseField string

datatype sse_config_error = InvalidEventSize | InvalidKeepAliveInterval

definition DEFAULT_SSE_EVENT_LIMIT :: nat where
  "DEFAULT_SSE_EVENT_LIMIT = 64 * 1024"

definition MAX_SSE_EVENT_LIMIT :: nat where
  "MAX_SSE_EVENT_LIMIT = 1024 * 1024"

definition MAX_SSE_FIELD_LENGTH :: nat where
  "MAX_SSE_FIELD_LENGTH = 1024"

definition MAX_KEEP_ALIVE_INTERVAL :: duration where
  "MAX_KEEP_ALIVE_INTERVAL = duration_from_secs (24 * 60 * 60)"

definition line_breaker :: "char \<Rightarrow> bool" where
  "line_breaker c \<longleftrightarrow> c = CHR 0x00 \<or> c = CHR 0x0D \<or> c = CHR 0x0A"

definition validate_sse_field :: "string \<Rightarrow> string \<Rightarrow> bool \<Rightarrow> invalid_sse_field + string" where
  "validate_sse_field field v allow_empty =
     (if (\<not> allow_empty \<and> v = []) \<or> length v > MAX_SSE_FIELD_LENGTH \<or> list_ex line_breaker v
      then Inl (InvalidSseField field) else Inr v)"

definition sse_new :: sse_event where
  "sse_new = \<lparr>se_event = None, se_id = None, se_data = [], se_retry = None, se_comment = None\<rparr>"

definition sse_set_event :: "string \<Rightarrow> sse_event \<Rightarrow> invalid_sse_field + sse_event" where
  "sse_set_event event e = map_sum id (\<lambda>v. e\<lparr>se_event := Some v\<rparr>) (validate_sse_field ''event'' event False)"

definition sse_set_id :: "string \<Rightarrow> sse_event \<Rightarrow> invalid_sse_field + sse_event" where
  "sse_set_id i e = map_sum id (\<lambda>v. e\<lparr>se_id := Some v\<rparr>) (validate_sse_field ''id'' i True)"

definition sse_set_data :: "string \<Rightarrow> sse_event \<Rightarrow> sse_event" where
  "sse_set_data data e = e\<lparr>se_data := data\<rparr>"

text \<open>\<open>serialized\<close> is the result of serializing the data.\<close>

definition sse_json_data :: "'e + string \<Rightarrow> sse_event \<Rightarrow> 'e + sse_event" where
  "sse_json_data serialized e = map_sum id (\<lambda>v. e\<lparr>se_data := v\<rparr>) serialized"

definition sse_set_retry :: "duration \<Rightarrow> sse_event \<Rightarrow> sse_event" where
  "sse_set_retry retry e = e\<lparr>se_retry := Some retry\<rparr>"

definition sse_set_comment :: "string \<Rightarrow> sse_event \<Rightarrow> invalid_sse_field + sse_event" where
  "sse_set_comment comment e = map_sum id (\<lambda>v. e\<lparr>se_comment := Some v\<rparr>) (validate_sse_field ''comment'' comment True)"

section \<open>Encoding\<close>

definition LF :: string where
  "LF = [CHR 0x0A]"

text \<open>\<open>u64::try_from(retry.as_millis()).unwrap_or(u64::MAX)\<close>\<close>

definition retry_millis :: "duration \<Rightarrow> nat" where
  "retry_millis retry = min (retry div 1000000) (2 ^ 64 - 1)"

definition sse_lines :: "sse_event \<Rightarrow> string list" where
  "sse_lines e =
     (case se_comment e of None \<Rightarrow> [] | Some comment \<Rightarrow> ['': '' @ comment])
     @ (case se_event e of None \<Rightarrow> [] | Some event \<Rightarrow> [''event: '' @ event])
     @ (case se_id e of None \<Rightarrow> [] | Some i \<Rightarrow> [''id: '' @ i])
     @ (case se_retry e of None \<Rightarrow> [] | Some retry \<Rightarrow> [''retry: '' @ nat_to_string (retry_millis retry)])
     @ (let data = str_replace [CHR 0x0D] LF (str_replace [CHR 0x0D, CHR 0x0A] LF (se_data e))
        in map (\<lambda>line. ''data: '' @ line) (split_on (CHR 0x0A) data))"

definition sse_encode :: "nat \<Rightarrow> sse_event \<Rightarrow> string option" where
  "sse_encode max_size e =
     (let out = concat (map (\<lambda>line. line @ LF) (sse_lines e)) @ LF
      in if length out > max_size then None else Some out)"

section \<open>Keepalives and the response\<close>

record keep_alive =
  ka_interval :: duration
  ka_comment :: string

definition keep_alive_new :: "duration \<Rightarrow> sse_config_error + keep_alive" where
  "keep_alive_new interval =
     (if interval = 0 \<or> interval > MAX_KEEP_ALIVE_INTERVAL then Inl InvalidKeepAliveInterval
      else Inr \<lparr>ka_interval = interval, ka_comment = ''keep-alive''\<rparr>)"

definition keep_alive_comment :: "string \<Rightarrow> keep_alive \<Rightarrow> invalid_sse_field + keep_alive" where
  "keep_alive_comment comment k = map_sum id (\<lambda>v. k\<lparr>ka_comment := v\<rparr>) (validate_sse_field ''comment'' comment True)"

definition keep_alive_default :: keep_alive where
  "keep_alive_default = \<lparr>ka_interval = duration_from_secs 15, ka_comment = ''keep-alive''\<rparr>"

text \<open>The source of events \<open>'s\<close> is polled by the runtime.\<close>

record 's sse =
  ss_events :: 's
  ss_keep_alive :: "keep_alive option"
  ss_max_event_size :: nat

definition sse_response_new :: "'s \<Rightarrow> 's sse" where
  "sse_response_new events = \<lparr>ss_events = events, ss_keep_alive = None, ss_max_event_size = DEFAULT_SSE_EVENT_LIMIT\<rparr>"

definition sse_keep_alive :: "keep_alive \<Rightarrow> 's sse \<Rightarrow> 's sse" where
  "sse_keep_alive k s = s\<lparr>ss_keep_alive := Some k\<rparr>"

definition sse_max_event_size :: "nat \<Rightarrow> 's sse \<Rightarrow> sse_config_error + 's sse" where
  "sse_max_event_size n s =
     (if n = 0 \<or> n > MAX_SSE_EVENT_LIMIT then Inl InvalidEventSize else Inr (s\<lparr>ss_max_event_size := n\<rparr>))"

definition sse_into_response :: "'s sse \<Rightarrow> ('s sse, 'w) response" where
  "sse_into_response s =
     insert_header ''x-accel-buffering'' ''no''
       (insert_header ''cache-control'' ''no-cache''
         (insert_header ''content-type'' ''text/event-stream; charset=utf-8''
           \<lparr>rp_status = 200, rp_headers = (\<lambda>_. []), rp_body = Some (StreamBody s), rp_observers = []\<rparr>))"

section \<open>The stream\<close>

text \<open>The answer to a poll: pending, or the next item, an error of the source or of the encoding being \<open>Inl\<close>.\<close>

datatype 'i poll = PollPending | PollReady "'i option"

record sse_body =
  sb_keep_alive :: "keep_alive option"
  sb_deadline :: "nat option"
  sb_max_event_size :: nat
  sb_finished :: bool

definition sse_body_new :: "nat \<Rightarrow> keep_alive option \<Rightarrow> nat \<Rightarrow> sse_body" where
  "sse_body_new now k max_event_size =
     \<lparr>sb_keep_alive = k, sb_deadline = map_option (\<lambda>k. now + ka_interval k) k, sb_max_event_size = max_event_size,
      sb_finished = False\<rparr>"

definition reset_keep_alive :: "nat \<Rightarrow> sse_body \<Rightarrow> sse_body" where
  "reset_keep_alive now b =
     (case (sb_keep_alive b, sb_deadline b) of
        (Some k, Some _) \<Rightarrow> b\<lparr>sb_deadline := Some (now + ka_interval k)\<rparr>
      | _ \<Rightarrow> b)"

text \<open>
  \<open>poll_next\<close> at the time \<open>now\<close>, where \<open>src\<close> is what the source answers when it is polled. The
  timer has a policy whenever it exists.
\<close>

definition sse_poll_next :: "nat \<Rightarrow> (unit + sse_event) poll \<Rightarrow> sse_body \<Rightarrow> (unit + string) poll \<times> sse_body" where
  "sse_poll_next now src b =
     (if sb_finished b then (PollReady None, b)
      else (case src of
              PollReady (Some (Inr event)) \<Rightarrow>
                (let b = reset_keep_alive now b
                 in case sse_encode (sb_max_event_size b) event of
                      None \<Rightarrow> (PollReady (Some (Inl ())), b\<lparr>sb_finished := True\<rparr>)
                    | Some encoded \<Rightarrow> (PollReady (Some (Inr encoded)), b))
            | PollReady (Some (Inl e)) \<Rightarrow> (PollReady (Some (Inl e)), b\<lparr>sb_finished := True\<rparr>)
            | PollReady None \<Rightarrow> (PollReady None, b\<lparr>sb_finished := True\<rparr>)
            | PollPending \<Rightarrow>
                (case (sb_deadline b, sb_keep_alive b) of
                   (Some deadline, Some k) \<Rightarrow>
                     if deadline \<le> now
                     then (PollReady (Some (Inr ('': '' @ ka_comment k @ LF @ LF))), reset_keep_alive now b)
                     else (PollPending, b)
                 | _ \<Rightarrow> (PollPending, b))))"

section \<open>The reconnection cursor\<close>

datatype last_event_id_rejection = LastEventIdRejection

definition last_event_id :: "'a web_env \<Rightarrow> ('a, 'x) request \<Rightarrow> last_event_id_rejection + string option" where
  "last_event_id env request =
     (case header_get ''last-event-id'' (rq_headers request) of
        None \<Rightarrow> Inr None
      | Some v \<Rightarrow>
          (case we_header_text env v of
             None \<Rightarrow> Inl LastEventIdRejection
           | Some v \<Rightarrow> map_sum (\<lambda>_. LastEventIdRejection) Some (validate_sse_field ''Last-Event-ID'' v True)))"

end
