(* ===== verification/Sse_Props.thy ===== *)
theory Sse_Props
  imports Sse
begin

text \<open>
  What a browser reads from the stream. The reference is the event stream interpretation of the
  HTML standard: lines end at LF, CR or CR LF, a line names a field, and an empty line dispatches
  an event. The events a program builds are those the builder methods return.
\<close>

section \<open>The browser\<close>

record seen_event =
  sv_type :: string
  sv_data :: string
  sv_last_id :: string

record sse_reader =
  rd_data :: string
  rd_type :: string
  rd_last_id :: string
  rd_reconnection :: "nat option"

definition sse_reader_new :: sse_reader where
  "sse_reader_new = \<lparr>rd_data = [], rd_type = [], rd_last_id = [], rd_reconnection = None\<rparr>"

text \<open>The complete lines of a text.\<close>

fun take_line :: "string \<Rightarrow> (string \<times> string) option" where
  "take_line [] = None"
| "take_line (c # s) =
     (if c = CHR 0x0A then Some ([], s)
      else if c = CHR 0x0D then Some ([], (case s of [] \<Rightarrow> [] | d # t \<Rightarrow> if d = CHR 0x0A then t else s))
      else map_option (\<lambda>(l, rest). (c # l, rest)) (take_line s))"

lemma take_line_shorter: "take_line s = Some (l, rest) \<Longrightarrow> length rest < length s"
  by (induction s arbitrary: l rest) (auto split: if_splits list.splits)

function text_lines :: "string \<Rightarrow> string list" where
  "text_lines s = (case take_line s of None \<Rightarrow> [] | Some (l, rest) \<Rightarrow> l # text_lines rest)"
  by pat_completeness auto
termination
  by (relation "measure length") (auto dest: take_line_shorter)

declare text_lines.simps [simp del]

definition read_field :: "string \<Rightarrow> string \<Rightarrow> sse_reader \<Rightarrow> sse_reader" where
  "read_field field v r =
     (if field = ''event'' then r\<lparr>rd_type := v\<rparr>
      else if field = ''data'' then r\<lparr>rd_data := rd_data r @ v @ LF\<rparr>
      else if field = ''id'' then (if CHR 0x00 \<in> set v then r else r\<lparr>rd_last_id := v\<rparr>)
      else if field = ''retry'' then (if v \<noteq> [] \<and> list_all is_ascii_digit v then r\<lparr>rd_reconnection := Some (digits_value v)\<rparr> else r)
      else r)"

definition read_line :: "string \<Rightarrow> sse_reader \<Rightarrow> seen_event list \<times> sse_reader" where
  "read_line l r =
     (if l = [] then
        (if rd_data r = [] then ([], r\<lparr>rd_type := []\<rparr>)
         else ([\<lparr>sv_type = (if rd_type r = [] then ''message'' else rd_type r), sv_data = butlast (rd_data r), sv_last_id = rd_last_id r\<rparr>],
               r\<lparr>rd_data := [], rd_type := []\<rparr>))
      else
        (case split_once (CHR '':'') l of
           None \<Rightarrow> ([], read_field l [] r)
         | Some (field, v) \<Rightarrow>
             if field = [] then ([], r)
             else ([], read_field field (case v of [] \<Rightarrow> [] | c # w \<Rightarrow> if c = CHR '' '' then w else v) r)))"

fun read_lines :: "string list \<Rightarrow> sse_reader \<Rightarrow> seen_event list \<times> sse_reader" where
  "read_lines [] r = ([], r)"
| "read_lines (l # ls) r = (case read_line l r of (es, r) \<Rightarrow> (case read_lines ls r of (fs, r) \<Rightarrow> (es @ fs, r)))"

definition browser_reads :: "string \<Rightarrow> seen_event list" where
  "browser_reads stream = fst (read_lines (text_lines stream) sse_reader_new)"

section \<open>What a program sends\<close>

inductive built_event :: "sse_event \<Rightarrow> bool" where
  built_new: "built_event sse_new"
| built_event_type: "built_event e \<Longrightarrow> sse_set_event v e = Inr e' \<Longrightarrow> built_event e'"
| built_id: "built_event e \<Longrightarrow> sse_set_id v e = Inr e' \<Longrightarrow> built_event e'"
| built_data: "built_event e \<Longrightarrow> built_event (sse_set_data v e)"
| built_json: "built_event e \<Longrightarrow> sse_json_data (r :: unit + string) e = Inr e' \<Longrightarrow> built_event e'"
| built_retry: "built_event e \<Longrightarrow> built_event (sse_set_retry d e)"
| built_comment: "built_event e \<Longrightarrow> sse_set_comment v e = Inr e' \<Longrightarrow> built_event e'"

text \<open>CR LF and CR in the data become LF, and the last identifier stays in force.\<close>

fun lf_only :: "string \<Rightarrow> string" where
  "lf_only [] = []"
| "lf_only (c # s) =
     (if c = CHR 0x0D then CHR 0x0A # (case s of [] \<Rightarrow> [] | d # t \<Rightarrow> if d = CHR 0x0A then lf_only t else lf_only s)
      else c # lf_only s)"

definition last_id_after :: "string \<Rightarrow> sse_event \<Rightarrow> string" where
  "last_id_after i e = (case se_id e of None \<Rightarrow> i | Some j \<Rightarrow> j)"

definition sent_event :: "string \<Rightarrow> sse_event \<Rightarrow> seen_event" where
  "sent_event i e =
     \<lparr>sv_type = (case se_event e of None \<Rightarrow> ''message'' | Some t \<Rightarrow> t), sv_data = lf_only (se_data e), sv_last_id = last_id_after i e\<rparr>"

fun sent_events :: "string \<Rightarrow> sse_event list \<Rightarrow> seen_event list" where
  "sent_events i [] = []"
| "sent_events i (e # es) = sent_event i e # sent_events (last_id_after i e) es"

text \<open>The events the source delivers before the stream ends: an error of the source or an
  event that is too large ends it.\<close>

fun delivered :: "nat \<Rightarrow> (unit + sse_event) poll list \<Rightarrow> sse_event list" where
  "delivered max_size [] = []"
| "delivered max_size (PollPending # ps) = delivered max_size ps"
| "delivered max_size (PollReady (Some (Inr e)) # ps) = (if sse_encode max_size e = None then [] else e # delivered max_size ps)"
| "delivered max_size (_ # ps) = []"

text \<open>The bytes a body yields under a sequence of polls.\<close>

fun sse_stream :: "(nat \<times> (unit + sse_event) poll) list \<Rightarrow> sse_body \<Rightarrow> string" where
  "sse_stream [] b = []"
| "sse_stream ((now, src) # polls) b =
     (case sse_poll_next now src b of
        (PollReady (Some (Inr chunk)), b) \<Rightarrow> chunk @ sse_stream polls b
      | (_, b) \<Rightarrow> sse_stream polls b)"

section \<open>Lines\<close>

definition one_line :: "string \<Rightarrow> bool" where
  "one_line s \<longleftrightarrow> CHR 0x0A \<notin> set s \<and> CHR 0x0D \<notin> set s"

lemma take_line_append: "one_line l \<Longrightarrow> take_line (l @ LF @ s) = Some (l, s)"
  by (induction l) (auto simp: one_line_def LF_def)

lemma text_lines_append [simp]: "one_line l \<Longrightarrow> text_lines (l @ LF @ s) = l # text_lines s"
  by (subst text_lines.simps) (simp add: take_line_append)

lemma text_lines_LF [simp]: "text_lines (LF @ s) = [] # text_lines s"
  using text_lines_append [of "[]" s] by (simp add: one_line_def)

lemma text_lines_Nil [simp]: "text_lines [] = []"
  by (subst text_lines.simps) simp

lemma text_lines_concat:
  "list_all one_line ls \<Longrightarrow> text_lines (concat (map (\<lambda>l. l @ LF) ls) @ s) = ls @ text_lines s"
  by (induction ls) auto

lemma normalized:
  "str_replace [CHR 0x0D] LF (str_replace [CHR 0x0D, CHR 0x0A] LF s) = lf_only s"
proof (induction s rule: lf_only.induct)
  case (2 c s)
  have one: "str_replace [CHR 0x0D] LF (c # t) = (if c = CHR 0x0D then LF else [c]) @ str_replace [CHR 0x0D] LF t" for t and c :: char
    using str_replace_match [of "[CHR 0x0D]" LF t] str_replace_skip [of "[CHR 0x0D]" c t LF] by auto
  show ?case
  proof (cases "c = CHR 0x0D")
    case True
    show ?thesis
    proof (cases "\<exists>t. s = CHR 0x0A # t")
      case True
      then obtain t where s: "s = CHR 0x0A # t" by blast
      show ?thesis
        using str_replace_match [of "[CHR 0x0D, CHR 0x0A]" LF t] 2 \<open>c = CHR 0x0D\<close> s one by (simp add: LF_def)
    next
      case False
      then have "str_replace [CHR 0x0D, CHR 0x0A] LF (c # s) = c # str_replace [CHR 0x0D, CHR 0x0A] LF s"
        by (intro str_replace_skip) (cases s; auto)+
      then show ?thesis using 2 False \<open>c = CHR 0x0D\<close> one by (cases s) (auto simp: LF_def)
    qed
  next
    case False
    then show ?thesis using str_replace_skip [of "[CHR 0x0D, CHR 0x0A]" c s LF] 2 one by simp
  qed
qed simp

lemma lf_only_no_CR: "CHR 0x0D \<notin> set (lf_only s)"
  by (induction s rule: lf_only.induct) (auto split: list.splits)

section \<open>One event\<close>

definition sound_event :: "sse_event \<Rightarrow> bool" where
  "sound_event e \<longleftrightarrow> se_event e \<noteq> Some [] \<and>
     (\<forall>v. se_event e = Some v \<or> se_id e = Some v \<or> se_comment e = Some v \<longrightarrow> \<not> list_ex line_breaker v)"

lemma validate_sse_field_Inr:
  "validate_sse_field f v b = Inr w \<longleftrightarrow> w = v \<and> (b \<or> v \<noteq> []) \<and> length v \<le> MAX_SSE_FIELD_LENGTH \<and> \<not> list_ex line_breaker v"
  by (auto simp: validate_sse_field_def)

lemma map_sum_Inr: "map_sum f g x = Inr y \<longleftrightarrow> (\<exists>z. x = Inr z \<and> y = g z)"
  by (cases x) auto

lemma built_sound: "built_event e \<Longrightarrow> sound_event e"
  by (induction rule: built_event.induct)
    (auto simp: sound_event_def sse_new_def sse_set_event_def sse_set_id_def sse_set_data_def sse_json_data_def sse_set_retry_def
      sse_set_comment_def validate_sse_field_Inr map_sum_Inr)

lemma no_breaker: "\<not> list_ex line_breaker v \<Longrightarrow> one_line v \<and> CHR 0x00 \<notin> set v"
  by (auto simp: list_ex_iff line_breaker_def one_line_def)

lemma one_line_append [simp]: "one_line (a @ b) \<longleftrightarrow> one_line a \<and> one_line b"
  by (auto simp: one_line_def)

lemma one_line_Cons [simp]: "one_line (c # b) \<longleftrightarrow> c \<noteq> CHR 0x0A \<and> c \<noteq> CHR 0x0D \<and> one_line b"
  by (auto simp: one_line_def)

lemma one_line_digits: "one_line (nat_to_string n)"
  using nat_to_string_digits [of n] by (auto simp: one_line_def list_all_iff is_ascii_digit_def)

lemma join_split: "concat (map (\<lambda>l. l @ LF) (split_on (CHR 0x0A) s)) = s @ LF"
  by (induction s) (auto simp: LF_def split: list.splits)

lemma sse_lines_one_line:
  assumes "sound_event e"
  shows "list_all one_line (sse_lines e)"
proof -
  have "one_line l" if "l \<in> set (split_on (CHR 0x0A) (lf_only (se_data e)))" for l
    using split_on_parts [OF that] lf_only_no_CR [of "se_data e"] by (auto simp: one_line_def)
  then show ?thesis
    using assms no_breaker one_line_digits
    by (auto simp: sse_lines_def sound_event_def normalized list_all_iff one_line_def [of "[]"] split: option.splits)
qed

lemma read_lines_append:
  "read_lines (ls @ ms) r = (case read_lines ls r of (es, r) \<Rightarrow> (case read_lines ms r of (fs, r) \<Rightarrow> (es @ fs, r)))"
  by (induction ls arbitrary: r) (auto split: prod.splits)

lemma read_data_lines:
  "read_lines (map (\<lambda>l. ''data: '' @ l) ls) r = ([], r\<lparr>rd_data := rd_data r @ concat (map (\<lambda>l. l @ LF) ls)\<rparr>)"
  by (induction ls arbitrary: r) (auto simp: read_line_def read_field_def)

definition read_reconnection :: "sse_event \<Rightarrow> nat option \<Rightarrow> nat option" where
  "read_reconnection e old = (case se_retry e of None \<Rightarrow> old | Some retry \<Rightarrow> Some (retry_millis retry))"

definition head_lines :: "sse_event \<Rightarrow> string list" where
  "head_lines e =
     (case se_comment e of None \<Rightarrow> [] | Some comment \<Rightarrow> ['': '' @ comment])
     @ (case se_event e of None \<Rightarrow> [] | Some event \<Rightarrow> [''event: '' @ event])
     @ (case se_id e of None \<Rightarrow> [] | Some i \<Rightarrow> [''id: '' @ i])
     @ (case se_retry e of None \<Rightarrow> [] | Some retry \<Rightarrow> [''retry: '' @ nat_to_string (retry_millis retry)])"

lemma sse_lines_head: "sse_lines e = head_lines e @ map (\<lambda>line. ''data: '' @ line) (split_on (CHR 0x0A) (lf_only (se_data e)))"
  unfolding sse_lines_def head_lines_def normalized Let_def by simp

lemma read_head:
  assumes "sound_event e"
  shows "read_lines (head_lines e) r =
    ([], r\<lparr>rd_type := (case se_event e of None \<Rightarrow> rd_type r | Some t \<Rightarrow> t), rd_last_id := last_id_after (rd_last_id r) e,
           rd_reconnection := read_reconnection e (rd_reconnection r)\<rparr>)"
proof -
  have "CHR 0x00 \<notin> set i" if "se_id e = Some i" for i using assms no_breaker that by (auto simp: sound_event_def)
  then show ?thesis
    using nat_to_string_digits
    by (auto simp: head_lines_def read_line_def read_field_def last_id_after_def read_reconnection_def split: option.splits)
qed

lemma read_event:
  assumes "sound_event e" and "rd_data r = []" and "rd_type r = []"
  shows "read_lines (sse_lines e @ [[]]) r =
    ([sent_event (rd_last_id r) e],
     r\<lparr>rd_last_id := last_id_after (rd_last_id r) e, rd_reconnection := read_reconnection e (rd_reconnection r)\<rparr>)"
proof -
  have "t \<noteq> []" if "se_event e = Some t" for t using assms(1) that by (auto simp: sound_event_def)
  then show ?thesis
    unfolding sse_lines_head read_lines_append append_assoc read_head [OF assms(1)] read_data_lines join_split
    using assms(2,3) by (auto simp: read_line_def sent_event_def LF_def split: option.splits)
qed

section \<open>The stream\<close>

definition sound_policy :: "keep_alive option \<Rightarrow> bool" where
  "sound_policy k \<longleftrightarrow> (\<forall>p. k = Some p \<longrightarrow> \<not> list_ex line_breaker (ka_comment p))"

text \<open>A reader between two events.\<close>

definition at_rest :: "string \<Rightarrow> sse_reader \<Rightarrow> bool" where
  "at_rest i r \<longleftrightarrow> rd_data r = [] \<and> rd_type r = [] \<and> rd_last_id r = i"

lemma read_encoded:
  assumes "sound_event e" and "sse_encode n e = Some chunk" and "at_rest i r"
  shows "\<exists>r'. at_rest (last_id_after i e) r' \<and>
    fst (read_lines (text_lines (chunk @ s)) r) = sent_event i e # fst (read_lines (text_lines s) r')"
proof -
  have "chunk = concat (map (\<lambda>line. line @ LF) (sse_lines e)) @ LF" using assms(2) by (auto simp: sse_encode_def Let_def split: if_splits)
  then have "text_lines (chunk @ s) = (sse_lines e @ [[]]) @ text_lines s"
    using text_lines_concat [OF sse_lines_one_line [OF assms(1)], of "LF @ s"] by simp
  then show ?thesis
    using read_event [OF assms(1), of r] assms(3)
    by (intro exI [of _ "snd (read_lines (sse_lines e @ [[]]) r)"])
      (simp only: read_lines_append [of "sse_lines e @ [[]]"], auto simp: at_rest_def split: prod.splits)
qed

lemma read_keep_alive:
  assumes "\<not> list_ex line_breaker c" and "at_rest i r"
  shows "read_lines (text_lines (('': '' @ c @ LF @ LF) @ s)) r = read_lines (text_lines s) r"
proof -
  have "one_line ('': '' @ c)" using no_breaker [OF assms(1)] by simp
  then have "text_lines (('': '' @ c @ LF @ LF) @ s) = ['': '' @ c, []] @ text_lines s"
    using text_lines_append [of "'': '' @ c" "LF @ s"] by (simp del: one_line_Cons)
  then show ?thesis using assms(2)
    by (simp only: read_lines_append) (cases r, auto simp: read_line_def at_rest_def split: prod.splits)
qed

lemma stream_finished: "sb_finished b \<Longrightarrow> sse_stream polls b = []"
  by (induction polls) (auto simp: sse_poll_next_def)

lemma reset_keep_alive_fields [simp]:
  "sb_keep_alive (reset_keep_alive now b) = sb_keep_alive b" "sb_max_event_size (reset_keep_alive now b) = sb_max_event_size b"
  "sb_finished (reset_keep_alive now b) = sb_finished b"
  by (auto simp: reset_keep_alive_def split: option.splits)

lemma stream_read:
  assumes "\<not> sb_finished b" and "sound_policy (sb_keep_alive b)" and "\<And>e. PollReady (Some (Inr e)) \<in> snd ` set polls \<Longrightarrow> sound_event e"
    and "at_rest i r"
  shows "fst (read_lines (text_lines (sse_stream polls b)) r) = sent_events i (delivered (sb_max_event_size b) (map snd polls))"
  using assms
proof (induction polls arbitrary: b i r)
  case (Cons poll polls)
  obtain now src where p: "poll = (now, src)" by fastforce
  note IH = Cons.IH [of "snd (sse_poll_next now src b)"]
  note sound = Cons.prems(3)
  consider (event) e where "src = PollReady (Some (Inr e))" | (pending) "src = PollPending"
    | (over) "src = PollReady None" | (err) x where "src = PollReady (Some (Inl x))"
    by (metis option.exhaust poll.exhaust sum.exhaust)
  then show ?case
  proof cases
    case event
    have e: "sound_event e" using sound [of e] p event by force
    show ?thesis
    proof (cases "sse_encode (sb_max_event_size b) e")
      case None
      then show ?thesis using p event Cons.prems(1) by (simp add: sse_poll_next_def stream_finished)
    next
      case (Some chunk)
      obtain r' where r': "at_rest (last_id_after i e) r'"
        "fst (read_lines (text_lines (chunk @ sse_stream polls (reset_keep_alive now b))) r)
          = sent_event i e # fst (read_lines (text_lines (sse_stream polls (reset_keep_alive now b))) r')"
        using read_encoded [OF e Some Cons.prems(4)] by blast
      then show ?thesis
        using Some p event Cons.prems(1,2) Cons.IH [of "reset_keep_alive now b", OF _ _ _ r'(1)] sound
        by (simp add: sse_poll_next_def)
    qed
  next
    case pending
    show ?thesis
      using p pending Cons.prems Cons.IH [of b i r] Cons.IH [of "reset_keep_alive now b" i r]
        read_keep_alive [of "ka_comment (the (sb_keep_alive b))" i r "sse_stream polls (reset_keep_alive now b)"]
      by (auto simp: sse_poll_next_def sound_policy_def split: option.splits)
  qed (use p Cons.prems(1) in \<open>simp_all add: sse_poll_next_def stream_finished\<close>)
qed simp

section \<open>Properties\<close>

text \<open>C28: a browser reads from the stream exactly the events the source delivered before its end,
  its first error or the first event over the size limit, in their order, each with its type,
  its data (with CR LF and CR as LF) and the last identifier, whatever the texts the events were
  built from contain and however keepalives come in between.\<close>

theorem browser_reads_what_was_sent:
  assumes "\<forall>e. PollReady (Some (Inr e)) \<in> snd ` set polls \<longrightarrow> built_event e"
    and "\<forall>p. k = Some p \<longrightarrow> p = keep_alive_default \<or> (\<exists>c q. keep_alive_comment c q = Inr p)"
  shows "browser_reads (sse_stream polls (sse_body_new now k n)) = sent_events [] (delivered n (map snd polls))"
proof -
  have k: "sound_policy k"
    using assms(2) by (fastforce simp: sound_policy_def keep_alive_default_def keep_alive_comment_def validate_sse_field_Inr map_sum_Inr
        line_breaker_def)
  have "fst (read_lines (text_lines (sse_stream polls (sse_body_new now k n))) sse_reader_new)
    = sent_events [] (delivered (sb_max_event_size (sse_body_new now k n)) (map snd polls))"
    by (rule stream_read) (use assms(1) built_sound k in \<open>auto simp: sse_body_new_def at_rest_def sse_reader_new_def\<close>)
  then show ?thesis by (simp add: browser_reads_def sse_body_new_def)
qed

text \<open>An event whose data tries to start a second event, a keepalive, and one that is too large.\<close>

definition demo_sse :: sse_event where
  "demo_sse = \<lparr>se_event = Some ''note'', se_id = Some ''7'', se_data = ''a'' @ LF @ LF @ ''event: b'', se_retry = None, se_comment = None\<rparr>"

lemma demo_sse_built: "built_event demo_sse"
proof -
  have "sse_set_event ''note'' (sse_set_data (''a'' @ LF @ LF @ ''event: b'') sse_new) =
      Inr ((sse_set_data (''a'' @ LF @ LF @ ''event: b'') sse_new)\<lparr>se_event := Some ''note''\<rparr>)"
    by (simp add: sse_set_event_def validate_sse_field_def MAX_SSE_FIELD_LENGTH_def line_breaker_def)
  moreover have "sse_set_id ''7'' ((sse_set_data (''a'' @ LF @ LF @ ''event: b'') sse_new)\<lparr>se_event := Some ''note''\<rparr>) = Inr demo_sse"
    by (simp add: sse_set_id_def validate_sse_field_def MAX_SSE_FIELD_LENGTH_def line_breaker_def sse_set_data_def sse_new_def demo_sse_def)
  ultimately show ?thesis using built_id built_event_type built_data built_new by blast
qed

definition demo_polls :: "(nat \<times> (unit + sse_event) poll) list" where
  "demo_polls = [(1, PollReady (Some (Inr demo_sse))), (20 * 10 ^ 9, PollPending), (20 * 10 ^ 9 + 1, PollReady (Some (Inr demo_sse))), (20 * 10 ^ 9 + 2, PollReady (Some (Inl ())))]"

theorem browser_reads_what_was_sent_witness:
  "browser_reads (sse_stream demo_polls (sse_body_new 0 (Some keep_alive_default) 100)) =
     replicate 2 \<lparr>sv_type = ''note'', sv_data = ''a'' @ LF @ LF @ ''event: b'', sv_last_id = ''7''\<rparr>"
proof -
  have "delivered 100 (map snd demo_polls) = [demo_sse, demo_sse]"
    unfolding demo_polls_def sse_encode_def sse_lines_head by (simp add: head_lines_def demo_sse_def LF_def sse_encode_def sse_lines_head)
  moreover have "sent_events [] [demo_sse, demo_sse] =
      replicate 2 \<lparr>sv_type = ''note'', sv_data = ''a'' @ LF @ LF @ ''event: b'', sv_last_id = ''7''\<rparr>"
    by (simp add: sent_event_def last_id_after_def demo_sse_def LF_def numeral_2_eq_2)
  ultimately show ?thesis
    using browser_reads_what_was_sent [of demo_polls "Some keep_alive_default" 0 100] demo_sse_built by (simp add: demo_polls_def)
qed

text \<open>An identifier that was sent comes back as the cursor, if it is visible ASCII; a server does not
  read any other text out of a header.\<close>

definition visible_ascii :: "char \<Rightarrow> bool" where
  "visible_ascii c \<longleftrightarrow> c = CHR 0x09 \<or> byte_in 32 126 c"

lemma cursor_comes_back:
  assumes "sse_set_id i e = Inr e'" and "header_get ''last-event-id'' (rq_headers request) = Some i"
    and "we_header_text env i = (if list_all visible_ascii i then Some i else None)"
  shows "last_event_id env request = (if list_all visible_ascii i then Inr (Some i) else Inl LastEventIdRejection)"
  using assms by (auto simp: last_event_id_def sse_set_id_def validate_sse_field_def split: if_splits)

end
