(* ===== verification/Validation.thy ===== *)
theory Validation
  imports Http_Core
begin

text \<open>
  Validation of input (\<open>phoenix-validation\<close>, \<open>lib.rs\<close> and \<open>messages.rs\<close>): rules, the validator that
  collects the errors of every field, and the catalogs the messages come from. The catalogs are
  process-wide; the functions that read them take them as an argument, those that change them
  return them changed. A JSON value is a tree; the text of a number is of an arbitrary type.
\<close>

section \<open>JSON values\<close>

datatype 'n json_tree =
    VNull | VBool bool | VNumber 'n | VString string | VArray "'n json_tree list" | VObject "(string \<times> 'n json_tree) list"

text \<open>\<open>Value::get\<close> with a name.\<close>

definition json_get :: "string \<Rightarrow> 'n json_tree \<Rightarrow> 'n json_tree option" where
  "json_get key v = (case v of VObject entries \<Rightarrow> map_of entries key | _ \<Rightarrow> None)"

definition value_at_path :: "'n json_tree \<Rightarrow> string \<Rightarrow> 'n json_tree option" where
  "value_at_path data field =
     fold (\<lambda>segment current. Option.bind current (json_get segment)) (split_on (CHR ''.'') field) (Some data)"

section \<open>Message catalogs\<close>

record messages =
  vm_invalid :: "string option"
  vm_templates :: "(string, string) btree"

record message_registry =
  vr_locale :: string
  vr_locales :: "(string, messages) btree"
  vr_field_names :: "(string, string) btree"

definition LOCALE_EN :: string where
  "LOCALE_EN = ''en''"

definition LOCALE_ZH_CN :: string where
  "LOCALE_ZH_CN = ''zh-CN''"

definition BUILT_IN_RULES :: "string list" where
  "BUILT_IN_RULES = [''max_length'', ''min_length'', ''required'', ''string'']"

definition DEFAULT_INVALID_EN :: string where
  "DEFAULT_INVALID_EN = ''The submitted data is invalid.''"

definition DEFAULT_INVALID_ZH_CN :: string where
  "DEFAULT_INVALID_ZH_CN =
     bytes [230, 143, 144, 228, 186, 164, 231, 154, 132, 230, 149, 176, 230, 141, 174, 228, 184, 141, 229, 144, 136, 230, 179, 149,
            227, 128, 130]"

definition en_template :: "string \<Rightarrow> string option" where
  "en_template rule =
     (if rule = ''required'' then Some ''The {field} field is required.''
      else if rule = ''string'' then Some ''The {field} field must be a string.''
      else if rule = ''min_length'' then Some ''The {field} field must be at least {min} characters.''
      else if rule = ''max_length'' then Some ''The {field} field must not exceed {max} characters.''
      else None)"

definition zh_cn_template :: "string \<Rightarrow> string option" where
  "zh_cn_template rule =
     (if rule = ''required'' then Some (''{field}'' @ bytes [32, 228, 184, 141, 232, 131, 189, 228, 184, 186, 231, 169, 186, 227, 128, 130])
      else if rule = ''string'' then
        Some (''{field}'' @ bytes [32, 229, 191, 133, 233, 161, 187, 230, 152, 175, 229, 173, 151, 231, 172, 166, 228, 184, 178, 227, 128, 130])
      else if rule = ''min_length'' then
        Some (''{field}'' @ bytes [32, 233, 149, 191, 229, 186, 166, 228, 184, 141, 232, 131, 189, 229, 176, 143, 228, 186, 142, 32] @ ''{min}''
          @ bytes [32, 228, 184, 170, 229, 173, 151, 231, 172, 166, 227, 128, 130])
      else if rule = ''max_length'' then
        Some (''{field}'' @ bytes [32, 233, 149, 191, 229, 186, 166, 228, 184, 141, 232, 131, 189, 232, 182, 133, 232, 191, 135, 32] @ ''{max}''
          @ bytes [32, 228, 184, 170, 229, 173, 151, 231, 172, 166, 227, 128, 130])
      else None)"

definition messages_new :: messages where
  "messages_new = \<lparr>vm_invalid = None, vm_templates = []\<rparr>"

definition messages_rule :: "string \<Rightarrow> string \<Rightarrow> messages \<Rightarrow> messages" where
  "messages_rule rule template m = m\<lparr>vm_templates := bt_insert rule template (vm_templates m)\<rparr>"

definition messages_invalid :: "string \<Rightarrow> messages \<Rightarrow> messages" where
  "messages_invalid message m = m\<lparr>vm_invalid := Some message\<rparr>"

definition messages_template :: "string \<Rightarrow> messages \<Rightarrow> string option" where
  "messages_template rule m = map_of (vm_templates m) rule"

definition messages_rules :: "messages \<Rightarrow> string list" where
  "messages_rules m = map fst (vm_templates m)"

definition builtin_locale :: "string \<Rightarrow> messages option" where
  "builtin_locale locale =
     (case (if locale = LOCALE_EN then Some (DEFAULT_INVALID_EN, en_template)
            else if locale = LOCALE_ZH_CN then Some (DEFAULT_INVALID_ZH_CN, zh_cn_template)
            else None) of
        None \<Rightarrow> None
      | Some (invalid, template) \<Rightarrow>
          Some (fold (\<lambda>rule m. case template rule of None \<Rightarrow> m | Some t \<Rightarrow> messages_rule rule t m)
            BUILT_IN_RULES (messages_invalid invalid messages_new)))"

definition registry_default :: message_registry where
  "registry_default =
     \<lparr>vr_locale = LOCALE_EN,
      vr_locales = fold (\<lambda>locale m. case builtin_locale locale of None \<Rightarrow> m | Some c \<Rightarrow> bt_insert locale c m) [LOCALE_EN, LOCALE_ZH_CN] [],
      vr_field_names = []\<rparr>"

definition set_locale :: "string \<Rightarrow> message_registry \<Rightarrow> message_registry" where
  "set_locale locale reg = reg\<lparr>vr_locale := locale\<rparr>"

definition register_locale :: "string \<Rightarrow> messages \<Rightarrow> message_registry \<Rightarrow> message_registry" where
  "register_locale locale m reg = reg\<lparr>vr_locales := bt_insert locale m (vr_locales reg)\<rparr>"

definition locale_entry :: "string \<Rightarrow> message_registry \<Rightarrow> messages" where
  "locale_entry locale reg =
     (case map_of (vr_locales reg) locale of
        Some m \<Rightarrow> m
      | None \<Rightarrow> (case builtin_locale locale of Some m \<Rightarrow> m | None \<Rightarrow> messages_new))"

definition override_message :: "string \<Rightarrow> string \<Rightarrow> string \<Rightarrow> message_registry \<Rightarrow> message_registry" where
  "override_message locale rule template reg =
     reg\<lparr>vr_locales := bt_insert locale (messages_rule rule template (locale_entry locale reg)) (vr_locales reg)\<rparr>"

definition override_invalid_message :: "string \<Rightarrow> string \<Rightarrow> message_registry \<Rightarrow> message_registry" where
  "override_invalid_message locale message reg =
     reg\<lparr>vr_locales := bt_insert locale (messages_invalid message (locale_entry locale reg)) (vr_locales reg)\<rparr>"

definition register_field_name :: "string \<Rightarrow> string \<Rightarrow> message_registry \<Rightarrow> message_registry" where
  "register_field_name field display reg = reg\<lparr>vr_field_names := bt_insert field display (vr_field_names reg)\<rparr>"

definition register_field_names :: "(string \<times> string) list \<Rightarrow> message_registry \<Rightarrow> message_registry" where
  "register_field_names pairs reg = fold (\<lambda>(field, display). register_field_name field display) pairs reg"

definition field_display_name :: "message_registry \<Rightarrow> string \<Rightarrow> string" where
  "field_display_name reg field = (case map_of (vr_field_names reg) field of None \<Rightarrow> field | Some display \<Rightarrow> display)"

text \<open>\<open>or_else\<close> on options.\<close>

definition or_else :: "'a option \<Rightarrow> 'a option \<Rightarrow> 'a option" where
  "or_else a b = (case a of None \<Rightarrow> b | Some x \<Rightarrow> Some x)"

definition invalid_message :: "message_registry \<Rightarrow> string" where
  "invalid_message reg =
     (let found = (\<lambda>locale. Option.bind (map_of (vr_locales reg) locale) vm_invalid)
      in case or_else (found (vr_locale reg)) (found LOCALE_EN) of None \<Rightarrow> DEFAULT_INVALID_EN | Some m \<Rightarrow> m)"

definition rule_template :: "message_registry \<Rightarrow> string \<Rightarrow> string option" where
  "rule_template reg rule =
     (let found = (\<lambda>locale. Option.bind (map_of (vr_locales reg) locale) (messages_template rule))
      in or_else (found (vr_locale reg)) (or_else (found LOCALE_EN) (en_template rule)))"

definition rule_message :: "message_registry \<Rightarrow> string \<Rightarrow> string \<Rightarrow> (string \<times> string) list \<Rightarrow> string option" where
  "rule_message reg rule field params =
     (case rule_template reg rule of
        None \<Rightarrow> None
      | Some template \<Rightarrow>
          Some (fold (\<lambda>(name, v) rendered. str_replace (''{'' @ name @ ''}'') v rendered) params
            (str_replace ''{field}'' (field_display_name reg field) template)))"

definition builtin_message :: "message_registry \<Rightarrow> string \<Rightarrow> string \<Rightarrow> (string \<times> string) list \<Rightarrow> string" where
  "builtin_message reg rule field params =
     (case rule_message reg rule field params of
        Some m \<Rightarrow> m
      | None \<Rightarrow> ''The '' @ field_display_name reg field @ '' field is invalid.'')"

section \<open>Rules\<close>

record 'n rule_context =
  rc_field :: string
  rc_value :: "'n json_tree option"
  rc_data :: "'n json_tree"

record 'n rule =
  rl_name :: string
  rl_validate :: "message_registry \<Rightarrow> 'n rule_context \<Rightarrow> string + unit"

definition custom_rule :: "string \<Rightarrow> (message_registry \<Rightarrow> 'n rule_context \<Rightarrow> string + unit) \<Rightarrow> 'n rule" where
  "custom_rule name validate = \<lparr>rl_name = name, rl_validate = validate\<rparr>"

definition required :: "'n rule" where
  "required = \<lparr>rl_name = ''required'', rl_validate = (\<lambda>reg context.
     let valid = (case rc_value context of
           None \<Rightarrow> False
         | Some v \<Rightarrow> (case v of
               VNull \<Rightarrow> False
             | VString s \<Rightarrow> \<not> trim_is_empty s
             | VArray vs \<Rightarrow> vs \<noteq> []
             | VObject vs \<Rightarrow> vs \<noteq> []
             | _ \<Rightarrow> True))
     in if valid then Inr () else Inl (builtin_message reg ''required'' (rc_field context) []))\<rparr>"

definition string_rule :: "'n rule" where
  "string_rule = \<lparr>rl_name = ''string'', rl_validate = (\<lambda>reg context.
     case rc_value context of
       None \<Rightarrow> Inr ()
     | Some v \<Rightarrow> (case v of
           VNull \<Rightarrow> Inr ()
         | VString _ \<Rightarrow> Inr ()
         | _ \<Rightarrow> Inl (builtin_message reg ''string'' (rc_field context) [])))\<rparr>"

definition min_length :: "nat \<Rightarrow> 'n rule" where
  "min_length n = \<lparr>rl_name = ''min_length'', rl_validate = (\<lambda>reg context.
     case rc_value context of
       Some (VString v) \<Rightarrow>
         if chars_count v < n then Inl (builtin_message reg ''min_length'' (rc_field context) [(''min'', nat_to_string n)]) else Inr ()
     | _ \<Rightarrow> Inr ())\<rparr>"

definition max_length :: "nat \<Rightarrow> 'n rule" where
  "max_length n = \<lparr>rl_name = ''max_length'', rl_validate = (\<lambda>reg context.
     case rc_value context of
       Some (VString v) \<Rightarrow>
         if chars_count v > n then Inl (builtin_message reg ''max_length'' (rc_field context) [(''max'', nat_to_string n)]) else Inr ()
     | _ \<Rightarrow> Inr ())\<rparr>"

section \<open>The validator\<close>

record validation_error =
  ve_rule :: string
  ve_message :: string

type_synonym validation_errors = "(string, validation_error list) btree"

record 'n validator =
  va_data :: "'n json_tree"
  va_rules :: "(string, 'n rule list) btree"

definition validator_new :: "'n json_tree \<Rightarrow> 'n validator" where
  "validator_new data = \<lparr>va_data = data, va_rules = []\<rparr>"

text \<open>\<open>entry(key).or_default().extend(items)\<close>\<close>

definition bt_extend :: "'k::linorder \<Rightarrow> 'a list \<Rightarrow> ('k, 'a list) btree \<Rightarrow> ('k, 'a list) btree" where
  "bt_extend k xs m = bt_insert k ((case map_of m k of None \<Rightarrow> [] | Some ys \<Rightarrow> ys) @ xs) m"

definition validator_field :: "string \<Rightarrow> 'n rule list \<Rightarrow> 'n validator \<Rightarrow> 'n validator" where
  "validator_field field rules v = v\<lparr>va_rules := bt_extend field rules (va_rules v)\<rparr>"

definition validate_rule :: "message_registry \<Rightarrow> 'n validator \<Rightarrow> string \<Rightarrow> 'n rule \<Rightarrow> validation_errors \<Rightarrow> validation_errors" where
  "validate_rule reg v field rule errors =
     (case rl_validate rule reg \<lparr>rc_field = field, rc_value = value_at_path (va_data v) field, rc_data = va_data v\<rparr> of
        Inr _ \<Rightarrow> errors
      | Inl message \<Rightarrow> bt_extend field [\<lparr>ve_rule = rl_name rule, ve_message = message\<rparr>] errors)"

definition validator_validate :: "message_registry \<Rightarrow> 'n validator \<Rightarrow> validation_errors + unit" where
  "validator_validate reg v =
     (let errors = fold (\<lambda>(field, rules) errors. fold (validate_rule reg v field) rules errors) (va_rules v) []
      in if errors = [] then Inr () else Inl errors)"

definition validation_errors_get :: "string \<Rightarrow> validation_errors \<Rightarrow> validation_error list option" where
  "validation_errors_get field errors = map_of errors field"

section \<open>The extractor\<close>

datatype 'r validated_rejection = ExtractRejection 'r | ValidationRejection validation_errors

text \<open>\<open>extract\<close> is the inner extractor, \<open>validate\<close> the method of its value.\<close>

definition validated_from_request :: "(('a, 'x) request \<Rightarrow> 'r + 'v) \<Rightarrow> ('v \<Rightarrow> validation_errors + unit) \<Rightarrow> ('a, 'x) request \<Rightarrow>
    'r validated_rejection + 'v" where
  "validated_from_request extract validate request =
     (case extract request of
        Inl rejection \<Rightarrow> Inl (ExtractRejection rejection)
      | Inr extracted \<Rightarrow>
          (case validate extracted of
             Inl errors \<Rightarrow> Inl (ValidationRejection errors)
           | Inr _ \<Rightarrow> Inr extracted))"

text \<open>\<open>Json(..).into_response()\<close>; \<open>serialized\<close> is the text of the body, when it can be serialized.\<close>

definition json_response :: "string option \<Rightarrow> ('x, 'w) response" where
  "json_response serialized =
     (case serialized of
        None \<Rightarrow> status_text 500 ''Internal Server Error''
      | Some body \<Rightarrow> insert_header ''content-type'' ''application/json'' (response_new 200 body))"

definition validated_rejection_response :: "(string \<Rightarrow> validation_errors \<Rightarrow> string option) \<Rightarrow> ('r \<Rightarrow> ('x, 'w) response) \<Rightarrow> message_registry \<Rightarrow>
    'r validated_rejection \<Rightarrow> ('x, 'w) response" where
  "validated_rejection_response serialize inner_response reg rejection =
     (case rejection of
        ExtractRejection r \<Rightarrow> inner_response r
      | ValidationRejection errors \<Rightarrow> with_status 422 (json_response (serialize (invalid_message reg) errors)))"

end
