(* ===== verification/Validation_Props.thy ===== *)
theory Validation_Props
  imports Validation
begin

text \<open>
  The validator reports exactly the failures of the declared rules, and the catalogs fall back as
  documented: through every history of the registry, overriding one message changes that message
  and nothing else.
\<close>

section \<open>What a validator reports\<close>

definition failing :: "message_registry \<Rightarrow> 'n json_tree \<Rightarrow> string \<Rightarrow> 'n rule list \<Rightarrow> validation_error list" where
  "failing reg data field rules =
     concat (map (\<lambda>rule. case rl_validate rule reg \<lparr>rc_field = field, rc_value = value_at_path data field, rc_data = data\<rparr> of
         Inr _ \<Rightarrow> []
       | Inl message \<Rightarrow> [\<lparr>ve_rule = rl_name rule, ve_message = message\<rparr>]) rules)"

text \<open>The rules a sequence of \<open>field\<close> calls declares for a field.\<close>

definition declared_rules :: "(string \<times> 'n rule list) list \<Rightarrow> string \<Rightarrow> 'n rule list" where
  "declared_rules calls f = concat (map snd (filter (\<lambda>c. fst c = f) calls))"

definition declare_fields :: "(string \<times> 'n rule list) list \<Rightarrow> 'n json_tree \<Rightarrow> 'n validator" where
  "declare_fields calls data = fold (\<lambda>(field, rules). validator_field field rules) calls (validator_new data)"

lemma bt_wf_extend [simp, intro]: "bt_wf m \<Longrightarrow> bt_wf (bt_extend k xs m)"
  by (simp add: bt_extend_def)

definition added :: "'a list option \<Rightarrow> 'a list \<Rightarrow> 'a list option" where
  "added old xs = (if xs = [] then old else Some ((case old of None \<Rightarrow> [] | Some ys \<Rightarrow> ys) @ xs))"

lemma added_added [simp]: "added (added old xs) ys = added old (xs @ ys)"
  by (auto simp: added_def split: option.splits)

lemma added_Nil [simp]: "added old [] = old"
  by (simp add: added_def)

lemma map_of_extend: "map_of (bt_extend k xs m) = (map_of m)(k \<mapsto> (case map_of m k of None \<Rightarrow> [] | Some ys \<Rightarrow> ys) @ xs)"
  by (simp add: bt_extend_def)

lemma validate_rule_step:
  "map_of (validate_rule reg v f rule errors) = (map_of errors)(f := added (map_of errors f) (failing reg (va_data v) f [rule]))"
  by (auto simp: validate_rule_def failing_def map_of_extend added_def fun_eq_iff split: sum.splits)

lemma validate_rules:
  "map_of (fold (validate_rule reg v f) rules errors) = (map_of errors)(f := added (map_of errors f) (failing reg (va_data v) f rules))"
proof (induction rules arbitrary: errors)
  case Nil
  then show ?case by (simp add: failing_def)
next
  case (Cons rule rules)
  have "failing reg (va_data v) f (rule # rules) = failing reg (va_data v) f [rule] @ failing reg (va_data v) f rules"
    by (simp add: failing_def)
  then show ?case by (auto simp add: Cons.IH validate_rule_step fun_eq_iff)
qed

lemma validate_rules_wf: "bt_wf errors \<Longrightarrow> bt_wf (fold (validate_rule reg v f) rules errors)"
  by (induction rules arbitrary: errors) (auto simp: validate_rule_def split: sum.splits)

lemma validate_fields:
  assumes "distinct (map fst entries)"
  shows "map_of (fold (\<lambda>(field, rules) errors. fold (validate_rule reg v field) rules errors) entries errors) f =
    added (map_of errors f) (case map_of entries f of None \<Rightarrow> [] | Some rules \<Rightarrow> failing reg (va_data v) f rules)"
  using assms
proof (induction entries arbitrary: errors)
  case (Cons entry entries)
  obtain g rules where e: "entry = (g, rules)" by fastforce
  have "map_of entries g = None" using Cons.prems e by (simp add: map_of_eq_None_iff)
  then show ?case using Cons e by (simp add: validate_rules)
qed simp

lemma validate_fields_wf:
  "bt_wf errors \<Longrightarrow> bt_wf (fold (\<lambda>(field, rules) errors. fold (validate_rule reg v field) rules errors) entries errors)"
  by (induction entries arbitrary: errors) (auto simp: validate_rules_wf split: prod.splits)

lemma declare_fields_rules:
  "bt_wf (va_rules v) \<Longrightarrow> va_data (fold (\<lambda>(field, rules). validator_field field rules) calls v) = va_data v \<and>
    bt_wf (va_rules (fold (\<lambda>(field, rules). validator_field field rules) calls v)) \<and>
    (case map_of (va_rules (fold (\<lambda>(field, rules). validator_field field rules) calls v)) f of None \<Rightarrow> [] | Some rules \<Rightarrow> rules)
      = (case map_of (va_rules v) f of None \<Rightarrow> [] | Some rules \<Rightarrow> rules) @ declared_rules calls f"
proof (induction calls arbitrary: v)
  case (Cons c calls)
  have "bt_wf (va_rules (validator_field (fst c) (snd c) v))" using Cons.prems by (simp add: validator_field_def)
  from Cons.IH [OF this] show ?case
    by (cases c) (auto simp: validator_field_def map_of_extend declared_rules_def split: option.splits)
qed (simp add: declared_rules_def)

lemma empty_iff_no_key: "m = [] \<longleftrightarrow> (\<forall>f. map_of m f = None)"
  using map_of_eq_empty_iff [of m] by (simp add: fun_eq_iff eq_commute)

text \<open>C29: a validator reports, for each field in the order of the field names, exactly the rules
  declared for it that fail, in the order they were declared, with their messages; it accepts
  exactly when none fails.\<close>

theorem validator_reports_every_failure:
  "case validator_validate reg (declare_fields calls data) of
     Inr _ \<Rightarrow> \<forall>f. failing reg data f (declared_rules calls f) = []
   | Inl errors \<Rightarrow> errors \<noteq> [] \<and> bt_wf errors \<and>
       (\<forall>f. validation_errors_get f errors =
          (let failures = failing reg data f (declared_rules calls f) in if failures = [] then None else Some failures))"
proof -
  let ?v = "declare_fields calls data"
  let ?errors = "fold (\<lambda>(field, rules) errors. fold (validate_rule reg ?v field) rules errors) (va_rules ?v) []"
  have wf0: "bt_wf (va_rules (validator_new data :: 'a validator))" by (simp add: validator_new_def)
  have d: "va_data ?v = data" and wf: "bt_wf (va_rules ?v)"
    using declare_fields_rules [OF wf0, of calls] by (simp_all add: declare_fields_def validator_new_def)
  have rules: "(case map_of (va_rules ?v) f of None \<Rightarrow> [] | Some rules \<Rightarrow> rules) = declared_rules calls f" for f
    using declare_fields_rules [OF wf0, of calls f] by (simp add: declare_fields_def validator_new_def)
  have "(case map_of (va_rules ?v) f of None \<Rightarrow> [] | Some rules \<Rightarrow> failing reg data f rules) = failing reg data f (declared_rules calls f)" for f
    using rules [of f] by (auto simp: failing_def split: option.splits)
  then have look: "map_of ?errors f = added None (failing reg data f (declared_rules calls f))" for f
    using validate_fields [OF bt_wf_distinct [OF wf], of reg ?v "[]" f, unfolded d] by simp
  have "?errors = [] \<longleftrightarrow> (\<forall>f. map_of ?errors f = None)"
    by (rule empty_iff_no_key)
  moreover have "bt_wf ?errors" by (rule validate_fields_wf) simp
  ultimately show ?thesis
    using look by (auto simp: validator_validate_def Let_def validation_errors_get_def added_def)
qed

section \<open>Messages\<close>

inductive registry_reached :: "message_registry \<Rightarrow> bool" where
  reached_default: "registry_reached registry_default"
| reached_set: "registry_reached reg \<Longrightarrow> registry_reached (set_locale l reg)"
| reached_register: "registry_reached reg \<Longrightarrow> registry_reached (register_locale l m reg)"
| reached_override: "registry_reached reg \<Longrightarrow> registry_reached (override_message l r t reg)"
| reached_invalid: "registry_reached reg \<Longrightarrow> registry_reached (override_invalid_message l t reg)"
| reached_name: "registry_reached reg \<Longrightarrow> registry_reached (register_field_name f d reg)"
| reached_names: "registry_reached reg \<Longrightarrow> registry_reached (register_field_names ps reg)"

lemma register_field_names_locales [simp]: "vr_locales (register_field_names ps reg) = vr_locales reg"
  by (induction ps arbitrary: reg) (auto simp: register_field_names_def register_field_name_def)

lemma builtin_stay: "registry_reached reg \<Longrightarrow> builtin_locale l \<noteq> None \<Longrightarrow> map_of (vr_locales reg) l \<noteq> None"
proof (induction rule: registry_reached.induct)
  case reached_default
  then show ?case
    by (auto simp: registry_default_def builtin_locale_def split: if_splits)
qed (auto simp: set_locale_def register_locale_def override_message_def override_invalid_message_def register_field_name_def)

lemma locale_entry_lookup:
  assumes "registry_reached reg"
  shows "messages_template r (locale_entry l reg) = Option.bind (map_of (vr_locales reg) l) (messages_template r)"
    and "vm_invalid (locale_entry l reg) = Option.bind (map_of (vr_locales reg) l) vm_invalid"
  using builtin_stay [OF assms, of l] by (auto simp: locale_entry_def messages_template_def messages_new_def split: option.splits)

lemma builtin_catalogs_complete: "builtin_locale l = Some m \<Longrightarrow> set (messages_rules m) = set BUILT_IN_RULES"
  by (auto simp: builtin_locale_def BUILT_IN_RULES_def messages_rules_def messages_rule_def messages_invalid_def messages_new_def
      keys_bt_insert en_template_def zh_cn_template_def split: if_splits)

text \<open>What a template becomes for a field.\<close>

definition rendered :: "message_registry \<Rightarrow> string \<Rightarrow> (string \<times> string) list \<Rightarrow> string \<Rightarrow> string" where
  "rendered reg field params template =
     fold (\<lambda>(name, v) rendered. str_replace (''{'' @ name @ ''}'') v rendered) params
       (str_replace ''{field}'' (field_display_name reg field) template)"

definition own_template :: "message_registry \<Rightarrow> string \<Rightarrow> string option" where
  "own_template reg rule = Option.bind (map_of (vr_locales reg) (vr_locale reg)) (messages_template rule)"

text \<open>After any history of the message registry, overriding the template of one rule in one
  locale changes exactly the message of that rule, and only where that locale is active or is
  the English one the active locale falls back to; every other message, and the message at the
  top of the response, stay as they were.\<close>

theorem override_changes_one_message:
  assumes "registry_reached reg"
  shows "rule_message (override_message l r t reg) rule field params =
      (if rule = r \<and> (l = vr_locale reg \<or> l = LOCALE_EN \<and> own_template reg r = None)
       then Some (rendered reg field params t) else rule_message reg rule field params)
    \<and> invalid_message (override_message l r t reg) = invalid_message reg"
proof -
  let ?reg = "override_message l r t reg"
  have same [simp]: "vr_locale ?reg = vr_locale reg" "field_display_name ?reg = field_display_name reg"
    by (simp_all add: override_message_def field_display_name_def fun_eq_iff)
  have look: "Option.bind (map_of (vr_locales ?reg) k) (messages_template rule) =
      (if k = l \<and> rule = r then Some t else Option.bind (map_of (vr_locales reg) k) (messages_template rule))" for k
    using locale_entry_lookup(1) [OF assms, of rule l]
    by (simp add: override_message_def messages_template_def messages_rule_def)
  have top: "Option.bind (map_of (vr_locales ?reg) k) vm_invalid = Option.bind (map_of (vr_locales reg) k) vm_invalid" for k
    using locale_entry_lookup(2) [OF assms, of l] by (simp add: override_message_def messages_rule_def)
  have "rule_template ?reg rule =
      (if rule = r \<and> (l = vr_locale reg \<or> l = LOCALE_EN \<and> own_template reg r = None) then Some t else rule_template reg rule)"
    by (auto simp: rule_template_def look own_template_def or_else_def split: option.splits)
  then show ?thesis
    by (auto simp: rule_message_def rendered_def invalid_message_def top Let_def split: option.splits)
qed

lemma str_replace_Cons:
  "pat \<noteq> [] \<Longrightarrow> str_replace pat to (c # s) =
    (if take (length pat) (c # s) = pat then to @ str_replace pat to (drop (length pat) (c # s)) else c # str_replace pat to s)"
  by (subst str_replace.simps) simp

text \<open>The application picks Chinese, names a field and rephrases one message.\<close>

definition demo_registry :: message_registry where
  "demo_registry = register_field_name ''email'' ''e-mail'' (set_locale LOCALE_ZH_CN registry_default)"

lemma demo_rendered:
  "rendered demo_registry ''email'' [(''min'', ''3'')] ''{field} needs {min}'' = ''e-mail needs 3''"
  by (simp add: rendered_def demo_registry_def field_display_name_def register_field_name_def str_replace_Cons)

theorem override_changes_one_message_witness:
  "rule_message (override_message LOCALE_ZH_CN ''min_length'' ''{field} needs {min}'' demo_registry) ''min_length'' ''email'' [(''min'', ''3'')]
     = Some ''e-mail needs 3''"
proof -
  have "registry_reached demo_registry" unfolding demo_registry_def by (intro registry_reached.intros)
  from override_changes_one_message [OF this, of LOCALE_ZH_CN "''min_length''" "''{field} needs {min}''" "''min_length''" "''email''" "[(''min'', ''3'')]"]
  show ?thesis
    using demo_rendered by (simp add: demo_registry_def register_field_name_def set_locale_def)
qed

end
