(* ===== verification/Migration.thy ===== *)
theory Migration
  imports Rust_Collections
begin

text \<open>
  Database migrations (\<open>phoenix-database\<close>, \<open>migration.rs\<close>): definitions and their checksums, the
  validation of a list, the comparison with the recorded state, and the runner in its three
  variants. The database is a state with the application's data, the table of applied
  migrations and the snapshot an open transaction would return to. The argument \<open>db_env\<close> says
  what a statement does to the data and whether it fails, what it does to the table and the
  transaction, what becomes of a transaction that is dropped, which advisory locks are granted,
  the time stamps, and SHA-256.
\<close>

section \<open>Values of the database package\<close>

datatype 'v db_value =
    DbBool bool | DbI8 int | DbI16 int | DbI32 int | DbI64 int | DbU8 u8 | DbU16 u16 | DbU32 u32 | DbU64 u64
  | DbF32 'v | DbF64 'v | DbString string | DbBytes 'v | DbUuid 'v | DbRecord "'v db_value list" | DbSparseRecord 'v
  | DbList "'v db_value list" | DbNull | DbOther 'v

section \<open>Definitions\<close>

datatype db_backend = SQLite | PostgreSQL | MySQL

record migration =
  mi_id :: string
  mi_name :: string
  mi_up :: "string list"
  mi_down :: "string list option"

record migration_status =
  mt_id :: string
  mt_name :: string
  mt_checksum :: string
  mt_batch :: int
  mt_applied_at :: string

datatype migration_error =
    InvalidDefinition string | DuplicateId string | InvalidOrder string | UnknownApplied string
  | ChecksumMismatch string string string | Irreversible string | LockUnavailable | InvalidStatusRow | DatabaseFailure string

definition migration_new :: "string \<Rightarrow> string \<Rightarrow> migration" where
  "migration_new i name = \<lparr>mi_id = i, mi_name = name, mi_up = [], mi_down = Some []\<rparr>"

definition migration_up :: "string \<Rightarrow> migration \<Rightarrow> migration" where
  "migration_up statement m = m\<lparr>mi_up := mi_up m @ [statement]\<rparr>"

definition migration_down :: "string \<Rightarrow> migration \<Rightarrow> migration" where
  "migration_down statement m =
     m\<lparr>mi_down := Some ((case mi_down m of None \<Rightarrow> [] | Some statements \<Rightarrow> statements) @ [statement])\<rparr>"

definition irreversible :: "migration \<Rightarrow> migration" where
  "irreversible m = m\<lparr>mi_down := None\<rparr>"

definition HEX :: string where
  "HEX = ''0123456789abcdef''"

definition hex_text :: "u8 list \<Rightarrow> string" where
  "hex_text bs = concat (map (\<lambda>b. [HEX ! unat (drop_bit 4 b), HEX ! unat (and b 0x0f)]) bs)"

text \<open>The bytes the digest is taken of.\<close>

definition NUL :: string where
  "NUL = [CHR 0x00]"

definition checksum_input :: "migration \<Rightarrow> string" where
  "checksum_input m =
     concat (map (\<lambda>part. part @ NUL) [mi_id m, mi_name m])
     @ concat (map (\<lambda>statement. ''up'' @ NUL @ statement @ NUL) (mi_up m))
     @ (case mi_down m of
          Some statements \<Rightarrow> concat (map (\<lambda>statement. ''down'' @ NUL @ statement @ NUL) statements)
        | None \<Rightarrow> ''irreversible'' @ NUL)"

definition checksum :: "(string \<Rightarrow> u8 list) \<Rightarrow> migration \<Rightarrow> string" where
  "checksum sha256 m = hex_text (sha256 (checksum_input m))"

section \<open>Validation\<close>

fun validate_loop :: "migration list \<Rightarrow> string option \<Rightarrow> string list \<Rightarrow> migration_error + unit" where
  "validate_loop [] previous ids = Inr ()"
| "validate_loop (m # ms) previous ids =
     (if trim_is_empty (mi_id m) \<or> trim_is_empty (mi_name m) then Inl (InvalidDefinition ''migration IDs and names must not be empty'')
      else if mi_up m = [] then Inl (InvalidDefinition (''migration `'' @ mi_id m @ ''` has no up statements''))
      else if mi_id m \<in> set ids then Inl (DuplicateId (mi_id m))
      else if (case previous of None \<Rightarrow> False | Some p \<Rightarrow> p \<ge> mi_id m) then Inl (InvalidOrder (mi_id m))
      else validate_loop ms (Some (mi_id m)) (mi_id m # ids))"

definition validate_migrations :: "migration list \<Rightarrow> migration_error + unit" where
  "validate_migrations ms = validate_loop ms None []"

text \<open>The last definition of an identifier, as \<open>collect\<close> into a map keeps it.\<close>

definition registered :: "migration list \<Rightarrow> string \<Rightarrow> migration option" where
  "registered ms i = map_of (rev (map (\<lambda>m. (mi_id m, m)) ms)) i"

fun verify_applied :: "(string \<Rightarrow> u8 list) \<Rightarrow> migration list \<Rightarrow> migration_status list \<Rightarrow> migration_error + unit" where
  "verify_applied sha256 ms [] = Inr ()"
| "verify_applied sha256 ms (status # applied) =
     (case registered ms (mt_id status) of
        None \<Rightarrow> Inl (UnknownApplied (mt_id status))
      | Some m \<Rightarrow>
          (let actual = checksum sha256 m
           in if mt_checksum status \<noteq> actual then Inl (ChecksumMismatch (mt_id status) (mt_checksum status) actual)
              else verify_applied sha256 ms applied))"

definition not_applied :: "migration list \<Rightarrow> migration_status list \<Rightarrow> migration list" where
  "not_applied ms applied = filter (\<lambda>m. mi_id m \<notin> mt_id ` set applied) ms"

definition next_batch :: "migration_status list \<Rightarrow> int" where
  "next_batch applied = min ((if applied = [] then 0 else Max (set (map mt_batch applied))) + 1) (2 ^ 63 - 1)"

definition pending :: "(string \<Rightarrow> u8 list) \<Rightarrow> migration list \<Rightarrow> migration_status list \<Rightarrow> migration_error + (migration list \<times> int)" where
  "pending sha256 ms applied =
     (case verify_applied sha256 ms applied of
        Inl e \<Rightarrow> Inl e
      | Inr _ \<Rightarrow> Inr (not_applied ms applied, next_batch applied))"

fun collect_registered :: "migration list \<Rightarrow> migration_status list \<Rightarrow> migration_error + migration list" where
  "collect_registered ms [] = Inr []"
| "collect_registered ms (status # rest) =
     (case registered ms (mt_id status) of
        None \<Rightarrow> Inl (UnknownApplied (mt_id status))
      | Some m \<Rightarrow> map_sum id (\<lambda>selected. m # selected) (collect_registered ms rest))"

definition rollback_selection :: "(string \<Rightarrow> u8 list) \<Rightarrow> migration list \<Rightarrow> migration_status list \<Rightarrow> nat \<Rightarrow> migration_error + migration list" where
  "rollback_selection sha256 ms applied steps =
     (case verify_applied sha256 ms applied of
        Inl e \<Rightarrow> Inl e
      | Inr _ \<Rightarrow> collect_registered ms (take steps (rev applied)))"

definition placeholders :: "db_backend \<Rightarrow> nat \<Rightarrow> string list" where
  "placeholders backend n =
     map (\<lambda>index. case backend of
         SQLite \<Rightarrow> ''?'' @ nat_to_string index
       | PostgreSQL \<Rightarrow> ''$'' @ nat_to_string index
       | MySQL \<Rightarrow> ''?'') [1..<n + 1]"

section \<open>The database\<close>

datatype sql =
    SqlStatement string | SqlCreateTable | SqlSelectStatus | SqlInsertStatus string string string int | SqlDeleteStatus string
  | SqlBegin | SqlCommit | SqlRollback | SqlTryLock | SqlUnlock

record 'd sql_db =
  db_data :: 'd
  db_table :: "migration_status list"
  db_saved :: "('d \<times> migration_status list) option"

record 'd db_env =
  de_run :: "sql \<Rightarrow> 'd \<Rightarrow> string option \<times> 'd"
  de_effect :: "sql \<Rightarrow> 'd sql_db \<Rightarrow> string + 'd sql_db"
  de_dropped :: "'d sql_db \<Rightarrow> 'd sql_db"
  de_granted :: "'d \<Rightarrow> bool"
  de_now :: "'d \<Rightarrow> string"
  de_sha256 :: "string \<Rightarrow> u8 list"

text \<open>A statement changes the data, or fails, and then has its effect on the state table and the transaction.\<close>

definition sql_exec :: "'d db_env \<Rightarrow> sql \<Rightarrow> ('d sql_db, migration_error, unit) op" where
  "sql_exec env stmt db =
     (case de_run env stmt (db_data db) of
        (Some e, d) \<Rightarrow> (Inl (DatabaseFailure e), db\<lparr>db_data := d\<rparr>)
      | (None, d) \<Rightarrow>
          (case de_effect env stmt (db\<lparr>db_data := d\<rparr>) of
             Inl e \<Rightarrow> (Inl (DatabaseFailure e), db\<lparr>db_data := d\<rparr>)
           | Inr db \<Rightarrow> (Inr (), db)))"

definition ensure_state_table :: "'d db_env \<Rightarrow> ('d sql_db, migration_error, unit) op" where
  "ensure_state_table env = sql_exec env SqlCreateTable"

definition status_row :: "migration_status \<Rightarrow> 'v db_value" where
  "status_row s = DbRecord [DbString (mt_id s), DbString (mt_name s), DbString (mt_checksum s), DbI64 (mt_batch s), DbString (mt_applied_at s)]"

definition string_value :: "'v db_value \<Rightarrow> migration_error + string" where
  "string_value v = (case v of DbString s \<Rightarrow> Inr s | _ \<Rightarrow> Inl InvalidStatusRow)"

definition integer_value :: "'v db_value \<Rightarrow> migration_error + int" where
  "integer_value v =
     (case v of
        DbI64 i \<Rightarrow> Inr i
      | DbU64 u \<Rightarrow> if uint u < 2 ^ 63 then Inr (uint u) else Inl InvalidStatusRow
      | _ \<Rightarrow> Inl InvalidStatusRow)"

definition parse_status :: "'v db_value \<Rightarrow> migration_error + migration_status" where
  "parse_status row =
     (case row of
        DbRecord [i, name, cks, batch, applied_at] \<Rightarrow>
          res_bind (string_value i) (\<lambda>i. res_bind (string_value name) (\<lambda>name. res_bind (string_value cks) (\<lambda>cks.
          res_bind (integer_value batch) (\<lambda>batch. res_bind (string_value applied_at) (\<lambda>applied_at.
          Inr \<lparr>mt_id = i, mt_name = name, mt_checksum = cks, mt_batch = batch, mt_applied_at = applied_at\<rparr>)))))
      | _ \<Rightarrow> Inl InvalidStatusRow)"

fun collect_rows :: "'v db_value list \<Rightarrow> migration_error + migration_status list" where
  "collect_rows [] = Inr []"
| "collect_rows (row # rows) = res_bind (parse_status row) (\<lambda>s. map_sum id (\<lambda>ss. s # ss) (collect_rows rows))"

text \<open>\<open>ORDER BY batch, id\<close>\<close>

definition load_status :: "'d db_env \<Rightarrow> ('d sql_db, migration_error, migration_status list) op" where
  "load_status env =
     op_bind (sql_exec env SqlSelectStatus) (\<lambda>_ db.
       (collect_rows (map status_row (sort_key (\<lambda>s. (mt_batch s, mt_id s)) (db_table db)) :: unit db_value list), db))"

section \<open>Applying and rolling back\<close>

fun run_statements :: "'d db_env \<Rightarrow> string list \<Rightarrow> ('d sql_db, migration_error, unit) op" where
  "run_statements env [] = op_return ()"
| "run_statements env (s # ss) = op_bind (sql_exec env (SqlStatement s)) (\<lambda>_. run_statements env ss)"

definition apply_up :: "'d db_env \<Rightarrow> migration \<Rightarrow> int \<Rightarrow> ('d sql_db, migration_error, unit) op" where
  "apply_up env m batch =
     op_bind (run_statements env (mi_up m)) (\<lambda>_.
     sql_exec env (SqlInsertStatus (mi_id m) (mi_name m) (checksum (de_sha256 env) m) batch))"

definition apply_down :: "'d db_env \<Rightarrow> migration \<Rightarrow> ('d sql_db, migration_error, unit) op" where
  "apply_down env m =
     (case mi_down m of
        Some (s # ss) \<Rightarrow>
          op_bind (run_statements env (rev (s # ss))) (\<lambda>_. sql_exec env (SqlDeleteStatus (mi_id m)))
      | _ \<Rightarrow> op_throw (Irreversible (mi_id m)))"

fun each :: "('a \<Rightarrow> ('s, 'e, unit) op) \<Rightarrow> 'a list \<Rightarrow> ('s, 'e, unit) op" where
  "each f [] = op_return ()"
| "each f (x # xs) = op_bind (f x) (\<lambda>_. each f xs)"

definition finish_sqlite_transaction :: "'d db_env \<Rightarrow> migration_error + nat \<Rightarrow> ('d sql_db, migration_error, nat) op" where
  "finish_sqlite_transaction env result =
     (case result of
        Inr n \<Rightarrow> op_bind (sql_exec env SqlCommit) (\<lambda>_. op_return n)
      | Inl e \<Rightarrow> (\<lambda>db. (Inl e, snd (sql_exec env SqlRollback db))))"

text \<open>The \<open>async\<close> block between the start and the end of the transaction, and its result.\<close>

definition up_body :: "'d db_env \<Rightarrow> migration list \<Rightarrow> (migration \<Rightarrow> int \<Rightarrow> ('d sql_db, migration_error, unit) op) \<Rightarrow> ('d sql_db, migration_error, nat) op" where
  "up_body env ms step =
     op_bind (load_status env) (\<lambda>applied.
     op_bind (op_lift (pending (de_sha256 env) ms applied)) (\<lambda>(todo, batch).
     op_bind (each (\<lambda>m. step m batch) todo) (\<lambda>_. op_return (length todo))))"

definition down_body :: "'d db_env \<Rightarrow> migration list \<Rightarrow> nat \<Rightarrow> (migration \<Rightarrow> ('d sql_db, migration_error, unit) op) \<Rightarrow> ('d sql_db, migration_error, nat) op" where
  "down_body env ms steps step =
     op_bind (load_status env) (\<lambda>applied.
     op_bind (op_lift (rollback_selection (de_sha256 env) ms applied steps)) (\<lambda>selected.
     op_bind (each step selected) (\<lambda>_. op_return (length selected))))"

definition up_sqlite :: "'d db_env \<Rightarrow> migration list \<Rightarrow> ('d sql_db, migration_error, nat) op" where
  "up_sqlite env ms =
     op_bind (sql_exec env SqlBegin) (\<lambda>_ db.
       case up_body env ms (apply_up env) db of (result, db) \<Rightarrow> finish_sqlite_transaction env result db)"

definition down_sqlite :: "'d db_env \<Rightarrow> migration list \<Rightarrow> nat \<Rightarrow> ('d sql_db, migration_error, nat) op" where
  "down_sqlite env ms steps =
     op_bind (sql_exec env SqlBegin) (\<lambda>_ db.
       case down_body env ms steps (apply_down env) db of (result, db) \<Rightarrow> finish_sqlite_transaction env result db)"

text \<open>A transaction of the database package, which is dropped when it is not committed.\<close>

definition in_transaction :: "'d db_env \<Rightarrow> ('d sql_db, migration_error, unit) op \<Rightarrow> ('d sql_db, migration_error, unit) op" where
  "in_transaction env body =
     op_bind (sql_exec env SqlBegin) (\<lambda>_ db.
       case op_bind body (\<lambda>_. sql_exec env SqlCommit) db of
         (Inr _, db) \<Rightarrow> (Inr (), db)
       | (Inl e, db) \<Rightarrow> (Inl e, de_dropped env db))"

definition acquire_lock :: "'d db_env \<Rightarrow> ('d sql_db, migration_error, unit) op" where
  "acquire_lock env =
     op_bind (sql_exec env SqlTryLock) (\<lambda>_ db. (if de_granted env (db_data db) then Inr () else Inl LockUnavailable, db))"

definition release_lock :: "'d db_env \<Rightarrow> 'd sql_db \<Rightarrow> 'd sql_db" where
  "release_lock env db = snd (sql_exec env SqlUnlock db)"

definition up_locked :: "'d db_env \<Rightarrow> migration list \<Rightarrow> ('d sql_db, migration_error, nat) op" where
  "up_locked env ms =
     op_bind (acquire_lock env) (\<lambda>_ db.
       case up_body env ms (\<lambda>m batch. in_transaction env (apply_up env m batch)) db of (result, db) \<Rightarrow> (result, release_lock env db))"

definition down_locked :: "'d db_env \<Rightarrow> migration list \<Rightarrow> nat \<Rightarrow> ('d sql_db, migration_error, nat) op" where
  "down_locked env ms steps =
     op_bind (acquire_lock env) (\<lambda>_ db.
       case down_body env ms steps (\<lambda>m. in_transaction env (apply_down env m)) db of (result, db) \<Rightarrow> (result, release_lock env db))"

section \<open>The runner\<close>

record migration_runner =
  mr_backend :: db_backend
  mr_migrations :: "migration list"

definition migration_runner_new :: "db_backend \<Rightarrow> migration list \<Rightarrow> migration_error + migration_runner" where
  "migration_runner_new backend ms =
     (case validate_migrations ms of Inl e \<Rightarrow> Inl e | Inr _ \<Rightarrow> Inr \<lparr>mr_backend = backend, mr_migrations = ms\<rparr>)"

definition runner_status :: "'d db_env \<Rightarrow> ('d sql_db, migration_error, migration_status list) op" where
  "runner_status env = op_bind (ensure_state_table env) (\<lambda>_. load_status env)"

record migration_plan =
  pl_pending :: "string list"
  pl_applied :: "migration_status list"

definition runner_plan :: "'d db_env \<Rightarrow> migration_runner \<Rightarrow> ('d sql_db, migration_error, migration_plan) op" where
  "runner_plan env r =
     op_bind (runner_status env) (\<lambda>applied.
     op_bind (op_lift (verify_applied (de_sha256 env) (mr_migrations r) applied)) (\<lambda>_.
     op_return \<lparr>pl_pending = map mi_id (not_applied (mr_migrations r) applied), pl_applied = applied\<rparr>))"

definition runner_up :: "'d db_env \<Rightarrow> migration_runner \<Rightarrow> ('d sql_db, migration_error, nat) op" where
  "runner_up env r =
     op_bind (ensure_state_table env) (\<lambda>_.
     case mr_backend r of SQLite \<Rightarrow> up_sqlite env (mr_migrations r) | _ \<Rightarrow> up_locked env (mr_migrations r))"

definition runner_down :: "'d db_env \<Rightarrow> migration_runner \<Rightarrow> nat \<Rightarrow> ('d sql_db, migration_error, nat) op" where
  "runner_down env r steps =
     (if steps = 0 then op_return 0
      else
        op_bind (ensure_state_table env) (\<lambda>_.
        case mr_backend r of SQLite \<Rightarrow> down_sqlite env (mr_migrations r) steps | _ \<Rightarrow> down_locked env (mr_migrations r) steps))"

end
