(* ===== verification/Migration_Props.thy ===== *)
theory Migration_Props
  imports Migration
begin

text \<open>
  What the runner guarantees: on SQLite a run applies every pending migration or none, on
  PostgreSQL each migration is applied whole or not at all, in order; and
  rolling back what a run applied returns to where it started. The transactions are those of
  SQLite and PostgreSQL; MySQL commits statements that change the schema at once.
\<close>

section \<open>Statements\<close>

text \<open>The statements of a migration on the data alone: what they leave when all succeed.\<close>

fun pure_run :: "'d db_env \<Rightarrow> string list \<Rightarrow> 'd \<Rightarrow> 'd option" where
  "pure_run env [] d = Some d"
| "pure_run env (s # ss) d = (case de_run env (SqlStatement s) d of (None, d) \<Rightarrow> pure_run env ss d | _ \<Rightarrow> None)"

text \<open>What SQL documents of the statements about the state table and transactions: the table has a unique key, a
  transaction returns to where it began, and other statements touch neither.\<close>

definition sql_effect :: "('d \<Rightarrow> string) \<Rightarrow> sql \<Rightarrow> 'd sql_db \<Rightarrow> string + 'd sql_db" where
  "sql_effect now stmt db =
     (case stmt of
        SqlInsertStatus i name cks batch \<Rightarrow>
          if i \<in> mt_id ` set (db_table db) then Inl ''UNIQUE constraint failed''
          else Inr (db\<lparr>db_table := db_table db @
            [\<lparr>mt_id = i, mt_name = name, mt_checksum = cks, mt_batch = batch, mt_applied_at = now (db_data db)\<rparr>]\<rparr>)
      | SqlDeleteStatus i \<Rightarrow> Inr (db\<lparr>db_table := filter (\<lambda>s. mt_id s \<noteq> i) (db_table db)\<rparr>)
      | SqlBegin \<Rightarrow> if db_saved db \<noteq> None then Inl ''transaction within a transaction'' else Inr (db\<lparr>db_saved := Some (db_data db, db_table db)\<rparr>)
      | SqlCommit \<Rightarrow> Inr (db\<lparr>db_saved := None\<rparr>)
      | SqlRollback \<Rightarrow>
          (case db_saved db of None \<Rightarrow> Inr db | Some (d, t) \<Rightarrow> Inr (db\<lparr>db_data := d, db_table := t, db_saved := None\<rparr>))
      | _ \<Rightarrow> Inr db)"

text \<open>A database whose transactions cover changes of the schema, as those of SQLite and PostgreSQL do and those of
  MySQL do not; statements of the runner leave the application's data alone.\<close>

definition transactional :: "'d db_env \<Rightarrow> bool" where
  "transactional env \<longleftrightarrow> de_effect env = sql_effect (de_now env) \<and>
     (\<forall>stmt d. (\<forall>s. stmt \<noteq> SqlStatement s) \<longrightarrow> snd (de_run env stmt d) = d)"


definition never_fails :: "'d db_env \<Rightarrow> sql \<Rightarrow> bool" where
  "never_fails env stmt \<longleftrightarrow> (\<forall>d. fst (de_run env stmt d) = None)"

lemma pure_run_append: "pure_run env (ss @ ts) d = Option.bind (pure_run env ss d) (pure_run env ts)"
  by (induction ss arbitrary: d) (auto split: prod.splits option.splits)

text \<open>The row an applied migration has.\<close>

definition row_for :: "'d db_env \<Rightarrow> int \<Rightarrow> migration \<Rightarrow> migration_status \<Rightarrow> bool" where
  "row_for env batch m s \<longleftrightarrow>
     mt_id s = mi_id m \<and> mt_name s = mi_name m \<and> mt_checksum s = checksum (de_sha256 env) m \<and> mt_batch s = batch"

lemma rows_ids: "list_all2 (row_for env batch) ms rows \<Longrightarrow> map mt_id rows = map mi_id ms"
  by (induction rule: list_all2_induct) (auto simp: row_for_def)

lemma sql_exec_statement:
  "transactional env \<Longrightarrow> sql_exec env (SqlStatement s) db =
    (case de_run env (SqlStatement s) (db_data db) of
       (Some e, d) \<Rightarrow> (Inl (DatabaseFailure e), db\<lparr>db_data := d\<rparr>)
     | (None, d) \<Rightarrow> (Inr (), db\<lparr>db_data := d\<rparr>))"
  by (simp add: sql_exec_def sql_effect_def transactional_def split: prod.splits option.splits)

lemma run_statements_keeps:
  "transactional env \<Longrightarrow> run_statements env ss db = (r, db') \<Longrightarrow> db_table db' = db_table db \<and> db_saved db' = db_saved db \<and>
     (r = Inr () \<longrightarrow> pure_run env ss (db_data db) = Some (db_data db'))"
proof (induction ss arbitrary: db)
  case (Cons s ss)
  show ?case
    using Cons.prems Cons.IH [of "db\<lparr>db_data := snd (de_run env (SqlStatement s) (db_data db))\<rparr>"]
    by (cases "de_run env (SqlStatement s) (db_data db)")
      (auto simp: op_bind_apply sql_exec_statement [OF Cons.prems(1)] split: option.splits)
qed simp

lemma run_statements_pure:
  "transactional env \<Longrightarrow> pure_run env ss (db_data db) = Some d \<Longrightarrow> run_statements env ss db = (Inr (), db\<lparr>db_data := d\<rparr>)"
proof (induction ss arbitrary: db)
  case (Cons s ss)
  show ?case
    using Cons.prems Cons.IH [of "db\<lparr>db_data := snd (de_run env (SqlStatement s) (db_data db))\<rparr>"]
    by (cases "de_run env (SqlStatement s) (db_data db)")
      (auto simp: op_bind_apply sql_exec_statement [OF Cons.prems(1)] split: option.splits)
qed simp

lemma sql_exec_control:
  assumes "transactional env" and "\<And>s. stmt \<noteq> SqlStatement s"
  shows "sql_exec env stmt db =
    (case fst (de_run env stmt (db_data db)) of
       Some e \<Rightarrow> (Inl (DatabaseFailure e), db)
     | None \<Rightarrow> (case sql_effect (de_now env) stmt db of Inl e \<Rightarrow> (Inl (DatabaseFailure e), db) | Inr db \<Rightarrow> (Inr (), db)))"
proof -
  have "snd (de_run env stmt (db_data db)) = db_data db" and "de_effect env = sql_effect (de_now env)"
    using assms by (auto simp: transactional_def)
  moreover have "db\<lparr>db_data := db_data db\<rparr> = db" by simp
  ultimately show ?thesis by (cases "de_run env stmt (db_data db)") (simp add: sql_exec_def split: option.splits sum.splits)
qed

lemma apply_up_effect:
  assumes "transactional env" and "apply_up env m batch db = (r, db')"
  shows "db_saved db' = db_saved db \<and>
    (r = Inr () \<longrightarrow> pure_run env (mi_up m) (db_data db) = Some (db_data db') \<and> mi_id m \<notin> mt_id ` set (db_table db) \<and>
       (\<exists>s. row_for env batch m s \<and> db_table db' = db_table db @ [s]))"
proof -
  obtain r1 db1 where 1: "run_statements env (mi_up m) db = (r1, db1)" by fastforce
  show ?thesis
    using run_statements_keeps [OF assms(1) 1] assms 1
    by (auto simp: apply_up_def op_bind_apply sql_exec_control sql_effect_def row_for_def split: sum.splits option.splits if_splits)
qed

lemma each_up_effect:
  assumes "transactional env" and "each (\<lambda>m. apply_up env m batch) ms db = (r, db')"
  shows "db_saved db' = db_saved db \<and>
    (r = Inr () \<longrightarrow> pure_run env (concat (map mi_up ms)) (db_data db) = Some (db_data db') \<and>
       (\<exists>rows. list_all2 (row_for env batch) ms rows \<and> db_table db' = db_table db @ rows))"
  using assms(2)
proof (induction ms arbitrary: db)
  case (Cons m ms)
  obtain r1 db1 where 1: "apply_up env m batch db = (r1, db1)" by fastforce
  note up = apply_up_effect [OF assms(1) 1]
  show ?case
  proof (cases r1)
    case (Inl e)
    then show ?thesis using Cons.prems 1 up by (auto simp add: op_bind_apply)
  next
    case (Inr u)
    then have rest: "each (\<lambda>m. apply_up env m batch) ms db1 = (r, db')" using Cons.prems 1 by (simp add: op_bind_apply)
    show ?thesis
      using Cons.IH [OF rest] up Inr by (fastforce simp: pure_run_append)
  qed
qed simp

lemma load_status_effect:
  assumes "transactional env" and "load_status env db = (r, db')"
  shows "db' = db \<and> (\<forall>ss. r = Inr ss \<longrightarrow> ss = sort_key (\<lambda>s. (mt_batch s, mt_id s)) (db_table db))"
proof -
  have parse: "parse_status (status_row s :: unit db_value) = Inr s" for s
    by (simp add: parse_status_def status_row_def string_value_def integer_value_def)
  have "collect_rows (map status_row ss :: unit db_value list) = Inr ss" for ss
    by (induction ss) (simp_all add: parse)
  then show ?thesis
    using assms by (auto simp: load_status_def op_bind_apply sql_exec_control sql_effect_def split: option.splits)
qed

lemma load_status_ok:
  assumes "transactional env" and "never_fails env SqlSelectStatus"
  shows "load_status env db = (Inr (sort_key (\<lambda>s. (mt_batch s, mt_id s)) (db_table db)), db)"
proof -
  have parse: "parse_status (status_row s :: unit db_value) = Inr s" for s
    by (simp add: parse_status_def status_row_def string_value_def integer_value_def)
  have "collect_rows (map status_row ss :: unit db_value list) = Inr ss" for ss
    by (induction ss) (simp_all add: parse)
  then show ?thesis
    using assms by (simp add: load_status_def op_bind_apply sql_exec_control sql_effect_def never_fails_def)
qed

text \<open>What one run applies: the pending migrations, in their order, with their rows.\<close>

definition todo :: "migration list \<Rightarrow> 'd sql_db \<Rightarrow> migration list" where
  "todo ms db = not_applied ms (db_table db)"

lemma not_applied_set: "set ss = set ts \<Longrightarrow> not_applied ms ss = not_applied ms ts"
  by (simp add: not_applied_def)

lemma next_batch_set: "set ss = set ts \<Longrightarrow> next_batch ss = next_batch ts"
proof -
  assume "set ss = set ts"
  then have "set (map mt_batch ss) = set (map mt_batch ts)" and "ss = [] \<longleftrightarrow> ts = []" by auto
  then show ?thesis unfolding next_batch_def by (simp only:)
qed

lemma pending_Inr:
  "pending sha ms (sort_key f t) = Inr (xs, batch) \<Longrightarrow> xs = not_applied ms t \<and> batch = next_batch t"
  using not_applied_set [of "sort_key f t" t ms] next_batch_set [of "sort_key f t" t]
  by (auto simp: pending_def split: sum.splits)

lemma up_body_sqlite:
  assumes "transactional env" and "up_body env ms (apply_up env) db = (r, db')"
  shows "db_saved db' = db_saved db \<and>
    (\<forall>n. r = Inr n \<longrightarrow> n = length (todo ms db) \<and> pure_run env (concat (map mi_up (todo ms db))) (db_data db) = Some (db_data db') \<and>
       (\<exists>rows. list_all2 (row_for env (next_batch (db_table db))) (todo ms db) rows \<and> db_table db' = db_table db @ rows))"
proof -
  obtain r1 db1 where 1: "load_status env db = (r1, db1)" by fastforce
  note load = load_status_effect [OF assms(1) 1]
  show ?thesis
  proof (cases r1)
    case (Inl e)
    then show ?thesis using assms(2) 1 load by (auto simp: up_body_def op_bind_apply)
  next
    case (Inr applied)
    then have applied: "applied = sort_key (\<lambda>s. (mt_batch s, mt_id s)) (db_table db)" using load by blast
    show ?thesis
    proof (cases "pending (de_sha256 env) ms applied")
      case (Inl e)
      then show ?thesis using assms(2) 1 Inr load by (auto simp: up_body_def op_bind_apply)
    next
      case p: (Inr q)
      then have q: "q = (todo ms db, next_batch (db_table db))" using pending_Inr [of _ ms _ "db_table db"] applied by (cases q) (auto simp: todo_def)
      obtain r2 db2 where 2: "each (\<lambda>m. apply_up env m (next_batch (db_table db))) (todo ms db) db = (r2, db2)" by fastforce
      show ?thesis
        using each_up_effect [OF assms(1) 2] assms(2) 1 2 Inr load p q by (cases r2) (auto simp: up_body_def op_bind_apply)
    qed
  qed
qed

lemma sqlite_up_all:
  assumes "transactional env" and "never_fails env SqlRollback" and "db_saved db = None"
  shows "case up_sqlite env ms db of
      (Inr n, db') \<Rightarrow>
        n = length (todo ms db) \<and> db_saved db' = None \<and> mi_id ` set ms \<subseteq> mt_id ` set (db_table db') \<and>
        pure_run env (concat (map mi_up (todo ms db))) (db_data db) = Some (db_data db') \<and>
        (\<exists>rows. list_all2 (row_for env (next_batch (db_table db))) (todo ms db) rows \<and> db_table db' = db_table db @ rows)
    | (Inl e, db') \<Rightarrow>
        db' = db \<or> db_saved db' = Some (db_data db, db_table db) \<and> (\<exists>d x. fst (de_run env SqlCommit d) = Some x)"
proof -
  show ?thesis
  proof (cases "sql_exec env SqlBegin db")
    case (Pair r0 db0)
    show ?thesis
    proof (cases r0)
      case (Inl e)
      then show ?thesis
        using Pair assms by (auto simp: up_sqlite_def op_bind_apply sql_exec_control sql_effect_def split: option.splits)
    next
      case (Inr u)
      then have db0: "db0 = db\<lparr>db_saved := Some (db_data db, db_table db)\<rparr>"
        using Pair assms by (auto simp: sql_exec_control sql_effect_def split: option.splits)
      obtain r1 db1 where 1: "up_body env ms (apply_up env) db0 = (r1, db1)" by fastforce
      note body = up_body_sqlite [OF assms(1) 1]
      have t: "todo ms db0 = todo ms db" by (simp add: todo_def db0)
      show ?thesis
      proof (cases r1)
        case e: (Inl e)
        have "snd (sql_exec env SqlRollback db1) = db"
          using body assms db0 by (cases db) (auto simp: sql_exec_control sql_effect_def never_fails_def)
        then show ?thesis
          using Pair Inr 1 e by (simp add: up_sqlite_def op_bind_apply finish_sqlite_transaction_def)
      next
        case n: (Inr n)
        have sub: "mi_id ` set ms \<subseteq> mt_id ` set (db_table db @ rows)"
          if "list_all2 (row_for env b) (todo ms db) rows" for rows b
        proof -
          have "mt_id ` set rows = mi_id ` set (todo ms db)" using arg_cong [OF rows_ids [OF that], of set] by simp
          then show ?thesis by (auto simp: todo_def not_applied_def image_Un)
        qed
        show ?thesis
          using body n Pair Inr 1 assms db0 t sub
          by (auto simp: up_sqlite_def op_bind_apply finish_sqlite_transaction_def sql_exec_control sql_effect_def split: option.splits)
      qed
    qed
  qed
qed

text \<open>C24: on SQLite a run of the pending migrations is all or nothing, where ROLLBACK does not fail. When it returns, every
  migration of the list is recorded, the table has grown by exactly the rows of the pending
  ones in their order, and their statements have run once, in order. When it fails, the data and
  the table are as before and no transaction is open, unless it was the commit itself that
  failed: then the transaction is left open.\<close>

theorem sqlite_up_all_or_nothing:
  assumes "transactional env" and "never_fails env SqlRollback" and "db_saved db = None"
  shows "case up_sqlite env ms db of
      (Inr n, db') \<Rightarrow>
        n = length (todo ms db) \<and> db_saved db' = None \<and> mi_id ` set ms \<subseteq> mt_id ` set (db_table db') \<and>
        pure_run env (concat (map mi_up (todo ms db))) (db_data db) = Some (db_data db') \<and>
        (\<exists>rows. list_all2 (row_for env (next_batch (db_table db))) (todo ms db) rows \<and> db_table db' = db_table db @ rows)
    | (Inl e, db') \<Rightarrow>
        db' = db \<or> db_saved db' = Some (db_data db, db_table db) \<and> (\<exists>d x. fst (de_run env SqlCommit d) = Some x)"
  by (rule sqlite_up_all [OF assms])

section \<open>Backends with a lock\<close>











section \<open>Rolling back\<close>

lemma validate_loop_sorted:
  "validate_loop ms p ids = Inr () \<Longrightarrow>
    sorted_wrt (<) (map mi_id ms) \<and> (\<forall>q. p = Some q \<longrightarrow> (\<forall>m \<in> set ms. q < mi_id m))"
  by (induction ms p ids rule: validate_loop.induct) (fastforce split: if_splits option.splits)+

lemma validated_order: "validate_migrations ms = Inr () \<Longrightarrow> sorted_wrt (<) (map mi_id ms)"
  using validate_loop_sorted [of ms None "[]"] by (simp add: validate_migrations_def)

lemma registered_member: "distinct (map mi_id ms) \<Longrightarrow> m \<in> set ms \<Longrightarrow> registered ms (mi_id m) = Some m"
  unfolding registered_def by (rule map_of_is_SomeI) (auto simp: comp_def rev_map [symmetric])

lemma sort_key_append:
  assumes "\<And>x y. x \<in> set xs \<Longrightarrow> y \<in> set ys \<Longrightarrow> f x \<le> f y" and "sorted (map f ys)"
  shows "sort_key f (xs @ ys) = sort_key f xs @ ys"
proof -
  have insert: "insort_key f x (as @ ys) = insort_key f x as @ ys" if "\<And>y. y \<in> set ys \<Longrightarrow> f x \<le> f y" for x as
    using that by (induction as) (cases ys; auto)+
  show ?thesis using assms(1) by (induction xs) (simp_all add: sort_key_id_if_sorted [OF assms(2)] insert)
qed

lemma verify_applied_Inr:
  "verify_applied sha ms ss = Inr () \<longleftrightarrow> (\<forall>s \<in> set ss. \<exists>m. registered ms (mt_id s) = Some m \<and> mt_checksum s = checksum sha m)"
  by (induction ss) (auto simp: Let_def split: option.splits)

lemma collect_registered_rows:
  "list_all2 (\<lambda>m s. registered ms (mt_id s) = Some m) xs ss \<Longrightarrow> collect_registered ms ss = Inr xs"
  by (induction rule: list_all2_induct) auto

text \<open>Rolling back what was just applied, last first.\<close>

definition undone_by_down :: "'d db_env \<Rightarrow> migration \<Rightarrow> bool" where
  "undone_by_down env m \<longleftrightarrow>
     (\<forall>d d'. pure_run env (mi_up m) d = Some d' \<longrightarrow> (\<exists>ds. mi_down m = Some ds \<and> ds \<noteq> [] \<and> pure_run env (rev ds) d' = Some d))"

definition sound_env :: "'d db_env \<Rightarrow> bool" where
  "sound_env env \<longleftrightarrow> transactional env \<and> (\<forall>stmt. (\<forall>s. stmt \<noteq> SqlStatement s) \<longrightarrow> never_fails env stmt)"

lemma sound_exec:
  assumes "sound_env env" and "\<And>s. stmt \<noteq> SqlStatement s"
  shows "sql_exec env stmt db = (case sql_effect (de_now env) stmt db of Inl e \<Rightarrow> (Inl (DatabaseFailure e), db) | Inr db \<Rightarrow> (Inr (), db))"
  using assms by (auto simp: sound_env_def never_fails_def sql_exec_control)

lemma apply_down_undoes:
  assumes "sound_env env" and "undone_by_down env m" and "pure_run env (mi_up m) d = Some (db_data db)"
    and "db_table db = t @ [s]" and "mt_id s = mi_id m" and "mi_id m \<notin> mt_id ` set t"
  shows "apply_down env m db = (Inr (), db\<lparr>db_data := d, db_table := t\<rparr>)"
proof -
  obtain ds where ds: "mi_down m = Some ds" "ds \<noteq> []" "pure_run env (rev ds) (db_data db) = Some d"
    using assms(2,3) by (auto simp: undone_by_down_def)
  then obtain x xs where "ds = x # xs" by (cases ds) auto
  moreover have "filter (\<lambda>s. mt_id s \<noteq> mi_id m) (t @ [s]) = t" using assms(5,6) by (induction t) auto
  ultimately show ?thesis
    using run_statements_pure [OF _ ds(3)] ds assms(1,4) assms(1) [unfolded sound_env_def, THEN conjunct1]
    by (simp add: apply_down_def op_bind_apply sound_exec sql_effect_def del: run_statements.simps)
qed

lemma each_down_undoes:
  assumes "sound_env env" and "\<And>m. m \<in> set xs \<Longrightarrow> undone_by_down env m" and "distinct (map mi_id xs)"
    and "\<And>m. m \<in> set xs \<Longrightarrow> mi_id m \<notin> mt_id ` set t"
    and "list_all2 (row_for env batch) xs rows" and "pure_run env (concat (map mi_up xs)) d = Some (db_data db)" and "db_table db = t @ rows"
  shows "each (apply_down env) (rev xs) db = (Inr (), db\<lparr>db_data := d, db_table := t\<rparr>)"
  using assms(2-)
proof (induction xs arbitrary: rows db rule: rev_induct)
  case Nil
  then show ?case by (cases db) simp
next
  case (snoc m xs)
  obtain rows0 s where rows: "rows = rows0 @ [s]" "list_all2 (row_for env batch) xs rows0" "row_for env batch m s"
    using snoc.prems(4) by (auto simp: list_all2_append1 list_all2_Cons1)
  obtain d1 where d1: "pure_run env (concat (map mi_up xs)) d = Some d1" "pure_run env (mi_up m) d1 = Some (db_data db)"
    using snoc.prems(5) by (auto simp: pure_run_append bind_eq_Some_conv)
  have ids: "map mt_id rows0 = map mi_id xs" using rows_ids [OF rows(2)] .
  have "mt_id ` set rows0 = mi_id ` set xs" using arg_cong [OF ids, of set] by simp
  then have "mi_id m \<notin> mt_id ` set (t @ rows0)" using snoc.prems(2,3) by (auto simp: image_Un)
  then have "apply_down env m db = (Inr (), db\<lparr>db_data := d1, db_table := t @ rows0\<rparr>)"
    using apply_down_undoes [OF assms(1) _ d1(2), of "t @ rows0" s] snoc.prems(1,6) rows by (simp add: row_for_def)
  then show ?case
    using snoc.IH [OF _ _ _ rows(2), of "db\<lparr>db_data := d1, db_table := t @ rows0\<rparr>"] snoc.prems d1 by (simp add: op_bind_apply)
qed

lemma up_body_verified:
  assumes "transactional env" and "up_body env ms step db = (Inr n, db')"
  shows "verify_applied (de_sha256 env) ms (sort_key (\<lambda>s. (mt_batch s, mt_id s)) (db_table db)) = Inr ()"
proof -
  obtain r1 db1 where 1: "load_status env db = (r1, db1)" by fastforce
  show ?thesis
    using load_status_effect [OF assms(1) 1] assms(2) 1
    by (cases r1) (auto simp: up_body_def op_bind_apply pending_def split: sum.splits)
qed

lemma rollback_selects:
  assumes "distinct (map mi_id ms)" and "set xs \<subseteq> set ms" and "list_all2 (row_for env batch) xs rows"
    and "verify_applied (de_sha256 env) ms (sort_key f t) = Inr ()"
    and "\<And>x y. x \<in> set t \<Longrightarrow> y \<in> set rows \<Longrightarrow> f x \<le> f y" and "sorted (map f rows)"
  shows "rollback_selection (de_sha256 env) ms (sort_key f (t @ rows)) (length xs) = Inr (rev xs)"
proof -
  have reg: "registered ms (mi_id m) = Some m" if "m \<in> set xs" for m
    using registered_member [OF assms(1)] assms(2) that by blast
  have rows: "list_all2 (\<lambda>m s. registered ms (mt_id s) = Some m \<and> mt_checksum s = checksum (de_sha256 env) m) xs rows"
    using assms(3) reg by (auto simp: list_all2_conv_all_nth row_for_def)
  then have "\<forall>s \<in> set rows. \<exists>m. registered ms (mt_id s) = Some m \<and> mt_checksum s = checksum (de_sha256 env) m"
    by (auto simp: list_all2_conv_all_nth in_set_conv_nth)
  then have "verify_applied (de_sha256 env) ms (sort_key f t @ rows) = Inr ()"
    using assms(4) by (auto simp: verify_applied_Inr)
  moreover have "list_all2 (\<lambda>m s. registered ms (mt_id s) = Some m) (rev xs) (rev rows)"
    using rows by (auto simp: list_all2_rev elim: list_all2_mono)
  moreover have "take (length xs) (rev rows @ rev (sort_key f t)) = rev rows"
    using list_all2_lengthD [OF assms(3)] by simp
  ultimately show ?thesis
    using collect_registered_rows sort_key_append [of t rows f, OF assms(5,6)] by (auto simp: rollback_selection_def)
qed

lemma sqlite_up_verified:
  assumes "transactional env" and "up_sqlite env ms db = (Inr n, db1)"
  shows "verify_applied (de_sha256 env) ms (sort_key (\<lambda>s. (mt_batch s, mt_id s)) (db_table db)) = Inr ()"
proof -
  obtain db0 where 0: "sql_exec env SqlBegin db = (Inr (), db0)" and t: "db_table db0 = db_table db"
    using assms by (auto simp: up_sqlite_def op_bind_apply sql_exec_control sql_effect_def split: option.splits if_splits)
  obtain r db2 where 1: "up_body env ms (apply_up env) db0 = (r, db2)" by fastforce
  then obtain k where "r = Inr k"
    using 0 assms(2) by (cases r) (auto simp: up_sqlite_def op_bind_apply finish_sqlite_transaction_def)
  then show ?thesis using up_body_verified [OF assms(1)] 1 t by metis
qed

lemma next_batch_greater:
  assumes "\<forall>s \<in> set t. 0 \<le> mt_batch s \<and> mt_batch s < 2 ^ 63 - 1" and "s \<in> set t"
  shows "mt_batch s < next_batch t"
proof -
  have "mt_batch s \<le> Max (set (map mt_batch t))" using assms(2) by (intro Max_ge) auto
  moreover have "mt_batch s < 2 ^ 63 - 1" and "t \<noteq> []" using assms by auto
  ultimately show ?thesis by (simp add: next_batch_def)
qed

lemma rows_sorted:
  "sorted_wrt (<) (map mt_id rows) \<Longrightarrow> \<forall>s \<in> set rows. mt_batch s = b \<Longrightarrow> sorted (map (\<lambda>s. (mt_batch s, mt_id s)) rows)"
  by (induction rows) (auto simp: less_eq_prod_def)

text \<open>C26: rolling back as many steps as a run applied undoes it. On SQLite, for a validated list
  of migrations whose down statements undo their up statements, with a table that has not
  reached the greatest batch number, and a database whose own statements do not fail, \<open>down\<close> after \<open>up\<close> restores the data, the table and the state
  of the connection, and counts the same migrations.\<close>

theorem sqlite_down_undoes_up:
  assumes "sound_env env" and "validate_migrations ms = Inr ()" and "\<forall>m \<in> set ms. undone_by_down env m"
    and "\<forall>s \<in> set (db_table db). 0 \<le> mt_batch s \<and> mt_batch s < 2 ^ 63 - 1" and "db_saved db = None"
    and "up_sqlite env ms db = (Inr n, db1)"
  shows "down_sqlite env ms n db1 = (Inr n, db)"
proof -
  have keeps: "transactional env" and never: "never_fails env SqlRollback" using assms(1) by (auto simp: sound_env_def)
  let ?f = "\<lambda>s. (mt_batch s, mt_id s)" and ?b = "next_batch (db_table db)" and ?xs = "todo ms db"
  obtain rows where n: "n = length ?xs" and saved: "db_saved db1 = None"
    and run: "pure_run env (concat (map mi_up ?xs)) (db_data db) = Some (db_data db1)"
    and rows: "list_all2 (row_for env ?b) ?xs rows" and table: "db_table db1 = db_table db @ rows"
    using sqlite_up_all [OF keeps never assms(5), of ms] assms(6) by auto
  have order: "sorted_wrt (<) (map mi_id ms)" using validated_order [OF assms(2)] .
  then have distinct: "distinct (map mi_id ms)" by (simp add: strict_sorted_iff)
  have sub: "set ?xs \<subseteq> set ms" by (auto simp: todo_def not_applied_def)
  have xs: "sorted_wrt (<) (map mi_id ?xs)" using order by (auto simp: todo_def not_applied_def sorted_wrt_map intro: sorted_wrt_filter)
  have rows_batch: "\<forall>s \<in> set rows. mt_batch s = ?b"
    using rows by (auto simp: list_all2_conv_all_nth in_set_conv_nth row_for_def)
  have "rollback_selection (de_sha256 env) ms (sort_key ?f (db_table db1)) n = Inr (rev ?xs)"
    unfolding table n
  proof (rule rollback_selects [OF distinct sub rows sqlite_up_verified [OF keeps assms(6)]])
    show "?f x \<le> ?f y" if "x \<in> set (db_table db)" "y \<in> set rows" for x y
      using next_batch_greater [OF assms(4) that(1)] rows_batch that(2) by (auto simp: less_eq_prod_def)
    show "sorted (map ?f rows)" using rows_sorted [OF _ rows_batch] xs rows_ids [OF rows] by simp
  qed
  moreover have "each (apply_down env) (rev ?xs) (db1\<lparr>db_saved := Some (db_data db1, db_table db1)\<rparr>)
      = (Inr (), db1\<lparr>db_saved := Some (db_data db1, db_table db1), db_data := db_data db, db_table := db_table db\<rparr>)"
  proof (rule each_down_undoes [OF assms(1) _ _ _ rows])
    show "undone_by_down env m" if "m \<in> set ?xs" for m using assms(3) sub that by blast
    show "distinct (map mi_id ?xs)" using xs by (simp add: strict_sorted_iff)
    show "mi_id m \<notin> mt_id ` set (db_table db)" if "m \<in> set ?xs" for m using that by (simp add: todo_def not_applied_def)
  qed (simp_all add: run table)
  moreover have "load_status env x = (Inr (sort_key ?f (db_table x)), x)" for x
    using load_status_ok [OF keeps] assms(1) by (simp add: sound_env_def)
  moreover have "db1\<lparr>db_data := db_data db, db_table := db_table db, db_saved := None\<rparr> = db" using assms(5) by (cases db, cases db1) simp
  ultimately show ?thesis
    using assms(1) saved n
    by (simp add: down_sqlite_def down_body_def op_bind_apply sound_exec sql_effect_def finish_sqlite_transaction_def)
qed

section \<open>Checksums\<close>

definition nul_free :: "migration \<Rightarrow> bool" where
  "nul_free m \<longleftrightarrow> (\<forall>s \<in> {mi_id m, mi_name m} \<union> set (mi_up m) \<union> (case mi_down m of None \<Rightarrow> {} | Some ss \<Rightarrow> set ss). CHR 0x00 \<notin> set s)"

definition down_tokens :: "string list option \<Rightarrow> string list" where
  "down_tokens down = (case down of Some ss \<Rightarrow> concat (map (\<lambda>s. [''down'', s]) ss) | None \<Rightarrow> [''irreversible''])"

definition checksum_tokens :: "migration \<Rightarrow> string list" where
  "checksum_tokens m = [mi_id m, mi_name m] @ concat (map (\<lambda>s. [''up'', s]) (mi_up m)) @ down_tokens (mi_down m)"

lemma checksum_input_tokens: "checksum_input m = concat (map (\<lambda>t. t @ NUL) (checksum_tokens m))"
proof -
  have "concat (map (\<lambda>s. tag @ NUL @ s @ NUL) ss) = concat (map (\<lambda>t. t @ NUL) (concat (map (\<lambda>s. [tag, s]) ss)))" for tag ss
    by (induction ss) auto
  note pairs = this
  show ?thesis
    unfolding checksum_input_def checksum_tokens_def down_tokens_def map_append concat_append pairs by (cases "mi_down m") (simp_all add: pairs)
qed

lemma tokens_injective:
  "\<forall>t \<in> set ts \<union> set us. CHR 0x00 \<notin> set t \<Longrightarrow> concat (map (\<lambda>t. t @ NUL) ts) = concat (map (\<lambda>t. t @ NUL) us) \<Longrightarrow> ts = us"
proof (induction ts arbitrary: us)
  case Nil
  then show ?case by (cases us) (auto simp: NUL_def)
next
  case (Cons t ts)
  then obtain u us' where us: "us = u # us'" by (cases us) (auto simp: NUL_def)
  have "split_on (CHR 0x00) (t @ CHR 0x00 # concat (map (\<lambda>t. t @ NUL) ts)) = split_on (CHR 0x00) (u @ CHR 0x00 # concat (map (\<lambda>t. t @ NUL) us'))"
    using Cons.prems(2) us by (simp add: NUL_def)
  then have "t = u" using Cons.prems(1) us by (simp add: split_on_append)
  then show ?case using Cons us by (simp add: NUL_def)
qed

lemma down_tokens_injective: "down_tokens a = down_tokens b \<Longrightarrow> a = b"
proof -
  have pairs: "concat (map (\<lambda>s. [''down'', s]) ss) = concat (map (\<lambda>s. [''down'', s]) ts) \<Longrightarrow> ss = ts" for ss ts :: "string list"
  proof (induction ss arbitrary: ts)
    case (Cons s ss)
    then show ?case by (cases ts) auto
  qed (simp add: concat_eq_Nil_conv)
  have other: "concat (map (\<lambda>s. [''down'', s]) ss) \<noteq> [''irreversible'']" for ss by (cases ss) auto
  assume eq: "down_tokens a = down_tokens b"
  show "a = b"
  proof (cases a)
    case None
    then show ?thesis using eq other [symmetric] by (cases b) (simp_all only: down_tokens_def option.case)
  next
    case (Some ss)
    then show ?thesis using eq other pairs [of ss] by (cases b) (auto simp only: down_tokens_def option.case)
  qed
qed

lemma up_tokens_injective:
  "concat (map (\<lambda>s. [''up'', s]) us) @ down_tokens a = concat (map (\<lambda>s. [''up'', s]) vs) @ down_tokens b \<Longrightarrow> us = vs \<and> a = b"
proof (induction us arbitrary: vs)
  case Nil
  have "down_tokens a \<noteq> ''up'' # x" for x by (cases a; cases "the a") (auto simp: down_tokens_def)
  then show ?case using Nil down_tokens_injective by (cases vs) auto
next
  case (Cons u us)
  have "down_tokens b \<noteq> ''up'' # x" for x by (cases b; cases "the b") (auto simp: down_tokens_def)
  then show ?case using Cons by (cases vs) (auto dest: sym)
qed

text \<open>Two definitions without NUL bytes have the same digest input only when they are equal, so a change
  of any part of an applied migration is noticed, as far as the digest tells inputs apart.\<close>

lemma checksum_input_injective:
  assumes "nul_free m" and "nul_free m'" and "checksum_input m = checksum_input m'"
  shows "m = m'"
proof -
  have "\<forall>t \<in> set (checksum_tokens x). CHR 0x00 \<notin> set t" if "nul_free x" for x
    using that by (auto simp: nul_free_def checksum_tokens_def down_tokens_def split: option.splits)
  then have "checksum_tokens m = checksum_tokens m'"
    using tokens_injective [of "checksum_tokens m" "checksum_tokens m'"] assms by (auto simp: checksum_input_tokens)
  then show ?thesis
    using up_tokens_injective [of "mi_up m" "mi_down m" "mi_up m'" "mi_down m'"] by (cases m; cases m') (auto simp: checksum_tokens_def)
qed

section \<open>Witnesses\<close>

text \<open>A database whose data is the list of its tables: \<open>+t\<close> adds one, \<open>-t\<close> drops the newest if it is
  the named one, and any other statement is an error.\<close>

fun demo_run :: "sql \<Rightarrow> string list \<Rightarrow> string option \<times> string list" where
  "demo_run (SqlStatement (c # t)) d =
     (if c = CHR ''+'' then (None, t # d)
      else if c = CHR ''-'' \<and> d \<noteq> [] \<and> hd d = t then (None, tl d)
      else (Some ''syntax error'', d))"
| "demo_run (SqlStatement []) d = (Some ''syntax error'', d)"
| "demo_run _ d = (None, d)"

definition demo_env :: "string list db_env" where
  "demo_env = \<lparr>de_run = demo_run, de_effect = sql_effect (\<lambda>_. ''2026-01-01''),
     de_dropped = (\<lambda>db. case db_saved db of None \<Rightarrow> db | Some (d, t) \<Rightarrow> db\<lparr>db_data := d, db_table := t, db_saved := None\<rparr>),
     de_granted = (\<lambda>_. True), de_now = (\<lambda>_. ''2026-01-01''), de_sha256 = (\<lambda>_. [])\<rparr>"

definition demo_migrations :: "migration list" where
  "demo_migrations =
     [\<lparr>mi_id = ''001'', mi_name = ''users'', mi_up = [''+users'', ''+roles''], mi_down = Some [''-users'', ''-roles'']\<rparr>,
      \<lparr>mi_id = ''002'', mi_name = ''jobs'', mi_up = [''+jobs''], mi_down = Some [''-jobs'']\<rparr>]"

definition demo_broken :: "migration list" where
  "demo_broken = demo_migrations @ [\<lparr>mi_id = ''003'', mi_name = ''typo'', mi_up = [''+mails'', ''oops''], mi_down = None\<rparr>]"

definition demo_db :: "string list sql_db" where
  "demo_db = \<lparr>db_data = [], db_table = [], db_saved = None\<rparr>"

lemma demo_env_sound: "sound_env demo_env"
proof -
  have "demo_run stmt d = (None, d)" if "\<And>s. stmt \<noteq> SqlStatement s" for stmt d using that by (cases stmt) auto
  then show ?thesis by (simp add: sound_env_def transactional_def never_fails_def demo_env_def)
qed

lemma demo_env_rollback: "transactional demo_env" "never_fails demo_env SqlRollback"
  using demo_env_sound by (auto simp: sound_env_def)


lemma demo_todo: "todo demo_broken demo_db = demo_broken" "length demo_broken = 3"
  by (simp_all add: todo_def not_applied_def demo_db_def demo_broken_def demo_migrations_def)

lemma demo_pure_run:
  "pure_run demo_env [''+users'', ''+roles'', ''+jobs'', ''+mails'', ''oops''] d = None"
  "pure_run demo_env [''+users'', ''+roles'', ''+jobs''] [] = Some [''jobs'', ''roles'', ''users'']"
  by (simp_all add: demo_env_def)

theorem sqlite_up_all_or_nothing_witness: "snd (up_sqlite demo_env demo_broken demo_db) = demo_db"
proof -
  have "pure_run demo_env (concat (map mi_up (todo demo_broken demo_db))) (db_data demo_db) = None"
    using demo_pure_run by (simp add: demo_todo) (simp add: demo_broken_def demo_migrations_def)
  then show ?thesis
    using sqlite_up_all_or_nothing [OF demo_env_rollback, of demo_db demo_broken]
    by (auto simp: demo_env_def demo_db_def split: prod.splits sum.splits)
qed



lemma demo_undone: "m \<in> set demo_migrations \<Longrightarrow> undone_by_down demo_env m"
  by (auto simp: undone_by_down_def demo_migrations_def demo_env_def)

lemma demo_up:
  "\<exists>db1. up_sqlite demo_env demo_migrations demo_db = (Inr 2, db1) \<and> db_data db1 = [''jobs'', ''roles'', ''users'']"
proof -
  have load: "load_status demo_env x = (Inr (sort_key (\<lambda>s. (mt_batch s, mt_id s)) (db_table x)), x)" for x
    by (rule load_status_ok) (use demo_env_sound in \<open>auto simp: sound_env_def\<close>)
  have statement: "sql_exec demo_env (SqlStatement s) db = (case demo_run (SqlStatement s) (db_data db) of
      (Some e, d) \<Rightarrow> (Inl (DatabaseFailure e), db\<lparr>db_data := d\<rparr>) | (None, d) \<Rightarrow> (Inr (), db\<lparr>db_data := d\<rparr>))" for s db
    by (simp add: sql_exec_statement [OF demo_env_rollback(1)]) (simp add: demo_env_def)
  show ?thesis
    by (simp add: up_sqlite_def up_body_def op_bind_apply load sound_exec [OF demo_env_sound] sql_effect_def statement
        finish_sqlite_transaction_def pending_def not_applied_def demo_migrations_def demo_db_def apply_up_def)
qed

lemma demo_validated: "validate_migrations demo_migrations = Inr ()"
  by code_simp

theorem sqlite_down_undoes_up_witness:
  "\<exists>db1. db_data db1 = [''jobs'', ''roles'', ''users''] \<and> down_sqlite demo_env demo_migrations 2 db1 = (Inr 2, demo_db)"
proof -
  obtain db1 where up: "up_sqlite demo_env demo_migrations demo_db = (Inr 2, db1)" and d: "db_data db1 = [''jobs'', ''roles'', ''users'']"
    using demo_up by blast
  have "\<forall>m \<in> set demo_migrations. undone_by_down demo_env m" using demo_undone by blast
  from sqlite_down_undoes_up [OF demo_env_sound demo_validated this _ _ up] d show ?thesis by (auto simp: demo_db_def)
qed

end
