(* ===== verification/Pagination.thy ===== *)
theory Pagination
  imports Migration
begin

text \<open>
  Pages and cursors over list queries (\<open>phoenix-database\<close>, \<open>pagination.rs\<close>). Running a query belongs to
  the database package: a query is what counting it, fetching a slice of it and fetching a page
  after a cursor return. The JSON text of cursor keys and base64 are arguments; \<open>usize\<close> has 64
  bits.
\<close>

section \<open>Pages\<close>

record page_meta =
  pm_current_page :: u64
  pm_per_page :: u64
  pm_total :: u64
  pm_last_page :: u64

record 'm paginated =
  pd_data :: "'m list"
  pd_meta :: page_meta

record cursor_page_meta =
  cm_per_page :: u64
  cm_next_cursor :: "string option"

record 'm cursor_paginated =
  cp_data :: "'m list"
  cp_meta :: cursor_page_meta

datatype 'e pagination_error = NotASelect | InvalidCursor | UnsupportedCursorKey string | ToastyError 'e

definition paginated_map :: "('m \<Rightarrow> 'n) \<Rightarrow> 'm paginated \<Rightarrow> 'n paginated" where
  "paginated_map f p = \<lparr>pd_data = map f (pd_data p), pd_meta = pd_meta p\<rparr>"

definition cursor_paginated_map :: "('m \<Rightarrow> 'n) \<Rightarrow> 'm cursor_paginated \<Rightarrow> 'n cursor_paginated" where
  "cursor_paginated_map f p = \<lparr>cp_data = map f (cp_data p), cp_meta = cp_meta p\<rparr>"

definition DEFAULT_MAX_PER_PAGE :: u64 where
  "DEFAULT_MAX_PER_PAGE = 100"

definition MAX_SQL_LIMIT :: u64 where
  "MAX_SQL_LIMIT = 2 ^ 63 - 1"

definition u64_clamp :: "u64 \<Rightarrow> u64 \<Rightarrow> u64 \<Rightarrow> u64" where
  "u64_clamp x lo hi = (if x < lo then lo else if x > hi then hi else x)"

definition normalize_page :: "u64 \<Rightarrow> u64" where
  "normalize_page page = (if page = 0 then 1 else page)"

definition normalize_per_page :: "u64 \<Rightarrow> u64 \<Rightarrow> u64" where
  "normalize_per_page per_page max_per_page = u64_clamp per_page 1 (u64_clamp max_per_page 1 MAX_SQL_LIMIT)"

definition div_ceil :: "u64 \<Rightarrow> u64 \<Rightarrow> u64" where
  "div_ceil a b = (let q = a div b; r = a mod b in if r > 0 then q + 1 else q)"

text \<open>A list query; the order is part of what fetching returns.\<close>

record ('m, 'v, 'e) list_query =
  lq_count :: "'e + u64"
  lq_fetch :: "u64 \<Rightarrow> u64 \<Rightarrow> 'e + 'm list"
  lq_fetch_after :: "u64 \<Rightarrow> 'v db_value option \<Rightarrow> 'e + ('m list \<times> 'v db_value option)"

text \<open>\<open>None\<close> is a statement that is no select query.\<close>

definition into_list_query :: "('m, 'v, 'e) list_query option \<Rightarrow> 'e pagination_error + ('m, 'v, 'e) list_query" where
  "into_list_query builder = ok_or NotASelect builder"

definition page_paginate_with_max :: "('m, 'v, 'e) list_query option \<Rightarrow> u64 \<Rightarrow> u64 \<Rightarrow> u64 \<Rightarrow> 'e pagination_error + 'm paginated" where
  "page_paginate_with_max builder page per_page max_per_page =
     res_bind (into_list_query builder) (\<lambda>query.
       (let page = normalize_page page; per_page = normalize_per_page per_page max_per_page
        in res_bind (map_sum ToastyError id (lq_count query)) (\<lambda>total.
           (let last_page = max (div_ceil total per_page) 1
            in res_bind
                 (case w_checked_mul (page - 1) per_page of
                    Some offset \<Rightarrow> if offset < total then map_sum ToastyError id (lq_fetch query per_page offset) else Inr []
                  | None \<Rightarrow> Inr [])
                 (\<lambda>data. Inr \<lparr>pd_data = data,
                    pd_meta = \<lparr>pm_current_page = page, pm_per_page = per_page, pm_total = total, pm_last_page = last_page\<rparr>\<rparr>)))))"

definition page_paginate :: "('m, 'v, 'e) list_query option \<Rightarrow> u64 \<Rightarrow> u64 \<Rightarrow> 'e pagination_error + 'm paginated" where
  "page_paginate builder page per_page = page_paginate_with_max builder page per_page DEFAULT_MAX_PER_PAGE"

section \<open>Cursors\<close>

datatype cursor_key =
    KeyBool bool | KeyI8 int | KeyI16 int | KeyI32 int | KeyI64 int | KeyU8 u8 | KeyU16 u16 | KeyU32 u32 | KeyU64 u64
  | KeyStr string | KeyNull

fun value_kind :: "'v db_value \<Rightarrow> string" where
  "value_kind (DbBool _) = ''bool''"
| "value_kind (DbI8 _) = ''i8''"
| "value_kind (DbI16 _) = ''i16''"
| "value_kind (DbI32 _) = ''i32''"
| "value_kind (DbI64 _) = ''i64''"
| "value_kind (DbU8 _) = ''u8''"
| "value_kind (DbU16 _) = ''u16''"
| "value_kind (DbU32 _) = ''u32''"
| "value_kind (DbU64 _) = ''u64''"
| "value_kind (DbF32 _) = ''f32''"
| "value_kind (DbF64 _) = ''f64''"
| "value_kind (DbString _) = ''string''"
| "value_kind (DbBytes _) = ''bytes''"
| "value_kind (DbUuid _) = ''uuid''"
| "value_kind (DbRecord _) = ''record''"
| "value_kind (DbSparseRecord _) = ''sparse record''"
| "value_kind (DbList _) = ''list''"
| "value_kind DbNull = ''null''"
| "value_kind (DbOther _) = ''unsupported''"

fun key_from_value :: "'v db_value \<Rightarrow> 'e pagination_error + cursor_key" where
  "key_from_value (DbBool b) = Inr (KeyBool b)"
| "key_from_value (DbI8 i) = Inr (KeyI8 i)"
| "key_from_value (DbI16 i) = Inr (KeyI16 i)"
| "key_from_value (DbI32 i) = Inr (KeyI32 i)"
| "key_from_value (DbI64 i) = Inr (KeyI64 i)"
| "key_from_value (DbU8 u) = Inr (KeyU8 u)"
| "key_from_value (DbU16 u) = Inr (KeyU16 u)"
| "key_from_value (DbU32 u) = Inr (KeyU32 u)"
| "key_from_value (DbU64 u) = Inr (KeyU64 u)"
| "key_from_value (DbString s) = Inr (KeyStr s)"
| "key_from_value DbNull = Inr KeyNull"
| "key_from_value v = Inl (UnsupportedCursorKey (value_kind v))"

fun key_into_value :: "cursor_key \<Rightarrow> 'v db_value" where
  "key_into_value (KeyBool b) = DbBool b"
| "key_into_value (KeyI8 i) = DbI8 i"
| "key_into_value (KeyI16 i) = DbI16 i"
| "key_into_value (KeyI32 i) = DbI32 i"
| "key_into_value (KeyI64 i) = DbI64 i"
| "key_into_value (KeyU8 u) = DbU8 u"
| "key_into_value (KeyU16 u) = DbU16 u"
| "key_into_value (KeyU32 u) = DbU32 u"
| "key_into_value (KeyU64 u) = DbU64 u"
| "key_into_value (KeyStr s) = DbString s"
| "key_into_value KeyNull = DbNull"

text \<open>The codec: the JSON text of the keys, when they can be serialized, and base64 both ways.\<close>

record cursor_codec =
  cc_to_json :: "cursor_key list \<Rightarrow> string option"
  cc_from_json :: "string \<Rightarrow> cursor_key list option"
  cc_base64 :: "string \<Rightarrow> string"
  cc_unbase64 :: "string \<Rightarrow> string option"

fun collect_keys :: "'v db_value list \<Rightarrow> 'e pagination_error + cursor_key list" where
  "collect_keys [] = Inr []"
| "collect_keys (v # vs) = res_bind (key_from_value v) (\<lambda>k. map_sum id (\<lambda>ks. k # ks) (collect_keys vs))"

definition encode_cursor :: "cursor_codec \<Rightarrow> 'v db_value \<Rightarrow> 'e pagination_error + string" where
  "encode_cursor codec v =
     res_bind (case v of DbRecord vs \<Rightarrow> collect_keys vs | scalar \<Rightarrow> map_sum id (\<lambda>k. [k]) (key_from_value scalar)) (\<lambda>keys.
     map_sum id (cc_base64 codec) (ok_or InvalidCursor (cc_to_json codec keys)))"

definition decode_cursor :: "cursor_codec \<Rightarrow> string \<Rightarrow> 'e pagination_error + 'v db_value" where
  "decode_cursor codec encoded =
     (case Option.bind (cc_unbase64 codec encoded) (cc_from_json codec) of
        None \<Rightarrow> Inl InvalidCursor
      | Some keys \<Rightarrow> if keys = [] then Inl InvalidCursor else Inr (DbRecord (map key_into_value keys)))"

definition cursor_paginate_with_max :: "cursor_codec \<Rightarrow> ('m, 'v, 'e) list_query option \<Rightarrow> string option \<Rightarrow> u64 \<Rightarrow> u64 \<Rightarrow>
    'e pagination_error + 'm cursor_paginated" where
  "cursor_paginate_with_max codec builder cursor per_page max_per_page =
     res_bind (into_list_query builder) (\<lambda>query.
       (let per_page = normalize_per_page per_page max_per_page
        in res_bind (case cursor of None \<Rightarrow> Inr None | Some encoded \<Rightarrow> map_sum id Some (decode_cursor codec encoded)) (\<lambda>after.
           res_bind (map_sum ToastyError id (lq_fetch_after query per_page after)) (\<lambda>(items, next).
           res_bind (case next of None \<Rightarrow> Inr None | Some v \<Rightarrow> map_sum id Some (encode_cursor codec v)) (\<lambda>next_cursor.
           Inr \<lparr>cp_data = items, cp_meta = \<lparr>cm_per_page = per_page, cm_next_cursor = next_cursor\<rparr>\<rparr>)))))"

definition cursor_paginate :: "cursor_codec \<Rightarrow> ('m, 'v, 'e) list_query option \<Rightarrow> string option \<Rightarrow> u64 \<Rightarrow>
    'e pagination_error + 'm cursor_paginated" where
  "cursor_paginate codec builder cursor per_page = cursor_paginate_with_max codec builder cursor per_page DEFAULT_MAX_PER_PAGE"

section \<open>Facts\<close>

lemma unat_one_word [simp]: "unat (1 :: u64) = 1" "unat (0 :: u64) = 0"
  by simp_all

lemma u64_clamp_bounds:
  assumes "lo \<le> hi"
  shows "lo \<le> u64_clamp x lo hi" "u64_clamp x lo hi \<le> hi"
  using assms by (auto simp: u64_clamp_def)

lemma normalize_per_page_bounds:
  "0 < unat (normalize_per_page p m)" "unat (normalize_per_page p m) < 2 ^ 63"
proof -
  have limit: "unat MAX_SQL_LIMIT = 2 ^ 63 - 1" by (simp add: MAX_SQL_LIMIT_def)
  then have "(1 :: u64) \<le> MAX_SQL_LIMIT" by (simp add: word_le_nat_alt)
  note cap = u64_clamp_bounds [OF this, of m]
  note bounds = u64_clamp_bounds [OF cap(1), of p]
  show "0 < unat (normalize_per_page p m)"
    using bounds(1) unfolding normalize_per_page_def word_le_nat_alt by simp
  show "unat (normalize_per_page p m) < 2 ^ 63"
    using bounds(2) cap(2) limit unfolding normalize_per_page_def word_le_nat_alt by simp
qed

lemma nat_div_ceil:
  fixes a b :: nat
  assumes "0 < b"
  shows "(a + b - 1) div b = a div b + (if a mod b = 0 then 0 else 1)"
proof -
  have "a + b - 1 = (a mod b + (b - 1)) + b * (a div b)"
    using assms div_mult_mod_eq [of a b] by (simp add: mult.commute)
  then have "(a + b - 1) div b = (a mod b + (b - 1)) div b + a div b"
    using assms by (simp only: div_mult_self2)
  moreover have "(a mod b + (b - 1)) div b = (if a mod b = 0 then 0 else 1)"
  proof (cases "a mod b = 0")
    case False
    then have "(a mod b + (b - 1)) div b = 1"
      using assms mod_less_divisor [OF assms, of a] by (intro div_nat_eqI) auto
    with False show ?thesis by simp
  qed (use assms in simp)
  ultimately show ?thesis by simp
qed

lemma unat_div_ceil:
  assumes "0 < unat b"
  shows "unat (div_ceil a b) = (unat a + unat b - 1) div unat b"
proof (cases "unat a mod unat b = 0")
  case True
  then show ?thesis
    unfolding nat_div_ceil [OF assms] by (simp add: div_ceil_def Let_def word_less_nat_alt unat_mod unat_div)
next
  case False
  then have "unat b \<noteq> 1" "unat a \<noteq> 0" by (metis mod_by_1, metis mod_0)
  then have "unat a div unat b < unat a" using assms by (intro div_less_dividend) auto
  then have "unat (a div b) + 1 < 2 ^ 64" using unsigned_less [of a, where 'a = nat] by (simp add: unat_div)
  then have "unat (a div b + 1) = unat a div unat b + 1"
    using unat_add_lem [of "a div b" 1] by (simp add: unat_div)
  with False show ?thesis
    unfolding nat_div_ceil [OF assms] by (simp add: div_ceil_def Let_def word_less_nat_alt unat_mod)
qed

end
