(* ===== verification/Pagination_Props.thy ===== *)
theory Pagination_Props
  imports Pagination
begin

text \<open>
  What pagination promises: the pages of a query cover its rows once each, in order, whatever page
  number and page size the client asks for, and a cursor comes back as the key it was made from.
\<close>

section \<open>Pages\<close>

text \<open>What the database promises of a query over the rows \<open>rows\<close>: it counts them, and fetches slices of them.\<close>

definition query_over :: "('m, 'v, 'e) list_query \<Rightarrow> 'm list \<Rightarrow> bool" where
  "query_over q rows \<longleftrightarrow> length rows < 2 ^ 64 \<and> lq_count q = Inr (of_nat (length rows)) \<and>
     (\<forall>l o'. lq_fetch q l o' = Inr (take (unat l) (drop (unat o') rows)))"

definition last_page_of :: "nat \<Rightarrow> nat \<Rightarrow> nat" where
  "last_page_of n b = max ((n + b - 1) div b) 1"

lemma last_page_covers: "0 < b \<Longrightarrow> n \<le> last_page_of n b * b"
proof -
  assume b: "0 < b"
  have "n \<le> ((n + b - 1) div b) * b"
    using div_mult_mod_eq [of "n + b - 1" b] mod_less_divisor [OF b, of "n + b - 1"] b by linarith
  also have "\<dots> \<le> last_page_of n b * b" by (simp add: last_page_of_def)
  finally show ?thesis .
qed

lemma last_page_small: "0 < b \<Longrightarrow> n < 2 ^ 64 \<Longrightarrow> last_page_of n b < 2 ^ 64"
proof -
  assume b: "0 < b" and n: "n < 2 ^ 64"
  have "(n + b - 1) div b \<le> n"
  proof (cases n)
    case 0
    then show ?thesis using b by simp
  next
    case (Suc k)
    have "n \<le> n * b" using b by simp
    then have "n + b - 1 < Suc n * b" using b by (simp only: mult_Suc)
    then have "(n + b - 1) div b < Suc n" by (rule less_mult_imp_div_less)
    then show ?thesis by simp
  qed
  then show ?thesis using n by (simp add: last_page_of_def)
qed

lemma unat_max: "unat (max a b :: u64) = max (unat a) (unat b)"
  by (simp add: max_def word_le_nat_alt)

lemma concat_slices: "concat (map (\<lambda>k. take b (drop (k * b) xs)) [0..<n]) = take (n * b) xs"
proof (induction n)
  case (Suc n)
  have "take (Suc n * b) xs = take (n * b) xs @ take b (drop (n * b) xs)"
    using take_add [of "n * b" b xs] by (simp add: add.commute)
  with Suc show ?case by simp
qed simp

lemma page_result:
  assumes q: "query_over q rows" and k: "1 \<le> k" "k < 2 ^ 64" and b_def: "b = unat (normalize_per_page per most)"
  shows "page_paginate_with_max (Some q) (of_nat k) per most = Inr
    \<lparr>pd_data = take b (drop ((k - 1) * b) rows),
     pd_meta = \<lparr>pm_current_page = of_nat k, pm_per_page = of_nat b, pm_total = of_nat (length rows),
                pm_last_page = of_nat (last_page_of (length rows) b)\<rparr>\<rparr>"
proof -
  have b: "0 < b" by (simp add: b_def normalize_per_page_bounds)
  have n: "length rows < 2 ^ 64" "unat (of_nat (length rows) :: u64) = length rows"
    using q by (simp_all add: query_over_def unat_of_nat)
  have page: "unat (of_nat k :: u64) = k" "(of_nat k :: u64) \<noteq> 0"
    using k by (auto simp: unat_of_nat dest: arg_cong [of _ _ unat])
  then have page1: "unat (of_nat k - 1 :: u64) = k - 1"
    using k by (simp add: unat_sub word_le_nat_alt)
  have last_page: "max (div_ceil (of_nat (length rows)) (normalize_per_page per most)) 1 =
      of_nat (last_page_of (length rows) b)"
    using b n last_page_small [OF b n(1)]
    by (simp add: word_unat_eq_iff unat_max unat_div_ceil last_page_of_def unat_of_nat flip: b_def)
  have data: "(case w_checked_mul (of_nat k - 1) (normalize_per_page per most) of
       Some offset \<Rightarrow> if offset < of_nat (length rows) then map_sum ToastyError id (lq_fetch q (normalize_per_page per most) offset)
         else Inr []
     | None \<Rightarrow> Inr []) = Inr (take b (drop ((k - 1) * b) rows))"
  proof (cases "(k - 1) * b < 2 ^ 64")
    case True
    then have "unat ((of_nat k - 1) * normalize_per_page per most) = (k - 1) * b"
      using page1 by (simp add: unat_word_ariths b_def)
    then show ?thesis
      using True page1 n q by (auto simp: w_checked_mul_def b_def query_over_def word_less_nat_alt)
  next
    case False
    then show ?thesis using page1 n by (simp add: w_checked_mul_def b_def)
  qed
  show ?thesis
    using q page last_page data
    by (simp add: page_paginate_with_max_def into_list_query_def ok_or_def normalize_page_def query_over_def b_def Let_def)
qed

text \<open>C27: Pages are complete and disjoint. Over a query with the rows \<open>rows\<close>, which do not change in between, for any requested page size
  and limit, asking for the pages from 1 to the last page they report gives every row exactly once, in order:
  each page carries its number, the same last page, and at most \<open>perPage\<close> rows, and any page past the last,
  even one whose offset does not fit 64 bits, is empty and reports the same total.\<close>

theorem pages_partition_rows:
  assumes "query_over q rows"
  shows "\<exists>pages b. pages \<noteq> [] \<and> 0 < b \<and> concat (map pd_data pages) = rows \<and>
    list_all2 (\<lambda>k p. page_paginate_with_max (Some q) (of_nat k) per most = Inr p \<and> length (pd_data p) \<le> b \<and>
        pd_meta p = \<lparr>pm_current_page = of_nat k, pm_per_page = of_nat b, pm_total = of_nat (length rows),
                     pm_last_page = of_nat (length pages)\<rparr>)
      [1..<Suc (length pages)] pages \<and>
    (\<forall>k. length pages < k \<and> k < 2 ^ 64 \<longrightarrow>
      page_paginate_with_max (Some q) (of_nat k) per most =
        Inr \<lparr>pd_data = [], pd_meta = \<lparr>pm_current_page = of_nat k, pm_per_page = of_nat b,
               pm_total = of_nat (length rows), pm_last_page = of_nat (length pages)\<rparr>\<rparr>)"
proof -
  define b where "b = unat (normalize_per_page per most)"
  have b: "0 < b" by (simp add: b_def normalize_per_page_bounds)
  define n where "n = last_page_of (length rows) b"
  define meta where "meta k = \<lparr>pm_current_page = of_nat k, pm_per_page = of_nat b, pm_total = of_nat (length rows),
    pm_last_page = of_nat n\<rparr>" for k
  define page where "page k = \<lparr>pd_data = take b (drop ((k - 1) * b) rows), pd_meta = meta k\<rparr>" for k
  have n: "1 \<le> n" "n < 2 ^ 64" "length rows \<le> n * b"
    using assms b last_page_small [OF b] last_page_covers [OF b]
    by (simp_all add: n_def query_over_def) (simp add: last_page_of_def)
  have result: "page_paginate_with_max (Some q) (of_nat k) per most = Inr (page k)" if "1 \<le> k" "k < 2 ^ 64" for k
    using page_result [OF assms that b_def] by (simp add: page_def meta_def n_def)
  let ?pages = "map page [1..<Suc n]"
  have "map pd_data ?pages = map (\<lambda>k. take b (drop (k * b) rows)) [0..<n]"
    by (intro nth_equalityI) (simp_all add: page_def del: upt_Suc)
  then have "concat (map pd_data ?pages) = concat (map (\<lambda>k. take b (drop (k * b) rows)) [0..<n])" by simp
  then have whole: "concat (map pd_data ?pages) = rows" using n by (simp add: concat_slices)
  have past: "page k = \<lparr>pd_data = [], pd_meta = meta k\<rparr>" if "n < k" for k
  proof -
    have "n * b \<le> (k - 1) * b" using that by (intro mult_le_mono1) simp
    with n(3) have "length rows \<le> (k - 1) * b" by (rule le_trans)
    then show ?thesis by (simp add: page_def)
  qed
  have each: "list_all2 (\<lambda>k p. page_paginate_with_max (Some q) (of_nat k) per most = Inr p \<and> length (pd_data p) \<le> b \<and>
      pd_meta p = meta k) [1..<Suc n] ?pages"
    using n result by (auto simp: list_all2_map2 list_all2_same page_def simp del: upt_Suc)
  show ?thesis
    using n b whole each past result
    by (intro exI [of _ ?pages] exI [of _ b]) (auto simp: meta_def)
qed

theorem pages_partition_rows_witness:
  "\<exists>pages :: char paginated list. concat (map pd_data pages) = ''abcde'' \<and> pages \<noteq> []"
proof -
  have "query_over (\<lparr>lq_count = Inr 5, lq_fetch = \<lambda>l k. Inr (take (unat l) (drop (unat k) ''abcde'')),
      lq_fetch_after = \<lambda>l c. Inr ([], None)\<rparr> :: (char, unit, unit) list_query) ''abcde''"
    by (simp add: query_over_def)
  from pages_partition_rows [OF this, of 2 100] show ?thesis
    by blast
qed

section \<open>Cursors\<close>

text \<open>What base64 and the JSON text of the keys promise: reading back what they wrote.\<close>

definition codec_reads_back :: "cursor_codec \<Rightarrow> bool" where
  "codec_reads_back codec \<longleftrightarrow> (\<forall>s. cc_unbase64 codec (cc_base64 codec s) = Some s) \<and>
     (\<forall>ks s. cc_to_json codec ks = Some s \<longrightarrow> cc_from_json codec s = Some ks)"

lemma res_bind_map_sum: "res_bind (map_sum id h r) (\<lambda>x. f x) = res_bind r (\<lambda>x. f (h x))"
  by (cases r) simp_all

lemma res_bind_pure: "res_bind r (\<lambda>x. Inr (f x)) = map_sum id f r"
  by (cases r) simp_all

fun cursor_fields :: "'v db_value \<Rightarrow> 'v db_value list" where
  "cursor_fields (DbRecord vs) = vs"
| "cursor_fields v = [v]"

lemma key_round_trip: "key_from_value v = Inr k \<Longrightarrow> key_into_value k = v"
  by (cases v) auto

lemma collect_keys_round_trip:
  "collect_keys vs = (Inr ks :: 'e pagination_error + cursor_key list) \<Longrightarrow> map key_into_value ks = vs"
proof (induction vs arbitrary: ks)
  case (Cons v vs)
  then obtain k where k: "key_from_value v = (Inr k :: 'e pagination_error + cursor_key)"
      "map_sum id (\<lambda>ks. k # ks) (collect_keys vs) = (Inr ks :: 'e pagination_error + cursor_key list)"
    by (auto simp: res_bind_Inr_iff)
  then obtain ks' where "collect_keys vs = (Inr ks' :: 'e pagination_error + cursor_key list)" "ks = k # ks'"
    by (cases "collect_keys vs :: 'e pagination_error + cursor_key list") auto
  with Cons k key_round_trip show ?case by auto
qed simp

lemma encode_cursorE:
  assumes "encode_cursor codec v = (Inr token :: 'e pagination_error + string)"
  obtains ks json where "map key_into_value ks = cursor_fields v" "cc_to_json codec ks = Some json"
    "token = cc_base64 codec json"
proof -
  obtain ks where ks: "(case v of DbRecord vs \<Rightarrow> collect_keys vs | scalar \<Rightarrow> map_sum id (\<lambda>k. [k]) (key_from_value scalar)) =
      (Inr ks :: 'e pagination_error + cursor_key list)"
    and rest: "map_sum id (cc_base64 codec) (ok_or InvalidCursor (cc_to_json codec ks)) = (Inr token :: 'e pagination_error + string)"
    using assms by (auto simp: encode_cursor_def res_bind_Inr_iff)
  have "map key_into_value ks = cursor_fields v"
    using ks by (cases v) (auto dest: collect_keys_round_trip)
  with rest that show ?thesis by (cases "cc_to_json codec ks") (auto simp: ok_or_def)
qed

text \<open>A cursor comes back as the key it was made from. When a page ends with a key of the supported types, the
  cursor sent to the client, given back, makes the next query continue after exactly that key, field by field
  with the same types; the next cursor is that of the last key of the page fetched.\<close>

theorem cursor_continues_after_key:
  assumes "codec_reads_back codec" and "cursor_fields key \<noteq> []"
    and "encode_cursor codec key = (Inr token :: 'e pagination_error + string)"
  shows "cursor_paginate_with_max codec (Some q) (Some token) per most =
    (case lq_fetch_after q (normalize_per_page per most) (Some (DbRecord (cursor_fields key))) of
       Inl e \<Rightarrow> Inl (ToastyError (e :: 'e))
     | Inr (items, None) \<Rightarrow> Inr \<lparr>cp_data = items, cp_meta = \<lparr>cm_per_page = normalize_per_page per most, cm_next_cursor = None\<rparr>\<rparr>
     | Inr (items, Some v) \<Rightarrow> map_sum id
         (\<lambda>c. \<lparr>cp_data = items, cp_meta = \<lparr>cm_per_page = normalize_per_page per most, cm_next_cursor = Some c\<rparr>\<rparr>)
         (encode_cursor codec v))"
proof -
  obtain ks json where ks: "map key_into_value ks = cursor_fields key"
    and json: "cc_to_json codec ks = Some json" and token: "token = cc_base64 codec json"
    using assms(3) by (rule encode_cursorE)
  have "decode_cursor codec token = (Inr (DbRecord (cursor_fields key)) :: 'e pagination_error + _)"
    using assms(1,2) ks json token by (auto simp: decode_cursor_def codec_reads_back_def)
  then show ?thesis
    by (auto simp: res_bind_map_sum res_bind_pure sum.map_comp comp_def id_def cursor_paginate_with_max_def into_list_query_def ok_or_def Let_def split: sum.splits option.splits)
qed

theorem cursor_continues_after_key_witness:
  "cursor_paginate_with_max
     \<lparr>cc_to_json = \<lambda>ks. if ks = [KeyU64 7] then Some ''[7]'' else None,
      cc_from_json = \<lambda>s. if s = ''[7]'' then Some [KeyU64 7] else None, cc_base64 = id, cc_unbase64 = Some\<rparr>
     (Some \<lparr>lq_count = Inr 9, lq_fetch = \<lambda>l k. Inr [],
       lq_fetch_after = \<lambda>l c. if c = Some (DbRecord [DbU64 7]) then Inr ([8 :: int, 9], None) else Inr ([], None)\<rparr>
       :: (int, unit, unit) list_query option)
     (Some ''[7]'') 2 100 = Inr \<lparr>cp_data = [8, 9], cp_meta = \<lparr>cm_per_page = 2, cm_next_cursor = None\<rparr>\<rparr>"
proof -
  let ?query = "\<lparr>lq_count = Inr 9, lq_fetch = \<lambda>l k. Inr [],
       lq_fetch_after = \<lambda>l c. if c = Some (DbRecord [DbU64 7]) then Inr ([8 :: int, 9], None) else Inr ([], None)\<rparr>
       :: (int, unit, unit) list_query"
  let ?codec = "\<lparr>cc_to_json = \<lambda>ks. if ks = [KeyU64 7] then Some ''[7]'' else None,
      cc_from_json = \<lambda>s. if s = ''[7]'' then Some [KeyU64 7] else None, cc_base64 = id, cc_unbase64 = Some\<rparr>"
  have "codec_reads_back ?codec" by (simp add: codec_reads_back_def)
  moreover have "cursor_fields (DbU64 7 :: unit db_value) \<noteq> []" by simp
  moreover have "encode_cursor ?codec (DbU64 7 :: unit db_value) = (Inr ''[7]'' :: unit pagination_error + string)"
    by (simp add: encode_cursor_def ok_or_def)
  ultimately have "cursor_paginate_with_max ?codec (Some ?query) (Some ''[7]'') 2 100 =
    (case lq_fetch_after ?query (normalize_per_page 2 100) (Some (DbRecord (cursor_fields (DbU64 7)))) of
       Inl e \<Rightarrow> Inl (ToastyError e)
     | Inr (items, None) \<Rightarrow> Inr \<lparr>cp_data = items, cp_meta = \<lparr>cm_per_page = normalize_per_page 2 100, cm_next_cursor = None\<rparr>\<rparr>
     | Inr (items, Some v) \<Rightarrow> map_sum id
         (\<lambda>c. \<lparr>cp_data = items, cp_meta = \<lparr>cm_per_page = normalize_per_page 2 100, cm_next_cursor = Some c\<rparr>\<rparr>)
         (encode_cursor ?codec v))"
    by (rule cursor_continues_after_key)
  then show ?thesis
    by (simp add: normalize_per_page_def u64_clamp_def MAX_SQL_LIMIT_def)
qed

end
