(* ===== verification/Console.thy ===== *)
theory Console
  imports Rust_Collections
begin

text \<open>
  The application console (\<open>phoenix-console\<close>, \<open>lib.rs\<close>): commands, the usage text, and the dispatch of
  an argument vector. A command is a function on a world \<open>'w\<close> that may fail; printing is an
  argument. Entering the directory of a packaged release is left out.
\<close>

record command_context =
  cx_args :: "string list"
  cx_binary_name :: string

text \<open>Errors of the console and the boxed error of a command.\<close>

datatype console_error = UnknownCommand string string | ServeUnavailable | CommandFailed string

type_synonym 'w command_handler = "command_context \<Rightarrow> ('w, console_error, unit) op"

record 'w command_entry =
  ce_name :: string
  ce_handler :: "'w command_handler"

definition command_entry_new :: "string \<Rightarrow> 'w command_handler \<Rightarrow> 'w command_entry" where
  "command_entry_new name handler = \<lparr>ce_name = name, ce_handler = handler\<rparr>"

record 'w console =
  cn_binary_name :: string
  cn_about :: "string option"
  cn_serve :: "'w command_handler option"
  cn_commands :: "'w command_entry list"

definition console_new :: "string \<Rightarrow> 'w console" where
  "console_new binary_name = \<lparr>cn_binary_name = binary_name, cn_about = None, cn_serve = None, cn_commands = []\<rparr>"

definition console_about :: "string \<Rightarrow> 'w console \<Rightarrow> 'w console" where
  "console_about about c = c\<lparr>cn_about := Some about\<rparr>"

definition console_serve :: "'w command_handler \<Rightarrow> 'w console \<Rightarrow> 'w console" where
  "console_serve handler c = c\<lparr>cn_serve := Some handler\<rparr>"

definition console_commands :: "'w command_entry list \<Rightarrow> 'w console \<Rightarrow> 'w console" where
  "console_commands commands c = c\<lparr>cn_commands := cn_commands c @ commands\<rparr>"

text \<open>\<open>lines.join("\n")\<close>\<close>

fun join_lines :: "string list \<Rightarrow> string" where
  "join_lines [] = []"
| "join_lines [l] = l"
| "join_lines (l # ls) = l @ [CHR 0x0A] @ join_lines ls"

definition console_usage :: "'w console \<Rightarrow> string" where
  "console_usage c =
     join_lines
       ((case cn_about c of None \<Rightarrow> [] | Some about \<Rightarrow> [about, []])
        @ [''Usage:'' @ [CHR 0x0A] @ ''  '' @ cn_binary_name c @ '' <command> [args...]'' @ [CHR 0x0A]]
        @ [''Commands:'']
        @ (case cn_serve c of None \<Rightarrow> [] | Some _ \<Rightarrow> [''  serve    Start the HTTP server''])
        @ map (\<lambda>name. ''  '' @ name) (sort (map ce_name (cn_commands c)))
        @ [[], ''Run `'' @ cn_binary_name c @ '' help` for this message.'', []])"

definition console_run_argv :: "(string \<Rightarrow> 'w \<Rightarrow> 'w) \<Rightarrow> 'w console \<Rightarrow> string list \<Rightarrow> ('w, console_error, unit) op" where
  "console_run_argv out c argv w =
     (let ctx = \<lparr>cx_args = drop 2 argv, cx_binary_name = cn_binary_name c\<rparr>
      in if length argv < 2 \<or> argv ! 1 \<in> {''help'', ''--help'', ''-h''} then (Inr (), out (console_usage c) w)
         else if argv ! 1 = ''serve''
         then (case cn_serve c of None \<Rightarrow> (Inl ServeUnavailable, w) | Some serve \<Rightarrow> serve ctx w)
         else (case find (\<lambda>entry. ce_name entry = argv ! 1) (cn_commands c) of
                 None \<Rightarrow> (Inl (UnknownCommand (argv ! 1) (console_usage c)), w)
               | Some entry \<Rightarrow> ce_handler entry ctx w))"

section \<open>Facts\<close>

definition reserved_command :: "string \<Rightarrow> bool" where
  "reserved_command name \<longleftrightarrow> name \<in> {''help'', ''--help'', ''-h'', ''serve''}"

lemma find_distinct:
  assumes "e \<in> set es" and "distinct (map ce_name es)"
  shows "find (\<lambda>x. ce_name x = ce_name e) es = Some e"
  using assms by (induction es) (auto simp: rev_image_eqI)

lemma run_registered:
  assumes "e \<in> set (cn_commands c)" and "distinct (map ce_name (cn_commands c))" and "\<not> reserved_command (ce_name e)"
  shows "console_run_argv out c (binary # ce_name e # args) =
    ce_handler e \<lparr>cx_args = args, cx_binary_name = cn_binary_name c\<rparr>"
  using assms by (auto simp: console_run_argv_def reserved_command_def find_distinct fun_eq_iff)

text \<open>A reserved name is answered by the console itself, whatever commands there are.\<close>

lemma run_reserved:
  assumes "reserved_command name"
  shows "console_run_argv out c (binary # name # args) w =
    (if name \<noteq> ''serve'' then (Inr (), out (console_usage c) w)
     else case cn_serve c of None \<Rightarrow> (Inl ServeUnavailable, w)
       | Some serve \<Rightarrow> serve \<lparr>cx_args = args, cx_binary_name = cn_binary_name c\<rparr> w)"
  using assms by (auto simp: console_run_argv_def reserved_command_def)

end
