(* ===== verification/Plugin.thy ===== *)
theory Plugin
  imports Console Route Migration
begin

text \<open>
  Installing features (\<open>phoenix-plugin\<close>, \<open>lib.rs\<close>): a plugin with its declared capabilities and its
  contributions, the feature set that collects them, and the checks of an installation. The
  optional database feature is compiled in.
\<close>

section \<open>Capabilities\<close>

datatype capability = CapRoutes | CapCommands | CapMigrations

definition capability_str :: "capability \<Rightarrow> string" where
  "capability_str c = (case c of CapRoutes \<Rightarrow> ''routes'' | CapCommands \<Rightarrow> ''commands'' | CapMigrations \<Rightarrow> ''migrations'')"

text \<open>The order \<open>derive(Ord)\<close> gives: the order of the constructors.\<close>

fun capability_rank :: "capability \<Rightarrow> nat" where
  "capability_rank CapRoutes = 0"
| "capability_rank CapCommands = 1"
| "capability_rank CapMigrations = 2"

instantiation capability :: linorder
begin

definition less_eq_capability :: "capability \<Rightarrow> capability \<Rightarrow> bool" where
  "less_eq_capability a b \<longleftrightarrow> capability_rank a \<le> capability_rank b"

definition less_capability :: "capability \<Rightarrow> capability \<Rightarrow> bool" where
  "less_capability a b \<longleftrightarrow> capability_rank a < capability_rank b"

instance
proof
  fix a b c :: capability
  show "a \<le> b \<Longrightarrow> b \<le> a \<Longrightarrow> a = b"
    by (cases a; cases b) (simp_all add: less_eq_capability_def)
qed (auto simp: less_eq_capability_def less_capability_def)

end

section \<open>Plugins and feature sets\<close>

record ('a, 'x, 'w, 'v) plugin =
  pg_name :: string
  pg_version :: string
  pg_capabilities :: "capability list"
  pg_routes :: "('a, 'x, 'w) routes"
  pg_commands :: "'v command_entry list"
  pg_migrations :: "migration list"

text \<open>What a plugin is that defines only its name and capabilities.\<close>

definition plugin_default :: "string \<Rightarrow> capability list \<Rightarrow> ('a, 'x, 'w, 'v) plugin" where
  "plugin_default name capabilities =
     \<lparr>pg_name = name, pg_version = ''0.0.0'', pg_capabilities = capabilities, pg_routes = routes_new,
      pg_commands = [], pg_migrations = []\<rparr>"

record ('a, 'x, 'w, 'v) feature_set =
  fs_allow :: "capability set option"
  fs_namespace_route_names :: bool
  fs_plugin_names :: "string set"
  fs_command_names :: "string set"
  fs_migration_ids :: "string set"
  fs_routes :: "('a, 'x, 'w) routes"
  fs_commands :: "'v command_entry list"
  fs_migrations :: "migration list"

datatype feature_error =
    InvalidName string | DuplicatePlugin string | CapabilityDenied string capability | UndeclaredCapability string capability
  | DuplicateCommand string string | DuplicateMigration string string

definition feature_set_new :: "('a, 'x, 'w, 'v) feature_set" where
  "feature_set_new =
     \<lparr>fs_allow = None, fs_namespace_route_names = True, fs_plugin_names = {}, fs_command_names = {},
      fs_migration_ids = {}, fs_routes = routes_new, fs_commands = [], fs_migrations = []\<rparr>"

definition features_allow :: "capability list \<Rightarrow> ('a, 'x, 'w, 'v) feature_set \<Rightarrow> ('a, 'x, 'w, 'v) feature_set" where
  "features_allow capabilities s = s\<lparr>fs_allow := Some (set capabilities)\<rparr>"

definition features_namespace_route_names :: "bool \<Rightarrow> ('a, 'x, 'w, 'v) feature_set \<Rightarrow> ('a, 'x, 'w, 'v) feature_set" where
  "features_namespace_route_names enabled s = s\<lparr>fs_namespace_route_names := enabled\<rparr>"

section \<open>Installing\<close>

definition ensure_capability :: "string \<Rightarrow> capability set \<Rightarrow> capability \<Rightarrow> bool \<Rightarrow> feature_error + unit" where
  "ensure_capability plugin declared capability contributes =
     (if contributes \<and> capability \<notin> declared then Inl (UndeclaredCapability plugin capability) else Inr ())"

fun insert_commands :: "string \<Rightarrow> 'v command_entry list \<Rightarrow> string set \<Rightarrow> feature_error + string set" where
  "insert_commands plugin [] names = Inr names"
| "insert_commands plugin (command # commands) names =
     (if ce_name command \<in> names then Inl (DuplicateCommand plugin (ce_name command))
      else insert_commands plugin commands (insert (ce_name command) names))"

fun insert_migrations :: "string \<Rightarrow> migration list \<Rightarrow> string set \<Rightarrow> feature_error + string set" where
  "insert_migrations plugin [] ids = Inr ids"
| "insert_migrations plugin (migration # migrations) ids =
     (if mi_id migration \<in> ids then Inl (DuplicateMigration plugin (mi_id migration))
      else insert_migrations plugin migrations (insert (mi_id migration) ids))"

text \<open>The first declared capability, in their order, that is not allowed.\<close>

definition denied_capability :: "capability set option \<Rightarrow> capability set \<Rightarrow> capability option" where
  "denied_capability allow declared =
     (case allow of None \<Rightarrow> None | Some allowed \<Rightarrow> find (\<lambda>c. c \<notin> allowed) (sorted_list_of_set declared))"

definition features_plugin :: "('a, 'x, 'w, 'v) plugin \<Rightarrow> ('a, 'x, 'w, 'v) feature_set \<Rightarrow> feature_error + ('a, 'x, 'w, 'v) feature_set" where
  "features_plugin p s =
     (let name = pg_name p; declared = set (pg_capabilities p)
      in if trim_is_empty name then Inl (InvalidName name)
         else if name \<in> fs_plugin_names s then Inl (DuplicatePlugin name)
         else
           (case denied_capability (fs_allow s) declared of
              Some c \<Rightarrow> Inl (CapabilityDenied name c)
            | None \<Rightarrow>
                res_bind (ensure_capability name declared CapRoutes (routes_len (pg_routes p) \<noteq> 0)) (\<lambda>_.
                res_bind (ensure_capability name declared CapCommands (pg_commands p \<noteq> [])) (\<lambda>_.
                res_bind (ensure_capability name declared CapMigrations (pg_migrations p \<noteq> [])) (\<lambda>_.
                res_bind (insert_commands name (pg_commands p) (fs_command_names s)) (\<lambda>command_names.
                res_bind (insert_migrations name (pg_migrations p) (fs_migration_ids s)) (\<lambda>migration_ids.
                (let routes = (if fs_namespace_route_names s
                               then routes_scoped (group_name (name @ ''.'') route_group_new) (pg_routes p) else pg_routes p)
                 in Inr (s\<lparr>fs_plugin_names := insert name (fs_plugin_names s),
                          fs_command_names := command_names, fs_migration_ids := migration_ids,
                          fs_routes := routes_merge (fs_routes s) routes,
                          fs_commands := fs_commands s @ pg_commands p,
                          fs_migrations := fs_migrations s @ pg_migrations p\<rparr>)))))))))"

definition features_with_middleware :: "('a, 'x, 'w) middleware \<Rightarrow> ('a, 'x, 'w, 'v) feature_set \<Rightarrow> ('a, 'x, 'w, 'v) feature_set" where
  "features_with_middleware m s = s\<lparr>fs_routes := routes_with_middleware m (fs_routes s)\<rparr>"

section \<open>Taking the contributions\<close>

record ('a, 'x, 'w, 'v) feature_parts =
  fp_routes :: "('a, 'x, 'w) routes"
  fp_commands :: "'v command_entry list"
  fp_migrations :: "migration list"

definition features_into_routes :: "('a, 'x, 'w, 'v) feature_set \<Rightarrow> ('a, 'x, 'w) routes" where
  "features_into_routes s = fs_routes s"

definition features_merge_into :: "('a, 'x, 'w) routes \<Rightarrow> ('a, 'x, 'w, 'v) feature_set \<Rightarrow> ('a, 'x, 'w) routes" where
  "features_merge_into routes s = routes_merge routes (fs_routes s)"

definition features_into_commands :: "('a, 'x, 'w, 'v) feature_set \<Rightarrow> 'v command_entry list" where
  "features_into_commands s = fs_commands s"

definition features_into_migrations :: "('a, 'x, 'w, 'v) feature_set \<Rightarrow> migration list" where
  "features_into_migrations s = fs_migrations s"

definition features_into_parts :: "('a, 'x, 'w, 'v) feature_set \<Rightarrow> ('a, 'x, 'w, 'v) feature_parts" where
  "features_into_parts s = \<lparr>fp_routes = fs_routes s, fp_commands = fs_commands s, fp_migrations = fs_migrations s\<rparr>"

definition features_installed :: "('a, 'x, 'w, 'v) feature_set \<Rightarrow> string list" where
  "features_installed s = sorted_list_of_set (fs_plugin_names s)"

end
