(* ===== verification/Plugin_Props.thy ===== *)
theory Plugin_Props
  imports Plugin
begin

text \<open>
  What installing a list of plugins does: it succeeds exactly when every plugin is well formed and
  nothing is declared twice, and then the set holds the contributions of the plugins in their
  order; and what becomes of a command when the console runs it.
\<close>

section \<open>A list of plugins\<close>

fun install_all :: "('a, 'x, 'w, 'v) plugin list \<Rightarrow> ('a, 'x, 'w, 'v) feature_set \<Rightarrow> feature_error + ('a, 'x, 'w, 'v) feature_set" where
  "install_all [] s = Inr s"
| "install_all (p # ps) s = res_bind (features_plugin p s) (install_all ps)"

definition plugin_ok :: "capability set option \<Rightarrow> ('a, 'x, 'w, 'v) plugin \<Rightarrow> bool" where
  "plugin_ok allow p \<longleftrightarrow> \<not> trim_is_empty (pg_name p) \<and>
     (case allow of None \<Rightarrow> True | Some allowed \<Rightarrow> set (pg_capabilities p) \<subseteq> allowed) \<and>
     (rs_definitions (pg_routes p) \<noteq> [] \<longrightarrow> CapRoutes \<in> set (pg_capabilities p)) \<and>
     (pg_commands p \<noteq> [] \<longrightarrow> CapCommands \<in> set (pg_capabilities p)) \<and>
     (pg_migrations p \<noteq> [] \<longrightarrow> CapMigrations \<in> set (pg_capabilities p))"

text \<open>The routes of a plugin as the application gets them, with \<open>plugin.\<close> before their names.\<close>

definition contributed_routes :: "bool \<Rightarrow> ('a, 'x, 'w, 'v) plugin \<Rightarrow> ('a, 'x, 'w) route_definition list" where
  "contributed_routes namespaced p =
     map (\<lambda>d. d\<lparr>rd_path := (if namespaced then join_paths [] (rd_path d) else rd_path d),
               rd_name := (if namespaced then map_option (\<lambda>n. pg_name p @ ''.'' @ n) (rd_name d) else rd_name d),
               rd_middleware := rs_global_middleware (pg_routes p) @ rd_middleware d\<rparr>)
       (rs_definitions (pg_routes p))"

definition command_names :: "('a, 'x, 'w, 'v) plugin list \<Rightarrow> string list" where
  "command_names ps = concat (map (\<lambda>p. map ce_name (pg_commands p)) ps)"

definition migration_ids :: "('a, 'x, 'w, 'v) plugin list \<Rightarrow> string list" where
  "migration_ids ps = concat (map (\<lambda>p. map mi_id (pg_migrations p)) ps)"

definition features_wf :: "('a, 'x, 'w, 'v) feature_set \<Rightarrow> bool" where
  "features_wf s \<longleftrightarrow> distinct (map ce_name (fs_commands s)) \<and> fs_command_names s = ce_name ` set (fs_commands s) \<and>
     distinct (map mi_id (fs_migrations s)) \<and> fs_migration_ids s = mi_id ` set (fs_migrations s)"

lemma insert_commands_iff:
  "insert_commands name cs names = Inr names' \<longleftrightarrow>
     distinct (map ce_name cs) \<and> ce_name ` set cs \<inter> names = {} \<and> names' = names \<union> ce_name ` set cs"
  by (induction cs arbitrary: names) auto

lemma insert_migrations_iff:
  "insert_migrations name ms ids = Inr ids' \<longleftrightarrow>
     distinct (map mi_id ms) \<and> mi_id ` set ms \<inter> ids = {} \<and> ids' = ids \<union> mi_id ` set ms"
  by (induction ms arbitrary: ids) auto

lemma denied_None_iff:
  "denied_capability allow (set cs) = None \<longleftrightarrow> (case allow of None \<Rightarrow> True | Some allowed \<Rightarrow> set cs \<subseteq> allowed)"
  by (auto simp: denied_capability_def find_None_iff split: option.splits)

lemma ensure_capability_iff:
  "ensure_capability name declared c contributes = Inr u \<longleftrightarrow> (contributes \<longrightarrow> c \<in> declared)"
  by (simp add: ensure_capability_def)

text \<open>What a successful installation adds.\<close>

definition installed :: "('a, 'x, 'w, 'v) plugin \<Rightarrow> ('a, 'x, 'w, 'v) feature_set \<Rightarrow> ('a, 'x, 'w, 'v) feature_set" where
  "installed p s =
     s\<lparr>fs_plugin_names := insert (pg_name p) (fs_plugin_names s),
       fs_command_names := fs_command_names s \<union> ce_name ` set (pg_commands p),
       fs_migration_ids := fs_migration_ids s \<union> mi_id ` set (pg_migrations p),
       fs_routes := (fs_routes s)\<lparr>rs_definitions := rs_definitions (fs_routes s) @ contributed_routes (fs_namespace_route_names s) p,
         rs_error := (case rs_error (fs_routes s) of None \<Rightarrow> rs_error (pg_routes p) | Some e \<Rightarrow> Some e)\<rparr>,
       fs_commands := fs_commands s @ pg_commands p,
       fs_migrations := fs_migrations s @ pg_migrations p\<rparr>"

lemma merged_routes:
  "routes_merge rs (if namespaced then routes_scoped (group_name (pg_name p @ ''.'') route_group_new) (pg_routes p) else pg_routes p) =
     rs\<lparr>rs_definitions := rs_definitions rs @ contributed_routes namespaced p,
        rs_error := (case rs_error rs of None \<Rightarrow> rs_error (pg_routes p) | Some e \<Rightarrow> Some e)\<rparr>"
  by (simp add: routes_merge_def routes_scoped_def routes_group_def contributed_routes_def group_name_def route_group_new_def
      routes_new_def Let_def comp_def split: option.splits)

lemma features_plugin_iff:
  assumes "features_wf s"
  shows "features_plugin p s = Inr s' \<longleftrightarrow>
    plugin_ok (fs_allow s) p \<and> pg_name p \<notin> fs_plugin_names s \<and>
    distinct (map ce_name (fs_commands s @ pg_commands p)) \<and> distinct (map mi_id (fs_migrations s @ pg_migrations p)) \<and>
    s' = installed p s"
proof -
  have "features_plugin p s = Inr s' \<longleftrightarrow>
    plugin_ok (fs_allow s) p \<and> pg_name p \<notin> fs_plugin_names s \<and>
    distinct (map ce_name (pg_commands p)) \<and> ce_name ` set (pg_commands p) \<inter> fs_command_names s = {} \<and>
    distinct (map mi_id (pg_migrations p)) \<and> mi_id ` set (pg_migrations p) \<inter> fs_migration_ids s = {} \<and>
    s' = installed p s"
    unfolding features_plugin_def Let_def merged_routes
    by (auto simp: res_bind_Inr_iff insert_commands_iff insert_migrations_iff ensure_capability_iff plugin_ok_def routes_len_def
        installed_def denied_None_iff [symmetric] split: if_splits option.splits)
  then show ?thesis using assms by (auto simp: features_wf_def)
qed

lemma installed_wf:
  assumes "features_wf s" and "features_plugin p s = Inr s'"
  shows "features_wf s'"
  using assms(1) assms(2) [unfolded features_plugin_iff [OF assms(1)]] by (auto simp: features_wf_def installed_def)

definition install_conditions :: "('a, 'x, 'w, 'v) plugin list \<Rightarrow> ('a, 'x, 'w, 'v) feature_set \<Rightarrow> bool" where
  "install_conditions ps s \<longleftrightarrow> (\<forall>p \<in> set ps. plugin_ok (fs_allow s) p) \<and>
     distinct (map pg_name ps) \<and> pg_name ` set ps \<inter> fs_plugin_names s = {} \<and>
     distinct (map ce_name (fs_commands s) @ command_names ps) \<and>
     distinct (map mi_id (fs_migrations s) @ migration_ids ps)"

lemma installed_fields [simp]:
  "fs_allow (installed p s) = fs_allow s" "fs_plugin_names (installed p s) = insert (pg_name p) (fs_plugin_names s)"
  "fs_commands (installed p s) = fs_commands s @ pg_commands p" "fs_migrations (installed p s) = fs_migrations s @ pg_migrations p"
  "fs_namespace_route_names (installed p s) = fs_namespace_route_names s"
  "rs_definitions (fs_routes (installed p s)) =
     rs_definitions (fs_routes s) @ contributed_routes (fs_namespace_route_names s) p"
  by (simp_all add: installed_def)

lemma conditions_step:
  "install_conditions (p # ps) s \<longleftrightarrow>
     (plugin_ok (fs_allow s) p \<and> pg_name p \<notin> fs_plugin_names s \<and> distinct (map ce_name (fs_commands s @ pg_commands p)) \<and>
      distinct (map mi_id (fs_migrations s @ pg_migrations p))) \<and> install_conditions ps (installed p s)"
proof -
  have d: "distinct (xs @ ys @ zs) \<longleftrightarrow> distinct (xs @ ys) \<and> distinct ((xs @ ys) @ zs)" for xs ys zs :: "string list" by auto
  have "command_names (p # ps) = map ce_name (pg_commands p) @ command_names ps"
       "migration_ids (p # ps) = map mi_id (pg_migrations p) @ migration_ids ps"
    by (simp_all add: command_names_def migration_ids_def)
  then show ?thesis
    unfolding install_conditions_def map_append installed_fields by (simp only: d) auto
qed

lemma install_all_iff:
  "features_wf s \<Longrightarrow> install_all ps s = Inr s' \<longleftrightarrow> install_conditions ps s \<and> s' = fold installed ps s"
proof (induction ps arbitrary: s)
  case Nil
  then show ?case by (auto simp: install_conditions_def features_wf_def command_names_def migration_ids_def)
next
  case (Cons p ps)
  have "install_all (p # ps) s = Inr s' \<longleftrightarrow> (\<exists>s1. features_plugin p s = Inr s1 \<and> install_all ps s1 = Inr s')"
    by (simp add: res_bind_Inr_iff)
  also have "\<dots> \<longleftrightarrow> (\<exists>s1. features_plugin p s = Inr s1 \<and> install_conditions ps s1 \<and> s' = fold installed ps s1)"
    using Cons.IH installed_wf [OF Cons.prems] by blast
  also have "\<dots> \<longleftrightarrow> install_conditions (p # ps) s \<and> s' = fold installed (p # ps) s"
    unfolding features_plugin_iff [OF Cons.prems] conditions_step [of p] by (simp del: map_append)
  finally show ?case .
qed

lemma fold_installed:
  "fs_commands (fold installed ps s) = fs_commands s @ concat (map pg_commands ps)"
  "fs_migrations (fold installed ps s) = fs_migrations s @ concat (map pg_migrations ps)"
  "fs_plugin_names (fold installed ps s) = fs_plugin_names s \<union> pg_name ` set ps"
  "fs_namespace_route_names (fold installed ps s) = fs_namespace_route_names s"
  "rs_definitions (fs_routes (fold installed ps s)) =
     rs_definitions (fs_routes s) @ concat (map (contributed_routes (fs_namespace_route_names s)) ps)"
  by (induction ps arbitrary: s) auto

lemma features_wf_new: "features_wf feature_set_new" "features_wf (features_allow caps feature_set_new)"
  by (simp_all add: features_wf_def features_allow_def feature_set_new_def)

lemma command_names_concat: "command_names ps = map ce_name (concat (map pg_commands ps))"
  by (simp add: command_names_def map_concat comp_def)

section \<open>Properties\<close>

text \<open>Installing a list of plugins into a set that allows the capabilities \<open>caps\<close> succeeds exactly when
  every name is not blank and used once, every plugin declares only allowed capabilities and
  every capability it uses, and no command and no migration is contributed twice; the set then
  holds the commands and migrations of the plugins in their order, and their routes in order
  with the name of the plugin before each route name.\<close>

theorem plugins_install_exactly:
  "case install_all ps (features_allow caps feature_set_new) of
     Inr s \<Rightarrow> (\<forall>p \<in> set ps. plugin_ok (Some (set caps)) p) \<and> distinct (map pg_name ps) \<and>
       distinct (command_names ps) \<and> distinct (migration_ids ps) \<and>
       features_into_commands s = concat (map pg_commands ps) \<and>
       features_into_migrations s = concat (map pg_migrations ps) \<and>
       rs_definitions (features_into_routes s) = concat (map (contributed_routes True) ps) \<and>
       features_installed s = sort (map pg_name ps)
   | Inl e \<Rightarrow> \<not> ((\<forall>p \<in> set ps. plugin_ok (Some (set caps)) p) \<and> distinct (map pg_name ps) \<and>
       distinct (command_names ps) \<and> distinct (migration_ids ps))"
proof -
  let ?s = "features_allow caps feature_set_new :: ('a, 'b, 'c, 'd) feature_set"
  have conditions: "install_conditions ps ?s \<longleftrightarrow> (\<forall>p \<in> set ps. plugin_ok (Some (set caps)) p) \<and> distinct (map pg_name ps) \<and>
       distinct (command_names ps) \<and> distinct (migration_ids ps)"
    by (simp add: install_conditions_def features_allow_def feature_set_new_def)
  note iff = install_all_iff [OF features_wf_new(2), of ps caps, unfolded conditions]
  show ?thesis
  proof (cases "install_all ps ?s")
    case (Inl e)
    then show ?thesis using iff by auto
  next
    case (Inr s)
    then have c: "(\<forall>p \<in> set ps. plugin_ok (Some (set caps)) p) \<and> distinct (map pg_name ps) \<and>
       distinct (command_names ps) \<and> distinct (migration_ids ps)" and s: "s = fold installed ps ?s"
      using iff by blast+
    have "sorted_list_of_set (pg_name ` set ps) = sort (map pg_name ps)"
      using c by (simp add: sorted_list_of_set_sort_remdups distinct_remdups_id flip: set_map)
    then show ?thesis
      using Inr c by (simp add: s features_into_commands_def features_into_migrations_def features_into_routes_def
          features_installed_def fold_installed) (simp add: features_allow_def feature_set_new_def routes_new_def)
  qed
qed

text \<open>A command of an installed plugin runs, with the arguments after its name, when the console is
  given that name, unless the console answers the name itself: a plugin may install a command
  called \<open>serve\<close>, \<open>help\<close>, \<open>--help\<close> or \<open>-h\<close>, and it can never be run.\<close>

theorem plugin_command_runs_unless_reserved:
  assumes "install_all ps feature_set_new = Inr s" and "p \<in> set ps" and "e \<in> set (pg_commands p)"
    and "cn_commands c = []"
  shows "console_run_argv out (console_commands (features_into_commands s) c) (binary # ce_name e # args) w =
    (if ce_name e = ''serve'' then case cn_serve c of None \<Rightarrow> (Inl ServeUnavailable, w)
       | Some serve \<Rightarrow> serve \<lparr>cx_args = args, cx_binary_name = cn_binary_name c\<rparr> w
     else if ce_name e \<in> {''help'', ''--help'', ''-h''}
       then (Inr (), out (console_usage (console_commands (features_into_commands s) c)) w)
     else ce_handler e \<lparr>cx_args = args, cx_binary_name = cn_binary_name c\<rparr> w)"
proof -
  have s: "s = fold installed ps feature_set_new" and "install_conditions ps feature_set_new"
    using assms(1) install_all_iff [OF features_wf_new(1)] by blast+
  then have commands: "features_into_commands s = concat (map pg_commands ps)"
      "distinct (map ce_name (features_into_commands s))"
    by (simp_all add: features_into_commands_def fold_installed install_conditions_def command_names_concat)
      (simp_all add: feature_set_new_def)
  let ?c = "console_commands (features_into_commands s) c"
  have e: "e \<in> set (cn_commands ?c)" "distinct (map ce_name (cn_commands ?c))"
    using assms(2-4) commands by (auto simp: console_commands_def)
  show ?thesis
  proof (cases "reserved_command (ce_name e)")
    case True
    then show ?thesis using run_reserved [OF True, of out ?c] by (auto simp: reserved_command_def console_commands_def split: option.splits)
  next
    case False
    then show ?thesis
      using run_registered [OF e False, of out binary args] by (simp add: reserved_command_def console_commands_def)
  qed
qed

text \<open>Middleware attached to the set is the middleware of its routes, also of those installed later.\<close>

lemma map_sum_res_bind: "map_sum id g (res_bind r f) = res_bind r (\<lambda>x. map_sum id g (f x))"
  by (cases r) simp_all

lemma middleware_reaches_later_plugins:
  "features_plugin p (features_with_middleware m s) = map_sum id (features_with_middleware m) (features_plugin p s)"
proof -
  have "routes_merge (routes_with_middleware m rs) other = routes_with_middleware m (routes_merge rs other)" for rs other
    by (simp add: routes_merge_def routes_with_middleware_def)
  then show ?thesis
    by (cases s) (simp add: features_plugin_def features_with_middleware_def map_sum_res_bind Let_def split: option.splits)
qed

section \<open>An example\<close>

text \<open>A plugin with two commands; the second can never be run. The world is the list of what ran.\<close>

definition demo_command :: "string \<Rightarrow> string list command_entry" where
  "demo_command name = command_entry_new name (\<lambda>ctx w. (Inr (), (name # cx_args ctx) @ w))"

definition demo_plugin :: "(unit, unit, unit, string list) plugin" where
  "demo_plugin = (plugin_default ''jobs'' [CapCommands])\<lparr>pg_commands := [demo_command ''sync'', demo_command ''serve'']\<rparr>"

lemma demo_installs: "\<exists>s. install_all [demo_plugin] feature_set_new = Inr s"
proof -
  have "\<not> trim_is_empty ''jobs''" by code_simp
  then have "install_conditions [demo_plugin] feature_set_new"
    by (simp add: install_conditions_def plugin_ok_def demo_plugin_def plugin_default_def demo_command_def command_entry_new_def
        routes_new_def feature_set_new_def command_names_def migration_ids_def)
  then show ?thesis using install_all_iff [OF features_wf_new(1)] by blast
qed

theorem plugin_command_runs_unless_reserved_witness:
  "\<exists>commands. map ce_name commands = [''sync'', ''serve''] \<and>
     console_run_argv (\<lambda>s w. w) (console_commands commands (console_new ''app'')) [''app'', ''sync'', ''now''] [] =
       (Inr (), [''sync'', ''now'']) \<and>
     console_run_argv (\<lambda>s w. w) (console_commands commands (console_new ''app'')) [''app'', ''serve''] [] = (Inl ServeUnavailable, [])"
proof -
  obtain s where s: "install_all [demo_plugin] feature_set_new = Inr s" using demo_installs by blast
  have names: "features_into_commands s = [demo_command ''sync'', demo_command ''serve'']"
    using s install_all_iff [OF features_wf_new(1), of "[demo_plugin]" s]
    by (simp add: features_into_commands_def demo_plugin_def) (simp add: feature_set_new_def)
  have e: "demo_command ''sync'' \<in> set (pg_commands demo_plugin)" "demo_command ''serve'' \<in> set (pg_commands demo_plugin)"
    by (simp_all add: demo_plugin_def)
  have new: "cn_commands (console_new ''app'') = []" by (simp add: console_new_def)
  note sync = plugin_command_runs_unless_reserved [OF s _ e(1) new, of "\<lambda>s w. w" "''app''" "[''now'']" "[]"]
  note serve = plugin_command_runs_unless_reserved [OF s _ e(2) new, of "\<lambda>s w. w" "''app''" "[]" "[]"]
  show ?thesis
    using sync serve names
    by (intro exI [of _ "features_into_commands s"]) (simp add: demo_command_def command_entry_new_def console_new_def)
qed

theorem plugins_install_exactly_witness:
  "\<exists>s. install_all [demo_plugin] (features_allow (pg_capabilities demo_plugin) feature_set_new) = Inr s \<and>
     features_installed s = [''jobs''] \<and> features_into_commands s = pg_commands demo_plugin"
proof -
  have "\<not> trim_is_empty ''jobs''" by code_simp
  then have ok: "plugin_ok (Some (set (pg_capabilities demo_plugin))) demo_plugin"
    by (simp add: plugin_ok_def demo_plugin_def plugin_default_def routes_new_def)
  moreover have "distinct (command_names [demo_plugin])" "distinct (migration_ids [demo_plugin])" "pg_name demo_plugin = ''jobs''"
    by (simp_all add: command_names_def migration_ids_def demo_plugin_def plugin_default_def demo_command_def command_entry_new_def)
  ultimately show ?thesis
    using plugins_install_exactly [of "[demo_plugin]" "pg_capabilities demo_plugin"]
    by (cases "install_all [demo_plugin] (features_allow (pg_capabilities demo_plugin) feature_set_new)") auto
qed

end
