(* ===== verification/Captcha.thy ===== *)
theory Captcha
  imports Plugin Session_Backend Validation
begin

text \<open>
  Captchas (\<open>phoenix-captcha\<close>: \<open>lib.rs\<close>, \<open>store.rs\<close>, \<open>db_store.rs\<close>): the configuration, challenges in the
  session and in a store, the in-memory and the database store, the extractor that guards a
  handler, the validation rule and the feature with its routes. SHA-256 and Unicode lower case
  are arguments, and so are the random draws and the picture, which \<open>svg.rs\<close> makes of random
  lines and dots. The clock is more than a day before the end of \<open>SystemTime\<close>.
\<close>

section \<open>Configuration\<close>

definition DEFAULT_CHARSET :: string where
  "DEFAULT_CHARSET = ''23456789abcdefghijkmnopqrstuvwxyzABCDEFGHJKLMNPQRSTUVWXYZ''"

definition DEFAULT_SESSION_KEY :: string where
  "DEFAULT_SESSION_KEY = ''_captcha''"

definition DEFAULT_TTL :: duration where
  "DEFAULT_TTL = duration_from_secs (5 * 60)"

definition MAX_INPUT_LENGTH :: nat where
  "MAX_INPUT_LENGTH = 128"

definition MAX_CHALLENGE_ID_LENGTH :: nat where
  "MAX_CHALLENGE_ID_LENGTH = 128"

definition CHALLENGE_ID_LENGTH :: nat where
  "CHALLENGE_ID_LENGTH = 32"

record captcha_config =
  cc_charset :: string
  cc_length :: u32
  cc_width :: u32
  cc_height :: u32
  cc_noise_curves :: u32
  cc_noise_dots :: u32
  cc_session_key :: string
  cc_ttl :: duration

definition captcha_config_default :: captcha_config where
  "captcha_config_default =
     \<lparr>cc_charset = DEFAULT_CHARSET, cc_length = 5, cc_width = 160, cc_height = 60, cc_noise_curves = 3, cc_noise_dots = 28,
      cc_session_key = DEFAULT_SESSION_KEY, cc_ttl = DEFAULT_TTL\<rparr>"

datatype captcha_error =
    EmptyCharset | NonAlphanumericCharset | InvalidLength | InvalidDimensions | EmptySessionKey | InvalidTtl

definition is_ascii_alphanumeric :: "char \<Rightarrow> bool" where
  "is_ascii_alphanumeric c \<longleftrightarrow> is_ascii_alphabetic c \<or> is_ascii_digit c"

text \<open>A captcha service is its validated configuration.\<close>

definition captcha_new :: "captcha_config \<Rightarrow> captcha_error + captcha_config" where
  "captcha_new config =
     (if cc_charset config = [] then Inl EmptyCharset
      else if \<not> list_all is_ascii_alphanumeric (cc_charset config) then Inl NonAlphanumericCharset
      else if \<not> (1 \<le> cc_length config \<and> cc_length config \<le> 16) then Inl InvalidLength
      else if cc_width config < 60 \<or> cc_height config < 24 then Inl InvalidDimensions
      else if trim_is_empty (cc_session_key config) then Inl EmptySessionKey
      else if cc_ttl config < duration_from_secs 1 \<or> cc_ttl config > duration_from_secs (24 * 60 * 60) then Inl InvalidTtl
      else Inr config)"

section \<open>Challenges\<close>

record challenge =
  ch_answer :: string
  ch_svg :: string

text \<open>The packages: SHA-256, lower case, and the text of a JSON body.\<close>

record captcha_env =
  cv_sha256 :: "string \<Rightarrow> u8 list"
  cv_lowercase :: "string \<Rightarrow> string"
  cv_json :: "nat json_tree \<Rightarrow> string option"

text \<open>What a call draws: a number per glyph, the picture, an identifier, and the clock.\<close>

record captcha_draw =
  cd_glyph :: "nat \<Rightarrow> nat"
  cd_svg :: "captcha_config \<Rightarrow> string \<Rightarrow> string"
  cd_id :: "128 word"
  cd_now :: systime

definition captcha_generate :: "captcha_config \<Rightarrow> captcha_draw \<Rightarrow> challenge" where
  "captcha_generate c draw =
     (let glyphs = cc_charset c;
          answer = map (\<lambda>i. glyphs ! (cd_glyph draw i mod length glyphs)) [0..<unat (cc_length c)]
      in \<lparr>ch_answer = answer, ch_svg = cd_svg draw c answer\<rparr>)"

definition hash_answer :: "captcha_env \<Rightarrow> string \<Rightarrow> string" where
  "hash_answer env answer = hex_text (cv_sha256 env (cv_lowercase env (str_trim answer)))"

definition svg_response :: "string \<Rightarrow> ('x, 'w) response" where
  "svg_response svg =
     insert_header ''pragma'' ''no-cache''
       (insert_header ''cache-control'' ''no-store, no-cache, must-revalidate''
         (insert_header ''content-type'' ''image/svg+xml; charset=utf-8'' (response_new 200 svg)))"

definition captcha_missing_session_response :: "('x, 'w) response" where
  "captcha_missing_session_response = with_status 500 (response_text ''Session middleware is required'')"

definition store_unavailable_response :: "('x, 'w) response" where
  "store_unavailable_response = with_status 500 (response_text ''Captcha store unavailable'')"

definition captcha_error_response :: "captcha_env \<Rightarrow> string \<Rightarrow> ('x, 'w) response" where
  "captcha_error_response env field =
     with_status 422 (json_response (cv_json env
       (VObject [(''message'', VString ''The submitted data is invalid.''),
                 (''errors'', VObject [(field, VArray [VObject
                    [(''rule'', VString ''captcha''), (''message'', VString ''The captcha is invalid or has expired.'')]])])])))"

section \<open>The session flow\<close>

definition captcha_store :: "captcha_env \<Rightarrow> captcha_config \<Rightarrow> challenge \<Rightarrow> 'j session_state \<Rightarrow> 'j session_state" where
  "captcha_store env c ch s = session_put (cc_session_key c) (JString (hash_answer env (ch_answer ch))) s"

definition captcha_issue :: "captcha_env \<Rightarrow> captcha_config \<Rightarrow> captcha_draw \<Rightarrow> 'j session_state \<Rightarrow> ('x, 'w) response \<times> 'j session_state" where
  "captcha_issue env c draw s =
     (let ch = captcha_generate c draw in (svg_response (ch_svg ch), captcha_store env c ch s))"

text \<open>The two calls on the session: reading the pending answer, and removing it before the comparison.\<close>

definition pending_answer :: "string \<Rightarrow> 'j session_state \<Rightarrow> string option" where
  "pending_answer key s = (case session_get key s of Some (JString stored) \<Rightarrow> Some stored | _ \<Rightarrow> None)"

definition consume_answer :: "captcha_env \<Rightarrow> string \<Rightarrow> string \<Rightarrow> string \<Rightarrow> 'j session_state \<Rightarrow> bool \<times> 'j session_state" where
  "consume_answer env key stored input s =
     (let s = session_remove key s; input = str_trim input
      in (if input = [] \<or> length input > MAX_INPUT_LENGTH then False else constant_time_eq stored (hash_answer env input), s))"

definition verify_with_key :: "captcha_env \<Rightarrow> string \<Rightarrow> string \<Rightarrow> 'j session_state \<Rightarrow> bool \<times> 'j session_state" where
  "verify_with_key env key input s =
     (case pending_answer key s of None \<Rightarrow> (False, s) | Some stored \<Rightarrow> consume_answer env key stored input s)"

definition captcha_verify :: "captcha_env \<Rightarrow> captcha_config \<Rightarrow> string \<Rightarrow> 'j session_state \<Rightarrow> bool \<times> 'j session_state" where
  "captcha_verify env c input s = verify_with_key env (cc_session_key c) input s"

section \<open>Stores\<close>

record stored_challenge =
  sc_id :: string
  sc_answer_hash :: string
  sc_expires_at :: systime

definition is_expired_at :: "stored_challenge \<Rightarrow> systime \<Rightarrow> bool" where
  "is_expired_at ch now \<longleftrightarrow> sc_expires_at ch \<le> now"

datatype captcha_store_error = StoreBackend string | DuplicateChallenge string

record 's challenge_store =
  cs_insert :: "stored_challenge \<Rightarrow> ('s, captcha_store_error, unit) op"
  cs_take :: "systime \<Rightarrow> string \<Rightarrow> ('s, captcha_store_error, stored_challenge option) op"
  cs_purge_expired :: "systime \<Rightarrow> ('s, captcha_store_error, u64) op"

type_synonym memory_challenges = "string \<rightharpoonup> stored_challenge"

definition memory_insert :: "stored_challenge \<Rightarrow> (memory_challenges, captcha_store_error, unit) op" where
  "memory_insert ch m =
     (if m (sc_id ch) \<noteq> None then (Inl (DuplicateChallenge (sc_id ch)), m) else (Inr (), m(sc_id ch \<mapsto> ch)))"

definition memory_take :: "systime \<Rightarrow> string \<Rightarrow> (memory_challenges, captcha_store_error, stored_challenge option) op" where
  "memory_take now i m =
     (Inr (case m i of None \<Rightarrow> None | Some ch \<Rightarrow> if is_expired_at ch now then None else Some ch), m(i := None))"

definition memory_purge_expired :: "systime \<Rightarrow> (memory_challenges, captcha_store_error, u64) op" where
  "memory_purge_expired now m =
     (let kept = (\<lambda>i. case m i of None \<Rightarrow> None | Some ch \<Rightarrow> if is_expired_at ch now then None else Some ch)
      in (Inr (of_nat (card (dom m) - card (dom kept))), kept))"

definition memory_captcha_store :: "memory_challenges challenge_store" where
  "memory_captcha_store = \<lparr>cs_insert = memory_insert, cs_take = memory_take, cs_purge_expired = memory_purge_expired\<rparr>"

section \<open>The database store\<close>

record captcha_row =
  cr_answer_hash :: string
  cr_expires_at :: string

text \<open>The format \<open>{:020}\<close>.\<close>

definition pad20 :: "nat \<Rightarrow> string" where
  "pad20 n = replicate (20 - length (nat_to_string n)) (CHR ''0'') @ nat_to_string n"

definition encode_time :: "systime \<Rightarrow> string" where
  "encode_time t = pad20 (min (nat t) (2 ^ 64 - 1))"

text \<open>\<open>text.trim().parse::<u64>()\<close>\<close>

definition parse_u64 :: "string \<Rightarrow> u64 option" where
  "parse_u64 s =
     (let digits = (if s \<noteq> [] \<and> hd s = CHR ''+'' then tl s else s)
      in if digits = [] \<or> \<not> list_all is_ascii_digit digits then None else parse_digits digits)"

definition decode_time :: "string \<Rightarrow> captcha_store_error + systime" where
  "decode_time text =
     (case parse_u64 (str_trim text) of
        None \<Rightarrow> Inl (StoreBackend (''invalid stored captcha expiry `'' @ text @ ''`''))
      | Some nanos \<Rightarrow> Inr (unix_epoch + int (unat nanos)))"

definition row_into_challenge :: "string \<Rightarrow> captcha_row \<Rightarrow> captcha_store_error + stored_challenge" where
  "row_into_challenge i row =
     map_sum id (\<lambda>t. \<lparr>sc_id = i, sc_answer_hash = cr_answer_hash row, sc_expires_at = t\<rparr>) (decode_time (cr_expires_at row))"

text \<open>The table by its key, and the failures of the statements to come; one that fails changes nothing.\<close>

record captcha_db =
  cb_rows :: "string \<rightharpoonup> captcha_row"
  cb_faults :: "string option list"

definition captcha_statement :: "((string \<rightharpoonup> captcha_row) \<Rightarrow> 'r \<times> (string \<rightharpoonup> captcha_row)) \<Rightarrow> (captcha_db, captcha_store_error, 'r) op" where
  "captcha_statement f db =
     (case cb_faults db of
        Some e # faults \<Rightarrow> (Inl (StoreBackend e), db\<lparr>cb_faults := faults\<rparr>)
      | faults \<Rightarrow> (case f (cb_rows db) of (r, rows) \<Rightarrow> (Inr r, \<lparr>cb_rows = rows, cb_faults = tl faults\<rparr>)))"

definition select_row :: "string \<Rightarrow> (captcha_db, captcha_store_error, captcha_row option) op" where
  "select_row i = captcha_statement (\<lambda>rows. (rows i, rows))"

text \<open>Deleting returns the number of rows affected.\<close>

definition delete_row :: "string \<Rightarrow> (captcha_db, captcha_store_error, nat) op" where
  "delete_row i = captcha_statement (\<lambda>rows. (if rows i = None then 0 else 1, rows(i := None)))"

definition db_insert :: "stored_challenge \<Rightarrow> (captcha_db, captcha_store_error, unit) op" where
  "db_insert ch =
     op_bind (select_row (sc_id ch)) (\<lambda>existing.
       if existing \<noteq> None then op_throw (DuplicateChallenge (sc_id ch))
       else captcha_statement (\<lambda>rows.
         ((), rows(sc_id ch \<mapsto> \<lparr>cr_answer_hash = sc_answer_hash ch, cr_expires_at = encode_time (sc_expires_at ch)\<rparr>))))"

text \<open>What follows the deletion: \<open>row\<close> is the row read before it.\<close>

definition claim_row :: "systime \<Rightarrow> string \<Rightarrow> captcha_row \<Rightarrow> nat \<Rightarrow> captcha_store_error + stored_challenge option" where
  "claim_row now i row deleted =
     (if deleted = 0 then Inr None
      else map_sum id (\<lambda>ch. if is_expired_at ch now then None else Some ch) (row_into_challenge i row))"

definition db_take :: "systime \<Rightarrow> string \<Rightarrow> (captcha_db, captcha_store_error, stored_challenge option) op" where
  "db_take now i =
     op_bind (select_row i) (\<lambda>row.
       case row of
         None \<Rightarrow> op_return None
       | Some row \<Rightarrow> op_bind (delete_row i) (\<lambda>deleted. op_lift (claim_row now i row deleted)))"

text \<open>\<open>expires_at <= ?\<close> compares texts.\<close>

definition db_purge_expired :: "systime \<Rightarrow> (captcha_db, captcha_store_error, u64) op" where
  "db_purge_expired now =
     captcha_statement (\<lambda>rows.
       (let kept = (\<lambda>i. case rows i of None \<Rightarrow> None | Some row \<Rightarrow> if cr_expires_at row \<le> encode_time now then None else Some row)
        in (of_nat (card (dom rows) - card (dom kept)), kept)))"

definition db_captcha_store :: "captcha_db challenge_store" where
  "db_captcha_store = \<lparr>cs_insert = db_insert, cs_take = db_take, cs_purge_expired = db_purge_expired\<rparr>"

section \<open>The store flow\<close>

text \<open>\<open>{:032x}\<close> of the 128 bits drawn.\<close>

definition new_challenge_id :: "128 word \<Rightarrow> string" where
  "new_challenge_id bits = map (\<lambda>i. HEX ! unat (and (drop_bit (4 * (31 - i)) bits) 0xF)) [0..<32]"

record issued_challenge =
  ic_id :: string
  ic_svg :: string
  ic_expires_in :: duration

definition issued_to_json :: "issued_challenge \<Rightarrow> nat json_tree" where
  "issued_to_json issued =
     VObject [(''id'', VString (ic_id issued)), (''svg'', VString (ic_svg issued)),
              (''expires_in'', VNumber (ic_expires_in issued div nanos_per_sec))]"

definition issue_stored :: "captcha_env \<Rightarrow> captcha_config \<Rightarrow> captcha_draw \<Rightarrow> 's challenge_store \<Rightarrow> ('s, captcha_store_error, issued_challenge) op" where
  "issue_stored env c draw store =
     (let ch = captcha_generate c draw; i = new_challenge_id (cd_id draw)
      in op_bind (cs_insert store \<lparr>sc_id = i, sc_answer_hash = hash_answer env (ch_answer ch),
                                   sc_expires_at = cd_now draw + int (cc_ttl c)\<rparr>) (\<lambda>_.
         op_return \<lparr>ic_id = i, ic_svg = ch_svg ch, ic_expires_in = cc_ttl c\<rparr>))"

definition verify_stored :: "captcha_env \<Rightarrow> systime \<Rightarrow> 's challenge_store \<Rightarrow> string \<Rightarrow> string \<Rightarrow> ('s, captcha_store_error, bool) op" where
  "verify_stored env now store i input =
     (let i = str_trim i
      in if i = [] \<or> length i > MAX_CHALLENGE_ID_LENGTH then op_return False
         else op_bind (cs_take store now i) (\<lambda>taken.
           case taken of
             None \<Rightarrow> op_return False
           | Some ch \<Rightarrow>
               (let input = str_trim input
                in if input = [] \<or> length input > MAX_INPUT_LENGTH then op_return False
                   else op_return (constant_time_eq (sc_answer_hash ch) (hash_answer env input)))))"

section \<open>The extractor and the validation rule\<close>

datatype 'r captcha_rejection = CaptchaExtract 'r | CaptchaMissingSession | CaptchaInvalid string

definition captcha_rejection_response :: "captcha_env \<Rightarrow> ('r \<Rightarrow> ('x, 'w) response) \<Rightarrow> 'r captcha_rejection \<Rightarrow> ('x, 'w) response" where
  "captcha_rejection_response env into_response rejection =
     (case rejection of
        CaptchaExtract r \<Rightarrow> into_response r
      | CaptchaMissingSession \<Rightarrow> captcha_missing_session_response
      | CaptchaInvalid field \<Rightarrow> captcha_error_response env field)"

definition captcha_protected :: "captcha_env \<Rightarrow> (('a, 'x) request \<Rightarrow> 'r + 'e) \<Rightarrow> ('e \<Rightarrow> string) \<Rightarrow> string \<Rightarrow> ('a, 'x) request \<Rightarrow>
    ('j session_state, 'r captcha_rejection, 'e) op" where
  "captcha_protected env extract captcha_input captcha_field request s =
     (case extract request of
        Inl r \<Rightarrow> (Inl (CaptchaExtract r), s)
      | Inr e \<Rightarrow>
          (if \<not> rq_has_session request then (Inl CaptchaMissingSession, s)
           else (case verify_with_key env DEFAULT_SESSION_KEY (captcha_input e) s of
                   (True, s) \<Rightarrow> (Inr e, s)
                 | (False, s) \<Rightarrow> (Inl (CaptchaInvalid captcha_field), s))))"

definition captcha_format :: "u32 \<Rightarrow> 'n rule" where
  "captcha_format length' =
     \<lparr>rl_name = ''captcha'',
      rl_validate = (\<lambda>reg context.
        if (case rc_value context of
              Some (VString v) \<Rightarrow>
                (let trimmed = str_trim v
                 in trimmed \<noteq> [] \<and> chars_count trimmed = unat length' \<and> list_all is_ascii_alphanumeric trimmed)
            | _ \<Rightarrow> False)
        then Inr ()
        else Inl (''The '' @ rc_field context @ '' field must be the '' @ nat_to_string (unat length') @
                  ''-character text from the captcha image.''))\<rparr>"

section \<open>The feature\<close>

definition CAPTCHAS_MIGRATION_ID :: string where
  "CAPTCHAS_MIGRATION_ID = ''202607260003''"

definition captchas_migration :: migration where
  "captchas_migration =
     migration_down ''DROP TABLE IF EXISTS captchas''
       (migration_down ''DROP INDEX IF EXISTS captchas_expires_at''
         (migration_up ''CREATE INDEX IF NOT EXISTS captchas_expires_at ON captchas (expires_at)''
           (migration_up
             ''CREATE TABLE IF NOT EXISTS captchas (id TEXT PRIMARY KEY, answer_hash TEXT NOT NULL, expires_at TEXT NOT NULL)''
             (migration_new CAPTCHAS_MIGRATION_ID ''create captchas table''))))"

record 's captcha_feature =
  cf_captcha :: captcha_config
  cf_path :: string
  cf_challenge_path :: string
  cf_store :: "'s challenge_store option"

definition captcha_feature_new :: "'s captcha_feature" where
  "captcha_feature_new =
     \<lparr>cf_captcha = captcha_config_default, cf_path = ''/captcha'', cf_challenge_path = ''/captcha/challenge'', cf_store = None\<rparr>"

definition captcha_feature_with_config :: "captcha_config \<Rightarrow> captcha_error + 's captcha_feature" where
  "captcha_feature_with_config config = map_sum id (\<lambda>c. captcha_feature_new\<lparr>cf_captcha := c\<rparr>) (captcha_new config)"

definition captcha_feature_path :: "string \<Rightarrow> 's captcha_feature \<Rightarrow> 's captcha_feature" where
  "captcha_feature_path path f = f\<lparr>cf_path := path\<rparr>"

definition captcha_feature_challenge_path :: "string \<Rightarrow> 's captcha_feature \<Rightarrow> 's captcha_feature" where
  "captcha_feature_challenge_path path f = f\<lparr>cf_challenge_path := path\<rparr>"

definition captcha_feature_with_store :: "'s challenge_store \<Rightarrow> 's captcha_feature \<Rightarrow> 's captcha_feature" where
  "captcha_feature_with_store store f = f\<lparr>cf_store := Some store\<rparr>"

text \<open>The two handlers; \<open>draw\<close> is what a request draws in the world it finds.\<close>

definition captcha_image_handler :: "captcha_env \<Rightarrow> (('j, 'b, 's) web_world \<Rightarrow> captcha_draw) \<Rightarrow> captcha_config \<Rightarrow>
    ('a, 'x, ('j, 'b, 's) web_world) handler" where
  "captcha_image_handler env draw c request w =
     (if \<not> rq_has_session request then (Some captcha_missing_session_response, w)
      else (case captcha_issue env c (draw w) (ww_session w, ww_store w) of
              (response, session, store) \<Rightarrow> (Some response, w\<lparr>ww_session := session, ww_store := store\<rparr>)))"

definition captcha_challenge_handler :: "captcha_env \<Rightarrow> (('j, 'b, 's) web_world \<Rightarrow> captcha_draw) \<Rightarrow> captcha_config \<Rightarrow> 's challenge_store \<Rightarrow>
    ('a, 'x, ('j, 'b, 's) web_world) handler" where
  "captcha_challenge_handler env draw c store request w =
     (case issue_stored env c (draw w) store (ww_rest w) of
        (result, rest) \<Rightarrow>
          (Some (case result of
                   Inr issued \<Rightarrow>
                     insert_header ''cache-control'' ''no-store, no-cache, must-revalidate''
                       (json_response (cv_json env (issued_to_json issued)))
                 | Inl _ \<Rightarrow> store_unavailable_response), w\<lparr>ww_rest := rest\<rparr>))"

definition captcha_routes :: "captcha_env \<Rightarrow> (('j, 'b, 's) web_world \<Rightarrow> captcha_draw) \<Rightarrow> 's captcha_feature \<Rightarrow>
    ('a, 'x, ('j, 'b, 's) web_world) routes" where
  "captcha_routes env draw f =
     (let routes = routes_name ''image''
            (routes_get (cf_path f) (captcha_image_handler env draw (cf_captcha f), Buffered) routes_new)
      in case cf_store f of
           None \<Rightarrow> routes
         | Some store \<Rightarrow>
             routes_name ''challenge''
               (routes_get (cf_challenge_path f) (captcha_challenge_handler env draw (cf_captcha f) store, Buffered) routes))"

definition captcha_plugin :: "captcha_env \<Rightarrow> (('j, 'b, 's) web_world \<Rightarrow> captcha_draw) \<Rightarrow> string \<Rightarrow> 's captcha_feature \<Rightarrow>
    ('a, 'x, ('j, 'b, 's) web_world, 'v) plugin" where
  "captcha_plugin env draw version f =
     (plugin_default ''captcha'' (if cf_store f \<noteq> None then [CapRoutes, CapMigrations] else [CapRoutes]))
       \<lparr>pg_version := version, pg_routes := captcha_routes env draw f,
        pg_migrations := (if cf_store f \<noteq> None then [captchas_migration] else [])\<rparr>"

end
