(* ===== verification/Captcha_Props.thy ===== *)
theory Captcha_Props
  imports Captcha Session_Sign_In
begin

text \<open>
  What holds of the captchas of Captcha: what a stored challenge accepts and how often, for the
  two stores by one contract, for tasks that take from the database store at the same time, and
  for the answer that is pending in a session.
\<close>

section \<open>What an answer is compared with\<close>

definition answer_accepted :: "captcha_env \<Rightarrow> string \<Rightarrow> string \<Rightarrow> bool" where
  "answer_accepted env stored input \<longleftrightarrow>
     str_trim input \<noteq> [] \<and> length (str_trim input) \<le> MAX_INPUT_LENGTH \<and> stored = hash_answer env (str_trim input)"

lemma consume_answer_eq: "consume_answer env key stored input s = (answer_accepted env stored input, session_remove key s)"
  by (auto simp: consume_answer_def answer_accepted_def Let_def constant_time_eq_iff)

lemma verify_stored_eq:
  "verify_stored env now store i input =
     (if str_trim i = [] \<or> length (str_trim i) > MAX_CHALLENGE_ID_LENGTH then op_return False
      else op_bind (cs_take store now (str_trim i)) (\<lambda>taken.
        op_return (case taken of None \<Rightarrow> False | Some ch \<Rightarrow> answer_accepted env (sc_answer_hash ch) input)))"
  by (auto simp: verify_stored_def answer_accepted_def Let_def constant_time_eq_iff op_bind_def fun_eq_iff split: option.splits sum.splits prod.splits)

section \<open>The contract of a store\<close>

text \<open>A challenge is handed out at most once: taking removes it, and only an insertion puts it there.\<close>

locale one_time_store =
  fixes store :: "'s challenge_store" and holds :: "'s \<Rightarrow> string \<Rightarrow> bool"
  assumes take_held: "cs_take store now i s = (Inr (Some ch), s') \<Longrightarrow> holds s i \<and> \<not> holds s' i"
    and take_keeps_out: "cs_take store now i s = (r, s') \<Longrightarrow> holds s' j \<Longrightarrow> holds s j"
    and insert_refused: "cs_insert store ch s = (Inl e, s') \<Longrightarrow> holds s' j \<Longrightarrow> holds s j"
    and insert_only: "cs_insert store ch s = (Inr (), s') \<Longrightarrow> holds s' j \<Longrightarrow> j = sc_id ch \<or> holds s j"
    and purge_keeps_out: "cs_purge_expired store now s = (p, s') \<Longrightarrow> holds s' j \<Longrightarrow> holds s j"

text \<open>The calls an application makes on the store, and what they did: the ids issued, those accepted.\<close>

datatype captcha_call = CallIssue captcha_config captcha_draw | CallVerify systime string string | CallPurge systime

definition captcha_call_run :: "captcha_env \<Rightarrow> 's challenge_store \<Rightarrow> captcha_call \<Rightarrow> 's \<Rightarrow> (string list \<times> string list) \<times> 's" where
  "captcha_call_run env store call s =
     (case call of
        CallIssue c draw \<Rightarrow>
          (case issue_stored env c draw store s of (Inr issued, s) \<Rightarrow> (([ic_id issued], []), s) | (Inl _, s) \<Rightarrow> (([], []), s))
      | CallVerify now i input \<Rightarrow>
          (case verify_stored env now store i input s of (Inr True, s) \<Rightarrow> (([], [str_trim i]), s) | (_, s) \<Rightarrow> (([], []), s))
      | CallPurge now \<Rightarrow> (([], []), snd (cs_purge_expired store now s)))"

primrec captcha_calls_run :: "captcha_env \<Rightarrow> 's challenge_store \<Rightarrow> captcha_call list \<Rightarrow> 's \<Rightarrow> (string list \<times> string list) \<times> 's" where
  "captcha_calls_run env store [] s = (([], []), s)"
| "captcha_calls_run env store (call # calls) s =
     (case captcha_call_run env store call s of
        ((issued, accepted), s) \<Rightarrow>
          (case captcha_calls_run env store calls s of ((issued', accepted'), s) \<Rightarrow> ((issued @ issued', accepted @ accepted'), s)))"

context one_time_store
begin

lemma call_spends:
  assumes "captcha_call_run env store call s = ((issued, accepted), s')"
  shows "count_list accepted i + of_bool (holds s' i) \<le> count_list issued i + of_bool (holds s i)"
proof (cases call)
  case (CallIssue c draw)
  then show ?thesis
    using assms insert_refused insert_only
    by (fastforce simp: captcha_call_run_def issue_stored_def Let_def op_bind_apply split: prod.splits sum.splits)
next
  case (CallVerify now j input)
  show ?thesis
  proof (cases "verify_stored env now store j input s")
    case (Pair r t)
    then consider (yes) "r = Inr True" "accepted = [str_trim j]" "issued = []" "t = s'" | (no) "r \<noteq> Inr True" "accepted = []" "issued = []" "t = s'"
      using assms CallVerify by (auto simp: captcha_call_run_def split: sum.splits bool.splits)
    then show ?thesis
    proof cases
      case yes
      then obtain ch where "cs_take store now (str_trim j) s = (Inr (Some ch), s')"
        using Pair by (auto simp: verify_stored_eq op_bind_apply split: if_splits prod.splits sum.splits option.splits)
      then show ?thesis
        using take_held take_keeps_out yes by (fastforce simp: of_bool_def)
    next
      case no
      then have "s' = s \<or> (\<exists>r. cs_take store now (str_trim j) s = (r, s'))"
        using Pair by (auto simp: verify_stored_eq op_bind_apply split: if_splits prod.splits sum.splits)
      then show ?thesis
        using take_keeps_out no by (auto simp: of_bool_def)
    qed
  qed
next
  case (CallPurge now)
  then show ?thesis
    using assms purge_keeps_out by (cases "cs_purge_expired store now s") (auto simp: captcha_call_run_def of_bool_def)
qed

lemma calls_spend:
  assumes "captcha_calls_run env store calls s = ((issued, accepted), s')"
  shows "count_list accepted i + of_bool (holds s' i) \<le> count_list issued i + of_bool (holds s i)"
  using assms
proof (induction calls arbitrary: s issued accepted)
  case (Cons call calls)
  then obtain is1 ac1 s1 is2 ac2 where 1: "captcha_call_run env store call s = ((is1, ac1), s1)"
    and 2: "captcha_calls_run env store calls s1 = ((is2, ac2), s')" and "issued = is1 @ is2" "accepted = ac1 @ ac2"
    by (auto split: prod.splits)
  then show ?case using call_spends [OF 1, of i] Cons.IH [OF 2] by simp
qed simp

lemma accepted_le_issued:
  assumes "\<not> holds s i"
  shows "count_list (snd (fst (captcha_calls_run env store calls s))) i \<le> count_list (fst (fst (captcha_calls_run env store calls s))) i"
  using calls_spend [of env calls s, where i = i] assms by (cases "captcha_calls_run env store calls s") (auto simp: of_bool_def split: if_splits)

end

section \<open>Times in the table\<close>

lemma digits_value_Cons: "digits_value (c # s) = digit_val c * 10 ^ length s + digits_value s"
  by (induction s rule: rev_induct) (auto simp: digits_value_def algebra_simps)

lemma digits_value_bound: "list_all is_ascii_digit s \<Longrightarrow> digits_value s < 10 ^ length s"
  by (induction s) (auto simp: digits_value_Cons dest!: digit_val_le intro: order.strict_trans2 [OF add_strict_left_mono])

lemma digit_less_iff: "is_ascii_digit c \<Longrightarrow> is_ascii_digit d \<Longrightarrow> c < d \<longleftrightarrow> digit_val c < digit_val d"
  by (auto simp: less_char_def digit_val_def is_ascii_digit_def)

lemma digit_eq_iff: "is_ascii_digit c \<Longrightarrow> is_ascii_digit d \<Longrightarrow> c = d \<longleftrightarrow> digit_val c = digit_val d"
  using digit_less_iff [of c d] digit_less_iff [of d c] by (metis neq_iff)

lemma padded_order:
  assumes "length a = length b" "list_all is_ascii_digit a" "list_all is_ascii_digit b"
  shows "a \<le> b \<longleftrightarrow> digits_value a \<le> digits_value b"
  using assms
proof (induction a b rule: list_induct2)
  case (Cons c a d b)
  have va: "digits_value a < 10 ^ length b" and vb: "digits_value b < 10 ^ length b"
    using digits_value_bound [of a] digits_value_bound [of b] Cons.prems Cons.hyps by simp_all
  have less: "x * 10 ^ n + p < y * 10 ^ n + q" if "x < y" "p < 10 ^ n" for x y p q n :: nat
  proof -
    have "x * 10 ^ n + p < Suc x * 10 ^ n" using that by simp
    also have "\<dots> \<le> y * 10 ^ n" using that by (intro mult_right_mono) auto
    finally show ?thesis by simp
  qed
  consider "digit_val c < digit_val d" | "digit_val d < digit_val c" | "c = d"
    using digit_eq_iff [of c d] Cons.prems by fastforce
  then show ?case
  proof cases
    case 1
    then show ?thesis
      using less [OF 1 va, of "digits_value b"] Cons.prems Cons.hyps by (simp add: digits_value_Cons digit_less_iff Cons_le_Cons)
  next
    case 2
    then show ?thesis
      using less [OF 2 vb, of "digits_value a"] Cons.prems Cons.hyps digit_less_iff [of d c]
      by (auto simp: digits_value_Cons Cons_le_Cons dest: order.strict_implies_not_eq)
  next
    case 3
    then show ?thesis using Cons by (simp add: digits_value_Cons Cons_le_Cons)
  qed
qed simp

lemma nat_to_string_length: "n < 10 ^ Suc k \<Longrightarrow> length (nat_to_string n) \<le> Suc k"
proof (induction k arbitrary: n)
  case (Suc k)
  show ?case
  proof (cases "n < 10")
    case False
    then show ?thesis using Suc.IH [of "n div 10"] Suc.prems by (simp add: nat_to_string_big)
  qed simp
qed simp

lemma digits_value_zeros [simp]: "digits_value (replicate k (CHR ''0'') @ s) = digits_value s"
  by (induction k) (simp_all add: digits_value_Cons digit_val_def)

lemma pad20_digits:
  assumes "n < 2 ^ 64"
  shows "length (pad20 n) = 20" and "list_all is_ascii_digit (pad20 n)" and "digits_value (pad20 n) = n"
proof -
  have "length (nat_to_string n) \<le> Suc 19" using assms by (intro nat_to_string_length) simp
  then show "length (pad20 n) = 20" by (simp add: pad20_def)
  have "is_ascii_digit (CHR ''0'')" by (simp add: is_ascii_digit_def)
  then show "list_all is_ascii_digit (pad20 n)"
    using nat_to_string_digits [of n] by (auto simp: pad20_def list_all_iff)
qed (simp add: pad20_def)

definition storable_time :: "systime \<Rightarrow> bool" where
  "storable_time t \<longleftrightarrow> 0 \<le> t \<and> t < 2 ^ 64"

lemma encode_time_digits:
  "length (encode_time t) = 20" "list_all is_ascii_digit (encode_time t)" "digits_value (encode_time t) = min (nat t) (2 ^ 64 - 1)"
  using pad20_digits [of "min (nat t) (2 ^ 64 - 1)"] by (simp_all add: encode_time_def)

lemma encode_time_order: "storable_time t \<Longrightarrow> 0 \<le> now \<Longrightarrow> encode_time t \<le> encode_time now \<longleftrightarrow> t \<le> now"
  using padded_order [of "encode_time t" "encode_time now"] by (auto simp: encode_time_digits storable_time_def)

text \<open>Text without white space or bytes beyond ASCII is its own trimming.\<close>

lemma ws_len_plain: "s \<noteq> [] \<Longrightarrow> 33 \<le> (of_char (hd s) :: nat) \<Longrightarrow> (of_char (hd s) :: nat) < 128 \<Longrightarrow> ws_len s = 0"
proof (cases s)
  case (Cons a r)
  assume "33 \<le> (of_char (hd s) :: nat)" "(of_char (hd s) :: nat) < 128"
  then have "\<not> is_ascii_ws a" "a \<noteq> CHR 0xC2" "a \<noteq> CHR 0xE1" "a \<noteq> CHR 0xE2" "a \<noteq> CHR 0xE3"
    using Cons by (auto simp: is_ascii_ws_def)
  then show ?thesis using Cons by (simp add: ws_len_def split: list.split)
qed (simp add: ws_len_def)

lemma str_trim_plain:
  assumes "s \<noteq> []" and plain: "\<And>c. c \<in> set s \<Longrightarrow> 33 \<le> (of_char c :: nat) \<and> (of_char c :: nat) < 128"
  shows "str_trim s = s"
proof -
  have suffix: "ws_len (drop (length s - k) s) = 0" if "0 < k" for k
  proof (rule ws_len_plain)
    show ne: "drop (length s - k) s \<noteq> []" using assms(1) that by (cases s) auto
    have "hd (drop (length s - k) s) \<in> set s" using ne by (meson hd_in_set in_set_dropD)
    then show "33 \<le> (of_char (hd (drop (length s - k) s)) :: nat)" "(of_char (hd (drop (length s - k) s)) :: nat) < 128"
      using plain by auto
  qed
  have "ws_len s = 0" using suffix [of "length s"] assms(1) by simp
  moreover have "ws_end s = 0" by (simp add: ws_end_def suffix)
  ultimately show ?thesis by (simp add: str_trim_def trim_start.simps trim_end.simps)
qed

lemma decode_encode_time: "storable_time t \<Longrightarrow> decode_time (encode_time t) = Inr t"
proof -
  assume t: "storable_time t"
  let ?e = "encode_time t"
  have ne: "?e \<noteq> []" using encode_time_digits(1) [of t] by auto
  have digit: "is_ascii_digit c" if "c \<in> set ?e" for c
    using that encode_time_digits(2) [of t] by (simp add: list_all_iff)
  have "str_trim ?e = ?e" by (intro str_trim_plain ne) (use digit in \<open>fastforce simp: is_ascii_digit_def\<close>)
  moreover have "hd ?e \<noteq> CHR ''+''" using digit [of "hd ?e"] ne by (auto simp: is_ascii_digit_def)
  moreover have "min (nat t) (2 ^ 64 - 1) = nat t" using t by (auto simp: storable_time_def)
  ultimately show ?thesis
    using t ne encode_time_digits(2,3) [of t]
    by (simp add: decode_time_def parse_u64_def Let_def parse_digits_def storable_time_def unix_epoch_def unat_of_nat nat_less_iff uint_word_of_int)
qed

section \<open>The database store does what the one in memory does\<close>

text \<open>The challenges a table holds.\<close>

definition row_challenge :: "string \<Rightarrow> captcha_row \<Rightarrow> stored_challenge option" where
  "row_challenge i row = (case row_into_challenge i row of Inr ch \<Rightarrow> Some ch | Inl _ \<Rightarrow> None)"

definition db_challenges :: "captcha_db \<Rightarrow> memory_challenges" where
  "db_challenges db = (\<lambda>i. Option.bind (cb_rows db i) (row_challenge i))"

definition db_sound :: "captcha_db \<Rightarrow> bool" where
  "db_sound db \<longleftrightarrow> cb_faults db = [] \<and> (\<forall>i row. cb_rows db i = Some row \<longrightarrow> (\<exists>t. storable_time t \<and> cr_expires_at row = encode_time t))"

lemma row_into_encoded [simp]:
  "storable_time t \<Longrightarrow> row_into_challenge i \<lparr>cr_answer_hash = h, cr_expires_at = encode_time t\<rparr> = Inr \<lparr>sc_id = i, sc_answer_hash = h, sc_expires_at = t\<rparr>"
  by (simp add: row_into_challenge_def decode_encode_time)

lemma sound_row:
  assumes "db_sound db" and "cb_rows db i = Some row"
  obtains h t where "row = \<lparr>cr_answer_hash = h, cr_expires_at = encode_time t\<rparr>" "storable_time t"
    "db_challenges db i = Some \<lparr>sc_id = i, sc_answer_hash = h, sc_expires_at = t\<rparr>"
proof -
  obtain t where t: "storable_time t" "cr_expires_at row = encode_time t" using assms by (auto simp: db_sound_def)
  then have "row = \<lparr>cr_answer_hash = cr_answer_hash row, cr_expires_at = encode_time t\<rparr>" by simp
  moreover from this t have "db_challenges db i = Some \<lparr>sc_id = i, sc_answer_hash = cr_answer_hash row, sc_expires_at = t\<rparr>"
    using assms(2) by (metis (no_types, lifting) bind.bind_lunit db_challenges_def row_challenge_def row_into_encoded sum.simps(6))
  ultimately show thesis using that t by blast
qed

lemma challenges_none: "db_sound db \<Longrightarrow> db_challenges db i = None \<longleftrightarrow> cb_rows db i = None"
  by (cases "cb_rows db i") (auto simp: db_challenges_def elim: sound_row)

lemma statement_sound: "cb_faults db = [] \<Longrightarrow> captcha_statement f db = (Inr (fst (f (cb_rows db))), db\<lparr>cb_rows := snd (f (cb_rows db))\<rparr>)"
  by (auto simp: captcha_statement_def split: prod.splits)

lemma sound_delete: "db_sound db \<Longrightarrow> db_sound (db\<lparr>cb_rows := (cb_rows db)(i := None)\<rparr>)"
  by (auto simp: db_sound_def split: if_splits)

lemma sound_put: "db_sound db \<Longrightarrow> storable_time t \<Longrightarrow> db_sound (db\<lparr>cb_rows := (cb_rows db)(i \<mapsto> \<lparr>cr_answer_hash = h, cr_expires_at = encode_time t\<rparr>)\<rparr>)"
  by (auto simp: db_sound_def split: if_splits)

lemma db_insert_refines:
  assumes "db_sound db" and "storable_time (sc_expires_at ch)"
  shows "case db_insert ch db of (r, db') \<Rightarrow> memory_insert ch (db_challenges db) = (r, db_challenges db') \<and> db_sound db'"
proof -
  have [simp]: "cb_faults db = []" using assms(1) by (simp add: db_sound_def)
  show ?thesis
  proof (cases "cb_rows db (sc_id ch)")
    case None
    then have "db_challenges db (sc_id ch) = None" using challenges_none assms(1) by blast
    moreover have "(db_challenges db)(sc_id ch \<mapsto> ch) = db_challenges (db\<lparr>cb_rows := (cb_rows db)(sc_id ch \<mapsto> \<lparr>cr_answer_hash = sc_answer_hash ch, cr_expires_at = encode_time (sc_expires_at ch)\<rparr>)\<rparr>)"
      using assms(2) by (auto simp: db_challenges_def row_challenge_def)
    ultimately show ?thesis
      using None sound_put [OF assms, of "sc_id ch" "sc_answer_hash ch"]
      by (simp add: db_insert_def op_bind_apply select_row_def statement_sound memory_insert_def)
  next
    case (Some row)
    then have "db_challenges db (sc_id ch) \<noteq> None" using challenges_none [OF assms(1)] by simp
    then show ?thesis
      using Some assms(1) by (auto simp: db_insert_def op_bind_apply select_row_def statement_sound memory_insert_def)
  qed
qed

lemma db_take_refines:
  assumes "db_sound db"
  shows "case db_take now i db of (r, db') \<Rightarrow> memory_take now i (db_challenges db) = (r, db_challenges db') \<and> db_sound db'"
proof -
  have [simp]: "cb_faults db = []" using assms by (simp add: db_sound_def)
  have gone: "(db_challenges db)(i := None) = db_challenges (db\<lparr>cb_rows := (cb_rows db)(i := None)\<rparr>)"
    by (auto simp: db_challenges_def)
  show ?thesis
  proof (cases "cb_rows db i")
    case None
    then have "(db_challenges db) i = None" using challenges_none assms by blast
    then have "(db_challenges db)(i := None) = db_challenges db" by auto
    then show ?thesis
      using None assms \<open>db_challenges db i = None\<close> by (simp add: db_take_def op_bind_apply select_row_def statement_sound memory_take_def)
  next
    case (Some row)
    from sound_row [OF assms Some] obtain h t where row: "row = \<lparr>cr_answer_hash = h, cr_expires_at = encode_time t\<rparr>" "storable_time t"
      "db_challenges db i = Some \<lparr>sc_id = i, sc_answer_hash = h, sc_expires_at = t\<rparr>" .
    then show ?thesis
      using Some assms sound_delete [OF assms, of i]
      by (simp add: db_take_def op_bind_apply select_row_def delete_row_def statement_sound claim_row_def memory_take_def gone)
  qed
qed

lemma db_purge_refines:
  assumes "db_sound db" and "0 \<le> now"
  shows "case db_purge_expired now db of (r, db') \<Rightarrow> memory_purge_expired now (db_challenges db) = (r, db_challenges db') \<and> db_sound db'"
proof -
  have [simp]: "cb_faults db = []" using assms(1) by (simp add: db_sound_def)
  let ?keep = "\<lambda>i. case cb_rows db i of None \<Rightarrow> None | Some row \<Rightarrow> if cr_expires_at row \<le> encode_time now then None else Some row"
  have point: "db_challenges (db\<lparr>cb_rows := ?keep\<rparr>) i =
      (case db_challenges db i of None \<Rightarrow> None | Some ch \<Rightarrow> if is_expired_at ch now then None else Some ch)" for i
  proof (cases "cb_rows db i")
    case (Some row)
    from sound_row [OF assms(1) Some] obtain h t where row: "row = \<lparr>cr_answer_hash = h, cr_expires_at = encode_time t\<rparr>" "storable_time t"
      "db_challenges db i = Some \<lparr>sc_id = i, sc_answer_hash = h, sc_expires_at = t\<rparr>" .
    then show ?thesis
      using Some by (auto simp: db_challenges_def row_challenge_def encode_time_order [OF row(2) assms(2)] is_expired_at_def)
  qed (simp add: db_challenges_def)
  have sound: "db_sound (db\<lparr>cb_rows := ?keep\<rparr>)" using assms(1) by (fastforce simp: db_sound_def split: option.splits if_splits)
  have "dom (db_challenges d) = dom (cb_rows d)" if "db_sound d" for d using challenges_none [OF that] by (simp add: dom_def)
  from this [OF assms(1)] this [OF sound] show ?thesis
    using sound by (simp add: db_purge_expired_def statement_sound memory_purge_expired_def Let_def flip: point)
qed

interpretation memory_captchas: one_time_store memory_captcha_store "\<lambda>m i. m i \<noteq> None"
  by unfold_locales
    (auto simp: memory_captcha_store_def memory_take_def memory_insert_def memory_purge_expired_def Let_def split: if_splits option.splits)

lemma statement_cases:
  assumes "captcha_statement f db = (r, db')"
  obtains (fault) e where "r = Inl (StoreBackend e)" "cb_rows db' = cb_rows db"
  | (ran) "r = Inr (fst (f (cb_rows db)))" "cb_rows db' = snd (f (cb_rows db))"
  using assms by (auto simp: captcha_statement_def split: list.splits option.splits prod.splits)

lemma select_row_cases:
  assumes "select_row i db = (r, db')"
  obtains (fault) e where "r = Inl (StoreBackend e)" "cb_rows db' = cb_rows db" | (ran) "r = Inr (cb_rows db i)" "cb_rows db' = cb_rows db"
  using assms unfolding select_row_def by (elim statement_cases) auto

lemma delete_row_cases:
  assumes "delete_row i db = (r, db')"
  obtains (fault) e where "r = Inl (StoreBackend e)" "cb_rows db' = cb_rows db"
  | (ran) "r = Inr (if cb_rows db i = None then 0 else 1)" "cb_rows db' = (cb_rows db)(i := None)"
  using assms unfolding delete_row_def by (elim statement_cases) auto

lemma db_take_cases:
  assumes "db_take now i db = (r, db')"
  obtains (kept) "\<And>ch. r \<noteq> Inr (Some ch)" "cb_rows db' = cb_rows db"
  | (deleted) row where "cb_rows db i = Some row" "r = claim_row now i row 1" "cb_rows db' = (cb_rows db)(i := None)"
proof (cases "select_row i db")
  case (Pair row db1)
  then show thesis
  proof (cases rule: select_row_cases)
    case done_read: ran
    show thesis
    proof (cases "cb_rows db i")
      case (Some found)
      obtain r2 db2 where 2: "delete_row i db1 = (r2, db2)" by force
      show thesis
        by (rule delete_row_cases [OF 2]) (use 2 assms Pair done_read Some kept deleted [OF Some] in \<open>auto simp: db_take_def op_bind_apply\<close>)
    qed (use assms Pair done_read kept in \<open>auto simp: db_take_def op_bind_apply\<close>)
  qed (use assms Pair kept in \<open>auto simp: db_take_def op_bind_apply\<close>)
qed

interpretation db_captchas: one_time_store db_captcha_store "\<lambda>db i. cb_rows db i \<noteq> None"
proof
  fix now i s ch s'
  assume "cs_take db_captcha_store now i s = (Inr (Some ch), s')"
  then show "cb_rows s i \<noteq> None \<and> \<not> cb_rows s' i \<noteq> None"
    by (auto simp: db_captcha_store_def elim: db_take_cases)
next
  fix now i s r s' j
  assume "cs_take db_captcha_store now i s = (r, s')" "cb_rows s' j \<noteq> None"
  then show "cb_rows s j \<noteq> None"
    by (auto simp: db_captcha_store_def elim!: db_take_cases split: if_splits)
next
  fix ch s e s' j
  assume "cs_insert db_captcha_store ch s = (Inl e, s')" "cb_rows s' j \<noteq> None"
  then show "cb_rows s j \<noteq> None"
    by (auto simp: db_captcha_store_def db_insert_def op_bind_apply split: prod.splits sum.splits if_splits
        elim!: select_row_cases statement_cases)
next
  fix ch s s' j
  assume "cs_insert db_captcha_store ch s = (Inr (), s')" "cb_rows s' j \<noteq> None"
  then show "j = sc_id ch \<or> cb_rows s j \<noteq> None"
    by (auto simp: db_captcha_store_def db_insert_def op_bind_apply split: prod.splits sum.splits if_splits
        elim!: select_row_cases statement_cases)
next
  fix now s p s' j
  assume "cs_purge_expired db_captcha_store now s = (p, s')" "cb_rows s' j \<noteq> None"
  then show "cb_rows s j \<noteq> None"
    by (auto simp: db_captcha_store_def db_purge_expired_def Let_def elim!: statement_cases split: option.splits)
qed

text \<open>The captcha table behaves as the store in memory does. On a table whose rows carry times in the range of
  64 bits, and when no statement fails, inserting, taking and purging through SQL answer what the
  operations of the in-memory store answer on the challenges the rows stand for, and leave the rows
  that stand for what those leave: the padded decimal text keeps the times and their order.\<close>

theorem db_store_refines_memory:
  assumes "db_sound db"
  shows "(storable_time (sc_expires_at ch) \<longrightarrow>
      (case cs_insert db_captcha_store ch db of (r, db') \<Rightarrow> cs_insert memory_captcha_store ch (db_challenges db) = (r, db_challenges db') \<and> db_sound db')) \<and>
    (case cs_take db_captcha_store now i db of (r, db') \<Rightarrow> cs_take memory_captcha_store now i (db_challenges db) = (r, db_challenges db') \<and> db_sound db') \<and>
    (0 \<le> now \<longrightarrow>
      (case cs_purge_expired db_captcha_store now db of (r, db') \<Rightarrow>
        cs_purge_expired memory_captcha_store now (db_challenges db) = (r, db_challenges db') \<and> db_sound db'))"
  using db_insert_refines [OF assms] db_take_refines [OF assms] db_purge_refines [OF assms]
  by (simp add: db_captcha_store_def memory_captcha_store_def)

text \<open>C39: a stored challenge is accepted no more often than it was issued. Over any sequence of issuing,
  verifying and purging, for the store in memory and for the database whose statements may fail
  at any time, without an effect, an id that was not there at the start is accepted at most as often as it was
  issued: once, since ids are drawn afresh.\<close>

theorem accepted_at_most_issued:
  "(m i = None \<longrightarrow> count_list (snd (fst (captcha_calls_run env memory_captcha_store calls m))) i
       \<le> count_list (fst (fst (captcha_calls_run env memory_captcha_store calls m))) i) \<and>
   (cb_rows db i = None \<longrightarrow> count_list (snd (fst (captcha_calls_run env db_captcha_store calls db))) i
       \<le> count_list (fst (fst (captcha_calls_run env db_captcha_store calls db))) i)"
  using memory_captchas.accepted_le_issued [where s = m and i = i] db_captchas.accepted_le_issued [where s = db and i = i] by simp

section \<open>Issued, then verified\<close>

lemma new_challenge_id_plain: "str_trim (new_challenge_id bits) = new_challenge_id bits" "length (new_challenge_id bits) = 32"
proof -
  have hex: "33 \<le> (of_char c :: nat) \<and> (of_char c :: nat) < 128" if "c \<in> set HEX" for c
    using that by (auto simp: HEX_def)
  have "and w 0xF \<le> (0xF :: 128 word)" for w by (rule word_and_le1)
  then have "unat (and w 0xF :: 128 word) < 16" for w :: "128 word"
    by (fastforce simp: word_le_nat_alt dest: le_imp_less_Suc)
  moreover have "length HEX = 16" by (simp add: HEX_def)
  ultimately have "set (new_challenge_id bits) \<subseteq> set HEX"
    by (fastforce simp: new_challenge_id_def intro: nth_mem)
  then show "str_trim (new_challenge_id bits) = new_challenge_id bits"
    using hex by (intro str_trim_plain) (auto simp: new_challenge_id_def)
qed (simp add: new_challenge_id_def)

text \<open>An issued challenge is accepted for its answer until it expires. When a challenge is stored
  under a fresh id in the sound table and no statement fails, the first verification under that
  id succeeds exactly when the lifetime has not passed and the hash of the trimmed, not empty and
  not overlong input is the hash of the answer drawn.\<close>

theorem issued_then_verified:
  assumes "db_sound db" and "cb_rows db (new_challenge_id (cd_id draw)) = None" and "storable_time (cd_now draw + int (cc_ttl c))"
  shows "\<exists>issued db'. issue_stored env c draw db_captcha_store db = (Inr issued, db') \<and>
    (\<forall>now input. fst (verify_stored env now db_captcha_store (ic_id issued) input db') =
       Inr (now < cd_now draw + int (cc_ttl c) \<and> answer_accepted env (hash_answer env (ch_answer (captcha_generate c draw))) input))"
proof -
  let ?i = "new_challenge_id (cd_id draw)"
  let ?ch = "\<lparr>sc_id = ?i, sc_answer_hash = hash_answer env (ch_answer (captcha_generate c draw)), sc_expires_at = cd_now draw + int (cc_ttl c)\<rparr>"
  obtain r db' where ins: "db_insert ?ch db = (r, db')" by force
  have "db_challenges db ?i = None" using challenges_none assms(1,2) by blast
  then have r: "r = Inr ()" "db_sound db'" "db_challenges db' = (db_challenges db)(?i \<mapsto> ?ch)"
    using db_insert_refines [OF assms(1), of ?ch] assms(3) ins by (auto simp: memory_insert_def)
  have take: "fst (db_take now ?i db') = Inr (if cd_now draw + int (cc_ttl c) \<le> now then None else Some ?ch)" for now
    using db_take_refines [OF r(2), of now ?i] by (auto simp: r(3) memory_take_def is_expired_at_def split: prod.splits)
  have "issue_stored env c draw db_captcha_store db =
      (Inr \<lparr>ic_id = ?i, ic_svg = ch_svg (captcha_generate c draw), ic_expires_in = cc_ttl c\<rparr>, db')"
    using ins r(1) by (simp add: issue_stored_def db_captcha_store_def op_bind_apply Let_def)
  moreover have "fst (verify_stored env now db_captcha_store ?i input db') =
      Inr (now < cd_now draw + int (cc_ttl c) \<and> answer_accepted env (sc_answer_hash ?ch) input)" for now input
    using take [of now] new_challenge_id_plain [of "cd_id draw"]
    by (cases "db_take now ?i db'") (auto simp: verify_stored_eq db_captcha_store_def op_bind_apply MAX_CHALLENGE_ID_LENGTH_def)
  ultimately show ?thesis by fastforce
qed

section \<open>Tasks that take at the same time\<close>

text \<open>
  The two statements of \<open>db_take\<close> as steps of tasks that take the same id, each with the
  time it read.
\<close>

datatype take_phase = ReadRow | DeleteRow captcha_row | TakeDone "captcha_store_error + stored_challenge option"

definition after_read :: "captcha_store_error + captcha_row option \<Rightarrow> take_phase" where
  "after_read r = (case r of Inl e \<Rightarrow> TakeDone (Inl e) | Inr None \<Rightarrow> TakeDone (Inr None) | Inr (Some row) \<Rightarrow> DeleteRow row)"

definition after_delete :: "systime \<Rightarrow> string \<Rightarrow> captcha_row \<Rightarrow> captcha_store_error + nat \<Rightarrow> take_phase" where
  "after_delete now i row r = TakeDone (case r of Inl e \<Rightarrow> Inl e | Inr deleted \<Rightarrow> claim_row now i row deleted)"

inductive take_step :: "(nat \<Rightarrow> systime) \<Rightarrow> string \<Rightarrow> captcha_db \<times> (nat \<Rightarrow> take_phase) \<Rightarrow> captcha_db \<times> (nat \<Rightarrow> take_phase) \<Rightarrow> bool"
  for now :: "nat \<Rightarrow> systime" and i :: string where
  read_step: "ps p = ReadRow \<Longrightarrow> select_row i db = (r, db') \<Longrightarrow> take_step now i (db, ps) (db', ps(p := after_read r))"
| delete_step: "ps p = DeleteRow row \<Longrightarrow> delete_row i db = (r, db') \<Longrightarrow> take_step now i (db, ps) (db', ps(p := after_delete (now p) i row r))"

text \<open>A task that runs alone does what \<open>db_take\<close> does.\<close>

lemma alone_takes:
  assumes "ps p = ReadRow" and "db_take (now p) i db = (r, db')"
  shows "\<exists>ps'. (take_step now i)\<^sup>*\<^sup>* (db, ps) (db', ps') \<and> ps' p = TakeDone r"
proof -
  obtain row db1 where read: "select_row i db = (row, db1)" by force
  note first = read_step [of ps p i db row db1 now, OF assms(1) read]
  show ?thesis
  proof (cases "after_read row")
    case (DeleteRow found)
    then have row: "row = Inr (Some found)" by (auto simp: after_read_def split: sum.splits option.splits)
    obtain n db2 where del: "delete_row i db1 = (n, db2)" by force
    have "take_step now i (db1, ps(p := after_read row)) (db2, (ps(p := after_read row))(p := after_delete (now p) i found n))"
      by (rule delete_step [OF _ del]) (simp add: DeleteRow)
    moreover have "db2 = db'" "after_delete (now p) i found n = TakeDone r"
      using assms(2) read row del by (auto simp: db_take_def op_bind_apply after_delete_def split: sum.splits)
    ultimately show ?thesis using first by (metis fun_upd_same converse_rtranclp_into_rtranclp rtranclp.rtrancl_refl)
  next
    case (TakeDone r')
    then have "r' = r" "db1 = db'"
      using assms(2) read by (auto simp: db_take_def op_bind_apply after_read_def split: sum.splits option.splits)
    then show ?thesis using first TakeDone by (metis fun_upd_same r_into_rtranclp)
  next
    case ReadRow
    then show ?thesis by (auto simp: after_read_def split: sum.splits option.splits)
  qed
qed

definition took :: "(nat \<Rightarrow> take_phase) \<Rightarrow> nat \<Rightarrow> bool" where
  "took ps p \<longleftrightarrow> (case ps p of TakeDone (Inr (Some ch)) \<Rightarrow> True | _ \<Rightarrow> False)"

definition one_taker :: "string \<Rightarrow> captcha_db \<times> (nat \<Rightarrow> take_phase) \<Rightarrow> bool" where
  "one_taker i s \<longleftrightarrow> (\<forall>p. took (snd s) p \<longrightarrow> cb_rows (fst s) i = None) \<and> (\<forall>p q. took (snd s) p \<longrightarrow> took (snd s) q \<longrightarrow> p = q)"

lemma took_read: "\<not> took (ps(p := after_read r)) p"
  by (auto simp: took_def after_read_def split: sum.splits option.splits)

lemma took_upd [simp]: "q \<noteq> p \<Longrightarrow> took (ps(p := x)) q = took ps q"
  by (simp add: took_def)

lemma took_delete: "took (ps(p := after_delete now i row r)) p \<Longrightarrow> \<exists>n. r = Inr n \<and> n \<noteq> 0"
  by (auto simp: took_def after_delete_def claim_row_def split: sum.splits if_splits)

lemma one_taker_step: "take_step now i s t \<Longrightarrow> one_taker i s \<Longrightarrow> one_taker i t"
proof (induction rule: take_step.induct)
  case (read_step ps p db r db')
  then have "cb_rows db' = cb_rows db" by (auto elim: select_row_cases)
  moreover have "took (ps(p := after_read r)) q \<Longrightarrow> took ps q" for q using took_read [of ps p r] by (cases "q = p") auto
  ultimately show ?case using read_step.prems by (auto simp: one_taker_def)
next
  case (delete_step ps p row db r db')
  have not: "\<not> took ps p" using delete_step.hyps(1) by (simp add: took_def)
  let ?ps = "ps(p := after_delete (now p) i row r)"
  have other: "took ?ps q \<Longrightarrow> q = p \<or> took ps q" for q by (cases "q = p") auto
  from delete_step.hyps(2) show ?case
  proof (cases rule: delete_row_cases)
    case fault
    then have "\<not> took ?ps p" using took_delete by fastforce
    then have "took ?ps q \<Longrightarrow> took ps q" for q using other by auto
    then show ?thesis using fault delete_step.prems by (auto simp: one_taker_def)
  next
    case ran
    then have none: "cb_rows db' i = None" by simp
    show ?thesis
    proof (cases "cb_rows db i = None")
      case True
      then have "\<not> took ?ps p" using ran took_delete by fastforce
      then have "took ?ps q \<Longrightarrow> took ps q" for q using other by auto
      then show ?thesis using none delete_step.prems by (auto simp: one_taker_def)
    next
      case False
      then have "\<not> took ps q" for q using delete_step.prems by (auto simp: one_taker_def)
      then have "took ?ps q \<Longrightarrow> q = p" for q using other by auto
      then show ?thesis using none by (auto simp: one_taker_def)
    qed
  qed
qed

text \<open>C40: of the requests that submit the same challenge at the same time, one gets it. Any number of
  tasks run the two statements that take a row, in any interleaving and with any of them
  failing, and each decides by its own clock: at most one of them comes out with the challenge.\<close>

theorem database_take_claims_once:
  assumes "(take_step now i)\<^sup>*\<^sup>* (db, \<lambda>_. ReadRow) (db', ps)"
    and "ps p = TakeDone (Inr (Some a))" and "ps q = TakeDone (Inr (Some b))"
  shows "p = q"
proof -
  have "one_taker i (db', ps)"
    using assms(1)
  proof (induction rule: rtranclp_induct)
    case base
    then show ?case by (simp add: one_taker_def took_def)
  qed (rule one_taker_step)
  then show ?thesis using assms(2,3) by (auto simp: one_taker_def took_def)
qed

section \<open>The answer in a session\<close>

text \<open>An answer pending in a session is spent by the next verification, but two requests can spend it
  twice. Verifying removes the answer, right or wrong, and everything after it is refused until a
  new challenge is stored; but reading the answer and removing it are two calls on the session, so
  that a request whose read comes before the other's removal is accepted as well.\<close>

theorem session_answer_spent:
  assumes "pending_answer (cc_session_key c) s = Some stored"
  shows "(\<exists>s'. captcha_verify env c input s = (answer_accepted env stored input, s') \<and> (\<forall>again. captcha_verify env c again s' = (False, s'))) \<and>
    (\<exists>s'. consume_answer env (cc_session_key c) stored input s = (answer_accepted env stored input, s') \<and>
       fst (consume_answer env (cc_session_key c) stored again s') = answer_accepted env stored again)"
  using assms by (auto simp: captcha_verify_def verify_with_key_def consume_answer_eq pending_answer_def)

section \<open>Examples\<close>

definition demo_env :: captcha_env where
  "demo_env = \<lparr>cv_sha256 = map of_char, cv_lowercase = id, cv_json = (\<lambda>_. None)\<rparr>"

definition demo_draw :: "int \<Rightarrow> captcha_draw" where
  "demo_draw now = \<lparr>cd_glyph = id, cd_svg = (\<lambda>_ answer. answer), cd_id = 7, cd_now = now\<rparr>"

definition empty_table :: captcha_db where
  "empty_table = \<lparr>cb_rows = \<lambda>_. None, cb_faults = []\<rparr>"

lemma empty_sound: "db_sound empty_table"
  by (simp add: db_sound_def empty_table_def)

definition demo_challenge :: stored_challenge where
  "demo_challenge = \<lparr>sc_id = ''i'', sc_answer_hash = ''h'', sc_expires_at = 9\<rparr>"

theorem db_store_refines_memory_witness:
  "\<exists>db'. cs_insert db_captcha_store demo_challenge empty_table = (Inr (), db') \<and> db_challenges db' = [''i'' \<mapsto> demo_challenge]"
proof -
  obtain r db' where ins: "cs_insert db_captcha_store demo_challenge empty_table = (r, db')" by force
  have "storable_time (sc_expires_at demo_challenge)" by (simp add: storable_time_def demo_challenge_def)
  then have "cs_insert memory_captcha_store demo_challenge (db_challenges empty_table) = (r, db_challenges db')"
    using db_store_refines_memory [OF empty_sound, where ch = demo_challenge] ins by simp
  then have "r = Inr () \<and> db_challenges db' = [''i'' \<mapsto> demo_challenge]"
    by (auto simp: memory_captcha_store_def memory_insert_def db_challenges_def empty_table_def demo_challenge_def)
  then show ?thesis using ins by blast
qed

lemma issued_then_verified_demo:
  "\<exists>issued db'. issue_stored demo_env captcha_config_default (demo_draw 5) db_captcha_store empty_table = (Inr issued, db') \<and>
     (\<forall>now input. fst (verify_stored demo_env now db_captcha_store (ic_id issued) input db') =
        Inr (now < 300000000005 \<and> answer_accepted demo_env (hash_answer demo_env (ch_answer (captcha_generate captcha_config_default (demo_draw 5)))) input))"
  using issued_then_verified [OF empty_sound, of "demo_draw 5" captcha_config_default demo_env]
  by (simp add: empty_table_def demo_draw_def captcha_config_default_def DEFAULT_TTL_def duration_from_secs_def nanos_per_sec_def storable_time_def)

definition demo_answer :: string where
  "demo_answer = ch_answer (captcha_generate captcha_config_default (demo_draw 5))"

lemma demo_answer_plain: "''23456'' \<noteq> [] \<and> (\<forall>c \<in> set ''23456''. 33 \<le> (of_char c :: nat) \<and> (of_char c :: nat) < 128)"
  by (simp add: of_char_def)

lemma demo_answer_accepted: "answer_accepted demo_env (hash_answer demo_env demo_answer) demo_answer"
proof -
  have five: "demo_answer = ''23456''"
    by (simp add: demo_answer_def captcha_generate_def captcha_config_default_def demo_draw_def Let_def DEFAULT_CHARSET_def upt_rec)
  then have "str_trim demo_answer = demo_answer"
    by (metis str_trim_plain [of "''23456''"] demo_answer_plain)
  then show ?thesis by (simp add: answer_accepted_def hash_answer_def five MAX_INPUT_LENGTH_def)
qed

text \<open>Issued once and presented twice with the right answer, a challenge is accepted exactly once.\<close>

theorem accepted_at_most_issued_witness:
  "\<exists>i. count_list (snd (fst (captcha_calls_run demo_env db_captcha_store
         [CallIssue captcha_config_default (demo_draw 5), CallVerify 9 i demo_answer, CallVerify 9 i demo_answer] empty_table))) i = 1"
proof -
  obtain issued db' where issue: "issue_stored demo_env captcha_config_default (demo_draw 5) db_captcha_store empty_table = (Inr issued, db')"
    and verify: "\<And>now. fst (verify_stored demo_env now db_captcha_store (ic_id issued) demo_answer db') = Inr (now < 300000000005)"
    using issued_then_verified_demo demo_answer_accepted by (auto simp: demo_answer_def)
  let ?i = "ic_id issued"
  let ?calls = "[CallIssue captcha_config_default (demo_draw 5), CallVerify 9 ?i demo_answer, CallVerify 9 ?i demo_answer]"
  have "?i = new_challenge_id 7"
    using issue by (auto simp: issue_stored_def Let_def op_bind_apply demo_draw_def split: prod.splits sum.splits)
  then have trim: "str_trim ?i = ?i" by (simp add: new_challenge_id_plain)
  obtain db2 where first: "verify_stored demo_env 9 db_captcha_store ?i demo_answer db' = (Inr True, db2)"
    using verify [of 9] by (cases "verify_stored demo_env 9 db_captcha_store ?i demo_answer db'") auto
  obtain r db3 where "verify_stored demo_env 9 db_captcha_store ?i demo_answer db2 = (r, db3)" by force
  then have run: "fst (fst (captcha_calls_run demo_env db_captcha_store ?calls empty_table)) = [?i]"
    "hd (snd (fst (captcha_calls_run demo_env db_captcha_store ?calls empty_table))) = ?i"
    "snd (fst (captcha_calls_run demo_env db_captcha_store ?calls empty_table)) \<noteq> []"
    by (auto simp: captcha_call_run_def issue first trim split: sum.splits bool.splits)
  have "cb_rows empty_table ?i = None" by (simp add: empty_table_def)
  then have "count_list (snd (fst (captcha_calls_run demo_env db_captcha_store ?calls empty_table))) ?i \<le> 1"
    using accepted_at_most_issued [where db = empty_table and i = ?i and env = demo_env and calls = ?calls] run(1) by auto
  moreover have "0 < count_list (snd (fst (captcha_calls_run demo_env db_captcha_store ?calls empty_table))) ?i"
    using run(2,3) by (cases "snd (fst (captcha_calls_run demo_env db_captcha_store ?calls empty_table))") auto
  ultimately show ?thesis by (intro exI [of _ ?i]) linarith
qed

definition one_row :: captcha_db where
  "one_row = \<lparr>cb_rows = [''i'' \<mapsto> \<lparr>cr_answer_hash = ''h'', cr_expires_at = encode_time 9\<rparr>], cb_faults = []\<rparr>"

theorem database_take_claims_once_witness:
  "\<exists>db' ps. (take_step (\<lambda>_. 5) ''i'')\<^sup>*\<^sup>* (one_row, \<lambda>_. ReadRow) (db', ps) \<and>
     ps 0 = TakeDone (Inr (Some \<lparr>sc_id = ''i'', sc_answer_hash = ''h'', sc_expires_at = 9\<rparr>)) \<and>
     (\<forall>q b. ps q = TakeDone (Inr (Some b)) \<longrightarrow> q = 0)"
proof -
  have "storable_time 9" by (simp add: storable_time_def)
  then have "db_take 5 ''i'' one_row =
      (Inr (Some \<lparr>sc_id = ''i'', sc_answer_hash = ''h'', sc_expires_at = 9\<rparr>), one_row\<lparr>cb_rows := (cb_rows one_row)(''i'' := None)\<rparr>)"
    by (simp add: db_take_def op_bind_apply select_row_def delete_row_def captcha_statement_def claim_row_def is_expired_at_def one_row_def)
  from alone_takes [of "\<lambda>_. ReadRow" 0 "\<lambda>_. 5", OF _ this] obtain ps where
    run: "(take_step (\<lambda>_. 5) ''i'')\<^sup>*\<^sup>* (one_row, \<lambda>_. ReadRow) (one_row\<lparr>cb_rows := (cb_rows one_row)(''i'' := None)\<rparr>, ps)"
      "ps 0 = TakeDone (Inr (Some \<lparr>sc_id = ''i'', sc_answer_hash = ''h'', sc_expires_at = 9\<rparr>))" by auto
  then show ?thesis using database_take_claims_once [OF run(1) _ run(2)] by blast
qed

definition demo_session :: "nat session_state" where
  "demo_session = session_put DEFAULT_SESSION_KEY (JString ''h'') (session_distributed ''sid'' None, session_store_memory 60)"

theorem session_answer_spent_witness:
  "\<exists>s'. captcha_verify demo_env captcha_config_default ''wrong'' demo_session = (answer_accepted demo_env ''h'' ''wrong'', s') \<and>
     captcha_verify demo_env captcha_config_default ''again'' s' = (False, s')"
proof -
  have "pending_answer (cc_session_key captcha_config_default) demo_session = Some ''h''"
    by (simp add: pending_answer_def demo_session_def captcha_config_default_def session_distributed_def)
  from session_answer_spent [OF this, of demo_env "''wrong''"] show ?thesis by blast
qed

end
