(* ===== verification/Secure.thy ===== *)
theory Secure
  imports Web_Guard
begin

text \<open>
  Encrypted transport of pages (\<open>phoenix-crypto\<close>, \<open>secure.rs\<close>): the frame format, the handshake,
  the store of session keys, and the middleware that opens request bodies and seals page
  responses. Key agreement, key derivation, the cipher, base64 and JSON are the record
  \<open>secure_lib\<close>; random numbers and clock readings are arguments. Bytes are characters.
\<close>

section \<open>Other packages\<close>

record handshake_request =
  hr_v :: u8
  hr_kex :: string
  hr_hkdf :: string
  hr_aead :: string
  hr_client_public_key :: string

record handshake_response =
  hs_v :: u8
  hs_key_id :: string
  hs_server_public_key :: string
  hs_expires_at :: u64
  hs_ttl :: u64

text \<open>A request with its buffered body.\<close>

record 'x body_rest =
  br_body :: string
  br_rest :: 'x

record ('a, 'x, 'sk) secure_lib =
  sl_web :: "'a web_env"
  sl_generate :: "nat \<Rightarrow> 'sk option"
  sl_public :: "'sk \<Rightarrow> string option"
  sl_agree :: "'sk \<Rightarrow> string \<Rightarrow> string option"
  sl_hkdf :: "string \<Rightarrow> string \<Rightarrow> string \<Rightarrow> string"
  sl_encrypt :: "string \<Rightarrow> string \<Rightarrow> string \<Rightarrow> string \<Rightarrow> string option"
  sl_decrypt :: "string \<Rightarrow> string \<Rightarrow> string \<Rightarrow> string \<Rightarrow> string option"
  sl_base64 :: "string \<Rightarrow> string"
  sl_unbase64 :: "string \<Rightarrow> string option"
  sl_read_handshake :: "('a, 'x body_rest) request \<Rightarrow> handshake_request option"
  sl_write_handshake :: "handshake_response \<Rightarrow> string option"
  sl_error_json :: "string \<Rightarrow> string option"

text \<open>What a handshake draws: a seed for the key pair and the bytes of the key id.\<close>

record secure_draw =
  sd_seed :: nat
  sd_entropy :: "string option"
  sd_now :: systime

section \<open>Frames\<close>

definition FRAME_MAGIC :: string where
  "FRAME_MAGIC = ''PHX1''"

definition FRAME_VERSION :: u8 where
  "FRAME_VERSION = 1"

definition FRAME_HEADER_LEN :: nat where
  "FRAME_HEADER_LEN = 21"

definition NONCE_LEN :: nat where
  "NONCE_LEN = 12"

definition TAG_LEN :: nat where
  "TAG_LEN = 16"

definition HKDF_INFO :: string where
  "HKDF_INFO = ''phoenix.secure.session.v1''"

definition P256_UNCOMPRESSED_LEN :: nat where
  "P256_UNCOMPRESSED_LEN = 65"

definition PROTOCOL_VERSION :: u8 where
  "PROTOCOL_VERSION = 1"

datatype frame_direction = FrameRequest | FrameResponse

fun direction_label :: "frame_direction \<Rightarrow> string" where
  "direction_label FrameRequest = ''req''"
| "direction_label FrameResponse = ''res''"

definition frame_aad :: "string \<Rightarrow> string \<Rightarrow> frame_direction \<Rightarrow> string" where
  "frame_aad header key_id direction = header @ key_id @ direction_label direction"

datatype secure_error =
    InvalidPublicKey | KeyAgreement | InvalidFrame | FrameExpired | AuthenticationFailed | SealFailed | ClockError
  | SessionStoreError string

definition secure_unix_now :: "systime \<Rightarrow> secure_error + u64" where
  "secure_unix_now now =
     (case duration_since now unix_epoch of
        Inr elapsed \<Rightarrow> Inr (of_nat (elapsed div nanos_per_sec))
      | Inl _ \<Rightarrow> Inl ClockError)"

definition derive_session_key :: "('a, 'x, 'sk) secure_lib \<Rightarrow> string \<Rightarrow> string \<Rightarrow> string" where
  "derive_session_key lib shared_material key_id = sl_hkdf lib key_id shared_material HKDF_INFO"

definition server_handshake :: "('a, 'x, 'sk) secure_lib \<Rightarrow> nat \<Rightarrow> string \<Rightarrow> string \<Rightarrow> secure_error + (string \<times> string)" where
  "server_handshake lib seed client_public_raw key_id =
     (if length client_public_raw \<noteq> P256_UNCOMPRESSED_LEN \<or> hd client_public_raw \<noteq> CHR 0x04 then Inl InvalidPublicKey
      else
        res_bind (ok_or KeyAgreement (sl_generate lib seed)) (\<lambda>server_private.
        res_bind (ok_or KeyAgreement (sl_public lib server_private)) (\<lambda>server_public.
        res_bind (ok_or KeyAgreement (sl_agree lib server_private client_public_raw)) (\<lambda>shared_material.
        Inr (server_public, derive_session_key lib shared_material key_id)))))"

text \<open>\<open>to_be_bytes\<close> and \<open>from_be_bytes\<close>\<close>

definition u64_to_be :: "u64 \<Rightarrow> string" where
  "u64_to_be x = map (\<lambda>i. char_of (unat (drop_bit (56 - 8 * i) x) mod 256)) [0..<8]"

definition u64_from_be :: "string \<Rightarrow> u64" where
  "u64_from_be s = of_nat (foldl (\<lambda>acc c. acc * 256 + of_char c) 0 s)"

definition u8_char :: "u8 \<Rightarrow> char" where
  "u8_char b = char_of (unat b)"

definition seal_frame :: "('a, 'x, 'sk) secure_lib \<Rightarrow> string \<Rightarrow> string \<Rightarrow> string \<Rightarrow> string \<Rightarrow> u64 \<Rightarrow> u64 \<Rightarrow> frame_direction \<Rightarrow> secure_error + string" where
  "seal_frame lib nonce session_key key_id plaintext issued_at ttl_secs direction =
     (let expires_at = w_saturating_add issued_at ttl_secs;
          header = FRAME_MAGIC @ [u8_char FRAME_VERSION] @ u64_to_be issued_at @ u64_to_be expires_at;
          frame = header @ nonce;
          aad = frame_aad (take FRAME_HEADER_LEN frame) key_id direction
      in res_bind (ok_or SealFailed (sl_encrypt lib session_key nonce aad plaintext)) (\<lambda>sealed. Inr (frame @ sealed)))"

definition open_frame :: "('a, 'x, 'sk) secure_lib \<Rightarrow> string \<Rightarrow> string \<Rightarrow> string \<Rightarrow> u64 \<Rightarrow> frame_direction \<Rightarrow> secure_error + string" where
  "open_frame lib session_key key_id frame now direction =
     (if length frame < FRAME_HEADER_LEN + NONCE_LEN + TAG_LEN then Inl InvalidFrame
      else if take 4 frame \<noteq> FRAME_MAGIC \<or> frame ! 4 \<noteq> u8_char FRAME_VERSION then Inl InvalidFrame
      else
        (let expires_at = u64_from_be (take 8 (drop 13 frame))
         in if expires_at < now then Inl FrameExpired
            else
              (let nonce = take NONCE_LEN (drop FRAME_HEADER_LEN frame);
                   sealed = drop (FRAME_HEADER_LEN + NONCE_LEN) frame;
                   aad = frame_aad (take FRAME_HEADER_LEN frame) key_id direction
               in ok_or AuthenticationFailed (sl_decrypt lib session_key nonce aad sealed))))"

section \<open>Session keys\<close>

record secure_config =
  st_session_ttl :: duration
  st_frame_ttl :: duration
  st_handshake_path :: string
  st_max_handshake_body :: nat
  st_max_sessions :: nat
  st_max_request_frame :: nat

definition secure_config_default :: secure_config where
  "secure_config_default =
     \<lparr>st_session_ttl = duration_from_secs 300, st_frame_ttl = duration_from_secs 60,
      st_handshake_path = ''/__phoenix/secure/handshake'', st_max_handshake_body = 2048, st_max_sessions = 100000,
      st_max_request_frame = 1024 * 1024\<rparr>"

record 's secure_store =
  ss_insert :: "string \<Rightarrow> string \<Rightarrow> u64 \<Rightarrow> ('s, secure_error, unit) op"
  ss_get :: "string \<Rightarrow> u64 \<Rightarrow> ('s, secure_error, string option) op"

record secure_session =
  sk_key :: string
  sk_expires_at :: u64

type_synonym secure_sessions = "string \<rightharpoonup> secure_session"

record memory_secure =
  mv_sessions :: secure_sessions
  mv_poisoned :: bool

definition prune_expired :: "u64 \<Rightarrow> secure_sessions \<Rightarrow> secure_sessions" where
  "prune_expired now m = (\<lambda>i. case m i of None \<Rightarrow> None | Some s \<Rightarrow> if sk_expires_at s \<ge> now then Some s else None)"

text \<open>The table is walked in the order \<open>ord\<close>; an unstable sort of it is a stable sort of some order.\<close>

definition enforce_capacity :: "(secure_sessions \<Rightarrow> string list) \<Rightarrow> nat \<Rightarrow> secure_sessions \<Rightarrow> secure_sessions" where
  "enforce_capacity ord max_sessions m =
     (if max_sessions = 0 \<or> card (dom m) < max_sessions then m
      else
        (let overflow = card (dom m) + 1 - max_sessions;
             by_expiry = sort_key snd (map (\<lambda>i. (i, case m i of None \<Rightarrow> 0 | Some s \<Rightarrow> sk_expires_at s)) (ord m))
         in fold (\<lambda>(i, _) m. m(i := None)) (take overflow by_expiry) m))"

definition memory_secure_insert :: "(secure_sessions \<Rightarrow> string list) \<Rightarrow> nat \<Rightarrow> string \<Rightarrow> string \<Rightarrow> u64 \<Rightarrow> (memory_secure, secure_error, unit) op" where
  "memory_secure_insert ord max_sessions key_id key expires_at s =
     (if mv_poisoned s then (Inl (SessionStoreError ''lock poisoned''), s)
      else
        (let m = prune_expired (w_saturating_sub expires_at 1) (mv_sessions s);
             m = enforce_capacity ord max_sessions m
         in (Inr (), s\<lparr>mv_sessions := m(key_id \<mapsto> \<lparr>sk_key = key, sk_expires_at = expires_at\<rparr>)\<rparr>)))"

definition memory_secure_get :: "string \<Rightarrow> u64 \<Rightarrow> (memory_secure, secure_error, string option) op" where
  "memory_secure_get key_id now s =
     (if mv_poisoned s then (Inl (SessionStoreError ''lock poisoned''), s)
      else (Inr (case mv_sessions s key_id of
                   None \<Rightarrow> None | Some session \<Rightarrow> if sk_expires_at session \<ge> now then Some (sk_key session) else None), s))"

definition memory_secure_store :: "(secure_sessions \<Rightarrow> string list) \<Rightarrow> nat \<Rightarrow> memory_secure secure_store" where
  "memory_secure_store ord max_sessions =
     \<lparr>ss_insert = memory_secure_insert ord max_sessions, ss_get = memory_secure_get\<rparr>"

section \<open>The handshake\<close>

record 'w secure_transport =
  tr_store :: "'w secure_store"
  tr_config :: secure_config

definition mint_key_id :: "('a, 'x, 'sk) secure_lib \<Rightarrow> string option \<Rightarrow> secure_error + string" where
  "mint_key_id lib entropy = map_sum id (sl_base64 lib) (ok_or KeyAgreement entropy)"

definition establish :: "('a, 'x, 'sk) secure_lib \<Rightarrow> 'w secure_transport \<Rightarrow> secure_draw \<Rightarrow> string \<Rightarrow> ('w, secure_error, handshake_response) op" where
  "establish lib tr draw client_public_raw =
     op_bind (op_lift (mint_key_id lib (sd_entropy draw))) (\<lambda>key_id.
     op_bind (op_lift (server_handshake lib (sd_seed draw) client_public_raw key_id)) (\<lambda>(server_public_raw, session_key).
     op_bind (op_lift (secure_unix_now (sd_now draw))) (\<lambda>now.
       (let ttl = of_nat (st_session_ttl (tr_config tr) div nanos_per_sec);
            expires_at = w_saturating_add now ttl
        in op_bind (ss_insert (tr_store tr) key_id session_key expires_at) (\<lambda>_.
           op_return \<lparr>hs_v = PROTOCOL_VERSION, hs_key_id = key_id, hs_server_public_key = sl_base64 lib server_public_raw,
                      hs_expires_at = expires_at, hs_ttl = ttl\<rparr>)))))"

definition handshake_ok :: "string \<Rightarrow> ('x, 'w) response" where
  "handshake_ok body =
     insert_header ''cache-control'' ''no-store'' (insert_header ''content-type'' ''application/json'' (response_new 200 body))"

definition quote :: string where
  "quote = [CHR 0x22]"

definition json_error :: "('a, 'x, 'sk) secure_lib \<Rightarrow> u16 \<Rightarrow> string \<Rightarrow> string \<Rightarrow> ('x, 'w) response" where
  "json_error lib status message fallback =
     insert_header ''cache-control'' ''no-store''
       (insert_header ''content-type'' ''application/json''
         (response_new status
           (case sl_error_json lib message of
              Some body \<Rightarrow> body
            | None \<Rightarrow> ''{'' @ quote @ ''error'' @ quote @ '':'' @ quote @ fallback @ quote @ ''}'')))"

definition handshake_error :: "('a, 'x, 'sk) secure_lib \<Rightarrow> u16 \<Rightarrow> string \<Rightarrow> ('x, 'w) response" where
  "handshake_error lib status message = json_error lib status message ''handshake failed''"

definition secure_request_error :: "('a, 'x, 'sk) secure_lib \<Rightarrow> u16 \<Rightarrow> string \<Rightarrow> ('x, 'w) response" where
  "secure_request_error lib status message = json_error lib status message ''secure request rejected''"

definition respond_handshake :: "('a, 'x, 'sk) secure_lib \<Rightarrow> 'w secure_transport \<Rightarrow> ('w \<Rightarrow> secure_draw) \<Rightarrow> ('a, 'x body_rest) request \<Rightarrow> 'w \<Rightarrow>
    ('x, 'w) response \<times> 'w" where
  "respond_handshake lib tr draw request w =
     (if length (br_body (rq_rest request)) > st_max_handshake_body (tr_config tr)
      then (handshake_error lib 413 ''handshake body too large'', w)
      else
        (case sl_read_handshake lib request of
           None \<Rightarrow> (handshake_error lib 400 ''invalid handshake body'', w)
         | Some body \<Rightarrow>
             (if hr_v body \<noteq> PROTOCOL_VERSION \<or> hr_kex body \<noteq> ''ECDH-P256'' \<or> hr_hkdf body \<noteq> ''HKDF-SHA256'' \<or> hr_aead body \<noteq> ''A256GCM''
              then (handshake_error lib 400 ''unsupported handshake parameters'', w)
              else
                (case sl_unbase64 lib (hr_client_public_key body) of
                   None \<Rightarrow> (handshake_error lib 400 ''invalid client public key'', w)
                 | Some client_public_raw \<Rightarrow>
                     (case establish lib tr (draw w) client_public_raw w of
                        (Inr payload, w) \<Rightarrow>
                          (case sl_write_handshake lib payload of
                             Some text \<Rightarrow> (handshake_ok text, w)
                           | None \<Rightarrow> (handshake_error lib 500 ''handshake serialization'', w))
                      | (Inl InvalidPublicKey, w) \<Rightarrow> (handshake_error lib 400 ''invalid client public key'', w)
                      | (Inl _, w) \<Rightarrow> (handshake_error lib 500 ''handshake failed'', w))))))"

section \<open>The layer\<close>

definition transport_session_key :: "'w secure_transport \<Rightarrow> string \<Rightarrow> u64 \<Rightarrow> 'w \<Rightarrow> string option \<times> 'w" where
  "transport_session_key tr key_id now w =
     (case ss_get (tr_store tr) key_id now w of (Inr key, w) \<Rightarrow> (key, w) | (Inl _, w) \<Rightarrow> (None, w))"

definition request_directive :: "('a, 'x, 'sk) secure_lib \<Rightarrow> 'w secure_transport \<Rightarrow> ('a, 'x body_rest) request \<Rightarrow> u64 \<Rightarrow> 'w \<Rightarrow>
    (string \<times> string) option \<times> 'w" where
  "request_directive lib tr request now w =
     (if header_text (sl_web lib) ''x-phoenix-secure'' (rq_headers request) \<noteq> Some ''1'' then (None, w)
      else
        (case header_text (sl_web lib) ''x-phoenix-key'' (rq_headers request) of
           None \<Rightarrow> (None, w)
         | Some key_id \<Rightarrow> map_prod (map_option (\<lambda>key. (key_id, key))) id (transport_session_key tr key_id now w)))"

definition SECURE_CONTENT_TYPE :: string where
  "SECURE_CONTENT_TYPE = ''application/vnd.phoenix.secure''"

definition PAGE_PROTOCOL_MEDIA_TYPE :: string where
  "PAGE_PROTOCOL_MEDIA_TYPE = ''application/vnd.phoenix.page+json''"

definition is_encrypted_request :: "('a, 'x, 'sk) secure_lib \<Rightarrow> ('a, 'x body_rest) request \<Rightarrow> bool" where
  "is_encrypted_request lib request \<longleftrightarrow>
     header_text (sl_web lib) ''x-phoenix-encrypted'' (rq_headers request) = Some ''1'' \<and>
     (case header_text (sl_web lib) ''content-type'' (rq_headers request) of
        None \<Rightarrow> False | Some v \<Rightarrow> take (length SECURE_CONTENT_TYPE) v = SECURE_CONTENT_TYPE)"

definition decrypt_request :: "('a, 'x, 'sk) secure_lib \<Rightarrow> 'w secure_transport \<Rightarrow> string \<Rightarrow> string \<Rightarrow> u64 \<Rightarrow> ('a, 'x body_rest) request \<Rightarrow>
    ('x, 'w) response + ('a, 'x body_rest) request" where
  "decrypt_request lib tr key_id key now request =
     (if \<not> is_encrypted_request lib request then Inr request
      else if length (br_body (rq_rest request)) > st_max_request_frame (tr_config tr)
      then Inl (secure_request_error lib 413 ''encrypted request body too large'')
      else
        (case open_frame lib key key_id (br_body (rq_rest request)) now FrameRequest of
           Inl FrameExpired \<Rightarrow> Inl (secure_request_error lib 400 ''encrypted request expired'')
         | Inl _ \<Rightarrow> Inl (secure_request_error lib 400 ''encrypted request could not be authenticated'')
         | Inr plaintext \<Rightarrow>
             (let content_type =
                    (case header_text (sl_web lib) ''x-phoenix-content-type'' (rq_headers request) of
                       Some v \<Rightarrow> if we_header_value (sl_web lib) v then v else ''application/json''
                     | None \<Rightarrow> ''application/json'')
              in Inr (request\<lparr>rq_rest := (rq_rest request)\<lparr>br_body := plaintext\<rparr>,
                      rq_headers := header_insert ''x-phoenix-encrypted'' ''0''
                        (header_remove ''x-phoenix-content-type''
                          (header_remove ''content-length''
                            (header_insert ''content-type'' content_type (rq_headers request))))\<rparr>))))"

definition is_streaming :: "('x, 'w) response \<Rightarrow> bool" where
  "is_streaming r \<longleftrightarrow> (case rp_body r of Some (StreamBody _) \<Rightarrow> True | _ \<Rightarrow> False)"

definition buffered_body :: "('x, 'w) response \<Rightarrow> string" where
  "buffered_body r = (case rp_body r of Some (BufferedBody body) \<Rightarrow> body | _ \<Rightarrow> [])"

definition is_plaintext_page_protocol :: "('a, 'x, 'sk) secure_lib \<Rightarrow> ('y, 'w) response \<Rightarrow> bool" where
  "is_plaintext_page_protocol lib r \<longleftrightarrow>
     header_text (sl_web lib) ''content-type'' (rp_headers r) = Some PAGE_PROTOCOL_MEDIA_TYPE \<and>
     (case header_text (sl_web lib) ''x-phoenix-encrypted'' (rp_headers r) of None \<Rightarrow> True | Some v \<Rightarrow> v = ''0'')"

text \<open>The clock is read again, and the nonce drawn, when the response is sealed.\<close>

definition encrypt_page_response :: "('a, 'x, 'sk) secure_lib \<Rightarrow> 'v secure_transport \<Rightarrow> string \<Rightarrow> systime \<Rightarrow> string \<Rightarrow> string \<Rightarrow>
    ('y, 'w) response \<Rightarrow> ('y, 'w) response" where
  "encrypt_page_response lib tr nonce now key_id key r =
     (if is_streaming r \<or> \<not> is_plaintext_page_protocol lib r then r
      else
        (case secure_unix_now now of
           Inl _ \<Rightarrow> r
         | Inr now \<Rightarrow>
             (case seal_frame lib nonce key key_id (buffered_body r) now (of_nat (st_frame_ttl (tr_config tr) div nanos_per_sec)) FrameResponse of
                Inl _ \<Rightarrow> r
              | Inr frame \<Rightarrow>
                  insert_header ''x-phoenix-encrypted'' ''1''
                    (insert_header ''content-type'' SECURE_CONTENT_TYPE
                      ((response_new (rp_status r) frame)\<lparr>rp_headers := header_remove ''content-length'' (rp_headers r)\<rparr>)))))"

definition secure_layer :: "('a, 'x, 'sk) secure_lib \<Rightarrow> 'w secure_transport \<Rightarrow> string \<Rightarrow> systime \<Rightarrow> systime \<Rightarrow>
    ('a, 'x body_rest) request \<Rightarrow> (('a, 'x body_rest) request \<Rightarrow> 'w \<Rightarrow> ('x, 'w) response option \<times> 'w) \<Rightarrow> 'w \<Rightarrow> ('x, 'w) response option \<times> 'w" where
  "secure_layer lib tr nonce now sealed_at request next_handler w =
     (case secure_unix_now now of
        Inl _ \<Rightarrow> (Some (secure_request_error lib 500 ''server clock unavailable''), w)
      | Inr now \<Rightarrow>
          (case request_directive lib tr request now w of
             (Some (key_id, key), w) \<Rightarrow>
               (case decrypt_request lib tr key_id key now request of
                  Inl rejection \<Rightarrow> (Some rejection, w)
                | Inr request \<Rightarrow> then_response (encrypt_page_response lib tr nonce sealed_at key_id key) (next_handler request w))
           | (None, w) \<Rightarrow>
               (if is_encrypted_request lib request
                then (Some (secure_request_error lib 400 ''encrypted request without a live session''), w)
                else next_handler request w)))"

end
