(* ===== verification/Secure_Props.thy ===== *)
theory Secure_Props
  imports Secure
begin

text \<open>
  What the encrypted transport promises: a frame opens exactly when it was sealed with the same
  key, key id and direction and has not expired; an exchange through the layer gives the handler
  the plaintext of the client and the client the plaintext of the handler; a request that cannot
  be opened never reaches the handler. And what it does not: in the store kept in memory a new
  handshake drops the keys of earlier ones.
\<close>

section \<open>Big-endian numbers\<close>

definition be_bytes :: "nat \<Rightarrow> nat \<Rightarrow> string" where
  "be_bytes k n = map (\<lambda>i. char_of (n div 256 ^ (k - 1 - i))) [0..<k]"

definition be_value :: "string \<Rightarrow> nat" where
  "be_value s = foldl (\<lambda>acc c. acc * 256 + of_char c) 0 s"

lemma be_value_simps [simp]: "be_value [] = 0" "be_value (s @ [c]) = be_value s * 256 + of_char c"
  by (simp_all add: be_value_def)

lemma length_be_bytes [simp]: "length (be_bytes k n) = k"
  by (simp add: be_bytes_def)

lemma be_bytes_Suc: "be_bytes (Suc k) n = be_bytes k (n div 256) @ [char_of n]"
proof -
  have "n div 256 ^ (k - i) = n div 256 div 256 ^ (k - 1 - i)" if "i < k" for i
  proof -
    have "(256 :: nat) ^ (k - i) = 256 * 256 ^ (k - 1 - i)" using that by (simp flip: power_Suc)
    then show ?thesis by (simp add: div_mult2_eq)
  qed
  then show ?thesis by (simp add: be_bytes_def)
qed

lemma be_value_bytes: "be_value (be_bytes k n) = n mod 256 ^ k"
proof (induction k arbitrary: n)
  case (Suc k)
  have "n mod 256 ^ Suc k = 256 * (n div 256 mod 256 ^ k) + n mod 256"
    using mod_mult2_eq [of n 256 "256 ^ k"] by simp
  with Suc show ?case by (simp add: be_bytes_Suc)
qed (simp add: be_bytes_def)

lemma be_bytes_value: "be_bytes (length s) (be_value s) = s"
proof (induction s rule: rev_induct)
  case (snoc c s)
  have "(be_value s * 256 + of_char c) div 256 = be_value s" by simp
  moreover have "char_of (be_value s * 256 + of_char c) = c"
    by (metis char_of_mod_256 char_of_char mod_mult_self3 of_char_mod_256)
  ultimately show ?case using snoc by (simp add: be_bytes_Suc)
qed (simp add: be_bytes_def)

lemma u64_to_be_bytes: "u64_to_be x = be_bytes 8 (unat x)"
proof -
  have "unat (drop_bit (56 - 8 * i) x) = unat x div 256 ^ (7 - i)" if "i < 8" for i
  proof -
    have "(256 :: nat) ^ (7 - i) = 2 ^ (8 * (7 - i))" by (simp add: power_mult)
    then have "(256 :: nat) ^ (7 - i) = 2 ^ (56 - 8 * i)" by (simp add: diff_mult_distrib2)
    moreover have "unat x mod 2 ^ 64 = unat x" using unsigned_less [of x, where 'a = nat] by simp
    ultimately show ?thesis by (subst unsigned_drop_bit_eq) (simp add: drop_bit_eq_div take_bit_eq_mod)
  qed
  then show ?thesis by (simp add: u64_to_be_def be_bytes_def)
qed

lemma u64_be_facts [simp]:
  "length (u64_to_be x) = 8" "u64_from_be (u64_to_be x) = x"
proof -
  show "length (u64_to_be x) = 8" by (simp add: u64_to_be_def)
  have "be_value (u64_to_be x) = unat x"
    using unsigned_less [of x, where 'a = nat] by (simp add: u64_to_be_bytes be_value_bytes)
  then show "u64_from_be (u64_to_be x) = x" by (simp add: u64_from_be_def be_value_def)
qed

lemma u64_to_from_be:
  assumes "length s = 8"
  shows "u64_to_be (u64_from_be s) = s"
proof -
  have "be_value t < 256 ^ length t" for t
  proof (induction t rule: rev_induct)
    case (snoc c t)
    have "(of_char c :: nat) < 256" by (metis of_char_mod_256 mod_less_divisor zero_less_numeral)
    with snoc show ?case unfolding be_value_simps length_append by (simp only: power_add list.size power_Suc power_0 add_0 mult_1 mult_1_right)
  qed simp
  from this [of s] have "unat (u64_from_be s) = be_value s"
    using assms by (simp add: u64_from_be_def be_value_def unat_of_nat)
  then show ?thesis using be_bytes_value [of s] assms by (simp add: u64_to_be_bytes)
qed

section \<open>Frames\<close>

text \<open>What the cipher does: decryption is the inverse of encryption, which appends the tag.\<close>

definition aead_exact :: "('a, 'x, 'sk) secure_lib \<Rightarrow> bool" where
  "aead_exact lib \<longleftrightarrow>
     (\<forall>k n a c m. sl_decrypt lib k n a c = Some m \<longleftrightarrow> sl_encrypt lib k n a m = Some c) \<and>
     (\<forall>k n a m c. sl_encrypt lib k n a m = Some c \<longrightarrow> length c = length m + TAG_LEN)"

definition frame_header :: "u64 \<Rightarrow> u64 \<Rightarrow> string" where
  "frame_header issued_at expires_at = FRAME_MAGIC @ [u8_char FRAME_VERSION] @ u64_to_be issued_at @ u64_to_be expires_at"

lemma length_frame_header [simp]: "length (frame_header a b) = FRAME_HEADER_LEN"
  by (simp add: frame_header_def FRAME_MAGIC_def FRAME_HEADER_LEN_def)

lemma seal_frame_eq:
  "seal_frame lib nonce key kid m iat ttl dir =
    (let h = frame_header iat (w_saturating_add iat ttl)
     in map_sum id (\<lambda>c. h @ nonce @ c) (ok_or SealFailed (sl_encrypt lib key nonce (frame_aad h kid dir) m)))"
proof -
  have "take FRAME_HEADER_LEN (frame_header a b @ nonce) = frame_header a b" for a b by simp
  then show ?thesis
    unfolding seal_frame_def Let_def frame_header_def [symmetric] by (simp add: ok_or_def split: option.splits)
qed

text \<open>A frame is well formed exactly when it is a header, a nonce and the rest.\<close>

lemma frame_parts:
  assumes "FRAME_HEADER_LEN + NONCE_LEN + TAG_LEN \<le> length f" and "take 4 f = FRAME_MAGIC" and "f ! 4 = u8_char FRAME_VERSION"
  shows "f = frame_header (u64_from_be (take 8 (drop 5 f))) (u64_from_be (take 8 (drop 13 f))) @
           take NONCE_LEN (drop FRAME_HEADER_LEN f) @ drop (FRAME_HEADER_LEN + NONCE_LEN) f"
proof -
  have len: "49 \<le> length f" using assms(1) by (simp add: FRAME_HEADER_LEN_def NONCE_LEN_def TAG_LEN_def)
  have "f = take 4 f @ [f ! 4] @ drop 5 f"
    using len id_take_nth_drop [of 4 f] by simp
  also have "drop 5 f = take 8 (drop 5 f) @ take 8 (drop 13 f) @ take 12 (drop 21 f) @ drop 33 f"
    using append_take_drop_id [of 8 "drop 5 f"] append_take_drop_id [of 8 "drop 13 f"] append_take_drop_id [of 12 "drop 21 f"]
    by (simp del: append_take_drop_id)
  finally show ?thesis
    using assms(2,3) len by (simp add: frame_header_def u64_to_from_be FRAME_HEADER_LEN_def NONCE_LEN_def)
qed

lemma open_parts:
  assumes "length nonce = NONCE_LEN" and "TAG_LEN \<le> length c"
  shows "open_frame lib key kid (frame_header iat exp' @ nonce @ c) now dir =
    (if exp' < now then Inl FrameExpired
     else ok_or AuthenticationFailed (sl_decrypt lib key nonce (frame_aad (frame_header iat exp') kid dir) c))"
proof -
  let ?f = "frame_header iat exp' @ nonce @ c"
  have "take 4 ?f = FRAME_MAGIC" "?f ! 4 = u8_char FRAME_VERSION" "take 8 (drop 13 ?f) = u64_to_be exp'"
    by (simp_all add: frame_header_def FRAME_MAGIC_def)
  moreover have "take NONCE_LEN (drop FRAME_HEADER_LEN ?f) = nonce" "drop (FRAME_HEADER_LEN + NONCE_LEN) ?f = c"
    "take FRAME_HEADER_LEN ?f = frame_header iat exp'"
    using assms(1) by simp_all
  moreover have "FRAME_HEADER_LEN + NONCE_LEN + TAG_LEN \<le> length ?f" using assms by simp
  ultimately show ?thesis unfolding open_frame_def by (simp add: Let_def)
qed

text \<open>Opening is the inverse of sealing.\<close>

lemma open_frame_exact:
  assumes "aead_exact lib"
  shows "open_frame lib key kid f now dir = Inr m \<longleftrightarrow>
    (\<exists>iat exp' nonce c. length nonce = NONCE_LEN \<and> now \<le> exp' \<and>
       sl_encrypt lib key nonce (frame_aad (frame_header iat exp') kid dir) m = Some c \<and> f = frame_header iat exp' @ nonce @ c)"
proof
  assume opened: "open_frame lib key kid f now dir = Inr m"
  then have "FRAME_HEADER_LEN + NONCE_LEN + TAG_LEN \<le> length f" "take 4 f = FRAME_MAGIC" "f ! 4 = u8_char FRAME_VERSION"
    by (auto simp: open_frame_def split: if_splits)
  note parts = frame_parts [OF this]
  let ?iat = "u64_from_be (take 8 (drop 5 f))" and ?exp = "u64_from_be (take 8 (drop 13 f))"
  let ?nonce = "take NONCE_LEN (drop FRAME_HEADER_LEN f)" and ?c = "drop (FRAME_HEADER_LEN + NONCE_LEN) f"
  have len: "length ?nonce = NONCE_LEN" "TAG_LEN \<le> length ?c"
    using \<open>FRAME_HEADER_LEN + NONCE_LEN + TAG_LEN \<le> length f\<close> by simp_all
  have "\<not> ?exp < now \<and> sl_decrypt lib key ?nonce (frame_aad (frame_header ?iat ?exp) kid dir) ?c = Some m"
    using opened open_parts [OF len, of lib key kid ?iat ?exp now dir] parts by (auto simp: ok_or_def split: if_splits option.splits)
  then show "\<exists>iat exp' nonce c. length nonce = NONCE_LEN \<and> now \<le> exp' \<and>
       sl_encrypt lib key nonce (frame_aad (frame_header iat exp') kid dir) m = Some c \<and> f = frame_header iat exp' @ nonce @ c"
    using assms len parts by (intro exI [of _ ?iat] exI [of _ ?exp] exI [of _ ?nonce] exI [of _ ?c]) (auto simp: aead_exact_def)
next
  assume "\<exists>iat exp' nonce c. length nonce = NONCE_LEN \<and> now \<le> exp' \<and>
       sl_encrypt lib key nonce (frame_aad (frame_header iat exp') kid dir) m = Some c \<and> f = frame_header iat exp' @ nonce @ c"
  then show "open_frame lib key kid f now dir = Inr m"
    using assms by (auto simp: aead_exact_def open_parts)
qed

lemma seal_opens:
  assumes "aead_exact lib" and "seal_frame lib nonce key kid m iat ttl dir = Inr f" and "length nonce = NONCE_LEN"
    and "now \<le> w_saturating_add iat ttl"
  shows "open_frame lib key kid f now dir = Inr m"
  unfolding open_frame_exact [OF assms(1)] using assms(2-4) by (auto simp: seal_frame_eq Let_def ok_or_def split: option.splits)

text \<open>The associated data of a frame tells its header, its key id and its direction.\<close>

lemma direction_label_inj: "direction_label d = direction_label d' \<longleftrightarrow> d = d'"
  by (cases d; cases d') simp_all

lemma length_direction_label [simp]: "length (direction_label d) = 3"
  by (cases d) simp_all

lemma frame_aad_inj:
  assumes "length h = length h'"
  shows "frame_aad h kid d = frame_aad h' kid' d' \<longleftrightarrow> h = h' \<and> kid = kid' \<and> d = d'"
  using assms by (auto simp: frame_aad_def append_eq_append_conv direction_label_inj append_assoc [symmetric] simp del: append_assoc)

lemma frame_header_inj: "frame_header a b = frame_header a' b' \<longleftrightarrow> a = a' \<and> b = b'"
proof
  assume "frame_header a b = frame_header a' b'"
  then have "u64_to_be a @ u64_to_be b = u64_to_be a' @ u64_to_be b'" by (simp add: frame_header_def)
  then have "u64_to_be a = u64_to_be a'" "u64_to_be b = u64_to_be b'" by simp_all
  then show "a = a' \<and> b = b'" by (metis u64_be_facts(2))
qed simp

text \<open>The nonce and the sealed part of a frame under one key are authentic for one associated data only. An
  authenticated cipher lets nobody make a frame for which this fails.\<close>

definition authentic_once :: "('a, 'x, 'sk) secure_lib \<Rightarrow> string \<Rightarrow> string \<Rightarrow> bool" where
  "authentic_once lib key f \<longleftrightarrow>
     (\<forall>a b. sl_decrypt lib key (take NONCE_LEN (drop FRAME_HEADER_LEN f)) a (drop (FRAME_HEADER_LEN + NONCE_LEN) f) \<noteq> None \<longrightarrow>
        sl_decrypt lib key (take NONCE_LEN (drop FRAME_HEADER_LEN f)) b (drop (FRAME_HEADER_LEN + NONCE_LEN) f) \<noteq> None \<longrightarrow> a = b)"

lemma open_frame_decrypts:
  "open_frame lib key kid f now dir = Inr m \<Longrightarrow> FRAME_HEADER_LEN \<le> length f \<and>
     sl_decrypt lib key (take NONCE_LEN (drop FRAME_HEADER_LEN f)) (frame_aad (take FRAME_HEADER_LEN f) kid dir)
       (drop (FRAME_HEADER_LEN + NONCE_LEN) f) = Some m"
  by (auto simp: open_frame_def Let_def ok_or_def split: if_splits option.splits)

text \<open>C32: opening is exactly the inverse of sealing, and a frame is bound to its times, its key id and its direction. A frame
  opens to a text at a time if and only if it is a header with an expiry that is not past, a nonce,
  and the encryption of that text under the same key, nonce and associated data; this data is
  different for different times, key ids or directions; so a frame whose sealed part is
  authentic for one associated data only opens under no other key id and not in the other
  direction, at any time: a response is never taken for a request.\<close>

theorem frames_open_exactly:
  assumes "aead_exact lib"
  shows "(open_frame lib key kid f now dir = Inr m \<longleftrightarrow>
      (\<exists>iat exp' nonce c. length nonce = NONCE_LEN \<and> now \<le> exp' \<and>
         sl_encrypt lib key nonce (frame_aad (frame_header iat exp') kid dir) m = Some c \<and> f = frame_header iat exp' @ nonce @ c)) \<and>
    (\<forall>iat exp' iat' exp'' kid' dir'. frame_aad (frame_header iat exp') kid dir = frame_aad (frame_header iat' exp'') kid' dir' \<longrightarrow>
       iat = iat' \<and> exp' = exp'' \<and> kid = kid' \<and> dir = dir') \<and>
    (\<forall>kid' dir' later m'. authentic_once lib key f \<and> open_frame lib key kid f now dir = Inr m \<and>
       open_frame lib key kid' f later dir' = Inr m' \<longrightarrow> kid' = kid \<and> dir' = dir \<and> m' = m)"
proof (intro conjI open_frame_exact assms allI impI)
  fix kid' dir' later m'
  assume "authentic_once lib key f \<and> open_frame lib key kid f now dir = Inr m \<and> open_frame lib key kid' f later dir' = Inr m'"
  then have "frame_aad (take FRAME_HEADER_LEN f) kid dir = frame_aad (take FRAME_HEADER_LEN f) kid' dir'"
    and m: "sl_decrypt lib key (take NONCE_LEN (drop FRAME_HEADER_LEN f)) (frame_aad (take FRAME_HEADER_LEN f) kid dir)
        (drop (FRAME_HEADER_LEN + NONCE_LEN) f) = Some m"
      "sl_decrypt lib key (take NONCE_LEN (drop FRAME_HEADER_LEN f)) (frame_aad (take FRAME_HEADER_LEN f) kid' dir')
        (drop (FRAME_HEADER_LEN + NONCE_LEN) f) = Some m'"
    unfolding authentic_once_def using open_frame_decrypts by (fast+)
  then show "kid' = kid" "dir' = dir" "m' = m" by (auto simp: frame_aad_inj)
qed (simp_all add: frame_aad_inj frame_header_inj)

section \<open>The store in memory\<close>

lemma fold_forget: "fold (\<lambda>(i, _) m. m(i := None)) xs m k = (if k \<in> fst ` set xs then None else m k)"
  by (induction xs arbitrary: m) auto

lemma enforce_capacity_kept: "enforce_capacity ord n m i = Some x \<Longrightarrow> m i = Some x"
  by (auto simp: enforce_capacity_def Let_def fold_forget split: if_splits)

lemma memory_insert_kept:
  assumes "memory_secure_insert ord n kid key e s = (Inr (), s')" and "i \<noteq> kid"
  shows "mv_sessions s' i = Some x \<Longrightarrow> mv_sessions s i = Some x \<and> w_saturating_sub e 1 \<le> sk_expires_at x"
  using assms by (auto simp: memory_secure_insert_def Let_def prune_expired_def split: if_splits option.splits dest!: enforce_capacity_kept)

lemma memory_insert_new:
  "memory_secure_insert ord n kid key e s = (Inr (), s') \<Longrightarrow> mv_sessions s' kid = Some \<lparr>sk_key = key, sk_expires_at = e\<rparr> \<and> \<not> mv_poisoned s'"
  by (auto simp: memory_secure_insert_def Let_def split: if_splits)

text \<open>A successful handshake stores the key under the expiry it announces.\<close>

lemma establish_stores:
  assumes "establish lib tr draw client w = (Inr r, w')"
  shows "\<exists>key now. secure_unix_now (sd_now draw) = Inr now \<and>
    hs_expires_at r = w_saturating_add now (of_nat (st_session_ttl (tr_config tr) div nanos_per_sec)) \<and>
    ss_insert (tr_store tr) (hs_key_id r) key (hs_expires_at r) w = (Inr (), w')"
  using assms
  by (auto simp: establish_def op_bind_apply op_lift_def op_return_def Let_def split: prod.splits sum.splits)

lemma announced_expiry:
  assumes "secure_unix_now t = Inr now" and "t + int ttl < 2 ^ 64 * int nanos_per_sec"
  shows "unat (w_saturating_add now (of_nat (ttl div nanos_per_sec))) = nat t div nanos_per_sec + ttl div nanos_per_sec" "0 \<le> t"
proof -
  show t: "0 \<le> t" using assms(1) by (auto simp: secure_unix_now_def duration_since_def unix_epoch_def split: if_splits)
  have now: "now = of_nat (nat t div nanos_per_sec)"
    using assms(1) t by (simp add: secure_unix_now_def duration_since_def unix_epoch_def)
  have "nat t + ttl < 2 ^ 64 * nanos_per_sec" using assms(2) t by (simp add: nat_less_iff nanos_per_sec_def) 
  moreover have "nat t div nanos_per_sec + ttl div nanos_per_sec \<le> (nat t + ttl) div nanos_per_sec"
    using div_add1_eq [of "nat t" ttl nanos_per_sec] by linarith
  moreover have "(nat t + ttl) div nanos_per_sec < 2 ^ 64"
    using \<open>nat t + ttl < 2 ^ 64 * nanos_per_sec\<close> by (simp add: less_mult_imp_div_less)
  ultimately have "nat t div nanos_per_sec + ttl div nanos_per_sec < 2 ^ 64" by linarith
  then show "unat (w_saturating_add now (of_nat (ttl div nanos_per_sec))) = nat t div nanos_per_sec + ttl div nanos_per_sec"
    by (simp add: now unat_saturating_add unat_of_nat)
qed

text \<open>With the store in memory, a handshake ends the sessions opened before it. When a second
  client completes a handshake two seconds or more after the first, the key of the first is gone
  from then on, at every time, although the first was told an expiry that is still to come.\<close>

theorem second_handshake_ends_first:
  assumes "tr_store tr = memory_secure_store ord n"
    and "establish lib tr draw1 client1 w = (Inr r1, w1)" and "establish lib tr draw2 client2 w1 = (Inr r2, w2)"
    and "hs_key_id r1 \<noteq> hs_key_id r2" and "sd_now draw1 + 2 * int nanos_per_sec \<le> sd_now draw2"
    and "sd_now draw2 + int (st_session_ttl (tr_config tr)) < 2 ^ 64 * int nanos_per_sec"
  shows "(\<forall>t \<le> hs_expires_at r1. fst (transport_session_key tr (hs_key_id r1) t w1) \<noteq> None) \<and>
    (\<forall>t. fst (transport_session_key tr (hs_key_id r1) t w2) = None)"
proof -
  let ?ttl = "st_session_ttl (tr_config tr)"
  have ins: "ss_insert (tr_store tr) = memory_secure_insert ord n" and get: "ss_get (tr_store tr) = memory_secure_get"
    using assms(1) by (simp_all add: memory_secure_store_def)
  obtain key1 now1 where 1: "secure_unix_now (sd_now draw1) = Inr now1"
      "hs_expires_at r1 = w_saturating_add now1 (of_nat (?ttl div nanos_per_sec))"
      "memory_secure_insert ord n (hs_key_id r1) key1 (hs_expires_at r1) w = (Inr (), w1)"
    using establish_stores [OF assms(2)] ins by auto
  obtain key2 now2 where 2: "secure_unix_now (sd_now draw2) = Inr now2"
      "hs_expires_at r2 = w_saturating_add now2 (of_nat (?ttl div nanos_per_sec))"
      "memory_secure_insert ord n (hs_key_id r2) key2 (hs_expires_at r2) w1 = (Inr (), w2)"
    using establish_stores [OF assms(3)] ins by auto
  have stored: "mv_sessions w1 (hs_key_id r1) = Some \<lparr>sk_key = key1, sk_expires_at = hs_expires_at r1\<rparr>" "\<not> mv_poisoned w1"
    using memory_insert_new [OF 1(3)] by auto
  have early: "sd_now draw1 + int ?ttl < 2 ^ 64 * int nanos_per_sec" using assms(5,6) by (simp add: nanos_per_sec_def)
  have e1: "unat (hs_expires_at r1) = nat (sd_now draw1) div nanos_per_sec + ?ttl div nanos_per_sec" "0 \<le> sd_now draw1"
    using announced_expiry [OF 1(1) early] 1(2) by simp_all
  have e2: "unat (hs_expires_at r2) = nat (sd_now draw2) div nanos_per_sec + ?ttl div nanos_per_sec"
    using announced_expiry(1) [OF 2(1) assms(6)] 2(2) by simp
  have "nat (sd_now draw1) + 2 * nanos_per_sec \<le> nat (sd_now draw2)" using assms(5) e1(2) by (simp add: nanos_per_sec_def)
  then have "nat (sd_now draw1) div nanos_per_sec + 2 \<le> nat (sd_now draw2) div nanos_per_sec"
    using div_le_mono [of "nat (sd_now draw1) + 2 * nanos_per_sec" _ nanos_per_sec] by (simp add: nanos_per_sec_def)
  then have "hs_expires_at r1 < w_saturating_sub (hs_expires_at r2) 1"
    using e1 e2 by (simp add: word_less_nat_alt unat_saturating_sub)
  then have "mv_sessions w2 (hs_key_id r1) = None"
    using memory_insert_kept [OF 2(3) assms(4)] stored(1) by (cases "mv_sessions w2 (hs_key_id r1)") (auto simp: not_le)
  then show ?thesis
    using stored by (auto simp: transport_session_key_def get memory_secure_get_def)
qed

section \<open>The layer\<close>

text \<open>A request that claims to be encrypted reaches the handler only opened; otherwise the handler does not
  run, so the answer does not depend on it.\<close>

lemma encrypted_requests_fail_closed:
  assumes "is_encrypted_request lib request"
    and "\<And>now0 kid key w1. secure_unix_now now = Inr now0 \<Longrightarrow> request_directive lib tr request now0 w = (Some (kid, key), w1) \<Longrightarrow>
      decrypt_request lib tr kid key now0 request \<in> range Inl"
  shows "secure_layer lib tr nonce now sealed request next_handler w = secure_layer lib tr nonce now sealed request other_handler w"
proof (cases "secure_unix_now now")
  case (Inr now0)
  show ?thesis
  proof (cases "request_directive lib tr request now0 w")
    case (Pair d w1)
    show ?thesis
    proof (cases d)
      case None
      then show ?thesis using assms(1) Inr Pair by (simp add: secure_layer_def)
    next
      case (Some kk)
      obtain kid key where kk: "kk = (kid, key)" by fastforce
      then obtain rejection where "decrypt_request lib tr kid key now0 request = Inl rejection"
        using assms(2) [OF Inr, of kid key w1] Pair Some by auto
      then show ?thesis using Inr Pair Some kk by (simp add: secure_layer_def)
    qed
  qed
qed (simp add: secure_layer_def)

text \<open>A store that fails does not refuse the others: the response goes out as the handler made it.\<close>

lemma store_failure_serves_plaintext:
  assumes "\<not> is_encrypted_request lib request" and "secure_unix_now now = Inr now0"
    and "\<And>kid. \<exists>e. ss_get (tr_store tr) kid now0 w = (Inl e, w)"
  shows "secure_layer lib tr nonce now sealed request next_handler w = next_handler request w"
proof -
  have "transport_session_key tr kid now0 w = (None, w)" for kid
    using assms(3) [of kid] by (auto simp: transport_session_key_def)
  then have "request_directive lib tr request now0 w = (None, w)"
    by (simp add: request_directive_def split: option.splits)
  with assms(1,2) show ?thesis by (simp add: secure_layer_def)
qed

text \<open>C33: through the layer, both sides read what the other wrote. When the client seals a text with its
  live key and the server receives the frame in time, the handler gets a request with that text
  as its body, the declared content type and no mark of encryption; and when it answers with a
  page, the client opens the body of the response, within the lifetime of frames, to that page.\<close>

theorem secure_exchange_round_trip:
  assumes "aead_exact lib" and "secure_unix_now now = Inr now0"
    and "request_directive lib tr request now0 w = (Some (kid, key), w1)" and "is_encrypted_request lib request"
    and "seal_frame lib nonce1 key kid m iat ttl FrameRequest = Inr (br_body (rq_rest request))" and "length nonce1 = NONCE_LEN"
    and "now0 \<le> w_saturating_add iat ttl" and "length (br_body (rq_rest request)) \<le> st_max_request_frame (tr_config tr)"
    and "secure_unix_now sealed = Inr now1" and "length nonce = NONCE_LEN" and "\<forall>k n a t. sl_encrypt lib k n a t \<noteq> None"
  shows "\<exists>opened. br_body (rq_rest opened) = m \<and> rq_headers opened ''x-phoenix-encrypted'' = [''0''] \<and>
      rq_headers opened ''content-length'' = [] \<and> rq_path opened = rq_path request \<and> rq_method opened = rq_method request \<and>
      (\<forall>next_handler r w2. next_handler opened w1 = (Some r, w2) \<and> \<not> is_streaming r \<and> is_plaintext_page_protocol lib r \<longrightarrow>
        (\<exists>r'. secure_layer lib tr nonce now sealed request next_handler w = (Some r', w2) \<and> rp_status r' = rp_status r \<and>
          rp_headers r' ''x-phoenix-encrypted'' = [''1''] \<and>
          (\<forall>t \<le> w_saturating_add now1 (of_nat (st_frame_ttl (tr_config tr) div nanos_per_sec)).
            open_frame lib key kid (buffered_body r') t FrameResponse = Inr (buffered_body r))))"
proof -
  have opens: "open_frame lib key kid (br_body (rq_rest request)) now0 FrameRequest = Inr m"
    by (rule seal_opens [OF assms(1,5,6,7)])
  then obtain opened where opened: "decrypt_request lib tr kid key now0 request = Inr opened"
    and body: "br_body (rq_rest opened) = m" "rq_headers opened ''x-phoenix-encrypted'' = [''0'']"
      "rq_headers opened ''content-length'' = []" "rq_path opened = rq_path request" "rq_method opened = rq_method request"
    using assms(4,8) by (auto simp: decrypt_request_def Let_def header_insert_def header_remove_def)
  have sealed: "\<exists>r'. encrypt_page_response lib tr nonce sealed kid key r = r' \<and> rp_status r' = rp_status r \<and>
      rp_headers r' ''x-phoenix-encrypted'' = [''1''] \<and>
      (\<forall>t \<le> w_saturating_add now1 (of_nat (st_frame_ttl (tr_config tr) div nanos_per_sec)).
        open_frame lib key kid (buffered_body r') t FrameResponse = Inr (buffered_body r))"
    if "\<not> is_streaming r" "is_plaintext_page_protocol lib r" for r :: "('b, 'd) response"
  proof -
    let ?ttl = "of_nat (st_frame_ttl (tr_config tr) div nanos_per_sec)"
    obtain f where f: "seal_frame lib nonce key kid (buffered_body r) now1 ?ttl FrameResponse = Inr f"
      using assms(11) by (fastforce simp: seal_frame_eq Let_def ok_or_def split: option.splits)
    then show ?thesis
      using that assms(9) seal_opens [OF assms(1) f assms(10)]
      by (simp add: encrypt_page_response_def insert_header_def header_insert_def response_new_def buffered_body_def)
  qed
  have layer: "secure_layer lib tr nonce now sealed request next_handler w =
      then_response (encrypt_page_response lib tr nonce sealed kid key) (next_handler opened w1)" for next_handler
    using assms(2,3) opened by (simp add: secure_layer_def)
  show ?thesis
    using body sealed by (intro exI [of _ opened]) (auto simp: layer then_response_def)
qed

section \<open>Examples\<close>

text \<open>A library whose cipher appends a constant tag; header values are read as they are.\<close>

definition demo_tag :: string where
  "demo_tag = replicate TAG_LEN (CHR ''t'')"

definition demo_web_env :: "unit web_env" where
  "demo_web_env =
     \<lparr>we_header_value = (\<lambda>_. True), we_header_text = Some, we_parse_ip = (\<lambda>_. None), we_parse_method = (\<lambda>_. None),
      we_parse_header_name = (\<lambda>_. None), we_parse_authority = (\<lambda>_. None), we_authority_text = (\<lambda>_. []), we_authority_host = (\<lambda>_. [])\<rparr>"

definition demo_lib :: "(unit, unit, nat) secure_lib" where
  "demo_lib =
     \<lparr>sl_web = demo_web_env, sl_generate = Some, sl_public = (\<lambda>sk. Some [char_of sk]), sl_agree = (\<lambda>sk p. Some (char_of sk # p)),
      sl_hkdf = (\<lambda>salt ikm info. take 32 (salt @ ikm @ info)), sl_encrypt = (\<lambda>k n a m. Some (m @ demo_tag)),
      sl_decrypt = (\<lambda>k n a c. if TAG_LEN \<le> length c \<and> drop (length c - TAG_LEN) c = demo_tag then Some (take (length c - TAG_LEN) c) else None),
      sl_base64 = id, sl_unbase64 = Some, sl_read_handshake = (\<lambda>_. None), sl_write_handshake = (\<lambda>_. None), sl_error_json = Some\<rparr>"

lemma demo_lib_exact: "aead_exact demo_lib"
proof -
  have "(if TAG_LEN \<le> length c \<and> drop (length c - TAG_LEN) c = demo_tag then Some (take (length c - TAG_LEN) c) else None) = Some m
      \<longleftrightarrow> m @ demo_tag = c" for c m
    by (auto simp: demo_tag_def) (metis append_take_drop_id)
  then show ?thesis by (simp add: aead_exact_def demo_lib_def) (simp add: demo_tag_def)
qed

text \<open>A cipher that knows one associated data.\<close>

definition bound_lib :: "string \<Rightarrow> (unit, unit, nat) secure_lib" where
  "bound_lib aad = demo_lib\<lparr>sl_encrypt := (\<lambda>k n a m. if a = aad then sl_encrypt demo_lib k n a m else None),
     sl_decrypt := (\<lambda>k n a c. if a = aad then sl_decrypt demo_lib k n a c else None)\<rparr>"

lemma bound_lib_exact: "aead_exact (bound_lib aad)"
  using demo_lib_exact by (simp add: aead_exact_def bound_lib_def)

theorem frames_open_exactly_witness:
  "\<exists>f. open_frame (bound_lib (frame_aad (frame_header 100 160) ''id'' FrameRequest)) ''key'' ''id'' f 160 FrameRequest = Inr ''hello'' \<and>
     (\<forall>later m. open_frame (bound_lib (frame_aad (frame_header 100 160) ''id'' FrameRequest)) ''key'' ''id'' f later FrameResponse \<noteq> Inr m)"
proof -
  let ?lib = "bound_lib (frame_aad (frame_header 100 160) ''id'' FrameRequest)"
  let ?f = "frame_header 100 160 @ replicate NONCE_LEN (CHR ''n'') @ ''hello'' @ demo_tag"
  note frames = frames_open_exactly [OF bound_lib_exact, of _ "''key''" "''id''" ?f 160 FrameRequest "''hello''"]
  have "open_frame ?lib ''key'' ''id'' ?f 160 FrameRequest = Inr ''hello''"
    unfolding frames [THEN conjunct1]
    by (intro exI [of _ 100] exI [of _ 160] exI [of _ "replicate NONCE_LEN (CHR ''n'')"] exI [of _ "''hello'' @ demo_tag"])
      (simp add: bound_lib_def demo_lib_def)
  moreover have "authentic_once ?lib ''key'' ?f" by (auto simp: authentic_once_def bound_lib_def split: if_splits)
  ultimately show ?thesis
    using frames [THEN conjunct2, THEN conjunct2] by (intro exI [of _ ?f]) (metis frame_direction.distinct(1))
qed

definition demo_transport :: "memory_secure secure_transport" where
  "demo_transport = \<lparr>tr_store = memory_secure_store (\<lambda>_. []) 0, tr_config = secure_config_default\<rparr>"

definition demo_client :: string where
  "demo_client = CHR 0x04 # replicate 64 (CHR ''p'')"

definition demo_draw :: "string \<Rightarrow> nat \<Rightarrow> secure_draw" where
  "demo_draw i secs = \<lparr>sd_seed = 7, sd_entropy = Some i, sd_now = int (duration_from_secs secs)\<rparr>"

lemma secure_now_of_secs: "secure_unix_now (int (duration_from_secs n)) = Inr (of_nat n)"
proof -
  have "nat (int n * 1000000000) div 1000000000 = n" by (simp add: nat_mult_distrib)
  then show ?thesis by (simp add: secure_unix_now_def duration_since_def unix_epoch_def duration_from_secs_def nanos_per_sec_def)
qed

lemma demo_handshake:
  assumes "n < 1000" and "\<not> mv_poisoned w"
  shows "\<exists>r w'. establish demo_lib demo_transport (demo_draw i n) demo_client w = (Inr r, w') \<and> hs_key_id r = i \<and>
    hs_expires_at r = of_nat (n + 300) \<and> \<not> mv_poisoned w'"
proof -
  have "w_saturating_add (of_nat n :: u64) 300 = of_nat (n + 300)"
    using assms(1) by (simp add: word_unat_eq_iff unat_saturating_add unat_of_nat del: of_nat_add)
  moreover have "server_handshake demo_lib 7 demo_client i = Inr ([char_of (7 :: nat)], derive_session_key demo_lib (char_of (7 :: nat) # demo_client) i)"
    by (simp add: server_handshake_def demo_lib_def demo_client_def P256_UNCOMPRESSED_LEN_def ok_or_def)
  moreover have "sl_base64 demo_lib = id" by (simp add: demo_lib_def)
  moreover have "duration_from_secs 300 div nanos_per_sec = 300" by (simp add: duration_from_secs_def nanos_per_sec_def)
  ultimately show ?thesis
    using assms(2)
    by (simp add: establish_def op_bind_apply mint_key_id_def demo_draw_def secure_now_of_secs ok_or_def Let_def demo_transport_def
        secure_config_default_def memory_secure_store_def memory_secure_insert_def)
qed

theorem second_handshake_ends_first_witness:
  "\<exists>w1 w2. fst (transport_session_key demo_transport ''one'' 310 w1) \<noteq> None \<and> fst (transport_session_key demo_transport ''one'' 310 w2) = None"
proof -
  let ?w = "\<lparr>mv_sessions = \<lambda>_. None, mv_poisoned = False\<rparr>"
  obtain r1 w1 where 1: "establish demo_lib demo_transport (demo_draw ''one'' 10) demo_client ?w = (Inr r1, w1)" "hs_key_id r1 = ''one''"
      "hs_expires_at r1 = 310" "\<not> mv_poisoned w1"
    using demo_handshake [of 10 ?w "''one''"] by auto
  obtain r2 w2 where 2: "establish demo_lib demo_transport (demo_draw ''two'' 12) demo_client w1 = (Inr r2, w2)" "hs_key_id r2 = ''two''"
    using demo_handshake [OF _ 1(4), of 12 "''two''"] by auto
  have "tr_store demo_transport = memory_secure_store (\<lambda>_. []) 0" by (simp add: demo_transport_def)
  moreover have "sd_now (demo_draw ''one'' 10) + 2 * int nanos_per_sec \<le> sd_now (demo_draw ''two'' 12)"
    and "sd_now (demo_draw ''two'' 12) + int (st_session_ttl (tr_config demo_transport)) < 2 ^ 64 * int nanos_per_sec"
    by (simp_all add: demo_draw_def demo_transport_def secure_config_default_def duration_from_secs_def nanos_per_sec_def)
  ultimately have "(\<forall>t \<le> 310. fst (transport_session_key demo_transport ''one'' t w1) \<noteq> None) \<and>
      (\<forall>t. fst (transport_session_key demo_transport ''one'' t w2) = None)"
    using second_handshake_ends_first [OF _ 1(1) 2(1)] 1(2,3) 2(2) by simp
  then show ?thesis by blast
qed

definition demo_world :: memory_secure where
  "demo_world = \<lparr>mv_sessions = [''id'' \<mapsto> \<lparr>sk_key = ''key'', sk_expires_at = 500\<rparr>], mv_poisoned = False\<rparr>"

definition demo_post :: "string \<Rightarrow> (unit, unit body_rest) request" where
  "demo_post body =
     \<lparr>rq_method = ''POST'', rq_path = ''/notes'', rq_path_and_query = Some ''/notes'', rq_authority = None,
      rq_headers = header_insert ''x-phoenix-secure'' ''1'' (header_insert ''x-phoenix-key'' ''id''
        (header_insert ''x-phoenix-encrypted'' ''1'' (header_insert ''content-type'' SECURE_CONTENT_TYPE (\<lambda>_. [])))),
      rq_params = [], rq_route_name = None, rq_application = None, rq_manifest = None, rq_request_id = None, rq_peer = None,
      rq_connection = None, rq_client_ip = None, rq_scheme = None, rq_nonce = None, rq_has_session = False, rq_rest = \<lparr>br_body = body, br_rest = ()\<rparr>\<rparr>"

theorem secure_exchange_round_trip_witness:
  "\<exists>f opened. seal_frame demo_lib (replicate NONCE_LEN (CHR ''n'')) ''key'' ''id'' ''hello'' 100 60 FrameRequest = Inr f \<and>
     br_body (rq_rest (opened :: (unit, unit body_rest) request)) = ''hello'' \<and>
     (\<forall>next_handler r w2. next_handler opened demo_world = (Some r, w2) \<and> \<not> is_streaming r \<and> is_plaintext_page_protocol demo_lib r \<longrightarrow>
       (\<exists>r'. secure_layer demo_lib demo_transport (replicate NONCE_LEN (CHR ''n'')) (int (duration_from_secs 120)) (int (duration_from_secs 121))
         (demo_post f) next_handler demo_world = (Some r', w2)))"
proof -
  let ?nonce = "replicate NONCE_LEN (CHR ''n'')"
  obtain f where f: "seal_frame demo_lib ?nonce ''key'' ''id'' ''hello'' 100 60 FrameRequest = Inr f" "length f < 2000"
    by (simp add: seal_frame_eq Let_def ok_or_def demo_lib_def demo_tag_def FRAME_HEADER_LEN_def NONCE_LEN_def TAG_LEN_def)
  have e1: "request_directive demo_lib demo_transport (demo_post f) (of_nat 120) demo_world = (Some (''id'', ''key''), demo_world)"
    by (simp add: request_directive_def header_text_def demo_post_def demo_lib_def demo_web_env_def header_get_def header_insert_def
        transport_session_key_def demo_transport_def memory_secure_store_def memory_secure_get_def demo_world_def)
  have e2: "is_encrypted_request demo_lib (demo_post f)"
    by (simp add: is_encrypted_request_def header_text_def demo_post_def demo_lib_def demo_web_env_def header_get_def header_insert_def)
  have e3: "seal_frame demo_lib ?nonce ''key'' ''id'' ''hello'' 100 60 FrameRequest = Inr (br_body (rq_rest (demo_post f)))"
    using f(1) by (simp add: demo_post_def)
  have e4: "length (br_body (rq_rest (demo_post f))) \<le> st_max_request_frame (tr_config demo_transport)"
    using f(2) by (simp add: demo_post_def demo_transport_def secure_config_default_def)
  have e5: "of_nat 120 \<le> w_saturating_add (100 :: u64) 60" by (simp add: word_le_nat_alt unat_saturating_add)
  have e6: "\<forall>k n a t. sl_encrypt demo_lib k n a t \<noteq> None" by (simp add: demo_lib_def)
  have nl: "length ?nonce = NONCE_LEN" by simp
  from secure_exchange_round_trip [OF demo_lib_exact secure_now_of_secs e1 e2 e3 nl e5 e4 secure_now_of_secs nl e6, of 121]
  obtain opened where "br_body (rq_rest opened) = ''hello''"
    and "\<forall>next_handler r w2. next_handler opened demo_world = (Some r, w2) \<and> \<not> is_streaming r \<and> is_plaintext_page_protocol demo_lib r \<longrightarrow>
      (\<exists>r'. secure_layer demo_lib demo_transport ?nonce (int (duration_from_secs 120)) (int (duration_from_secs 121))
        (demo_post f) next_handler demo_world = (Some r', w2))"
    by blast
  then show ?thesis using f(1) by blast
qed

end
