(* ===== verification/View_Document.thy ===== *)
theory View_Document
  imports Secure Validation
begin

text \<open>
  Pages and the documents around them (\<open>phoenix-view\<close>: \<open>lib.rs\<close>, \<open>document.rs\<close>): the page envelope, the
  slots an application may fill, and the text of the HTML document before and after the rendered
  root. HTML of a slot is inserted as it is; JSON text is an argument.
\<close>

section \<open>The page envelope\<close>

datatype render_mode = Spa | Ssr | Islands

fun render_mode_str :: "render_mode \<Rightarrow> string" where
  "render_mode_str Spa = ''spa''"
| "render_mode_str Ssr = ''ssr''"
| "render_mode_str Islands = ''islands''"

record 'n island =
  il_id :: string
  il_component :: string
  il_props :: "'n json_tree"

definition island_new :: "string \<Rightarrow> 'n json_tree option \<Rightarrow> 'n island" where
  "island_new component props =
     \<lparr>il_id = component, il_component = component, il_props = (case props of None \<Rightarrow> VNull | Some v \<Rightarrow> v)\<rparr>"

definition island_with_id :: "string \<Rightarrow> string \<Rightarrow> 'n json_tree option \<Rightarrow> 'n island" where
  "island_with_id i component props =
     \<lparr>il_id = i, il_component = component, il_props = (case props of None \<Rightarrow> VNull | Some v \<Rightarrow> v)\<rparr>"

record open_graph =
  og_title :: "string option"
  og_description :: "string option"
  og_image :: "string option"
  og_kind :: "string option"

definition open_graph_new :: "string \<Rightarrow> open_graph" where
  "open_graph_new title = \<lparr>og_title = Some title, og_description = None, og_image = None, og_kind = None\<rparr>"

record page_head =
  hd_title :: "string option"
  hd_description :: "string option"
  hd_canonical :: "string option"
  hd_robots :: "string option"
  hd_open_graph :: "open_graph option"

definition page_head_default :: page_head where
  "page_head_default = \<lparr>hd_title = None, hd_description = None, hd_canonical = None, hd_robots = None, hd_open_graph = None\<rparr>"

definition page_head_new :: "string \<Rightarrow> page_head" where
  "page_head_new title = page_head_default\<lparr>hd_title := Some title\<rparr>"

record 'n page_envelope =
  pe_protocol :: u8
  pe_render_mode :: render_mode
  pe_page :: string
  pe_props :: "'n json_tree"
  pe_shared :: "(string \<times> 'n json_tree) list"
  pe_errors :: "(string \<times> 'n json_tree) list"
  pe_flash :: "(string \<times> 'n json_tree) list"
  pe_contract_hash :: "string option"
  pe_asset_version :: "string option"
  pe_request_id :: "string option"
  pe_head :: page_head
  pe_csrf_token :: "string option"
  pe_locale :: string
  pe_translations :: "(string \<times> string) list"
  pe_routes :: "string \<rightharpoonup> string"
  pe_islands :: "'n island list"

section \<open>Slots\<close>

type_synonym html_attributes = "(string \<times> string) list"

record document_slots =
  sl_html :: html_attributes
  sl_body :: html_attributes
  sl_root :: html_attributes
  sl_head :: string
  sl_before_root :: string
  sl_after_root :: string

definition document_slots_new :: document_slots where
  "document_slots_new = \<lparr>sl_html = [], sl_body = [], sl_root = [], sl_head = [], sl_before_root = [], sl_after_root = []\<rparr>"

datatype document_template_error = InvalidAttributeName string | ReservedRootAttribute string | TemplateRender string

definition attribute_start :: "char \<Rightarrow> bool" where
  "attribute_start c \<longleftrightarrow> is_ascii_alphabetic c \<or> c = CHR ''_'' \<or> c = CHR '':''"

definition attribute_rest :: "char \<Rightarrow> bool" where
  "attribute_rest c \<longleftrightarrow> is_ascii_alphabetic c \<or> is_ascii_digit c \<or> c = CHR ''_'' \<or> c = CHR '':'' \<or> c = CHR ''.'' \<or> c = CHR ''-''"

definition checked_attribute_name :: "string \<Rightarrow> document_template_error + string" where
  "checked_attribute_name name =
     (case name of
        [] \<Rightarrow> Inl (InvalidAttributeName name)
      | c # cs \<Rightarrow> if attribute_start c \<and> list_all attribute_rest cs then Inr name else Inl (InvalidAttributeName name))"

fun set_attribute :: "html_attributes \<Rightarrow> string \<Rightarrow> string \<Rightarrow> html_attributes" where
  "set_attribute [] name v = [(name, v)]"
| "set_attribute ((current, w) # attributes) name v =
     (if eq_ignore_ascii_case current name then (current, v) # attributes else (current, w) # set_attribute attributes name v)"

definition slots_language :: "string \<Rightarrow> document_slots \<Rightarrow> document_slots" where
  "slots_language language s = s\<lparr>sl_html := set_attribute (sl_html s) ''lang'' language\<rparr>"

definition slots_html_attribute :: "string \<Rightarrow> string \<Rightarrow> document_slots \<Rightarrow> document_template_error + document_slots" where
  "slots_html_attribute name v s =
     map_sum id (\<lambda>name. s\<lparr>sl_html := set_attribute (sl_html s) name v\<rparr>) (checked_attribute_name name)"

definition slots_body_attribute :: "string \<Rightarrow> string \<Rightarrow> document_slots \<Rightarrow> document_template_error + document_slots" where
  "slots_body_attribute name v s =
     map_sum id (\<lambda>name. s\<lparr>sl_body := set_attribute (sl_body s) name v\<rparr>) (checked_attribute_name name)"

definition slots_root_attribute :: "string \<Rightarrow> string \<Rightarrow> document_slots \<Rightarrow> document_template_error + document_slots" where
  "slots_root_attribute name v s =
     res_bind (checked_attribute_name name) (\<lambda>name.
       if to_ascii_lowercase name \<in> {''id'', ''data-render-mode''} then Inl (ReservedRootAttribute name)
       else Inr (s\<lparr>sl_root := set_attribute (sl_root s) name v\<rparr>))"

definition slots_head :: "string \<Rightarrow> document_slots \<Rightarrow> document_slots" where
  "slots_head html s = s\<lparr>sl_head := html\<rparr>"

definition slots_before_root :: "string \<Rightarrow> document_slots \<Rightarrow> document_slots" where
  "slots_before_root html s = s\<lparr>sl_before_root := html\<rparr>"

definition slots_after_root :: "string \<Rightarrow> document_slots \<Rightarrow> document_slots" where
  "slots_after_root html s = s\<lparr>sl_after_root := html\<rparr>"

record 'n document_context =
  dc_envelope :: "'n page_envelope"
  dc_nonce :: "string option"

type_synonym 'n document_template = "'n document_context \<Rightarrow> document_template_error + document_slots"

definition template_new :: "document_slots \<Rightarrow> 'n document_template" where
  "template_new slots = (\<lambda>_. Inr slots)"

definition template_from_fn :: "('n document_context \<Rightarrow> document_slots) \<Rightarrow> 'n document_template" where
  "template_from_fn render = (\<lambda>context. Inr (render context))"

section \<open>Escaping\<close>

definition QUOT :: string where
  "QUOT = [CHR 0x22]"

definition html_attribute :: "string \<Rightarrow> string" where
  "html_attribute v =
     str_replace ''>'' ''&gt;'' (str_replace ''<'' ''&lt;'' (str_replace QUOT ''&quot;'' (str_replace ''&'' ''&amp;'' v)))"

definition html_text :: "string \<Rightarrow> string" where
  "html_text v = str_replace ''>'' ''&gt;'' (str_replace ''<'' ''&lt;'' (str_replace ''&'' ''&amp;'' v))"

text \<open>A backslash before the four hexadecimal digits of a JSON escape.\<close>

definition json_escape :: "string \<Rightarrow> string" where
  "json_escape digits = CHR 0x5C # CHR ''u'' # digits"

definition json_for_html :: "('v \<Rightarrow> string option) \<Rightarrow> 'v \<Rightarrow> string option" where
  "json_for_html to_json v =
     map_option (\<lambda>json.
       str_replace [CHR 0xE2, CHR 0x80, CHR 0xA9] (json_escape ''2029'')
         (str_replace [CHR 0xE2, CHR 0x80, CHR 0xA8] (json_escape ''2028'')
           (str_replace ''>'' (json_escape ''003e'')
             (str_replace ''<'' (json_escape ''003c'')
               (str_replace ''&'' (json_escape ''0026'') json))))) (to_json v)"

section \<open>The document\<close>

definition in_quotes :: "string \<Rightarrow> string" where
  "in_quotes v = QUOT @ v @ QUOT"

definition attr_quoted :: "string \<Rightarrow> string" where
  "attr_quoted v = in_quotes (html_attribute v)"

definition nonce_attribute :: "string option \<Rightarrow> string" where
  "nonce_attribute nonce = (case nonce of None \<Rightarrow> [] | Some nonce \<Rightarrow> '' nonce='' @ attr_quoted nonce)"

definition render_attributes :: "html_attributes \<Rightarrow> string" where
  "render_attributes attributes = concat (map (\<lambda>(name, v). '' '' @ name @ ''='' @ attr_quoted v) attributes)"

definition render_html_attributes :: "'n page_envelope \<Rightarrow> document_slots \<Rightarrow> string" where
  "render_html_attributes envelope slots =
     (if \<not> list_ex (\<lambda>(name, _). eq_ignore_ascii_case name ''lang'') (sl_html slots) \<and> pe_locale envelope \<noteq> []
      then '' lang='' @ attr_quoted (pe_locale envelope) else []) @
     render_attributes (sl_html slots)"

definition push_meta :: "string \<Rightarrow> string \<Rightarrow> string \<Rightarrow> string" where
  "push_meta key name content = ''<meta '' @ key @ ''='' @ attr_quoted name @ '' content='' @ attr_quoted content @ '' data-phoenix-head>''"

definition opt_text :: "string option \<Rightarrow> (string \<Rightarrow> string) \<Rightarrow> string" where
  "opt_text v f = (case v of None \<Rightarrow> [] | Some v \<Rightarrow> f v)"

definition document_head :: "page_head \<Rightarrow> string" where
  "document_head head =
     opt_text (hd_title head) (\<lambda>title. ''<title data-phoenix-head>'' @ html_text title @ ''</title>'') @
     opt_text (hd_description head) (push_meta ''name'' ''description'') @
     opt_text (hd_canonical head) (\<lambda>c. ''<link rel='' @ in_quotes ''canonical'' @ '' href='' @ attr_quoted c @ '' data-phoenix-head>'') @
     opt_text (hd_robots head) (push_meta ''name'' ''robots'') @
     (case hd_open_graph head of
        None \<Rightarrow> []
      | Some g \<Rightarrow>
          opt_text (og_title g) (push_meta ''property'' ''og:title'') @
          opt_text (og_description g) (push_meta ''property'' ''og:description'') @
          opt_text (og_image g) (push_meta ''property'' ''og:image'') @
          opt_text (og_kind g) (push_meta ''property'' ''og:type''))"

definition document_prefix :: "'n page_envelope \<Rightarrow> string list \<Rightarrow> string option \<Rightarrow> document_slots \<Rightarrow> string" where
  "document_prefix envelope stylesheets nonce slots =
     (let styles = concat (map (\<lambda>source. ''<link rel='' @ in_quotes ''stylesheet'' @ '' href='' @ attr_quoted source @ nonce_attribute nonce @ ''>'') stylesheets);
          nonce_meta = (if nonce = None then [] else ''<meta property='' @ in_quotes ''csp-nonce'' @ nonce_attribute nonce @ ''>'')
      in ''<!doctype html><html'' @ render_html_attributes envelope slots @ ''><head><meta charset='' @ in_quotes ''utf-8'' @
         ''><meta name='' @ in_quotes ''viewport'' @ '' content='' @ in_quotes ''width=device-width,initial-scale=1'' @ ''>'' @
         nonce_meta @ document_head (pe_head envelope) @ styles @ sl_head slots @ ''</head><body'' @
         render_attributes (sl_body slots) @ ''>'' @ sl_before_root slots @
         ''<div id='' @ in_quotes ''phoenix-root'' @ '' data-render-mode='' @ in_quotes (render_mode_str (pe_render_mode envelope)) @
         render_attributes (sl_root slots) @ ''>'')"

definition document_suffix :: "('n page_envelope \<Rightarrow> string option) \<Rightarrow> 'n page_envelope \<Rightarrow> string \<Rightarrow> string option \<Rightarrow> document_slots \<Rightarrow> string option" where
  "document_suffix to_json envelope script_src nonce slots =
     map_option (\<lambda>payload.
       ''</div>'' @ sl_after_root slots @
       ''<script id='' @ in_quotes ''phoenix-page'' @ '' type='' @ in_quotes ''application/json'' @ nonce_attribute nonce @ ''>'' @ payload @ ''</script>'' @
       ''<script type='' @ in_quotes ''module'' @ '' src='' @ attr_quoted script_src @ nonce_attribute nonce @ ''></script></body></html>'')
     (json_for_html to_json envelope)"

end
