(* ===== verification/View_Html.thy ===== *)
theory View_Html
  imports View_Document
begin

text \<open>
  How a browser reads the documents of View_Document: a tokenizer for the part of HTML that
  occurs in them, by the steps of the HTML standard, with \<open>None\<close> for everything else. A title is
  read as text with character references, a script as text without them, and an attribute
  that is given twice counts the first time.
\<close>

section \<open>A tokenizer\<close>

datatype html_token = Doctype | StartTag string html_attributes | EndTag string | TextChar char

datatype html_mode = DataMode | TitleMode | ScriptMode

text \<open>The character references that occur.\<close>

definition char_ref :: "string \<Rightarrow> (char \<times> string) option" where
  "char_ref s =
     (if take 4 s = ''amp;'' then Some (CHR ''&'', drop 4 s)
      else if take 5 s = ''quot;'' then Some (CHR 0x22, drop 5 s)
      else if take 3 s = ''lt;'' then Some (CHR ''<'', drop 3 s)
      else if take 3 s = ''gt;'' then Some (CHR ''>'', drop 3 s)
      else None)"

lemma char_ref_shorter: "char_ref s = Some (c, r) \<Longrightarrow> length r \<le> length s"
  by (auto simp: char_ref_def split: if_splits)

text \<open>The value of an attribute up to the closing quotation mark.\<close>

function attribute_value :: "string \<Rightarrow> (string \<times> string) option" where
  "attribute_value s =
     (case s of
        [] \<Rightarrow> None
      | c # r \<Rightarrow>
          (if c = CHR 0x22 then Some ([], r)
           else if c = CHR ''&'' then
             (case char_ref r of
                None \<Rightarrow> None
              | Some (d, r) \<Rightarrow> map_option (apfst (Cons d)) (attribute_value r))
           else map_option (apfst (Cons c)) (attribute_value r)))"
  by pat_completeness auto
termination
  by (relation "measure length") (auto dest: char_ref_shorter)

declare attribute_value.simps [simp del]

definition tag_char :: "char \<Rightarrow> bool" where
  "tag_char c \<longleftrightarrow> is_ascii_alphabetic c \<or> is_ascii_digit c"

definition drop_duplicates :: "html_attributes \<Rightarrow> html_attributes" where
  "drop_duplicates = foldl (\<lambda>kept (name, v). if name \<in> set (map fst kept) then kept else kept @ [(name, v)]) []"

text \<open>The attributes of a tag after its name, each after one space, up to the end of the tag.\<close>

function tag_attributes :: "string \<Rightarrow> (html_attributes \<times> string) option" where
  "tag_attributes s =
     (case s of
        [] \<Rightarrow> None
      | c # r \<Rightarrow>
          (if c = CHR ''>'' then Some ([], r)
           else if c = CHR '' '' then
             (let name = takeWhile attribute_rest r; after = dropWhile attribute_rest r
              in if name = [] then None
                 else if take 2 after = ''='' @ QUOT then
                   (case attribute_value (drop 2 after) of
                      None \<Rightarrow> None
                    | Some (v, rest) \<Rightarrow>
                        if length rest < length s then map_option (apfst (Cons (to_ascii_lowercase name, v))) (tag_attributes rest) else None)
                 else if take 1 after \<in> {'' '', ''>''} then map_option (apfst (Cons (to_ascii_lowercase name, []))) (tag_attributes after)
                 else None)
           else None))"
  by pat_completeness auto
termination
  by (relation "measure length") (auto simp: less_Suc_eq_le length_dropWhile_le)

declare tag_attributes.simps [simp del]

definition start_tag :: "string \<Rightarrow> (html_token \<times> html_mode \<times> string) option" where
  "start_tag s =
     (let name = to_ascii_lowercase (takeWhile tag_char s)
      in if name = [] \<or> \<not> is_ascii_alphabetic (hd s) \<or> name \<in> {''style'', ''textarea'', ''xmp'', ''iframe'', ''noembed'', ''noframes'', ''noscript'', ''plaintext''} then None
         else
           (case tag_attributes (dropWhile tag_char s) of
              None \<Rightarrow> None
            | Some (attributes, rest) \<Rightarrow>
                Some (StartTag name (drop_duplicates attributes), if name = ''title'' then TitleMode else if name = ''script'' then ScriptMode else DataMode, rest)))"

definition end_tag :: "string \<Rightarrow> (html_token \<times> html_mode \<times> string) option" where
  "end_tag s =
     (let name = takeWhile tag_char s; after = dropWhile tag_char s
      in if name = [] \<or> \<not> is_ascii_alphabetic (hd s) \<or> take 1 after \<noteq> ''>'' then None
         else Some (EndTag (to_ascii_lowercase name), DataMode, drop 1 after))"

definition markup :: "html_mode \<Rightarrow> string \<Rightarrow> (html_token \<times> html_mode \<times> string) option" where
  "markup mode s =
     (case mode of
        DataMode \<Rightarrow>
          if take 14 s = ''!doctype html>'' then Some (Doctype, DataMode, drop 14 s)
          else if take 1 s = ''/'' then end_tag (drop 1 s)
          else start_tag s
      | TitleMode \<Rightarrow> if take 7 s = ''/title>'' then Some (EndTag ''title'', DataMode, drop 7 s) else None
      | ScriptMode \<Rightarrow> if take 8 s = ''/script>'' then Some (EndTag ''script'', DataMode, drop 8 s) else None)"

function html_tokens :: "html_mode \<Rightarrow> string \<Rightarrow> html_token list option" where
  "html_tokens mode s =
     (case s of
        [] \<Rightarrow> if mode = DataMode then Some [] else None
      | c # r \<Rightarrow>
          (if c = CHR ''<'' then
             (case markup mode r of
                None \<Rightarrow> None
              | Some (token, mode, rest) \<Rightarrow> if length rest < length s then map_option (Cons token) (html_tokens mode rest) else None)
           else if c = CHR ''&'' \<and> mode \<noteq> ScriptMode then
             (case char_ref r of
                None \<Rightarrow> None
              | Some (d, rest) \<Rightarrow> map_option (Cons (TextChar d)) (html_tokens mode rest))
           else map_option (Cons (TextChar c)) (html_tokens mode r)))"
  by pat_completeness auto
termination
  by (relation "measure (\<lambda>(_, s). length s)") (auto dest: char_ref_shorter)

declare html_tokens.simps [simp del]

section \<open>Escaping, character by character\<close>

definition escape_attribute_char :: "char \<Rightarrow> string" where
  "escape_attribute_char c =
     (if c = CHR ''&'' then ''&amp;'' else if c = CHR 0x22 then ''&quot;'' else if c = CHR ''<'' then ''&lt;''
      else if c = CHR ''>'' then ''&gt;'' else [c])"

definition escape_text_char :: "char \<Rightarrow> string" where
  "escape_text_char c =
     (if c = CHR ''&'' then ''&amp;'' else if c = CHR ''<'' then ''&lt;'' else if c = CHR ''>'' then ''&gt;'' else [c])"

lemma replace_char: "str_replace [a] to s = concat (map (\<lambda>c. if c = a then to else [c]) s)"
proof (induction s)
  case (Cons c s)
  then show ?case
    using str_replace_match [of "[a]" to s] str_replace_skip [of "[a]" c s to] by (cases "c = a") auto
qed simp

lemma concat_map_concat: "concat (map f (concat (map g s))) = concat (map (\<lambda>c. concat (map f (g c))) s)"
  by (induction s) auto

lemma html_attribute_chars: "html_attribute s = concat (map escape_attribute_char s)"
  unfolding html_attribute_def QUOT_def replace_char concat_map_concat
  by (intro arg_cong [where f = concat] map_cong refl) (auto simp: escape_attribute_char_def)

lemma html_text_chars: "html_text s = concat (map escape_text_char s)"
  unfolding html_text_def replace_char concat_map_concat
  by (intro arg_cong [where f = concat] map_cong refl) (auto simp: escape_text_char_def)

section \<open>Reading what was escaped\<close>

lemma char_ref_known [simp]:
  "char_ref (CHR ''a'' # CHR ''m'' # CHR ''p'' # CHR '';'' # s) = Some (CHR ''&'', s)"
  "char_ref (CHR ''q'' # CHR ''u'' # CHR ''o'' # CHR ''t'' # CHR '';'' # s) = Some (CHR 0x22, s)"
  "char_ref (CHR ''l'' # CHR ''t'' # CHR '';'' # s) = Some (CHR ''<'', s)"
  "char_ref (CHR ''g'' # CHR ''t'' # CHR '';'' # s) = Some (CHR ''>'', s)"
  by (simp_all add: char_ref_def)

lemma attribute_value_escaped: "attribute_value (concat (map escape_attribute_char v) @ CHR 0x22 # r) = Some (v, r)"
proof (induction v)
  case (Cons c v)
  then show ?case
    by (simp add: escape_attribute_char_def) (simp_all add: attribute_value.simps)
qed (simp add: attribute_value.simps)

lemma text_escaped:
  assumes "mode \<noteq> ScriptMode"
  shows "html_tokens mode (html_text t @ r) = map_option ((@) (map TextChar t)) (html_tokens mode r)"
  unfolding html_text_chars
proof (induction t)
  case (Cons c t)
  have "html_tokens mode (escape_text_char c @ s) = map_option (Cons (TextChar c)) (html_tokens mode s)" for s
    using assms by (auto simp: escape_text_char_def html_tokens.simps [of mode "_ # _"])
  then show ?case using Cons by (simp add: option.map_comp o_def)
qed (simp add: option.map_ident)

section \<open>Tags\<close>

text \<open>The names a tag gives its attributes: browsers fold them to lower case.\<close>

definition read_attributes :: "html_attributes \<Rightarrow> html_attributes" where
  "read_attributes = map (\<lambda>(name, v). (to_ascii_lowercase name, v))"

definition attribute_name :: "string \<Rightarrow> bool" where
  "attribute_name name \<longleftrightarrow> name \<noteq> [] \<and> list_all attribute_rest name"

lemma take_attribute_name:
  assumes "list_all attribute_rest name" and "\<not> attribute_rest c"
  shows "takeWhile attribute_rest (name @ c # r) = name" and "dropWhile attribute_rest (name @ c # r) = c # r"
  using assms by (induction name) auto

lemma not_attribute_rest [simp]:
  "\<not> attribute_rest (CHR ''='')" "\<not> attribute_rest (CHR '' '')" "\<not> attribute_rest (CHR ''>'')" "\<not> attribute_rest (CHR 0x22)"
  by (simp_all add: attribute_rest_def is_ascii_alphabetic_def is_ascii_digit_def byte_in_def)

lemma attribute_value_unfold:
  "attribute_value [] = None"
  "attribute_value (c # r) =
     (if c = CHR 0x22 then Some ([], r)
      else if c = CHR ''&'' then Option.bind (char_ref r) (\<lambda>(d, r). map_option (apfst (Cons d)) (attribute_value r))
      else map_option (apfst (Cons c)) (attribute_value r))"
  by (simp_all add: attribute_value.simps [of "[]"] attribute_value.simps [of "c # r"] split: option.split)

lemma attribute_value_shorter: "attribute_value s = Some (v, r) \<Longrightarrow> length r < length s"
proof (induction "length s" arbitrary: s v r rule: less_induct)
  case less
  show ?case
  proof (cases s)
    case Nil
    then show ?thesis using less.prems by (simp add: attribute_value_unfold)
  next
    case (Cons c t)
    have IH: "attribute_value u = Some (v', r) \<Longrightarrow> length u \<le> length t \<Longrightarrow> length r < length s" for u v'
      using less.hyps [of u v' r] Cons by simp
    from less.prems Cons have
      "r = t \<or> (\<exists>d u v'. char_ref t = Some (d, u) \<and> attribute_value u = Some (v', r)) \<or> (\<exists>v'. attribute_value t = Some (v', r))"
      by (auto simp: attribute_value_unfold split: if_splits bind_splits)
    then show ?thesis using IH Cons by (auto dest!: char_ref_shorter)
  qed
qed

lemma tag_attributes_close [simp]: "tag_attributes (CHR ''>'' # r) = Some ([], r)"
  by (simp add: tag_attributes.simps)

lemma tag_attribute_quoted:
  assumes "attribute_name name"
  shows "tag_attributes (CHR '' '' # name @ CHR ''='' # attr_quoted v @ r) = map_option (apfst (Cons (to_ascii_lowercase name, v))) (tag_attributes r)"
proof -
  have "attr_quoted v @ r = CHR 0x22 # concat (map escape_attribute_char v) @ CHR 0x22 # r"
    by (simp add: attr_quoted_def in_quotes_def QUOT_def html_attribute_chars)
  then show ?thesis
    using assms take_attribute_name [of name "CHR ''=''" "CHR 0x22 # concat (map escape_attribute_char v) @ CHR 0x22 # r"]
    by (simp add: tag_attributes.simps [of "_ # _"] attribute_name_def attribute_value_escaped QUOT_def Let_def)
qed

lemma tag_attribute_bare:
  assumes "attribute_name name" and "c \<in> {CHR '' '', CHR ''>''}"
  shows "tag_attributes (CHR '' '' # name @ c # r) = map_option (apfst (Cons (to_ascii_lowercase name, []))) (tag_attributes (c # r))"
  using assms take_attribute_name [of name c]
  by (subst tag_attributes.simps) (auto simp: attribute_name_def QUOT_def Let_def)

lemma tag_attributes_rendered:
  "list_all attribute_name (map fst as) \<Longrightarrow> tag_attributes (render_attributes as @ r) = map_option (apfst ((@) (read_attributes as))) (tag_attributes r)"
proof (induction as)
  case Nil
  have "map_option (apfst (\<lambda>a. a)) x = x" for x :: "(html_attributes \<times> string) option" by (cases x) auto
  then show ?case by (simp add: render_attributes_def read_attributes_def)
next
  case (Cons a as)
  obtain name v where a: "a = (name, v)" by force
  have "render_attributes (a # as) @ r = CHR '' '' # name @ CHR ''='' # attr_quoted v @ render_attributes as @ r"
    by (simp add: render_attributes_def a)
  then show ?case using Cons by (simp add: tag_attribute_quoted a read_attributes_def option.map_comp o_def apfst_def map_prod_def case_prod_beta)
qed

lemma tag_attributes_shorter: "tag_attributes s = Some (as, r) \<Longrightarrow> length r < length s"
proof (induction s arbitrary: as r rule: tag_attributes.induct)
  case (1 s)
  show ?case
  proof (cases s)
    case (Cons c t)
    let ?after = "dropWhile attribute_rest t"
    note IH = "1.IH" [OF Cons _ _ refl refl]
    have "length ?after \<le> length t" by (rule length_dropWhile_le)
    then show ?thesis
      using "1.prems" IH Cons
      by (subst (asm) tag_attributes.simps) (fastforce simp: Let_def split: if_splits option.splits)
  qed (use "1.prems" in \<open>simp add: tag_attributes.simps\<close>)
qed

lemma drop_duplicates_distinct: "distinct (map fst as) \<Longrightarrow> drop_duplicates as = as"
proof -
  have "distinct (map fst (kept @ as)) \<Longrightarrow> foldl (\<lambda>kept (name, v). if name \<in> set (map fst kept) then kept else kept @ [(name, v)]) kept as = kept @ as" for kept
    by (induction as arbitrary: kept) (auto simp: case_prod_beta image_iff)
  from this [of "[]"] show "distinct (map fst as) \<Longrightarrow> drop_duplicates as = as" by (simp add: drop_duplicates_def)
qed

lemma drop_duplicates_id [simp]: "distinct (map fst as) \<Longrightarrow> drop_duplicates as = as"
  by (rule drop_duplicates_distinct)

text \<open>A tag that opens with the given name and attributes.\<close>

definition tag_name :: "string \<Rightarrow> bool" where
  "tag_name name \<longleftrightarrow> name \<in> {''html'', ''head'', ''meta'', ''body'', ''div'', ''link'', ''title'', ''script''}"

definition mode_of :: "string \<Rightarrow> html_mode" where
  "mode_of name = (if name = ''title'' then TitleMode else if name = ''script'' then ScriptMode else DataMode)"

lemma open_tag:
  assumes "tag_name name" and "tag_attributes a = Some (as, r)"
  shows "html_tokens DataMode (CHR ''<'' # name @ a) = map_option (Cons (StartTag name (drop_duplicates as))) (html_tokens (mode_of name) r)"
proof -
  obtain c t where a: "a = c # t" "c \<in> {CHR '' '', CHR ''>''}"
    using assms(2) by (cases a) (auto simp: tag_attributes.simps split: if_splits)
  then have "takeWhile tag_char (name @ a) = name" "dropWhile tag_char (name @ a) = a"
    using assms(1) by (auto simp: tag_name_def tag_char_def is_ascii_alphabetic_def is_ascii_digit_def byte_in_def)
  moreover have "take 14 (name @ a) \<noteq> ''!doctype html>''" "take 1 (name @ a) \<noteq> ''/''" "is_ascii_alphabetic (hd (name @ a))"
    "to_ascii_lowercase name = name"
    using assms(1) by (auto simp: tag_name_def is_ascii_alphabetic_def byte_in_def to_ascii_lowercase_def ascii_lower_def)
  ultimately have "markup DataMode (name @ a) = Some (StartTag name (drop_duplicates as), mode_of name, r)"
    using assms by (auto simp: markup_def start_tag_def Let_def mode_of_def tag_name_def)
  then show ?thesis
    using tag_attributes_shorter [OF assms(2)] by (simp add: html_tokens.simps [of DataMode "_ # _"])
qed

lemma close_tag:
  assumes "tag_name name"
  shows "html_tokens DataMode (''</'' @ name @ ''>'' @ r) = map_option (Cons (EndTag name)) (html_tokens DataMode r)"
proof -
  have "takeWhile tag_char (name @ CHR ''>'' # r) = name" "dropWhile tag_char (name @ CHR ''>'' # r) = CHR ''>'' # r"
    using assms by (auto simp: tag_name_def tag_char_def is_ascii_alphabetic_def is_ascii_digit_def byte_in_def)
  moreover have "is_ascii_alphabetic (hd (name @ CHR ''>'' # r))" "to_ascii_lowercase name = name" "name \<noteq> []"
    using assms by (auto simp: tag_name_def is_ascii_alphabetic_def byte_in_def to_ascii_lowercase_def ascii_lower_def)
  ultimately have "markup DataMode (CHR ''/'' # name @ CHR ''>'' # r) = Some (EndTag name, DataMode, r)"
    by (simp add: markup_def end_tag_def Let_def)
  then show ?thesis by (simp add: html_tokens.simps [of DataMode "_ # _"])
qed

lemma open_doctype: "html_tokens DataMode (''<!doctype html>'' @ r) = map_option (Cons Doctype) (html_tokens DataMode r)"
  by (simp add: html_tokens.simps [of DataMode "_ # _"] markup_def)

lemma close_title: "html_tokens TitleMode (''</title>'' @ r) = map_option (Cons (EndTag ''title'')) (html_tokens DataMode r)"
  by (simp add: html_tokens.simps [of TitleMode "_ # _"] markup_def)

lemma close_script:
  assumes "CHR ''<'' \<notin> set payload"
  shows "html_tokens ScriptMode (payload @ ''</script>'' @ r) =
    map_option (\<lambda>ts. map TextChar payload @ EndTag ''script'' # ts) (html_tokens DataMode r)"
  using assms
proof (induction payload)
  case (Cons c payload)
  then have "c \<noteq> CHR ''<''" "CHR ''<'' \<notin> set payload" by auto
  then show ?case using Cons.IH by (simp add: html_tokens.simps [of ScriptMode "c # _"] option.map_comp o_def)
qed (simp add: html_tokens.simps [of ScriptMode "_ # _"] markup_def)

section \<open>Reading a piece of a document\<close>

text \<open>A piece of text turns into these tokens whatever follows it.\<close>

definition reads :: "html_mode \<Rightarrow> string \<Rightarrow> html_token list \<Rightarrow> html_mode \<Rightarrow> bool" where
  "reads mode s ts mode' \<longleftrightarrow> (\<forall>r. html_tokens mode (s @ r) = map_option ((@) ts) (html_tokens mode' r))"

lemma map_option_append [simp]: "map_option ((@) []) x = x"
  by (cases x) auto

lemma append_fun: "(@) [] = (\<lambda>x. x)" "(@) (x # xs) = (\<lambda>ys. x # xs @ ys)" "(@) (xs @ ys) = (\<lambda>zs. xs @ ys @ zs)"
  by (simp_all add: fun_eq_iff)

lemma reads_Nil [intro, simp]: "reads mode [] [] mode"
  by (simp add: reads_def)

lemma reads_append: "reads m s ts m' \<Longrightarrow> reads m' s' ts' m'' \<Longrightarrow> reads m (s @ s') (ts @ ts') m''"
  by (simp add: reads_def option.map_comp o_def append_fun)

lemma reads_concat: "(\<And>x. x \<in> set xs \<Longrightarrow> reads DataMode (f x) (g x) DataMode) \<Longrightarrow> reads DataMode (concat (map f xs)) (concat (map g xs)) DataMode"
  by (induction xs) (auto intro: reads_append)

definition reads_attributes :: "string \<Rightarrow> html_attributes \<Rightarrow> bool" where
  "reads_attributes a as \<longleftrightarrow> (\<forall>r. tag_attributes (a @ r) = map_option (apfst ((@) as)) (tag_attributes r))"

lemma reads_attributes_Nil [simp]: "reads_attributes [] []"
proof -
  have "map_option (apfst (\<lambda>a. a)) x = x" for x :: "(html_attributes \<times> string) option" by (cases x) auto
  then show ?thesis by (simp add: reads_attributes_def append_fun)
qed

lemma reads_attributes_append: "reads_attributes a as \<Longrightarrow> reads_attributes b bs \<Longrightarrow> reads_attributes (a @ b) (as @ bs)"
  by (simp add: reads_attributes_def option.map_comp o_def apfst_def map_prod_def case_prod_unfold append_fun)

lemma reads_rendered: "list_all attribute_name (map fst as) \<Longrightarrow> reads_attributes (render_attributes as) (read_attributes as)"
  by (simp add: reads_attributes_def tag_attributes_rendered)

lemma reads_attribute:
  "attribute_name name \<Longrightarrow> to_ascii_lowercase name = name \<Longrightarrow> reads_attributes ('' '' @ name @ ''='' @ attr_quoted v) [(name, v)]"
  by (simp add: reads_attributes_def tag_attribute_quoted) (simp add: append_fun)

lemma reads_tag:
  assumes "tag_name name" and "reads_attributes a as"
  shows "reads DataMode (''<'' @ name @ a @ ''>'') [StartTag name (drop_duplicates as)] (mode_of name)"
proof -
  have "tag_attributes (a @ CHR ''>'' # r) = Some (as, r)" for r
    using assms(2) by (simp add: reads_attributes_def)
  then have "html_tokens DataMode (CHR ''<'' # name @ a @ CHR ''>'' # r) = map_option (Cons (StartTag name (drop_duplicates as))) (html_tokens (mode_of name) r)" for r
    by (rule open_tag [OF assms(1)])
  then show ?thesis by (simp add: reads_def append_fun)
qed

lemma reads_head_tag:
  assumes "tag_name name" and "reads_attributes a as"
  shows "reads DataMode (''<'' @ name @ a @ '' data-phoenix-head>'') [StartTag name (drop_duplicates (as @ [(''data-phoenix-head'', [])]))] (mode_of name)"
proof -
  have "attribute_name ''data-phoenix-head''" "to_ascii_lowercase ''data-phoenix-head'' = ''data-phoenix-head''"
    by (simp_all add: attribute_name_def attribute_rest_def is_ascii_alphabetic_def byte_in_def to_ascii_lowercase_def ascii_lower_def)
  then have "tag_attributes ('' data-phoenix-head'' @ CHR ''>'' # r) = Some ([(''data-phoenix-head'', [])], r)" for r
    using tag_attribute_bare [of "''data-phoenix-head''" "CHR ''>''" r] by simp
  then have "tag_attributes (a @ '' data-phoenix-head'' @ CHR ''>'' # r) = Some (as @ [(''data-phoenix-head'', [])], r)" for r
    using assms(2) by (simp add: reads_attributes_def)
  then have "html_tokens DataMode (CHR ''<'' # name @ a @ '' data-phoenix-head'' @ CHR ''>'' # r) =
      map_option (Cons (StartTag name (drop_duplicates (as @ [(''data-phoenix-head'', [])])))) (html_tokens (mode_of name) r)" for r
    by (rule open_tag [OF assms(1)])
  then show ?thesis by (simp add: reads_def append_fun)
qed

lemma reads_close: "tag_name name \<Longrightarrow> reads DataMode (''</'' @ name @ ''>'') [EndTag name] DataMode"
  using close_tag [of name] by (simp add: reads_def append_fun)

lemma reads_text: "mode \<noteq> ScriptMode \<Longrightarrow> reads mode (html_text t) (map TextChar t) mode"
  by (simp add: reads_def text_escaped)

lemma reads_doctype: "reads DataMode ''<!doctype html>'' [Doctype] DataMode"
  using open_doctype by (simp add: reads_def append_fun)

lemma reads_close_title: "reads TitleMode ''</title>'' [EndTag ''title''] DataMode"
  using close_title by (simp add: reads_def append_fun)

lemma reads_script: "CHR ''<'' \<notin> set payload \<Longrightarrow> reads ScriptMode (payload @ ''</script>'') (map TextChar payload @ [EndTag ''script'']) DataMode"
  using close_script [of payload] by (simp add: reads_def append_fun)

end
