(* ===== verification/View_Json.thy ===== *)
theory View_Json
  imports View_Document
begin

text \<open>
  JSON text as a client reads it: symbols outside strings, and strings with their escapes
  resolved to UTF-8. \<open>json_for_html\<close> writes escapes for the characters that HTML would read as
  markup, and leaves what the text means as it is.
\<close>

section \<open>A reader of JSON text\<close>

definition hex_digit :: "char \<Rightarrow> nat option" where
  "hex_digit c =
     (if is_ascii_digit c then Some (of_char c - 48)
      else if byte_in 97 102 c then Some (of_char c - 87)
      else if byte_in 65 70 c then Some (of_char c - 55)
      else None)"

definition utf8_of_unit :: "nat \<Rightarrow> string" where
  "utf8_of_unit n =
     (if n < 0x80 then [char_of n]
      else if n < 0x800 then [char_of (0xC0 + n div 64), char_of (0x80 + n mod 64)]
      else [char_of (0xE0 + n div 4096), char_of (0x80 + n div 64 mod 64), char_of (0x80 + n mod 64)])"

definition short_escape :: "char \<Rightarrow> char option" where
  "short_escape c = map_of [(CHR 0x22, CHR 0x22), (CHR 0x5C, CHR 0x5C), (CHR ''/'', CHR ''/''), (CHR ''b'', CHR 0x08), (CHR ''f'', CHR 0x0C),
     (CHR ''n'', CHR 0x0A), (CHR ''r'', CHR 0x0D), (CHR ''t'', CHR 0x09)] c"

definition unicode_escape :: "string \<Rightarrow> string option" where
  "unicode_escape ds =
     (case map hex_digit ds of
        [Some a, Some b, Some c, Some d] \<Rightarrow> Some (utf8_of_unit (((a * 16 + b) * 16 + c) * 16 + d))
      | _ \<Rightarrow> None)"

text \<open>The rest of a string after its opening quotation mark: its bytes, and what follows it.\<close>

fun json_string :: "string \<Rightarrow> (string \<times> string) option" where
  "json_string [] = None"
| "json_string (c # r) =
     (if c = CHR 0x22 then Some ([], r)
      else if c = CHR 0x5C then
        (case r of
           [] \<Rightarrow> None
         | e # r1 \<Rightarrow>
             (if e = CHR ''u'' then
                (case r1 of
                   d1 # d2 # d3 # d4 # r2 \<Rightarrow>
                     (case unicode_escape [d1, d2, d3, d4] of
                        None \<Rightarrow> None | Some bs \<Rightarrow> map_option (apfst ((@) bs)) (json_string r2))
                 | _ \<Rightarrow> None)
              else (case short_escape e of None \<Rightarrow> None | Some b \<Rightarrow> map_option (apfst (Cons b)) (json_string r1))))
      else if (of_char c :: nat) < 32 then None
      else map_option (apfst (Cons c)) (json_string r))"

datatype json_lexeme = JsonSymbol char | JsonText string

definition json_symbol :: "char \<Rightarrow> bool" where
  "json_symbol c \<longleftrightarrow> c \<in> set ''{}[]:,+-.0123456789eEtrufalsn '' \<union> {CHR 0x09, CHR 0x0A, CHR 0x0D}"

function json_read :: "string \<Rightarrow> json_lexeme list option" where
  "json_read s =
     (case s of
        [] \<Rightarrow> Some []
      | c # r \<Rightarrow>
          (if c = CHR 0x22 then
             (case json_string r of
                None \<Rightarrow> None
              | Some (v, rest) \<Rightarrow> if length rest < length s then map_option (Cons (JsonText v)) (json_read rest) else None)
           else if json_symbol c then map_option (Cons (JsonSymbol c)) (json_read r)
           else None))"
  by pat_completeness auto
termination
  by (relation "measure length") auto

declare json_read.simps [simp del]

section \<open>Escaping keeps the meaning\<close>

text \<open>A sequence of bytes that may be written as an escape: none of them has a meaning of its own.\<close>

definition escapable :: "string \<Rightarrow> string \<Rightarrow> bool" where
  "escapable p digits \<longleftrightarrow> p \<noteq> [] \<and> length digits = 4 \<and> unicode_escape digits = Some p \<and>
     (\<forall>c \<in> set p. c \<noteq> CHR 0x22 \<and> c \<noteq> CHR 0x5C \<and> 32 \<le> (of_char c :: nat) \<and> \<not> json_symbol c \<and> c \<noteq> CHR ''u'' \<and>
        short_escape c = None \<and> hex_digit c = None)"

declare json_string.simps(2) [simp del]

lemma json_string_plain:
  "c \<noteq> CHR 0x22 \<Longrightarrow> c \<noteq> CHR 0x5C \<Longrightarrow> 32 \<le> (of_char c :: nat) \<Longrightarrow> json_string (c # r) = map_option (apfst (Cons c)) (json_string r)"
  by (simp add: json_string.simps(2))

lemma json_string_raw: "(\<forall>c \<in> set p. c \<noteq> CHR 0x22 \<and> c \<noteq> CHR 0x5C \<and> 32 \<le> (of_char c :: nat)) \<Longrightarrow>
    json_string (p @ s) = map_option (apfst ((@) p)) (json_string s)"
proof (induction p)
  case Nil
  then show ?case by (cases "json_string s") auto
next
  case (Cons c p)
  then have "json_string ((c # p) @ s) = map_option (apfst (Cons c)) (json_string (p @ s))" by (simp add: json_string_plain)
  moreover have "json_string (p @ s) = map_option (apfst ((@) p)) (json_string s)" by (rule Cons.IH) (use Cons.prems in simp)
  ultimately show ?case by (cases "json_string s") (auto simp: apfst_def map_prod_def split: prod.split)
qed

lemma json_string_escape:
  assumes "escapable p digits"
  shows "json_string (json_escape digits @ s) = map_option (apfst ((@) p)) (json_string s)"
proof -
  obtain a b c d where "digits = [a, b, c, d]"
    using assms by (auto simp: escapable_def numeral_eq_Suc length_Suc_conv)
  then show ?thesis using assms by (simp add: json_escape_def escapable_def json_string.simps(2))
qed

lemma replace_skip: "p \<noteq> [] \<Longrightarrow> c \<noteq> hd p \<Longrightarrow> str_replace p to (c # s) = c # str_replace p to s"
  by (rule str_replace_skip) (cases p; auto)+

lemma unicode_escape_digits: "unicode_escape ds = Some bs \<Longrightarrow> d \<in> set ds \<Longrightarrow> hex_digit d \<noteq> None"
  by (auto simp: unicode_escape_def split: list.splits option.splits)

lemma escapable_head:
  assumes "escapable p digits"
  shows "p \<noteq> []" "hd p \<noteq> CHR 0x22" "hd p \<noteq> CHR 0x5C" "\<not> json_symbol (hd p)" "hd p \<noteq> CHR ''u''" "short_escape (hd p) = None" "hex_digit (hd p) = None"
proof -
  show ne: "p \<noteq> []" using assms unfolding escapable_def by blast
  then have "hd p \<in> set p" by simp
  then show "hd p \<noteq> CHR 0x22" "hd p \<noteq> CHR 0x5C" "\<not> json_symbol (hd p)" "hd p \<noteq> CHR ''u''" "short_escape (hd p) = None" "hex_digit (hd p) = None"
    using assms unfolding escapable_def by blast+
qed

lemma json_string_cases:
  assumes "json_string s = Some (v, r)"
  obtains (close) "s = CHR 0x22 # r" "v = []"
  | (unicode) d1 d2 d3 d4 t bs v' where "s = CHR 0x5C # CHR ''u'' # d1 # d2 # d3 # d4 # t" "unicode_escape [d1, d2, d3, d4] = Some bs"
      "json_string t = Some (v', r)" "v = bs @ v'"
  | (short) e b t v' where "s = CHR 0x5C # e # t" "e \<noteq> CHR ''u''" "short_escape e = Some b" "json_string t = Some (v', r)" "v = b # v'"
  | (plain) c t v' where "s = c # t" "c \<noteq> CHR 0x22" "c \<noteq> CHR 0x5C" "32 \<le> (of_char c :: nat)" "json_string t = Some (v', r)" "v = c # v'"
proof (cases s)
  case (Cons c t)
  consider "c = CHR 0x22" | "c = CHR 0x5C" "t = []" | e t1 where "c = CHR 0x5C" "t = e # t1" "e = CHR ''u''" | e t1 where "c = CHR 0x5C" "t = e # t1" "e \<noteq> CHR ''u''"
    | "c \<noteq> CHR 0x22" "c \<noteq> CHR 0x5C"
    by (cases t) auto
  then show thesis
  proof cases
    case 3
    then obtain d1 d2 d3 d4 t2 where "t1 = d1 # d2 # d3 # d4 # t2" using assms Cons by (simp add: json_string.simps(2) split: list.splits)
    then show thesis using assms Cons 3 unicode by (simp add: json_string.simps(2) split: option.splits) blast
  next
    case 4
    then show thesis using assms Cons short by (simp add: json_string.simps(2) split: option.splits) blast
  next
    case 5
    then show thesis using assms Cons plain by (simp add: json_string.simps(2) split: if_splits) fastforce
  qed (use assms Cons close in \<open>simp_all add: json_string.simps(2)\<close>)
qed (use assms in simp)

lemma json_string_replace:
  assumes "escapable p digits"
  shows "json_string s = Some (v, r) \<Longrightarrow>
    json_string (str_replace p (json_escape digits) s) = Some (v, str_replace p (json_escape digits) r)"
proof (induction "length s" arbitrary: s v rule: less_induct)
  case less
  let ?rep = "str_replace p (json_escape digits)"
  note p = escapable_head [OF assms]
  have other: "?rep (e # u) = e # ?rep u"
    if "e \<in> {CHR 0x22, CHR 0x5C, CHR ''u''} \<or> short_escape e \<noteq> None \<or> hex_digit e \<noteq> None" for e u
    by (rule replace_skip [OF p(1)]) (use that p in auto)
  show ?case
  proof (cases "take (length p) s = p")
    case True
    then obtain t where s: "s = p @ t" by (metis append_take_drop_id)
    have "json_string (p @ t) = map_option (apfst ((@) p)) (json_string t)"
      using assms by (intro json_string_raw) (simp add: escapable_def)
    then obtain v' where t: "json_string t = Some (v', r)" "v = p @ v'"
      using less.prems by (cases "json_string t") (auto simp: s)
    have "length t < length s" using s p(1) by simp
    from less.hyps [OF this t(1)] show ?thesis
      using p(1) t(2) by (simp add: s str_replace_match json_string_escape [OF assms])
  next
    case False
    from less.prems show ?thesis
    proof (cases rule: json_string_cases)
      case close
      then show ?thesis by (simp add: other json_string.simps(2))
    next
      case (unicode d1 d2 d3 d4 t bs v')
      moreover have "?rep s = CHR 0x5C # CHR ''u'' # d1 # d2 # d3 # d4 # ?rep t"
        using unicode_escape_digits [OF unicode(2)] by (simp add: unicode(1) other)
      ultimately show ?thesis using less.hyps [of t v'] by (simp add: json_string.simps(2))
    next
      case (short e b t v')
      moreover have "?rep s = CHR 0x5C # e # ?rep t" using short(3) by (simp add: short(1) other)
      ultimately show ?thesis using less.hyps [of t v'] by (simp add: json_string.simps(2))
    next
      case (plain c t v')
      moreover have "?rep s = c # ?rep t" using str_replace_skip [OF p(1)] False by (simp add: plain(1))
      ultimately show ?thesis using less.hyps [of t v'] by (simp add: json_string_plain)
    qed
  qed
qed

lemma json_string_shorter: "json_string s = Some (v, r) \<Longrightarrow> length r < Suc (length s)"
proof (induction "length s" arbitrary: s v rule: less_induct)
  case less
  from less.prems show ?case by (cases rule: json_string_cases) (auto dest!: less.hyps [rotated])
qed

lemma json_read_replace:
  assumes "escapable p digits"
  shows "json_read s = Some ls \<Longrightarrow> json_read (str_replace p (json_escape digits) s) = Some ls"
proof (induction "length s" arbitrary: s ls rule: less_induct)
  case less
  let ?rep = "str_replace p (json_escape digits)"
  note p = escapable_head [OF assms]
  show ?case
  proof (cases s)
    case (Cons c t)
    have keep: "?rep (c # t) = c # ?rep t" if "c = CHR 0x22 \<or> json_symbol c"
      by (rule replace_skip [OF p(1)]) (use that p in auto)
    consider v rest ls' where "c = CHR 0x22" "json_string t = Some (v, rest)" "length rest < length s" "json_read rest = Some ls'" "ls = JsonText v # ls'"
      | ls' where "c \<noteq> CHR 0x22" "json_symbol c" "json_read t = Some ls'" "ls = JsonSymbol c # ls'"
      using less.prems Cons by (auto simp: json_read.simps [of "_ # _"] split: if_splits option.splits)
    then show ?thesis
    proof cases
      case 1
      have "json_string (?rep t) = Some (v, ?rep rest)" by (rule json_string_replace [OF assms 1(2)])
      moreover from this have "length (?rep rest) < Suc (length (?rep t))" by (rule json_string_shorter)
      ultimately show ?thesis using 1 less.hyps [OF 1(3,4)] keep Cons by (simp add: json_read.simps [of "_ # _"])
    next
      case 2
      then show ?thesis using less.hyps [of t ls'] keep Cons by (simp add: json_read.simps [of "_ # _"])
    qed
  qed (use less.prems in \<open>simp add: json_read.simps\<close>)
qed

text \<open>The five sequences the document escapes.\<close>

lemma escapables:
  "escapable ''&'' ''0026''" "escapable ''<'' ''003c''" "escapable ''>'' ''003e''"
  "escapable [CHR 0xE2, CHR 0x80, CHR 0xA8] ''2028''" "escapable [CHR 0xE2, CHR 0x80, CHR 0xA9] ''2029''"
  by (simp_all add: escapable_def unicode_escape_def hex_digit_def utf8_of_unit_def short_escape_def json_symbol_def is_ascii_digit_def byte_in_def
      char_of_eq_iff)

lemma json_for_html_read:
  assumes "to_json v = Some json" and "json_read json = Some ls"
  shows "\<exists>payload. json_for_html to_json v = Some payload \<and> json_read payload = Some ls"
  using assms by (simp add: json_for_html_def json_read_replace escapables)

lemma set_str_replace: "set (str_replace p to s) \<subseteq> set s \<union> set to"
proof (induction p to s rule: str_replace.induct)
  case (1 p to s)
  then show ?case by (subst str_replace.simps) (auto dest: in_set_dropD list.set_sel)
qed

lemma replaced_gone:
  assumes "c \<notin> set to"
  shows "c \<notin> set (str_replace [c] to s)"
  using assms
proof (induction s)
  case (Cons d s)
  then show ?case
    using str_replace_match [of "[c]" to s] str_replace_skip [of "[c]" d s to] by (cases "d = c") auto
qed simp

lemma json_for_html_markup:
  assumes "json_for_html to_json v = Some payload"
  shows "set payload \<inter> {CHR ''<'', CHR ''>'', CHR ''&''} = {}"
proof -
  have keep: "c \<notin> set (str_replace p to s)" if "c \<notin> set s" "c \<notin> set to" for c p to s
    using that set_str_replace [of p to s] by auto
  show ?thesis
    using assms by (auto simp: json_for_html_def keep replaced_gone json_escape_def)
qed

end
