(* ===== verification/View_I18n.thy ===== *)
theory View_I18n
  imports Web_Guard
begin

text \<open>
  Translations and the choice of a locale (\<open>phoenix-view\<close>: \<open>i18n.rs\<close>). The registry of the process is
  passed along. Reading a 32-bit float is an argument; its values are a linear order and NaN.
\<close>

section \<open>Catalogs\<close>

definition DEFAULT_LOCALE :: string where
  "DEFAULT_LOCALE = ''en''"

type_synonym translation_map = "(string, string) btree"

definition translations_entry :: "string \<Rightarrow> string \<Rightarrow> translation_map \<Rightarrow> translation_map" where
  "translations_entry key template t = bt_insert key template t"

definition translations_template :: "translation_map \<Rightarrow> string \<Rightarrow> string option" where
  "translations_template t key = map_of t key"

record view_registry =
  vg_default_locale :: string
  vg_locales :: "(string, translation_map) btree"

definition view_registry_default :: view_registry where
  "view_registry_default = \<lparr>vg_default_locale = DEFAULT_LOCALE, vg_locales = []\<rparr>"

definition set_default_locale :: "string \<Rightarrow> view_registry \<Rightarrow> view_registry" where
  "set_default_locale locale reg = reg\<lparr>vg_default_locale := locale\<rparr>"

definition register_view_locale :: "string \<Rightarrow> translation_map \<Rightarrow> view_registry \<Rightarrow> view_registry" where
  "register_view_locale locale t reg = reg\<lparr>vg_locales := bt_insert locale t (vg_locales reg)\<rparr>"

definition catalog_or_default :: "string \<Rightarrow> view_registry \<Rightarrow> translation_map" where
  "catalog_or_default locale reg = (case map_of (vg_locales reg) locale of None \<Rightarrow> [] | Some t \<Rightarrow> t)"

definition register_translations :: "string \<Rightarrow> (string \<times> string) list \<Rightarrow> view_registry \<Rightarrow> view_registry" where
  "register_translations locale entries reg =
     reg\<lparr>vg_locales := bt_insert locale (fold (\<lambda>(key, template) t. bt_insert key template t) entries (catalog_or_default locale reg)) (vg_locales reg)\<rparr>"

definition register_translation :: "string \<Rightarrow> string \<Rightarrow> string \<Rightarrow> view_registry \<Rightarrow> view_registry" where
  "register_translation locale key template reg =
     reg\<lparr>vg_locales := bt_insert locale (bt_insert key template (catalog_or_default locale reg)) (vg_locales reg)\<rparr>"

definition translate :: "view_registry \<Rightarrow> string \<Rightarrow> string \<Rightarrow> (string \<times> string) list \<Rightarrow> string" where
  "translate reg locale key params =
     (let own = Option.bind (map_of (vg_locales reg) locale) (\<lambda>c. translations_template c key);
          template =
            (case own of
               Some t \<Rightarrow> Some t
             | None \<Rightarrow>
                 if vg_default_locale reg = locale then None
                 else Option.bind (map_of (vg_locales reg) (vg_default_locale reg)) (\<lambda>c. translations_template c key))
      in fold (\<lambda>(name, v) rendered. str_replace (''{'' @ name @ ''}'') v rendered) params
           (case template of None \<Rightarrow> key | Some t \<Rightarrow> t))"

definition translation_catalog :: "view_registry \<Rightarrow> string \<Rightarrow> translation_map" where
  "translation_catalog reg locale =
     (let insert_all = fold (\<lambda>(key, template) merged. bt_insert key template merged);
          base = (if vg_default_locale reg \<noteq> locale then
                    (case map_of (vg_locales reg) (vg_default_locale reg) of None \<Rightarrow> [] | Some base \<Rightarrow> insert_all base [])
                  else [])
      in case map_of (vg_locales reg) locale of None \<Rightarrow> base | Some catalog \<Rightarrow> insert_all catalog base)"

definition available_locales :: "view_registry \<Rightarrow> string list" where
  "available_locales reg = map fst (vg_locales reg)"

section \<open>Negotiation\<close>

datatype 'q f32 = F32 'q | NaN

record 'q f32_env =
  fe_parse :: "string \<Rightarrow> 'q f32 option"
  fe_zero :: 'q
  fe_one :: 'q

definition parse_language_range :: "('q::linorder) f32_env \<Rightarrow> string \<Rightarrow> nat \<Rightarrow> (string \<times> 'q f32 \<times> nat) option" where
  "parse_language_range env part index =
     (let segments = split_on (CHR '';'') part; tag = str_trim (hd segments)
      in if tag = [] then None
         else
           (let quality =
                  fold (\<lambda>segment quality.
                    let trimmed = str_trim segment
                    in if take 2 trimmed = ''q=''
                       then (case fe_parse env (str_trim (drop 2 trimmed)) of None \<Rightarrow> F32 (fe_zero env) | Some q \<Rightarrow> q)
                       else quality) (tl segments) (F32 (fe_one env))
            in case quality of
                 F32 q \<Rightarrow> if q \<le> fe_zero env then None else Some (to_ascii_lowercase tag, quality, index)
               | NaN \<Rightarrow> Some (to_ascii_lowercase tag, quality, index)))"

definition primary_subtag_matches :: "string \<Rightarrow> string \<Rightarrow> bool" where
  "primary_subtag_matches wanted available \<longleftrightarrow>
     hd (split_on (CHR ''-'') wanted) \<noteq> [] \<and> eq_ignore_ascii_case (hd (split_on (CHR ''-'') wanted)) (hd (split_on (CHR ''-'') available))"

text \<open>
  The ranges by falling quality, equal ones in the order of the header. The comparison is an
  order only when no quality is NaN; what \<open>sort_by\<close> does otherwise, a panic included, is
  unspecified, and then the value is \<open>None\<close>.
\<close>

fun insert_range :: "(string \<times> 'q \<times> nat) \<Rightarrow> (string \<times> 'q \<times> nat) list \<Rightarrow> (string \<times> ('q::linorder) \<times> nat) list" where
  "insert_range r [] = [r]"
| "insert_range r (x # xs) = (if fst (snd r) \<le> fst (snd x) then x # insert_range r xs else r # x # xs)"

definition sort_ranges :: "(string \<times> ('q::linorder) \<times> nat) list \<Rightarrow> (string \<times> 'q \<times> nat) list" where
  "sort_ranges = foldl (\<lambda>sorted r. insert_range r sorted) []"

fun finite_range :: "string \<times> 'q f32 \<times> nat \<Rightarrow> (string \<times> 'q \<times> nat) option" where
  "finite_range (wanted, F32 q, index) = Some (wanted, q, index)"
| "finite_range (wanted, NaN, index) = None"

definition quality_ranges :: "('q::linorder) f32_env \<Rightarrow> string \<Rightarrow> (string \<times> 'q f32 \<times> nat) list" where
  "quality_ranges env accept_language =
     List.map_filter (\<lambda>(index, part). parse_language_range env part index)
       (enumerate 0 (split_on (CHR '','') accept_language))"

fun choose_locale :: "string list \<Rightarrow> string \<Rightarrow> string list \<Rightarrow> string" where
  "choose_locale available default' [] = default'"
| "choose_locale available default' (wanted # ranges) =
     (if wanted = ''*'' then default'
      else
        (case find (\<lambda>c. eq_ignore_ascii_case c wanted) available of
           Some found \<Rightarrow> found
         | None \<Rightarrow>
             (case find (primary_subtag_matches wanted) available of
                Some found \<Rightarrow> found
              | None \<Rightarrow> choose_locale available default' ranges)))"

definition negotiate_locale :: "('q::linorder) f32_env \<Rightarrow> string \<Rightarrow> string list \<Rightarrow> string \<Rightarrow> string option" where
  "negotiate_locale env accept_language available default' =
     (let ranges = quality_ranges env accept_language
      in if list_ex (\<lambda>r. finite_range r = None) ranges then None
         else Some (choose_locale available default' (map fst (sort_ranges (List.map_filter finite_range ranges)))))"

definition negotiate_locale_from_headers :: "('q::linorder) f32_env \<Rightarrow> 'a web_env \<Rightarrow> headers \<Rightarrow> string list \<Rightarrow> string \<Rightarrow> string option" where
  "negotiate_locale_from_headers env web headers available default' =
     negotiate_locale env (case header_text web ''accept-language'' headers of None \<Rightarrow> [] | Some v \<Rightarrow> v) available default'"

section \<open>What is negotiated and translated\<close>

lemma map_of_insert_all: "map_of (fold (\<lambda>(key, template) merged. bt_insert key template merged) entries m) = map_of m ++ map_of (rev entries)"
  by (induction entries arbitrary: m) (auto simp: case_prod_beta map_add_def fun_eq_iff split: option.splits)

lemma map_of_rev_bt: "bt_wf m \<Longrightarrow> map_of (rev m) = map_of m"
  by (metis bt_wf_distinct distinct_rev map_of_inject_set rev_map set_rev)

definition registry_wf :: "view_registry \<Rightarrow> bool" where
  "registry_wf reg \<longleftrightarrow> (\<forall>locale t. map_of (vg_locales reg) locale = Some t \<longrightarrow> bt_wf t)"

lemma catalog_lookup:
  assumes "registry_wf reg"
  shows "map_of (translation_catalog reg locale) key =
    (case Option.bind (map_of (vg_locales reg) locale) (\<lambda>c. translations_template c key) of
       Some t \<Rightarrow> Some t
     | None \<Rightarrow>
         if vg_default_locale reg = locale then None
         else Option.bind (map_of (vg_locales reg) (vg_default_locale reg)) (\<lambda>c. translations_template c key))"
  using assms
  by (auto simp: translation_catalog_def map_of_insert_all map_of_rev_bt registry_wf_def translations_template_def map_add_def Let_def
      split: option.splits)

lemma translate_reads_catalog:
  assumes "registry_wf reg"
  shows "translate reg locale key params =
    fold (\<lambda>(name, v) rendered. str_replace (''{'' @ name @ ''}'') v rendered) params
      (case map_of (translation_catalog reg locale) key of None \<Rightarrow> key | Some t \<Rightarrow> t)"
  by (simp add: translate_def catalog_lookup [OF assms] Let_def)

lemma registry_wf_register:
  "registry_wf view_registry_default" "registry_wf reg \<Longrightarrow> registry_wf (set_default_locale l reg)"
  "registry_wf reg \<Longrightarrow> bt_wf t \<Longrightarrow> registry_wf (register_view_locale l t reg)"
  "registry_wf reg \<Longrightarrow> registry_wf (register_translations l entries reg)"
  "registry_wf reg \<Longrightarrow> registry_wf (register_translation l key template reg)"
proof -
  have fold: "bt_wf m \<Longrightarrow> bt_wf (fold (\<lambda>(key, template) t. bt_insert key template t) entries m)" for m :: translation_map and entries
    by (induction entries arbitrary: m) auto
  show "registry_wf view_registry_default" by (simp add: registry_wf_def view_registry_default_def)
  assume wf: "registry_wf reg"
  then have c: "bt_wf (catalog_or_default l reg)" by (auto simp: registry_wf_def catalog_or_default_def split: option.splits)
  show "registry_wf (set_default_locale l reg)" using wf by (simp add: registry_wf_def set_default_locale_def)
  show "bt_wf t \<Longrightarrow> registry_wf (register_view_locale l t reg)" using wf by (auto simp: registry_wf_def register_view_locale_def)
  show "registry_wf (register_translations l entries reg)" using wf fold [OF c] by (auto simp: registry_wf_def register_translations_def)
  show "registry_wf (register_translation l key template reg)" using wf c by (auto simp: registry_wf_def register_translation_def)
qed

text \<open>A range comes before another when its quality is higher, or the same and it stands earlier in the header.\<close>

fun preferred :: "string \<times> ('q::linorder) \<times> nat \<Rightarrow> string \<times> 'q \<times> nat \<Rightarrow> bool" where
  "preferred (_, q, i) (_, q', i') \<longleftrightarrow> q > q' \<or> q = q' \<and> i < i'"

lemma preferred_trans: "preferred a b \<Longrightarrow> preferred b c \<Longrightarrow> preferred a c"
  by (cases a, cases b, cases c) auto

lemma preferred_asym: "preferred a b \<Longrightarrow> \<not> preferred b a"
  by (cases a, cases b) auto

lemma set_insert_range [simp]: "set (insert_range r xs) = insert r (set xs)"
  by (induction xs) auto

lemma sorted_insert_range:
  "sorted_wrt preferred xs \<Longrightarrow> (\<forall>x \<in> set xs. snd (snd x) < snd (snd r)) \<Longrightarrow> sorted_wrt preferred (insert_range r xs)"
proof (induction xs)
  case (Cons x xs)
  obtain a q i b q' i' where [simp]: "r = (a, q, i)" "x = (b, q', i')" by (cases r, cases x) auto
  show ?case
  proof (cases "q \<le> q'")
    case True
    then show ?thesis using Cons by (auto simp: order.order_iff_strict)
  next
    case False
    then have "preferred r x" by (simp add: not_le)
    then have "preferred r y" if "y \<in> set (x # xs)" for y using that Cons.prems(1) preferred_trans [of r x y] by auto
    then show ?thesis using Cons.prems(1) False by simp
  qed
qed simp

lemma sort_ranges_sorted:
  assumes "sorted_wrt (\<lambda>x y. snd (snd x) < snd (snd y)) xs"
  shows "sorted_wrt preferred (sort_ranges xs) \<and> set (sort_ranges xs) = set xs"
  using assms
proof (induction xs rule: rev_induct)
  case (snoc r xs)
  then show ?case by (simp add: sort_ranges_def sorted_insert_range sorted_wrt_append)
qed (simp add: sort_ranges_def)

text \<open>The ranges an \<open>Accept-Language\<close> header names, with their qualities; without NaN.\<close>

definition accepted_ranges :: "('q::linorder) f32_env \<Rightarrow> string \<Rightarrow> (string \<times> 'q \<times> nat) list" where
  "accepted_ranges env header = List.map_filter finite_range (quality_ranges env header)"

definition range_matches :: "string \<Rightarrow> string \<Rightarrow> bool" where
  "range_matches wanted locale \<longleftrightarrow> eq_ignore_ascii_case locale wanted \<or> primary_subtag_matches wanted locale"

lemma map_filter_twice: "List.map_filter f (List.map_filter g xs) = List.map_filter (\<lambda>x. Option.bind (g x) f) xs"
  by (induction xs) (auto simp: List.map_filter_def split: option.split)

lemma set_map_filter: "y \<in> set (List.map_filter f xs) \<longleftrightarrow> (\<exists>x \<in> set xs. f x = Some y)"
  by (induction xs) (auto simp: List.map_filter_def split: option.splits)

lemma sorted_map_filter:
  assumes "\<And>x y. f x = Some y \<Longrightarrow> k y = fst x" and "sorted_wrt (\<lambda>x y. fst x < fst y) xs"
  shows "sorted_wrt (\<lambda>x y. k x < k y) (List.map_filter f xs)"
  using assms(2)
proof (induction xs)
  case (Cons x xs)
  have "List.map_filter f (x # xs) = (case f x of None \<Rightarrow> List.map_filter f xs | Some y \<Rightarrow> y # List.map_filter f xs)"
    by (simp add: List.map_filter_def split: option.split)
  moreover have "k y < k z" if y: "f x = Some y" and z: "z \<in> set (List.map_filter f xs)" for y z
  proof -
    obtain x' where x': "x' \<in> set xs" "f x' = Some z" using z set_map_filter by metis
    then show ?thesis using Cons.prems assms(1) [OF y] assms(1) [OF x'(2)] by auto
  qed
  ultimately show ?case using Cons by (simp split: option.split)
qed (simp add: List.map_filter_def)

lemma accepted_ranges_indexed: "sorted_wrt (\<lambda>x y. snd (snd x) < snd (snd y)) (accepted_ranges env header)"
proof -
  have index: "parse_language_range env part i = Some r \<Longrightarrow> finite_range r = Some x \<Longrightarrow> snd (snd x) = i" for part i r x
    by (auto simp: parse_language_range_def Let_def split: if_splits f32.splits)
  have "sorted_wrt (\<lambda>x y. fst x < fst y) (enumerate 0 parts)" for parts :: "string list"
    using sorted_wrt_map [of "(<)" fst "enumerate 0 parts"] by simp
  then show ?thesis
    unfolding accepted_ranges_def quality_ranges_def map_filter_twice
    by (intro sorted_map_filter) (auto simp: bind_eq_Some_conv dest: index)
qed

lemma choose_locale_found:
  assumes "choose_locale available d (map fst rs) = l" and "sorted_wrt preferred rs"
  shows "l = d \<or> l \<in> set available \<and>
    (\<exists>r \<in> set rs. range_matches (fst r) l \<and>
      (\<forall>r' \<in> set rs. preferred r' r \<longrightarrow> fst r' \<noteq> ''*'' \<and> (\<forall>c \<in> set available. \<not> range_matches (fst r') c)))"
  using assms
proof (induction rs)
  case (Cons r rs)
  have no_earlier: "\<not> preferred r' r" if "r' \<in> set rs" for r'
    using Cons.prems(2) that preferred_asym [of r r'] by simp
  have irrefl: "\<not> preferred r r" by (cases r) simp
  consider (star) "fst r = ''*''" "l = d"
    | (found) "l \<in> set available" "range_matches (fst r) l"
    | (later) "fst r \<noteq> ''*''" "\<forall>c \<in> set available. \<not> range_matches (fst r) c" "choose_locale available d (map fst rs) = l"
    using Cons.prems(1)
    by (auto simp: range_matches_def find_Some_iff find_None_iff split: if_splits option.splits)
  then show ?case
  proof cases
    case found
    then show ?thesis using no_earlier irrefl by auto
  next
    case later
    with Cons.IH Cons.prems(2) show ?thesis by auto
  qed simp
qed simp

text \<open>The negotiated locale is the best one. Unless it is the fallback, it is an available locale
  that matches an acceptable range of the header, and no range of higher quality, or of the same
  quality earlier in the header, matches any available locale or is the wildcard.\<close>

theorem negotiated_locale_is_best:
  assumes "negotiate_locale env header available default' = Some locale" and "locale \<noteq> default'"
  shows "locale \<in> set available \<and>
    (\<exists>r \<in> set (accepted_ranges env header). range_matches (fst r) locale \<and>
      (\<forall>r' \<in> set (accepted_ranges env header). preferred r' r \<longrightarrow>
        fst r' \<noteq> ''*'' \<and> (\<forall>c \<in> set available. \<not> range_matches (fst r') c)))"
proof -
  have "choose_locale available default' (map fst (sort_ranges (accepted_ranges env header))) = locale"
    using assms(1) by (simp add: negotiate_locale_def accepted_ranges_def Let_def split: if_splits)
  from choose_locale_found [OF this] sort_ranges_sorted [OF accepted_ranges_indexed [of env header]] assms(2) show ?thesis
    by simp
qed

definition demo_floats :: "nat f32_env" where
  "demo_floats = \<lparr>fe_parse = (\<lambda>s. if s = ''0.8'' then Some (F32 8) else if s = ''0.9'' then Some (F32 9) else None), fe_zero = 0, fe_one = 10\<rparr>"

theorem negotiated_locale_is_best_witness:
  "negotiate_locale demo_floats ''fr;q=0.9, zh;q=0.8'' [''en'', ''zh-CN''] ''en'' = Some ''zh-CN'' \<and>
   (\<exists>r \<in> set (accepted_ranges demo_floats ''fr;q=0.9, zh;q=0.8''). range_matches (fst r) ''zh-CN'')"
proof -
  have chosen: "negotiate_locale demo_floats ''fr;q=0.9, zh;q=0.8'' [''en'', ''zh-CN''] ''en'' = Some ''zh-CN''" by code_simp
  moreover from negotiated_locale_is_best [OF this] have "\<exists>r \<in> set (accepted_ranges demo_floats ''fr;q=0.9, zh;q=0.8''). range_matches (fst r) ''zh-CN''"
    by auto
  ultimately show ?thesis by blast
qed

end
