(* ===== verification/View_Assets.thy ===== *)
theory View_Assets
  imports Http_Core
begin

text \<open>
  Production assets (\<open>phoenix-view\<close>: \<open>assets.rs\<close>, \<open>static_files.rs\<close>): the manifests and their validation, the
  public URLs, and the middleware that serves the declared files. Paths are those of Unix; the
  entries of a manifest are walked in an order that is an argument, and so is reading a file.
\<close>

section \<open>Paths\<close>

datatype path_component = RootDir | CurDir | ParentDir | Normal string

definition path_component :: "string \<Rightarrow> path_component" where
  "path_component s = (if s = ''..'' then ParentDir else Normal s)"

definition absolute_path :: "string \<Rightarrow> bool" where
  "absolute_path p \<longleftrightarrow> p \<noteq> [] \<and> hd p = CHR ''/''"

text \<open>\<open>Path::components\<close>: empty parts are dropped, and so are parts \<open>.\<close> except the first of a relative path.\<close>

definition path_components :: "string \<Rightarrow> path_component list" where
  "path_components p =
     (if absolute_path p then [RootDir] else if hd (split_on (CHR ''/'') p) = ''.'' then [CurDir] else []) @
     map path_component (filter (\<lambda>s. s \<noteq> [] \<and> s \<noteq> ''.'') (split_on (CHR ''/'') p))"

definition path_join :: "string \<Rightarrow> string \<Rightarrow> string" where
  "path_join root p =
     (if absolute_path p then p
      else if root = [] \<or> last root = CHR ''/'' then root @ p
      else root @ CHR ''/'' # p)"

text \<open>\<open>Path::extension\<close>: what follows the last dot of the file name, if another character comes before that dot.\<close>

definition file_extension :: "string \<Rightarrow> string option" where
  "file_extension p =
     (case rev (path_components p) of
        Normal name # _ \<Rightarrow>
          (let after = takeWhile (\<lambda>c. c \<noteq> CHR ''.'') (rev name); before = drop (Suc (length after)) (rev name)
           in if before = [] then None else Some (rev after))
      | _ \<Rightarrow> None)"

section \<open>Manifests\<close>

definition ASSET_MANIFEST_SCHEMA :: u8 where
  "ASSET_MANIFEST_SCHEMA = 1"

record asset_entry =
  ae_file :: string
  ae_css :: "string list"
  ae_imports :: "string list"

record asset_manifest =
  am_schema :: u8
  am_version :: string
  am_contract_hash :: string
  am_public_path :: string
  am_entries :: "string \<rightharpoonup> asset_entry"

record renderer_manifest =
  rm_schema :: u8
  rm_version :: string
  rm_contract_hash :: string
  rm_entry :: string

datatype asset_manifest_error =
    ReadManifest string | DecodeManifest string | UnsupportedSchema u8 | MissingIdentity | InvalidPublicPath string
  | UnsafeAsset string | DuplicateAsset string | UnknownAsset string | ContractMismatch string string

definition default_public_path :: string where
  "default_public_path = ''/assets/''"

definition validate_asset_path :: "string \<Rightarrow> asset_manifest_error + unit" where
  "validate_asset_path p =
     (if p \<noteq> [] \<and> CHR 0x5C \<notin> set p \<and> \<not> absolute_path p \<and>
         list_all (\<lambda>c. case c of Normal s \<Rightarrow> s \<noteq> [] | _ \<Rightarrow> False) (path_components p)
      then Inr () else Inl (UnsafeAsset p))"

definition renderer_manifest_validate :: "renderer_manifest \<Rightarrow> asset_manifest_error + unit" where
  "renderer_manifest_validate m =
     (if rm_schema m \<noteq> ASSET_MANIFEST_SCHEMA then Inl (UnsupportedSchema (rm_schema m))
      else if rm_version m = [] \<or> rm_contract_hash m = [] then Inl MissingIdentity
      else validate_asset_path (rm_entry m))"

definition entry_assets :: "asset_entry \<Rightarrow> string list" where
  "entry_assets e = ae_file e # ae_css e @ ae_imports e"

fun insert_assets :: "string list \<Rightarrow> string set \<Rightarrow> asset_manifest_error + string set" where
  "insert_assets [] paths = Inr paths"
| "insert_assets (path # rest) paths =
     res_bind (validate_asset_path path) (\<lambda>_.
       if path \<in> paths then Inl (DuplicateAsset path) else insert_assets rest (insert path paths))"

definition manifest_values :: "((string \<rightharpoonup> asset_entry) \<Rightarrow> string list) \<Rightarrow> asset_manifest \<Rightarrow> asset_entry list" where
  "manifest_values ord m = List.map_filter (am_entries m) (ord (am_entries m))"

definition asset_manifest_validate :: "((string \<rightharpoonup> asset_entry) \<Rightarrow> string list) \<Rightarrow> asset_manifest \<Rightarrow> asset_manifest_error + unit" where
  "asset_manifest_validate ord m =
     (if am_schema m \<noteq> ASSET_MANIFEST_SCHEMA then Inl (UnsupportedSchema (am_schema m))
      else if am_version m = [] \<or> am_contract_hash m = [] then Inl MissingIdentity
      else if \<not> absolute_path (am_public_path m) \<or> last (am_public_path m) \<noteq> CHR ''/'' then Inl (InvalidPublicPath (am_public_path m))
      else map_sum id (\<lambda>_. ()) (insert_assets (concat (map entry_assets (manifest_values ord m))) {}))"

text \<open>Loading: the text of the file, its decoding, and the check.\<close>

definition load_manifest :: "('m \<Rightarrow> asset_manifest_error + unit) \<Rightarrow> (string \<Rightarrow> string + 'm) \<Rightarrow> (string \<Rightarrow> string + string) \<Rightarrow> string \<Rightarrow> asset_manifest_error + 'm" where
  "load_manifest validate decode read path =
     res_bind (map_sum (\<lambda>_. ReadManifest path) id (read path)) (\<lambda>contents.
     res_bind (map_sum DecodeManifest id (decode contents)) (\<lambda>m.
     res_bind (validate m) (\<lambda>_. Inr m)))"

definition manifest_entry :: "asset_manifest \<Rightarrow> string \<Rightarrow> asset_entry option" where
  "manifest_entry m name = am_entries m name"

definition verify_contract :: "asset_manifest \<Rightarrow> string \<Rightarrow> asset_manifest_error + unit" where
  "verify_contract m expected = (if am_contract_hash m = expected then Inr () else Inl (ContractMismatch expected (am_contract_hash m)))"

definition owned_assets :: "asset_manifest \<Rightarrow> string set" where
  "owned_assets m = {a. \<exists>e \<in> ran (am_entries m). a \<in> set (entry_assets e)}"

definition asset_url :: "asset_manifest \<Rightarrow> string \<Rightarrow> asset_manifest_error + string" where
  "asset_url m asset = (if asset \<notin> owned_assets m then Inl (UnknownAsset asset) else Inr (am_public_path m @ asset))"

definition resolve_static :: "asset_manifest \<Rightarrow> string \<Rightarrow> string \<Rightarrow> asset_manifest_error + string" where
  "resolve_static m root request_path =
     (if take (length (am_public_path m)) request_path \<noteq> am_public_path m then Inl (UnknownAsset request_path)
      else
        (let relative = drop (length (am_public_path m)) request_path
         in if relative \<notin> owned_assets m then Inl (UnknownAsset relative) else Inr (path_join root relative)))"

section \<open>Serving\<close>

definition content_type_for :: "string \<Rightarrow> string option" where
  "content_type_for path =
     Option.bind (file_extension path) (\<lambda>e.
       if e \<in> {''js'', ''mjs''} then Some ''text/javascript; charset=utf-8''
       else if e = ''css'' then Some ''text/css; charset=utf-8''
       else if e \<in> {''json'', ''map''} then Some ''application/json; charset=utf-8''
       else if e = ''svg'' then Some ''image/svg+xml''
       else if e = ''png'' then Some ''image/png''
       else if e \<in> {''jpg'', ''jpeg''} then Some ''image/jpeg''
       else if e = ''webp'' then Some ''image/webp''
       else if e = ''woff2'' then Some ''font/woff2''
       else if e = ''woff'' then Some ''font/woff''
       else None)"

definition not_found :: "('x, 'w) response" where
  "not_found = with_status 404 (response_text ''Not Found'')"

definition file_response :: "(string \<Rightarrow> 'w \<Rightarrow> string option) \<Rightarrow> string \<Rightarrow> 'w \<Rightarrow> ('x, 'w) response" where
  "file_response read path w =
     (case read path w of
        None \<Rightarrow> not_found
      | Some contents \<Rightarrow>
          insert_header ''cache-control'' ''public, max-age=31536000, immutable''
            (case content_type_for path of
               None \<Rightarrow> response_new 200 contents
             | Some content_type \<Rightarrow> insert_header ''content-type'' content_type (response_new 200 contents)))"

definition serve_production_assets :: "(string \<Rightarrow> 'w \<Rightarrow> string option) \<Rightarrow> asset_manifest \<Rightarrow> string \<Rightarrow> ('a, 'x, 'w) middleware" where
  "serve_production_assets read m root request next_handler w =
     (if take (length (am_public_path m)) (rq_path request) \<noteq> am_public_path m then next_handler request w
      else
        (case resolve_static m root (rq_path request) of
           Inr file \<Rightarrow> (Some (file_response read file w), w)
         | Inl _ \<Rightarrow> (Some not_found, w)))"

section \<open>Served files stay below the root\<close>

lemma insert_assets_ok:
  "insert_assets paths seen = Inr all \<Longrightarrow> (\<forall>p \<in> set paths. validate_asset_path p = Inr ()) \<and> distinct paths \<and> set paths \<inter> seen = {} \<and> all = seen \<union> set paths"
  by (induction paths seen rule: insert_assets.induct) (auto simp: res_bind_Inr_iff split: if_splits)

lemma valid_manifest_assets:
  assumes "enumerates ord" and "finite (dom (am_entries m))" and "asset_manifest_validate ord m = Inr ()" and "a \<in> owned_assets m"
  shows "validate_asset_path a = Inr ()"
proof -
  obtain e name where e: "am_entries m name = Some e" "a \<in> set (entry_assets e)"
    using assms(4) by (auto simp: owned_assets_def ran_def)
  then have "e \<in> set (manifest_values ord m)"
    using enumerates_set [OF assms(1,2)] by (force simp: manifest_values_def List.map_filter_def dom_def)
  then have "a \<in> set (concat (map entry_assets (manifest_values ord m)))" using e(2) by auto
  moreover obtain all where "insert_assets (concat (map entry_assets (manifest_values ord m))) {} = Inr all"
    using assms(3) by (auto simp: asset_manifest_validate_def split: if_splits) (metis map_sum.simps(1) obj_sumE sum.distinct(1))
  ultimately show ?thesis using insert_assets_ok by blast
qed

lemma split_on_join: "split_on d (a @ d # b) = split_on d a @ split_on d b"
  by (induction a) (auto split: list.splits)

lemma split_on_hd_slash: "absolute_path p \<Longrightarrow> split_on (CHR ''/'') p = [] # split_on (CHR ''/'') (tl p)"
  by (cases p) (auto simp: absolute_path_def)

lemma components_join:
  assumes "\<not> absolute_path p" and "root \<noteq> []" and "\<forall>c \<in> set (path_components p). \<exists>s. c = Normal s"
  shows "path_components (path_join root p) = path_components root @ path_components p"
proof -
  let ?parts = "\<lambda>p. map path_component (filter (\<lambda>s. s \<noteq> [] \<and> s \<noteq> ''.'') (split_on (CHR ''/'') p))"
  have p: "path_components p = ?parts p"
    using assms(1,3) by (auto simp: path_components_def split: if_splits)
  show ?thesis
  proof (cases "last root = CHR ''/''")
    case True
    then obtain r where r: "root = r @ [CHR ''/'']" using assms(2) by (metis append_butlast_last_id)
    have abs: "absolute_path (root @ p) = absolute_path root" using assms(2) by (simp add: absolute_path_def)
    have split: "split_on (CHR ''/'') (root @ p) = split_on (CHR ''/'') r @ split_on (CHR ''/'') p"
      "split_on (CHR ''/'') root = split_on (CHR ''/'') r @ [[]]"
      using split_on_join [of "CHR ''/''" r p] split_on_join [of "CHR ''/''" r "[]"] by (simp_all add: r)
    then show ?thesis
      using True assms(1) abs p by (simp add: path_join_def path_components_def split)
  next
    case False
    have abs: "absolute_path (root @ CHR ''/'' # p) = absolute_path root" using assms(2) by (simp add: absolute_path_def)
    show ?thesis
      using False assms(1,2) abs p by (simp add: path_join_def path_components_def split_on_join)
  qed
qed

text \<open>A path a manifest names: a file, a style sheet or an import of one of its entries.\<close>

definition names_asset :: "asset_manifest \<Rightarrow> string \<Rightarrow> bool" where
  "names_asset m p \<longleftrightarrow>
     (\<exists>name e. am_entries m name = Some e \<and> (p = ae_file e \<or> p \<in> set (ae_css e) \<or> p \<in> set (ae_imports e)))"

lemma names_asset_owned: "names_asset m p \<longleftrightarrow> p \<in> owned_assets m"
  unfolding names_asset_def owned_assets_def entry_assets_def ran_def by auto

lemma owned_below_root:
  assumes "enumerates ord" and "finite (dom (am_entries m))" and "asset_manifest_validate ord m = Inr ()" and "root \<noteq> []"
    and "relative \<in> owned_assets m"
  shows "\<exists>names. path_components (path_join root relative) = path_components root @ map Normal names \<and> ''..'' \<notin> set names"
proof -
  have "validate_asset_path relative = Inr ()" by (rule valid_manifest_assets [OF assms(1-3,5)])
  moreover have "(case c of Normal s \<Rightarrow> s \<noteq> [] | _ \<Rightarrow> False) \<Longrightarrow> \<exists>s. c = Normal s" for c by (cases c) auto
  ultimately have safe: "\<not> absolute_path relative" "\<forall>c \<in> set (path_components relative). \<exists>s. c = Normal s"
    by (auto simp: validate_asset_path_def list_all_iff split: if_splits)
  have "\<exists>names. path_components relative = map Normal names \<and> ''..'' \<notin> set names"
  proof -
    have "c = path_component s \<Longrightarrow> c = Normal t \<Longrightarrow> t \<noteq> ''..''" for c s t by (auto simp: path_component_def split: if_splits)
    then have plain: "Normal ''..'' \<notin> set (path_components relative)"
      by (auto simp: path_components_def split: if_splits)
    have "\<exists>names. cs = map Normal names" if "\<forall>c \<in> set cs. \<exists>s. c = Normal s" for cs
      using that by (induction cs) (auto intro: exI [of _ "_ # _"])
    then show ?thesis using safe(2) plain by (metis (no_types, lifting) image_eqI list.set_map)
  qed
  then show ?thesis using components_join [OF safe(1) assms(4) safe(2)] by auto
qed

text \<open>C38: exactly the assets of the manifest are served, and all of them lie below the root. Let the manifest have passed
  its check, as every loaded one has. A request outside the public path goes on to the next
  handler. Otherwise what follows the public path is looked up: when it is a file, a style sheet
  or an import of an entry, the answer is the file of that name below the root, reached
  from the root by going down only, through plain names none of which is \<open>..\<close>; when it is not, the
  answer is 404 and no file is read.\<close>

theorem serves_owned_assets_only:
  assumes "enumerates ord" and "finite (dom (am_entries m))" and "asset_manifest_validate ord m = Inr ()" and "root \<noteq> []"
  shows "if \<exists>relative. rq_path request = am_public_path m @ relative then
      (\<exists>relative. rq_path request = am_public_path m @ relative \<and>
         (if names_asset m relative
          then serve_production_assets read m root request next_handler w = (Some (file_response read (path_join root relative) w), w) \<and>
            (\<exists>names. path_components (path_join root relative) = path_components root @ map Normal names \<and> ''..'' \<notin> set names)
          else serve_production_assets read m root request next_handler w = (Some not_found, w)))
    else serve_production_assets read m root request next_handler w = next_handler request w"
proof (cases "take (length (am_public_path m)) (rq_path request) = am_public_path m")
  case True
  then have path: "rq_path request = am_public_path m @ drop (length (am_public_path m)) (rq_path request)"
    by (metis append_take_drop_id)
  moreover define relative where "relative = drop (length (am_public_path m)) (rq_path request)"
  ultimately have p: "rq_path request = am_public_path m @ relative" by simp
  have "names_asset m relative \<Longrightarrow> \<exists>names. path_components (path_join root relative) = path_components root @ map Normal names \<and> ''..'' \<notin> set names"
    using owned_below_root [OF assms] by (simp add: names_asset_owned)
  moreover have "serve_production_assets read m root request next_handler w =
      (if names_asset m relative then (Some (file_response read (path_join root relative) w), w) else (Some not_found, w))"
    by (simp add: serve_production_assets_def resolve_static_def p names_asset_owned)
  ultimately show ?thesis using p by auto
next
  case False
  then have "\<nexists>relative. rq_path request = am_public_path m @ relative" by auto
  then show ?thesis using False by (simp add: serve_production_assets_def)
qed

definition demo_manifest :: asset_manifest where
  "demo_manifest =
     \<lparr>am_schema = 1, am_version = ''v1'', am_contract_hash = ''h'', am_public_path = ''/assets/'',
      am_entries = [''app'' \<mapsto> \<lparr>ae_file = ''js/app.js'', ae_css = [], ae_imports = []\<rparr>]\<rparr>"

lemma demo_manifest_dom: "dom (am_entries demo_manifest) = {''app''}"
  by (simp add: demo_manifest_def)

definition demo_asset_request :: "string \<Rightarrow> (unit, unit) request" where
  "demo_asset_request path =
     \<lparr>rq_method = ''GET'', rq_path = path, rq_path_and_query = Some path, rq_authority = None, rq_headers = (\<lambda>_. []), rq_params = [],
      rq_route_name = None, rq_application = None, rq_manifest = None, rq_request_id = None, rq_peer = None, rq_connection = None,
      rq_client_ip = None, rq_scheme = None, rq_nonce = None, rq_has_session = False, rq_rest = ()\<rparr>"

theorem serves_owned_assets_only_witness:
  "\<exists>names. path_components ''public/assets/js/app.js'' = path_components ''public/assets'' @ map Normal names \<and> ''..'' \<notin> set names \<and>
     serve_production_assets (\<lambda>p w. Some p) demo_manifest ''public/assets'' (demo_asset_request ''/assets/js/app.js'') (\<lambda>r w. (None, w)) () =
       (Some (file_response (\<lambda>p w. Some p) ''public/assets/js/app.js'' () :: (unit, unit) response), ())"
proof -
  have "manifest_values sorted_order demo_manifest = [\<lparr>ae_file = ''js/app.js'', ae_css = [], ae_imports = []\<rparr>]"
    using demo_manifest_dom by (simp add: manifest_values_def sorted_order_def) (simp add: demo_manifest_def List.map_filter_def)
  then have valid: "asset_manifest_validate sorted_order demo_manifest = Inr ()"
    by (simp add: asset_manifest_validate_def entry_assets_def) (simp add: demo_manifest_def ASSET_MANIFEST_SCHEMA_def absolute_path_def
        validate_asset_path_def path_components_def path_component_def)
  have named: "names_asset demo_manifest ''js/app.js''" by (simp add: names_asset_def demo_manifest_def)
  have path: "rq_path (demo_asset_request ''/assets/js/app.js'') = am_public_path demo_manifest @ ''js/app.js''"
    by (simp add: demo_asset_request_def demo_manifest_def)
  have below: "path_join ''public/assets'' ''js/app.js'' = ''public/assets/js/app.js''"
    by (simp add: path_join_def absolute_path_def)
  have "finite (dom (am_entries demo_manifest))" by (simp add: demo_manifest_dom)
  then show ?thesis
    using serves_owned_assets_only [OF enumerates_sorted_order _ valid, of "''public/assets''" "demo_asset_request ''/assets/js/app.js''"
        "\<lambda>p w. Some p" "\<lambda>r w. (None, w)" "()"]
    unfolding path by (simp add: named below)
qed

end
