(* ===== verification/View_Page.thy ===== *)
theory View_Page
  imports View_Document View_I18n View_Assets
begin

text \<open>
  Pages and their responses (\<open>phoenix-view\<close>: \<open>lib.rs\<close>): building a page, the document and the page
  protocol, the codecs that encrypt the protocol, and rendering on the server, at once or in
  chunks. JSON text, the renderer, the cipher, base64 and the clock are arguments.
\<close>

section \<open>Codecs\<close>

definition ENVELOPE_PURPOSE :: string where
  "ENVELOPE_PURPOSE = ''page-navigation''"

datatype encryption_error = EncryptionFailed | InvalidEnvelope | PageAuthenticationFailed | EnvelopeExpired | InvalidClock

record encrypted_payload =
  ep_version :: u8
  ep_algorithm :: string
  ep_key_id :: string
  ep_purpose :: string
  ep_issued_at :: u64
  ep_expires_at :: u64
  ep_nonce :: string
  ep_ciphertext :: string
  ep_tag :: string

record aes_codec =
  ac_key_id :: string
  ac_key :: string
  ac_ttl :: duration

definition aes_codec_new :: "string \<Rightarrow> string \<Rightarrow> aes_codec" where
  "aes_codec_new key_id key = \<lparr>ac_key_id = key_id, ac_key = key, ac_ttl = duration_from_secs 60\<rparr>"

definition aes_with_ttl :: "duration \<Rightarrow> aes_codec \<Rightarrow> aes_codec" where
  "aes_with_ttl ttl c = c\<lparr>ac_ttl := ttl\<rparr>"

definition page_unix_timestamp :: "systime \<Rightarrow> encryption_error + u64" where
  "page_unix_timestamp now = map_sum (\<lambda>_. InvalidClock) id (secure_unix_now now)"

definition envelope_aad :: "encrypted_payload \<Rightarrow> string" where
  "envelope_aad p =
     ''phoenix.page.v'' @ nat_to_string (unat (ep_version p)) @ ''|'' @ ep_key_id p @ ''|'' @ ep_purpose p @ ''|'' @
     nat_to_string (unat (ep_issued_at p)) @ ''|'' @ nat_to_string (unat (ep_expires_at p))"

definition aes_decode :: "('a, 'x, 'sk) secure_lib \<Rightarrow> aes_codec \<Rightarrow> systime \<Rightarrow> encrypted_payload \<Rightarrow> encryption_error + string" where
  "aes_decode lib c now p =
     (if ep_version p \<noteq> 1 \<or> ep_algorithm p \<noteq> ''A256GCM'' \<or> ep_key_id p \<noteq> ac_key_id c \<or> ep_purpose p \<noteq> ENVELOPE_PURPOSE
      then Inl InvalidEnvelope
      else
        res_bind (page_unix_timestamp now) (\<lambda>now.
        if ep_expires_at p < now \<or> ep_issued_at p > w_saturating_add now 60 then Inl EnvelopeExpired
        else
          res_bind (ok_or InvalidEnvelope (sl_unbase64 lib (ep_nonce p))) (\<lambda>nonce.
          res_bind (ok_or InvalidEnvelope (sl_unbase64 lib (ep_ciphertext p))) (\<lambda>ciphertext.
          res_bind (ok_or InvalidEnvelope (sl_unbase64 lib (ep_tag p))) (\<lambda>tag.
          if length nonce \<noteq> 12 then Inl InvalidEnvelope
          else ok_or PageAuthenticationFailed (sl_decrypt lib (ac_key c) nonce (envelope_aad p) (ciphertext @ tag)))))))"

definition aes_encode :: "('a, 'x, 'sk) secure_lib \<Rightarrow> string \<Rightarrow> systime \<Rightarrow> aes_codec \<Rightarrow> string \<Rightarrow> encryption_error + encrypted_payload" where
  "aes_encode lib nonce now c plaintext =
     res_bind (page_unix_timestamp now) (\<lambda>issued_at.
       (let envelope =
              \<lparr>ep_version = 1, ep_algorithm = ''A256GCM'', ep_key_id = ac_key_id c, ep_purpose = ENVELOPE_PURPOSE, ep_issued_at = issued_at,
               ep_expires_at = w_saturating_add issued_at (of_nat (ac_ttl c div nanos_per_sec)), ep_nonce = sl_base64 lib nonce,
               ep_ciphertext = [], ep_tag = []\<rparr>
        in res_bind (ok_or EncryptionFailed (sl_encrypt lib (ac_key c) nonce (envelope_aad envelope) plaintext)) (\<lambda>sealed.
           if length sealed < 16 then Inl EncryptionFailed
           else Inr (envelope\<lparr>ep_ciphertext := sl_base64 lib (take (length sealed - 16) sealed),
                              ep_tag := sl_base64 lib (drop (length sealed - 16) sealed)\<rparr>))))"

record secure_codec =
  sec_key_id :: string
  sec_key :: string
  sec_ttl :: duration

definition secure_codec_new :: "string \<Rightarrow> string \<Rightarrow> secure_codec" where
  "secure_codec_new key_id key = \<lparr>sec_key_id = key_id, sec_key = key, sec_ttl = duration_from_secs 60\<rparr>"

definition secure_with_ttl :: "duration \<Rightarrow> secure_codec \<Rightarrow> secure_codec" where
  "secure_with_ttl ttl c = c\<lparr>sec_ttl := ttl\<rparr>"

fun encryption_error_of :: "secure_error \<Rightarrow> encryption_error" where
  "encryption_error_of FrameExpired = EnvelopeExpired"
| "encryption_error_of AuthenticationFailed = PageAuthenticationFailed"
| "encryption_error_of (SessionStoreError e) = PageAuthenticationFailed"
| "encryption_error_of InvalidFrame = InvalidEnvelope"
| "encryption_error_of InvalidPublicKey = InvalidEnvelope"
| "encryption_error_of ClockError = InvalidClock"
| "encryption_error_of KeyAgreement = EncryptionFailed"
| "encryption_error_of SealFailed = EncryptionFailed"

definition encode_frame :: "('a, 'x, 'sk) secure_lib \<Rightarrow> string \<Rightarrow> systime \<Rightarrow> secure_codec \<Rightarrow> string \<Rightarrow> encryption_error + string" where
  "encode_frame lib nonce now c plaintext =
     res_bind (page_unix_timestamp now) (\<lambda>issued_at.
       map_sum encryption_error_of id
         (seal_frame lib nonce (sec_key c) (sec_key_id c) plaintext issued_at (of_nat (sec_ttl c div nanos_per_sec)) FrameResponse))"

definition decode_frame :: "('a, 'x, 'sk) secure_lib \<Rightarrow> systime \<Rightarrow> secure_codec \<Rightarrow> string \<Rightarrow> encryption_error + string" where
  "decode_frame lib now c frame =
     res_bind (page_unix_timestamp now) (\<lambda>now.
       map_sum encryption_error_of id (open_frame lib (sec_key c) (sec_key_id c) frame now FrameResponse))"

section \<open>Pages\<close>

record 'n page =
  wp_envelope :: "'n page_envelope"
  wp_server_html :: "string option"
  wp_script_src :: string
  wp_stylesheets :: "string list"
  wp_template :: "'n document_template"

text \<open>\<open>vite\<close> is the value of \<open>VITE_DEV_URL\<close> when \<open>PHOENIX_VITE_DEV\<close> is set.\<close>

definition default_script_src :: "string option option \<Rightarrow> string" where
  "default_script_src vite =
     (case vite of
        None \<Rightarrow> ''/assets/phoenix.js''
      | Some url \<Rightarrow>
          rev (dropWhile (\<lambda>c. c = CHR ''/'') (rev (case url of None \<Rightarrow> ''http://127.0.0.1:5173'' | Some u \<Rightarrow> u))) @
          ''/@id/__x00__virtual:phoenix/client'')"

definition page_new :: "string option option \<Rightarrow> string \<Rightarrow> 'n json_tree option \<Rightarrow> 'n page" where
  "page_new vite name props =
     \<lparr>wp_envelope =
        \<lparr>pe_protocol = 1, pe_render_mode = Islands, pe_page = name, pe_props = (case props of None \<Rightarrow> VNull | Some v \<Rightarrow> v),
         pe_shared = [], pe_errors = [], pe_flash = [], pe_contract_hash = None, pe_asset_version = None, pe_request_id = None,
         pe_head = page_head_default, pe_csrf_token = None, pe_locale = DEFAULT_LOCALE, pe_translations = [], pe_routes = (\<lambda>_. None),
         pe_islands = []\<rparr>,
      wp_server_html = None, wp_script_src = default_script_src vite, wp_stylesheets = [], wp_template = template_new document_slots_new\<rparr>"

definition object_value :: "'n json_tree option \<Rightarrow> (string \<times> 'n json_tree) list" where
  "object_value v = (case v of Some (VObject entries) \<Rightarrow> entries | _ \<Rightarrow> [])"

definition with_envelope :: "('n page_envelope \<Rightarrow> 'n page_envelope) \<Rightarrow> 'n page \<Rightarrow> 'n page" where
  "with_envelope f p = p\<lparr>wp_envelope := f (wp_envelope p)\<rparr>"

definition page_mode :: "render_mode \<Rightarrow> 'n page \<Rightarrow> 'n page" where
  "page_mode mode = with_envelope (\<lambda>e. e\<lparr>pe_render_mode := mode\<rparr>)"

definition page_shared :: "'n json_tree option \<Rightarrow> 'n page \<Rightarrow> 'n page" where
  "page_shared v = with_envelope (\<lambda>e. e\<lparr>pe_shared := object_value v\<rparr>)"

definition page_errors :: "'n json_tree option \<Rightarrow> 'n page \<Rightarrow> 'n page" where
  "page_errors v = with_envelope (\<lambda>e. e\<lparr>pe_errors := object_value v\<rparr>)"

definition page_flash :: "'n json_tree option \<Rightarrow> 'n page \<Rightarrow> 'n page" where
  "page_flash v = with_envelope (\<lambda>e. e\<lparr>pe_flash := object_value v\<rparr>)"

definition page_contract_hash :: "string \<Rightarrow> 'n page \<Rightarrow> 'n page" where
  "page_contract_hash hash = with_envelope (\<lambda>e. e\<lparr>pe_contract_hash := Some hash\<rparr>)"

definition page_asset_version :: "string \<Rightarrow> 'n page \<Rightarrow> 'n page" where
  "page_asset_version version = with_envelope (\<lambda>e. e\<lparr>pe_asset_version := Some version\<rparr>)"

definition page_request_id :: "string \<Rightarrow> 'n page \<Rightarrow> 'n page" where
  "page_request_id i = with_envelope (\<lambda>e. e\<lparr>pe_request_id := Some i\<rparr>)"

definition page_with_head :: "page_head \<Rightarrow> 'n page \<Rightarrow> 'n page" where
  "page_with_head head = with_envelope (\<lambda>e. e\<lparr>pe_head := head\<rparr>)"

definition page_csrf_token :: "string \<Rightarrow> 'n page \<Rightarrow> 'n page" where
  "page_csrf_token token = with_envelope (\<lambda>e. e\<lparr>pe_csrf_token := Some token\<rparr>)"

definition page_locale :: "view_registry \<Rightarrow> string \<Rightarrow> 'n page \<Rightarrow> 'n page" where
  "page_locale reg locale = with_envelope (\<lambda>e. e\<lparr>pe_translations := translation_catalog reg locale, pe_locale := locale\<rparr>)"

definition page_negotiate_locale :: "('q::linorder) f32_env \<Rightarrow> 'a web_env \<Rightarrow> view_registry \<Rightarrow> ('a, 'x) request \<Rightarrow> string list \<Rightarrow> string \<Rightarrow> 'n page \<Rightarrow> 'n page option" where
  "page_negotiate_locale env web reg request available default' p =
     map_option (\<lambda>locale. page_locale reg locale p) (negotiate_locale_from_headers env web (rq_headers request) available default')"

definition page_island :: "string \<Rightarrow> 'n json_tree option \<Rightarrow> 'n page \<Rightarrow> 'n page" where
  "page_island component props = with_envelope (\<lambda>e. e\<lparr>pe_islands := pe_islands e @ [island_new component props]\<rparr>)"

definition page_island_with_id :: "string \<Rightarrow> string \<Rightarrow> 'n json_tree option \<Rightarrow> 'n page \<Rightarrow> 'n page" where
  "page_island_with_id i component props = with_envelope (\<lambda>e. e\<lparr>pe_islands := pe_islands e @ [island_with_id i component props]\<rparr>)"

definition page_trusted_server_html :: "string \<Rightarrow> 'n page \<Rightarrow> 'n page" where
  "page_trusted_server_html html p = p\<lparr>wp_server_html := Some html\<rparr>"

definition page_document :: "'n document_template \<Rightarrow> 'n page \<Rightarrow> 'n page" where
  "page_document template p = p\<lparr>wp_template := template\<rparr>"

definition page_script_src :: "string \<Rightarrow> 'n page \<Rightarrow> 'n page" where
  "page_script_src source p = p\<lparr>wp_script_src := source\<rparr>"

record 'n render_result =
  rr_html :: string
  rr_head :: "string list"
  rr_islands :: "'n island list"

definition page_rendered :: "'n render_result \<Rightarrow> 'n page \<Rightarrow> 'n page" where
  "page_rendered result p = with_envelope (\<lambda>e. e\<lparr>pe_islands := rr_islands result\<rparr>) (p\<lparr>wp_server_html := Some (rr_html result)\<rparr>)"

fun asset_urls :: "asset_manifest \<Rightarrow> string list \<Rightarrow> asset_manifest_error + string list" where
  "asset_urls m [] = Inr []"
| "asset_urls m (a # as) = res_bind (asset_url m a) (\<lambda>u. map_sum id (Cons u) (asset_urls m as))"

definition page_production_assets :: "((string \<rightharpoonup> asset_entry) \<Rightarrow> string list) \<Rightarrow> asset_manifest \<Rightarrow> string \<Rightarrow> 'n page \<Rightarrow> asset_manifest_error + 'n page" where
  "page_production_assets ord m entry_name p =
     res_bind (asset_manifest_validate ord m) (\<lambda>_.
     res_bind (ok_or (UnknownAsset entry_name) (manifest_entry m entry_name)) (\<lambda>entry.
     res_bind (asset_url m (ae_file entry)) (\<lambda>script_src.
     res_bind (asset_urls m (ae_css entry)) (\<lambda>stylesheets.
       Inr (page_asset_version (am_version m) (page_contract_hash (am_contract_hash m)
              (p\<lparr>wp_script_src := script_src, wp_stylesheets := stylesheets\<rparr>)))))))"

section \<open>Responses\<close>

datatype page_response_error = PageSerialization | PageEncryption encryption_error | PageDocument document_template_error

definition page_error_response :: "page_response_error \<Rightarrow> ('x, 'w) response" where
  "page_error_response e = with_status 500 (response_text ''Internal Server Error'')"

record 'n view_lib =
  vl_envelope_json :: "'n page_envelope \<Rightarrow> string option"
  vl_payload_json :: "encrypted_payload \<Rightarrow> string option"

definition page_protocol_headers :: "string \<Rightarrow> string \<Rightarrow> ('x, 'w) response \<Rightarrow> ('x, 'w) response" where
  "page_protocol_headers media encrypted r =
     insert_header ''vary'' ''x-phoenix-page, accept'' (insert_header ''cache-control'' ''private, no-store''
       (insert_header ''x-phoenix-encrypted'' encrypted (insert_header ''content-type'' media r)))"

definition without_validators :: "('x, 'w) response \<Rightarrow> ('x, 'w) response" where
  "without_validators r = r\<lparr>rp_headers := header_remove ''last-modified'' (header_remove ''etag'' (rp_headers r))\<rparr>"

definition protocol_response :: "'n view_lib \<Rightarrow> 'n page_envelope \<Rightarrow> (string \<Rightarrow> encryption_error + encrypted_payload) option \<Rightarrow> page_response_error + ('x, 'w) response" where
  "protocol_response lib envelope codec =
     res_bind (ok_or PageSerialization (vl_envelope_json lib envelope)) (\<lambda>plain.
     res_bind
       (case codec of
          Some encode \<Rightarrow>
            res_bind (map_sum PageEncryption id (encode plain)) (\<lambda>payload.
            res_bind (ok_or PageSerialization (vl_payload_json lib payload)) (\<lambda>body. Inr (body, True)))
        | None \<Rightarrow> Inr (plain, False))
       (\<lambda>(body, encrypted).
         Inr (without_validators (page_protocol_headers PAGE_PROTOCOL_MEDIA_TYPE (if encrypted then ''1'' else ''0'') (response_new 200 body)))))"

definition secure_protocol_response :: "'n view_lib \<Rightarrow> 'n page_envelope \<Rightarrow> (string \<Rightarrow> encryption_error + string) \<Rightarrow> page_response_error + ('x, 'w) response" where
  "secure_protocol_response lib envelope encode =
     res_bind (ok_or PageSerialization (vl_envelope_json lib envelope)) (\<lambda>plain.
     res_bind (map_sum PageEncryption id (encode plain)) (\<lambda>frame.
       Inr (without_validators (page_protocol_headers SECURE_CONTENT_TYPE ''1'' (response_new 200 frame)))))"

definition nonce_headers :: "string option \<Rightarrow> ('x, 'w) response \<Rightarrow> ('x, 'w) response" where
  "nonce_headers nonce r =
     (if nonce = None then r else without_validators (insert_header ''cache-control'' ''private, no-store'' r))"

definition document_response :: "'n view_lib \<Rightarrow> 'n page_envelope \<Rightarrow> string option \<Rightarrow> string \<Rightarrow> string list \<Rightarrow> string option \<Rightarrow> 'n document_template \<Rightarrow>
    page_response_error + ('x, 'w) response" where
  "document_response lib envelope server_html script_src stylesheets nonce template =
     (let root_html = (if pe_render_mode envelope = Spa then [] else (case server_html of None \<Rightarrow> [] | Some html \<Rightarrow> html))
      in res_bind (map_sum PageDocument id (template \<lparr>dc_envelope = envelope, dc_nonce = nonce\<rparr>)) (\<lambda>slots.
         res_bind (ok_or PageSerialization (document_suffix (vl_envelope_json lib) envelope script_src nonce slots)) (\<lambda>suffix.
           Inr (nonce_headers nonce
             (insert_header ''vary'' ''x-phoenix-page, accept''
               (insert_header ''x-phoenix-render-mode'' (render_mode_str (pe_render_mode envelope))
                 (insert_header ''content-type'' ''text/html; charset=utf-8''
                   (response_new 200 (document_prefix envelope stylesheets nonce slots @ root_html @ suffix)))))))))"

definition page_document_response :: "'n view_lib \<Rightarrow> string option \<Rightarrow> 'n page \<Rightarrow> page_response_error + ('x, 'w) response" where
  "page_document_response lib nonce p =
     document_response lib (wp_envelope p) (wp_server_html p) (wp_script_src p) (wp_stylesheets p) nonce (wp_template p)"

definition page_respond :: "'n view_lib \<Rightarrow> bool \<Rightarrow> (string \<Rightarrow> encryption_error + encrypted_payload) option \<Rightarrow> 'n page \<Rightarrow> page_response_error + ('x, 'w) response" where
  "page_respond lib page_request codec p =
     (if page_request then protocol_response lib (wp_envelope p) codec else page_document_response lib None p)"

definition page_respond_secure :: "'n view_lib \<Rightarrow> bool \<Rightarrow> (string \<Rightarrow> encryption_error + string) option \<Rightarrow>
    (string \<Rightarrow> encryption_error + encrypted_payload) option \<Rightarrow> 'n page \<Rightarrow> page_response_error + ('x, 'w) response" where
  "page_respond_secure lib page_request secure codec p =
     (if page_request then
        (case secure of
           Some encode \<Rightarrow> secure_protocol_response lib (wp_envelope p) encode
         | None \<Rightarrow> protocol_response lib (wp_envelope p) codec)
      else page_document_response lib None p)"

definition is_page_request :: "headers \<Rightarrow> bool" where
  "is_page_request headers \<longleftrightarrow> header_get ''x-phoenix-page'' headers = Some ''1''"

record response_context =
  rc_page_request :: bool
  rc_csp_nonce :: "string option"
  rc_route_manifest :: "(string \<rightharpoonup> string) option"

definition response_context_of :: "('a, 'x) request \<Rightarrow> response_context" where
  "response_context_of request =
     \<lparr>rc_page_request = is_page_request (rq_headers request), rc_csp_nonce = rq_nonce request, rc_route_manifest = rq_manifest request\<rparr>"

definition with_routes :: "(string \<rightharpoonup> string) option \<Rightarrow> 'n page \<Rightarrow> 'n page" where
  "with_routes manifest p = (case manifest of None \<Rightarrow> p | Some routes \<Rightarrow> with_envelope (\<lambda>e. e\<lparr>pe_routes := routes\<rparr>) p)"

definition respond_with_context :: "'n view_lib \<Rightarrow> response_context \<Rightarrow> (string \<Rightarrow> encryption_error + encrypted_payload) option \<Rightarrow> 'n page \<Rightarrow>
    page_response_error + ('x, 'w) response" where
  "respond_with_context lib context codec p =
     (let p = with_routes (rc_route_manifest context) p
      in if rc_page_request context then protocol_response lib (wp_envelope p) codec
         else page_document_response lib (rc_csp_nonce context) p)"

definition page_respond_to :: "'n view_lib \<Rightarrow> ('a, 'y) request \<Rightarrow> (string \<Rightarrow> encryption_error + encrypted_payload) option \<Rightarrow> 'n page \<Rightarrow>
    page_response_error + ('x, 'w) response" where
  "page_respond_to lib request codec p = respond_with_context lib (response_context_of request) codec p"

fun page_result :: "page_response_error + ('x, 'w) response \<Rightarrow> ('x, 'w) response" where
  "page_result (Inr r) = r"
| "page_result (Inl e) = page_error_response e"

section \<open>Rendering on the server\<close>

record render_context =
  rx_url :: string
  rx_locale :: string
  rx_nonce :: "string option"

text \<open>\<open>uri\<close> is the text of the URI of the request.\<close>

definition render_context_of :: "(('a, 'y) request \<Rightarrow> string) \<Rightarrow> ('a, 'y) request \<Rightarrow> render_context" where
  "render_context_of uri request = \<lparr>rx_url = uri request, rx_locale = ''en'', rx_nonce = rq_nonce request\<rparr>"

definition renderer_unavailable :: "('x, 'w) response" where
  "renderer_unavailable = with_status 503 (response_text ''SSR renderer unavailable'')"

definition respond_with_renderer :: "'n view_lib \<Rightarrow> (('a, 'y) request \<Rightarrow> string) \<Rightarrow> ('n page_envelope \<Rightarrow> render_context \<Rightarrow> 'w \<Rightarrow> ('e + 'n render_result) \<times> 'w) \<Rightarrow>
    ('a, 'y) request \<Rightarrow> 'n page \<Rightarrow> 'w \<Rightarrow> ('x, 'w) response \<times> 'w" where
  "respond_with_renderer lib uri render request p w =
     (if pe_render_mode (wp_envelope p) = Spa \<or>
         (is_page_request (rq_headers request) \<and> pe_render_mode (wp_envelope p) \<noteq> Islands)
      then (page_result (page_respond_to lib request None p), w)
      else
        (case render (wp_envelope p) ((render_context_of uri request)\<lparr>rx_locale := pe_locale (wp_envelope p)\<rparr>) w of
           (Inr result, w) \<Rightarrow> (page_result (page_respond_to lib request None (page_rendered result p)), w)
         | (Inl _, w) \<Rightarrow> (renderer_unavailable, w)))"

datatype 'n render_frame = RenderChunk string | RenderComplete "string list" "'n island list"

text \<open>The chunks the renderer sends until it completes, fails or ends, and the islands it completed with.\<close>

fun receive_frames :: "('e + 'n render_frame) list \<Rightarrow> string list \<times> 'n island list option" where
  "receive_frames [] = ([], None)"
| "receive_frames (Inr (RenderChunk chunk) # frames) = apfst (Cons chunk) (receive_frames frames)"
| "receive_frames (Inr (RenderComplete head islands) # _) = ([], Some islands)"
| "receive_frames (Inl _ # _) = ([], None)"

definition stream_chunks :: "'n view_lib \<Rightarrow> 'n page \<Rightarrow> string option \<Rightarrow> document_slots \<Rightarrow> ('e + 'n render_frame) list \<Rightarrow> string list" where
  "stream_chunks lib p nonce slots frames =
     (let (chunks, completed) = receive_frames frames
      in document_prefix (wp_envelope p) (wp_stylesheets p) nonce slots # chunks @
         (case completed of
            None \<Rightarrow> [''<!-- Phoenix SSR stream interrupted -->'']
          | Some islands \<Rightarrow>
              (case document_suffix (vl_envelope_json lib) ((wp_envelope p)\<lparr>pe_islands := islands\<rparr>) (wp_script_src p) nonce slots of
                 None \<Rightarrow> [] | Some suffix \<Rightarrow> [suffix])))"

text \<open>A streamed body is the list of its chunks, read to its end.\<close>

definition respond_streaming_with_renderer :: "'n view_lib \<Rightarrow> (('a, 'y) request \<Rightarrow> string) \<Rightarrow>
    ('n page_envelope \<Rightarrow> render_context \<Rightarrow> ('e + ('e + 'n render_frame) list)) \<Rightarrow> ('a, 'y) request \<Rightarrow> 'n page \<Rightarrow> (string list, 'w) response" where
  "respond_streaming_with_renderer lib uri render_stream request p =
     (let p = with_routes (rq_manifest request) p; nonce = rq_nonce request
      in if is_page_request (rq_headers request) then page_result (page_respond lib True None p)
         else
           (case wp_template p \<lparr>dc_envelope = wp_envelope p, dc_nonce = nonce\<rparr> of
              Inl e \<Rightarrow> page_error_response (PageDocument e)
            | Inr slots \<Rightarrow>
                (case render_stream (wp_envelope p) ((render_context_of uri request)\<lparr>rx_locale := pe_locale (wp_envelope p)\<rparr>) of
                   Inl _ \<Rightarrow> renderer_unavailable
                 | Inr frames \<Rightarrow>
                     nonce_headers nonce
                       (insert_header ''x-phoenix-ssr-stream'' ''1''
                         (insert_header ''x-phoenix-render-mode'' (render_mode_str (pe_render_mode (wp_envelope p)))
                           (insert_header ''content-type'' ''text/html; charset=utf-8''
                             (response_stream (stream_chunks lib p nonce slots frames))))))))"

end
