(* ===== verification/View_Props.thy ===== *)
theory View_Props
  imports View_Html View_Json View_Page Secure_Props
begin

text \<open>
  What holds of the documents of View_Document: the slots an application builds are well formed,
  a browser reads from a document exactly the tags and texts it was made from, and the data for
  the client comes out of it as it went in.
\<close>

section \<open>Slots\<close>

definition attributes_ok :: "html_attributes \<Rightarrow> bool" where
  "attributes_ok as \<longleftrightarrow> list_all attribute_name (map fst as) \<and> distinct (map fst (read_attributes as))"

definition slots_ok :: "document_slots \<Rightarrow> bool" where
  "slots_ok s \<longleftrightarrow> attributes_ok (sl_html s) \<and> attributes_ok (sl_body s) \<and> attributes_ok (sl_root s) \<and>
     set (map fst (read_attributes (sl_root s))) \<inter> {''id'', ''data-render-mode''} = {}"

lemma read_names [simp]: "map fst (read_attributes as) = map (\<lambda>a. to_ascii_lowercase (fst a)) as"
  by (simp add: read_attributes_def case_prod_beta)

lemma checked_name: "checked_attribute_name name = Inr n \<Longrightarrow> n = name \<and> attribute_name name"
  by (auto simp: checked_attribute_name_def attribute_name_def attribute_start_def attribute_rest_def split: list.splits if_splits)

lemma set_attribute_names:
  "set (map fst (read_attributes (set_attribute as name v))) = insert (to_ascii_lowercase name) (set (map fst (read_attributes as)))"
  by (induction as name v rule: set_attribute.induct) (auto simp: eq_ignore_ascii_case_def)

lemma set_attribute_ok: "attributes_ok as \<Longrightarrow> attribute_name name \<Longrightarrow> attributes_ok (set_attribute as name v)"
proof (induction as name v rule: set_attribute.induct)
  case (2 current w as name v)
  then show ?case
    using set_attribute_names [of as name v]
    by (auto simp: attributes_ok_def eq_ignore_ascii_case_def) (force simp: image_iff)
qed (simp add: attributes_ok_def read_attributes_def)

lemma lang_name: "attribute_name ''lang''"
  by (simp add: attribute_name_def attribute_rest_def is_ascii_alphabetic_def byte_in_def)

text \<open>The calls by which an application builds its slots.\<close>

inductive built_slots :: "document_slots \<Rightarrow> bool" where
  built_new: "built_slots document_slots_new"
| built_language: "built_slots s \<Longrightarrow> built_slots (slots_language l s)"
| built_html: "built_slots s \<Longrightarrow> slots_html_attribute name v s = Inr s' \<Longrightarrow> built_slots s'"
| built_body: "built_slots s \<Longrightarrow> slots_body_attribute name v s = Inr s' \<Longrightarrow> built_slots s'"
| built_root: "built_slots s \<Longrightarrow> slots_root_attribute name v s = Inr s' \<Longrightarrow> built_slots s'"
| built_head: "built_slots s \<Longrightarrow> built_slots (slots_head html s)"
| built_before: "built_slots s \<Longrightarrow> built_slots (slots_before_root html s)"
| built_after: "built_slots s \<Longrightarrow> built_slots (slots_after_root html s)"

lemma built_slots_ok: "built_slots s \<Longrightarrow> slots_ok s"
proof (induction rule: built_slots.induct)
  case built_new
  then show ?case by (simp add: slots_ok_def document_slots_new_def attributes_ok_def read_attributes_def)
next
  case (built_root s name v s')
  from built_root.hyps(2) have "attribute_name name" "to_ascii_lowercase name \<notin> {''id'', ''data-render-mode''}"
      "s' = s\<lparr>sl_root := set_attribute (sl_root s) name v\<rparr>"
    by (auto simp: slots_root_attribute_def res_bind_Inr_iff dest!: checked_name split: if_splits)
  then show ?case
    using built_root.IH set_attribute_names [of "sl_root s" name v] by (auto simp: slots_ok_def set_attribute_ok)
qed (auto simp: slots_ok_def slots_language_def slots_html_attribute_def slots_body_attribute_def slots_head_def slots_before_root_def
    slots_after_root_def map_sum_Inr_iff set_attribute_ok lang_name dest!: checked_name)

text \<open>C36: the slots an application builds are well formed. Every attribute of its tags has a valid name, no
  name stands twice in a tag (names are compared as a browser does), and the attributes of the
  root element are not those of the framework.\<close>

theorem slots_well_formed:
  assumes "built_slots s"
  shows "list_all attribute_name (map fst (sl_html s @ sl_body s @ sl_root s)) \<and>
    distinct (map (\<lambda>a. to_ascii_lowercase (fst a)) (sl_html s)) \<and> distinct (map (\<lambda>a. to_ascii_lowercase (fst a)) (sl_body s)) \<and>
    distinct (map (\<lambda>a. to_ascii_lowercase (fst a)) (sl_root s)) \<and>
    (\<lambda>a. to_ascii_lowercase (fst a)) ` set (sl_root s) \<inter> {''id'', ''data-render-mode''} = {}"
  using built_slots_ok [OF assms] by (simp add: slots_ok_def attributes_ok_def image_image)

theorem slots_well_formed_witness:
  "distinct (map (\<lambda>a. to_ascii_lowercase (fst a)) (sl_html (slots_language ''de'' (slots_language ''fr'' document_slots_new))))"
  using slots_well_formed [OF built_language [OF built_language [OF built_new]], of "''de''" "''fr''"] by simp

section \<open>What a browser reads\<close>

definition opt_tokens :: "string option \<Rightarrow> (string \<Rightarrow> html_token list) \<Rightarrow> html_token list" where
  "opt_tokens v f = (case v of None \<Rightarrow> [] | Some v \<Rightarrow> f v)"

definition nonce_tokens :: "string option \<Rightarrow> html_attributes" where
  "nonce_tokens nonce = (case nonce of None \<Rightarrow> [] | Some nonce \<Rightarrow> [(''nonce'', nonce)])"

definition meta_tokens :: "string \<Rightarrow> string \<Rightarrow> string \<Rightarrow> html_token list" where
  "meta_tokens key name content = [StartTag ''meta'' [(key, name), (''content'', content), (''data-phoenix-head'', [])]]"

definition head_tokens :: "page_head \<Rightarrow> html_token list" where
  "head_tokens head =
     opt_tokens (hd_title head) (\<lambda>t. StartTag ''title'' [(''data-phoenix-head'', [])] # map TextChar t @ [EndTag ''title'']) @
     opt_tokens (hd_description head) (meta_tokens ''name'' ''description'') @
     opt_tokens (hd_canonical head) (\<lambda>c. [StartTag ''link'' [(''rel'', ''canonical''), (''href'', c), (''data-phoenix-head'', [])]]) @
     opt_tokens (hd_robots head) (meta_tokens ''name'' ''robots'') @
     (case hd_open_graph head of
        None \<Rightarrow> []
      | Some g \<Rightarrow>
          opt_tokens (og_title g) (meta_tokens ''property'' ''og:title'') @ opt_tokens (og_description g) (meta_tokens ''property'' ''og:description'') @
          opt_tokens (og_image g) (meta_tokens ''property'' ''og:image'') @ opt_tokens (og_kind g) (meta_tokens ''property'' ''og:type''))"

definition html_tag_attributes :: "'n page_envelope \<Rightarrow> document_slots \<Rightarrow> html_attributes" where
  "html_tag_attributes envelope slots =
     (if ''lang'' \<notin> set (map fst (read_attributes (sl_html slots))) \<and> pe_locale envelope \<noteq> [] then [(''lang'', pe_locale envelope)] else []) @
     read_attributes (sl_html slots)"

definition prefix_tokens :: "'n page_envelope \<Rightarrow> string list \<Rightarrow> string option \<Rightarrow> document_slots \<Rightarrow> html_token list \<Rightarrow> html_token list \<Rightarrow> html_token list" where
  "prefix_tokens envelope stylesheets nonce slots head_html before_html =
     [Doctype, StartTag ''html'' (html_tag_attributes envelope slots), StartTag ''head'' [], StartTag ''meta'' [(''charset'', ''utf-8'')],
      StartTag ''meta'' [(''name'', ''viewport''), (''content'', ''width=device-width,initial-scale=1'')]] @
     (if nonce = None then [] else [StartTag ''meta'' ((''property'', ''csp-nonce'') # nonce_tokens nonce)]) @
     head_tokens (pe_head envelope) @
     concat (map (\<lambda>source. [StartTag ''link'' ([(''rel'', ''stylesheet''), (''href'', source)] @ nonce_tokens nonce)]) stylesheets) @
     head_html @ [EndTag ''head'', StartTag ''body'' (read_attributes (sl_body slots))] @ before_html @
     [StartTag ''div'' ([(''id'', ''phoenix-root''), (''data-render-mode'', render_mode_str (pe_render_mode envelope))] @ read_attributes (sl_root slots))]"

definition suffix_tokens :: "string \<Rightarrow> string \<Rightarrow> string option \<Rightarrow> html_token list \<Rightarrow> html_token list" where
  "suffix_tokens payload script_src nonce after_html =
     [EndTag ''div''] @ after_html @
     [StartTag ''script'' ([(''id'', ''phoenix-page''), (''type'', ''application/json'')] @ nonce_tokens nonce)] @
     map TextChar payload @ [EndTag ''script'', StartTag ''script'' ([(''type'', ''module''), (''src'', script_src)] @ nonce_tokens nonce),
      EndTag ''script'', EndTag ''body'', EndTag ''html'']"

lemma plain_escape: "list_all (\<lambda>c. c \<notin> {CHR ''&'', CHR 0x22, CHR ''<'', CHR ''>''}) v \<Longrightarrow> html_attribute v = v"
  unfolding html_attribute_chars by (induction v) (auto simp: escape_attribute_char_def)

lemma reads_literal:
  assumes "attribute_name name" and "to_ascii_lowercase name = name" and "list_all (\<lambda>c. c \<notin> {CHR ''&'', CHR 0x22, CHR ''<'', CHR ''>''}) v"
  shows "reads_attributes ('' '' @ name @ ''='' @ in_quotes v) [(name, v)]"
  using reads_attribute [OF assms(1,2), of v] plain_escape [OF assms(3)] by (simp add: attr_quoted_def)

lemmas literal_chars = attribute_name_def attribute_rest_def is_ascii_alphabetic_def is_ascii_digit_def byte_in_def to_ascii_lowercase_def
  ascii_lower_def

lemma reads_nonce: "reads_attributes (nonce_attribute nonce) (nonce_tokens nonce)"
  using reads_attribute [of "''nonce''"] by (auto simp: nonce_attribute_def nonce_tokens_def literal_chars split: option.split)

lemma reads_opt: "(\<And>v. reads DataMode (f v) (g v) DataMode) \<Longrightarrow> reads DataMode (opt_text v f) (opt_tokens v g) DataMode"
  by (auto simp: opt_text_def opt_tokens_def split: option.split)

lemma data_mode [simp]: "mode_of ''meta'' = DataMode" "mode_of ''link'' = DataMode" "mode_of ''html'' = DataMode" "mode_of ''head'' = DataMode"
  "mode_of ''body'' = DataMode" "mode_of ''div'' = DataMode" "mode_of ''title'' = TitleMode" "mode_of ''script'' = ScriptMode"
  by (simp_all add: mode_of_def)

lemma known_tags [simp]: "tag_name ''meta''" "tag_name ''link''" "tag_name ''html''" "tag_name ''head''" "tag_name ''body''" "tag_name ''div''"
  "tag_name ''title''" "tag_name ''script''"
  by (simp_all add: tag_name_def)

lemma reads_meta:
  assumes "key \<in> {''name'', ''property''}"
  shows "reads DataMode (push_meta key name content) (meta_tokens key name content) DataMode"
proof -
  have "attribute_name key" "to_ascii_lowercase key = key" using assms by (auto simp: literal_chars)
  then have "reads_attributes (('' '' @ key @ ''='' @ attr_quoted name) @ ('' '' @ ''content'' @ ''='' @ attr_quoted content)) ([(key, name)] @ [(''content'', content)])"
    by (intro reads_attributes_append reads_attribute) (simp_all add: literal_chars)
  from reads_head_tag [of "''meta''", OF _ this] show ?thesis
    using assms by (auto simp: push_meta_def meta_tokens_def)
qed

lemma reads_link:
  assumes "reads_attributes a as" and "distinct (map fst as)" and "set (map fst as) \<inter> {''rel'', ''href''} = {}"
    and "list_all (\<lambda>c. c \<notin> {CHR ''&'', CHR 0x22, CHR ''<'', CHR ''>''}) rel"
  shows "reads DataMode (''<link rel='' @ in_quotes rel @ '' href='' @ attr_quoted href @ a @ ''>'') [StartTag ''link'' ([(''rel'', rel), (''href'', href)] @ as)] DataMode"
proof -
  have "reads_attributes (('' '' @ ''rel'' @ ''='' @ in_quotes rel) @ ('' '' @ ''href'' @ ''='' @ attr_quoted href) @ a) ([(''rel'', rel)] @ [(''href'', href)] @ as)"
    using assms(1,4) by (intro reads_attributes_append reads_attribute reads_literal) (simp_all add: literal_chars)
  from reads_tag [of "''link''", OF _ this] show ?thesis using assms(2,3) by simp
qed

lemma reads_canonical:
  "reads DataMode (''<link rel='' @ in_quotes ''canonical'' @ '' href='' @ attr_quoted c @ '' data-phoenix-head>'')
     [StartTag ''link'' [(''rel'', ''canonical''), (''href'', c), (''data-phoenix-head'', [])]] DataMode"
proof -
  have "reads_attributes (('' '' @ ''rel'' @ ''='' @ in_quotes ''canonical'') @ ('' '' @ ''href'' @ ''='' @ attr_quoted c)) ([(''rel'', ''canonical'')] @ [(''href'', c)])"
    by (intro reads_attributes_append reads_attribute reads_literal) (simp_all add: literal_chars)
  from reads_head_tag [of "''link''", OF _ this] show ?thesis by simp
qed

lemma reads_title:
  "reads DataMode (''<title data-phoenix-head>'' @ html_text t @ ''</title>'') (StartTag ''title'' [(''data-phoenix-head'', [])] # map TextChar t @ [EndTag ''title'']) DataMode"
proof -
  have "reads DataMode ''<title data-phoenix-head>'' [StartTag ''title'' [(''data-phoenix-head'', [])]] TitleMode"
    using reads_head_tag [of "''title''" "[]" "[]"] by simp
  from reads_append [OF this reads_append [OF reads_text reads_close_title]] show ?thesis by simp
qed

lemma reads_head: "reads DataMode (document_head head) (head_tokens head) DataMode"
proof -
  have meta: "reads DataMode (opt_text v (push_meta key name)) (opt_tokens v (meta_tokens key name)) DataMode" if "key \<in> {''name'', ''property''}" for v key name
    by (intro reads_opt reads_meta that)
  have graph: "reads DataMode
      (case g of None \<Rightarrow> [] | Some g \<Rightarrow> opt_text (og_title g) (push_meta ''property'' ''og:title'') @ opt_text (og_description g) (push_meta ''property'' ''og:description'') @
         opt_text (og_image g) (push_meta ''property'' ''og:image'') @ opt_text (og_kind g) (push_meta ''property'' ''og:type''))
      (case g of None \<Rightarrow> [] | Some g \<Rightarrow> opt_tokens (og_title g) (meta_tokens ''property'' ''og:title'') @ opt_tokens (og_description g) (meta_tokens ''property'' ''og:description'') @
         opt_tokens (og_image g) (meta_tokens ''property'' ''og:image'') @ opt_tokens (og_kind g) (meta_tokens ''property'' ''og:type'')) DataMode" for g
  proof (cases g)
    case (Some a)
    show ?thesis unfolding Some option.case by (rule reads_append [OF meta reads_append [OF meta reads_append [OF meta meta]]]) simp_all
  qed simp
  show ?thesis
    unfolding document_head_def head_tokens_def
    by (rule reads_append [OF reads_opt [OF reads_title] reads_append [OF meta reads_append [OF reads_opt [OF reads_canonical] reads_append [OF meta graph]]]]) simp_all
qed

lemma reads_html_attributes:
  assumes "attributes_ok (sl_html slots)"
  shows "reads_attributes (render_html_attributes envelope slots) (html_tag_attributes envelope slots)" "distinct (map fst (html_tag_attributes envelope slots))"
proof -
  have lang: "list_ex (\<lambda>(name, _). eq_ignore_ascii_case name ''lang'') (sl_html slots) \<longleftrightarrow> ''lang'' \<in> set (map fst (read_attributes (sl_html slots)))"
    by (force simp: list_ex_iff eq_ignore_ascii_case_def literal_chars image_iff)
  have "reads_attributes ('' '' @ ''lang'' @ ''='' @ attr_quoted (pe_locale envelope)) [(''lang'', pe_locale envelope)]"
    by (intro reads_attribute) (simp_all add: literal_chars)
  then show "reads_attributes (render_html_attributes envelope slots) (html_tag_attributes envelope slots)"
    unfolding render_html_attributes_def html_tag_attributes_def lang
    by (intro reads_attributes_append reads_rendered) (use assms in \<open>auto simp: attributes_ok_def\<close>)
  show "distinct (map fst (html_tag_attributes envelope slots))"
    using assms by (auto simp: html_tag_attributes_def attributes_ok_def)
qed

lemma distinct_nonce [simp]: "distinct (map fst (nonce_tokens nonce))" "set (map fst (nonce_tokens nonce)) \<subseteq> {''nonce''}"
  by (cases nonce; simp add: nonce_tokens_def)+

lemma reads_prefix:
  assumes "slots_ok slots" and "reads DataMode (sl_head slots) hs DataMode" and "reads DataMode (sl_before_root slots) bs DataMode"
  shows "reads DataMode (document_prefix envelope stylesheets nonce slots) (prefix_tokens envelope stylesheets nonce slots hs bs) DataMode"
proof -
  have tag: "reads DataMode (''<'' @ name @ a @ ''>'') [StartTag name as] DataMode"
    if "tag_name name" "mode_of name = DataMode" "reads_attributes a as" "distinct (map fst as)" for name a as
    using reads_tag [OF that(1,3)] that(2,4) by simp
  have html: "reads DataMode (''<'' @ ''html'' @ render_html_attributes envelope slots @ ''>'') [StartTag ''html'' (html_tag_attributes envelope slots)] DataMode"
    using reads_html_attributes assms(1) by (intro tag) (auto simp: slots_ok_def)
  have head: "reads DataMode (''<'' @ ''head'' @ [] @ ''>'') [StartTag ''head'' []] DataMode" by (rule tag) simp_all
  have charset: "reads DataMode (''<'' @ ''meta'' @ ('' '' @ ''charset'' @ ''='' @ in_quotes ''utf-8'') @ ''>'') [StartTag ''meta'' [(''charset'', ''utf-8'')]] DataMode"
    by (intro tag reads_literal) (simp_all add: literal_chars)
  have viewport: "reads DataMode (''<'' @ ''meta'' @ (('' '' @ ''name'' @ ''='' @ in_quotes ''viewport'') @ ('' '' @ ''content'' @ ''='' @ in_quotes ''width=device-width,initial-scale=1'')) @ ''>'')
      [StartTag ''meta'' ([(''name'', ''viewport'')] @ [(''content'', ''width=device-width,initial-scale=1'')])] DataMode"
    by (intro tag reads_attributes_append reads_literal) (simp_all add: literal_chars)
  have nonce: "reads DataMode (if nonce = None then [] else ''<'' @ ''meta'' @ (('' '' @ ''property'' @ ''='' @ in_quotes ''csp-nonce'') @ nonce_attribute nonce) @ ''>'')
      (if nonce = None then [] else [StartTag ''meta'' ([(''property'', ''csp-nonce'')] @ nonce_tokens nonce)]) DataMode"
    using tag [OF _ _ reads_attributes_append [OF reads_literal reads_nonce], of "''meta''" "''property''" "''csp-nonce''"] distinct_nonce(2) [of nonce]
    by (auto simp: literal_chars)
  have styles: "reads DataMode (concat (map (\<lambda>source. ''<link rel='' @ in_quotes ''stylesheet'' @ '' href='' @ attr_quoted source @ nonce_attribute nonce @ ''>'') stylesheets))
      (concat (map (\<lambda>source. [StartTag ''link'' ([(''rel'', ''stylesheet''), (''href'', source)] @ nonce_tokens nonce)]) stylesheets)) DataMode"
    using distinct_nonce(2) [of nonce] by (intro reads_concat reads_link reads_nonce) auto
  have close: "reads DataMode (''</'' @ ''head'' @ ''>'') [EndTag ''head''] DataMode" by (rule reads_close) simp
  have body: "reads DataMode (''<'' @ ''body'' @ render_attributes (sl_body slots) @ ''>'') [StartTag ''body'' (read_attributes (sl_body slots))] DataMode"
    using assms(1) by (intro tag reads_rendered) (auto simp: slots_ok_def attributes_ok_def)
  have root: "reads DataMode (''<'' @ ''div'' @ (('' '' @ ''id'' @ ''='' @ in_quotes ''phoenix-root'') @
        ('' '' @ ''data-render-mode'' @ ''='' @ in_quotes (render_mode_str (pe_render_mode envelope))) @ render_attributes (sl_root slots)) @ ''>'')
      [StartTag ''div'' ([(''id'', ''phoenix-root'')] @ [(''data-render-mode'', render_mode_str (pe_render_mode envelope))] @ read_attributes (sl_root slots))] DataMode"
    using assms(1)
    by (intro tag reads_attributes_append reads_literal reads_rendered)
      (cases "pe_render_mode envelope"; force simp: literal_chars slots_ok_def attributes_ok_def)+
  show ?thesis
    using reads_append [OF reads_doctype reads_append [OF html reads_append [OF head reads_append [OF charset reads_append [OF viewport
        reads_append [OF nonce reads_append [OF reads_head [of "pe_head envelope"] reads_append [OF styles reads_append [OF assms(2) reads_append [OF close
        reads_append [OF body reads_append [OF assms(3) root]]]]]]]]]]]]
    by (cases nonce) (simp_all add: document_prefix_def prefix_tokens_def Let_def)
qed

lemma reads_suffix:
  assumes "reads DataMode (sl_after_root slots) hs DataMode" and "json_for_html to_json envelope = Some payload" and "CHR ''<'' \<notin> set payload"
  shows "\<exists>text. document_suffix to_json envelope script_src nonce slots = Some text \<and> reads DataMode text (suffix_tokens payload script_src nonce hs) DataMode"
proof -
  have script: "reads DataMode (''<'' @ ''script'' @ a @ ''>'') [StartTag ''script'' as] ScriptMode"
    if "reads_attributes a as" "distinct (map fst as)" for a as
    using reads_tag [OF _ that(1), of "''script''"] that(2) by simp
  have data: "reads DataMode (''<'' @ ''script'' @ (('' '' @ ''id'' @ ''='' @ in_quotes ''phoenix-page'') @ ('' '' @ ''type'' @ ''='' @ in_quotes ''application/json'') @ nonce_attribute nonce) @ ''>'')
      [StartTag ''script'' ([(''id'', ''phoenix-page'')] @ [(''type'', ''application/json'')] @ nonce_tokens nonce)] ScriptMode"
    using distinct_nonce(2) [of nonce] by (intro script reads_attributes_append reads_literal reads_nonce) (auto simp: literal_chars)
  have entry: "reads DataMode (''<'' @ ''script'' @ (('' '' @ ''type'' @ ''='' @ in_quotes ''module'') @ ('' '' @ ''src'' @ ''='' @ attr_quoted script_src) @ nonce_attribute nonce) @ ''>'')
      [StartTag ''script'' ([(''type'', ''module'')] @ [(''src'', script_src)] @ nonce_tokens nonce)] ScriptMode"
    using distinct_nonce(2) [of nonce] by (intro script reads_attributes_append reads_literal reads_attribute reads_nonce) (auto simp: literal_chars)
  have close: "reads DataMode (''</'' @ name @ ''>'') [EndTag name] DataMode" if "tag_name name" for name by (rule reads_close [OF that])
  show ?thesis
    using reads_append [OF close [of "''div''"] reads_append [OF assms(1) reads_append [OF data reads_append [OF reads_script [OF assms(3)]
        reads_append [OF entry reads_append [OF reads_script [of "[]"] reads_append [OF close [of "''body''"] close [of "''html''"]]]]]]]]
    by (simp add: document_suffix_def suffix_tokens_def assms(2))
qed

lemma html_tokens_Nil: "html_tokens DataMode [] = Some []"
  by (simp add: html_tokens.simps)

section \<open>The whole document\<close>

lemma document_read:
  assumes "slots_ok slots" and "reads DataMode (sl_head slots) hs DataMode" and "reads DataMode (sl_before_root slots) bs DataMode"
    and "reads DataMode (sl_after_root slots) as DataMode" and "reads DataMode root_html rs DataMode"
    and "to_json envelope = Some json" and "json_read json = Some data"
  shows "\<exists>suffix payload. document_suffix to_json envelope script_src nonce slots = Some suffix \<and> json_read payload = Some data \<and>
    html_tokens DataMode (document_prefix envelope stylesheets nonce slots @ root_html @ suffix) =
      Some (prefix_tokens envelope stylesheets nonce slots hs bs @ rs @ suffix_tokens payload script_src nonce as)"
proof -
  obtain payload where payload: "json_for_html to_json envelope = Some payload" "json_read payload = Some data"
    using json_for_html_read [of to_json envelope, OF assms(6,7)] by blast
  then have "CHR ''<'' \<notin> set payload" using json_for_html_markup by fastforce
  then obtain suffix where suffix: "document_suffix to_json envelope script_src nonce slots = Some suffix"
      "reads DataMode suffix (suffix_tokens payload script_src nonce as) DataMode"
    using reads_suffix [OF assms(4) payload(1)] by blast
  have "reads DataMode (document_prefix envelope stylesheets nonce slots @ root_html @ suffix)
      (prefix_tokens envelope stylesheets nonce slots hs bs @ rs @ suffix_tokens payload script_src nonce as) DataMode"
    by (rule reads_append [OF reads_prefix [OF assms(1-3)] reads_append [OF assms(5) suffix(2)]])
  then have "html_tokens DataMode (document_prefix envelope stylesheets nonce slots @ root_html @ suffix) =
      Some (prefix_tokens envelope stylesheets nonce slots hs bs @ rs @ suffix_tokens payload script_src nonce as)"
    unfolding reads_def by (metis append_Nil2 html_tokens_Nil option.simps(9))
  then show ?thesis using suffix(1) payload(2) by blast
qed

lemma response_parts [simp]:
  "rp_body (nonce_headers n r) = rp_body r" "rp_body (insert_header name v r) = rp_body r" "rp_body (response_new status body) = Some (BufferedBody body)"
  "rp_headers (nonce_headers n r) ''vary'' = rp_headers r ''vary''" "rp_headers (insert_header name v r) = header_insert name v (rp_headers r)"
  by (simp_all add: nonce_headers_def without_validators_def insert_header_def header_insert_def header_remove_def response_new_def)

definition root_html :: "'n page \<Rightarrow> string" where
  "root_html p = (if pe_render_mode (wp_envelope p) = Spa then [] else (case wp_server_html p of None \<Rightarrow> [] | Some html \<Rightarrow> html))"

text \<open>C34: a browser reads from a document what the page says, and nothing else. Whatever the title,
  descriptions, URLs, locale, attribute values, nonce and data contain, the tags and texts of the
  document are those of the page with these values as they are, around the HTML the application
  trusts; and the data of the client decodes to the JSON it was made from.\<close>

theorem document_reads_as_page:
  assumes "wp_template p \<lparr>dc_envelope = wp_envelope p, dc_nonce = nonce\<rparr> = Inr slots" and "built_slots slots"
    and "reads DataMode (sl_head slots) hs DataMode" and "reads DataMode (sl_before_root slots) bs DataMode"
    and "reads DataMode (sl_after_root slots) as DataMode" and "reads DataMode (root_html p) rs DataMode"
    and "vl_envelope_json lib (wp_envelope p) = Some json" and "json_read json = Some data"
  shows "\<exists>r payload. page_document_response lib nonce p = Inr r \<and> json_read payload = Some data \<and>
    html_tokens DataMode (buffered_body r) =
      Some (prefix_tokens (wp_envelope p) (wp_stylesheets p) nonce slots hs bs @ rs @ suffix_tokens payload (wp_script_src p) nonce as)"
proof -
  obtain suffix payload where suffix: "document_suffix (vl_envelope_json lib) (wp_envelope p) (wp_script_src p) nonce slots = Some suffix"
      "json_read payload = Some data"
      "html_tokens DataMode (document_prefix (wp_envelope p) (wp_stylesheets p) nonce slots @ root_html p @ suffix) =
        Some (prefix_tokens (wp_envelope p) (wp_stylesheets p) nonce slots hs bs @ rs @ suffix_tokens payload (wp_script_src p) nonce as)"
    using document_read [OF built_slots_ok [OF assms(2)] assms(3-6), of "vl_envelope_json lib" "wp_envelope p" json data "wp_script_src p" nonce "wp_stylesheets p"]
      assms(7,8) by blast
  then show ?thesis
    using assms(1) by (auto simp: page_document_response_def document_response_def Let_def ok_or_def root_html_def buffered_body_def)
qed

definition demo_view_lib :: "nat view_lib" where
  "demo_view_lib = \<lparr>vl_envelope_json = (\<lambda>_. Some ''{}''), vl_payload_json = (\<lambda>_. None)\<rparr>"

definition demo_slots :: document_slots where
  "demo_slots = slots_language ''fr'' document_slots_new"

definition demo_page :: "nat page" where
  "demo_page = page_with_head (page_head_new ''</title><b>'') (page_document (template_new demo_slots) (page_new None ''home'' None))"

lemma demo_json: "json_read ''{}'' \<noteq> None"
  by code_simp

lemma demo_slots_simps [simp]: "built_slots demo_slots" "sl_head demo_slots = []" "sl_before_root demo_slots = []" "sl_after_root demo_slots = []"
proof -
  show "built_slots demo_slots" unfolding demo_slots_def by (rule built_language [OF built_new])
qed (simp_all add: demo_slots_def slots_language_def document_slots_new_def)

lemma demo_page_simps [simp]: "wp_template demo_page = template_new demo_slots" "wp_server_html demo_page = None"
    "pe_render_mode (wp_envelope demo_page) = Islands"
  by (simp_all add: demo_page_def page_with_head_def page_document_def page_new_def with_envelope_def)

theorem document_reads_as_page_witness:
  "\<exists>r payload. page_document_response demo_view_lib (Some ''n1'') demo_page = Inr r \<and> json_read payload = json_read ''{}'' \<and>
    html_tokens DataMode (buffered_body r) =
      Some (prefix_tokens (wp_envelope demo_page) (wp_stylesheets demo_page) (Some ''n1'') demo_slots [] [] @ [] @
        suffix_tokens payload (wp_script_src demo_page) (Some ''n1'') [])"
proof -
  obtain data where data: "json_read ''{}'' = Some data" using demo_json by blast
  show ?thesis
    using document_reads_as_page [of demo_page "Some ''n1''" demo_slots "[]" "[]" "[]" "[]" demo_view_lib "''{}''" data] data
    by (simp add: template_new_def root_html_def demo_view_lib_def)
qed

section \<open>Streaming\<close>

lemma receive_chunks:
  "receive_frames (map (\<lambda>c. Inr (RenderChunk c)) chunks @ Inr (RenderComplete head islands) # rest) = (chunks, Some islands)"
  by (induction chunks) simp_all

text \<open>A page streamed in chunks is the document rendered at once. When the renderer sends its HTML in
  pieces and completes, and the template does not look at the islands, the chunks put together are
  the body of the document with that HTML and those islands; but the streamed response names no
  \<open>Vary\<close>, which the other one does.\<close>

theorem streamed_page_is_document:
  fixes lib :: "'n view_lib" and request :: "('a, 'y) request" and p :: "'n page"
  assumes "\<not> is_page_request (rq_headers request)" and "pe_render_mode (wp_envelope p) \<noteq> Spa" and "rq_manifest request = None"
    and "wp_template p \<lparr>dc_envelope = wp_envelope p, dc_nonce = rq_nonce request\<rparr> = Inr slots"
    and "wp_template p \<lparr>dc_envelope = (wp_envelope p)\<lparr>pe_islands := islands\<rparr>, dc_nonce = rq_nonce request\<rparr> = Inr slots"
    and "\<forall>e c. render_stream e c = Inr (map (\<lambda>c. Inr (RenderChunk c)) chunks @ Inr (RenderComplete head islands) # rest)"
    and "\<forall>e c w. render e c w = (Inr \<lparr>rr_html = concat chunks, rr_head = head, rr_islands = islands\<rparr>, w)"
    and "vl_envelope_json lib ((wp_envelope p)\<lparr>pe_islands := islands\<rparr>) \<noteq> None"
  shows "\<exists>parts. rp_body (respond_streaming_with_renderer lib uri render_stream request p :: (string list, 'w) response) = Some (StreamBody parts) \<and>
    concat parts = buffered_body (fst (respond_with_renderer lib uri render request p w :: ('x, 'w) response \<times> 'w)) \<and>
    rp_headers (respond_streaming_with_renderer lib uri render_stream request p :: (string list, 'w) response) ''vary'' = [] \<and>
    rp_headers (fst (respond_with_renderer lib uri render request p w :: ('x, 'w) response \<times> 'w)) ''vary'' = [''x-phoenix-page, accept'']"
proof -
  let ?e = "(wp_envelope p)\<lparr>pe_islands := islands\<rparr>"
  obtain payload where payload: "json_for_html (vl_envelope_json lib) ?e = Some payload"
    using assms(8) by (auto simp: json_for_html_def)
  then obtain suffix where suffix: "document_suffix (vl_envelope_json lib) ?e (wp_script_src p) (rq_nonce request) slots = Some suffix"
    by (simp add: document_suffix_def)
  have prefix: "document_prefix ?e (wp_stylesheets p) (rq_nonce request) slots = document_prefix (wp_envelope p) (wp_stylesheets p) (rq_nonce request) slots"
    by (simp add: document_prefix_def render_html_attributes_def)
  have parts: "stream_chunks lib p (rq_nonce request) slots (map (\<lambda>c. Inr (RenderChunk c)) chunks @ Inr (RenderComplete head islands) # rest) =
      document_prefix (wp_envelope p) (wp_stylesheets p) (rq_nonce request) slots # chunks @ [suffix]"
    by (simp add: stream_chunks_def receive_chunks suffix)
  show ?thesis
    using assms suffix
    by (simp add: respond_streaming_with_renderer_def respond_with_renderer_def page_respond_to_def respond_with_context_def response_context_of_def
        with_routes_def page_rendered_def with_envelope_def page_document_response_def document_response_def Let_def ok_or_def parts prefix
        response_stream_def header_insert_def buffered_body_def)
qed

definition demo_get :: "(unit, unit) request" where
  "demo_get = \<lparr>rq_method = ''GET'', rq_path = ''/'', rq_path_and_query = None, rq_authority = None, rq_headers = (\<lambda>_. []), rq_params = [],
     rq_route_name = None, rq_application = None, rq_manifest = None, rq_request_id = None, rq_peer = None, rq_connection = None,
     rq_client_ip = None, rq_scheme = None, rq_nonce = None, rq_has_session = False, rq_rest = ()\<rparr>"

theorem streamed_page_is_document_witness:
  "\<exists>parts. rp_body (respond_streaming_with_renderer demo_view_lib (\<lambda>_. ''/'') (\<lambda>_ _. Inr (map (\<lambda>c. Inr (RenderChunk c)) [''<p>'', ''hi''] @ Inr (RenderComplete [] []) # []) :: unit + (unit + nat render_frame) list) demo_get
      demo_page :: (string list, unit) response) = Some (StreamBody parts) \<and>
    concat parts = buffered_body (fst (respond_with_renderer demo_view_lib (\<lambda>_. ''/'') (\<lambda>_ _ w. (Inr \<lparr>rr_html = ''<p>hi'', rr_head = [], rr_islands = []\<rparr> :: unit + nat render_result, w)) demo_get demo_page ()
      :: (unit, unit) response \<times> unit))"
proof -
  have "\<exists>parts. rp_body (respond_streaming_with_renderer demo_view_lib (\<lambda>_. ''/'') (\<lambda>_ _. Inr (map (\<lambda>c. Inr (RenderChunk c)) [''<p>'', ''hi''] @ Inr (RenderComplete [] []) # []) :: unit + (unit + nat render_frame) list) demo_get
        demo_page :: (string list, unit) response) = Some (StreamBody parts) \<and>
      concat parts = buffered_body (fst (respond_with_renderer demo_view_lib (\<lambda>_. ''/'') (\<lambda>_ _ w. (Inr \<lparr>rr_html = concat [''<p>'', ''hi''], rr_head = [], rr_islands = []\<rparr> :: unit + nat render_result, w)) demo_get demo_page ()
        :: (unit, unit) response \<times> unit)) \<and>
      rp_headers (respond_streaming_with_renderer demo_view_lib (\<lambda>_. ''/'') (\<lambda>_ _. Inr (map (\<lambda>c. Inr (RenderChunk c)) [''<p>'', ''hi''] @ Inr (RenderComplete [] []) # []) :: unit + (unit + nat render_frame) list) demo_get
        demo_page :: (string list, unit) response) ''vary'' = [] \<and>
      rp_headers (fst (respond_with_renderer demo_view_lib (\<lambda>_. ''/'') (\<lambda>_ _ w. (Inr \<lparr>rr_html = concat [''<p>'', ''hi''], rr_head = [], rr_islands = []\<rparr> :: unit + nat render_result, w)) demo_get demo_page ()
        :: (unit, unit) response \<times> unit)) ''vary'' = [''x-phoenix-page, accept'']"
    by (rule streamed_page_is_document [where islands = "[]" and slots = demo_slots and rest = "[]" and chunks = "[''<p>'', ''hi'']" and head = "[]"])
      (simp_all add: demo_get_def is_page_request_def header_get_def template_new_def demo_view_lib_def)
  then show ?thesis by auto
qed

section \<open>Encrypted payloads\<close>

text \<open>What a codec encrypts it decrypts. Within the lifetime of the payload the codec gets the page
  back, and no codec with another key id or another purpose in the payload does.\<close>

theorem encrypted_page_round_trip:
  assumes "aead_exact lib" and "\<forall>s. sl_unbase64 lib (sl_base64 lib s) = Some s" and "length nonce = 12"
    and "aes_encode lib nonce now c plaintext = Inr payload" and "page_unix_timestamp later_now = Inr t"
    and "ep_issued_at payload \<le> w_saturating_add t 60" and "t \<le> ep_expires_at payload"
  shows "aes_decode lib c later_now payload = Inr plaintext \<and>
    (\<forall>c'. ac_key_id c' \<noteq> ac_key_id c \<longrightarrow> aes_decode lib c' later_now payload = Inl InvalidEnvelope)"
proof -
  obtain issued where issued: "page_unix_timestamp now = Inr issued" using assms(4) by (auto simp: aes_encode_def res_bind_Inr_iff)
  let ?envelope = "\<lparr>ep_version = 1, ep_algorithm = ''A256GCM'', ep_key_id = ac_key_id c, ep_purpose = ENVELOPE_PURPOSE, ep_issued_at = issued,
               ep_expires_at = w_saturating_add issued (of_nat (ac_ttl c div nanos_per_sec)), ep_nonce = sl_base64 lib nonce,
               ep_ciphertext = [], ep_tag = []\<rparr>"
  obtain sealed where sealed: "sl_encrypt lib (ac_key c) nonce (envelope_aad ?envelope) plaintext = Some sealed" "\<not> length sealed < 16"
      "payload = ?envelope\<lparr>ep_ciphertext := sl_base64 lib (take (length sealed - 16) sealed), ep_tag := sl_base64 lib (drop (length sealed - 16) sealed)\<rparr>"
    using assms(4) issued by (auto simp: aes_encode_def Let_def ok_or_def split: option.splits if_splits)
  have aad: "envelope_aad payload = envelope_aad ?envelope" by (simp add: sealed(3) envelope_aad_def)
  have "sl_decrypt lib (ac_key c) nonce (envelope_aad payload) sealed = Some plaintext"
    using assms(1) sealed(1) unfolding aad by (simp add: aead_exact_def)
  then have "aes_decode lib c later_now payload = Inr plaintext"
    using assms(2,3,5-7) by (simp add: aes_decode_def sealed(3) ok_or_def not_less)
  then show ?thesis by (simp add: aes_decode_def sealed(3))
qed

definition demo_codec :: aes_codec where
  "demo_codec = aes_codec_new ''id'' ''key''"

theorem encrypted_page_round_trip_witness:
  "\<exists>payload. aes_encode demo_lib (replicate 12 (CHR ''n'')) (int (duration_from_secs 100)) demo_codec ''{}'' = Inr payload \<and>
    aes_decode demo_lib demo_codec (int (duration_from_secs 130)) payload = Inr ''{}''"
proof -
  have now: "page_unix_timestamp (int (duration_from_secs n)) = Inr (of_nat n)" for n
    by (simp add: page_unix_timestamp_def secure_now_of_secs)
  have ttl: "ac_ttl demo_codec div nanos_per_sec = 60"
    by (simp add: demo_codec_def aes_codec_new_def duration_from_secs_def nanos_per_sec_def)
  have add: "w_saturating_add (100 :: u64) 60 = 160" "w_saturating_add (130 :: u64) 60 = 190"
    by (simp_all add: word_unat_eq_iff unat_saturating_add)
  have lib: "sl_base64 demo_lib = id" "sl_unbase64 demo_lib = Some" "sl_encrypt demo_lib = (\<lambda>k n a m. Some (m @ demo_tag))"
    by (simp_all add: demo_lib_def)
  obtain payload where payload: "aes_encode demo_lib (replicate 12 (CHR ''n'')) (int (duration_from_secs 100)) demo_codec ''{}'' = Inr payload"
      "ep_issued_at payload = 100" "ep_expires_at payload = 160"
    by (simp add: aes_encode_def now ttl lib ok_or_def Let_def demo_tag_def TAG_LEN_def add)
  then have "aes_decode demo_lib demo_codec (int (duration_from_secs 130)) payload = Inr ''{}''"
    using encrypted_page_round_trip [OF demo_lib_exact _ _ payload(1) now [of 130]] by (simp add: lib add)
  then show ?thesis using payload(1) by blast
qed

end
