(* ===== verification/Pay_Gateway.thy ===== *)
theory Pay_Gateway
  imports Pay_Manager Pay_Reconcile Http_Core Sched_Civil
begin

text \<open>
  What the two payment gateways share (\<open>phoenix-pay\<close>: \<open>crypto.rs\<close>, \<open>transport.rs\<close>, \<open>config.rs\<close>, \<open>error.rs\<close>): keys,
  signatures, encodings, the address of a request and the texts of errors. The packages are the
  record \<open>gateway_lib\<close>: base64, PEM and X.509, RSA, AES-GCM, JSON and form encoding. The world a call
  runs in, with the network, the clock, files and random numbers, is the record \<open>gateway_io\<close>.
\<close>

section \<open>Packages and the world\<close>

datatype pem_item = Pkcs8Key string | Pkcs1Key string | PublicKeyInfo string | X509Certificate string | OtherItem

datatype gateway_json = GString string | GNumber u64 | GObject "(string \<times> gateway_json) list"

record encrypted_resource =
  er_algorithm :: string
  er_ciphertext :: string
  er_nonce :: string
  er_associated_data :: string

record notify_envelope =
  nb_resource :: encrypted_resource
  nb_event_type :: string

record transaction_resource =
  tr_out_trade_no :: string
  tr_transaction_id :: "string option"
  tr_trade_state :: string

record refund_notify_resource =
  rnr_out_trade_no :: string
  rnr_out_refund_no :: string
  rnr_refund_id :: "string option"
  rnr_refund_status :: string
  rnr_amount :: u64

record refund_resource =
  rfr_out_trade_no :: string
  rfr_out_refund_no :: string
  rfr_refund_id :: "string option"
  rfr_status :: string
  rfr_amount :: u64

record certificate_entry =
  ce_serial_no :: string
  ce_encrypt_certificate :: encrypted_resource

record bill_ticket =
  bt_hash_type :: string
  bt_hash_value :: string
  bt_download_url :: string

record alipay_payload =
  ap_code :: string
  ap_msg :: string
  ap_sub_code :: string
  ap_sub_msg :: string
  ap_qr_code :: "string option"
  ap_trade_status :: "string option"
  ap_refund_fee :: "string option"
  ap_refund_amount :: "string option"
  ap_refund_status :: "string option"
  ap_trade_no :: "string option"
  ap_out_request_no :: "string option"
  ap_bill_download_url :: "string option"

text \<open>The readers return the error of the JSON package as its text.\<close>

record 'k gateway_lib =
  gl_b64_encode :: "string \<Rightarrow> string"
  gl_b64_decode :: "string \<Rightarrow> string + string"
  gl_pem_items :: "string \<Rightarrow> pem_item option list"
  gl_pkcs8 :: "string \<Rightarrow> string + 'k"
  gl_pkcs1 :: "string \<Rightarrow> string + 'k"
  gl_sign :: "'k \<Rightarrow> string \<Rightarrow> string option"
  gl_spki :: "string \<Rightarrow> string + string"
  gl_x509 :: "string \<Rightarrow> string + string \<times> string"
  gl_verify :: "string \<Rightarrow> string \<Rightarrow> string \<Rightarrow> bool"
  gl_aes_decrypt :: "string \<Rightarrow> string \<Rightarrow> string \<Rightarrow> string \<Rightarrow> string option"
  gl_sha1 :: "string \<Rightarrow> string"
  gl_header_text :: "string \<Rightarrow> string option"
  gl_status_text :: "u16 \<Rightarrow> string"
  gl_json_text :: "gateway_json \<Rightarrow> string"
  gl_read_code_url :: "string \<Rightarrow> string + string"
  gl_read_notify :: "string \<Rightarrow> string + notify_envelope"
  gl_read_transaction :: "string \<Rightarrow> string + transaction_resource"
  gl_read_refund_notify :: "string \<Rightarrow> string + refund_notify_resource"
  gl_read_refund :: "string \<Rightarrow> string + refund_resource"
  gl_read_certificates :: "string \<Rightarrow> string + certificate_entry list"
  gl_read_ticket :: "string \<Rightarrow> string + bill_ticket"
  gl_read_error :: "string \<Rightarrow> string + string \<times> string"
  gl_read_sign :: "string \<Rightarrow> string + string option"
  gl_read_payload :: "string \<Rightarrow> string + alipay_payload"
  gl_form_text :: "(string, string) btree \<Rightarrow> string + string"
  gl_read_form :: "string \<Rightarrow> string + (string, string) btree"

record gateway_request =
  gq_method :: string
  gq_url :: string
  gq_headers :: "(string \<times> string) list"
  gq_body :: string

record gateway_response =
  gp_status :: u16
  gp_headers :: "(string \<times> string) list"
  gp_body :: string

record 'w gateway_io =
  io_http :: "gateway_request \<Rightarrow> ('w, pay_error, gateway_response) op"
  io_now :: "'w \<Rightarrow> systime \<times> 'w"
  io_random :: "'w \<Rightarrow> string option \<times> 'w"
  io_read_file :: "string \<Rightarrow> 'w \<Rightarrow> (string + string) \<times> 'w"

text \<open>\<open>HeaderMap::get\<close>: the first value of a name, in a list of headers with names in lower case.\<close>

definition header_value :: "'k gateway_lib \<Rightarrow> string \<Rightarrow> (string \<times> string) list \<Rightarrow> string option" where
  "header_value lib name headers = Option.bind (map_of headers (to_ascii_lowercase name)) (gl_header_text lib)"

section \<open>Texts of errors\<close>

fun pay_error_display :: "pay_error \<Rightarrow> string" where
  "pay_error_display (UnknownProvider p) = ''unknown payment provider `'' @ p @ ''`''"
| "pay_error_display (InvalidOrder m) = ''invalid payment order: '' @ m"
| "pay_error_display (DuplicateOrder p t) = ''duplicate payment order `'' @ t @ ''` for provider `'' @ p @ ''`''"
| "pay_error_display (OrderNotFound p t) = ''payment order `'' @ t @ ''` not found for provider `'' @ p @ ''`''"
| "pay_error_display (InvalidTransition f t) = ''invalid payment status transition '' @ status_as_str f @ '' -> '' @ status_as_str t"
| "pay_error_display (InvalidRefund m) = ''invalid refund: '' @ m"
| "pay_error_display (DuplicateRefund p r) = ''duplicate refund `'' @ r @ ''` for provider `'' @ p @ ''`''"
| "pay_error_display (RefundNotFound p r) = ''refund `'' @ r @ ''` not found for provider `'' @ p @ ''`''"
| "pay_error_display (InvalidRefundTransition f t) =
     ''invalid refund status transition '' @ refund_status_as_str f @ '' -> '' @ refund_status_as_str t"
| "pay_error_display (RefundExceedsOrder t a b) =
     ''refund of '' @ amount_display a @ '' exceeds the refundable '' @ amount_display b @ '' left on order `'' @ t @ ''`''"
| "pay_error_display (Reconcile m) = ''reconciliation failed: '' @ m"
| "pay_error_display (CurrencyMismatch l r) = ''currency mismatch: '' @ l @ '' vs '' @ r"
| "pay_error_display AmountOverflow = ''payment amount overflow''"
| "pay_error_display (InvalidNotify m) = ''invalid payment notification: '' @ m"
| "pay_error_display (PayConfig m) = ''payment gateway config error: '' @ m"
| "pay_error_display (Gateway m) = ''payment gateway error: '' @ m"
| "pay_error_display (PayStore m) = ''payment store error: '' @ m"
| "pay_error_display (NotImplemented m) = ''not implemented: '' @ m"
| "pay_error_display (PayPanic m) = m"

definition map_error :: "('e \<Rightarrow> 'f) \<Rightarrow> 'e + 'a \<Rightarrow> 'f + 'a" where
  "map_error f = map_sum f id"

lemma map_error_Inr [simp]: "map_error f r = Inr x \<longleftrightarrow> r = Inr x"
  by (cases r) (simp_all add: map_error_def)

lemma map_error_simps [simp]: "map_error f (Inl e) = Inl (f e)" "map_error f (Inr x) = Inr x"
  by (simp_all add: map_error_def)

lemma op_bind_lift [simp]: "op_bind (op_lift (Inr x)) f = f x"
  by (simp add: op_bind_def)

lemma op_bind_Inr: "op_bind m f s = (Inr y, s') \<longleftrightarrow> (\<exists>x t. m s = (Inr x, t) \<and> f x t = (Inr y, s'))"
  by (auto simp: op_bind_apply split: prod.splits sum.splits)

section \<open>Encodings\<close>

definition b64_decode :: "'k gateway_lib \<Rightarrow> string \<Rightarrow> string + string" where
  "b64_decode lib text = map_error (\<lambda>e. ''invalid base64: '' @ e) (gl_b64_decode lib (str_trim text))"

definition hex_digit_upper :: "nat \<Rightarrow> char" where
  "hex_digit_upper n = char_of (if n < 10 then 48 + n else 55 + n)"

definition hex_upper :: "string \<Rightarrow> string" where
  "hex_upper s = concat (map (\<lambda>c. [hex_digit_upper (of_char c div 16), hex_digit_upper (of_char c mod 16)]) s)"

definition hex_lower :: "string \<Rightarrow> string" where
  "hex_lower s = to_ascii_lowercase (hex_upper s)"

definition ascii_upper :: "char \<Rightarrow> char" where
  "ascii_upper c = (if byte_in 97 122 c then char_of ((of_char c :: nat) - 32) else c)"

definition to_ascii_uppercase :: "string \<Rightarrow> string" where
  "to_ascii_uppercase s = map ascii_upper s"

definition pay_unix_timestamp :: "'w gateway_io \<Rightarrow> ('w, pay_error, u64) op" where
  "pay_unix_timestamp io w =
     (case io_now io w of (now, w) \<Rightarrow>
        (Inr (case duration_since now unix_epoch of Inr d \<Rightarrow> of_nat (d div nanos_per_sec) | Inl _ \<Rightarrow> 0), w))"

definition random_nonce :: "'w gateway_io \<Rightarrow> ('w, pay_error, string) op" where
  "random_nonce io w =
     (case io_random io w of (bs, w) \<Rightarrow>
        (map_sum id hex_upper (ok_or (PayConfig ''system RNG failure while generating a nonce'') bs), w))"

definition pad_zeros :: "nat \<Rightarrow> string \<Rightarrow> string" where
  "pad_zeros n s = replicate (n - length s) (CHR ''0'') @ s"

definition gmt8_datetime :: "u64 \<Rightarrow> string" where
  "gmt8_datetime unix_seconds =
     (let local = unix_seconds + 8 * 3600;
          days = local div 86400;
          secs = local mod 86400;
          z = days + 719468;
          era = z div 146097;
          doe = z mod 146097;
          yoe = (doe - doe div 1460 + doe div 36524 - doe div 146096) div 365;
          doy = doe - (365 * yoe + yoe div 4 - yoe div 100);
          mp = (5 * doy + 2) div 153;
          day = doy - (153 * mp + 2) div 5 + 1;
          month = (if mp < 10 then mp + 3 else mp - 9);
          year = yoe + era * 400 + (if month \<le> 2 then 1 else 0);
          two = (\<lambda>n. pad_zeros 2 (nat_to_string (unat n)))
      in pad_zeros 4 (nat_to_string (unat year)) @ ''-'' @ two month @ ''-'' @ two day @ '' '' @
         two (secs div 3600) @ '':'' @ two ((secs mod 3600) div 60) @ '':'' @ two (secs mod 60))"

section \<open>Keys\<close>

definition join_words :: "string \<Rightarrow> string" where
  "join_words s = concat (split_whitespace s)"

text \<open>\<open>RsaSigner::from_pem\<close>: the first private key of the document, or the text itself as base64.\<close>

fun first_private_key :: "'k gateway_lib \<Rightarrow> pem_item option list \<Rightarrow> (string + 'k) option" where
  "first_private_key lib [] = None"
| "first_private_key lib (Some (Pkcs8Key der) # items) = Some (gl_pkcs8 lib der)"
| "first_private_key lib (Some (Pkcs1Key der) # items) = Some (gl_pkcs1 lib der)"
| "first_private_key lib (item # items) = first_private_key lib items"

definition signer_from_pem :: "'k gateway_lib \<Rightarrow> string \<Rightarrow> pay_error + 'k" where
  "signer_from_pem lib pem =
     (case first_private_key lib (gl_pem_items lib pem) of
        Some key \<Rightarrow> map_error (\<lambda>e. PayConfig (''unusable RSA private key: '' @ e)) key
      | None \<Rightarrow>
          res_bind (map_error (\<lambda>_. PayConfig ''private key is neither PEM nor base64 DER'') (b64_decode lib (join_words pem))) (\<lambda>der.
            (case gl_pkcs8 lib der of
               Inr key \<Rightarrow> Inr key
             | Inl _ \<Rightarrow> map_error (\<lambda>e. PayConfig (''unusable RSA private key: '' @ e)) (gl_pkcs1 lib der))))"

definition sign_base64 :: "'k gateway_lib \<Rightarrow> 'k \<Rightarrow> string \<Rightarrow> pay_error + string" where
  "sign_base64 lib key message =
     map_sum id (gl_b64_encode lib) (ok_or (PayConfig ''RSA signing failed'') (gl_sign lib key message))"

definition verifier_from_spki :: "'k gateway_lib \<Rightarrow> string \<Rightarrow> pay_error + string" where
  "verifier_from_spki lib der = map_error (\<lambda>e. PayConfig (''invalid SubjectPublicKeyInfo: '' @ e)) (gl_spki lib der)"

fun first_public_key :: "pem_item option list \<Rightarrow> string option" where
  "first_public_key [] = None"
| "first_public_key (Some (PublicKeyInfo der) # items) = Some der"
| "first_public_key (item # items) = first_public_key items"

definition verifier_from_public_key_pem :: "'k gateway_lib \<Rightarrow> string \<Rightarrow> pay_error + string" where
  "verifier_from_public_key_pem lib pem =
     (case first_public_key (gl_pem_items lib pem) of
        Some der \<Rightarrow> verifier_from_spki lib der
      | None \<Rightarrow>
          res_bind (map_error (\<lambda>_. PayConfig ''public key is neither PEM nor base64 DER'') (b64_decode lib (join_words pem)))
            (verifier_from_spki lib))"

definition verifier_from_x509_der :: "'k gateway_lib \<Rightarrow> string \<Rightarrow> pay_error + string \<times> string" where
  "verifier_from_x509_der lib der =
     map_sum (\<lambda>e. PayConfig (''invalid X.509 certificate: '' @ e)) (\<lambda>(key, serial). (key, hex_upper serial)) (gl_x509 lib der)"

fun first_certificate :: "pem_item option list \<Rightarrow> string option" where
  "first_certificate [] = None"
| "first_certificate (Some (X509Certificate der) # items) = Some der"
| "first_certificate (item # items) = first_certificate items"

definition verifier_from_x509_pem :: "'k gateway_lib \<Rightarrow> string \<Rightarrow> pay_error + string \<times> string" where
  "verifier_from_x509_pem lib pem =
     res_bind (ok_or (PayConfig ''no CERTIFICATE block found in platform certificate PEM'') (first_certificate (gl_pem_items lib pem)))
       (verifier_from_x509_der lib)"

definition aes256_gcm_decrypt :: "'k gateway_lib \<Rightarrow> string \<Rightarrow> string \<Rightarrow> string \<Rightarrow> string \<Rightarrow> string + string" where
  "aes256_gcm_decrypt lib key nonce associated_data ciphertext =
     (if length key \<noteq> 32 then Inl (''APIv3 key must be 32 bytes, got '' @ nat_to_string (length key))
      else if length nonce \<noteq> 12 then Inl (''AES-GCM nonce must be 12 bytes, got '' @ nat_to_string (length nonce))
      else ok_or ''AES-256-GCM authentication failed (wrong key, nonce, or tampered data)''
             (gl_aes_decrypt lib key nonce associated_data ciphertext))"

section \<open>Addresses\<close>

record url_parts =
  up_tls :: bool
  up_host :: string
  up_port :: u16
  up_authority :: string
  up_path_and_query :: string

definition strip_prefix :: "string \<Rightarrow> string \<Rightarrow> string option" where
  "strip_prefix p s = (if take (length p) s = p then Some (drop (length p) s) else None)"

definition split_path :: "string \<Rightarrow> string \<times> string" where
  "split_path rest =
     (let authority = takeWhile (\<lambda>c. c \<noteq> CHR ''/'') rest; path = dropWhile (\<lambda>c. c \<noteq> CHR ''/'') rest
      in (authority, if path = [] then ''/'' else path))"

text \<open>\<open>rsplit_once\<close> with one character: around its last occurrence.\<close>

definition rsplit_once :: "char \<Rightarrow> string \<Rightarrow> (string \<times> string) option" where
  "rsplit_once c s = map_option (\<lambda>(a, b). (rev b, rev a)) (split_once c (rev s))"

definition url_parts_parse :: "string \<Rightarrow> pay_error + url_parts" where
  "url_parts_parse url =
     res_bind
       (case strip_prefix ''https://'' url of
          Some rest \<Rightarrow> Inr (True, rest)
        | None \<Rightarrow>
            (case strip_prefix ''http://'' url of
               Some rest \<Rightarrow> Inr (False, rest)
             | None \<Rightarrow> Inl (Gateway (''unsupported gateway URL `'' @ url @ ''`''))))
       (\<lambda>(tls, rest).
         (let (authority, path_and_query) = split_path rest
          in res_bind
               (case rsplit_once (CHR '':'') authority of
                  Some (host, port) \<Rightarrow>
                    map_sum id (Pair host) (ok_or (Gateway (''invalid port in `'' @ url @ ''`'')) (parse_unsigned port))
                | None \<Rightarrow> Inr (authority, if tls then 443 else 80))
               (\<lambda>(host, port).
                 if host = [] then Inl (Gateway (''missing host in `'' @ url @ ''`''))
                 else Inr \<lparr>up_tls = tls, up_host = host, up_port = port, up_authority = authority,
                           up_path_and_query = path_and_query\<rparr>)))"

definition path_and_query :: "string \<Rightarrow> pay_error + string" where
  "path_and_query url = map_sum id up_path_and_query (url_parts_parse url)"

section \<open>Configuration\<close>

record wechat_config =
  wc_app_id :: string
  wc_mch_id :: string
  wc_mch_serial_no :: string
  wc_api_v3_key :: string
  wc_private_key_path :: string
  wc_platform_cert_path :: "string option"
  wc_notify_url :: string
  wc_refund_notify_url :: "string option"

record alipay_config =
  al_app_id :: string
  al_gateway_url :: string
  al_app_private_key :: string
  al_alipay_public_key :: string
  al_sign_type :: string
  al_notify_url :: string

definition default_alipay_gateway :: string where
  "default_alipay_gateway = ''https://openapi.alipay.com/gateway.do''"

definition default_sign_type :: string where
  "default_sign_type = ''RSA2''"

end
