(* ===== verification/Pay_Wechat.thy ===== *)
theory Pay_Wechat
  imports Pay_Gateway
begin

text \<open>
  The WeChat Pay provider (\<open>phoenix-pay\<close>: \<open>wechat.rs\<close> and the first half of \<open>gateway.rs\<close>): signed requests,
  the platform certificates and their cache, the verification of responses and notifications, and
  every method of the provider. A method runs on the cells of the provider and the world; the lock
  of the cache is held for single reads and writes of a cell.
\<close>

section \<open>Protocol\<close>

definition CERT_TTL_SECONDS :: u64 where
  "CERT_TTL_SECONDS = 12 * 60 * 60"

definition TIMESTAMP_SKEW_SECONDS :: u64 where
  "TIMESTAMP_SKEW_SECONDS = 300"

definition wechat_DEFAULT_BASE_URL :: string where
  "wechat_DEFAULT_BASE_URL = ''https://api.mch.weixin.qq.com''"

definition wechat_KEY :: string where
  "wechat_KEY = ''wechat_native''"

definition LINE :: string where
  "LINE = [CHR 0x0A]"

definition request_message :: "string \<Rightarrow> string \<Rightarrow> u64 \<Rightarrow> string \<Rightarrow> string \<Rightarrow> string" where
  "request_message http_method path_query timestamp nonce body =
     http_method @ LINE @ path_query @ LINE @ nat_to_string (unat timestamp) @ LINE @ nonce @ LINE @ body @ LINE"

definition response_message :: "string \<Rightarrow> string \<Rightarrow> string \<Rightarrow> string" where
  "response_message timestamp nonce body = timestamp @ LINE @ nonce @ LINE @ body @ LINE"

definition double_quoted :: "string \<Rightarrow> string" where
  "double_quoted s = [CHR 0x22] @ s @ [CHR 0x22]"

definition authorization_header :: "string \<Rightarrow> string \<Rightarrow> string \<Rightarrow> u64 \<Rightarrow> string \<Rightarrow> string" where
  "authorization_header mch_id serial_no nonce timestamp signature =
     ''WECHATPAY2-SHA256-RSA2048 mchid='' @ double_quoted mch_id @ '',nonce_str='' @ double_quoted nonce @
     '',signature='' @ double_quoted signature @ '',timestamp='' @ double_quoted (nat_to_string (unat timestamp)) @
     '',serial_no='' @ double_quoted serial_no"

definition map_trade_state :: "string \<Rightarrow> pay_error + payment_status" where
  "map_trade_state s =
     (if s = ''SUCCESS'' then Inr Paid
      else if s \<in> {''NOTPAY'', ''USERPAYING'', ''ACCEPT''} then Inr Pending
      else if s \<in> {''CLOSED'', ''REVOKED''} then Inr Closed
      else if s = ''PAYERROR'' then Inr Failed
      else if s = ''REFUND'' then Inr Refunding
      else Inl (InvalidNotify (''unknown WeChat trade_state `'' @ s @ ''`'')))"

definition map_refund_status :: "string \<Rightarrow> pay_error + refund_status" where
  "map_refund_status s =
     (if s = ''SUCCESS'' then Inr Succeeded
      else if s = ''PROCESSING'' then Inr Processing
      else if s \<in> {''CLOSED'', ''ABNORMAL''} then Inr RefundFailed
      else Inl (Gateway (''unknown WeChat refund status `'' @ s @ ''`'')))"

definition map_refund_notify_status :: "string \<Rightarrow> pay_error + refund_status" where
  "map_refund_notify_status s =
     (if s = ''SUCCESS'' then Inr Succeeded
      else if s = ''PROCESSING'' then Inr Processing
      else if s \<in> {''CLOSED'', ''ABNORMAL''} then Inr RefundFailed
      else Inl (InvalidNotify (''unknown WeChat refund_status `'' @ s @ ''`'')))"

record signature_headers =
  sh_timestamp :: string
  sh_nonce :: string
  sh_signature :: string
  sh_serial :: string

definition signature_header :: "'k gateway_lib \<Rightarrow> (string \<times> string) list \<Rightarrow> string \<Rightarrow> pay_error + string" where
  "signature_header lib headers name =
     ok_or (InvalidNotify (''missing or non-ASCII `'' @ name @ ''` header'')) (header_value lib name headers)"

definition signature_headers_from :: "'k gateway_lib \<Rightarrow> (string \<times> string) list \<Rightarrow> pay_error + signature_headers" where
  "signature_headers_from lib headers =
     res_bind (signature_header lib headers ''Wechatpay-Signature'') (\<lambda>text.
     res_bind (map_error (\<lambda>e. InvalidNotify (''Wechatpay-Signature: '' @ e)) (b64_decode lib text)) (\<lambda>signature.
     res_bind (signature_header lib headers ''Wechatpay-Timestamp'') (\<lambda>timestamp.
     res_bind (signature_header lib headers ''Wechatpay-Nonce'') (\<lambda>nonce.
     res_bind (signature_header lib headers ''Wechatpay-Serial'') (\<lambda>serial.
       Inr \<lparr>sh_timestamp = timestamp, sh_nonce = nonce, sh_signature = signature, sh_serial = serial\<rparr>)))))"

definition abs_diff :: "u64 \<Rightarrow> u64 \<Rightarrow> u64" where
  "abs_diff a b = (if a < b then b - a else a - b)"

text \<open>The sign of the window is the character plus-minus in UTF-8.\<close>

definition check_freshness :: "signature_headers \<Rightarrow> u64 \<Rightarrow> pay_error + unit" where
  "check_freshness h now =
     res_bind (ok_or (InvalidNotify (''non-numeric Wechatpay-Timestamp `'' @ sh_timestamp h @ ''`'')) (parse_unsigned (sh_timestamp h))) (\<lambda>timestamp.
     if abs_diff now timestamp > TIMESTAMP_SKEW_SECONDS
     then Inl (InvalidNotify (''Wechatpay-Timestamp '' @ nat_to_string (unat timestamp) @ '' outside the '' @ bytes [0xC2, 0xB1] @ ''300s window''))
     else Inr ())"

record platform_certs =
  pcs_verifiers :: "string \<rightharpoonup> string"
  pcs_fetched_at :: u64
  pcs_from_file :: bool

definition platform_certs_get :: "platform_certs \<Rightarrow> string \<Rightarrow> string option" where
  "platform_certs_get certs serial = pcs_verifiers certs (to_ascii_uppercase serial)"

definition platform_certs_fresh :: "platform_certs \<Rightarrow> u64 \<Rightarrow> bool" where
  "platform_certs_fresh certs now \<longleftrightarrow> pcs_from_file certs \<or> w_saturating_sub now (pcs_fetched_at certs) \<le> CERT_TTL_SECONDS"

definition resource_decrypt :: "'k gateway_lib \<Rightarrow> string \<Rightarrow> encrypted_resource \<Rightarrow> string + string" where
  "resource_decrypt lib api_v3_key r =
     (if er_algorithm r \<noteq> [] \<and> er_algorithm r \<noteq> ''AEAD_AES_256_GCM''
      then Inl (''unsupported resource algorithm `'' @ er_algorithm r @ ''`'')
      else res_bind (b64_decode lib (er_ciphertext r))
             (aes256_gcm_decrypt lib api_v3_key (er_nonce r) (er_associated_data r)))"

section \<open>The provider\<close>

record 'k wechat_cells =
  wx_signer :: "(pay_error + 'k) option"
  wx_certs :: "platform_certs option"

record ('k, 'w) wechat_inner =
  wi_config :: wechat_config
  wi_lib :: "'k gateway_lib"
  wi_io :: "'w gateway_io"
  wi_base_url :: string
  wi_user_agent :: string

type_synonym ('k, 'w, 'a) wechat_op = "('k wechat_cells \<times> 'w, pay_error, 'a) op"

definition wechat_cells_new :: "'k wechat_cells" where
  "wechat_cells_new = \<lparr>wx_signer = None, wx_certs = None\<rparr>"

definition wechat_with_transport :: "wechat_config \<Rightarrow> 'k gateway_lib \<Rightarrow> 'w gateway_io \<Rightarrow> string \<Rightarrow> string \<Rightarrow> ('k, 'w) wechat_inner" where
  "wechat_with_transport config lib io agent base_url =
     \<lparr>wi_config = config, wi_lib = lib, wi_io = io, wi_base_url = rev (dropWhile (\<lambda>c. c = CHR ''/'') (rev base_url)), wi_user_agent = agent\<rparr>"

definition wechat_signer :: "('k, 'w) wechat_inner \<Rightarrow> ('k, 'w, 'k) wechat_op" where
  "wechat_signer p = (\<lambda>(c, w).
     (case wx_signer c of
        Some r \<Rightarrow> (r, (c, w))
      | None \<Rightarrow>
          (case io_read_file (wi_io p) (wc_private_key_path (wi_config p)) w of (text, w) \<Rightarrow>
             let r = res_bind (map_error (\<lambda>e. PayConfig (''read WeChat merchant private key '' @ wc_private_key_path (wi_config p) @ '': '' @ e)) text)
                       (signer_from_pem (wi_lib p))
             in (r, (c\<lparr>wx_signer := Some r\<rparr>, w)))))"

definition api_v3_key :: "('k, 'w) wechat_inner \<Rightarrow> pay_error + string" where
  "api_v3_key p =
     (let key = wc_api_v3_key (wi_config p)
      in if length key = 32 then Inr key
         else Inl (PayConfig (''WeChat APIv3 key must be 32 bytes, got '' @ nat_to_string (length key))))"

definition wechat_authorization :: "('k, 'w) wechat_inner \<Rightarrow> string \<Rightarrow> string \<Rightarrow> string \<Rightarrow> 'k \<Rightarrow> ('k, 'w, string) wechat_op" where
  "wechat_authorization p http_method canonical_path body key =
     op_bind (on_snd (pay_unix_timestamp (wi_io p))) (\<lambda>timestamp.
     op_bind (on_snd (random_nonce (wi_io p))) (\<lambda>nonce.
     op_bind (op_lift (sign_base64 (wi_lib p) key (request_message http_method canonical_path timestamp nonce body))) (\<lambda>signature.
       op_return (authorization_header (wc_mch_id (wi_config p)) (wc_mch_serial_no (wi_config p)) nonce timestamp signature))))"

definition signed_request :: "('k, 'w) wechat_inner \<Rightarrow> string \<Rightarrow> string \<Rightarrow> string \<Rightarrow> ('k, 'w, gateway_response) wechat_op" where
  "signed_request p http_method path body =
     op_bind (wechat_signer p) (\<lambda>key.
     op_bind (op_lift (path_and_query (wi_base_url p @ path))) (\<lambda>canonical_path.
     op_bind (wechat_authorization p http_method canonical_path body key) (\<lambda>authorization.
       on_snd (io_http (wi_io p)
         \<lparr>gq_method = http_method, gq_url = wi_base_url p @ path,
          gq_headers = [(''authorization'', authorization), (''accept'', ''application/json''), (''user-agent'', wi_user_agent p)] @
            (if body = [] then [] else [(''content-type'', ''application/json'')]),
          gq_body = body\<rparr>))))"

definition signed_get_absolute :: "('k, 'w) wechat_inner \<Rightarrow> string \<Rightarrow> string \<Rightarrow> ('k, 'w, gateway_response) wechat_op" where
  "signed_get_absolute p url canonical_path =
     op_bind (wechat_signer p) (\<lambda>key.
     op_bind (wechat_authorization p ''GET'' canonical_path [] key) (\<lambda>authorization.
       on_snd (io_http (wi_io p)
         \<lparr>gq_method = ''GET'', gq_url = url,
          gq_headers = [(''authorization'', authorization), (''accept'', ''text/csv''), (''user-agent'', wi_user_agent p)], gq_body = []\<rparr>)))"

text \<open>The certificates of a response, decrypted one by one.\<close>

fun certificate_verifiers :: "'k gateway_lib \<Rightarrow> string \<Rightarrow> certificate_entry list \<Rightarrow> (string \<rightharpoonup> string) \<Rightarrow> pay_error + (string \<rightharpoonup> string)" where
  "certificate_verifiers lib key [] verifiers = Inr verifiers"
| "certificate_verifiers lib key (entry # entries) verifiers =
     res_bind (map_error (\<lambda>e. Gateway (''decrypt platform certificate: '' @ e)) (resource_decrypt lib key (ce_encrypt_certificate entry))) (\<lambda>der_or_pem.
     res_bind (if utf8_valid der_or_pem then Inr der_or_pem else Inl (Gateway ''platform certificate is not UTF-8 PEM'')) (\<lambda>pem.
     res_bind (verifier_from_x509_pem lib pem) (\<lambda>(verifier, cert_serial).
       certificate_verifiers lib key entries (verifiers(to_ascii_uppercase (ce_serial_no entry) \<mapsto> verifier)))))"

definition certs_verify :: "'k gateway_lib \<Rightarrow> platform_certs \<Rightarrow> signature_headers \<Rightarrow> string \<Rightarrow> bool option" where
  "certs_verify lib certs headers message =
     map_option (\<lambda>verifier. gl_verify lib verifier message (sh_signature headers)) (platform_certs_get certs (sh_serial headers))"

definition download_certs :: "('k, 'w) wechat_inner \<Rightarrow> u64 \<Rightarrow> ('k, 'w, platform_certs) wechat_op" where
  "download_certs p now =
     op_bind (op_lift (api_v3_key p)) (\<lambda>key.
     op_bind (signed_request p ''GET'' ''/v3/certificates'' []) (\<lambda>response.
     if gp_status response \<noteq> 200 then op_throw (Gateway (''GET /v3/certificates returned '' @ gl_status_text (wi_lib p) (gp_status response)))
     else
       op_lift (
         res_bind (map_error (\<lambda>e. Gateway (''certificates body: '' @ e)) (gl_read_certificates (wi_lib p) (gp_body response))) (\<lambda>entries.
         res_bind (certificate_verifiers (wi_lib p) key entries (\<lambda>_. None)) (\<lambda>verifiers.
         (let certs = \<lparr>pcs_verifiers = verifiers, pcs_fetched_at = now, pcs_from_file = False\<rparr>
          in res_bind (map_error (\<lambda>e. Gateway (''unsigned certificates response: '' @ pay_error_display e))
                 (signature_headers_from (wi_lib p) (gp_headers response))) (\<lambda>headers.
             res_bind (map_error (\<lambda>e. Gateway (pay_error_display e)) (check_freshness headers now)) (\<lambda>_.
             if certs_verify (wi_lib p) certs headers (response_message (sh_timestamp headers) (sh_nonce headers) (gp_body response)) = Some True
             then Inr certs else Inl (Gateway ''certificates response signature verification failed''))))))))) "

definition read_config_file :: "('k, 'w) wechat_inner \<Rightarrow> (string \<Rightarrow> pay_error) \<Rightarrow> string \<Rightarrow> ('k, 'w, string) wechat_op" where
  "read_config_file p fail path = on_snd (\<lambda>w. case io_read_file (wi_io p) path w of (r, w) \<Rightarrow> (map_error fail r, w))"

definition load_certs :: "('k, 'w) wechat_inner \<Rightarrow> u64 \<Rightarrow> ('k, 'w, platform_certs) wechat_op" where
  "load_certs p now =
     (case wc_platform_cert_path (wi_config p) of
        Some path \<Rightarrow>
          op_bind (read_config_file p (\<lambda>e. PayConfig (''read WeChat platform certificate '' @ path @ '': '' @ e)) path) (\<lambda>pem.
            op_lift (map_sum id (\<lambda>(verifier, serial). \<lparr>pcs_verifiers = [serial \<mapsto> verifier], pcs_fetched_at = now, pcs_from_file = True\<rparr>)
              (verifier_from_x509_pem (wi_lib p) pem)))
      | None \<Rightarrow> download_certs p now)"

definition get_certs :: "('k, 'w, platform_certs option) wechat_op" where
  "get_certs = (\<lambda>(c, w). (Inr (wx_certs c), (c, w)))"

definition put_certs :: "platform_certs \<Rightarrow> ('k, 'w, unit) wechat_op" where
  "put_certs certs = (\<lambda>(c, w). (Inr (), (c\<lparr>wx_certs := Some certs\<rparr>, w)))"

definition ensure_certs :: "('k, 'w) wechat_inner \<Rightarrow> bool \<Rightarrow> ('k, 'w, unit) wechat_op" where
  "ensure_certs p force =
     op_bind (on_snd (pay_unix_timestamp (wi_io p))) (\<lambda>now.
     op_bind get_certs (\<lambda>cache.
     if (case cache of Some certs \<Rightarrow> \<not> force \<and> platform_certs_fresh certs now | None \<Rightarrow> False) then op_return ()
     else op_bind (load_certs p now) put_certs))"

text \<open>The loop over \<open>force\<close>, with the errors of its two callers.\<close>

fun verify_with_certs :: "('k, 'w) wechat_inner \<Rightarrow> pay_error \<Rightarrow> pay_error \<Rightarrow> signature_headers \<Rightarrow> string \<Rightarrow> bool list \<Rightarrow> ('k, 'w, unit) wechat_op" where
  "verify_with_certs p mismatch unknown headers message [] = op_throw unknown"
| "verify_with_certs p mismatch unknown headers message (force # forces) =
     op_bind (ensure_certs p force) (\<lambda>_.
     op_bind get_certs (\<lambda>cache.
       (case Option.bind cache (\<lambda>certs. certs_verify (wi_lib p) certs headers message) of
          Some True \<Rightarrow> op_return ()
        | Some False \<Rightarrow> op_throw mismatch
        | None \<Rightarrow> verify_with_certs p mismatch unknown headers message forces)))"

definition verify_response :: "('k, 'w) wechat_inner \<Rightarrow> gateway_response \<Rightarrow> ('k, 'w, unit) wechat_op" where
  "verify_response p response =
     op_bind (op_lift (map_error (\<lambda>e. Gateway (''unsigned gateway response: '' @ pay_error_display e))
       (signature_headers_from (wi_lib p) (gp_headers response)))) (\<lambda>headers.
     op_bind (on_snd (pay_unix_timestamp (wi_io p))) (\<lambda>now.
     op_bind (op_lift (map_error (\<lambda>e. Gateway (pay_error_display e)) (check_freshness headers now))) (\<lambda>_.
       verify_with_certs p (Gateway ''WeChat response signature verification failed'')
         (Gateway (''no platform certificate matches serial `'' @ sh_serial headers @ ''`''))
         headers (response_message (sh_timestamp headers) (sh_nonce headers) (gp_body response)) [False, True])))"

definition verify_notify_signature :: "('k, 'w) wechat_inner \<Rightarrow> notify_request \<Rightarrow> ('k, 'w, unit) wechat_op" where
  "verify_notify_signature p notify =
     op_bind (op_lift (signature_headers_from (wi_lib p) (nr_headers notify))) (\<lambda>headers.
     op_bind (on_snd (pay_unix_timestamp (wi_io p))) (\<lambda>now.
     op_bind (op_lift (check_freshness headers now)) (\<lambda>_.
       verify_with_certs p (InvalidNotify ''WeChat notify signature verification failed'')
         (InvalidNotify (''no platform certificate matches Wechatpay-Serial `'' @ sh_serial headers @ ''`''))
         headers (response_message (sh_timestamp headers) (sh_nonce headers) (nr_body notify)) [False, True])))"

section \<open>The methods\<close>

definition gateway_error :: "'k gateway_lib \<Rightarrow> string \<Rightarrow> gateway_response \<Rightarrow> pay_error" where
  "gateway_error lib operation response =
     (let (code, message) = (case gl_read_error lib (gp_body response) of Inr e \<Rightarrow> e | Inl _ \<Rightarrow> ([], []))
      in Gateway (operation @ '' returned '' @ gl_status_text lib (gp_status response) @ '': code='' @ code @ '' message='' @ message))"

text \<open>A signed call whose response is verified before anything else is done with it.\<close>

definition verified_call :: "('k, 'w) wechat_inner \<Rightarrow> string \<Rightarrow> string \<Rightarrow> string \<Rightarrow> ('k, 'w, gateway_response) wechat_op" where
  "verified_call p http_method path body =
     op_bind (signed_request p http_method path body) (\<lambda>response.
     op_bind (verify_response p response) (\<lambda>_. op_return response))"

definition wechat_create :: "('k, 'w) wechat_inner \<Rightarrow> create_order \<Rightarrow> ('k, 'w, payment_intent) wechat_op" where
  "wechat_create p order =
     op_bind (op_lift (create_order_validate order)) (\<lambda>_.
     op_bind (verified_call p ''POST'' ''/v3/pay/transactions/native''
       (gl_json_text (wi_lib p) (GObject
         [(''appid'', GString (wc_app_id (wi_config p))), (''mchid'', GString (wc_mch_id (wi_config p))),
          (''description'', GString (co_subject order)), (''out_trade_no'', GString (co_out_trade_no order)),
          (''notify_url'', GString (wc_notify_url (wi_config p))),
          (''amount'', GObject [(''total'', GNumber (minor (co_amount order))),
             (''currency'', GString (currency_code (currency (co_amount order))))])]))) (\<lambda>response.
     if gp_status response \<noteq> 200 then op_throw (gateway_error (wi_lib p) ''create native transaction'' response)
     else
       op_bind (op_lift (map_error (\<lambda>e. Gateway (''native transaction body: '' @ e)) (gl_read_code_url (wi_lib p) (gp_body response)))) (\<lambda>code_url.
         op_return \<lparr>pi_provider = wechat_KEY, pi_out_trade_no = co_out_trade_no order, pi_amount = co_amount order,
           pi_action = QrCode code_url\<rparr>)))"

definition wechat_query :: "('k, 'w) wechat_inner \<Rightarrow> string \<Rightarrow> ('k, 'w, payment_status) wechat_op" where
  "wechat_query p out_trade_no =
     op_bind (verified_call p ''GET'' (''/v3/pay/transactions/out-trade-no/'' @ out_trade_no @ ''?mchid='' @ wc_mch_id (wi_config p)) []) (\<lambda>response.
     if gp_status response = 404 then op_throw (OrderNotFound wechat_KEY out_trade_no)
     else if gp_status response \<noteq> 200 then op_throw (gateway_error (wi_lib p) ''query transaction'' response)
     else
       op_bind (op_lift (map_error (\<lambda>e. Gateway (''query transaction body: '' @ e)) (gl_read_transaction (wi_lib p) (gp_body response)))) (\<lambda>resource.
         op_lift (map_trade_state (tr_trade_state resource))))"

definition wechat_close :: "('k, 'w) wechat_inner \<Rightarrow> string \<Rightarrow> ('k, 'w, unit) wechat_op" where
  "wechat_close p out_trade_no =
     op_bind (verified_call p ''POST'' (''/v3/pay/transactions/out-trade-no/'' @ out_trade_no @ ''/close'')
       (gl_json_text (wi_lib p) (GObject [(''mchid'', GString (wc_mch_id (wi_config p)))]))) (\<lambda>response.
     if gp_status response = 204 \<or> gp_status response = 200 then op_return ()
     else if gp_status response = 404 then op_throw (OrderNotFound wechat_KEY out_trade_no)
     else op_throw (gateway_error (wi_lib p) ''close transaction'' response))"

definition wechat_refund_receipt :: "'k gateway_lib \<Rightarrow> string \<Rightarrow> string \<Rightarrow> pay_error + refund_receipt" where
  "wechat_refund_receipt lib out_trade_no body =
     res_bind (map_error (\<lambda>e. Gateway (''refund body: '' @ e)) (gl_read_refund lib body)) (\<lambda>parsed.
     res_bind (map_refund_status (rfr_status parsed)) (\<lambda>status.
       Inr \<lparr>rc_provider = wechat_KEY,
            rc_out_trade_no = (if rfr_out_trade_no parsed = [] then out_trade_no else rfr_out_trade_no parsed),
            rc_out_refund_no = rfr_out_refund_no parsed, rc_refund_id = rfr_refund_id parsed,
            rc_amount = from_minor (rfr_amount parsed) Cny, rc_status = status, rc_raw = utf8_lossy body\<rparr>))"

definition wechat_refund :: "('k, 'w) wechat_inner \<Rightarrow> refund_order \<Rightarrow> ('k, 'w, refund_receipt) wechat_op" where
  "wechat_refund p refund =
     op_bind (op_lift (refund_validate refund)) (\<lambda>_.
     op_bind (verified_call p ''POST'' ''/v3/refund/domestic/refunds''
       (gl_json_text (wi_lib p) (GObject
         ([(''out_trade_no'', GString (ro_out_trade_no refund)), (''out_refund_no'', GString (ro_out_refund_no refund)),
           (''amount'', GObject [(''refund'', GNumber (minor (ro_amount refund))), (''total'', GNumber (minor (ro_total refund))),
              (''currency'', GString (currency_code (currency (ro_amount refund))))])] @
          (case ro_reason refund of None \<Rightarrow> [] | Some reason \<Rightarrow> [(''reason'', GString reason)]) @
          (case wc_refund_notify_url (wi_config p) of None \<Rightarrow> []
           | Some url \<Rightarrow> if url = [] then [] else [(''notify_url'', GString url)]))))) (\<lambda>response.
     if gp_status response \<noteq> 200 then op_throw (gateway_error (wi_lib p) ''create refund'' response)
     else op_lift (wechat_refund_receipt (wi_lib p) (ro_out_trade_no refund) (gp_body response))))"

definition wechat_query_refund :: "('k, 'w) wechat_inner \<Rightarrow> string \<Rightarrow> string \<Rightarrow> ('k, 'w, refund_receipt) wechat_op" where
  "wechat_query_refund p out_trade_no out_refund_no =
     op_bind (verified_call p ''GET'' (''/v3/refund/domestic/refunds/'' @ out_refund_no) []) (\<lambda>response.
     if gp_status response = 404 then op_throw (RefundNotFound wechat_KEY out_refund_no)
     else if gp_status response \<noteq> 200 then op_throw (gateway_error (wi_lib p) ''query refund'' response)
     else op_lift (wechat_refund_receipt (wi_lib p) out_trade_no (gp_body response)))"

definition verify_bill_digest :: "'k gateway_lib \<Rightarrow> string \<Rightarrow> string \<Rightarrow> string \<Rightarrow> pay_error + unit" where
  "verify_bill_digest lib hash_type expected body =
     (if to_ascii_lowercase hash_type \<noteq> ''sha1'' then Inl (Reconcile (''unsupported bill hash type `'' @ hash_type @ ''`''))
      else if to_ascii_lowercase (hex_lower (gl_sha1 lib body)) = to_ascii_lowercase expected then Inr ()
      else Inl (Reconcile ''bill file digest does not match the signed ticket''))"

definition wechat_download_bill :: "('k, 'w) wechat_inner \<Rightarrow> string \<Rightarrow> ('k, 'w, bill) wechat_op" where
  "wechat_download_bill p date =
     op_bind (verified_call p ''GET'' (''/v3/bill/tradebill?bill_date='' @ date @ ''&bill_type=SUCCESS'') []) (\<lambda>response.
     if gp_status response \<noteq> 200 then op_throw (gateway_error (wi_lib p) ''request trade bill'' response)
     else
       op_bind (op_lift (map_error (\<lambda>e. Reconcile (''bill ticket: '' @ e)) (gl_read_ticket (wi_lib p) (gp_body response)))) (\<lambda>ticket.
       op_bind (op_lift (path_and_query (bt_download_url ticket))) (\<lambda>canonical.
       op_bind (signed_get_absolute p (bt_download_url ticket) canonical) (\<lambda>file.
       if gp_status file \<noteq> 200 then op_throw (Reconcile (''bill download returned HTTP '' @ gl_status_text (wi_lib p) (gp_status file)))
       else
         op_lift (
           res_bind (verify_bill_digest (wi_lib p) (bt_hash_type ticket) (bt_hash_value ticket) (gp_body file)) (\<lambda>_.
           res_bind (if utf8_valid (gp_body file) then Inr (gp_body file) else Inl (Reconcile ''bill file is not UTF-8'')) (\<lambda>csv.
             parse_bill_csv wechat_KEY date csv)))))))"

text \<open>The plain text of a notification, after its signature.\<close>

definition notify_plaintext :: "('k, 'w) wechat_inner \<Rightarrow> notify_envelope \<Rightarrow> pay_error + string" where
  "notify_plaintext p body =
     res_bind (api_v3_key p) (\<lambda>key.
     res_bind (map_error (\<lambda>e. InvalidNotify (''notify resource: '' @ e)) (resource_decrypt (wi_lib p) key (nb_resource body))) (\<lambda>plaintext.
       if utf8_valid plaintext then Inr plaintext else Inl (InvalidNotify ''notify resource is not UTF-8'')))"

definition wechat_verify_notify :: "('k, 'w) wechat_inner \<Rightarrow> notify_request \<Rightarrow> ('k, 'w, notify_event) wechat_op" where
  "wechat_verify_notify p notify =
     op_bind (verify_notify_signature p notify) (\<lambda>_.
       op_lift (
         res_bind (map_error (\<lambda>e. InvalidNotify (''notify body: '' @ e)) (gl_read_notify (wi_lib p) (nr_body notify))) (\<lambda>body.
         res_bind (notify_plaintext p body) (\<lambda>raw.
         res_bind (map_error (\<lambda>e. InvalidNotify (''notify resource: '' @ e)) (gl_read_transaction (wi_lib p) raw)) (\<lambda>resource.
         res_bind (map_trade_state (tr_trade_state resource)) (\<lambda>status.
           Inr \<lparr>ne_out_trade_no = tr_out_trade_no resource, ne_transaction_id = tr_transaction_id resource, ne_status = status,
                ne_raw = raw\<rparr>))))))"

definition wechat_verify_refund_notify :: "('k, 'w) wechat_inner \<Rightarrow> notify_request \<Rightarrow> ('k, 'w, refund_notify_event) wechat_op" where
  "wechat_verify_refund_notify p notify =
     op_bind (verify_notify_signature p notify) (\<lambda>_.
       op_lift (
         res_bind (map_error (\<lambda>e. InvalidNotify (''notify body: '' @ e)) (gl_read_notify (wi_lib p) (nr_body notify))) (\<lambda>body.
         if take 7 (nb_event_type body) \<noteq> ''REFUND.''
         then Inl (InvalidNotify (''expected a REFUND.* event, got `'' @ nb_event_type body @ ''`''))
         else
           res_bind (notify_plaintext p body) (\<lambda>raw.
           res_bind (map_error (\<lambda>e. InvalidNotify (''notify resource: '' @ e)) (gl_read_refund_notify (wi_lib p) raw)) (\<lambda>resource.
           res_bind (map_refund_notify_status (rnr_refund_status resource)) (\<lambda>status.
             Inr \<lparr>rn_out_trade_no = rnr_out_trade_no resource, rn_out_refund_no = rnr_out_refund_no resource,
                  rn_refund_id = rnr_refund_id resource, rn_amount = from_minor (rnr_amount resource) Cny, rn_status = status,
                  rn_raw = raw\<rparr>))))))"

definition wechat_provider :: "('k, 'w) wechat_inner \<Rightarrow> ('k wechat_cells \<times> 'w) provider" where
  "wechat_provider p =
     \<lparr>pv_key = wechat_KEY, pv_create = wechat_create p, pv_verify_notify = wechat_verify_notify p, pv_query = wechat_query p,
      pv_close = wechat_close p, pv_refund = wechat_refund p, pv_verify_refund_notify = wechat_verify_refund_notify p,
      pv_query_refund = wechat_query_refund p, pv_download_bill = wechat_download_bill p\<rparr>"

end
