(* ===== verification/Pay_Wechat_Props.thy ===== *)
theory Pay_Wechat_Props
  imports Pay_Wechat
begin

text \<open>
  What holds of the WeChat provider: the keys in its cache come from the configured file or decrypt
  under the API key, whatever calls were made; and what a call or a notification yields was signed
  with such a key.
\<close>

section \<open>Keys\<close>

text \<open>A key is vouched for when it comes from the configured certificate file or, without one, from a
  certificate that decrypts under the API key.\<close>

definition vouched :: "('k, 'w) wechat_inner \<Rightarrow> string \<Rightarrow> bool" where
  "vouched p v \<longleftrightarrow>
     (case wc_platform_cert_path (wi_config p) of
        Some path \<Rightarrow> \<exists>w pem w' serial. io_read_file (wi_io p) path w = (Inr pem, w') \<and> verifier_from_x509_pem (wi_lib p) pem = Inr (v, serial)
      | None \<Rightarrow> \<exists>key r pem serial. api_v3_key p = Inr key \<and> resource_decrypt (wi_lib p) key r = Inr pem \<and>
          verifier_from_x509_pem (wi_lib p) pem = Inr (v, serial))"

definition certs_ok :: "('k, 'w) wechat_inner \<Rightarrow> platform_certs \<Rightarrow> bool" where
  "certs_ok p certs \<longleftrightarrow> (\<forall>v \<in> ran (pcs_verifiers certs). vouched p v)"

definition cells_ok :: "('k, 'w) wechat_inner \<Rightarrow> 'k wechat_cells \<Rightarrow> bool" where
  "cells_ok p c \<longleftrightarrow> (\<forall>certs. wx_certs c = Some certs \<longrightarrow> certs_ok p certs)"

abbreviation good :: "('k, 'w) wechat_inner \<Rightarrow> 'k wechat_cells \<times> 'w \<Rightarrow> bool" where
  "good p \<equiv> \<lambda>(c, w). cells_ok p c"

text \<open>A message with the signature headers of a vouched key.\<close>

definition authentic :: "('k, 'w) wechat_inner \<Rightarrow> (string \<times> string) list \<Rightarrow> string \<Rightarrow> bool" where
  "authentic p headers body \<longleftrightarrow>
     (\<exists>h v. signature_headers_from (wi_lib p) headers = Inr h \<and> vouched p v \<and>
        gl_verify (wi_lib p) v (response_message (sh_timestamp h) (sh_nonce h) body) (sh_signature h))"

definition fresh_at :: "('k, 'w) wechat_inner \<Rightarrow> (string \<times> string) list \<Rightarrow> u64 \<Rightarrow> bool" where
  "fresh_at p headers now \<longleftrightarrow>
     (\<exists>h t. signature_headers_from (wi_lib p) headers = Inr h \<and> parse_unsigned (sh_timestamp h) = Some t \<and> abs_diff now t \<le> 300)"

lemma certificate_verifiers_vouched:
  assumes "certificate_verifiers (wi_lib p) key entries vs = Inr verifiers" and "api_v3_key p = Inr key"
    and "wc_platform_cert_path (wi_config p) = None" and "\<forall>v \<in> ran vs. vouched p v"
  shows "\<forall>v \<in> ran verifiers. vouched p v"
  using assms
proof (induction entries arbitrary: vs)
  case (Cons entry entries)
  then obtain pem v serial where step: "resource_decrypt (wi_lib p) key (ce_encrypt_certificate entry) = Inr pem" "utf8_valid pem"
      "verifier_from_x509_pem (wi_lib p) pem = Inr (v, serial)"
      "certificate_verifiers (wi_lib p) key entries (vs(to_ascii_uppercase (ce_serial_no entry) \<mapsto> v)) = Inr verifiers"
    by (auto simp: res_bind_Inr_iff split: if_splits)
  then have "vouched p v" using Cons.prems by (auto simp: vouched_def)
  then have "\<forall>v \<in> ran (vs(to_ascii_uppercase (ce_serial_no entry) \<mapsto> v)). vouched p v"
    using Cons.prems by (auto simp: ran_def)
  then show ?case using Cons.IH step(4) Cons.prems by blast
qed simp

lemma keeps_signer [keeps_rules]: "keeps (good p) (wechat_signer p)"
  by (rule keepsI) (auto simp: wechat_signer_def cells_ok_def Let_def split: option.splits prod.splits)

lemma keeps_get_certs [keeps_rules]: "keeps (good p) get_certs"
  by (rule keepsI) (auto simp: get_certs_def)

lemma keeps_signed_request [keeps_rules]: "keeps (good p) (signed_request p http_method path body)"
  "keeps (good p) (signed_get_absolute p url canonical)"
  unfolding signed_request_def signed_get_absolute_def wechat_authorization_def by (intro keeps_rules)+

lemma keeps_post: "keeps I m \<Longrightarrow> hoare I m (\<lambda>_. I) (\<lambda>_. I)"
  by (simp add: keeps_def)

lemma hoare_keeps_bind:
  assumes "keeps I m" and "\<And>x. hoare I (f x) Q E" and "\<And>e s. I s \<Longrightarrow> E e s"
  shows "hoare I (op_bind m f) Q E"
  by (rule hoare_bind [where R = "\<lambda>_. I"]) (use assms in \<open>auto intro: hoare_conseq [OF keeps_post]\<close>)

lemma load_certs_ok: "hoare (good p) (load_certs p now) (\<lambda>certs s. good p s \<and> certs_ok p certs) (\<lambda>_. good p)"
proof (cases "wc_platform_cert_path (wi_config p)")
  case None
  have lift: "hoare (good p) (op_lift r) (\<lambda>certs s. good p s \<and> certs_ok p certs) (\<lambda>_. good p)" if "\<And>certs. r = Inr certs \<Longrightarrow> certs_ok p certs" for r
    by (rule hoare_lift) (use that in auto)
  have "hoare (good p) (download_certs p now) (\<lambda>certs s. good p s \<and> certs_ok p certs) (\<lambda>_. good p)"
  proof (cases "api_v3_key p")
    case (Inr key)
    show ?thesis
      unfolding download_certs_def Inr op_bind_lift
      by (intro hoare_keeps_bind hoare_if keeps_rules hoare_throw lift)
        (auto simp: res_bind_Inr_iff Let_def certs_ok_def split: if_splits dest!: certificate_verifiers_vouched [OF _ Inr None])
  qed (auto simp: download_certs_def hoare_def op_bind_apply)
  then show ?thesis by (simp add: load_certs_def None)
next
  case (Some path)
  have "certs_ok p certs"
    if "io_read_file (wi_io p) path w = (Inr pem, w')" "verifier_from_x509_pem (wi_lib p) pem = Inr (v, serial)"
      "certs = \<lparr>pcs_verifiers = [serial \<mapsto> v], pcs_fetched_at = now, pcs_from_file = True\<rparr>" for w pem w' v serial certs
    using that by (auto simp: certs_ok_def vouched_def Some ran_def split: if_splits)
  then show ?thesis
    by (intro hoareI)
      (auto simp: load_certs_def Some op_bind_apply read_config_file_def map_error_def map_sum_Inr_iff split: prod.splits sum.splits)
qed

lemma keeps_load_certs [keeps_rules]: "keeps (good p) (load_certs p now)"
  unfolding keeps_def by (rule hoare_conseq [OF load_certs_ok]) auto

lemma ensure_certs_keeps [keeps_rules]: "keeps (good p) (ensure_certs p force)"
  unfolding ensure_certs_def keeps_def
  by (intro hoare_keeps_bind hoare_if keeps_rules hoare_return hoare_bind [OF load_certs_ok])
    (auto simp: hoare_def put_certs_def cells_ok_def)

lemma verify_with_certs_vouched:
  "hoare (good p) (verify_with_certs p mismatch unknown h message forces)
     (\<lambda>_ s. good p s \<and> (\<exists>v. vouched p v \<and> gl_verify (wi_lib p) v message (sh_signature h))) (\<lambda>_. good p)"
proof (induction forces)
  case (Cons force forces)
  have "hoare (good p) get_certs (\<lambda>cache s. good p s \<and> (\<forall>certs. cache = Some certs \<longrightarrow> certs_ok p certs)) (\<lambda>_. good p)"
    by (rule hoareI) (auto simp: get_certs_def cells_ok_def)
  moreover have "hoare (\<lambda>s. good p s \<and> (\<forall>certs. cache = Some certs \<longrightarrow> certs_ok p certs))
      (case Option.bind cache (\<lambda>certs. certs_verify (wi_lib p) certs h message) of
         Some True \<Rightarrow> op_return () | Some False \<Rightarrow> op_throw mismatch | None \<Rightarrow> verify_with_certs p mismatch unknown h message forces)
      (\<lambda>_ s. good p s \<and> (\<exists>v. vouched p v \<and> gl_verify (wi_lib p) v message (sh_signature h))) (\<lambda>_. good p)" for cache
  proof (cases "Option.bind cache (\<lambda>certs. certs_verify (wi_lib p) certs h message)")
    case None
    then show ?thesis by (auto intro: hoare_conseq [OF Cons.IH])
  next
    case (Some verified)
    then obtain certs v where "cache = Some certs" "v = v" "platform_certs_get certs (sh_serial h) = Some v"
        "verified = gl_verify (wi_lib p) v message (sh_signature h)"
      by (auto simp: certs_verify_def bind_eq_Some_conv)
    then show ?thesis
      unfolding Some by (cases verified) (auto intro!: hoare_rules simp: platform_certs_get_def certs_ok_def ran_def)
  qed
  ultimately show ?case
    unfolding verify_with_certs.simps by (intro hoare_keeps_bind [OF ensure_certs_keeps] hoare_bind) auto
qed (simp add: hoare_def)

section \<open>Responses and notifications\<close>

lemma hoare_now:
  "hoare (\<lambda>s. good p s \<and> snd s = w) (on_snd (pay_unix_timestamp (wi_io p)))
     (\<lambda>now s. good p s \<and> (\<exists>w'. pay_unix_timestamp (wi_io p) w = (Inr now, w'))) (\<lambda>_. good p)"
  by (rule hoareI) (auto split: prod.splits)

lemma fresh_header: "check_freshness h now = Inr x \<Longrightarrow> \<exists>t. parse_unsigned (sh_timestamp h) = Some t \<and> abs_diff now t \<le> 300"
  by (auto simp: check_freshness_def res_bind_Inr_iff TIMESTAMP_SKEW_SECONDS_def not_less split: if_splits)

lemma verify_response_authentic:
  "hoare (good p) (verify_response p response) (\<lambda>_ s. good p s \<and> authentic p (gp_headers response) (gp_body response)) (\<lambda>_. good p)"
proof (cases "signature_headers_from (wi_lib p) (gp_headers response)")
  case (Inr h)
  have certs: "hoare (good p) (verify_with_certs p mismatch unknown h (response_message (sh_timestamp h) (sh_nonce h) (gp_body response)) forces)
      (\<lambda>_ s. good p s \<and> authentic p (gp_headers response) (gp_body response)) (\<lambda>_. good p)" for mismatch unknown forces
    by (rule hoare_conseq [OF verify_with_certs_vouched]) (auto simp: authentic_def Inr)
  then show ?thesis
    unfolding verify_response_def Inr map_error_simps op_bind_lift by (intro hoare_keeps_bind keeps_rules certs) auto
qed (simp add: verify_response_def hoare_def op_bind_apply)

lemma verified_call_authentic:
  "hoare (good p) (verified_call p http_method path body)
     (\<lambda>response s. good p s \<and> authentic p (gp_headers response) (gp_body response)) (\<lambda>_. good p)"
  unfolding verified_call_def
  by (intro hoare_keeps_bind keeps_rules hoare_bind [OF verify_response_authentic] hoare_return) auto

lemma verify_notify_authentic:
  "hoare (\<lambda>s. good p s \<and> snd s = w) (verify_notify_signature p notify)
     (\<lambda>_ s. good p s \<and> authentic p (nr_headers notify) (nr_body notify) \<and>
        (\<exists>now w'. pay_unix_timestamp (wi_io p) w = (Inr now, w') \<and> fresh_at p (nr_headers notify) now)) (\<lambda>_. good p)"
    (is "hoare _ _ ?Q _")
proof (cases "signature_headers_from (wi_lib p) (nr_headers notify)")
  case (Inr h)
  have verify: "hoare (\<lambda>s. good p s \<and> (\<exists>w'. pay_unix_timestamp (wi_io p) w = (Inr now, w')))
      (op_bind (op_lift (check_freshness h now)) (\<lambda>_. verify_with_certs p mismatch unknown h
         (response_message (sh_timestamp h) (sh_nonce h) (nr_body notify)) forces)) ?Q (\<lambda>_. good p)" for now mismatch unknown forces
  proof (cases "check_freshness h now")
    case (Inr x)
    then have "fresh_at p (nr_headers notify) now"
      using fresh_header [OF Inr] \<open>signature_headers_from (wi_lib p) (nr_headers notify) = Inr h\<close> by (auto simp: fresh_at_def)
    then show ?thesis
      unfolding Inr op_bind_lift
      by (cases "\<exists>w'. pay_unix_timestamp (wi_io p) w = (Inr now, w')")
        (auto intro!: hoare_conseq [OF verify_with_certs_vouched] simp: authentic_def \<open>signature_headers_from _ _ = Inr h\<close> simp: hoare_def [of "\<lambda>s. False"])
  qed (auto simp: hoare_def op_bind_apply)
  show ?thesis
    unfolding verify_notify_signature_def Inr op_bind_lift by (rule hoare_bind [OF hoare_now verify])
qed (simp add: verify_notify_signature_def hoare_def op_bind_apply)

lemma keeps_verified_call [keeps_rules]: "keeps (good p) (verified_call p http_method path body)"
  unfolding keeps_def by (rule hoare_conseq [OF verified_call_authentic]) auto

lemma keeps_verify_notify [keeps_rules]: "keeps (good p) (verify_notify_signature p notify)"
proof (rule keepsI)
  fix s assume inv: "good p s"
  obtain r t where run: "verify_notify_signature p notify s = (r, t)" by (rule prod.exhaust)
  then have "good p t"
    using verify_notify_authentic [of p "snd s" notify, unfolded hoare_def, THEN spec, of s] inv by (cases r) blast+
  then show "good p (snd (verify_notify_signature p notify s))" by (simp only: run snd_conv)
qed

lemma keeps_wechat_methods:
  "keeps (good p) (wechat_create p order)" "keeps (good p) (wechat_query p t)" "keeps (good p) (wechat_close p t)"
  "keeps (good p) (wechat_refund p refund)" "keeps (good p) (wechat_query_refund p t r)" "keeps (good p) (wechat_download_bill p date)"
  "keeps (good p) (wechat_verify_notify p notify)" "keeps (good p) (wechat_verify_refund_notify p notify)"
  unfolding wechat_create_def wechat_query_def wechat_close_def wechat_refund_def wechat_query_refund_def wechat_download_bill_def
    wechat_verify_notify_def wechat_verify_refund_notify_def
  by (intro keeps_rules)+

text \<open>The states of a provider after any sequence of calls, with anything happening in the world between them.\<close>

inductive wechat_reachable :: "('k, 'w) wechat_inner \<Rightarrow> 'k wechat_cells \<times> 'w \<Rightarrow> bool" for p where
  at_start: "wechat_reachable p (wechat_cells_new, w)"
| in_world: "wechat_reachable p (c, w) \<Longrightarrow> wechat_reachable p (c, w')"
| by_create: "wechat_reachable p s \<Longrightarrow> wechat_reachable p (snd (wechat_create p order s))"
| by_query: "wechat_reachable p s \<Longrightarrow> wechat_reachable p (snd (wechat_query p t s))"
| by_close: "wechat_reachable p s \<Longrightarrow> wechat_reachable p (snd (wechat_close p t s))"
| by_refund: "wechat_reachable p s \<Longrightarrow> wechat_reachable p (snd (wechat_refund p refund s))"
| by_query_refund: "wechat_reachable p s \<Longrightarrow> wechat_reachable p (snd (wechat_query_refund p t r s))"
| by_bill: "wechat_reachable p s \<Longrightarrow> wechat_reachable p (snd (wechat_download_bill p date s))"
| by_notify: "wechat_reachable p s \<Longrightarrow> wechat_reachable p (snd (wechat_verify_notify p notify s))"
| by_refund_notify: "wechat_reachable p s \<Longrightarrow> wechat_reachable p (snd (wechat_verify_refund_notify p notify s))"

lemma reachable_good: "wechat_reachable p s \<Longrightarrow> good p s"
  by (induction rule: wechat_reachable.induct)
    (simp_all only: keeps_wechat_methods [THEN keepsD], simp_all add: cells_ok_def wechat_cells_new_def)

section \<open>Properties\<close>


lemma called_authentic:
  "wechat_reachable p cw \<Longrightarrow> verified_call p http_method path body cw = (Inr response, s') \<Longrightarrow> authentic p (gp_headers response) (gp_body response)"
  using hoareD_Inr [OF verified_call_authentic reachable_good] by fastforce

text \<open>C20: every answer of WeChat was signed. A payment code, a status, a receipt of a refund and a closed order are
  read from the body of a response that carries the signature of a vouched key, and a bill from a
  file whose digest such a response gave.\<close>

theorem wechat_answers_authentic:
  assumes "wechat_reachable p cw"
  shows
    "(\<forall>order intent s'. wechat_create p order cw = (Inr intent, s') \<longrightarrow>
       (\<exists>(r :: gateway_response) url. authentic p (gp_headers r) (gp_body r) \<and> gl_read_code_url (wi_lib p) (gp_body r) = Inr url \<and> pi_action intent = QrCode url \<and>
          pi_out_trade_no intent = co_out_trade_no order \<and> pi_amount intent = co_amount order)) \<and>
     (\<forall>t status s'. wechat_query p t cw = (Inr status, s') \<longrightarrow>
       (\<exists>(r :: gateway_response) tr. authentic p (gp_headers r) (gp_body r) \<and> gl_read_transaction (wi_lib p) (gp_body r) = Inr tr \<and>
          map_trade_state (tr_trade_state tr) = Inr status)) \<and>
     (\<forall>t s'. wechat_close p t cw = (Inr (), s') \<longrightarrow> (\<exists>r :: gateway_response. authentic p (gp_headers r) (gp_body r) \<and> gp_status r \<in> {200, 204})) \<and>
     (\<forall>refund receipt s'. wechat_refund p refund cw = (Inr receipt, s') \<longrightarrow>
       (\<exists>r :: gateway_response. authentic p (gp_headers r) (gp_body r) \<and> wechat_refund_receipt (wi_lib p) (ro_out_trade_no refund) (gp_body r) = Inr receipt)) \<and>
     (\<forall>t n receipt s'. wechat_query_refund p t n cw = (Inr receipt, s') \<longrightarrow>
       (\<exists>r :: gateway_response. authentic p (gp_headers r) (gp_body r) \<and> wechat_refund_receipt (wi_lib p) t (gp_body r) = Inr receipt)) \<and>
     (\<forall>date b s'. wechat_download_bill p date cw = (Inr b, s') \<longrightarrow>
       (\<exists>(r :: gateway_response) ticket csv. authentic p (gp_headers r) (gp_body r) \<and> gl_read_ticket (wi_lib p) (gp_body r) = Inr ticket \<and>
          to_ascii_lowercase (hex_lower (gl_sha1 (wi_lib p) csv)) = to_ascii_lowercase (bt_hash_value ticket) \<and>
          parse_bill_csv wechat_KEY date csv = Inr b))"
proof (intro conjI allI impI)
  fix order intent s' assume "wechat_create p order cw = (Inr intent, s')"
  then show "\<exists>(r :: gateway_response) url. authentic p (gp_headers r) (gp_body r) \<and> gl_read_code_url (wi_lib p) (gp_body r) = Inr url \<and> pi_action intent = QrCode url \<and>
      pi_out_trade_no intent = co_out_trade_no order \<and> pi_amount intent = co_amount order"
    by (auto simp: wechat_create_def op_bind_Inr split: if_splits) (blast dest: called_authentic [OF assms])
next
  fix t status s' assume "wechat_query p t cw = (Inr status, s')"
  then show "\<exists>(r :: gateway_response) tr. authentic p (gp_headers r) (gp_body r) \<and> gl_read_transaction (wi_lib p) (gp_body r) = Inr tr \<and> map_trade_state (tr_trade_state tr) = Inr status"
    by (auto simp: wechat_query_def op_bind_Inr split: if_splits dest: called_authentic [OF assms])
next
  fix t s' assume "wechat_close p t cw = (Inr (), s')"
  then show "\<exists>r :: gateway_response. authentic p (gp_headers r) (gp_body r) \<and> gp_status r \<in> {200, 204}"
    by (auto simp: wechat_close_def op_bind_Inr split: if_splits dest: called_authentic [OF assms])
next
  fix refund receipt s' assume "wechat_refund p refund cw = (Inr receipt, s')"
  then show "\<exists>r :: gateway_response. authentic p (gp_headers r) (gp_body r) \<and> wechat_refund_receipt (wi_lib p) (ro_out_trade_no refund) (gp_body r) = Inr receipt"
    by (auto simp: wechat_refund_def op_bind_Inr split: if_splits dest: called_authentic [OF assms])
next
  fix t n receipt s' assume "wechat_query_refund p t n cw = (Inr receipt, s')"
  then show "\<exists>r :: gateway_response. authentic p (gp_headers r) (gp_body r) \<and> wechat_refund_receipt (wi_lib p) t (gp_body r) = Inr receipt"
    by (auto simp: wechat_query_refund_def op_bind_Inr split: if_splits dest: called_authentic [OF assms])
next
  fix date b s' assume "wechat_download_bill p date cw = (Inr b, s')"
  then show "\<exists>(r :: gateway_response) ticket csv. authentic p (gp_headers r) (gp_body r) \<and> gl_read_ticket (wi_lib p) (gp_body r) = Inr ticket \<and>
      to_ascii_lowercase (hex_lower (gl_sha1 (wi_lib p) csv)) = to_ascii_lowercase (bt_hash_value ticket) \<and> parse_bill_csv wechat_KEY date csv = Inr b"
    by (auto simp: wechat_download_bill_def op_bind_Inr res_bind_Inr_iff verify_bill_digest_def split: if_splits dest: called_authentic [OF assms])
qed

section \<open>Examples\<close>

definition demo_gateway :: "unit gateway_lib" where
  "demo_gateway =
     \<lparr>gl_b64_encode = id, gl_b64_decode = Inr, gl_pem_items = (\<lambda>pem. [Some (X509Certificate pem), Some (Pkcs8Key pem)]), gl_pkcs8 = (\<lambda>_. Inr ()),
      gl_pkcs1 = (\<lambda>_. Inl []), gl_sign = (\<lambda>_ m. Some m), gl_spki = Inr, gl_x509 = (\<lambda>der. Inr (der, [CHR 0x01])),
      gl_verify = (\<lambda>k m s. s = k), gl_aes_decrypt = (\<lambda>k n a c. Some c), gl_sha1 = id, gl_header_text = Some,
      gl_status_text = (\<lambda>_. []), gl_json_text = (\<lambda>_. []), gl_read_code_url = Inr,
      gl_read_notify = (\<lambda>s. Inr \<lparr>nb_resource = \<lparr>er_algorithm = [], er_ciphertext = s, er_nonce = replicate 12 (CHR ''n''), er_associated_data = []\<rparr>,
        nb_event_type = []\<rparr>),
      gl_read_transaction = (\<lambda>s. Inr \<lparr>tr_out_trade_no = s, tr_transaction_id = None, tr_trade_state = ''SUCCESS''\<rparr>),
      gl_read_refund_notify = (\<lambda>_. Inl []), gl_read_refund = (\<lambda>_. Inl []), gl_read_certificates = (\<lambda>_. Inl []), gl_read_ticket = (\<lambda>_. Inl []),
      gl_read_error = (\<lambda>_. Inl []), gl_read_sign = (\<lambda>_. Inl []), gl_read_payload = (\<lambda>_. Inl []), gl_form_text = (\<lambda>_. Inl []),
      gl_read_form = (\<lambda>_. Inl [])\<rparr>"

definition demo_gateway_io :: "unit gateway_io" where
  "demo_gateway_io =
     \<lparr>io_http = (\<lambda>q w. (Inr \<lparr>gp_status = 200, gp_headers = [(''wechatpay-signature'', ''pem''), (''wechatpay-timestamp'', ''9''),
         (''wechatpay-nonce'', ''n''), (''wechatpay-serial'', ''01'')], gp_body = ''code''\<rparr>, w)),
      io_now = (\<lambda>w. (10 * int nanos_per_sec, w)), io_random = (\<lambda>w. (Some [], w)), io_read_file = (\<lambda>path w. (Inr ''pem'', w))\<rparr>"

definition demo_wechat :: "(unit, unit) wechat_inner" where
  "demo_wechat =
     wechat_with_transport
       \<lparr>wc_app_id = [], wc_mch_id = [], wc_mch_serial_no = [], wc_api_v3_key = replicate 32 (CHR ''k''), wc_private_key_path = ''key'',
        wc_platform_cert_path = Some ''cert'', wc_notify_url = [], wc_refund_notify_url = None\<rparr>
       demo_gateway demo_gateway_io [] ''http://h/''"

definition demo_wechat_notify :: notify_request where
  "demo_wechat_notify = \<lparr>nr_headers = [(''wechatpay-signature'', ''pem''), (''wechatpay-timestamp'', ''9''), (''wechatpay-nonce'', ''n''),
     (''wechatpay-serial'', ''01'')], nr_body = ''order''\<rparr>"

lemma demo_parts [simp]: "wi_lib demo_wechat = demo_gateway" "wi_io demo_wechat = demo_gateway_io" "wc_platform_cert_path (wi_config demo_wechat) = Some ''cert''"
  "io_read_file demo_gateway_io path w = (Inr ''pem'', w)" "pay_unix_timestamp demo_gateway_io w = (Inr 10, w)"
  "gl_verify demo_gateway k message s = (s = k)" "nr_body demo_wechat_notify = ''order''"
  by (simp_all add: demo_wechat_def wechat_with_transport_def demo_gateway_io_def demo_gateway_def demo_wechat_notify_def
      pay_unix_timestamp_def duration_since_def unix_epoch_def nanos_per_sec_def)

definition demo_headers :: signature_headers where
  "demo_headers = \<lparr>sh_timestamp = ''9'', sh_nonce = ''n'', sh_signature = ''pem'', sh_serial = ''01''\<rparr>"

lemma demo_signature_headers [simp]: "signature_headers_from demo_gateway (nr_headers demo_wechat_notify) = Inr demo_headers"
  by code_simp

lemma demo_x509 [simp]: "verifier_from_x509_pem demo_gateway ''pem'' = Inr (''pem'', ''01'')"
  by code_simp

lemma demo_wechat_fresh [simp]: "check_freshness demo_headers 10 = Inr ()"
  by (simp add: check_freshness_def demo_headers_def parse_unsigned_def is_ascii_digit_def parse_digits_def digits_value_def digit_val_def
      abs_diff_def TIMESTAMP_SKEW_SECONDS_def)

lemma demo_order [simp]: "str_trim ''order'' = ''order''" "utf8_valid ''order''"
  by code_simp+

lemma demo_serial: "to_ascii_uppercase ''01'' = ''01''"
  by code_simp








definition demo_response :: gateway_response where
  "demo_response = \<lparr>gp_status = 200, gp_headers = nr_headers demo_wechat_notify, gp_body = ''code''\<rparr>"

lemma demo_http: "io_http demo_gateway_io q w = (Inr demo_response, w)"
  by (simp add: demo_gateway_io_def demo_response_def demo_wechat_notify_def)

lemma demo_wechat_query: "\<exists>s'. wechat_query demo_wechat ''order'' (wechat_cells_new, ()) = (Inr Paid, s')"
proof -
  have "signer_from_pem demo_gateway ''pem'' = Inr ()"
    by (simp add: signer_from_pem_def demo_gateway_def)
  then obtain k where signer: "wechat_signer demo_wechat (wechat_cells_new, ()) = (Inr (), wechat_cells_new\<lparr>wx_signer := k\<rparr>, ())"
    by (simp add: wechat_signer_def wechat_cells_new_def Let_def)
  obtain q where path: "path_and_query (wi_base_url demo_wechat @ ''/v3/pay/transactions/out-trade-no/'' @ ''order'' @ ''?mchid='') = Inr q"
    by (simp add: path_and_query_def url_parts_parse_def strip_prefix_def split_path_def rsplit_once_def demo_wechat_def wechat_with_transport_def)
  have mch: "wc_mch_id (wi_config demo_wechat) = []" by (simp add: demo_wechat_def wechat_with_transport_def)
  have sign: "random_nonce demo_gateway_io w = (Inr [], w)" "sign_base64 demo_gateway () m = Inr m" for w m
    by (simp_all add: random_nonce_def demo_gateway_io_def hex_upper_def sign_base64_def demo_gateway_def)
  have request: "signed_request demo_wechat ''GET'' ''/v3/pay/transactions/out-trade-no/order?mchid='' [] (wechat_cells_new, ()) =
      (Inr demo_response, wechat_cells_new\<lparr>wx_signer := k\<rparr>, ())"
    using path by (simp add: signed_request_def op_bind_apply signer wechat_authorization_def sign demo_http)
  have "\<exists>c. verify_response demo_wechat demo_response (wechat_cells_new\<lparr>wx_signer := k\<rparr>, ()) = (Inr (), c, ())"
    by (simp add: verify_response_def demo_response_def op_bind_apply ensure_certs_def get_certs_def put_certs_def load_certs_def read_config_file_def
        wechat_cells_new_def certs_verify_def platform_certs_get_def demo_serial demo_headers_def [symmetric])
      (simp add: demo_headers_def demo_serial)
  moreover have "gp_status demo_response = 200"
      "gl_read_transaction demo_gateway s = Inr \<lparr>tr_out_trade_no = s, tr_transaction_id = None, tr_trade_state = ''SUCCESS''\<rparr>" for s
    by (simp_all add: demo_response_def demo_gateway_def)
  ultimately show ?thesis
    by (auto simp: wechat_query_def verified_call_def op_bind_apply mch request map_trade_state_def)
qed

theorem wechat_answers_authentic_witness:
  "\<exists>r :: gateway_response. authentic demo_wechat (gp_headers r) (gp_body r) \<and>
     map_sum id tr_trade_state (gl_read_transaction (wi_lib demo_wechat) (gp_body r)) = Inr ''SUCCESS''"
proof -
  obtain s' where query: "wechat_query demo_wechat ''order'' (wechat_cells_new, ()) = (Inr Paid, s')"
    using demo_wechat_query by blast
  obtain r tr where "authentic demo_wechat (gp_headers r) (gp_body (r :: gateway_response))"
      "gl_read_transaction (wi_lib demo_wechat) (gp_body r) = Inr tr" "map_trade_state (tr_trade_state tr) = Inr Paid"
    using wechat_answers_authentic [OF at_start, THEN conjunct2, THEN conjunct1, rule_format, OF query] by blast
  then show ?thesis by (auto simp: map_trade_state_def split: if_splits)
qed

end
