(* ===== verification/Pay_Zip.thy ===== *)
theory Pay_Zip
  imports Pay_Types
begin

text \<open>
  The reader of bill archives (\<open>phoenix-pay\<close>: \<open>zip.rs\<close>): the end record, the central directory, stored and
  deflated members, and the limit on what they inflate to. Offsets are natural numbers: each is a
  sum of a few fields of at most 32 bits, far below the range of a 64-bit \<open>usize\<close>. The decoder of a
  deflated member is an argument: the bytes it yields and the error it stops with, if any.
\<close>

definition CENTRAL_HEADER :: string where
  "CENTRAL_HEADER = bytes [0x50, 0x4B, 0x01, 0x02]"

definition LOCAL_HEADER :: string where
  "LOCAL_HEADER = bytes [0x50, 0x4B, 0x03, 0x04]"

definition END_OF_DIRECTORY :: string where
  "END_OF_DIRECTORY = bytes [0x50, 0x4B, 0x05, 0x06]"

definition END_OF_DIRECTORY_LEN :: nat where
  "END_OF_DIRECTORY_LEN = 22"

definition CENTRAL_HEADER_LEN :: nat where
  "CENTRAL_HEADER_LEN = 46"

definition LOCAL_HEADER_LEN :: nat where
  "LOCAL_HEADER_LEN = 30"

record zip_entry =
  ze_name :: string
  ze_data :: string

definition malformed :: "string \<Rightarrow> pay_error" where
  "malformed what = Reconcile (''malformed bill archive: '' @ what)"

definition slice_get :: "string \<Rightarrow> nat \<Rightarrow> nat \<Rightarrow> string option" where
  "slice_get s from len = (if from + len \<le> length s then Some (take len (drop from s)) else None)"

definition le_value :: "string \<Rightarrow> nat" where
  "le_value s = foldr (\<lambda>c n. of_char c + 256 * n) s 0"

definition zip_u16 :: "string \<Rightarrow> nat \<Rightarrow> pay_error + nat" where
  "zip_u16 s at = map_sum id le_value (ok_or (malformed ''truncated field'') (slice_get s at 2))"

definition zip_u32 :: "string \<Rightarrow> nat \<Rightarrow> pay_error + nat" where
  "zip_u32 s at = map_sum id le_value (ok_or (malformed ''truncated field'') (slice_get s at 4))"

text \<open>The candidates from the last one down to \<open>earliest\<close>.\<close>

fun scan_end :: "string \<Rightarrow> nat \<Rightarrow> nat \<Rightarrow> nat option" where
  "scan_end archive earliest candidate =
     (if candidate < earliest then None
      else if slice_get archive candidate 4 = Some END_OF_DIRECTORY then Some candidate
      else (case candidate of 0 \<Rightarrow> None | Suc c \<Rightarrow> scan_end archive earliest c))"

declare scan_end.simps [simp del]

definition find_end_of_directory :: "string \<Rightarrow> pay_error + nat" where
  "find_end_of_directory archive =
     (if length archive < END_OF_DIRECTORY_LEN then Inl (malformed ''archive is too small'')
      else ok_or (malformed ''no end-of-central-directory record'')
             (scan_end archive (length archive - (END_OF_DIRECTORY_LEN + 0xFFFF)) (length archive - END_OF_DIRECTORY_LEN)))"

type_synonym inflater = "string \<Rightarrow> string \<times> string option"

definition inflate_at_most :: "inflater \<Rightarrow> nat \<Rightarrow> string \<Rightarrow> pay_error + string" where
  "inflate_at_most inflate limit compressed =
     (case inflate compressed of (produced, failure) \<Rightarrow>
        if limit \<le> length produced then Inr (take limit produced)
        else (case failure of None \<Rightarrow> Inr produced | Some e \<Rightarrow> Inl (Reconcile (''inflate bill member: '' @ e))))"

definition read_member :: "inflater \<Rightarrow> string \<Rightarrow> nat \<Rightarrow> nat \<Rightarrow> nat \<Rightarrow> nat \<Rightarrow> pay_error + string" where
  "read_member inflate archive local_offset compression compressed_size uncompressed_size =
     (if slice_get archive local_offset 4 \<noteq> Some LOCAL_HEADER then Inl (malformed ''local file header'')
      else
        res_bind (zip_u16 archive (local_offset + 26)) (\<lambda>name_len.
        res_bind (zip_u16 archive (local_offset + 28)) (\<lambda>extra_len.
        res_bind (ok_or (malformed ''member data'') (slice_get archive (local_offset + LOCAL_HEADER_LEN + name_len + extra_len) compressed_size)) (\<lambda>compressed.
        if compression = 0 then
          (if length compressed \<noteq> uncompressed_size then Inl (malformed ''stored member size mismatch'') else Inr compressed)
        else if compression = 8 then inflate_at_most inflate uncompressed_size compressed
        else Inl (Reconcile (''unsupported bill archive compression method '' @ nat_to_string compression))))))"

fun read_directory :: "inflater \<Rightarrow> string \<Rightarrow> nat \<Rightarrow> nat \<Rightarrow> nat \<Rightarrow> nat \<Rightarrow> pay_error + zip_entry list" where
  "read_directory inflate archive max_total 0 cursor inflated = Inr []"
| "read_directory inflate archive max_total (Suc n) cursor inflated =
     (if slice_get archive cursor 4 \<noteq> Some CENTRAL_HEADER then Inl (malformed ''central directory header'')
      else
        res_bind (zip_u16 archive (cursor + 10)) (\<lambda>compression.
        res_bind (zip_u32 archive (cursor + 20)) (\<lambda>compressed_size.
        res_bind (zip_u32 archive (cursor + 24)) (\<lambda>uncompressed_size.
        res_bind (zip_u16 archive (cursor + 28)) (\<lambda>name_len.
        res_bind (zip_u16 archive (cursor + 30)) (\<lambda>extra_len.
        res_bind (zip_u16 archive (cursor + 32)) (\<lambda>comment_len.
        res_bind (zip_u32 archive (cursor + 42)) (\<lambda>local_offset.
        res_bind (ok_or (malformed ''member name'') (slice_get archive (cursor + CENTRAL_HEADER_LEN) name_len)) (\<lambda>name.
        if 2 ^ 64 \<le> inflated + uncompressed_size then Inl (malformed ''member size overflow'')
        else if inflated + uncompressed_size > max_total
        then Inl (Reconcile (''bill archive expands to more than '' @ nat_to_string max_total @ '' bytes''))
        else
          res_bind (read_member inflate archive local_offset compression compressed_size uncompressed_size) (\<lambda>data.
          map_sum id (Cons \<lparr>ze_name = utf8_lossy name, ze_data = data\<rparr>)
            (read_directory inflate archive max_total n (cursor + CENTRAL_HEADER_LEN + name_len + extra_len + comment_len)
               (inflated + uncompressed_size))))))))))))"

definition read_entries :: "inflater \<Rightarrow> string \<Rightarrow> nat \<Rightarrow> pay_error + zip_entry list" where
  "read_entries inflate archive max_total =
     res_bind (find_end_of_directory archive) (\<lambda>e.
     res_bind (zip_u16 archive (e + 10)) (\<lambda>entry_count.
     res_bind (zip_u32 archive (e + 16)) (\<lambda>directory_offset.
       read_directory inflate archive max_total entry_count directory_offset 0)))"

end
