(* ===== verification/Pay_Alipay.thy ===== *)
theory Pay_Alipay
  imports Pay_Gateway Pay_Zip
begin

text \<open>
  The Alipay provider (\<open>phoenix-pay\<close>: \<open>alipay.rs\<close> and the second half of \<open>gateway.rs\<close>): the text a signature is
  made over, the part of a response that is signed, and every method of the provider. A parameter
  map is its sorted list of entries.
\<close>

section \<open>Protocol\<close>

definition alipay_KEY :: string where
  "alipay_KEY = ''alipay_f2f''"

definition MAX_BILL_ARCHIVE_BYTES :: nat where
  "MAX_BILL_ARCHIVE_BYTES = 256 * 1024 * 1024"

definition join_params :: "string list \<Rightarrow> (string, string) btree \<Rightarrow> string" where
  "join_params skip params =
     foldl (\<lambda>content (key, value).
         if key \<in> set skip \<or> value = [] then content
         else (if content = [] then [] else content @ ''&'') @ key @ ''='' @ value)
       [] params"

definition request_sign_content :: "(string, string) btree \<Rightarrow> string" where
  "request_sign_content = join_params [''sign'']"

definition notify_sign_content :: "(string, string) btree \<Rightarrow> string" where
  "notify_sign_content = join_params [''sign'', ''sign_type'']"

text \<open>\<open>str::find\<close>: the text from the first occurrence of a pattern on.\<close>

fun from_first :: "string \<Rightarrow> string \<Rightarrow> string option" where
  "from_first pattern s =
     (if take (length pattern) s = pattern then Some s
      else (case s of [] \<Rightarrow> None | c # s \<Rightarrow> from_first pattern s))"

declare from_first.simps [simp del]

text \<open>The scan over the bytes of the object: the depth of braces, and whether it stands in a string or
  after a backslash there. It starts at the first brace, so the depth is positive until it ends.\<close>

fun object_text :: "nat \<Rightarrow> bool \<Rightarrow> bool \<Rightarrow> string \<Rightarrow> string option" where
  "object_text depth in_string escaped [] = None"
| "object_text depth in_string escaped (byte # rest) =
     (if in_string then
        map_option (Cons byte)
          (if escaped then object_text depth True False rest
           else if byte = CHR 0x5C then object_text depth True True rest
           else if byte = CHR 0x22 then object_text depth False escaped rest
           else object_text depth True escaped rest)
      else if byte = CHR 0x22 then map_option (Cons byte) (object_text depth True escaped rest)
      else if byte = CHR ''{'' then map_option (Cons byte) (object_text (Suc depth) False escaped rest)
      else if byte = CHR ''}'' then
        (if depth - 1 = 0 then Some [byte] else map_option (Cons byte) (object_text (depth - 1) False escaped rest))
      else map_option (Cons byte) (object_text depth False escaped rest))"

definition extract_response_content :: "string \<Rightarrow> string \<Rightarrow> string option" where
  "extract_response_content body key =
     (let marker = [CHR 0x22] @ key @ [CHR 0x22]
      in Option.bind (from_first marker body) (\<lambda>s.
         Option.bind (from_first ''{'' (drop (length marker) s)) (object_text 0 False False)))"

definition map_trade_status :: "string \<Rightarrow> pay_error + payment_status" where
  "map_trade_status s =
     (if s \<in> {''TRADE_SUCCESS'', ''TRADE_FINISHED''} then Inr Paid
      else if s = ''WAIT_BUYER_PAY'' then Inr Pending
      else if s = ''TRADE_CLOSED'' then Inr Closed
      else Inl (InvalidNotify (''unknown Alipay trade_status `'' @ s @ ''`'')))"

definition payload_success :: "alipay_payload \<Rightarrow> bool" where
  "payload_success r \<longleftrightarrow> ap_code r = ''10000''"

definition payload_error_text :: "alipay_payload \<Rightarrow> string \<Rightarrow> string" where
  "payload_error_text r api =
     api @ '' failed: code='' @ ap_code r @ '' msg='' @ ap_msg r @ '' sub_code='' @ ap_sub_code r @ '' sub_msg='' @ ap_sub_msg r"

section \<open>The provider\<close>

record 'k alipay_cells =
  ax_signer :: "(pay_error + 'k) option"
  ax_verifier :: "(pay_error + string) option"

record ('k, 'w) alipay_inner =
  ai_config :: alipay_config
  ai_lib :: "'k gateway_lib"
  ai_io :: "'w gateway_io"
  ai_inflate :: inflater
  ai_user_agent :: string

type_synonym ('k, 'w, 'a) alipay_op = "('k alipay_cells \<times> 'w, pay_error, 'a) op"

definition alipay_cells_new :: "'k alipay_cells" where
  "alipay_cells_new = \<lparr>ax_signer = None, ax_verifier = None\<rparr>"

definition alipay_signer :: "('k, 'w) alipay_inner \<Rightarrow> ('k, 'w, 'k) alipay_op" where
  "alipay_signer p = (\<lambda>(c, w).
     (let r = (case ax_signer c of
                 Some r \<Rightarrow> r
               | None \<Rightarrow>
                   if al_sign_type (ai_config p) \<noteq> ''RSA2''
                   then Inl (PayConfig (''unsupported Alipay sign_type `'' @ al_sign_type (ai_config p) @ ''` (only RSA2)''))
                   else signer_from_pem (ai_lib p) (al_app_private_key (ai_config p)))
      in (r, (c\<lparr>ax_signer := Some r\<rparr>, w))))"

definition alipay_verifier :: "('k, 'w) alipay_inner \<Rightarrow> ('k, 'w, string) alipay_op" where
  "alipay_verifier p = (\<lambda>(c, w).
     (let r = (case ax_verifier c of
                 Some r \<Rightarrow> r
               | None \<Rightarrow> verifier_from_public_key_pem (ai_lib p) (al_alipay_public_key (ai_config p)))
      in (r, (c\<lparr>ax_verifier := Some r\<rparr>, w))))"

definition call_params :: "alipay_config \<Rightarrow> string \<Rightarrow> string \<Rightarrow> bool \<Rightarrow> string \<Rightarrow> (string, string) btree" where
  "call_params config api biz_content with_notify_url timestamp =
     bt_insert ''biz_content'' biz_content
       ((if with_notify_url then bt_insert ''notify_url'' (al_notify_url config) else id)
         (bt_insert ''version'' ''1.0'' (bt_insert ''timestamp'' timestamp (bt_insert ''sign_type'' (al_sign_type config)
           (bt_insert ''charset'' ''utf-8'' (bt_insert ''format'' ''JSON'' (bt_insert ''method'' api
             (bt_insert ''app_id'' (al_app_id config) []))))))))"

definition response_key :: "string \<Rightarrow> string" where
  "response_key api = map (\<lambda>c. if c = CHR ''.'' then CHR ''_'' else c) api @ ''_response''"

text \<open>What is done with a response: the signature is checked before any field is read.\<close>

definition read_response :: "'k gateway_lib \<Rightarrow> string \<Rightarrow> string \<Rightarrow> gateway_response \<Rightarrow> pay_error + alipay_payload" where
  "read_response lib verifier api response =
     (if gp_status response \<noteq> 200 then Inl (Gateway (api @ '' returned HTTP '' @ gl_status_text lib (gp_status response)))
      else if \<not> utf8_valid (gp_body response) then Inl (Gateway ''gateway response is not UTF-8'')
      else
        res_bind (ok_or (Gateway (''missing `'' @ response_key api @ ''` in response''))
            (extract_response_content (gp_body response) (response_key api))) (\<lambda>content.
        res_bind (map_error (\<lambda>e. Gateway (''response envelope: '' @ e)) (gl_read_sign lib (gp_body response))) (\<lambda>sign.
        res_bind (ok_or (Gateway ''unsigned Alipay response'') sign) (\<lambda>sign.
        res_bind (map_error (\<lambda>e. Gateway (''response sign: '' @ e)) (b64_decode lib sign)) (\<lambda>signature.
        if \<not> gl_verify lib verifier content signature then Inl (Gateway ''Alipay response signature verification failed'')
        else map_error (\<lambda>e. Gateway (''response payload: '' @ e)) (gl_read_payload lib content))))))"

definition alipay_call :: "('k, 'w) alipay_inner \<Rightarrow> string \<Rightarrow> gateway_json \<Rightarrow> bool \<Rightarrow> ('k, 'w, alipay_payload) alipay_op" where
  "alipay_call p api biz_content with_notify_url =
     op_bind (alipay_signer p) (\<lambda>key.
     op_bind (alipay_verifier p) (\<lambda>verifier.
     op_bind (on_snd (pay_unix_timestamp (ai_io p))) (\<lambda>now.
     (let params = call_params (ai_config p) api (gl_json_text (ai_lib p) biz_content) with_notify_url (gmt8_datetime now)
      in op_bind (op_lift (sign_base64 (ai_lib p) key (request_sign_content params))) (\<lambda>sign.
         op_bind (op_lift (map_error (\<lambda>e. Gateway (''encode request form: '' @ e)) (gl_form_text (ai_lib p) (bt_insert ''sign'' sign params)))) (\<lambda>form.
         op_bind (on_snd (io_http (ai_io p)
           \<lparr>gq_method = ''POST'', gq_url = al_gateway_url (ai_config p),
            gq_headers = [(''content-type'', ''application/x-www-form-urlencoded;charset=utf-8''), (''user-agent'', ai_user_agent p)],
            gq_body = form\<rparr>)) (\<lambda>response.
           op_lift (read_response (ai_lib p) verifier api response))))))))"

section \<open>The methods\<close>

definition alipay_create :: "('k, 'w) alipay_inner \<Rightarrow> create_order \<Rightarrow> ('k, 'w, payment_intent) alipay_op" where
  "alipay_create p order =
     op_bind (op_lift (create_order_validate order)) (\<lambda>_.
     op_bind (alipay_call p ''alipay.trade.precreate''
       (GObject [(''out_trade_no'', GString (co_out_trade_no order)), (''total_amount'', GString (decimal_string (co_amount order))),
          (''subject'', GString (co_subject order))]) True) (\<lambda>payload.
     op_lift (
       if \<not> payload_success payload then Inl (Gateway (payload_error_text payload ''alipay.trade.precreate''))
       else
         res_bind (ok_or (Gateway ''alipay.trade.precreate succeeded without qr_code'') (ap_qr_code payload)) (\<lambda>qr_code.
           Inr \<lparr>pi_provider = alipay_KEY, pi_out_trade_no = co_out_trade_no order, pi_amount = co_amount order,
                pi_action = QrCode qr_code\<rparr>))))"

definition alipay_query :: "('k, 'w) alipay_inner \<Rightarrow> string \<Rightarrow> ('k, 'w, payment_status) alipay_op" where
  "alipay_query p out_trade_no =
     op_bind (alipay_call p ''alipay.trade.query'' (GObject [(''out_trade_no'', GString out_trade_no)]) False) (\<lambda>payload.
     op_lift (
       if ap_sub_code payload = ''ACQ.TRADE_NOT_EXIST'' then Inl (OrderNotFound alipay_KEY out_trade_no)
       else if \<not> payload_success payload then Inl (Gateway (payload_error_text payload ''alipay.trade.query''))
       else
         res_bind (ok_or (Gateway ''alipay.trade.query succeeded without trade_status'') (ap_trade_status payload)) map_trade_status))"

definition alipay_close :: "('k, 'w) alipay_inner \<Rightarrow> string \<Rightarrow> ('k, 'w, unit) alipay_op" where
  "alipay_close p out_trade_no =
     op_bind (alipay_call p ''alipay.trade.close'' (GObject [(''out_trade_no'', GString out_trade_no)]) False) (\<lambda>payload.
     op_lift (
       if ap_sub_code payload = ''ACQ.TRADE_NOT_EXIST'' then Inl (OrderNotFound alipay_KEY out_trade_no)
       else if \<not> payload_success payload then Inl (Gateway (payload_error_text payload ''alipay.trade.close''))
       else Inr ()))"

definition alipay_refund :: "('k, 'w) alipay_inner \<Rightarrow> refund_order \<Rightarrow> ('k, 'w, refund_receipt) alipay_op" where
  "alipay_refund p refund =
     op_bind (op_lift (refund_validate refund)) (\<lambda>_.
     op_bind (alipay_call p ''alipay.trade.refund''
       (GObject ([(''out_trade_no'', GString (ro_out_trade_no refund)), (''refund_amount'', GString (decimal_string (ro_amount refund))),
          (''out_request_no'', GString (ro_out_refund_no refund))] @
          (case ro_reason refund of None \<Rightarrow> [] | Some reason \<Rightarrow> [(''refund_reason'', GString reason)]))) False) (\<lambda>payload.
     op_lift (
       if ap_sub_code payload = ''ACQ.TRADE_NOT_EXIST'' then Inl (OrderNotFound alipay_KEY (ro_out_trade_no refund))
       else if \<not> payload_success payload then Inl (Gateway (payload_error_text payload ''alipay.trade.refund''))
       else
         res_bind (case ap_refund_fee payload of Some fee \<Rightarrow> cny_from_decimal_str fee | None \<Rightarrow> Inr (ro_amount refund)) (\<lambda>amt.
           Inr \<lparr>rc_provider = alipay_KEY, rc_out_trade_no = ro_out_trade_no refund, rc_out_refund_no = ro_out_refund_no refund,
                rc_refund_id = ap_trade_no payload, rc_amount = amt, rc_status = Succeeded, rc_raw = []\<rparr>))))"

definition alipay_query_refund :: "('k, 'w) alipay_inner \<Rightarrow> string \<Rightarrow> string \<Rightarrow> ('k, 'w, refund_receipt) alipay_op" where
  "alipay_query_refund p out_trade_no out_refund_no =
     op_bind (alipay_call p ''alipay.trade.fastpay.refund.query''
       (GObject [(''out_trade_no'', GString out_trade_no), (''out_request_no'', GString out_refund_no)]) False) (\<lambda>payload.
     op_lift (
       if ap_sub_code payload = ''ACQ.TRADE_NOT_EXIST'' then Inl (RefundNotFound alipay_KEY out_refund_no)
       else if \<not> payload_success payload then Inl (Gateway (payload_error_text payload ''alipay.trade.fastpay.refund.query''))
       else if ap_out_request_no payload = None \<and> ap_refund_amount payload = None then Inl (RefundNotFound alipay_KEY out_refund_no)
       else
         res_bind (case ap_refund_amount payload of Some v \<Rightarrow> cny_from_decimal_str v | None \<Rightarrow> Inr (cny 0)) (\<lambda>amt.
           Inr \<lparr>rc_provider = alipay_KEY, rc_out_trade_no = out_trade_no, rc_out_refund_no = out_refund_no,
                rc_refund_id = ap_trade_no payload, rc_amount = amt,
                rc_status = (case ap_refund_status payload of
                   None \<Rightarrow> Succeeded | Some s \<Rightarrow> if s = ''REFUND_SUCCESS'' then Succeeded else Processing),
                rc_raw = []\<rparr>)))"

definition alipay_bill_url :: "('k, 'w) alipay_inner \<Rightarrow> string \<Rightarrow> ('k, 'w, string) alipay_op" where
  "alipay_bill_url p date =
     op_bind (alipay_call p ''alipay.data.dataservice.bill.downloadurl.query''
       (GObject [(''bill_type'', GString ''trade''), (''bill_date'', GString date)]) False) (\<lambda>payload.
     op_lift (
       if \<not> payload_success payload
       then Inl (Reconcile (payload_error_text payload ''alipay.data.dataservice.bill.downloadurl.query''))
       else ok_or (Reconcile ''bill download query succeeded without a URL'') (ap_bill_download_url payload)))"

text \<open>The bill of the member with the most rows, the first of several.\<close>

definition best_bill :: "string \<Rightarrow> zip_entry list \<Rightarrow> bill option" where
  "best_bill date members =
     foldl (\<lambda>best member.
         (case parse_bill_csv_bytes alipay_KEY date (ze_data member) of
            Inl _ \<Rightarrow> best
          | Inr b \<Rightarrow>
              if (case best of None \<Rightarrow> True | Some current \<Rightarrow> length (bl_entries b) > length (bl_entries current)) then Some b else best))
       None members"

definition read_bill_archive :: "inflater \<Rightarrow> string \<Rightarrow> string \<Rightarrow> pay_error + bill" where
  "read_bill_archive inflate date archive =
     res_bind (read_entries inflate archive MAX_BILL_ARCHIVE_BYTES) (\<lambda>members.
     if members = [] then Inl (Reconcile ''bill archive is empty'')
     else ok_or (Reconcile (''no member of the bill archive is a trade detail ('' @ join_with '', '' (map ze_name members) @ '')''))
            (best_bill date members))"

definition alipay_download_bill :: "('k, 'w) alipay_inner \<Rightarrow> string \<Rightarrow> ('k, 'w, bill) alipay_op" where
  "alipay_download_bill p date =
     op_bind (alipay_bill_url p date) (\<lambda>url.
     op_bind (on_snd (io_http (ai_io p) \<lparr>gq_method = ''GET'', gq_url = url, gq_headers = [(''user-agent'', ai_user_agent p)], gq_body = []\<rparr>)) (\<lambda>response.
     op_lift (
       if gp_status response \<noteq> 200
       then Inl (Reconcile (''bill download returned HTTP '' @ gl_status_text (ai_lib p) (gp_status response)))
       else read_bill_archive (ai_inflate p) date (gp_body response))))"

text \<open>The checks of a notification, given the key.\<close>

definition read_notify :: "'k gateway_lib \<Rightarrow> alipay_config \<Rightarrow> string \<Rightarrow> notify_request \<Rightarrow> pay_error + notify_event" where
  "read_notify lib config verifier notify =
     res_bind (body_str notify) (\<lambda>raw.
     res_bind (map_error (\<lambda>e. InvalidNotify (''notify form: '' @ e)) (gl_read_form lib raw)) (\<lambda>params.
     (let sign_type = (case map_of params ''sign_type'' of None \<Rightarrow> [] | Some v \<Rightarrow> v)
      in if sign_type \<noteq> ''RSA2'' then Inl (InvalidNotify (''unsupported notify sign_type `'' @ sign_type @ ''`''))
         else
           res_bind (ok_or (InvalidNotify ''notify has no sign'') (map_of params ''sign'')) (\<lambda>sign.
           res_bind (map_error (\<lambda>e. InvalidNotify (''notify sign: '' @ e)) (b64_decode lib sign)) (\<lambda>signature.
           if \<not> gl_verify lib verifier (notify_sign_content params) signature
           then Inl (InvalidNotify ''Alipay notify signature verification failed'')
           else if map_of params ''app_id'' \<noteq> Some (al_app_id config)
           then Inl (InvalidNotify ''notify app_id does not match this channel'')
           else
             res_bind (ok_or (InvalidNotify ''notify has no out_trade_no'') (map_of params ''out_trade_no'')) (\<lambda>out_trade_no.
             res_bind (ok_or (InvalidNotify ''notify has no trade_status'') (map_of params ''trade_status'')) (\<lambda>trade_status.
             res_bind (map_trade_status trade_status) (\<lambda>status.
               Inr \<lparr>ne_out_trade_no = out_trade_no, ne_transaction_id = map_of params ''trade_no'', ne_status = status,
                    ne_raw = raw\<rparr>))))))))"

definition alipay_verify_notify :: "('k, 'w) alipay_inner \<Rightarrow> notify_request \<Rightarrow> ('k, 'w, notify_event) alipay_op" where
  "alipay_verify_notify p notify =
     op_bind (alipay_verifier p) (\<lambda>verifier. op_lift (read_notify (ai_lib p) (ai_config p) verifier notify))"

definition alipay_provider :: "('k, 'w) alipay_inner \<Rightarrow> ('k alipay_cells \<times> 'w) provider" where
  "alipay_provider p =
     \<lparr>pv_key = alipay_KEY, pv_create = alipay_create p, pv_verify_notify = alipay_verify_notify p, pv_query = alipay_query p,
      pv_close = alipay_close p, pv_refund = alipay_refund p, pv_verify_refund_notify = pv_verify_refund_notify_default,
      pv_query_refund = alipay_query_refund p, pv_download_bill = alipay_download_bill p\<rparr>"

end
