(* ===== verification/Pay_Zip_Props.thy ===== *)
theory Pay_Zip_Props
  imports Pay_Zip
begin

text \<open>
  The reader of bill archives against a writer of the format: what was written is read back, and
  nothing it returns is larger than the limit.
\<close>

section \<open>A writer\<close>

fun le_bytes :: "nat \<Rightarrow> nat \<Rightarrow> string" where
  "le_bytes 0 n = []"
| "le_bytes (Suc k) n = char_of (n mod 256) # le_bytes k (n div 256)"

record zip_member =
  zm_name :: string
  zm_compression :: nat
  zm_crc :: string
  zm_compressed :: string
  zm_data :: string

definition local_record :: "zip_member \<Rightarrow> string" where
  "local_record m =
     LOCAL_HEADER @ le_bytes 2 20 @ le_bytes 2 0 @ le_bytes 2 (zm_compression m) @ le_bytes 4 0 @ zm_crc m @
     le_bytes 4 (length (zm_compressed m)) @ le_bytes 4 (length (zm_data m)) @ le_bytes 2 (length (zm_name m)) @ le_bytes 2 0 @
     zm_name m @ zm_compressed m"

definition central_record :: "nat \<Rightarrow> zip_member \<Rightarrow> string" where
  "central_record off m =
     CENTRAL_HEADER @ le_bytes 2 20 @ le_bytes 2 20 @ le_bytes 2 0 @ le_bytes 2 (zm_compression m) @ le_bytes 4 0 @ zm_crc m @
     le_bytes 4 (length (zm_compressed m)) @ le_bytes 4 (length (zm_data m)) @ le_bytes 2 (length (zm_name m)) @ le_bytes 2 0 @
     le_bytes 2 0 @ le_bytes 2 0 @ le_bytes 2 0 @ le_bytes 4 0 @ le_bytes 4 off @ zm_name m"

fun central_records :: "nat \<Rightarrow> zip_member list \<Rightarrow> string" where
  "central_records off [] = []"
| "central_records off (m # ms) = central_record off m @ central_records (off + length (local_record m)) ms"

definition end_record :: "nat \<Rightarrow> nat \<Rightarrow> nat \<Rightarrow> string" where
  "end_record entries dsize off =
     END_OF_DIRECTORY @ le_bytes 2 0 @ le_bytes 2 0 @ le_bytes 2 entries @ le_bytes 2 entries @ le_bytes 4 dsize @ le_bytes 4 off @ le_bytes 2 0"

definition local_records :: "zip_member list \<Rightarrow> string" where
  "local_records ms = concat (map local_record ms)"

definition zip_write :: "zip_member list \<Rightarrow> string" where
  "zip_write ms =
     local_records ms @ central_records 0 ms @
     end_record (length ms) (length (central_records 0 ms)) (length (local_records ms))"

definition member_ok :: "inflater \<Rightarrow> zip_member \<Rightarrow> bool" where
  "member_ok inflate m \<longleftrightarrow>
     length (zm_crc m) = 4 \<and> length (zm_name m) < 2 ^ 16 \<and> length (zm_compressed m) < 2 ^ 32 \<and> length (zm_data m) < 2 ^ 32 \<and>
     (zm_compression m = 0 \<and> zm_compressed m = zm_data m \<or> zm_compression m = 8 \<and> inflate (zm_compressed m) = (zm_data m, None))"

section \<open>Fields\<close>

lemma length_le_bytes [simp]: "length (le_bytes k n) = k"
  by (induction k arbitrary: n) simp_all

lemma length_signatures [simp]: "length LOCAL_HEADER = 4" "length CENTRAL_HEADER = 4" "length END_OF_DIRECTORY = 4"
  by (simp_all add: LOCAL_HEADER_def CENTRAL_HEADER_def END_OF_DIRECTORY_def bytes_def)

lemma le_value_le_bytes: "n < 256 ^ k \<Longrightarrow> le_value (le_bytes k n) = n"
proof (induction k arbitrary: n)
  case (Suc k)
  then have "n div 256 < 256 ^ k" by (simp add: less_mult_imp_div_less mult.commute)
  then show ?case using Suc.IH by (simp add: le_value_def)
qed (simp add: le_value_def)

lemma le_value_two [simp]: "n < 65536 \<Longrightarrow> le_value (le_bytes 2 n) = n"
  and le_value_four [simp]: "n < 4294967296 \<Longrightarrow> le_value (le_bytes 4 n) = n"
  using le_value_le_bytes [of n 2] le_value_le_bytes [of n 4] by simp_all

lemma slice_get_mid: "k + len \<le> length r \<Longrightarrow> slice_get (a @ r @ b) (length a + k) len = slice_get r k len"
  by (simp add: slice_get_def)

lemma slice_get_start: "length a = off \<Longrightarrow> slice_get (a @ r @ b) off (length r) = Some r"
  by (auto simp: slice_get_def)

lemma length_records [simp]:
  "length (zm_crc m) = 4 \<Longrightarrow> length (local_record m) = 30 + length (zm_name m) + length (zm_compressed m)"
  "length (zm_crc m) = 4 \<Longrightarrow> length (central_record off m) = 46 + length (zm_name m)"
  "length (end_record n dsize off) = 22"
  by (simp_all add: local_record_def central_record_def end_record_def)

lemma local_fields:
  assumes "member_ok inflate m"
  shows "slice_get (local_record m) 0 4 = Some LOCAL_HEADER" "slice_get (local_record m) 26 2 = Some (le_bytes 2 (length (zm_name m)))"
    "slice_get (local_record m) 28 2 = Some (le_bytes 2 0)"
    "slice_get (local_record m) (30 + length (zm_name m)) (length (zm_compressed m)) = Some (zm_compressed m)"
  using assms by (simp_all add: member_ok_def slice_get_def local_record_def)

lemma central_fields:
  assumes "member_ok inflate m"
  shows "slice_get (central_record off m) 0 4 = Some CENTRAL_HEADER" "slice_get (central_record off m) 10 2 = Some (le_bytes 2 (zm_compression m))"
    "slice_get (central_record off m) 20 4 = Some (le_bytes 4 (length (zm_compressed m)))"
    "slice_get (central_record off m) 24 4 = Some (le_bytes 4 (length (zm_data m)))"
    "slice_get (central_record off m) 28 2 = Some (le_bytes 2 (length (zm_name m)))" "slice_get (central_record off m) 30 2 = Some (le_bytes 2 0)"
    "slice_get (central_record off m) 32 2 = Some (le_bytes 2 0)" "slice_get (central_record off m) 42 4 = Some (le_bytes 4 off)"
    "slice_get (central_record off m) 46 (length (zm_name m)) = Some (zm_name m)"
  using assms by (simp_all add: member_ok_def slice_get_def central_record_def)

section \<open>Reading back\<close>

lemma read_member_written:
  assumes "member_ok inflate m" and "archive = a @ local_record m @ b"
  shows "read_member inflate archive (length a) (zm_compression m) (length (zm_compressed m)) (length (zm_data m)) = Inr (zm_data m)"
proof -
  have crc: "length (zm_crc m) = 4" "length (zm_name m) < 65536" using assms(1) by (simp_all add: member_ok_def)
  have field: "slice_get archive (length a + k) len = slice_get (local_record m) k len" if "k + len \<le> 30 + length (zm_name m) + length (zm_compressed m)" for k len
    unfolding assms(2) by (rule slice_get_mid) (simp add: crc that)
  have "slice_get archive (length a) 4 = Some LOCAL_HEADER"
    using field [of 0 4] local_fields(1) [OF assms(1)] by simp
  moreover have "zip_u16 archive (length a + 26) = Inr (length (zm_name m))" "zip_u16 archive (length a + 28) = Inr 0"
    using field [of 26 2] field [of 28 2] local_fields(2,3) [OF assms(1)] crc by (simp_all add: zip_u16_def)
  moreover have "slice_get archive (length a + LOCAL_HEADER_LEN + length (zm_name m) + 0) (length (zm_compressed m)) = Some (zm_compressed m)"
    using field [of "30 + length (zm_name m)" "length (zm_compressed m)"] local_fields(4) [OF assms(1)] by (simp add: LOCAL_HEADER_LEN_def add.assoc)
  ultimately show ?thesis
    using assms(1) by (auto simp: read_member_def member_ok_def inflate_at_most_def)
qed

lemma read_directory_written:
  assumes "archive = a @ central_records (length l) ms @ b" and "archive = l @ local_records ms @ r"
    and "list_all (member_ok inflate) ms" and "length l + length (local_records ms) < 2 ^ 32"
    and "inflated + (\<Sum>m\<leftarrow>ms. length (zm_data m)) \<le> max_total" and "max_total < 2 ^ 64"
  shows "read_directory inflate archive max_total (length ms) (length a) inflated =
    Inr (map (\<lambda>m. \<lparr>ze_name = utf8_lossy (zm_name m), ze_data = zm_data m\<rparr>) ms)"
  using assms
proof (induction ms arbitrary: a l inflated)
  case (Cons m ms)
  let ?c = "central_record (length l) m"
  have ok: "member_ok inflate m" using Cons.prems(3) by simp
  have crc: "length (zm_crc m) = 4" "length (zm_name m) < 65536" "length (zm_compressed m) < 4294967296" "length (zm_data m) < 4294967296"
      "zm_compression m < 65536" "length l < 4294967296"
    using ok Cons.prems(4) by (auto simp: member_ok_def)
  have field: "slice_get archive (length a + k) len = slice_get ?c k len" if "k + len \<le> 46 + length (zm_name m)" for k len
    using slice_get_mid [of k len ?c a "central_records (length l + length (local_record m)) ms @ b"] that crc(1) Cons.prems(1) by simp
  have "slice_get archive (length a) 4 = Some CENTRAL_HEADER"
    using field [of 0 4] central_fields(1) [OF ok] by simp
  moreover have "zip_u16 archive (length a + 10) = Inr (zm_compression m)" "zip_u32 archive (length a + 20) = Inr (length (zm_compressed m))"
      "zip_u32 archive (length a + 24) = Inr (length (zm_data m))" "zip_u16 archive (length a + 28) = Inr (length (zm_name m))"
      "zip_u16 archive (length a + 30) = Inr 0" "zip_u16 archive (length a + 32) = Inr 0" "zip_u32 archive (length a + 42) = Inr (length l)"
    using crc field [of 10 2] field [of 20 4] field [of 24 4] field [of 28 2] field [of 30 2] field [of 32 2] field [of 42 4] central_fields [OF ok]
    by (simp_all add: zip_u16_def zip_u32_def)
  moreover have "slice_get archive (length a + CENTRAL_HEADER_LEN) (length (zm_name m)) = Some (zm_name m)"
    using field [of 46 "length (zm_name m)"] central_fields(9) [OF ok] by (simp add: CENTRAL_HEADER_LEN_def)
  moreover have "read_member inflate archive (length l) (zm_compression m) (length (zm_compressed m)) (length (zm_data m)) = Inr (zm_data m)"
    by (rule read_member_written [OF ok, of _ l "local_records ms @ r"]) (use Cons.prems(2) in \<open>simp add: local_records_def\<close>)
  moreover have "read_directory inflate archive max_total (length ms) (length (a @ ?c)) (inflated + length (zm_data m)) =
      Inr (map (\<lambda>m. \<lparr>ze_name = utf8_lossy (zm_name m), ze_data = zm_data m\<rparr>) ms)"
    by (rule Cons.IH [of "a @ ?c" "l @ local_record m"]) (use Cons.prems in \<open>simp_all add: local_records_def\<close>)
  moreover have "inflated + length (zm_data m) \<le> max_total" using Cons.prems(5) by simp
  ultimately show ?case
    using Cons.prems(6) crc(1) by (simp add: CENTRAL_HEADER_LEN_def add.assoc)
qed simp

lemma archive_written:
  assumes "list_all (member_ok inflate) ms" and "length ms < 2 ^ 16" and "length (zip_write ms) < 2 ^ 32"
    and "(\<Sum>m\<leftarrow>ms. length (zm_data m)) \<le> max_total" and "max_total < 2 ^ 64"
  shows "read_entries inflate (zip_write ms) max_total =
    Inr (map (\<lambda>m. \<lparr>ze_name = utf8_lossy (zm_name m), ze_data = zm_data m\<rparr>) ms)"
proof -
  let ?l = "local_records ms" and ?c = "central_records 0 ms"
  let ?e = "end_record (length ms) (length ?c) (length ?l)" and ?a = "zip_write ms"
  have parts: "?a = (?l @ ?c) @ ?e @ []" by (simp add: zip_write_def)
  have field: "slice_get ?a (length (?l @ ?c) + k) len = slice_get ?e k len" if "k + len \<le> 22" for k len
    unfolding parts by (rule slice_get_mid) (simp add: that)
  have total: "length ?a - END_OF_DIRECTORY_LEN = length (?l @ ?c)" "\<not> length ?a < END_OF_DIRECTORY_LEN"
    by (simp_all add: parts END_OF_DIRECTORY_LEN_def)
  have "scan_end ?a (length ?a - (END_OF_DIRECTORY_LEN + 0xFFFF)) (length (?l @ ?c)) = Some (length (?l @ ?c))"
    using field [of 0 4] by (subst scan_end.simps) (simp add: parts END_OF_DIRECTORY_LEN_def, simp add: slice_get_def end_record_def)
  then have "find_end_of_directory ?a = Inr (length (?l @ ?c))"
    using total by (simp add: find_end_of_directory_def)
  moreover have "zip_u16 ?a (length (?l @ ?c) + 10) = Inr (length ms)" "zip_u32 ?a (length (?l @ ?c) + 16) = Inr (length ?l)"
    using field [of 10 2] field [of 16 4] assms(2,3) by (simp_all add: zip_u16_def zip_u32_def slice_get_def end_record_def zip_write_def)
  moreover have "read_directory inflate ?a max_total (length ms) (length ?l) 0 = Inr (map (\<lambda>m. \<lparr>ze_name = utf8_lossy (zm_name m), ze_data = zm_data m\<rparr>) ms)"
    by (rule read_directory_written [of ?a ?l "[]" ms ?e "?c @ ?e"]) (use assms in \<open>simp_all add: zip_write_def\<close>)
  ultimately show ?thesis by (simp add: read_entries_def)
qed

text \<open>C22: a bill archive is read back as it was written. The members of an archive, stored or deflated, come out with
  their names and bytes and in their order, when they are together no larger than the limit.\<close>

theorem archive_reads_back:
  assumes "list_all (member_ok inflate) ms" and "length ms < 2 ^ 16" and "length (zip_write ms) < 2 ^ 32"
    and "(\<Sum>m\<leftarrow>ms. length (zm_data m)) \<le> max_total" and "max_total < 2 ^ 64"
  shows "read_entries inflate (zip_write ms) max_total =
    Inr (map (\<lambda>m. \<lparr>ze_name = utf8_lossy (zm_name m), ze_data = zm_data m\<rparr>) ms)"
  by (rule archive_written [OF assms])

definition demo_member :: zip_member where
  "demo_member = \<lparr>zm_name = ''bill.csv'', zm_compression = 0, zm_crc = ''crc!'', zm_compressed = ''row'', zm_data = ''row''\<rparr>"

lemma demo_member_ok: "list_all (member_ok inflate) [demo_member]" "length (zip_write [demo_member]) < 2 ^ 32"
  by (simp_all add: member_ok_def demo_member_def zip_write_def local_records_def)

theorem archive_reads_back_witness:
  "read_entries (\<lambda>s. (s, None)) (zip_write [demo_member]) 10 = Inr [\<lparr>ze_name = utf8_lossy ''bill.csv'', ze_data = ''row''\<rparr>]"
  using archive_reads_back [OF demo_member_ok(1) _ demo_member_ok(2), of 10] by (simp add: demo_member_def)

section \<open>The limit\<close>

lemma read_member_size: "read_member inflate archive off compression c u = Inr data \<Longrightarrow> length data \<le> u"
  by (auto simp: read_member_def res_bind_Inr_iff inflate_at_most_def split: if_splits prod.splits option.splits)

lemma read_directory_size:
  "read_directory inflate archive max_total n cursor inflated = Inr es \<Longrightarrow> inflated \<le> max_total \<Longrightarrow>
    inflated + (\<Sum>e\<leftarrow>es. length (ze_data e)) \<le> max_total"
proof (induction n arbitrary: cursor inflated es)
  case (Suc n)
  then obtain u data cursor' es' where "inflated + u \<le> max_total" "length data \<le> u"
      "read_directory inflate archive max_total n cursor' (inflated + u) = Inr es'" "map ze_data es = data # map ze_data es'"
    by (auto simp: res_bind_Inr_iff not_less map_sum_Inr_iff split: if_splits dest!: read_member_size)
  moreover have "(\<Sum>e\<leftarrow>es. length (ze_data e)) = (\<Sum>d\<leftarrow>map ze_data es. length d)" by (simp add: comp_def)
  ultimately show ?case using Suc.IH [of cursor' "inflated + u" es'] by (simp add: comp_def)
qed simp

text \<open>A hostile archive cannot be expanded past the limit. Whatever the bytes of an archive and whatever its
  deflated members produce, the members that are returned are together no larger than the limit.\<close>

theorem archive_bounded:
  assumes "read_entries inflate archive max_total = Inr es"
  shows "(\<Sum>e\<leftarrow>es. length (ze_data e)) \<le> max_total"
  using assms read_directory_size by (fastforce simp: read_entries_def res_bind_Inr_iff)

theorem archive_bounded_witness:
  "\<exists>es. read_entries (\<lambda>s. (s, None)) (zip_write [demo_member]) 10 = Inr es \<and> (\<Sum>e\<leftarrow>es. length (ze_data e)) \<le> 10"
proof -
  obtain es where "read_entries (\<lambda>s. (s, None)) (zip_write [demo_member]) 10 = Inr es"
    using archive_written [OF demo_member_ok(1) _ demo_member_ok(2), of 10] by (simp add: demo_member_def)
  then show ?thesis using archive_bounded by blast
qed

end
