(* ===== verification/Pay_Alipay_Props.thy ===== *)
theory Pay_Alipay_Props
  imports Pay_Alipay Pay_Zip_Props Pay_Wechat_Props
begin

text \<open>
  What holds of the Alipay provider: which part of a response is taken as the signed one, what the
  signature of a notification says about its fields, and that nothing is read from a response or a
  notification that was not signed.
\<close>

section \<open>The signed part of a response\<close>

text \<open>The texts of JSON objects, as far as braces and strings go: what follows the opening quote of a
  string, what stands between braces, and objects.\<close>

inductive string_rest :: "string \<Rightarrow> bool" where
  rest_close: "string_rest [CHR 0x22]"
| rest_escape: "string_rest s \<Longrightarrow> string_rest (CHR 0x5C # c # s)"
| rest_char: "string_rest s \<Longrightarrow> c \<noteq> CHR 0x22 \<Longrightarrow> c \<noteq> CHR 0x5C \<Longrightarrow> string_rest (c # s)"

inductive balanced :: "string \<Rightarrow> bool" where
  balanced_Nil: "balanced []"
| balanced_char: "balanced s \<Longrightarrow> c \<notin> {CHR 0x22, CHR ''{'', CHR ''}''} \<Longrightarrow> balanced (c # s)"
| balanced_string: "string_rest q \<Longrightarrow> balanced s \<Longrightarrow> balanced (CHR 0x22 # q @ s)"
| balanced_object: "balanced s \<Longrightarrow> balanced t \<Longrightarrow> balanced (CHR ''{'' # s @ CHR ''}'' # t)"

definition object_syntax :: "string \<Rightarrow> bool" where
  "object_syntax o' \<longleftrightarrow> (\<exists>s. balanced s \<and> o' = ''{'' @ s @ ''}'')"

text \<open>What closes a number of open braces.\<close>

inductive closes :: "nat \<Rightarrow> string \<Rightarrow> bool" where
  closes_last: "balanced s \<Longrightarrow> closes 1 (s @ ''}'')"
| closes_more: "balanced s \<Longrightarrow> closes n t \<Longrightarrow> closes (Suc n) (s @ ''}'' @ t)"

lemma string_text: "string_rest q \<Longrightarrow> object_text d True False (q @ s) = map_option (append q) (object_text d False False s)"
  by (induction rule: string_rest.induct) (auto simp: option.map_comp comp_def)

lemma balanced_text: "balanced s \<Longrightarrow> object_text (Suc d) False False (s @ t) = map_option (append s) (object_text (Suc d) False False t)"
proof (induction arbitrary: d t rule: balanced.induct)
  case (balanced_string q s)
  then show ?case by (simp add: string_text option.map_comp comp_def)
next
  case (balanced_object s u)
  show ?case
    using balanced_object.IH(1) [of "Suc d" "CHR ''}'' # u @ t"] balanced_object.IH(2) [of d t] by (simp add: option.map_comp comp_def)
qed (simp_all add: map_option_case split: option.splits)

lemma balanced_append_char: "closes n t \<Longrightarrow> c \<notin> {CHR 0x22, CHR ''{'', CHR ''}''} \<Longrightarrow> closes n (c # t)"
  by (induction rule: closes.induct) (metis append_Cons balanced_char closes_last, metis append_Cons balanced_char closes_more)

lemma closes_string: "closes n t \<Longrightarrow> string_rest q \<Longrightarrow> closes n (CHR 0x22 # q @ t)"
  by (induction rule: closes.induct) (metis append.assoc append_Cons balanced_string closes_last, metis append.assoc append_Cons balanced_string closes_more)

lemma closes_brace:
  assumes "closes (Suc (Suc n)) t"
  shows "closes (Suc n) (CHR ''{'' # t)"
proof -
  obtain s u where su: "balanced s" "closes (Suc n) u" "t = s @ ''}'' @ u" using assms by (auto elim: closes.cases)
  from su(2) consider (last) v where "n = 0" "balanced v" "u = v @ ''}''" | (more) v w where "closes n w" "balanced v" "u = v @ ''}'' @ w"
    by (auto elim: closes.cases)
  then show ?thesis
  proof cases
    case last
    then show ?thesis using closes_last [OF balanced_object [OF su(1) last(2)]] su(3) by simp
  next
    case more
    then show ?thesis using closes_more [OF balanced_object [OF su(1) more(2)] more(1)] su(3) by simp
  qed
qed

lemma text_closes:
  "(object_text (Suc d) False False t = Some o' \<longrightarrow> closes (Suc d) o' \<and> (\<exists>post. t = o' @ post)) \<and>
   (object_text (Suc d) True False t = Some o' \<longrightarrow> (\<exists>q u. string_rest q \<and> closes (Suc d) u \<and> o' = q @ u) \<and> (\<exists>post. t = o' @ post)) \<and>
   (object_text (Suc d) True True t = Some o' \<longrightarrow> (\<exists>c q u. string_rest q \<and> closes (Suc d) u \<and> o' = c # q @ u) \<and> (\<exists>post. t = o' @ post))"
proof (induction t arbitrary: d o')
  case (Cons c t)
  have plain: "closes (Suc d) o' \<and> (\<exists>post. c # t = o' @ post)" if tx: "object_text (Suc d) False False (c # t) = Some o'"
  proof -
    consider (quote) u where "c = CHR 0x22" "o' = c # u" "object_text (Suc d) True False t = Some u"
      | (brace) u where "c = CHR ''{''" "o' = c # u" "object_text (Suc (Suc d)) False False t = Some u"
      | (last) "c = CHR ''}''" "d = 0" "o' = [c]"
      | (more) u e where "c = CHR ''}''" "d = Suc e" "o' = c # u" "object_text (Suc e) False False t = Some u"
      | (other) u where "c \<notin> {CHR 0x22, CHR ''{'', CHR ''}''}" "o' = c # u" "object_text (Suc d) False False t = Some u"
      using tx by (cases d) (auto split: if_splits)
    then show ?thesis
    proof cases
      case quote
      then show ?thesis using Cons.IH [of d u] closes_string by fastforce
    next
      case brace
      then show ?thesis using Cons.IH [of "Suc d" u] closes_brace by fastforce
    next
      case last
      then show ?thesis using closes_last [OF balanced_Nil] by simp
    next
      case more
      then show ?thesis using Cons.IH [of e u] closes_more [OF balanced_Nil] by fastforce
    next
      case other
      then show ?thesis using Cons.IH [of d u] balanced_append_char by fastforce
    qed
  qed
  have string: "(\<exists>q u. string_rest q \<and> closes (Suc d) u \<and> o' = q @ u) \<and> (\<exists>post. c # t = o' @ post)"
    if tx: "object_text (Suc d) True False (c # t) = Some o'"
  proof -
    consider (escape) u where "c = CHR 0x5C" "o' = c # u" "object_text (Suc d) True True t = Some u"
      | (quote) u where "c = CHR 0x22" "o' = c # u" "object_text (Suc d) False False t = Some u"
      | (other) u where "c \<noteq> CHR 0x5C" "c \<noteq> CHR 0x22" "o' = c # u" "object_text (Suc d) True False t = Some u"
      using tx by (auto split: if_splits)
    then show ?thesis
    proof cases
      case escape
      then obtain e q v post where "string_rest q" "closes (Suc d) v" "u = e # q @ v" "t = u @ post"
        using Cons.IH [of d u] by blast
      then show ?thesis using escape rest_escape [of q e] by (metis append.assoc append_Cons)
    next
      case quote
      then show ?thesis using Cons.IH [of d u] rest_close by fastforce
    next
      case other
      then obtain q v post where "string_rest q" "closes (Suc d) v" "u = q @ v" "t = u @ post"
        using Cons.IH [of d u] by blast
      then show ?thesis using other rest_char [of q c] by (metis append.assoc append_Cons)
    qed
  qed
  have escaped: "(\<exists>b q u. string_rest q \<and> closes (Suc d) u \<and> o' = b # q @ u) \<and> (\<exists>post. c # t = o' @ post)"
    if tx: "object_text (Suc d) True True (c # t) = Some o'"
  proof -
    obtain z where "o' = c # z" "object_text (Suc d) True False t = Some z" using tx by auto
    then show ?thesis using Cons.IH [of d z] by fastforce
  qed
  show ?case using plain string escaped by blast
qed simp

lemma object_text_exact:
  "object_text 0 False False (CHR ''{'' # t) = Some o' \<longleftrightarrow> object_syntax o' \<and> (\<exists>post. CHR ''{'' # t = o' @ post)"
proof
  assume "object_text 0 False False (CHR ''{'' # t) = Some o'"
  then obtain u where "o' = CHR ''{'' # u" "object_text (Suc 0) False False t = Some u" by auto
  moreover from this(2) have "closes (Suc 0) u" "\<exists>post. t = u @ post" using text_closes by blast+
  moreover have "\<exists>s. balanced s \<and> u = s @ ''}''" using \<open>closes (Suc 0) u\<close>
    by (cases rule: closes.cases) (auto elim: closes.cases)
  ultimately show "object_syntax o' \<and> (\<exists>post. CHR ''{'' # t = o' @ post)"
    by (auto simp: object_syntax_def)
next
  assume "object_syntax o' \<and> (\<exists>post. CHR ''{'' # t = o' @ post)"
  then obtain s post where "balanced s" "o' = ''{'' @ s @ ''}''" "t = s @ CHR ''}'' # post" by (auto simp: object_syntax_def)
  then show "object_text 0 False False (CHR ''{'' # t) = Some o'" by (simp add: balanced_text)
qed

lemma from_first_Some:
  "from_first p s = Some r \<longleftrightarrow> (\<exists>pre. s = pre @ r \<and> take (length p) r = p \<and> (\<forall>i < length pre. take (length p) (drop i s) \<noteq> p))"
proof (induction p s rule: from_first.induct)
  case (1 p s)
  show ?case
  proof (cases "take (length p) s = p")
    case True
    then have "from_first p s = Some s" by (subst from_first.simps) simp
    moreover have "pre = []" if "\<forall>i < length pre. take (length p) (drop i s) \<noteq> p" for pre :: string
      using that True by (metis drop0 length_greater_0_conv)
    ultimately show ?thesis using True by fastforce
  next
    case False
    show ?thesis
    proof (cases s)
      case Nil
      then show ?thesis using False by (subst from_first.simps) auto
    next
      case (Cons c t)
      have "(\<exists>pre. t = pre @ r \<and> take (length p) r = p \<and> (\<forall>i < length pre. take (length p) (drop i t) \<noteq> p)) \<longleftrightarrow>
          (\<exists>pre. c # t = pre @ r \<and> take (length p) r = p \<and> (\<forall>i < length pre. take (length p) (drop i (c # t)) \<noteq> p))" (is "?L = ?R")
      proof
        assume ?L
        then obtain pre where "t = pre @ r" "take (length p) r = p" "\<forall>i < length pre. take (length p) (drop i t) \<noteq> p" by blast
        then show ?R using False Cons by (intro exI [of _ "c # pre"]) (auto simp: less_Suc_eq_0_disj)
      next
        assume ?R
        then obtain pre where pre: "c # t = pre @ r" "take (length p) r = p" "\<forall>i < length pre. take (length p) (drop i (c # t)) \<noteq> p" by blast
        then obtain pre' where "pre = c # pre'" "t = pre' @ r" using False Cons by (cases pre) auto
        then show ?L using pre by (intro exI [of _ pre']) force
      qed
      then show ?thesis using 1 [OF False Cons] False Cons by (subst from_first.simps) simp
    qed
  qed
qed

text \<open>C21: the part of a response that the signature is checked on is exactly the object after the key. It is the
  text of the JSON object that follows the first occurrence of the quoted key, with any text
  without an opening brace between them, whatever braces and quotes its strings contain; and
  nothing is taken when there is no such object.\<close>

theorem signed_part_exact:
  "extract_response_content body key = Some o' \<longleftrightarrow>
    (\<exists>pre mid post. body = pre @ ([CHR 0x22] @ key @ [CHR 0x22]) @ mid @ o' @ post \<and> CHR ''{'' \<notin> set mid \<and> object_syntax o' \<and>
       (\<forall>i < length pre. take (length key + 2) (drop i body) \<noteq> [CHR 0x22] @ key @ [CHR 0x22]))"
    (is "?L \<longleftrightarrow> ?R")
proof -
  let ?m = "[CHR 0x22] @ key @ [CHR 0x22]"
  have brace: "Option.bind (from_first ''{'' s) (object_text 0 False False) = Some o' \<longleftrightarrow>
      (\<exists>mid post. s = mid @ o' @ post \<and> CHR ''{'' \<notin> set mid \<and> object_syntax o')" for s
  proof -
    have free: "(\<forall>i < length mid. take 1 (drop i (mid @ r)) \<noteq> ''{'') \<longleftrightarrow> CHR ''{'' \<notin> set mid" for mid r :: string
      by (auto simp: in_set_conv_nth nth_append take_Suc hd_drop_conv_nth)
    have "Option.bind (from_first ''{'' s) (object_text 0 False False) = Some o' \<longleftrightarrow>
        (\<exists>mid t. s = mid @ CHR ''{'' # t \<and> CHR ''{'' \<notin> set mid \<and> object_text 0 False False (CHR ''{'' # t) = Some o')"
    proof
      assume "Option.bind (from_first ''{'' s) (object_text 0 False False) = Some o'"
      then obtain r where r: "from_first ''{'' s = Some r" "object_text 0 False False r = Some o'" by (auto simp: bind_eq_Some_conv)
      from r(1) obtain mid where mid: "s = mid @ r" "take 1 r = ''{''" "\<forall>i < length mid. take 1 (drop i s) \<noteq> ''{''"
        unfolding from_first_Some by auto
      then obtain t where "r = CHR ''{'' # t" by (cases r) auto
      then show "\<exists>mid t. s = mid @ CHR ''{'' # t \<and> CHR ''{'' \<notin> set mid \<and> object_text 0 False False (CHR ''{'' # t) = Some o'"
        using mid r(2) free [of mid r] by auto
    next
      assume "\<exists>mid t. s = mid @ CHR ''{'' # t \<and> CHR ''{'' \<notin> set mid \<and> object_text 0 False False (CHR ''{'' # t) = Some o'"
      then obtain mid t where t: "s = mid @ CHR ''{'' # t" "CHR ''{'' \<notin> set mid" "object_text 0 False False (CHR ''{'' # t) = Some o'" by blast
      then have "from_first ''{'' s = Some (CHR ''{'' # t)"
        unfolding from_first_Some using free [of mid "CHR ''{'' # t"] by (intro exI [of _ mid]) auto
      then show "Option.bind (from_first ''{'' s) (object_text 0 False False) = Some o'" using t(3) by simp
    qed
    also have "\<dots> \<longleftrightarrow> (\<exists>mid post. s = mid @ o' @ post \<and> CHR ''{'' \<notin> set mid \<and> object_syntax o')"
      unfolding object_text_exact by (auto simp: object_syntax_def) fastforce+
    finally show ?thesis .
  qed
  define m where "m = ?m"
  have split: "take (length m) r = m \<and> drop (length m) r = x \<longleftrightarrow> r = m @ x" for r x
    by (metis append_eq_conv_conj append_take_drop_id)
  have "?L \<longleftrightarrow> (\<exists>r. from_first m body = Some r \<and> Option.bind (from_first ''{'' (drop (length m) r)) (object_text 0 False False) = Some o')"
    by (simp add: extract_response_content_def bind_eq_Some_conv Let_def m_def del: length_append)
  also have "\<dots> \<longleftrightarrow> (\<exists>r pre mid post. body = pre @ r \<and> take (length m) r = m \<and> drop (length m) r = mid @ o' @ post \<and>
      CHR ''{'' \<notin> set mid \<and> object_syntax o' \<and> (\<forall>i < length pre. take (length m) (drop i body) \<noteq> m))"
    unfolding brace from_first_Some by blast
  also have "\<dots> \<longleftrightarrow> (\<exists>pre mid post. body = pre @ m @ mid @ o' @ post \<and> CHR ''{'' \<notin> set mid \<and> object_syntax o' \<and>
      (\<forall>i < length pre. take (length m) (drop i body) \<noteq> m))" (is "?M \<longleftrightarrow> ?N")
  proof
    assume ?M
    then obtain r pre mid post where "body = pre @ r" "take (length m) r = m \<and> drop (length m) r = mid @ o' @ post" "CHR ''{'' \<notin> set mid"
        "object_syntax o'" "\<forall>i < length pre. take (length m) (drop i body) \<noteq> m" by blast
    moreover from this(2) have "r = m @ mid @ o' @ post" unfolding split .
    ultimately show ?N by blast
  next
    assume ?N
    then obtain pre mid post where "body = pre @ m @ mid @ o' @ post" "CHR ''{'' \<notin> set mid" "object_syntax o'"
        "\<forall>i < length pre. take (length m) (drop i body) \<noteq> m" by blast
    moreover have "take (length m) (m @ mid @ o' @ post) = m" "drop (length m) (m @ mid @ o' @ post) = mid @ o' @ post" by simp_all
    ultimately show ?M by blast
  qed
  also have "length m = length key + 2" by (simp add: m_def)
  finally show ?thesis by (simp only: m_def)
qed

theorem signed_part_exact_witness:
  "extract_response_content (''{'' @ ([CHR 0x22] @ ''k'' @ [CHR 0x22]) @ '':'' @ (''{'' @ [CHR 0x22, CHR ''}'', CHR 0x22] @ ''}'') @ ''}'') ''k'' =
     Some (''{'' @ [CHR 0x22, CHR ''}'', CHR 0x22] @ ''}'')"
proof -
  have "balanced (CHR 0x22 # ''}'' @ [CHR 0x22] @ [])"
    using balanced_string [OF rest_char [OF rest_close] balanced_Nil, of "CHR ''}''"] by simp
  then have "object_syntax (''{'' @ [CHR 0x22, CHR ''}'', CHR 0x22] @ ''}'')"
    unfolding object_syntax_def by (intro exI [of _ "[CHR 0x22, CHR ''}'', CHR 0x22]"]) simp
  then show ?thesis
    unfolding signed_part_exact by (intro exI [of _ "''{''"] exI [of _ "'':''"] exI [of _ "''}''"]) simp
qed

section \<open>The fields of a notification\<close>









text \<open>Without separated values the content does not determine the fields: another split of the same content.\<close>

lemma content_ambiguous:
  defines "p \<equiv> [(''subject'', ''tea&trade_status=TRADE_SUCCESS&u=''), (''trade_no'', ''9''), (''trade_status'', ''WAIT_BUYER_PAY'')]"
    and "q \<equiv> [(''subject'', ''tea''), (''trade_status'', ''TRADE_SUCCESS''), (''u'', ''&trade_no=9&trade_status=WAIT_BUYER_PAY'')]"
  shows "notify_sign_content p = notify_sign_content q" "map_of p ''trade_status'' = Some ''WAIT_BUYER_PAY''"
    "map_of q ''trade_status'' = Some ''TRADE_SUCCESS''"
  by (simp_all add: p_def q_def notify_sign_content_def join_params_def)

section \<open>What the provider accepts\<close>

definition alipay_verify_key :: "('k, 'w) alipay_inner \<Rightarrow> pay_error + string" where
  "alipay_verify_key p = verifier_from_public_key_pem (ai_lib p) (al_alipay_public_key (ai_config p))"

definition cell_ok :: "('k, 'w) alipay_inner \<Rightarrow> 'k alipay_cells \<times> 'w \<Rightarrow> bool" where
  "cell_ok p s \<longleftrightarrow> (\<forall>r. ax_verifier (fst s) = Some r \<longrightarrow> r = alipay_verify_key p)"

lemma keeps_alipay_keys [keeps_rules]: "keeps (cell_ok p) (alipay_signer p)" "keeps (cell_ok p) (alipay_verifier p)"
  by (rule keepsI; auto simp: alipay_signer_def alipay_verifier_def cell_ok_def alipay_verify_key_def Let_def split: option.splits)+

lemma keeps_world [keeps_rules]: "keeps (cell_ok p) (on_snd m)"
  by (rule keepsI) (auto simp: cell_ok_def on_snd_def split: prod.splits)

lemma keeps_alipay_call [keeps_rules]: "keeps (cell_ok p) (alipay_call p api biz_content with_notify_url)"
  unfolding alipay_call_def Let_def by (intro keeps_rules)

lemma keeps_alipay_methods:
  "keeps (cell_ok p) (alipay_create p order)" "keeps (cell_ok p) (alipay_query p t)" "keeps (cell_ok p) (alipay_close p t)"
  "keeps (cell_ok p) (alipay_refund p refund)" "keeps (cell_ok p) (alipay_query_refund p t r)" "keeps (cell_ok p) (alipay_download_bill p date)"
  "keeps (cell_ok p) (alipay_verify_notify p notify)"
  unfolding alipay_create_def alipay_query_def alipay_close_def alipay_refund_def alipay_query_refund_def alipay_download_bill_def
    alipay_bill_url_def alipay_verify_notify_def
  by (intro keeps_rules)+

text \<open>The states of a provider after any sequence of calls, with anything happening in the world between them.\<close>

inductive alipay_reachable :: "('k, 'w) alipay_inner \<Rightarrow> 'k alipay_cells \<times> 'w \<Rightarrow> bool" for p where
  alipay_start: "alipay_reachable p (alipay_cells_new, w)"
| alipay_world: "alipay_reachable p (c, w) \<Longrightarrow> alipay_reachable p (c, w')"
| alipay_by_create: "alipay_reachable p s \<Longrightarrow> alipay_reachable p (snd (alipay_create p order s))"
| alipay_by_query: "alipay_reachable p s \<Longrightarrow> alipay_reachable p (snd (alipay_query p t s))"
| alipay_by_close: "alipay_reachable p s \<Longrightarrow> alipay_reachable p (snd (alipay_close p t s))"
| alipay_by_refund: "alipay_reachable p s \<Longrightarrow> alipay_reachable p (snd (alipay_refund p refund s))"
| alipay_by_query_refund: "alipay_reachable p s \<Longrightarrow> alipay_reachable p (snd (alipay_query_refund p t r s))"
| alipay_by_bill: "alipay_reachable p s \<Longrightarrow> alipay_reachable p (snd (alipay_download_bill p date s))"
| alipay_by_notify: "alipay_reachable p s \<Longrightarrow> alipay_reachable p (snd (alipay_verify_notify p notify s))"

lemma alipay_reachable_ok: "alipay_reachable p s \<Longrightarrow> cell_ok p s"
  by (induction rule: alipay_reachable.induct)
    (simp_all only: keeps_alipay_methods [THEN keepsD], simp_all add: cell_ok_def alipay_cells_new_def)

lemma alipay_verifier_key: "cell_ok p s \<Longrightarrow> alipay_verifier p s = (Inr key, s') \<Longrightarrow> alipay_verify_key p = Inr key"
  by (cases s) (auto simp: alipay_verifier_def cell_ok_def alipay_verify_key_def Let_def split: option.splits)

lemma if_Inl_Inr [simp]: "(if c then Inl e else r) = Inr x \<longleftrightarrow> \<not> c \<and> r = Inr x"
  by simp


text \<open>What a call returns is read from the signed part of its response.\<close>

lemma alipay_call_signed:
  assumes "alipay_reachable p s" and "alipay_call p api biz_content with_notify_url s = (Inr payload, s')"
  shows "\<exists>(r :: gateway_response) key content signature. alipay_verify_key p = Inr key \<and>
    extract_response_content (gp_body r) (response_key api) = Some content \<and> gl_verify (ai_lib p) key content signature \<and>
    gl_read_payload (ai_lib p) content = Inr payload"
proof -
  from assms(2) obtain k t where signer: "alipay_signer p s = (Inr k, t)"
    by (auto simp: alipay_call_def op_bind_Inr)
  with assms(2) obtain key u r where key: "alipay_verifier p t = (Inr key, u)" and read: "read_response (ai_lib p) key api r = Inr payload"
    by (auto simp: alipay_call_def op_bind_Inr Let_def)
  have "cell_ok p t"
    using keepsD [OF keeps_alipay_keys(1) alipay_reachable_ok [OF assms(1)]] signer by (metis snd_conv)
  then have "alipay_verify_key p = Inr key" using key alipay_verifier_key by blast
  then show ?thesis
    using read unfolding read_response_def res_bind_Inr_iff if_Inl_Inr map_error_Inr ok_or_Inr_iff by blast
qed


section \<open>Example\<close>








end
