(* ===== verification/Http_Body.thy ===== *)
theory Http_Body
  imports Http_Core
begin

text \<open>
  The bodies of responses (\<open>phoenix-http\<close>: \<open>lib.rs\<close>): streamed responses, the observers of a body and the
  stream that reports to them when it ends, fails, is cancelled or is dropped, redirects and
  downloads. A stream is a value \<open>'s\<close> with the function that polls it; a cancellation token is whether it
  is cancelled in a state of the world.
\<close>

section \<open>Streamed responses\<close>

datatype stream_poll = PollChunk string | PollFailed | PollEnd | PollPending | PollPanic

type_synonym ('s, 'w) stream_source = "'s \<Rightarrow> 'w \<Rightarrow> stream_poll \<times> 's \<times> 'w"
type_synonym 'w body_observer = "response_body_summary \<Rightarrow> 'w \<Rightarrow> 'w"

definition outcome_as_str :: "response_body_outcome \<Rightarrow> string" where
  "outcome_as_str outcome =
     (case outcome of
        Complete \<Rightarrow> ''complete''
      | StreamError \<Rightarrow> ''stream_error''
      | DeliveryCancelled \<Rightarrow> ''delivery_cancelled''
      | Shutdown \<Rightarrow> ''shutdown''
      | Aborted \<Rightarrow> ''aborted'')"

text \<open>A response whose body was taken is a panic.\<close>

definition on_body_finish :: "'w body_observer \<Rightarrow> ('s, 'w) response \<Rightarrow> 'w \<Rightarrow> ('s, 'w) response option \<times> 'w" where
  "on_body_finish observer r w =
     (case rp_body r of
        None \<Rightarrow> (None, w)
      | Some (BufferedBody body) \<Rightarrow>
          (Some r, notify_body_observers [observer] \<lparr>bs_outcome = Complete, bs_bytes_yielded = of_nat (length body)\<rparr> w)
      | Some (StreamBody _) \<Rightarrow> (Some (r\<lparr>rp_observers := rp_observers r @ [observer]\<rparr>), w))"

definition response_drop :: "('s, 'w) response \<Rightarrow> 'w \<Rightarrow> 'w" where
  "response_drop r w =
     (case rp_body r of
        Some (StreamBody _) \<Rightarrow> notify_body_observers (rp_observers r) \<lparr>bs_outcome = Aborted, bs_bytes_yielded = 0\<rparr> w
      | _ \<Rightarrow> w)"

section \<open>The life cycle of a stream\<close>

record ('s, 'w) lifecycle_stream =
  ls_inner :: 's
  ls_observers :: "'w body_observer list"
  ls_cancellation :: "('w \<Rightarrow> bool) option"
  ls_bytes_yielded :: u64
  ls_finished :: bool

definition lifecycle_new :: "'s \<Rightarrow> 'w body_observer list \<Rightarrow> ('w \<Rightarrow> bool) option \<Rightarrow> ('s, 'w) lifecycle_stream" where
  "lifecycle_new inner observers cancellation =
     \<lparr>ls_inner = inner, ls_observers = observers, ls_cancellation = cancellation, ls_bytes_yielded = 0, ls_finished = False\<rparr>"

definition lifecycle_finish :: "response_body_outcome \<Rightarrow> ('s, 'w) lifecycle_stream \<Rightarrow> 'w \<Rightarrow> ('s, 'w) lifecycle_stream \<times> 'w" where
  "lifecycle_finish outcome ls w =
     (if ls_finished ls then (ls, w)
      else
        (ls\<lparr>ls_finished := True, ls_observers := []\<rparr>,
         notify_body_observers (ls_observers ls) \<lparr>bs_outcome = outcome, bs_bytes_yielded = ls_bytes_yielded ls\<rparr> w))"

text \<open>What a poll answers: a panic of the source is an error of the stream.\<close>

definition lifecycle_poll ::
    "('s, 'w) stream_source \<Rightarrow> ('s, 'w) lifecycle_stream \<Rightarrow> 'w \<Rightarrow> stream_poll \<times> ('s, 'w) lifecycle_stream \<times> 'w" where
  "lifecycle_poll poll ls w =
     (if ls_finished ls then (PollEnd, ls, w)
      else if (case ls_cancellation ls of None \<Rightarrow> False | Some cancelled \<Rightarrow> cancelled w)
      then (PollEnd, lifecycle_finish Shutdown ls w)
      else
        (case poll (ls_inner ls) w of (r, inner, w) \<Rightarrow>
           (let ls = ls\<lparr>ls_inner := inner\<rparr>
            in case r of
                 PollChunk chunk \<Rightarrow>
                   (PollChunk chunk, ls\<lparr>ls_bytes_yielded := w_saturating_add (ls_bytes_yielded ls) (of_nat (length chunk))\<rparr>, w)
               | PollFailed \<Rightarrow> (PollFailed, lifecycle_finish StreamError ls w)
               | PollEnd \<Rightarrow> (PollEnd, lifecycle_finish Complete ls w)
               | PollPending \<Rightarrow> (PollPending, ls, w)
               | PollPanic \<Rightarrow> (PollFailed, lifecycle_finish StreamError ls w))))"

definition lifecycle_drop :: "('s, 'w) lifecycle_stream \<Rightarrow> 'w \<Rightarrow> 'w" where
  "lifecycle_drop ls w =
     (if ls_finished ls then w
      else snd (lifecycle_finish
        (case ls_cancellation ls of
           None \<Rightarrow> Aborted
         | Some cancelled \<Rightarrow> if cancelled w then Shutdown else DeliveryCancelled) ls w))"

text \<open>What is left of a body for the connection.\<close>

datatype ('s, 'w) network_body =
    NetBuffered string
  | NetStream 's
  | NetLifecycle "('s, 'w) lifecycle_stream"

definition take_parts :: "('w \<Rightarrow> bool) option \<Rightarrow> ('s, 'w) response \<Rightarrow> (u16 \<times> headers \<times> ('s, 'w) network_body) option" where
  "take_parts cancellation r =
     map_option
       (\<lambda>body. (rp_status r, rp_headers r,
          (case body of
             BufferedBody bs \<Rightarrow> NetBuffered bs
           | StreamBody s \<Rightarrow>
               if rp_observers r = [] \<and> cancellation = None then NetStream s
               else NetLifecycle (lifecycle_new s (rp_observers r) cancellation))))
       (rp_body r)"

definition into_parts :: "('s, 'w) response \<Rightarrow> (u16 \<times> headers \<times> ('s, 'w) network_body) option" where
  "into_parts = take_parts None"

definition into_network_parts :: "('w \<Rightarrow> bool) \<Rightarrow> ('s, 'w) response \<Rightarrow> (u16 \<times> headers \<times> ('s, 'w) network_body) option" where
  "into_network_parts cancellation = take_parts (Some cancellation)"

section \<open>Redirects\<close>

text \<open>The packages: the check of a header value, the text of a media type, and percent encoding of all but letters
  and digits.\<close>

record response_lib =
  rl_header_value :: "string \<Rightarrow> bool"
  rl_percent_encode :: "string \<Rightarrow> string"

datatype invalid_header = InvalidHeader

record redirect =
  rd_status :: u16
  rd_location :: string

definition redirect_with_status :: "response_lib \<Rightarrow> u16 \<Rightarrow> string \<Rightarrow> invalid_header + redirect" where
  "redirect_with_status lib status location =
     (if rl_header_value lib location then Inr \<lparr>rd_status = status, rd_location = location\<rparr> else Inl InvalidHeader)"

definition redirect_to :: "response_lib \<Rightarrow> string \<Rightarrow> invalid_header + redirect" where
  "redirect_to lib = redirect_with_status lib 302"

definition redirect_see_other :: "response_lib \<Rightarrow> string \<Rightarrow> invalid_header + redirect" where
  "redirect_see_other lib = redirect_with_status lib 303"

definition redirect_temporary :: "response_lib \<Rightarrow> string \<Rightarrow> invalid_header + redirect" where
  "redirect_temporary lib = redirect_with_status lib 307"

definition redirect_response :: "redirect \<Rightarrow> ('x, 'w) response" where
  "redirect_response r = insert_header ''location'' (rd_location r) (response_new (rd_status r) [])"

section \<open>Downloads\<close>

record download =
  dl_body :: string
  dl_content_type :: string
  dl_disposition :: string
  dl_file_name :: string
  dl_cache_control :: string

definition download_new :: "string \<Rightarrow> string \<Rightarrow> string \<Rightarrow> string \<Rightarrow> download" where
  "download_new body file_name content_type disposition =
     \<lparr>dl_body = body, dl_content_type = content_type, dl_disposition = disposition, dl_file_name = file_name,
      dl_cache_control = ''private, no-store''\<rparr>"

definition download_attachment :: "string \<Rightarrow> string \<Rightarrow> string \<Rightarrow> download" where
  "download_attachment body file_name content_type = download_new body file_name content_type ''attachment''"

definition download_inline :: "string \<Rightarrow> string \<Rightarrow> string \<Rightarrow> download" where
  "download_inline body file_name content_type = download_new body file_name content_type ''inline''"

definition with_cache_control :: "response_lib \<Rightarrow> string \<Rightarrow> download \<Rightarrow> invalid_header + download" where
  "with_cache_control lib v d = (if rl_header_value lib v then Inr (d\<lparr>dl_cache_control := v\<rparr>) else Inl InvalidHeader)"

definition file_name_char :: "char \<Rightarrow> bool" where
  "file_name_char c \<longleftrightarrow> is_ascii_alphabetic c \<or> is_ascii_digit c \<or> c \<in> {CHR ''.'', CHR ''_'', CHR ''-''}"

text \<open>Of a character of several bytes the first one stands for it.\<close>

definition ascii_file_name :: "string \<Rightarrow> string" where
  "ascii_file_name file_name =
     (let sanitized = map (\<lambda>c. if file_name_char c then c else CHR ''_'') (filter (\<lambda>c. \<not> byte_in 128 191 c) file_name)
      in if list_all (\<lambda>c. c \<in> {CHR ''.'', CHR ''_'', CHR ''-''}) sanitized then ''download'' else sanitized)"

definition content_disposition :: "response_lib \<Rightarrow> download \<Rightarrow> string" where
  "content_disposition lib d =
     dl_disposition d @ ''; filename='' @ [CHR 0x22] @ ascii_file_name (dl_file_name d) @ [CHR 0x22] @
     ''; filename*=UTF-8'' @ [CHR 0x27, CHR 0x27] @ rl_percent_encode lib (dl_file_name d)"

text \<open>\<open>None\<close> is a panic: a header that is refused.\<close>

definition download_response :: "response_lib \<Rightarrow> download \<Rightarrow> ('x, 'w) response option" where
  "download_response lib d =
     (if \<not> rl_header_value lib (dl_content_type d) \<or> \<not> rl_header_value lib (content_disposition lib d) then None
      else Some
        (insert_header ''x-content-type-options'' ''nosniff''
          (insert_header ''cache-control'' (dl_cache_control d)
            (insert_header ''content-disposition'' (content_disposition lib d)
              (insert_header ''content-type'' (dl_content_type d) (response_new 200 (dl_body d)))))))"

end
