(* ===== verification/Http_Multipart.thy ===== *)
theory Http_Multipart
  imports Http_Core
begin

text \<open>
  Multipart forms (\<open>phoenix-http\<close>: \<open>lib.rs\<close>): the extractor with its checks of the media type and the
  boundary, the parser of the body, and the fields it yields. What is left of the body stands for
  the cursor of the parser. The parser of media types is the record \<open>mime_lib\<close>.
\<close>

section \<open>Fields\<close>

record multipart_field =
  mf_name :: string
  mf_file_name :: "string option"
  mf_content_type :: "string option"
  mf_data :: string

type_synonym multipart_data = "multipart_field list"

definition mp_field :: "string \<Rightarrow> multipart_data \<Rightarrow> multipart_field option" where
  "mp_field name m = find (\<lambda>f. mf_name f = name) m"

definition mp_fields :: "string \<Rightarrow> multipart_data \<Rightarrow> multipart_field list" where
  "mp_fields name m = filter (\<lambda>f. mf_name f = name) m"

fun mp_remove :: "string \<Rightarrow> multipart_data \<Rightarrow> multipart_field option \<times> multipart_data" where
  "mp_remove name [] = (None, [])"
| "mp_remove name (f # m) =
     (if mf_name f = name then (Some f, m) else (case mp_remove name m of (r, m) \<Rightarrow> (r, f # m)))"

definition mp_text :: "multipart_field \<Rightarrow> string option" where
  "mp_text f = (if utf8_valid (mf_data f) then Some (mf_data f) else None)"

datatype multipart_rejection =
    MpStreamingBody
  | MpMissingContentType
  | MpUnsupportedContentType
  | MpInvalidBody
  | MpInvalidField string

section \<open>Parts of a header\<close>

abbreviation CRLF :: string where
  "CRLF \<equiv> [CHR 0x0D, CHR 0x0A]"

text \<open>The position of the first occurrence of a needle that is not empty.\<close>

fun find_bytes :: "string \<Rightarrow> string \<Rightarrow> nat option" where
  "find_bytes haystack needle =
     (if needle = [] then None
      else if take (length needle) haystack = needle then Some 0
      else (case haystack of [] \<Rightarrow> None | _ # haystack \<Rightarrow> map_option Suc (find_bytes haystack needle)))"

declare find_bytes.simps [simp del]

lemma find_bytes_bound: "find_bytes s p = Some i \<Longrightarrow> i + length p \<le> length s"
proof (induction s p arbitrary: i rule: find_bytes.induct)
  case (1 s p)
  from 1(2) consider "i = 0" "take (length p) s = p" | c t j where "s = c # t" "find_bytes t p = Some j" "i = Suc j" "p \<noteq> []" "take (length p) s \<noteq> p"
    by (subst (asm) find_bytes.simps) (auto split: if_splits list.splits)
  then show ?case
  proof cases
    case 1
    then have "length p \<le> length s" by (metis length_take min.cobounded1)
    then show ?thesis using 1 by simp
  next
    case 2
    then show ?thesis using "1.IH" by fastforce
  qed
qed

text \<open>\<open>str::split\<close> with a text that is not empty.\<close>

function split_str :: "string \<Rightarrow> string \<Rightarrow> string list" where
  "split_str sep s =
     (case find_bytes s sep of
        None \<Rightarrow> [s]
      | Some i \<Rightarrow> take i s # split_str sep (drop (i + length sep) s))"
  by pat_completeness auto
termination
proof (relation "measure (length \<circ> snd)", goal_cases)
  case (2 sep s i)
  then have "i + length sep \<le> length s" "sep \<noteq> []"
    using find_bytes_bound by (auto simp: find_bytes.simps [of s "[]"])
  then show ?case by (cases sep) auto
qed simp

declare split_str.simps [simp del]

abbreviation DQUOTE :: char where
  "DQUOTE \<equiv> CHR 0x22"

abbreviation BACKSLASH :: char where
  "BACKSLASH \<equiv> CHR 0x5C"

fun split_quoted_from :: "char \<Rightarrow> bool \<Rightarrow> bool \<Rightarrow> string \<Rightarrow> string \<Rightarrow> multipart_rejection + string list" where
  "split_quoted_from separator quoted escaped part [] = (if quoted \<or> escaped then Inl MpInvalidBody else Inr [part])"
| "split_quoted_from separator quoted escaped part (c # s) =
     (if escaped then split_quoted_from separator quoted False (part @ [c]) s
      else if c = BACKSLASH \<and> quoted then split_quoted_from separator quoted True (part @ [c]) s
      else if c = DQUOTE then split_quoted_from separator (\<not> quoted) escaped (part @ [c]) s
      else if c = separator \<and> \<not> quoted then map_sum id (Cons part) (split_quoted_from separator quoted escaped [] s)
      else split_quoted_from separator quoted escaped (part @ [c]) s)"

definition split_quoted :: "string \<Rightarrow> char \<Rightarrow> multipart_rejection + string list" where
  "split_quoted value separator = split_quoted_from separator False False [] value"

fun unescape :: "bool \<Rightarrow> string \<Rightarrow> multipart_rejection + string" where
  "unescape escaped [] = (if escaped then Inl MpInvalidBody else Inr [])"
| "unescape escaped (c # s) =
     (if escaped then
        (if c \<noteq> DQUOTE \<and> c \<noteq> BACKSLASH then Inl MpInvalidBody else map_sum id (Cons c) (unescape False s))
      else if c = BACKSLASH then unescape True s
      else map_sum id (Cons c) (unescape escaped s))"

definition is_ascii_graphic :: "char \<Rightarrow> bool" where
  "is_ascii_graphic c \<longleftrightarrow> byte_in 33 126 c"

definition unquote_parameter :: "string \<Rightarrow> multipart_rejection + string" where
  "unquote_parameter value =
     (if value \<noteq> [] \<and> hd value = DQUOTE \<and> tl value \<noteq> [] \<and> last (tl value) = DQUOTE then unescape False (butlast (tl value))
      else if list_all is_ascii_graphic value then Inr value
      else Inl MpInvalidBody)"

section \<open>The headers of a field\<close>

record mime_lib =
  mm_parse :: "string \<Rightarrow> (string \<times> string \<times> string option) option"
  mm_header_text :: "string \<Rightarrow> string option"

text \<open>The parser of a media type gives its type, its subtype and the parameter \<open>boundary\<close>.\<close>

fun header_lines :: "mime_lib \<Rightarrow> string list \<Rightarrow> string option \<Rightarrow> string option \<Rightarrow> multipart_rejection + string option \<times> string option" where
  "header_lines lib [] disposition content_type = Inr (disposition, content_type)"
| "header_lines lib (line # lines) disposition content_type =
     res_bind (ok_or MpInvalidBody (split_once (CHR '':'') line)) (\<lambda>(name, value).
     (let key = to_ascii_lowercase (str_trim name)
      in if key = ''content-disposition'' then header_lines lib lines (Some (str_trim value)) content_type
         else if key = ''content-type'' then
           (if mm_parse lib (str_trim value) = None then Inl MpInvalidBody
            else header_lines lib lines disposition (Some (str_trim value)))
         else header_lines lib lines disposition content_type))"

fun disposition_parts :: "string list \<Rightarrow> string option \<Rightarrow> string option \<Rightarrow> multipart_rejection + string option \<times> string option" where
  "disposition_parts [] name file_name = Inr (name, file_name)"
| "disposition_parts (part # parts) name file_name =
     res_bind (ok_or MpInvalidBody (split_once (CHR ''='') part)) (\<lambda>(key, value).
     res_bind (unquote_parameter (str_trim value)) (\<lambda>value.
     (let key = str_trim key
      in if key = ''name'' then disposition_parts parts (Some value) file_name
         else if key = ''filename'' then disposition_parts parts name (Some value)
         else disposition_parts parts name file_name)))"

definition parse_multipart_headers :: "mime_lib \<Rightarrow> string \<Rightarrow> multipart_rejection + string \<times> string option \<times> string option" where
  "parse_multipart_headers lib headers =
     res_bind (header_lines lib (split_str CRLF headers) None None) (\<lambda>(disposition, content_type).
     res_bind (ok_or MpInvalidBody disposition) (\<lambda>disposition.
     res_bind (split_quoted disposition (CHR '';'')) (\<lambda>parts.
     if (case parts of [] \<Rightarrow> True | part # _ \<Rightarrow> str_trim part \<noteq> ''form-data'') then Inl MpInvalidBody
     else
       res_bind (disposition_parts (tl parts) None None) (\<lambda>(name, file_name).
         (case name of
            None \<Rightarrow> Inl MpInvalidBody
          | Some name \<Rightarrow> if name = [] then Inl MpInvalidBody else Inr (name, file_name, content_type))))))"

section \<open>The body\<close>

function parse_parts :: "mime_lib \<Rightarrow> string \<Rightarrow> string \<Rightarrow> multipart_rejection + multipart_field list" where
  "parse_parts lib delimiter rest =
     (if take 2 rest = ''--'' then
        (if drop 2 rest = [] \<or> drop 2 rest = CRLF then Inr [] else Inl MpInvalidBody)
      else if take 2 rest \<noteq> CRLF then Inl MpInvalidBody
      else
        (case find_bytes (drop 2 rest) (CRLF @ CRLF) of
           None \<Rightarrow> Inl MpInvalidBody
         | Some i \<Rightarrow>
             if \<not> utf8_valid (take i (drop 2 rest)) then Inl MpInvalidBody
             else
               (case find_bytes (drop (i + 6) rest) (CRLF @ delimiter) of
                  None \<Rightarrow> Inl MpInvalidBody
                | Some j \<Rightarrow>
                    res_bind (parse_multipart_headers lib (take i (drop 2 rest))) (\<lambda>(name, file_name, content_type).
                      map_sum id
                        (Cons \<lparr>mf_name = name, mf_file_name = file_name, mf_content_type = content_type,
                           mf_data = take j (drop (i + 6) rest)\<rparr>)
                        (parse_parts lib delimiter (drop (i + 6 + j + 2 + length delimiter) rest))))))"
  by pat_completeness auto
termination
  by (relation "measure (length \<circ> snd \<circ> snd)") (auto dest!: find_bytes_bound)

declare parse_parts.simps [simp del]

definition parse_multipart :: "mime_lib \<Rightarrow> string \<Rightarrow> string \<Rightarrow> multipart_rejection + multipart_field list" where
  "parse_multipart lib body boundary =
     (let delimiter = ''--'' @ boundary
      in if take (length delimiter) body \<noteq> delimiter then Inl MpInvalidBody
         else parse_parts lib delimiter (drop (length delimiter) body))"

text \<open>The extractor, given whether the body of the request is streamed, its headers and its body.\<close>

definition multipart_from_request :: "mime_lib \<Rightarrow> bool \<Rightarrow> headers \<Rightarrow> string \<Rightarrow> multipart_rejection + multipart_data" where
  "multipart_from_request lib streaming headers body =
     (if streaming then Inl MpStreamingBody
      else
        res_bind (ok_or MpMissingContentType (header_get ''content-type'' headers)) (\<lambda>content_type.
        res_bind (ok_or MpUnsupportedContentType (Option.bind (mm_header_text lib content_type) (mm_parse lib))) (\<lambda>(type, subtype, boundary).
        if type \<noteq> ''multipart'' \<or> subtype \<noteq> ''form-data'' then Inl MpUnsupportedContentType
        else
          (case boundary of
             None \<Rightarrow> Inl MpUnsupportedContentType
           | Some boundary \<Rightarrow>
               if boundary = [] \<or> length boundary > 70 then Inl MpUnsupportedContentType
               else parse_multipart lib body boundary))))"

definition multipart_status :: "multipart_rejection \<Rightarrow> u16" where
  "multipart_status e =
     (case e of
        MpStreamingBody \<Rightarrow> 500
      | MpMissingContentType \<Rightarrow> 415
      | MpUnsupportedContentType \<Rightarrow> 415
      | MpInvalidBody \<Rightarrow> 400
      | MpInvalidField _ \<Rightarrow> 400)"

end
