(* ===== verification/Http_Multipart_Props.thy ===== *)
theory Http_Multipart_Props
  imports Http_Multipart
begin

text \<open>
  What holds of multipart forms: the parser reads back every form a client writes, and the data of a
  field never runs over a delimiter.
\<close>

section \<open>Writing a form\<close>

definition escape_quoted :: "string \<Rightarrow> string" where
  "escape_quoted s = concat (map (\<lambda>c. if c = DQUOTE \<or> c = BACKSLASH then [BACKSLASH, c] else [c]) s)"

definition quoted_string :: "string \<Rightarrow> string" where
  "quoted_string s = DQUOTE # escape_quoted s @ [DQUOTE]"

definition disposition_text :: "multipart_field \<Rightarrow> string" where
  "disposition_text f =
     ''form-data; name='' @ quoted_string (mf_name f) @
     (case mf_file_name f of None \<Rightarrow> [] | Some n \<Rightarrow> ''; filename='' @ quoted_string n)"

definition field_headers :: "multipart_field \<Rightarrow> string" where
  "field_headers f =
     ''Content-Disposition: '' @ disposition_text f @
     (case mf_content_type f of None \<Rightarrow> [] | Some t \<Rightarrow> CRLF @ ''Content-Type: '' @ t)"

definition write_part :: "string \<Rightarrow> multipart_field \<Rightarrow> string" where
  "write_part boundary f = CRLF @ field_headers f @ CRLF @ CRLF @ mf_data f @ CRLF @ ''--'' @ boundary"

definition write_form :: "string \<Rightarrow> multipart_field list \<Rightarrow> string" where
  "write_form boundary fs = ''--'' @ boundary @ concat (map (write_part boundary) fs) @ ''--'' @ CRLF"

text \<open>What a client may write: text without carriage returns in names, a media type without white space
  around it, and a boundary that does not occur in the data after a line end.\<close>

definition text_ok :: "string \<Rightarrow> bool" where
  "text_ok s \<longleftrightarrow> utf8_valid s \<and> CHR 0x0D \<notin> set s"

definition field_ok :: "mime_lib \<Rightarrow> string \<Rightarrow> multipart_field \<Rightarrow> bool" where
  "field_ok lib boundary f \<longleftrightarrow>
     mf_name f \<noteq> [] \<and> text_ok (mf_name f) \<and> pred_option text_ok (mf_file_name f) \<and>
     pred_option (\<lambda>t. text_ok t \<and> str_trim t = t \<and> mm_parse lib t \<noteq> None) (mf_content_type f) \<and>
     find_bytes (mf_data f) (CRLF @ ''--'' @ boundary) = None"

section \<open>Searching\<close>

lemma find_bytes_here: "p \<noteq> [] \<Longrightarrow> find_bytes (p @ s) p = Some 0"
  by (subst find_bytes.simps) simp

lemma find_bytes_skip: "p \<noteq> [] \<Longrightarrow> hd p \<notin> set a \<Longrightarrow> find_bytes (a @ s) p = map_option ((+) (length a)) (find_bytes s p)"
proof (induction a)
  case (Cons c a)
  have "take (length p) (c # a @ s) \<noteq> p" using Cons.prems by (cases p) auto
  then show ?case using Cons by (subst find_bytes.simps) (auto simp: option.map_comp comp_def intro!: option.map_cong0)
next
  case Nil
  show ?case by (cases "find_bytes s p") simp_all
qed

lemma find_bytes_none: "hd p \<notin> set s \<Longrightarrow> p \<noteq> [] \<Longrightarrow> find_bytes s p = None"
  using find_bytes_skip [of p s "[]"] by (simp add: find_bytes.simps [of "[]"])

text \<open>A needle whose first byte does not occur again in it is found where it stands, after a text it does not
  occur in.\<close>

lemma find_bytes_after:
  "x \<notin> set p \<Longrightarrow> find_bytes a (x # p) = None \<Longrightarrow> find_bytes (a @ (x # p) @ s) (x # p) = Some (length a)"
proof (induction a)
  case Nil
  then show ?case using find_bytes_here [of "x # p" s] by simp
next
  case (Cons c a)
  have none: "take (Suc (length p)) (c # a) \<noteq> x # p" "find_bytes a (x # p) = None"
    using Cons.prems(2) by (subst (asm) find_bytes.simps, force split: if_splits)+
  have "take (Suc (length p)) (c # a @ x # p @ s) \<noteq> x # p"
  proof
    assume eq: "take (Suc (length p)) (c # a @ x # p @ s) = x # p"
    show False
    proof (cases "length p \<le> length a")
      case True
      then show False using eq none(1) by simp
    next
      case False
      then have "(take (Suc (length p)) (c # a @ x # p @ s)) ! Suc (length a) = x" by (simp add: nth_append)
      then have "p ! length a = x" unfolding eq by simp
      then show False using False Cons.prems(1) by (metis not_le nth_mem)
    qed
  qed
  then show ?case using Cons.IH [OF Cons.prems(1) none(2)] by (subst find_bytes.simps) simp
qed

section \<open>Trimming and quoting\<close>

definition plain_char :: "char \<Rightarrow> bool" where
  "plain_char c \<longleftrightarrow> 33 \<le> (of_char c :: nat) \<and> (of_char c :: nat) < 128"

lemma ws_len_plain_char: "plain_char c \<Longrightarrow> ws_len (c # s) = 0"
proof -
  assume "plain_char c"
  then have "\<not> is_ascii_ws c" "c \<noteq> CHR 0xC2" "c \<noteq> CHR 0xE1" "c \<noteq> CHR 0xE2" "c \<noteq> CHR 0xE3"
    by (auto simp: is_ascii_ws_def plain_char_def)
  then show ?thesis by (simp add: ws_len_def split: list.split)
qed

lemma ws_end_plain_char: "plain_char c \<Longrightarrow> ws_end (s @ [c]) = 0"
proof -
  assume plain: "plain_char c"
  have high: "c \<noteq> CHR 0x85" "c \<noteq> CHR 0xA0" "c \<noteq> CHR 0x80" "c \<noteq> CHR 0x9F" "c \<notin> {CHR 0xA8, CHR 0xA9, CHR 0xAF}" "\<not> 128 \<le> (of_char c :: nat)"
    using plain by (auto simp: plain_char_def)
  have two: "ws_len [b, c] \<noteq> 2" for b using high by (simp add: ws_len_def)
  have three: "ws_len [a, b, c] \<noteq> 3" for a b using high by (simp add: ws_len_def)
  have "ws_len (drop (length (s @ [c]) - 1) (s @ [c])) = 0" using ws_len_plain_char [OF plain, of "[]"] by simp
  moreover have "ws_len (drop (length (s @ [c]) - 2) (s @ [c])) \<noteq> 2"
  proof (cases s rule: rev_cases)
    case Nil
    then show ?thesis using ws_len_plain_char [OF plain, of "[]"] by simp
  qed (use two in simp)
  moreover have "ws_len (drop (length (s @ [c]) - 3) (s @ [c])) \<noteq> 3"
  proof (cases s rule: rev_cases)
    case Nil
    then show ?thesis using ws_len_plain_char [OF plain, of "[]"] by simp
  next
    case (snoc r b)
    then show ?thesis using three by (cases r rule: rev_cases) (auto simp: ws_len_def)
  qed
  ultimately show ?thesis unfolding ws_end_def by presburger
qed

lemma str_trim_ends: "plain_char (hd s) \<Longrightarrow> plain_char (last s) \<Longrightarrow> s \<noteq> [] \<Longrightarrow> str_trim s = s"
proof -
  assume "plain_char (hd s)" "plain_char (last s)" "s \<noteq> []"
  then have "ws_len s = 0" "ws_end s = 0"
    using ws_len_plain_char [of "hd s" "tl s"] ws_end_plain_char [of "last s" "butlast s"] by simp_all
  then show ?thesis by (simp add: str_trim_def trim_start.simps [of s] trim_end.simps [of s])
qed

lemma str_trim_space: "str_trim (CHR '' '' # s) = str_trim s"
  by (simp add: str_trim_def trim_start.simps [of "CHR '' '' # s"] ws_len_def is_ascii_ws_def)

lemma plain_dquote [simp]: "plain_char DQUOTE"
  by (simp add: plain_char_def)

lemma trim_quoted [simp]: "str_trim (quoted_string s) = quoted_string s"
  by (rule str_trim_ends) (simp_all add: quoted_string_def)

lemma escape_simps [simp]:
  "escape_quoted [] = []"
  "escape_quoted (c # s) = (if c = DQUOTE \<or> c = BACKSLASH then [BACKSLASH, c] else [c]) @ escape_quoted s"
  by (simp_all add: escape_quoted_def)

lemma unescape_escape: "unescape False (escape_quoted s) = Inr s"
  by (induction s) auto

lemma unquote_quoted: "unquote_parameter (quoted_string s) = Inr s"
  by (simp add: unquote_parameter_def quoted_string_def unescape_escape)

lemma set_escape: "set (escape_quoted s) \<subseteq> insert BACKSLASH (set s)"
  by (induction s) auto

lemma split_plain:
  "DQUOTE \<notin> set a \<Longrightarrow> separator \<notin> set a \<Longrightarrow>
    split_quoted_from separator False False part (a @ s) = split_quoted_from separator False False (part @ a) s"
  by (induction a arbitrary: part) auto

lemma split_inside:
  "split_quoted_from separator True False part (escape_quoted a @ s) = split_quoted_from separator True False (part @ escape_quoted a) s"
  by (induction a arbitrary: part) auto

lemma split_over_quoted:
  "split_quoted_from separator False False part (quoted_string a @ s) = split_quoted_from separator False False (part @ quoted_string a) s"
  using split_inside [of separator "part @ [DQUOTE]" a "DQUOTE # s"] by (simp add: quoted_string_def)

section \<open>UTF-8\<close>

text \<open>A character at the front of a valid text: an ASCII byte, or bytes beyond ASCII in front of which or behind
  which any valid text may stand.\<close>

definition wide_char :: "string \<Rightarrow> bool" where
  "wide_char m \<longleftrightarrow> m \<noteq> [] \<and> (\<forall>c \<in> set m. 128 \<le> (of_char c :: nat)) \<and> (\<forall>s. utf8_valid (m @ s) = utf8_valid s)"

lemma byte_in_high: "byte_in lo hi c \<Longrightarrow> 128 \<le> lo \<Longrightarrow> 128 \<le> (of_char c :: nat)"
  by (simp add: byte_in_def)

lemma utf8_front:
  assumes "utf8_valid (a # s)" and "\<not> byte_in 0 127 a"
  obtains m t where "a # s = m @ t" "wide_char m" "utf8_valid t"
proof -
  have a: "128 \<le> (of_char a :: nat)" using assms(2) by (simp add: byte_in_def)
  obtain b s2 where s: "s = b # s2" using assms by (cases s) simp_all
  show thesis
  proof (cases "byte_in 194 223 a")
    case True
    then have "byte_in 128 191 b" "utf8_valid s2" using assms s by simp_all
    then have "wide_char [a, b]" using True assms(2) a byte_in_high [of 128 191 b] by (simp add: wide_char_def)
    then show thesis using that [of "[a, b]" s2] s \<open>utf8_valid s2\<close> by simp
  next
    case two: False
    then obtain c s3 where s2: "s2 = c # s3" using assms s by (cases s2) simp_all
    show thesis
    proof (cases "byte_in 224 239 a")
      case True
      let ?b = "if of_char a = (224 :: nat) then byte_in 160 191 b else if of_char a = (237 :: nat) then byte_in 128 159 b else byte_in 128 191 b"
      have "?b \<and> byte_in 128 191 c \<and> utf8_valid s3" using assms s s2 two True by simp
      moreover from this have "128 \<le> (of_char b :: nat)" "128 \<le> (of_char c :: nat)"
        by (auto intro: byte_in_high split: if_splits)
      ultimately have "wide_char [a, b, c]" using True two assms(2) a by (simp add: wide_char_def)
      then show thesis using that [of "[a, b, c]" s3] s s2 \<open>?b \<and> byte_in 128 191 c \<and> utf8_valid s3\<close> by simp
    next
      case three: False
      then obtain d s4 where s3: "s3 = d # s4" using assms s s2 two by (cases s3) simp_all
      let ?b = "if of_char a = (240 :: nat) then byte_in 144 191 b else if of_char a = (244 :: nat) then byte_in 128 143 b else byte_in 128 191 b"
      have v: "byte_in 240 244 a \<and> ?b \<and> byte_in 128 191 c \<and> byte_in 128 191 d \<and> utf8_valid s4"
        using assms s s2 s3 two three by simp
      moreover from this have "128 \<le> (of_char b :: nat)" "128 \<le> (of_char c :: nat)" "128 \<le> (of_char d :: nat)"
        by (auto intro: byte_in_high split: if_splits)
      ultimately have "wide_char [a, b, c, d]" using two three assms(2) a by (simp add: wide_char_def)
      then show thesis using that [of "[a, b, c, d]" s4] s s2 s3 v by simp
    qed
  qed
qed

lemma utf8_induct [consumes 1, case_names Nil ascii wide]:
  assumes "utf8_valid s" and "P []" and "\<And>c s. byte_in 0 127 c \<Longrightarrow> utf8_valid s \<Longrightarrow> P s \<Longrightarrow> P (c # s)"
    and "\<And>m s. wide_char m \<Longrightarrow> utf8_valid s \<Longrightarrow> P s \<Longrightarrow> P (m @ s)"
  shows "P s"
  using assms(1)
proof (induction s rule: length_induct)
  case (1 s)
  show ?case
  proof (cases s)
    case Nil
    then show ?thesis using assms(2) by simp
  next
    case (Cons a r)
    show ?thesis
    proof (cases "byte_in 0 127 a")
      case True
      then show ?thesis using 1 Cons assms(3) by simp
    next
      case False
      then obtain m t where "a # r = m @ t" "wide_char m" "utf8_valid t" using utf8_front 1(2) Cons by blast
      moreover from this have "length t < length s" using Cons by (metis length_append less_add_same_cancel2 length_greater_0_conv wide_char_def)
      ultimately show ?thesis using 1(1) Cons assms(4) by metis
    qed
  qed
qed

lemma utf8_valid_append: "utf8_valid a \<Longrightarrow> utf8_valid b \<Longrightarrow> utf8_valid (a @ b)"
  by (induction a rule: utf8_induct) (simp_all add: wide_char_def)

lemma utf8_valid_escape: "utf8_valid a \<Longrightarrow> utf8_valid (escape_quoted a)"
proof (induction a rule: utf8_induct)
  case (ascii c s)
  then show ?case by (simp add: byte_in_def)
next
  case (wide m s)
  have "escape_quoted m = m" if "\<forall>c \<in> set m. 128 \<le> (of_char c :: nat)" for m
    using that by (induction m) auto
  then have "escape_quoted (m @ s) = m @ escape_quoted s"
    using wide(1) by (simp add: wide_char_def escape_quoted_def)
  then show ?case using wide by (simp add: wide_char_def)
qed simp

section \<open>Reading a form\<close>

lemma utf8_quoted: "utf8_valid s \<Longrightarrow> utf8_valid (quoted_string s)"
  by (simp add: quoted_string_def utf8_valid_append utf8_valid_escape byte_in_def)

lemma set_quoted: "CHR 0x0D \<notin> set s \<Longrightarrow> CHR 0x0D \<notin> set (quoted_string s)"
  using set_escape [of s] by (auto simp: quoted_string_def)

lemma disposition_split:
  "split_quoted (disposition_text f) (CHR '';'') =
     Inr (''form-data'' # ('' name='' @ quoted_string (mf_name f)) #
       (case mf_file_name f of None \<Rightarrow> [] | Some n \<Rightarrow> ['' filename='' @ quoted_string n]))"
proof -
  have rest: "split_quoted_from (CHR '';'') False False part ('' filename='' @ quoted_string n) = Inr [part @ '' filename='' @ quoted_string n]" for part n
    using split_plain [of "'' filename=''" "CHR '';''" part "quoted_string n"] split_over_quoted [of "CHR '';''" "part @ '' filename=''" n "[]"] by simp
  have whole: "split_quoted (''form-data; name='' @ quoted_string (mf_name f) @ s) (CHR '';'') =
      map_sum id (Cons ''form-data'') (split_quoted_from (CHR '';'') False False ('' name='' @ quoted_string (mf_name f)) s)" for s
    using split_over_quoted [of "CHR '';''" "'' name=''" "mf_name f" s] by (simp add: split_quoted_def)
  show ?thesis
  proof (cases "mf_file_name f")
    case None
    then show ?thesis using whole [of "[]"] by (simp add: disposition_text_def)
  next
    case (Some n)
    then show ?thesis using whole [of "''; filename='' @ quoted_string n"] rest [of "[]" n] by (simp add: disposition_text_def)
  qed
qed

lemma trim_disposition: "str_trim ('' '' @ disposition_text f) = disposition_text f"
proof -
  have "last (disposition_text f) = DQUOTE" "hd (disposition_text f) = CHR ''f''" "disposition_text f \<noteq> []"
    by (auto simp: disposition_text_def quoted_string_def split: option.split)
  then have "str_trim (disposition_text f) = disposition_text f"
    by (intro str_trim_ends) (simp_all add: plain_char_def)
  then show ?thesis using str_trim_space by simp
qed

lemma parts_read:
  "disposition_parts (('' name='' @ quoted_string name) # (case file_name of None \<Rightarrow> [] | Some n \<Rightarrow> ['' filename='' @ quoted_string n])) None None =
     Inr (Some name, file_name)"
proof -
  have keys: "str_trim '' name'' = ''name''" "str_trim '' filename'' = ''filename''" by code_simp+
  have "split_once (CHR ''='') ('' name='' @ quoted_string n) = Some ('' name'', quoted_string n)"
    "split_once (CHR ''='') ('' filename='' @ quoted_string n) = Some ('' filename'', quoted_string n)" for n
    by simp_all
  then show ?thesis by (cases file_name) (simp_all add: keys unquote_quoted Let_def)
qed

lemma disposition_line: "field_ok lib boundary f \<Longrightarrow> CHR 0x0D \<notin> set (disposition_text f)"
  by (cases "mf_file_name f") (simp_all add: disposition_text_def field_ok_def text_ok_def set_quoted)

lemma headers_split:
  assumes "field_ok lib boundary f"
  shows "split_str CRLF (field_headers f) =
    (''Content-Disposition: '' @ disposition_text f) # (case mf_content_type f of None \<Rightarrow> [] | Some t \<Rightarrow> [''Content-Type: '' @ t])"
proof -
  let ?d = "''Content-Disposition: '' @ disposition_text f"
  have d: "CHR 0x0D \<notin> set ?d" using disposition_line [OF assms] by simp
  have single: "split_str CRLF s = [s]" if "CHR 0x0D \<notin> set s" for s
    using that find_bytes_none [of CRLF s] by (subst split_str.simps) simp
  show ?thesis
  proof (cases "mf_content_type f")
    case None
    then show ?thesis using single [OF d] by (simp add: field_headers_def)
  next
    case (Some t)
    then have "CHR 0x0D \<notin> set (''Content-Type: '' @ t)" using assms by (auto simp: field_ok_def text_ok_def)
    moreover have "find_bytes (?d @ CRLF @ ''Content-Type: '' @ t) CRLF = Some (length ?d)"
      using find_bytes_skip [of CRLF ?d "CRLF @ ''Content-Type: '' @ t"] d find_bytes_here [of CRLF "''Content-Type: '' @ t"] by simp
    ultimately have "split_str CRLF (?d @ CRLF @ ''Content-Type: '' @ t) = [?d, ''Content-Type: '' @ t]"
      using single [of "''Content-Type: '' @ t"] by (subst split_str.simps) simp
    then show ?thesis using Some by (simp add: field_headers_def)
  qed
qed

lemma headers_read:
  assumes "field_ok lib boundary f"
  shows "parse_multipart_headers lib (field_headers f) = Inr (mf_name f, mf_file_name f, mf_content_type f)"
proof -
  have keys: "to_ascii_lowercase (str_trim ''Content-Disposition'') = ''content-disposition''"
      "to_ascii_lowercase (str_trim ''Content-Type'') = ''content-type''" by code_simp+
  have once: "split_once (CHR '':'') (''Content-Disposition: '' @ s) = Some (''Content-Disposition'', '' '' @ s)"
      "split_once (CHR '':'') (''Content-Type: '' @ s) = Some (''Content-Type'', '' '' @ s)" for s by simp_all
  have form: "str_trim ''form-data'' = ''form-data''" by code_simp
  have trim_value: "str_trim ('' '' @ t) = str_trim t" for t using str_trim_space [of t] by simp
  have "header_lines lib (split_str CRLF (field_headers f)) None None = Inr (Some (disposition_text f), mf_content_type f)"
    using assms once trim_disposition [of f]
    by (cases "mf_content_type f") (simp_all add: headers_split [OF assms] keys field_ok_def trim_value del: split_once.simps append_Cons)
  then show ?thesis
    using assms parts_read [of "mf_name f" "mf_file_name f"]
    by (simp add: parse_multipart_headers_def disposition_split form field_ok_def del: disposition_parts.simps)
qed

lemma headers_end:
  assumes "field_ok lib boundary f"
  shows "find_bytes (field_headers f @ CRLF @ CRLF @ s) (CRLF @ CRLF) = Some (length (field_headers f))"
    and "utf8_valid (field_headers f)"
proof -
  let ?d = "''Content-Disposition: '' @ disposition_text f"
  have d: "CHR 0x0D \<notin> set ?d" using disposition_line [OF assms] by simp
  have stop: "find_bytes (CRLF @ CRLF @ s) (CRLF @ CRLF) = Some 0" using find_bytes_here [of "CRLF @ CRLF" s] by simp
  show "find_bytes (field_headers f @ CRLF @ CRLF @ s) (CRLF @ CRLF) = Some (length (field_headers f))"
  proof (cases "mf_content_type f")
    case None
    then show ?thesis using find_bytes_skip [of "CRLF @ CRLF" ?d "CRLF @ CRLF @ s"] d stop by (simp add: field_headers_def)
  next
    case (Some t)
    let ?t = "''Content-Type: '' @ t"
    have "CHR 0x0D \<notin> set ([CHR 0x0A] @ ?t)" using assms Some by (auto simp: field_ok_def text_ok_def)
    then have "find_bytes (([CHR 0x0A] @ ?t) @ CRLF @ CRLF @ s) (CRLF @ CRLF) = Some (length ([CHR 0x0A] @ ?t))"
      using find_bytes_skip [of "CRLF @ CRLF" "[CHR 0x0A] @ ?t" "CRLF @ CRLF @ s"] stop by simp
    then have "find_bytes (CRLF @ ?t @ CRLF @ CRLF @ s) (CRLF @ CRLF) = Some (length (CRLF @ ?t))"
      by (subst find_bytes.simps) simp
    then show ?thesis
      using find_bytes_skip [of "CRLF @ CRLF" ?d "CRLF @ ?t @ CRLF @ CRLF @ s"] d Some by (simp add: field_headers_def)
  qed
  have name: "utf8_valid (mf_name f)" and filed: "mf_file_name f = Some n \<Longrightarrow> utf8_valid n" and ct: "mf_content_type f = Some t \<Longrightarrow> utf8_valid t" for n t
    using assms by (simp_all add: field_ok_def text_ok_def)
  have file_text: "utf8_valid (case mf_file_name f of None \<Rightarrow> [] | Some n \<Rightarrow> ''; filename='' @ quoted_string n)"
    using filed utf8_quoted by (cases "mf_file_name f") (simp_all add: byte_in_def)
  have "utf8_valid ?d"
    using utf8_valid_append [OF utf8_quoted [OF name] file_text] by (simp add: disposition_text_def byte_in_def)
  moreover have "utf8_valid (case mf_content_type f of None \<Rightarrow> [] | Some t \<Rightarrow> CRLF @ ''Content-Type: '' @ t)"
    using ct by (cases "mf_content_type f") (simp_all add: byte_in_def)
  ultimately show "utf8_valid (field_headers f)"
    using utf8_valid_append unfolding field_headers_def by (metis append_assoc)
qed

lemma part_read:
  assumes "field_ok lib boundary f" and "CHR 0x0D \<notin> set boundary"
  shows "parse_parts lib (''--'' @ boundary) (write_part boundary f @ s) =
    map_sum id (Cons f) (parse_parts lib (''--'' @ boundary) s)"
proof -
  let ?h = "field_headers f"
  have whole: "write_part boundary f @ s = (CRLF @ ?h @ CRLF @ CRLF) @ mf_data f @ (CRLF @ ''--'' @ boundary) @ s"
    by (simp add: write_part_def)
  have dropped: "drop n (a @ b) = b" if "n = length a" for n and a b :: string using that by simp
  have heads: "take 2 (write_part boundary f @ s) = CRLF"
      "drop 2 (write_part boundary f @ s) = ?h @ CRLF @ CRLF @ mf_data f @ CRLF @ ''--'' @ boundary @ s"
    by (simp_all add: write_part_def)
  have data: "drop (length ?h + 6) (write_part boundary f @ s) = mf_data f @ (CRLF @ ''--'' @ boundary) @ s"
    unfolding whole by (rule dropped) simp
  have last: "drop (length ?h + 6 + length (mf_data f) + 2 + length (''--'' @ boundary)) (write_part boundary f @ s) = s"
    by (rule dropped) (simp add: write_part_def)
  have "find_bytes (mf_data f @ (CRLF @ ''--'' @ boundary) @ s) (CRLF @ ''--'' @ boundary) = Some (length (mf_data f))"
    using find_bytes_after [of "CHR 0x0D" "[CHR 0x0A] @ ''--'' @ boundary" "mf_data f" s] assms by (simp add: field_ok_def)
  moreover define w where "w = write_part boundary f @ s"
  ultimately have "parse_parts lib (''--'' @ boundary) w = map_sum id (Cons f) (parse_parts lib (''--'' @ boundary) s)"
    using headers_end [OF assms(1)] headers_read [OF assms(1)] heads data last unfolding w_def [symmetric]
    by (subst parse_parts.simps) (cases f, simp del: append_assoc append_Cons)
  then show ?thesis by (simp add: w_def)
qed

text \<open>A backslash that does not escape a quote or a backslash, as browsers write it in a file name, is refused.\<close>

lemma raw_backslash_refused:
  assumes "BACKSLASH \<notin> set a" and "c \<noteq> DQUOTE" and "c \<noteq> BACKSLASH"
  shows "unquote_parameter (DQUOTE # (a @ BACKSLASH # c # b) @ [DQUOTE]) = Inl MpInvalidBody"
proof -
  have "unescape False (a @ BACKSLASH # c # b) = Inl MpInvalidBody" using assms by (induction a) auto
  then show ?thesis by (simp add: unquote_parameter_def butlast_append)
qed

text \<open>C37: a form is read as it was written by a client that escapes. Let the client write the names and file names of the
  fields as quoted strings, in which quotes and backslashes are escaped by a backslash, let no
  name be empty, let names, file names and media types be UTF-8 without carriage returns, and media
  types be such that the package parses them; let no carriage return be in the boundary, and the
  boundary follow no line end and two dashes in the data of a field. Then the parser
  returns exactly the fields of the form in their order, whatever else is in their names and data:
  quotes, backslashes, semicolons, line feeds, delimiters without a line end.\<close>

theorem multipart_reads_form:
  assumes "list_all (field_ok lib boundary) fs" and "CHR 0x0D \<notin> set boundary"
  shows "parse_multipart lib (write_form boundary fs) boundary = Inr fs"
proof -
  have "parse_parts lib (''--'' @ boundary) (concat (map (write_part boundary) fs) @ ''--'' @ CRLF) = Inr fs"
    using assms(1)
  proof (induction fs)
    case Nil
    then show ?case by (subst parse_parts.simps) simp
  next
    case (Cons f fs)
    then show ?case using part_read [OF _ assms(2)] by simp
  qed
  then show ?thesis by (simp add: parse_multipart_def write_form_def Let_def)
qed

definition demo_mime :: mime_lib where
  "demo_mime = \<lparr>mm_parse = (\<lambda>t. Some (''multipart'', ''form-data'', Some t)), mm_header_text = Some\<rparr>"

definition demo_form :: "multipart_field list" where
  "demo_form =
     [\<lparr>mf_name = ''a;'' @ [DQUOTE], mf_file_name = Some ([BACKSLASH] @ ''x''), mf_content_type = None, mf_data = ''1''\<rparr>,
      \<lparr>mf_name = ''b'', mf_file_name = None, mf_content_type = Some ''t'', mf_data = CRLF @ ''2''\<rparr>]"

lemma demo_form_ok: "list_all (field_ok demo_mime ''X'') demo_form"
  by (simp add: demo_form_def field_ok_def text_ok_def demo_mime_def byte_in_def find_bytes.simps str_trim_ends plain_char_def)

theorem multipart_reads_form_witness:
  "parse_multipart demo_mime (write_form ''X'' demo_form) ''X'' = Inr demo_form"
  by (rule multipart_reads_form [OF demo_form_ok]) simp

section \<open>What is read\<close>

lemma find_bytes_first: "find_bytes s p = Some i \<Longrightarrow> find_bytes (take i s) p = None"
proof (induction s p arbitrary: i rule: find_bytes.induct)
  case (1 s p)
  show ?case
  proof (cases "p = [] \<or> i = 0")
    case True
    then show ?thesis by (subst find_bytes.simps) auto
  next
    case False
    then obtain c t j where t: "s = c # t" "find_bytes t p = Some j" "i = Suc j" "take (length p) s \<noteq> p"
      using 1(2) by (subst (asm) find_bytes.simps) (auto split: if_splits list.splits)
    have "take (length p) (take i s) \<noteq> p"
    proof
      assume eq: "take (length p) (take i s) = p"
      then have "length p \<le> i" by (metis length_take min.bounded_iff nle_le)
      then show False using eq t(4) by (simp add: min_def)
    qed
    moreover have "find_bytes (take j t) p = None" using 1(1) False t by simp
    ultimately show ?thesis using t False by (subst find_bytes.simps) simp
  qed
qed

text \<open>The data of a field that was read has no delimiter in it.\<close>

lemma field_data_undelimited:
  "parse_parts lib delimiter rest = Inr fs \<Longrightarrow> f \<in> set fs \<Longrightarrow> find_bytes (mf_data f) (CRLF @ delimiter) = None"
proof (induction lib delimiter rest arbitrary: fs rule: parse_parts.induct)
  case (1 lib delimiter rest)
  show ?case
  proof (cases "take 2 rest = ''--''")
    case True
    then show ?thesis using "1.prems" by (subst (asm) parse_parts.simps) (auto split: if_splits)
  next
    case False
    then obtain i j name file_name content_type gs where step:
        "find_bytes (drop 2 rest) (CRLF @ CRLF) = Some i" "find_bytes (drop (i + 6) rest) (CRLF @ delimiter) = Some j"
        "parse_multipart_headers lib (take i (drop 2 rest)) = Inr (name, file_name, content_type)"
        "parse_parts lib delimiter (drop (i + 6 + j + 2 + length delimiter) rest) = Inr gs"
        "fs = \<lparr>mf_name = name, mf_file_name = file_name, mf_content_type = content_type, mf_data = take j (drop (i + 6) rest)\<rparr> # gs"
        "take 2 rest = CRLF" "utf8_valid (take i (drop 2 rest))"
      using "1.prems"(1)
      by (subst (asm) parse_parts.simps) (auto split: if_splits option.splits simp: res_bind_Inr_iff map_sum_Inr_iff)
    then show ?thesis
      using "1.IH" [OF False _ step(1) _ step(2) step(4)] "1.prems"(2) find_bytes_first [OF step(2)] by auto
  qed
qed

end
