(* ===== verification/Http_Body_Props.thy ===== *)
theory Http_Body_Props
  imports Http_Body Http_Multipart_Props Route_Witness
begin

text \<open>
  What holds of response bodies: every observer learns exactly once how a body ended, whichever way the
  response goes, and a download names its file safely and exactly.
\<close>

section \<open>Ways a response is used up\<close>

text \<open>A body on a connection: polls with what the world does before each of them, and the drop at the end.\<close>

fun run_body :: "('s, 'w) stream_source \<Rightarrow> ('w \<Rightarrow> 'w) list \<Rightarrow> ('s, 'w) lifecycle_stream \<Rightarrow> 'w \<Rightarrow> stream_poll list \<times> 'w" where
  "run_body poll [] ls w = ([], lifecycle_drop ls w)"
| "run_body poll (g # gs) ls w =
     (case lifecycle_poll poll ls (g w) of (r, ls, w) \<Rightarrow>
        (case run_body poll gs ls w of (rs, w) \<Rightarrow> (r # rs, w)))"

datatype 'w body_use =
    UseDrop
  | UseHead
  | UseParts "('w \<Rightarrow> 'w) list"
  | UseNetwork "'w \<Rightarrow> bool" "('w \<Rightarrow> 'w) list"

definition on_connection :: "('s, 'w) stream_source \<Rightarrow> ('w \<Rightarrow> 'w) list \<Rightarrow> (u16 \<times> headers \<times> ('s, 'w) network_body) option \<Rightarrow> 'w \<Rightarrow> stream_poll list \<times> 'w" where
  "on_connection poll gs parts w =
     (case parts of
        Some (_, _, NetLifecycle ls) \<Rightarrow> run_body poll gs ls w
      | _ \<Rightarrow> ([], w))"

definition use_response :: "('s, 'w) stream_source \<Rightarrow> 'w body_use \<Rightarrow> ('s, 'w) response \<Rightarrow> 'w \<Rightarrow> stream_poll list \<times> 'w" where
  "use_response poll u r w =
     (case u of
        UseDrop \<Rightarrow> ([], response_drop r w)
      | UseHead \<Rightarrow> ([], case into_head r w of (None, w) \<Rightarrow> w | (Some r, w) \<Rightarrow> response_drop r w)
      | UseParts gs \<Rightarrow> on_connection poll gs (into_parts r) w
      | UseNetwork cancelled gs \<Rightarrow> on_connection poll gs (into_network_parts cancelled r) w)"

fun observe_all :: "'w body_observer list \<Rightarrow> ('s, 'w) response \<Rightarrow> 'w \<Rightarrow> ('s, 'w) response option \<times> 'w" where
  "observe_all [] r w = (Some r, w)"
| "observe_all (observer # observers) r w =
     (case on_body_finish observer r w of
        (None, w) \<Rightarrow> (None, w)
      | (Some r, w) \<Rightarrow> observe_all observers r w)"

section \<open>Observers with a log\<close>

text \<open>The world is a log, which only observers write, and the rest, which only the source and the environment touch.\<close>

definition log_observer :: "(response_body_summary \<Rightarrow> 'l \<Rightarrow> 'l) \<Rightarrow> ('l \<times> 'e) body_observer" where
  "log_observer observer summary = (\<lambda>(l, e). (observer summary l, e))"

definition world_source :: "('s, 'e) stream_source \<Rightarrow> ('s, 'l \<times> 'e) stream_source" where
  "world_source poll s = (\<lambda>(l, e). case poll s e of (r, s, e) \<Rightarrow> (r, s, (l, e)))"

definition world_use :: "'e body_use \<Rightarrow> ('l \<times> 'e) body_use" where
  "world_use u =
     (case u of
        UseDrop \<Rightarrow> UseDrop
      | UseHead \<Rightarrow> UseHead
      | UseParts gs \<Rightarrow> UseParts (map (\<lambda>g (l, e). (l, g e)) gs)
      | UseNetwork cancelled gs \<Rightarrow> UseNetwork (\<lambda>(l, e). cancelled e) (map (\<lambda>g (l, e). (l, g e)) gs))"

lemma notify_log: "notify_body_observers (map log_observer obs) summary (l, e) = (fold (\<lambda>observer. observer summary) obs l, e)"
  unfolding notify_body_observers_def by (induction obs arbitrary: l) (simp_all add: log_observer_def)

text \<open>The bytes of the chunks that were handed out, as the counter holds them.\<close>

definition yielded :: "stream_poll list \<Rightarrow> nat" where
  "yielded rs = (\<Sum>r\<leftarrow>rs. case r of PollChunk c \<Rightarrow> length c | _ \<Rightarrow> 0)"

definition counted :: "nat \<Rightarrow> u64" where
  "counted n = (if n < 2 ^ 64 then of_nat n else - 1)"

lemma counted_add: "w_saturating_add (counted n) (of_nat m) = counted (n + m)" if "m < 2 ^ 64" for m
proof (cases "n < 2 ^ 64")
  case True
  then have "unat (counted n) = n" "unat (of_nat m :: u64) = m" using that by (simp_all add: counted_def unat_of_nat)
  then show ?thesis using True by (simp add: w_saturating_add_def counted_def)
next
  case False
  have "unat (- 1 :: u64) = 2 ^ 64 - 1" by (simp add: unsigned_minus_1_eq_mask mask_eq_exp_minus_1)
  moreover have "unat (of_nat m :: u64) = m" using that by (simp add: unat_of_nat)
  ultimately have "w_saturating_add (- 1 :: u64) (of_nat m) = - 1"
    by (cases "m = 0") (simp_all add: w_saturating_add_def)
  then show ?thesis using False by (simp add: counted_def)
qed

text \<open>How a body ends on a connection: by what comes first of a cancellation, seen at a poll, and the end or the failure
  of the source; without any of them when it is dropped, by a shutdown, a client that went away, or
  outside a connection.\<close>

fun body_end :: "('s, 'e) stream_source \<Rightarrow> ('e \<Rightarrow> bool) option \<Rightarrow> ('e \<Rightarrow> 'e) list \<Rightarrow> 's \<Rightarrow> 'e \<Rightarrow> response_body_outcome" where
  "body_end poll cancelled [] s e =
     (case cancelled of None \<Rightarrow> Aborted | Some c \<Rightarrow> if c e then Shutdown else DeliveryCancelled)"
| "body_end poll cancelled (g # gs) s e =
     (if (case cancelled of None \<Rightarrow> False | Some c \<Rightarrow> c (g e)) then Shutdown
      else
        (case poll s (g e) of (r, s, e) \<Rightarrow>
           if r = PollEnd then Complete
           else if r = PollFailed \<or> r = PollPanic then StreamError
           else body_end poll cancelled gs s e))"

text \<open>After the end of a body or a failure nothing but ends is answered.\<close>

fun well_ended :: "stream_poll list \<Rightarrow> bool" where
  "well_ended [] = True"
| "well_ended (r # rs) = (r \<noteq> PollPanic \<and> (r \<in> {PollEnd, PollFailed} \<longrightarrow> (\<forall>q \<in> set rs. q = PollEnd)) \<and> well_ended rs)"

lemma run_finished: "ls_finished ls \<Longrightarrow> run_body poll gs ls w = (replicate (length gs) PollEnd, fold (\<lambda>g. g) gs w)"
  by (induction gs arbitrary: w) (simp_all add: lifecycle_drop_def lifecycle_poll_def)

lemma fold_world: "fold (\<lambda>g. g) (map (\<lambda>g (l, e). (l, g e)) gs) (l, e) = (l, fold (\<lambda>g. g) gs e)"
  by (induction gs arbitrary: e) simp_all

lemma yielded_ends [simp]: "yielded (replicate n PollEnd) = 0"
  by (induction n) (simp_all add: yielded_def)

lemma well_ended_ends [simp]: "well_ended (replicate n PollEnd)"
  by (induction n) simp_all

lemma yielded_Cons [simp]: "yielded (r # rs) = (case r of PollChunk c \<Rightarrow> length c | _ \<Rightarrow> 0) + yielded rs"
  by (simp add: yielded_def)

text \<open>Chunks of a source are shorter than the address space.\<close>

definition source_ok :: "('s, 'e) stream_source \<Rightarrow> bool" where
  "source_ok poll \<longleftrightarrow> (\<forall>s e c s' e'. poll s e = (PollChunk c, s', e') \<longrightarrow> length c < 2 ^ 64)"

lemma run_body_log:
  fixes obs :: "(response_body_summary \<Rightarrow> 'l \<Rightarrow> 'l) list"
  assumes "source_ok poll"
  shows "\<not> ls_finished ls \<Longrightarrow> ls_observers ls = map log_observer obs \<Longrightarrow> ls_bytes_yielded ls = counted n \<Longrightarrow>
    ls_cancellation ls = map_option (\<lambda>c (l, e). c e) cancelled \<Longrightarrow>
    run_body (world_source poll) (map (\<lambda>g (l, e). (l, g e)) gs) ls (l, e) = (rs, l', e') \<Longrightarrow>
    l' = fold (\<lambda>observer. observer \<lparr>bs_outcome = body_end poll cancelled gs (ls_inner ls) e,
        bs_bytes_yielded = counted (n + yielded rs)\<rparr>) obs l \<and>
      well_ended rs \<and> (body_end poll cancelled gs (ls_inner ls) e = StreamError \<longleftrightarrow> PollFailed \<in> set rs)"
proof (induction gs arbitrary: ls n l e rs l' e')
  case Nil
  then show ?case
    by (cases cancelled) (auto simp: lifecycle_drop_def lifecycle_finish_def notify_log yielded_def)
next
  case (Cons g gs)
  let ?gs = "map (\<lambda>g (l, e). (l, g e)) gs"
  obtain r ls1 w1 qs where poll: "lifecycle_poll (world_source poll) ls (l, g e) = (r, ls1, w1)"
      and run: "run_body (world_source poll) ?gs ls1 w1 = (qs, l', e')" and rs: "rs = r # qs"
    using Cons.prems(5) by (auto split: prod.splits)
  show ?case
  proof (cases "case cancelled of None \<Rightarrow> False | Some c \<Rightarrow> c (g e)")
    case True
    then have "r = PollEnd" "ls_finished ls1" "w1 = (fold (\<lambda>observer. observer \<lparr>bs_outcome = Shutdown, bs_bytes_yielded = counted n\<rparr>) obs l, g e)"
      using poll Cons.prems by (auto simp: lifecycle_poll_def lifecycle_finish_def notify_log split: option.splits if_splits)
    then show ?thesis
      using run rs run_finished [of ls1 "world_source poll" ?gs w1] True by (auto simp: fold_world)
  next
    case False
    obtain q inner e1 where inner: "poll (ls_inner ls) (g e) = (q, inner, e1)" by (cases "poll (ls_inner ls) (g e)")
    have not_cancelled: "\<not> (case ls_cancellation ls of None \<Rightarrow> False | Some c \<Rightarrow> c (l, g e))"
      using False Cons.prems(4) by (cases cancelled) simp_all
    note step = poll [unfolded lifecycle_poll_def world_source_def prod.case inner] Cons.prems(1-4) not_cancelled
    have go: ?thesis if "r \<in> {PollPending} \<union> range PollChunk" "ls1 = ls\<lparr>ls_inner := inner, ls_bytes_yielded := counted (n + yielded [r])\<rparr>"
        "w1 = (l, e1)" "q \<notin> {PollEnd, PollFailed, PollPanic}"
    proof -
      have "l' = fold (\<lambda>observer. observer \<lparr>bs_outcome = body_end poll cancelled gs (ls_inner ls1) e1,
            bs_bytes_yielded = counted (n + yielded [r] + yielded qs)\<rparr>) obs l \<and>
          well_ended qs \<and> (body_end poll cancelled gs (ls_inner ls1) e1 = StreamError \<longleftrightarrow> PollFailed \<in> set qs)"
        by (rule Cons.IH [OF _ _ _ _ run [unfolded that(3)]]) (use that(2) Cons.prems in simp_all)
      then show ?thesis using that rs False inner by (auto simp: add.assoc yielded_def)
    qed
    have stop: ?thesis if "r = (if outcome = Complete then PollEnd else PollFailed)" "ls_finished ls1"
        "outcome = (if q = PollEnd then Complete else StreamError)" "q \<in> {PollEnd, PollFailed, PollPanic}"
        "w1 = (fold (\<lambda>observer. observer \<lparr>bs_outcome = outcome, bs_bytes_yielded = counted n\<rparr>) obs l, e1)" for outcome
      using that run rs run_finished [of ls1 "world_source poll" ?gs w1] False inner
      by (auto simp: fold_world split: if_splits)
    show ?thesis
    proof (cases q)
      case (PollChunk c)
      then have "length c < 2 ^ 64" using assms inner unfolding source_ok_def by blast
      then show ?thesis using step PollChunk by (intro go) (auto simp: Let_def counted_add yielded_def)
    next
      case PollFailed
      then show ?thesis using step by (intro stop [OF _ _ refl]) (auto simp: Let_def lifecycle_finish_def notify_log)
    next
      case PollEnd
      then show ?thesis using step by (intro stop [OF _ _ refl]) (auto simp: Let_def lifecycle_finish_def notify_log)
    next
      case PollPending
      then show ?thesis using step by (intro go) (auto simp: Let_def yielded_def)
    next
      case PollPanic
      then show ?thesis using step by (intro stop [OF _ _ refl]) (auto simp: Let_def lifecycle_finish_def notify_log)
    qed
  qed
qed

section \<open>Observers\<close>

lemma observe_buffered:
  "rp_body r = Some (BufferedBody body) \<Longrightarrow>
    observe_all (map log_observer obs) r (l, e) =
      (Some r, fold (\<lambda>observer. observer \<lparr>bs_outcome = Complete, bs_bytes_yielded = of_nat (length body)\<rparr>) obs l, e)"
  by (induction obs arbitrary: l) (simp_all add: on_body_finish_def notify_body_observers_def log_observer_def)

lemma observe_stream:
  "rp_body r = Some (StreamBody s) \<Longrightarrow> observe_all obs r w = (Some (r\<lparr>rp_observers := rp_observers r @ obs\<rparr>), w)"
  by (induction obs arbitrary: r) (simp_all add: on_body_finish_def)

text \<open>C35: every observer of a response learns exactly once how its body ended. However the response is used up, dropped,
  answered without its body, or sent over a connection that polls it any number of times while
  anything else happens and that may be cancelled, each observer is called once, in order, with one
  summary. It counts the bytes that were handed out, and it names how the body ended: by the first of
  a cancellation, the end of the source and its failure or panic; when it is dropped before, by
  whether the connection was cancelled, or that there was none. A failure is handed out exactly
  when the summary says so, and nothing is handed out after the end.\<close>

theorem observers_notified_once:
  fixes obs :: "(response_body_summary \<Rightarrow> 'l \<Rightarrow> 'l) list" and poll :: "('s, 'e) stream_source"
  assumes "source_ok poll" and "rp_body r = Some body" and "rp_observers r = []" and "obs \<noteq> []"
    and "observe_all (map log_observer obs) r (l, e) = (Some observed, w)"
    and "use_response (world_source poll) (world_use u) observed w = (rs, l', e')"
  shows "\<exists>summary. l' = fold (\<lambda>observer. observer summary) obs l \<and>
    (case body of
       BufferedBody bs \<Rightarrow> summary = \<lparr>bs_outcome = Complete, bs_bytes_yielded = of_nat (length bs)\<rparr>
     | StreamBody s \<Rightarrow>
         bs_bytes_yielded summary = counted (yielded rs) \<and>
         bs_outcome summary =
           (case u of
              UseDrop \<Rightarrow> Aborted
            | UseHead \<Rightarrow> Complete
            | UseParts gs \<Rightarrow> body_end poll None gs s e
            | UseNetwork cancelled gs \<Rightarrow> body_end poll (Some cancelled) gs s e) \<and>
         well_ended rs \<and> (bs_outcome summary = StreamError \<longleftrightarrow> PollFailed \<in> set rs))"
proof (cases body)
  case (BufferedBody bs)
  then have "observed = r" "w = (fold (\<lambda>observer. observer \<lparr>bs_outcome = Complete, bs_bytes_yielded = of_nat (length bs)\<rparr>) obs l, e)"
    using assms(2,5) observe_buffered [of r bs obs l e] by simp_all
  moreover have "snd (use_response (world_source poll) (world_use u) r w) = w" for w
    using assms(2) BufferedBody
    by (cases u) (auto simp: use_response_def world_use_def response_drop_def into_head_def Let_def insert_header_def on_connection_def
        into_parts_def into_network_parts_def take_parts_def)
  ultimately have "l' = fold (\<lambda>observer. observer \<lparr>bs_outcome = Complete, bs_bytes_yielded = of_nat (length bs)\<rparr>) obs l"
    using assms(6) by (metis fst_conv snd_conv)
  then show ?thesis using BufferedBody by auto
next
  case (StreamBody s)
  then have observed: "observed = r\<lparr>rp_observers := map log_observer obs\<rparr>" "w = (l, e)"
    using assms(2,3,5) observe_stream [of r s "map log_observer obs"] by simp_all
  have zero: "counted 0 = 0" "yielded [] = 0" by (simp_all add: counted_def yielded_def)
  let ?new = "\<lambda>c. lifecycle_new s (map log_observer obs) (map_option (\<lambda>c (l, e). c e) c)"
  have run: "l' = fold (\<lambda>observer. observer \<lparr>bs_outcome = body_end poll c gs s e, bs_bytes_yielded = counted (yielded rs)\<rparr>) obs l \<and>
      well_ended rs \<and> (body_end poll c gs s e = StreamError \<longleftrightarrow> PollFailed \<in> set rs)"
    if body_run: "run_body (world_source poll) (map (\<lambda>g (l, e). (l, g e)) gs) (?new c) (l, e) = (rs, l', e')" for gs c
    using run_body_log [OF assms(1) _ _ _ _ body_run, of obs 0 c] zero by (simp add: lifecycle_new_def)
  show ?thesis
  proof (cases u)
    case UseDrop
    then show ?thesis
      using assms(2,6) StreamBody observed zero
      by (intro exI [of _ "\<lparr>bs_outcome = Aborted, bs_bytes_yielded = 0\<rparr>"]) (auto simp: use_response_def world_use_def response_drop_def notify_log)
  next
    case UseHead
    then show ?thesis
      using assms(2,6) StreamBody observed zero
      by (intro exI [of _ "\<lparr>bs_outcome = Complete, bs_bytes_yielded = 0\<rparr>"])
        (auto simp: use_response_def world_use_def response_drop_def into_head_def notify_log)
  next
    case (UseParts gs)
    then have "run_body (world_source poll) (map (\<lambda>g (l, e). (l, g e)) gs) (?new None) (l, e) = (rs, l', e')"
      using assms(2,4,6) StreamBody observed
      by (simp add: use_response_def world_use_def on_connection_def into_parts_def take_parts_def)
    from run [OF this] show ?thesis
      using StreamBody UseParts by (intro exI [of _ "\<lparr>bs_outcome = body_end poll None gs s e, bs_bytes_yielded = counted (yielded rs)\<rparr>"]) simp
  next
    case (UseNetwork cancelled gs)
    then have "run_body (world_source poll) (map (\<lambda>g (l, e). (l, g e)) gs) (?new (Some cancelled)) (l, e) = (rs, l', e')"
      using assms(2,6) StreamBody observed
      by (simp add: use_response_def world_use_def on_connection_def into_network_parts_def take_parts_def)
    from run [OF this] show ?thesis
      using StreamBody UseNetwork
      by (intro exI [of _ "\<lparr>bs_outcome = body_end poll (Some cancelled) gs s e, bs_bytes_yielded = counted (yielded rs)\<rparr>"]) simp
  qed
qed

text \<open>A source that fails at its second poll, and a client that goes away afterwards.\<close>

definition demo_source :: "(nat, bool) stream_source" where
  "demo_source n e = (if n = 0 then (PollChunk ''ab'', 1, e) else (PollFailed, n, e))"

theorem observers_notified_once_witness:
  "fst (snd (use_response (world_source demo_source) (world_use (UseNetwork id [id, id, \<lambda>_. True]))
      (fst (case observe_all (map log_observer [\<lambda>s l. s # l, \<lambda>s l. s # l]) (response_stream 0) ([], False) of (Some r, w) \<Rightarrow> (r, w))) ([], False))) =
     [\<lparr>bs_outcome = StreamError, bs_bytes_yielded = 2\<rparr>, \<lparr>bs_outcome = StreamError, bs_bytes_yielded = 2\<rparr>]"
proof -
  let ?obs = "[\<lambda>s l. s # l, \<lambda>s l. s # l] :: (response_body_summary \<Rightarrow> response_body_summary list \<Rightarrow> response_body_summary list) list"
  let ?u = "UseNetwork id [id, id, \<lambda>_. True]"
  let ?r = "(response_stream 0)\<lparr>rp_observers := map log_observer ?obs\<rparr> :: (nat, response_body_summary list \<times> bool) response"
  have ok: "source_ok demo_source" by (auto simp: source_ok_def demo_source_def split: if_splits)
  have observed: "observe_all (map log_observer ?obs) (response_stream 0) ([], False) = (Some ?r, ([], False))"
    by (simp add: on_body_finish_def response_stream_def)
  obtain rs l e where used: "use_response (world_source demo_source) (world_use ?u) ?r ([], False) = (rs, l, e)"
    by (metis prod.exhaust)
  have rs: "rs = [PollChunk ''ab'', PollFailed, PollEnd]"
    using used by (simp add: use_response_def world_use_def on_connection_def into_network_parts_def take_parts_def response_stream_def
      lifecycle_poll_def lifecycle_new_def lifecycle_finish_def world_source_def demo_source_def Let_def notify_body_observers_def
      log_observer_def split: prod.splits)
  obtain summary where "l = fold (\<lambda>observer. observer summary) ?obs []" "bs_bytes_yielded summary = counted (yielded rs)"
      "bs_outcome summary = StreamError \<longleftrightarrow> PollFailed \<in> set rs"
    using observers_notified_once [OF ok _ _ _ observed used, of "StreamBody 0"] by (auto simp: response_stream_def)
  then have "l = [\<lparr>bs_outcome = StreamError, bs_bytes_yielded = 2\<rparr>, \<lparr>bs_outcome = StreamError, bs_bytes_yielded = 2\<rparr>]"
    by (cases summary) (simp add: rs yielded_def counted_def)
  then show ?thesis using observed used by simp
qed

section \<open>Downloads\<close>

lemma file_name_ascii: "file_name_char c \<Longrightarrow> plain_char c \<and> c \<notin> {DQUOTE, BACKSLASH, CHR '';'', CHR '' ''}"
  by (auto simp: file_name_char_def plain_char_def is_ascii_alphabetic_def is_ascii_digit_def byte_in_def)

lemma ascii_file_name_safe:
  "ascii_file_name n \<noteq> [] \<and> list_all file_name_char (ascii_file_name n) \<and> (\<exists>c \<in> set (ascii_file_name n). c \<notin> {CHR ''.'', CHR ''_'', CHR ''-''})"
proof -
  have "list_all file_name_char (map (\<lambda>c. if file_name_char c then c else CHR ''_'') s)" for s
    by (induction s) (simp_all add: file_name_char_def)
  moreover have "list_all file_name_char ''download''" "\<exists>c \<in> set ''download''. c \<notin> {CHR ''.'', CHR ''_'', CHR ''-''}"
    by (simp_all add: file_name_char_def is_ascii_alphabetic_def byte_in_def)
  moreover have "s \<noteq> [] \<and> (\<exists>c \<in> set s. c \<notin> {CHR ''.'', CHR ''_'', CHR ''-''})" if "\<not> list_all (\<lambda>c. c \<in> {CHR ''.'', CHR ''_'', CHR ''-''}) s" for s
  proof
    show "s \<noteq> []" using that by (metis list.pred_inject(1))
    show "\<exists>c \<in> set s. c \<notin> {CHR ''.'', CHR ''_'', CHR ''-''}" using that unfolding list_all_iff by blast
  qed
  moreover define s where "s = map (\<lambda>c. if file_name_char c then c else CHR ''_'') (filter (\<lambda>c. \<not> byte_in 128 191 c) n)"
  moreover have "ascii_file_name n = (if list_all (\<lambda>c. c \<in> {CHR ''.'', CHR ''_'', CHR ''-''}) s then ''download'' else s)"
    by (simp only: ascii_file_name_def Let_def s_def)
  ultimately show ?thesis by (cases "list_all (\<lambda>c. c \<in> {CHR ''.'', CHR ''_'', CHR ''-''}) s") (simp_all only: if_True if_False list.distinct simp_thms)
qed

lemma escape_safe: "list_all file_name_char s \<Longrightarrow> escape_quoted s = s"
  by (induction s) (auto dest: file_name_ascii)

text \<open>A download says its file name without any byte that could end its parameter, and exactly. Let the package
  encode a name to visible text without quotes and semicolons that decodes to it, and accept visible
  text in headers. Then the response is built for every file name; a reader that splits the header
  finds three parts, a fallback name of letters, digits, dots, dashes and underscores that is neither
  empty nor a step to a directory, and an encoded name that decodes to the given one.\<close>

theorem download_names_file:
  assumes "\<And>v c. c \<in> set (rl_percent_encode lib v) \<Longrightarrow> byte_in 33 126 c \<and> c \<notin> {DQUOTE, CHR '';''}"
    and "\<And>v. pct_decode (rl_percent_encode lib v) = v"
    and "\<And>v. list_all (\<lambda>c. byte_in 32 126 c) v \<Longrightarrow> rl_header_value lib v"
    and "dl_disposition d \<in> {''attachment'', ''inline''}" and "rl_header_value lib (dl_content_type d)"
  shows "\<exists>(r :: ('x, 'w) response) v name_part encoded_part fallback encoded.
    download_response lib d = Some r \<and> header_get ''content-disposition'' (rp_headers r) = Some v \<and>
    split_quoted v (CHR '';'') = Inr [dl_disposition d, '' filename='' @ name_part, '' filename*=UTF-8'' @ encoded_part] \<and>
    unquote_parameter name_part = Inr fallback \<and> fallback \<notin> {[], ''.'', ''..''} \<and> list_all file_name_char fallback \<and>
    encoded_part = [CHR 0x27, CHR 0x27] @ encoded \<and> pct_decode encoded = dl_file_name d \<and>
    header_get ''x-content-type-options'' (rp_headers r) = Some ''nosniff'' \<and> rp_body r = Some (BufferedBody (dl_body d))"
proof -
  let ?f = "ascii_file_name (dl_file_name d)" and ?e = "rl_percent_encode lib (dl_file_name d)"
  let ?last = "'' filename*=UTF-8'' @ [CHR 0x27, CHR 0x27] @ ?e"
  note safe = ascii_file_name_safe [of "dl_file_name d"]
  have v: "content_disposition lib d = dl_disposition d @ '';'' @ '' filename='' @ quoted_string ?f @ '';'' @ ?last"
    using safe by (simp add: content_disposition_def quoted_string_def escape_safe)
  have "list_all (\<lambda>c. byte_in 32 126 c) ?f"
    using safe by (auto simp: list_all_iff byte_in_def plain_char_def file_name_char_def is_ascii_alphabetic_def is_ascii_digit_def)
  moreover have "list_all (\<lambda>c. byte_in 32 126 c) ?e"
    using assms(1) by (fastforce simp: list_all_iff byte_in_def)
  ultimately have "rl_header_value lib (content_disposition lib d)"
    using assms(4) by (intro assms(3)) (auto simp: content_disposition_def byte_in_def)
  moreover have "split_quoted (content_disposition lib d) (CHR '';'') = Inr [dl_disposition d, '' filename='' @ quoted_string ?f, ?last]"
  proof -
    have "DQUOTE \<notin> set ?last" "CHR '';'' \<notin> set ?last" using assms(1) by auto
    then have "split_quoted_from (CHR '';'') False False [] (?last @ []) = Inr [?last]"
      using split_plain [of ?last "CHR '';''" "[]" "[]"] by simp
    then have "split_quoted_from (CHR '';'') False False [] ('' filename='' @ quoted_string ?f @ '';'' @ ?last) = Inr ['' filename='' @ quoted_string ?f, ?last]"
      using split_plain [of "'' filename=''" "CHR '';''" "[]" "quoted_string ?f @ '';'' @ ?last"]
        split_over_quoted [of "CHR '';''" "'' filename=''" ?f "'';'' @ ?last"] by simp
    moreover have "DQUOTE \<notin> set (dl_disposition d)" "CHR '';'' \<notin> set (dl_disposition d)" using assms(4) by auto
    ultimately show ?thesis
      unfolding v split_quoted_def using split_plain [of "dl_disposition d" "CHR '';''" "[]"] by simp
  qed
  moreover have "?f \<notin> {[], ''.'', ''..''}" using safe by auto
  ultimately show ?thesis
    using assms(2,5) safe unquote_quoted [of ?f]
    by (intro exI conjI) (auto simp: download_response_def insert_header_def header_insert_def header_get_def response_new_def)
qed

definition demo_response_lib :: response_lib where
  "demo_response_lib = \<lparr>rl_header_value = list_all (\<lambda>c. byte_in 32 126 c), rl_percent_encode = pct_encode non_alphanumeric\<rparr>"

lemma hex_digit_visible:
  assumes "n < 16"
  shows "byte_in 33 126 (hex_digit n) \<and> hex_digit n \<notin> {DQUOTE, CHR '';''}"
proof -
  have v: "(of_char (hex_digit n) :: nat) = (if n < 10 then 48 + n else 55 + n)" by (rule hex_digit_of_char [OF assms])
  then have "hex_digit n \<noteq> DQUOTE" "hex_digit n \<noteq> CHR '';''" using assms by (auto split: if_splits)
  then show ?thesis using v assms by (simp add: byte_in_def)
qed

lemma of_char_less_256: "(of_char c :: nat) < 256"
  by simp

lemma pct_encode_visible: "c \<in> set (pct_encode non_alphanumeric v) \<Longrightarrow> byte_in 33 126 c \<and> c \<notin> {DQUOTE, CHR '';''}"
proof (induction v)
  case (Cons b v)
  have "byte_in 33 126 b \<and> b \<notin> {DQUOTE, CHR '';''}" if "\<not> (non_alphanumeric b \<or> byte_in 128 255 b)"
    using that of_char_less_256 [of b] by (auto simp: non_alphanumeric_def byte_in_def is_ascii_alphabetic_def is_ascii_digit_def)
  moreover have "byte_in 33 126 (CHR ''%'')" by (simp add: byte_in_def)
  ultimately show ?case
    using Cons hex_digit_visible [of "of_char b div 16"] hex_digit_visible [of "of_char b mod 16"] byte_halves [of b]
    by (simp only: pct_encode_Cons) (auto split: if_splits)
qed (simp add: pct_encode_def)

theorem download_names_file_witness:
  "\<exists>(r :: (unit, unit) response) v. download_response demo_response_lib (download_attachment ''x'' ''../..'' ''text/plain'') = Some r \<and>
     header_get ''content-disposition'' (rp_headers r) = Some v"
proof -
  let ?d = "download_attachment ''x'' ''../..'' ''text/plain''"
  have visible: "byte_in 33 126 c \<and> c \<notin> {DQUOTE, CHR '';''}" if "c \<in> set (rl_percent_encode demo_response_lib v)" for v c
    using pct_encode_visible that by (simp add: demo_response_lib_def)
  have decodes: "pct_decode (rl_percent_encode demo_response_lib v) = v" for v
    using pct_round_trip [of non_alphanumeric] by (simp add: demo_response_lib_def non_alphanumeric_def is_ascii_alphabetic_def is_ascii_digit_def byte_in_def)
  have accepted: "rl_header_value demo_response_lib v" if "list_all (\<lambda>c. byte_in 32 126 c) v" for v
    using that by (simp add: demo_response_lib_def)
  have kind: "dl_disposition ?d \<in> {''attachment'', ''inline''}" and media: "rl_header_value demo_response_lib (dl_content_type ?d)"
    by (simp_all add: download_attachment_def download_new_def demo_response_lib_def byte_in_def)
  show ?thesis
    using download_names_file [where lib = demo_response_lib and d = ?d and ?'x = unit and ?'w = unit] visible decodes accepted kind media
    by blast
qed

end
