(* ===== verification/Spec2Isabelle.thy ===== *)
theory Spec2Isabelle
  imports Pay_Witness Queue_Props Sched_Safety Hub_Channel Route_Witness Auth_Props Rate_Limit
    Web_Csp_Props Session_Sign_In Token_Props Sse_Props Validation_Props Migration_Props Pagination_Props
    Plugin_Props Captcha_Props Secure_Props View_Props Pay_Wechat_Props Pay_Alipay_Props Http_Body_Props
begin

text \<open>
  A verification of the core of Phoenix, a web framework in Rust made of some thirty crates
  under \<open>src/crates\<close>. Eight subsystems are modelled from their sources: payments with their two
  gateways, background jobs, the task scheduler, the request side of the web layer with its router, its broadcast hub,
  event streams and validation, the security layer: authorization, rate limits, sessions, tokens,
  captchas, the encrypted transport of pages and the guards in front of a handler, the database's
  migrations and pages, the pages of the view layer, and the composition of an application from
  features and a console. They share the conventions of \<open>Phoenix_Prelude\<close>, \<open>Rust_Text\<close> and
  \<open>Rust_Collections\<close> and are otherwise as independent of each other as the crates are.

  \<^bold>\<open>Conventions.\<close> A struct is a record, an enum a datatype, a \<open>Result\<close> the sum type with the
  error on the left; a fallible method on a state is an \<open>op\<close>, which returns its result and the
  state it leaves, also on an error. Unsigned integers are words of their width where they
  can overflow; \<open>i64\<close> seconds of the calendar are \<open>int\<close>, with the range as a theorem. Strings are
  their UTF-8 bytes. A \<open>BTreeMap\<close> is its sorted list of entries; a \<open>HashMap\<close> is a partial function,
  and code that walks it takes the order as an argument. Clock readings, fresh identifiers
  and the answers of code outside the repository are arguments too. A panic is a value.

  \<^bold>\<open>Payments\<close> (\<open>phoenix-pay\<close>: \<open>amount.rs\<close>, \<open>status.rs\<close>, \<open>error.rs\<close>, \<open>order.rs\<close>, \<open>refund.rs\<close>, \<open>store.rs\<close>,
  \<open>reconcile.rs\<close>, \<open>manager.rs\<close>, \<open>provider.rs\<close>). \<open>Pay_Types\<close> has amounts, their decimal text and the
  two state machines; \<open>Pay_Store\<close> the records, the store interface as the locale
  \<open>payment_store\<close> and \<open>MemoryPaymentStore\<close> as its interpretation; \<open>Pay_Manager\<close> every method of
  \<open>PayManager\<close> over any store and provider; \<open>Pay_Mock\<close> the mock provider; \<open>Pay_Reconcile\<close> bills and
  their comparison with the stored orders. \<open>Pay_Safety\<close> and \<open>Pay_Calls\<close> show what holds after every
  history of calls: refunds never exceed their order, orders follow their life cycle, and what is
  settled is never modified again.
  \<open>Pay_Flow\<close> gives the outcome of the methods branch by branch, \<open>Pay_Scenarios\<close> a whole payment and
  refund through the mock provider, \<open>Pay_Witness\<close> the examples and two histories in which the
  code does not do what its documentation says: a replayed notification during a refund, and
  two concurrent refunds.

  \<^bold>\<open>Gateways\<close> (\<open>phoenix-pay\<close>: \<open>gateway.rs\<close>, \<open>wechat.rs\<close>, \<open>alipay.rs\<close>, \<open>crypto.rs\<close>, \<open>transport.rs\<close>, \<open>config.rs\<close>,
  \<open>zip.rs\<close>). \<open>Pay_Gateway\<close> has keys, signatures, encodings and addresses, over the record \<open>gateway_lib\<close> of
  the packages and the record \<open>gateway_io\<close> of the world: the HTTPS client, the clock, random numbers
  and files. \<open>Pay_Wechat\<close> and \<open>Pay_Alipay\<close> have the two providers with every method, on the cells where
  they keep their keys and certificates; \<open>Pay_Zip\<close> the reader of bill archives. \<open>Pay_Wechat_Props\<close> shows
  that after any sequence of calls nothing is read from a response or a notification without the
  signature of a platform key, \<open>Pay_Alipay_Props\<close> which part of a response is signed, when the signed
  text of a notification determines its fields, and that an accepted notification is signed;
  \<open>Pay_Zip_Props\<close> that archives are read back and never inflate past the limit. One method runs at a
  time on the cells of a provider.

  \<^bold>\<open>Jobs\<close> (\<open>phoenix-queue\<close>: \<open>job.rs\<close>, \<open>error.rs\<close>, \<open>backend.rs\<close>, \<open>queue.rs\<close>, \<open>memory.rs\<close>, \<open>worker.rs\<close>).
  \<open>Queue_Types\<close> has job envelopes, the queue facade and the backend contract \<open>queue_backend\<close>;
  \<open>Queue_Memory\<close> every method of \<open>MemoryQueue\<close>, with a poisoned lock, and the proof that it meets
  the contract; \<open>Queue_Worker\<close> the worker loop over any such backend, run for a list of ticks, so
  that every prefix of an endless run is covered; \<open>Queue_Props\<close> the properties of the queue and the
  worker on it: no job is lost or handed out out of order, keys are honoured, and what a late
  answer does to a job.

  \<^bold>\<open>Scheduler\<close> (\<open>phoenix-schedule\<close>: \<open>civil.rs\<close>, \<open>cron.rs\<close>, \<open>spec.rs\<close>, \<open>schedule.rs\<close>, \<open>lock.rs\<close>, \<open>error.rs\<close>).
  \<open>Sched_Civil\<close> has the calendar, \<open>Sched_Cron\<close> the cron parser and the search for the next match,
  \<open>Sched_Reach\<close> that the search finds the first match and that its bound of days is enough for
  every expression that can match at all, \<open>Sched_Spec\<close> the specs and their next run. \<open>Sched_Run\<close>
  has the runner: due jobs, a round, the resident loop over a list of clock readings, and the
  tasks of a round under the overlap lock as a step relation. \<open>Sched_Safety\<close> states the lock as
  the locales \<open>overlap_lock\<close> and \<open>exact_lock\<close>, interprets them on \<open>InProcessLock\<close>, and shows that jobs of
  one name never overlap, that a round only waits for bodies that do not end and starves no job, and which jobs a pass starts. The loop that fills
  the bits of a cron field is structural on the number of values left.

  \<^bold>\<open>Hub\<close> (\<open>phoenix-http\<close>: \<open>hub.rs\<close>). \<open>Hub\<close> has every method of \<open>HubInner\<close> as one function on the locked
  state, over any channel type of the runtime; \<open>Hub_Props\<close> the invariant and what delivery and
  eviction do; \<open>Hub_History\<close> the invariant through every history; \<open>Hub_Channel\<close> the contract of the
  channels as the locale \<open>mpsc_channel\<close>, with a simulation of the hub on any channel by the hub
  on bounded queues, the properties, and the identifiers of hubs. Histories are
  shorter than \<open>2 ^ 64\<close> calls, so that connection numbers do not repeat.

  \<^bold>\<open>Router\<close> (\<open>phoenix-routing\<close>: \<open>lib.rs\<close>, with \<open>phoenix-http\<close>: \<open>lib.rs\<close>). \<open>Http_Core\<close> has the requests,
  responses and middleware the router uses, \<open>Route\<close> the declarations, the builder, dispatch,
  mounted applications and named URLs, over the record \<open>route_env\<close> of the packages it calls; the
  set of bytes that are percent encoded is the code's, the encoding by a set is the package's.
  \<open>Route_Props\<close> shows that a built router agrees with a reference definition over the
  declarations, that the most specific application is chosen whatever the order, and that a
  generated URL decodes to its parameters; \<open>Route_Witness\<close> has an instance of \<open>route_env\<close> on which
  the assumptions hold. A handler is a total function on a state: one that never answers is
  outside the model.

  \<^bold>\<open>Bodies and forms\<close> (\<open>phoenix-http\<close>: \<open>lib.rs\<close>). \<open>Http_Body\<close> has streamed responses, the observers of a body and
  the stream that carries them to the connection, redirects and downloads; \<open>Http_Multipart\<close> the
  extractor of multipart forms with its parser. \<open>Http_Body_Props\<close> shows that every observer is called
  exactly once, whichever way a response is used up, and how a reader of a download finds its name;
  \<open>Http_Multipart_Props\<close> that the parser reads back what a client writes, and that no field runs over
  a delimiter. A stream is polled for a list of environment steps, so that every prefix is covered.

  \<^bold>\<open>Authorization\<close> (\<open>phoenix-auth\<close>: \<open>lib.rs\<close>). \<open>Auth\<close> has roles, principals, the expansion of inherited
  permissions, the decision over roles and policies with its audit, and the middleware that
  requires a permission. \<open>Auth_Props\<close> shows that building the role graph succeeds exactly on sound
  graphs and yields the permissions of all ancestors, and that a denial overrides every grant.

  \<^bold>\<open>Rate limits\<close> (\<open>phoenix-security\<close>: \<open>lib.rs\<close>). \<open>Rate_Limit\<close> has the in-memory backend, the middleware, and
  their agreement with a fixed window counter per key.

  \<^bold>\<open>Sessions and signing in\<close> (\<open>phoenix-security\<close>: \<open>lib.rs\<close>, \<open>session_backend.rs\<close>; \<open>phoenix-auth\<close>: \<open>identity.rs\<close>).
  \<open>Web_Session\<close> has the session handle over the in-process table or over loaded values, and
  \<open>AuthGuard\<close> over any session and user provider; \<open>Web_Session_Props\<close> the contract of \<open>AuthSession\<close> as
  the locale \<open>auth_session_laws\<close>, its interpretation, and what signing in and out does.
  \<open>Session_Backend\<close> has the shared backends, the commit at the end of a request, both session
  middlewares with their cookies, and CSRF; the session of a request is a cell in the state the
  handlers run on. \<open>Session_Backend_Props\<close> states the contract of a backend as the locale
  \<open>versioned_sessions\<close>, interprets it on the in-memory backend and shows that a commit never
  overwrites the write of another request; \<open>Session_Sign_In\<close> puts guard, session and backend
  together. The search for a free identifier makes the four attempts of the code.

  \<^bold>\<open>Guards\<close> (\<open>phoenix-security\<close>: \<open>lib.rs\<close>). \<open>Web_Guard\<close> has request identifiers, trusted proxies, the
  redirect to HTTPS, allowed hosts and CORS; \<open>Web_Csp\<close> the browser headers, the policies with a
  nonce and the redaction of headers. \<open>Web_Guard_Props\<close> and \<open>Web_Csp_Props\<close> show which
  address the application sees and when a client cannot choose it, which cross-origin requests reach a handler, and how a browser reads a
  rendered policy. The packages these guards call are the record \<open>web_env\<close>.

  \<^bold>\<open>Tokens\<close> (\<open>phoenix-crypto\<close>: \<open>jwt.rs\<close>, \<open>token.rs\<close>). \<open>Jwt\<close> has the claims, keys and policies of signed access
  tokens, issuing, verifying and the bearer middleware, over the record \<open>jwt_lib\<close> of the package
  that encodes and signs; \<open>Token\<close> the refresh records, rotation, revocation, the in-memory and the
  file store and \<open>TokenService\<close>. \<open>Token_Props\<close> states the contract of a store as the locale
  \<open>token_store_contract\<close>, interprets it on both stores, and shows over arbitrary sequences of store
  calls that a refresh token rotates at most once and that reuse ends its family; and that a
  revocation ends before the leeway of the verification does.

  \<^bold>\<open>Event streams\<close> (\<open>phoenix-http\<close>: \<open>sse.rs\<close>). \<open>Sse\<close> has server-sent events, their encoding, keepalives, the
  body stream with its size limit over a list of polls, and the cursor of a reconnecting client.
  \<open>Sse_Props\<close> has a browser's parser of such a stream and shows that it reads exactly the events that
  were sent, whatever their texts contain.

  \<^bold>\<open>Validation\<close> (\<open>phoenix-validation\<close>: \<open>lib.rs\<close>, \<open>messages.rs\<close>). \<open>Validation\<close> has the rules, paths into the data,
  the validator, the request extractor and the catalogs of messages with their registry;
  \<open>Validation_Props\<close> shows that exactly the failing rules are reported, and that overriding a
  message changes that message alone.

  \<^bold>\<open>Database\<close> (\<open>phoenix-database\<close>: \<open>migration.rs\<close>, \<open>pagination.rs\<close>). \<open>Migration\<close> has migrations, their
  checksums and validation, and the runner in its variants, over an environment that says what
  a statement does to the database, and what a transaction that is dropped leaves; \<open>Migration_Props\<close> shows what a run leaves behind when it succeeds
  and when it fails, and that rolling back undoes it, where the environment does what SQL documents
  for the statements that control transactions, as it does on SQLite and PostgreSQL. \<open>Pagination\<close> has numbered pages and cursors
  over any query; \<open>Pagination_Props\<close> shows that pages cover the rows once each and that a cursor
  comes back as its key.

  \<^bold>\<open>Features\<close> (\<open>phoenix-console\<close>, \<open>phoenix-plugin\<close>: \<open>lib.rs\<close>). \<open>Console\<close> has the command table of an
  application, its usage text and the run of an argument list; \<open>Plugin\<close> the capabilities of a
  plugin and its installation into a feature set with every refusal. \<open>Plugin_Props\<close> shows which lists
  of plugins install and what they then contribute, and which commands the console reaches.

  \<^bold>\<open>Captchas\<close> (\<open>phoenix-captcha\<close>: \<open>lib.rs\<close>, \<open>store.rs\<close>, \<open>db_store.rs\<close>). \<open>Captcha\<close> has the configuration, challenges in
  the session and in a store, the two stores, the extractor, the validation rule and the feature.
  \<open>Captcha_Props\<close> states the contract of a store as the locale \<open>one_time_store\<close> and interprets it on both,
  shows that the database store does what the one in memory does, that no challenge is accepted
  more often than it was issued, also when requests take it at the same time, and what a session
  allows. A statement of the database that fails changes nothing.

  \<^bold>\<open>Encrypted pages\<close> (\<open>phoenix-crypto\<close>: \<open>secure.rs\<close>). \<open>Secure\<close> has the frames, the handshake, the session keys
  and the layer that opens requests and seals pages, over the record \<open>secure_lib\<close> of the packages:
  elliptic curve, key derivation, cipher, base64 and JSON. \<open>Secure_Props\<close> shows, for a cipher that
  opens exactly what it sealed, which byte strings open as frames and that they are bound to their
  direction and key, that both sides read what the
  other wrote, and that a handshake ends the sessions opened before it.

  \<^bold>\<open>Pages\<close> (\<open>phoenix-view\<close>: \<open>lib.rs\<close>, \<open>document.rs\<close>, \<open>i18n.rs\<close>, \<open>assets.rs\<close>, \<open>static_files.rs\<close>). \<open>View_Document\<close> has
  the page envelope, the slots of a document and the document itself; \<open>View_Html\<close> how a browser reads
  such a text, with a tokenizer for the constructs that occur in it, and \<open>View_Json\<close> a reader of JSON;
  \<open>View_I18n\<close> translations and the choice of a locale, \<open>View_Assets\<close> production assets and their files,
  \<open>View_Page\<close> the page builder, its responses, rendering at once and in chunks, and the codecs. \<open>View_Props\<close>
  shows that a browser reads exactly what the page says, that streaming changes the delivery only,
  and that a codec decrypts what it encrypts; the other two that the best locale is chosen and that exactly the files
  of the assets are served. The renderer is a function on the state, JSON text, floating point
  and the cipher are arguments; a quality that is not a number has no result.

  \<^bold>\<open>Not modelled.\<close> The HTTPS client of the gateways, the database and Redis adapters, encryption and passwords, the
  server runtime, the renderer process, storage, configuration, mail, metrics and the command line tools
  are wrappers of libraries, of the network or of the file system.
\<close>

end
